(* ===== verification/Prelude.thy ===== *)
theory Prelude
  imports Main "HOL-Library.Word"
begin

unbundle bit_operations_syntax

text \<open>
  Shared vocabulary of the development: the Go byte and integer types, byte strings, the
  big-endian conversions of \<^verbatim>\<open>encoding/binary\<close>, and the generic lemmas on lists and words the
  component theories rest on. Everything a Go function returns together with an \<open>error\<close>, and
  every panic, is a value of a sum type, \<open>Inl\<close> the error.
\<close>

section \<open>Types\<close>

type_synonym byte = "8 word"
type_synonym bytes = "byte list"
type_synonym u32 = "32 word"
type_synonym u64 = "64 word"

text \<open>The collections the component proofs add to \<open>simp\<close> and \<open>auto\<close>.\<close>

named_theorems codec_simps \<open>lengths and inverses of the encoders\<close>
named_theorems store_simps \<open>what a getter of the store returns after a setter\<close>
named_theorems op_defs \<open>definitions of the operations, unfolded together\<close>

lemma unat_byte_less [simp]: "unat (b :: byte) < 256"
  using unsigned_less [of b] by simp

lemma unat_u32_less: "unat (v :: u32) < 256 ^ 4"
  using unsigned_less [of v] by simp

lemma unat_u64_less: "unat (v :: u64) < 256 ^ 8"
  using unsigned_less [of v] by simp

lemma unat_u64_of_nat: "n < 2 ^ 64 \<Longrightarrow> unat (word_of_nat n :: u64) = n"
  by (simp add: unat_of_nat)

section \<open>Strings and bytes\<close>

text \<open>Go's conversions \<^verbatim>\<open>[]byte(s)\<close> and \<^verbatim>\<open>string(b)\<close>: a Go string is its bytes.\<close>

definition bytes_of_string :: "string \<Rightarrow> bytes" where
  "bytes_of_string s = map of_char s"

definition string_of_bytes :: "bytes \<Rightarrow> string" where
  "string_of_bytes bs = map (\<lambda>b. char_of (unat b)) bs"

lemma unat_of_char [simp]: "unat (of_char c :: byte) = of_char c"
proof -
  have "(of_char c :: byte) = word_of_nat (of_char c)"
    by (simp add: of_nat_of_char)
  moreover have "of_char c < (256 :: nat)"
    by (rule nat_of_char_less_256)
  ultimately show ?thesis
    by (simp add: unat_of_nat)
qed

lemma string_of_bytes_of_string [simp]: "string_of_bytes (bytes_of_string s) = s"
  by (simp add: string_of_bytes_def bytes_of_string_def comp_def)

lemma bytes_of_string_of_bytes [simp]: "bytes_of_string (string_of_bytes bs) = bs"
proof -
  have "(of_char (char_of (unat b)) :: byte) = b" for b :: byte
  proof -
    have "unat b < 256" by simp
    then have "(of_char (char_of (unat b)) :: nat) = unat b"
      by simp
    then show ?thesis
      by (simp add: word_unat_eq_iff)
  qed
  then show ?thesis
    by (simp add: string_of_bytes_def bytes_of_string_def comp_def)
qed

lemma bytes_of_string_inject [simp]: "bytes_of_string s = bytes_of_string t \<longleftrightarrow> s = t"
  by (metis string_of_bytes_of_string)

lemma string_of_bytes_inject [simp]: "string_of_bytes s = string_of_bytes t \<longleftrightarrow> s = t"
  by (metis bytes_of_string_of_bytes)

lemma length_bytes_of_string [simp]: "length (bytes_of_string s) = length s"
  by (simp add: bytes_of_string_def)

section \<open>Big-endian integers\<close>

text \<open>\<open>be_bytes n x\<close> are the \<open>n\<close> low-order bytes of \<open>x\<close>, most significant first;
  \<open>be_nat\<close> reads such a string.\<close>

fun be_bytes :: "nat \<Rightarrow> nat \<Rightarrow> bytes" where
  "be_bytes 0 x = []"
| "be_bytes (Suc n) x = be_bytes n (x div 256) @ [word_of_nat (x mod 256)]"

definition be_nat :: "bytes \<Rightarrow> nat" where
  "be_nat bs = foldl (\<lambda>acc b. acc * 256 + unat b) 0 bs"

lemma be_nat_Nil [simp]: "be_nat [] = 0"
  by (simp add: be_nat_def)

lemma be_nat_snoc [simp]: "be_nat (bs @ [b]) = be_nat bs * 256 + unat b"
  by (simp add: be_nat_def)

lemma be_nat_append: "be_nat (as @ bs) = be_nat as * 256 ^ length bs + be_nat bs"
proof (induction bs rule: rev_induct)
  case Nil
  then show ?case by simp
next
  case (snoc b bs)
  have "be_nat (as @ bs @ [b]) = be_nat (as @ bs) * 256 + unat b"
    using be_nat_snoc [of "as @ bs" b] by simp
  with snoc show ?case by (simp add: algebra_simps)
qed


lemma be_nat_less: "be_nat bs < 256 ^ length bs"
proof (induction bs rule: rev_induct)
  case Nil
  then show ?case by simp
next
  case (snoc b bs)
  have "be_nat bs + 1 \<le> 256 ^ length bs" using snoc by simp
  then have "(be_nat bs + 1) * 256 \<le> 256 ^ length bs * 256" by (rule mult_le_mono1)
  moreover have "unat b < 256" by (rule unat_byte_less)
  ultimately have "be_nat bs * 256 + unat b < 256 ^ length bs * 256"
    unfolding add_mult_distrib by linarith
  then show ?case by (simp add: mult.commute)
qed

lemma length_be_bytes [simp, codec_simps]: "length (be_bytes n x) = n"
  by (induction n x rule: be_bytes.induct) auto

lemma unat_word_of_nat_byte [simp]: "x < 256 \<Longrightarrow> unat (word_of_nat x :: byte) = x"
  by (simp add: unat_of_nat)

lemma be_nat_be_bytes [codec_simps]: "be_nat (be_bytes n x) = x mod 256 ^ n"
proof (induction n x rule: be_bytes.induct)
  case (1 x)
  then show ?case by simp
next
  case (2 n x)
  have "be_nat (be_bytes (Suc n) x) = (x div 256 mod 256 ^ n) * 256 + x mod 256"
    using 2 by simp
  also have "\<dots> = x mod 256 ^ Suc n"
    by (simp add: mod_mult2_eq)
  finally show ?case .
qed

lemma be_bytes_be_nat [codec_simps]: "length bs = n \<Longrightarrow> be_bytes n (be_nat bs) = bs"
proof (induction n arbitrary: bs)
  case 0
  then show ?case by simp
next
  case (Suc n)
  then obtain b cs where bs: "bs = cs @ [b]"
    by (metis append_butlast_last_id length_0_conv nat.distinct(1))
  with Suc.prems have "length cs = n" by simp
  have "(be_nat cs * 256 + unat b) div 256 = be_nat cs"
    by (simp add: div_add1_eq)
  moreover have "(be_nat cs * 256 + unat b) mod 256 = unat b"
    by simp
  ultimately show ?case
    using Suc.IH [OF \<open>length cs = n\<close>] bs by simp
qed

lemma be_nat_inject: "length as = length bs \<Longrightarrow> be_nat as = be_nat bs \<longleftrightarrow> as = bs"
  by (metis be_bytes_be_nat)

lemma be_bytes_inject:
  "x < 256 ^ n \<Longrightarrow> y < 256 ^ n \<Longrightarrow> be_bytes n x = be_bytes n y \<longleftrightarrow> x = y"
  by (metis be_nat_be_bytes mod_less)

lemma be_bytes_mod: "be_bytes n (x mod 256 ^ n) = be_bytes n x"
  by (metis be_bytes_be_nat be_nat_be_bytes length_be_bytes)

lemma be_nat_replicate_0 [simp]: "be_nat (replicate n 0) = 0"
proof (induction n)
  case (Suc n)
  have "replicate (Suc n) (0 :: byte) = replicate n 0 @ [0]"
    by (simp add: replicate_append_same)
  with Suc show ?case by (simp del: replicate_Suc)
qed simp

text \<open>\<^verbatim>\<open>binary.BigEndian.PutUint32\<close> and \<^verbatim>\<open>PutUint64\<close> into a buffer of that size, and \<^verbatim>\<open>Uint64\<close>.\<close>

definition PutUint32 :: "u32 \<Rightarrow> bytes" where
  "PutUint32 v = be_bytes 4 (unat v)"

definition PutUint64 :: "u64 \<Rightarrow> bytes" where
  "PutUint64 v = be_bytes 8 (unat v)"

definition BigEndianUint64 :: "bytes \<Rightarrow> u64" where
  "BigEndianUint64 bs = word_of_nat (be_nat (take 8 bs))"

lemma length_PutUint32 [simp, codec_simps]: "length (PutUint32 v) = 4"
  by (simp add: PutUint32_def)

lemma length_PutUint64 [simp, codec_simps]: "length (PutUint64 v) = 8"
  by (simp add: PutUint64_def)

lemma PutUint32_inject [simp]: "PutUint32 v = PutUint32 w \<longleftrightarrow> v = w"
  by (simp add: PutUint32_def be_bytes_inject [OF unat_u32_less unat_u32_less] word_unat_eq_iff)

lemma PutUint64_inject [simp]: "PutUint64 v = PutUint64 w \<longleftrightarrow> v = w"
  by (simp add: PutUint64_def be_bytes_inject [OF unat_u64_less unat_u64_less] word_unat_eq_iff)

lemma BigEndianUint64_PutUint64 [simp, codec_simps]: "BigEndianUint64 (PutUint64 v) = v"
  unfolding BigEndianUint64_def PutUint64_def
  using unat_u64_less [of v] by (simp add: be_nat_be_bytes)

lemma PutUint64_BigEndianUint64 [codec_simps]:
  assumes "length bs = 8"
  shows "PutUint64 (BigEndianUint64 bs) = bs"
proof -
  have "be_nat bs < 2 ^ 64" using be_nat_less [of bs] assms by simp
  then have "unat (word_of_nat (be_nat bs) :: u64) = be_nat bs"
    by (simp add: unat_of_nat)
  then show ?thesis
    using assms by (simp add: PutUint64_def BigEndianUint64_def be_bytes_be_nat)
qed

section \<open>Lists\<close>

lemma append_same_length:
  "length a = length c \<Longrightarrow> a @ b = c @ d \<longleftrightarrow> a = c \<and> b = d"
  by simp

lemma take_drop_split: "n \<le> length xs \<Longrightarrow> take n xs @ drop n xs = xs"
  by simp

section \<open>Interfaces shared by the codecs\<close>

text \<open>
  The contract of an encoder and its decoder. Every codec of the code is an interpretation: the
  weaker one where the decoder accepts more than the encoder writes, the stronger one where the
  encoding is canonical.
\<close>

locale roundtrip_codec =
  fixes enc :: "'a \<Rightarrow> bytes"
    and dec :: "bytes \<Rightarrow> 'e + 'a"
    and valid :: "'a \<Rightarrow> bool"
  assumes dec_enc: "valid x \<Longrightarrow> dec (enc x) = Inr x"
begin

lemma enc_inj: "valid x \<Longrightarrow> valid y \<Longrightarrow> enc x = enc y \<Longrightarrow> x = y"
  by (metis dec_enc sum.inject(2))

lemma enc_inj_on: "inj_on enc (Collect valid)"
  by (auto simp: inj_on_def intro: enc_inj)

end

locale canonical_codec = roundtrip_codec +
  assumes dec_sound: "dec b = Inr x \<Longrightarrow> valid x \<and> enc x = b"
begin

lemma dec_iff: "dec b = Inr x \<longleftrightarrow> valid x \<and> enc x = b"
  using dec_enc dec_sound by blast

lemma dec_unique: "dec a = Inr x \<Longrightarrow> dec b = Inr x \<Longrightarrow> a = b"
  using dec_sound by blast

end

end
