(* ===== verification/Rlp.thy ===== *)
theory Rlp
  imports Prelude
begin

text \<open>
  The RLP codec of \<^verbatim>\<open>p/onbloc/encoding/rlp\<close>: the encoders \<open>EncodeBytes\<close> and \<open>EncodeList\<close>,
  the decoder \<open>DecodeValue\<close> with its canonical-form checks and depth limit, and the two round
  trips between them: every value with a legal size decodes from its encoding, and every byte
  string the decoder accepts is the encoding of the value it returns, so an item has exactly
  one accepted spelling. Slices are lists; \<open>int\<close> sizes, never negative here, are naturals.
\<close>

section \<open>Types (types.gno)\<close>

datatype rlp_kind = KindByte | KindString | KindList

datatype rlp_value = RlpValue (Kind: rlp_kind) (Bytes: bytes) (List: "rlp_value list")

text \<open>The error values the package returns; \<open>OutOfFuel\<close> is the model's own, for a decoder call
  whose fuel is used up, and \<open>DecodeValue_total\<close> below shows that \<open>DecodeValue\<close> never returns it.\<close>

datatype rlp_error = ErrCanonSize | ErrValueTooLarge | ErrTrailingBytes | ErrUnexpectedEOF
  | ErrDepthLimit | OutOfFuel

definition maxDecodeDepth :: nat where
  "maxDecodeDepth = 256"

definition maxInt :: nat where
  "maxInt = 2 ^ 63 - 1"

section \<open>Encoder (encode.gno)\<close>

definition intSize :: "u64 \<Rightarrow> nat" where
  "intSize x =
     (if x < 2 ^ 8 then 1
      else if x < 2 ^ 16 then 2
      else if x < 2 ^ 24 then 3
      else if x < 2 ^ 32 then 4
      else if x < 2 ^ 40 then 5
      else if x < 2 ^ 48 then 6
      else if x < 2 ^ 56 then 7
      else 8)"

text \<open>The loop \<^verbatim>\<open>for i := n - 1; i >= 0; i--\<close> appends the byte \<^verbatim>\<open>byte(x >> uint(i*8))\<close>.\<close>

definition appendBigEndianUint :: "bytes \<Rightarrow> u64 \<Rightarrow> nat \<Rightarrow> bytes" where
  "appendBigEndianUint out x n = out @ map (\<lambda>i. ucast (drop_bit (i * 8) x)) (rev [0..<n])"

definition appendHeader :: "bytes \<Rightarrow> byte \<Rightarrow> u64 \<Rightarrow> bytes" where
  "appendHeader out baseTag sz =
     (if sz < 56 then out @ [baseTag + ucast sz]
      else let n = intSize sz; out' = out @ [baseTag + 55 + word_of_nat n]
           in appendBigEndianUint out' sz n)"

definition appendBytes :: "bytes \<Rightarrow> bytes \<Rightarrow> bytes" where
  "appendBytes out b =
     (if length b = 1 \<and> b ! 0 \<le> 0x7f then out @ [b ! 0]
      else appendHeader out 0x80 (word_of_nat (length b)) @ b)"

definition EncodeBytes :: "bytes \<Rightarrow> bytes" where
  "EncodeBytes b = appendBytes [] b"

definition EncodeList :: "bytes list \<Rightarrow> bytes" where
  "EncodeList items =
     (let sz = foldl (\<lambda>acc item. acc + length item) 0 items
      in foldl (@) (appendHeader [] 0xC0 (word_of_nat sz)) items)"

text \<open>The capacity hints of \<^verbatim>\<open>make\<close>.\<close>

definition headerSize :: "nat \<Rightarrow> nat" where
  "headerSize payloadSize =
     (if payloadSize < 56 then 1 else 1 + intSize (word_of_nat payloadSize))"

definition bytesSize :: "bytes \<Rightarrow> nat" where
  "bytesSize b = (let n = length b in if n = 1 \<and> b ! 0 \<le> 0x7f then 1 else headerSize n + n)"

definition listSize :: "nat \<Rightarrow> nat" where
  "listSize contentSize = headerSize contentSize + contentSize"

section \<open>Decoder (decode.gno)\<close>

definition readSize :: "bytes \<Rightarrow> nat \<Rightarrow> rlp_error + nat" where
  "readSize b sizeLen =
     (if sizeLen = 0 \<or> sizeLen > 8 \<or> length b < sizeLen then Inl ErrUnexpectedEOF
      else if b ! 0 = 0 then Inl ErrCanonSize
      else let sz = foldl (\<lambda>sz c. push_bit 8 sz OR ucast c) (0 :: u64) (take sizeLen b)
           in if sz < 56 then Inl ErrCanonSize
              else if sz > word_of_nat maxInt then Inl ErrValueTooLarge
              else Inr (unat sz))"

definition readLongItem :: "bytes \<Rightarrow> nat \<Rightarrow> rlp_kind \<Rightarrow> rlp_error + rlp_kind \<times> nat \<times> nat" where
  "readLongItem b sizeLen kind =
     (case readSize (drop 1 b) sizeLen of
        Inl err \<Rightarrow> Inl err
      | Inr sz \<Rightarrow>
          if sz > length b - 1 - sizeLen then Inl ErrValueTooLarge
          else Inr (kind, 1 + sizeLen, sz))"

definition readKind :: "bytes \<Rightarrow> rlp_error + rlp_kind \<times> nat \<times> nat" where
  "readKind b =
     (case b of
        [] \<Rightarrow> Inl ErrUnexpectedEOF
      | prefix # _ \<Rightarrow>
          if prefix < 0x80 then Inr (KindByte, 0, 1)
          else if prefix < 0xB8 then
            (let sz = unat (prefix - 0x80)
             in if sz = 1 \<and> length b > 1 \<and> b ! 1 < 0x80 then Inl ErrCanonSize
                else if length b < 1 + sz then Inl ErrValueTooLarge
                else Inr (KindString, 1, sz))
          else if prefix < 0xC0 then readLongItem b (unat (prefix - 0xB7)) KindString
          else if prefix < 0xF8 then
            (let sz = unat (prefix - 0xC0)
             in if length b < 1 + sz then Inl ErrValueTooLarge
                else Inr (KindList, 1, sz))
          else readLongItem b (unat (prefix - 0xF7)) KindList)"

text \<open>The slices \<^verbatim>\<open>b[tagSize:end]\<close> and \<^verbatim>\<open>b[end:]\<close>; \<open>readKind_bounds\<close> shows they are in range.\<close>

definition split :: "bytes \<Rightarrow> rlp_error + rlp_kind \<times> bytes \<times> bytes" where
  "split b =
     (case readKind b of
        Inl err \<Rightarrow> Inl err
      | Inr (k, tagSize, contentSize) \<Rightarrow>
          let e = tagSize + contentSize
          in Inr (k, take contentSize (drop tagSize b), drop e b))"

text \<open>\<open>decodeValue\<close> and the loop in it that decodes a list's items. Each call spends a unit of
  fuel; \<open>DecodeValue\<close> starts with more than the decoder can use on its input.\<close>

fun decodeValue :: "nat \<Rightarrow> bytes \<Rightarrow> nat \<Rightarrow> rlp_error + rlp_value \<times> bytes"
  and decodeItems :: "nat \<Rightarrow> bytes \<Rightarrow> nat \<Rightarrow> rlp_error + rlp_value list" where
  "decodeValue 0 b depth = Inl OutOfFuel"
| "decodeValue (Suc fuel) b depth =
     (if depth > maxDecodeDepth then Inl ErrDepthLimit
      else case split b of
        Inl err \<Rightarrow> Inl err
      | Inr (k, content, rest) \<Rightarrow>
          if k \<noteq> KindList then Inr (RlpValue k content [], rest)
          else case decodeItems fuel content (depth + 1) of
            Inl err \<Rightarrow> Inl err
          | Inr items \<Rightarrow> Inr (RlpValue KindList [] items, rest))"
| "decodeItems 0 content depth = Inl OutOfFuel"
| "decodeItems (Suc fuel) content depth =
     (if content = [] then Inr []
      else case decodeValue fuel content depth of
        Inl err \<Rightarrow> Inl err
      | Inr (item, content') \<Rightarrow>
          (case decodeItems fuel content' depth of
             Inl err \<Rightarrow> Inl err
           | Inr items \<Rightarrow> Inr (item # items)))"

definition decodeFuel :: "bytes \<Rightarrow> nat" where
  "decodeFuel b = 2 * length b + 2"

definition DecodeValue :: "bytes \<Rightarrow> rlp_error + rlp_value" where
  "DecodeValue b =
     (case decodeValue (decodeFuel b) b 0 of
        Inl err \<Rightarrow> Inl err
      | Inr (v, rest) \<Rightarrow> if rest \<noteq> [] then Inl ErrTrailingBytes else Inr v)"

section \<open>Reference encoder and legal values\<close>

text \<open>The encoding of a decoded value, composed from the package's two encoders, and the values
  that have one: the kind the payload must carry, sizes an \<open>int\<close> can hold, and nesting within the
  decoder's limit.\<close>

definition kind_of_bytes :: "bytes \<Rightarrow> rlp_kind" where
  "kind_of_bytes b = (if length b = 1 \<and> b ! 0 \<le> 0x7f then KindByte else KindString)"

fun rlp_encode :: "rlp_value \<Rightarrow> bytes" where
  "rlp_encode (RlpValue k b items) =
     (if k = KindList then EncodeList (map rlp_encode items) else EncodeBytes b)"

fun rlp_wf :: "nat \<Rightarrow> rlp_value \<Rightarrow> bool" where
  "rlp_wf d (RlpValue k b items) =
     (d \<le> maxDecodeDepth \<and>
      (if k = KindList then
         b = [] \<and> length (concat (map rlp_encode items)) \<le> maxInt \<and> (\<forall>v\<in>set items. rlp_wf (d + 1) v)
       else items = [] \<and> k = kind_of_bytes b \<and> length b \<le> maxInt))"

section \<open>What the header functions write and read\<close>

lemma foldl_length: "foldl (\<lambda>acc item. acc + length item) n items = n + length (concat items)"
  by (induction items arbitrary: n) auto

lemma foldl_append_concat: "foldl (@) out items = out @ concat items"
  by (induction items arbitrary: out) auto

lemma EncodeList_eq:
  "EncodeList items = appendHeader [] 0xC0 (word_of_nat (length (concat items))) @ concat items"
  by (simp add: EncodeList_def Let_def foldl_length foldl_append_concat)

lemma unat_drop_bit_8: "unat (drop_bit 8 (x :: u64)) = unat x div 256"
  using unat_drop_bit_eq [of 8 x] by (simp only: drop_bit_eq_div) simp

lemma ucast_byte: "(ucast (x :: u64) :: byte) = word_of_nat (unat x mod 256)"
  by (simp add: word_unat_eq_iff unsigned_ucast_eq take_bit_eq_mod unsigned_of_nat)

lemma shifts_be_bytes:
  "map (\<lambda>i. ucast (drop_bit (i * 8) (x :: u64))) (rev [0..<n]) = be_bytes n (unat x)"
proof (induction n arbitrary: x)
  case 0
  then show ?case by simp
next
  case (Suc n)
  have "rev [0..<Suc n] = map Suc (rev [0..<n]) @ [0]"
    by (metis map_Suc_upt rev_map upt_conv_Cons zero_less_Suc rev.simps(2))
  moreover have "drop_bit (Suc i * 8) x = drop_bit (i * 8) (drop_bit 8 x)" for i
    by (simp add: add.commute)
  ultimately show ?case
    using Suc [of "drop_bit 8 x"] by (simp add: comp_def unat_drop_bit_8 ucast_byte del: upt_Suc)
qed

lemma push_bit_OR_ucast:
  assumes "unat (sz :: u64) < 256 ^ 7"
  shows "unat (push_bit 8 sz OR ucast (c :: byte)) = unat sz * 256 + unat c"
proof -
  have "push_bit 8 sz AND ucast c = 0"
    by (rule bit_word_eqI) (auto simp: bit_simps dest: bit_imp_le_length)
  then have "push_bit 8 sz OR ucast c = push_bit 8 sz + (ucast c :: u64)"
    by (simp add: disjunctive_add_eq_or)
  moreover have "unat (push_bit 8 sz) = unat sz * 256"
    using assms by (simp add: push_bit_eq_mult unat_word_ariths)
  moreover have "unat (ucast c :: u64) = unat c"
    using less_trans [OF unat_byte_less [of c], of "2 ^ 64"]
    by (simp add: unsigned_ucast_eq take_bit_eq_mod)
  moreover have "unat sz * 256 + unat c < 2 ^ 64"
    using assms unat_byte_less [of c] by (simp del: unat_byte_less)
  ultimately show ?thesis
    by (simp add: unat_word_ariths)
qed

lemma readSize_loop:
  "length bs \<le> 8 \<Longrightarrow>
     unat (foldl (\<lambda>sz c. push_bit 8 sz OR ucast c) (0 :: u64) bs) = be_nat bs"
proof (induction bs rule: rev_induct)
  case Nil
  then show ?case by simp
next
  case (snoc b bs)
  let ?s = "foldl (\<lambda>sz c. push_bit 8 sz OR ucast c) (0 :: u64) bs"
  have s: "unat ?s = be_nat bs" using snoc by simp
  have "be_nat bs < 256 ^ length bs" by (rule be_nat_less)
  also have "(256 :: nat) ^ length bs \<le> 256 ^ 7"
    using snoc.prems by (intro power_increasing) auto
  finally have "unat ?s < 256 ^ 7" by (simp add: s)
  then show ?case using push_bit_OR_ucast [of ?s b] s by simp
qed

lemma unat_less_const: "x < (word_of_nat n :: u64) \<longleftrightarrow> unat x < n" if "n < 2 ^ 64" for n
  using that by (simp add: word_less_nat_alt unat_of_nat)

lemma unat_less_power: "(x :: u64) < 2 ^ k \<longleftrightarrow> unat x < 2 ^ k" if "k < 64" for k
proof -
  have "(2 :: nat) ^ k < 2 ^ 64" using that by (intro power_strict_increasing) auto
  then have "x < word_of_nat (2 ^ k) \<longleftrightarrow> unat x < 2 ^ k" by (rule unat_less_const)
  then show ?thesis by simp
qed

lemma intSize_bounds: "1 \<le> intSize x" "intSize x \<le> 8"
  by (auto simp: intSize_def)

lemma intSize_unat:
  "intSize x =
     (if unat x < 2 ^ 8 then 1
      else if unat x < 2 ^ 16 then 2
      else if unat x < 2 ^ 24 then 3
      else if unat x < 2 ^ 32 then 4
      else if unat x < 2 ^ 40 then 5
      else if unat x < 2 ^ 48 then 6
      else if unat x < 2 ^ 56 then 7
      else 8)"
  unfolding intSize_def
  by (subst unat_less_power [of 8] unat_less_power [of 16] unat_less_power [of 24]
      unat_less_power [of 32] unat_less_power [of 40] unat_less_power [of 48]
      unat_less_power [of 56], simp)+ (rule refl)

lemma intSize_upper: "unat x < 256 ^ intSize x"
  using unat_u64_less [of x] by (simp add: intSize_unat)

lemma intSize_lower: "56 \<le> unat x \<Longrightarrow> 256 ^ (intSize x - 1) \<le> unat x"
  by (simp add: intSize_unat)

lemma intSize_unique:
  assumes "56 \<le> unat x" and "256 ^ (n - 1) \<le> unat x" and "unat x < 256 ^ n" and "0 < n"
  shows "intSize x = n"
proof (rule ccontr)
  assume "intSize x \<noteq> n"
  then consider "intSize x \<le> n - 1" | "n \<le> intSize x - 1"
    using \<open>0 < n\<close> by linarith
  then show False
  proof cases
    case 1
    then have "(256 :: nat) ^ intSize x \<le> 256 ^ (n - 1)" by (intro power_increasing) auto
    then show False using intSize_upper [of x] assms(2) by linarith
  next
    case 2
    then have "(256 :: nat) ^ n \<le> 256 ^ (intSize x - 1)" by (intro power_increasing) auto
    then show False using intSize_lower [OF assms(1)] assms(3) by linarith
  qed
qed

text \<open>What \<open>appendHeader\<close> writes: a short header, or the size's length and the size.\<close>

lemma appendHeader_short: "n < 56 \<Longrightarrow> appendHeader out t (word_of_nat n) = out @ [t + word_of_nat n]"
  by (simp add: appendHeader_def word_less_nat_alt unat_of_nat ucast_byte)

lemma appendHeader_long:
  assumes "56 \<le> n" and "n < 2 ^ 64"
  shows "appendHeader out t (word_of_nat n) =
    out @ [t + 55 + word_of_nat (intSize (word_of_nat n))] @ be_bytes (intSize (word_of_nat n)) n"
proof -
  have "unat (word_of_nat n :: u64) = n" using assms by (simp add: unat_of_nat)
  moreover from this have "\<not> word_of_nat n < (56 :: u64)" using assms by (simp add: word_less_nat_alt)
  ultimately show ?thesis
    by (simp add: appendHeader_def Let_def appendBigEndianUint_def shifts_be_bytes)
qed

lemma be_bytes_hd_nonzero:
  assumes "256 ^ (k - 1) \<le> n" and "n < 256 ^ k" and "0 < k"
  shows "be_bytes k n ! 0 \<noteq> 0"
proof
  assume "be_bytes k n ! 0 = 0"
  moreover obtain c cs where c: "be_bytes k n = c # cs"
    using \<open>0 < k\<close> by (metis length_be_bytes list.exhaust list.size(3) less_irrefl)
  ultimately have z: "be_bytes k n = [0] @ cs" by simp
  have len: "length cs = k - 1" using length_be_bytes [of k n] c by simp
  have "n = be_nat (be_bytes k n)" using assms by (simp add: be_nat_be_bytes)
  also have "\<dots> = be_nat cs" unfolding z be_nat_append by (simp add: be_nat_def)
  finally have "n < 256 ^ (k - 1)" using be_nat_less [of cs] len by simp
  with assms(1) show False by simp
qed

lemma readSize_be_bytes:
  assumes "56 \<le> n" and "n \<le> maxInt" and k: "k = intSize (word_of_nat n)"
  shows "readSize (be_bytes k n @ rest) k = Inr n"
proof -
  have n64: "n < 2 ^ 64" using assms(2) by (simp add: maxInt_def)
  then have un: "unat (word_of_nat n :: u64) = n" by (simp add: unat_of_nat)
  have kb: "1 \<le> k" "k \<le> 8" using intSize_bounds [of "word_of_nat n"] k by auto
  have lo: "256 ^ (k - 1) \<le> n" and hi: "n < 256 ^ k"
    using intSize_lower [of "word_of_nat n"] intSize_upper [of "word_of_nat n"] assms(1) un k
    by auto
  let ?s = "foldl (\<lambda>sz c. push_bit 8 sz OR ucast c) (0 :: u64) (be_bytes k n)"
  have us: "unat ?s = n"
    using readSize_loop [of "be_bytes k n"] kb hi by (simp add: be_nat_be_bytes)
  have "(be_bytes k n @ rest) ! 0 \<noteq> 0"
    using be_bytes_hd_nonzero [OF lo hi] kb by (simp add: nth_append)
  moreover have "\<not> ?s < 56" using us assms(1) by (simp add: word_less_nat_alt)
  moreover have "\<not> word_of_nat maxInt < ?s"
    using us assms(2) by (simp add: word_less_nat_alt maxInt_def)
  ultimately show ?thesis
    using kb us by (simp add: readSize_def Let_def)
qed

lemma readSize_inverse:
  assumes "readSize b k = Inr n"
  shows "56 \<le> n" and "n \<le> maxInt" and "k = intSize (word_of_nat n)"
    and "b = be_bytes k n @ drop k b" and "k \<le> length b"
proof -
  let ?s = "foldl (\<lambda>sz c. push_bit 8 sz OR ucast c) (0 :: u64) (take k b)"
  from assms have k: "0 < k" "k \<le> 8" "k \<le> length b" and nz: "b ! 0 \<noteq> 0"
    and s: "\<not> ?s < 56" "\<not> word_of_nat maxInt < ?s" and n: "n = unat ?s"
    by (auto simp: readSize_def Let_def split: if_splits)
  have us: "n = be_nat (take k b)"
    using readSize_loop [of "take k b"] k n by simp
  show n56: "56 \<le> n" using s(1) n by (simp add: word_less_nat_alt)
  show nmax: "n \<le> maxInt" using s(2) n by (simp add: word_less_nat_alt maxInt_def)
  have hi: "n < 256 ^ k" using be_nat_less [of "take k b"] us k by simp
  obtain c cs where c: "take k b = c # cs" using k by (cases "take k b") auto
  with nz k have "0 < unat c"
    by (metis length_greater_0_conv list.discI nth_Cons_0 nth_take unat_gt_0 word_gt_0)
  have "length cs = k - 1" using c k by (metis length_Cons length_take min_absorb2 diff_Suc_1)
  then have "n = unat c * 256 ^ (k - 1) + be_nat cs"
    using us be_nat_append [of "[c]" cs] c by (simp add: be_nat_def)
  then have lo: "256 ^ (k - 1) \<le> n" using \<open>0 < unat c\<close> by (simp add: trans_le_add1)
  have "unat (word_of_nat n :: u64) = n" using n by simp
  then show "k = intSize (word_of_nat n)"
    using intSize_unique [of "word_of_nat n" k] n56 lo hi k by simp
  show "b = be_bytes k n @ drop k b"
    using us k by (simp add: be_bytes_be_nat)
  show "k \<le> length b" by (rule k)
qed

text \<open>\<open>split\<close> inverts the encoders: the kind, the payload and what follows.\<close>


lemma unat_offset:
  "n < 56 \<Longrightarrow> unat ((0x80 :: byte) + word_of_nat n) = 0x80 + n"
  "n < 56 \<Longrightarrow> unat ((0xC0 :: byte) + word_of_nat n) = 0xC0 + n"
  "k \<le> 8 \<Longrightarrow> unat ((0xB7 :: byte) + word_of_nat k) = 0xB7 + k"
  "k \<le> 8 \<Longrightarrow> unat ((0xF7 :: byte) + word_of_nat k) = 0xF7 + k"
  by (simp_all add: unat_word_ariths)

lemma readLongItem_encode:
  assumes "56 \<le> length p" and "length p \<le> maxInt" and k: "k = intSize (word_of_nat (length p))"
  shows "readLongItem (t # be_bytes k (length p) @ p @ rest) k kind = Inr (kind, 1 + k, length p)"
  using readSize_be_bytes [OF assms, of "p @ rest"] by (simp add: readLongItem_def)

lemma split_EncodeBytes:
  assumes "length b \<le> maxInt"
  shows "split (EncodeBytes b @ rest) = Inr (kind_of_bytes b, b, rest)"
proof -
  consider (single) "length b = 1" "b ! 0 \<le> 0x7f"
    | (short) "\<not> (length b = 1 \<and> b ! 0 \<le> 0x7f)" "length b < 56"
    | (long) "56 \<le> length b" by linarith
  then show ?thesis
  proof cases
    case single
    then obtain c where "b = [c]" by (cases b) auto
    moreover from this single have "c < 0x80" by (simp add: word_le_nat_alt word_less_nat_alt)
    ultimately show ?thesis
      using single by (simp add: EncodeBytes_def appendBytes_def split_def readKind_def kind_of_bytes_def Rlp.split_def)
  next
    case short
    let ?p = "(0x80 :: byte) + word_of_nat (length b)"
    have u: "unat ?p = 0x80 + length b" by (rule unat_offset) (rule short)
    have "unat (?p - 0x80) = length b"
      using short by (simp add: unat_of_nat)
    moreover have "\<not> (length b = 1 \<and> 1 < length (?p # b @ rest) \<and> (?p # b @ rest) ! 1 < 0x80)"
      using short(1) by (auto simp: word_le_nat_alt word_less_nat_alt nth_append)
    ultimately show ?thesis
      using short u
      by (auto simp: EncodeBytes_def appendBytes_def appendHeader_short Rlp.split_def readKind_def
          kind_of_bytes_def word_less_nat_alt Let_def)
  next
    case long
    let ?k = "intSize (word_of_nat (length b))"
    have k8: "1 \<le> ?k" "?k \<le> 8" by (rule intSize_bounds)+
    let ?p = "(0xB7 :: byte) + word_of_nat ?k"
    have u: "unat ?p = 0xB7 + ?k" by (rule unat_offset) (rule k8)
    have enc: "EncodeBytes b = ?p # be_bytes ?k (length b) @ b"
      using long assms by (simp add: EncodeBytes_def appendBytes_def appendHeader_long maxInt_def)
    have "unat (?p - 0xB7) = ?k" using k8 by (simp add: unat_of_nat)
    then have "readKind (EncodeBytes b @ rest) = Inr (KindString, 1 + ?k, length b)"
      using readLongItem_encode [OF long assms refl, of ?p rest KindString] u k8
      by (simp add: enc readKind_def word_less_nat_alt Let_def)
    then show ?thesis
      using long by (simp add: Rlp.split_def enc kind_of_bytes_def)
  qed
qed

lemma split_list:
  assumes "length p \<le> maxInt"
  shows "split (appendHeader [] 0xC0 (word_of_nat (length p)) @ p @ rest) = Inr (KindList, p, rest)"
proof (cases "length p < 56")
  case True
  let ?p = "(0xC0 :: byte) + word_of_nat (length p)"
  have u: "unat ?p = 0xC0 + length p" by (rule unat_offset) (rule True)
  moreover have "unat (?p - 0xC0) = length p" using True by (simp add: unat_of_nat)
  ultimately show ?thesis
    using True by (simp add: appendHeader_short Rlp.split_def readKind_def word_less_nat_alt Let_def)
next
  case False
  then have long: "56 \<le> length p" by simp
  let ?k = "intSize (word_of_nat (length p))"
  have k8: "1 \<le> ?k" "?k \<le> 8" by (rule intSize_bounds)+
  let ?p = "(0xF7 :: byte) + word_of_nat ?k"
  have u: "unat ?p = 0xF7 + ?k" by (rule unat_offset) (rule k8)
  have enc: "appendHeader [] 0xC0 (word_of_nat (length p)) = ?p # be_bytes ?k (length p)"
    using long assms by (simp add: appendHeader_long maxInt_def)
  have "unat (?p - 0xF7) = ?k" using k8 by (simp add: unat_of_nat)
  then have "readKind (?p # be_bytes ?k (length p) @ p @ rest) = Inr (KindList, 1 + ?k, length p)"
    using readLongItem_encode [OF long assms refl, of ?p rest KindList] u k8
    by (simp add: readKind_def word_less_nat_alt Let_def)
  then show ?thesis by (simp add: Rlp.split_def enc)
qed

section \<open>Inversion of the decoder\<close>

lemma readLongItem_inverse:
  assumes "readLongItem b sizeLen kind = Inr (k, t, n)" and "b \<noteq> []"
  shows "k = kind" and "t = 1 + sizeLen" and "56 \<le> n" and "n \<le> maxInt"
    and "sizeLen = intSize (word_of_nat n)" and "b = hd b # be_bytes sizeLen n @ drop t b"
    and "t + n \<le> length b"
proof -
  from assms(1) have rs: "readSize (drop 1 b) sizeLen = Inr n"
    and le: "n \<le> length b - 1 - sizeLen" and kt: "k = kind" "t = 1 + sizeLen"
    by (auto simp: readLongItem_def split: sum.splits if_splits)
  note inv = readSize_inverse [OF rs]
  show "k = kind" "t = 1 + sizeLen" by (rule kt)+
  show "56 \<le> n" "n \<le> maxInt" "sizeLen = intSize (word_of_nat n)" by (rule inv)+
  have "tl b = be_bytes sizeLen n @ drop sizeLen (tl b)"
    using inv(4) by (simp add: drop_Suc)
  then show "b = hd b # be_bytes sizeLen n @ drop t b"
    using assms(2) kt by (cases b) auto
  show "t + n \<le> length b"
    using inv(5) le kt assms(2) by (cases b) auto
qed

lemma readKind_bounds: "readKind b = Inr (k, t, n) \<Longrightarrow> t + n \<le> length b"
proof (cases b)
  case (Cons p ps)
  assume "readKind b = Inr (k, t, n)"
  then show ?thesis
    using Cons readLongItem_inverse(7) [of b _ _ k t n]
    by (auto simp: readKind_def Let_def split: if_splits)
qed (simp add: readKind_def)

lemma split_Inr:
  assumes "split b = Inr (k, content, rest)"
  obtains t n where "readKind b = Inr (k, t, n)" and "content = take n (drop t b)"
    and "rest = drop (t + n) b" and "length content = n" and "b = take t b @ content @ rest"
proof -
  from assms obtain t n where r: "readKind b = Inr (k, t, n)"
    and c: "content = take n (drop t b)" "rest = drop (t + n) b"
    by (auto simp: Rlp.split_def Let_def split: sum.splits prod.splits)
  moreover have "length content = n" using readKind_bounds [OF r] c by simp
  moreover have "b = take t b @ content @ rest"
    unfolding c by (metis append_take_drop_id drop_drop add.commute)
  ultimately show ?thesis by (rule that)
qed

lemma prefix_word:
  "unat (p :: byte) = 0x80 + n \<Longrightarrow> p = 0x80 + word_of_nat n"
  "unat (p :: byte) = 0xC0 + n \<Longrightarrow> p = 0xC0 + word_of_nat n"
  "unat (p :: byte) = 0xB7 + n \<Longrightarrow> p = 0xB7 + word_of_nat n"
  "unat (p :: byte) = 0xF7 + n \<Longrightarrow> p = 0xF7 + word_of_nat n"
  using unat_byte_less [of p]
  by (simp_all add: word_unat_eq_iff unat_word_ariths unat_of_nat mod_add_right_eq
      del: unat_byte_less)


lemma split_inverse_string:
  assumes "split b = Inr (k, content, rest)" and "k \<noteq> KindList"
  shows "b = EncodeBytes content @ rest" and "k = kind_of_bytes content"
    and "length content \<le> maxInt"
proof -
  obtain t n where r: "readKind b = Inr (k, t, n)" and n: "length content = n"
    and b: "b = take t b @ content @ rest"
    by (rule split_Inr [OF assms(1)])
  obtain p ps where bp: "b = p # ps" using r by (cases b) (auto simp: readKind_def)
  consider (byte) "p < 0x80" | (short) "\<not> p < 0x80" "p < 0xB8" | (long) "\<not> p < 0xB8" "p < 0xC0"
    | (list) "\<not> p < 0xC0" by (meson linorder_less_linear)
  then have "b = EncodeBytes content @ rest \<and> k = kind_of_bytes content \<and> length content \<le> maxInt"
  proof cases
    case byte
    then have "k = KindByte" "t = 0" "n = 1" using r bp by (auto simp: readKind_def)
    moreover from this b bp n have "content = [p]" by (cases content) auto
    ultimately show ?thesis
      using byte b by (auto simp: EncodeBytes_def appendBytes_def kind_of_bytes_def maxInt_def
          word_le_nat_alt word_less_nat_alt)
  next
    case short
    then have k: "k = KindString" and t: "t = 1" and n': "n = unat (p - 0x80)"
      and canon: "\<not> (n = 1 \<and> length b > 1 \<and> b ! 1 < 0x80)"
      using r bp by (auto simp: readKind_def Let_def split: if_splits)
    have "n = unat p - 0x80"
      unfolding n' using short by (simp add: unat_sub word_le_nat_alt word_less_nat_alt)
    then have np: "unat p = 0x80 + n" "n < 56"
      using short by (auto simp: word_less_nat_alt)
    have bc: "b = p # content @ rest" using b bp t by simp
    have "\<not> (length content = 1 \<and> content ! 0 \<le> 0x7f)"
      using canon bc n by (auto simp: nth_append word_le_nat_alt word_less_nat_alt)
    then show ?thesis
      using np n k bc prefix_word(1) [OF np(1)]
      by (auto simp: EncodeBytes_def appendBytes_def appendHeader_short kind_of_bytes_def maxInt_def)
  next
    case long
    then have rl: "readLongItem b (unat (p - 0xB7)) KindString = Inr (k, t, n)"
      using r bp by (auto simp: readKind_def word_less_nat_alt split: if_splits)
    have "b \<noteq> []" using bp by simp
    note inv = readLongItem_inverse [OF rl this]
    have "unat p = 0xB7 + unat (p - 0xB7)"
      using long by (simp add: unat_sub word_le_nat_alt word_less_nat_alt)
    then have p: "p = 0xB7 + word_of_nat (intSize (word_of_nat n))"
      using prefix_word(3) inv(5) by metis
    have "take t b = p # be_bytes (unat (p - 0xB7)) n"
      using inv(2,6) bp by (metis append_Cons append_eq_conv_conj length_Cons length_be_bytes list.sel(1) plus_1_eq_Suc)
    then have "b = p # be_bytes (intSize (word_of_nat n)) n @ content @ rest"
      using b inv(5) by simp
    then show ?thesis
      using inv p n by (auto simp: EncodeBytes_def appendBytes_def appendHeader_long kind_of_bytes_def maxInt_def)
  next
    case list
    then have "k = KindList"
      using r bp readLongItem_inverse(1) [of b _ _ k t n]
      by (auto simp: readKind_def Let_def word_less_nat_alt split: if_splits)
    with assms(2) show ?thesis by simp
  qed
  then show "b = EncodeBytes content @ rest" "k = kind_of_bytes content" "length content \<le> maxInt"
    by auto
qed

lemma split_inverse_list:
  assumes "split b = Inr (KindList, content, rest)"
  shows "b = appendHeader [] 0xC0 (word_of_nat (length content)) @ content @ rest"
    and "length content \<le> maxInt"
proof -
  obtain t n where r: "readKind b = Inr (KindList, t, n)" and n: "length content = n"
    and b: "b = take t b @ content @ rest"
    by (rule split_Inr [OF assms(1)])
  obtain p ps where bp: "b = p # ps" using r by (cases b) (auto simp: readKind_def)
  have notlow: "\<not> p < 0xC0"
    using r bp readLongItem_inverse(1) [of b _ _ KindList t n]
    by (auto simp: readKind_def Let_def word_less_nat_alt split: if_splits)
  have "b = appendHeader [] 0xC0 (word_of_nat (length content)) @ content @ rest \<and> length content \<le> maxInt"
  proof (cases "p < 0xF8")
    case True
    then have t: "t = 1" and n': "n = unat (p - 0xC0)"
      using r bp notlow by (auto simp: readKind_def Let_def word_less_nat_alt split: if_splits)
    have "n = unat p - 0xC0"
      unfolding n' using notlow by (simp add: unat_sub word_le_nat_alt word_less_nat_alt)
    then have np: "unat p = 0xC0 + n" "n < 56"
      using notlow True by (auto simp: word_less_nat_alt)
    have "b = p # content @ rest" using b bp t by simp
    then show ?thesis
      using np n prefix_word(2) [OF np(1)] by (auto simp: appendHeader_short maxInt_def)
  next
    case False
    then have rl: "readLongItem b (unat (p - 0xF7)) KindList = Inr (KindList, t, n)"
      using r bp notlow by (auto simp: readKind_def Let_def word_less_nat_alt split: if_splits)
    have "b \<noteq> []" using bp by simp
    note inv = readLongItem_inverse [OF rl this]
    have "unat p = 0xF7 + unat (p - 0xF7)"
      using False by (simp add: unat_sub word_le_nat_alt word_less_nat_alt)
    then have p: "p = 0xF7 + word_of_nat (intSize (word_of_nat n))"
      using prefix_word(4) inv(5) by metis
    have "take t b = p # be_bytes (unat (p - 0xF7)) n"
      using inv(2,6) bp by (metis append_Cons append_eq_conv_conj length_Cons length_be_bytes list.sel(1) plus_1_eq_Suc)
    then have "b = p # be_bytes (intSize (word_of_nat n)) n @ content @ rest"
      using b inv(5) by simp
    then show ?thesis
      using inv p n by (auto simp: appendHeader_long maxInt_def)
  qed
  then show "b = appendHeader [] 0xC0 (word_of_nat (length content)) @ content @ rest"
    and "length content \<le> maxInt" by auto
qed


lemma appendHeader_nonempty: "appendHeader [] t n \<noteq> []"
  by (simp add: appendHeader_def appendBigEndianUint_def Let_def)

lemma rlp_encode_nonempty: "0 < length (rlp_encode v)"
  by (cases v) (auto simp: EncodeList_eq EncodeBytes_def appendBytes_def appendHeader_nonempty)

lemma EncodeList_longer: "length (concat items) < length (EncodeList items)"
  using appendHeader_nonempty by (simp add: EncodeList_eq)

lemma decode_encode:
  "rlp_wf d v \<Longrightarrow> 2 * length (rlp_encode v @ rest) < fuel \<Longrightarrow>
     decodeValue fuel (rlp_encode v @ rest) d = Inr (v, rest)"
  "\<forall>v\<in>set items. rlp_wf d v \<Longrightarrow> 2 * length (concat (map rlp_encode items)) + 1 < fuel \<Longrightarrow>
     decodeItems fuel (concat (map rlp_encode items)) d = Inr items"
proof (induction fuel arbitrary: v items d rest)
  case (Suc fuel)
  {
    case 1
    obtain k b vs where v: "v = RlpValue k b vs" by (cases v)
    show ?case
    proof (cases "k = KindList")
      case True
      let ?p = "concat (map rlp_encode vs)"
      have len: "length ?p \<le> maxInt" and wf: "\<forall>v\<in>set vs. rlp_wf (d + 1) v" and d: "d \<le> maxDecodeDepth"
        using 1 v True by auto
      have "split (rlp_encode v @ rest) = Inr (KindList, ?p, rest)"
        using split_list [OF len, of rest] v True by (simp add: EncodeList_eq)
      moreover have "length ?p < length (rlp_encode v)"
        using EncodeList_longer [of "map rlp_encode vs"] v True by simp
      then have "decodeItems fuel ?p (d + 1) = Inr vs"
        using Suc.IH(2) [OF wf] 1 by simp
      ultimately show ?thesis using 1 v True d by simp
    next
      case False
      then show ?thesis
        using 1 v split_EncodeBytes [of b rest] by auto
    qed
  next
    case 2
    show ?case
    proof (cases items)
      case (Cons v vs)
      let ?p = "concat (map rlp_encode vs)"
      have "decodeValue fuel (rlp_encode v @ ?p) d = Inr (v, ?p)"
        using Suc.IH(1) [of d v ?p] 2 Cons by simp
      moreover have "2 * length ?p + 1 < fuel"
        using 2 Cons rlp_encode_nonempty [of v] by (simp del: length_greater_0_conv)
      then have "decodeItems fuel ?p d = Inr vs"
        using Suc.IH(2) [of vs d] 2 Cons by simp
      ultimately show ?thesis
        using Cons rlp_encode_nonempty [of v] by simp
    qed simp
  }
qed simp_all

lemma split_rest_shorter:
  assumes "split b = Inr (k, content, rest)"
  shows "length rest < length b" and "k = KindList \<Longrightarrow> length content < length b"
proof -
  have list: "length content + length rest < length b" if "k = KindList"
  proof -
    let ?h = "appendHeader [] 0xC0 (word_of_nat (length content))"
    have "b = ?h @ content @ rest"
      using split_inverse_list(1) assms that by simp
    then have "length b = length ?h + length content + length rest" by simp
    moreover have "0 < length ?h" using appendHeader_nonempty by blast
    ultimately show ?thesis by linarith
  qed
  then show "k = KindList \<Longrightarrow> length content < length b" by simp
  show "length rest < length b"
  proof (cases "k = KindList")
    case False
    then have "b = rlp_encode (RlpValue k content []) @ rest"
      using split_inverse_string(1) [OF assms] by simp
    then have "length b = length (rlp_encode (RlpValue k content [])) + length rest" by simp
    then show ?thesis
      using rlp_encode_nonempty [of "RlpValue k content []"] by linarith
  qed (use list in simp)
qed

lemma decode_inverse:
  "decodeValue fuel b d = Inr (v, rest) \<Longrightarrow> b = rlp_encode v @ rest \<and> rlp_wf d v"
  "decodeItems fuel c d = Inr items \<Longrightarrow> c = concat (map rlp_encode items) \<and> (\<forall>v\<in>set items. rlp_wf d v)"
proof (induction fuel b d and fuel c d arbitrary: v rest and items rule: decodeValue_decodeItems.induct)
  case (2 fuel b depth)
  from 2(2) obtain k content where d: "depth \<le> maxDecodeDepth"
    and s: "split b = Inr (k, content, rest)"
    and v: "k \<noteq> KindList \<Longrightarrow> v = RlpValue k content []"
    by (auto split: if_splits sum.splits prod.splits)
  show ?case
  proof (cases "k = KindList")
    case True
    then obtain items where i: "decodeItems fuel content (depth + 1) = Inr items"
      and v: "v = RlpValue KindList [] items"
      using 2(2) s d by (auto split: sum.splits)
    have "content = concat (map rlp_encode items) \<and> (\<forall>v\<in>set items. rlp_wf (depth + 1) v)"
      using 2(1) [OF _ s] i True d by simp
    then show ?thesis
      using v d split_inverse_list [of b content rest] s True by (simp add: EncodeList_eq)
  next
    case False
    then show ?thesis
      using v d split_inverse_string [OF s] by auto
  qed
next
  case (4 fuel content depth)
  show ?case
  proof (cases "content = []")
    case False
    then obtain item c' items' where v: "decodeValue fuel content depth = Inr (item, c')"
      and i: "decodeItems fuel c' depth = Inr items'" and items: "items = item # items'"
      using 4(3) by (auto split: sum.splits prod.splits)
    have "content = rlp_encode item @ c' \<and> rlp_wf depth item"
      using 4(1) [OF False v] .
    moreover have "c' = concat (map rlp_encode items') \<and> (\<forall>v\<in>set items'. rlp_wf depth v)"
      using 4(2) [OF False v refl i] by simp
    ultimately show ?thesis using items by simp
  qed (use 4(3) in simp)
qed simp_all

lemma split_fuel: "split b \<noteq> Inl OutOfFuel"
  by (auto simp: Rlp.split_def readKind_def readLongItem_def readSize_def Let_def
      split: sum.splits list.splits if_splits)

lemma decode_fuel:
  "2 * length b < fuel \<Longrightarrow> decodeValue fuel b d \<noteq> Inl OutOfFuel"
  "2 * length c + 1 < fuel \<Longrightarrow> decodeItems fuel c d \<noteq> Inl OutOfFuel"
proof (induction fuel b d and fuel c d rule: decodeValue_decodeItems.induct)
  case (2 fuel b depth)
  show ?case
  proof (cases "split b")
    case (Inl e)
    then show ?thesis using split_fuel [of b] by auto
  next
    case (Inr r)
    obtain k content rest where r: "r = (k, content, rest)" by (cases r)
    show ?thesis
    proof (cases "k = KindList \<and> depth \<le> maxDecodeDepth")
      case True
      then have "2 * length content + 1 < fuel"
        using split_rest_shorter(2) [of b k content rest] Inr r 2(2) by simp
      then have "decodeItems fuel content (depth + 1) \<noteq> Inl OutOfFuel"
        using 2(1) [OF _ _ refl refl] Inr r True by simp
      then show ?thesis using Inr r by (auto split: sum.splits)
    qed (use Inr r in auto)
  qed
next
  case (4 fuel content depth)
  show ?case
  proof (cases "content = []")
    case False
    then have v: "decodeValue fuel content depth \<noteq> Inl OutOfFuel"
      using 4(1,3) by simp
    have "decodeItems fuel c' depth \<noteq> Inl OutOfFuel"
      if d: "decodeValue fuel content depth = Inr (item, c')" for item c'
    proof -
      have "length c' < length content"
        using decode_inverse(1) [OF d] rlp_encode_nonempty [of item] by auto
      then show ?thesis using 4(2) [OF False d refl] 4(3) by simp
    qed
    then show ?thesis using False v by (auto split: sum.splits)
  qed simp
qed simp_all

section \<open>Correctness of the package\<close>

lemma DecodeValue_rlp_encode: "rlp_wf 0 v \<Longrightarrow> DecodeValue (rlp_encode v) = Inr v"
  using decode_encode(1) [of 0 v "[]" "decodeFuel (rlp_encode v)"]
  by (simp add: DecodeValue_def decodeFuel_def)

lemma DecodeValue_sound: "DecodeValue b = Inr v \<Longrightarrow> rlp_wf 0 v \<and> rlp_encode v = b"
  using decode_inverse(1) [of "decodeFuel b" b 0 v]
  by (auto simp: DecodeValue_def split: sum.splits prod.splits if_splits)

interpretation rlp: canonical_codec rlp_encode DecodeValue "rlp_wf 0"
  by unfold_locales (simp_all add: DecodeValue_rlp_encode DecodeValue_sound)

text \<open>For every value whose payload sizes an \<open>int\<close> can hold and whose nesting is within
  \<open>maxDecodeDepth\<close>, decoding the encoding the package writes gives back exactly that value.\<close>

theorem rlp_roundtrip:
  assumes "rlp_wf 0 v"
  shows "DecodeValue (rlp_encode v) = Inr v"
  using assms by (rule rlp.dec_enc)

theorem rlp_roundtrip_witness:
  "DecodeValue (rlp_encode (RlpValue KindList []
     [RlpValue KindString [0x63, 0x61, 0x74] [], RlpValue KindList [] [RlpValue KindByte [5] []]])) =
   Inr (RlpValue KindList []
     [RlpValue KindString [0x63, 0x61, 0x74] [], RlpValue KindList [] [RlpValue KindByte [5] []]])"
  by (rule rlp_roundtrip)
    (simp add: kind_of_bytes_def maxInt_def maxDecodeDepth_def EncodeList_eq EncodeBytes_def
      appendBytes_def appendHeader_def)

text \<open>C39: the decoder accepts canonical encodings only. A byte string it accepts is the
  encoding of the value it returns, so no two different byte strings decode to the same value.\<close>

theorem rlp_canonical:
  assumes "DecodeValue b = Inr v"
  shows "rlp_encode v = b \<and> rlp_wf 0 v \<and> (\<forall>b'. DecodeValue b' = Inr v \<longrightarrow> b' = b)"
  using assms rlp.dec_sound rlp.dec_unique by blast

theorem rlp_canonical_witness:
  "DecodeValue [0xC2, 0x05, 0x80] =
     Inr (RlpValue KindList [] [RlpValue KindByte [5] [], RlpValue KindString [] []]) \<and>
   rlp_encode (RlpValue KindList [] [RlpValue KindByte [5] [], RlpValue KindString [] []]) =
     [0xC2, 0x05, 0x80]"
proof -
  let ?v = "RlpValue KindList [] [RlpValue KindByte [5] [], RlpValue KindString [] []]"
  have "rlp_encode ?v = [0xC2, 0x05, 0x80]" and "rlp_wf 0 ?v"
    by (simp_all add: kind_of_bytes_def maxInt_def maxDecodeDepth_def EncodeList_eq EncodeBytes_def
      appendBytes_def appendHeader_def)
  then have "DecodeValue [0xC2, 0x05, 0x80] = Inr ?v"
    by (metis DecodeValue_rlp_encode)
  with rlp_canonical [OF this] show ?thesis by blast
qed

text \<open>C40: the decoder always returns a value or one of the package's errors, on every input: its
  recursion ends (the fuel the model gives it is never used up) and every slice it takes is
  within its input.\<close>

theorem DecodeValue_total:
  "DecodeValue b \<noteq> Inl OutOfFuel \<and>
   (case readKind b of Inl err \<Rightarrow> True | Inr (k, tagSize, contentSize) \<Rightarrow> tagSize + contentSize \<le> length b)"
  using decode_fuel(1) [of b "decodeFuel b" 0] readKind_bounds
  by (auto simp: DecodeValue_def decodeFuel_def split: sum.splits prod.splits if_splits)

end
