(* ===== verification/Mpt.thy ===== *)
theory Mpt
  imports Rlp
begin

unbundle bit_operations_syntax

text \<open>
  The Merkle Patricia Trie verifier of \<^verbatim>\<open>p/onbloc/verifier/evm/mpt\<close>: nibble keys, the node
  decoder over the RLP codec, the walk \<open>get\<close> through one proof node, the loop \<open>verifyProof\<close> over
  the hash-indexed proof and the two entry points \<open>Verify\<close> and \<open>VerifyAbsence\<close>. The hash
  \<^verbatim>\<open>keccak256.Sum256\<close> is a parameter \<open>K\<close>; nothing is assumed of it except where a theorem says
  so. The theorems: the walk never indexes out of range, the loop ends when the proof's hash
  references are not circular, and a root and key determine the value, so no root has both an
  existence and an absence proof for a key.
\<close>

section \<open>Key encodings (encoding.gno)\<close>

definition keybytesToHex :: "bytes \<Rightarrow> bytes" where
  "keybytesToHex str = concat (map (\<lambda>b. [b div 16, b mod 16]) str) @ [16]"

definition compactToHex :: "bytes \<Rightarrow> bytes" where
  "compactToHex compact =
     (if compact = [] then compact
      else let base = keybytesToHex compact;
               base' = (if base ! 0 < 2 then take (length base - 1) base else base);
               chop = unat (2 - (base' ! 0 AND 1))
           in drop chop base')"

definition hasTerm :: "bytes \<Rightarrow> bool" where
  "hasTerm s \<longleftrightarrow> length s > 0 \<and> s ! (length s - 1) = 16"

section \<open>Nodes (node.gno)\<close>

text \<open>The \<open>node\<close> interface; the nil interface value is \<open>None\<close>.\<close>

datatype mpt_node =
    FullNode "mpt_node option list"
  | ShortNode bytes "mpt_node option"
  | HashNode bytes
  | ValueNode bytes

text \<open>The package's errors. \<open>IndexOutOfRange\<close> is the panic of an index expression out of range;
  \<open>verifyProof_no_panic\<close> shows that it does not happen.\<close>

datatype mpt_error = ErrRlp rlp_error | ErrInvalidRoot | ErrMissingNode nat bytes
  | ErrUnexpectedNode | ErrInvalidReference | ErrValueMismatch | ErrKeyPresent | ErrKeyAbsent
  | IndexOutOfRange

definition isDataNode :: "rlp_value \<Rightarrow> bool" where
  "isDataNode v \<longleftrightarrow> Kind v = KindString \<or> Kind v = KindByte"

lemma size_rlp_item: "v \<in> set items \<Longrightarrow> size v < Suc (size_list size items)"
  by (induction items) auto

lemma size_list_take: "size_list size (take n xs) \<le> size_list size xs"
  by (induction xs arbitrary: n) (auto simp: take_Cons split: nat.splits)

text \<open>\<open>decodeChildren\<close> is the loop of \<open>decodeFull\<close> over the first sixteen elements.\<close>

function (sequential) decodeNodeValue :: "rlp_value \<Rightarrow> mpt_error + mpt_node"
  and decodeShort :: "rlp_value \<Rightarrow> mpt_error + mpt_node"
  and decodeFull :: "rlp_value \<Rightarrow> mpt_error + mpt_node"
  and decodeChildren :: "rlp_value list \<Rightarrow> mpt_error + mpt_node option list"
  and decodeRef :: "rlp_value \<Rightarrow> mpt_error + mpt_node option" where
  "decodeNodeValue v =
     (if Kind v \<noteq> KindList then Inl ErrUnexpectedNode
      else if length (List v) = 2 then decodeShort v
      else if length (List v) = 17 then decodeFull v
      else Inl ErrUnexpectedNode)"
| "decodeShort (RlpValue k b (kbuf # val # rest)) =
     (if \<not> isDataNode kbuf then Inl ErrUnexpectedNode
      else let key = compactToHex (Bytes kbuf)
           in if hasTerm key then
                (if \<not> isDataNode val then Inl ErrUnexpectedNode
                 else Inr (ShortNode key (Some (ValueNode (Bytes val)))))
              else (case decodeRef val of
                      Inl err \<Rightarrow> Inl err
                    | Inr r \<Rightarrow> Inr (ShortNode key r)))"
| "decodeShort _ = Inl IndexOutOfRange"
| "decodeFull (RlpValue k b elems) =
     (if length elems < 17 then Inl IndexOutOfRange
      else case decodeChildren (take 16 elems) of
        Inl err \<Rightarrow> Inl err
      | Inr children \<Rightarrow>
          (let val = elems ! 16
           in if \<not> isDataNode val then Inl ErrUnexpectedNode
              else if length (Bytes val) > 0
                   then Inr (FullNode (children @ [Some (ValueNode (Bytes val))]))
                   else Inr (FullNode (children @ [None]))))"
| "decodeChildren [] = Inr []"
| "decodeChildren (x # xs) =
     (case decodeRef x of
        Inl err \<Rightarrow> Inl err
      | Inr cld \<Rightarrow>
          (case decodeChildren xs of
             Inl err \<Rightarrow> Inl err
           | Inr clds \<Rightarrow> Inr (cld # clds)))"
| "decodeRef buf =
     (if Kind buf = KindList then
        (case decodeNodeValue buf of Inl err \<Rightarrow> Inl err | Inr n \<Rightarrow> Inr (Some n))
      else if length (Bytes buf) = 0 then Inr None
      else if length (Bytes buf) = 32 then Inr (Some (HashNode (Bytes buf)))
      else Inl ErrInvalidReference)"
  by pat_completeness auto
termination
proof (relation "measure (\<lambda>a. case a of
      Inl (Inl v) \<Rightarrow> 3 * size v + 1
    | Inl (Inr v) \<Rightarrow> 3 * size v
    | Inr (Inl v) \<Rightarrow> 3 * size v
    | Inr (Inr (Inl xs)) \<Rightarrow> 3 * size_list size xs
    | Inr (Inr (Inr v)) \<Rightarrow> 3 * size v + 2)", goal_cases)
  case (5 k b elems)
  then show ?case using size_list_take [of 16 elems] by simp
qed auto

definition decodeNode :: "bytes \<Rightarrow> mpt_error + mpt_node" where
  "decodeNode buf =
     (case DecodeValue buf of Inl err \<Rightarrow> Inl (ErrRlp err) | Inr v \<Rightarrow> decodeNodeValue v)"

section \<open>The walk through a node (proof.gno)\<close>

lemma size_child: "i < length cs \<Longrightarrow> size_option size (cs ! i) < Suc (size_list (size_option size) cs)"
  by (metis le_imp_less_Suc nth_mem size_list_estimation' order_refl)

text \<open>\<open>None\<close> is the panic of \<^verbatim>\<open>key[0]\<close> or \<^verbatim>\<open>n.Children[key[0]]\<close> out of range.\<close>

function (sequential) get :: "mpt_node option \<Rightarrow> bytes \<Rightarrow> bool \<Rightarrow> (bytes \<times> mpt_node option) option" where
  "get (Some (ShortNode nkey val)) key skipResolved =
     (if length key < length nkey \<or> nkey \<noteq> take (length nkey) key then Some ([], None)
      else let key' = drop (length nkey) key
           in if \<not> skipResolved then Some (key', val) else get val key' skipResolved)"
| "get (Some (FullNode children)) key skipResolved =
     (case key of
        [] \<Rightarrow> None
      | x # key' \<Rightarrow>
          if \<not> unat x < length children then None
          else let tn = children ! unat x
               in if \<not> skipResolved then Some (key', tn) else get tn key' skipResolved)"
| "get (Some (HashNode h)) key skipResolved = Some (key, Some (HashNode h))"
| "get None key skipResolved = Some (key, None)"
| "get (Some (ValueNode v)) key skipResolved = Some ([], Some (ValueNode v))"
  by pat_completeness auto
termination
  by (relation "measure (\<lambda>(tn, key, sk). size_option size tn)") (auto intro: less_SucI size_child)

text \<open>Go's \<^verbatim>\<open>copy(dst, src)\<close> on byte arrays.\<close>

definition copy_into :: "bytes \<Rightarrow> bytes \<Rightarrow> bytes" where
  "copy_into dst src = take (length dst) src @ drop (length src) dst"

text \<open>The loop of \<open>verifyProof\<close>: \<open>None\<close> when it does not end.\<close>

partial_function (option) verifyLoop ::
  "(bytes \<rightharpoonup> bytes) \<Rightarrow> bytes \<Rightarrow> bytes \<Rightarrow> nat \<Rightarrow> (mpt_error + bytes option) option" where
  "verifyLoop proofDb key wantHash i =
     (case proofDb wantHash of
        None \<Rightarrow> Some (Inl (ErrMissingNode i wantHash))
      | Some buf \<Rightarrow>
          (case decodeNode buf of
             Inl err \<Rightarrow> Some (Inl err)
           | Inr n \<Rightarrow>
               (case get (Some n) key True of
                  None \<Rightarrow> Some (Inl IndexOutOfRange)
                | Some (keyrest, cld) \<Rightarrow>
                    (case cld of
                       None \<Rightarrow> Some (Inr None)
                     | Some c \<Rightarrow>
                         (case c of
                            HashNode h \<Rightarrow> verifyLoop proofDb keyrest (copy_into wantHash h) (i + 1)
                          | ValueNode v \<Rightarrow> Some (Inr (Some v))
                          | FullNode cs \<Rightarrow> verifyLoop proofDb key wantHash (i + 1)
                          | ShortNode k v \<Rightarrow> verifyLoop proofDb key wantHash (i + 1))))))"

definition verifyProof :: "bytes \<Rightarrow> bytes \<Rightarrow> (bytes \<rightharpoonup> bytes) \<Rightarrow> (mpt_error + bytes option) option" where
  "verifyProof rootHash key proofDb = verifyLoop proofDb (keybytesToHex key) rootHash 0"

section \<open>Entry points (mpt.gno)\<close>

definition EmptyRoot :: "(bytes \<Rightarrow> bytes) \<Rightarrow> bytes" where
  "EmptyRoot K = K (EncodeBytes [])"

definition buildProofDb :: "(bytes \<Rightarrow> bytes) \<Rightarrow> bytes list \<Rightarrow> (bytes \<rightharpoonup> bytes)" where
  "buildProofDb K proof = foldl (\<lambda>db n. db(K n \<mapsto> n)) Map.empty proof"

definition Verify ::
  "(bytes \<Rightarrow> bytes) \<Rightarrow> bytes \<Rightarrow> bytes \<Rightarrow> bytes \<Rightarrow> bytes list \<Rightarrow> (mpt_error + unit) option" where
  "Verify K root key value proof =
     (if length root \<noteq> 32 then Some (Inl ErrInvalidRoot)
      else let rootHash = copy_into (replicate 32 0) root
           in if rootHash = EmptyRoot K then Some (Inl ErrKeyAbsent)
              else case verifyProof rootHash key (buildProofDb K proof) of
                None \<Rightarrow> None
              | Some (Inl err) \<Rightarrow> Some (Inl err)
              | Some (Inr None) \<Rightarrow> Some (Inl ErrKeyAbsent)
              | Some (Inr (Some found)) \<Rightarrow>
                  if found \<noteq> value then Some (Inl ErrValueMismatch) else Some (Inr ()))"

definition VerifyAbsence ::
  "(bytes \<Rightarrow> bytes) \<Rightarrow> bytes \<Rightarrow> bytes \<Rightarrow> bytes list \<Rightarrow> (mpt_error + unit) option" where
  "VerifyAbsence K root key proof =
     (if length root \<noteq> 32 then Some (Inl ErrInvalidRoot)
      else let rootHash = copy_into (replicate 32 0) root
           in if rootHash = EmptyRoot K then Some (Inr ())
              else case verifyProof rootHash key (buildProofDb K proof) of
                None \<Rightarrow> None
              | Some (Inl err) \<Rightarrow> Some (Inl err)
              | Some (Inr None) \<Rightarrow> Some (Inr ())
              | Some (Inr (Some found)) \<Rightarrow> Some (Inl ErrKeyPresent))"

section \<open>Keys, nodes and proofs as the theorems speak of them\<close>

text \<open>A key in hex form: nibbles and the terminator at the end.\<close>

definition hex_key :: "bytes \<Rightarrow> bool" where
  "hex_key key \<longleftrightarrow> key \<noteq> [] \<and> last key = 16 \<and> (\<forall>x\<in>set (butlast key). x < 16)"

definition wf_key :: "bytes \<Rightarrow> bool" where
  "wf_key k \<longleftrightarrow> hasTerm k \<or> (\<forall>x\<in>set k. x < 16)"

text \<open>What \<open>decodeNode\<close> builds: full nodes have seventeen children, the last one a value or
  nil, and a short node carries a value exactly when its key has the terminator.\<close>

fun wf_node :: "mpt_node option \<Rightarrow> bool" where
  "wf_node None = True"
| "wf_node (Some (HashNode h)) = (length h = 32)"
| "wf_node (Some (ValueNode v)) = True"
| "wf_node (Some (ShortNode k val)) =
     (wf_node val \<and> (if hasTerm k then \<exists>v. val = Some (ValueNode v) else \<forall>x\<in>set k. x < 16))"
| "wf_node (Some (FullNode children)) =
     (length children = 17 \<and> (\<forall>c\<in>set children. wf_node c) \<and>
      (case children ! 16 of None \<Rightarrow> True | Some n \<Rightarrow> \<exists>v. n = ValueNode v))"

text \<open>What a proof says of a key: the nodes are followed from the root by hash until one of
  them decides. The loop computes this relation.\<close>

inductive proof_walk :: "(bytes \<rightharpoonup> bytes) \<Rightarrow> bytes \<Rightarrow> bytes \<Rightarrow> bytes option \<Rightarrow> bool" for db where
  walk_absent: "db w = Some buf \<Longrightarrow> decodeNode buf = Inr n \<Longrightarrow>
     get (Some n) key True = Some (keyrest, None) \<Longrightarrow> proof_walk db key w None"
| walk_found: "db w = Some buf \<Longrightarrow> decodeNode buf = Inr n \<Longrightarrow>
     get (Some n) key True = Some (keyrest, Some (ValueNode v)) \<Longrightarrow> proof_walk db key w (Some v)"
| walk_follow: "db w = Some buf \<Longrightarrow> decodeNode buf = Inr n \<Longrightarrow>
     get (Some n) key True = Some (keyrest, Some (HashNode h)) \<Longrightarrow>
     proof_walk db keyrest h r \<Longrightarrow> proof_walk db key w r"

inductive_cases proof_walkE: "proof_walk db key w r"

fun node_refs :: "mpt_node option \<Rightarrow> bytes set" where
  "node_refs None = {}"
| "node_refs (Some (HashNode h)) = {h}"
| "node_refs (Some (ValueNode v)) = {}"
| "node_refs (Some (ShortNode k val)) = node_refs val"
| "node_refs (Some (FullNode children)) = (\<Union>c\<in>set children. node_refs c)"

text \<open>The hash references of a proof descend in some rank, that is, they are not circular.\<close>

definition acyclic_proof :: "(bytes \<Rightarrow> bytes) \<Rightarrow> bytes list \<Rightarrow> (bytes \<Rightarrow> nat) \<Rightarrow> bool" where
  "acyclic_proof K proof rank \<longleftrightarrow>
     (\<forall>buf\<in>set proof. case decodeNode buf of Inl err \<Rightarrow> True
        | Inr n \<Rightarrow> \<forall>h\<in>node_refs (Some n). rank h < rank (K buf))"

section \<open>Nibble keys and decoded nodes\<close>

lemma nibble_less: "(b :: byte) div 16 < 16" "(b :: byte) mod 16 < 16"
proof -
  show "b mod 16 < 16" by (simp add: word_mod_less_divisor word_gt_0)
  have "unat b < 256" by simp
  then have "unat b div 16 < 16" by linarith
  then show "b div 16 < 16" by (simp add: word_less_nat_alt unat_div)
qed

lemma hex_key_keybytesToHex: "hex_key (keybytesToHex str)"
  by (auto simp: hex_key_def keybytesToHex_def nibble_less butlast_append)

lemma hasTerm_iff: "hasTerm s \<longleftrightarrow> s \<noteq> [] \<and> last s = 16"
  by (auto simp: hasTerm_def last_conv_nth)

lemma hex_key_nonterm: "\<forall>x\<in>set k. x < 16 \<Longrightarrow> \<not> hasTerm k"
  unfolding hasTerm_iff using last_in_set by fastforce

lemma drop_keybytesToHex:
  assumes "compact \<noteq> []" and "n \<le> 2"
  shows "hasTerm (drop n (keybytesToHex compact))"
proof -
  obtain c cs where c: "compact = c # cs" using assms by (cases compact) auto
  have "n < length (keybytesToHex compact)" using assms c by (simp add: keybytesToHex_def)
  then show ?thesis using hex_key_keybytesToHex [of compact]
    by (simp add: hasTerm_iff hex_key_def)
qed

lemma chop_le: "unat (2 - (x AND 1) :: byte) \<le> 2"
proof -
  have "x AND 1 = 0 \<or> x AND 1 = 1"
    by (metis and_one_eq odd_iff_mod_2_eq_one parity_cases)
  then show ?thesis by auto
qed

lemma wf_key_compactToHex: "wf_key (compactToHex compact)"
proof (cases "compact = []")
  case False
  let ?base = "keybytesToHex compact"
  show ?thesis
  proof (cases "?base ! 0 < 2")
    case True
    have "\<forall>x\<in>set (butlast ?base). x < 16"
      using hex_key_keybytesToHex [of compact] by (simp add: hex_key_def)
    then have "\<forall>x\<in>set (drop n (butlast ?base)). x < 16" for n
      using in_set_dropD by fastforce
    then show ?thesis
      using True False by (simp add: compactToHex_def wf_key_def Let_def butlast_conv_take)
  next
    case 2: False
    then show ?thesis
      using False drop_keybytesToHex [OF False chop_le]
      by (simp add: compactToHex_def wf_key_def Let_def)
  qed
qed (simp add: compactToHex_def wf_key_def)

lemma decode_wf:
  "decodeNodeValue v = Inr n \<Longrightarrow> wf_node (Some n)"
  "decodeShort v = Inr n \<Longrightarrow> wf_node (Some n)"
  "decodeFull v = Inr n \<Longrightarrow> wf_node (Some n)"
  "decodeChildren xs = Inr cs \<Longrightarrow> length cs = length xs \<and> (\<forall>c\<in>set cs. wf_node c)"
  "decodeRef v = Inr r \<Longrightarrow> wf_node r"
proof (induction v and v and v and xs and v arbitrary: n and n and n and cs and r
    rule: decodeNodeValue_decodeShort_decodeFull_decodeChildren_decodeRef.induct)
  case (2 k b kbuf val rest)
  then show ?case
    using wf_key_compactToHex [of "Bytes kbuf"]
    by (auto simp: Let_def wf_key_def split: if_splits sum.splits)
next
  case (4 k b elems)
  from 4(2) obtain children where ch: "decodeChildren (take 16 elems) = Inr children"
    and len: "17 \<le> length elems"
    and n: "n = FullNode (children @ [Some (ValueNode (Bytes (elems ! 16)))]) \<or> n = FullNode (children @ [None])"
    by (auto simp: Let_def split: if_splits sum.splits)
  have "length children = 16" "\<forall>c\<in>set children. wf_node c"
    using 4(1) [OF _ ch] len by auto
  with n show ?case by (auto simp: nth_append)
qed (auto split: if_splits sum.splits)

lemma decodeNode_wf: "decodeNode buf = Inr n \<Longrightarrow> wf_node (Some n)"
  by (auto simp: decodeNode_def decode_wf split: sum.splits)

lemma hex_key_Cons: "hex_key (x # key) \<Longrightarrow> x = 16 \<and> key = [] \<or> x < 16 \<and> hex_key key"
  by (cases key) (auto simp: hex_key_def)

lemma hex_key_drop: "hex_key (k @ key) \<Longrightarrow> \<forall>x\<in>set k. x < 16 \<Longrightarrow> hex_key key"
proof (induction k)
  case (Cons x k)
  then show ?case using hex_key_Cons [of x "k @ key"] by auto
qed simp

text \<open>The walk through a decoded node with a hex key never panics, and hands a hex key on.\<close>

lemma get_hex:
  "wf_node tn \<Longrightarrow> hex_key key \<Longrightarrow>
     \<exists>keyrest cld. get tn key True = Some (keyrest, cld) \<and>
       (case cld of None \<Rightarrow> True | Some (ValueNode v) \<Rightarrow> True
        | Some (HashNode h) \<Rightarrow> hex_key keyrest \<and> length h = 32 | _ \<Rightarrow> False)"
proof (induction tn key "True" rule: get.induct)
  case (1 nkey val key)
  show ?case
  proof (cases "length key < length nkey \<or> nkey \<noteq> take (length nkey) key")
    case False
    then have key: "key = nkey @ drop (length nkey) key" by (metis append_take_drop_id)
    show ?thesis
    proof (cases "hasTerm nkey")
      case True
      then obtain v where "val = Some (ValueNode v)" using 1 by auto
      then show ?thesis using False by simp
    next
      case nt: False
      then have "hex_key (drop (length nkey) key)"
        using hex_key_drop [of nkey "drop (length nkey) key"] 1(2,3) key by auto
      then show ?thesis using 1 False nt by (simp add: Let_def)
    qed
  qed simp
next
  case (2 children key)
  then obtain x key' where key: "key = x # key'" by (cases key) (auto simp: hex_key_def)
  have len: "length children = 17" using 2 by simp
  from hex_key_Cons [of x key'] 2(3) key
  consider (terminator) "x = 16" | (nib) "x < 16" "hex_key key'" by auto
  then show ?case
  proof cases
    case terminator
    then show ?thesis
      using 2(2) key len by (cases "children ! 16") auto
  next
    case nib
    then have i: "unat x < length children" using len by (simp add: word_less_nat_alt)
    then have "wf_node (children ! unat x)" using 2(2) nth_mem by auto
    then show ?thesis using 2(1) [OF key _ refl] i nib key by (simp add: Let_def)
  qed
qed auto


section \<open>The loop\<close>

lemma copy_into_32: "length h = 32 \<Longrightarrow> length w = 32 \<Longrightarrow> copy_into w h = h"
  by (simp add: copy_into_def)

text \<open>One unfolding of the loop on decoded nodes and hex keys.\<close>

lemma verifyLoop_unfold:
  assumes "hex_key key" and "length w = 32" and "proofDb w = Some buf" and "decodeNode buf = Inr n"
  obtains (absent) keyrest where "get (Some n) key True = Some (keyrest, None)"
      "verifyLoop proofDb key w i = Some (Inr None)"
    | (found) keyrest v where "get (Some n) key True = Some (keyrest, Some (ValueNode v))"
      "verifyLoop proofDb key w i = Some (Inr (Some v))"
    | (follow) keyrest h where "get (Some n) key True = Some (keyrest, Some (HashNode h))"
      "hex_key keyrest" "length h = 32"
      "verifyLoop proofDb key w i = verifyLoop proofDb keyrest h (i + 1)"
proof -
  obtain keyrest cld where g: "get (Some n) key True = Some (keyrest, cld)"
    and c: "case cld of None \<Rightarrow> True | Some (ValueNode v) \<Rightarrow> True
        | Some (HashNode h) \<Rightarrow> hex_key keyrest \<and> length h = 32 | _ \<Rightarrow> False"
    using get_hex [OF decodeNode_wf [OF assms(4)] assms(1)] by blast
  note step = verifyLoop.simps [of proofDb key w i]
  from c consider "cld = None" | v where "cld = Some (ValueNode v)"
    | h where "cld = Some (HashNode h)" "hex_key keyrest" "length h = 32"
    by (auto split: option.splits mpt_node.splits)
  then show ?thesis
  proof cases
    case 1
    with g assms show ?thesis by (intro absent) (simp_all add: step)
  next
    case 2
    with g assms show ?thesis by (intro found) (simp_all add: step)
  next
    case 3
    with g assms show ?thesis by (intro follow) (simp_all add: step copy_into_32)
  qed
qed

lemma verifyLoop_stops:
  "proofDb w = None \<Longrightarrow> verifyLoop proofDb key w i = Some (Inl (ErrMissingNode i w))"
  "proofDb w = Some buf \<Longrightarrow> decodeNode buf = Inl err \<Longrightarrow> verifyLoop proofDb key w i = Some (Inl err)"
  by (simp_all add: verifyLoop.simps [of proofDb key w i])

lemma decode_no_panic:
  "decodeNodeValue v \<noteq> Inl IndexOutOfRange"
  "2 \<le> length (List v) \<Longrightarrow> decodeShort v \<noteq> Inl IndexOutOfRange"
  "17 \<le> length (List v) \<Longrightarrow> decodeFull v \<noteq> Inl IndexOutOfRange"
  "decodeChildren xs \<noteq> Inl IndexOutOfRange"
  "decodeRef v \<noteq> Inl IndexOutOfRange"
proof (induction v and v and v and xs and v
    rule: decodeNodeValue_decodeShort_decodeFull_decodeChildren_decodeRef.induct)
  case (4 k b elems)
  then show ?case by (auto simp: Let_def split: sum.splits)
qed (auto simp: Let_def split: if_splits sum.splits)

text \<open>A property of whatever the loop returns, by induction over its calls.\<close>

lemma verifyLoop_no_panic:
  assumes ret: "verifyLoop proofDb key w i = Some r" and "hex_key key" and "length w = 32"
  shows "r \<noteq> Inl IndexOutOfRange"
proof -
  have "hex_key key \<longrightarrow> length w = 32 \<longrightarrow> r \<noteq> Inl IndexOutOfRange"
  proof (rule verifyLoop.raw_induct [where
        P = "\<lambda>db key w i r. hex_key key \<longrightarrow> length w = 32 \<longrightarrow> r \<noteq> Inl IndexOutOfRange", OF _ ret],
      intro impI)
    fix f proofDb key w i r
    assume IH: "\<And>db key w i r. f db key w i = Some r \<Longrightarrow>
        hex_key key \<longrightarrow> length w = 32 \<longrightarrow> r \<noteq> Inl IndexOutOfRange"
      and hk: "hex_key key" and lw: "length w = 32"
      and eq: "(case proofDb w of None \<Rightarrow> Some (Inl (ErrMissingNode i w))
        | Some buf \<Rightarrow> (case decodeNode buf of Inl err \<Rightarrow> Some (Inl err)
           | Inr n \<Rightarrow> (case get (Some n) key True of None \<Rightarrow> Some (Inl IndexOutOfRange)
                | Some (keyrest, cld) \<Rightarrow> (case cld of None \<Rightarrow> Some (Inr None)
                     | Some c \<Rightarrow> (case c of
                            HashNode h \<Rightarrow> f proofDb keyrest (copy_into w h) (i + 1)
                          | ValueNode v \<Rightarrow> Some (Inr (Some v))
                          | FullNode cs \<Rightarrow> f proofDb key w (i + 1)
                          | ShortNode k v \<Rightarrow> f proofDb key w (i + 1)))))) = Some r"
    show "r \<noteq> Inl IndexOutOfRange"
    proof (cases "proofDb w")
      case (Some buf)
      show ?thesis
      proof (cases "decodeNode buf")
        case (Inl e)
        then have "e \<noteq> IndexOutOfRange"
          using decode_no_panic(1) by (auto simp: decodeNode_def split: sum.splits)
        then show ?thesis using eq Some Inl by auto
      next
        case (Inr n)
        obtain keyrest cld where g: "get (Some n) key True = Some (keyrest, cld)"
          and c: "case cld of None \<Rightarrow> True | Some (ValueNode v) \<Rightarrow> True
            | Some (HashNode h) \<Rightarrow> hex_key keyrest \<and> length h = 32 | _ \<Rightarrow> False"
          using get_hex [OF decodeNode_wf [OF Inr] hk] by blast
        show ?thesis
          using eq Some Inr g c IH lw copy_into_32
          by (auto split: option.splits mpt_node.splits)
      qed
    qed (use eq in auto)
  qed
  then show ?thesis using assms by blast
qed

section \<open>The loop computes the walk\<close>

lemma verifyLoop_complete:
  "proof_walk db key w r \<Longrightarrow> hex_key key \<Longrightarrow> length w = 32 \<Longrightarrow> verifyLoop db key w i = Some (Inr r)"
proof (induction arbitrary: i rule: proof_walk.induct)
  case (walk_follow w buf n key keyrest h r)
  from walk_follow.prems walk_follow.hyps(1,2) show ?case
  proof (cases rule: verifyLoop_unfold [where i = i])
    case (follow keyrest' h')
    then show ?thesis using walk_follow by simp
  qed (use walk_follow in auto)
next
  case (walk_absent w buf n key keyrest)
  then show ?case by (simp add: verifyLoop.simps [of db key w i])
next
  case (walk_found w buf n key keyrest v)
  then show ?case by (simp add: verifyLoop.simps [of db key w i])
qed

lemma verifyLoop_sound:
  assumes ret: "verifyLoop db key w i = Some (Inr r)" and "hex_key key" and "length w = 32"
  shows "proof_walk db key w r"
proof -
  have "\<forall>r. x = Inr r \<longrightarrow> hex_key key \<longrightarrow> length w = 32 \<longrightarrow> proof_walk db key w r"
    if "verifyLoop db key w i = Some x" for x
  proof (rule verifyLoop.raw_induct [where P = "\<lambda>db key w i x.
        \<forall>r. x = Inr r \<longrightarrow> hex_key key \<longrightarrow> length w = 32 \<longrightarrow> proof_walk db key w r", OF _ that],
      intro allI impI)
    fix f db key w i x r
    assume IH: "\<And>db key w i x. f db key w i = Some x \<Longrightarrow>
        \<forall>r. x = Inr r \<longrightarrow> hex_key key \<longrightarrow> length w = 32 \<longrightarrow> proof_walk db key w r"
      and hk: "hex_key key" and lw: "length w = 32" and x: "x = Inr r"
      and eq: "(case db w of None \<Rightarrow> Some (Inl (ErrMissingNode i w))
        | Some buf \<Rightarrow> (case decodeNode buf of Inl err \<Rightarrow> Some (Inl err)
           | Inr n \<Rightarrow> (case get (Some n) key True of None \<Rightarrow> Some (Inl IndexOutOfRange)
                | Some (keyrest, cld) \<Rightarrow> (case cld of None \<Rightarrow> Some (Inr None)
                     | Some c \<Rightarrow> (case c of
                            HashNode h \<Rightarrow> f db keyrest (copy_into w h) (i + 1)
                          | ValueNode v \<Rightarrow> Some (Inr (Some v))
                          | FullNode cs \<Rightarrow> f db key w (i + 1)
                          | ShortNode k v \<Rightarrow> f db key w (i + 1)))))) = Some x"
    from eq x obtain buf n where db: "db w = Some buf" and n: "decodeNode buf = Inr n"
      by (auto split: option.splits sum.splits)
    obtain keyrest cld where g: "get (Some n) key True = Some (keyrest, cld)"
      and c: "case cld of None \<Rightarrow> True | Some (ValueNode v) \<Rightarrow> True
        | Some (HashNode h) \<Rightarrow> hex_key keyrest \<and> length h = 32 | _ \<Rightarrow> False"
      using get_hex [OF decodeNode_wf [OF n] hk] by blast
    show "proof_walk db key w r"
      using eq x db n g c IH [of db keyrest] copy_into_32 [OF _ lw]
      by (auto split: option.splits mpt_node.splits intro: proof_walk.intros)
  qed
  then show ?thesis using assms by blast
qed

text \<open>Two proofs that agree on the nodes they share cannot disagree on a key.\<close>

lemma proof_walk_agree:
  assumes agree: "\<And>h m n. db h = Some m \<Longrightarrow> db' h = Some n \<Longrightarrow> m = n"
  shows "proof_walk db key w r \<Longrightarrow> proof_walk db' key w r' \<Longrightarrow> r = r'"
proof (induction arbitrary: r' rule: proof_walk.induct)
  case (walk_absent w buf n key keyrest)
  from walk_absent.prems show ?case
    by (cases rule: proof_walkE) (use walk_absent agree in fastforce)+
next
  case (walk_found w buf n key keyrest v)
  from walk_found.prems show ?case
    by (cases rule: proof_walkE) (use walk_found agree in fastforce)+
next
  case (walk_follow w buf n key keyrest h r)
  from walk_follow.prems show ?case
    by (cases rule: proof_walkE) (use walk_follow agree in fastforce)+
qed

lemma buildProofDb_Some:
  assumes "buildProofDb K ns h = Some n"
  shows "n \<in> set ns \<and> K n = h"
proof -
  have "foldl (\<lambda>db n. db(K n \<mapsto> n)) m ns h = Some n \<Longrightarrow> m h = Some n \<or> n \<in> set ns \<and> K n = h" for m
    by (induction ns arbitrary: m) (fastforce split: if_splits)+
  from this [of Map.empty] assms show ?thesis
    by (simp add: buildProofDb_def)
qed

lemma buildProofDb_agree:
  assumes "inj_on K (set p \<union> set q)" and "buildProofDb K p h = Some m" and "buildProofDb K q h = Some n"
  shows "m = n"
  using buildProofDb_Some [OF assms(2)] buildProofDb_Some [OF assms(3)] assms(1)
  by (auto simp: inj_on_def)

lemma get_refs: "get tn key True = Some (keyrest, Some (HashNode h)) \<Longrightarrow> h \<in> node_refs tn"
  by (induction tn key "True" rule: get.induct)
    (fastforce simp: Let_def split: if_splits list.splits dest: nth_mem)+

lemma verifyLoop_terminates:
  assumes "acyclic_proof K proof rank"
  shows "hex_key key \<Longrightarrow> length w = 32 \<Longrightarrow> \<exists>r. verifyLoop (buildProofDb K proof) key w i = Some r"
proof (induction "rank w" arbitrary: w key i rule: less_induct)
  case less
  let ?db = "buildProofDb K proof"
  show ?case
  proof (cases "?db w")
    case (Some buf)
    then have buf: "buf \<in> set proof" "K buf = w" using buildProofDb_Some by blast+
    show ?thesis
    proof (cases "decodeNode buf")
      case (Inr n)
      from less.prems Some Inr show ?thesis
      proof (cases rule: verifyLoop_unfold [where i = i])
        case (follow keyrest h)
        have "rank h < rank w"
          using assms buf Inr get_refs [OF follow(1)] by (fastforce simp: acyclic_proof_def)
        with follow less.hyps show ?thesis by metis
      qed auto
    qed (use Some verifyLoop_stops in auto)
  qed (use verifyLoop_stops in auto)
qed

lemma copy_root: "length root = 32 \<Longrightarrow> copy_into (replicate 32 0) root = root"
  by (simp add: copy_into_def)

lemma verifyProof_walk:
  "length root = 32 \<Longrightarrow>
     verifyProof root key db = Some (Inr r) \<longleftrightarrow> proof_walk db (keybytesToHex key) root r"
  unfolding verifyProof_def
  using verifyLoop_sound verifyLoop_complete hex_key_keybytesToHex by blast

lemma Verify_ok:
  "Verify K root key value proof = Some (Inr ()) \<longleftrightarrow>
     length root = 32 \<and> root \<noteq> EmptyRoot K \<and>
     proof_walk (buildProofDb K proof) (keybytesToHex key) root (Some value)"
proof (cases "length root = 32")
  case True
  show ?thesis
    unfolding verifyProof_walk [OF True, symmetric]
    by (auto simp: Verify_def True copy_root Let_def split: option.splits sum.splits if_splits)
qed (simp add: Verify_def)

lemma VerifyAbsence_ok:
  "VerifyAbsence K root key proof = Some (Inr ()) \<longleftrightarrow>
     length root = 32 \<and>
     (root = EmptyRoot K \<or> proof_walk (buildProofDb K proof) (keybytesToHex key) root None)"
proof (cases "length root = 32")
  case True
  show ?thesis
    unfolding verifyProof_walk [OF True, symmetric]
    by (auto simp: VerifyAbsence_def True copy_root Let_def split: option.splits sum.splits if_splits)
qed (simp add: VerifyAbsence_def)

lemma proofs_agree:
  assumes "inj_on K (set p \<union> set q)"
    and "proof_walk (buildProofDb K p) key w r" and "proof_walk (buildProofDb K q) key w r'"
  shows "r = r'"
  using buildProofDb_agree [OF assms(1)] assms(2,3)
  by (rule proof_walk_agree [of "buildProofDb K p" "buildProofDb K q"])

section \<open>Correctness of the verifier\<close>

text \<open>A concrete hash and a one-leaf proof, for the witnesses: the trie that maps the key
  \<open>0x12\<close> to \<open>0x05\<close>.\<close>

definition sample_hash :: "bytes \<Rightarrow> bytes" where
  "sample_hash b = take 32 (b @ replicate 32 0)"

definition sample_leaf :: bytes where
  "sample_leaf = [0xC4, 0x82, 0x20, 0x12, 0x05]"

lemma sample_leaf_node: "decodeNode sample_leaf = Inr (ShortNode [1, 2, 16] (Some (ValueNode [5])))"
proof -
  let ?v = "RlpValue KindList [] [RlpValue KindString [0x20, 0x12] [], RlpValue KindByte [5] []]"
  have "rlp_encode ?v = sample_leaf" and "rlp_wf 0 ?v"
    by (simp_all add: sample_leaf_def kind_of_bytes_def maxInt_def maxDecodeDepth_def EncodeList_eq
        EncodeBytes_def appendBytes_def appendHeader_def)
  then have "DecodeValue sample_leaf = Inr ?v" by (metis DecodeValue_rlp_encode)
  then show ?thesis
    by (simp add: decodeNode_def isDataNode_def compactToHex_def keybytesToHex_def hasTerm_def Let_def)
qed

lemma sample_Verify: "Verify sample_hash (sample_hash sample_leaf) [0x12] [5] [sample_leaf] = Some (Inr ())"
proof -
  have "get (Some (ShortNode [1, 2, 16] (Some (ValueNode [5])))) (keybytesToHex [0x12]) True =
      Some ([], Some (ValueNode [5]))"
    by (simp add: keybytesToHex_def)
  moreover have "buildProofDb sample_hash [sample_leaf] (sample_hash sample_leaf) = Some sample_leaf"
    by (simp add: buildProofDb_def)
  ultimately have "proof_walk (buildProofDb sample_hash [sample_leaf]) (keybytesToHex [0x12])
      (sample_hash sample_leaf) (Some [5])"
    using sample_leaf_node by (blast intro: walk_found)
  moreover have "length (sample_hash sample_leaf) = 32 \<and> sample_hash sample_leaf \<noteq> EmptyRoot sample_hash"
    by (simp add: sample_hash_def sample_leaf_def EmptyRoot_def EncodeBytes_def appendBytes_def appendHeader_def)
  ultimately show ?thesis by (simp add: Verify_ok)
qed

text \<open>A root and a key determine the value. If the hash does not collide on the nodes of two
  proofs and both verify for the same root and key, they verify the same value.\<close>

theorem mpt_value_unique:
  assumes "inj_on K (set p \<union> set q)"
    and "Verify K root key v p = Some (Inr ())"
    and "Verify K root key v' q = Some (Inr ())"
  shows "v = v'"
  using proofs_agree [OF assms(1)] assms(2,3) by (auto simp: Verify_ok)

theorem mpt_value_unique_witness:
  "Verify sample_hash (sample_hash sample_leaf) [0x12] [6] [sample_leaf] \<noteq> Some (Inr ())"
  using mpt_value_unique [of sample_hash "[sample_leaf]" "[sample_leaf]" "sample_hash sample_leaf"
      "[0x12]" "[5]" "[6]"] sample_Verify by auto

text \<open>C34: no key is both present and absent. If the hash does not collide on the nodes of two
  proofs, one of which verifies a value for a root and key, the other does not verify the key's
  absence under that root.\<close>

theorem mpt_exclusive:
  assumes "inj_on K (set p \<union> set q)"
    and "Verify K root key v p = Some (Inr ())"
  shows "VerifyAbsence K root key q \<noteq> Some (Inr ())"
  using proofs_agree [OF assms(1)] assms(2) by (auto simp: Verify_ok VerifyAbsence_ok)

theorem mpt_exclusive_witness:
  "VerifyAbsence sample_hash (sample_hash sample_leaf) [0x12] [sample_leaf] \<noteq> Some (Inr ())"
  by (rule mpt_exclusive [of sample_hash "[sample_leaf]" _ _ _ "[5]"]) (simp_all add: sample_Verify)

text \<open>No proof, however malformed, makes the verifier index out of range.\<close>

theorem mpt_no_panic:
  "Verify K root key v p \<noteq> Some (Inl IndexOutOfRange) \<and>
   VerifyAbsence K root key p \<noteq> Some (Inl IndexOutOfRange)"
proof (cases "length root = 32")
  case True
  then have "verifyProof root key (buildProofDb K p) \<noteq> Some (Inl IndexOutOfRange)"
    unfolding verifyProof_def using verifyLoop_no_panic [OF _ hex_key_keybytesToHex] by blast
  then show ?thesis
    using True by (auto simp: Verify_def VerifyAbsence_def copy_root Let_def
        split: option.splits sum.splits if_splits)
qed (simp add: Verify_def VerifyAbsence_def)

text \<open>C35: the verifier ends. When the hash references of the proof are not circular (they
  descend in some rank), both entry points return, for every root, key and value.\<close>

theorem mpt_terminates:
  assumes "acyclic_proof K p rank"
  shows "(\<exists>r. Verify K root key v p = Some r) \<and> (\<exists>r. VerifyAbsence K root key p = Some r)"
proof (cases "length root = 32")
  case True
  obtain r where "verifyProof root key (buildProofDb K p) = Some r"
    unfolding verifyProof_def using verifyLoop_terminates [OF assms hex_key_keybytesToHex True] by blast
  then show ?thesis
    using True by (auto simp: Verify_def VerifyAbsence_def copy_root Let_def split: sum.splits option.splits)
qed (simp add: Verify_def VerifyAbsence_def)

theorem mpt_terminates_witness:
  "(\<exists>r. Verify sample_hash (sample_hash sample_leaf) [0x13] [5] [sample_leaf] = Some r) \<and>
   (\<exists>r. VerifyAbsence sample_hash (sample_hash sample_leaf) [0x13] [sample_leaf] = Some r)"
  by (rule mpt_terminates [where rank = "\<lambda>_. 0"]) (simp add: acyclic_proof_def sample_leaf_node)

end
