(* ===== verification/Abi.thy ===== *)
theory Abi
  imports Prelude
begin

text \<open>
  The Solidity ABI codec of \<^verbatim>\<open>p/onbloc/encoding/abi\<close>: schemas, the encoder in the params tuple
  form (a head of static words and offsets, then the tail of dynamic payloads), the decoder with
  its bounds, alignment and depth checks, and the round trip between them for every value of a
  schema. Go's \<open>any\<close> is the datatype \<open>abi_value\<close> of the dynamic types the codec accepts;
  positions, never negative here, are naturals.
\<close>

section \<open>Types (types.gno)\<close>

datatype abi_type = TypeUint8 | TypeUint32 | TypeUint64 | TypeUint256 | TypeBytes32 | TypeBytes
  | TypeString | TypeBool | TypeAddress | TypeStruct | TypeArray | TypeOther int

text \<open>\<^verbatim>\<open>Sub *Schema\<close> and \<^verbatim>\<open>Elem *Field\<close> may be nil; a schema is its list of fields.\<close>

datatype field = Field (Type: abi_type) (Sub: "field list option") (Elem: "field option")

datatype abi_error = ErrUnsupportedType | ErrInvalidSchema | ErrInvalidValue | ErrInvalidData
  | ErrAbiDepthLimit

text \<open>\<^verbatim>\<open>type Uint [4]uint64\<close> of \<^verbatim>\<open>p/onbloc/math/uint256\<close>, least significant limb first.\<close>

datatype uint256 = Uint u64 u64 u64 u64

text \<open>The values behind \<open>any\<close>: a nil \<^verbatim>\<open>*u256.Uint\<close> is \<open>VUint256 None\<close>, \<^verbatim>\<open>[]any\<close> is \<open>VList\<close>.\<close>

datatype abi_value = VUint8 byte | VUint32 u32 | VUint64 u64 | VUint256 "uint256 option"
  | VBytes32 bytes | VBytes bytes | VString string | VBool bool | VList "abi_value list"

definition wordSize :: nat where
  "wordSize = 32"

definition maxAbiDepth :: nat where
  "maxAbiDepth = 256"

section \<open>Encoder (encode.gno)\<close>

fun isDynamic :: "field \<Rightarrow> bool" and anyDynamic :: "field list \<Rightarrow> bool" where
  "isDynamic (Field ty sub el) =
     (case ty of
        TypeBytes \<Rightarrow> True | TypeString \<Rightarrow> True | TypeArray \<Rightarrow> True
      | TypeStruct \<Rightarrow> (case sub of None \<Rightarrow> True | Some subs \<Rightarrow> anyDynamic subs)
      | _ \<Rightarrow> False)"
| "anyDynamic [] = False"
| "anyDynamic (f # fs) = (if isDynamic f then True else anyDynamic fs)"

fun staticHeadSize :: "field \<Rightarrow> abi_error + nat" and staticHeadSizes :: "field list \<Rightarrow> abi_error + nat" where
  "staticHeadSize (Field ty sub el) =
     (if isDynamic (Field ty sub el) then Inr wordSize
      else if ty = TypeStruct then
        (case sub of None \<Rightarrow> Inl ErrInvalidSchema | Some subs \<Rightarrow> staticHeadSizes subs)
      else Inr wordSize)"
| "staticHeadSizes [] = Inr 0"
| "staticHeadSizes (f # fs) =
     (case staticHeadSize f of
        Inl err \<Rightarrow> Inl err
      | Inr subSize \<Rightarrow>
          (case staticHeadSizes fs of Inl err \<Rightarrow> Inl err | Inr sz \<Rightarrow> Inr (subSize + sz)))"

definition encodeUint64Word :: "u64 \<Rightarrow> bytes" where
  "encodeUint64Word v = replicate 24 0 @ PutUint64 v"

fun encodeUint256Word :: "uint256 \<Rightarrow> bytes" where
  "encodeUint256Word (Uint v0 v1 v2 v3) = PutUint64 v3 @ PutUint64 v2 @ PutUint64 v1 @ PutUint64 v0"

definition encodeBytes :: "bytes \<Rightarrow> bytes" where
  "encodeBytes v =
     (let pad = (wordSize - length v mod wordSize) mod wordSize
      in encodeUint64Word (word_of_nat (length v)) @ v @ replicate pad 0)"

text \<open>The first loop of \<open>encodeTuple\<close>: the length of the head.\<close>

fun headLength :: "field list \<Rightarrow> abi_error + nat" where
  "headLength [] = Inr 0"
| "headLength (f # fs) =
     (case (if isDynamic f then Inr wordSize else staticHeadSize f) of
        Inl err \<Rightarrow> Inl err
      | Inr sz \<Rightarrow> (case headLength fs of Inl err \<Rightarrow> Inl err | Inr n \<Rightarrow> Inr (sz + n)))"

text \<open>\<open>encodeTupleLoop\<close> and \<open>encodeArrayLoop\<close> are the loops that append to \<open>head\<close> and
  \<open>tail\<close>; \<open>encodeElems\<close> is the loop of \<open>encodeArray\<close> over static elements.\<close>

function (sequential) encodeValue :: "field \<Rightarrow> abi_value \<Rightarrow> abi_error + bytes"
  and encodeTuple :: "field list \<Rightarrow> abi_value list \<Rightarrow> abi_error + bytes"
  and encodeTupleLoop :: "nat \<Rightarrow> field list \<Rightarrow> abi_value list \<Rightarrow> bytes \<Rightarrow> bytes \<Rightarrow> abi_error + bytes"
  and encodeArray :: "field \<Rightarrow> abi_value list \<Rightarrow> abi_error + bytes"
  and encodeArrayLoop :: "nat \<Rightarrow> field \<Rightarrow> abi_value list \<Rightarrow> bytes \<Rightarrow> bytes \<Rightarrow> abi_error + bytes \<times> bytes"
  and encodeElems :: "field \<Rightarrow> abi_value list \<Rightarrow> bytes \<Rightarrow> abi_error + bytes" where
  "encodeValue (Field ty sub el) value =
     (case ty of
        TypeUint8 \<Rightarrow> (case value of VUint8 v \<Rightarrow> Inr (encodeUint64Word (ucast v)) | _ \<Rightarrow> Inl ErrInvalidValue)
      | TypeUint32 \<Rightarrow> (case value of VUint32 v \<Rightarrow> Inr (encodeUint64Word (ucast v)) | _ \<Rightarrow> Inl ErrInvalidValue)
      | TypeUint64 \<Rightarrow> (case value of VUint64 v \<Rightarrow> Inr (encodeUint64Word v) | _ \<Rightarrow> Inl ErrInvalidValue)
      | TypeUint256 \<Rightarrow> (case value of VUint256 (Some v) \<Rightarrow> Inr (encodeUint256Word v) | _ \<Rightarrow> Inl ErrInvalidValue)
      | TypeBytes32 \<Rightarrow> (case value of VBytes32 v \<Rightarrow> Inr v | _ \<Rightarrow> Inl ErrInvalidValue)
      | TypeBytes \<Rightarrow> (case value of VBytes v \<Rightarrow> Inr (encodeBytes v) | _ \<Rightarrow> Inl ErrInvalidValue)
      | TypeString \<Rightarrow> (case value of VString v \<Rightarrow> Inr (encodeBytes (bytes_of_string v)) | _ \<Rightarrow> Inl ErrInvalidValue)
      | TypeBool \<Rightarrow>
          (case value of VBool v \<Rightarrow> Inr (encodeUint64Word (if v then 1 else 0)) | _ \<Rightarrow> Inl ErrInvalidValue)
      | TypeAddress \<Rightarrow>
          (case value of
             VBytes v \<Rightarrow> if length v \<noteq> 20 then Inl ErrInvalidValue else Inr (replicate 12 0 @ v)
           | _ \<Rightarrow> Inl ErrInvalidValue)
      | TypeStruct \<Rightarrow>
          (case sub of
             None \<Rightarrow> Inl ErrInvalidSchema
           | Some subs \<Rightarrow> (case value of VList v \<Rightarrow> encodeTuple subs v | _ \<Rightarrow> Inl ErrInvalidValue))
      | TypeArray \<Rightarrow>
          (case el of
             None \<Rightarrow> Inl ErrInvalidSchema
           | Some elem \<Rightarrow> (case value of VList v \<Rightarrow> encodeArray elem v | _ \<Rightarrow> Inl ErrInvalidValue))
      | TypeOther t \<Rightarrow> Inl ErrUnsupportedType)"
| "encodeTuple fields values =
     (if length fields \<noteq> length values then Inl ErrInvalidValue
      else case headLength fields of
        Inl err \<Rightarrow> Inl err
      | Inr headLen \<Rightarrow> encodeTupleLoop headLen fields values [] [])"
| "encodeTupleLoop headLen (f # fs) (v # vs) head tail =
     (case encodeValue f v of
        Inl err \<Rightarrow> Inl err
      | Inr encoded \<Rightarrow>
          if isDynamic f
          then encodeTupleLoop headLen fs vs
                 (head @ encodeUint64Word (word_of_nat (headLen + length tail))) (tail @ encoded)
          else encodeTupleLoop headLen fs vs (head @ encoded) tail)"
| "encodeTupleLoop headLen _ _ head tail = Inr (head @ tail)"
| "encodeArray elem values =
     (let out = encodeUint64Word (word_of_nat (length values))
      in if values = [] then Inr out
         else if isDynamic elem then
           (case encodeArrayLoop (length values * wordSize) elem values [] [] of
              Inl err \<Rightarrow> Inl err
            | Inr (head, tail) \<Rightarrow> Inr (out @ head @ tail))
         else encodeElems elem values out)"
| "encodeArrayLoop headLen elem [] head tail = Inr (head, tail)"
| "encodeArrayLoop headLen elem (v # vs) head tail =
     (case encodeValue elem v of
        Inl err \<Rightarrow> Inl err
      | Inr encoded \<Rightarrow>
          encodeArrayLoop headLen elem vs
            (head @ encodeUint64Word (word_of_nat (headLen + length tail))) (tail @ encoded))"
| "encodeElems elem [] out = Inr out"
| "encodeElems elem (v # vs) out =
     (case encodeValue elem v of
        Inl err \<Rightarrow> Inl err
      | Inr encoded \<Rightarrow> encodeElems elem vs (out @ encoded))"
  by pat_completeness auto
termination
  by (relation "measure (\<lambda>a. case a of
      Inl (Inl (_, v)) \<Rightarrow> 3 * size v
    | Inl (Inr (Inl (_, vs))) \<Rightarrow> 3 * size_list size vs + 2
    | Inl (Inr (Inr (_, _, vs, _))) \<Rightarrow> 3 * size_list size vs + 1
    | Inr (Inl (_, vs)) \<Rightarrow> 3 * size_list size vs + 2
    | Inr (Inr (Inl (_, _, vs, _))) \<Rightarrow> 3 * size_list size vs + 1
    | Inr (Inr (Inr (_, vs, _))) \<Rightarrow> 3 * size_list size vs + 1)") auto

definition Encode :: "field list \<Rightarrow> abi_value list \<Rightarrow> abi_error + bytes" where
  "Encode schema values = encodeTuple schema values"

section \<open>Decoder (decode.gno)\<close>

definition slice :: "bytes \<Rightarrow> nat \<Rightarrow> nat \<Rightarrow> bytes" where
  "slice data i j = take (j - i) (drop i data)"

definition decodeWordUint64 :: "bytes \<Rightarrow> abi_error + u64" where
  "decodeWordUint64 w =
     (if length w \<noteq> wordSize then Inl ErrInvalidData
      else if \<exists>b\<in>set (take 24 w). b \<noteq> 0 then Inl ErrInvalidData
      else Inr (BigEndianUint64 (slice w 24 32)))"

definition roundUp32 :: "u64 \<Rightarrow> u64" where
  "roundUp32 v = (if v mod 32 = 0 then v else v + 32 - v mod 32)"

definition SetBytes32 :: "bytes \<Rightarrow> uint256" where
  "SetBytes32 b =
     Uint (BigEndianUint64 (slice b 24 32)) (BigEndianUint64 (slice b 16 24))
          (BigEndianUint64 (slice b 8 16)) (BigEndianUint64 (slice b 0 8))"

definition bytesAt :: "bytes \<Rightarrow> nat \<Rightarrow> nat \<Rightarrow> abi_error + bytes" where
  "bytesAt data pos e =
     (if pos + wordSize > e then Inl ErrInvalidData
      else case decodeWordUint64 (slice data pos (pos + wordSize)) of
        Inl err \<Rightarrow> Inl err
      | Inr len \<Rightarrow>
          (let start = pos + wordSize; remaining = e - start; padded = roundUp32 len
           in if padded < len \<or> unat len > remaining \<or> unat padded > remaining
              then Inl ErrInvalidData
              else Inr (slice data start (start + unat len))))"

text \<open>\<open>tupleLoop\<close>, \<open>offsetsLoop\<close> and \<open>elemsLoop\<close> are the loops of \<open>tupleAt\<close> and \<open>arrayAt\<close>
  over the fields, the dynamic and the static elements; \<open>k\<close> elements are left.\<close>

function (sequential) tupleAt :: "bytes \<Rightarrow> field list \<Rightarrow> nat \<Rightarrow> nat \<Rightarrow> nat \<Rightarrow> abi_error + abi_value list"
  and tupleLoop :: "bytes \<Rightarrow> field list \<Rightarrow> nat \<Rightarrow> nat \<Rightarrow> nat \<Rightarrow> nat \<Rightarrow> abi_error + abi_value list"
  and valueAt :: "bytes \<Rightarrow> field \<Rightarrow> nat \<Rightarrow> nat \<Rightarrow> nat \<Rightarrow> abi_error + abi_value"
  and staticValue :: "bytes \<Rightarrow> field \<Rightarrow> nat \<Rightarrow> nat \<Rightarrow> nat \<Rightarrow> abi_error + abi_value"
  and arrayAt :: "bytes \<Rightarrow> field \<Rightarrow> nat \<Rightarrow> nat \<Rightarrow> nat \<Rightarrow> abi_error + abi_value list"
  and offsetsLoop :: "bytes \<Rightarrow> field \<Rightarrow> nat \<Rightarrow> nat \<Rightarrow> nat \<Rightarrow> nat \<Rightarrow> nat \<Rightarrow> abi_error + abi_value list"
  and elemsLoop :: "bytes \<Rightarrow> field \<Rightarrow> nat \<Rightarrow> nat \<Rightarrow> nat \<Rightarrow> nat \<Rightarrow> nat \<Rightarrow> abi_error + abi_value list" where
  "tupleAt data fields start e depth =
     (let depth = depth + 1
      in if depth > maxAbiDepth then Inl ErrAbiDepthLimit
         else if e < start \<or> e > length data then Inl ErrInvalidData
         else tupleLoop data fields start e depth start)"
| "tupleLoop data [] start e depth cursor = Inr []"
| "tupleLoop data (f # fs) start e depth cursor =
     (case (if isDynamic f then Inr wordSize else staticHeadSize f) of
        Inl err \<Rightarrow> Inl err
      | Inr sz \<Rightarrow>
          if cursor > e \<or> sz > e - cursor then Inl ErrInvalidData
          else if isDynamic f then
            (case decodeWordUint64 (slice data cursor (cursor + wordSize)) of
               Inl err \<Rightarrow> Inl err
             | Inr off \<Rightarrow>
                 if unat off > e - start \<or> unat off mod wordSize \<noteq> 0 then Inl ErrInvalidData
                 else case valueAt data f (start + unat off) e depth of
                   Inl err \<Rightarrow> Inl err
                 | Inr v \<Rightarrow>
                     (case tupleLoop data fs start e depth (cursor + wordSize) of
                        Inl err \<Rightarrow> Inl err | Inr vs \<Rightarrow> Inr (v # vs)))
          else
            (case staticValue data f cursor e depth of
               Inl err \<Rightarrow> Inl err
             | Inr v \<Rightarrow>
                 (case tupleLoop data fs start e depth (cursor + sz) of
                    Inl err \<Rightarrow> Inl err | Inr vs \<Rightarrow> Inr (v # vs))))"
| "valueAt data (Field ty sub el) pos e depth =
     (case ty of
        TypeBytes \<Rightarrow> (case bytesAt data pos e of Inl err \<Rightarrow> Inl err | Inr bz \<Rightarrow> Inr (VBytes bz))
      | TypeString \<Rightarrow>
          (case bytesAt data pos e of Inl err \<Rightarrow> Inl err | Inr bz \<Rightarrow> Inr (VString (string_of_bytes bz)))
      | TypeStruct \<Rightarrow>
          (case sub of
             None \<Rightarrow> Inl ErrInvalidSchema
           | Some subs \<Rightarrow>
               (case tupleAt data subs pos e depth of Inl err \<Rightarrow> Inl err | Inr vs \<Rightarrow> Inr (VList vs)))
      | TypeArray \<Rightarrow>
          (case el of
             None \<Rightarrow> Inl ErrInvalidSchema
           | Some elem \<Rightarrow>
               (case arrayAt data elem pos e depth of Inl err \<Rightarrow> Inl err | Inr vs \<Rightarrow> Inr (VList vs)))
      | _ \<Rightarrow> staticValue data (Field ty sub el) pos e depth)"
| "staticValue data (Field ty sub el) pos e depth =
     (if pos + wordSize > e then Inl ErrInvalidData
      else let w = slice data pos (pos + wordSize) in
      (case ty of
        TypeUint8 \<Rightarrow>
          (case decodeWordUint64 w of
             Inl err \<Rightarrow> Inl ErrInvalidData
           | Inr v \<Rightarrow> if v > 255 then Inl ErrInvalidData else Inr (VUint8 (ucast v)))
      | TypeUint32 \<Rightarrow>
          (case decodeWordUint64 w of
             Inl err \<Rightarrow> Inl ErrInvalidData
           | Inr v \<Rightarrow> if v > 0xFFFFFFFF then Inl ErrInvalidData else Inr (VUint32 (ucast v)))
      | TypeUint64 \<Rightarrow> (case decodeWordUint64 w of Inl err \<Rightarrow> Inl err | Inr v \<Rightarrow> Inr (VUint64 v))
      | TypeUint256 \<Rightarrow> Inr (VUint256 (Some (SetBytes32 w)))
      | TypeBytes32 \<Rightarrow> Inr (VBytes32 w)
      | TypeBool \<Rightarrow>
          (case decodeWordUint64 w of
             Inl err \<Rightarrow> Inl ErrInvalidData
           | Inr v \<Rightarrow> if v > 1 then Inl ErrInvalidData else Inr (VBool (v = 1)))
      | TypeAddress \<Rightarrow>
          if \<exists>b\<in>set (take 12 w). b \<noteq> 0 then Inl ErrInvalidData else Inr (VBytes (slice w 12 wordSize))
      | TypeStruct \<Rightarrow>
          (case sub of
             None \<Rightarrow> Inl ErrInvalidSchema
           | Some subs \<Rightarrow>
               (case tupleAt data subs pos e depth of Inl err \<Rightarrow> Inl err | Inr vs \<Rightarrow> Inr (VList vs)))
      | _ \<Rightarrow> Inl ErrUnsupportedType))"
| "arrayAt data elem pos e depth =
     (let depth = depth + 1
      in if depth > maxAbiDepth then Inl ErrAbiDepthLimit
         else if pos > e \<or> wordSize > e - pos then Inl ErrInvalidData
         else case decodeWordUint64 (slice data pos (pos + wordSize)) of
           Inl err \<Rightarrow> Inl err
         | Inr len \<Rightarrow>
             if unat len > (e - pos) div wordSize then Inl ErrInvalidData
             else let n = unat len; headStart = pos + wordSize
                  in if isDynamic elem then
                       (if n > (e - headStart) div wordSize then Inl ErrInvalidData
                        else offsetsLoop data elem headStart e depth n 0)
                     else case staticHeadSize elem of
                       Inl err \<Rightarrow> Inl err
                     | Inr elemSize \<Rightarrow>
                         if elemSize = 0 \<or> n > (e - headStart) div elemSize then Inl ErrInvalidData
                         else elemsLoop data elem headStart e depth elemSize n)"
| "offsetsLoop data elem headStart e depth 0 i = Inr []"
| "offsetsLoop data elem headStart e depth (Suc k) i =
     (case decodeWordUint64 (slice data (headStart + i * wordSize) (headStart + (i + 1) * wordSize)) of
        Inl err \<Rightarrow> Inl err
      | Inr off \<Rightarrow>
          if unat off > e - headStart \<or> unat off mod wordSize \<noteq> 0 then Inl ErrInvalidData
          else case valueAt data elem (headStart + unat off) e depth of
            Inl err \<Rightarrow> Inl err
          | Inr v \<Rightarrow>
              (case offsetsLoop data elem headStart e depth k (i + 1) of
                 Inl err \<Rightarrow> Inl err | Inr vs \<Rightarrow> Inr (v # vs)))"
| "elemsLoop data elem pos e depth elemSize 0 = Inr []"
| "elemsLoop data elem pos e depth elemSize (Suc k) =
     (case staticValue data elem pos e depth of
        Inl err \<Rightarrow> Inl err
      | Inr v \<Rightarrow>
          (case elemsLoop data elem (pos + elemSize) e depth elemSize k of
             Inl err \<Rightarrow> Inl err | Inr vs \<Rightarrow> Inr (v # vs)))"
  by pat_completeness auto
termination
  by (relation "measures
      [\<lambda>a. case a of
         Inl (Inl (_, fs, _)) \<Rightarrow> 3 * size_list size fs
       | Inl (Inr (Inl (_, fs, _))) \<Rightarrow> 3 * size_list size fs
       | Inl (Inr (Inr (_, f, _))) \<Rightarrow> 3 * size f + 1
       | Inr (Inl (Inl (_, f, _))) \<Rightarrow> 3 * size f
       | Inr (Inl (Inr (_, f, _))) \<Rightarrow> 3 * size f + 3
       | Inr (Inr (Inl (_, f, _))) \<Rightarrow> 3 * size f + 2
       | Inr (Inr (Inr (_, f, _))) \<Rightarrow> 3 * size f + 2,
       \<lambda>a. case a of
         Inl (Inl (_, fs, _)) \<Rightarrow> 1
       | Inr (Inr (Inl (_, f, _, _, _, k, _))) \<Rightarrow> k
       | Inr (Inr (Inr (_, f, _, _, _, _, k))) \<Rightarrow> k
       | _ \<Rightarrow> 0]") auto

definition Decode :: "field list \<Rightarrow> bytes \<Rightarrow> abi_error + abi_value list" where
  "Decode schema data =
     (if length data mod wordSize \<noteq> 0 then Inl ErrInvalidData
      else tupleAt data schema 0 (length data) 0)"

section \<open>Schemas and their values\<close>

text \<open>A schema the codec supports: no unknown type, no nil schema or element, no empty struct;
  the nesting that counts towards the depth limit; and the values of a field.\<close>

fun wf_field :: "field \<Rightarrow> bool" where
  "wf_field (Field ty sub el) =
     (case ty of
        TypeStruct \<Rightarrow> (case sub of None \<Rightarrow> False | Some subs \<Rightarrow> subs \<noteq> [] \<and> (\<forall>f\<in>set subs. wf_field f))
      | TypeArray \<Rightarrow> (case el of None \<Rightarrow> False | Some elem \<Rightarrow> wf_field elem)
      | TypeOther t \<Rightarrow> False
      | _ \<Rightarrow> True)"

fun field_depth :: "field \<Rightarrow> nat" and fields_depth :: "field list \<Rightarrow> nat" where
  "field_depth (Field ty sub el) =
     (case ty of
        TypeStruct \<Rightarrow> (case sub of None \<Rightarrow> 1 | Some subs \<Rightarrow> 1 + fields_depth subs)
      | TypeArray \<Rightarrow> (case el of None \<Rightarrow> 1 | Some elem \<Rightarrow> 1 + field_depth elem)
      | _ \<Rightarrow> 0)"
| "fields_depth [] = 0"
| "fields_depth (f # fs) = max (field_depth f) (fields_depth fs)"

fun has_type :: "abi_value \<Rightarrow> field \<Rightarrow> bool" and have_types :: "abi_value list \<Rightarrow> field list \<Rightarrow> bool"
  and all_have_type :: "abi_value list \<Rightarrow> field \<Rightarrow> bool" where
  "has_type v (Field ty sub el) =
     (case v of
        VUint8 w \<Rightarrow> ty = TypeUint8
      | VUint32 w \<Rightarrow> ty = TypeUint32
      | VUint64 w \<Rightarrow> ty = TypeUint64
      | VUint256 w \<Rightarrow> ty = TypeUint256 \<and> w \<noteq> None
      | VBytes32 b \<Rightarrow> ty = TypeBytes32 \<and> length b = 32
      | VBytes b \<Rightarrow> ty = TypeBytes \<or> ty = TypeAddress \<and> length b = 20
      | VString s \<Rightarrow> ty = TypeString
      | VBool b \<Rightarrow> ty = TypeBool
      | VList vs \<Rightarrow>
          ty = TypeStruct \<and> (case sub of None \<Rightarrow> False | Some subs \<Rightarrow> have_types vs subs) \<or>
          ty = TypeArray \<and> (case el of None \<Rightarrow> False | Some elem \<Rightarrow> all_have_type vs elem))"
| "have_types [] [] = True"
| "have_types (v # vs) (f # fs) = (has_type v f \<and> have_types vs fs)"
| "have_types _ _ = False"
| "all_have_type [] f = True"
| "all_have_type (v # vs) f = (has_type v f \<and> all_have_type vs f)"

text \<open>The bytes \<open>e\<close> stand at position \<open>pos\<close> of the data.\<close>

definition data_at :: "bytes \<Rightarrow> nat \<Rightarrow> bytes \<Rightarrow> bool" where
  "data_at data pos e \<longleftrightarrow> pos + length e \<le> length data \<and> take (length e) (drop pos data) = e"

definition decodeField :: "bytes \<Rightarrow> field \<Rightarrow> nat \<Rightarrow> nat \<Rightarrow> nat \<Rightarrow> abi_error + abi_value" where
  "decodeField data f pos e depth =
     (if isDynamic f then valueAt data f pos e depth else staticValue data f pos e depth)"

definition decodes_back :: "abi_value \<Rightarrow> bool" where
  "decodes_back v \<longleftrightarrow>
     (\<forall>f enc data pos e depth. wf_field f \<longrightarrow> has_type v f \<longrightarrow> encodeValue f v = Inr enc \<longrightarrow>
        data_at data pos enc \<longrightarrow> pos + length enc \<le> e \<longrightarrow> e \<le> length data \<longrightarrow>
        length enc < 2 ^ 64 \<longrightarrow> depth + field_depth f \<le> maxAbiDepth \<longrightarrow>
        decodeField data f pos e depth = Inr v)"

text \<open>Encodings fill whole words, and a static one has the size its field announces.\<close>

definition static_exact :: "abi_value \<Rightarrow> bool" where
  "static_exact v \<longleftrightarrow>
     (\<forall>f enc. wf_field f \<longrightarrow> has_type v f \<longrightarrow> encodeValue f v = Inr enc \<longrightarrow>
        32 dvd length enc \<and> 32 \<le> length enc \<and> (\<not> isDynamic f \<longrightarrow> staticHeadSize f = Inr (length enc)))"

text \<open>The encoding as a total function and the values it is invertible on, for the codec interface.\<close>

definition abi_bytes :: "field list \<Rightarrow> abi_value list \<Rightarrow> bytes" where
  "abi_bytes fs vs = (case Encode fs vs of Inl err \<Rightarrow> [] | Inr out \<Rightarrow> out)"

definition abi_valid :: "field list \<Rightarrow> abi_value list \<Rightarrow> bool" where
  "abi_valid fs vs \<longleftrightarrow> list_all wf_field fs \<and> fields_depth fs < maxAbiDepth \<and> have_types vs fs \<and>
     length (abi_bytes fs vs) < 2 ^ 64"

section \<open>Words, bytes and positions\<close>

lemma data_at_append: "data_at data pos (a @ b) \<longleftrightarrow> data_at data pos a \<and> data_at data (pos + length a) b"
  by (auto simp: data_at_def take_add add.commute)

lemma slice_data_at: "data_at data pos a \<Longrightarrow> n = pos + length a \<Longrightarrow> slice data pos n = a"
  by (simp add: data_at_def slice_def)

lemma data_at_slice: "data_at data pos (a @ b @ c) \<Longrightarrow> n = pos + length a \<Longrightarrow> m = n + length b \<Longrightarrow> slice data n m = b"
  by (simp add: data_at_append slice_data_at)

lemma length_encodeUint64Word [simp, codec_simps]: "length (encodeUint64Word v) = 32"
  by (simp add: encodeUint64Word_def)

lemma decodeWord_encode [simp, codec_simps]: "decodeWordUint64 (encodeUint64Word v) = Inr v"
  by (simp add: decodeWordUint64_def encodeUint64Word_def wordSize_def slice_def)

lemma length_encodeUint256Word [simp, codec_simps]: "length (encodeUint256Word v) = 32"
  by (cases v) simp

lemma SetBytes32_encode [simp, codec_simps]: "SetBytes32 (encodeUint256Word v) = v"
  by (cases v) (simp add: SetBytes32_def slice_def)

lemma pad_mod: "(n + (32 - n mod 32) mod 32) mod 32 = (0 :: nat)"
proof -
  have "(n + (32 - n mod 32) mod 32) mod 32 = (n mod 32 + (32 - n mod 32)) mod 32"
    by (simp only: mod_add_left_eq mod_add_right_eq)
  moreover have "n mod 32 + (32 - n mod 32) = 32" by simp
  ultimately show ?thesis by (simp only: mod_self)
qed

lemma length_encodeBytes: "length (encodeBytes v) mod 32 = 0" "length v + 32 \<le> length (encodeBytes v)"
  using pad_mod [of "length v"] by (auto simp: encodeBytes_def wordSize_def Let_def)

lemma unat_roundUp32:
  assumes "n + (32 - n mod 32) mod 32 < 2 ^ 64"
  shows "unat (roundUp32 (word_of_nat n)) = n + (32 - n mod 32) mod 32"
proof -
  have n: "unat (word_of_nat n :: u64) = n" using assms by (simp add: unat_of_nat)
  then have m: "unat (word_of_nat n mod 32 :: u64) = n mod 32" by (simp add: unat_mod)
  show ?thesis
  proof (cases "n mod 32 = 0")
    case True
    then have "(word_of_nat n mod 32 :: u64) = 0" using m by (simp add: word_unat_eq_iff)
    then show ?thesis using True n by (simp add: roundUp32_def)
  next
    case False
    then have nz: "(word_of_nat n mod 32 :: u64) \<noteq> 0" using m by (metis unat_0)
    have lt: "n mod 32 < 32" by simp
    then have pad: "(32 - n mod 32) mod 32 = 32 - n mod 32" using False by simp
    have "word_of_nat n mod 32 = (word_of_nat (n mod 32) :: u64)"
      using m by (simp add: word_unat_eq_iff unat_of_nat)
    then have "word_of_nat n + 32 - word_of_nat n mod 32 = (word_of_nat (n + (32 - n mod 32)) :: u64)"
      using lt by (simp add: algebra_simps)
    then have "roundUp32 (word_of_nat n) = word_of_nat (n + (32 - n mod 32))"
      using nz by (simp add: roundUp32_def)
    then show ?thesis using pad assms by (simp only: unat_of_nat) simp
  qed
qed

lemma bytesAt_encode:
  assumes "data_at data pos (encodeBytes v)" and "pos + length (encodeBytes v) \<le> e"
    and "length (encodeBytes v) < 2 ^ 64"
  shows "bytesAt data pos e = Inr v"
proof -
  let ?pad = "(32 - length v mod 32) mod 32"
  have enc: "encodeBytes v = encodeUint64Word (word_of_nat (length v)) @ v @ replicate ?pad 0"
    by (simp add: encodeBytes_def wordSize_def Let_def)
  have len: "32 + length v + ?pad + pos \<le> e" using assms(2) unfolding enc by simp
  have len64: "length v + ?pad < 2 ^ 64" using assms(3) unfolding enc by simp
  then have ul: "unat (word_of_nat (length v) :: u64) = length v" by (simp add: unat_of_nat)
  have up: "unat (roundUp32 (word_of_nat (length v))) = length v + ?pad"
    by (rule unat_roundUp32) (rule len64)
  have "slice data pos (pos + wordSize) = encodeUint64Word (word_of_nat (length v))"
    using assms(1) unfolding enc data_at_append wordSize_def
    by (metis length_encodeUint64Word slice_data_at)
  moreover have "slice data (pos + 32) (pos + 32 + length v) = v"
    using assms(1) unfolding enc data_at_append
    by (metis length_encodeUint64Word slice_data_at)
  moreover have "\<not> roundUp32 (word_of_nat (length v)) < word_of_nat (length v)"
    by (simp add: word_less_nat_alt up ul)
  moreover have "length v \<le> e - (pos + 32)" "length v + ?pad \<le> e - (pos + 32)" "pos + 32 \<le> e"
    using len by linarith+
  ultimately show ?thesis
    using ul up by (simp add: bytesAt_def wordSize_def Let_def)
qed

section \<open>Sizes of encodings\<close>

lemma static_size:
  "wf_field f \<Longrightarrow> \<not> isDynamic f \<Longrightarrow> \<exists>n. staticHeadSize f = Inr n \<and> 32 \<le> n \<and> 32 dvd n"
  "\<forall>f\<in>set fs. wf_field f \<Longrightarrow> \<not> anyDynamic fs \<Longrightarrow>
     \<exists>n. staticHeadSizes fs = Inr n \<and> (fs \<noteq> [] \<longrightarrow> 32 \<le> n) \<and> 32 dvd n \<and> headLength fs = Inr n"
proof (induction f and fs rule: staticHeadSize_staticHeadSizes.induct)
  case (1 ty sub el)
  then show ?case
    by (auto simp: wordSize_def split: abi_type.splits option.splits)
next
  case (3 f fs)
  then have "\<not> isDynamic f" "\<not> anyDynamic fs" by (auto split: if_splits)
  with 3 show ?case by auto
qed simp

lemma headLength_ok:
  "\<forall>f\<in>set fs. wf_field f \<Longrightarrow> \<exists>n. headLength fs = Inr n \<and> 32 dvd n \<and> 32 * length fs \<le> n"
proof (induction fs)
  case (Cons f fs)
  then obtain n where n: "headLength fs = Inr n" "32 dvd n" "32 * length fs \<le> n" by auto
  obtain m where "(if isDynamic f then Inr wordSize else staticHeadSize f) = Inr m" "32 \<le> m" "32 dvd m"
    using static_size(1) [of f] Cons.prems by (cases "isDynamic f") (auto simp: wordSize_def)
  with n show ?case by auto
qed simp

lemma static_exactD:
  assumes "static_exact v" "wf_field f" "has_type v f" "encodeValue f v = Inr enc"
  shows "32 dvd length enc" and "32 \<le> length enc"
    and "\<not> isDynamic f \<Longrightarrow> staticHeadSize f = Inr (length enc)"
  using assms by (auto simp: static_exact_def)

text \<open>One step of the loop of \<open>encodeTuple\<close>.\<close>

lemma encodeTupleLoop_Cons:
  assumes "encodeTupleLoop hl (f # fs) vs head tail = Inr out" and "have_types vs (f # fs)"
    and "\<forall>f\<in>set (f # fs). wf_field f" and "\<forall>v\<in>set vs. static_exact v" and "headLength (f # fs) = Inr h"
  obtains v vs' enc n head' tail' where "vs = v # vs'" "has_type v f" "have_types vs' fs"
    "encodeValue f v = Inr enc" "headLength fs = Inr n"
    "encodeTupleLoop hl fs vs' head' tail' = Inr out"
    "isDynamic f \<longrightarrow> head' = head @ encodeUint64Word (word_of_nat (hl + length tail)) \<and> tail' = tail @ enc"
    "\<not> isDynamic f \<longrightarrow> head' = head @ enc \<and> tail' = tail \<and> staticHeadSize f = Inr (length enc)"
    "length head' + n = length head + h" "32 dvd length enc" "32 \<le> length enc"
proof -
  from assms(2) obtain v vs' where vs: "vs = v # vs'" and ty: "has_type v f" "have_types vs' fs"
    by (cases vs) auto
  from assms(1) vs obtain enc where enc: "encodeValue f v = Inr enc" by (auto split: sum.splits)
  have ex: "static_exact v" "wf_field f" using assms vs by auto
  note sz = static_exactD [OF ex ty(1) enc]
  obtain n where n: "headLength fs = Inr n" using headLength_ok [of fs] assms(3) by auto
  show thesis
  proof (cases "isDynamic f")
    case True
    then have "encodeTupleLoop hl fs vs' (head @ encodeUint64Word (word_of_nat (hl + length tail))) (tail @ enc) = Inr out"
      using assms(1) vs enc by simp
    moreover have "h = 32 + n" using assms(5) True n by (simp add: wordSize_def)
    ultimately show ?thesis using that vs ty enc n True sz by simp
  next
    case False
    then have "encodeTupleLoop hl fs vs' (head @ enc) tail = Inr out"
      using assms(1) vs enc by simp
    moreover have "h = length enc + n" using assms(5) False n sz by simp
    ultimately show ?thesis using that vs ty enc n False sz by simp
  qed
qed

lemma encodeTupleLoop_shape:
  assumes "encodeTupleLoop hl fs vs head tail = Inr out" and "have_types vs fs"
    and "\<forall>f\<in>set fs. wf_field f" and "\<forall>v\<in>set vs. static_exact v" and "headLength fs = Inr h"
  shows "\<exists>hs ts. out = head @ hs @ tail @ ts \<and> length hs = h \<and> 32 dvd length ts \<and> (\<not> anyDynamic fs \<longrightarrow> ts = [])"
  using assms
proof (induction fs arbitrary: vs head tail h)
  case Nil
  then show ?case by (cases vs) auto
next
  case (Cons f fs)
  from Cons.prems obtain v vs' enc n head' tail' where step: "vs = v # vs'" "has_type v f" "have_types vs' fs"
    "encodeValue f v = Inr enc" "headLength fs = Inr n"
    "encodeTupleLoop hl fs vs' head' tail' = Inr out"
    "isDynamic f \<longrightarrow> head' = head @ encodeUint64Word (word_of_nat (hl + length tail)) \<and> tail' = tail @ enc"
    "\<not> isDynamic f \<longrightarrow> head' = head @ enc \<and> tail' = tail \<and> staticHeadSize f = Inr (length enc)"
    "length head' + n = length head + h" "32 dvd length enc" "32 \<le> length enc"
    by (rule encodeTupleLoop_Cons) blast
  obtain hs ts where IH: "out = head' @ hs @ tail' @ ts" "length hs = n" "32 dvd length ts" "\<not> anyDynamic fs \<longrightarrow> ts = []"
    using Cons.IH [OF step(6,3) _ _ step(5)] Cons.prems step(1) by auto
  show ?case
  proof (cases "isDynamic f")
    case True
    then have "out = head @ (encodeUint64Word (word_of_nat (hl + length tail)) @ hs) @ tail @ (enc @ ts)"
      using IH(1) step(7) by simp
    moreover have "length (encodeUint64Word (word_of_nat (hl + length tail)) @ hs) = h"
      using step(7,9) True IH(2) by simp
    ultimately show ?thesis using True IH(3) step(10)
      by (intro exI [of _ "encodeUint64Word (word_of_nat (hl + length tail)) @ hs"] exI [of _ "enc @ ts"]) simp
  next
    case False
    then have "out = head @ (enc @ hs) @ tail @ ts" "length (enc @ hs) = h"
      using IH step(8,9) by auto
    then show ?thesis using False IH(3,4)
      by (intro exI [of _ "enc @ hs"] exI [of _ ts]) simp
  qed
qed

lemma have_types_length: "have_types vs fs \<Longrightarrow> length vs = length fs"
proof (induction vs arbitrary: fs)
  case Nil
  then show ?case by (cases fs) auto
next
  case (Cons v vs)
  then show ?case by (cases fs) auto
qed

lemma encodeTuple_loop:
  assumes "encodeTuple fs vs = Inr out" and "\<forall>f\<in>set fs. wf_field f"
  obtains h where "headLength fs = Inr h" "32 dvd h" "32 * length fs \<le> h" "encodeTupleLoop h fs vs [] [] = Inr out"
  using assms headLength_ok [OF assms(2)] by (auto split: if_splits)

lemma encodeTuple_size:
  assumes "encodeTuple fs vs = Inr out" and "have_types vs fs" and "fs \<noteq> []"
    and "\<forall>f\<in>set fs. wf_field f" and "\<forall>v\<in>set vs. static_exact v"
  shows "32 dvd length out" and "32 \<le> length out"
    and "\<not> anyDynamic fs \<Longrightarrow> staticHeadSizes fs = Inr (length out)"
proof -
  obtain h where h: "headLength fs = Inr h" "32 dvd h" "32 * length fs \<le> h"
    and loop: "encodeTupleLoop h fs vs [] [] = Inr out"
    by (rule encodeTuple_loop [OF assms(1,4)])
  obtain hs ts where out: "out = hs @ ts" "length hs = h" "32 dvd length ts" "\<not> anyDynamic fs \<longrightarrow> ts = []"
    using encodeTupleLoop_shape [OF loop assms(2,4,5) h(1)] by auto
  then show "32 dvd length out" using h(2) by simp
  have "1 \<le> length fs" using assms(3) by (cases fs) auto
  then show "32 \<le> length out" using out h(3) by simp
  show "\<not> anyDynamic fs \<Longrightarrow> staticHeadSizes fs = Inr (length out)"
    using static_size(2) [OF assms(4)] out h(1) by auto
qed

lemma decodes_backD:
  assumes "decodes_back v" "wf_field f" "has_type v f" "encodeValue f v = Inr enc"
    and "data_at data pos enc" "pos + length enc \<le> e" "e \<le> length data"
    and "length enc < 2 ^ 64" "depth + field_depth f \<le> maxAbiDepth"
  shows "isDynamic f \<Longrightarrow> valueAt data f pos e depth = Inr v"
    and "\<not> isDynamic f \<Longrightarrow> staticValue data f pos e depth = Inr v"
  using assms unfolding decodes_back_def decodeField_def by (metis (full_types))+

lemma tupleLoop_decode:
  assumes "encodeTupleLoop hl fs vs head tail = Inr out" and "have_types vs fs"
    and "\<forall>f\<in>set fs. wf_field f" and "\<forall>v\<in>set vs. static_exact v" and "\<forall>v\<in>set vs. decodes_back v"
    and "headLength fs = Inr h" and "hl = length head + h" and "32 dvd hl" and "32 dvd length tail"
    and "data_at data start out" and "start + length out \<le> e" and "e \<le> length data"
    and "length out < 2 ^ 64" and "depth + fields_depth fs \<le> maxAbiDepth"
  shows "tupleLoop data fs start e depth (start + length head) = Inr vs"
  using assms
proof (induction fs arbitrary: vs head tail h)
  case Nil
  then show ?case by (cases vs) auto
next
  case (Cons f fs)
  from Cons.prems(1,2,3,4,6) obtain v vs' enc n head' tail' where step: "vs = v # vs'" "has_type v f" "have_types vs' fs"
    "encodeValue f v = Inr enc" "headLength fs = Inr n"
    "encodeTupleLoop hl fs vs' head' tail' = Inr out"
    "isDynamic f \<longrightarrow> head' = head @ encodeUint64Word (word_of_nat (hl + length tail)) \<and> tail' = tail @ enc"
    "\<not> isDynamic f \<longrightarrow> head' = head @ enc \<and> tail' = tail \<and> staticHeadSize f = Inr (length enc)"
    "length head' + n = length head + h" "32 dvd length enc" "32 \<le> length enc"
    by (rule encodeTupleLoop_Cons) blast
  have hl: "hl = length head' + n" using Cons.prems(7) step(9) by simp
  have dvd': "32 dvd length tail'" using step(7,8,10) Cons.prems(9) by (cases "isDynamic f") auto
  have rest: "tupleLoop data fs start e depth (start + length head') = Inr vs'"
    using Cons.IH [OF step(6,3) _ _ _ step(5) hl Cons.prems(8) dvd' Cons.prems(10-13)]
      Cons.prems(3,4,5,14) step(1) by simp
  obtain hs ts where out: "out = head' @ hs @ tail' @ ts" and hs: "length hs = n"
    using encodeTupleLoop_shape [OF step(6,3) _ _ step(5)] Cons.prems(3,4) step(1) by auto
  have db: "decodes_back v" "wf_field f" "depth + field_depth f \<le> maxAbiDepth"
    using Cons.prems(3,5,14) step(1) by auto
  show ?case
  proof (cases "isDynamic f")
    case True
    let ?off = "hl + length tail"
    let ?w = "encodeUint64Word (word_of_nat ?off)"
    have out': "out = (head @ ?w @ hs) @ tail @ enc @ ts" using out step(7) True by simp
    have hlen: "length (head @ ?w @ hs) = hl" using hl hs step(7) True by simp
    have "length enc \<le> length out" "?off + length enc \<le> length out" "length head + 32 \<le> length out"
      unfolding out' using hlen by auto
    then have bounds: "length enc < 2 ^ 64" "?off < 2 ^ 64" "start + ?off + length enc \<le> e" "start + length head + 32 \<le> e"
      using Cons.prems(11,13) by linarith+
    have uo: "unat (word_of_nat ?off :: u64) = ?off" using bounds(2) by (rule unat_u64_of_nat)
    have "data_at data (start + hl) (tail @ enc @ ts)"
      using Cons.prems(10) hlen data_at_append [of data start "head @ ?w @ hs"] unfolding out' by metis
    then have dyn_at: "data_at data (start + ?off) enc"
      by (simp add: data_at_append add.assoc)
    have val: "valueAt data f (start + ?off) e depth = Inr v"
      by (rule decodes_backD(1) [OF db(1,2) step(2,4) dyn_at bounds(3) Cons.prems(12) bounds(1) db(3) True])
    have "data_at data (start + length head) ?w"
      using Cons.prems(10) unfolding out' by (simp add: data_at_append)
    then have word: "slice data (start + length head) (start + length head + wordSize) = ?w"
      by (rule slice_data_at) (simp add: wordSize_def)
    have "?off \<le> e - start" "wordSize \<le> e - (start + length head)" "start + length head \<le> e"
      using bounds(3,4) by (auto simp: wordSize_def)
    moreover have "?off mod wordSize = 0" using Cons.prems(8,9) by (simp add: wordSize_def)
    moreover have "start + length head + wordSize = start + length head'"
      using step(7) True by (simp add: wordSize_def)
    ultimately show ?thesis
      using True word val rest uo step(1) by (simp add: add.assoc)
  next
    case False
    have out': "out = head @ enc @ hs @ tail @ ts" using out step(8) False by simp
    have "data_at data (start + length head) enc"
      using Cons.prems(10) unfolding out' by (simp add: data_at_append)
    moreover have b: "start + length head + length enc \<le> e" "length enc < 2 ^ 64"
      using Cons.prems(11,13) unfolding out' by auto
    ultimately have val: "staticValue data f (start + length head) e depth = Inr v"
      using decodes_backD(2) [OF db(1,2) step(2,4) _ _ Cons.prems(12) _ db(3) False] by blast
    have "length enc \<le> e - (start + length head)" "start + length head \<le> e" using b by auto
    moreover have "start + length head + length enc = start + length head'"
      using step(8) False by simp
    ultimately show ?thesis
      using False val rest step(1,8) by (simp add: add.assoc)
  qed
qed

lemma tupleAt_decode:
  assumes "encodeTuple fs vs = Inr out" and "have_types vs fs"
    and "\<forall>f\<in>set fs. wf_field f" and "\<forall>v\<in>set vs. static_exact v" and "\<forall>v\<in>set vs. decodes_back v"
    and "data_at data start out" and "start + length out \<le> e" and "e \<le> length data"
    and "length out < 2 ^ 64" and "depth + 1 + fields_depth fs \<le> maxAbiDepth"
  shows "tupleAt data fs start e depth = Inr vs"
proof -
  obtain h where h: "headLength fs = Inr h" "32 dvd h" "encodeTupleLoop h fs vs [] [] = Inr out"
    by (rule encodeTuple_loop [OF assms(1,3)])
  have "tupleLoop data fs start e (depth + 1) (start + length ([] :: bytes)) = Inr vs"
    by (rule tupleLoop_decode [where head = "[]" and tail = "[]", OF h(3) assms(2-5) h(1) _ h(2) _ assms(6-9)]) (use assms(10) in simp_all)
  then show ?thesis using assms(7,8,10) by simp
qed

section \<open>Arrays as tuples of equal fields\<close>

lemma all_have_type_replicate: "all_have_type vs f \<longleftrightarrow> have_types vs (replicate (length vs) f)"
  by (induction vs) auto

lemma fields_depth_replicate: "fields_depth (replicate n f) \<le> field_depth f"
  by (induction n) auto

lemma encodeArrayLoop_tuple:
  assumes "isDynamic elem" and "encodeArrayLoop hl elem vs head tail = Inr (h, t)"
  shows "encodeTupleLoop hl (replicate (length vs) elem) vs head tail = Inr (h @ t)"
  using assms(2)
proof (induction vs arbitrary: head tail)
  case (Cons v vs)
  then show ?case using assms(1) by (auto split: sum.splits)
qed simp

lemma encodeElems_tuple:
  assumes "\<not> isDynamic elem" and "encodeElems elem vs out = Inr out'"
  shows "encodeTupleLoop hl (replicate (length vs) elem) vs out [] = Inr out'"
  using assms(2)
proof (induction vs arbitrary: out)
  case (Cons v vs)
  then show ?case using assms(1) by (auto split: sum.splits)
qed simp

lemma offsetsLoop_tuple:
  assumes "isDynamic elem" and "start + (i + k) * 32 \<le> e"
  shows "offsetsLoop data elem start e depth k i = tupleLoop data (replicate k elem) start e depth (start + i * 32)"
  using assms(2)
proof (induction k arbitrary: i)
  case (Suc k)
  then have IH: "offsetsLoop data elem start e depth k (i + 1) =
      tupleLoop data (replicate k elem) start e depth (start + (i + 1) * 32)" by simp
  have "32 \<le> e - (start + i * 32)" "start + i * 32 \<le> e" using Suc.prems by auto
  then show ?case
    using assms(1) IH by (auto simp: wordSize_def algebra_simps split: sum.splits)
qed simp

lemma elemsLoop_tuple:
  assumes "\<not> isDynamic elem" and "staticHeadSize elem = Inr sz" and "pos + k * sz \<le> e"
  shows "elemsLoop data elem pos e depth sz k = tupleLoop data (replicate k elem) start e depth pos"
  using assms(3)
proof (induction k arbitrary: pos)
  case (Suc k)
  then have IH: "elemsLoop data elem (pos + sz) e depth sz k =
      tupleLoop data (replicate k elem) start e depth (pos + sz)" by simp
  have "sz \<le> e - pos" "pos \<le> e" using Suc.prems by auto
  then show ?case
    using assms(1,2) IH by (auto split: sum.splits)
qed simp

lemma headLength_replicate_dynamic: "isDynamic f \<Longrightarrow> headLength (replicate n f) = Inr (n * 32)"
  by (induction n) (auto simp: wordSize_def)

lemma headLength_replicate_static:
  "\<not> isDynamic f \<Longrightarrow> staticHeadSize f = Inr sz \<Longrightarrow> headLength (replicate n f) = Inr (n * sz)"
  by (induction n) auto

text \<open>The encoding of an array: its length, then the encoding of the tuple of its elements.\<close>

lemma encodeArray_tuple:
  assumes "encodeArray elem vs = Inr enc" and "wf_field elem"
  obtains out h where "enc = encodeUint64Word (word_of_nat (length vs)) @ out"
    "headLength (replicate (length vs) elem) = Inr h"
    "encodeTupleLoop h (replicate (length vs) elem) vs [] [] = Inr out"
proof (cases "vs = []")
  case True
  then show thesis using that [of "[]" 0] assms by simp
next
  case ne: False
  let ?w = "encodeUint64Word (word_of_nat (length vs))"
  show thesis
  proof (cases "isDynamic elem")
    case True
    then obtain h t where l: "encodeArrayLoop (length vs * 32) elem vs [] [] = Inr (h, t)" and enc: "enc = ?w @ h @ t"
      using assms ne by (auto simp: wordSize_def Let_def split: sum.splits prod.splits)
    show thesis
      using that [OF _ headLength_replicate_dynamic [OF True] encodeArrayLoop_tuple [OF True l]] enc by simp
  next
    case False
    then have l: "encodeElems elem vs ?w = Inr enc" using assms ne by simp
    have "encodeElems elem vs (a @ b) = Inr enc' \<Longrightarrow> \<exists>r. enc' = a @ r \<and> encodeElems elem vs b = Inr r" for a b enc'
      by (induction vs arbitrary: b) (auto split: sum.splits)
    from this [of ?w "[]"] l obtain out where "enc = ?w @ out" "encodeElems elem vs [] = Inr out" by auto
    moreover obtain sz where "staticHeadSize elem = Inr sz" using static_size(1) [OF assms(2) False] by auto
    ultimately show thesis
      using that [OF _ headLength_replicate_static [OF False] encodeElems_tuple [OF False]] by blast
  qed
qed

lemma arrayAt_decode:
  assumes "encodeArray elem vs = Inr enc" and "all_have_type vs elem" and "wf_field elem"
    and "\<forall>v\<in>set vs. static_exact v" and "\<forall>v\<in>set vs. decodes_back v"
    and "data_at data pos enc" and "pos + length enc \<le> e" and "e \<le> length data"
    and "length enc < 2 ^ 64" and "depth + 1 + field_depth elem \<le> maxAbiDepth"
  shows "arrayAt data elem pos e depth = Inr vs"
proof -
  let ?n = "length vs" and ?fs = "replicate (length vs) elem"
  let ?w = "encodeUint64Word (word_of_nat (length vs))"
  obtain out h where enc: "enc = ?w @ out" and h: "headLength ?fs = Inr h"
    and loop: "encodeTupleLoop h ?fs vs [] [] = Inr out"
    by (rule encodeArray_tuple [OF assms(1,3)])
  have wf: "\<forall>f\<in>set ?fs. wf_field f" using assms(3) by simp
  have types: "have_types vs ?fs" using assms(2) by (simp add: all_have_type_replicate)
  have h32: "32 dvd h" "32 * ?n \<le> h" using headLength_ok [OF wf] h by auto
  obtain hs ts where out: "out = hs @ ts" "length hs = h"
    using encodeTupleLoop_shape [OF loop types wf assms(4) h] by auto
  have at: "data_at data pos ?w" "data_at data (pos + 32) out"
    using assms(6) unfolding enc data_at_append by simp_all
  have lens: "pos + 32 + length out \<le> e" "length out < 2 ^ 64" "h \<le> length out"
    using assms(7,9) out unfolding enc by auto
  then have n: "32 * ?n \<le> e - (pos + 32)" "?n < 2 ^ 64" "pos + 32 \<le> e" using h32 by linarith+
  then have un: "unat (word_of_nat ?n :: u64) = ?n" by (simp add: unat_of_nat)
  have "fields_depth ?fs \<le> field_depth elem" by (rule fields_depth_replicate)
  then have dep: "depth + 1 + fields_depth ?fs \<le> maxAbiDepth" using assms(10) by linarith
  have dec: "tupleLoop data ?fs (pos + 32) e (depth + 1) (pos + 32 + length ([] :: bytes)) = Inr vs"
    by (rule tupleLoop_decode [where head = "[]" and tail = "[]",
          OF loop types wf assms(4,5) h _ h32(1) _ at(2) lens(1) assms(8) lens(2)]) (use dep in simp_all)
  have word: "slice data pos (pos + wordSize) = ?w" using at(1) by (rule slice_data_at) (simp add: wordSize_def)
  have len1: "?n \<le> (e - pos) div wordSize" "?n \<le> (e - (pos + wordSize)) div wordSize"
    using n(1) by (simp_all add: wordSize_def)
  have pre: "\<not> depth + 1 > maxAbiDepth" "\<not> pos > e" "\<not> wordSize > e - pos"
    using assms(10) n(3) by (auto simp: wordSize_def)
  show ?thesis
  proof (cases "isDynamic elem")
    case True
    have "offsetsLoop data elem (pos + 32) e (depth + 1) ?n 0 = Inr vs"
      using offsetsLoop_tuple [OF True, of "pos + 32" 0 ?n e data "depth + 1"] n dec by simp
    then show ?thesis using True word len1 pre un by (simp add: Let_def wordSize_def)
  next
    case False
    obtain sz where sz: "staticHeadSize elem = Inr sz" "32 \<le> sz" using static_size(1) [OF assms(3) False] by auto
    have "h = ?n * sz" using headLength_replicate_static [OF False sz(1)] h by simp
    then have "?n * sz \<le> e - (pos + 32)" "pos + 32 + ?n * sz \<le> e" using lens by auto
    moreover from this have "?n \<le> (e - (pos + 32)) div sz"
      using sz(2) by (simp add: less_eq_div_iff_mult_less_eq)
    moreover have "elemsLoop data elem (pos + 32) e (depth + 1) sz ?n = Inr vs"
      using elemsLoop_tuple [OF False sz(1), of "pos + 32" ?n e data "depth + 1" "pos + 32"] calculation(2) dec by simp
    ultimately show ?thesis using False word len1(1) pre un sz by (simp add: Let_def wordSize_def)
  qed
qed

lemma encodeArray_size:
  assumes "encodeArray elem vs = Inr enc" and "all_have_type vs elem" and "wf_field elem"
    and "\<forall>v\<in>set vs. static_exact v"
  shows "32 dvd length enc" and "32 \<le> length enc"
proof -
  obtain out h where enc: "enc = encodeUint64Word (word_of_nat (length vs)) @ out"
    and h: "headLength (replicate (length vs) elem) = Inr h"
    and loop: "encodeTupleLoop h (replicate (length vs) elem) vs [] [] = Inr out"
    by (rule encodeArray_tuple [OF assms(1,3)])
  have wf: "\<forall>f\<in>set (replicate (length vs) elem). wf_field f" using assms(3) by simp
  have types: "have_types vs (replicate (length vs) elem)" using assms(2) by (simp add: all_have_type_replicate)
  have "32 dvd h" using headLength_ok [OF wf] h by auto
  then have "32 dvd length out"
    using encodeTupleLoop_shape [OF loop types wf assms(4) h] by auto
  then show "32 dvd length enc" "32 \<le> length enc" by (auto simp: enc)
qed

text \<open>Every value of a schema has an exact size and decodes back.\<close>

lemma static_exact_all: "static_exact v"
proof (induction v)
  case (VList vs)
  have vs: "\<forall>v\<in>set vs. static_exact v" using VList by blast
  show ?case
    unfolding static_exact_def
  proof (intro allI impI)
    fix f enc
    assume wf: "wf_field f" and ty: "has_type (VList vs) f" and enc: "encodeValue f (VList vs) = Inr enc"
    obtain t sub el where f: "f = Field t sub el" by (cases f)
    from ty f consider (struct) subs where "t = TypeStruct" "sub = Some subs" "have_types vs subs"
      | (array) elem where "t = TypeArray" "el = Some elem" "all_have_type vs elem"
      by (auto split: option.splits)
    then show "32 dvd length enc \<and> 32 \<le> length enc \<and> (\<not> isDynamic f \<longrightarrow> staticHeadSize f = Inr (length enc))"
    proof cases
      case struct
      then show ?thesis
        using wf enc f vs encodeTuple_size [of subs vs enc] by auto
    next
      case array
      then show ?thesis
        using wf enc f vs encodeArray_size [of elem vs enc] by auto
    qed
  qed
next
  case (VBytes b)
  then show ?case
    using length_encodeBytes [of b]
    by (auto simp: static_exact_def wordSize_def has_type.simps split: abi_type.splits option.splits elim!: wf_field.elims)
next
  case (VString s)
  then show ?case
    using length_encodeBytes [of "bytes_of_string s"]
    by (auto simp: static_exact_def wordSize_def split: abi_type.splits option.splits elim!: wf_field.elims)
qed (auto simp: static_exact_def wordSize_def split: abi_type.splits option.splits elim!: wf_field.elims)

lemma decodes_back_scalar:
  assumes "\<And>f enc data pos e depth. wf_field f \<Longrightarrow> has_type v f \<Longrightarrow> encodeValue f v = Inr enc \<Longrightarrow>
      \<not> isDynamic f \<and> length enc = 32 \<and>
      (slice data pos (pos + 32) = enc \<longrightarrow> pos + 32 \<le> e \<longrightarrow> staticValue data f pos e depth = Inr v)"
  shows "decodes_back v"
  unfolding decodes_back_def
proof (intro allI impI)
  fix f enc data pos e depth
  assume a: "wf_field f" "has_type v f" "encodeValue f v = Inr enc"
    and at: "data_at data pos enc" "pos + length enc \<le> e"
  have "length enc = 32" using assms [OF a] by blast
  then have "slice data pos (pos + 32) = enc" "pos + 32 \<le> e" using at slice_data_at [OF at(1)] by auto
  then show "decodeField data f pos e depth = Inr v"
    using assms [OF a] by (simp add: decodeField_def)
qed

lemma unat_ucast_byte: "unat (ucast (w :: byte) :: u64) = unat w"
  using unat_byte_less [of w] by (simp add: unsigned_ucast_eq take_bit_nat_def del: unat_byte_less)

lemma unat_ucast_u32: "unat (ucast (w :: u32) :: u64) = unat w"
  using unsigned_less [of w, where ?'a = nat] by (simp add: unsigned_ucast_eq take_bit_nat_def)

lemma ucast_byte_le: "\<not> (255 :: u64) < ucast (w :: byte)"
  using unat_byte_less [of w] by (simp add: word_less_nat_alt unat_ucast_byte del: unat_byte_less)

lemma ucast_u32_le: "\<not> (0xFFFFFFFF :: u64) < ucast (w :: u32)"
  using unsigned_less [of w, where ?'a = nat] by (simp add: word_less_nat_alt unat_ucast_u32)

lemma ucast_ucast_byte: "ucast (ucast (w :: byte) :: u64) = w"
  by (simp add: word_unat_eq_iff unsigned_ucast_eq take_bit_word_eq_self)

lemma ucast_ucast_u32: "ucast (ucast (w :: u32) :: u64) = w"
  by (simp add: word_unat_eq_iff unsigned_ucast_eq take_bit_word_eq_self)

lemmas scalar_simps = wordSize_def Let_def ucast_byte_le ucast_u32_le ucast_ucast_byte ucast_ucast_u32

lemma decodes_back_VBytes: "decodes_back (VBytes b)"
  unfolding decodes_back_def
proof (intro allI impI)
  fix f enc data pos e depth
  assume a: "wf_field f" "has_type (VBytes b) f" "encodeValue f (VBytes b) = Inr enc"
    and at: "data_at data pos enc" "pos + length enc \<le> e" "length enc < 2 ^ 64"
  obtain t sub el where f: "f = Field t sub el" by (cases f)
  consider "t = TypeBytes" | "t = TypeAddress" "length b = 20" using a(2) f by auto
  then show "decodeField data f pos e depth = Inr (VBytes b)"
  proof cases
    case 1
    then have enc: "enc = encodeBytes b" using a(3) f by simp
    then show ?thesis
      using bytesAt_encode [OF at(1,2) [unfolded enc] at(3) [unfolded enc]] 1 f by (simp add: decodeField_def)
  next
    case 2
    then have enc: "enc = replicate 12 0 @ b" using a(3) f by simp
    then have "length enc = 32" using 2 by simp
    then have "slice data pos (pos + 32) = enc" using slice_data_at [OF at(1)] by simp
    moreover have "slice enc 12 32 = b" using enc 2 by (simp add: slice_def)
    ultimately show ?thesis
      using at(2) enc 2 f by (simp add: decodeField_def wordSize_def Let_def)
  qed
qed

lemma decodes_back_VString: "decodes_back (VString s)"
  unfolding decodes_back_def
proof (intro allI impI)
  fix f enc data pos e depth
  assume a: "wf_field f" "has_type (VString s) f" "encodeValue f (VString s) = Inr enc"
    and at: "data_at data pos enc" "pos + length enc \<le> e" "length enc < 2 ^ 64"
  obtain t sub el where f: "f = Field t sub el" by (cases f)
  have t: "t = TypeString" using a(2) f by auto
  then have enc: "enc = encodeBytes (bytes_of_string s)" using a(3) f by simp
  then show "decodeField data f pos e depth = Inr (VString s)"
    using bytesAt_encode [OF at(1,2) [unfolded enc] at(3) [unfolded enc]] t f by (simp add: decodeField_def)
qed

lemma decodes_back_VList:
  assumes vs: "\<forall>v\<in>set vs. decodes_back v"
  shows "decodes_back (VList vs)"
  unfolding decodes_back_def
proof (intro allI impI)
  fix f enc data pos e depth
  assume a: "wf_field f" "has_type (VList vs) f" "encodeValue f (VList vs) = Inr enc"
    and at: "data_at data pos enc" "pos + length enc \<le> e" "e \<le> length data" "length enc < 2 ^ 64"
    and dep: "depth + field_depth f \<le> maxAbiDepth"
  obtain t sub el where f: "f = Field t sub el" by (cases f)
  have ex: "\<forall>v\<in>set vs. static_exact v" by (simp add: static_exact_all)
  from a(2) f consider (struct) subs where "t = TypeStruct" "sub = Some subs" "have_types vs subs"
    | (array) elem where "t = TypeArray" "el = Some elem" "all_have_type vs elem"
    by (auto split: option.splits)
  then show "decodeField data f pos e depth = Inr (VList vs)"
  proof cases
    case struct
    then have s: "encodeTuple subs vs = Inr enc" "subs \<noteq> []" "\<forall>f\<in>set subs. wf_field f"
      using a(1,3) f by auto
    have d: "depth + 1 + fields_depth subs \<le> maxAbiDepth" using dep f struct by simp
    have "tupleAt data subs pos e depth = Inr vs"
      by (rule tupleAt_decode [OF s(1) struct(3) s(3) ex vs at d])
    moreover have "32 \<le> length enc" by (rule encodeTuple_size(2) [OF s(1) struct(3) s(2,3) ex])
    ultimately show ?thesis using f struct at(2) by (simp add: decodeField_def wordSize_def)
  next
    case array
    then have s: "encodeArray elem vs = Inr enc" "wf_field elem" using a(1,3) f by auto
    have d: "depth + 1 + field_depth elem \<le> maxAbiDepth" using dep f array by simp
    have "arrayAt data elem pos e depth = Inr vs"
      by (rule arrayAt_decode [OF s(1) array(3) s(2) ex vs at d])
    then show ?thesis using f array by (simp add: decodeField_def)
  qed
qed

lemma decodes_back_number:
  assumes "\<And>f. wf_field f \<Longrightarrow> has_type v f \<Longrightarrow> \<not> isDynamic f \<and> encodeValue f v = Inr (encodeUint64Word w)"
    and "\<And>f data pos e depth. wf_field f \<Longrightarrow> has_type v f \<Longrightarrow> pos + 32 \<le> e \<Longrightarrow>
      decodeWordUint64 (slice data pos (pos + 32)) = Inr w \<Longrightarrow> staticValue data f pos e depth = Inr v"
  shows "decodes_back v"
  by (rule decodes_back_scalar) (use assms decodeWord_encode in \<open>auto simp del: decodeWord_encode\<close>)

lemma decodes_back_all: "decodes_back v"
proof (induction v)
  case (VList vs)
  then show ?case by (simp add: decodes_back_VList)
next
  case (VBytes b)
  show ?case by (rule decodes_back_VBytes)
next
  case (VString s)
  show ?case by (rule decodes_back_VString)
next
  case (VUint8 w)
  show ?case by (rule decodes_back_number) (auto simp: scalar_simps elim!: wf_field.elims)
next
  case (VUint32 w)
  show ?case by (rule decodes_back_number) (auto simp: scalar_simps elim!: wf_field.elims)
next
  case (VUint64 w)
  show ?case by (rule decodes_back_number) (auto simp: scalar_simps elim!: wf_field.elims)
next
  case (VUint256 w)
  show ?case
    by (rule decodes_back_scalar)
      (auto simp: scalar_simps elim!: wf_field.elims, metis SetBytes32_encode)
next
  case (VBytes32 b)
  show ?case by (rule decodes_back_scalar) (auto simp: scalar_simps elim!: wf_field.elims)
next
  case (VBool b)
  show ?case by (rule decodes_back_number) (auto simp: scalar_simps elim!: wf_field.elims)
qed

text \<open>The encoder accepts every value of a schema.\<close>

lemma encodeTupleLoop_total:
  assumes "have_types vs fs" and "\<forall>f v. v \<in> set vs \<longrightarrow> f \<in> set fs \<longrightarrow> has_type v f \<longrightarrow> (\<exists>enc. encodeValue f v = Inr enc)"
  shows "\<exists>out. encodeTupleLoop h fs vs head tail = Inr out"
  using assms
proof (induction vs fs arbitrary: head tail rule: list_induct2')
  case (4 v vs f fs)
  then have "\<exists>enc. encodeValue f v = Inr enc" by (metis have_types.simps(2) list.set_intros(1))
  with 4 show ?case by (auto simp: Let_def)
qed auto

lemma encodeValue_total: "wf_field f \<Longrightarrow> has_type v f \<Longrightarrow> \<exists>enc. encodeValue f v = Inr enc"
proof (induction v arbitrary: f)
  case (VList vs)
  obtain t sub el where f: "f = Field t sub el" by (cases f)
  from VList.prems(2) f consider (struct) subs where "t = TypeStruct" "sub = Some subs" "have_types vs subs"
    | (array) elem where "t = TypeArray" "el = Some elem" "all_have_type vs elem"
    by (auto split: option.splits)
  then show ?case
  proof cases
    case struct
    then have wf: "\<forall>f\<in>set subs. wf_field f" using VList.prems(1) f by auto
    then obtain h where "headLength subs = Inr h" using headLength_ok [OF wf] by auto
    moreover obtain out where "encodeTupleLoop h subs vs [] [] = Inr out"
      using encodeTupleLoop_total [OF struct(3)] VList.IH wf by blast
    ultimately show ?thesis using f struct have_types_length [OF struct(3)] by simp
  next
    case array
    then have "wf_field elem" using VList.prems(1) f by auto
    then have el: "\<forall>v\<in>set vs. has_type v elem \<longrightarrow> (\<exists>enc. encodeValue elem v = Inr enc)"
      using VList.IH by blast
    have "all_have_type vs elem \<Longrightarrow> \<exists>r. encodeElems elem vs out = Inr r" for out
      using el by (induction vs arbitrary: out) auto
    moreover have "all_have_type vs elem \<Longrightarrow> \<exists>r. encodeArrayLoop n elem vs h t = Inr r" for n h t
      using el by (induction vs arbitrary: h t) auto
    ultimately show ?thesis
      using f array by (auto simp: Let_def split: sum.splits prod.splits)
        (metis Inl_Inr_False)
  qed
qed (auto elim!: wf_field.elims split: option.splits)

lemma Encode_total:
  assumes "\<forall>f\<in>set fs. wf_field f" and "have_types vs fs"
  shows "\<exists>out. Encode fs vs = Inr out"
proof -
  obtain h where h: "headLength fs = Inr h" using headLength_ok [OF assms(1)] by auto
  have "\<exists>out. encodeTupleLoop h fs vs [] [] = Inr out"
    by (rule encodeTupleLoop_total [OF assms(2)]) (use assms(1) encodeValue_total in blast)
  then show ?thesis using h have_types_length [OF assms(2)] by (auto simp: Encode_def)
qed

lemma Encode_aligned:
  assumes "\<forall>f\<in>set fs. wf_field f" and "have_types vs fs" and "Encode fs vs = Inr out"
  shows "32 dvd length out"
proof (cases "fs = []")
  case True
  then show ?thesis using assms(2,3) by (cases vs) (auto simp: Encode_def)
next
  case False
  have "\<forall>v\<in>set vs. static_exact v" by (simp add: static_exact_all)
  then show ?thesis
    using encodeTuple_size(1) [OF _ assms(2) False assms(1)] assms(3) by (simp add: Encode_def)
qed

lemma Decode_Encode:
  assumes "\<forall>f\<in>set fs. wf_field f" and "fields_depth fs < maxAbiDepth" and "have_types vs fs"
    and "Encode fs vs = Inr out" and "length out < 2 ^ 64"
  shows "Decode fs out = Inr vs"
proof -
  have "tupleAt out fs 0 (length out) 0 = Inr vs"
    by (rule tupleAt_decode [where out = out])
      (use assms static_exact_all decodes_back_all in \<open>simp_all add: Encode_def data_at_def\<close>)
  then show ?thesis
    using Encode_aligned [OF assms(1,3,4)] by (simp add: Decode_def wordSize_def)
qed

lemma length_slice: "j \<le> length data \<Longrightarrow> length (slice data i j) = j - i"
  by (simp add: slice_def)

lemma decoded_types:
  "tupleAt data fs start e depth = Inr vs \<Longrightarrow> e \<le> length data \<Longrightarrow> have_types vs fs"
  "tupleLoop data fs start e depth cursor = Inr vs \<Longrightarrow> e \<le> length data \<Longrightarrow> have_types vs fs"
  "valueAt data f pos e depth = Inr v \<Longrightarrow> e \<le> length data \<Longrightarrow> has_type v f"
  "staticValue data f pos e depth = Inr v \<Longrightarrow> e \<le> length data \<Longrightarrow> has_type v f"
  "arrayAt data f pos e depth = Inr vs \<Longrightarrow> e \<le> length data \<Longrightarrow> all_have_type vs f"
  "offsetsLoop data f headStart e depth k i = Inr vs \<Longrightarrow> e \<le> length data \<Longrightarrow> all_have_type vs f"
  "elemsLoop data f pos e depth elemSize k = Inr vs \<Longrightarrow> e \<le> length data \<Longrightarrow> all_have_type vs f"
proof (induction data fs start e depth and data fs start e depth cursor and data f pos e depth
    and data f pos e depth and data f pos e depth and data f headStart e depth k i
    and data f pos e depth elemSize k
    arbitrary: vs and vs and v and v and vs and vs and vs
    rule: tupleAt_tupleLoop_valueAt_staticValue_arrayAt_offsetsLoop_elemsLoop.induct)
  case (1 data fields start e depth)
  then show ?case by (auto simp: Let_def split: if_splits)
next
  case (3 data f fs start e depth cursor)
  then show ?case by (auto split: if_splits sum.splits)
next
  case (4 data ty sub el pos e depth)
  then show ?case by (cases ty) (auto split: if_splits sum.splits option.splits)
next
  case (5 data ty sub el pos e depth)
  then show ?case
    by (cases ty) (auto simp: Let_def wordSize_def length_slice split: if_splits sum.splits option.splits)
next
  case (6 data elem pos e depth)
  then show ?case by (auto simp: Let_def split: if_splits sum.splits)
next
  case (8 data elem headStart e depth k i)
  then show ?case by (auto split: if_splits sum.splits)
next
  case (10 data elem pos e depth elemSize k)
  then show ?case by (auto split: sum.splits)
qed auto

section \<open>The codec\<close>

lemma Encode_abi_bytes: "list_all wf_field fs \<Longrightarrow> have_types vs fs \<Longrightarrow> Encode fs vs = Inr (abi_bytes fs vs)"
  using Encode_total [of fs vs] by (auto simp: abi_bytes_def list_all_iff)

lemma Decode_abi_bytes: "abi_valid fs vs \<Longrightarrow> Decode fs (abi_bytes fs vs) = Inr vs"
  using Decode_Encode [of fs vs "abi_bytes fs vs"] Encode_abi_bytes [of fs vs]
  by (simp add: abi_valid_def list_all_iff)

interpretation abi: roundtrip_codec "abi_bytes fs" "Decode fs" "abi_valid fs" for fs
  by unfold_locales (rule Decode_abi_bytes)

text \<open>C36: for every supported schema whose nesting is within the depth limit and every value
  of it, \<open>Encode\<close> succeeds with a whole number of words, and decoding them gives the value back
  (as long as the encoding is shorter than \<open>2 ^ 64\<close> bytes, the range of an offset word).\<close>

theorem abi_roundtrip:
  assumes "list_all wf_field fs" and "fields_depth fs < maxAbiDepth" and "have_types vs fs"
  shows "\<exists>out. Encode fs vs = Inr out \<and> 32 dvd length out \<and> (length out < 2 ^ 64 \<longrightarrow> Decode fs out = Inr vs)"
  using Encode_abi_bytes [OF assms(1,3)] Encode_aligned [of fs vs "abi_bytes fs vs"] abi.dec_enc [of fs vs] assms
  by (auto simp: abi_valid_def list_all_iff)

theorem abi_roundtrip_witness:
  "\<exists>out. Encode [Field TypeUint32 None None, Field TypeArray None (Some (Field TypeBytes None None))]
       [VUint32 7, VList [VBytes [1, 2, 3], VBytes []]] = Inr out \<and> 32 dvd length out \<and>
     (length out < 2 ^ 64 \<longrightarrow>
      Decode [Field TypeUint32 None None, Field TypeArray None (Some (Field TypeBytes None None))] out =
        Inr [VUint32 7, VList [VBytes [1, 2, 3], VBytes []]])"
  by (rule abi_roundtrip) (simp_all add: maxAbiDepth_def)

text \<open>Two values of a schema with the same encoding are equal, so a hash of the
  encoding commits to the value.\<close>

theorem abi_injective:
  assumes "abi_valid fs vs" and "abi_valid fs ws" and "Encode fs vs = Encode fs ws"
  shows "vs = ws"
  by (rule abi.enc_inj [OF assms(1,2)]) (simp add: abi_bytes_def assms(3))

theorem abi_injective_witness:
  "Encode [Field TypeUint8 None None, Field TypeBool None None] [VUint8 1, VBool True] \<noteq>
   Encode [Field TypeUint8 None None, Field TypeBool None None] [VUint8 2, VBool True]"
proof
  assume eq: "Encode [Field TypeUint8 None None, Field TypeBool None None] [VUint8 1, VBool True] =
    Encode [Field TypeUint8 None None, Field TypeBool None None] [VUint8 2, VBool True]"
  have "abi_valid [Field TypeUint8 None None, Field TypeBool None None] [VUint8 x, VBool True]" for x
    by (simp add: abi_valid_def abi_bytes_def Encode_def maxAbiDepth_def wordSize_def)
  from abi_injective [OF this this eq] show False by simp
qed

text \<open>C38: whatever bytes it is given, a successful \<open>Decode\<close> returns one value per field of the
  schema, each of the Go type its field announces: the type assertions on its result never panic.\<close>

theorem abi_decode_typed:
  assumes "Decode fs data = Inr vs"
  shows "have_types vs fs"
  using assms decoded_types(1) [of data fs 0 "length data" 0 vs] by (simp add: Decode_def split: if_splits)

theorem abi_decode_typed_witness:
  "have_types [VUint64 5, VBool True] [Field TypeUint64 None None, Field TypeBool None None]"
proof (rule abi_decode_typed)
  show "Decode [Field TypeUint64 None None, Field TypeBool None None]
      (encodeUint64Word 5 @ encodeUint64Word 1) = Inr [VUint64 5, VBool True]"
    by (simp add: Decode_def wordSize_def maxAbiDepth_def Let_def slice_def)
qed

end
