(* ===== verification/Height.thy ===== *)
theory Height
  imports Prelude
begin

text \<open>
  Heights (\<^verbatim>\<open>p/onbloc/ibc/union/types/height.gno\<close>): an optional revision and a block number, their
  comparison, the decimal string form with its parser, and the 16-byte key form. The decimal
  conversions of \<^verbatim>\<open>strconv\<close> are modelled for base 10 and 64 bits, the only ones the code uses.
\<close>

section \<open>Decimal numbers (strconv.FormatUint, strconv.ParseUint, strings.Cut)\<close>

datatype parse_error = ErrSyntax | ErrRange | ErrInvalidHeightString

definition digit_char :: "nat \<Rightarrow> char" where
  "digit_char d = char_of (48 + d)"

fun digits :: "nat \<Rightarrow> string" where
  "digits n = (if n < 10 then [digit_char n] else digits (n div 10) @ [digit_char (n mod 10)])"

declare digits.simps [simp del]

definition FormatUint :: "u64 \<Rightarrow> string" where
  "FormatUint v = digits (unat v)"

fun parseDigits :: "nat \<Rightarrow> string \<Rightarrow> parse_error + nat" where
  "parseDigits n [] = Inr n"
| "parseDigits n (c # cs) =
     (let d = of_char c :: nat in
      if d < 48 \<or> 57 < d then Inl ErrSyntax
      else if 2 ^ 64 \<le> n * 10 + (d - 48) then Inl ErrRange
      else parseDigits (n * 10 + (d - 48)) cs)"

definition ParseUint :: "string \<Rightarrow> parse_error + u64" where
  "ParseUint s =
     (if s = [] then Inl ErrSyntax
      else case parseDigits 0 s of Inl err \<Rightarrow> Inl err | Inr n \<Rightarrow> Inr (word_of_nat n))"

fun Cut :: "string \<Rightarrow> char \<Rightarrow> (string \<times> string) option" where
  "Cut [] sep = None"
| "Cut (c # cs) sep =
     (if c = sep then Some ([], cs)
      else case Cut cs sep of None \<Rightarrow> None | Some (before, after) \<Rightarrow> Some (c # before, after))"

section \<open>Heights\<close>

record Height =
  RevisionNumber :: u64
  RevisionHeight :: u64

definition NewHeight :: "u64 \<Rightarrow> Height" where
  "NewHeight height = \<lparr>RevisionNumber = 0, RevisionHeight = height\<rparr>"

definition NewHeightWithRevision :: "u64 \<Rightarrow> u64 \<Rightarrow> Height" where
  "NewHeightWithRevision revision height = \<lparr>RevisionNumber = revision, RevisionHeight = height\<rparr>"

definition IsZero :: "Height \<Rightarrow> bool" where
  "IsZero h \<longleftrightarrow> RevisionNumber h = 0 \<and> RevisionHeight h = 0"

definition HasRevision :: "Height \<Rightarrow> bool" where
  "HasRevision h \<longleftrightarrow> RevisionNumber h \<noteq> 0"

definition RevisionMatches :: "Height \<Rightarrow> Height \<Rightarrow> bool" where
  "RevisionMatches h other =
     (if RevisionNumber h = 0 \<or> RevisionNumber other = 0 then True
      else RevisionNumber h = RevisionNumber other)"

definition Increment :: "Height \<Rightarrow> Height" where
  "Increment h = \<lparr>RevisionNumber = RevisionNumber h, RevisionHeight = RevisionHeight h + 1\<rparr>"

definition IncrementBy :: "Height \<Rightarrow> u64 \<Rightarrow> Height" where
  "IncrementBy h n = \<lparr>RevisionNumber = RevisionNumber h, RevisionHeight = RevisionHeight h + n\<rparr>"

definition Cmp :: "Height \<Rightarrow> Height \<Rightarrow> int" where
  "Cmp h other =
     (if RevisionNumber h \<noteq> 0 \<and> RevisionNumber other \<noteq> 0 \<and> RevisionNumber h < RevisionNumber other then -1
      else if RevisionNumber h \<noteq> 0 \<and> RevisionNumber other \<noteq> 0 \<and> RevisionNumber h > RevisionNumber other then 1
      else if RevisionHeight h < RevisionHeight other then -1
      else if RevisionHeight h > RevisionHeight other then 1
      else 0)"

definition LT :: "Height \<Rightarrow> Height \<Rightarrow> bool" where
  "LT h other \<longleftrightarrow> Cmp h other < 0"

definition LTE :: "Height \<Rightarrow> Height \<Rightarrow> bool" where
  "LTE h other \<longleftrightarrow> Cmp h other \<le> 0"

definition GT :: "Height \<Rightarrow> Height \<Rightarrow> bool" where
  "GT h other \<longleftrightarrow> Cmp h other > 0"

definition GTE :: "Height \<Rightarrow> Height \<Rightarrow> bool" where
  "GTE h other \<longleftrightarrow> Cmp h other \<ge> 0"

definition EQ :: "Height \<Rightarrow> Height \<Rightarrow> bool" where
  "EQ h other \<longleftrightarrow> Cmp h other = 0"

definition height_String :: "Height \<Rightarrow> string" where
  "height_String h =
     (if RevisionNumber h \<noteq> 0 then FormatUint (RevisionNumber h) @ ''-'' @ FormatUint (RevisionHeight h)
      else FormatUint (RevisionHeight h))"

definition height_Bytes :: "Height \<Rightarrow> bytes" where
  "height_Bytes h = PutUint64 (RevisionNumber h) @ PutUint64 (RevisionHeight h)"

definition ParseHeight :: "string \<Rightarrow> parse_error + Height" where
  "ParseHeight s =
     (if s = [] then Inl ErrInvalidHeightString
      else case Cut s (CHR ''-'') of
        None \<Rightarrow>
          (case ParseUint s of
             Inl err \<Rightarrow> Inl err
           | Inr height \<Rightarrow> Inr \<lparr>RevisionNumber = 0, RevisionHeight = height\<rparr>)
      | Some (revStr, heightStr) \<Rightarrow>
          (case ParseUint revStr of
             Inl err \<Rightarrow> Inl err
           | Inr revision \<Rightarrow>
               (case ParseUint heightStr of
                  Inl err \<Rightarrow> Inl err
                | Inr height \<Rightarrow> Inr \<lparr>RevisionNumber = revision, RevisionHeight = height\<rparr>)))"

text \<open>Go's \<^verbatim>\<open><\<close> on strings, the order of the BPTree's keys.\<close>

fun bytes_less :: "bytes \<Rightarrow> bytes \<Rightarrow> bool" where
  "bytes_less _ [] = False"
| "bytes_less [] (b # bs) = True"
| "bytes_less (a # as) (b # bs) = (a < b \<or> a = b \<and> bytes_less as bs)"

section \<open>Decimal round trip\<close>

lemma of_char_digit: "d < 10 \<Longrightarrow> (of_char (digit_char d) :: nat) = 48 + d"
  by (simp add: digit_char_def)

lemma digits_not_Nil: "digits n \<noteq> []"
  by (subst digits.simps) simp

lemma digits_no_sep: "c \<in> set (digits n) \<Longrightarrow> (48 :: nat) \<le> of_char c"
proof (induction n rule: digits.induct)
  case (1 n)
  then show ?case
    by (subst (asm) digits.simps [of n]) (auto simp: of_char_digit split: if_splits)
qed

lemma parseDigits_append:
  "parseDigits n (xs @ ys) = (case parseDigits n xs of Inl err \<Rightarrow> Inl err | Inr m \<Rightarrow> parseDigits m ys)"
  by (induction n xs rule: parseDigits.induct) (auto simp: Let_def)

lemma parseDigits_digits: "n < 2 ^ 64 \<Longrightarrow> parseDigits 0 (digits n) = Inr n"
proof (induction n rule: digits.induct)
  case (1 n)
  show ?case
  proof (cases "n < 10")
    case True
    then show ?thesis by (subst digits.simps) (simp add: of_char_digit)
  next
    case False
    have "parseDigits 0 (digits (n div 10)) = Inr (n div 10)"
      using 1 False by simp
    moreover have "n div 10 * 10 + n mod 10 = n" by simp
    moreover have "\<not> 2 ^ 64 \<le> n" using 1(2) by simp
    ultimately show ?thesis
      using False by (subst digits.simps) (simp add: parseDigits_append of_char_digit Let_def)
  qed
qed

lemma ParseUint_FormatUint [simp]: "ParseUint (FormatUint v) = Inr v"
  using parseDigits_digits [of "unat v"] unsigned_less [of v, where ?'a = nat]
  by (simp add: ParseUint_def FormatUint_def digits_not_Nil)

lemma FormatUint_inject [simp]: "FormatUint v = FormatUint w \<longleftrightarrow> v = w"
  by (metis ParseUint_FormatUint sum.inject(2))

lemma FormatUint_not_Nil [simp]: "FormatUint v \<noteq> []"
  by (simp add: FormatUint_def digits_not_Nil)

lemma sep_not_digit: "CHR ''-'' \<notin> set (FormatUint v)"
  using digits_no_sep by (fastforce simp: FormatUint_def)

lemma Cut_none: "sep \<notin> set s \<Longrightarrow> Cut s sep = None"
  by (induction s) auto

lemma Cut_first: "sep \<notin> set s \<Longrightarrow> Cut (s @ sep # t) sep = Some (s, t)"
  by (induction s) auto

section \<open>Order\<close>

lemma be_nat_Cons: "be_nat (b # bs) = unat b * 256 ^ length bs + be_nat bs"
  using be_nat_append [of "[b]" bs] be_nat_snoc [of "[]" b] by simp

lemma digit_order:
  fixes a b x y m :: nat
  assumes "x < m" and "y < m"
  shows "a * m + x < b * m + y \<longleftrightarrow> a < b \<or> a = b \<and> x < y"
proof (cases a b rule: linorder_cases)
  case less
  then have "(a + 1) * m \<le> b * m" by (intro mult_le_mono1) simp
  with less assms show ?thesis by simp
next
  case greater
  then have "(b + 1) * m \<le> a * m" by (intro mult_le_mono1) simp
  with greater assms show ?thesis by simp
qed simp

text \<open>On strings of equal length the key order is the order of the numbers they spell.\<close>

lemma bytes_less_be_nat: "length as = length bs \<Longrightarrow> bytes_less as bs \<longleftrightarrow> be_nat as < be_nat bs"
proof (induction as bs rule: list_induct2)
  case (Cons a as b bs)
  have "be_nat as < 256 ^ length bs" "be_nat bs < 256 ^ length bs"
    using be_nat_less [of as] be_nat_less [of bs] Cons.hyps by auto
  then show ?case
    using Cons by (simp add: be_nat_Cons digit_order word_less_nat_alt word_unat_eq_iff)
qed simp

lemma be_nat_height_Bytes:
  "be_nat (height_Bytes h) = unat (RevisionNumber h) * 256 ^ 8 + unat (RevisionHeight h)"
  using unat_u64_less [of "RevisionNumber h"] unat_u64_less [of "RevisionHeight h"]
  by (simp add: height_Bytes_def be_nat_append PutUint64_def be_nat_be_bytes)

text \<open>Within one kind of height the comparison is lexicographic.\<close>

lemma LT_lex:
  assumes "HasRevision h = HasRevision k"
  shows "LT h k \<longleftrightarrow> RevisionNumber h < RevisionNumber k \<or>
    RevisionNumber h = RevisionNumber k \<and> RevisionHeight h < RevisionHeight k"
  using assms by (auto simp: LT_def Cmp_def HasRevision_def)

lemma EQ_eq:
  assumes "HasRevision h = HasRevision k"
  shows "EQ h k \<longleftrightarrow> h = k"
proof -
  have "EQ h k \<longleftrightarrow> RevisionNumber h = RevisionNumber k \<and> RevisionHeight h = RevisionHeight k"
    using assms by (auto simp: EQ_def Cmp_def HasRevision_def)
  also have "\<dots> \<longleftrightarrow> h = k" by (cases h; cases k) simp
  finally show ?thesis .
qed

text \<open>The string form of every height parses back to that height.\<close>

theorem height_roundtrip: "ParseHeight (height_String h) = Inr h"
proof (cases "RevisionNumber h = 0")
  case True
  then show ?thesis
    by (simp add: ParseHeight_def height_String_def Cut_none sep_not_digit)
next
  case False
  then show ?thesis
    by (simp add: ParseHeight_def height_String_def Cut_first sep_not_digit)
qed

text \<open>The 16-byte keys order heights by revision and then by block number; on heights
  that both carry a revision, or both carry none, this is exactly \<open>LT\<close>.\<close>

theorem height_key_order:
  assumes "HasRevision h = HasRevision k"
  shows "bytes_less (height_Bytes h) (height_Bytes k) \<longleftrightarrow> LT h k"
proof -
  have len: "length (height_Bytes h) = length (height_Bytes k)" by (simp add: height_Bytes_def)
  have "bytes_less (height_Bytes h) (height_Bytes k) \<longleftrightarrow>
     RevisionNumber h < RevisionNumber k \<or> RevisionNumber h = RevisionNumber k \<and> RevisionHeight h < RevisionHeight k"
    unfolding bytes_less_be_nat [OF len] be_nat_height_Bytes digit_order [OF unat_u64_less unat_u64_less]
    by (simp add: word_less_nat_alt word_unat_eq_iff)
  then show ?thesis
    using LT_lex [OF assms] by simp
qed

theorem height_key_order_witness:
  "bytes_less (height_Bytes (NewHeightWithRevision 1 300)) (height_Bytes (NewHeightWithRevision 2 7))"
proof -
  have "LT (NewHeightWithRevision 1 300) (NewHeightWithRevision 2 7)"
    by (simp add: LT_def Cmp_def NewHeightWithRevision_def)
  moreover have "HasRevision (NewHeightWithRevision 1 300) = HasRevision (NewHeightWithRevision 2 7)"
    by (simp add: HasRevision_def NewHeightWithRevision_def)
  ultimately show ?thesis using height_key_order by blast
qed

text \<open>On heights that all carry a revision, or all carry none, \<open>LT\<close> is a strict linear
  order: transitive, and of two heights exactly one is smaller unless they are equal.\<close>

theorem height_order:
  assumes "HasRevision h = HasRevision k" and "HasRevision k = HasRevision l"
  shows "(LT h k \<and> LT k l \<longrightarrow> LT h l) \<and> (LT h k \<or> h = k \<or> LT k h) \<and> \<not> (LT h k \<and> LT k h) \<and> (EQ h k \<longleftrightarrow> h = k)"
proof -
  have "HasRevision h = HasRevision l" "HasRevision k = HasRevision h" using assms by simp_all
  note lt = LT_lex [OF assms(1)] LT_lex [OF assms(2)] LT_lex [OF this(1)] LT_lex [OF this(2)]
  have "LT h k \<and> LT k l \<longrightarrow> LT h l" unfolding lt by auto
  moreover have "LT h k \<or> h = k \<or> LT k h" unfolding lt using linorder_less_linear Height.equality by fastforce
  moreover have "\<not> (LT h k \<and> LT k h)" unfolding lt by auto
  ultimately show ?thesis using EQ_eq [OF assms(1)] by blast
qed

theorem height_order_witness:
  "LT (NewHeight 1) (NewHeight 3)"
proof -
  have "HasRevision (NewHeight 1) = HasRevision (NewHeight 2)" "HasRevision (NewHeight 2) = HasRevision (NewHeight 3)"
    by (simp_all add: HasRevision_def NewHeight_def)
  from height_order [OF this] show ?thesis
    by (simp add: LT_def Cmp_def NewHeight_def)
qed

text \<open>Across heights with and without a revision the comparison is not transitive: three
  heights each smaller than the next, in a circle.\<close>

theorem height_mixed_order_cycle:
  "LT (NewHeightWithRevision 2 1) (NewHeight 5) \<and> LT (NewHeight 5) (NewHeightWithRevision 1 9) \<and>
   LT (NewHeightWithRevision 1 9) (NewHeightWithRevision 2 1)"
  by (simp add: LT_def Cmp_def NewHeight_def NewHeightWithRevision_def)

end
