(* ===== verification/IbcTypes.thy ===== *)
theory IbcTypes
  imports Abi Height
begin

text \<open>
  The wire types of \<^verbatim>\<open>p/onbloc/ibc/union/types\<close>: clients, connections, channels, packets, the
  datagrams, their ABI encodings, the commitment hashes and the commitment paths. Keccak-256 is
  \<^verbatim>\<open>crypto/keccak256\<close>, outside the repository: it is the parameter \<open>kc\<close> of every definition that
  hashes, and what the code relies on (a 32-byte digest, no collision among the strings at hand)
  is stated as a hypothesis where it is used, never as global injectivity.
\<close>

section \<open>Identifiers and data (types.gno, client.gno, connection.gno, channel.gno, packet.gno)\<close>

type_synonym ClientId = u32
type_synonym ConnectionId = u32
type_synonym ChannelId = u32
type_synonym Timestamp = u64
type_synonym H256 = bytes
type_synonym ClientType = string
type_synonym address = string

datatype Status = StatusUnknown | StatusActive | StatusExpired | StatusFrozen

datatype ConnectionState = ConnectionStateUnknown | ConnectionStateInit | ConnectionStateTryOpen
  | ConnectionStateOpen

datatype ChannelState = ChannelStateUnknown | ChannelStateInit | ChannelStateTryOpen
  | ChannelStateOpen | ChannelStateClosed

text \<open>\<^verbatim>\<open>uint8(state)\<close>.\<close>

fun connection_state_byte :: "ConnectionState \<Rightarrow> byte" where
  "connection_state_byte ConnectionStateUnknown = 0"
| "connection_state_byte ConnectionStateInit = 1"
| "connection_state_byte ConnectionStateTryOpen = 2"
| "connection_state_byte ConnectionStateOpen = 3"

fun channel_state_byte :: "ChannelState \<Rightarrow> byte" where
  "channel_state_byte ChannelStateUnknown = 0"
| "channel_state_byte ChannelStateInit = 1"
| "channel_state_byte ChannelStateTryOpen = 2"
| "channel_state_byte ChannelStateOpen = 3"
| "channel_state_byte ChannelStateClosed = 4"

record Connection =
  conn_State :: ConnectionState
  conn_ClientId :: ClientId
  conn_CounterpartyClientId :: ClientId
  conn_CounterpartyConnectionId :: ConnectionId

record Channel =
  chan_State :: ChannelState
  chan_ConnectionId :: ConnectionId
  chan_CounterpartyChannelId :: ChannelId
  chan_CounterpartyPortId :: bytes
  chan_Version :: string

record Packet =
  SourceChannelId :: ChannelId
  DestinationChannelId :: ChannelId
  Data :: bytes
  TimeoutHeight :: u64
  TimeoutTimestamp :: Timestamp

definition NewPacket :: "ChannelId \<Rightarrow> ChannelId \<Rightarrow> bytes \<Rightarrow> Timestamp \<Rightarrow> Packet" where
  "NewPacket src dst data ts =
     \<lparr>SourceChannelId = src, DestinationChannelId = dst, Data = data, TimeoutHeight = 0, TimeoutTimestamp = ts\<rparr>"

definition NewConnection :: "ConnectionState \<Rightarrow> ClientId \<Rightarrow> ClientId \<Rightarrow> ConnectionId \<Rightarrow> Connection" where
  "NewConnection state clientId counterpartyClientId counterpartyConnectionId =
     \<lparr>conn_State = state, conn_ClientId = clientId, conn_CounterpartyClientId = counterpartyClientId,
      conn_CounterpartyConnectionId = counterpartyConnectionId\<rparr>"

definition NewChannel :: "ChannelState \<Rightarrow> ConnectionId \<Rightarrow> ChannelId \<Rightarrow> bytes \<Rightarrow> string \<Rightarrow> Channel" where
  "NewChannel state connectionId counterpartyChannelId counterpartyPortId version =
     \<lparr>chan_State = state, chan_ConnectionId = connectionId, chan_CounterpartyChannelId = counterpartyChannelId,
      chan_CounterpartyPortId = counterpartyPortId, chan_Version = version\<rparr>"

section \<open>Datagrams (msgs.gno, msgs_handshake.gno)\<close>

text \<open>The client and handshake datagrams have no behaviour and are records; the field names
  carry a prefix because Isabelle's selectors share one name space. \<^verbatim>\<open>Relayer\<close> is kept where a
  handler reads it.\<close>

record MsgCreateClient =
  mcc_ClientType :: ClientType
  mcc_ClientStateBytes :: bytes
  mcc_ConsensusStateBytes :: bytes
  mcc_Relayer :: string

record MsgUpdateClient =
  muc_ClientId :: ClientId
  muc_ClientMessage :: bytes
  muc_Relayer :: string

record MsgForceUpdateClient =
  mfu_ClientId :: ClientId
  mfu_ClientStateBytes :: bytes
  mfu_ConsensusStateBytes :: bytes

record MsgMisbehaviour =
  mmb_ClientId :: ClientId
  mmb_ClientMessage :: bytes
  mmb_Relayer :: string

record MsgConnectionOpenInit =
  coi_ClientId :: ClientId
  coi_CounterpartyClientId :: ClientId

record MsgConnectionOpenTry =
  cot_ClientId :: ClientId
  cot_CounterpartyClientId :: ClientId
  cot_CounterpartyConnectionId :: ConnectionId
  cot_ProofInit :: bytes
  cot_ProofHeight :: u64

record MsgConnectionOpenAck =
  coa_ConnectionId :: ConnectionId
  coa_CounterpartyConnectionId :: ConnectionId
  coa_ProofTry :: bytes
  coa_ProofHeight :: u64

record MsgConnectionOpenConfirm =
  coc_ConnectionId :: ConnectionId
  coc_ProofAck :: bytes
  coc_ProofHeight :: u64

record MsgChannelOpenInit =
  hoi_PortId :: bytes
  hoi_CounterpartyPortId :: bytes
  hoi_ConnectionId :: ConnectionId
  hoi_Version :: string

record MsgChannelOpenTry =
  hot_PortId :: bytes
  hot_Channel :: Channel
  hot_CounterpartyVersion :: string
  hot_ProofInit :: bytes
  hot_ProofHeight :: u64

record MsgChannelOpenAck =
  hoa_ChannelId :: ChannelId
  hoa_CounterpartyVersion :: string
  hoa_CounterpartyChannelId :: ChannelId
  hoa_ProofTry :: bytes
  hoa_ProofHeight :: u64

record MsgChannelOpenConfirm =
  hoc_ChannelId :: ChannelId
  hoc_ProofAck :: bytes
  hoc_ProofHeight :: u64

record MsgChannelCloseInit =
  hci_ChannelId :: ChannelId

record MsgChannelCloseConfirm =
  hcc_ChannelId :: ChannelId
  hcc_ProofInit :: bytes
  hcc_ProofHeight :: u64

record MsgPacketRecv =
  mpr_Packets :: "Packet list"
  mpr_RelayerMsgs :: "bytes list"
  mpr_Proof :: bytes
  mpr_ProofHeight :: u64

record MsgPacketAcknowledgement =
  mpa_Packets :: "Packet list"
  mpa_Acknowledgements :: "bytes list"
  mpa_Proof :: bytes
  mpa_ProofHeight :: u64

record MsgPacketTimeout =
  mpt_Packet :: Packet
  mpt_Proof :: bytes
  mpt_ProofHeight :: u64

record MsgCommitMembershipProof =
  mcm_ClientId :: ClientId
  mcm_ProofHeight :: u64
  mcm_Proof :: bytes
  mcm_Path :: bytes
  mcm_Value :: bytes

record MsgCommitNonMembershipProof =
  mcn_ClientId :: ClientId
  mcn_ProofHeight :: u64
  mcn_Proof :: bytes
  mcn_Path :: bytes

record MsgIntentPacketRecv =
  mir_Packets :: "Packet list"
  mir_MarketMakerMessages :: "bytes list"

record MsgBatchSend =
  mbs_Packets :: "Packet list"

record MsgBatchAcks =
  mba_Packets :: "Packet list"
  mba_Acks :: "bytes list"

record MsgWriteAcknowledgement =
  mwa_Packet :: Packet
  mwa_Acknowledgement :: bytes

section \<open>ABI encodings (abi.gno)\<close>

definition u32ToH256 :: "u32 \<Rightarrow> bytes" where
  "u32ToH256 n = replicate 28 0 @ PutUint32 n"

definition u64ToH256 :: "u64 \<Rightarrow> bytes" where
  "u64ToH256 n = replicate 24 0 @ PutUint64 n"

definition wrapABIEncode :: "bytes \<Rightarrow> bytes" where
  "wrapABIEncode encoded = u64ToH256 32 @ encoded"

abbreviation plain :: "abi_type \<Rightarrow> field" where
  "plain ty \<equiv> Field ty None None"

definition packet_schema :: "field list" where
  "packet_schema = [plain TypeUint32, plain TypeUint32, plain TypeBytes, plain TypeUint64, plain TypeUint64]"

definition packet_EncodeABI :: "Packet \<Rightarrow> abi_error + bytes" where
  "packet_EncodeABI p =
     Encode packet_schema
       [VUint32 (SourceChannelId p), VUint32 (DestinationChannelId p), VBytes (Data p), VUint64 0,
        VUint64 (TimeoutTimestamp p)]"

definition connection_schema :: "field list" where
  "connection_schema = [plain TypeUint8, plain TypeUint32, plain TypeUint32, plain TypeUint32]"

definition connection_EncodeABI :: "Connection \<Rightarrow> abi_error + bytes" where
  "connection_EncodeABI c =
     Encode connection_schema
       [VUint8 (connection_state_byte (conn_State c)), VUint32 (conn_ClientId c),
        VUint32 (conn_CounterpartyClientId c), VUint32 (conn_CounterpartyConnectionId c)]"

definition channel_schema :: "field list" where
  "channel_schema = [plain TypeUint8, plain TypeUint32, plain TypeUint32, plain TypeBytes, plain TypeString]"

definition channel_EncodeABI :: "Channel \<Rightarrow> abi_error + bytes" where
  "channel_EncodeABI c =
     (case Encode channel_schema
        [VUint8 (channel_state_byte (chan_State c)), VUint32 (chan_ConnectionId c),
         VUint32 (chan_CounterpartyChannelId c), VBytes (chan_CounterpartyPortId c), VString (chan_Version c)] of
        Inl err \<Rightarrow> Inl err
      | Inr bz \<Rightarrow> Inr (wrapABIEncode bz))"

fun packetArrayLoop :: "nat \<Rightarrow> Packet list \<Rightarrow> bytes \<Rightarrow> bytes \<Rightarrow> abi_error + bytes" where
  "packetArrayLoop headLen [] out tail = Inr (out @ tail)"
| "packetArrayLoop headLen (p # ps) out tail =
     (case packet_EncodeABI p of
        Inl err \<Rightarrow> Inl err
      | Inr encoded \<Rightarrow>
          packetArrayLoop headLen ps (out @ u64ToH256 (word_of_nat (headLen + length tail))) (tail @ encoded))"

definition encodeABIPacketArray :: "Packet list \<Rightarrow> abi_error + bytes" where
  "encodeABIPacketArray packets =
     packetArrayLoop (length packets * 32) packets (u64ToH256 (word_of_nat (length packets))) []"

definition encodeABIBytes :: "bytes \<Rightarrow> bytes" where
  "encodeABIBytes bz =
     (let pad = (32 - length bz mod 32) mod 32
      in u64ToH256 (word_of_nat (length bz)) @ bz @ (if pad > 0 then replicate pad 0 else []))"

fun bytesArrayLoop :: "nat \<Rightarrow> bytes list \<Rightarrow> bytes \<Rightarrow> bytes \<Rightarrow> bytes" where
  "bytesArrayLoop headLen [] out tail = out @ tail"
| "bytesArrayLoop headLen (item # items) out tail =
     bytesArrayLoop headLen items (out @ u64ToH256 (word_of_nat (headLen + length tail)))
       (tail @ encodeABIBytes item)"

definition encodeABIBytesArray :: "bytes list \<Rightarrow> bytes" where
  "encodeABIBytesArray items =
     bytesArrayLoop (length items * 32) items (u64ToH256 (word_of_nat (length items))) []"

section \<open>Hashes and commitments (keccak.gno, commit.gno)\<close>

type_synonym hash = "bytes \<Rightarrow> bytes"

definition Keccak :: "hash \<Rightarrow> bytes \<Rightarrow> H256" where
  "Keccak kc bz = (let sum = kc bz in map (\<lambda>i. sum ! i) [0..<32])"

definition COMMITMENT_MAGIC :: H256 where
  "COMMITMENT_MAGIC = 1 # replicate 31 0"

definition COMMITMENT_MAGIC_ACK :: H256 where
  "COMMITMENT_MAGIC_ACK = 2 # replicate 31 0"

definition NON_MEMBERSHIP_COMMITMENT_VALUE :: H256 where
  "NON_MEMBERSHIP_COMMITMENT_VALUE = replicate 31 0 @ [1]"

definition mergeAck :: "H256 \<Rightarrow> H256" where
  "mergeAck ack = ack[0 := COMMITMENT_MAGIC ! 0]"

definition CommitPackets :: "hash \<Rightarrow> Packet list \<Rightarrow> abi_error + H256" where
  "CommitPackets kc packets =
     (case encodeABIPacketArray packets of
        Inl err \<Rightarrow> Inl err
      | Inr encoded \<Rightarrow> Inr (Keccak kc (wrapABIEncode encoded)))"

definition CommitPacket :: "hash \<Rightarrow> Packet \<Rightarrow> abi_error + H256" where
  "CommitPacket kc packet = CommitPackets kc [packet]"

definition CommitAcks :: "hash \<Rightarrow> bytes list \<Rightarrow> H256" where
  "CommitAcks kc acks = mergeAck (Keccak kc (wrapABIEncode (encodeABIBytesArray acks)))"

definition CommitAck :: "hash \<Rightarrow> bytes \<Rightarrow> H256" where
  "CommitAck kc ack = CommitAcks kc [ack]"

section \<open>Paths (path.gno)\<close>

definition slot :: "byte \<Rightarrow> H256" where
  "slot n = replicate 31 0 @ [n]"

definition CLIENT_STATE :: H256 where "CLIENT_STATE = slot 0"
definition CONSENSUS_STATE :: H256 where "CONSENSUS_STATE = slot 1"
definition CONNECTIONS :: H256 where "CONNECTIONS = slot 2"
definition CHANNELS :: H256 where "CHANNELS = slot 3"
definition PACKETS :: H256 where "PACKETS = slot 4"
definition PACKET_ACKS :: H256 where "PACKET_ACKS = slot 5"
definition MEMBERSHIP_PROOF :: H256 where "MEMBERSHIP_PROOF = slot 6"
definition NON_MEMBERSHIP_PROOF :: H256 where "NON_MEMBERSHIP_PROOF = slot 7"

definition ClientStatePath :: "hash \<Rightarrow> ClientId \<Rightarrow> H256" where
  "ClientStatePath kc clientId = Keccak kc (CLIENT_STATE @ u32ToH256 clientId)"

definition ConsensusStatePath :: "hash \<Rightarrow> ClientId \<Rightarrow> Height \<Rightarrow> H256" where
  "ConsensusStatePath kc clientId height =
     Keccak kc (CONSENSUS_STATE @ u32ToH256 clientId @ u64ToH256 (RevisionHeight height))"

definition ConnectionPath :: "hash \<Rightarrow> ConnectionId \<Rightarrow> H256" where
  "ConnectionPath kc connectionId = Keccak kc (CONNECTIONS @ u32ToH256 connectionId)"

definition ChannelPath :: "hash \<Rightarrow> ChannelId \<Rightarrow> H256" where
  "ChannelPath kc channelId = Keccak kc (CHANNELS @ u32ToH256 channelId)"

definition BatchPacketsPath :: "hash \<Rightarrow> H256 \<Rightarrow> H256" where
  "BatchPacketsPath kc batchHash = Keccak kc (PACKETS @ batchHash)"

definition BatchReceiptsPath :: "hash \<Rightarrow> H256 \<Rightarrow> H256" where
  "BatchReceiptsPath kc batchHash = Keccak kc (PACKET_ACKS @ batchHash)"

definition PacketCommitmentPath :: "hash \<Rightarrow> Packet \<Rightarrow> abi_error + H256" where
  "PacketCommitmentPath kc packet =
     (case CommitPacket kc packet of Inl err \<Rightarrow> Inl err | Inr h \<Rightarrow> Inr (BatchPacketsPath kc h))"

definition PacketAcknowledgementPath :: "hash \<Rightarrow> Packet \<Rightarrow> abi_error + H256" where
  "PacketAcknowledgementPath kc packet =
     (case CommitPacket kc packet of Inl err \<Rightarrow> Inl err | Inr h \<Rightarrow> Inr (BatchReceiptsPath kc h))"

definition MembershipProofPath :: "hash \<Rightarrow> ClientId \<Rightarrow> u64 \<Rightarrow> bytes \<Rightarrow> H256" where
  "MembershipProofPath kc clientId proofHeight path =
     Keccak kc (MEMBERSHIP_PROOF @ u32ToH256 clientId @ u64ToH256 proofHeight @ path)"

definition NonMembershipProofPath :: "hash \<Rightarrow> ClientId \<Rightarrow> u64 \<Rightarrow> bytes \<Rightarrow> H256" where
  "NonMembershipProofPath kc clientId proofHeight path =
     Keccak kc (NON_MEMBERSHIP_PROOF @ u32ToH256 clientId @ u64ToH256 proofHeight @ path)"


text \<open>The strings the path functions hash, by what they name.\<close>

datatype path_key = KClientState ClientId | KConsensusState ClientId u64 | KConnection ConnectionId
  | KChannel ChannelId | KPackets H256 | KReceipts H256 | KMembership ClientId u64 bytes
  | KNonMembership ClientId u64 bytes

fun path_preimage :: "path_key \<Rightarrow> bytes" where
  "path_preimage (KClientState c) = CLIENT_STATE @ u32ToH256 c"
| "path_preimage (KConsensusState c h) = CONSENSUS_STATE @ u32ToH256 c @ u64ToH256 h"
| "path_preimage (KConnection c) = CONNECTIONS @ u32ToH256 c"
| "path_preimage (KChannel c) = CHANNELS @ u32ToH256 c"
| "path_preimage (KPackets h) = PACKETS @ h"
| "path_preimage (KReceipts h) = PACKET_ACKS @ h"
| "path_preimage (KMembership c h p) = MEMBERSHIP_PROOF @ u32ToH256 c @ u64ToH256 h @ p"
| "path_preimage (KNonMembership c h p) = NON_MEMBERSHIP_PROOF @ u32ToH256 c @ u64ToH256 h @ p"

definition path_at :: "hash \<Rightarrow> path_key \<Rightarrow> H256" where
  "path_at kc k = Keccak kc (path_preimage k)"

text \<open>The ABI view of a packet, and the field of a packet array.\<close>

definition packet_value :: "Packet \<Rightarrow> abi_value" where
  "packet_value p =
     VList [VUint32 (SourceChannelId p), VUint32 (DestinationChannelId p), VBytes (Data p), VUint64 0,
            VUint64 (TimeoutTimestamp p)]"

definition packets_field :: field where
  "packets_field = Field TypeArray None (Some (Field TypeStruct (Some packet_schema) None))"

definition acks_field :: field where
  "acks_field = Field TypeArray None (Some (plain TypeBytes))"

definition packets_preimage :: "Packet list \<Rightarrow> bytes" where
  "packets_preimage ps = abi_bytes [packets_field] [VList (map packet_value ps)]"

definition acks_preimage :: "bytes list \<Rightarrow> bytes" where
  "acks_preimage acks = abi_bytes [acks_field] [VList (map VBytes acks)]"

text \<open>A hash that tells one string from all others, for the concrete instances below.\<close>

definition sample_digest :: "bytes \<Rightarrow> hash" where
  "sample_digest x b = (if b = x then replicate 32 0 else replicate 32 1)"

text \<open>What the code relies on of keccak256: digests have 32 bytes; and on a given set of
  strings there is no collision.\<close>

definition digest32 :: "hash \<Rightarrow> bool" where
  "digest32 kc \<longleftrightarrow> (\<forall>b. length (kc b) = 32)"

section \<open>Encodings\<close>

lemma u64ToH256_word: "u64ToH256 v = encodeUint64Word v"
  by (simp add: u64ToH256_def encodeUint64Word_def)

lemma length_u64ToH256 [simp]: "length (u64ToH256 v) = 32"
  by (simp add: u64ToH256_def)

lemma length_u32ToH256 [simp]: "length (u32ToH256 v) = 32"
  by (simp add: u32ToH256_def)

lemma u32ToH256_inject [simp]: "u32ToH256 v = u32ToH256 w \<longleftrightarrow> v = w"
  by (simp add: u32ToH256_def)

lemma u64ToH256_inject [simp]: "u64ToH256 v = u64ToH256 w \<longleftrightarrow> v = w"
  by (simp add: u64ToH256_def)

lemma encodeABIBytes_encodeBytes: "encodeABIBytes bz = encodeBytes bz"
  by (simp add: encodeABIBytes_def encodeBytes_def u64ToH256_word wordSize_def Let_def)

lemma packet_dynamic [simp]: "isDynamic (Field TypeStruct (Some packet_schema) None)"
  by (simp add: packet_schema_def)

lemma encode_packet: "encodeValue (Field TypeStruct (Some packet_schema) None) (packet_value p) = packet_EncodeABI p"
  by (simp add: packet_value_def packet_EncodeABI_def Encode_def)

text \<open>The hand-written array loops are the loop of the generic encoder.\<close>

lemma packetArrayLoop_generic:
  "packetArrayLoop hl ps (out @ head) tail =
     (case encodeArrayLoop hl (Field TypeStruct (Some packet_schema) None) (map packet_value ps) head tail of
        Inl err \<Rightarrow> Inl err | Inr (h, t) \<Rightarrow> Inr (out @ h @ t))"
proof (induction ps arbitrary: head tail)
  case (Cons p ps)
  then show ?case
    by (cases "packet_EncodeABI p") (simp_all add: encode_packet u64ToH256_word del: encodeValue.simps of_nat_add)
qed simp

lemma encodeABIPacketArray_generic:
  "encodeABIPacketArray ps = encodeArray (Field TypeStruct (Some packet_schema) None) (map packet_value ps)"
proof -
  have "encodeABIPacketArray ps = packetArrayLoop (length ps * 32) ps (encodeUint64Word (word_of_nat (length ps)) @ []) []"
    by (simp add: encodeABIPacketArray_def u64ToH256_word)
  then show ?thesis
    unfolding packetArrayLoop_generic
    by (cases "ps = []") (simp_all add: wordSize_def Let_def del: isDynamic.simps)
qed

lemma bytesArrayLoop_generic:
  "encodeArrayLoop hl (plain TypeBytes) (map VBytes items) head tail = Inr (h, t) \<Longrightarrow>
     bytesArrayLoop hl items (out @ head) tail = out @ h @ t"
  by (induction items arbitrary: head tail) (simp_all add: u64ToH256_word encodeABIBytes_encodeBytes)

lemma encodeABIBytesArray_generic:
  "encodeArray (plain TypeBytes) (map VBytes items) = Inr (encodeABIBytesArray items)"
proof -
  have "\<exists>h t. encodeArrayLoop hl (plain TypeBytes) (map VBytes items) head tail = Inr (h, t)" for hl head tail
    by (induction items arbitrary: head tail) auto
  then obtain h t where ht: "encodeArrayLoop (length items * 32) (plain TypeBytes) (map VBytes items) [] [] = Inr (h, t)"
    by blast
  then have "encodeABIBytesArray items = encodeUint64Word (word_of_nat (length items)) @ h @ t"
    using bytesArrayLoop_generic [OF ht, of "encodeUint64Word (word_of_nat (length items))"]
    by (simp add: encodeABIBytesArray_def u64ToH256_word)
  with ht show ?thesis
    by (cases items) (simp_all add: wordSize_def Let_def)
qed

text \<open>The offset word in front of a single dynamic value is the tuple encoding of that value.\<close>

lemma Encode_single_dynamic:
  "isDynamic f \<Longrightarrow> Encode [f] [v] = (case encodeValue f v of Inl err \<Rightarrow> Inl err | Inr e \<Rightarrow> Inr (wrapABIEncode e))"
  by (auto simp: Encode_def wrapABIEncode_def u64ToH256_word wordSize_def split: sum.splits)

lemma wf_packets_field [simp]: "wf_field packets_field"
  by (simp add: packets_field_def packet_schema_def)

lemma wf_acks_field [simp]: "wf_field acks_field"
  by (simp add: acks_field_def)

lemma packets_typed: "have_types [VList (map packet_value ps)] [packets_field]"
proof -
  have "all_have_type (map packet_value ps) (Field TypeStruct (Some packet_schema) None)"
    by (induction ps) (simp_all add: packet_value_def packet_schema_def)
  then show ?thesis by (simp add: packets_field_def)
qed

lemma acks_typed: "have_types [VList (map VBytes acks)] [acks_field]"
proof -
  have "all_have_type (map VBytes acks) (plain TypeBytes)"
    by (induction acks) simp_all
  then show ?thesis by (simp add: acks_field_def)
qed

lemma packets_preimage_eq:
  "encodeABIPacketArray ps = Inr e \<Longrightarrow> wrapABIEncode e = packets_preimage ps"
  using Encode_single_dynamic [of packets_field "VList (map packet_value ps)"]
  by (simp add: packets_preimage_def abi_bytes_def packets_field_def encodeABIPacketArray_generic)

lemma encodeABIPacketArray_total: "\<exists>e. encodeABIPacketArray ps = Inr e"
proof -
  have "Encode [packets_field] [VList (map packet_value ps)] = Inr (packets_preimage ps)"
    unfolding packets_preimage_def by (rule Encode_abi_bytes [OF _ packets_typed]) simp
  then show ?thesis
    using Encode_single_dynamic [of packets_field "VList (map packet_value ps)"]
    by (simp add: packets_field_def encodeABIPacketArray_generic split: sum.splits)
qed

lemma acks_preimage_eq: "wrapABIEncode (encodeABIBytesArray acks) = acks_preimage acks"
  using Encode_single_dynamic [of acks_field "VList (map VBytes acks)"] encodeABIBytesArray_generic [of acks]
  by (simp add: acks_preimage_def abi_bytes_def acks_field_def)

lemma length_Keccak [simp]: "length (Keccak kc b) = 32"
  by (simp add: Keccak_def Let_def)

lemma Keccak_digest: "digest32 kc \<Longrightarrow> Keccak kc b = kc b"
  by (simp add: Keccak_def Let_def digest32_def list_eq_iff_nth_eq)

lemma CommitPackets_total: "CommitPackets kc ps = Inr (Keccak kc (packets_preimage ps))"
  using encodeABIPacketArray_total [of ps] packets_preimage_eq [of ps] by (auto simp: CommitPackets_def)

lemma CommitAcks_preimage: "CommitAcks kc acks = mergeAck (Keccak kc (acks_preimage acks))"
  by (simp add: CommitAcks_def acks_preimage_eq)

lemma slot_inject [simp]: "slot a = slot b \<longleftrightarrow> a = b"
  by (simp add: slot_def)

lemma length_slot [simp]: "length (slot n) = 32"
  by (simp add: slot_def)

lemmas slot_defs = CLIENT_STATE_def CONSENSUS_STATE_def CONNECTIONS_def CHANNELS_def PACKETS_def
  PACKET_ACKS_def MEMBERSHIP_PROOF_def NON_MEMBERSHIP_PROOF_def

lemma path_preimage_inject [simp]: "path_preimage j = path_preimage k \<longleftrightarrow> j = k"
  by (cases j; cases k) (simp_all add: slot_defs)

lemma packet_value_inject:
  "TimeoutHeight p = TimeoutHeight q \<Longrightarrow> packet_value p = packet_value q \<longleftrightarrow> p = q"
  by (cases p; cases q) (auto simp: packet_value_def)

text \<open>A packet batch or an acknowledgement batch that fits the ABI's 64-bit offsets.\<close>

lemma packets_valid:
  "length (packets_preimage ps) < 2 ^ 64 \<Longrightarrow> abi_valid [packets_field] [VList (map packet_value ps)]"
  using packets_typed [of ps]
  by (simp add: abi_valid_def packets_preimage_def packets_field_def packet_schema_def maxAbiDepth_def
      del: have_types.simps has_type.simps)

lemma acks_valid:
  "length (acks_preimage acks) < 2 ^ 64 \<Longrightarrow> abi_valid [acks_field] [VList (map VBytes acks)]"
  using acks_typed [of acks]
  by (simp add: abi_valid_def acks_preimage_def acks_field_def maxAbiDepth_def
      del: have_types.simps has_type.simps)

lemma map_packet_value_inject:
  assumes "\<forall>p\<in>set ps \<union> set qs. TimeoutHeight p = 0" and "map packet_value ps = map packet_value qs"
  shows "ps = qs"
proof (rule list_eq_iff_nth_eq [THEN iffD2], intro conjI allI impI)
  show len: "length ps = length qs" using assms(2) by (metis length_map)
  fix i assume i: "i < length ps"
  then have "packet_value (ps ! i) = packet_value (qs ! i)" using assms(2) len by (metis nth_map)
  moreover have "TimeoutHeight (ps ! i) = 0" "TimeoutHeight (qs ! i) = 0" using assms(1) i len by auto
  ultimately show "ps ! i = qs ! i" using packet_value_inject by metis
qed

lemma packets_preimage_inject:
  assumes "length (packets_preimage ps) < 2 ^ 64" and "\<forall>p\<in>set ps \<union> set qs. TimeoutHeight p = 0"
    and "packets_preimage ps = packets_preimage qs"
  shows "ps = qs"
proof -
  have "length (packets_preimage qs) < 2 ^ 64" using assms(1,3) by simp
  with assms(1,3) have "[VList (map packet_value ps)] = [VList (map packet_value qs)]"
    using abi.enc_inj [OF packets_valid packets_valid] by (auto simp: packets_preimage_def)
  then show ?thesis using map_packet_value_inject [OF assms(2)] by simp
qed

lemma acks_preimage_inject:
  assumes "length (acks_preimage as) < 2 ^ 64" and "acks_preimage as = acks_preimage bs"
  shows "as = bs"
proof -
  have "length (acks_preimage bs) < 2 ^ 64" using assms by simp
  with assms have "[VList (map VBytes as)] = [VList (map VBytes bs)]"
    using abi.enc_inj [OF acks_valid acks_valid] by (auto simp: acks_preimage_def)
  then have "map VBytes as = map VBytes bs" by simp
  then show ?thesis by (rule map_injective) (simp add: inj_def)
qed

lemma path_at_inject:
  assumes "digest32 kc" and "inj_on kc {path_preimage j, path_preimage k}"
  shows "path_at kc j = path_at kc k \<longleftrightarrow> j = k"
  using assms by (auto simp: path_at_def Keccak_digest inj_on_def)

lemma path_at_simps:
  "ClientStatePath kc c = path_at kc (KClientState c)"
  "ConsensusStatePath kc c h = path_at kc (KConsensusState c (RevisionHeight h))"
  "ConnectionPath kc cn = path_at kc (KConnection cn)"
  "ChannelPath kc ch = path_at kc (KChannel ch)"
  "BatchPacketsPath kc b = path_at kc (KPackets b)"
  "BatchReceiptsPath kc b = path_at kc (KReceipts b)"
  "MembershipProofPath kc c n p = path_at kc (KMembership c n p)"
  "NonMembershipProofPath kc c n p = path_at kc (KNonMembership c n p)"
  by (simp_all add: path_at_def ClientStatePath_def ConsensusStatePath_def ConnectionPath_def
      ChannelPath_def BatchPacketsPath_def BatchReceiptsPath_def MembershipProofPath_def
      NonMembershipProofPath_def)

section \<open>Properties\<close>

lemma sample_digest32: "digest32 (sample_digest x)"
  by (simp add: digest32_def sample_digest_def)

lemma sample_digest_inj: "inj_on (sample_digest x) {x, y}"
  by (auto simp: inj_on_def sample_digest_def)

lemma sample_digest_tl_inj: "inj_on (\<lambda>b. tl (sample_digest x b)) {x, y}"
  by (auto simp: inj_on_def sample_digest_def)

text \<open>C33: the hand-written batch encoder writes exactly what the generic ABI encoder writes for
  a \<open>Packet[]\<close> argument, and never fails: the commitment of a batch is the hash of its ABI encoding.\<close>

theorem CommitPackets_abi:
  "\<exists>bz. Encode [packets_field] [VList (map packet_value ps)] = Inr bz \<and> CommitPackets kc ps = Inr (Keccak kc bz)"
  using Encode_abi_bytes [OF _ packets_typed] by (simp add: CommitPackets_total packets_preimage_def)

text \<open>C32: a batch commitment binds its packets: as long as keccak256 does not collide on the two
  encodings, equal commitments are commitments of the same packets in the same order.\<close>

theorem CommitPackets_binding:
  assumes "digest32 kc" and "inj_on kc {packets_preimage ps, packets_preimage qs}"
    and "length (packets_preimage ps) < 2 ^ 64" and "\<forall>p\<in>set ps \<union> set qs. TimeoutHeight p = 0"
    and "CommitPackets kc ps = CommitPackets kc qs"
  shows "ps = qs"
proof (rule packets_preimage_inject [OF assms(3,4)])
  have "kc (packets_preimage ps) = kc (packets_preimage qs)"
    using assms(5) by (simp add: CommitPackets_total Keccak_digest [OF assms(1)])
  then show "packets_preimage ps = packets_preimage qs" by (rule inj_onD [OF assms(2)]) simp_all
qed

theorem CommitPackets_binding_witness:
  "CommitPackets (sample_digest (packets_preimage [NewPacket 1 2 [7] 9])) [NewPacket 1 2 [7] 9] \<noteq>
   CommitPackets (sample_digest (packets_preimage [NewPacket 1 2 [7] 9])) [NewPacket 1 2 [8] 9]"
proof
  have len: "length (packets_preimage [NewPacket 1 2 [7] 9]) < 2 ^ 64"
    by (simp add: packets_preimage_def abi_bytes_def Encode_def packets_field_def packet_schema_def
        packet_value_def NewPacket_def wordSize_def encodeBytes_def Let_def)
  assume "CommitPackets (sample_digest (packets_preimage [NewPacket 1 2 [7] 9])) [NewPacket 1 2 [7] 9] =
   CommitPackets (sample_digest (packets_preimage [NewPacket 1 2 [7] 9])) [NewPacket 1 2 [8] 9]"
  from CommitPackets_binding [OF sample_digest32 sample_digest_inj len _ this]
  show False by (simp add: NewPacket_def)
qed

text \<open>The commitment of acknowledgements starts with the magic byte 1, so it is neither the
  zero value of an absent entry nor the acknowledged marker, and it binds the acknowledgements as
  long as the digests of the two encodings differ beyond their first byte.\<close>

theorem CommitAcks_binding:
  "CommitAcks kc as ! 0 = 1 \<and> CommitAcks kc as \<noteq> COMMITMENT_MAGIC_ACK \<and> CommitAcks kc as \<noteq> replicate 32 0 \<and>
   (digest32 kc \<and> inj_on (\<lambda>b. tl (kc b)) {acks_preimage as, acks_preimage bs} \<and>
      length (acks_preimage as) < 2 ^ 64 \<and> CommitAcks kc as = CommitAcks kc bs \<longrightarrow> as = bs)"
proof (intro conjI impI)
  show first: "CommitAcks kc as ! 0 = 1" by (simp add: CommitAcks_def mergeAck_def COMMITMENT_MAGIC_def)
  show "CommitAcks kc as \<noteq> COMMITMENT_MAGIC_ACK" "CommitAcks kc as \<noteq> replicate 32 0"
    using first by (auto simp: COMMITMENT_MAGIC_ACK_def)
  assume a: "digest32 kc \<and> inj_on (\<lambda>b. tl (kc b)) {acks_preimage as, acks_preimage bs} \<and>
      length (acks_preimage as) < 2 ^ 64 \<and> CommitAcks kc as = CommitAcks kc bs"
  have tl: "tl (CommitAcks kc xs) = tl (kc (acks_preimage xs))" for xs
  proof (cases "kc (acks_preimage xs)")
    case Nil
    then show ?thesis using a by (metis digest32_def list.size(3) zero_neq_numeral)
  next
    case (Cons b bs)
    then show ?thesis using a by (simp add: CommitAcks_preimage mergeAck_def Keccak_digest)
  qed
  then have "tl (kc (acks_preimage as)) = tl (kc (acks_preimage bs))" using a by metis
  then have "acks_preimage as = acks_preimage bs"
    using a inj_onD [of "\<lambda>b. tl (kc b)" "{acks_preimage as, acks_preimage bs}"] by blast
  then show "as = bs" using a acks_preimage_inject by blast
qed

theorem CommitAcks_binding_witness:
  "CommitAcks (sample_digest (acks_preimage [[1]])) [[1]] \<noteq> CommitAcks (sample_digest (acks_preimage [[1]])) [[2]]"
proof -
  have "length (acks_preimage [[1]]) < 2 ^ 64"
    by (simp add: acks_preimage_def abi_bytes_def Encode_def acks_field_def wordSize_def encodeBytes_def Let_def)
  moreover have "[[1 :: byte]] \<noteq> [[2]]" by simp
  ultimately show ?thesis
    using CommitAcks_binding [of "sample_digest (acks_preimage [[1]])" "[[1]]" "[[2]]"]
      sample_digest32 sample_digest_tl_inj by blast
qed

text \<open>The eight path functions hash strings of disjoint namespaces, each determined by its
  arguments: on any set of entries on whose strings keccak256 does not collide, different entries
  (of the same kind or of different kinds) have different paths.\<close>

theorem path_namespaces:
  assumes "digest32 kc" and "inj_on kc (path_preimage ` S)"
  shows "inj_on (path_at kc) S \<and>
    ClientStatePath kc c = path_at kc (KClientState c) \<and>
    ConsensusStatePath kc c h = path_at kc (KConsensusState c (RevisionHeight h)) \<and>
    ConnectionPath kc cn = path_at kc (KConnection cn) \<and> ChannelPath kc ch = path_at kc (KChannel ch) \<and>
    BatchPacketsPath kc b = path_at kc (KPackets b) \<and> BatchReceiptsPath kc b = path_at kc (KReceipts b) \<and>
    MembershipProofPath kc c n p = path_at kc (KMembership c n p) \<and>
    NonMembershipProofPath kc c n p = path_at kc (KNonMembership c n p)"
proof -
  have "inj_on (path_at kc) S"
  proof (rule inj_onI)
    fix j k assume "j \<in> S" "k \<in> S" "path_at kc j = path_at kc k"
    then have "kc (path_preimage j) = kc (path_preimage k)" "path_preimage j \<in> path_preimage ` S"
      "path_preimage k \<in> path_preimage ` S"
      by (simp_all add: path_at_def Keccak_digest [OF assms(1)])
    then have "path_preimage j = path_preimage k" by (rule inj_onD [OF assms(2)])
    then show "j = k" by simp
  qed
  then show ?thesis by (simp add: path_at_simps)
qed

theorem path_namespaces_witness:
  "BatchPacketsPath (sample_digest (path_preimage (KPackets []))) [] \<noteq>
   BatchReceiptsPath (sample_digest (path_preimage (KPackets []))) []"
proof -
  have "inj_on (sample_digest (path_preimage (KPackets []))) (path_preimage ` {KPackets [], KReceipts []})"
    using sample_digest_inj by simp
  from path_namespaces [OF sample_digest32 this] show ?thesis by auto
qed

end
