(* ===== verification/CometCodec.thy ===== *)
theory CometCodec
  imports IbcTypes
begin

text \<open>
  The wire formats of the CometBLS light client (\<^verbatim>\<open>lightclient/cometbls/codec.gno\<close> and the header part
  of \<^verbatim>\<open>encoding.gno\<close>): client state, consensus state and header as ABI tuples. A signed Go integer
  is a word read with \<open>sint\<close>; a pointer is an option.
\<close>

section \<open>Data (client_state.gno, consensus_state.gno, header.gno)\<close>

record ClientState =
  cs_ChainID :: string
  cs_TrustingPeriod :: u64
  cs_MaxClockDrift :: u64
  cs_FrozenHeight :: Height
  cs_LatestHeight :: Height
  cs_ContractAddress :: H256

record ConsensusState =
  cns_Timestamp :: u64
  cns_Root :: bytes
  cns_NextValidatorsHash :: bytes

record LightHeader =
  lh_Height :: "64 word"
  lh_TimeSeconds :: "64 word"
  lh_TimeNanos :: "32 word"
  lh_ValidatorsHash :: bytes
  lh_NextValidatorsHash :: bytes
  lh_AppHash :: bytes

record Header =
  hd_SignedHeader :: "LightHeader option"
  hd_TrustedHeight :: "Height option"
  hd_ZeroKnowledgeProof :: bytes

text \<open>The errors the codecs return; \<open>TypeAssertion\<close> is the panic of a failed \<^verbatim>\<open>v.(T)\<close>.\<close>

datatype comet_error = AbiError abi_error | CometMessage string | TypeAssertion

section \<open>Codecs\<close>

definition clientStateSchema :: "field list" where
  "clientStateSchema = [plain TypeBytes32, plain TypeUint64, plain TypeUint64, plain TypeUint64, plain TypeUint64,
     plain TypeBytes32]"

definition consensusStateSchema :: "field list" where
  "consensusStateSchema = [plain TypeUint64, plain TypeBytes32, plain TypeBytes32]"

definition headerSchema :: "field list" where
  "headerSchema = [plain TypeUint64, plain TypeUint64, plain TypeUint64, plain TypeBytes32, plain TypeBytes32,
     plain TypeBytes32, plain TypeUint64, plain TypeBytes]"

definition maxTimeNanos :: u64 where
  "maxTimeNanos = 1000000000"

text \<open>Go's \<^verbatim>\<open>copy\<close> into a fresh array of 32 bytes.\<close>

definition copy32 :: "bytes \<Rightarrow> bytes" where
  "copy32 src = take 32 src @ replicate (32 - length src) 0"

definition toBytes32 :: "bytes \<Rightarrow> comet_error + bytes" where
  "toBytes32 b = (if length b \<noteq> 32 then Inl (CometMessage ''must be 32 bytes'') else Inr (copy32 b))"

definition abiResult :: "abi_error + 'a \<Rightarrow> comet_error + 'a" where
  "abiResult r = (case r of Inl e \<Rightarrow> Inl (AbiError e) | Inr x \<Rightarrow> Inr x)"

definition EncodeClientState :: "ClientState \<Rightarrow> comet_error + bytes" where
  "EncodeClientState m =
     (let chainBytes = bytes_of_string (cs_ChainID m);
          chainBytes = (if length chainBytes > 31 then take 31 chainBytes else chainBytes)
      in abiResult (Encode clientStateSchema
           [VBytes32 (copy32 chainBytes), VUint64 (cs_TrustingPeriod m), VUint64 (cs_MaxClockDrift m),
            VUint64 (RevisionHeight (cs_FrozenHeight m)), VUint64 (RevisionHeight (cs_LatestHeight m)),
            VBytes32 (cs_ContractAddress m)]))"

definition trimNullBytes :: "bytes \<Rightarrow> string" where
  "trimNullBytes b = string_of_bytes (rev (dropWhile (\<lambda>x. x = 0) (rev b)))"

definition DecodeClientState :: "bytes \<Rightarrow> comet_error + ClientState" where
  "DecodeClientState buf =
     (case Decode clientStateSchema buf of
        Inl e \<Rightarrow> Inl (AbiError e)
      | Inr [VBytes32 chainIdWord, VUint64 trustingPeriod, VUint64 maxClockDrift, VUint64 frozen, VUint64 latest,
             VBytes32 contractAddress] \<Rightarrow>
          Inr \<lparr>cs_ChainID = trimNullBytes chainIdWord, cs_TrustingPeriod = trustingPeriod,
               cs_MaxClockDrift = maxClockDrift, cs_FrozenHeight = NewHeight frozen,
               cs_LatestHeight = NewHeight latest, cs_ContractAddress = contractAddress\<rparr>
      | Inr _ \<Rightarrow> Inl TypeAssertion)"

definition EncodeConsensusState :: "ConsensusState \<Rightarrow> comet_error + bytes" where
  "EncodeConsensusState cs =
     (case toBytes32 (cns_Root cs) of
        Inl e \<Rightarrow> Inl e
      | Inr appHash \<Rightarrow>
          (case toBytes32 (cns_NextValidatorsHash cs) of
             Inl e \<Rightarrow> Inl e
           | Inr validatorsHash \<Rightarrow>
               abiResult (Encode consensusStateSchema
                 [VUint64 (cns_Timestamp cs), VBytes32 appHash, VBytes32 validatorsHash])))"

definition DecodeConsensusState :: "bytes \<Rightarrow> comet_error + ConsensusState" where
  "DecodeConsensusState buf =
     (case Decode consensusStateSchema buf of
        Inl e \<Rightarrow> Inl (AbiError e)
      | Inr [VUint64 timestamp, VBytes32 rootHash, VBytes32 nextValidatorsHash] \<Rightarrow>
          Inr \<lparr>cns_Timestamp = timestamp, cns_Root = rootHash, cns_NextValidatorsHash = nextValidatorsHash\<rparr>
      | Inr _ \<Rightarrow> Inl TypeAssertion)"

definition EncodeHeader :: "Header option \<Rightarrow> comet_error + bytes" where
  "EncodeHeader header =
     (case header of
        None \<Rightarrow> Inl (CometMessage ''nil header'')
      | Some h \<Rightarrow>
          (case hd_SignedHeader h of
             None \<Rightarrow> Inl (CometMessage ''nil header'')
           | Some lh \<Rightarrow>
               (case toBytes32 (lh_ValidatorsHash lh) of
                  Inl e \<Rightarrow> Inl e
                | Inr vh \<Rightarrow>
                    (case toBytes32 (lh_NextValidatorsHash lh) of
                       Inl e \<Rightarrow> Inl e
                     | Inr nvh \<Rightarrow>
                         (case toBytes32 (lh_AppHash lh) of
                            Inl e \<Rightarrow> Inl e
                          | Inr ah \<Rightarrow>
                              (let trustedHeight =
                                 (case hd_TrustedHeight h of None \<Rightarrow> 0 | Some th \<Rightarrow> RevisionHeight th)
                               in abiResult (Encode headerSchema
                                    [VUint64 (lh_Height lh), VUint64 (lh_TimeSeconds lh),
                                     VUint64 (scast (lh_TimeNanos lh)), VBytes32 vh, VBytes32 nvh, VBytes32 ah,
                                     VUint64 trustedHeight, VBytes (hd_ZeroKnowledgeProof h)])))))))"

definition DecodeHeader :: "bytes \<Rightarrow> comet_error + Header" where
  "DecodeHeader buf =
     (case Decode headerSchema buf of
        Inl e \<Rightarrow> Inl (AbiError e)
      | Inr [VUint64 height, VUint64 timeSeconds, VUint64 timeNanos, VBytes32 vh, VBytes32 nvh, VBytes32 ah,
             VUint64 trusted, VBytes zkp] \<Rightarrow>
          if timeNanos \<ge> maxTimeNanos then Inl (CometMessage ''TimeNanos out of range'')
          else Inr \<lparr>hd_SignedHeader = Some \<lparr>lh_Height = height, lh_TimeSeconds = timeSeconds,
                      lh_TimeNanos = ucast timeNanos, lh_ValidatorsHash = vh, lh_NextValidatorsHash = nvh,
                      lh_AppHash = ah\<rparr>,
                    hd_TrustedHeight = Some (NewHeight trusted), hd_ZeroKnowledgeProof = zkp\<rparr>
      | Inr _ \<Rightarrow> Inl TypeAssertion)"

section \<open>What the codecs write\<close>

lemma length_copy32 [simp]: "length (copy32 b) = 32"
  by (simp add: copy32_def)

lemma copy32_id [simp]: "length b = 32 \<Longrightarrow> copy32 b = b"
  by (simp add: copy32_def)

lemma encodeBytes_head: "32 \<le> length (encodeBytes b)"
  by (simp add: encodeBytes_def Let_def)

text \<open>The encodings as plain concatenations; \<open>Encode\<close> runs without an error on all three schemas.\<close>

lemma Encode_client_state:
  "Encode clientStateSchema [VBytes32 c, VUint64 t, VUint64 d, VUint64 f, VUint64 l, VBytes32 a] =
     Inr (c @ encodeUint64Word t @ encodeUint64Word d @ encodeUint64Word f @ encodeUint64Word l @ a)"
  by (simp add: clientStateSchema_def Encode_def wordSize_def)

lemma Encode_consensus_state:
  "Encode consensusStateSchema [VUint64 t, VBytes32 r, VBytes32 v] = Inr (encodeUint64Word t @ r @ v)"
  by (simp add: consensusStateSchema_def Encode_def wordSize_def)

lemma Encode_header:
  "Encode headerSchema [VUint64 h, VUint64 s, VUint64 n, VBytes32 v, VBytes32 w, VBytes32 a, VUint64 t, VBytes z] =
     Inr (encodeUint64Word h @ encodeUint64Word s @ encodeUint64Word n @ v @ w @ a @ encodeUint64Word t @
          encodeUint64Word 256 @ encodeBytes z)"
  by (simp add: headerSchema_def Encode_def wordSize_def)

section \<open>What the codecs read back\<close>

text \<open>Values the formats can carry: 32-byte hashes, heights of revision zero, a chain id of at
  most 31 bytes that does not end in a zero byte.\<close>

definition plain_height :: "Height \<Rightarrow> bool" where
  "plain_height h \<longleftrightarrow> NewHeight (RevisionHeight h) = h"

definition client_state_ok :: "ClientState \<Rightarrow> bool" where
  "client_state_ok cs \<longleftrightarrow>
     length (cs_ChainID cs) \<le> 31 \<and> (cs_ChainID cs \<noteq> [] \<longrightarrow> last (cs_ChainID cs) \<noteq> CHR 0x00) \<and>
     plain_height (cs_FrozenHeight cs) \<and> plain_height (cs_LatestHeight cs) \<and> length (cs_ContractAddress cs) = 32"

definition consensus_state_ok :: "ConsensusState \<Rightarrow> bool" where
  "consensus_state_ok cs \<longleftrightarrow> length (cns_Root cs) = 32 \<and> length (cns_NextValidatorsHash cs) = 32"

definition header_ok :: "Header \<Rightarrow> bool" where
  "header_ok h \<longleftrightarrow>
     (case (hd_SignedHeader h, hd_TrustedHeight h) of
        (Some lh, Some th) \<Rightarrow>
          length (lh_ValidatorsHash lh) = 32 \<and> length (lh_NextValidatorsHash lh) = 32 \<and>
          length (lh_AppHash lh) = 32 \<and> lh_TimeNanos lh < 1000000000 \<and> plain_height th \<and>
          length (hd_ZeroKnowledgeProof h) < 2 ^ 63
      | _ \<Rightarrow> False)"

lemma Decode_Encode_aligned:
  assumes "Encode fs vs = Inr out" "list_all wf_field fs" "fields_depth fs < maxAbiDepth" "have_types vs fs"
    and "length out < 2 ^ 64"
  shows "Decode fs out = Inr vs"
proof -
  have "abi_bytes fs vs = out" using assms(1) by (simp add: abi_bytes_def)
  then show ?thesis using abi.dec_enc [of fs vs] assms by (simp add: abi_valid_def)
qed

lemma dropWhile_zeros: "dropWhile (\<lambda>x. x = 0) (replicate n 0 @ xs) = dropWhile (\<lambda>x. x = (0 :: byte)) xs"
  by (induction n) auto

lemma of_char_zero: "(of_char c :: byte) = 0 \<longleftrightarrow> c = CHR 0x00"
proof -
  have "(of_char c :: byte) = 0 \<longleftrightarrow> unat (of_char c :: byte) = 0"
    by (simp add: word_unat_eq_iff)
  also have "\<dots> \<longleftrightarrow> c = CHR 0x00"
    using of_char_eq_iff [of c "CHR 0x00", where 'a = nat] by simp
  finally show ?thesis .
qed

lemma trimNullBytes_copy32:
  assumes "length s \<le> 31" and "s \<noteq> [] \<longrightarrow> last s \<noteq> CHR 0x00"
  shows "trimNullBytes (copy32 (bytes_of_string s)) = s"
proof -
  have "dropWhile (\<lambda>x. x = 0) (rev (bytes_of_string s)) = rev (bytes_of_string s)"
    using assms(2) by (cases s rule: rev_cases) (auto simp: bytes_of_string_def of_char_zero)
  then show ?thesis
    using assms(1) by (simp add: trimNullBytes_def copy32_def dropWhile_zeros)
qed

lemma state_roundtrip:
  assumes "client_state_ok cs" and "consensus_state_ok cns"
  shows "\<exists>b d. EncodeClientState cs = Inr b \<and> DecodeClientState b = Inr cs \<and>
     EncodeConsensusState cns = Inr d \<and> DecodeConsensusState d = Inr cns"
proof -
  let ?c = "copy32 (bytes_of_string (cs_ChainID cs))"
  let ?vs = "[VBytes32 ?c, VUint64 (cs_TrustingPeriod cs), VUint64 (cs_MaxClockDrift cs),
     VUint64 (RevisionHeight (cs_FrozenHeight cs)), VUint64 (RevisionHeight (cs_LatestHeight cs)),
     VBytes32 (cs_ContractAddress cs)]"
  obtain b where b: "Encode clientStateSchema ?vs = Inr b" "length b = 192"
    using assms by (auto simp: Encode_client_state client_state_ok_def)
  have db: "Decode clientStateSchema b = Inr ?vs"
    using assms b by (intro Decode_Encode_aligned) (simp_all add: clientStateSchema_def maxAbiDepth_def client_state_ok_def)
  let ?ws = "[VUint64 (cns_Timestamp cns), VBytes32 (cns_Root cns), VBytes32 (cns_NextValidatorsHash cns)]"
  obtain d where d: "Encode consensusStateSchema ?ws = Inr d" "length d = 96"
    using assms by (auto simp: Encode_consensus_state consensus_state_ok_def)
  have dd: "Decode consensusStateSchema d = Inr ?ws"
    using assms d by (intro Decode_Encode_aligned) (simp_all add: consensusStateSchema_def maxAbiDepth_def consensus_state_ok_def)
  have "EncodeClientState cs = Inr b"
    using assms b by (simp add: EncodeClientState_def client_state_ok_def abiResult_def)
  moreover have "DecodeClientState b = Inr cs"
    using assms db by (simp add: DecodeClientState_def client_state_ok_def plain_height_def trimNullBytes_copy32)
  moreover have "EncodeConsensusState cns = Inr d"
    using assms d by (simp add: EncodeConsensusState_def consensus_state_ok_def toBytes32_def abiResult_def)
  moreover have "DecodeConsensusState d = Inr cns"
    using dd by (simp add: DecodeConsensusState_def)
  ultimately show ?thesis by blast
qed

text \<open>The client state and the consensus state the light client stores are read back as they
  were written.\<close>

theorem comet_state_roundtrip:
  assumes "client_state_ok cs" and "consensus_state_ok cns"
  shows "\<exists>b d. EncodeClientState cs = Inr b \<and> DecodeClientState b = Inr cs \<and>
     EncodeConsensusState cns = Inr d \<and> DecodeConsensusState d = Inr cns"
  using assms by (rule state_roundtrip)

definition sample_client_state :: ClientState where
  "sample_client_state = \<lparr>cs_ChainID = ''union-devnet-1337'', cs_TrustingPeriod = 5, cs_MaxClockDrift = 1,
     cs_FrozenHeight = NewHeight 0, cs_LatestHeight = NewHeight 7, cs_ContractAddress = replicate 32 9\<rparr>"

definition sample_consensus_state :: ConsensusState where
  "sample_consensus_state = \<lparr>cns_Timestamp = 3, cns_Root = replicate 32 1, cns_NextValidatorsHash = replicate 32 2\<rparr>"

theorem comet_state_roundtrip_witness:
  "\<exists>b d. EncodeClientState sample_client_state = Inr b \<and> DecodeClientState b = Inr sample_client_state \<and>
     EncodeConsensusState sample_consensus_state = Inr d \<and> DecodeConsensusState d = Inr sample_consensus_state"
  by (rule comet_state_roundtrip)
    (simp_all add: sample_client_state_def sample_consensus_state_def client_state_ok_def consensus_state_ok_def
      plain_height_def NewHeight_def)

lemma nanos_cast:
  assumes "n < (1000000000 :: 32 word)"
  shows "\<not> maxTimeNanos \<le> scast n" and "(ucast (scast n :: u64) :: 32 word) = n"
proof -
  have u: "uint n < 1000000000" using assms by (simp add: word_less_def)
  have "signed_take_bit 31 (uint n) = uint n"
    using u order_trans [OF _ uint_ge_0 [of n]] by (intro signed_take_bit_int_eq_self) simp_all
  then have "sint n = uint n" by (simp add: sint_uint)
  then have s: "(scast n :: u64) = ucast n"
    unfolding scast_eq ucast_eq by (rule arg_cong)
  have "uint (ucast n :: u64) = uint n" by (simp add: uint_up_ucast is_up)
  then show "\<not> maxTimeNanos \<le> scast n"
    using u by (simp add: s maxTimeNanos_def word_le_def)
  show "(ucast (scast n :: u64) :: 32 word) = n"
    unfolding s by (rule bit_word_eqI) (simp add: bit_simps)
qed

lemma header_roundtrip:
  assumes "header_ok h"
  shows "\<exists>b. EncodeHeader (Some h) = Inr b \<and> DecodeHeader b = Inr h"
proof -
  obtain lh th where h: "hd_SignedHeader h = Some lh" "hd_TrustedHeight h = Some th"
    using assms by (auto simp: header_ok_def split: option.splits)
  let ?vs = "[VUint64 (lh_Height lh), VUint64 (lh_TimeSeconds lh), VUint64 (scast (lh_TimeNanos lh)),
     VBytes32 (lh_ValidatorsHash lh), VBytes32 (lh_NextValidatorsHash lh), VBytes32 (lh_AppHash lh),
     VUint64 (RevisionHeight th), VBytes (hd_ZeroKnowledgeProof h)]"
  have ok: "length (lh_ValidatorsHash lh) = 32" "length (lh_NextValidatorsHash lh) = 32"
    "length (lh_AppHash lh) = 32" "lh_TimeNanos lh < 1000000000" "NewHeight (RevisionHeight th) = th"
    "length (hd_ZeroKnowledgeProof h) < 2 ^ 63"
    using assms h by (simp_all add: header_ok_def plain_height_def)
  obtain b where b: "Encode headerSchema ?vs = Inr b" "length b \<le> 320 + length (hd_ZeroKnowledgeProof h)"
    using ok by (auto simp: Encode_header encodeBytes_def Let_def wordSize_def)
  have db: "Decode headerSchema b = Inr ?vs"
    using ok b by (intro Decode_Encode_aligned) (simp_all add: headerSchema_def maxAbiDepth_def)
  have "EncodeHeader (Some h) = Inr b"
    using h ok b by (simp add: EncodeHeader_def toBytes32_def abiResult_def)
  moreover have "DecodeHeader b = Inr h"
    using h ok db by (cases h; cases lh) (simp add: DecodeHeader_def nanos_cast)
  ultimately show ?thesis by blast
qed

text \<open>A well-formed header survives the wire.\<close>

theorem comet_header_roundtrip:
  assumes "header_ok h"
  shows "\<exists>b. EncodeHeader (Some h) = Inr b \<and> DecodeHeader b = Inr h"
  using assms by (rule header_roundtrip)

definition sample_header :: Header where
  "sample_header = \<lparr>hd_SignedHeader = Some \<lparr>lh_Height = 10, lh_TimeSeconds = 1732205251, lh_TimeNanos = 998131342,
     lh_ValidatorsHash = replicate 32 1, lh_NextValidatorsHash = replicate 32 2, lh_AppHash = replicate 32 3\<rparr>,
     hd_TrustedHeight = Some (NewHeight 9), hd_ZeroKnowledgeProof = [1, 2, 3]\<rparr>"

theorem comet_header_roundtrip_witness:
  "\<exists>b. EncodeHeader (Some sample_header) = Inr b \<and> DecodeHeader b = Inr sample_header"
  by (rule comet_header_roundtrip) (simp add: sample_header_def header_ok_def plain_height_def NewHeight_def)

lemma Decode_types: "Decode fs data = Inr vs \<Longrightarrow> have_types vs fs"
  using decoded_types(1) [of data fs 0 "length data" 0 vs] by (simp add: Decode_def split: if_splits)

lemma have_types_Cons: "have_types vs (f # fs) \<longleftrightarrow> (\<exists>v ws. vs = v # ws \<and> has_type v f \<and> have_types ws fs)"
  by (cases vs) auto

lemma have_types_Nil: "have_types vs [] \<longleftrightarrow> vs = []"
  by (cases vs) auto

lemma has_type_plain:
  "has_type v (plain TypeUint64) \<longleftrightarrow> (\<exists>w. v = VUint64 w)"
  "has_type v (plain TypeBytes32) \<longleftrightarrow> (\<exists>b. v = VBytes32 b \<and> length b = 32)"
  "has_type v (plain TypeBytes) \<longleftrightarrow> (\<exists>b. v = VBytes b)"
  by (cases v; simp)+

lemmas typed_shape = have_types_Cons have_types_Nil has_type_plain

text \<open>Whatever bytes they are given, the three decoders return an error or a value: the type
  assertions on the decoded fields cannot fail.\<close>

theorem comet_decode_no_panic:
  "DecodeClientState b \<noteq> Inl TypeAssertion \<and> DecodeConsensusState b \<noteq> Inl TypeAssertion \<and>
   DecodeHeader b \<noteq> Inl TypeAssertion"
proof -
  have "DecodeClientState b \<noteq> Inl TypeAssertion"
    by (auto simp: DecodeClientState_def clientStateSchema_def typed_shape split: sum.split
      dest!: Decode_types simp del: has_type.simps have_types.simps)
  moreover have "DecodeConsensusState b \<noteq> Inl TypeAssertion"
    by (auto simp: DecodeConsensusState_def consensusStateSchema_def typed_shape split: sum.split
      dest!: Decode_types simp del: has_type.simps have_types.simps)
  moreover have "DecodeHeader b \<noteq> Inl TypeAssertion"
    by (auto simp: DecodeHeader_def headerSchema_def typed_shape split: sum.split if_splits
      dest!: Decode_types simp del: has_type.simps have_types.simps)
  ultimately show ?thesis by blast
qed

end
