(* ===== verification/EvmStorage.thy ===== *)
theory EvmStorage
  imports Mpt CometCodec
begin

text \<open>
  The EVM storage proof verifier (\<^verbatim>\<open>verifier/evm/storage\<close>): 32-byte words under a storage trie, keyed
  by the hash of their slot, and the bincode form of a storage proof. Keccak-256 is the parameter
  \<open>K\<close>. As in \<^verbatim>\<open>Mpt\<close>, \<open>None\<close> is a walk that does not end.
\<close>

section \<open>Verification (storage.gno)\<close>

datatype storage_error = ErrInvalidRootLength | ErrInvalidKeyLength | ErrInvalidPathLength | ErrInvalidValueLength
  | ErrStorageValueMismatch | ErrMpt mpt_error | ErrInvalidProofBytes | ErrTrailingProofBytes

record Proof =
  sp_Key :: bytes
  sp_Value :: bytes
  sp_Proof :: "bytes list"

definition validateWord :: "bytes \<Rightarrow> storage_error \<Rightarrow> storage_error + unit" where
  "validateWord word err = (if length word \<noteq> 32 then Inl err else Inr ())"

definition trimLeadingZeroes :: "bytes \<Rightarrow> bytes" where
  "trimLeadingZeroes word = dropWhile (\<lambda>b. b = 0) word"

definition encodeStorageValue :: "bytes \<Rightarrow> bytes" where
  "encodeStorageValue word = EncodeBytes (trimLeadingZeroes word)"

definition mptResult :: "(mpt_error + unit) option \<Rightarrow> (storage_error + unit) option" where
  "mptResult r = map_option (\<lambda>r. case r of Inl e \<Rightarrow> Inl (ErrMpt e) | Inr u \<Rightarrow> Inr u) r"

definition VerifyProof :: "hash \<Rightarrow> bytes \<Rightarrow> Proof \<Rightarrow> (storage_error + unit) option" where
  "VerifyProof K storageRoot proof =
     (case validateWord storageRoot ErrInvalidRootLength of Inl e \<Rightarrow> Some (Inl e) | Inr _ \<Rightarrow>
     (case validateWord (sp_Key proof) ErrInvalidKeyLength of Inl e \<Rightarrow> Some (Inl e) | Inr _ \<Rightarrow>
     (case validateWord (sp_Value proof) ErrInvalidValueLength of Inl e \<Rightarrow> Some (Inl e) | Inr _ \<Rightarrow>
      mptResult (Mpt.Verify K storageRoot (K (sp_Key proof)) (encodeStorageValue (sp_Value proof)) (sp_Proof proof)))))"

definition VerifyAbsence :: "hash \<Rightarrow> bytes \<Rightarrow> Proof \<Rightarrow> (storage_error + unit) option" where
  "VerifyAbsence K storageRoot proof =
     (case validateWord storageRoot ErrInvalidRootLength of Inl e \<Rightarrow> Some (Inl e) | Inr _ \<Rightarrow>
     (case validateWord (sp_Key proof) ErrInvalidKeyLength of Inl e \<Rightarrow> Some (Inl e) | Inr _ \<Rightarrow>
      mptResult (Mpt.VerifyAbsence K storageRoot (K (sp_Key proof)) (sp_Proof proof))))"

definition CheckValue :: "Proof \<Rightarrow> bytes \<Rightarrow> storage_error + unit" where
  "CheckValue proof expected =
     (case validateWord (sp_Value proof) ErrInvalidValueLength of Inl e \<Rightarrow> Inl e | Inr _ \<Rightarrow>
     (case validateWord expected ErrInvalidValueLength of Inl e \<Rightarrow> Inl e | Inr _ \<Rightarrow>
      if sp_Value proof \<noteq> expected then Inl ErrStorageValueMismatch else Inr ()))"

definition StoragePath :: "hash \<Rightarrow> bytes \<Rightarrow> storage_error + bytes" where
  "StoragePath K key =
     (case validateWord key ErrInvalidKeyLength of Inl e \<Rightarrow> Inl e | Inr _ \<Rightarrow> Inr (K key))"

definition IBCCommitmentKey :: "hash \<Rightarrow> bytes \<Rightarrow> storage_error + bytes" where
  "IBCCommitmentKey K path =
     (case validateWord path ErrInvalidPathLength of Inl e \<Rightarrow> Inl e | Inr _ \<Rightarrow> Inr (K (path @ replicate 32 0)))"

definition EncodeStorageValue :: "bytes \<Rightarrow> storage_error + bytes" where
  "EncodeStorageValue word =
     (case validateWord word ErrInvalidValueLength of Inl e \<Rightarrow> Inl e | Inr _ \<Rightarrow> Inr (encodeStorageValue word))"

definition WordFromUint64 :: "u64 \<Rightarrow> bytes" where
  "WordFromUint64 v = replicate 24 0 @ PutUint64 v"

section \<open>Wire form (codec.gno)\<close>

definition appendUint64LE :: "bytes \<Rightarrow> u64 \<Rightarrow> bytes" where
  "appendUint64LE out v = out @ rev (PutUint64 v)"

definition reverse32 :: "bytes \<Rightarrow> bytes" where
  "reverse32 b = (let n = min (length b) 32 in take n (rev b) @ replicate (32 - n) 0)"

fun appendNodes :: "bytes \<Rightarrow> bytes list \<Rightarrow> bytes" where
  "appendNodes out [] = out"
| "appendNodes out (node # nodes) = appendNodes (appendUint64LE out (word_of_nat (length node)) @ node) nodes"

definition EncodeProof :: "Proof \<Rightarrow> bytes" where
  "EncodeProof proof =
     appendNodes (appendUint64LE (reverse32 (sp_Key proof) @ reverse32 (sp_Value proof))
       (word_of_nat (length (sp_Proof proof)))) (sp_Proof proof)"

text \<open>The decoder's methods take \<^verbatim>\<open>d.buf\<close> and \<^verbatim>\<open>d.pos\<close> and return the new position.\<close>

definition readU256 :: "bytes \<Rightarrow> nat \<Rightarrow> storage_error + bytes \<times> nat" where
  "readU256 buf pos =
     (if pos + 32 > length buf then Inl ErrInvalidProofBytes else Inr (rev (slice buf pos (pos + 32)), pos + 32))"

definition readUint64 :: "bytes \<Rightarrow> nat \<Rightarrow> storage_error + u64 \<times> nat" where
  "readUint64 buf pos =
     (if pos + 8 > length buf then Inl ErrInvalidProofBytes
      else Inr (BigEndianUint64 (rev (slice buf pos (pos + 8))), pos + 8))"

definition readBytes :: "bytes \<Rightarrow> nat \<Rightarrow> storage_error + bytes \<times> nat" where
  "readBytes buf pos =
     (case readUint64 buf pos of
        Inl e \<Rightarrow> Inl e
      | Inr (n, pos) \<Rightarrow>
          if unat n > length buf - pos then Inl ErrInvalidProofBytes
          else Inr (slice buf pos (pos + unat n), pos + unat n))"

fun readNodes :: "bytes \<Rightarrow> nat \<Rightarrow> nat \<Rightarrow> storage_error + bytes list \<times> nat" where
  "readNodes buf 0 pos = Inr ([], pos)"
| "readNodes buf (Suc k) pos =
     (case readBytes buf pos of
        Inl e \<Rightarrow> Inl e
      | Inr (node, pos) \<Rightarrow>
          (case readNodes buf k pos of Inl e \<Rightarrow> Inl e | Inr (nodes, pos) \<Rightarrow> Inr (node # nodes, pos)))"

definition DecodeProof :: "bytes \<Rightarrow> storage_error + Proof" where
  "DecodeProof buf =
     (case readU256 buf 0 of Inl e \<Rightarrow> Inl e | Inr (key, pos) \<Rightarrow>
     (case readU256 buf pos of Inl e \<Rightarrow> Inl e | Inr (val, pos) \<Rightarrow>
     (case readUint64 buf pos of Inl e \<Rightarrow> Inl e | Inr (count, pos) \<Rightarrow>
      if unat count > length buf then Inl ErrInvalidProofBytes
      else (case readNodes buf (unat count) pos of Inl e \<Rightarrow> Inl e | Inr (nodes, pos) \<Rightarrow>
            if pos \<noteq> length buf then Inl ErrTrailingProofBytes
            else Inr \<lparr>sp_Key = key, sp_Value = val, sp_Proof = nodes\<rparr>))))"

section \<open>The wire form is canonical\<close>

definition node_bytes :: "bytes list \<Rightarrow> bytes" where
  "node_bytes nodes = concat (map (\<lambda>n. rev (PutUint64 (word_of_nat (length n))) @ n) nodes)"

definition proof_wf :: "Proof \<Rightarrow> bool" where
  "proof_wf p \<longleftrightarrow> length (sp_Key p) = 32 \<and> length (sp_Value p) = 32 \<and> length (sp_Proof p) < 2 ^ 64 \<and>
     (\<forall>n\<in>set (sp_Proof p). length n < 2 ^ 64)"

lemma appendNodes_eq: "appendNodes out nodes = out @ node_bytes nodes"
  by (induction nodes arbitrary: out) (simp_all add: node_bytes_def appendUint64LE_def)

lemma reverse32_eq: "length b = 32 \<Longrightarrow> reverse32 b = rev b"
  by (simp add: reverse32_def)

lemma EncodeProof_eq:
  "proof_wf p \<Longrightarrow> EncodeProof p = rev (sp_Key p) @ rev (sp_Value p) @
     rev (PutUint64 (word_of_nat (length (sp_Proof p)))) @ node_bytes (sp_Proof p)"
  by (simp add: EncodeProof_def appendNodes_eq appendUint64LE_def proof_wf_def reverse32_eq)

lemma readU256_iff:
  "readU256 buf pos = Inr (w, pos') \<longleftrightarrow> length w = 32 \<and> pos' = pos + 32 \<and> data_at buf pos (rev w)"
  by (auto simp: readU256_def data_at_def slice_def)

lemma readUint64_iff:
  "readUint64 buf pos = Inr (v, pos') \<longleftrightarrow> pos' = pos + 8 \<and> data_at buf pos (rev (PutUint64 v))"
proof
  assume "readUint64 buf pos = Inr (v, pos')"
  then have l: "pos + 8 \<le> length buf" and v: "v = BigEndianUint64 (rev (slice buf pos (pos + 8)))" and p: "pos' = pos + 8"
    by (auto simp: readUint64_def split: if_splits)
  have "PutUint64 v = rev (slice buf pos (pos + 8))"
    unfolding v by (rule PutUint64_BigEndianUint64) (use l in \<open>simp add: slice_def\<close>)
  then show "pos' = pos + 8 \<and> data_at buf pos (rev (PutUint64 v))"
    using l p by (simp add: data_at_def slice_def)
next
  assume r: "pos' = pos + 8 \<and> data_at buf pos (rev (PutUint64 v))"
  then have "pos + 8 \<le> length buf" by (simp add: data_at_def)
  moreover have "slice buf pos (pos + 8) = rev (PutUint64 v)" by (rule slice_data_at) (use r in simp_all)
  ultimately show "readUint64 buf pos = Inr (v, pos')" using r by (simp add: readUint64_def)
qed

lemma readBytes_some:
  "readUint64 buf pos = Inr (v, p) \<Longrightarrow> readBytes buf pos = Inr (n, pos') \<longleftrightarrow>
     unat v \<le> length buf - p \<and> slice buf p (p + unat v) = n \<and> p + unat v = pos'"
  by (simp add: readBytes_def linorder_not_le)

lemma readBytes_iff:
  "readBytes buf pos = Inr (n, pos') \<longleftrightarrow> length n < 2 ^ 64 \<and> pos' = pos + 8 + length n \<and>
     data_at buf pos (rev (PutUint64 (word_of_nat (length n))) @ n)" (is "?l \<longleftrightarrow> ?r")
proof
  assume l: ?l
  then obtain v p where u: "readUint64 buf pos = Inr (v, p)"
    by (cases "readUint64 buf pos") (auto simp: readBytes_def)
  then have p: "p = pos + 8" "data_at buf pos (rev (PutUint64 v))" by (simp_all add: readUint64_iff)
  then have len: "pos + 8 \<le> length buf" by (simp add: data_at_def)
  have v: "unat v \<le> length buf - (pos + 8)" "n = slice buf (pos + 8) (pos + 8 + unat v)" "pos' = pos + 8 + unat v"
    using l [unfolded readBytes_some [OF u]] p(1) by blast+
  have n: "length n = unat v" using v(1,2) by (simp add: slice_def)
  have "data_at buf (pos + 8) n" using v(1,2) len n by (simp add: data_at_def slice_def)
  moreover have "unat v < 2 ^ 64" using unsigned_less [of v] by simp
  moreover have "word_of_nat (length n) = v" by (simp add: n)
  ultimately show ?r using p(2) v(3) n by (simp add: data_at_append)
next
  assume r: ?r
  then have u: "readUint64 buf pos = Inr (word_of_nat (length n), pos + 8)" and d: "data_at buf (pos + 8) n"
    by (simp_all add: readUint64_iff data_at_append)
  have w: "unat (word_of_nat (length n) :: u64) = length n" using r by (simp add: unat_u64_of_nat)
  have "length n \<le> length buf - (pos + 8)" using d unfolding data_at_def by linarith
  then show ?l using r slice_data_at [OF d refl] by (simp add: readBytes_some [OF u] w)
qed

lemma node_bytes_Cons: "node_bytes (n # ns) = (rev (PutUint64 (word_of_nat (length n))) @ n) @ node_bytes ns"
  by (simp add: node_bytes_def)

lemma node_bytes_Nil [simp]: "node_bytes [] = []"
  by (simp add: node_bytes_def)

lemma readNodes_iff:
  "pos \<le> length buf \<Longrightarrow> readNodes buf k pos = Inr (ns, pos') \<longleftrightarrow> length ns = k \<and> (\<forall>n\<in>set ns. length n < 2 ^ 64) \<and>
     pos' = pos + length (node_bytes ns) \<and> data_at buf pos (node_bytes ns)"
proof (induction k arbitrary: pos ns)
  case 0
  then show ?case by (auto simp: data_at_def)
next
  case (Suc k)
  show ?case
  proof (cases ns)
    case Nil
    then show ?thesis by (auto split: sum.splits)
  next
    case (Cons n ms)
    have "readNodes buf (Suc k) pos = Inr (ns, pos') \<longleftrightarrow>
        (\<exists>p. readBytes buf pos = Inr (n, p) \<and> readNodes buf k p = Inr (ms, pos'))"
      using Cons by (auto split: sum.splits)
    also have "\<dots> \<longleftrightarrow> readBytes buf pos = Inr (n, pos + 8 + length n) \<and>
        readNodes buf k (pos + 8 + length n) = Inr (ms, pos')"
      by (auto simp: readBytes_iff)
    also have "\<dots> \<longleftrightarrow> length ns = Suc k \<and> (\<forall>n\<in>set ns. length n < 2 ^ 64) \<and>
     pos' = pos + length (node_bytes ns) \<and> data_at buf pos (node_bytes ns)"
    proof (cases "readBytes buf pos = Inr (n, pos + 8 + length n)")
      case True
      then have "pos + 8 + length n \<le> length buf" by (auto simp: readBytes_iff data_at_def)
      from Suc.IH [OF this] True Cons show ?thesis
        by (auto simp: readBytes_iff node_bytes_Cons data_at_append add.assoc)
    next
      case False
      with Cons show ?thesis by (auto simp: readBytes_iff node_bytes_Cons data_at_append)
    qed
    finally show ?thesis .
  qed
qed

lemma DecodeProof_iff: "DecodeProof buf = Inr p \<longleftrightarrow> proof_wf p \<and> EncodeProof p = buf"
proof -
  have "DecodeProof buf = Inr p \<longleftrightarrow>
      readU256 buf 0 = Inr (sp_Key p, 32) \<and> readU256 buf 32 = Inr (sp_Value p, 64) \<and>
      (\<exists>count. readUint64 buf 64 = Inr (count, 72) \<and> unat count \<le> length buf \<and>
        readNodes buf (unat count) 72 = Inr (sp_Proof p, length buf))" (is "_ \<longleftrightarrow> ?r")
  proof
    assume "DecodeProof buf = Inr p"
    then obtain key p1 val p2 count p3 where "readU256 buf 0 = Inr (key, p1)" "readU256 buf p1 = Inr (val, p2)"
      "readUint64 buf p2 = Inr (count, p3)" "unat count \<le> length buf"
      "readNodes buf (unat count) p3 = Inr (sp_Proof p, length buf)" "sp_Key p = key" "sp_Value p = val"
      by (auto simp: DecodeProof_def split: sum.splits prod.splits if_splits)
    then show ?r by (auto simp: readU256_iff readUint64_iff)
  next
    assume ?r
    then show "DecodeProof buf = Inr p" by (auto simp: DecodeProof_def)
  qed
  also have "\<dots> \<longleftrightarrow> proof_wf p \<and> EncodeProof p = buf"
  proof
    assume ?r
    then obtain count where c: "readU256 buf 0 = Inr (sp_Key p, 32)" "readU256 buf 32 = Inr (sp_Value p, 64)"
      "readUint64 buf 64 = Inr (count, 72)" "readNodes buf (unat count) 72 = Inr (sp_Proof p, length buf)" by blast
    from c(3) have "72 \<le> length buf" by (auto simp: readUint64_iff data_at_def)
    from c(4) [unfolded readNodes_iff [OF this]] have n: "length (sp_Proof p) = unat count"
      "\<forall>n\<in>set (sp_Proof p). length n < 2 ^ 64" "length buf = 72 + length (node_bytes (sp_Proof p))"
      "data_at buf 72 (node_bytes (sp_Proof p))" by auto
    have wf: "proof_wf p"
      using c(1,2) n(1,2) unsigned_less [of count] by (simp add: proof_wf_def readU256_iff)
    have "count = word_of_nat (length (sp_Proof p))" using n(1) by simp
    then have "data_at buf 0 (EncodeProof p)"
      unfolding EncodeProof_eq [OF wf] using c(1-3) n(4)
      by (simp add: data_at_append readU256_iff readUint64_iff)
    moreover have "length (EncodeProof p) = length buf"
      using c(1,2) n(3) unfolding EncodeProof_eq [OF wf] by (simp add: readU256_iff)
    ultimately show "proof_wf p \<and> EncodeProof p = buf" using wf by (simp add: data_at_def)
  next
    assume a: "proof_wf p \<and> EncodeProof p = buf"
    then have wf: "proof_wf p" and e: "data_at buf 0 (EncodeProof p)" by (auto simp: data_at_def)
    have d: "data_at buf 0 (rev (sp_Key p))" "data_at buf 32 (rev (sp_Value p))"
      "data_at buf 64 (rev (PutUint64 (word_of_nat (length (sp_Proof p)))))" "data_at buf 72 (node_bytes (sp_Proof p))"
      using e wf unfolding EncodeProof_eq [OF wf] by (simp_all add: data_at_append proof_wf_def)
    have len: "length buf = 72 + length (node_bytes (sp_Proof p))"
      using a wf arg_cong [OF EncodeProof_eq [OF wf], of length] by (simp add: proof_wf_def)
    have u: "unat (word_of_nat (length (sp_Proof p)) :: u64) = length (sp_Proof p)"
      using wf by (simp add: proof_wf_def unat_u64_of_nat)
    have "length ns \<le> length (node_bytes ns)" for ns by (induction ns) (auto simp: node_bytes_def)
    from this [of "sp_Proof p"] len have "length (sp_Proof p) \<le> length buf" by linarith
    then show ?r
      using d wf u len readNodes_iff [of 72 buf "length (sp_Proof p)" "sp_Proof p" "length buf"]
      by (auto simp: readU256_iff readUint64_iff proof_wf_def)
  qed
  finally show ?thesis .
qed

interpretation storage_proof: canonical_codec EncodeProof DecodeProof proof_wf
  by unfold_locales (simp_all add: DecodeProof_iff)

text \<open>C31: the wire form of a storage proof is canonical: a string is accepted exactly when it is the
  encoding of the proof it decodes to, with 32-byte words.\<close>

theorem storage_proof_canonical: "DecodeProof buf = Inr p \<longleftrightarrow> proof_wf p \<and> EncodeProof p = buf"
  by (rule storage_proof.dec_iff)

section \<open>A slot holds one word\<close>

lemma trimLeadingZeroes_inject:
  assumes "length v = length w" and "trimLeadingZeroes v = trimLeadingZeroes w"
  shows "v = w"
proof -
  have e: "x = replicate (length x - length (trimLeadingZeroes x)) 0 @ trimLeadingZeroes x" for x
  proof -
    have "takeWhile (\<lambda>b. b = 0) x = replicate (length (takeWhile (\<lambda>b. b = 0) x)) 0"
      by (induction x) auto
    moreover have "length (takeWhile (\<lambda>b. b = 0) x) = length x - length (trimLeadingZeroes x)"
      unfolding trimLeadingZeroes_def by (metis add_diff_cancel_right' length_append takeWhile_dropWhile_id)
    ultimately show ?thesis unfolding trimLeadingZeroes_def by (metis takeWhile_dropWhile_id)
  qed
  show ?thesis using e [of v] e [of w] assms by metis
qed

lemma length_trimLeadingZeroes: "length (trimLeadingZeroes w) \<le> length w"
  by (simp add: trimLeadingZeroes_def length_dropWhile_le)

lemma encodeStorageValue_inject:
  assumes "length v = 32" and "length w = 32" and "encodeStorageValue v = encodeStorageValue w"
  shows "v = w"
proof -
  have "split (encodeStorageValue x) = Inr (kind_of_bytes (trimLeadingZeroes x), trimLeadingZeroes x, [])"
    if "length x = 32" for x
    using split_EncodeBytes [of "trimLeadingZeroes x" "[]"] length_trimLeadingZeroes [of x] that
    by (simp add: encodeStorageValue_def maxInt_def)
  with assms have "trimLeadingZeroes v = trimLeadingZeroes w" by (metis Inr_inject prod.inject)
  then show ?thesis using trimLeadingZeroes_inject assms by simp
qed

lemma mptResult_ok: "mptResult r = Some (Inr ()) \<longleftrightarrow> r = Some (Inr ())"
proof (cases r)
  case (Some z)
  then show ?thesis by (cases z) (simp_all add: mptResult_def)
qed (simp add: mptResult_def)

lemma VerifyProof_ok:
  "VerifyProof K root p = Some (Inr ()) \<longleftrightarrow> length (sp_Key p) = 32 \<and> length (sp_Value p) = 32 \<and>
     Mpt.Verify K root (K (sp_Key p)) (encodeStorageValue (sp_Value p)) (sp_Proof p) = Some (Inr ())"
  by (auto simp: VerifyProof_def validateWord_def mptResult_ok Verify_ok)

lemma storage_VerifyAbsence_ok:
  "VerifyAbsence K root p = Some (Inr ()) \<longleftrightarrow> length (sp_Key p) = 32 \<and>
     Mpt.VerifyAbsence K root (K (sp_Key p)) (sp_Proof p) = Some (Inr ())"
  by (auto simp: VerifyAbsence_def validateWord_def mptResult_ok VerifyAbsence_ok)

text \<open>C30: under one storage root a slot has one 32-byte word: without a hash collision on the nodes
  of the proofs, two verified proofs of a slot carry the same value, and a slot with a verified value
  has no verified absence.\<close>

theorem storage_slot_unique:
  assumes "inj_on K (set (sp_Proof p) \<union> set (sp_Proof q))" and "sp_Key p = sp_Key q"
    and "VerifyProof K root p = Some (Inr ())"
  shows "(VerifyProof K root q = Some (Inr ()) \<longrightarrow> sp_Value p = sp_Value q) \<and>
    VerifyAbsence K root q \<noteq> Some (Inr ())"
proof -
  have p: "Mpt.Verify K root (K (sp_Key p)) (encodeStorageValue (sp_Value p)) (sp_Proof p) = Some (Inr ())"
    "length (sp_Value p) = 32" using assms(3) by (simp_all add: VerifyProof_ok)
  have "sp_Value p = sp_Value q" if q: "VerifyProof K root q = Some (Inr ())"
  proof -
    have "encodeStorageValue (sp_Value p) = encodeStorageValue (sp_Value q)"
      using q p assms(2) proofs_agree [OF assms(1)] unfolding VerifyProof_ok Verify_ok by (metis option.inject)
    then show ?thesis using q p(2) by (simp add: VerifyProof_ok encodeStorageValue_inject)
  qed
  moreover have "Mpt.VerifyAbsence K root (K (sp_Key q)) (sp_Proof q) \<noteq> Some (Inr ())"
    using p assms(2) proofs_agree [OF assms(1)] by (auto simp: Verify_ok VerifyAbsence_ok)
  ultimately show ?thesis by (simp add: storage_VerifyAbsence_ok)
qed

text \<open>A storage trie of one slot, for the witness.\<close>

definition sample_word :: bytes where
  "sample_word = replicate 31 0 @ [5]"

definition sample_slot_leaf :: bytes where
  "sample_slot_leaf = [0xE3, 0xA1, 0x20] @ replicate 32 0 @ [5]"

definition sample_storage_proof :: Proof where
  "sample_storage_proof = \<lparr>sp_Key = replicate 32 0, sp_Value = sample_word, sp_Proof = [sample_slot_leaf]\<rparr>"

lemma sample_slot_node:
  "decodeNode sample_slot_leaf = Inr (ShortNode (replicate 64 0 @ [16]) (Some (ValueNode [5])))"
proof -
  let ?v = "RlpValue KindList [] [RlpValue KindString (0x20 # replicate 32 0) [], RlpValue KindByte [5] []]"
  have "rlp_encode ?v = sample_slot_leaf" and "rlp_wf 0 ?v"
    by (simp_all add: sample_slot_leaf_def kind_of_bytes_def maxInt_def maxDecodeDepth_def EncodeList_eq
        EncodeBytes_def appendBytes_def appendHeader_def)
  then have "DecodeValue sample_slot_leaf = Inr ?v" by (metis DecodeValue_rlp_encode)
  moreover have "compactToHex (0x20 # replicate 32 0) = replicate 64 0 @ [16]" by code_simp
  ultimately show ?thesis
    by (simp add: decodeNode_def isDataNode_def hasTerm_def Let_def nth_append)
qed

lemma sample_VerifyProof: "VerifyProof sample_hash (sample_hash sample_slot_leaf) sample_storage_proof = Some (Inr ())"
proof -
  have k: "keybytesToHex (sample_hash (replicate 32 0)) = replicate 64 0 @ [16]" by code_simp
  have "get (Some (ShortNode (replicate 64 0 @ [16]) (Some (ValueNode [5])))) (replicate 64 0 @ [16]) True =
      Some ([], Some (ValueNode [5]))"
    by simp
  moreover have "buildProofDb sample_hash [sample_slot_leaf] (sample_hash sample_slot_leaf) = Some sample_slot_leaf"
    by (simp add: buildProofDb_def)
  ultimately have "proof_walk (buildProofDb sample_hash [sample_slot_leaf]) (replicate 64 0 @ [16])
      (sample_hash sample_slot_leaf) (Some [5])"
    using sample_slot_node by (blast intro: walk_found)
  moreover have "length (sample_hash sample_slot_leaf) = 32 \<and> sample_hash sample_slot_leaf \<noteq> EmptyRoot sample_hash"
    by (simp add: sample_hash_def sample_slot_leaf_def EmptyRoot_def EncodeBytes_def appendBytes_def appendHeader_def)
  moreover have "encodeStorageValue sample_word = [5]" by code_simp
  ultimately show ?thesis
    by (simp add: VerifyProof_ok Verify_ok sample_storage_proof_def k) (simp add: sample_word_def)
qed

theorem storage_slot_unique_witness:
  "VerifyProof sample_hash (sample_hash sample_slot_leaf) (sample_storage_proof\<lparr>sp_Value := replicate 32 0\<rparr>) \<noteq>
     Some (Inr ()) \<and>
   VerifyAbsence sample_hash (sample_hash sample_slot_leaf) (sample_storage_proof\<lparr>sp_Value := replicate 32 0\<rparr>) \<noteq>
     Some (Inr ())"
proof -
  have "sample_word \<noteq> replicate 32 0" by code_simp
  then show ?thesis
    using storage_slot_unique [of sample_hash sample_storage_proof
        "sample_storage_proof\<lparr>sp_Value := replicate 32 0\<rparr>" "sample_hash sample_slot_leaf"] sample_VerifyProof
    by (auto simp: sample_storage_proof_def)
qed

end
