(* ===== verification/CoreBase.thy ===== *)
theory CoreBase
  imports IbcTypes
begin

text \<open>
  What every part of the IBC host (\<^verbatim>\<open>r/onbloc/ibc/union/core\<close> and its implementation \<^verbatim>\<open>core/v1\<close>)
  shares: the error messages, the realm token a crossing call carries, and the computations of
  the host. A panic aborts the whole transaction and reverts its writes, so an operation is a
  function from the state to an error or to a result and the next state.
\<close>

section \<open>Errors (core/errors.gno)\<close>

text \<open>One constructor per message the modelled code panics with or returns; the ones below the
  line are the panics of the Go runtime, of foreign code, and the ad-hoc messages.\<close>

datatype core_error =
    ErrClientNotActive | ErrInvalidConnectionState | ErrInvalidChannelState
  | ErrInvalidCounterpartyChannelId | ErrSyncAckEmpty | ErrUnknownPacketStatus
  | ErrUnauthorizedAckWriter | ErrAcknowledgementAlreadyWritten | ErrAcknowledgementEmpty
  | ErrAcknowledgementMismatch | ErrUnauthorizedPacketSender | ErrTimeoutMustBeSet
  | ErrPacketCommitmentAlreadyExists | ErrPacketCommitmentNotFound | ErrPacketCombinedDataTooLarge
  | ErrPacketAlreadyAcknowledged | ErrPacketReceiptNotFound | ErrNotEnoughPackets
  | ErrBatchSameChannelOnly | ErrAcknowledgementCountMismatch | ErrTimeoutProofTimestampNotFound
  | ErrBatchPacketsNotFound | ErrBatchReceiptsNotFound
  | ErrPacketTimeoutExpired | ErrPacketTimeoutNotReached | ErrIntentNotSupported
  | ErrPortNotFound bytes | ErrClientNotFound | ErrClientNotFoundId ClientId | ErrClientStateNotFound
  | ErrConsensusStateNotFound | ErrConnectionNotFound | ErrConnectionNotFoundId ConnectionId
  | ErrChannelNotFound | ErrChannelNotFoundId ChannelId | ErrMembershipProofNotFound
  | ErrSpoofedRealm | ErrNotProxyRealm
  | Message string
  | ErrEncoding abi_error
  | NilDereference | TypeAssertion | DivideByZero
  | SequenceOverflow
  | LightClientError string | AppPanic

section \<open>Realms\<close>

text \<open>The realm token \<^verbatim>\<open>rlm realm\<close> of a crossing call: whether it is the current frame, its
  package path, and the address and package path of \<^verbatim>\<open>rlm.Previous()\<close>.\<close>

record realm =
  IsCurrent :: bool
  PkgPath :: string
  PrevAddress :: address
  PrevPkgPath :: string

section \<open>Computations\<close>

type_synonym ('s, 'a) comp = "'s \<Rightarrow> core_error + 'a \<times> 's"

definition ok :: "'a \<Rightarrow> ('s, 'a) comp" where
  "ok x s = Inr (x, s)"

definition panic :: "core_error \<Rightarrow> ('s, 'a) comp" where
  "panic e s = Inl e"

definition bind :: "('s, 'a) comp \<Rightarrow> ('a \<Rightarrow> ('s, 'b) comp) \<Rightarrow> ('s, 'b) comp" where
  "bind m k s = (case m s of Inl e \<Rightarrow> Inl e | Inr (x, s') \<Rightarrow> k x s')"

definition andthen :: "('s, 'a) comp \<Rightarrow> ('s, 'b) comp \<Rightarrow> ('s, 'b) comp" where
  "andthen m k = bind m (\<lambda>_. k)"

definition guard :: "bool \<Rightarrow> core_error \<Rightarrow> ('s, unit) comp" where
  "guard b e s = (if b then Inr ((), s) else Inl e)"

definition gets :: "('s \<Rightarrow> 'a) \<Rightarrow> ('s, 'a) comp" where
  "gets f s = Inr (f s, s)"

definition modify :: "('s \<Rightarrow> 's) \<Rightarrow> ('s, unit) comp" where
  "modify f s = Inr ((), f s)"

definition lift :: "core_error + 'a \<Rightarrow> ('s, 'a) comp" where
  "lift r s = (case r of Inl e \<Rightarrow> Inl e | Inr x \<Rightarrow> Inr (x, s))"

text \<open>\<^verbatim>\<open>v, ok := ...; if !ok { panic(e) }\<close>.\<close>

definition need :: "core_error \<Rightarrow> 'a option \<Rightarrow> ('s, 'a) comp" where
  "need e r s = (case r of None \<Rightarrow> Inl e | Some x \<Rightarrow> Inr (x, s))"

fun each :: "('a \<Rightarrow> ('s, unit) comp) \<Rightarrow> 'a list \<Rightarrow> ('s, unit) comp" where
  "each f [] = ok ()"
| "each f (x # xs) = andthen (f x) (each f xs)"

definition assertIsRlmCurrent :: "realm \<Rightarrow> ('s, unit) comp" where
  "assertIsRlmCurrent rlm = guard (IsCurrent rlm) ErrSpoofedRealm"

definition assertIsProxyRealm :: "string \<Rightarrow> realm \<Rightarrow> ('s, unit) comp" where
  "assertIsProxyRealm proxyPkgPath rlm = guard (PkgPath rlm = proxyPkgPath) ErrNotProxyRealm"

section \<open>Inversion of successful runs\<close>

text \<open>These rules take a successful run of a handler apart into its guards and writes.\<close>

named_theorems run_simps \<open>inversion of successful runs\<close>

lemma ok_run [run_simps]: "ok x s = Inr r \<longleftrightarrow> r = (x, s)"
  by (auto simp: ok_def)

lemma panic_run [run_simps]: "panic e s = Inr r \<longleftrightarrow> False"
  by (simp add: panic_def)

lemma bind_run [run_simps]: "bind m k s = Inr r \<longleftrightarrow> (\<exists>x s'. m s = Inr (x, s') \<and> k x s' = Inr r)"
  by (auto simp: bind_def split: sum.splits prod.splits)

lemma andthen_run [run_simps]: "andthen m k s = Inr r \<longleftrightarrow> (\<exists>x s'. m s = Inr (x, s') \<and> k s' = Inr r)"
  by (simp add: andthen_def bind_run)

lemma guard_run [run_simps]: "guard b e s = Inr r \<longleftrightarrow> b \<and> r = ((), s)"
  by (auto simp: guard_def)

lemma gets_run [run_simps]: "gets f s = Inr r \<longleftrightarrow> r = (f s, s)"
  by (auto simp: gets_def)

lemma modify_run [run_simps]: "modify f s = Inr r \<longleftrightarrow> r = ((), f s)"
  by (auto simp: modify_def)

lemma lift_run [run_simps]: "lift e s = Inr r \<longleftrightarrow> (\<exists>x. e = Inr x \<and> r = (x, s))"
  by (auto simp: lift_def split: sum.splits)

lemma need_run [run_simps]: "need e v s = Inr r \<longleftrightarrow> (\<exists>x. v = Some x \<and> r = (x, s))"
  by (auto simp: need_def split: option.splits)

lemma assertIsRlmCurrent_run [run_simps]: "assertIsRlmCurrent rlm s = Inr r \<longleftrightarrow> IsCurrent rlm \<and> r = ((), s)"
  by (simp add: assertIsRlmCurrent_def guard_run)

lemma assertIsProxyRealm_run [run_simps]:
  "assertIsProxyRealm p rlm s = Inr r \<longleftrightarrow> PkgPath rlm = p \<and> r = ((), s)"
  by (simp add: assertIsProxyRealm_def guard_run)

text \<open>And these evaluate a run forwards.\<close>

named_theorems exec_simps \<open>evaluation of runs\<close>

lemmas [exec_simps] = ok_def panic_def bind_def andthen_def guard_def gets_def modify_def lift_def
  need_def assertIsRlmCurrent_def assertIsProxyRealm_def

text \<open>A relation kept by every iteration of a loop is kept by the loop.\<close>

lemma each_preserves:
  assumes "each f xs s = Inr ((), s')" and "P s"
    and "\<And>x t t'. x \<in> set xs \<Longrightarrow> P t \<Longrightarrow> f x t = Inr ((), t') \<Longrightarrow> P t'"
  shows "P s'"
  using assms
proof (induction xs arbitrary: s)
  case Nil
  then show ?case by (simp add: run_simps)
next
  case (Cons x xs)
  then obtain t where "f x s = Inr ((), t)" "each f xs t = Inr ((), s')"
    by (auto simp: run_simps)
  with Cons show ?case by (meson list.set_intros)
qed

end
