(* ===== verification/CoreEvents.thy ===== *)
theory CoreEvents
  imports CoreBase "HOL-Library.Signed_Division"
begin

text \<open>
  The host events of \<^verbatim>\<open>core\<close>: the attribute policy (\<^verbatim>\<open>event_config.gno\<close>), the size checks
  (\<^verbatim>\<open>packet_event.gno\<close>), the hexadecimal helpers (\<^verbatim>\<open>encoding.gno\<close>) and the attribute lists
  (\<^verbatim>\<open>event.gno\<close>). Go's \<^verbatim>\<open>uint\<close> and \<^verbatim>\<open>int\<close> have 64 bits: a \<^verbatim>\<open>uint\<close> is a word, and \<open>int64\<close> wraps
  the results of \<^verbatim>\<open>int\<close> arithmetic.
\<close>

section \<open>Hexadecimal attributes (core/encoding.gno)\<close>

definition hex_digit :: "nat \<Rightarrow> char" where
  "hex_digit n = (if n < 10 then char_of (48 + n) else char_of (87 + n))"

fun EncodeToString :: "bytes \<Rightarrow> string" where
  "EncodeToString [] = []"
| "EncodeToString (b # bs) = hex_digit (unat b div 16) # hex_digit (unat b mod 16) # EncodeToString bs"

definition hexString :: "bytes \<Rightarrow> string" where
  "hexString b = ''0x'' @ EncodeToString b"

definition hexAttr :: "bytes \<Rightarrow> string" where
  "hexAttr b = hexString b"

definition hexAttrLen :: "bytes \<Rightarrow> int" where
  "hexAttrLen b = int (length b) * 2 + 2"

definition h256String :: "H256 \<Rightarrow> string" where
  "h256String h = hexString h"

definition id_String :: "u32 \<Rightarrow> string" where
  "id_String v = FormatUint (ucast v)"

definition Itoa :: "nat \<Rightarrow> string" where
  "Itoa n = digits n"

section \<open>Attribute policy (core/event_config.gno)\<close>

record EventConfig =
  SplitEventAttrs :: bool
  MaxEventAttrValueLen :: u64
  MaxEventAttrPairs :: u64

definition NewEventConfig :: "bool \<Rightarrow> u64 \<Rightarrow> u64 \<Rightarrow> EventConfig" where
  "NewEventConfig splitEventAttrs maxEventAttrValueLen maxEventAttrPairs =
     \<lparr>SplitEventAttrs = splitEventAttrs, MaxEventAttrValueLen = maxEventAttrValueLen,
      MaxEventAttrPairs = maxEventAttrPairs\<rparr>"

definition DefaultEventConfig :: EventConfig where
  "DefaultEventConfig = \<lparr>SplitEventAttrs = True, MaxEventAttrValueLen = 4096, MaxEventAttrPairs = 50\<rparr>"

definition assertValidEventConfig :: "EventConfig \<Rightarrow> core_error + unit" where
  "assertValidEventConfig config =
     (if MaxEventAttrValueLen config = 0 then Inl (Message ''max event attr value len must be positive'')
      else if MaxEventAttrPairs config = 0 then Inl (Message ''max event attr pairs must be positive'')
      else Inr ())"

definition setEventConfig :: "EventConfig \<Rightarrow> core_error + EventConfig" where
  "setEventConfig config =
     (case assertValidEventConfig config of Inl e \<Rightarrow> Inl e | Inr _ \<Rightarrow> Inr config)"

section \<open>Size checks (core/packet_event.gno)\<close>

definition int64 :: "int \<Rightarrow> int" where
  "int64 x = sint (word_of_int x :: u64)"

definition MaxPacketDataEventSize :: "EventConfig \<Rightarrow> int" where
  "MaxPacketDataEventSize config =
     int64 (sint (MaxEventAttrPairs config - 1) * sint (MaxEventAttrValueLen config))"

definition IsValidPacketDataSize :: "EventConfig \<Rightarrow> bytes \<Rightarrow> bool" where
  "IsValidPacketDataSize config data =
     (if \<not> SplitEventAttrs config then True else hexAttrLen data \<le> MaxPacketDataEventSize config)"

definition eventColumnPairs :: "EventConfig \<Rightarrow> bytes \<Rightarrow> core_error + int" where
  "eventColumnPairs config data =
     (let maxValueLen = sint (MaxEventAttrValueLen config)
      in if maxValueLen = 0 then Inl DivideByZero
         else let columns = int64 (int64 (hexAttrLen data + maxValueLen - 1) sdiv maxValueLen)
              in Inr (1 + (if columns < 1 then 1 else columns)))"

fun totalColumnPairs :: "EventConfig \<Rightarrow> bytes list \<Rightarrow> core_error + int" where
  "totalColumnPairs config [] = Inr 0"
| "totalColumnPairs config (data # rest) =
     (case eventColumnPairs config data of
        Inl e \<Rightarrow> Inl e
      | Inr n \<Rightarrow> (case totalColumnPairs config rest of Inl e \<Rightarrow> Inl e | Inr m \<Rightarrow> Inr (n + m)))"

definition IsValidEventSize :: "EventConfig \<Rightarrow> bytes list \<Rightarrow> core_error + bool" where
  "IsValidEventSize config flds =
     (if \<not> SplitEventAttrs config then Inr True
      else case totalColumnPairs config flds of
        Inl e \<Rightarrow> Inl e
      | Inr n \<Rightarrow> Inr (n \<le> sint (MaxEventAttrPairs config)))"

section \<open>Attribute lists (core/event.gno)\<close>

text \<open>\<open>columnsLoop\<close> is the loop of \<open>eventAttrColumns\<close>, with \<open>parts - index\<close> columns left.\<close>

fun columnsLoop :: "string \<Rightarrow> string \<Rightarrow> nat \<Rightarrow> nat \<Rightarrow> nat \<Rightarrow> string list" where
  "columnsLoop key value maxValueLen index 0 = []"
| "columnsLoop key value maxValueLen index (Suc left) =
     (let start = index * maxValueLen; e = min (start + maxValueLen) (length value)
      in (key @ ''['' @ Itoa index @ '']'') # take (e - start) (drop start value) #
         columnsLoop key value maxValueLen (index + 1) left)"

definition eventAttrColumns :: "string \<Rightarrow> string \<Rightarrow> int \<Rightarrow> core_error + string list" where
  "eventAttrColumns key value maxValueLen =
     (if maxValueLen \<le> 0 then Inl (Message ''max event attr value len must be positive'')
      else if value = [] then Inr [key @ ''[0]'', '''']
      else let parts = nat (int64 (int (length value) + maxValueLen - 1) sdiv maxValueLen)
           in Inr (columnsLoop key value (nat maxValueLen) 0 parts))"

definition encodedEventAttrs :: "EventConfig \<Rightarrow> string \<Rightarrow> string \<Rightarrow> core_error + string list" where
  "encodedEventAttrs config key value =
     (if \<not> SplitEventAttrs config then Inr [key, value]
      else case eventAttrColumns key value (sint (MaxEventAttrValueLen config)) of
        Inl e \<Rightarrow> Inl e
      | Inr cols \<Rightarrow> Inr ([key @ ''_size'', Itoa (length value)] @ cols))"

type_synonym event = "string \<times> string list"

definition channelOpenInitEventAttrs :: "bytes \<Rightarrow> ChannelId \<Rightarrow> Channel \<Rightarrow> Connection \<Rightarrow> string list" where
  "channelOpenInitEventAttrs portId channelId channel connection =
     [''port_id'', string_of_bytes portId,
      ''channel_id'', id_String channelId,
      ''counterparty_port_id'', hexString (chan_CounterpartyPortId channel),
      ''connection_id'', id_String (chan_ConnectionId channel),
      ''connection_client_id'', id_String (conn_ClientId connection),
      ''connection_counterparty_client_id'', id_String (conn_CounterpartyClientId connection),
      ''connection_counterparty_connection_id'', id_String (conn_CounterpartyConnectionId connection),
      ''version'', chan_Version channel]"

definition channelOpenTryEventAttrs ::
  "bytes \<Rightarrow> ChannelId \<Rightarrow> Channel \<Rightarrow> string \<Rightarrow> Connection \<Rightarrow> string list" where
  "channelOpenTryEventAttrs portId channelId channel counterpartyVersion connection =
     [''port_id'', string_of_bytes portId,
      ''channel_id'', id_String channelId,
      ''counterparty_port_id'', hexString (chan_CounterpartyPortId channel),
      ''counterparty_channel_id'', id_String (chan_CounterpartyChannelId channel),
      ''connection_id'', id_String (chan_ConnectionId channel),
      ''connection_client_id'', id_String (conn_ClientId connection),
      ''connection_counterparty_client_id'', id_String (conn_CounterpartyClientId connection),
      ''connection_counterparty_connection_id'', id_String (conn_CounterpartyConnectionId connection),
      ''version'', chan_Version channel,
      ''counterparty_version'', counterpartyVersion]"

definition channelOpenAckConfirmEventAttrs :: "bytes \<Rightarrow> ChannelId \<Rightarrow> Channel \<Rightarrow> Connection \<Rightarrow> string list" where
  "channelOpenAckConfirmEventAttrs portId channelId channel connection =
     [''port_id'', string_of_bytes portId,
      ''channel_id'', id_String channelId,
      ''counterparty_port_id'', hexString (chan_CounterpartyPortId channel),
      ''counterparty_channel_id'', id_String (chan_CounterpartyChannelId channel),
      ''connection_id'', id_String (chan_ConnectionId channel),
      ''connection_client_id'', id_String (conn_ClientId connection),
      ''connection_counterparty_client_id'', id_String (conn_CounterpartyClientId connection),
      ''connection_counterparty_connection_id'', id_String (conn_CounterpartyConnectionId connection),
      ''version'', chan_Version channel]"

definition channelCloseEventAttrs :: "bytes \<Rightarrow> ChannelId \<Rightarrow> Channel \<Rightarrow> Connection \<Rightarrow> string list" where
  "channelCloseEventAttrs portId channelId channel connection =
     [''port_id'', string_of_bytes portId,
      ''channel_id'', id_String channelId,
      ''counterparty_port_id'', hexString (chan_CounterpartyPortId channel),
      ''counterparty_channel_id'', id_String (chan_CounterpartyChannelId channel),
      ''connection_id'', id_String (chan_ConnectionId channel),
      ''connection_client_id'', id_String (conn_ClientId connection),
      ''connection_counterparty_client_id'', id_String (conn_CounterpartyClientId connection),
      ''connection_counterparty_connection_id'', id_String (conn_CounterpartyConnectionId connection),
      ''version'', chan_Version channel]"

definition connectionOpenEventAttrs ::
  "ConnectionId \<Rightarrow> ClientId \<Rightarrow> ClientId \<Rightarrow> ConnectionId \<Rightarrow> string list" where
  "connectionOpenEventAttrs connectionId clientId counterpartyClientId counterpartyConnectionId =
     [''connection_id'', id_String connectionId,
      ''client_id'', id_String clientId,
      ''counterparty_client_id'', id_String counterpartyClientId,
      ''counterparty_connection_id'', id_String counterpartyConnectionId]"

text \<open>\<^verbatim>\<open>commitPacketHash(packet).String()\<close>; the encoding of a packet never fails
  (\<open>CommitPackets_total\<close>), its error would be a panic.\<close>

definition commitPacketHash :: "hash \<Rightarrow> Packet \<Rightarrow> core_error + H256" where
  "commitPacketHash kc packet =
     (case CommitPacket kc packet of Inl e \<Rightarrow> Inl (ErrEncoding e) | Inr h \<Rightarrow> Inr h)"

definition commitPacketsHash :: "hash \<Rightarrow> Packet list \<Rightarrow> core_error + H256" where
  "commitPacketsHash kc packets =
     (case CommitPackets kc packets of Inl e \<Rightarrow> Inl (ErrEncoding e) | Inr h \<Rightarrow> Inr h)"

definition withEncoded :: "core_error + H256 \<Rightarrow> (H256 \<Rightarrow> string list) \<Rightarrow> core_error + string list \<Rightarrow> core_error + string list" where
  "withEncoded hash attrs columns =
     (case hash of
        Inl e \<Rightarrow> Inl e
      | Inr h \<Rightarrow> (case columns of Inl e \<Rightarrow> Inl e | Inr cols \<Rightarrow> Inr (attrs h @ cols)))"

definition packetSendEventAttrs :: "hash \<Rightarrow> EventConfig \<Rightarrow> Packet \<Rightarrow> Channel \<Rightarrow> Connection \<Rightarrow> core_error + string list" where
  "packetSendEventAttrs kc config packet sourceChannel sourceConnection =
     withEncoded (commitPacketHash kc packet)
       (\<lambda>h. [''packet_hash'', h256String h,
         ''source_channel_id'', id_String (SourceChannelId packet),
         ''source_channel_version'', chan_Version sourceChannel,
         ''source_connection_id'', id_String (chan_ConnectionId sourceChannel),
         ''source_connection_client_id'', id_String (conn_ClientId sourceConnection),
         ''destination_channel_id'', id_String (DestinationChannelId packet),
         ''destination_connection_id'', id_String (conn_CounterpartyConnectionId sourceConnection),
         ''destination_connection_client_id'', id_String (conn_CounterpartyClientId sourceConnection),
         ''timeout_timestamp'', FormatUint (TimeoutTimestamp packet)])
       (encodedEventAttrs config ''packet_data'' (hexAttr (Data packet)))"

text \<open>The attributes the receiving side writes, with the field that carries the message.\<close>

definition destinationEventAttrs :: "Packet \<Rightarrow> Channel \<Rightarrow> Connection \<Rightarrow> H256 \<Rightarrow> string list" where
  "destinationEventAttrs packet destinationChannel connection h =
     [''packet_hash'', h256String h,
      ''source_channel_id'', id_String (SourceChannelId packet),
      ''source_connection_id'', id_String (conn_CounterpartyConnectionId connection),
      ''source_connection_client_id'', id_String (conn_CounterpartyClientId connection),
      ''destination_channel_id'', id_String (DestinationChannelId packet),
      ''destination_channel_version'', chan_Version destinationChannel,
      ''destination_connection_id'', id_String (chan_ConnectionId destinationChannel),
      ''destination_connection_client_id'', id_String (conn_ClientId connection),
      ''timeout_timestamp'', FormatUint (TimeoutTimestamp packet)]"

definition packetRecvEventAttrs :: "hash \<Rightarrow> EventConfig \<Rightarrow> Packet \<Rightarrow> Channel \<Rightarrow> Connection \<Rightarrow> bytes \<Rightarrow> core_error + string list" where
  "packetRecvEventAttrs kc config packet destinationChannel connection msg =
     withEncoded (commitPacketHash kc packet) (destinationEventAttrs packet destinationChannel connection)
       (encodedEventAttrs config ''maker_msg'' (hexAttr msg))"

definition writeAckEventAttrs :: "hash \<Rightarrow> EventConfig \<Rightarrow> Packet \<Rightarrow> Channel \<Rightarrow> Connection \<Rightarrow> bytes \<Rightarrow> core_error + string list" where
  "writeAckEventAttrs kc config packet destinationChannel connection acknowledgement =
     withEncoded (commitPacketHash kc packet) (destinationEventAttrs packet destinationChannel connection)
       (encodedEventAttrs config ''acknowledgement'' (hexAttr acknowledgement))"

text \<open>The attributes the sending side writes when a packet is settled.\<close>

definition sourceEventAttrs :: "Packet \<Rightarrow> Channel \<Rightarrow> Connection \<Rightarrow> H256 \<Rightarrow> string list" where
  "sourceEventAttrs packet sourceChannel connection h =
     [''packet_hash'', h256String h,
      ''source_channel_id'', id_String (SourceChannelId packet),
      ''source_channel_version'', chan_Version sourceChannel,
      ''source_connection_id'', id_String (chan_ConnectionId sourceChannel),
      ''source_connection_client_id'', id_String (conn_ClientId connection),
      ''destination_channel_id'', id_String (DestinationChannelId packet),
      ''destination_connection_id'', id_String (conn_CounterpartyConnectionId connection),
      ''destination_connection_client_id'', id_String (conn_CounterpartyClientId connection),
      ''timeout_timestamp'', FormatUint (TimeoutTimestamp packet)]"

definition packetAckEventAttrs :: "hash \<Rightarrow> EventConfig \<Rightarrow> Packet \<Rightarrow> Channel \<Rightarrow> Connection \<Rightarrow> bytes \<Rightarrow> core_error + string list" where
  "packetAckEventAttrs kc config packet sourceChannel connection acknowledgement =
     withEncoded (commitPacketHash kc packet) (sourceEventAttrs packet sourceChannel connection)
       (encodedEventAttrs config ''acknowledgement'' (hexAttr acknowledgement))"

definition packetTimeoutEventAttrs :: "hash \<Rightarrow> Packet \<Rightarrow> Channel \<Rightarrow> Connection \<Rightarrow> core_error + string list" where
  "packetTimeoutEventAttrs kc packet sourceChannel connection =
     withEncoded (commitPacketHash kc packet) (sourceEventAttrs packet sourceChannel connection) (Inr [])"

text \<open>The values of a list of attributes: every second entry.\<close>

fun attr_values :: "string list \<Rightarrow> string list" where
  "attr_values (k # v # rest) = v # attr_values rest"
| "attr_values _ = []"

text \<open>Numbers of columns: the division that rounds up.\<close>

definition columns :: "int \<Rightarrow> int \<Rightarrow> int" where
  "columns len m = (len + m - 1) div m"

text \<open>A policy within the range of the size arithmetic.\<close>

definition small_config :: "EventConfig \<Rightarrow> bool" where
  "small_config config \<longleftrightarrow> 0 < sint (MaxEventAttrValueLen config) \<and> 0 < sint (MaxEventAttrPairs config) \<and>
     sint (MaxEventAttrPairs config) * sint (MaxEventAttrValueLen config) < 2 ^ 63"

section \<open>The columns of a value\<close>

lemma length_EncodeToString: "length (EncodeToString b) = 2 * length b"
  by (induction b rule: EncodeToString.induct) auto

lemma length_hexAttr: "int (length (hexAttr b)) = hexAttrLen b"
  by (simp add: hexAttr_def hexString_def hexAttrLen_def length_EncodeToString)

lemma columnsLoop_concat:
  "0 < m \<Longrightarrow> length value \<le> (index + left) * m \<Longrightarrow>
     concat (attr_values (columnsLoop key value m index left)) = drop (index * m) value"
proof (induction key "value" m index left rule: columnsLoop.induct)
  case (2 key val m index left)
  let ?s = "index * m"
  have "concat (attr_values (columnsLoop key val m index (Suc left))) =
      take (min (?s + m) (length val) - ?s) (drop ?s val) @ drop ((index + 1) * m) val"
    using 2 by (simp add: Let_def)
  also have "take (min (?s + m) (length val) - ?s) (drop ?s val) = take m (drop ?s val)"
    by (cases "?s + m \<le> length val") auto
  also have "drop ((index + 1) * m) val = drop m (drop ?s val)"
    by (simp add: algebra_simps)
  finally show ?case by (simp only: append_take_drop_id)
qed simp

lemma columnsLoop_bounds:
  "0 < m \<Longrightarrow> length (columnsLoop key value m index left) = 2 * left \<and>
     (\<forall>v\<in>set (attr_values (columnsLoop key value m index left)). length v \<le> m)"
  by (induction key "value" m index left rule: columnsLoop.induct) (auto simp: Let_def)

lemma int64_small: "0 \<le> x \<Longrightarrow> x < 2 ^ 63 \<Longrightarrow> int64 x = x"
  by (simp add: int64_def signed_of_int signed_take_bit_int_eq_self)

lemma sdiv_nonneg: "0 \<le> x \<Longrightarrow> 0 < y \<Longrightarrow> x sdiv y = x div (y :: int)"
  by (cases "x = 0") (simp_all add: signed_divide_int_def sgn_if)

lemma columns_bounds:
  assumes "0 < m" and "0 < len"
  shows "len \<le> columns len m * m" and "1 \<le> columns len m" and "columns len m \<le> k \<longleftrightarrow> len \<le> k * m"
proof -
  have q: "(len + m - 1) div m * m \<le> len + m - 1" "len + m - 1 < (len + m - 1) div m * m + m"
    using assms(1) pos_mod_bound [of m "len + m - 1"] pos_mod_sign [of m "len + m - 1"]
      div_mult_mod_eq [of "len + m - 1" m] by linarith+
  then show le: "len \<le> columns len m * m" by (simp add: columns_def)
  show "1 \<le> columns len m" using assms by (simp add: columns_def zdiv_mono1 pos_imp_zdiv_pos_iff int_one_le_iff_zero_less)
  show "columns len m \<le> k \<longleftrightarrow> len \<le> k * m"
  proof
    assume "columns len m \<le> k"
    then have "columns len m * m \<le> k * m" using assms(1) by (intro mult_right_mono) simp_all
    with le show "len \<le> k * m" by linarith
  next
    assume "len \<le> k * m"
    then have "columns len m * m < (k + 1) * m" using q(1) by (simp add: columns_def algebra_simps)
    then have "columns len m < k + 1" using assms(1) by simp
    then show "columns len m \<le> k" by simp
  qed
qed

lemma columns_int64:
  assumes "0 < m" and "0 < len" and "len + m \<le> 2 ^ 63"
  shows "int64 (len + m - 1) sdiv m = columns len m" and "columns len m < 2 ^ 63"
proof -
  show "int64 (len + m - 1) sdiv m = columns len m"
    using assms by (simp add: int64_small sdiv_nonneg columns_def)
  have "columns len m \<le> len" using columns_bounds(3) [OF assms(1,2), of len] assms by simp
  then show "columns len m < 2 ^ 63" using assms by linarith
qed

lemma eventColumnPairs_columns:
  assumes "0 < sint (MaxEventAttrValueLen config)" and "hexAttrLen data + sint (MaxEventAttrValueLen config) \<le> 2 ^ 63"
  shows "eventColumnPairs config data = Inr (1 + columns (hexAttrLen data) (sint (MaxEventAttrValueLen config)))"
proof -
  let ?m = "sint (MaxEventAttrValueLen config)"
  have len: "0 < hexAttrLen data" by (simp add: hexAttrLen_def)
  note c = columns_int64 [OF assms(1) len assms(2)] columns_bounds(2) [OF assms(1) len]
  then have "int64 (columns (hexAttrLen data) ?m) = columns (hexAttrLen data) ?m"
    by (intro int64_small) simp_all
  with c assms(1) show ?thesis by (simp add: eventColumnPairs_def Let_def)
qed

lemma sint_pred:
  assumes "0 < sint (w :: u64)"
  shows "sint (w - 1) = sint w - 1"
proof -
  have w: "w = word_of_int (sint w)" by simp
  have "sint w < 2 ^ 63" using sint_lt [of w] by simp
  then have "sint (word_of_int (sint w - 1) :: u64) = sint w - 1"
    using int64_small [of "sint w - 1"] assms by (simp add: int64_def)
  moreover have "word_of_int (sint w - 1) = w - 1" by simp
  ultimately show ?thesis by metis
qed

lemma MaxPacketDataEventSize_small:
  assumes "small_config config"
  shows "MaxPacketDataEventSize config = (sint (MaxEventAttrPairs config) - 1) * sint (MaxEventAttrValueLen config)"
proof -
  let ?p = "sint (MaxEventAttrPairs config)" and ?m = "sint (MaxEventAttrValueLen config)"
  have pos: "0 < ?m" "0 < ?p" "?p * ?m < 2 ^ 63" using assms by (simp_all add: small_config_def)
  then have "0 \<le> (?p - 1) * ?m" by simp
  moreover have "(?p - 1) * ?m < 2 ^ 63" using pos by (simp add: algebra_simps)
  ultimately show ?thesis
    using pos(2) by (simp add: MaxPacketDataEventSize_def sint_pred int64_small)
qed

text \<open>The two size checks agree: within the range of \<^verbatim>\<open>int\<close>, packet data passes
  \<open>IsValidPacketDataSize\<close> exactly when the pairs it is split into fit the budget of one event.\<close>

theorem packet_size_checks_agree:
  assumes "small_config config" and "hexAttrLen data + sint (MaxEventAttrValueLen config) \<le> 2 ^ 63"
  shows "IsValidEventSize config [data] = Inr (IsValidPacketDataSize config data)"
proof -
  let ?p = "sint (MaxEventAttrPairs config)" and ?m = "sint (MaxEventAttrValueLen config)"
  have pos: "0 < ?m" using assms(1) by (simp add: small_config_def)
  have "0 < hexAttrLen data" by (simp add: hexAttrLen_def)
  from columns_bounds(3) [OF pos this, of "?p - 1"]
  have "1 + columns (hexAttrLen data) ?m \<le> ?p \<longleftrightarrow> hexAttrLen data \<le> (?p - 1) * ?m"
    by linarith
  then show ?thesis
    using eventColumnPairs_columns [OF pos assms(2)] MaxPacketDataEventSize_small [OF assms(1)]
    by (simp add: IsValidEventSize_def IsValidPacketDataSize_def)
qed

theorem packet_size_checks_agree_witness:
  "IsValidEventSize DefaultEventConfig [[1, 2, 3]] = Inr (IsValidPacketDataSize DefaultEventConfig [1, 2, 3])"
  by (rule packet_size_checks_agree) (simp_all add: small_config_def DefaultEventConfig_def hexAttrLen_def)

text \<open>Splitting an attribute loses nothing: under a positive column width every value is cut
  into columns no longer than the width whose concatenation is the value.\<close>

theorem event_columns_rejoin:
  assumes "0 < m" and "int (length v) + m \<le> 2 ^ 63"
  shows "\<exists>attrs. eventAttrColumns key v m = Inr attrs \<and> concat (attr_values attrs) = v \<and>
    (\<forall>c\<in>set (attr_values attrs). int (length c) \<le> m)"
proof (cases "v = []")
  case True
  then show ?thesis using assms by (simp add: eventAttrColumns_def)
next
  case False
  let ?n = "columns (int (length v)) m"
  have len: "0 < int (length v)" using False by simp
  note c = columns_int64 [OF assms(1) len assms(2)] columns_bounds [OF assms(1) len]
  have m: "0 < nat m" using assms(1) by simp
  have "int (length v) \<le> ?n * m" by (rule c(3))
  then have "length v \<le> (0 + nat ?n) * nat m"
    using assms(1) c(4) by (simp add: nat_mult_distrib [symmetric] le_nat_iff zle_int [symmetric])
  from columnsLoop_concat [OF m this, of key] columnsLoop_bounds [OF m, of key v 0 "nat ?n"]
  have "concat (attr_values (columnsLoop key v (nat m) 0 (nat ?n))) = v"
    "\<forall>c\<in>set (attr_values (columnsLoop key v (nat m) 0 (nat ?n))). int (length c) \<le> m"
    using assms(1) by (auto simp: le_nat_iff)
  then show ?thesis
    using False assms(1) c(1) by (simp add: eventAttrColumns_def Let_def)
qed

theorem event_columns_rejoin_witness:
  "\<exists>attrs. eventAttrColumns ''k'' ''abcde'' 2 = Inr attrs \<and> concat (attr_values attrs) = ''abcde'' \<and>
    (\<forall>c\<in>set (attr_values attrs). int (length c) \<le> 2)"
  by (rule event_columns_rejoin) simp_all

lemma commitPacketHash_total: "commitPacketHash kc p = Inr (Keccak kc (packets_preimage [p]))"
  by (simp add: commitPacketHash_def CommitPacket_def CommitPackets_total)

lemma length_encodedEventAttrs:
  assumes "SplitEventAttrs config" and "0 < sint (MaxEventAttrValueLen config)"
    and "hexAttrLen b + sint (MaxEventAttrValueLen config) \<le> 2 ^ 63"
  shows "\<exists>attrs. encodedEventAttrs config key (hexAttr b) = Inr attrs \<and>
    int (length attrs) = 2 * (1 + columns (hexAttrLen b) (sint (MaxEventAttrValueLen config)))"
proof -
  let ?m = "sint (MaxEventAttrValueLen config)"
  have len: "0 < hexAttrLen b" "hexAttr b \<noteq> []" by (simp_all add: hexAttrLen_def hexAttr_def hexString_def)
  note c = columns_int64 [OF assms(2) len(1) assms(3)] columns_bounds(2) [OF assms(2) len(1)]
  have "eventAttrColumns key (hexAttr b) ?m = Inr (columnsLoop key (hexAttr b) (nat ?m) 0 (nat (columns (hexAttrLen b) ?m)))"
    using assms(2) len c(1) by (simp add: eventAttrColumns_def Let_def length_hexAttr)
  moreover have "length (columnsLoop key (hexAttr b) (nat ?m) 0 n) = 2 * n" for n
    using columnsLoop_bounds [of "nat ?m"] assms(2) by simp
  ultimately show ?thesis
    using assms(1) c(3) by (simp add: encodedEventAttrs_def)
qed

text \<open>Packet data the size check admits yields a packet-send event of at most nine fixed
  pairs and the configured budget; with the default policy that is below the 64 pairs an event
  may carry.\<close>

theorem send_event_budget:
  assumes "small_config config" and "SplitEventAttrs config" and "IsValidPacketDataSize config (Data p)"
  shows "\<exists>attrs. packetSendEventAttrs kc config p ch conn = Inr attrs \<and>
    int (length attrs) \<le> 2 * (9 + sint (MaxEventAttrPairs config))"
proof -
  let ?p = "sint (MaxEventAttrPairs config)" and ?m = "sint (MaxEventAttrValueLen config)"
  have pos: "0 < ?m" "?p * ?m < 2 ^ 63" using assms(1) by (simp_all add: small_config_def)
  have fits: "hexAttrLen (Data p) \<le> (?p - 1) * ?m"
    using assms by (simp add: IsValidPacketDataSize_def MaxPacketDataEventSize_small)
  then have "hexAttrLen (Data p) + ?m \<le> 2 ^ 63" using pos by (simp add: algebra_simps)
  from length_encodedEventAttrs [OF assms(2) pos(1) this, of "''packet_data''"]
  obtain attrs where attrs: "encodedEventAttrs config ''packet_data'' (hexAttr (Data p)) = Inr attrs"
    "int (length attrs) = 2 * (1 + columns (hexAttrLen (Data p)) ?m)" by blast
  have "columns (hexAttrLen (Data p)) ?m \<le> ?p - 1"
    using columns_bounds(3) [OF pos(1), of "hexAttrLen (Data p)" "?p - 1"] fits by (simp add: hexAttrLen_def)
  then show ?thesis
    using attrs by (simp add: packetSendEventAttrs_def withEncoded_def commitPacketHash_total)
qed

theorem send_event_budget_witness:
  "\<exists>attrs. packetSendEventAttrs (sample_digest []) DefaultEventConfig (NewPacket 1 2 [1, 2, 3] 9)
      (NewChannel ChannelStateOpen 1 2 [] ''v'') (NewConnection ConnectionStateOpen 1 1 1) = Inr attrs \<and>
    int (length attrs) \<le> 2 * (9 + sint (MaxEventAttrPairs DefaultEventConfig))"
  by (rule send_event_budget)
    (simp_all add: small_config_def DefaultEventConfig_def IsValidPacketDataSize_def hexAttrLen_def
      NewPacket_def MaxPacketDataEventSize_def int64_def)

end
