(* ===== verification/CoreStore.thy ===== *)
theory CoreStore
  imports CoreEvents
begin

text \<open>
  The proxy-owned state of the IBC host (\<^verbatim>\<open>core/store.gno\<close>): clients, connections, channels,
  commitments and apps, with the mirror of every commitment in the chain parameters, and the
  setters and getters the implementation works through.

  The pieces the repository only calls are fields of the record \<open>env\<close>: keccak256, the BPTree and
  the sequence ids of \<^verbatim>\<open>p/nt\<close>, the light clients behind \<^verbatim>\<open>lightclient.Interface\<close> and the apps behind
  \<^verbatim>\<open>app.IApp\<close>. What the host relies on of the first three is the predicate \<open>env_ok\<close>; of light
  clients and apps it relies on nothing.
\<close>

section \<open>Values and foreign code\<close>

record channelEntry =
  entry_channel :: Channel
  entry_portId :: bytes

text \<open>The \<open>any\<close> values a BPTree holds; a failed type assertion panics.\<close>

datatype any = AnyConnection Connection | AnyChannel channelEntry | AnyBytes bytes

type_synonym 'lc ClientImpl = "bytes \<Rightarrow> bytes \<Rightarrow> string + 'lc"

record ('t, 'lc) client =
  client_id :: ClientId
  creator :: address
  lightClient :: 'lc
  clientState :: bytes
  consensusByHeight :: 't
  clientStore :: "string \<rightharpoonup> bytes"

text \<open>\<^verbatim>\<open>type Store struct\<close> together with the realm's other variables: the chain parameters it
  writes, the event policy, the events emitted so far, and the state of the apps. A nil function
  or interface is \<open>None\<close>.\<close>

record ('t, 'lc, 'app, 'w) core =
  clientSeq :: u64
  clientRegistry :: "string \<rightharpoonup> 'lc ClientImpl"
  clientTypeByID :: "u32 \<rightharpoonup> ClientType"
  clientImplByID :: "u32 \<rightharpoonup> 'lc ClientImpl option"
  clientByID :: "u32 \<rightharpoonup> ('t, 'lc) client"
  connectionSeq :: u64
  connections :: 't
  channelSeq :: u64
  channels :: 't
  commitments :: "H256 \<rightharpoonup> H256"
  membershipProofs :: "H256 \<rightharpoonup> H256"
  nonMembershipProofs :: "H256 \<rightharpoonup> H256"
  ports :: "string \<rightharpoonup> 'app option"
  params :: "string \<rightharpoonup> bytes"
  eventConfig :: EventConfig
  events :: "event list"
  world :: 'w

text \<open>What an app does when it is called: it reads the host, calls back into the entry points of
  the host that are open to every realm, and finally returns with a new state of its own, or
  panics. \<open>prev\<close> is the realm the call into the host comes from.\<close>

datatype ('s, 'w, 'r) prog =
    Done 'r 'w
  | AppPanics
  | Reads "'s \<Rightarrow> ('s, 'w, 'r) prog"
  | CallSendPacket address string ChannelId Timestamp bytes "Packet \<Rightarrow> ('s, 'w, 'r) prog"
  | CallWriteAcknowledgement address string Packet bytes "('s, 'w, 'r) prog"

datatype PacketStatus = PacketStatusUnknown | PacketStatusSuccess | PacketStatusFailure | PacketStatusAsync

record RecvPacketResult =
  res_Status :: PacketStatus
  res_Acknowledgement :: bytes

record StateUpdate =
  su_Height :: u64
  su_ConsensusStateBytes :: bytes
  su_ClientStateBytes :: bytes
  su_StorageWrites :: "(string \<times> bytes) list"

record ClientCreationResult =
  cc_ClientStateBytes :: bytes
  cc_StorageWrites :: "(string \<times> bytes) list"

text \<open>\<^verbatim>\<open>lightclient.Status\<close>.\<close>

datatype lc_status = Active | Frozen | Expired | UnknownStatus | Unauthorized

fun ToType :: "lc_status \<Rightarrow> Status" where
  "ToType Active = StatusActive"
| "ToType Expired = StatusExpired"
| "ToType Frozen = StatusFrozen"
| "ToType _ = StatusUnknown"

text \<open>A method of a light client that changes its object returns the new object.\<close>

record ('t, 'lc, 'app, 'w) env =
  keccak256 :: hash
  proxyPkgPath :: string
  NewBPTree32 :: 't
  bp_Set :: "'t \<Rightarrow> string \<Rightarrow> any \<Rightarrow> 't"
  bp_Get :: "'t \<Rightarrow> string \<Rightarrow> any option"
  bp_Iterate :: "'t \<Rightarrow> (string \<times> any) list"
  seq_Next :: "u64 \<Rightarrow> u64 option"
  seq_Binary :: "u64 \<Rightarrow> string"
  lc_VerifyMembership :: "'lc \<Rightarrow> u64 \<Rightarrow> bytes \<Rightarrow> bytes \<Rightarrow> bytes \<Rightarrow> string option"
  lc_VerifyNonMembership :: "'lc \<Rightarrow> u64 \<Rightarrow> bytes \<Rightarrow> bytes \<Rightarrow> string option"
  lc_GetTimestampAtHeight :: "'lc \<Rightarrow> u64 \<Rightarrow> string + Timestamp"
  lc_GetLatestHeight :: "'lc \<Rightarrow> u64"
  lc_GetCounterpartyChainID :: "'lc \<Rightarrow> string"
  lc_Status :: "'lc \<Rightarrow> lc_status"
  lc_VerifyHeader :: "'lc \<Rightarrow> address \<Rightarrow> bytes \<Rightarrow> address \<Rightarrow> string + StateUpdate \<times> 'lc"
  lc_VerifyCreation :: "'lc \<Rightarrow> address \<Rightarrow> address \<Rightarrow> string + ClientCreationResult \<times> 'lc"
  lc_Misbehaviour :: "'lc \<Rightarrow> address \<Rightarrow> bytes \<Rightarrow> address \<Rightarrow> string + bytes \<times> 'lc"
  OnChannelOpenInit :: "'app \<Rightarrow> 'w \<Rightarrow> ConnectionId \<Rightarrow> ChannelId \<Rightarrow> string \<Rightarrow> address \<Rightarrow> (('t, 'lc, 'app, 'w) core, 'w, unit) prog"
  OnChannelOpenTry :: "'app \<Rightarrow> 'w \<Rightarrow> ConnectionId \<Rightarrow> ChannelId \<Rightarrow> string \<Rightarrow> string \<Rightarrow> address \<Rightarrow> (('t, 'lc, 'app, 'w) core, 'w, unit) prog"
  OnChannelOpenAck :: "'app \<Rightarrow> 'w \<Rightarrow> ChannelId \<Rightarrow> ChannelId \<Rightarrow> string \<Rightarrow> address \<Rightarrow> (('t, 'lc, 'app, 'w) core, 'w, unit) prog"
  OnChannelOpenConfirm :: "'app \<Rightarrow> 'w \<Rightarrow> ChannelId \<Rightarrow> address \<Rightarrow> (('t, 'lc, 'app, 'w) core, 'w, unit) prog"
  OnChannelCloseInit :: "'app \<Rightarrow> 'w \<Rightarrow> ChannelId \<Rightarrow> address \<Rightarrow> (('t, 'lc, 'app, 'w) core, 'w, unit) prog"
  OnChannelCloseConfirm :: "'app \<Rightarrow> 'w \<Rightarrow> ChannelId \<Rightarrow> address \<Rightarrow> (('t, 'lc, 'app, 'w) core, 'w, unit) prog"
  OnRecvPacket :: "'app \<Rightarrow> 'w \<Rightarrow> Packet \<Rightarrow> address \<Rightarrow> bytes \<Rightarrow> (('t, 'lc, 'app, 'w) core, 'w, RecvPacketResult) prog"
  OnIntentRecvPacket :: "'app \<Rightarrow> 'w \<Rightarrow> Packet \<Rightarrow> address \<Rightarrow> bytes \<Rightarrow> (('t, 'lc, 'app, 'w) core, 'w, RecvPacketResult) prog"
  OnAcknowledgementPacket :: "'app \<Rightarrow> 'w \<Rightarrow> Packet \<Rightarrow> bytes \<Rightarrow> address \<Rightarrow> (('t, 'lc, 'app, 'w) core, 'w, unit) prog"
  OnTimeoutPacket :: "'app \<Rightarrow> 'w \<Rightarrow> Packet \<Rightarrow> address \<Rightarrow> (('t, 'lc, 'app, 'w) core, 'w, unit) prog"

section \<open>Initial state\<close>

definition newStore :: "('t, 'lc, 'app, 'w) env \<Rightarrow> 'w \<Rightarrow> ('t, 'lc, 'app, 'w) core" where
  "newStore E w =
     \<lparr>clientSeq = 0, clientRegistry = Map.empty, clientTypeByID = Map.empty,
      clientImplByID = Map.empty, clientByID = Map.empty,
      connectionSeq = 0, connections = NewBPTree32 E, channelSeq = 0, channels = NewBPTree32 E,
      commitments = Map.empty, membershipProofs = Map.empty, nonMembershipProofs = Map.empty,
      ports = Map.empty, params = Map.empty, eventConfig = DefaultEventConfig, events = [], world = w\<rparr>"

section \<open>Keys and values\<close>

definition connectionKey :: "('t, 'lc, 'app, 'w) env \<Rightarrow> ConnectionId \<Rightarrow> string" where
  "connectionKey E i = seq_Binary E (ucast i)"

definition channelKey :: "('t, 'lc, 'app, 'w) env \<Rightarrow> ChannelId \<Rightarrow> string" where
  "channelKey E i = seq_Binary E (ucast i)"

definition portKey :: "bytes \<Rightarrow> string" where
  "portKey portId = string_of_bytes portId"

definition h256ChainParamKey :: "H256 \<Rightarrow> string" where
  "h256ChainParamKey key = EncodeToString key"

definition connectionValue :: "hash \<Rightarrow> Connection \<Rightarrow> core_error + H256" where
  "connectionValue kc connection =
     (case connection_EncodeABI connection of Inl e \<Rightarrow> Inl (ErrEncoding e) | Inr bz \<Rightarrow> Inr (Keccak kc bz))"

definition channelValue :: "hash \<Rightarrow> Channel \<Rightarrow> core_error + H256" where
  "channelValue kc channel =
     (case channel_EncodeABI channel of Inl e \<Rightarrow> Inl (ErrEncoding e) | Inr bz \<Rightarrow> Inr (Keccak kc bz))"

definition packetCommitmentPath :: "hash \<Rightarrow> Packet \<Rightarrow> core_error + H256" where
  "packetCommitmentPath kc packet =
     (case PacketCommitmentPath kc packet of Inl e \<Rightarrow> Inl (ErrEncoding e) | Inr h \<Rightarrow> Inr h)"

definition packetAcknowledgementPath :: "hash \<Rightarrow> Packet \<Rightarrow> core_error + H256" where
  "packetAcknowledgementPath kc packet =
     (case PacketAcknowledgementPath kc packet of Inl e \<Rightarrow> Inl (ErrEncoding e) | Inr h \<Rightarrow> Inr h)"

section \<open>Commitments\<close>

definition setChainParam :: "string \<Rightarrow> bytes \<Rightarrow> (('t, 'lc, 'app, 'w) core, unit) comp" where
  "setChainParam key val = modify (\<lambda>s. s\<lparr>params := (params s)(key \<mapsto> val)\<rparr>)"

definition setCommitmentMem :: "H256 \<Rightarrow> H256 \<Rightarrow> (('t, 'lc, 'app, 'w) core, unit) comp" where
  "setCommitmentMem path val = modify (\<lambda>s. s\<lparr>commitments := (commitments s)(path \<mapsto> val)\<rparr>)"

definition setCommitment :: "H256 \<Rightarrow> H256 \<Rightarrow> (('t, 'lc, 'app, 'w) core, unit) comp" where
  "setCommitment path val =
     andthen (modify (\<lambda>s. s\<lparr>commitments := (commitments s)(path \<mapsto> val)\<rparr>))
       (setChainParam (h256ChainParamKey path) val)"

definition getCommitment :: "H256 \<Rightarrow> ('t, 'lc, 'app, 'w) core \<Rightarrow> H256 option" where
  "getCommitment path s = commitments s path"

definition HasPacketCommitment :: "('t, 'lc, 'app, 'w) env \<Rightarrow> Packet \<Rightarrow> (('t, 'lc, 'app, 'w) core, bool) comp" where
  "HasPacketCommitment E packet =
     bind (lift (packetCommitmentPath (keccak256 E) packet)) (\<lambda>path. gets (\<lambda>s. getCommitment path s \<noteq> None))"

definition store_CommitPacket :: "('t, 'lc, 'app, 'w) env \<Rightarrow> realm \<Rightarrow> Packet \<Rightarrow> (('t, 'lc, 'app, 'w) core, unit) comp" where
  "store_CommitPacket E rlm packet =
     andthen (assertIsRlmCurrent rlm)
       (bind (lift (packetCommitmentPath (keccak256 E) packet)) (\<lambda>path. setCommitment path COMMITMENT_MAGIC))"

definition SetPacketAcknowledged :: "('t, 'lc, 'app, 'w) env \<Rightarrow> realm \<Rightarrow> Packet \<Rightarrow> (('t, 'lc, 'app, 'w) core, unit) comp" where
  "SetPacketAcknowledged E rlm packet =
     andthen (assertIsRlmCurrent rlm)
       (bind (lift (packetCommitmentPath (keccak256 E) packet)) (\<lambda>path. setCommitmentMem path COMMITMENT_MAGIC_ACK))"

definition HasPacketReceipt :: "('t, 'lc, 'app, 'w) env \<Rightarrow> Packet \<Rightarrow> (('t, 'lc, 'app, 'w) core, bool) comp" where
  "HasPacketReceipt E packet =
     bind (lift (packetAcknowledgementPath (keccak256 E) packet)) (\<lambda>path. gets (\<lambda>s. getCommitment path s \<noteq> None))"

definition SetPacketReceipt :: "('t, 'lc, 'app, 'w) env \<Rightarrow> realm \<Rightarrow> Packet \<Rightarrow> (('t, 'lc, 'app, 'w) core, unit) comp" where
  "SetPacketReceipt E rlm packet =
     andthen (assertIsRlmCurrent rlm)
       (bind (lift (packetAcknowledgementPath (keccak256 E) packet)) (\<lambda>path. setCommitment path COMMITMENT_MAGIC))"

definition CommitAcknowledgement :: "('t, 'lc, 'app, 'w) env \<Rightarrow> realm \<Rightarrow> Packet \<Rightarrow> bytes \<Rightarrow> (('t, 'lc, 'app, 'w) core, unit) comp" where
  "CommitAcknowledgement E rlm packet ack =
     andthen (assertIsRlmCurrent rlm)
       (bind (lift (packetAcknowledgementPath (keccak256 E) packet))
         (\<lambda>path. setCommitment path (CommitAcks (keccak256 E) [ack])))"

definition AcknowledgementReceipt :: "('t, 'lc, 'app, 'w) env \<Rightarrow> Packet \<Rightarrow> (('t, 'lc, 'app, 'w) core, H256 option) comp" where
  "AcknowledgementReceipt E packet =
     bind (lift (packetAcknowledgementPath (keccak256 E) packet)) (\<lambda>path. gets (getCommitment path))"

definition PacketCommitment :: "('t, 'lc, 'app, 'w) env \<Rightarrow> Packet \<Rightarrow> (('t, 'lc, 'app, 'w) core, H256 option) comp" where
  "PacketCommitment E packet =
     bind (lift (packetCommitmentPath (keccak256 E) packet)) (\<lambda>path. gets (getCommitment path))"

definition SaveBatchPackets :: "('t, 'lc, 'app, 'w) env \<Rightarrow> realm \<Rightarrow> H256 \<Rightarrow> H256 \<Rightarrow> (('t, 'lc, 'app, 'w) core, unit) comp" where
  "SaveBatchPackets E rlm batchHash val =
     andthen (assertIsRlmCurrent rlm) (setCommitment (BatchPacketsPath (keccak256 E) batchHash) val)"

definition SaveBatchReceipts :: "('t, 'lc, 'app, 'w) env \<Rightarrow> realm \<Rightarrow> H256 \<Rightarrow> H256 \<Rightarrow> (('t, 'lc, 'app, 'w) core, unit) comp" where
  "SaveBatchReceipts E rlm batchHash val =
     andthen (assertIsRlmCurrent rlm) (setCommitment (BatchReceiptsPath (keccak256 E) batchHash) val)"

definition BatchPacketsAt :: "('t, 'lc, 'app, 'w) env \<Rightarrow> H256 \<Rightarrow> ('t, 'lc, 'app, 'w) core \<Rightarrow> H256 option" where
  "BatchPacketsAt E batchHash s = getCommitment (BatchPacketsPath (keccak256 E) batchHash) s"

definition BatchReceiptsAt :: "('t, 'lc, 'app, 'w) env \<Rightarrow> H256 \<Rightarrow> ('t, 'lc, 'app, 'w) core \<Rightarrow> H256 option" where
  "BatchReceiptsAt E batchHash s = getCommitment (BatchReceiptsPath (keccak256 E) batchHash) s"

definition SaveMembershipProof ::
  "('t, 'lc, 'app, 'w) env \<Rightarrow> realm \<Rightarrow> ClientId \<Rightarrow> u64 \<Rightarrow> bytes \<Rightarrow> H256 \<Rightarrow> (('t, 'lc, 'app, 'w) core, unit) comp" where
  "SaveMembershipProof E rlm clientId proofHeight path val =
     andthen (assertIsRlmCurrent rlm)
       (let key = MembershipProofPath (keccak256 E) clientId proofHeight path
        in andthen (modify (\<lambda>s. s\<lparr>membershipProofs := (membershipProofs s)(key \<mapsto> val)\<rparr>))
             (setChainParam (h256ChainParamKey key) val))"

definition MembershipProofAt ::
  "('t, 'lc, 'app, 'w) env \<Rightarrow> ClientId \<Rightarrow> u64 \<Rightarrow> bytes \<Rightarrow> ('t, 'lc, 'app, 'w) core \<Rightarrow> H256 option" where
  "MembershipProofAt E clientId proofHeight path s =
     membershipProofs s (MembershipProofPath (keccak256 E) clientId proofHeight path)"

definition SaveNonMembershipProof ::
  "('t, 'lc, 'app, 'w) env \<Rightarrow> realm \<Rightarrow> ClientId \<Rightarrow> u64 \<Rightarrow> bytes \<Rightarrow> H256 \<Rightarrow> (('t, 'lc, 'app, 'w) core, unit) comp" where
  "SaveNonMembershipProof E rlm clientId proofHeight path val =
     andthen (assertIsRlmCurrent rlm)
       (let key = NonMembershipProofPath (keccak256 E) clientId proofHeight path
        in andthen (modify (\<lambda>s. s\<lparr>nonMembershipProofs := (nonMembershipProofs s)(key \<mapsto> val)\<rparr>))
             (setChainParam (h256ChainParamKey key) val))"

definition HasNonMembershipProof ::
  "('t, 'lc, 'app, 'w) env \<Rightarrow> ClientId \<Rightarrow> u64 \<Rightarrow> bytes \<Rightarrow> ('t, 'lc, 'app, 'w) core \<Rightarrow> bool" where
  "HasNonMembershipProof E clientId proofHeight path s \<longleftrightarrow>
     nonMembershipProofs s (NonMembershipProofPath (keccak256 E) clientId proofHeight path) =
       Some NON_MEMBERSHIP_COMMITMENT_VALUE"

section \<open>Clients\<close>

definition registerClient :: "ClientType \<Rightarrow> 'lc ClientImpl \<Rightarrow> (('t, 'lc, 'app, 'w) core, unit) comp" where
  "registerClient typ impl =
     bind (gets clientRegistry) (\<lambda>reg.
     andthen (guard (reg typ = None) (Message ''client type already exists''))
       (modify (\<lambda>s. s\<lparr>clientRegistry := (clientRegistry s)(typ \<mapsto> impl)\<rparr>)))"

definition store_RegisterClient :: "realm \<Rightarrow> ClientType \<Rightarrow> 'lc ClientImpl \<Rightarrow> (('t, 'lc, 'app, 'w) core, unit) comp" where
  "store_RegisterClient rlm typ impl = andthen (assertIsRlmCurrent rlm) (registerClient typ impl)"

definition ClientRegistry :: "ClientType \<Rightarrow> ('t, 'lc, 'app, 'w) core \<Rightarrow> 'lc ClientImpl option" where
  "ClientRegistry typ s = clientRegistry s typ"

definition HasRegisteredClient :: "ClientType \<Rightarrow> ('t, 'lc, 'app, 'w) core \<Rightarrow> bool" where
  "HasRegisteredClient typ s \<longleftrightarrow> ClientRegistry typ s \<noteq> None"

definition nextClientId :: "('t, 'lc, 'app, 'w) env \<Rightarrow> (('t, 'lc, 'app, 'w) core, ClientId) comp" where
  "nextClientId E =
     bind (gets clientSeq) (\<lambda>i.
     bind (need SequenceOverflow (seq_Next E i)) (\<lambda>n.
     andthen (modify (\<lambda>s. s\<lparr>clientSeq := n\<rparr>)) (ok (ucast n))))"

definition addClient :: "('t, 'lc, 'app, 'w) env \<Rightarrow> ClientId \<Rightarrow> ClientType \<Rightarrow> address \<Rightarrow> 'lc \<Rightarrow> (('t, 'lc, 'app, 'w) core, unit) comp" where
  "addClient E clientId typ creat lc =
     bind (gets (ClientRegistry typ)) (\<lambda>clientImpl.
     modify (\<lambda>s. s\<lparr>clientTypeByID := (clientTypeByID s)(clientId \<mapsto> typ),
       clientImplByID := (clientImplByID s)(clientId \<mapsto> clientImpl),
       clientByID := (clientByID s)(clientId \<mapsto>
         \<lparr>client_id = clientId, creator = creat, lightClient = lc, clientState = [],
          consensusByHeight = NewBPTree32 E, clientStore = Map.empty\<rparr>)\<rparr>))"

definition AddClient :: "('t, 'lc, 'app, 'w) env \<Rightarrow> realm \<Rightarrow> ClientType \<Rightarrow> address \<Rightarrow> 'lc \<Rightarrow> (('t, 'lc, 'app, 'w) core, ClientId) comp" where
  "AddClient E rlm typ creat lc =
     andthen (assertIsRlmCurrent rlm)
       (bind (nextClientId E) (\<lambda>clientId. andthen (addClient E clientId typ creat lc) (ok clientId)))"

definition store_GetClientImpl :: "ClientId \<Rightarrow> ('t, 'lc, 'app, 'w) core \<Rightarrow> 'lc ClientImpl option option" where
  "store_GetClientImpl clientId s = clientImplByID s clientId"

definition ClientExists :: "ClientId \<Rightarrow> ('t, 'lc, 'app, 'w) core \<Rightarrow> bool" where
  "ClientExists clientId s \<longleftrightarrow> clientTypeByID s clientId \<noteq> None"

definition store_ClientType :: "ClientId \<Rightarrow> ('t, 'lc, 'app, 'w) core \<Rightarrow> ClientType option" where
  "store_ClientType clientId s = clientTypeByID s clientId"

definition getClient :: "ClientId \<Rightarrow> ('t, 'lc, 'app, 'w) core \<Rightarrow> ('t, 'lc) client option" where
  "getClient clientId s = clientByID s clientId"

definition GetLightClient :: "ClientId \<Rightarrow> ('t, 'lc, 'app, 'w) core \<Rightarrow> 'lc option" where
  "GetLightClient clientId s = map_option lightClient (getClient clientId s)"

text \<open>The setters on a client: they return false, and write nothing, when it is unknown.\<close>

definition onClient :: "ClientId \<Rightarrow> (('t, 'lc) client \<Rightarrow> ('t, 'lc) client) \<Rightarrow> (('t, 'lc, 'app, 'w) core, unit) comp" where
  "onClient clientId f =
     modify (\<lambda>s. s\<lparr>clientByID := (clientByID s)(clientId := map_option f (clientByID s clientId))\<rparr>)"

definition SetLightClient :: "realm \<Rightarrow> ClientId \<Rightarrow> 'lc \<Rightarrow> (('t, 'lc, 'app, 'w) core, bool) comp" where
  "SetLightClient rlm clientId lc =
     andthen (assertIsRlmCurrent rlm)
       (bind (gets (getClient clientId)) (\<lambda>c.
        case c of
          None \<Rightarrow> ok False
        | Some _ \<Rightarrow> andthen (onClient clientId (\<lambda>c. c\<lparr>lightClient := lc\<rparr>)) (ok True)))"

definition SaveClientStore :: "realm \<Rightarrow> ClientId \<Rightarrow> string \<Rightarrow> bytes \<Rightarrow> (('t, 'lc, 'app, 'w) core, bool) comp" where
  "SaveClientStore rlm clientId key val =
     andthen (assertIsRlmCurrent rlm)
       (bind (gets (getClient clientId)) (\<lambda>c.
        case c of
          None \<Rightarrow> ok False
        | Some _ \<Rightarrow> andthen (onClient clientId (\<lambda>c. c\<lparr>clientStore := (clientStore c)(key \<mapsto> val)\<rparr>)) (ok True)))"

definition saveClientState :: "('t, 'lc, 'app, 'w) env \<Rightarrow> ('t, 'lc) client \<Rightarrow> ClientId \<Rightarrow> bytes \<Rightarrow> (('t, 'lc, 'app, 'w) core, unit) comp" where
  "saveClientState E c clientId clientStateBytes =
     andthen (onClient clientId (\<lambda>c. c\<lparr>clientState := clientStateBytes\<rparr>))
       (setChainParam (h256ChainParamKey (ClientStatePath (keccak256 E) (client_id c)))
         (Keccak (keccak256 E) clientStateBytes))"

definition SaveClientState :: "('t, 'lc, 'app, 'w) env \<Rightarrow> realm \<Rightarrow> ClientId \<Rightarrow> bytes \<Rightarrow> (('t, 'lc, 'app, 'w) core, bool) comp" where
  "SaveClientState E rlm clientId clientStateBytes =
     andthen (assertIsRlmCurrent rlm)
       (bind (gets (getClient clientId)) (\<lambda>c.
        case c of
          None \<Rightarrow> ok False
        | Some c \<Rightarrow> andthen (saveClientState E c clientId clientStateBytes) (ok True)))"

definition saveConsensusState :: "('t, 'lc, 'app, 'w) env \<Rightarrow> ('t, 'lc) client \<Rightarrow> ClientId \<Rightarrow> Height \<Rightarrow> bytes \<Rightarrow> (('t, 'lc, 'app, 'w) core, unit) comp" where
  "saveConsensusState E c clientId height consensusStateBytes =
     andthen (onClient clientId (\<lambda>c. c\<lparr>consensusByHeight :=
         bp_Set E (consensusByHeight c) (string_of_bytes (height_Bytes height)) (AnyBytes consensusStateBytes)\<rparr>))
       (setChainParam (h256ChainParamKey (ConsensusStatePath (keccak256 E) (client_id c) height))
         (Keccak (keccak256 E) consensusStateBytes))"

definition SaveConsensusState :: "('t, 'lc, 'app, 'w) env \<Rightarrow> realm \<Rightarrow> ClientId \<Rightarrow> Height \<Rightarrow> bytes \<Rightarrow> (('t, 'lc, 'app, 'w) core, bool) comp" where
  "SaveConsensusState E rlm clientId height consensusStateBytes =
     andthen (assertIsRlmCurrent rlm)
       (bind (gets (getClient clientId)) (\<lambda>c.
        case c of
          None \<Rightarrow> ok False
        | Some c \<Rightarrow> andthen (saveConsensusState E c clientId height consensusStateBytes) (ok True)))"

definition ClientStateBytes :: "ClientId \<Rightarrow> ('t, 'lc, 'app, 'w) core \<Rightarrow> bytes option" where
  "ClientStateBytes clientId s =
     (case getClient clientId s of
        None \<Rightarrow> None
      | Some c \<Rightarrow> if length (clientState c) = 0 then None else Some (clientState c))"

definition ConsensusStateBytes :: "('t, 'lc, 'app, 'w) env \<Rightarrow> ClientId \<Rightarrow> Height \<Rightarrow> (('t, 'lc, 'app, 'w) core, bytes option) comp" where
  "ConsensusStateBytes E clientId height =
     bind (gets (getClient clientId)) (\<lambda>c.
     case c of
       None \<Rightarrow> ok None
     | Some c \<Rightarrow>
         (case bp_Get E (consensusByHeight c) (string_of_bytes (height_Bytes height)) of
            None \<Rightarrow> ok None
          | Some (AnyBytes v) \<Rightarrow> ok (Some v)
          | Some _ \<Rightarrow> panic TypeAssertion))"

section \<open>Connections and channels\<close>

definition NextConnectionId :: "('t, 'lc, 'app, 'w) env \<Rightarrow> realm \<Rightarrow> (('t, 'lc, 'app, 'w) core, ConnectionId) comp" where
  "NextConnectionId E rlm =
     andthen (assertIsRlmCurrent rlm)
       (bind (gets connectionSeq) (\<lambda>i.
        bind (need SequenceOverflow (seq_Next E i)) (\<lambda>n.
        andthen (modify (\<lambda>s. s\<lparr>connectionSeq := n\<rparr>)) (ok (ucast n)))))"

definition SaveConnection :: "('t, 'lc, 'app, 'w) env \<Rightarrow> realm \<Rightarrow> ConnectionId \<Rightarrow> Connection \<Rightarrow> (('t, 'lc, 'app, 'w) core, unit) comp" where
  "SaveConnection E rlm connectionId connection =
     andthen (assertIsRlmCurrent rlm)
       (andthen (modify (\<lambda>s. s\<lparr>connections := bp_Set E (connections s) (connectionKey E connectionId) (AnyConnection connection)\<rparr>))
         (bind (lift (connectionValue (keccak256 E) connection)) (\<lambda>val.
          setChainParam (h256ChainParamKey (ConnectionPath (keccak256 E) connectionId)) val)))"

definition store_GetConnection :: "('t, 'lc, 'app, 'w) env \<Rightarrow> ConnectionId \<Rightarrow> (('t, 'lc, 'app, 'w) core, Connection option) comp" where
  "store_GetConnection E connectionId =
     bind (gets (\<lambda>s. bp_Get E (connections s) (connectionKey E connectionId))) (\<lambda>v.
     case v of
       None \<Rightarrow> ok None
     | Some (AnyConnection c) \<Rightarrow> ok (Some c)
     | Some _ \<Rightarrow> panic TypeAssertion)"

definition NextChannelId :: "('t, 'lc, 'app, 'w) env \<Rightarrow> realm \<Rightarrow> (('t, 'lc, 'app, 'w) core, ChannelId) comp" where
  "NextChannelId E rlm =
     andthen (assertIsRlmCurrent rlm)
       (bind (gets channelSeq) (\<lambda>i.
        bind (need SequenceOverflow (seq_Next E i)) (\<lambda>n.
        andthen (modify (\<lambda>s. s\<lparr>channelSeq := n\<rparr>)) (ok (ucast n)))))"

definition CreateChannel :: "('t, 'lc, 'app, 'w) env \<Rightarrow> realm \<Rightarrow> ChannelId \<Rightarrow> Channel \<Rightarrow> bytes \<Rightarrow> (('t, 'lc, 'app, 'w) core, unit) comp" where
  "CreateChannel E rlm channelId channel portId =
     andthen (assertIsRlmCurrent rlm)
       (andthen (modify (\<lambda>s. s\<lparr>channels := bp_Set E (channels s) (channelKey E channelId)
            (AnyChannel \<lparr>entry_channel = channel, entry_portId = portId\<rparr>)\<rparr>))
         (bind (lift (channelValue (keccak256 E) channel)) (\<lambda>val.
          setChainParam (h256ChainParamKey (ChannelPath (keccak256 E) channelId)) val)))"

definition getChannelEntry :: "('t, 'lc, 'app, 'w) env \<Rightarrow> ChannelId \<Rightarrow> (('t, 'lc, 'app, 'w) core, channelEntry option) comp" where
  "getChannelEntry E channelId =
     bind (gets (\<lambda>s. bp_Get E (channels s) (channelKey E channelId))) (\<lambda>v.
     case v of
       None \<Rightarrow> ok None
     | Some (AnyChannel c) \<Rightarrow> ok (Some c)
     | Some _ \<Rightarrow> panic TypeAssertion)"

text \<open>\<open>saveChannel\<close> assigns to a field of the entry the tree points to: the entry of that key
  changes, and no other key shares it (\<open>createChannel\<close> allocates one per key).\<close>

definition SaveChannel :: "('t, 'lc, 'app, 'w) env \<Rightarrow> realm \<Rightarrow> ChannelId \<Rightarrow> Channel \<Rightarrow> (('t, 'lc, 'app, 'w) core, unit) comp" where
  "SaveChannel E rlm channelId channel =
     andthen (assertIsRlmCurrent rlm)
       (bind (getChannelEntry E channelId) (\<lambda>found.
        bind (need (ErrChannelNotFoundId channelId) found) (\<lambda>entry.
        andthen (modify (\<lambda>s. s\<lparr>channels := bp_Set E (channels s) (channelKey E channelId)
            (AnyChannel (entry\<lparr>entry_channel := channel\<rparr>))\<rparr>))
          (bind (lift (channelValue (keccak256 E) channel)) (\<lambda>val.
           setChainParam (h256ChainParamKey (ChannelPath (keccak256 E) channelId)) val)))))"

definition store_GetChannel :: "('t, 'lc, 'app, 'w) env \<Rightarrow> ChannelId \<Rightarrow> (('t, 'lc, 'app, 'w) core, Channel option) comp" where
  "store_GetChannel E channelId =
     bind (getChannelEntry E channelId) (\<lambda>entry. ok (map_option entry_channel entry))"

definition store_GetChannelOwner :: "('t, 'lc, 'app, 'w) env \<Rightarrow> ChannelId \<Rightarrow> (('t, 'lc, 'app, 'w) core, bytes option) comp" where
  "store_GetChannelOwner E channelId =
     bind (getChannelEntry E channelId) (\<lambda>entry. ok (map_option entry_portId entry))"

definition store_GetChannels :: "('t, 'lc, 'app, 'w) env \<Rightarrow> ('t, 'lc, 'app, 'w) core \<Rightarrow> Channel list" where
  "store_GetChannels E s =
     concat (map (\<lambda>(key, val). case val of AnyChannel entry \<Rightarrow> [entry_channel entry] | _ \<Rightarrow> [])
       (bp_Iterate E (channels s)))"

section \<open>Apps\<close>

definition GetAppByPortId :: "bytes \<Rightarrow> ('t, 'lc, 'app, 'w) core \<Rightarrow> 'app option option" where
  "GetAppByPortId portId s = ports s (portKey portId)"

definition HasApp :: "bytes \<Rightarrow> ('t, 'lc, 'app, 'w) core \<Rightarrow> bool" where
  "HasApp portId s \<longleftrightarrow> ports s (portKey portId) \<noteq> None"

definition RegisterAppAtPort :: "realm \<Rightarrow> bytes \<Rightarrow> 'app option \<Rightarrow> (('t, 'lc, 'app, 'w) core, unit) comp" where
  "RegisterAppAtPort rlm portId a =
     andthen (assertIsRlmCurrent rlm)
       (bind (gets ports) (\<lambda>ps.
        andthen (guard (ps (portKey portId) = None)
            (Message (''port '' @ string_of_bytes portId @ '' already registered'')))
          (modify (\<lambda>s. s\<lparr>ports := (ports s)(portKey portId \<mapsto> a)\<rparr>))))"

section \<open>Events\<close>

text \<open>The two checks in front of every \<^verbatim>\<open>Emit\<close> function, then \<^verbatim>\<open>chain.Emit\<close>.\<close>

definition emit :: "('t, 'lc, 'app, 'w) env \<Rightarrow> realm \<Rightarrow> string \<Rightarrow> string list \<Rightarrow> (('t, 'lc, 'app, 'w) core, unit) comp" where
  "emit E rlm name attrs =
     andthen (assertIsRlmCurrent rlm)
       (andthen (assertIsProxyRealm (proxyPkgPath E) rlm)
         (modify (\<lambda>s. s\<lparr>events := events s @ [(name, attrs)]\<rparr>)))"

definition emitAttrs :: "('t, 'lc, 'app, 'w) env \<Rightarrow> realm \<Rightarrow> string \<Rightarrow> (EventConfig \<Rightarrow> core_error + string list) \<Rightarrow> (('t, 'lc, 'app, 'w) core, unit) comp" where
  "emitAttrs E rlm name attrs =
     andthen (assertIsRlmCurrent rlm)
       (andthen (assertIsProxyRealm (proxyPkgPath E) rlm)
         (bind (gets eventConfig) (\<lambda>config.
          bind (lift (attrs config)) (\<lambda>a. modify (\<lambda>s. s\<lparr>events := events s @ [(name, a)]\<rparr>)))))"

text \<open>The variants that check the size of the field they carry first.\<close>

definition emitSized :: "('t, 'lc, 'app, 'w) env \<Rightarrow> realm \<Rightarrow> string \<Rightarrow> bytes \<Rightarrow> (EventConfig \<Rightarrow> core_error + string list) \<Rightarrow> (('t, 'lc, 'app, 'w) core, unit) comp" where
  "emitSized E rlm name field attrs =
     andthen (assertIsRlmCurrent rlm)
       (andthen (assertIsProxyRealm (proxyPkgPath E) rlm)
         (bind (gets eventConfig) (\<lambda>config.
          bind (lift (IsValidEventSize config [field])) (\<lambda>valid.
          andthen (guard valid ErrPacketCombinedDataTooLarge)
            (bind (lift (attrs config)) (\<lambda>a. modify (\<lambda>s. s\<lparr>events := events s @ [(name, a)]\<rparr>)))))))"

end
