(* ===== verification/CoreHandshake.thy ===== *)
theory CoreHandshake
  imports CoreStore
begin

text \<open>
  Light clients and connections in the host implementation: \<^verbatim>\<open>core/v1/client.gno\<close> and
  \<^verbatim>\<open>core/v1/connection.gno\<close>, with the events they emit (\<^verbatim>\<open>core/emit.gno\<close>). The gate of the
  access manager in front of each entry point stays on the proxy and is not part of these
  handlers.
\<close>

section \<open>Proof verification (client.gno)\<close>

definition resolveRelayer :: "address \<Rightarrow> string \<Rightarrow> address" where
  "resolveRelayer caller relayer = (if relayer = [] then caller else relayer)"

definition getClientOrErr :: "ClientId \<Rightarrow> (('t, 'lc, 'app, 'w) core, 'lc) comp" where
  "getClientOrErr clientId =
     bind (gets (GetLightClient clientId)) (\<lambda>lc. need (ErrClientNotFoundId clientId) lc)"

definition getActiveClient :: "('t, 'lc, 'app, 'w) env \<Rightarrow> ClientId \<Rightarrow> (('t, 'lc, 'app, 'w) core, 'lc) comp" where
  "getActiveClient E clientId =
     bind (getClientOrErr clientId) (\<lambda>lc.
     andthen (guard (lc_Status E lc = Active) ErrClientNotActive) (ok lc))"

definition verifyMembership :: "('t, 'lc, 'app, 'w) env \<Rightarrow> ClientId \<Rightarrow> Height \<Rightarrow> bytes \<Rightarrow> bytes \<Rightarrow> bytes \<Rightarrow> (('t, 'lc, 'app, 'w) core, unit) comp" where
  "verifyMembership E clientId height prf key val =
     bind (getActiveClient E clientId) (\<lambda>lc.
     case lc_VerifyMembership E lc (RevisionHeight height) key prf val of
       Some err \<Rightarrow> panic (LightClientError err)
     | None \<Rightarrow> ok ())"

definition verifyNonMembership :: "('t, 'lc, 'app, 'w) env \<Rightarrow> ClientId \<Rightarrow> Height \<Rightarrow> bytes \<Rightarrow> bytes \<Rightarrow> (('t, 'lc, 'app, 'w) core, unit) comp" where
  "verifyNonMembership E clientId height prf key =
     bind (getActiveClient E clientId) (\<lambda>lc.
     case lc_VerifyNonMembership E lc (RevisionHeight height) key prf of
       Some err \<Rightarrow> panic (LightClientError err)
     | None \<Rightarrow> ok ())"

section \<open>Client lifecycle (client.gno)\<close>

definition EmitRegisterClient :: "('t, 'lc, 'app, 'w) env \<Rightarrow> realm \<Rightarrow> ClientType \<Rightarrow> (('t, 'lc, 'app, 'w) core, unit) comp" where
  "EmitRegisterClient E rlm clientType = emit E rlm ''RegisterClient'' [''client_type'', clientType]"

definition EmitCreateClient :: "('t, 'lc, 'app, 'w) env \<Rightarrow> realm \<Rightarrow> ClientId \<Rightarrow> ClientType \<Rightarrow> string \<Rightarrow> (('t, 'lc, 'app, 'w) core, unit) comp" where
  "EmitCreateClient E rlm clientId clientType counterpartyChainId =
     emit E rlm ''CreateClient''
       [''client_id'', id_String clientId, ''client_type'', clientType, ''counterparty_chain_id'', counterpartyChainId]"

definition EmitUpdateClient :: "('t, 'lc, 'app, 'w) env \<Rightarrow> realm \<Rightarrow> ClientId \<Rightarrow> Height \<Rightarrow> (('t, 'lc, 'app, 'w) core, unit) comp" where
  "EmitUpdateClient E rlm clientId height =
     emit E rlm ''UpdateClient'' [''client_id'', id_String clientId, ''height'', height_String height]"

definition EmitForceUpdateClient :: "('t, 'lc, 'app, 'w) env \<Rightarrow> realm \<Rightarrow> ClientId \<Rightarrow> Height \<Rightarrow> (('t, 'lc, 'app, 'w) core, unit) comp" where
  "EmitForceUpdateClient E rlm clientId height =
     emit E rlm ''ForceUpdateClient'' [''client_id'', id_String clientId, ''height'', height_String height]"

definition EmitMisbehaviour :: "('t, 'lc, 'app, 'w) env \<Rightarrow> realm \<Rightarrow> ClientId \<Rightarrow> (('t, 'lc, 'app, 'w) core, unit) comp" where
  "EmitMisbehaviour E rlm clientId = emit E rlm ''Misbehaviour'' [''client_id'', id_String clientId]"

definition RegisterClient :: "('t, 'lc, 'app, 'w) env \<Rightarrow> realm \<Rightarrow> ClientType \<Rightarrow> 'lc ClientImpl option \<Rightarrow> (('t, 'lc, 'app, 'w) core, unit) comp" where
  "RegisterClient E rlm clientType clientImpl =
     andthen (assertIsRlmCurrent rlm)
       (bind (need (Message ''caller not authorized to register client: unauthorized'') clientImpl) (\<lambda>impl.
        andthen (store_RegisterClient rlm clientType impl) (EmitRegisterClient E rlm clientType)))"

text \<open>A light client is an object the client entry points to: what one of its methods changes
  in it is in place for the next reader.\<close>

definition updateObject :: "ClientId \<Rightarrow> 'lc \<Rightarrow> (('t, 'lc, 'app, 'w) core, unit) comp" where
  "updateObject clientId lc = onClient clientId (\<lambda>c. c\<lparr>lightClient := lc\<rparr>)"

definition saveStorageWrites :: "realm \<Rightarrow> ClientId \<Rightarrow> (string \<times> bytes) list \<Rightarrow> (('t, 'lc, 'app, 'w) core, unit) comp" where
  "saveStorageWrites rlm clientId writes =
     each (\<lambda>(k, v). andthen (SaveClientStore rlm clientId k v) (ok ())) writes"

definition initClient :: "('t, 'lc, 'app, 'w) env \<Rightarrow> realm \<Rightarrow> ClientId \<Rightarrow> bytes \<Rightarrow> bytes \<Rightarrow> address \<Rightarrow> (('t, 'lc, 'app, 'w) core, Height) comp" where
  "initClient E rlm clientId clientStateBytes consensusStateBytes relayer =
     bind (gets (GetLightClient clientId)) (\<lambda>found.
     bind (need (Message (''client '' @ id_String clientId @ '' not found'')) found) (\<lambda>lc.
     andthen (SaveClientState E rlm clientId clientStateBytes)
     (let height = NewHeight (lc_GetLatestHeight E lc) in
     andthen (SaveConsensusState E rlm clientId height consensusStateBytes)
     (case lc_VerifyCreation E lc (PrevAddress rlm) relayer of
        Inl err \<Rightarrow> panic (Message (''create client: '' @ err))
      | Inr (result, lc') \<Rightarrow>
          andthen (updateObject clientId lc')
          (andthen (if length (cc_ClientStateBytes result) \<noteq> 0
                    then andthen (SaveClientState E rlm clientId (cc_ClientStateBytes result)) (ok ())
                    else ok ())
          (andthen (saveStorageWrites rlm clientId (cc_StorageWrites result))
          (ok height)))))))"

definition CreateClient :: "('t, 'lc, 'app, 'w) env \<Rightarrow> realm \<Rightarrow> MsgCreateClient \<Rightarrow> (('t, 'lc, 'app, 'w) core, unit) comp" where
  "CreateClient E rlm msg =
     andthen (assertIsRlmCurrent rlm)
       (let creat = PrevAddress rlm; relayer = resolveRelayer creat (mcc_Relayer msg) in
        bind (gets (ClientRegistry (mcc_ClientType msg))) (\<lambda>found.
        bind (need (Message ''client type not found'') found) (\<lambda>clientImpl.
        case clientImpl (mcc_ClientStateBytes msg) (mcc_ConsensusStateBytes msg) of
          Inl err \<Rightarrow> panic (Message (''create client: '' @ err))
        | Inr lc \<Rightarrow>
            bind (AddClient E rlm (mcc_ClientType msg) creat lc) (\<lambda>clientId.
            andthen (initClient E rlm clientId (mcc_ClientStateBytes msg) (mcc_ConsensusStateBytes msg) relayer)
            (bind (gets (GetLightClient clientId)) (\<lambda>stored.
             bind (need NilDereference stored) (\<lambda>lc'.
             EmitCreateClient E rlm clientId (mcc_ClientType msg) (lc_GetCounterpartyChainID E lc'))))))))"

definition UpdateClient :: "('t, 'lc, 'app, 'w) env \<Rightarrow> realm \<Rightarrow> MsgUpdateClient \<Rightarrow> (('t, 'lc, 'app, 'w) core, unit) comp" where
  "UpdateClient E rlm msg =
     andthen (assertIsRlmCurrent rlm)
       (bind (getActiveClient E (muc_ClientId msg)) (\<lambda>lc.
        let caller = PrevAddress rlm; relayer = resolveRelayer caller (muc_Relayer msg) in
        case lc_VerifyHeader E lc caller (muc_ClientMessage msg) relayer of
          Inl err \<Rightarrow> panic (Message (''update client: '' @ err))
        | Inr (update, lc') \<Rightarrow>
            andthen (updateObject (muc_ClientId msg) lc')
            (let height = NewHeight (su_Height update) in
             andthen (if length (su_ClientStateBytes update) \<noteq> 0
                      then andthen (SaveClientState E rlm (muc_ClientId msg) (su_ClientStateBytes update)) (ok ())
                      else ok ())
             (andthen (SaveConsensusState E rlm (muc_ClientId msg) height (su_ConsensusStateBytes update))
             (andthen (saveStorageWrites rlm (muc_ClientId msg) (su_StorageWrites update))
             (EmitUpdateClient E rlm (muc_ClientId msg) height))))))"

definition ForceUpdateClient :: "('t, 'lc, 'app, 'w) env \<Rightarrow> realm \<Rightarrow> MsgForceUpdateClient \<Rightarrow> (('t, 'lc, 'app, 'w) core, unit) comp" where
  "ForceUpdateClient E rlm msg =
     andthen (assertIsRlmCurrent rlm)
       (bind (gets (store_GetClientImpl (mfu_ClientId msg))) (\<lambda>found.
        bind (need (ErrClientNotFoundId (mfu_ClientId msg)) found) (\<lambda>clientImpl.
        bind (need NilDereference clientImpl) (\<lambda>impl.
        case impl (mfu_ClientStateBytes msg) (mfu_ConsensusStateBytes msg) of
          Inl err \<Rightarrow> panic (Message (''force update client: '' @ err))
        | Inr nxt \<Rightarrow>
            andthen (SetLightClient rlm (mfu_ClientId msg) nxt)
            (bind (initClient E rlm (mfu_ClientId msg) (mfu_ClientStateBytes msg)
                     (mfu_ConsensusStateBytes msg) (PrevAddress rlm)) (\<lambda>height.
             EmitForceUpdateClient E rlm (mfu_ClientId msg) height))))))"

definition Misbehaviour :: "('t, 'lc, 'app, 'w) env \<Rightarrow> realm \<Rightarrow> MsgMisbehaviour \<Rightarrow> (('t, 'lc, 'app, 'w) core, unit) comp" where
  "Misbehaviour E rlm msg =
     andthen (assertIsRlmCurrent rlm)
       (bind (getActiveClient E (mmb_ClientId msg)) (\<lambda>lc.
        let caller = PrevAddress rlm; relayer = resolveRelayer caller (mmb_Relayer msg) in
        case lc_Misbehaviour E lc caller (mmb_ClientMessage msg) relayer of
          Inl err \<Rightarrow> panic (Message (''misbehaviour: '' @ err))
        | Inr (clientStateBytes, lc') \<Rightarrow>
            andthen (updateObject (mmb_ClientId msg) lc')
            (andthen (if length clientStateBytes \<noteq> 0
                      then andthen (SaveClientState E rlm (mmb_ClientId msg) clientStateBytes) (ok ())
                      else ok ())
            (EmitMisbehaviour E rlm (mmb_ClientId msg)))))"

section \<open>Connection handshake (connection.gno)\<close>

definition EmitConnectionOpenInit :: "('t, 'lc, 'app, 'w) env \<Rightarrow> realm \<Rightarrow> ConnectionId \<Rightarrow> ClientId \<Rightarrow> ClientId \<Rightarrow> (('t, 'lc, 'app, 'w) core, unit) comp" where
  "EmitConnectionOpenInit E rlm connectionId clientId counterpartyClientId =
     emit E rlm ''ConnectionOpenInit''
       [''connection_id'', id_String connectionId, ''client_id'', id_String clientId,
        ''counterparty_client_id'', id_String counterpartyClientId]"

definition EmitConnectionOpenTry :: "('t, 'lc, 'app, 'w) env \<Rightarrow> realm \<Rightarrow> ConnectionId \<Rightarrow> ClientId \<Rightarrow> ClientId \<Rightarrow> ConnectionId \<Rightarrow> (('t, 'lc, 'app, 'w) core, unit) comp" where
  "EmitConnectionOpenTry E rlm connectionId clientId counterpartyClientId counterpartyConnectionId =
     emit E rlm ''ConnectionOpenTry''
       (connectionOpenEventAttrs connectionId clientId counterpartyClientId counterpartyConnectionId)"

definition EmitConnectionOpenAck :: "('t, 'lc, 'app, 'w) env \<Rightarrow> realm \<Rightarrow> ConnectionId \<Rightarrow> ClientId \<Rightarrow> ClientId \<Rightarrow> ConnectionId \<Rightarrow> (('t, 'lc, 'app, 'w) core, unit) comp" where
  "EmitConnectionOpenAck E rlm connectionId clientId counterpartyClientId counterpartyConnectionId =
     emit E rlm ''ConnectionOpenAck''
       (connectionOpenEventAttrs connectionId clientId counterpartyClientId counterpartyConnectionId)"

definition EmitConnectionOpenConfirm :: "('t, 'lc, 'app, 'w) env \<Rightarrow> realm \<Rightarrow> ConnectionId \<Rightarrow> ClientId \<Rightarrow> ClientId \<Rightarrow> ConnectionId \<Rightarrow> (('t, 'lc, 'app, 'w) core, unit) comp" where
  "EmitConnectionOpenConfirm E rlm connectionId clientId counterpartyClientId counterpartyConnectionId =
     emit E rlm ''ConnectionOpenConfirm''
       (connectionOpenEventAttrs connectionId clientId counterpartyClientId counterpartyConnectionId)"

definition ConnectionOpenInit :: "('t, 'lc, 'app, 'w) env \<Rightarrow> realm \<Rightarrow> MsgConnectionOpenInit \<Rightarrow> (('t, 'lc, 'app, 'w) core, unit) comp" where
  "ConnectionOpenInit E rlm msg =
     andthen (assertIsRlmCurrent rlm)
       (bind (NextConnectionId E rlm) (\<lambda>connectionId.
        let connection = NewConnection ConnectionStateInit (coi_ClientId msg) (coi_CounterpartyClientId msg) 0 in
        andthen (SaveConnection E rlm connectionId connection)
          (EmitConnectionOpenInit E rlm connectionId (coi_ClientId msg) (coi_CounterpartyClientId msg))))"

definition connectionOpenTry :: "('t, 'lc, 'app, 'w) env \<Rightarrow> realm \<Rightarrow> MsgConnectionOpenTry \<Rightarrow> bool \<Rightarrow> (('t, 'lc, 'app, 'w) core, unit) comp" where
  "connectionOpenTry E rlm msg verify =
     bind (NextConnectionId E rlm) (\<lambda>connectionId.
     let connection = NewConnection ConnectionStateTryOpen (cot_ClientId msg) (cot_CounterpartyClientId msg)
           (cot_CounterpartyConnectionId msg) in
     andthen (if verify
              then let expectedConnection = NewConnection ConnectionStateInit (cot_CounterpartyClientId msg) (cot_ClientId msg) 0;
                       key = ConnectionPath (keccak256 E) (cot_CounterpartyConnectionId msg) in
                   bind (lift (connectionValue (keccak256 E) expectedConnection)) (\<lambda>val.
                   verifyMembership E (cot_ClientId msg) (NewHeight (cot_ProofHeight msg)) (cot_ProofInit msg) key val)
              else ok ())
     (andthen (SaveConnection E rlm connectionId connection)
       (EmitConnectionOpenTry E rlm connectionId (cot_ClientId msg) (cot_CounterpartyClientId msg)
          (cot_CounterpartyConnectionId msg))))"

definition ConnectionOpenTry :: "('t, 'lc, 'app, 'w) env \<Rightarrow> realm \<Rightarrow> MsgConnectionOpenTry \<Rightarrow> (('t, 'lc, 'app, 'w) core, unit) comp" where
  "ConnectionOpenTry E rlm msg = andthen (assertIsRlmCurrent rlm) (connectionOpenTry E rlm msg True)"

definition ForceConnectionOpenTry :: "('t, 'lc, 'app, 'w) env \<Rightarrow> realm \<Rightarrow> MsgConnectionOpenTry \<Rightarrow> (('t, 'lc, 'app, 'w) core, unit) comp" where
  "ForceConnectionOpenTry E rlm msg = andthen (assertIsRlmCurrent rlm) (connectionOpenTry E rlm msg False)"

definition connectionOpenAck :: "('t, 'lc, 'app, 'w) env \<Rightarrow> realm \<Rightarrow> MsgConnectionOpenAck \<Rightarrow> bool \<Rightarrow> (('t, 'lc, 'app, 'w) core, unit) comp" where
  "connectionOpenAck E rlm msg verify =
     bind (store_GetConnection E (coa_ConnectionId msg)) (\<lambda>found.
     bind (need (ErrConnectionNotFoundId (coa_ConnectionId msg)) found) (\<lambda>connection.
     andthen (guard (conn_State connection = ConnectionStateInit) ErrInvalidConnectionState)
     (andthen (if verify
               then let expectedConnection = NewConnection ConnectionStateTryOpen (conn_CounterpartyClientId connection)
                          (conn_ClientId connection) (coa_ConnectionId msg);
                        key = ConnectionPath (keccak256 E) (coa_CounterpartyConnectionId msg) in
                    bind (lift (connectionValue (keccak256 E) expectedConnection)) (\<lambda>val.
                    verifyMembership E (conn_ClientId connection) (NewHeight (coa_ProofHeight msg)) (coa_ProofTry msg) key val)
               else ok ())
     (let updated = NewConnection ConnectionStateOpen (conn_ClientId connection) (conn_CounterpartyClientId connection)
            (coa_CounterpartyConnectionId msg) in
      andthen (SaveConnection E rlm (coa_ConnectionId msg) updated)
        (EmitConnectionOpenAck E rlm (coa_ConnectionId msg) (conn_ClientId connection)
           (conn_CounterpartyClientId connection) (coa_CounterpartyConnectionId msg))))))"

definition ConnectionOpenAck :: "('t, 'lc, 'app, 'w) env \<Rightarrow> realm \<Rightarrow> MsgConnectionOpenAck \<Rightarrow> (('t, 'lc, 'app, 'w) core, unit) comp" where
  "ConnectionOpenAck E rlm msg = andthen (assertIsRlmCurrent rlm) (connectionOpenAck E rlm msg True)"

definition ForceConnectionOpenAck :: "('t, 'lc, 'app, 'w) env \<Rightarrow> realm \<Rightarrow> MsgConnectionOpenAck \<Rightarrow> (('t, 'lc, 'app, 'w) core, unit) comp" where
  "ForceConnectionOpenAck E rlm msg = andthen (assertIsRlmCurrent rlm) (connectionOpenAck E rlm msg False)"

definition connectionOpenConfirm :: "('t, 'lc, 'app, 'w) env \<Rightarrow> realm \<Rightarrow> MsgConnectionOpenConfirm \<Rightarrow> bool \<Rightarrow> (('t, 'lc, 'app, 'w) core, unit) comp" where
  "connectionOpenConfirm E rlm msg verify =
     bind (store_GetConnection E (coc_ConnectionId msg)) (\<lambda>found.
     bind (need (ErrConnectionNotFoundId (coc_ConnectionId msg)) found) (\<lambda>connection.
     andthen (guard (conn_State connection = ConnectionStateTryOpen) ErrInvalidConnectionState)
     (let counterpartyConnectionId = conn_CounterpartyConnectionId connection in
      andthen (if verify
               then let expectedConnection = NewConnection ConnectionStateOpen (conn_CounterpartyClientId connection)
                          (conn_ClientId connection) (coc_ConnectionId msg);
                        key = ConnectionPath (keccak256 E) counterpartyConnectionId in
                    bind (lift (connectionValue (keccak256 E) expectedConnection)) (\<lambda>val.
                    verifyMembership E (conn_ClientId connection) (NewHeight (coc_ProofHeight msg)) (coc_ProofAck msg) key val)
               else ok ())
      (let updated = NewConnection ConnectionStateOpen (conn_ClientId connection) (conn_CounterpartyClientId connection)
             counterpartyConnectionId in
       andthen (SaveConnection E rlm (coc_ConnectionId msg) updated)
         (EmitConnectionOpenConfirm E rlm (coc_ConnectionId msg) (conn_ClientId connection)
            (conn_CounterpartyClientId connection) counterpartyConnectionId)))))"

definition ConnectionOpenConfirm :: "('t, 'lc, 'app, 'w) env \<Rightarrow> realm \<Rightarrow> MsgConnectionOpenConfirm \<Rightarrow> (('t, 'lc, 'app, 'w) core, unit) comp" where
  "ConnectionOpenConfirm E rlm msg = andthen (assertIsRlmCurrent rlm) (connectionOpenConfirm E rlm msg True)"

definition ForceConnectionOpenConfirm :: "('t, 'lc, 'app, 'w) env \<Rightarrow> realm \<Rightarrow> MsgConnectionOpenConfirm \<Rightarrow> (('t, 'lc, 'app, 'w) core, unit) comp" where
  "ForceConnectionOpenConfirm E rlm msg = andthen (assertIsRlmCurrent rlm) (connectionOpenConfirm E rlm msg False)"

definition ensureConnectionState :: "('t, 'lc, 'app, 'w) env \<Rightarrow> ConnectionId \<Rightarrow> (('t, 'lc, 'app, 'w) core, Connection) comp" where
  "ensureConnectionState E connectionId =
     bind (store_GetConnection E connectionId) (\<lambda>found.
     bind (need (ErrConnectionNotFoundId connectionId) found) (\<lambda>connection.
     andthen (guard (conn_State connection = ConnectionStateOpen) ErrInvalidConnectionState)
       (ok connection)))"

end
