(* ===== verification/CorePacket.thy ===== *)
theory CorePacket
  imports CoreHandshake
begin

text \<open>
  The packet lifecycle (\<^verbatim>\<open>core/v1/packet.gno\<close>) and the app registry (\<^verbatim>\<open>core/v1/app.gno\<close>). \<open>SendPacket\<close> and \<open>WriteAcknowledgement\<close> come first because apps
  call them from inside their callbacks; \<open>callApp\<close> runs a callback, with those calls executed on the
  state of the host at that point.
\<close>

section \<open>Sending and asynchronous acknowledgement (packet.gno)\<close>

definition getChannel :: "('t, 'lc, 'app, 'w) env \<Rightarrow> ChannelId \<Rightarrow> (('t, 'lc, 'app, 'w) core, Channel) comp" where
  "getChannel E channelId =
     bind (store_GetChannel E channelId) (\<lambda>found. need (ErrChannelNotFoundId channelId) found)"

definition assertPacketDataSize :: "bytes \<Rightarrow> (('t, 'lc, 'app, 'w) core, unit) comp" where
  "assertPacketDataSize data =
     bind (gets eventConfig) (\<lambda>config. guard (IsValidPacketDataSize config data) ErrPacketCombinedDataTooLarge)"

definition EmitPacketSend :: "('t, 'lc, 'app, 'w) env \<Rightarrow> realm \<Rightarrow> Packet \<Rightarrow> Channel \<Rightarrow> Connection \<Rightarrow> (('t, 'lc, 'app, 'w) core, unit) comp" where
  "EmitPacketSend E rlm packet sourceChannel sourceConnection =
     emitAttrs E rlm ''PacketSend''
       (\<lambda>config. packetSendEventAttrs (keccak256 E) config packet sourceChannel sourceConnection)"

definition EmitWriteAck :: "('t, 'lc, 'app, 'w) env \<Rightarrow> realm \<Rightarrow> Packet \<Rightarrow> Channel \<Rightarrow> Connection \<Rightarrow> bytes \<Rightarrow> (('t, 'lc, 'app, 'w) core, unit) comp" where
  "EmitWriteAck E rlm packet destinationChannel connection acknowledgement =
     emitSized E rlm ''WriteAck'' acknowledgement
       (\<lambda>config. writeAckEventAttrs (keccak256 E) config packet destinationChannel connection acknowledgement)"

definition SendPacket :: "('t, 'lc, 'app, 'w) env \<Rightarrow> realm \<Rightarrow> ChannelId \<Rightarrow> Timestamp \<Rightarrow> bytes \<Rightarrow> (('t, 'lc, 'app, 'w) core, Packet) comp" where
  "SendPacket E rlm sourceChannelId timeoutTimestamp data =
     andthen (assertIsRlmCurrent rlm)
     (andthen (assertPacketDataSize data)
     (andthen (guard (timeoutTimestamp \<noteq> 0) ErrTimeoutMustBeSet)
     (bind (store_GetChannelOwner E sourceChannelId) (\<lambda>owner.
      bind (need (ErrChannelNotFoundId sourceChannelId) owner) (\<lambda>portId.
      andthen (guard (string_of_bytes portId = PrevPkgPath rlm) ErrUnauthorizedPacketSender)
      (bind (getChannel E sourceChannelId) (\<lambda>channel.
       andthen (guard (chan_State channel = ChannelStateOpen) ErrInvalidChannelState)
       (bind (ensureConnectionState E (chan_ConnectionId channel)) (\<lambda>connection.
        let packet = \<lparr>SourceChannelId = sourceChannelId, DestinationChannelId = chan_CounterpartyChannelId channel,
              Data = data, TimeoutHeight = 0, TimeoutTimestamp = timeoutTimestamp\<rparr> in
        bind (HasPacketCommitment E packet) (\<lambda>has.
        andthen (guard (\<not> has) ErrPacketCommitmentAlreadyExists)
        (andthen (store_CommitPacket E rlm packet)
        (andthen (EmitPacketSend E rlm packet channel connection)
         (ok packet)))))))))))))"

definition WriteAcknowledgement :: "('t, 'lc, 'app, 'w) env \<Rightarrow> realm \<Rightarrow> MsgWriteAcknowledgement \<Rightarrow> (('t, 'lc, 'app, 'w) core, unit) comp" where
  "WriteAcknowledgement E rlm msg =
     andthen (assertIsRlmCurrent rlm)
     (andthen (guard (length (mwa_Acknowledgement msg) \<noteq> 0) ErrAcknowledgementEmpty)
     (let channelId = DestinationChannelId (mwa_Packet msg) in
      bind (store_GetChannelOwner E channelId) (\<lambda>owner.
      bind (need (ErrChannelNotFoundId channelId) owner) (\<lambda>portId.
      andthen (guard (string_of_bytes portId = PrevPkgPath rlm) ErrUnauthorizedAckWriter)
      (bind (AcknowledgementReceipt E (mwa_Packet msg)) (\<lambda>receipt.
       bind (need ErrPacketReceiptNotFound receipt) (\<lambda>commitment.
       andthen (guard (commitment = COMMITMENT_MAGIC) ErrAcknowledgementAlreadyWritten)
       (bind (getChannel E channelId) (\<lambda>channel.
        bind (ensureConnectionState E (chan_ConnectionId channel)) (\<lambda>connection.
        andthen (CommitAcknowledgement E rlm (mwa_Packet msg) (mwa_Acknowledgement msg))
          (EmitWriteAck E rlm (mwa_Packet msg) channel connection (mwa_Acknowledgement msg))))))))))))"

section \<open>Apps\<close>

text \<open>A call into the host from realm \<open>(addr, path)\<close> crosses into the proxy.\<close>

definition crossing :: "('t, 'lc, 'app, 'w) env \<Rightarrow> address \<Rightarrow> string \<Rightarrow> realm" where
  "crossing E addr path =
     \<lparr>IsCurrent = True, PkgPath = proxyPkgPath E, PrevAddress = addr, PrevPkgPath = path\<rparr>"

primrec run_prog :: "('t, 'lc, 'app, 'w) env \<Rightarrow> (('t, 'lc, 'app, 'w) core, 'w, 'r) prog \<Rightarrow> (('t, 'lc, 'app, 'w) core, 'r) comp" where
  "run_prog E (Done r w) = andthen (modify (\<lambda>s. s\<lparr>world := w\<rparr>)) (ok r)"
| "run_prog E AppPanics = panic AppPanic"
| "run_prog E (Reads k) = (\<lambda>s. run_prog E (k s) s)"
| "run_prog E (CallSendPacket addr path channelId ts data k) =
     (\<lambda>s. case SendPacket E (crossing E addr path) channelId ts data s of
        Inl e \<Rightarrow> Inl e
      | Inr (packet, s') \<Rightarrow> run_prog E (k packet) s')"
| "run_prog E (CallWriteAcknowledgement addr path packet ack k) =
     (\<lambda>s. case WriteAcknowledgement E (crossing E addr path) \<lparr>mwa_Packet = packet, mwa_Acknowledgement = ack\<rparr> s of
        Inl e \<Rightarrow> Inl e
      | Inr (_, s') \<Rightarrow> run_prog E k s')"

text \<open>Calling a method of the app registered at a port; calling one of a nil interface panics.\<close>

definition callApp :: "('t, 'lc, 'app, 'w) env \<Rightarrow> 'app option \<Rightarrow> ('app \<Rightarrow> 'w \<Rightarrow> (('t, 'lc, 'app, 'w) core, 'w, 'r) prog) \<Rightarrow> (('t, 'lc, 'app, 'w) core, 'r) comp" where
  "callApp E a callback =
     (case a of
        None \<Rightarrow> panic NilDereference
      | Some app \<Rightarrow> bind (gets world) (\<lambda>w. run_prog E (callback app w)))"

definition getAppAtPort :: "bytes \<Rightarrow> (('t, 'lc, 'app, 'w) core, 'app option) comp" where
  "getAppAtPort portId =
     bind (gets (GetAppByPortId portId)) (\<lambda>found. need (ErrPortNotFound portId) found)"

text \<open>\<^verbatim>\<open>a, _ := c.store.GetAppByPortId(portId)\<close>: a missing entry reads as nil.\<close>

definition appOrNil :: "bytes \<Rightarrow> (('t, 'lc, 'app, 'w) core, 'app option) comp" where
  "appOrNil portId =
     bind (gets (GetAppByPortId portId)) (\<lambda>found. ok (case found of None \<Rightarrow> None | Some a \<Rightarrow> a))"

text \<open>\<^verbatim>\<open>portId, _ := c.store.GetChannelOwner(id)\<close>: nil, the empty port, when it is missing.\<close>

definition ownerOrNil :: "('t, 'lc, 'app, 'w) env \<Rightarrow> ChannelId \<Rightarrow> (('t, 'lc, 'app, 'w) core, bytes) comp" where
  "ownerOrNil E channelId =
     bind (store_GetChannelOwner E channelId) (\<lambda>owner. ok (case owner of None \<Rightarrow> [] | Some portId \<Rightarrow> portId))"

definition EmitAppRegistered :: "('t, 'lc, 'app, 'w) env \<Rightarrow> realm \<Rightarrow> bytes \<Rightarrow> string \<Rightarrow> bool \<Rightarrow> (('t, 'lc, 'app, 'w) core, unit) comp" where
  "EmitAppRegistered E rlm portId registrarPkgPath adminOverride =
     emit E rlm ''AppRegistered''
       [''port_id'', string_of_bytes portId, ''registrar_pkg_path'', registrarPkgPath,
        ''admin_override'', (if adminOverride then ''true'' else ''false'')]"

definition RegisterApp :: "('t, 'lc, 'app, 'w) env \<Rightarrow> realm \<Rightarrow> 'app option \<Rightarrow> (('t, 'lc, 'app, 'w) core, unit) comp" where
  "RegisterApp E rlm a =
     andthen (assertIsRlmCurrent rlm)
       (let caller = PrevPkgPath rlm; portId = bytes_of_string caller in
        andthen (RegisterAppAtPort rlm portId a) (EmitAppRegistered E rlm portId caller False))"

section \<open>Receiving (packet.gno)\<close>

definition acceptRecvPacket :: "('t, 'lc, 'app, 'w) env \<Rightarrow> realm \<Rightarrow> Packet \<Rightarrow> ChannelId \<Rightarrow> u64 \<Rightarrow> (('t, 'lc, 'app, 'w) core, bool) comp" where
  "acceptRecvPacket E rlm packet batchChannelId now =
     andthen (guard (DestinationChannelId packet = batchChannelId) ErrBatchSameChannelOnly)
     (bind (getChannel E (DestinationChannelId packet)) (\<lambda>channel.
      andthen (guard (chan_State channel = ChannelStateOpen) ErrInvalidChannelState)
      (andthen (guard (\<not> now \<ge> TimeoutTimestamp packet) ErrPacketTimeoutExpired)
      (bind (HasPacketReceipt E packet) (\<lambda>has.
       if has then ok True
       else andthen (SetPacketReceipt E rlm packet) (ok False))))))"

definition commitSyncAck :: "('t, 'lc, 'app, 'w) env \<Rightarrow> realm \<Rightarrow> Packet \<Rightarrow> Channel \<Rightarrow> Connection \<Rightarrow> RecvPacketResult \<Rightarrow> (('t, 'lc, 'app, 'w) core, unit) comp" where
  "commitSyncAck E rlm packet channel connection res =
     (case res_Status res of
        PacketStatusAsync \<Rightarrow> ok ()
      | PacketStatusUnknown \<Rightarrow> panic ErrUnknownPacketStatus
      | _ \<Rightarrow>
          andthen (guard (length (res_Acknowledgement res) \<noteq> 0) ErrSyncAckEmpty)
          (andthen (CommitAcknowledgement E rlm packet (res_Acknowledgement res))
            (EmitWriteAck E rlm packet channel connection (res_Acknowledgement res))))"

definition EmitPacketRecv :: "('t, 'lc, 'app, 'w) env \<Rightarrow> realm \<Rightarrow> Packet \<Rightarrow> Channel \<Rightarrow> Connection \<Rightarrow> bytes \<Rightarrow> (('t, 'lc, 'app, 'w) core, unit) comp" where
  "EmitPacketRecv E rlm packet destinationChannel connection relayerMsg =
     emitSized E rlm ''PacketRecv'' relayerMsg
       (\<lambda>config. packetRecvEventAttrs (keccak256 E) config packet destinationChannel connection relayerMsg)"

definition EmitIntentPacketRecv :: "('t, 'lc, 'app, 'w) env \<Rightarrow> realm \<Rightarrow> Packet \<Rightarrow> Channel \<Rightarrow> Connection \<Rightarrow> bytes \<Rightarrow> (('t, 'lc, 'app, 'w) core, unit) comp" where
  "EmitIntentPacketRecv E rlm packet destinationChannel connection marketMakerMsg =
     emitSized E rlm ''IntentPacketRecv'' marketMakerMsg
       (\<lambda>config. packetRecvEventAttrs (keccak256 E) config packet destinationChannel connection marketMakerMsg)"

text \<open>The body of the loop of \<open>PacketRecv\<close>, for one packet and its relayer message; \<open>zip\<close> pairs
  them, stopping at the shorter list as the loop does.\<close>

definition recvOne :: "('t, 'lc, 'app, 'w) env \<Rightarrow> realm \<Rightarrow> 'app option \<Rightarrow> Channel \<Rightarrow> Connection \<Rightarrow> ChannelId \<Rightarrow> u64 \<Rightarrow> Packet \<times> bytes \<Rightarrow> (('t, 'lc, 'app, 'w) core, unit) comp" where
  "recvOne E rlm a channel connection destinationChannelId now pm =
     (case pm of (packet, relayerMsg) \<Rightarrow>
      bind (acceptRecvPacket E rlm packet destinationChannelId now) (\<lambda>skip.
      if skip then ok ()
      else bind (callApp E a (\<lambda>app w. OnRecvPacket E app w packet (PrevAddress rlm) relayerMsg)) (\<lambda>res.
           andthen (commitSyncAck E rlm packet channel connection res)
             (EmitPacketRecv E rlm packet channel connection relayerMsg))))"

definition PacketRecv :: "('t, 'lc, 'app, 'w) env \<Rightarrow> realm \<Rightarrow> u64 \<Rightarrow> MsgPacketRecv \<Rightarrow> (('t, 'lc, 'app, 'w) core, unit) comp" where
  "PacketRecv E rlm now msg =
     andthen (assertIsRlmCurrent rlm)
     (case mpr_Packets msg of
        [] \<Rightarrow> panic ErrNotEnoughPackets
      | first # _ \<Rightarrow>
          (let destinationChannelId = DestinationChannelId first in
           bind (getChannel E destinationChannelId) (\<lambda>channel.
           bind (ensureConnectionState E (chan_ConnectionId channel)) (\<lambda>connection.
           bind (lift (commitPacketsHash (keccak256 E) (mpr_Packets msg))) (\<lambda>batchHash.
           andthen (verifyMembership E (conn_ClientId connection) (NewHeight (mpr_ProofHeight msg)) (mpr_Proof msg)
              (BatchPacketsPath (keccak256 E) batchHash) COMMITMENT_MAGIC)
           (bind (ownerOrNil E destinationChannelId) (\<lambda>portId.
            bind (getAppAtPort portId) (\<lambda>a.
            each (recvOne E rlm a channel connection destinationChannelId now)
              (zip (mpr_Packets msg) (mpr_RelayerMsgs msg)))))))))) "

definition intentOne :: "('t, 'lc, 'app, 'w) env \<Rightarrow> realm \<Rightarrow> 'app option \<Rightarrow> Channel \<Rightarrow> Connection \<Rightarrow> ChannelId \<Rightarrow> u64 \<Rightarrow> Packet \<times> bytes \<Rightarrow> (('t, 'lc, 'app, 'w) core, unit) comp" where
  "intentOne E rlm a channel connection destinationChannelId now pm =
     (case pm of (packet, marketMakerMsg) \<Rightarrow>
      bind (acceptRecvPacket E rlm packet destinationChannelId now) (\<lambda>skip.
      if skip then ok ()
      else bind (callApp E a (\<lambda>app w. OnIntentRecvPacket E app w packet (PrevAddress rlm) marketMakerMsg)) (\<lambda>res.
           andthen (commitSyncAck E rlm packet channel connection res)
             (EmitIntentPacketRecv E rlm packet channel connection marketMakerMsg))))"

text \<open>Every app has \<open>OnIntentRecvPacket\<close>, since \<^verbatim>\<open>IApp\<close> includes \<^verbatim>\<open>IIntentApp\<close>: the type assertion
  fails on a nil interface only.\<close>

definition IntentPacketRecv :: "('t, 'lc, 'app, 'w) env \<Rightarrow> realm \<Rightarrow> u64 \<Rightarrow> MsgIntentPacketRecv \<Rightarrow> (('t, 'lc, 'app, 'w) core, unit) comp" where
  "IntentPacketRecv E rlm now msg =
     andthen (assertIsRlmCurrent rlm)
     (case mir_Packets msg of
        [] \<Rightarrow> panic ErrNotEnoughPackets
      | first # _ \<Rightarrow>
          (let destinationChannelId = DestinationChannelId first in
           bind (getChannel E destinationChannelId) (\<lambda>channel.
           bind (ensureConnectionState E (chan_ConnectionId channel)) (\<lambda>connection.
           bind (ownerOrNil E destinationChannelId) (\<lambda>portId.
           bind (getAppAtPort portId) (\<lambda>a.
           andthen (guard (a \<noteq> None) ErrIntentNotSupported)
           (each (intentOne E rlm a channel connection destinationChannelId now)
              (zip (mir_Packets msg) (mir_MarketMakerMessages msg)))))))))"

section \<open>Settling sent packets (packet.gno)\<close>

definition EmitPacketAck :: "('t, 'lc, 'app, 'w) env \<Rightarrow> realm \<Rightarrow> Packet \<Rightarrow> Channel \<Rightarrow> Connection \<Rightarrow> bytes \<Rightarrow> (('t, 'lc, 'app, 'w) core, unit) comp" where
  "EmitPacketAck E rlm packet sourceChannel connection acknowledgement =
     emitSized E rlm ''PacketAck'' acknowledgement
       (\<lambda>config. packetAckEventAttrs (keccak256 E) config packet sourceChannel connection acknowledgement)"

definition EmitPacketTimeout :: "('t, 'lc, 'app, 'w) env \<Rightarrow> realm \<Rightarrow> Packet \<Rightarrow> Channel \<Rightarrow> Connection \<Rightarrow> (('t, 'lc, 'app, 'w) core, unit) comp" where
  "EmitPacketTimeout E rlm packet sourceChannel connection =
     emitAttrs E rlm ''PacketTimeout'' (\<lambda>_. packetTimeoutEventAttrs (keccak256 E) packet sourceChannel connection)"

definition markPacketAcknowledged :: "('t, 'lc, 'app, 'w) env \<Rightarrow> realm \<Rightarrow> Packet \<Rightarrow> (('t, 'lc, 'app, 'w) core, unit) comp" where
  "markPacketAcknowledged E rlm packet =
     bind (PacketCommitment E packet) (\<lambda>found.
     bind (need ErrPacketCommitmentNotFound found) (\<lambda>commitment.
     andthen (guard (commitment \<noteq> COMMITMENT_MAGIC_ACK) ErrPacketAlreadyAcknowledged)
     (andthen (guard (commitment = COMMITMENT_MAGIC) ErrPacketCommitmentNotFound)
       (SetPacketAcknowledged E rlm packet))))"

definition ackOne :: "('t, 'lc, 'app, 'w) env \<Rightarrow> realm \<Rightarrow> 'app option \<Rightarrow> Channel \<Rightarrow> Connection \<Rightarrow> ChannelId \<Rightarrow> Packet \<times> bytes \<Rightarrow> (('t, 'lc, 'app, 'w) core, unit) comp" where
  "ackOne E rlm a channel connection sourceChannelId pa =
     (case pa of (packet, ack) \<Rightarrow>
      andthen (guard (SourceChannelId packet = sourceChannelId) ErrBatchSameChannelOnly)
      (andthen (markPacketAcknowledged E rlm packet)
      (andthen (callApp E a (\<lambda>app w. OnAcknowledgementPacket E app w packet ack (PrevAddress rlm)))
        (EmitPacketAck E rlm packet channel connection ack))))"

definition PacketAcknowledgement :: "('t, 'lc, 'app, 'w) env \<Rightarrow> realm \<Rightarrow> MsgPacketAcknowledgement \<Rightarrow> (('t, 'lc, 'app, 'w) core, unit) comp" where
  "PacketAcknowledgement E rlm msg =
     andthen (assertIsRlmCurrent rlm)
     (case mpa_Packets msg of
        [] \<Rightarrow> panic ErrNotEnoughPackets
      | first # _ \<Rightarrow>
          (let sourceChannelId = SourceChannelId first in
           bind (getChannel E sourceChannelId) (\<lambda>channel.
           bind (ensureConnectionState E (chan_ConnectionId channel)) (\<lambda>connection.
           bind (lift (commitPacketsHash (keccak256 E) (mpa_Packets msg))) (\<lambda>batchHash.
           andthen (verifyMembership E (conn_ClientId connection) (NewHeight (mpa_ProofHeight msg)) (mpa_Proof msg)
              (BatchReceiptsPath (keccak256 E) batchHash) (CommitAcks (keccak256 E) (mpa_Acknowledgements msg)))
           (bind (ownerOrNil E sourceChannelId) (\<lambda>portId.
            bind (appOrNil portId) (\<lambda>a.
            each (ackOne E rlm a channel connection sourceChannelId)
              (zip (mpa_Packets msg) (mpa_Acknowledgements msg)))))))))) "

definition PacketTimeout :: "('t, 'lc, 'app, 'w) env \<Rightarrow> realm \<Rightarrow> MsgPacketTimeout \<Rightarrow> (('t, 'lc, 'app, 'w) core, unit) comp" where
  "PacketTimeout E rlm msg =
     andthen (assertIsRlmCurrent rlm)
     (let packet = mpt_Packet msg in
      bind (getChannel E (SourceChannelId packet)) (\<lambda>channel.
      andthen (guard (chan_State channel = ChannelStateOpen) ErrInvalidChannelState)
      (bind (ensureConnectionState E (chan_ConnectionId channel)) (\<lambda>connection.
       bind (getClientOrErr (conn_ClientId connection)) (\<lambda>lc.
       case lc_GetTimestampAtHeight E lc (mpt_ProofHeight msg) of
         Inl err \<Rightarrow> panic (LightClientError err)
       | Inr proofTimestamp \<Rightarrow>
           andthen (guard (proofTimestamp \<noteq> 0) ErrTimeoutProofTimestampNotFound)
           (bind (lift (commitPacketHash (keccak256 E) packet)) (\<lambda>packetHash.
            andthen (verifyNonMembership E (conn_ClientId connection) (NewHeight (mpt_ProofHeight msg)) (mpt_Proof msg)
               (BatchReceiptsPath (keccak256 E) packetHash))
            (andthen (markPacketAcknowledged E rlm packet)
            (andthen (guard (TimeoutTimestamp packet \<noteq> 0) ErrTimeoutMustBeSet)
            (andthen (guard (\<not> TimeoutTimestamp packet > proofTimestamp) ErrPacketTimeoutNotReached)
            (bind (ownerOrNil E (SourceChannelId packet)) (\<lambda>portId.
             bind (appOrNil portId) (\<lambda>a.
             andthen (callApp E a (\<lambda>app w. OnTimeoutPacket E app w packet (PrevAddress rlm)))
               (EmitPacketTimeout E rlm packet channel connection))))))))))))))"

section \<open>Committed proofs and batches (packet.gno)\<close>

definition EmitCommitMembershipProof :: "('t, 'lc, 'app, 'w) env \<Rightarrow> realm \<Rightarrow> MsgCommitMembershipProof \<Rightarrow> (('t, 'lc, 'app, 'w) core, unit) comp" where
  "EmitCommitMembershipProof E rlm msg =
     emit E rlm ''CommitMembershipProof''
       [''client_id'', id_String (mcm_ClientId msg), ''proof_height'', FormatUint (mcm_ProofHeight msg),
        ''path'', hexAttr (mcm_Path msg), ''value'', hexAttr (mcm_Value msg)]"

definition EmitCommitNonMembershipProof :: "('t, 'lc, 'app, 'w) env \<Rightarrow> realm \<Rightarrow> MsgCommitNonMembershipProof \<Rightarrow> (('t, 'lc, 'app, 'w) core, unit) comp" where
  "EmitCommitNonMembershipProof E rlm msg =
     emit E rlm ''CommitNonMembershipProof''
       [''client_id'', id_String (mcn_ClientId msg), ''proof_height'', FormatUint (mcn_ProofHeight msg),
        ''path'', hexAttr (mcn_Path msg)]"

definition CommitMembershipProof :: "('t, 'lc, 'app, 'w) env \<Rightarrow> realm \<Rightarrow> MsgCommitMembershipProof \<Rightarrow> (('t, 'lc, 'app, 'w) core, unit) comp" where
  "CommitMembershipProof E rlm msg =
     andthen (assertIsRlmCurrent rlm)
     (andthen (verifyMembership E (mcm_ClientId msg) (NewHeight (mcm_ProofHeight msg)) (mcm_Proof msg) (mcm_Path msg) (mcm_Value msg))
     (andthen (SaveMembershipProof E rlm (mcm_ClientId msg) (mcm_ProofHeight msg) (mcm_Path msg)
         (Keccak (keccak256 E) (mcm_Value msg)))
       (EmitCommitMembershipProof E rlm msg)))"

definition CommitNonMembershipProof :: "('t, 'lc, 'app, 'w) env \<Rightarrow> realm \<Rightarrow> MsgCommitNonMembershipProof \<Rightarrow> (('t, 'lc, 'app, 'w) core, unit) comp" where
  "CommitNonMembershipProof E rlm msg =
     andthen (assertIsRlmCurrent rlm)
     (bind (gets (ClientExists (mcn_ClientId msg))) (\<lambda>exs.
      andthen (guard exs (ErrClientNotFoundId (mcn_ClientId msg)))
      (andthen (verifyNonMembership E (mcn_ClientId msg) (NewHeight (mcn_ProofHeight msg)) (mcn_Proof msg) (mcn_Path msg))
      (andthen (SaveNonMembershipProof E rlm (mcn_ClientId msg) (mcn_ProofHeight msg) (mcn_Path msg)
          NON_MEMBERSHIP_COMMITMENT_VALUE)
        (EmitCommitNonMembershipProof E rlm msg)))))"

definition EmitBatchSend :: "('t, 'lc, 'app, 'w) env \<Rightarrow> realm \<Rightarrow> ChannelId \<Rightarrow> H256 \<Rightarrow> H256 \<Rightarrow> (('t, 'lc, 'app, 'w) core, unit) comp" where
  "EmitBatchSend E rlm channelId packetHash batchHash =
     emit E rlm ''BatchSend''
       [''channel_id'', id_String channelId, ''packet_hash'', h256String packetHash, ''batch_hash'', h256String batchHash]"

definition EmitBatchAcks :: "('t, 'lc, 'app, 'w) env \<Rightarrow> realm \<Rightarrow> ChannelId \<Rightarrow> H256 \<Rightarrow> H256 \<Rightarrow> (('t, 'lc, 'app, 'w) core, unit) comp" where
  "EmitBatchAcks E rlm channelId packetHash batchHash =
     emit E rlm ''BatchAcks''
       [''channel_id'', id_String channelId, ''packet_hash'', h256String packetHash, ''batch_hash'', h256String batchHash]"

definition batchSendOne :: "('t, 'lc, 'app, 'w) env \<Rightarrow> realm \<Rightarrow> ChannelId \<Rightarrow> H256 \<Rightarrow> Packet \<Rightarrow> (('t, 'lc, 'app, 'w) core, unit) comp" where
  "batchSendOne E rlm channelId batchHash packet =
     andthen (guard (SourceChannelId packet = channelId) ErrBatchSameChannelOnly)
     (bind (PacketCommitment E packet) (\<lambda>commitment.
      andthen (guard (commitment = Some COMMITMENT_MAGIC) ErrPacketCommitmentNotFound)
      (bind (lift (commitPacketsHash (keccak256 E) [packet])) (\<lambda>packetHash.
       EmitBatchSend E rlm channelId packetHash batchHash))))"

definition BatchSend :: "('t, 'lc, 'app, 'w) env \<Rightarrow> realm \<Rightarrow> MsgBatchSend \<Rightarrow> (('t, 'lc, 'app, 'w) core, unit) comp" where
  "BatchSend E rlm msg =
     andthen (assertIsRlmCurrent rlm)
     (andthen (guard (\<not> length (mbs_Packets msg) < 2) ErrNotEnoughPackets)
     (let channelId = SourceChannelId (hd (mbs_Packets msg)) in
      bind (lift (commitPacketsHash (keccak256 E) (mbs_Packets msg))) (\<lambda>batchHash.
      andthen (each (batchSendOne E rlm channelId batchHash) (mbs_Packets msg))
        (SaveBatchPackets E rlm batchHash COMMITMENT_MAGIC))))"

definition batchAckOne :: "('t, 'lc, 'app, 'w) env \<Rightarrow> realm \<Rightarrow> ChannelId \<Rightarrow> H256 \<Rightarrow> Packet \<times> bytes \<Rightarrow> (('t, 'lc, 'app, 'w) core, unit) comp" where
  "batchAckOne E rlm channelId batchHash pa =
     (case pa of (packet, ack) \<Rightarrow>
      andthen (guard (DestinationChannelId packet = channelId) ErrBatchSameChannelOnly)
      (bind (lift (commitPacketsHash (keccak256 E) [packet])) (\<lambda>packetHash.
       andthen (EmitBatchAcks E rlm channelId packetHash batchHash)
       (bind (AcknowledgementReceipt E packet) (\<lambda>receipt.
        bind (need ErrPacketCommitmentNotFound receipt) (\<lambda>commitment.
        andthen (guard (commitment \<noteq> COMMITMENT_MAGIC) ErrAcknowledgementEmpty)
          (guard (commitment = CommitAcks (keccak256 E) [ack]) ErrAcknowledgementMismatch)))))))"

definition BatchAcks :: "('t, 'lc, 'app, 'w) env \<Rightarrow> realm \<Rightarrow> MsgBatchAcks \<Rightarrow> (('t, 'lc, 'app, 'w) core, unit) comp" where
  "BatchAcks E rlm msg =
     andthen (assertIsRlmCurrent rlm)
     (andthen (guard (\<not> length (mba_Packets msg) < 2) ErrNotEnoughPackets)
     (andthen (guard (length (mba_Acks msg) = length (mba_Packets msg)) ErrAcknowledgementCountMismatch)
     (let channelId = DestinationChannelId (hd (mba_Packets msg)) in
      bind (lift (commitPacketsHash (keccak256 E) (mba_Packets msg))) (\<lambda>batchHash.
      andthen (each (batchAckOne E rlm channelId batchHash) (zip (mba_Packets msg) (mba_Acks msg)))
        (SaveBatchReceipts E rlm batchHash (CommitAcks (keccak256 E) (mba_Acks msg)))))))"

end
