(* ===== verification/CoreChannel.thy ===== *)
theory CoreChannel
  imports CorePacket
begin

text \<open>
  The channel handshake and close (\<^verbatim>\<open>core/v1/channel.gno\<close>), with the events of each step
  (\<^verbatim>\<open>core/emit.gno\<close>). Every step notifies the app that owns the channel's port.
\<close>

section \<open>Events (emit.gno)\<close>

definition EmitChannelOpenInit :: "('t, 'lc, 'app, 'w) env \<Rightarrow> realm \<Rightarrow> bytes \<Rightarrow> ChannelId \<Rightarrow> Channel \<Rightarrow> Connection \<Rightarrow> (('t, 'lc, 'app, 'w) core, unit) comp" where
  "EmitChannelOpenInit E rlm portId channelId channel connection =
     emit E rlm ''ChannelOpenInit'' (channelOpenInitEventAttrs portId channelId channel connection)"

definition EmitChannelOpenTry :: "('t, 'lc, 'app, 'w) env \<Rightarrow> realm \<Rightarrow> bytes \<Rightarrow> ChannelId \<Rightarrow> Channel \<Rightarrow> string \<Rightarrow> Connection \<Rightarrow> (('t, 'lc, 'app, 'w) core, unit) comp" where
  "EmitChannelOpenTry E rlm portId channelId channel counterpartyVersion connection =
     emit E rlm ''ChannelOpenTry'' (channelOpenTryEventAttrs portId channelId channel counterpartyVersion connection)"

definition EmitChannelOpenAck :: "('t, 'lc, 'app, 'w) env \<Rightarrow> realm \<Rightarrow> bytes \<Rightarrow> ChannelId \<Rightarrow> Channel \<Rightarrow> Connection \<Rightarrow> (('t, 'lc, 'app, 'w) core, unit) comp" where
  "EmitChannelOpenAck E rlm portId channelId channel connection =
     emit E rlm ''ChannelOpenAck'' (channelOpenAckConfirmEventAttrs portId channelId channel connection)"

definition EmitChannelOpenConfirm :: "('t, 'lc, 'app, 'w) env \<Rightarrow> realm \<Rightarrow> bytes \<Rightarrow> ChannelId \<Rightarrow> Channel \<Rightarrow> Connection \<Rightarrow> (('t, 'lc, 'app, 'w) core, unit) comp" where
  "EmitChannelOpenConfirm E rlm portId channelId channel connection =
     emit E rlm ''ChannelOpenConfirm'' (channelOpenAckConfirmEventAttrs portId channelId channel connection)"

definition EmitChannelCloseInit :: "('t, 'lc, 'app, 'w) env \<Rightarrow> realm \<Rightarrow> bytes \<Rightarrow> ChannelId \<Rightarrow> Channel \<Rightarrow> Connection \<Rightarrow> (('t, 'lc, 'app, 'w) core, unit) comp" where
  "EmitChannelCloseInit E rlm portId channelId channel connection =
     emit E rlm ''ChannelCloseInit'' (channelCloseEventAttrs portId channelId channel connection)"

definition EmitChannelCloseConfirm :: "('t, 'lc, 'app, 'w) env \<Rightarrow> realm \<Rightarrow> bytes \<Rightarrow> ChannelId \<Rightarrow> Channel \<Rightarrow> Connection \<Rightarrow> (('t, 'lc, 'app, 'w) core, unit) comp" where
  "EmitChannelCloseConfirm E rlm portId channelId channel connection =
     emit E rlm ''ChannelCloseConfirm'' (channelCloseEventAttrs portId channelId channel connection)"

section \<open>Opening\<close>

definition ChannelOpenInit :: "('t, 'lc, 'app, 'w) env \<Rightarrow> realm \<Rightarrow> MsgChannelOpenInit \<Rightarrow> (('t, 'lc, 'app, 'w) core, unit) comp" where
  "ChannelOpenInit E rlm msg =
     andthen (assertIsRlmCurrent rlm)
     (let relayer = PrevAddress rlm; portId = hoi_PortId msg in
      bind (ensureConnectionState E (hoi_ConnectionId msg)) (\<lambda>connection.
      bind (NextChannelId E rlm) (\<lambda>channelId.
      let channel = NewChannel ChannelStateInit (hoi_ConnectionId msg) 0 (hoi_CounterpartyPortId msg) (hoi_Version msg) in
      andthen (CreateChannel E rlm channelId channel portId)
      (bind (getAppAtPort portId) (\<lambda>a.
       andthen (callApp E a (\<lambda>app w. OnChannelOpenInit E app w (hoi_ConnectionId msg) channelId (hoi_Version msg) relayer))
         (EmitChannelOpenInit E rlm portId channelId channel connection))))))"

definition channelOpenTry :: "('t, 'lc, 'app, 'w) env \<Rightarrow> realm \<Rightarrow> MsgChannelOpenTry \<Rightarrow> bool \<Rightarrow> (('t, 'lc, 'app, 'w) core, unit) comp" where
  "channelOpenTry E rlm msg verify =
     (let relayer = PrevAddress rlm; portId = hot_PortId msg; channel = hot_Channel msg in
      andthen (guard (chan_State channel = ChannelStateTryOpen) ErrInvalidChannelState)
      (andthen (guard (chan_CounterpartyChannelId channel \<noteq> 0) ErrInvalidCounterpartyChannelId)
      (bind (ensureConnectionState E (chan_ConnectionId channel)) (\<lambda>connection.
       bind (NextChannelId E rlm) (\<lambda>channelId.
       andthen (if verify
                then let expectedChannel = NewChannel ChannelStateInit (conn_CounterpartyConnectionId connection) 0 portId
                           (hot_CounterpartyVersion msg);
                         key = ChannelPath (keccak256 E) (chan_CounterpartyChannelId channel) in
                     bind (lift (channelValue (keccak256 E) expectedChannel)) (\<lambda>val.
                     verifyMembership E (conn_ClientId connection) (NewHeight (hot_ProofHeight msg)) (hot_ProofInit msg) key val)
                else ok ())
       (andthen (CreateChannel E rlm channelId channel portId)
       (bind (getAppAtPort portId) (\<lambda>a.
        andthen (callApp E a (\<lambda>app w. OnChannelOpenTry E app w (chan_ConnectionId channel) channelId (chan_Version channel)
            (hot_CounterpartyVersion msg) relayer))
          (EmitChannelOpenTry E rlm portId channelId channel (hot_CounterpartyVersion msg) connection)))))))))"

definition ChannelOpenTry :: "('t, 'lc, 'app, 'w) env \<Rightarrow> realm \<Rightarrow> MsgChannelOpenTry \<Rightarrow> (('t, 'lc, 'app, 'w) core, unit) comp" where
  "ChannelOpenTry E rlm msg = andthen (assertIsRlmCurrent rlm) (channelOpenTry E rlm msg True)"

definition ForceChannelOpenTry :: "('t, 'lc, 'app, 'w) env \<Rightarrow> realm \<Rightarrow> MsgChannelOpenTry \<Rightarrow> (('t, 'lc, 'app, 'w) core, unit) comp" where
  "ForceChannelOpenTry E rlm msg = andthen (assertIsRlmCurrent rlm) (channelOpenTry E rlm msg False)"

definition channelOpenAck :: "('t, 'lc, 'app, 'w) env \<Rightarrow> realm \<Rightarrow> MsgChannelOpenAck \<Rightarrow> bool \<Rightarrow> (('t, 'lc, 'app, 'w) core, unit) comp" where
  "channelOpenAck E rlm msg verify =
     (let relayer = PrevAddress rlm in
      bind (getChannel E (hoa_ChannelId msg)) (\<lambda>channel.
      andthen (guard (chan_State channel = ChannelStateInit) ErrInvalidChannelState)
      (bind (ensureConnectionState E (chan_ConnectionId channel)) (\<lambda>connection.
       bind (ownerOrNil E (hoa_ChannelId msg)) (\<lambda>portId.
       andthen (if verify
                then let expectedChannel = NewChannel ChannelStateTryOpen (conn_CounterpartyConnectionId connection)
                           (hoa_ChannelId msg) portId (hoa_CounterpartyVersion msg);
                         key = ChannelPath (keccak256 E) (hoa_CounterpartyChannelId msg) in
                     bind (lift (channelValue (keccak256 E) expectedChannel)) (\<lambda>val.
                     verifyMembership E (conn_ClientId connection) (NewHeight (hoa_ProofHeight msg)) (hoa_ProofTry msg) key val)
                else ok ())
       (let updated = NewChannel ChannelStateOpen (chan_ConnectionId channel) (hoa_CounterpartyChannelId msg)
              (chan_CounterpartyPortId channel) (hoa_CounterpartyVersion msg) in
        andthen (SaveChannel E rlm (hoa_ChannelId msg) updated)
        (bind (getAppAtPort portId) (\<lambda>a.
         andthen (callApp E a (\<lambda>app w. OnChannelOpenAck E app w (hoa_ChannelId msg) (hoa_CounterpartyChannelId msg)
             (hoa_CounterpartyVersion msg) relayer))
           (EmitChannelOpenAck E rlm portId (hoa_ChannelId msg) updated connection)))))))))"

definition ChannelOpenAck :: "('t, 'lc, 'app, 'w) env \<Rightarrow> realm \<Rightarrow> MsgChannelOpenAck \<Rightarrow> (('t, 'lc, 'app, 'w) core, unit) comp" where
  "ChannelOpenAck E rlm msg = andthen (assertIsRlmCurrent rlm) (channelOpenAck E rlm msg True)"

definition ForceChannelOpenAck :: "('t, 'lc, 'app, 'w) env \<Rightarrow> realm \<Rightarrow> MsgChannelOpenAck \<Rightarrow> (('t, 'lc, 'app, 'w) core, unit) comp" where
  "ForceChannelOpenAck E rlm msg = andthen (assertIsRlmCurrent rlm) (channelOpenAck E rlm msg False)"

definition channelOpenConfirm :: "('t, 'lc, 'app, 'w) env \<Rightarrow> realm \<Rightarrow> MsgChannelOpenConfirm \<Rightarrow> bool \<Rightarrow> (('t, 'lc, 'app, 'w) core, unit) comp" where
  "channelOpenConfirm E rlm msg verify =
     (let relayer = PrevAddress rlm in
      bind (getChannel E (hoc_ChannelId msg)) (\<lambda>channel.
      andthen (guard (chan_State channel = ChannelStateTryOpen) ErrInvalidChannelState)
      (andthen (guard (chan_CounterpartyChannelId channel \<noteq> 0) ErrInvalidCounterpartyChannelId)
      (bind (ensureConnectionState E (chan_ConnectionId channel)) (\<lambda>connection.
       bind (ownerOrNil E (hoc_ChannelId msg)) (\<lambda>portId.
       andthen (if verify
                then let expectedChannel = NewChannel ChannelStateOpen (conn_CounterpartyConnectionId connection)
                           (hoc_ChannelId msg) portId (chan_Version channel);
                         key = ChannelPath (keccak256 E) (chan_CounterpartyChannelId channel) in
                     bind (lift (channelValue (keccak256 E) expectedChannel)) (\<lambda>val.
                     verifyMembership E (conn_ClientId connection) (NewHeight (hoc_ProofHeight msg)) (hoc_ProofAck msg) key val)
                else ok ())
       (let updated = NewChannel ChannelStateOpen (chan_ConnectionId channel) (chan_CounterpartyChannelId channel)
              (chan_CounterpartyPortId channel) (chan_Version channel) in
        andthen (SaveChannel E rlm (hoc_ChannelId msg) updated)
        (bind (getAppAtPort portId) (\<lambda>a.
         andthen (callApp E a (\<lambda>app w. OnChannelOpenConfirm E app w (hoc_ChannelId msg) relayer))
           (EmitChannelOpenConfirm E rlm portId (hoc_ChannelId msg) updated connection))))))))))"

definition ChannelOpenConfirm :: "('t, 'lc, 'app, 'w) env \<Rightarrow> realm \<Rightarrow> MsgChannelOpenConfirm \<Rightarrow> (('t, 'lc, 'app, 'w) core, unit) comp" where
  "ChannelOpenConfirm E rlm msg = andthen (assertIsRlmCurrent rlm) (channelOpenConfirm E rlm msg True)"

definition ForceChannelOpenConfirm :: "('t, 'lc, 'app, 'w) env \<Rightarrow> realm \<Rightarrow> MsgChannelOpenConfirm \<Rightarrow> (('t, 'lc, 'app, 'w) core, unit) comp" where
  "ForceChannelOpenConfirm E rlm msg = andthen (assertIsRlmCurrent rlm) (channelOpenConfirm E rlm msg False)"

section \<open>Closing\<close>

definition closedChannel :: "Channel \<Rightarrow> Channel" where
  "closedChannel channel =
     NewChannel ChannelStateClosed (chan_ConnectionId channel) (chan_CounterpartyChannelId channel)
       (chan_CounterpartyPortId channel) (chan_Version channel)"

text \<open>\<^verbatim>\<open>a, ok := c.store.GetAppByPortId(portId)\<close> with the close handlers' own message.\<close>

definition appForClose :: "bytes \<Rightarrow> (('t, 'lc, 'app, 'w) core, 'app option) comp" where
  "appForClose portId =
     bind (gets (GetAppByPortId portId)) (\<lambda>found.
     need (Message (''port '' @ string_of_bytes portId @ '' not found'')) found)"

definition ChannelCloseInit :: "('t, 'lc, 'app, 'w) env \<Rightarrow> realm \<Rightarrow> MsgChannelCloseInit \<Rightarrow> (('t, 'lc, 'app, 'w) core, unit) comp" where
  "ChannelCloseInit E rlm msg =
     andthen (assertIsRlmCurrent rlm)
     (let relayer = PrevAddress rlm in
      bind (getChannel E (hci_ChannelId msg)) (\<lambda>channel.
      andthen (guard (chan_State channel = ChannelStateOpen) ErrInvalidChannelState)
      (andthen (guard (chan_CounterpartyChannelId channel \<noteq> 0) ErrInvalidCounterpartyChannelId)
      (bind (ensureConnectionState E (chan_ConnectionId channel)) (\<lambda>connection.
       bind (ownerOrNil E (hci_ChannelId msg)) (\<lambda>portId.
       let updated = closedChannel channel in
       andthen (SaveChannel E rlm (hci_ChannelId msg) updated)
       (bind (appForClose portId) (\<lambda>a.
        andthen (callApp E a (\<lambda>app w. OnChannelCloseInit E app w (hci_ChannelId msg) relayer))
          (EmitChannelCloseInit E rlm portId (hci_ChannelId msg) updated connection)))))))))"

definition ChannelCloseConfirm :: "('t, 'lc, 'app, 'w) env \<Rightarrow> realm \<Rightarrow> MsgChannelCloseConfirm \<Rightarrow> (('t, 'lc, 'app, 'w) core, unit) comp" where
  "ChannelCloseConfirm E rlm msg =
     andthen (assertIsRlmCurrent rlm)
     (let relayer = PrevAddress rlm in
      bind (getChannel E (hcc_ChannelId msg)) (\<lambda>channel.
      andthen (guard (chan_State channel = ChannelStateOpen) ErrInvalidChannelState)
      (andthen (guard (chan_CounterpartyChannelId channel \<noteq> 0) ErrInvalidCounterpartyChannelId)
      (bind (ensureConnectionState E (chan_ConnectionId channel)) (\<lambda>connection.
       bind (ownerOrNil E (hcc_ChannelId msg)) (\<lambda>portId.
       let expectedChannel = NewChannel ChannelStateClosed (conn_CounterpartyConnectionId connection)
             (hcc_ChannelId msg) portId (chan_Version channel);
           key = ChannelPath (keccak256 E) (chan_CounterpartyChannelId channel) in
       bind (lift (channelValue (keccak256 E) expectedChannel)) (\<lambda>val.
       andthen (verifyMembership E (conn_ClientId connection) (NewHeight (hcc_ProofHeight msg)) (hcc_ProofInit msg) key val)
       (let updated = closedChannel channel in
        andthen (SaveChannel E rlm (hcc_ChannelId msg) updated)
        (bind (appForClose portId) (\<lambda>a.
         andthen (callApp E a (\<lambda>app w. OnChannelCloseConfirm E app w (hcc_ChannelId msg) relayer))
           (EmitChannelCloseConfirm E rlm portId (hcc_ChannelId msg) updated connection)))))))))))"

end
