(* ===== verification/CoreRules.thy ===== *)
theory CoreRules
  imports CoreChannel
begin

text \<open>
  How the host's computations are reasoned about: what the host relies on of the code it calls
  (\<open>env_ok\<close>), the abstract views of the store (a connection or a channel by its id, the path of a
  packet's commitment and receipt), and weakest preconditions. \<open>wp bad m Q\<close> holds of a state when
  the computation \<open>m\<close> started there does not panic with an error in \<open>bad\<close> and every result and state
  it returns satisfy \<open>Q\<close>; its rules turn a handler into the conditions of its guards and the updates
  of its writes.
\<close>

section \<open>The environment\<close>

definition env_ok :: "('t, 'lc, 'app, 'w) env \<Rightarrow> bool" where
  "env_ok E \<longleftrightarrow>
     (\<forall>t k v. bp_Get E (bp_Set E t k v) k = Some v) \<and>
     (\<forall>t k k' v. k \<noteq> k' \<longrightarrow> bp_Get E (bp_Set E t k v) k' = bp_Get E t k') \<and>
     (\<forall>k. bp_Get E (NewBPTree32 E) k = None) \<and>
     inj (seq_Binary E) \<and>
     (\<forall>i. seq_Next E i = (if i = - 1 then None else Some (i + 1)))"

section \<open>Views of the store\<close>

definition connection_of :: "('t, 'lc, 'app, 'w) env \<Rightarrow> ('t, 'lc, 'app, 'w) core \<Rightarrow> ConnectionId \<Rightarrow> Connection option" where
  "connection_of E s i =
     (case bp_Get E (connections s) (connectionKey E i) of Some (AnyConnection c) \<Rightarrow> Some c | _ \<Rightarrow> None)"

definition channel_of :: "('t, 'lc, 'app, 'w) env \<Rightarrow> ('t, 'lc, 'app, 'w) core \<Rightarrow> ChannelId \<Rightarrow> channelEntry option" where
  "channel_of E s i =
     (case bp_Get E (channels s) (channelKey E i) of Some (AnyChannel c) \<Rightarrow> Some c | _ \<Rightarrow> None)"

definition packet_hash :: "('t, 'lc, 'app, 'w) env \<Rightarrow> Packet \<Rightarrow> H256" where
  "packet_hash E p = Keccak (keccak256 E) (packets_preimage [p])"

definition commitment_path :: "('t, 'lc, 'app, 'w) env \<Rightarrow> Packet \<Rightarrow> H256" where
  "commitment_path E p = BatchPacketsPath (keccak256 E) (packet_hash E p)"

definition receipt_path :: "('t, 'lc, 'app, 'w) env \<Rightarrow> Packet \<Rightarrow> H256" where
  "receipt_path E p = BatchReceiptsPath (keccak256 E) (packet_hash E p)"

section \<open>Weakest preconditions\<close>

definition wp :: "core_error set \<Rightarrow> ('s, 'a) comp \<Rightarrow> ('a \<Rightarrow> 's \<Rightarrow> bool) \<Rightarrow> 's \<Rightarrow> bool" where
  "wp bad m Q s = (case m s of Inl e \<Rightarrow> e \<notin> bad | Inr (x, s') \<Rightarrow> Q x s')"

named_theorems wp_simps \<open>weakest preconditions of the primitive computations\<close>

lemma wp_ok [wp_simps]: "wp bad (ok x) Q = Q x"
  by (simp add: fun_eq_iff wp_def ok_def)

lemma wp_panic [wp_simps]: "wp bad (panic e) Q = (\<lambda>s. e \<notin> bad)"
  by (simp add: fun_eq_iff wp_def panic_def)

lemma wp_bind [wp_simps]: "wp bad (bind m k) Q = wp bad m (\<lambda>x. wp bad (k x) Q)"
  by (auto simp: fun_eq_iff wp_def bind_def split: sum.splits prod.splits)

lemma wp_andthen [wp_simps]: "wp bad (andthen m k) Q = wp bad m (\<lambda>_. wp bad k Q)"
  by (simp add: andthen_def wp_bind)

lemma wp_guard [wp_simps]: "wp bad (guard b e) Q = (\<lambda>s. (b \<longrightarrow> Q () s) \<and> (\<not> b \<longrightarrow> e \<notin> bad))"
  by (simp add: fun_eq_iff wp_def guard_def)

lemma wp_gets [wp_simps]: "wp bad (gets f) Q = (\<lambda>s. Q (f s) s)"
  by (simp add: fun_eq_iff wp_def gets_def)

lemma wp_modify [wp_simps]: "wp bad (modify f) Q = (\<lambda>s. Q () (f s))"
  by (simp add: fun_eq_iff wp_def modify_def)

lemma wp_lift [wp_simps]:
  "wp bad (lift r) Q = (\<lambda>s. (\<forall>e. r = Inl e \<longrightarrow> e \<notin> bad) \<and> (\<forall>x. r = Inr x \<longrightarrow> Q x s))"
  by (simp add: fun_eq_iff wp_def lift_def split: sum.splits)

lemma wp_need [wp_simps]:
  "wp bad (need e v) Q = (\<lambda>s. (v = None \<longrightarrow> e \<notin> bad) \<and> (\<forall>x. v = Some x \<longrightarrow> Q x s))"
  by (simp add: fun_eq_iff wp_def need_def split: option.splits)

lemma wp_assertIsRlmCurrent [wp_simps]:
  "wp bad (assertIsRlmCurrent rlm) Q =
     (\<lambda>s. (IsCurrent rlm \<longrightarrow> Q () s) \<and> (\<not> IsCurrent rlm \<longrightarrow> ErrSpoofedRealm \<notin> bad))"
  by (simp add: assertIsRlmCurrent_def wp_guard)

lemma wp_assertIsProxyRealm [wp_simps]:
  "wp bad (assertIsProxyRealm p rlm) Q =
     (\<lambda>s. (PkgPath rlm = p \<longrightarrow> Q () s) \<and> (PkgPath rlm \<noteq> p \<longrightarrow> ErrNotProxyRealm \<notin> bad))"
  by (simp add: assertIsProxyRealm_def wp_guard)

lemma wp_if [wp_simps]:
  "wp bad (if b then m else n) Q = (\<lambda>s. (b \<longrightarrow> wp bad m Q s) \<and> (\<not> b \<longrightarrow> wp bad n Q s))"
  by simp

lemma wp_mono: "wp bad m P s \<Longrightarrow> (\<And>x t. P x t \<Longrightarrow> Q x t) \<Longrightarrow> wp bad m Q s"
  by (auto simp: wp_def split: sum.splits prod.splits)

lemma wp_run: "wp bad m Q s \<Longrightarrow> m s = Inr (x, s') \<Longrightarrow> Q x s'"
  by (simp add: wp_def)

lemma wp_safe: "wp bad m Q s \<Longrightarrow> m s = Inl e \<Longrightarrow> e \<notin> bad"
  by (simp add: wp_def)

text \<open>A property every computation of a handler keeps.\<close>

definition keeps :: "core_error set \<Rightarrow> ('s \<Rightarrow> bool) \<Rightarrow> ('s, 'a) comp \<Rightarrow> bool" where
  "keeps bad I m \<longleftrightarrow> (\<forall>s. I s \<longrightarrow> wp bad m (\<lambda>_. I) s)"

named_theorems keeps_intros \<open>composition of computations that keep a property\<close>

lemma keepsI: "(\<And>s. I s \<Longrightarrow> wp bad m (\<lambda>_. I) s) \<Longrightarrow> keeps bad I m"
  by (simp add: keeps_def)

lemma keepsD: "keeps bad I m \<Longrightarrow> I s \<Longrightarrow> wp bad m (\<lambda>_. I) s"
  by (simp add: keeps_def)

lemma keeps_run: "keeps bad I m \<Longrightarrow> m s = Inr (x, s') \<Longrightarrow> I s \<Longrightarrow> I s'"
  by (blast dest: keepsD wp_run)

lemma keeps_safe: "keeps bad I m \<Longrightarrow> m s = Inl e \<Longrightarrow> I s \<Longrightarrow> e \<notin> bad"
  by (blast dest: keepsD wp_safe)

lemma keeps_ok [keeps_intros]: "keeps bad I (ok x)"
  by (simp add: keeps_def wp_simps)

lemma keeps_panic [keeps_intros]: "e \<notin> bad \<Longrightarrow> keeps bad I (panic e)"
  by (simp add: keeps_def wp_simps)

lemma keeps_bind [keeps_intros]:
  assumes "keeps bad I m" and "\<And>x. keeps bad I (k x)"
  shows "keeps bad I (bind m k)"
proof (rule keepsI)
  fix s assume "I s"
  have "wp bad m (\<lambda>_. I) s" using assms(1) \<open>I s\<close> by (rule keepsD)
  then show "wp bad (bind m k) (\<lambda>_. I) s"
    unfolding wp_bind by (rule wp_mono) (rule keepsD [OF assms(2)])
qed

lemma keeps_andthen [keeps_intros]: "keeps bad I m \<Longrightarrow> keeps bad I k \<Longrightarrow> keeps bad I (andthen m k)"
  by (simp add: andthen_def keeps_bind)

lemma keeps_guard [keeps_intros]: "e \<notin> bad \<Longrightarrow> keeps bad I (guard b e)"
  by (simp add: keeps_def wp_simps)

lemma keeps_gets [keeps_intros]: "keeps bad I (gets f)"
  by (simp add: keeps_def wp_simps)

lemma keeps_modify: "(\<And>s. I s \<Longrightarrow> I (f s)) \<Longrightarrow> keeps bad I (modify f)"
  by (simp add: keeps_def wp_simps)

lemma keeps_lift [keeps_intros]: "(\<And>e. r = Inl e \<Longrightarrow> e \<notin> bad) \<Longrightarrow> keeps bad I (lift r)"
  by (simp add: keeps_def wp_simps)

lemma keeps_need [keeps_intros]: "e \<notin> bad \<Longrightarrow> keeps bad I (need e v)"
  by (simp add: keeps_def wp_simps)

lemma keeps_assertIsRlmCurrent [keeps_intros]: "ErrSpoofedRealm \<notin> bad \<Longrightarrow> keeps bad I (assertIsRlmCurrent rlm)"
  by (simp add: keeps_def wp_simps)

lemma keeps_assertIsProxyRealm [keeps_intros]: "ErrNotProxyRealm \<notin> bad \<Longrightarrow> keeps bad I (assertIsProxyRealm p rlm)"
  by (simp add: keeps_def wp_simps)

lemma keeps_if [keeps_intros]:
  "(b \<Longrightarrow> keeps bad I m) \<Longrightarrow> (\<not> b \<Longrightarrow> keeps bad I n) \<Longrightarrow> keeps bad I (if b then m else n)"
  by simp

lemma keeps_case_option [keeps_intros]:
  "(v = None \<Longrightarrow> keeps bad I m) \<Longrightarrow> (\<And>x. v = Some x \<Longrightarrow> keeps bad I (k x)) \<Longrightarrow>
     keeps bad I (case v of None \<Rightarrow> m | Some x \<Rightarrow> k x)"
  by (cases v) simp_all

lemma keeps_case_sum [keeps_intros]:
  "(\<And>x. v = Inl x \<Longrightarrow> keeps bad I (m x)) \<Longrightarrow> (\<And>x. v = Inr x \<Longrightarrow> keeps bad I (k x)) \<Longrightarrow>
     keeps bad I (case v of Inl x \<Rightarrow> m x | Inr x \<Rightarrow> k x)"
  by (cases v) simp_all

lemma keeps_case_prod [keeps_intros]:
  "(\<And>x y. v = (x, y) \<Longrightarrow> keeps bad I (k x y)) \<Longrightarrow> keeps bad I (case v of (x, y) \<Rightarrow> k x y)"
  by (cases v) simp_all

lemma keeps_case_list [keeps_intros]:
  "(v = [] \<Longrightarrow> keeps bad I m) \<Longrightarrow> (\<And>x xs. v = x # xs \<Longrightarrow> keeps bad I (k x xs)) \<Longrightarrow>
     keeps bad I (case v of [] \<Rightarrow> m | x # xs \<Rightarrow> k x xs)"
  by (cases v) simp_all

lemma keeps_Let [keeps_intros]: "(\<And>x. x = v \<Longrightarrow> keeps bad I (k x)) \<Longrightarrow> keeps bad I (let x = v in k x)"
  by simp

lemma keeps_each [keeps_intros]:
  assumes "\<And>x. x \<in> set xs \<Longrightarrow> keeps bad I (f x)"
  shows "keeps bad I (each f xs)"
  using assms by (induction xs) (auto intro!: keeps_ok keeps_andthen)

text \<open>An app's callback keeps what its calls into the host keep.\<close>

lemma keeps_run_prog:
  assumes send: "\<And>addr path c ts d. keeps bad I (SendPacket E (crossing E addr path) c ts d)"
    and ack: "\<And>addr path m. keeps bad I (WriteAcknowledgement E (crossing E addr path) m)"
    and frame: "\<And>s w. I s \<Longrightarrow> I (s\<lparr>world := w\<rparr>)" and "AppPanic \<notin> bad"
  shows "keeps bad I (run_prog E p)"
proof (induction p)
  case (Done r w)
  show ?case by (auto intro!: keeps_intros keeps_modify frame)
next
  case AppPanics
  show ?case using assms(4) by (auto intro!: keeps_intros)
next
  case (Reads k)
  then show ?case by (auto simp: keeps_def wp_def)
next
  case (CallSendPacket addr path c ts d k)
  have "run_prog E (CallSendPacket addr path c ts d k) =
      bind (SendPacket E (crossing E addr path) c ts d) (\<lambda>packet. run_prog E (k packet))"
    by (simp add: fun_eq_iff bind_def)
  then show ?case using CallSendPacket by (auto intro!: keeps_bind send)
next
  case (CallWriteAcknowledgement addr path packet b k)
  have "run_prog E (CallWriteAcknowledgement addr path packet b k) =
      andthen (WriteAcknowledgement E (crossing E addr path) \<lparr>mwa_Packet = packet, mwa_Acknowledgement = b\<rparr>) (run_prog E k)"
    by (simp add: fun_eq_iff bind_def andthen_def)
  then show ?case using CallWriteAcknowledgement by (auto intro!: keeps_andthen ack)
qed

section \<open>Encodings never fail\<close>

lemma connection_EncodeABI_total: "\<exists>bz. connection_EncodeABI c = Inr bz"
  unfolding connection_EncodeABI_def by (rule Encode_total) (simp_all add: connection_schema_def)

lemma channel_EncodeABI_total: "\<exists>bz. channel_EncodeABI c = Inr bz"
proof -
  have "\<exists>bz. Encode channel_schema
      [VUint8 (channel_state_byte (chan_State c)), VUint32 (chan_ConnectionId c),
       VUint32 (chan_CounterpartyChannelId c), VBytes (chan_CounterpartyPortId c), VString (chan_Version c)] = Inr bz"
    by (rule Encode_total) (simp_all add: channel_schema_def)
  then show ?thesis by (auto simp: channel_EncodeABI_def)
qed

lemma connectionValue_total: "connectionValue kc c \<noteq> Inl e"
  using connection_EncodeABI_total [of c] by (auto simp: connectionValue_def)

lemma channelValue_total: "channelValue kc c \<noteq> Inl e"
  using channel_EncodeABI_total [of c] by (auto simp: channelValue_def)

lemma commitPacketsHash_total: "commitPacketsHash kc ps = Inr (Keccak kc (packets_preimage ps))"
  by (simp add: commitPacketsHash_def CommitPackets_total)

lemma packetCommitmentPath_total: "packetCommitmentPath (keccak256 E) p = Inr (commitment_path E p)"
  by (simp add: packetCommitmentPath_def PacketCommitmentPath_def CommitPacket_def CommitPackets_total
      commitment_path_def packet_hash_def)

lemma packetAcknowledgementPath_total: "packetAcknowledgementPath (keccak256 E) p = Inr (receipt_path E p)"
  by (simp add: packetAcknowledgementPath_def PacketAcknowledgementPath_def CommitPacket_def CommitPackets_total
      receipt_path_def packet_hash_def)

lemmas [simp] = connectionValue_total channelValue_total commitPacketsHash_total
  packetCommitmentPath_total packetAcknowledgementPath_total commitPacketHash_total

section \<open>The store's getters and setters\<close>

text \<open>The commitment primitives.\<close>

lemmas commitment_defs = setCommitment_def setCommitmentMem_def setChainParam_def getCommitment_def
  HasPacketCommitment_def store_CommitPacket_def SetPacketAcknowledged_def HasPacketReceipt_def
  SetPacketReceipt_def CommitAcknowledgement_def AcknowledgementReceipt_def PacketCommitment_def
  SaveBatchPackets_def SaveBatchReceipts_def SaveMembershipProof_def SaveNonMembershipProof_def

text \<open>The client setters, and the identifiers.\<close>

lemmas client_defs = store_RegisterClient_def registerClient_def AddClient_def nextClientId_def addClient_def
  ClientRegistry_def store_GetClientImpl_def GetLightClient_def getClient_def onClient_def updateObject_def
  SetLightClient_def SaveClientStore_def SaveClientState_def saveClientState_def SaveConsensusState_def
  saveConsensusState_def setChainParam_def

text \<open>A getter that asserts a type, as a computation on the state.\<close>

lemma wp_store_GetConnection [wp_simps]:
  "wp bad (store_GetConnection E i) Q =
     (\<lambda>s. case bp_Get E (connections s) (connectionKey E i) of
        None \<Rightarrow> Q None s
      | Some (AnyConnection c) \<Rightarrow> Q (Some c) s
      | Some _ \<Rightarrow> TypeAssertion \<notin> bad)"
  by (simp add: fun_eq_iff store_GetConnection_def wp_simps split: option.splits any.splits)

lemma wp_getChannelEntry [wp_simps]:
  "wp bad (getChannelEntry E i) Q =
     (\<lambda>s. case bp_Get E (channels s) (channelKey E i) of
        None \<Rightarrow> Q None s
      | Some (AnyChannel c) \<Rightarrow> Q (Some c) s
      | Some _ \<Rightarrow> TypeAssertion \<notin> bad)"
  by (simp add: fun_eq_iff getChannelEntry_def wp_simps split: option.splits any.splits)

lemma wp_store_GetChannel [wp_simps]:
  "wp bad (store_GetChannel E i) Q = wp bad (getChannelEntry E i) (\<lambda>e. Q (map_option entry_channel e))"
  by (simp add: store_GetChannel_def wp_bind wp_ok)

lemma wp_store_GetChannelOwner [wp_simps]:
  "wp bad (store_GetChannelOwner E i) Q = wp bad (getChannelEntry E i) (\<lambda>e. Q (map_option entry_portId e))"
  by (simp add: store_GetChannelOwner_def wp_bind wp_ok)

end
