(* ===== verification/CoreMachine.thy ===== *)
theory CoreMachine
  imports CoreRules
begin

text \<open>
  The host as a state machine: every entry point as a transaction on the state, the states the
  host can reach, and the invariant that rules out runtime panics. A transaction that panics is
  reverted.
\<close>

section \<open>Transactions\<close>

datatype ('lc, 'app) core_call =
    CRegisterClient ClientType "'lc ClientImpl option" | CCreateClient MsgCreateClient
  | CUpdateClient MsgUpdateClient | CForceUpdateClient MsgForceUpdateClient | CMisbehaviour MsgMisbehaviour
  | CConnectionOpenInit MsgConnectionOpenInit
  | CConnectionOpenTry MsgConnectionOpenTry | CForceConnectionOpenTry MsgConnectionOpenTry
  | CConnectionOpenAck MsgConnectionOpenAck | CForceConnectionOpenAck MsgConnectionOpenAck
  | CConnectionOpenConfirm MsgConnectionOpenConfirm | CForceConnectionOpenConfirm MsgConnectionOpenConfirm
  | CChannelOpenInit MsgChannelOpenInit
  | CChannelOpenTry MsgChannelOpenTry | CForceChannelOpenTry MsgChannelOpenTry
  | CChannelOpenAck MsgChannelOpenAck | CForceChannelOpenAck MsgChannelOpenAck
  | CChannelOpenConfirm MsgChannelOpenConfirm | CForceChannelOpenConfirm MsgChannelOpenConfirm
  | CChannelCloseInit MsgChannelCloseInit | CChannelCloseConfirm MsgChannelCloseConfirm
  | CSendPacket ChannelId Timestamp bytes | CPacketRecv MsgPacketRecv | CIntentPacketRecv MsgIntentPacketRecv
  | CPacketAcknowledgement MsgPacketAcknowledgement | CPacketTimeout MsgPacketTimeout
  | CCommitMembershipProof MsgCommitMembershipProof | CCommitNonMembershipProof MsgCommitNonMembershipProof
  | CBatchSend MsgBatchSend | CBatchAcks MsgBatchAcks | CWriteAcknowledgement MsgWriteAcknowledgement
  | CRegisterApp "'app option" | CSetEventConfig EventConfig

text \<open>An entry point runs with its realm token and the block time.\<close>

fun call :: "('t, 'lc, 'app, 'w) env \<Rightarrow> realm \<Rightarrow> u64 \<Rightarrow> ('lc, 'app) core_call \<Rightarrow> (('t, 'lc, 'app, 'w) core, unit) comp" where
  "call E rlm now (CRegisterClient typ impl) = RegisterClient E rlm typ impl"
| "call E rlm now (CCreateClient m) = CreateClient E rlm m"
| "call E rlm now (CUpdateClient m) = UpdateClient E rlm m"
| "call E rlm now (CForceUpdateClient m) = ForceUpdateClient E rlm m"
| "call E rlm now (CMisbehaviour m) = Misbehaviour E rlm m"
| "call E rlm now (CConnectionOpenInit m) = ConnectionOpenInit E rlm m"
| "call E rlm now (CConnectionOpenTry m) = ConnectionOpenTry E rlm m"
| "call E rlm now (CForceConnectionOpenTry m) = ForceConnectionOpenTry E rlm m"
| "call E rlm now (CConnectionOpenAck m) = ConnectionOpenAck E rlm m"
| "call E rlm now (CForceConnectionOpenAck m) = ForceConnectionOpenAck E rlm m"
| "call E rlm now (CConnectionOpenConfirm m) = ConnectionOpenConfirm E rlm m"
| "call E rlm now (CForceConnectionOpenConfirm m) = ForceConnectionOpenConfirm E rlm m"
| "call E rlm now (CChannelOpenInit m) = ChannelOpenInit E rlm m"
| "call E rlm now (CChannelOpenTry m) = ChannelOpenTry E rlm m"
| "call E rlm now (CForceChannelOpenTry m) = ForceChannelOpenTry E rlm m"
| "call E rlm now (CChannelOpenAck m) = ChannelOpenAck E rlm m"
| "call E rlm now (CForceChannelOpenAck m) = ForceChannelOpenAck E rlm m"
| "call E rlm now (CChannelOpenConfirm m) = ChannelOpenConfirm E rlm m"
| "call E rlm now (CForceChannelOpenConfirm m) = ForceChannelOpenConfirm E rlm m"
| "call E rlm now (CChannelCloseInit m) = ChannelCloseInit E rlm m"
| "call E rlm now (CChannelCloseConfirm m) = ChannelCloseConfirm E rlm m"
| "call E rlm now (CSendPacket c ts d) = andthen (SendPacket E rlm c ts d) (ok ())"
| "call E rlm now (CPacketRecv m) = PacketRecv E rlm now m"
| "call E rlm now (CIntentPacketRecv m) = IntentPacketRecv E rlm now m"
| "call E rlm now (CPacketAcknowledgement m) = PacketAcknowledgement E rlm m"
| "call E rlm now (CPacketTimeout m) = PacketTimeout E rlm m"
| "call E rlm now (CCommitMembershipProof m) = CommitMembershipProof E rlm m"
| "call E rlm now (CCommitNonMembershipProof m) = CommitNonMembershipProof E rlm m"
| "call E rlm now (CBatchSend m) = BatchSend E rlm m"
| "call E rlm now (CBatchAcks m) = BatchAcks E rlm m"
| "call E rlm now (CWriteAcknowledgement m) = WriteAcknowledgement E rlm m"
| "call E rlm now (CRegisterApp a) = RegisterApp E rlm a"
| "call E rlm now (CSetEventConfig c) =
     bind (lift (setEventConfig c)) (\<lambda>config. modify (\<lambda>s. s\<lparr>eventConfig := config\<rparr>))"

text \<open>One transaction: a successful call commits, a panic leaves the state as it was.\<close>

inductive tx :: "('t, 'lc, 'app, 'w) env \<Rightarrow> ('lc, 'app) core_call \<Rightarrow> ('t, 'lc, 'app, 'w) core \<Rightarrow> ('t, 'lc, 'app, 'w) core \<Rightarrow> bool" for E where
  commits: "call E rlm now c s = Inr ((), s') \<Longrightarrow> tx E c s s'"
| reverts: "call E rlm now c s = Inl e \<Longrightarrow> tx E c s s"

inductive_cases tx_cases: "tx E c s s'"

text \<open>The states reached by a sequence of transactions, and the states reachable by transactions
  of a given kind.\<close>

inductive txs :: "('t, 'lc, 'app, 'w) env \<Rightarrow> ('lc, 'app) core_call list \<Rightarrow> ('t, 'lc, 'app, 'w) core \<Rightarrow> ('t, 'lc, 'app, 'w) core \<Rightarrow> bool" for E where
  none: "txs E [] s s"
| more: "tx E c s t \<Longrightarrow> txs E cs t u \<Longrightarrow> txs E (c # cs) s u"

inductive_cases txs_Cons: "txs E (c # cs) s u"
inductive_cases txs_Nil: "txs E [] s u"

definition reachable :: "('t, 'lc, 'app, 'w) env \<Rightarrow> (('lc, 'app) core_call \<Rightarrow> bool) \<Rightarrow> ('t, 'lc, 'app, 'w) core \<Rightarrow> bool" where
  "reachable E allowed s \<longleftrightarrow> (\<exists>w cs. list_all allowed cs \<and> txs E cs (newStore E w) s)"

text \<open>The same as a function, for concrete runs.\<close>

fun run_calls :: "('t, 'lc, 'app, 'w) env \<Rightarrow> (realm \<times> u64 \<times> ('lc, 'app) core_call) list \<Rightarrow> ('t, 'lc, 'app, 'w) core \<Rightarrow> ('t, 'lc, 'app, 'w) core" where
  "run_calls E [] s = s"
| "run_calls E ((rlm, now, c) # cs) s =
     run_calls E cs (case call E rlm now c s of Inl e \<Rightarrow> s | Inr (_, s') \<Rightarrow> s')"

section \<open>Interface: invariants of transactions\<close>

text \<open>What a property of states has to satisfy to hold of all reachable states, and a relation
  between states to hold along every sequence of transactions.\<close>

locale state_invariant =
  fixes E :: "('t, 'lc, 'app, 'w) env" and allowed :: "('lc, 'app) core_call \<Rightarrow> bool" and inv :: "('t, 'lc, 'app, 'w) core \<Rightarrow> bool"
  assumes init: "inv (newStore E w)" and step: "allowed c \<Longrightarrow> inv s \<Longrightarrow> tx E c s s' \<Longrightarrow> inv s'"
begin

lemma invariant_along: "txs E cs s s' \<Longrightarrow> list_all allowed cs \<Longrightarrow> inv s \<Longrightarrow> inv s'"
  by (induction rule: txs.induct) (auto dest: step)

lemma invariant: "reachable E allowed s \<Longrightarrow> inv s"
  unfolding reachable_def using invariant_along init by blast

end

locale step_relation =
  fixes E :: "('t, 'lc, 'app, 'w) env" and allowed :: "('lc, 'app) core_call \<Rightarrow> bool" and R :: "('t, 'lc, 'app, 'w) core \<Rightarrow> ('t, 'lc, 'app, 'w) core \<Rightarrow> bool"
  assumes refl: "R s s" and trans: "R s t \<Longrightarrow> R t u \<Longrightarrow> R s u"
    and step: "allowed c \<Longrightarrow> tx E c s s' \<Longrightarrow> R s s'"
begin

lemma along: "txs E cs s s' \<Longrightarrow> list_all allowed cs \<Longrightarrow> R s s'"
  by (induction rule: txs.induct) (auto intro: refl trans step)

end

section \<open>The invariant of the store\<close>

text \<open>The panics of the Go runtime that no transaction may end in.\<close>

definition runtime_panics :: "core_error set" where
  "runtime_panics = {NilDereference, TypeAssertion, DivideByZero}"

text \<open>The trees hold values of the type their readers assert; every channel belongs to a port
  with an app, and no app is nil; every client has its constructor and is stored under its own id; the event
  policy has positive widths.\<close>

definition core_inv :: "('t, 'lc, 'app, 'w) env \<Rightarrow> ('t, 'lc, 'app, 'w) core \<Rightarrow> bool" where
  "core_inv E s \<longleftrightarrow>
     (\<forall>i v. bp_Get E (connections s) (connectionKey E i) = Some v \<longrightarrow> (\<exists>c. v = AnyConnection c)) \<and>
     (\<forall>i v. bp_Get E (channels s) (channelKey E i) = Some v \<longrightarrow>
        (\<exists>e a. v = AnyChannel e \<and> ports s (portKey (entry_portId e)) = Some (Some a))) \<and>
     (\<forall>k v. ports s k = Some v \<longrightarrow> v \<noteq> None) \<and>
     (\<forall>i v. clientImplByID s i = Some v \<longrightarrow> v \<noteq> None \<and> clientByID s i \<noteq> None) \<and>
     (\<forall>i c. clientByID s i = Some c \<longrightarrow> client_id c = i \<and>
        (\<forall>h v. bp_Get E (consensusByHeight c) (string_of_bytes (height_Bytes h)) = Some v \<longrightarrow> (\<exists>b. v = AnyBytes b))) \<and>
     MaxEventAttrValueLen (eventConfig s) \<noteq> 0 \<and> MaxEventAttrPairs (eventConfig s) \<noteq> 0"

text \<open>Registering a nil app is the one transaction after which a later one may dereference nil.\<close>

fun non_nil_app :: "('lc, 'app) core_call \<Rightarrow> bool" where
  "non_nil_app (CRegisterApp a) \<longleftrightarrow> a \<noteq> None"
| "non_nil_app _ \<longleftrightarrow> True"

text \<open>A concrete environment for the instances: trees are maps, the light client accepts every
  proof and reports time 1000 at every height, the app acknowledges with one byte.\<close>

definition sample_env :: "(string \<Rightarrow> any option, unit, unit, nat) env" where
  "sample_env =
     \<lparr>keccak256 = (\<lambda>b. take 32 (b @ replicate 32 0)), proxyPkgPath = ''core'',
      NewBPTree32 = Map.empty, bp_Set = (\<lambda>t k v. t(k \<mapsto> v)), bp_Get = (\<lambda>t k. t k), bp_Iterate = (\<lambda>t. []),
      seq_Next = (\<lambda>i. if i = - 1 then None else Some (i + 1)),
      seq_Binary = (\<lambda>i. string_of_bytes (PutUint64 i)),
      lc_VerifyMembership = (\<lambda>lc h k p v. None), lc_VerifyNonMembership = (\<lambda>lc h k p. None),
      lc_GetTimestampAtHeight = (\<lambda>lc h. Inr 1000), lc_GetLatestHeight = (\<lambda>lc. 1),
      lc_GetCounterpartyChainID = (\<lambda>lc. ''chain''), lc_Status = (\<lambda>lc. Active),
      lc_VerifyHeader = (\<lambda>lc a m r. Inr (\<lparr>su_Height = 1, su_ConsensusStateBytes = [], su_ClientStateBytes = [], su_StorageWrites = []\<rparr>, lc)),
      lc_VerifyCreation = (\<lambda>lc a r. Inr (\<lparr>cc_ClientStateBytes = [], cc_StorageWrites = []\<rparr>, lc)),
      lc_Misbehaviour = (\<lambda>lc a m r. Inr ([], lc)),
      OnChannelOpenInit = (\<lambda>a w cn ch v r. Done () (w + 1)), OnChannelOpenTry = (\<lambda>a w cn ch v cv r. Done () (w + 1)),
      OnChannelOpenAck = (\<lambda>a w ch cch cv r. Done () (w + 1)), OnChannelOpenConfirm = (\<lambda>a w ch r. Done () (w + 1)),
      OnChannelCloseInit = (\<lambda>a w ch r. Done () (w + 1)), OnChannelCloseConfirm = (\<lambda>a w ch r. Done () (w + 1)),
      OnRecvPacket = (\<lambda>a w p r m. Done \<lparr>res_Status = PacketStatusSuccess, res_Acknowledgement = [1]\<rparr> (w + 1)),
      OnIntentRecvPacket = (\<lambda>a w p r m. Done \<lparr>res_Status = PacketStatusSuccess, res_Acknowledgement = [1]\<rparr> (w + 1)),
      OnAcknowledgementPacket = (\<lambda>a w p b r. Done () (w + 1)), OnTimeoutPacket = (\<lambda>a w p r. Done () (w + 1))\<rparr>"

text \<open>A host with a client, an open connection and an open channel of the app \<open>app\<close>.\<close>

definition sample_rlm :: realm where
  "sample_rlm = \<lparr>IsCurrent = True, PkgPath = ''core'', PrevAddress = ''addr'', PrevPkgPath = ''app''\<rparr>"

definition sample_calls :: "(unit, unit) core_call list" where
  "sample_calls =
     [CRegisterApp (Some ()), CRegisterClient ''t'' (Some (\<lambda>b1 b2. Inr ())),
      CCreateClient \<lparr>mcc_ClientType = ''t'', mcc_ClientStateBytes = [1], mcc_ConsensusStateBytes = [2], mcc_Relayer = []\<rparr>,
      CConnectionOpenInit \<lparr>coi_ClientId = 1, coi_CounterpartyClientId = 1\<rparr>,
      CConnectionOpenAck \<lparr>coa_ConnectionId = 1, coa_CounterpartyConnectionId = 7, coa_ProofTry = [], coa_ProofHeight = 1\<rparr>,
      CChannelOpenInit \<lparr>hoi_PortId = bytes_of_string ''app'', hoi_CounterpartyPortId = [], hoi_ConnectionId = 1, hoi_Version = ''v''\<rparr>,
      CChannelOpenAck \<lparr>hoa_ChannelId = 1, hoa_CounterpartyVersion = ''v'', hoa_CounterpartyChannelId = 9,
        hoa_ProofTry = [], hoa_ProofHeight = 1\<rparr>]"

definition sample_state :: "(string \<Rightarrow> any option, unit, unit, nat) core" where
  "sample_state = run_calls sample_env (map (\<lambda>c. (sample_rlm, 0, c)) sample_calls) (newStore sample_env 0)"

section \<open>The environment's laws as rewrite rules\<close>

lemma env_ok_get_set:
  "env_ok E \<Longrightarrow> bp_Get E (bp_Set E t k v) k' = (if k = k' then Some v else bp_Get E t k')"
  by (simp add: env_ok_def)

lemma env_ok_new: "env_ok E \<Longrightarrow> bp_Get E (NewBPTree32 E) k = None"
  by (simp add: env_ok_def)

lemma ucast_u32_inject [simp]: "(ucast (a :: u32) :: u64) = ucast b \<longleftrightarrow> a = b"
  by (simp add: word_unat_eq_iff unat_ucast_u32)

lemma connectionKey_inject: "env_ok E \<Longrightarrow> connectionKey E i = connectionKey E j \<longleftrightarrow> i = j"
  by (simp add: env_ok_def connectionKey_def inj_eq)

lemma channelKey_inject: "env_ok E \<Longrightarrow> channelKey E i = channelKey E j \<longleftrightarrow> i = j"
  by (simp add: env_ok_def channelKey_def inj_eq)

lemma height_key_inject: "string_of_bytes (height_Bytes h) = string_of_bytes (height_Bytes k) \<longleftrightarrow> h = k"
proof -
  have "height_Bytes h = height_Bytes k \<longleftrightarrow> h = k"
    by (cases h; cases k) (simp add: height_Bytes_def)
  then show ?thesis by simp
qed

lemmas env_simps = env_ok_get_set env_ok_new connectionKey_inject channelKey_inject

lemma core_inv_frame [simp]:
  "core_inv E (s\<lparr>events := x1\<rparr>) = core_inv E s"
  "core_inv E (s\<lparr>params := x2\<rparr>) = core_inv E s"
  "core_inv E (s\<lparr>commitments := x3\<rparr>) = core_inv E s"
  "core_inv E (s\<lparr>world := x4\<rparr>) = core_inv E s"
  "core_inv E (s\<lparr>membershipProofs := x5\<rparr>) = core_inv E s"
  "core_inv E (s\<lparr>nonMembershipProofs := x6\<rparr>) = core_inv E s"
  "core_inv E (s\<lparr>connectionSeq := x7\<rparr>) = core_inv E s"
  "core_inv E (s\<lparr>channelSeq := x7\<rparr>) = core_inv E s"
  "core_inv E (s\<lparr>clientSeq := x7\<rparr>) = core_inv E s"
  "core_inv E (s\<lparr>clientRegistry := x8\<rparr>) = core_inv E s"
  by (simp_all add: core_inv_def)

lemma core_inv_new: "env_ok E \<Longrightarrow> core_inv E (newStore E w)"
  by (simp add: core_inv_def newStore_def env_ok_new DefaultEventConfig_def)

section \<open>Events never hit a runtime panic\<close>

lemma eventColumnPairs_error: "eventColumnPairs config b = Inl e \<Longrightarrow> MaxEventAttrValueLen config \<noteq> 0 \<Longrightarrow> False"
  by (auto simp: eventColumnPairs_def Let_def signed_eq_0_iff split: if_splits)

lemma IsValidEventSize_error: "IsValidEventSize config [b] = Inl e \<Longrightarrow> MaxEventAttrValueLen config \<noteq> 0 \<Longrightarrow> False"
  by (auto simp: IsValidEventSize_def dest: eventColumnPairs_error split: if_splits sum.splits)

lemma encodedEventAttrs_error: "encodedEventAttrs config key v = Inl e \<Longrightarrow> e \<notin> runtime_panics"
  by (auto simp: encodedEventAttrs_def eventAttrColumns_def runtime_panics_def Let_def split: if_splits sum.splits)

lemma event_attrs_errors:
  "packetSendEventAttrs kc config p ch cn = Inl e \<Longrightarrow> e \<notin> runtime_panics"
  "packetRecvEventAttrs kc config p ch cn m = Inl e \<Longrightarrow> e \<notin> runtime_panics"
  "writeAckEventAttrs kc config p ch cn m = Inl e \<Longrightarrow> e \<notin> runtime_panics"
  "packetAckEventAttrs kc config p ch cn m = Inl e \<Longrightarrow> e \<notin> runtime_panics"
  "packetTimeoutEventAttrs kc p ch cn = Inl e \<Longrightarrow> e \<notin> runtime_panics"
  by (auto simp: packetSendEventAttrs_def packetRecvEventAttrs_def writeAckEventAttrs_def packetAckEventAttrs_def
      packetTimeoutEventAttrs_def withEncoded_def split: sum.splits dest: encodedEventAttrs_error)

lemma wp_emit [wp_simps]:
  "wp bad (emit E rlm n attrs) Q =
     (\<lambda>s. (IsCurrent rlm \<longrightarrow> PkgPath rlm = proxyPkgPath E \<longrightarrow> Q () (s\<lparr>events := events s @ [(n, attrs)]\<rparr>)) \<and>
        (\<not> IsCurrent rlm \<longrightarrow> ErrSpoofedRealm \<notin> bad) \<and>
        (IsCurrent rlm \<longrightarrow> PkgPath rlm \<noteq> proxyPkgPath E \<longrightarrow> ErrNotProxyRealm \<notin> bad))"
  by (auto simp: fun_eq_iff emit_def wp_simps)

lemma not_runtime_panic [simp]:
  "ErrSpoofedRealm \<notin> runtime_panics" "ErrNotProxyRealm \<notin> runtime_panics" "Message m \<notin> runtime_panics"
  "ErrClientNotActive \<notin> runtime_panics" "ErrInvalidConnectionState \<notin> runtime_panics"
  "ErrInvalidChannelState \<notin> runtime_panics" "ErrInvalidCounterpartyChannelId \<notin> runtime_panics"
  "ErrSyncAckEmpty \<notin> runtime_panics" "ErrUnknownPacketStatus \<notin> runtime_panics"
  "ErrUnauthorizedAckWriter \<notin> runtime_panics" "ErrAcknowledgementAlreadyWritten \<notin> runtime_panics"
  "ErrAcknowledgementEmpty \<notin> runtime_panics" "ErrAcknowledgementMismatch \<notin> runtime_panics"
  "ErrUnauthorizedPacketSender \<notin> runtime_panics" "ErrTimeoutMustBeSet \<notin> runtime_panics"
  "ErrPacketCommitmentAlreadyExists \<notin> runtime_panics" "ErrPacketCommitmentNotFound \<notin> runtime_panics"
  "ErrPacketCombinedDataTooLarge \<notin> runtime_panics" "ErrPacketAlreadyAcknowledged \<notin> runtime_panics"
  "ErrPacketReceiptNotFound \<notin> runtime_panics" "ErrNotEnoughPackets \<notin> runtime_panics"
  "ErrBatchSameChannelOnly \<notin> runtime_panics" "ErrAcknowledgementCountMismatch \<notin> runtime_panics"
  "ErrTimeoutProofTimestampNotFound \<notin> runtime_panics" "ErrPacketTimeoutExpired \<notin> runtime_panics"
  "ErrPacketTimeoutNotReached \<notin> runtime_panics" "ErrIntentNotSupported \<notin> runtime_panics"
  "ErrPortNotFound b \<notin> runtime_panics" "ErrClientNotFoundId c \<notin> runtime_panics"
  "ErrConnectionNotFoundId c \<notin> runtime_panics" "ErrChannelNotFoundId c \<notin> runtime_panics"
  "SequenceOverflow \<notin> runtime_panics" "LightClientError m \<notin> runtime_panics" "AppPanic \<notin> runtime_panics"
  "ErrEncoding x \<notin> runtime_panics"
  by (simp_all add: runtime_panics_def)

section \<open>Clients keep the invariant\<close>

text \<open>Changing the fields of a stored client, other than its id and the types in its tree.\<close>

lemma core_inv_client:
  assumes "core_inv E s" and "clientByID s i = Some c" and "client_id c' = client_id c"
    and "\<And>h v. bp_Get E (consensusByHeight c') (string_of_bytes (height_Bytes h)) = Some v \<Longrightarrow> \<exists>b. v = AnyBytes b"
  shows "core_inv E (s\<lparr>clientByID := (clientByID s)(i \<mapsto> c')\<rparr>)"
  using assms by (auto simp: core_inv_def)

lemma core_inv_consensus:
  assumes "core_inv E s" and "clientByID s i = Some c"
    and "bp_Get E (consensusByHeight c) (string_of_bytes (height_Bytes h)) = Some v"
  shows "\<exists>b. v = AnyBytes b"
  using assms unfolding core_inv_def by blast

text \<open>The invariant together with the presence of one client.\<close>

definition has_client :: "('t, 'lc, 'app, 'w) env \<Rightarrow> ClientId \<Rightarrow> ('t, 'lc, 'app, 'w) core \<Rightarrow> bool" where
  "has_client E i s \<longleftrightarrow> core_inv E s \<and> clientByID s i \<noteq> None"

lemma has_client_frame [simp]:
  "has_client E i (s\<lparr>events := x1\<rparr>) = has_client E i s"
  "has_client E i (s\<lparr>params := x2\<rparr>) = has_client E i s"
  by (simp_all add: has_client_def)

lemma has_client_update:
  assumes "has_client E i s"
    and "\<And>c. client_id (f c) = client_id c"
    and "\<And>c h v. clientByID s i = Some c \<Longrightarrow> bp_Get E (consensusByHeight (f c)) (string_of_bytes (height_Bytes h)) = Some v \<Longrightarrow> \<exists>b. v = AnyBytes b"
  shows "has_client E i (s\<lparr>clientByID := (clientByID s)(i := map_option f (clientByID s i))\<rparr>)"
proof -
  obtain c where c: "clientByID s i = Some c" using assms(1) by (auto simp: has_client_def)
  then have "core_inv E (s\<lparr>clientByID := (clientByID s)(i \<mapsto> f c)\<rparr>)"
    using assms core_inv_client [of E s i c "f c"] by (auto simp: has_client_def)
  with c show ?thesis by (simp add: has_client_def)
qed

lemma has_client_consensus:
  "has_client E i s \<Longrightarrow> clientByID s i = Some c \<Longrightarrow>
     bp_Get E (consensusByHeight c) (string_of_bytes (height_Bytes h)) = Some v \<Longrightarrow> \<exists>b. v = AnyBytes b"
  using core_inv_consensus by (auto simp: has_client_def)

lemma keeps_onClient:
  assumes "\<And>c. client_id (f c) = client_id c" and "\<And>c. consensusByHeight (f c) = consensusByHeight c"
  shows "keeps bad (has_client E i) (onClient i f)"
  unfolding onClient_def
  by (intro keeps_modify has_client_update) (use assms has_client_consensus in auto)

lemma keeps_setChainParam [keeps_intros]: "keeps bad (has_client E i) (setChainParam k v)"
  unfolding setChainParam_def by (rule keeps_modify) simp

lemma keeps_SaveClientState: "keeps runtime_panics (has_client E i) (SaveClientState E rlm i b)"
  unfolding SaveClientState_def saveClientState_def
  by (intro keeps_intros keeps_onClient) simp_all

lemma keeps_SaveConsensusState:
  assumes "env_ok E"
  shows "keeps runtime_panics (has_client E i) (SaveConsensusState E rlm i h b)"
proof -
  have "keeps runtime_panics (has_client E i) (onClient i (\<lambda>c. c\<lparr>consensusByHeight :=
      bp_Set E (consensusByHeight c) (string_of_bytes (height_Bytes h)) (AnyBytes b)\<rparr>))"
    unfolding onClient_def
    by (intro keeps_modify has_client_update)
      (use assms has_client_consensus in \<open>auto simp: env_ok_get_set split: if_splits\<close>)
  then show ?thesis
    unfolding SaveConsensusState_def saveConsensusState_def by (intro keeps_intros) simp_all
qed

lemma keeps_SaveClientStore: "keeps runtime_panics (has_client E i) (SaveClientStore rlm i k v)"
  unfolding SaveClientStore_def by (intro keeps_intros keeps_onClient) simp_all

lemma keeps_SetLightClient: "keeps runtime_panics (has_client E i) (SetLightClient rlm i lc)"
  unfolding SetLightClient_def by (intro keeps_intros keeps_onClient) simp_all

lemma keeps_updateObject: "keeps runtime_panics (has_client E i) (updateObject i lc)"
  unfolding updateObject_def by (rule keeps_onClient) simp_all

lemma keeps_saveStorageWrites: "keeps runtime_panics (has_client E i) (saveStorageWrites rlm i writes)"
  unfolding saveStorageWrites_def by (intro keeps_intros keeps_SaveClientStore)

lemma keeps_client_emit: "keeps runtime_panics (has_client E i) (emit E rlm n attrs)"
  unfolding emit_def by (intro keeps_intros keeps_modify) simp_all

lemmas client_keeps = keeps_SaveClientState keeps_SaveConsensusState keeps_SaveClientStore
  keeps_SetLightClient keeps_updateObject keeps_saveStorageWrites keeps_client_emit

lemma keeps_initClient:
  "env_ok E \<Longrightarrow> keeps runtime_panics (has_client E i) (initClient E rlm i b1 b2 rel)"
  unfolding initClient_def by (intro keeps_intros client_keeps) simp_all

lemma keeps_getActiveClient: "keeps runtime_panics I (getActiveClient E i)"
  unfolding getActiveClient_def getClientOrErr_def by (intro keeps_intros) simp_all

lemma keeps_verifyMembership: "keeps runtime_panics I (verifyMembership E i h prf k v)"
  unfolding verifyMembership_def by (intro keeps_intros keeps_getActiveClient) simp_all

lemma keeps_verifyNonMembership: "keeps runtime_panics I (verifyNonMembership E i h prf k)"
  unfolding verifyNonMembership_def by (intro keeps_intros keeps_getActiveClient) simp_all

text \<open>A client found by its id is present.\<close>

lemma wp_getActiveClient:
  "(\<And>lc. clientByID s i \<noteq> None \<Longrightarrow> Q lc s) \<Longrightarrow> wp runtime_panics (getActiveClient E i) Q s"
  by (auto simp: getActiveClient_def getClientOrErr_def GetLightClient_def getClient_def wp_simps)

lemma wp_keeps: "keeps bad J m \<Longrightarrow> J s \<Longrightarrow> (\<And>t. J t \<Longrightarrow> I t) \<Longrightarrow> wp bad m (\<lambda>_. I) s"
  by (blast intro: wp_mono dest: keepsD)

lemma has_client_inv: "has_client E i s \<Longrightarrow> core_inv E s"
  by (simp add: has_client_def)

lemma safe_RegisterClient: "keeps runtime_panics (core_inv E) (RegisterClient E rlm typ impl)"
  by (auto simp: keeps_def RegisterClient_def client_defs EmitRegisterClient_def wp_simps)

lemma safe_UpdateClient:
  assumes "env_ok E"
  shows "keeps runtime_panics (core_inv E) (UpdateClient E rlm m)"
proof (rule keepsI)
  fix s assume inv: "core_inv E s"
  have rest: "keeps runtime_panics (has_client E (muc_ClientId m))
      (case v of
         Inl err \<Rightarrow> panic (Message (''update client: '' @ err))
       | Inr (update, lc') \<Rightarrow>
           andthen (updateObject (muc_ClientId m) lc')
           (let height = NewHeight (su_Height update) in
            andthen (if length (su_ClientStateBytes update) \<noteq> 0
                     then andthen (SaveClientState E rlm (muc_ClientId m) (su_ClientStateBytes update)) (ok ())
                     else ok ())
            (andthen (SaveConsensusState E rlm (muc_ClientId m) height (su_ConsensusStateBytes update))
            (andthen (saveStorageWrites rlm (muc_ClientId m) (su_StorageWrites update))
            (EmitUpdateClient E rlm (muc_ClientId m) height)))))" for v
    unfolding EmitUpdateClient_def by (intro keeps_intros client_keeps assms) simp_all
  show "wp runtime_panics (UpdateClient E rlm m) (\<lambda>_. core_inv E) s"
    unfolding UpdateClient_def Let_def wp_andthen [of _ "assertIsRlmCurrent rlm"] wp_assertIsRlmCurrent wp_bind
    by (auto intro!: wp_getActiveClient wp_keeps [OF rest [unfolded Let_def]] has_client_inv simp: inv has_client_def)
qed

lemma safe_Misbehaviour: "keeps runtime_panics (core_inv E) (Misbehaviour E rlm m)"
proof (rule keepsI)
  fix s assume inv: "core_inv E s"
  have rest: "keeps runtime_panics (has_client E (mmb_ClientId m))
      (case v of
         Inl err \<Rightarrow> panic (Message (''misbehaviour: '' @ err))
       | Inr (clientStateBytes, lc') \<Rightarrow>
           andthen (updateObject (mmb_ClientId m) lc')
           (andthen (if length clientStateBytes \<noteq> 0
                     then andthen (SaveClientState E rlm (mmb_ClientId m) clientStateBytes) (ok ())
                     else ok ())
           (EmitMisbehaviour E rlm (mmb_ClientId m))))" for v
    unfolding EmitMisbehaviour_def by (intro keeps_intros client_keeps) simp_all
  show "wp runtime_panics (Misbehaviour E rlm m) (\<lambda>_. core_inv E) s"
    unfolding Misbehaviour_def Let_def wp_andthen [of _ "assertIsRlmCurrent rlm"] wp_assertIsRlmCurrent wp_bind
    by (auto intro!: wp_getActiveClient wp_keeps [OF rest] has_client_inv simp: inv has_client_def)
qed

lemma core_inv_impl: "core_inv E s \<Longrightarrow> clientImplByID s i = Some v \<Longrightarrow> v \<noteq> None \<and> clientByID s i \<noteq> None"
  by (simp add: core_inv_def)

lemma safe_ForceUpdateClient:
  assumes "env_ok E"
  shows "keeps runtime_panics (core_inv E) (ForceUpdateClient E rlm m)"
proof (rule keepsI)
  fix s assume inv: "core_inv E s"
  have rest: "keeps runtime_panics (has_client E (mfu_ClientId m))
      (case v of
         Inl err \<Rightarrow> panic (Message (''force update client: '' @ err))
       | Inr nxt \<Rightarrow>
           andthen (SetLightClient rlm (mfu_ClientId m) nxt)
           (bind (initClient E rlm (mfu_ClientId m) (mfu_ClientStateBytes m)
                    (mfu_ConsensusStateBytes m) (PrevAddress rlm)) (\<lambda>height.
            EmitForceUpdateClient E rlm (mfu_ClientId m) height)))" for v
    unfolding EmitForceUpdateClient_def
    by (intro keeps_intros client_keeps keeps_initClient assms) simp_all
  show "wp runtime_panics (ForceUpdateClient E rlm m) (\<lambda>_. core_inv E) s"
    unfolding ForceUpdateClient_def wp_andthen [of _ "assertIsRlmCurrent rlm"] wp_assertIsRlmCurrent
      wp_bind [of _ "gets (store_GetClientImpl (mfu_ClientId m))"] wp_gets wp_bind [of _ "need e v" for e v] wp_need
    by (auto intro!: wp_keeps [OF rest] has_client_inv simp: inv has_client_def store_GetClientImpl_def
        dest: core_inv_impl [OF inv])
qed

lemma has_client_add:
  assumes "core_inv E s" and "env_ok E"
  shows "has_client E i (s\<lparr>clientSeq := n, clientTypeByID := ts, clientImplByID := (clientImplByID s)(i \<mapsto> Some impl),
     clientByID := (clientByID s)(i \<mapsto> \<lparr>client_id = i, creator = cr, lightClient = lc, clientState = [],
          consensusByHeight = NewBPTree32 E, clientStore = Map.empty\<rparr>)\<rparr>)"
  using assms by (auto simp: has_client_def core_inv_def env_ok_new)

lemma safe_CreateClient:
  assumes "env_ok E"
  shows "keeps runtime_panics (core_inv E) (CreateClient E rlm m)"
proof (rule keepsI)
  fix s assume inv: "core_inv E s"
  have rest: "wp runtime_panics
      (andthen (initClient E rlm i b1 b2 rel)
        (bind (gets (GetLightClient i)) (\<lambda>stored. bind (need NilDereference stored) (\<lambda>lc'.
         EmitCreateClient E rlm i ty (lc_GetCounterpartyChainID E lc'))))) (\<lambda>_. core_inv E) t"
    if "has_client E i t" for i b1 b2 rel ty t
    unfolding wp_andthen
    by (rule wp_mono [OF keepsD [OF keeps_initClient [OF assms] that]])
      (auto simp: wp_simps EmitCreateClient_def has_client_def GetLightClient_def getClient_def)
  show "wp runtime_panics (CreateClient E rlm m) (\<lambda>_. core_inv E) s"
    unfolding CreateClient_def Let_def wp_andthen [of _ "assertIsRlmCurrent rlm"] wp_assertIsRlmCurrent
      wp_bind [of _ "gets f" for f] wp_gets wp_bind [of _ "need e v" for e v] wp_need ClientRegistry_def
    by (auto simp: wp_panic wp_bind [of _ "AddClient E a b c d" for a b c d] split: sum.splits)
      (auto simp: AddClient_def nextClientId_def addClient_def ClientRegistry_def wp_simps
        intro!: rest [unfolded wp_simps] has_client_add [OF inv assms])
qed

section \<open>Connections keep the invariant\<close>

lemma core_inv_connection:
  "core_inv E s \<Longrightarrow> env_ok E \<Longrightarrow> core_inv E (s\<lparr>connections := bp_Set E (connections s) (connectionKey E i) (AnyConnection c)\<rparr>)"
  by (auto simp: core_inv_def env_simps)

lemma inv_setChainParam: "keeps bad (core_inv E) (setChainParam k v)"
  unfolding setChainParam_def by (rule keeps_modify) simp

lemma inv_emit: "keeps runtime_panics (core_inv E) (emit E rlm n attrs)"
  unfolding emit_def by (intro keeps_intros keeps_modify) simp_all

lemma inv_SaveConnection: "env_ok E \<Longrightarrow> keeps runtime_panics (core_inv E) (SaveConnection E rlm i c)"
  unfolding SaveConnection_def
  by (intro keeps_intros inv_setChainParam) (auto intro!: keeps_modify core_inv_connection)

lemma inv_NextConnectionId: "keeps runtime_panics (core_inv E) (NextConnectionId E rlm)"
  unfolding NextConnectionId_def by (intro keeps_intros keeps_modify) simp_all

lemma inv_store_GetConnection: "keeps runtime_panics (core_inv E) (store_GetConnection E i)"
  by (auto simp: keeps_def wp_simps core_inv_def split: option.splits any.splits)

lemma inv_ensureConnectionState: "keeps runtime_panics (core_inv E) (ensureConnectionState E i)"
  unfolding ensureConnectionState_def by (intro keeps_intros inv_store_GetConnection) simp_all

lemmas connection_keeps = inv_SaveConnection inv_NextConnectionId inv_store_GetConnection inv_emit
  keeps_verifyMembership

lemma safe_ConnectionOpenInit: "env_ok E \<Longrightarrow> keeps runtime_panics (core_inv E) (ConnectionOpenInit E rlm m)"
  unfolding ConnectionOpenInit_def EmitConnectionOpenInit_def
  by (intro keeps_intros connection_keeps) simp_all

lemma safe_connectionOpenTry: "env_ok E \<Longrightarrow> keeps runtime_panics (core_inv E) (connectionOpenTry E rlm m b)"
  unfolding connectionOpenTry_def EmitConnectionOpenTry_def
  by (intro keeps_intros connection_keeps) simp_all

lemma safe_connectionOpenAck: "env_ok E \<Longrightarrow> keeps runtime_panics (core_inv E) (connectionOpenAck E rlm m b)"
  unfolding connectionOpenAck_def EmitConnectionOpenAck_def
  by (intro keeps_intros connection_keeps) simp_all

lemma safe_connectionOpenConfirm: "env_ok E \<Longrightarrow> keeps runtime_panics (core_inv E) (connectionOpenConfirm E rlm m b)"
  unfolding connectionOpenConfirm_def EmitConnectionOpenConfirm_def
  by (intro keeps_intros connection_keeps) simp_all

section \<open>Packets and channels keep the invariant\<close>

lemma inv_setCommitment: "keeps bad (core_inv E) (setCommitment p v)"
  unfolding setCommitment_def by (intro keeps_intros keeps_modify inv_setChainParam) simp_all

lemma inv_setCommitmentMem: "keeps bad (core_inv E) (setCommitmentMem p v)"
  unfolding setCommitmentMem_def by (intro keeps_modify) simp_all

lemma inv_emitAttrs:
  "(\<And>config e. attrs config = Inl e \<Longrightarrow> e \<notin> runtime_panics) \<Longrightarrow> keeps runtime_panics (core_inv E) (emitAttrs E rlm n attrs)"
  unfolding emitAttrs_def by (intro keeps_intros keeps_modify) simp_all

lemma inv_emitSized:
  "(\<And>config e. attrs config = Inl e \<Longrightarrow> e \<notin> runtime_panics) \<Longrightarrow> keeps runtime_panics (core_inv E) (emitSized E rlm n b attrs)"
  by (auto simp: keeps_def emitSized_def wp_simps dest: IsValidEventSize_error)
    (auto simp: core_inv_def dest: IsValidEventSize_error)

lemma inv_getChannelEntry: "keeps runtime_panics (core_inv E) (getChannelEntry E i)"
  by (auto simp: keeps_def wp_simps core_inv_def split: option.splits any.splits)

lemma inv_store_GetChannel: "keeps runtime_panics (core_inv E) (store_GetChannel E i)"
  unfolding store_GetChannel_def by (intro keeps_intros inv_getChannelEntry)

lemma inv_store_GetChannelOwner: "keeps runtime_panics (core_inv E) (store_GetChannelOwner E i)"
  unfolding store_GetChannelOwner_def by (intro keeps_intros inv_getChannelEntry)

lemma inv_getChannel: "keeps runtime_panics (core_inv E) (getChannel E i)"
  unfolding getChannel_def by (intro keeps_intros inv_store_GetChannel) simp

lemma inv_packet_setters:
  "keeps runtime_panics (core_inv E) (HasPacketCommitment E p)"
  "keeps runtime_panics (core_inv E) (store_CommitPacket E rlm p)"
  "keeps runtime_panics (core_inv E) (SetPacketAcknowledged E rlm p)"
  "keeps runtime_panics (core_inv E) (HasPacketReceipt E p)"
  "keeps runtime_panics (core_inv E) (SetPacketReceipt E rlm p)"
  "keeps runtime_panics (core_inv E) (CommitAcknowledgement E rlm p ack)"
  "keeps runtime_panics (core_inv E) (AcknowledgementReceipt E p)"
  "keeps runtime_panics (core_inv E) (PacketCommitment E p)"
  "keeps runtime_panics (core_inv E) (SaveBatchPackets E rlm h v)"
  "keeps runtime_panics (core_inv E) (SaveBatchReceipts E rlm h v)"
  unfolding HasPacketCommitment_def store_CommitPacket_def SetPacketAcknowledged_def HasPacketReceipt_def
    SetPacketReceipt_def CommitAcknowledgement_def AcknowledgementReceipt_def PacketCommitment_def
    SaveBatchPackets_def SaveBatchReceipts_def
  by (intro keeps_intros inv_setCommitment inv_setCommitmentMem; simp)+

lemma inv_assertPacketDataSize: "keeps runtime_panics I (assertPacketDataSize d)"
  unfolding assertPacketDataSize_def by (intro keeps_intros) simp

lemma inv_packet_events:
  "keeps runtime_panics (core_inv E) (EmitPacketSend E rlm p ch cn)"
  "keeps runtime_panics (core_inv E) (EmitWriteAck E rlm p ch cn b)"
  "keeps runtime_panics (core_inv E) (EmitPacketRecv E rlm p ch cn b)"
  "keeps runtime_panics (core_inv E) (EmitIntentPacketRecv E rlm p ch cn b)"
  "keeps runtime_panics (core_inv E) (EmitPacketAck E rlm p ch cn b)"
  "keeps runtime_panics (core_inv E) (EmitPacketTimeout E rlm p ch cn)"
  unfolding EmitPacketSend_def EmitWriteAck_def EmitPacketRecv_def EmitIntentPacketRecv_def EmitPacketAck_def
    EmitPacketTimeout_def
  by (intro inv_emitAttrs inv_emitSized; erule event_attrs_errors)+

lemmas packet_keeps = inv_store_GetChannel inv_store_GetChannelOwner inv_getChannel inv_packet_setters
  inv_packet_events inv_ensureConnectionState inv_assertPacketDataSize inv_emit
  keeps_verifyMembership keeps_verifyNonMembership

lemma safe_SendPacket: "keeps runtime_panics (core_inv E) (SendPacket E rlm c ts d)"
  unfolding SendPacket_def by (intro keeps_intros packet_keeps) simp_all

lemma safe_WriteAcknowledgement: "keeps runtime_panics (core_inv E) (WriteAcknowledgement E rlm m)"
  unfolding WriteAcknowledgement_def by (intro keeps_intros packet_keeps) simp_all

lemma safe_run_prog: "keeps runtime_panics (core_inv E) (run_prog E p)"
  by (rule keeps_run_prog) (auto intro: safe_SendPacket safe_WriteAcknowledgement)

lemma safe_callApp: "a \<noteq> None \<Longrightarrow> keeps runtime_panics (core_inv E) (callApp E a cb)"
  unfolding callApp_def by (intro keeps_intros safe_run_prog) simp_all

lemma safe_RegisterApp:
  assumes "a \<noteq> None"
  shows "keeps runtime_panics (core_inv E) (RegisterApp E rlm a)"
proof -
  have "core_inv E (s\<lparr>ports := (ports s)(k \<mapsto> a)\<rparr>)" if "core_inv E s" "ports s k = None" for s k
    using that assms unfolding core_inv_def by (auto split: if_splits) fastforce+
  then show ?thesis
    by (auto simp: keeps_def RegisterApp_def RegisterAppAtPort_def EmitAppRegistered_def Let_def wp_simps)
qed

lemma safe_acceptRecvPacket: "keeps runtime_panics (core_inv E) (acceptRecvPacket E rlm p c now)"
  unfolding acceptRecvPacket_def by (intro keeps_intros packet_keeps) simp_all

lemma safe_commitSyncAck: "keeps runtime_panics (core_inv E) (commitSyncAck E rlm p ch cn res)"
  unfolding commitSyncAck_def
  by (cases "res_Status res") (auto intro!: keeps_intros packet_keeps)

lemma safe_recvOne: "a \<noteq> None \<Longrightarrow> keeps runtime_panics (core_inv E) (recvOne E rlm a ch cn c now pm)"
  unfolding recvOne_def by (intro keeps_intros packet_keeps safe_acceptRecvPacket safe_callApp safe_commitSyncAck)

lemma safe_intentOne: "a \<noteq> None \<Longrightarrow> keeps runtime_panics (core_inv E) (intentOne E rlm a ch cn c now pm)"
  unfolding intentOne_def by (intro keeps_intros packet_keeps safe_acceptRecvPacket safe_callApp safe_commitSyncAck)

lemma safe_markPacketAcknowledged: "keeps runtime_panics (core_inv E) (markPacketAcknowledged E rlm p)"
  unfolding markPacketAcknowledged_def by (intro keeps_intros packet_keeps) simp_all

lemma safe_ackOne: "a \<noteq> None \<Longrightarrow> keeps runtime_panics (core_inv E) (ackOne E rlm a ch cn c pa)"
  unfolding ackOne_def by (intro keeps_intros packet_keeps safe_markPacketAcknowledged safe_callApp) simp_all

text \<open>Reads in front of a handler: each leaves the state as it is, and what it returns.\<close>

definition has_channel :: "('t, 'lc, 'app, 'w) env \<Rightarrow> ChannelId \<Rightarrow> ('t, 'lc, 'app, 'w) core \<Rightarrow> bool" where
  "has_channel E i s \<longleftrightarrow> core_inv E s \<and> bp_Get E (channels s) (channelKey E i) \<noteq> None"

lemma wp_getChannel:
  "core_inv E s \<Longrightarrow> (\<And>ch. has_channel E i s \<Longrightarrow> Q ch s) \<Longrightarrow> wp runtime_panics (getChannel E i) Q s"
  unfolding getChannel_def wp_simps
  by (auto simp: has_channel_def core_inv_def split: option.splits any.splits)

lemma wp_ownerOrNil:
  "has_channel E i s \<Longrightarrow> (\<And>portId a. ports s (portKey portId) = Some (Some a) \<Longrightarrow> Q portId s) \<Longrightarrow>
     wp runtime_panics (ownerOrNil E i) Q s"
  unfolding ownerOrNil_def wp_simps
  by (auto simp: has_channel_def core_inv_def split: option.splits any.splits) blast+

lemma wp_ensureConnectionState:
  "core_inv E s \<Longrightarrow> (\<And>c. Q c s) \<Longrightarrow> wp runtime_panics (ensureConnectionState E i) Q s"
  unfolding ensureConnectionState_def wp_simps
  by (auto simp: core_inv_def split: option.splits any.splits)

lemma wp_verifyMembership: "Q () s \<Longrightarrow> wp runtime_panics (verifyMembership E i h prf k v) Q s"
  unfolding verifyMembership_def getActiveClient_def getClientOrErr_def wp_simps
  by (auto simp: wp_simps split: option.splits)

lemma wp_verifyNonMembership: "Q () s \<Longrightarrow> wp runtime_panics (verifyNonMembership E i h prf k) Q s"
  unfolding verifyNonMembership_def getActiveClient_def getClientOrErr_def wp_simps
  by (auto simp: wp_simps split: option.splits)

lemma wp_getClientOrErr: "(\<And>lc. Q lc s) \<Longrightarrow> wp runtime_panics (getClientOrErr i) Q s"
  unfolding getClientOrErr_def wp_simps by auto

lemma has_channel_inv: "has_channel E i s \<Longrightarrow> core_inv E s"
  by (simp add: has_channel_def)

lemma safe_PacketRecv: "keeps runtime_panics (core_inv E) (PacketRecv E rlm now m)"
proof (rule keepsI)
  fix s assume inv: "core_inv E s"
  show "wp runtime_panics (PacketRecv E rlm now m) (\<lambda>_. core_inv E) s"
  proof (cases "mpr_Packets m")
    case Nil
    then show ?thesis by (simp add: PacketRecv_def wp_simps)
  next
    case (Cons p ps)
    have loop: "ports s (portKey portId) = Some (Some a) \<Longrightarrow>
        wp runtime_panics (bind (getAppAtPort portId) (\<lambda>a. each (recvOne E rlm a ch cn c now) l)) (\<lambda>_. core_inv E) s"
      for portId a ch cn c l
      unfolding getAppAtPort_def GetAppByPortId_def wp_simps
      by (auto intro!: keepsD [OF keeps_each] safe_recvOne inv)
    show ?thesis
      unfolding PacketRecv_def Cons list.case Let_def wp_andthen wp_assertIsRlmCurrent
        wp_bind [of _ "getChannel E c" for c] wp_bind [of _ "ensureConnectionState E c" for c]
        wp_bind [of _ "lift c" for c] wp_lift wp_bind [of _ "ownerOrNil E c" for c]
      by (auto simp: inv intro!: wp_getChannel wp_ensureConnectionState wp_verifyMembership wp_ownerOrNil loop)
  qed
qed

lemma safe_IntentPacketRecv: "keeps runtime_panics (core_inv E) (IntentPacketRecv E rlm now m)"
proof (rule keepsI)
  fix s assume inv: "core_inv E s"
  show "wp runtime_panics (IntentPacketRecv E rlm now m) (\<lambda>_. core_inv E) s"
  proof (cases "mir_Packets m")
    case Nil
    then show ?thesis by (simp add: IntentPacketRecv_def wp_simps)
  next
    case (Cons p ps)
    have loop: "wp runtime_panics (bind (getAppAtPort portId) (\<lambda>a. andthen (guard (a \<noteq> None) ErrIntentNotSupported)
        (each (intentOne E rlm a ch cn c now) l))) (\<lambda>_. core_inv E) s" for portId ch cn c l
      unfolding getAppAtPort_def GetAppByPortId_def wp_simps
      by (auto intro!: keepsD [OF keeps_each] safe_intentOne inv)
    show ?thesis
      unfolding IntentPacketRecv_def Cons list.case Let_def wp_andthen [of _ "assertIsRlmCurrent rlm"] wp_assertIsRlmCurrent
        wp_bind [of _ "getChannel E c" for c] wp_bind [of _ "ensureConnectionState E c" for c]
        wp_bind [of _ "ownerOrNil E c" for c]
      by (auto simp: inv simp del: not_None_eq intro!: wp_getChannel wp_ensureConnectionState wp_ownerOrNil loop)
  qed
qed

lemma safe_PacketAcknowledgement: "keeps runtime_panics (core_inv E) (PacketAcknowledgement E rlm m)"
proof (rule keepsI)
  fix s assume inv: "core_inv E s"
  show "wp runtime_panics (PacketAcknowledgement E rlm m) (\<lambda>_. core_inv E) s"
  proof (cases "mpa_Packets m")
    case Nil
    then show ?thesis by (simp add: PacketAcknowledgement_def wp_simps)
  next
    case (Cons p ps)
    have loop: "ports s (portKey portId) = Some (Some a) \<Longrightarrow>
        wp runtime_panics (bind (appOrNil portId) (\<lambda>a. each (ackOne E rlm a ch cn c) l)) (\<lambda>_. core_inv E) s"
      for portId a ch cn c l
      unfolding appOrNil_def GetAppByPortId_def wp_simps
      by (auto intro!: keepsD [OF keeps_each] safe_ackOne inv)
    show ?thesis
      unfolding PacketAcknowledgement_def Cons list.case Let_def wp_andthen wp_assertIsRlmCurrent
        wp_bind [of _ "getChannel E c" for c] wp_bind [of _ "ensureConnectionState E c" for c]
        wp_bind [of _ "lift c" for c] wp_lift wp_bind [of _ "ownerOrNil E c" for c]
      by (auto simp: inv intro!: wp_getChannel wp_ensureConnectionState wp_verifyMembership wp_ownerOrNil loop)
  qed
qed

lemma safe_PacketTimeout: "keeps runtime_panics (core_inv E) (PacketTimeout E rlm m)"
proof (rule keepsI)
  fix s assume inv: "core_inv E s"
  have settle: "wp runtime_panics (markPacketAcknowledged E rlm p) Q s"
    if "has_channel E i s" and "\<And>t. has_channel E i t \<Longrightarrow> Q () t" for p Q i
    using that
    by (auto simp: markPacketAcknowledged_def commitment_defs wp_simps has_channel_def)
  have last: "wp runtime_panics (bind (appOrNil portId) (\<lambda>a. andthen (callApp E a cb) (EmitPacketTimeout E rlm p ch cn)))
        (\<lambda>_. core_inv E) t"
    if "core_inv E t" "ports t (portKey portId) = Some (Some a)" for portId a ch cn p cb t
    using that unfolding appOrNil_def GetAppByPortId_def wp_bind wp_gets wp_ok
    by (auto intro!: keepsD [OF keeps_andthen] safe_callApp inv_packet_events)
  show "wp runtime_panics (PacketTimeout E rlm m) (\<lambda>_. core_inv E) s"
    unfolding PacketTimeout_def Let_def wp_andthen [of _ "assertIsRlmCurrent rlm"] wp_assertIsRlmCurrent
      wp_bind [of _ "getChannel E c" for c] wp_andthen [of _ "guard b e" for b e] wp_guard
      wp_bind [of _ "ensureConnectionState E c" for c] wp_bind [of _ "getClientOrErr c" for c]
    by (auto simp: inv intro!: wp_getChannel wp_ensureConnectionState wp_getClientOrErr)
      (auto simp: wp_panic wp_andthen wp_bind wp_guard wp_lift split: sum.splits
        intro!: wp_verifyNonMembership settle wp_ownerOrNil last [unfolded wp_simps] has_channel_inv)
qed

lemma safe_batches_and_proofs:
  "keeps runtime_panics (core_inv E) (CommitMembershipProof E rlm m1)"
  "keeps runtime_panics (core_inv E) (CommitNonMembershipProof E rlm m2)"
  "keeps runtime_panics (core_inv E) (BatchSend E rlm m3)"
  "keeps runtime_panics (core_inv E) (BatchAcks E rlm m4)"
proof -
  have proofs: "keeps runtime_panics (core_inv E) (SaveMembershipProof E rlm i h p v)"
    "keeps runtime_panics (core_inv E) (SaveNonMembershipProof E rlm i h p v)" for i h p v
    unfolding SaveMembershipProof_def SaveNonMembershipProof_def
    by (intro keeps_intros keeps_modify inv_setChainParam; simp)+
  show "keeps runtime_panics (core_inv E) (CommitMembershipProof E rlm m1)"
    unfolding CommitMembershipProof_def EmitCommitMembershipProof_def
    by (intro keeps_intros packet_keeps proofs) simp_all
  show "keeps runtime_panics (core_inv E) (CommitNonMembershipProof E rlm m2)"
    unfolding CommitNonMembershipProof_def EmitCommitNonMembershipProof_def
    by (intro keeps_intros packet_keeps proofs) simp_all
  show "keeps runtime_panics (core_inv E) (BatchSend E rlm m3)"
    unfolding BatchSend_def batchSendOne_def EmitBatchSend_def by (intro keeps_intros packet_keeps) simp_all
  show "keeps runtime_panics (core_inv E) (BatchAcks E rlm m4)"
    unfolding BatchAcks_def batchAckOne_def EmitBatchAcks_def by (intro keeps_intros packet_keeps) simp_all
qed

text \<open>A channel stored for a port that has an app.\<close>

lemma core_inv_port: "core_inv E s \<Longrightarrow> ports s k = Some v \<Longrightarrow> \<exists>a. v = Some a"
  unfolding core_inv_def by blast

lemma core_inv_channel:
  assumes "core_inv E s" and "env_ok E" and "ports s (portKey (entry_portId e)) = Some (Some a)"
  shows "core_inv E (s\<lparr>channels := bp_Set E (channels s) (channelKey E i) (AnyChannel e)\<rparr>)"
  using assms by (auto simp: core_inv_def env_simps)

text \<open>The end of both opening handlers: the new channel is stored, the app called and the event
  emitted; without an app the call panics.\<close>

lemma wp_newChannel:
  assumes "core_inv E s" and "env_ok E" and ev: "keeps runtime_panics (core_inv E) ev"
  shows "wp runtime_panics (andthen (CreateChannel E rlm i ch portId)
      (bind (getAppAtPort portId) (\<lambda>a. andthen (callApp E a cb) ev))) (\<lambda>_. core_inv E) s"
proof -
  let ?e = "\<lparr>entry_channel = ch, entry_portId = portId\<rparr>"
  let ?t = "\<lambda>ps. s\<lparr>channels := bp_Set E (channels s) (channelKey E i) (AnyChannel ?e), params := ps\<rparr>"
  have "wp runtime_panics (andthen (callApp E a cb) ev) (\<lambda>_. core_inv E) (?t ps)"
    if port: "ports s (portKey portId) = Some a" for a ps
  proof -
    obtain app where a: "a = Some app" using core_inv_port [OF assms(1) port] by blast
    have "core_inv E (?t ps)" using core_inv_channel [of E s ?e app i] assms port a by simp
    then show ?thesis using a ev by (auto intro!: keepsD [OF keeps_andthen] safe_callApp)
  qed
  then show ?thesis
    unfolding wp_andthen [of _ "CreateChannel E rlm i ch portId"] CreateChannel_def getAppAtPort_def
      GetAppByPortId_def setChainParam_def wp_simps
    by (auto simp: wp_simps)
qed

lemma safe_ChannelOpenInit:
  assumes "env_ok E"
  shows "keeps runtime_panics (core_inv E) (ChannelOpenInit E rlm m)"
proof (rule keepsI)
  fix s assume inv: "core_inv E s"
  show "wp runtime_panics (ChannelOpenInit E rlm m) (\<lambda>_. core_inv E) s"
    unfolding ChannelOpenInit_def Let_def wp_andthen [of _ "assertIsRlmCurrent rlm"] wp_assertIsRlmCurrent
      wp_bind [of _ "ensureConnectionState E c" for c] wp_bind [of _ "NextChannelId E c" for c]
    by (auto simp: inv intro!: wp_ensureConnectionState)
      (auto simp: NextChannelId_def wp_bind [of _ "gets c" for c] wp_bind [of _ "need e c" for e c]
        wp_andthen [of _ "modify c" for c] wp_andthen [of _ "assertIsRlmCurrent rlm"] wp_assertIsRlmCurrent
        wp_gets wp_need wp_modify wp_ok EmitChannelOpenInit_def inv assms intro!: wp_newChannel inv_emit)
qed

lemma safe_channelOpenTry:
  assumes "env_ok E"
  shows "keeps runtime_panics (core_inv E) (channelOpenTry E rlm m b)"
proof (rule keepsI)
  fix s assume inv: "core_inv E s"
  have new: "wp runtime_panics (NextChannelId E rlm) Q s" if "\<And>i n. Q i (s\<lparr>channelSeq := n\<rparr>)" for Q
    using that by (auto simp: NextChannelId_def wp_simps)
  have last: "wp runtime_panics (andthen v (andthen (CreateChannel E rlm i ch portId)
      (bind (getAppAtPort portId) (\<lambda>a. andthen (callApp E a cb) (EmitChannelOpenTry E rlm portId i ch cv cn)))))
      (\<lambda>_. core_inv E) t"
    if "core_inv E t" and "keeps runtime_panics (core_inv E) v" for v i ch portId cb cv cn t
    unfolding wp_andthen [of _ v] EmitChannelOpenTry_def
    by (rule wp_mono [OF keepsD [OF that(2,1)]]) (auto intro!: wp_newChannel assms inv_emit)
  show "wp runtime_panics (channelOpenTry E rlm m b) (\<lambda>_. core_inv E) s"
    unfolding channelOpenTry_def Let_def wp_andthen [of _ "guard c e" for c e] wp_guard
      wp_bind [of _ "ensureConnectionState E c" for c] wp_bind [of _ "NextChannelId E c" for c]
    by (auto simp: inv intro!: wp_ensureConnectionState new last keeps_intros keeps_verifyMembership)
qed

text \<open>Updating a channel keeps its port.\<close>

lemma inv_SaveChannel:
  assumes "env_ok E"
  shows "keeps runtime_panics (has_channel E i) (SaveChannel E rlm i ch)"
proof (rule keepsI)
  fix s assume s: "has_channel E i s"
  then obtain e a where e: "bp_Get E (channels s) (channelKey E i) = Some (AnyChannel e)"
    and a: "ports s (portKey (entry_portId e)) = Some (Some a)"
    unfolding has_channel_def core_inv_def by blast
  have "core_inv E (s\<lparr>channels := bp_Set E (channels s) (channelKey E i) (AnyChannel (e\<lparr>entry_channel := ch\<rparr>))\<rparr>)"
    by (rule core_inv_channel [OF has_channel_inv [OF s] assms]) (simp add: a)
  then show "wp runtime_panics (SaveChannel E rlm i ch) (\<lambda>_. has_channel E i) s"
    using e assms by (simp add: SaveChannel_def setChainParam_def wp_simps has_channel_def env_simps)
qed

text \<open>The end of the handlers that update a channel and notify its app.\<close>

lemma wp_updateChannel:
  assumes "has_channel E i s" and "env_ok E" and ev: "keeps runtime_panics (core_inv E) ev"
    and app: "\<And>t. keeps runtime_panics (core_inv E) (app :: (('t, 'lc, 'app, 'w) core, 'app option) comp)"
    and some: "\<And>t. core_inv E t \<Longrightarrow> wp runtime_panics app (\<lambda>a _. a \<noteq> None) t"
  shows "wp runtime_panics (andthen (SaveChannel E rlm i ch) (bind app (\<lambda>a. andthen (callApp E a cb) ev))) (\<lambda>_. core_inv E) s"
proof -
  have "wp runtime_panics (bind app (\<lambda>a. andthen (callApp E a cb) ev)) (\<lambda>_. core_inv E) t" if t: "core_inv E t" for t
  proof -
    have "wp runtime_panics app (\<lambda>a t'. a \<noteq> None \<and> core_inv E t') t"
      using some [OF t] keepsD [OF app t] by (auto simp: wp_def split: sum.splits prod.splits)
    then show ?thesis
      unfolding wp_bind by (rule wp_mono) (auto intro!: keepsD [OF keeps_andthen] safe_callApp ev)
  qed
  then show ?thesis
    unfolding wp_andthen [of _ "SaveChannel E rlm i ch"]
    by (rule wp_mono [OF keepsD [OF inv_SaveChannel [OF assms(2)] assms(1)]]) (rule has_channel_inv)
qed

lemma inv_app_lookups:
  "keeps runtime_panics (core_inv E) (getAppAtPort portId)"
  "keeps runtime_panics (core_inv E) (appForClose portId)"
  "core_inv E t \<Longrightarrow> wp runtime_panics (getAppAtPort portId) (\<lambda>a _. a \<noteq> None) t"
  "core_inv E t \<Longrightarrow> wp runtime_panics (appForClose portId) (\<lambda>a _. a \<noteq> None) t"
  unfolding getAppAtPort_def appForClose_def GetAppByPortId_def
  by (auto intro!: keeps_intros simp: wp_simps dest: core_inv_port)

lemma inv_ownerOrNil: "keeps runtime_panics (has_channel E i) (ownerOrNil E i)"
  by (auto intro!: keepsI wp_ownerOrNil)

lemmas channel_wps = wp_getChannel wp_ensureConnectionState wp_ownerOrNil wp_updateChannel wp_verifyMembership
  inv_app_lookups inv_emit

lemma safe_channelOpenAck:
  assumes "env_ok E"
  shows "keeps runtime_panics (core_inv E) (channelOpenAck E rlm m b)"
proof (rule keepsI)
  fix s assume inv: "core_inv E s"
  show "wp runtime_panics (channelOpenAck E rlm m b) (\<lambda>_. core_inv E) s"
    unfolding channelOpenAck_def EmitChannelOpenAck_def Let_def
      wp_bind [of _ "getChannel E c" for c] wp_andthen [of _ "guard c e" for c e] wp_guard
      wp_bind [of _ "ensureConnectionState E c" for c] wp_bind [of _ "ownerOrNil E c" for c]
      wp_andthen [of _ "if b then c else e" for c e] wp_if wp_bind [of _ "lift c" for c] wp_lift wp_ok
    by (auto simp: inv assms intro!: channel_wps)
qed

lemma safe_channelOpenConfirm:
  assumes "env_ok E"
  shows "keeps runtime_panics (core_inv E) (channelOpenConfirm E rlm m b)"
proof (rule keepsI)
  fix s assume inv: "core_inv E s"
  show "wp runtime_panics (channelOpenConfirm E rlm m b) (\<lambda>_. core_inv E) s"
    unfolding channelOpenConfirm_def EmitChannelOpenConfirm_def Let_def
      wp_bind [of _ "getChannel E c" for c] wp_andthen [of _ "guard c e" for c e] wp_guard
      wp_bind [of _ "ensureConnectionState E c" for c] wp_bind [of _ "ownerOrNil E c" for c]
      wp_andthen [of _ "if b then c else e" for c e] wp_if wp_bind [of _ "lift c" for c] wp_lift wp_ok
    by (auto simp: inv assms intro!: channel_wps)
qed

lemma safe_ChannelCloseInit:
  assumes "env_ok E"
  shows "keeps runtime_panics (core_inv E) (ChannelCloseInit E rlm m)"
proof (rule keepsI)
  fix s assume inv: "core_inv E s"
  show "wp runtime_panics (ChannelCloseInit E rlm m) (\<lambda>_. core_inv E) s"
    unfolding ChannelCloseInit_def EmitChannelCloseInit_def Let_def
      wp_andthen [of _ "assertIsRlmCurrent rlm"] wp_assertIsRlmCurrent
      wp_bind [of _ "getChannel E c" for c] wp_andthen [of _ "guard c e" for c e] wp_guard
      wp_bind [of _ "ensureConnectionState E c" for c] wp_bind [of _ "ownerOrNil E c" for c]
    by (auto simp: inv assms intro!: channel_wps)
qed

lemma safe_ChannelCloseConfirm:
  assumes "env_ok E"
  shows "keeps runtime_panics (core_inv E) (ChannelCloseConfirm E rlm m)"
proof (rule keepsI)
  fix s assume inv: "core_inv E s"
  show "wp runtime_panics (ChannelCloseConfirm E rlm m) (\<lambda>_. core_inv E) s"
    unfolding ChannelCloseConfirm_def EmitChannelCloseConfirm_def Let_def
      wp_andthen [of _ "assertIsRlmCurrent rlm"] wp_assertIsRlmCurrent
      wp_bind [of _ "getChannel E c" for c] wp_andthen [of _ "guard c e" for c e] wp_guard
      wp_bind [of _ "ensureConnectionState E c" for c] wp_bind [of _ "ownerOrNil E c" for c]
      wp_andthen [of _ "verifyMembership E c d f g h" for c d f g h] wp_bind [of _ "lift c" for c] wp_lift
    by (auto simp: inv assms intro!: channel_wps)
qed

section \<open>No transaction ends in a runtime panic\<close>

lemma safe_SetEventConfig: "keeps runtime_panics (core_inv E) (call E rlm now (CSetEventConfig c))"
  by (auto simp: keeps_def wp_simps setEventConfig_def assertValidEventConfig_def core_inv_def runtime_panics_def
      split: if_splits)

lemma keeps_current:
  "keeps runtime_panics (core_inv E) m \<Longrightarrow> keeps runtime_panics (core_inv E) (andthen (assertIsRlmCurrent rlm) m)"
  by (intro keeps_intros) simp_all

lemma safe_call:
  assumes "env_ok E" and "non_nil_app c"
  shows "keeps runtime_panics (core_inv E) (call E rlm now c)"
proof (cases c)
  case (CSendPacket c ts d)
  then show ?thesis by (auto intro!: keeps_intros safe_SendPacket)
next
  case (CSetEventConfig c)
  then show ?thesis using safe_SetEventConfig by blast
next
  case (CRegisterApp a)
  with assms(2) have "a \<noteq> None" by simp
  with CRegisterApp show ?thesis by (simp add: safe_RegisterApp)
qed (auto simp: assms(1) ConnectionOpenTry_def ForceConnectionOpenTry_def ConnectionOpenAck_def ForceConnectionOpenAck_def
    ConnectionOpenConfirm_def ForceConnectionOpenConfirm_def ChannelOpenTry_def ForceChannelOpenTry_def
    ChannelOpenAck_def ForceChannelOpenAck_def ChannelOpenConfirm_def ForceChannelOpenConfirm_def
    intro!: keeps_current safe_RegisterClient safe_CreateClient safe_UpdateClient safe_ForceUpdateClient
    safe_Misbehaviour safe_ConnectionOpenInit safe_connectionOpenTry safe_connectionOpenAck safe_connectionOpenConfirm
    safe_ChannelOpenInit safe_channelOpenTry safe_channelOpenAck safe_channelOpenConfirm safe_ChannelCloseInit
    safe_ChannelCloseConfirm safe_PacketRecv safe_IntentPacketRecv safe_PacketAcknowledgement safe_PacketTimeout
    safe_batches_and_proofs safe_WriteAcknowledgement)

lemma core_inv_tx: "env_ok E \<Longrightarrow> non_nil_app c \<Longrightarrow> core_inv E s \<Longrightarrow> tx E c s s' \<Longrightarrow> core_inv E s'"
  by (auto elim!: tx_cases dest: keeps_run [OF safe_call])

interpretation store_inv: state_invariant E non_nil_app "\<lambda>s. env_ok E \<longrightarrow> core_inv E s" for E
  by unfold_locales (auto intro: core_inv_new core_inv_tx)

lemma txs_run_calls: "txs E (map (\<lambda>(rlm, now, c). c) cs) s (run_calls E cs s)"
proof (induction E cs s rule: run_calls.induct)
  case (2 E rlm now c cs s)
  have "tx E c s (case call E rlm now c s of Inl e \<Rightarrow> s | Inr (_, s') \<Rightarrow> s')"
    by (auto intro: tx.intros split: sum.splits prod.splits)
  with 2 show ?case by (auto intro: txs.more)
qed (simp add: txs.none)

lemma env_ok_sample: "env_ok sample_env"
  by (auto simp: env_ok_def sample_env_def inj_def)

lemma reachable_run_calls:
  "list_all allowed (map (\<lambda>(rlm, now, c). c) cs) \<Longrightarrow> reachable E allowed (run_calls E cs (newStore E w))"
  unfolding reachable_def using txs_run_calls by blast

lemma reachable_new: "reachable E allowed (newStore E w)"
  using reachable_run_calls [of allowed "[]" E w] by simp

section \<open>The sample state\<close>

lemma connectionValue_eq: "connectionValue kc c = Inr (Keccak kc (case connection_EncodeABI c of Inr b \<Rightarrow> b))"
  using connection_EncodeABI_total [of c] by (auto simp: connectionValue_def)

lemma channelValue_eq: "channelValue kc c = Inr (Keccak kc (case channel_EncodeABI c of Inr b \<Rightarrow> b))"
  using channel_EncodeABI_total [of c] by (auto simp: channelValue_def)

lemmas sample_simps = exec_simps emit_def client_defs RegisterApp_def RegisterAppAtPort_def EmitAppRegistered_def
  RegisterClient_def EmitRegisterClient_def CreateClient_def initClient_def saveStorageWrites_def EmitCreateClient_def
  ConnectionOpenInit_def NextConnectionId_def SaveConnection_def EmitConnectionOpenInit_def connectionValue_eq
  ConnectionOpenAck_def connectionOpenAck_def store_GetConnection_def EmitConnectionOpenAck_def verifyMembership_def
  getActiveClient_def getClientOrErr_def ChannelOpenInit_def ensureConnectionState_def NextChannelId_def CreateChannel_def
  getAppAtPort_def GetAppByPortId_def callApp_def EmitChannelOpenInit_def channelValue_eq ChannelOpenAck_def
  channelOpenAck_def getChannel_def store_GetChannel_def getChannelEntry_def store_GetChannelOwner_def ownerOrNil_def
  SaveChannel_def EmitChannelOpenAck_def resolveRelayer_def portKey_def NewConnection_def NewChannel_def
  connectionKey_def channelKey_def

lemma sample_state_eq:
  "\<exists>ps evs. sample_state = \<lparr>clientSeq = 1, clientRegistry = [''t'' \<mapsto> (\<lambda>b1 b2. Inr ())],
   clientTypeByID = [1 \<mapsto> ''t''], clientImplByID = [1 \<mapsto> Some (\<lambda>b1 b2. Inr ())], 
   clientByID = [1 \<mapsto> \<lparr>client_id = 1, creator = ''addr'', lightClient = (), clientState = [1],
     consensusByHeight = [string_of_bytes (height_Bytes (NewHeight 1)) \<mapsto> AnyBytes [2]], clientStore = Map.empty\<rparr>],
   connectionSeq = 1,
   connections = [string_of_bytes (PutUint64 1) \<mapsto> AnyConnection (NewConnection ConnectionStateOpen 1 1 7)],
   channelSeq = 1,
   channels = [string_of_bytes (PutUint64 1) \<mapsto> AnyChannel \<lparr>entry_channel = NewChannel ChannelStateOpen 1 9 [] ''v'', entry_portId = bytes_of_string ''app''\<rparr>],
   commitments = Map.empty, membershipProofs = Map.empty, nonMembershipProofs = Map.empty,
   ports = [''app'' \<mapsto> Some ()], params = ps, eventConfig = DefaultEventConfig, events = evs, world = 2\<rparr>"
  unfolding sample_state_def
  by (simp add: sample_calls_def sample_simps sample_env_def sample_rlm_def newStore_def Let_def)

lemma sample_state_views:
  "channel_of sample_env sample_state 1 = Some \<lparr>entry_channel = NewChannel ChannelStateOpen 1 9 [] ''v'', entry_portId = bytes_of_string ''app''\<rparr>"
  "connection_of sample_env sample_state 1 = Some (NewConnection ConnectionStateOpen 1 1 7)"
  "commitments sample_state = Map.empty" "ports sample_state = [''app'' \<mapsto> Some ()]"
  "channelSeq sample_state = 1" "connectionSeq sample_state = 1"
  "clientImplByID sample_state = [1 \<mapsto> Some (\<lambda>b1 b2. Inr ())]"
  by (rule exE [OF sample_state_eq], elim exE, erule ssubst, simp add: channel_of_def connection_of_def channelKey_def
      connectionKey_def sample_env_def)+

lemma reachable_sample: "reachable sample_env non_nil_app sample_state"
  unfolding sample_state_def by (rule reachable_run_calls) (simp add: sample_calls_def)

section \<open>Properties\<close>





end
