(* ===== verification/CoreLifecycle.thy ===== *)
theory CoreLifecycle
  imports CoreMachine
begin

text \<open>
  What a sequence of transactions can do to a commitment, a connection and a channel: packets are
  settled once, received once and acknowledged once, and packets do not touch handshakes. The
  theorems hold with apps that call back into the host from inside their callbacks.
\<close>

section \<open>Parts of the state an operation leaves alone\<close>

definition unchanged :: "('s \<Rightarrow> 'v) \<Rightarrow> ('s, 'a) comp \<Rightarrow> bool" where
  "unchanged f m \<longleftrightarrow> (\<forall>s x s'. m s = Inr (x, s') \<longrightarrow> f s' = f s)"

named_theorems unchanged_intros \<open>computations that leave a part of the state alone\<close>

lemma unchanged_run: "unchanged f m \<Longrightarrow> m s = Inr (x, s') \<Longrightarrow> f s' = f s"
  by (simp add: unchanged_def)

lemma unchanged_keeps: "unchanged f m \<Longrightarrow> (\<And>s s'. f s' = f s \<Longrightarrow> I s \<Longrightarrow> I s') \<Longrightarrow> keeps {} I m"
  by (auto simp: unchanged_def keeps_def wp_def split: sum.splits prod.splits)

lemma unchanged_basic [unchanged_intros]:
  "unchanged f (ok x)" "unchanged f (panic e)" "unchanged f (guard b e)" "unchanged f (gets g)"
  "unchanged f (lift r)" "unchanged f (need e v)" "unchanged f (assertIsRlmCurrent rlm)"
  "unchanged f (assertIsProxyRealm p rlm)"
  by (auto simp: unchanged_def run_simps)

lemma unchanged_bind [unchanged_intros]:
  "unchanged f m \<Longrightarrow> (\<And>x. unchanged f (k x)) \<Longrightarrow> unchanged f (bind m k)"
  by (fastforce simp: unchanged_def run_simps)

lemma unchanged_andthen [unchanged_intros]: "unchanged f m \<Longrightarrow> unchanged f k \<Longrightarrow> unchanged f (andthen m k)"
  by (fastforce simp: unchanged_def run_simps)

lemma unchanged_modify: "(\<And>s. f (g s) = f s) \<Longrightarrow> unchanged f (modify g)"
  by (auto simp: unchanged_def run_simps)

lemma unchanged_if [unchanged_intros]:
  "unchanged f m \<Longrightarrow> unchanged f n \<Longrightarrow> unchanged f (if b then m else n)"
  by simp

lemma unchanged_case_option [unchanged_intros]:
  "unchanged f m \<Longrightarrow> (\<And>x. unchanged f (k x)) \<Longrightarrow> unchanged f (case v of None \<Rightarrow> m | Some x \<Rightarrow> k x)"
  by (cases v) simp_all

lemma unchanged_case_sum [unchanged_intros]:
  "(\<And>x. unchanged f (p x)) \<Longrightarrow> (\<And>x. unchanged f (q x)) \<Longrightarrow> unchanged f (case r of Inl x \<Rightarrow> p x | Inr x \<Rightarrow> q x)"
  by (cases r) simp_all

lemma unchanged_case_prod [unchanged_intros]:
  "(\<And>x y. unchanged f (h x y)) \<Longrightarrow> unchanged f (case xy of (x, y) \<Rightarrow> h x y)"
  by (cases xy) simp

lemma unchanged_case_list [unchanged_intros]:
  "unchanged f m \<Longrightarrow> (\<And>x xs. unchanged f (l x xs)) \<Longrightarrow> unchanged f (case ys of [] \<Rightarrow> m | x # xs \<Rightarrow> l x xs)"
  by (cases ys) simp_all

lemma unchanged_Let [unchanged_intros]: "(\<And>x. unchanged f (k x)) \<Longrightarrow> unchanged f (let x = u in k x)"
  by simp

lemma unchanged_case_any [unchanged_intros]:
  "(\<And>c. unchanged f (q1 c)) \<Longrightarrow> (\<And>c. unchanged f (q2 c)) \<Longrightarrow> (\<And>c. unchanged f (q3 c)) \<Longrightarrow>
     unchanged f (case a of AnyConnection c \<Rightarrow> q1 c | AnyChannel c \<Rightarrow> q2 c | AnyBytes c \<Rightarrow> q3 c)"
  by (cases a) simp_all

lemma unchanged_each [unchanged_intros]: "(\<And>x. x \<in> set xs \<Longrightarrow> unchanged f (g x)) \<Longrightarrow> unchanged f (each g xs)"
  by (induction xs) (auto intro!: unchanged_intros)

text \<open>Operations that write neither a commitment nor a connection nor a channel. A view is quiet when
  it depends on nothing else.\<close>

definition handshake_view :: "('t, 'lc, 'app, 'w) core \<Rightarrow> 't \<times> u64 \<times> 't \<times> u64" where
  "handshake_view s = (connections s, connectionSeq s, channels s, channelSeq s)"

definition quiet :: "(('t, 'lc, 'app, 'w) core \<Rightarrow> 'v) \<Rightarrow> bool" where
  "quiet f \<longleftrightarrow> (\<forall>s s'. commitments s' = commitments s \<longrightarrow> handshake_view s' = handshake_view s \<longrightarrow> f s' = f s)"

lemma quiet_views: "quiet handshake_view" "quiet commitments"
  by (simp_all add: quiet_def)

lemma quiet_modify:
  "quiet f \<Longrightarrow> (\<And>s. commitments (g s) = commitments s) \<Longrightarrow> (\<And>s. handshake_view (g s) = handshake_view s) \<Longrightarrow> unchanged f (modify g)"
  unfolding quiet_def by (rule unchanged_modify) blast

lemma quiet_reads:
  assumes "quiet f"
  shows "unchanged f (store_GetConnection E c)" "unchanged f (getChannelEntry E c)" "unchanged f (getClientOrErr i)"
    "unchanged f (HasPacketCommitment E q)" "unchanged f (HasPacketReceipt E q)" "unchanged f (appOrNil p)"
    "unchanged f (AcknowledgementReceipt E q)" "unchanged f (PacketCommitment E q)"
    "unchanged f (getAppAtPort p)" "unchanged f (appForClose p)" "unchanged f (assertPacketDataSize d)"
  unfolding store_GetConnection_def getChannelEntry_def getClientOrErr_def HasPacketCommitment_def HasPacketReceipt_def
    AcknowledgementReceipt_def PacketCommitment_def appOrNil_def getAppAtPort_def appForClose_def assertPacketDataSize_def
  by (intro unchanged_intros)+

lemma quiet_writes:
  assumes "quiet f"
  shows "unchanged f (setChainParam k v)" "unchanged f (emit E rlm n attrs)" "unchanged f (emitAttrs E rlm n as)"
    "unchanged f (emitSized E rlm n b as)" "unchanged f (onClient i h)"
    "unchanged f (RegisterAppAtPort rlm b a)" "unchanged f (registerClient typ impl)"
    "unchanged f (nextClientId E)" "unchanged f (addClient E i typ cr lc)"
  unfolding setChainParam_def emit_def emitAttrs_def emitSized_def onClient_def RegisterAppAtPort_def
    registerClient_def nextClientId_def addClient_def
  by (intro unchanged_intros quiet_modify assms; simp add: handshake_view_def)+

lemma quiet_steps:
  assumes "quiet f"
  shows "unchanged f (store_GetChannel E c)" "unchanged f (store_GetChannelOwner E c)" "unchanged f (getChannel E c)"
    "unchanged f (ownerOrNil E c)" "unchanged f (ensureConnectionState E cn)" "unchanged f (getActiveClient E i)"
    "unchanged f (verifyMembership E i hh prf kk vv)" "unchanged f (verifyNonMembership E i hh prf kk)"
    "unchanged f (SaveClientStore rlm i key v)" "unchanged f (SetLightClient rlm i lc)"
    "unchanged f (SaveClientState E rlm i b)" "unchanged f (SaveConsensusState E rlm i hh b)"
    "unchanged f (updateObject i lc)" "unchanged f (AddClient E rlm typ cr lc)" "unchanged f (store_RegisterClient rlm typ impl)"
    "unchanged f (SaveMembershipProof E rlm i n b v')" "unchanged f (SaveNonMembershipProof E rlm i n b v')"
  unfolding store_GetChannel_def store_GetChannelOwner_def getChannel_def ownerOrNil_def ensureConnectionState_def
    getActiveClient_def verifyMembership_def verifyNonMembership_def SaveClientStore_def SetLightClient_def SaveClientState_def
    saveClientState_def SaveConsensusState_def saveConsensusState_def updateObject_def AddClient_def store_RegisterClient_def
    SaveMembershipProof_def SaveNonMembershipProof_def
  by (intro unchanged_intros quiet_reads quiet_writes quiet_modify assms; simp add: handshake_view_def)+

lemma quiet_init:
  assumes "quiet f"
  shows "unchanged f (saveStorageWrites rlm i ws)" "unchanged f (initClient E rlm i b1 b2 rel)"
  unfolding saveStorageWrites_def initClient_def
  by (intro unchanged_intros quiet_reads quiet_writes quiet_steps assms)+

lemmas quiet_all = quiet_reads quiet_writes quiet_steps quiet_init

lemma quiet_clients:
  assumes "quiet f"
  shows "unchanged f (RegisterClient E rlm typ impl)" "unchanged f (CreateClient E rlm m1)" "unchanged f (UpdateClient E rlm m2)"
    "unchanged f (ForceUpdateClient E rlm m3)" "unchanged f (Misbehaviour E rlm m4)" "unchanged f (RegisterApp E rlm a)"
    "unchanged f (CommitMembershipProof E rlm m5)" "unchanged f (CommitNonMembershipProof E rlm m6)"
    "unchanged f (call E rlm now (CSetEventConfig c))"
  unfolding RegisterClient_def EmitRegisterClient_def CreateClient_def EmitCreateClient_def UpdateClient_def EmitUpdateClient_def
    ForceUpdateClient_def EmitForceUpdateClient_def Misbehaviour_def EmitMisbehaviour_def RegisterApp_def EmitAppRegistered_def
    CommitMembershipProof_def EmitCommitMembershipProof_def CommitNonMembershipProof_def EmitCommitNonMembershipProof_def call.simps
  by (intro unchanged_intros quiet_all quiet_modify assms; simp add: handshake_view_def)+

text \<open>Connections and channels do not touch the commitments, and packets do not touch connections
  and channels.\<close>

lemma handshake_writes:
  "unchanged commitments (NextConnectionId E rlm)" "unchanged commitments (SaveConnection E rlm i c)"
  "unchanged commitments (NextChannelId E rlm)" "unchanged commitments (CreateChannel E rlm i ch p)"
  "unchanged commitments (SaveChannel E rlm i ch)"
  unfolding NextConnectionId_def SaveConnection_def NextChannelId_def CreateChannel_def SaveChannel_def
  by (intro unchanged_intros unchanged_modify quiet_all quiet_views; simp)+

lemma packet_writes:
  "unchanged handshake_view (setCommitment p v)" "unchanged handshake_view (setCommitmentMem p v)"
  unfolding setCommitment_def setCommitmentMem_def
  by (intro unchanged_intros unchanged_modify quiet_all quiet_views; simp add: handshake_view_def)+

lemma packet_setters:
  "unchanged handshake_view (store_CommitPacket E rlm q)" "unchanged handshake_view (SetPacketAcknowledged E rlm q)"
  "unchanged handshake_view (SetPacketReceipt E rlm q)" "unchanged handshake_view (CommitAcknowledgement E rlm q b)"
  "unchanged handshake_view (SaveBatchPackets E rlm h v)" "unchanged handshake_view (SaveBatchReceipts E rlm h v)"
  unfolding store_CommitPacket_def SetPacketAcknowledged_def SetPacketReceipt_def CommitAcknowledgement_def
    SaveBatchPackets_def SaveBatchReceipts_def
  by (intro unchanged_intros packet_writes)+

lemma connection_commitments:
  "unchanged commitments (ConnectionOpenInit E rlm m1)" "unchanged commitments (connectionOpenTry E rlm m2 b)"
  "unchanged commitments (connectionOpenAck E rlm m3 b)" "unchanged commitments (connectionOpenConfirm E rlm m4 b)"
  unfolding ConnectionOpenInit_def EmitConnectionOpenInit_def connectionOpenTry_def EmitConnectionOpenTry_def
    connectionOpenAck_def EmitConnectionOpenAck_def connectionOpenConfirm_def EmitConnectionOpenConfirm_def
  by (intro unchanged_intros handshake_writes quiet_all quiet_views)+

lemma packet_handshake:
  "unchanged handshake_view (SendPacket E rlm c ts d)" "unchanged handshake_view (WriteAcknowledgement E rlm m)"
  unfolding SendPacket_def EmitPacketSend_def WriteAcknowledgement_def EmitWriteAck_def
  by (intro unchanged_intros packet_setters quiet_all quiet_views)+

lemma unchanged_iff_keeps: "unchanged f m \<longleftrightarrow> (\<forall>v. keeps {} (\<lambda>s. f s = v) m)"
  by (auto simp: unchanged_def keeps_def wp_def split: sum.splits prod.splits)

lemma app_handshake: "unchanged handshake_view (callApp E a cb)"
proof -
  have "keeps {} (\<lambda>s. handshake_view s = v) (run_prog E p)" for v p
  proof (rule keeps_run_prog)
    fix addr path c ts d m
    show "keeps {} (\<lambda>s. handshake_view s = v) (SendPacket E (crossing E addr path) c ts d)"
      using packet_handshake(1) unfolding unchanged_iff_keeps by blast
    show "keeps {} (\<lambda>s. handshake_view s = v) (WriteAcknowledgement E (crossing E addr path) m)"
      using packet_handshake(2) unfolding unchanged_iff_keeps by blast
  qed (simp_all add: handshake_view_def)
  then have "unchanged handshake_view (run_prog E p)" for p
    unfolding unchanged_iff_keeps by blast
  then show ?thesis unfolding callApp_def by (intro unchanged_intros)
qed

section \<open>What a successful run has read and written\<close>

lemma getChannelEntry_run: "getChannelEntry E i s = Inr (x, s') \<Longrightarrow> s' = s \<and> x = channel_of E s i"
  by (auto simp: getChannelEntry_def channel_of_def run_simps split: option.splits any.splits)

lemma getChannelEntry_Some [run_simps]:
  "getChannelEntry E i s = Inr (Some e, s') \<longleftrightarrow> channel_of E s i = Some e \<and> s' = s"
  by (auto simp: getChannelEntry_def channel_of_def run_simps split: option.splits any.splits)

lemma store_GetConnection_Some [run_simps]:
  "store_GetConnection E i s = Inr (Some c, s') \<longleftrightarrow> connection_of E s i = Some c \<and> s' = s"
  by (auto simp: store_GetConnection_def connection_of_def run_simps split: option.splits any.splits)

lemma owner_Some [run_simps]:
  "store_GetChannelOwner E i s = Inr (Some p, s') \<longleftrightarrow> (\<exists>e. channel_of E s i = Some e \<and> p = entry_portId e \<and> s' = s)"
  by (auto simp: store_GetChannelOwner_def getChannelEntry_def channel_of_def run_simps split: option.splits any.splits)

lemma getChannel_run [run_simps]:
  "getChannel E i s = Inr r \<longleftrightarrow> (\<exists>e. channel_of E s i = Some e \<and> r = (entry_channel e, s))"
  by (auto simp: getChannel_def store_GetChannel_def getChannelEntry_def channel_of_def run_simps
      split: option.splits any.splits)

lemma ensureConnectionState_run [run_simps]:
  "ensureConnectionState E i s = Inr r \<longleftrightarrow>
     (\<exists>c. connection_of E s i = Some c \<and> conn_State c = ConnectionStateOpen \<and> r = (c, s))"
  by (auto simp: ensureConnectionState_def run_simps)

lemma commitment_reads [run_simps]:
  "PacketCommitment E p s = Inr r \<longleftrightarrow> r = (commitments s (commitment_path E p), s)"
  "AcknowledgementReceipt E p s = Inr r \<longleftrightarrow> r = (commitments s (receipt_path E p), s)"
  "HasPacketCommitment E p s = Inr r' \<longleftrightarrow> r' = (commitments s (commitment_path E p) \<noteq> None, s)"
  "HasPacketReceipt E p s = Inr r' \<longleftrightarrow> r' = (commitments s (receipt_path E p) \<noteq> None, s)"
  by (auto simp: commitment_defs run_simps)

lemma emit_run [run_simps]:
  "emit E rlm n attrs s = Inr r \<longleftrightarrow>
     IsCurrent rlm \<and> PkgPath rlm = proxyPkgPath E \<and> r = ((), s\<lparr>events := events s @ [(n, attrs)]\<rparr>)"
  by (auto simp: emit_def run_simps)

lemma emitAttrs_run [run_simps]:
  "emitAttrs E rlm n attrs s = Inr r \<longleftrightarrow> IsCurrent rlm \<and> PkgPath rlm = proxyPkgPath E \<and>
     (\<exists>a. attrs (eventConfig s) = Inr a \<and> r = ((), s\<lparr>events := events s @ [(n, a)]\<rparr>))"
  by (auto simp: emitAttrs_def run_simps)

lemma emitSized_run [run_simps]:
  "emitSized E rlm n b attrs s = Inr r \<longleftrightarrow> IsCurrent rlm \<and> PkgPath rlm = proxyPkgPath E \<and>
     IsValidEventSize (eventConfig s) [b] = Inr True \<and>
     (\<exists>a. attrs (eventConfig s) = Inr a \<and> r = ((), s\<lparr>events := events s @ [(n, a)]\<rparr>))"
  by (auto simp: emitSized_def run_simps)

lemma setCommitment_run [run_simps]:
  "setCommitment path v s = Inr r \<longleftrightarrow>
     r = ((), s\<lparr>commitments := (commitments s)(path \<mapsto> v), params := (params s)(h256ChainParamKey path \<mapsto> v)\<rparr>)"
  by (auto simp: setCommitment_def setChainParam_def run_simps)

lemma SendPacket_run:
  assumes "SendPacket E rlm c ts d s = Inr (p, s')"
  shows "\<exists>e cn a. IsCurrent rlm \<and> IsValidPacketDataSize (eventConfig s) d \<and> ts \<noteq> 0 \<and>
    channel_of E s c = Some e \<and> string_of_bytes (entry_portId e) = PrevPkgPath rlm \<and>
    chan_State (entry_channel e) = ChannelStateOpen \<and>
    connection_of E s (chan_ConnectionId (entry_channel e)) = Some cn \<and> conn_State cn = ConnectionStateOpen \<and>
    p = \<lparr>SourceChannelId = c, DestinationChannelId = chan_CounterpartyChannelId (entry_channel e), Data = d,
         TimeoutHeight = 0, TimeoutTimestamp = ts\<rparr> \<and>
    commitments s (commitment_path E p) = None \<and>
    s' = s\<lparr>commitments := (commitments s)(commitment_path E p \<mapsto> COMMITMENT_MAGIC),
           params := (params s)(h256ChainParamKey (commitment_path E p) \<mapsto> COMMITMENT_MAGIC),
           events := events s @ [(''PacketSend'', a)]\<rparr>"
  using assms
  by (auto simp: SendPacket_def assertPacketDataSize_def EmitPacketSend_def store_CommitPacket_def Let_def run_simps)
    (rule exI, rule refl)

lemma WriteAcknowledgement_run:
  assumes "WriteAcknowledgement E rlm m s = Inr (x, s')"
  shows "\<exists>e cn a. IsCurrent rlm \<and> mwa_Acknowledgement m \<noteq> [] \<and>
    channel_of E s (DestinationChannelId (mwa_Packet m)) = Some e \<and> string_of_bytes (entry_portId e) = PrevPkgPath rlm \<and>
    commitments s (receipt_path E (mwa_Packet m)) = Some COMMITMENT_MAGIC \<and>
    connection_of E s (chan_ConnectionId (entry_channel e)) = Some cn \<and> conn_State cn = ConnectionStateOpen \<and>
    s' = s\<lparr>commitments := (commitments s)(receipt_path E (mwa_Packet m) \<mapsto> CommitAcks (keccak256 E) [mwa_Acknowledgement m]),
           params := (params s)(h256ChainParamKey (receipt_path E (mwa_Packet m)) \<mapsto> CommitAcks (keccak256 E) [mwa_Acknowledgement m]),
           events := events s @ [(''WriteAck'', a)]\<rparr>"
  using assms
  by (auto simp: WriteAcknowledgement_def EmitWriteAck_def CommitAcknowledgement_def Let_def run_simps)
    (rule exI, rule refl)

lemma markPacketAcknowledged_run [run_simps]:
  "markPacketAcknowledged E rlm p s = Inr (x, s') \<longleftrightarrow> IsCurrent rlm \<and>
    commitments s (commitment_path E p) = Some COMMITMENT_MAGIC \<and>
    s' = s\<lparr>commitments := (commitments s)(commitment_path E p \<mapsto> COMMITMENT_MAGIC_ACK)\<rparr>"
  by (auto simp: markPacketAcknowledged_def SetPacketAcknowledged_def setCommitmentMem_def run_simps
      COMMITMENT_MAGIC_def COMMITMENT_MAGIC_ACK_def)

lemma acceptRecvPacket_run:
  assumes "acceptRecvPacket E rlm p c now s = Inr (skip, s')"
  shows "DestinationChannelId p = c \<and> (\<exists>e. channel_of E s c = Some e \<and> chan_State (entry_channel e) = ChannelStateOpen) \<and>
    now < TimeoutTimestamp p \<and>
    (if skip then commitments s (receipt_path E p) \<noteq> None \<and> s' = s
     else commitments s (receipt_path E p) = None \<and>
       s' = s\<lparr>commitments := (commitments s)(receipt_path E p \<mapsto> COMMITMENT_MAGIC),
              params := (params s)(h256ChainParamKey (receipt_path E p) \<mapsto> COMMITMENT_MAGIC)\<rparr>)"
  using assms
  by (auto simp: acceptRecvPacket_def SetPacketReceipt_def run_simps
      split: if_splits)

lemma commitSyncAck_run:
  assumes "commitSyncAck E rlm p ch cn res s = Inr (x, s')"
  shows "commitments s' = commitments s \<or>
    commitments s' = (commitments s)(receipt_path E p \<mapsto> CommitAcks (keccak256 E) [res_Acknowledgement res])"
  using assms
  by (auto simp: commitSyncAck_def EmitWriteAck_def CommitAcknowledgement_def run_simps split: PacketStatus.splits)

section \<open>The life of a commitment\<close>

text \<open>A commitment appears, may change once while it is the marker of a packet in flight, and then
  stays.\<close>

definition commit_le :: "H256 option \<Rightarrow> H256 option \<Rightarrow> bool" where
  "commit_le a b \<longleftrightarrow> a = None \<or> b = a \<or> a = Some COMMITMENT_MAGIC \<and> b \<noteq> None"

lemma commit_le_refl: "commit_le a a"
  by (simp add: commit_le_def)

lemma commit_le_trans: "commit_le a b \<Longrightarrow> commit_le b c \<Longrightarrow> commit_le a c"
  by (auto simp: commit_le_def)

text \<open>The paths a batch is written to; they hash lists of at least two packets.\<close>

fun batch_paths :: "('t, 'lc, 'app, 'w) env \<Rightarrow> ('lc, 'app) core_call \<Rightarrow> H256 set" where
  "batch_paths E (CBatchSend m) =
     {BatchPacketsPath (keccak256 E) (Keccak (keccak256 E) (packets_preimage (mbs_Packets m)))}"
| "batch_paths E (CBatchAcks m) =
     {BatchReceiptsPath (keccak256 E) (Keccak (keccak256 E) (packets_preimage (mba_Packets m)))}"
| "batch_paths E _ = {}"

definition commit_from :: "H256 option \<Rightarrow> H256 \<Rightarrow> ('t, 'lc, 'app, 'w) core \<Rightarrow> bool" where
  "commit_from a path s \<longleftrightarrow> commit_le a (commitments s path)"

lemma keeps_unchanged: "unchanged commitments m \<Longrightarrow> keeps {} (commit_from a path) m"
  by (erule unchanged_keeps) (simp add: commit_from_def)

lemma keeps_runI: "(\<And>s x s'. I s \<Longrightarrow> m s = Inr (x, s') \<Longrightarrow> I s') \<Longrightarrow> keeps {} I m"
  by (auto simp: keeps_def wp_def split: sum.splits prod.splits)

lemma commit_SendPacket: "keeps {} (commit_from a path) (SendPacket E rlm c ts d)"
  by (rule keeps_runI, drule SendPacket_run) (auto simp: commit_from_def commit_le_def split: if_splits)

lemma commit_WriteAcknowledgement: "keeps {} (commit_from a path) (WriteAcknowledgement E rlm m)"
  by (rule keeps_runI, drule WriteAcknowledgement_run) (auto simp: commit_from_def commit_le_def split: if_splits)

lemma commit_mark: "keeps {} (commit_from a path) (markPacketAcknowledged E rlm p)"
  by (rule keeps_runI) (auto simp: commit_from_def commit_le_def run_simps split: if_splits)

lemma commit_callApp: "keeps {} (commit_from a path) (callApp E app cb)"
  unfolding callApp_def
  by (intro keeps_intros keeps_run_prog commit_SendPacket commit_WriteAcknowledgement) (simp_all add: commit_from_def)

text \<open>The receipt path of a packet that is not skipped was empty, so what the packet's callback and
  acknowledgement leave there is a later commitment than what was there before.\<close>

lemma commit_accepted:
  assumes step: "bind (acceptRecvPacket E rlm p c now) (\<lambda>skip. if skip then ok ()
      else bind (callApp E app cb) (\<lambda>res. andthen (commitSyncAck E rlm p ch cn res) (ev res))) s = Inr (x, s')"
    and ev: "\<And>res. unchanged commitments (ev res)" and "commit_from a path s"
  shows "commit_from a path s'"
proof -
  obtain skip t where acc: "acceptRecvPacket E rlm p c now s = Inr (skip, t)"
    and rest: "(if skip then ok () else bind (callApp E app cb) (\<lambda>res. andthen (commitSyncAck E rlm p ch cn res) (ev res))) t = Inr (x, s')"
    using step by (auto simp: bind_run)
  show ?thesis
  proof (cases "skip")
    case True
    then show ?thesis using acceptRecvPacket_run [OF acc] rest assms(3) by (simp add: run_simps)
  next
    case False
    then obtain res u v where runs: "callApp E app cb t = Inr (res, u)" "commitSyncAck E rlm p ch cn res u = Inr ((), v)"
      "ev res v = Inr (x, s')"
      using rest by (auto simp: bind_run andthen_run)
    have t: "commit_from a path t" "commitments s (receipt_path E p) = None"
      using acceptRecvPacket_run [OF acc] False assms(3) by (auto simp: commit_from_def commit_le_def split: if_splits)
    have "commit_from a path u" by (rule keeps_run [OF commit_callApp runs(1) t(1)])
    then have "commit_from a path v"
      using commitSyncAck_run [OF runs(2)] t assms(3) by (auto simp: commit_from_def commit_le_def split: if_splits)
    then show ?thesis using unchanged_run [OF ev runs(3)] by (simp add: commit_from_def)
  qed
qed

lemma commit_recvOne:
  "keeps {} (commit_from a path) (recvOne E rlm app ch cn c now pm)"
  "keeps {} (commit_from a path) (intentOne E rlm app ch cn c now pm)"
  unfolding recvOne_def intentOne_def EmitPacketRecv_def EmitIntentPacketRecv_def
  by (rule keeps_runI, cases pm, simp only: prod.case, erule commit_accepted, rule quiet_writes [OF quiet_views(2)], assumption)+

lemma commit_ackOne: "keeps {} (commit_from a path) (ackOne E rlm app ch cn c pa)"
  unfolding ackOne_def EmitPacketAck_def
  by (intro keeps_intros commit_mark commit_callApp keeps_unchanged quiet_all quiet_views) simp_all

lemma zip_commitments:
  "keeps {} (commit_from a path) (PacketRecv E rlm now m1)" "keeps {} (commit_from a path) (IntentPacketRecv E rlm now m2)"
  "keeps {} (commit_from a path) (PacketAcknowledgement E rlm m3)" "keeps {} (commit_from a path) (PacketTimeout E rlm m4)"
  unfolding PacketRecv_def IntentPacketRecv_def PacketAcknowledgement_def PacketTimeout_def EmitPacketTimeout_def
  by (intro keeps_intros commit_mark commit_callApp commit_recvOne commit_ackOne keeps_unchanged quiet_all quiet_views;
      simp add: keeps_unchanged quiet_all quiet_views)+

lemma channel_commitments:
  "keeps {} (commit_from a path) (ChannelOpenInit E rlm m1)" "keeps {} (commit_from a path) (channelOpenTry E rlm m2 b)"
  "keeps {} (commit_from a path) (channelOpenAck E rlm m3 b)" "keeps {} (commit_from a path) (channelOpenConfirm E rlm m4 b)"
  "keeps {} (commit_from a path) (ChannelCloseInit E rlm m5)" "keeps {} (commit_from a path) (ChannelCloseConfirm E rlm m6)"
  unfolding ChannelOpenInit_def channelOpenTry_def channelOpenAck_def channelOpenConfirm_def ChannelCloseInit_def ChannelCloseConfirm_def
    EmitChannelOpenInit_def EmitChannelOpenTry_def EmitChannelOpenAck_def EmitChannelOpenConfirm_def EmitChannelCloseInit_def
    EmitChannelCloseConfirm_def
  by (intro keeps_intros commit_callApp keeps_unchanged handshake_writes quiet_all quiet_views;
      simp add: keeps_unchanged quiet_all quiet_views)+

lemma batchSendOne_run:
  "each (batchSendOne E rlm c h) ps s = Inr (x, s') \<Longrightarrow> commitments s' = commitments s \<and>
     (\<forall>p\<in>set ps. SourceChannelId p = c \<and> commitments s (commitment_path E p) = Some COMMITMENT_MAGIC)"
  by (induction ps arbitrary: s) (fastforce simp: batchSendOne_def EmitBatchSend_def run_simps)+

lemma batchAckOne_run:
  "each (batchAckOne E rlm c h) pas s = Inr (x, s') \<Longrightarrow> commitments s' = commitments s \<and>
     (\<forall>(p, ack)\<in>set pas. DestinationChannelId p = c \<and>
        commitments s (receipt_path E p) = Some (CommitAcks (keccak256 E) [ack]) \<and> CommitAcks (keccak256 E) [ack] \<noteq> COMMITMENT_MAGIC)"
  by (induction pas arbitrary: s) (fastforce simp: batchAckOne_def EmitBatchAcks_def run_simps)+

lemma BatchSend_run:
  assumes "BatchSend E rlm m s = Inr (x, s')"
  shows "IsCurrent rlm \<and> 2 \<le> length (mbs_Packets m) \<and>
    (\<forall>p\<in>set (mbs_Packets m). SourceChannelId p = SourceChannelId (hd (mbs_Packets m)) \<and>
       commitments s (commitment_path E p) = Some COMMITMENT_MAGIC) \<and>
    (\<exists>path. batch_paths E (CBatchSend m) = {path} \<and> commitments s' = (commitments s)(path \<mapsto> COMMITMENT_MAGIC))"
  using assms by (auto simp: BatchSend_def SaveBatchPackets_def Let_def run_simps dest!: batchSendOne_run)

lemma BatchAcks_run:
  assumes "BatchAcks E rlm m s = Inr (x, s')"
  shows "IsCurrent rlm \<and> 2 \<le> length (mba_Packets m) \<and> length (mba_Acks m) = length (mba_Packets m) \<and>
    (\<forall>(p, ack)\<in>set (zip (mba_Packets m) (mba_Acks m)). DestinationChannelId p = DestinationChannelId (hd (mba_Packets m)) \<and>
       commitments s (receipt_path E p) = Some (CommitAcks (keccak256 E) [ack]) \<and> CommitAcks (keccak256 E) [ack] \<noteq> COMMITMENT_MAGIC) \<and>
    (\<exists>path. batch_paths E (CBatchAcks m) = {path} \<and>
       commitments s' = (commitments s)(path \<mapsto> CommitAcks (keccak256 E) (mba_Acks m)))"
  using assms by (auto simp: BatchAcks_def SaveBatchReceipts_def Let_def run_simps dest!: batchAckOne_run)

lemma batch_commitments:
  "path \<notin> batch_paths E (CBatchSend m1) \<Longrightarrow> keeps {} (commit_from a path) (BatchSend E rlm m1)"
  "path \<notin> batch_paths E (CBatchAcks m2) \<Longrightarrow> keeps {} (commit_from a path) (BatchAcks E rlm m2)"
  by (rule keeps_runI, (drule BatchSend_run | drule BatchAcks_run), auto simp: commit_from_def)+

lemma commit_current: "keeps {} (commit_from a path) m \<Longrightarrow> keeps {} (commit_from a path) (andthen (assertIsRlmCurrent rlm) m)"
  by (intro keeps_intros) simp_all

lemma commit_call:
  assumes "path \<notin> batch_paths E c"
  shows "keeps {} (commit_from a path) (call E rlm now c)"
proof (cases c)
  case (CSendPacket c ts d)
  then show ?thesis by (auto intro!: keeps_intros commit_SendPacket)
next
  case (CBatchSend m)
  then show ?thesis using assms batch_commitments(1) by fastforce
next
  case (CBatchAcks m)
  then show ?thesis using assms batch_commitments(2) by fastforce
next
  case (CSetEventConfig c)
  then show ?thesis using keeps_unchanged [OF quiet_clients(9) [OF quiet_views(2)]] by metis
qed (auto simp: ConnectionOpenTry_def ForceConnectionOpenTry_def ConnectionOpenAck_def ForceConnectionOpenAck_def
    ConnectionOpenConfirm_def ForceConnectionOpenConfirm_def ChannelOpenTry_def ForceChannelOpenTry_def
    ChannelOpenAck_def ForceChannelOpenAck_def ChannelOpenConfirm_def ForceChannelOpenConfirm_def
    intro!: commit_current channel_commitments zip_commitments commit_WriteAcknowledgement
    keeps_unchanged [OF quiet_clients(1)] keeps_unchanged [OF quiet_clients(2)] keeps_unchanged [OF quiet_clients(3)]
    keeps_unchanged [OF quiet_clients(4)] keeps_unchanged [OF quiet_clients(5)] keeps_unchanged [OF quiet_clients(6)]
    keeps_unchanged [OF quiet_clients(7)] keeps_unchanged [OF quiet_clients(8)] quiet_views
    connection_commitments [THEN keeps_unchanged])

text \<open>The relation between the states before and after any sequence of transactions.\<close>

interpretation commitments_grow:
  step_relation E "\<lambda>c. path \<notin> batch_paths E c" "\<lambda>s t. commit_le (commitments s path) (commitments t path)" for E path
proof
  fix c s s' assume "path \<notin> batch_paths E c" "tx E c s s'"
  then show "commit_le (commitments s path) (commitments s' path)"
    by (auto elim!: tx_cases simp: commit_le_refl dest!: keeps_run [OF commit_call [of path E c "commitments s path"]]
        simp: commit_from_def commit_le_refl)
qed (auto intro: commit_le_refl commit_le_trans)

section \<open>Settling, receiving and acknowledging\<close>

text \<open>The calls that settle a sent packet, and the calls that receive one.\<close>

fun settles :: "('lc, 'app) core_call \<Rightarrow> Packet \<Rightarrow> bool" where
  "settles (CPacketTimeout m) p \<longleftrightarrow> mpt_Packet m = p"
| "settles (CPacketAcknowledgement m) p \<longleftrightarrow> p \<in> fst ` set (zip (mpa_Packets m) (mpa_Acknowledgements m))"
| "settles _ p \<longleftrightarrow> False"

fun received_packets :: "('lc, 'app) core_call \<Rightarrow> Packet list" where
  "received_packets (CPacketRecv m) = map fst (zip (mpr_Packets m) (mpr_RelayerMsgs m))"
| "received_packets (CIntentPacketRecv m) = map fst (zip (mir_Packets m) (mir_MarketMakerMessages m))"
| "received_packets _ = []"

lemma acked_stays: "commit_le (Some COMMITMENT_MAGIC_ACK) b \<longleftrightarrow> b = Some COMMITMENT_MAGIC_ACK"
  by (auto simp: commit_le_def COMMITMENT_MAGIC_def COMMITMENT_MAGIC_ACK_def)

lemma keeps_acked:
  "keeps {} (commit_from (Some COMMITMENT_MAGIC_ACK) path) m \<Longrightarrow> m s = Inr (x, s') \<Longrightarrow>
     commitments s path = Some COMMITMENT_MAGIC_ACK \<Longrightarrow> commitments s' path = Some COMMITMENT_MAGIC_ACK"
  using keeps_run [of "{}" "commit_from (Some COMMITMENT_MAGIC_ACK) path" m s x s'] by (simp add: commit_from_def acked_stays)

lemma ackOne_acked:
  assumes "ackOne E rlm app ch cn c (p, b) s = Inr (x, s')"
  shows "commitments s (commitment_path E p) = Some COMMITMENT_MAGIC \<and>
    commitments s' (commitment_path E p) = Some COMMITMENT_MAGIC_ACK"
proof -
  let ?rest = "andthen (callApp E app (\<lambda>app w. OnAcknowledgementPacket E app w p b (PrevAddress rlm))) (EmitPacketAck E rlm p ch cn b)"
  obtain t where t: "markPacketAcknowledged E rlm p s = Inr ((), t)" "?rest t = Inr (x, s')"
    using assms by (auto simp: ackOne_def andthen_run [of _ "andthen m n" for m n] andthen_run [of "guard g e" for g e] guard_run
        andthen_run [of "markPacketAcknowledged E rlm p"])
  have "keeps {} (commit_from (Some COMMITMENT_MAGIC_ACK) (commitment_path E p)) ?rest"
    unfolding EmitPacketAck_def by (intro keeps_intros commit_callApp keeps_unchanged quiet_all quiet_views)
  from keeps_acked [OF this t(2)] t(1) show ?thesis by (simp add: markPacketAcknowledged_run)
qed

lemma acks_acked:
  "each (ackOne E rlm app ch cn c) pas s = Inr (x, s') \<Longrightarrow> p \<in> fst ` set pas \<Longrightarrow>
     commitments s (commitment_path E p) \<noteq> Some COMMITMENT_MAGIC_ACK \<and>
     commitments s' (commitment_path E p) = Some COMMITMENT_MAGIC_ACK"
proof (induction pas arbitrary: s)
  case (Cons pa pas)
  obtain q b where pa: "pa = (q, b)" by (cases pa)
  obtain t where t: "ackOne E rlm app ch cn c (q, b) s = Inr ((), t)" "each (ackOne E rlm app ch cn c) pas t = Inr (x, s')"
    using Cons.prems(1) pa by (auto simp: andthen_run)
  have rest: "keeps {} (commit_from (Some COMMITMENT_MAGIC_ACK) (commitment_path E p)) (each (ackOne E rlm app ch cn c) pas)"
    by (intro keeps_each commit_ackOne)
  show ?case
  proof (cases "p \<in> fst ` set pas")
    case True
    then show ?thesis using Cons.IH [OF t(2)] keeps_acked [OF commit_ackOne t(1)] by blast
  next
    case False
    then have "p = q" using Cons.prems(2) pa by auto
    then show ?thesis using ackOne_acked [OF t(1)] keeps_acked [OF rest t(2)]
      by (auto simp: COMMITMENT_MAGIC_def COMMITMENT_MAGIC_ACK_def)
  qed
qed simp

text \<open>What a successful timeout has checked.\<close>

lemma verify_run [run_simps]:
  "verifyMembership E i h prf k v s = Inr r \<longleftrightarrow> (\<exists>lc. GetLightClient i s = Some lc \<and> lc_Status E lc = Active \<and>
     lc_VerifyMembership E lc (RevisionHeight h) k prf v = None \<and> r = ((), s))"
  "verifyNonMembership E i h prf k s = Inr r \<longleftrightarrow> (\<exists>lc. GetLightClient i s = Some lc \<and> lc_Status E lc = Active \<and>
     lc_VerifyNonMembership E lc (RevisionHeight h) k prf = None \<and> r = ((), s))"
  by (auto simp: verifyMembership_def verifyNonMembership_def getActiveClient_def getClientOrErr_def run_simps split: option.splits)

lemma getClientOrErr_run [run_simps]: "getClientOrErr i s = Inr r \<longleftrightarrow> (\<exists>lc. GetLightClient i s = Some lc \<and> r = (lc, s))"
  by (auto simp: getClientOrErr_def run_simps)

lemma app_reads [run_simps]:
  "appOrNil portId s = Inr r \<longleftrightarrow> r = (case GetAppByPortId portId s of None \<Rightarrow> None | Some a \<Rightarrow> a, s)"
  "getAppAtPort portId s = Inr r \<longleftrightarrow> (\<exists>a. GetAppByPortId portId s = Some a \<and> r = (a, s))"
  by (auto simp: appOrNil_def getAppAtPort_def run_simps)

lemma ownerOrNil_run [run_simps]:
  "ownerOrNil E i s = Inr r \<longleftrightarrow> (\<forall>v. bp_Get E (channels s) (channelKey E i) = Some v \<longrightarrow> (\<exists>e. v = AnyChannel e)) \<and>
     r = (case channel_of E s i of None \<Rightarrow> [] | Some e \<Rightarrow> entry_portId e, s)"
  by (auto simp: ownerOrNil_def store_GetChannelOwner_def getChannelEntry_def channel_of_def run_simps split: option.splits any.splits)

lemma case_panic_run [run_simps]:
  "(case v of Inl e \<Rightarrow> panic (f e) | Inr y \<Rightarrow> k y) s = Inr r \<longleftrightarrow> (\<exists>y. v = Inr y \<and> k y s = Inr r)"
  by (cases v) (simp_all add: panic_run)

lemma PacketTimeout_run:
  assumes "PacketTimeout E rlm m s = Inr (x, s')"
  shows "\<exists>e cn lc ts. IsCurrent rlm \<and> channel_of E s (SourceChannelId (mpt_Packet m)) = Some e \<and>
    chan_State (entry_channel e) = ChannelStateOpen \<and>
    connection_of E s (chan_ConnectionId (entry_channel e)) = Some cn \<and> conn_State cn = ConnectionStateOpen \<and>
    GetLightClient (conn_ClientId cn) s = Some lc \<and> lc_Status E lc = Active \<and>
    lc_GetTimestampAtHeight E lc (mpt_ProofHeight m) = Inr ts \<and> ts \<noteq> 0 \<and>
    lc_VerifyNonMembership E lc (mpt_ProofHeight m) (receipt_path E (mpt_Packet m)) (mpt_Proof m) = None \<and>
    TimeoutTimestamp (mpt_Packet m) \<noteq> 0 \<and> TimeoutTimestamp (mpt_Packet m) \<le> ts \<and>
    commitments s (commitment_path E (mpt_Packet m)) = Some COMMITMENT_MAGIC \<and>
    commitments s' (commitment_path E (mpt_Packet m)) = Some COMMITMENT_MAGIC_ACK"
proof -
  let ?p = "mpt_Packet m"
  let ?rest = "\<lambda>cn ch. bind (ownerOrNil E (SourceChannelId ?p)) (\<lambda>portId. bind (appOrNil portId) (\<lambda>a.
     andthen (callApp E a (\<lambda>app w. OnTimeoutPacket E app w ?p (PrevAddress rlm))) (EmitPacketTimeout E rlm ?p ch cn)))"
  have keep: "keeps {} (commit_from (Some COMMITMENT_MAGIC_ACK) (commitment_path E ?p)) (?rest cn ch)" for cn ch
    unfolding EmitPacketTimeout_def by (intro keeps_intros commit_callApp keeps_unchanged quiet_all quiet_views)
  obtain e cn lc ts t where run: "IsCurrent rlm" "channel_of E s (SourceChannelId ?p) = Some e"
      "chan_State (entry_channel e) = ChannelStateOpen"
      "connection_of E s (chan_ConnectionId (entry_channel e)) = Some cn" "conn_State cn = ConnectionStateOpen"
      "GetLightClient (conn_ClientId cn) s = Some lc" "lc_Status E lc = Active"
      "lc_GetTimestampAtHeight E lc (mpt_ProofHeight m) = Inr ts" "ts \<noteq> 0"
      "lc_VerifyNonMembership E lc (mpt_ProofHeight m) (receipt_path E ?p) (mpt_Proof m) = None"
      "TimeoutTimestamp ?p \<noteq> 0" "TimeoutTimestamp ?p \<le> ts" "markPacketAcknowledged E rlm ?p s = Inr ((), t)"
      "?rest cn (entry_channel e) t = Inr (x, s')"
    using assms unfolding PacketTimeout_def Let_def
    by (auto simp: bind_run [of "getChannel E c" for c] bind_run [of "ensureConnectionState E c" for c] bind_run [of "lift c" for c]
        bind_run [of "getClientOrErr c" for c] andthen_run [of "guard b c" for b c] andthen_run [of "assertIsRlmCurrent rlm"]
        andthen_run [of "verifyNonMembership E a b c d" for a b c d] andthen_run [of "markPacketAcknowledged E rlm c" for c]
        guard_run assertIsRlmCurrent_run getChannel_run ensureConnectionState_run getClientOrErr_run lift_run verify_run
        case_panic_run NewHeight_def receipt_path_def packet_hash_def not_less)
  then show ?thesis using keeps_acked [OF keep run(14)] by (auto simp: markPacketAcknowledged_run)
qed

lemma settles_run:
  assumes "call E rlm now c s = Inr (x, s')" and "settles c p"
  shows "commitments s (commitment_path E p) \<noteq> Some COMMITMENT_MAGIC_ACK \<and>
    commitments s' (commitment_path E p) = Some COMMITMENT_MAGIC_ACK"
proof (cases c)
  case (CPacketTimeout m)
  then show ?thesis using assms PacketTimeout_run [of E rlm m s x s'] by (auto simp: COMMITMENT_MAGIC_def COMMITMENT_MAGIC_ACK_def)
next
  case (CPacketAcknowledgement m)
  then obtain q qs where qs: "mpa_Packets m = q # qs"
    using assms by (cases "mpa_Packets m") (auto simp: PacketAcknowledgement_def run_simps)
  have run: "PacketAcknowledgement E rlm m s = Inr (x, s')" using assms(1) CPacketAcknowledgement by simp
  obtain app ch cn d t where "each (ackOne E rlm app ch cn d) (zip (mpa_Packets m) (mpa_Acknowledgements m)) t = Inr (x, s')"
    and "commitments t = commitments s"
    using run unfolding PacketAcknowledgement_def qs list.case Let_def
    by (auto simp: run_simps)
  then show ?thesis using acks_acked assms(2) CPacketAcknowledgement by fastforce
qed (use assms in auto)

text \<open>Receiving: whatever happens to a packet of the message, it has a receipt afterwards, and a
  packet that had one is skipped.\<close>

lemma keeps_present:
  assumes "\<And>a. keeps {} (commit_from a path) m" and "m s = Inr (x, s')" and "commitments s path \<noteq> None"
  shows "commitments s' path \<noteq> None"
  using keeps_run [OF assms(1,2), of "commitments s path"] assms(3) by (auto simp: commit_from_def commit_le_def)

lemma accepted_receipt:
  assumes "bind (acceptRecvPacket E rlm p c now) (\<lambda>skip. if skip then ok ()
      else bind (callApp E app cb) (\<lambda>res. andthen (commitSyncAck E rlm p ch cn res) (ev res))) s = Inr (x, s')"
    and ev: "\<And>res. unchanged commitments (ev res)"
  shows "commitments s' (receipt_path E p) \<noteq> None \<and> now < TimeoutTimestamp p \<and>
    (commitments s (receipt_path E p) \<noteq> None \<longrightarrow> s' = s)"
proof -
  obtain skip t where acc: "acceptRecvPacket E rlm p c now s = Inr (skip, t)"
    and rest: "(if skip then ok () else bind (callApp E app cb) (\<lambda>res. andthen (commitSyncAck E rlm p ch cn res) (ev res))) t = Inr (x, s')"
    using assms(1) by (auto simp: bind_run)
  note acceptRecvPacket_run [OF acc]
  moreover have "commitments s' (receipt_path E p) \<noteq> None" if unskipped: "\<not> skip"
  proof -
    obtain res u v where runs: "callApp E app cb t = Inr (res, u)" "commitSyncAck E rlm p ch cn res u = Inr ((), v)"
      "ev res v = Inr (x, s')"
      using rest unskipped by (auto simp: bind_run andthen_run)
    have "commitments u (receipt_path E p) \<noteq> None"
      by (rule keeps_present [OF commit_callApp runs(1)]) (use acceptRecvPacket_run [OF acc] unskipped in auto)
    then show ?thesis using commitSyncAck_run [OF runs(2)] unchanged_run [OF ev runs(3)] by (auto split: if_splits)
  qed
  ultimately show ?thesis using rest by (auto simp: run_simps split: if_splits)
qed

lemma recvOne_receipt:
  "recvOne E rlm app ch cn c now (p, b) s = Inr (x, s') \<or> intentOne E rlm app ch cn c now (p, b) s = Inr (x, s') \<Longrightarrow>
     commitments s' (receipt_path E p) \<noteq> None \<and> now < TimeoutTimestamp p \<and>
     (commitments s (receipt_path E p) \<noteq> None \<longrightarrow> s' = s)"
  unfolding recvOne_def intentOne_def EmitPacketRecv_def EmitIntentPacketRecv_def prod.case
  by (erule disjE; erule accepted_receipt; rule quiet_writes [OF quiet_views(2)])

lemma receipts_loop:
  assumes "\<And>p b s x s'. f (p, b) s = Inr (x, s') \<Longrightarrow> commitments s' (receipt_path E p) \<noteq> None \<and> now < TimeoutTimestamp p \<and>
      (commitments s (receipt_path E p) \<noteq> None \<longrightarrow> s' = s)"
    and "\<And>a path pb. keeps {} (commit_from a path) (f pb)"
  shows "each f pbs s = Inr (x, s') \<Longrightarrow> (\<forall>p\<in>fst ` set pbs. commitments s' (receipt_path E p) \<noteq> None \<and> now < TimeoutTimestamp p) \<and>
    ((\<forall>p\<in>fst ` set pbs. commitments s (receipt_path E p) \<noteq> None) \<longrightarrow> s' = s)"
proof (induction pbs arbitrary: s)
  case (Cons pb pbs)
  obtain p b where pb: "pb = (p, b)" by (cases pb)
  obtain t where t: "f (p, b) s = Inr ((), t)" "each f pbs t = Inr (x, s')"
    using Cons.prems pb by (auto simp: andthen_run)
  have "commitments s' (receipt_path E p) \<noteq> None"
    by (rule keeps_present [OF keeps_each t(2)]) (use assms(1) [OF t(1)] assms(2) in auto)
  then show ?case using Cons.IH [OF t(2)] assms(1) [OF t(1)] pb by auto
qed (simp add: run_simps)

lemma recv_loop:
  assumes "each (recvOne E rlm app ch cn d now) pbs s = Inr (x, s') \<or> each (intentOne E rlm app ch cn d now) pbs s = Inr (x, s')"
  shows "(\<forall>p\<in>fst ` set pbs. commitments s' (receipt_path E p) \<noteq> None \<and> now < TimeoutTimestamp p) \<and>
    ((\<forall>p\<in>fst ` set pbs. commitments s (receipt_path E p) \<noteq> None) \<longrightarrow> s' = s)"
  using assms
proof
  assume run: "each (recvOne E rlm app ch cn d now) pbs s = Inr (x, s')"
  show ?thesis by (rule receipts_loop [OF _ commit_recvOne(1) run]) (rule recvOne_receipt, erule disjI1)
next
  assume run: "each (intentOne E rlm app ch cn d now) pbs s = Inr (x, s')"
  show ?thesis by (rule receipts_loop [OF _ commit_recvOne(2) run]) (rule recvOne_receipt, erule disjI2)
qed

lemma receives_run:
  assumes "call E rlm now c s = Inr (x, s')"
  shows "(\<forall>p\<in>set (received_packets c). commitments s' (receipt_path E p) \<noteq> None \<and> now < TimeoutTimestamp p) \<and>
    (received_packets c \<noteq> [] \<and> (\<forall>p\<in>set (received_packets c). commitments s (receipt_path E p) \<noteq> None) \<longrightarrow> s' = s)"
proof (cases c)
  case (CPacketRecv m)
  show ?thesis
  proof (cases "mpr_Packets m")
    case (Cons q qs)
    have "PacketRecv E rlm now m s = Inr (x, s')" using assms CPacketRecv by simp
    then obtain app ch cn d where
      "each (recvOne E rlm app ch cn d now) (zip (mpr_Packets m) (mpr_RelayerMsgs m)) s = Inr (x, s')"
      unfolding PacketRecv_def Cons list.case Let_def by (auto simp: run_simps)
    from recv_loop [OF disjI1 [OF this]] show ?thesis using CPacketRecv by auto
  qed (use CPacketRecv in simp)
next
  case (CIntentPacketRecv m)
  show ?thesis
  proof (cases "mir_Packets m")
    case (Cons q qs)
    have "IntentPacketRecv E rlm now m s = Inr (x, s')" using assms CIntentPacketRecv by simp
    then obtain app ch cn d where
      "each (intentOne E rlm app ch cn d now) (zip (mir_Packets m) (mir_MarketMakerMessages m)) s = Inr (x, s')"
      unfolding IntentPacketRecv_def Cons list.case Let_def by (auto simp: run_simps)
    from recv_loop [OF disjI2 [OF this]] show ?thesis using CIntentPacketRecv by auto
  qed (use CIntentPacketRecv in simp)
qed auto

text \<open>No transaction removes a commitment, whatever its path.\<close>

lemma present_tx: "tx E c s s' \<Longrightarrow> commitments s path \<noteq> None \<Longrightarrow> commitments s' path \<noteq> None"
proof (erule tx_cases)
  fix rlm now assume run: "call E rlm now c s = Inr ((), s')" and "commitments s path \<noteq> None"
  then show "commitments s' path \<noteq> None"
  proof (cases "path \<in> batch_paths E c")
    case True
    then show ?thesis using run \<open>commitments s path \<noteq> None\<close>
      by (cases c) (auto dest!: BatchSend_run BatchAcks_run)
  next
    case False
    then show ?thesis using keeps_present [OF commit_call run] \<open>commitments s path \<noteq> None\<close> by blast
  qed
qed auto

interpretation commitments_stay:
  step_relation E "\<lambda>c. True" "\<lambda>s t. commitments s path \<noteq> None \<longrightarrow> commitments t path \<noteq> None" for E path
  by unfold_locales (auto dest: present_tx)

section \<open>A packet sent by the sample app\<close>

lemma eventAttrs_Inr:
  assumes "0 < sint (MaxEventAttrValueLen config)"
  shows "\<exists>a. packetSendEventAttrs kc config p ch cn = Inr a" "\<exists>a. packetRecvEventAttrs kc config p ch cn b = Inr a"
    "\<exists>a. writeAckEventAttrs kc config p ch cn b = Inr a" "\<exists>a. packetTimeoutEventAttrs kc p ch cn = Inr a"
  using assms
  by (auto simp: packetSendEventAttrs_def packetRecvEventAttrs_def writeAckEventAttrs_def packetTimeoutEventAttrs_def withEncoded_def
      commitPacketHash_total encodedEventAttrs_def eventAttrColumns_def Let_def split: sum.splits)

definition sample_packet :: Packet where
  "sample_packet = \<lparr>SourceChannelId = 1, DestinationChannelId = 9, Data = [1], TimeoutHeight = 0, TimeoutTimestamp = 5\<rparr>"

definition sample_sent :: "(string \<Rightarrow> any option, unit, unit, nat) core" where
  "sample_sent = (case SendPacket sample_env sample_rlm 1 5 [1] sample_state of Inl e \<Rightarrow> sample_state | Inr (p, s) \<Rightarrow> s)"

lemma sample_state_client:
  "GetLightClient 1 sample_state = Some ()" "eventConfig sample_state = DefaultEventConfig"
  by (rule exE [OF sample_state_eq], elim exE, erule ssubst, simp add: GetLightClient_def getClient_def)+

text \<open>Forward evaluation of the readers.\<close>

lemma exec_reads:
  "channel_of E s i = Some e \<Longrightarrow> getChannel E i s = Inr (entry_channel e, s)"
  "channel_of E s i = Some e \<Longrightarrow> store_GetChannelOwner E i s = Inr (Some (entry_portId e), s)"
  "channel_of E s i = Some e \<Longrightarrow> ownerOrNil E i s = Inr (entry_portId e, s)"
  "connection_of E s j = Some cn \<Longrightarrow> conn_State cn = ConnectionStateOpen \<Longrightarrow> ensureConnectionState E j s = Inr (cn, s)"
  "GetLightClient k s = Some lc \<Longrightarrow> getClientOrErr k s = Inr (lc, s)"
  "GetLightClient k s = Some lc \<Longrightarrow> lc_Status E lc = Active \<Longrightarrow> lc_VerifyMembership E lc (RevisionHeight h) key prf v = None \<Longrightarrow>
     verifyMembership E k h prf key v s = Inr ((), s)"
  "GetLightClient k s = Some lc \<Longrightarrow> lc_Status E lc = Active \<Longrightarrow> lc_VerifyNonMembership E lc (RevisionHeight h) key prf = None \<Longrightarrow>
     verifyNonMembership E k h prf key s = Inr ((), s)"
  by (auto simp: run_simps channel_of_def split: option.splits any.splits)

lemma frame_views [simp]:
  "channel_of E (s\<lparr>commitments := cs\<rparr>) i = channel_of E s i" "channel_of E (s\<lparr>params := ps\<rparr>) i = channel_of E s i"
  "channel_of E (s\<lparr>events := es\<rparr>) i = channel_of E s i" "channel_of E (s\<lparr>world := w\<rparr>) i = channel_of E s i"
  "connection_of E (s\<lparr>commitments := cs\<rparr>) j = connection_of E s j" "connection_of E (s\<lparr>params := ps\<rparr>) j = connection_of E s j"
  "connection_of E (s\<lparr>events := es\<rparr>) j = connection_of E s j" "connection_of E (s\<lparr>world := w\<rparr>) j = connection_of E s j"
  "GetLightClient k (s\<lparr>commitments := cs\<rparr>) = GetLightClient k s" "GetLightClient k (s\<lparr>params := ps\<rparr>) = GetLightClient k s"
  "GetLightClient k (s\<lparr>events := es\<rparr>) = GetLightClient k s" "GetLightClient k (s\<lparr>world := w\<rparr>) = GetLightClient k s"
  "GetAppByPortId p (s\<lparr>commitments := cs\<rparr>) = GetAppByPortId p s" "GetAppByPortId p (s\<lparr>params := ps\<rparr>) = GetAppByPortId p s"
  "GetAppByPortId p (s\<lparr>events := es\<rparr>) = GetAppByPortId p s" "GetAppByPortId p (s\<lparr>world := w\<rparr>) = GetAppByPortId p s"
  by (simp_all add: channel_of_def connection_of_def GetLightClient_def getClient_def GetAppByPortId_def)

lemma SendPacket_ok:
  assumes "IsCurrent rlm" "PkgPath rlm = proxyPkgPath E" "IsValidPacketDataSize (eventConfig s) d" "ts \<noteq> 0"
    "channel_of E s c = Some e" "string_of_bytes (entry_portId e) = PrevPkgPath rlm" "chan_State (entry_channel e) = ChannelStateOpen"
    "connection_of E s (chan_ConnectionId (entry_channel e)) = Some cn" "conn_State cn = ConnectionStateOpen"
    and p: "p = \<lparr>SourceChannelId = c, DestinationChannelId = chan_CounterpartyChannelId (entry_channel e), Data = d,
         TimeoutHeight = 0, TimeoutTimestamp = ts\<rparr>"
    and "commitments s (commitment_path E p) = None"
    and "packetSendEventAttrs (keccak256 E) (eventConfig s) p (entry_channel e) cn = Inr a"
  shows "SendPacket E rlm c ts d s = Inr (p, s\<lparr>commitments := (commitments s)(commitment_path E p \<mapsto> COMMITMENT_MAGIC),
           params := (params s)(h256ChainParamKey (commitment_path E p) \<mapsto> COMMITMENT_MAGIC),
           events := events s @ [(''PacketSend'', a)]\<rparr>)"
  using assms
  by (simp add: SendPacket_def assertPacketDataSize_def EmitPacketSend_def emitAttrs_def commitment_defs exec_simps exec_reads Let_def)

lemma sample_env_simps:
  "keccak256 sample_env = (\<lambda>b. take 32 (b @ replicate 32 0))" "proxyPkgPath sample_env = ''core''"
  "IsCurrent sample_rlm" "PkgPath sample_rlm = ''core''" "PrevPkgPath sample_rlm = ''app''"
  "lc_Status sample_env () = Active" "lc_GetTimestampAtHeight sample_env () h = Inr 1000"
  "lc_VerifyMembership sample_env () h k prf v = None" "lc_VerifyNonMembership sample_env () h k prf = None"
  "OnTimeoutPacket sample_env a w p r = Done () (w + 1)"
  "OnRecvPacket sample_env a w p r m = Done \<lparr>res_Status = PacketStatusSuccess, res_Acknowledgement = [1]\<rparr> (w + 1)"
  by (simp_all add: sample_env_def sample_rlm_def)

lemma sample_config: "0 < sint (MaxEventAttrValueLen DefaultEventConfig)" "IsValidPacketDataSize DefaultEventConfig [1]"
  "IsValidEventSize DefaultEventConfig [[1]] = Inr True" "IsValidEventSize DefaultEventConfig [[]] = Inr True"
  by code_simp+

lemma sample_sent_eq:
  "\<exists>ps evs. SendPacket sample_env sample_rlm 1 5 [1] sample_state = Inr (sample_packet, sample_sent) \<and>
    sample_sent = sample_state\<lparr>commitments := [commitment_path sample_env sample_packet \<mapsto> COMMITMENT_MAGIC], params := ps, events := evs\<rparr>"
proof -
  obtain a where a: "packetSendEventAttrs (keccak256 sample_env) DefaultEventConfig sample_packet
      (NewChannel ChannelStateOpen 1 9 [] ''v'') (NewConnection ConnectionStateOpen 1 1 7) = Inr a"
    using eventAttrs_Inr(1) [OF sample_config(1)] by blast
  have "\<exists>ps evs. SendPacket sample_env sample_rlm 1 5 [1] sample_state =
      Inr (sample_packet, sample_state\<lparr>commitments := [commitment_path sample_env sample_packet \<mapsto> COMMITMENT_MAGIC], params := ps, events := evs\<rparr>)"
    using SendPacket_ok [of sample_rlm sample_env sample_state "[1]" 5 1 _ _ sample_packet a] a
    by (auto simp: sample_env_simps(2-5) sample_state_client sample_config sample_state_views NewChannel_def NewConnection_def sample_packet_def)
  then show ?thesis by (auto simp: sample_sent_def) (rule exI, rule exI, rule refl)
qed

lemma sample_sent_commitment: "commitments sample_sent (commitment_path sample_env sample_packet) = Some COMMITMENT_MAGIC"
proof -
  obtain ps evs where sent: "sample_sent = sample_state\<lparr>commitments := [commitment_path sample_env sample_packet \<mapsto> COMMITMENT_MAGIC],
      params := ps, events := evs\<rparr>"
    using sample_sent_eq by blast
  show ?thesis unfolding sent by simp
qed

definition sample_timeout :: MsgPacketTimeout where
  "sample_timeout = \<lparr>mpt_Packet = sample_packet, mpt_Proof = [], mpt_ProofHeight = 1\<rparr>"

definition sample_recv :: MsgPacketRecv where
  "sample_recv = \<lparr>mpr_Packets = [\<lparr>SourceChannelId = 9, DestinationChannelId = 1, Data = [1], TimeoutHeight = 0, TimeoutTimestamp = 5\<rparr>],
     mpr_RelayerMsgs = [[]], mpr_Proof = [], mpr_ProofHeight = 1\<rparr>"

lemmas sample_exec = exec_simps exec_reads sample_env_simps(2-11) sample_state_client sample_config sample_state_views NewChannel_def
  NewConnection_def NewHeight_def callApp_def emit_def emitAttrs_def emitSized_def Let_def

lemma sample_timeout_run: "\<exists>t. call sample_env sample_rlm 0 (CPacketTimeout sample_timeout) sample_sent = Inr ((), t)"
proof -
  obtain ps evs where sent: "sample_sent = sample_state\<lparr>commitments := [commitment_path sample_env sample_packet \<mapsto> COMMITMENT_MAGIC],
      params := ps, events := evs\<rparr>"
    using sample_sent_eq by blast
  obtain a where a: "packetTimeoutEventAttrs (keccak256 sample_env) sample_packet
      (NewChannel ChannelStateOpen 1 9 [] ''v'') (NewConnection ConnectionStateOpen 1 1 7) = Inr a"
    using eventAttrs_Inr(4) [OF sample_config(1)] by blast
  have packet: "SourceChannelId sample_packet = 1" "TimeoutTimestamp sample_packet = 5" by (simp_all add: sample_packet_def)
  have mark: "markPacketAcknowledged sample_env sample_rlm sample_packet sample_sent =
      Inr ((), sample_sent\<lparr>commitments := (commitments sample_sent)(commitment_path sample_env sample_packet \<mapsto> COMMITMENT_MAGIC_ACK)\<rparr>)"
    by (simp add: markPacketAcknowledged_run sent sample_env_simps)
  show ?thesis
    using a by (simp add: sample_timeout_def PacketTimeout_def EmitPacketTimeout_def appOrNil_def sample_exec packet mark [unfolded sent] sent
        GetAppByPortId_def portKey_def)
qed

lemma sample_recv_run: "\<exists>t. call sample_env sample_rlm 0 (CPacketRecv sample_recv) sample_state = Inr ((), t)"
proof -
  let ?p = "\<lparr>SourceChannelId = 9, DestinationChannelId = 1, Data = [1], TimeoutHeight = 0, TimeoutTimestamp = 5\<rparr>"
  obtain a b where a: "packetRecvEventAttrs (keccak256 sample_env) DefaultEventConfig ?p
      (NewChannel ChannelStateOpen 1 9 [] ''v'') (NewConnection ConnectionStateOpen 1 1 7) [] = Inr a"
    and b: "writeAckEventAttrs (keccak256 sample_env) DefaultEventConfig ?p
      (NewChannel ChannelStateOpen 1 9 [] ''v'') (NewConnection ConnectionStateOpen 1 1 7) [1] = Inr b"
    using eventAttrs_Inr(2,3) [OF sample_config(1)] by blast
  show ?thesis
    using a b by (simp add: sample_recv_def PacketRecv_def recvOne_def acceptRecvPacket_def commitSyncAck_def EmitPacketRecv_def
        EmitWriteAck_def getAppAtPort_def sample_exec commitment_defs GetAppByPortId_def portKey_def)
qed

section \<open>Properties\<close>

text \<open>C1: a sent packet is settled at most once. After a successful acknowledgement or timeout of a
  packet, and any sequence of transactions (reverted ones included, apps calling back), every further
  acknowledgement or timeout of it panics. The hypothesis on the batches excludes a hash collision
  only: a batch of at least two packets stored under the path of the single packet.\<close>

theorem packet_settled_once:
  assumes "call E rlm now c s = Inr ((), s')" and "settles c p" and "txs E cs s' t"
    and "\<forall>d\<in>set cs. commitment_path E p \<notin> batch_paths E d" and "settles c' p"
  shows "\<exists>e. call E rlm' now' c' t = Inl e"
proof -
  have "commitments s' (commitment_path E p) = Some COMMITMENT_MAGIC_ACK"
    using settles_run [OF assms(1,2)] by blast
  moreover have "commit_le (commitments s' (commitment_path E p)) (commitments t (commitment_path E p))"
    using commitments_grow.along [OF assms(3)] assms(4) by (simp add: list_all_iff)
  ultimately have "commitments t (commitment_path E p) = Some COMMITMENT_MAGIC_ACK" by (simp add: acked_stays)
  then show ?thesis using settles_run [OF _ assms(5), of E rlm' now' t] by (cases "call E rlm' now' c' t") auto
qed

theorem packet_settled_once_witness:
  "\<exists>t e. call sample_env sample_rlm 0 (CPacketTimeout sample_timeout) sample_sent = Inr ((), t) \<and>
     call sample_env sample_rlm 0 (CPacketTimeout sample_timeout) t = Inl e"
proof -
  obtain t where t: "call sample_env sample_rlm 0 (CPacketTimeout sample_timeout) sample_sent = Inr ((), t)"
    using sample_timeout_run by blast
  show ?thesis
    using packet_settled_once [OF t _ txs.none, of sample_packet "CPacketTimeout sample_timeout" sample_rlm 0] t
    by (auto simp: sample_timeout_def)
qed



text \<open>C2: a packet is delivered to its app at most once. When every packet of a receive message has
  been received by an earlier one, the later message changes nothing (no callback, no event, no
  commitment), whatever happened in between.\<close>

theorem packet_received_once:
  assumes "call E rlm now c s = Inr ((), s')" and "txs E cs s' t"
    and "received_packets c' \<noteq> []" and "set (received_packets c') \<subseteq> set (received_packets c)"
    and "call E rlm' now' c' t = Inr ((), t')"
  shows "t' = t"
proof -
  have "commitments t (receipt_path E p) \<noteq> None" if "p \<in> set (received_packets c')" for p
    using receives_run [OF assms(1)] commitments_stay.along [OF assms(2), of "receipt_path E p"] that assms(4)
    by (auto simp: list_all_iff)
  then show ?thesis using receives_run [OF assms(5)] assms(3) by blast
qed

theorem packet_received_once_witness:
  "\<exists>t. call sample_env sample_rlm 0 (CPacketRecv sample_recv) sample_state = Inr ((), t) \<and>
     (\<forall>rlm now t'. call sample_env rlm now (CPacketRecv sample_recv) t = Inr ((), t') \<longrightarrow> t' = t)"
proof -
  obtain t where t: "call sample_env sample_rlm 0 (CPacketRecv sample_recv) sample_state = Inr ((), t)"
    using sample_recv_run by blast
  have "t' = t" if "call sample_env rlm now (CPacketRecv sample_recv) t = Inr ((), t')" for rlm now t'
    by (rule packet_received_once [OF t txs.none _ _ that]) (simp_all add: sample_recv_def)
  with t show ?thesis by blast
qed

text \<open>C8: \<open>SendPacket\<close>, on every input: it succeeds exactly when the caller owns an open channel on an
  open connection, the timeout is set, the data fits an event and the packet was never sent; then it
  returns that packet, and the one commitment it adds is the packet's.\<close>

theorem SendPacket_spec:
  assumes "IsCurrent rlm" and "PkgPath rlm = proxyPkgPath E" and "0 < sint (MaxEventAttrValueLen (eventConfig s))"
  shows "((\<exists>s'. SendPacket E rlm c ts d s = Inr (p, s')) \<longleftrightarrow>
      IsValidPacketDataSize (eventConfig s) d \<and> ts \<noteq> 0 \<and>
      (\<exists>e cn. channel_of E s c = Some e \<and> string_of_bytes (entry_portId e) = PrevPkgPath rlm \<and>
         chan_State (entry_channel e) = ChannelStateOpen \<and>
         connection_of E s (chan_ConnectionId (entry_channel e)) = Some cn \<and> conn_State cn = ConnectionStateOpen \<and>
         p = \<lparr>SourceChannelId = c, DestinationChannelId = chan_CounterpartyChannelId (entry_channel e), Data = d,
              TimeoutHeight = 0, TimeoutTimestamp = ts\<rparr> \<and>
         commitments s (commitment_path E p) = None)) \<and>
    (\<forall>s'. SendPacket E rlm c ts d s = Inr (p, s') \<longrightarrow>
       commitments s' = (commitments s)(commitment_path E p \<mapsto> COMMITMENT_MAGIC))"
proof (intro conjI iffI allI impI)
  fix s' assume "SendPacket E rlm c ts d s = Inr (p, s')"
  then show "commitments s' = (commitments s)(commitment_path E p \<mapsto> COMMITMENT_MAGIC)"
    by (auto dest!: SendPacket_run)
qed (use SendPacket_run [of E rlm c ts d s p] eventAttrs_Inr(1) [OF assms(3)] SendPacket_ok [OF assms(1,2)] in blast)+

theorem SendPacket_spec_witness: "\<exists>s'. SendPacket sample_env sample_rlm 1 5 [1] sample_state = Inr (sample_packet, s')"
  using SendPacket_spec [of sample_rlm sample_env sample_state 1 5 "[1]" sample_packet]
  by (auto simp: sample_env_simps sample_state_client sample_config sample_state_views NewChannel_def NewConnection_def sample_packet_def)

text \<open>C7: a timeout is sound. It succeeds only for a packet in flight on an open channel and connection,
  with a set timeout that the counterparty's clock had reached at the proof height, and with an active
  light client that verified the absence of the receipt at that height; it leaves the packet settled.\<close>

theorem PacketTimeout_sound:
  assumes "PacketTimeout E rlm m s = Inr ((), s')"
  shows "\<exists>e cn lc ts. channel_of E s (SourceChannelId (mpt_Packet m)) = Some e \<and>
    chan_State (entry_channel e) = ChannelStateOpen \<and>
    connection_of E s (chan_ConnectionId (entry_channel e)) = Some cn \<and> conn_State cn = ConnectionStateOpen \<and>
    GetLightClient (conn_ClientId cn) s = Some lc \<and> lc_Status E lc = Active \<and>
    lc_GetTimestampAtHeight E lc (mpt_ProofHeight m) = Inr ts \<and>
    lc_VerifyNonMembership E lc (mpt_ProofHeight m) (receipt_path E (mpt_Packet m)) (mpt_Proof m) = None \<and>
    TimeoutTimestamp (mpt_Packet m) \<noteq> 0 \<and> TimeoutTimestamp (mpt_Packet m) \<le> ts \<and>
    commitments s (commitment_path E (mpt_Packet m)) = Some COMMITMENT_MAGIC \<and>
    commitments s' (commitment_path E (mpt_Packet m)) = Some COMMITMENT_MAGIC_ACK"
  using PacketTimeout_run [OF assms] by blast

theorem PacketTimeout_sound_witness:
  "\<exists>t. PacketTimeout sample_env sample_rlm sample_timeout sample_sent = Inr ((), t) \<and>
     commitments t (commitment_path sample_env sample_packet) = Some COMMITMENT_MAGIC_ACK"
proof -
  obtain t where t: "PacketTimeout sample_env sample_rlm sample_timeout sample_sent = Inr ((), t)"
    using sample_timeout_run by auto
  show ?thesis using PacketTimeout_sound [OF t] t by (auto simp: sample_timeout_def)
qed



end
