(* ===== verification/AccessManager.thy ===== *)
theory AccessManager
  imports CoreEvents "HOL-Library.AList"
begin

text \<open>
  The access manager: the package \<^verbatim>\<open>p/onbloc/access/manager\<close> (roles with delayed membership, targets with
  a role per function) and the realm \<^verbatim>\<open>r/onbloc/ibc/union/access\<close> that owns its one state. A time point
  is a signed 64-bit number of seconds, a delay an unsigned 32-bit one; both keep their width. The members
  of a role are an association list, since \<^verbatim>\<open>isLastAdmin\<close> ranges over them; the other maps are functions.
  A panic is an error value and reverts the transaction.
\<close>

section \<open>Time points and delays (timepoint.gno, delay.gno, access.gno)\<close>

type_synonym TimePoint = "64 word"

definition After :: "TimePoint \<Rightarrow> TimePoint \<Rightarrow> bool" where
  "After t other \<longleftrightarrow> sint t > sint other"

definition TimePoint_IsZero :: "TimePoint \<Rightarrow> bool" where
  "TimePoint_IsZero t \<longleftrightarrow> t = 0"

definition TimePoint_String :: "TimePoint \<Rightarrow> string" where
  "TimePoint_String t = (if sint t < 0 then ''-'' @ digits (nat (- sint t)) else digits (nat (sint t)))"

record Delay =
  effectDate :: TimePoint
  valueBefore :: u32
  valueAfter :: u32

definition NewDelay :: "u32 \<Rightarrow> Delay" where
  "NewDelay d = \<lparr>effectDate = 0, valueBefore = 0, valueAfter = d\<rparr>"

definition delay_Get :: "Delay \<Rightarrow> TimePoint \<Rightarrow> u32" where
  "delay_Get d timestamp = (if After (effectDate d) timestamp then valueBefore d else valueAfter d)"

definition WithUpdate :: "Delay \<Rightarrow> TimePoint \<Rightarrow> u32 \<Rightarrow> u32 \<Rightarrow> Delay \<times> TimePoint" where
  "WithUpdate d timestamp newDelay minSetback =
     (let v = delay_Get d timestamp;
          setback = (if v > newDelay \<and> v - newDelay > minSetback then v - newDelay else minSetback);
          effect = timestamp + ucast setback
      in (\<lparr>effectDate = effect, valueBefore = v, valueAfter = newDelay\<rparr>, effect))"

record Access =
  Since :: TimePoint

definition NewAccessWithDelay :: "TimePoint \<Rightarrow> u32 \<Rightarrow> Access" where
  "NewAccessWithDelay since d =
     (if TimePoint_IsZero since then \<lparr>Since = 0\<rparr> else \<lparr>Since = since + ucast d\<rparr>)"

definition isActiveAt :: "Access \<Rightarrow> TimePoint \<Rightarrow> bool" where
  "isActiveAt access now = (if TimePoint_IsZero (Since access) then False else \<not> After (Since access) now)"

section \<open>Roles and targets (consts.gno, state_role.gno, state_target.gno)\<close>

type_synonym RoleId = u64
type_synonym Selector = string

definition AdminRole :: RoleId where "AdminRole = 0"
definition PublicRole :: RoleId where "PublicRole = 0xFFFFFFFFFFFFFFFF"
definition MinSetback :: u32 where "MinSetback = 5 * 24 * 60 * 60"

record RoleConfig =
  Members :: "(address \<times> Access) list"
  Admin :: RoleId
  GrantDelay :: Delay

definition NewRoleConfig :: "RoleId \<Rightarrow> u32 \<Rightarrow> RoleConfig" where
  "NewRoleConfig admin d = \<lparr>Members = [], Admin = admin, GrantDelay = NewDelay d\<rparr>"

definition role_grant :: "RoleConfig \<Rightarrow> address \<Rightarrow> TimePoint \<Rightarrow> bool \<times> RoleConfig" where
  "role_grant rc account now =
     (case map_of (Members rc) account of
        Some _ \<Rightarrow> (False, rc)
      | None \<Rightarrow> (True, rc\<lparr>Members := AList.update account (NewAccessWithDelay now (delay_Get (GrantDelay rc) now)) (Members rc)\<rparr>))"

definition role_revoke :: "RoleConfig \<Rightarrow> address \<Rightarrow> bool \<times> RoleConfig" where
  "role_revoke rc account =
     (case map_of (Members rc) account of
        Some _ \<Rightarrow> (True, rc\<lparr>Members := AList.delete account (Members rc)\<rparr>)
      | None \<Rightarrow> (False, rc))"

definition hasMember :: "RoleConfig \<Rightarrow> address \<Rightarrow> TimePoint \<Rightarrow> bool" where
  "hasMember rc account now =
     (case map_of (Members rc) account of None \<Rightarrow> False | Some access \<Rightarrow> isActiveAt access now)"

definition setGrantDelay :: "RoleConfig \<Rightarrow> TimePoint \<Rightarrow> u32 \<Rightarrow> RoleConfig" where
  "setGrantDelay rc now newDelay = rc\<lparr>GrantDelay := fst (WithUpdate (GrantDelay rc) now newDelay MinSetback)\<rparr>"

record TargetConfig =
  FunctionRoles :: "Selector \<rightharpoonup> RoleId"
  Closed :: bool

definition NewTargetConfig :: "bool \<Rightarrow> TargetConfig" where
  "NewTargetConfig closed = \<lparr>FunctionRoles = Map.empty, Closed = closed\<rparr>"

definition setFunctionRole :: "Selector \<Rightarrow> RoleId \<Rightarrow> TargetConfig \<Rightarrow> TargetConfig" where
  "setFunctionRole selector role tc = tc\<lparr>FunctionRoles := (FunctionRoles tc)(selector \<mapsto> role)\<rparr>"

definition setFunctionRoles :: "Selector list \<Rightarrow> RoleId \<Rightarrow> TargetConfig \<Rightarrow> TargetConfig" where
  "setFunctionRoles selectors role tc = foldl (\<lambda>tc selector. setFunctionRole selector role tc) tc selectors"

definition functionRole :: "TargetConfig \<Rightarrow> Selector \<Rightarrow> RoleId" where
  "functionRole tc selector = (case FunctionRoles tc selector of None \<Rightarrow> AdminRole | Some role \<Rightarrow> role)"

section \<open>The state (state.gno, requires.gno, errors.gno)\<close>

record access_state =
  Roles :: "RoleId \<rightharpoonup> RoleConfig"
  Targets :: "string \<rightharpoonup> TargetConfig"

datatype access_error =
    LockedRole RoleId | BadConfirmation | LastAdmin
  | UnauthorizedAccount address RoleId | UnauthorizedCall address string Selector | SpoofedRealm

definition NewState :: access_state where
  "NewState = \<lparr>Roles = Map.empty, Targets = Map.empty\<rparr>"

definition HasRole :: "access_state \<Rightarrow> TimePoint \<Rightarrow> RoleId \<Rightarrow> address \<Rightarrow> bool" where
  "HasRole st now role account =
     (if role = PublicRole then True
      else case Roles st role of None \<Rightarrow> False | Some rc \<Rightarrow> hasMember rc account now)"

definition GetRoleMemberSince :: "access_state \<Rightarrow> RoleId \<Rightarrow> address \<Rightarrow> TimePoint" where
  "GetRoleMemberSince st role account =
     (case Roles st role of
        None \<Rightarrow> 0
      | Some rc \<Rightarrow> (case map_of (Members rc) account of None \<Rightarrow> 0 | Some access \<Rightarrow> Since access))"

definition GetRoleAdmin :: "access_state \<Rightarrow> RoleId \<Rightarrow> RoleId" where
  "GetRoleAdmin st role = (case Roles st role of None \<Rightarrow> AdminRole | Some rc \<Rightarrow> Admin rc)"

definition GetRoleGrantDelay :: "access_state \<Rightarrow> TimePoint \<Rightarrow> RoleId \<Rightarrow> u32" where
  "GetRoleGrantDelay st now role = (case Roles st role of None \<Rightarrow> 0 | Some rc \<Rightarrow> delay_Get (GrantDelay rc) now)"

definition GetRoleGrantDelayEffect :: "access_state \<Rightarrow> RoleId \<Rightarrow> TimePoint" where
  "GetRoleGrantDelayEffect st role = (case Roles st role of None \<Rightarrow> 0 | Some rc \<Rightarrow> effectDate (GrantDelay rc))"

definition GetTargetFunctionRole :: "access_state \<Rightarrow> string \<Rightarrow> Selector \<Rightarrow> RoleId" where
  "GetTargetFunctionRole st target selector =
     (case Targets st target of None \<Rightarrow> AdminRole | Some tc \<Rightarrow> functionRole tc selector)"

definition IsTargetClosed :: "access_state \<Rightarrow> string \<Rightarrow> bool" where
  "IsTargetClosed st target = (case Targets st target of None \<Rightarrow> False | Some tc \<Rightarrow> Closed tc)"

definition CanCall :: "access_state \<Rightarrow> TimePoint \<Rightarrow> address \<Rightarrow> string \<Rightarrow> Selector \<Rightarrow> bool" where
  "CanCall st now caller target selector =
     (if IsTargetClosed st target then False
      else if \<not> HasRole st now (GetTargetFunctionRole st target selector) caller then False
      else True)"

definition CanAdminRole :: "access_state \<Rightarrow> TimePoint \<Rightarrow> RoleId \<Rightarrow> address \<Rightarrow> bool" where
  "CanAdminRole st now role caller = (if \<not> HasRole st now (GetRoleAdmin st role) caller then False else True)"

definition CanManageTarget :: "access_state \<Rightarrow> TimePoint \<Rightarrow> address \<Rightarrow> bool" where
  "CanManageTarget st now caller = (if \<not> HasRole st now AdminRole caller then False else True)"

definition RequireUnlockedConfigRole :: "RoleId \<Rightarrow> access_error + unit" where
  "RequireUnlockedConfigRole role = (if role = AdminRole \<or> role = PublicRole then Inl (LockedRole role) else Inr ())"

definition ensureRole :: "RoleId \<Rightarrow> access_state \<Rightarrow> access_state" where
  "ensureRole role st =
     (case Roles st role of
        None \<Rightarrow> st\<lparr>Roles := (Roles st)(role \<mapsto> NewRoleConfig AdminRole 0)\<rparr>
      | Some _ \<Rightarrow> st)"

definition ensureTarget :: "string \<Rightarrow> access_state \<Rightarrow> access_state" where
  "ensureTarget target st =
     (case Targets st target of
        None \<Rightarrow> st\<lparr>Targets := (Targets st)(target \<mapsto> NewTargetConfig False)\<rparr>
      | Some _ \<Rightarrow> st)"

text \<open>A method called on the role or the target that \<^verbatim>\<open>ensureRole\<close> or \<^verbatim>\<open>ensureTarget\<close> has just put in place:
  the pointer is not nil.\<close>

definition onRole :: "RoleId \<Rightarrow> (RoleConfig \<Rightarrow> 'a \<times> RoleConfig) \<Rightarrow> access_state \<Rightarrow> 'a \<times> access_state" where
  "onRole role f st =
     (case f (the (Roles (ensureRole role st) role)) of
        (r, rc) \<Rightarrow> (r, (ensureRole role st)\<lparr>Roles := (Roles (ensureRole role st))(role \<mapsto> rc)\<rparr>))"

definition onTarget :: "string \<Rightarrow> (TargetConfig \<Rightarrow> TargetConfig) \<Rightarrow> access_state \<Rightarrow> access_state" where
  "onTarget target f st =
     (ensureTarget target st)\<lparr>Targets :=
        (Targets (ensureTarget target st))(target \<mapsto> f (the (Targets (ensureTarget target st) target)))\<rparr>"

definition state_GrantRole :: "TimePoint \<Rightarrow> RoleId \<Rightarrow> address \<Rightarrow> access_state \<Rightarrow> access_error + bool \<times> access_state" where
  "state_GrantRole now role account st =
     (if role = PublicRole then Inl (LockedRole role)
      else Inr (onRole role (\<lambda>rc. role_grant rc account now) st))"

definition isLastAdmin :: "access_state \<Rightarrow> TimePoint \<Rightarrow> address \<Rightarrow> bool" where
  "isLastAdmin st now account =
     (case Roles st AdminRole of
        None \<Rightarrow> False
      | Some adminRole \<Rightarrow>
          if \<not> hasMember adminRole account now then False
          else \<not> list_ex (\<lambda>(member, access). member \<noteq> account \<and> isActiveAt access now) (Members adminRole))"

definition state_RevokeRole :: "TimePoint \<Rightarrow> RoleId \<Rightarrow> address \<Rightarrow> access_state \<Rightarrow> access_error + bool \<times> access_state" where
  "state_RevokeRole now role account st =
     (if role = PublicRole then Inl (LockedRole role)
      else if role = AdminRole \<and> isLastAdmin (ensureRole role st) now account then Inl LastAdmin
      else Inr (onRole role (\<lambda>rc. role_revoke rc account) st))"

definition state_RenounceRole :: "TimePoint \<Rightarrow> RoleId \<Rightarrow> address \<Rightarrow> address \<Rightarrow> access_state \<Rightarrow> access_error + bool \<times> access_state" where
  "state_RenounceRole now role account callerConfirmation st =
     (if account \<noteq> callerConfirmation then Inl BadConfirmation else state_RevokeRole now role account st)"

definition state_SetRoleAdmin :: "RoleId \<Rightarrow> RoleId \<Rightarrow> access_state \<Rightarrow> access_error + access_state" where
  "state_SetRoleAdmin role admin st =
     (case RequireUnlockedConfigRole role of
        Inl err \<Rightarrow> Inl err
      | Inr _ \<Rightarrow> Inr (snd (onRole role (\<lambda>rc. ((), rc\<lparr>Admin := admin\<rparr>)) st)))"

definition state_SetGrantDelay :: "TimePoint \<Rightarrow> RoleId \<Rightarrow> u32 \<Rightarrow> access_state \<Rightarrow> access_error + access_state" where
  "state_SetGrantDelay now role newDelay st =
     (if role = PublicRole then Inl (LockedRole role)
      else Inr (snd (onRole role (\<lambda>rc. ((), setGrantDelay rc now newDelay)) st)))"

definition SetTargetFunctionRole :: "string \<Rightarrow> Selector \<Rightarrow> RoleId \<Rightarrow> access_state \<Rightarrow> access_state" where
  "SetTargetFunctionRole target selector role = onTarget target (setFunctionRole selector role)"

definition SetTargetFunctionRoles :: "string \<Rightarrow> Selector list \<Rightarrow> RoleId \<Rightarrow> access_state \<Rightarrow> access_state" where
  "SetTargetFunctionRoles target selectors role = onTarget target (setFunctionRoles selectors role)"

definition state_SetTargetClosed :: "string \<Rightarrow> bool \<Rightarrow> access_state \<Rightarrow> access_state" where
  "state_SetTargetClosed target closed = onTarget target (\<lambda>tc. tc\<lparr>Closed := closed\<rparr>)"

section \<open>The access realm (access.gno, assert.gno, events.gno, deployer.gno)\<close>

record access_realm =
  accessState :: access_state
  accessEvents :: "event list"

type_synonym 'a access_comp = "access_realm \<Rightarrow> access_error + 'a \<times> access_realm"

definition emit_access :: "string \<Rightarrow> string list \<Rightarrow> access_realm \<Rightarrow> access_realm" where
  "emit_access typ attrs a = a\<lparr>accessEvents := accessEvents a @ [(typ, attrs)]\<rparr>"

definition FormatBool :: "bool \<Rightarrow> string" where
  "FormatBool b = (if b then ''true'' else ''false'')"

definition emitRoleLabelEvent :: "RoleId \<Rightarrow> string \<Rightarrow> access_realm \<Rightarrow> access_realm" where
  "emitRoleLabelEvent role label = emit_access ''RoleLabel'' [''role_id'', FormatUint role, ''label'', label]"

definition emitRoleGrantedEvent :: "RoleId \<Rightarrow> address \<Rightarrow> TimePoint \<Rightarrow> bool \<Rightarrow> access_realm \<Rightarrow> access_realm" where
  "emitRoleGrantedEvent role account since newMember =
     emit_access ''RoleGranted''
       [''role_id'', FormatUint role, ''account'', account, ''since'', TimePoint_String since,
        ''new_member'', FormatBool newMember]"

definition emitRoleRevokedEvent :: "RoleId \<Rightarrow> address \<Rightarrow> access_realm \<Rightarrow> access_realm" where
  "emitRoleRevokedEvent role account = emit_access ''RoleRevoked'' [''role_id'', FormatUint role, ''account'', account]"

definition emitRoleAdminChangedEvent :: "RoleId \<Rightarrow> RoleId \<Rightarrow> access_realm \<Rightarrow> access_realm" where
  "emitRoleAdminChangedEvent role admin =
     emit_access ''RoleAdminChanged'' [''role_id'', FormatUint role, ''admin'', FormatUint admin]"

definition emitRoleGrantDelayChangedEvent :: "RoleId \<Rightarrow> u32 \<Rightarrow> TimePoint \<Rightarrow> access_realm \<Rightarrow> access_realm" where
  "emitRoleGrantDelayChangedEvent role d since =
     emit_access ''RoleGrantDelayChanged''
       [''role_id'', FormatUint role, ''delay'', FormatUint (ucast d), ''since'', TimePoint_String since]"

definition emitTargetClosedEvent :: "string \<Rightarrow> bool \<Rightarrow> access_realm \<Rightarrow> access_realm" where
  "emitTargetClosedEvent target closed = emit_access ''TargetClosed'' [''target'', target, ''closed'', FormatBool closed]"

definition emitTargetFunctionRoleUpdatedEvent :: "string \<Rightarrow> Selector \<Rightarrow> RoleId \<Rightarrow> access_realm \<Rightarrow> access_realm" where
  "emitTargetFunctionRoleUpdatedEvent target selector role =
     emit_access ''TargetFunctionRoleUpdated''
       [''target'', target, ''selector'', selector, ''role_id'', FormatUint role]"

definition AssertCanCall :: "access_realm \<Rightarrow> TimePoint \<Rightarrow> realm \<Rightarrow> Selector \<Rightarrow> access_error + unit" where
  "AssertCanCall a now rlm selector =
     (if \<not> IsCurrent rlm then Inl SpoofedRealm
      else if \<not> CanCall (accessState a) now (PrevAddress rlm) (PkgPath rlm) selector
      then Inl (UnauthorizedCall (PrevAddress rlm) (PkgPath rlm) selector)
      else Inr ())"

definition assertCanManageTarget :: "access_realm \<Rightarrow> TimePoint \<Rightarrow> realm \<Rightarrow> access_error + unit" where
  "assertCanManageTarget a now rlm =
     (if \<not> CanManageTarget (accessState a) now (PrevAddress rlm)
      then Inl (UnauthorizedAccount (PrevAddress rlm) AdminRole) else Inr ())"

definition assertCanAdminRole :: "access_realm \<Rightarrow> TimePoint \<Rightarrow> realm \<Rightarrow> RoleId \<Rightarrow> access_error + unit" where
  "assertCanAdminRole a now rlm role =
     (if \<not> CanAdminRole (accessState a) now role (PrevAddress rlm)
      then Inl (UnauthorizedAccount (PrevAddress rlm) (GetRoleAdmin (accessState a) role)) else Inr ())"

definition GrantRole :: "TimePoint \<Rightarrow> realm \<Rightarrow> RoleId \<Rightarrow> address \<Rightarrow> bool access_comp" where
  "GrantRole now rlm role account a =
     (case assertCanAdminRole a now rlm role of Inl err \<Rightarrow> Inl err | Inr _ \<Rightarrow>
      (case state_GrantRole now role account (accessState a) of Inl err \<Rightarrow> Inl err | Inr (newMember, st) \<Rightarrow>
       Inr (newMember, emitRoleGrantedEvent role account (GetRoleMemberSince st role account) newMember
              (a\<lparr>accessState := st\<rparr>))))"

definition RevokeRole :: "TimePoint \<Rightarrow> realm \<Rightarrow> RoleId \<Rightarrow> address \<Rightarrow> bool access_comp" where
  "RevokeRole now rlm role account a =
     (case assertCanAdminRole a now rlm role of Inl err \<Rightarrow> Inl err | Inr _ \<Rightarrow>
      (case state_RevokeRole now role account (accessState a) of Inl err \<Rightarrow> Inl err | Inr (revoked, st) \<Rightarrow>
       Inr (revoked, (if revoked then emitRoleRevokedEvent role account else id) (a\<lparr>accessState := st\<rparr>))))"

definition RenounceRole :: "TimePoint \<Rightarrow> realm \<Rightarrow> RoleId \<Rightarrow> address \<Rightarrow> bool access_comp" where
  "RenounceRole now rlm role callerConfirmation a =
     (case state_RenounceRole now role (PrevAddress rlm) callerConfirmation (accessState a) of
        Inl err \<Rightarrow> Inl err
      | Inr (revoked, st) \<Rightarrow>
          Inr (revoked, (if revoked then emitRoleRevokedEvent role (PrevAddress rlm) else id) (a\<lparr>accessState := st\<rparr>)))"

definition LabelRole :: "TimePoint \<Rightarrow> realm \<Rightarrow> RoleId \<Rightarrow> string \<Rightarrow> unit access_comp" where
  "LabelRole now rlm role label a =
     (case assertCanManageTarget a now rlm of Inl err \<Rightarrow> Inl err | Inr _ \<Rightarrow>
      (case RequireUnlockedConfigRole role of Inl err \<Rightarrow> Inl err | Inr _ \<Rightarrow>
       Inr ((), emitRoleLabelEvent role label a)))"

definition SetRoleAdmin :: "TimePoint \<Rightarrow> realm \<Rightarrow> RoleId \<Rightarrow> RoleId \<Rightarrow> unit access_comp" where
  "SetRoleAdmin now rlm role admin a =
     (case assertCanManageTarget a now rlm of Inl err \<Rightarrow> Inl err | Inr _ \<Rightarrow>
      (case state_SetRoleAdmin role admin (accessState a) of Inl err \<Rightarrow> Inl err | Inr st \<Rightarrow>
       Inr ((), emitRoleAdminChangedEvent role admin (a\<lparr>accessState := st\<rparr>))))"

definition SetGrantDelay :: "TimePoint \<Rightarrow> realm \<Rightarrow> RoleId \<Rightarrow> u32 \<Rightarrow> unit access_comp" where
  "SetGrantDelay now rlm role newDelay a =
     (case assertCanManageTarget a now rlm of Inl err \<Rightarrow> Inl err | Inr _ \<Rightarrow>
      (case state_SetGrantDelay now role newDelay (accessState a) of Inl err \<Rightarrow> Inl err | Inr st \<Rightarrow>
       Inr ((), emitRoleGrantDelayChangedEvent role newDelay (GetRoleGrantDelayEffect st role) (a\<lparr>accessState := st\<rparr>))))"

definition SetFunctionRole :: "TimePoint \<Rightarrow> realm \<Rightarrow> string \<Rightarrow> Selector \<Rightarrow> RoleId \<Rightarrow> unit access_comp" where
  "SetFunctionRole now rlm targetPath selector role a =
     (case assertCanManageTarget a now rlm of Inl err \<Rightarrow> Inl err | Inr _ \<Rightarrow>
      Inr ((), emitTargetFunctionRoleUpdatedEvent targetPath selector role
             (a\<lparr>accessState := SetTargetFunctionRole targetPath selector role (accessState a)\<rparr>)))"

definition SetFunctionRoles :: "TimePoint \<Rightarrow> realm \<Rightarrow> string \<Rightarrow> Selector list \<Rightarrow> RoleId \<Rightarrow> unit access_comp" where
  "SetFunctionRoles now rlm targetPath selectors role a =
     (case assertCanManageTarget a now rlm of Inl err \<Rightarrow> Inl err | Inr _ \<Rightarrow>
      Inr ((), foldl (\<lambda>a selector. emitTargetFunctionRoleUpdatedEvent targetPath selector role a)
             (a\<lparr>accessState := SetTargetFunctionRoles targetPath selectors role (accessState a)\<rparr>) selectors))"

definition SetTargetClosed :: "TimePoint \<Rightarrow> realm \<Rightarrow> string \<Rightarrow> bool \<Rightarrow> unit access_comp" where
  "SetTargetClosed now rlm targetPath closed a =
     (case assertCanManageTarget a now rlm of Inl err \<Rightarrow> Inl err | Inr _ \<Rightarrow>
      Inr ((), emitTargetClosedEvent targetPath closed
             (a\<lparr>accessState := state_SetTargetClosed targetPath closed (accessState a)\<rparr>)))"

text \<open>The deployment: the first admin, and the relayer's functions of the core realm.\<close>

definition RelayerRole :: RoleId where "RelayerRole = 1"

definition CoreRealmPath :: string where "CoreRealmPath = ''gno.land/r/onbloc/ibc/union/core''"

definition RelayerSelectors :: "Selector list" where
  "RelayerSelectors =
     [''register_client'', ''create_client'', ''update_client'', ''misbehaviour'',
      ''connection_open_init'', ''connection_open_try'', ''connection_open_ack'', ''connection_open_confirm'',
      ''channel_open_init'', ''channel_open_try'', ''channel_open_ack'', ''channel_open_confirm'',
      ''batch_send'', ''batch_acks'', ''packet_recv'', ''intent_packet_recv'', ''packet_ack'', ''packet_timeout'']"

definition setupRoles :: "unit access_comp" where
  "setupRoles a =
     (let a = foldl (\<lambda>a selector. emitTargetFunctionRoleUpdatedEvent CoreRealmPath selector RelayerRole a)
          (a\<lparr>accessState := SetTargetFunctionRoles CoreRealmPath RelayerSelectors RelayerRole (accessState a)\<rparr>)
          RelayerSelectors
      in case RequireUnlockedConfigRole RelayerRole of Inl err \<Rightarrow> Inl err | Inr _ \<Rightarrow>
         Inr ((), emitRoleLabelEvent RelayerRole ''RELAYER'' a))"

definition resetAccess :: "TimePoint \<Rightarrow> address \<Rightarrow> unit access_comp" where
  "resetAccess now initialAdmin a =
     (case state_GrantRole now AdminRole initialAdmin NewState of Inl err \<Rightarrow> Inl err | Inr (_, st) \<Rightarrow>
      setupRoles (emitRoleGrantedEvent AdminRole initialAdmin (GetRoleMemberSince st AdminRole initialAdmin) True
        (a\<lparr>accessState := st\<rparr>)))"

end
