(* ===== verification/AccessSafe.thy ===== *)
theory AccessSafe
  imports AccessManager
begin

text \<open>
  The access realm as a state machine over time: every management call at a time no earlier than the
  one before. What is shown: the system keeps an active admin, a membership goes back to a grant by a
  caller who administers the role, and lowering a grant delay brings no membership forward.
\<close>

section \<open>Calls and runs\<close>

datatype access_call =
    AGrantRole RoleId address | ARevokeRole RoleId address | ARenounceRole RoleId address
  | ALabelRole RoleId string | ASetRoleAdmin RoleId RoleId | ASetGrantDelay RoleId u32
  | ASetFunctionRole string Selector RoleId | ASetFunctionRoles string "Selector list" RoleId
  | ASetTargetClosed string bool

fun perform :: "TimePoint \<Rightarrow> realm \<Rightarrow> access_call \<Rightarrow> access_realm \<Rightarrow> access_error + access_realm" where
  "perform now rlm (AGrantRole role account) a = map_sum id snd (GrantRole now rlm role account a)"
| "perform now rlm (ARevokeRole role account) a = map_sum id snd (RevokeRole now rlm role account a)"
| "perform now rlm (ARenounceRole role c) a = map_sum id snd (RenounceRole now rlm role c a)"
| "perform now rlm (ALabelRole role label) a = map_sum id snd (LabelRole now rlm role label a)"
| "perform now rlm (ASetRoleAdmin role admin) a = map_sum id snd (SetRoleAdmin now rlm role admin a)"
| "perform now rlm (ASetGrantDelay role d) a = map_sum id snd (SetGrantDelay now rlm role d a)"
| "perform now rlm (ASetFunctionRole t sel role) a = map_sum id snd (SetFunctionRole now rlm t sel role a)"
| "perform now rlm (ASetFunctionRoles t sels role) a = map_sum id snd (SetFunctionRoles now rlm t sels role a)"
| "perform now rlm (ASetTargetClosed t closed) a = map_sum id snd (SetTargetClosed now rlm t closed a)"

text \<open>From one time and state to another: calls that commit, calls that panic, and time passing.\<close>

inductive access_run :: "TimePoint \<Rightarrow> access_realm \<Rightarrow> TimePoint \<Rightarrow> access_realm \<Rightarrow> bool" for t0 a0 where
  start: "access_run t0 a0 t0 a0"
| waits: "access_run t0 a0 t a \<Longrightarrow> sint t \<le> sint now \<Longrightarrow> access_run t0 a0 now a"
| commits: "access_run t0 a0 t a \<Longrightarrow> sint t \<le> sint now \<Longrightarrow> perform now rlm c a = Inr a' \<Longrightarrow> access_run t0 a0 now a'"

lemma access_run_time: "access_run t0 a0 t a \<Longrightarrow> sint t0 \<le> sint t"
  by (induction rule: access_run.induct) auto

locale access_invariant =
  fixes inv :: "TimePoint \<Rightarrow> access_realm \<Rightarrow> bool"
  assumes passes: "inv t a \<Longrightarrow> sint t \<le> sint now \<Longrightarrow> inv now a"
    and call: "inv now a \<Longrightarrow> perform now rlm c a = Inr a' \<Longrightarrow> inv now a'"
begin

lemma invariant: "access_run t0 a0 t a \<Longrightarrow> inv t0 a0 \<Longrightarrow> inv t a"
  by (induction rule: access_run.induct) (auto intro: passes call)

end

section \<open>What a call does to the roles\<close>

text \<open>A role that has no entry is a role without members.\<close>

definition role_of :: "access_state \<Rightarrow> RoleId \<Rightarrow> RoleConfig" where
  "role_of st role = (case Roles st role of None \<Rightarrow> NewRoleConfig AdminRole 0 | Some rc \<Rightarrow> rc)"

lemma HasRole_role_of: "HasRole st now role account \<longleftrightarrow> role = PublicRole \<or> hasMember (role_of st role) account now"
  by (auto simp: HasRole_def role_of_def hasMember_def NewRoleConfig_def split: option.splits)

lemma GetRoleAdmin_role_of: "GetRoleAdmin st role = Admin (role_of st role)"
  by (auto simp: GetRoleAdmin_def role_of_def NewRoleConfig_def split: option.splits)

lemma GetRoleGrantDelay_role_of: "GetRoleGrantDelay st now role = delay_Get (GrantDelay (role_of st role)) now"
  by (auto simp: GetRoleGrantDelay_def role_of_def NewRoleConfig_def NewDelay_def delay_Get_def split: option.splits)

lemma role_of_ensureRole [simp]: "role_of (ensureRole role st) = role_of st"
  by (auto simp: role_of_def ensureRole_def fun_eq_iff split: option.splits)

lemma the_ensureRole [simp]: "the (Roles (ensureRole role st) role) = role_of st role"
  by (auto simp: role_of_def ensureRole_def split: option.splits)

lemma role_of_onRole: "role_of (snd (onRole role f st)) = (role_of st)(role := snd (f (role_of st role)))"
  by (auto simp: onRole_def role_of_def ensureRole_def fun_eq_iff split: prod.splits option.splits)

lemma role_of_onTarget [simp]: "role_of (onTarget target f st) = role_of st"
  by (simp add: fun_eq_iff role_of_def onTarget_def ensureTarget_def split: option.splits)

lemma emit_access_state [simp]:
  "accessState (emitRoleLabelEvent r l a) = accessState a" "accessState (emitRoleGrantedEvent r x t b a) = accessState a"
  "accessState (emitRoleRevokedEvent r x a) = accessState a" "accessState (emitRoleAdminChangedEvent r s a) = accessState a"
  "accessState (emitRoleGrantDelayChangedEvent r d t a) = accessState a"
  "accessState (emitTargetClosedEvent p b a) = accessState a"
  "accessState (emitTargetFunctionRoleUpdatedEvent p l r a) = accessState a"
  by (simp_all add: emit_access_def emitRoleLabelEvent_def emitRoleGrantedEvent_def emitRoleRevokedEvent_def
      emitRoleAdminChangedEvent_def emitRoleGrantDelayChangedEvent_def emitTargetClosedEvent_def
      emitTargetFunctionRoleUpdatedEvent_def)

lemma emit_roles_state [simp]:
  "accessState (foldl (\<lambda>a selector. emitTargetFunctionRoleUpdatedEvent p selector r a) a selectors) = accessState a"
  by (induction selectors arbitrary: a) simp_all

text \<open>The five ways a call changes the roles.\<close>

datatype role_change = Untouched | Granted RoleId address | Revoked RoleId address | AdminSet RoleId RoleId | DelaySet RoleId u32

fun change_role :: "TimePoint \<Rightarrow> role_change \<Rightarrow> (RoleId \<Rightarrow> RoleConfig) \<Rightarrow> RoleId \<Rightarrow> RoleConfig" where
  "change_role now Untouched R = R"
| "change_role now (Granted role account) R = R(role := snd (role_grant (R role) account now))"
| "change_role now (Revoked role account) R = R(role := snd (role_revoke (R role) account))"
| "change_role now (AdminSet role admin) R = R(role := (R role)\<lparr>Admin := admin\<rparr>)"
| "change_role now (DelaySet role d) R = R(role := setGrantDelay (R role) now d)"

definition last_admin :: "RoleConfig \<Rightarrow> TimePoint \<Rightarrow> address \<Rightarrow> bool" where
  "last_admin rc now account \<longleftrightarrow> hasMember rc account now \<and>
     \<not> list_ex (\<lambda>(member, access). member \<noteq> account \<and> isActiveAt access now) (Members rc)"

lemma isLastAdmin_role_of: "isLastAdmin st now account \<longleftrightarrow> last_admin (role_of st AdminRole) now account"
  by (auto simp: isLastAdmin_def last_admin_def role_of_def NewRoleConfig_def hasMember_def split: option.splits)

fun change_ok :: "TimePoint \<Rightarrow> realm \<Rightarrow> access_state \<Rightarrow> role_change \<Rightarrow> bool" where
  "change_ok now rlm st Untouched \<longleftrightarrow> True"
| "change_ok now rlm st (Granted role account) \<longleftrightarrow> role \<noteq> PublicRole \<and> HasRole st now (GetRoleAdmin st role) (PrevAddress rlm)"
| "change_ok now rlm st (Revoked role account) \<longleftrightarrow> role \<noteq> PublicRole \<and>
     (role = AdminRole \<longrightarrow> \<not> last_admin (role_of st AdminRole) now account) \<and>
     (HasRole st now (GetRoleAdmin st role) (PrevAddress rlm) \<or> account = PrevAddress rlm)"
| "change_ok now rlm st (AdminSet role admin) \<longleftrightarrow> role \<noteq> AdminRole \<and> role \<noteq> PublicRole \<and> HasRole st now AdminRole (PrevAddress rlm)"
| "change_ok now rlm st (DelaySet role d) \<longleftrightarrow> role \<noteq> PublicRole \<and> HasRole st now AdminRole (PrevAddress rlm)"

fun change_of :: "realm \<Rightarrow> access_call \<Rightarrow> role_change" where
  "change_of rlm (AGrantRole role account) = Granted role account"
| "change_of rlm (ARevokeRole role account) = Revoked role account"
| "change_of rlm (ARenounceRole role c) = Revoked role (PrevAddress rlm)"
| "change_of rlm (ASetRoleAdmin role admin) = AdminSet role admin"
| "change_of rlm (ASetGrantDelay role d) = DelaySet role d"
| "change_of rlm _ = Untouched"

lemmas access_defs = GrantRole_def RevokeRole_def RenounceRole_def LabelRole_def SetRoleAdmin_def SetGrantDelay_def
  SetFunctionRole_def SetFunctionRoles_def SetTargetClosed_def state_GrantRole_def state_RevokeRole_def
  state_RenounceRole_def state_SetRoleAdmin_def state_SetGrantDelay_def SetTargetFunctionRole_def
  SetTargetFunctionRoles_def state_SetTargetClosed_def assertCanAdminRole_def assertCanManageTarget_def
  CanAdminRole_def CanManageTarget_def RequireUnlockedConfigRole_def

lemma role_of_pair: "onRole role f st = (r, st') \<Longrightarrow> role_of st' = (role_of st)(role := snd (f (role_of st role)))"
  using role_of_onRole [of role f st] by simp

lemma perform_roles:
  assumes "perform now rlm c a = Inr a'"
  shows "change_ok now rlm (accessState a) (change_of rlm c)"
    and "role_of (accessState a') = change_role now (change_of rlm c) (role_of (accessState a))"
  using assms
  by (cases c; auto simp: access_defs role_of_onRole isLastAdmin_role_of split: if_splits sum.splits prod.splits
      dest!: role_of_pair)+


section \<open>An active admin remains\<close>

definition admin_active :: "TimePoint \<Rightarrow> access_realm \<Rightarrow> bool" where
  "admin_active now a \<longleftrightarrow> (let rc = role_of (accessState a) AdminRole in
     distinct (map fst (Members rc)) \<and> (\<exists>x. hasMember rc x now))"

lemma isActiveAt_later: "isActiveAt x t \<Longrightarrow> sint t \<le> sint now \<Longrightarrow> isActiveAt x now"
  by (auto simp: isActiveAt_def After_def split: if_splits)

lemma hasMember_later: "hasMember rc x t \<Longrightarrow> sint t \<le> sint now \<Longrightarrow> hasMember rc x now"
  by (auto simp: hasMember_def intro: isActiveAt_later split: option.splits)

lemma members_grant: "map_of (Members (snd (role_grant rc account now))) x =
   (if x = account \<and> map_of (Members rc) account = None
    then Some (NewAccessWithDelay now (delay_Get (GrantDelay rc) now)) else map_of (Members rc) x)"
  by (auto simp: role_grant_def update_conv' split: option.splits)

lemma members_revoke: "map_of (Members (snd (role_revoke rc account))) x =
   (if x = account then None else map_of (Members rc) x)"
  by (auto simp: role_revoke_def delete_conv' split: option.splits)

lemma distinct_grant: "distinct (map fst (Members rc)) \<Longrightarrow> distinct (map fst (Members (snd (role_grant rc account now))))"
  by (simp add: role_grant_def distinct_update split: option.splits)

lemma distinct_revoke: "distinct (map fst (Members rc)) \<Longrightarrow> distinct (map fst (Members (snd (role_revoke rc account))))"
  by (simp add: role_revoke_def distinct_delete split: option.splits)

lemma hasMember_grant: "hasMember rc x now \<Longrightarrow> hasMember (snd (role_grant rc account now)) x now"
  by (auto simp: hasMember_def members_grant split: option.splits)

lemma hasMember_revoke: "x \<noteq> account \<Longrightarrow> hasMember (snd (role_revoke rc account)) x now = hasMember rc x now"
  by (simp add: hasMember_def members_revoke)

lemma not_last_other:
  assumes "distinct (map fst (Members rc))" "hasMember rc x now" "\<not> last_admin rc now account"
  obtains y where "y \<noteq> account" "hasMember rc y now"
proof (cases "hasMember rc account now")
  case True
  with assms(3) obtain y acc where "(y, acc) \<in> set (Members rc)" "y \<noteq> account" "isActiveAt acc now"
    by (auto simp: last_admin_def list_ex_iff)
  with that show ?thesis using assms(1) by (auto simp: hasMember_def)
next
  case False
  with assms(2) show ?thesis by (intro that [of x]) auto
qed

interpretation admins: access_invariant admin_active
proof
  fix t now :: TimePoint and a assume "admin_active t a" "sint t \<le> sint now"
  then show "admin_active now a"
    by (auto simp: admin_active_def Let_def intro: hasMember_later)
next
  fix now a rlm c a' assume inv: "admin_active now a" and step: "perform now rlm c a = Inr a'"
  obtain x where d: "distinct (map fst (Members (role_of (accessState a) AdminRole)))"
    and x: "hasMember (role_of (accessState a) AdminRole) x now"
    using inv by (auto simp: admin_active_def Let_def)
  show "admin_active now a'"
  proof (cases "change_of rlm c")
    case (Revoked role account)
    with perform_roles [OF step] show ?thesis
      by (cases "role = AdminRole")
        (auto simp: admin_active_def Let_def d distinct_revoke
          intro: x hasMember_revoke [THEN iffD2] elim!: not_last_other [OF d x])
  next
    case (DelaySet role dl)
    with perform_roles [OF step] d x show ?thesis
      by (auto simp: admin_active_def Let_def setGrantDelay_def hasMember_def)
  next
    case (AdminSet role admin)
    with perform_roles [OF step] d x show ?thesis by (auto simp: admin_active_def Let_def)
  qed (use perform_roles [OF step] d x in \<open>auto simp: admin_active_def Let_def distinct_grant intro: hasMember_grant\<close>)
qed

lemma reset_admin:
  assumes "resetAccess now admin a = Inr ((), a0)"
  shows "role_of (accessState a0) = (\<lambda>_. NewRoleConfig AdminRole 0)
    (AdminRole := \<lparr>Members = [(admin, NewAccessWithDelay now 0)], Admin = AdminRole, GrantDelay = NewDelay 0\<rparr>)"
proof -
  have [simp]: "AdminRole \<noteq> PublicRole" by (simp add: AdminRole_def PublicRole_def)
  have [simp]: "role_of NewState = (\<lambda>_. NewRoleConfig AdminRole 0)" by (auto simp: role_of_def NewState_def)
  have "accessState a0 = SetTargetFunctionRoles CoreRealmPath RelayerSelectors RelayerRole
     (snd (onRole AdminRole (\<lambda>rc. role_grant rc admin now) NewState))"
    using assms by (auto simp: resetAccess_def setupRoles_def state_GrantRole_def Let_def split: sum.splits prod.splits)
  then show ?thesis
    by (simp add: SetTargetFunctionRoles_def role_of_onRole role_grant_def)
      (simp add: NewRoleConfig_def delay_Get_def NewDelay_def)
qed

text \<open>C15: From the deployment on, at every time of every run some account is an active admin.\<close>

theorem admin_remains:
  assumes "resetAccess t0 admin a = Inr ((), a0)" "t0 \<noteq> 0" "access_run t0 a0 t a'"
  shows "\<exists>x. HasRole (accessState a') t AdminRole x"
proof -
  have "admin_active t0 a0"
    using assms(2) by (auto simp: admin_active_def Let_def reset_admin [OF assms(1)] hasMember_def
        NewAccessWithDelay_def TimePoint_IsZero_def isActiveAt_def After_def)
  then have "admin_active t a'" by (rule admins.invariant [OF assms(3)])
  then show ?thesis by (auto simp: HasRole_role_of admin_active_def Let_def)
qed


section \<open>A membership goes back to a grant\<close>

lemma sint_plus_delay:
  fixes t :: TimePoint and d :: u32
  assumes "0 \<le> sint t" "sint t < 2 ^ 62"
  shows "sint (t + ucast d) = sint t + uint d"
proof -
  have d: "uint d < 2 ^ 32" using uint_lt2p [of d] by simp
  have take: "signed_take_bit 63 k = k" if "0 \<le> k" "k < 2 ^ 63" for k :: int
    using that by (intro signed_take_bit_int_eq_self) auto
  have "sint (ucast d :: 64 word) = uint d"
    using d by (simp add: sint_uint unsigned_ucast_eq take take_bit_int_eq_self)
  moreover have "signed_take_bit 63 (sint t + uint d) = sint t + uint d"
    using assms d by (intro take) auto
  ultimately show ?thesis by (simp add: sint_word_ariths)
qed

definition member_since :: "access_realm \<Rightarrow> RoleId \<Rightarrow> address \<Rightarrow> Access option" where
  "member_since a role x = map_of (Members (role_of (accessState a) role)) x"

lemma GetRoleMemberSince_member:
  "GetRoleMemberSince (accessState a) role x = (case member_since a role x of None \<Rightarrow> 0 | Some acc \<Rightarrow> Since acc)"
  by (auto simp: GetRoleMemberSince_def member_since_def role_of_def NewRoleConfig_def split: option.splits)

lemma GrantRole_new:
  assumes "perform now rlm (AGrantRole role x) a = Inr a'" "member_since a role x = None"
  shows "GrantRole now rlm role x a = Inr (True, a')"
proof -
  have "fst (onRole role (\<lambda>rc. role_grant rc x now) (accessState a)) = True"
    using assms(2) by (simp add: onRole_def role_grant_def member_since_def)
  with assms(1) show ?thesis
    by (auto simp: GrantRole_def state_GrantRole_def split: sum.splits prod.splits if_splits)
qed

lemma perform_member:
  assumes step: "perform now rlm c a = Inr a'" and "member_since a' role x = Some acc"
  shows "member_since a role x = Some acc \<or>
    member_since a role x = None \<and> GrantRole now rlm role x a = Inr (True, a') \<and>
    HasRole (accessState a) now (GetRoleAdmin (accessState a) role) (PrevAddress rlm) \<and>
    acc = NewAccessWithDelay now (GetRoleGrantDelay (accessState a) now role)"
proof (cases "change_of rlm c")
  case (Granted r y)
  then have c: "c = AGrantRole r y" by (cases c) auto
  from perform_roles [OF step] Granted assms(2) GrantRole_new [OF step [unfolded c]] show ?thesis
    by (auto simp: member_since_def members_grant GetRoleGrantDelay_role_of split: if_splits)
next
  case (Revoked r y)
  with perform_roles [OF step] assms(2) show ?thesis
    by (auto simp: member_since_def members_revoke split: if_splits)
next
  case (AdminSet r y)
  with perform_roles [OF step] assms(2) show ?thesis
    by (auto simp: member_since_def split: if_splits)
next
  case (DelaySet r y)
  with perform_roles [OF step] assms(2) show ?thesis
    by (auto simp: member_since_def setGrantDelay_def split: if_splits)
next
  case Untouched
  with perform_roles [OF step] assms(2) show ?thesis by (simp add: member_since_def)
qed

lemma member_origin:
  assumes "access_run t0 a0 t a" "member_since a role x = Some acc" "Since acc \<noteq> 0"
    and "GetRoleMemberSince (accessState a0) role x = 0"
  shows "\<exists>s b rlm b'. access_run t0 a0 s b \<and> GrantRole s rlm role x b = Inr (True, b') \<and>
    HasRole (accessState b) s (GetRoleAdmin (accessState b) role) (PrevAddress rlm) \<and>
    access_run s b' t a \<and> acc = NewAccessWithDelay s (GetRoleGrantDelay (accessState b) s role)"
  using assms
proof (induction rule: access_run.induct)
  case start
  then show ?case by (simp add: GetRoleMemberSince_member)
next
  case (waits t a now)
  then show ?case by (meson access_run.waits)
next
  case (commits t a now rlm c a')
  from perform_member [OF commits.hyps(3) commits.prems(1)] show ?case
  proof
    assume "member_since a role x = Some acc"
    with commits show ?thesis by (meson access_run.commits)
  next
    assume "member_since a role x = None \<and> GrantRole now rlm role x a = Inr (True, a') \<and>
      HasRole (accessState a) now (GetRoleAdmin (accessState a) role) (PrevAddress rlm) \<and>
      acc = NewAccessWithDelay now (GetRoleGrantDelay (accessState a) now role)"
    moreover have "access_run t0 a0 now a" using commits.hyps(1,2) by (rule access_run.waits)
    ultimately show ?thesis using access_run.start by blast
  qed
qed

lemma active_member:
  assumes "HasRole (accessState a) t role x" "role \<noteq> PublicRole"
  obtains acc where "member_since a role x = Some acc" "Since acc \<noteq> 0" "sint (Since acc) \<le> sint t"
  using assms
  by (auto simp: HasRole_role_of hasMember_def member_since_def isActiveAt_def After_def TimePoint_IsZero_def
      split: option.splits if_splits)

lemma member_from_grant:
  assumes "access_run t0 a0 t a" "HasRole (accessState a) t role x" "role \<noteq> PublicRole"
    and "GetRoleMemberSince (accessState a0) role x = 0" "0 \<le> sint t0" "sint t < 2 ^ 62"
  shows "\<exists>s b rlm b'. access_run t0 a0 s b \<and> GrantRole s rlm role x b = Inr (True, b') \<and>
    HasRole (accessState b) s (GetRoleAdmin (accessState b) role) (PrevAddress rlm) \<and>
    access_run s b' t a \<and> sint s + uint (GetRoleGrantDelay (accessState b) s role) \<le> sint t"
proof -
  obtain acc where acc: "member_since a role x = Some acc" "Since acc \<noteq> 0" "sint (Since acc) \<le> sint t"
    using active_member [OF assms(2,3)] .
  from member_origin [OF assms(1) acc(1,2) assms(4)]
  obtain s b rlm b' where o: "access_run t0 a0 s b" "GrantRole s rlm role x b = Inr (True, b')"
    "HasRole (accessState b) s (GetRoleAdmin (accessState b) role) (PrevAddress rlm)"
    "access_run s b' t a" "acc = NewAccessWithDelay s (GetRoleGrantDelay (accessState b) s role)"
    by blast
  have "0 \<le> sint s" "sint s < 2 ^ 62"
    using access_run_time [OF o(1)] access_run_time [OF o(4)] assms(5,6) by auto
  then have "sint (Since acc) = sint s + uint (GetRoleGrantDelay (accessState b) s role)"
    using acc(2) o(5) by (auto simp: NewAccessWithDelay_def sint_plus_delay split: if_splits)
  with o acc(3) show ?thesis by auto
qed

section \<open>Lowering a grant delay\<close>

text \<open>A bound on when a membership granted at any time from \<open>t\<close> on becomes active.\<close>

definition delay_floor :: "int \<Rightarrow> TimePoint \<Rightarrow> Delay \<Rightarrow> bool" where
  "delay_floor F t d \<longleftrightarrow>
     (if After (effectDate d) t then F \<le> sint t + uint (valueBefore d) \<and> F \<le> sint (effectDate d) + uint (valueAfter d)
      else F \<le> sint t + uint (valueAfter d))"

lemma delay_floor_Get: "delay_floor F t d \<Longrightarrow> F \<le> sint t + uint (delay_Get d t)"
  by (auto simp: delay_floor_def delay_Get_def split: if_splits)

lemma delay_floor_passes: "delay_floor F t d \<Longrightarrow> sint t \<le> sint now \<Longrightarrow> delay_floor F now d"
  by (auto simp: delay_floor_def After_def split: if_splits)

lemma delay_floor_update:
  assumes "F \<le> sint now + uint (delay_Get d now)" "0 \<le> sint now" "sint now < 2 ^ 62"
  shows "delay_floor F now (fst (WithUpdate d now n MinSetback))"
proof -
  define v where "v = delay_Get d now"
  have "uint (v - n) = uint v - uint n" if "n < v"
    using that by (simp add: uint_sub_lem [THEN iffD1] word_less_def)
  then show ?thesis
    using assms
    by (auto simp: WithUpdate_def delay_floor_def After_def Let_def sint_plus_delay MinSetback_def word_less_def
        simp flip: v_def)
qed


definition role_floor :: "int \<Rightarrow> RoleId \<Rightarrow> TimePoint \<Rightarrow> access_realm \<Rightarrow> bool" where
  "role_floor F role t a \<longleftrightarrow> 0 \<le> sint t \<and>
     (sint t < 2 ^ 62 \<longrightarrow> delay_floor F t (GrantDelay (role_of (accessState a) role)))"

lemma change_role_delay:
  "GrantDelay (change_role now ch R role) =
     (case ch of DelaySet r d \<Rightarrow> if r = role then fst (WithUpdate (GrantDelay (R role)) now d MinSetback) else GrantDelay (R role)
      | _ \<Rightarrow> GrantDelay (R role))"
  by (cases ch) (auto simp: role_grant_def role_revoke_def setGrantDelay_def split: option.splits)

interpretation floors: access_invariant "role_floor F role" for F role
proof
  fix t now :: TimePoint and a assume "role_floor F role t a" "sint t \<le> sint now"
  then show "role_floor F role now a" by (auto simp: role_floor_def intro: delay_floor_passes)
next
  fix now a rlm c a' assume "role_floor F role now a" "perform now rlm c a = Inr a'"
  then show "role_floor F role now a'"
    by (auto simp: role_floor_def perform_roles(2) change_role_delay
        intro!: delay_floor_update delay_floor_Get split: role_change.splits)
qed

lemma SetGrantDelay_floor:
  assumes "SetGrantDelay u rlm role d a = Inr ((), a1)" "0 \<le> sint u"
  shows "role_floor (sint u + uint (GetRoleGrantDelay (accessState a) u role)) role u a1"
proof -
  have "perform u rlm (ASetGrantDelay role d) a = Inr a1" using assms(1) by simp
  from perform_roles(2) [OF this] assms(2) show ?thesis
    by (auto simp: role_floor_def setGrantDelay_def GetRoleGrantDelay_role_of intro!: delay_floor_update)
qed

text \<open>C16: However a role's grant delay is changed from some moment on, an account that was not a member then
  holds the role no earlier than it would have if granted at that moment under the old delay.\<close>

theorem grant_delay_protects:
  assumes "SetGrantDelay u rlm role d a = Inr ((), a1)" "access_run u a1 t a'"
    and "HasRole (accessState a') t role x" "role \<noteq> PublicRole" "GetRoleMemberSince (accessState a1) role x = 0"
    and "0 \<le> sint u" "sint t < 2 ^ 62"
  shows "sint u + uint (GetRoleGrantDelay (accessState a) u role) \<le> sint t"
proof -
  obtain s b where s: "access_run u a1 s b" "sint s + uint (GetRoleGrantDelay (accessState b) s role) \<le> sint t"
    using member_from_grant [OF assms(2-7)] by blast
  have "role_floor (sint u + uint (GetRoleGrantDelay (accessState a) u role)) role s b"
    using floors.invariant [OF s(1) SetGrantDelay_floor [OF assms(1,6)]] .
  moreover have "sint s < 2 ^ 62" using s(2) assms(7) uint_ge_0 [of "GetRoleGrantDelay (accessState b) s role"] by linarith
  ultimately show ?thesis
    using s(2) by (auto simp: role_floor_def GetRoleGrantDelay_role_of dest!: delay_floor_Get)
qed

section \<open>The deployed realm\<close>

lemma foldl_setFunctionRole:
  "functionRole (foldl (\<lambda>tc s. setFunctionRole s role tc) tc selectors) sel =
     (if sel \<in> set selectors then role else functionRole tc sel)"
  by (induction selectors arbitrary: tc) (auto simp: functionRole_def setFunctionRole_def split: option.splits)

lemma foldl_setFunctionRole_Closed: "Closed (foldl (\<lambda>tc s. setFunctionRole s role tc) tc selectors) = Closed tc"
  by (induction selectors arbitrary: tc) (auto simp: setFunctionRole_def)

lemma functionRole_New [simp]: "functionRole (NewTargetConfig closed) sel = AdminRole"
  by (simp add: functionRole_def NewTargetConfig_def)

lemma SetTargetFunctionRoles_role:
  "GetTargetFunctionRole (SetTargetFunctionRoles target selectors role st) t sel =
     (if t = target \<and> sel \<in> set selectors then role else GetTargetFunctionRole st t sel)"
  by (auto simp: SetTargetFunctionRoles_def onTarget_def ensureTarget_def GetTargetFunctionRole_def setFunctionRoles_def
      foldl_setFunctionRole split: option.splits)

lemma SetTargetFunctionRoles_closed:
  "IsTargetClosed (SetTargetFunctionRoles target selectors role st) = IsTargetClosed st"
  by (auto simp: fun_eq_iff SetTargetFunctionRoles_def onTarget_def ensureTarget_def IsTargetClosed_def setFunctionRoles_def
      foldl_setFunctionRole_Closed NewTargetConfig_def split: option.splits)

lemma reset_state:
  assumes "resetAccess now admin a = Inr ((), a0)"
  shows "accessState a0 = SetTargetFunctionRoles CoreRealmPath RelayerSelectors RelayerRole
     (snd (onRole AdminRole (\<lambda>rc. role_grant rc admin now) NewState))"
  using assms by (auto simp: resetAccess_def setupRoles_def state_GrantRole_def Let_def split: sum.splits prod.splits if_splits)

lemma reset_function_role:
  assumes "resetAccess t0 admin a = Inr ((), a0)"
  shows "GetTargetFunctionRole (accessState a0) target sel =
    (if target = CoreRealmPath \<and> sel \<in> set RelayerSelectors then RelayerRole else AdminRole)"
  unfolding reset_state [OF assms] SetTargetFunctionRoles_role
  by (simp add: GetTargetFunctionRole_def onRole_def NewState_def ensureRole_def split: prod.splits)

lemma reset_open:
  assumes "resetAccess t0 admin a = Inr ((), a0)"
  shows "\<not> IsTargetClosed (accessState a0) target"
  unfolding reset_state [OF assms] SetTargetFunctionRoles_closed
  by (simp add: IsTargetClosed_def onRole_def NewState_def ensureRole_def split: prod.splits)

lemma reset_members:
  assumes "resetAccess t0 admin a = Inr ((), a0)" "t0 \<noteq> 0" "sint t0 \<le> sint t"
  shows "HasRole (accessState a0) t AdminRole caller \<longleftrightarrow> caller = admin" "\<not> HasRole (accessState a0) t RelayerRole caller"
  using assms(2,3) by (auto simp: HasRole_role_of reset_admin [OF assms(1)] RelayerRole_def AdminRole_def PublicRole_def
      hasMember_def NewAccessWithDelay_def TimePoint_IsZero_def isActiveAt_def After_def NewRoleConfig_def)

text \<open>Right after the deployment the first admin may call every function of every realm, except the relayer's
  functions of the core realm, which nobody may call; nobody else may call anything.\<close>

theorem deployed_calls:
  assumes "resetAccess t0 admin a = Inr ((), a0)" "t0 \<noteq> 0" "sint t0 \<le> sint t"
  shows "CanCall (accessState a0) t caller target sel \<longleftrightarrow>
    caller = admin \<and> \<not> (target = CoreRealmPath \<and> sel \<in> set RelayerSelectors)"
  using reset_function_role [OF assms(1), of target sel] reset_open [OF assms(1), of target]
    reset_members [OF assms, of caller]
  by (auto simp: CanCall_def)

section \<open>Concrete runs\<close>

text \<open>A call that panics leaves the state as it was.\<close>

definition after_call :: "access_error + access_realm \<Rightarrow> access_realm \<Rightarrow> access_realm" where
  "after_call r a = (case r of Inl _ \<Rightarrow> a | Inr a' \<Rightarrow> a')"

lemma after_callI: "\<not> isl r \<Longrightarrow> r = Inr (after_call r a)"
  by (cases r) (auto simp: after_call_def)

definition user :: "address \<Rightarrow> realm" where
  "user x = \<lparr>IsCurrent = True, PkgPath = ''gno.land/r/onbloc/ibc/union/access'', PrevAddress = x, PrevPkgPath = []\<rparr>"

definition empty_access :: access_realm where
  "empty_access = \<lparr>accessState = NewState, accessEvents = []\<rparr>"

definition access0 :: access_realm where
  "access0 = after_call (map_sum id snd (resetAccess 1000 ''adm'' empty_access)) empty_access"

text \<open>The deployment, then: a grant delay of ten days for the relayers, which is in effect five days later; the
  delay back to zero at that time; a relayer; and the first admin makes place for another one.\<close>

definition access1 :: access_realm where
  "access1 = after_call (perform 2000 (user ''adm'') (ASetGrantDelay 1 864000) access0) access0"

definition access2 :: access_realm where
  "access2 = after_call (perform 500000 (user ''adm'') (ASetGrantDelay 1 0) access1) access1"

definition access3 :: access_realm where
  "access3 = after_call (perform 500001 (user ''adm'') (AGrantRole 1 ''rel'') access2) access2"

definition access4 :: access_realm where
  "access4 = after_call (perform 500002 (user ''adm'') (AGrantRole 0 ''own'') access3) access3"

definition access5 :: access_realm where
  "access5 = after_call (perform 500003 (user ''adm'') (ARenounceRole 0 ''adm'') access4) access4"

lemmas access_simps = access_defs HasRole_role_of GetRoleAdmin_role_of hasMember_def isActiveAt_def After_def
  TimePoint_IsZero_def user_def AdminRole_def PublicRole_def isLastAdmin_role_of last_admin_def

lemma access_deployed: "resetAccess 1000 ''adm'' empty_access = Inr ((), access0)"
  by (simp add: access0_def after_call_def resetAccess_def setupRoles_def state_GrantRole_def
      RequireUnlockedConfigRole_def AdminRole_def PublicRole_def RelayerRole_def Let_def split: prod.splits)

lemmas access_roles0 = reset_admin [OF access_deployed, unfolded NewRoleConfig_def NewDelay_def NewAccessWithDelay_def
  TimePoint_IsZero_def AdminRole_def, simplified]

lemma access_step1: "perform 2000 (user ''adm'') (ASetGrantDelay 1 864000) access0 = Inr access1"
  unfolding access1_def by (rule after_callI) (simp add: access_simps access_roles0)

lemmas access_change_simps = setGrantDelay_def WithUpdate_def delay_Get_def After_def MinSetback_def role_grant_def
  NewAccessWithDelay_def TimePoint_IsZero_def

lemmas access_roles1 = perform_roles(2) [OF access_step1, simplified access_roles0, simplified access_change_simps change_role.simps change_of.simps, simplified]

lemma access_step2: "perform 500000 (user ''adm'') (ASetGrantDelay 1 0) access1 = Inr access2"
  unfolding access2_def by (rule after_callI) (simp add: access_simps access_roles1)

lemmas access_roles2 = perform_roles(2) [OF access_step2, simplified access_roles1, simplified access_change_simps change_role.simps change_of.simps, simplified]

lemma access_step3: "perform 500001 (user ''adm'') (AGrantRole 1 ''rel'') access2 = Inr access3"
  unfolding access3_def by (rule after_callI) (simp add: access_simps access_roles2 split: prod.splits)

lemmas access_roles3 = perform_roles(2) [OF access_step3, simplified access_roles2, simplified access_change_simps change_role.simps change_of.simps, simplified]

lemma access_step4: "perform 500002 (user ''adm'') (AGrantRole 0 ''own'') access3 = Inr access4"
  unfolding access4_def by (rule after_callI) (simp add: access_simps access_roles3 split: prod.splits)

lemmas access_roles4 = perform_roles(2) [OF access_step4, simplified access_roles3, simplified access_change_simps change_role.simps change_of.simps, simplified]

lemma access_step5: "perform 500003 (user ''adm'') (ARenounceRole 0 ''adm'') access4 = Inr access5"
  unfolding access5_def by (rule after_callI) (simp add: access_simps access_roles4 split: prod.splits)

lemma run_to_4: "access_run 1000 access0 500002 access4"
proof -
  have "access_run 1000 access0 2000 access1" by (rule access_run.commits [OF access_run.start _ access_step1]) simp
  then have "access_run 1000 access0 500000 access2" by (rule access_run.commits [OF _ _ access_step2]) simp
  then have "access_run 1000 access0 500001 access3" by (rule access_run.commits [OF _ _ access_step3]) simp
  then show ?thesis by (rule access_run.commits [OF _ _ access_step4]) simp
qed

lemma run_to_5: "access_run 1000 access0 500003 access5"
  by (rule access_run.commits [OF run_to_4 _ access_step5]) simp

lemma relayer_run: "access_run 500000 access2 1364001 access3"
  by (rule access_run.waits [OF access_run.commits [OF access_run.start _ access_step3]]) simp_all

lemma relayer_holds: "HasRole (accessState access3) 1364001 1 ''rel''"
  by (simp add: access_simps access_roles3)

lemma relayer_fresh: "GetRoleMemberSince (accessState access2) 1 ''rel'' = 0"
  by (simp add: GetRoleMemberSince_member member_since_def access_roles2)

theorem admin_remains_witness: "\<exists>x. HasRole (accessState access5) 500003 AdminRole x"
  using admin_remains [OF access_deployed _ run_to_5] by simp

theorem grant_delay_protects_witness:
  "GetRoleGrantDelay (accessState access1) 500000 1 = 864000 \<and> (500000 :: int) + 864000 \<le> 1364001"
proof -
  have delay: "GetRoleGrantDelay (accessState access1) 500000 1 = 864000"
    by (simp add: GetRoleGrantDelay_role_of access_roles1 delay_Get_def After_def)
  have "SetGrantDelay 500000 (user ''adm'') 1 0 access1 = Inr ((), access2)"
    using access_step2 by (cases "SetGrantDelay 500000 (user ''adm'') 1 0 access1") auto
  from grant_delay_protects [OF this relayer_run relayer_holds _ relayer_fresh] show ?thesis
    using delay by (simp add: PublicRole_def)
qed

theorem deployed_calls_witness: "CanCall (accessState access0) 2000 ''adm'' CoreRealmPath ''update_impl''"
  using deployed_calls [OF access_deployed, of 2000] by (simp add: RelayerSelectors_def)

end
