(* ===== verification/CoreProxy.thy ===== *)
theory CoreProxy
  imports CoreLifecycle AccessSafe "HOL-Library.Sublist"
begin

text \<open>
  The core realm as its callers see it (\<^verbatim>\<open>core/core.gno\<close>, \<^verbatim>\<open>client.gno\<close>, \<^verbatim>\<open>connection.gno\<close>, \<^verbatim>\<open>channel.gno\<close>,
  \<^verbatim>\<open>app.gno\<close>, \<^verbatim>\<open>event_config.gno\<close>): every entry point asks the access realm whether its caller may call
  it, and forwards to the implementation that the administration has installed (\<^verbatim>\<open>upgrade.gno\<close>).
\<close>

section \<open>Selectors (access.gno)\<close>

definition SelectorUpdateImpl :: Selector where "SelectorUpdateImpl = ''update_impl''"
definition SelectorForceUpdateClient :: Selector where "SelectorForceUpdateClient = ''force_update_client''"
definition SelectorForceConnectionTry :: Selector where "SelectorForceConnectionTry = ''force_connection_open_try''"
definition SelectorForceConnectionAck :: Selector where "SelectorForceConnectionAck = ''force_connection_open_ack''"
definition SelectorForceConnectionConfirm :: Selector where
  "SelectorForceConnectionConfirm = ''force_connection_open_confirm''"
definition SelectorForceChannelTry :: Selector where "SelectorForceChannelTry = ''force_channel_open_try''"
definition SelectorForceChannelAck :: Selector where "SelectorForceChannelAck = ''force_channel_open_ack''"
definition SelectorForceChannelConfirm :: Selector where "SelectorForceChannelConfirm = ''force_channel_open_confirm''"
definition SelectorChannelCloseInit :: Selector where "SelectorChannelCloseInit = ''channel_close_init''"
definition SelectorChannelCloseConfirm :: Selector where "SelectorChannelCloseConfirm = ''channel_close_confirm''"
definition SelectorCommitMembershipProof :: Selector where "SelectorCommitMembershipProof = ''commit_membership_proof''"
definition SelectorCommitNonMembershipProof :: Selector where
  "SelectorCommitNonMembershipProof = ''commit_non_membership_proof''"
definition SelectorSetEventConfig :: Selector where "SelectorSetEventConfig = ''set_event_config''"
definition SelectorRegisterClient :: Selector where "SelectorRegisterClient = ''register_client''"
definition SelectorCreateClient :: Selector where "SelectorCreateClient = ''create_client''"
definition SelectorUpdateClient :: Selector where "SelectorUpdateClient = ''update_client''"
definition SelectorMisbehaviour :: Selector where "SelectorMisbehaviour = ''misbehaviour''"
definition SelectorConnectionOpenInit :: Selector where "SelectorConnectionOpenInit = ''connection_open_init''"
definition SelectorConnectionOpenTry :: Selector where "SelectorConnectionOpenTry = ''connection_open_try''"
definition SelectorConnectionOpenAck :: Selector where "SelectorConnectionOpenAck = ''connection_open_ack''"
definition SelectorConnectionOpenConfirm :: Selector where "SelectorConnectionOpenConfirm = ''connection_open_confirm''"
definition SelectorChannelOpenInit :: Selector where "SelectorChannelOpenInit = ''channel_open_init''"
definition SelectorChannelOpenTry :: Selector where "SelectorChannelOpenTry = ''channel_open_try''"
definition SelectorChannelOpenAck :: Selector where "SelectorChannelOpenAck = ''channel_open_ack''"
definition SelectorChannelOpenConfirm :: Selector where "SelectorChannelOpenConfirm = ''channel_open_confirm''"
definition SelectorPacketRecv :: Selector where "SelectorPacketRecv = ''packet_recv''"
definition SelectorIntentPacketRecv :: Selector where "SelectorIntentPacketRecv = ''intent_packet_recv''"
definition SelectorPacketAck :: Selector where "SelectorPacketAck = ''packet_ack''"
definition SelectorPacketTimeout :: Selector where "SelectorPacketTimeout = ''packet_timeout''"
definition SelectorBatchSend :: Selector where "SelectorBatchSend = ''batch_send''"
definition SelectorBatchAcks :: Selector where "SelectorBatchAcks = ''batch_acks''"

lemmas selector_defs = SelectorUpdateImpl_def SelectorForceUpdateClient_def SelectorForceConnectionTry_def
  SelectorForceConnectionAck_def SelectorForceConnectionConfirm_def SelectorForceChannelTry_def SelectorForceChannelAck_def
  SelectorForceChannelConfirm_def SelectorChannelCloseInit_def SelectorChannelCloseConfirm_def
  SelectorCommitMembershipProof_def SelectorCommitNonMembershipProof_def SelectorSetEventConfig_def
  SelectorRegisterClient_def SelectorCreateClient_def SelectorUpdateClient_def SelectorMisbehaviour_def
  SelectorConnectionOpenInit_def SelectorConnectionOpenTry_def SelectorConnectionOpenAck_def
  SelectorConnectionOpenConfirm_def SelectorChannelOpenInit_def SelectorChannelOpenTry_def SelectorChannelOpenAck_def
  SelectorChannelOpenConfirm_def SelectorPacketRecv_def SelectorIntentPacketRecv_def SelectorPacketAck_def
  SelectorPacketTimeout_def SelectorBatchSend_def SelectorBatchAcks_def

section \<open>The state of the proxy (upgrade.gno)\<close>

text \<open>The two readings of the block time: \<^verbatim>\<open>time.Now().Unix()\<close> for the access realm, \<^verbatim>\<open>UnixNano\<close> for the
  host.\<close>

record block =
  block_Unix :: TimePoint
  block_UnixNano :: u64

text \<open>An implementation is what it does with a call. A constructor gets the proxy's only store, so it is
  the implementation it returns, acting on that store.\<close>

type_synonym ('t, 'lc, 'app, 'w) impl =
  "realm \<Rightarrow> u64 \<Rightarrow> ('lc, 'app) core_call \<Rightarrow> (('t, 'lc, 'app, 'w) core, unit) comp"

record ('t, 'lc, 'app, 'w) proxy =
  store :: "('t, 'lc, 'app, 'w) core"
  currentImplPath :: string
  currentImpl :: "('t, 'lc, 'app, 'w) impl option"
  implConstructors :: "string \<rightharpoonup> ('t, 'lc, 'app, 'w) impl"

datatype proxy_error =
    AccessError access_error | CoreError core_error
  | NotUnderProxyPath | ImplAlreadyRegistered | ImplConstructorNotFound | ImplNotInstalled

type_synonym ('t, 'lc, 'app, 'w) entry = "('t, 'lc, 'app, 'w) proxy \<Rightarrow> proxy_error + ('t, 'lc, 'app, 'w) proxy"

definition proxy_init :: "('t, 'lc, 'app, 'w) env \<Rightarrow> 'w \<Rightarrow> ('t, 'lc, 'app, 'w) proxy" where
  "proxy_init E w = \<lparr>store = newStore E w, currentImplPath = [], currentImpl = None, implConstructors = Map.empty\<rparr>"

text \<open>\<^verbatim>\<open>NewCoreV1\<close>: the implementation of \<^verbatim>\<open>core/v1\<close>.\<close>

definition NewCoreV1 :: "('t, 'lc, 'app, 'w) env \<Rightarrow> ('t, 'lc, 'app, 'w) impl" where
  "NewCoreV1 E = call E"

definition RegisterImpl :: "realm \<Rightarrow> ('t, 'lc, 'app, 'w) impl \<Rightarrow> ('t, 'lc, 'app, 'w) entry" where
  "RegisterImpl rlm constructor p =
     (let previousPath = PrevPkgPath rlm in
      if \<not> prefix (PkgPath rlm @ ''/'') previousPath then Inl NotUnderProxyPath
      else case implConstructors p previousPath of
        Some _ \<Rightarrow> Inl ImplAlreadyRegistered
      | None \<Rightarrow> Inr (p\<lparr>implConstructors := (implConstructors p)(previousPath \<mapsto> constructor)\<rparr>))"

definition gated :: "access_realm \<Rightarrow> block \<Rightarrow> realm \<Rightarrow> Selector \<Rightarrow> ('t, 'lc, 'app, 'w) entry \<Rightarrow> ('t, 'lc, 'app, 'w) entry" where
  "gated A b rlm selector body p =
     (case AssertCanCall A (block_Unix b) rlm selector of Inl err \<Rightarrow> Inl (AccessError err) | Inr _ \<Rightarrow> body p)"

definition UpdateImpl :: "access_realm \<Rightarrow> block \<Rightarrow> realm \<Rightarrow> string \<Rightarrow> ('t, 'lc, 'app, 'w) entry" where
  "UpdateImpl A b rlm path =
     gated A b rlm SelectorUpdateImpl (\<lambda>p.
       case implConstructors p path of
         None \<Rightarrow> Inl ImplConstructorNotFound
       | Some constructor \<Rightarrow> Inr (p\<lparr>currentImplPath := path, currentImpl := Some constructor\<rparr>))"

definition mustGetImpl :: "('t, 'lc, 'app, 'w) proxy \<Rightarrow> proxy_error + ('t, 'lc, 'app, 'w) impl" where
  "mustGetImpl p = (case currentImpl p of None \<Rightarrow> Inl ImplNotInstalled | Some impl \<Rightarrow> Inr impl)"

definition onStore :: "(('t, 'lc, 'app, 'w) core, unit) comp \<Rightarrow> ('t, 'lc, 'app, 'w) entry" where
  "onStore m p = (case m (store p) of Inl e \<Rightarrow> Inl (CoreError e) | Inr (_, s) \<Rightarrow> Inr (p\<lparr>store := s\<rparr>))"

definition delegate :: "block \<Rightarrow> realm \<Rightarrow> ('lc, 'app) core_call \<Rightarrow> ('t, 'lc, 'app, 'w) entry" where
  "delegate b rlm c p =
     (case mustGetImpl p of Inl err \<Rightarrow> Inl err | Inr impl \<Rightarrow> onStore (impl rlm (block_UnixNano b) c) p)"

section \<open>Entry points (client.gno, connection.gno, channel.gno, core.gno, app.gno)\<close>

definition proxy_RegisterClient :: "access_realm \<Rightarrow> block \<Rightarrow> realm \<Rightarrow> ClientType \<Rightarrow> 'lc ClientImpl option \<Rightarrow> ('t, 'lc, 'app, 'w) entry" where
  "proxy_RegisterClient A b rlm typ impl = gated A b rlm SelectorRegisterClient (delegate b rlm (CRegisterClient typ impl))"

definition proxy_CreateClient :: "access_realm \<Rightarrow> block \<Rightarrow> realm \<Rightarrow> MsgCreateClient \<Rightarrow> ('t, 'lc, 'app, 'w) entry" where
  "proxy_CreateClient A b rlm m = gated A b rlm SelectorCreateClient (delegate b rlm (CCreateClient m))"

definition proxy_UpdateClient :: "access_realm \<Rightarrow> block \<Rightarrow> realm \<Rightarrow> MsgUpdateClient \<Rightarrow> ('t, 'lc, 'app, 'w) entry" where
  "proxy_UpdateClient A b rlm m = gated A b rlm SelectorUpdateClient (delegate b rlm (CUpdateClient m))"

definition proxy_ForceUpdateClient :: "access_realm \<Rightarrow> block \<Rightarrow> realm \<Rightarrow> MsgForceUpdateClient \<Rightarrow> ('t, 'lc, 'app, 'w) entry" where
  "proxy_ForceUpdateClient A b rlm m = gated A b rlm SelectorForceUpdateClient (delegate b rlm (CForceUpdateClient m))"

definition proxy_Misbehaviour :: "access_realm \<Rightarrow> block \<Rightarrow> realm \<Rightarrow> MsgMisbehaviour \<Rightarrow> ('t, 'lc, 'app, 'w) entry" where
  "proxy_Misbehaviour A b rlm m = gated A b rlm SelectorMisbehaviour (delegate b rlm (CMisbehaviour m))"

definition proxy_ConnectionOpenInit :: "access_realm \<Rightarrow> block \<Rightarrow> realm \<Rightarrow> MsgConnectionOpenInit \<Rightarrow> ('t, 'lc, 'app, 'w) entry" where
  "proxy_ConnectionOpenInit A b rlm m = gated A b rlm SelectorConnectionOpenInit (delegate b rlm (CConnectionOpenInit m))"

definition proxy_ConnectionOpenTry :: "access_realm \<Rightarrow> block \<Rightarrow> realm \<Rightarrow> MsgConnectionOpenTry \<Rightarrow> ('t, 'lc, 'app, 'w) entry" where
  "proxy_ConnectionOpenTry A b rlm m = gated A b rlm SelectorConnectionOpenTry (delegate b rlm (CConnectionOpenTry m))"

definition proxy_ForceConnectionOpenTry :: "access_realm \<Rightarrow> block \<Rightarrow> realm \<Rightarrow> MsgConnectionOpenTry \<Rightarrow> ('t, 'lc, 'app, 'w) entry" where
  "proxy_ForceConnectionOpenTry A b rlm m = gated A b rlm SelectorForceConnectionTry (delegate b rlm (CForceConnectionOpenTry m))"

definition proxy_ConnectionOpenAck :: "access_realm \<Rightarrow> block \<Rightarrow> realm \<Rightarrow> MsgConnectionOpenAck \<Rightarrow> ('t, 'lc, 'app, 'w) entry" where
  "proxy_ConnectionOpenAck A b rlm m = gated A b rlm SelectorConnectionOpenAck (delegate b rlm (CConnectionOpenAck m))"

definition proxy_ForceConnectionOpenAck :: "access_realm \<Rightarrow> block \<Rightarrow> realm \<Rightarrow> MsgConnectionOpenAck \<Rightarrow> ('t, 'lc, 'app, 'w) entry" where
  "proxy_ForceConnectionOpenAck A b rlm m = gated A b rlm SelectorForceConnectionAck (delegate b rlm (CForceConnectionOpenAck m))"

definition proxy_ConnectionOpenConfirm :: "access_realm \<Rightarrow> block \<Rightarrow> realm \<Rightarrow> MsgConnectionOpenConfirm \<Rightarrow> ('t, 'lc, 'app, 'w) entry" where
  "proxy_ConnectionOpenConfirm A b rlm m = gated A b rlm SelectorConnectionOpenConfirm (delegate b rlm (CConnectionOpenConfirm m))"

definition proxy_ForceConnectionOpenConfirm :: "access_realm \<Rightarrow> block \<Rightarrow> realm \<Rightarrow> MsgConnectionOpenConfirm \<Rightarrow> ('t, 'lc, 'app, 'w) entry" where
  "proxy_ForceConnectionOpenConfirm A b rlm m = gated A b rlm SelectorForceConnectionConfirm (delegate b rlm (CForceConnectionOpenConfirm m))"

definition proxy_ChannelOpenInit :: "access_realm \<Rightarrow> block \<Rightarrow> realm \<Rightarrow> MsgChannelOpenInit \<Rightarrow> ('t, 'lc, 'app, 'w) entry" where
  "proxy_ChannelOpenInit A b rlm m = gated A b rlm SelectorChannelOpenInit (delegate b rlm (CChannelOpenInit m))"

definition proxy_ChannelOpenTry :: "access_realm \<Rightarrow> block \<Rightarrow> realm \<Rightarrow> MsgChannelOpenTry \<Rightarrow> ('t, 'lc, 'app, 'w) entry" where
  "proxy_ChannelOpenTry A b rlm m = gated A b rlm SelectorChannelOpenTry (delegate b rlm (CChannelOpenTry m))"

definition proxy_ForceChannelOpenTry :: "access_realm \<Rightarrow> block \<Rightarrow> realm \<Rightarrow> MsgChannelOpenTry \<Rightarrow> ('t, 'lc, 'app, 'w) entry" where
  "proxy_ForceChannelOpenTry A b rlm m = gated A b rlm SelectorForceChannelTry (delegate b rlm (CForceChannelOpenTry m))"

definition proxy_ChannelOpenAck :: "access_realm \<Rightarrow> block \<Rightarrow> realm \<Rightarrow> MsgChannelOpenAck \<Rightarrow> ('t, 'lc, 'app, 'w) entry" where
  "proxy_ChannelOpenAck A b rlm m = gated A b rlm SelectorChannelOpenAck (delegate b rlm (CChannelOpenAck m))"

definition proxy_ForceChannelOpenAck :: "access_realm \<Rightarrow> block \<Rightarrow> realm \<Rightarrow> MsgChannelOpenAck \<Rightarrow> ('t, 'lc, 'app, 'w) entry" where
  "proxy_ForceChannelOpenAck A b rlm m = gated A b rlm SelectorForceChannelAck (delegate b rlm (CForceChannelOpenAck m))"

definition proxy_ChannelOpenConfirm :: "access_realm \<Rightarrow> block \<Rightarrow> realm \<Rightarrow> MsgChannelOpenConfirm \<Rightarrow> ('t, 'lc, 'app, 'w) entry" where
  "proxy_ChannelOpenConfirm A b rlm m = gated A b rlm SelectorChannelOpenConfirm (delegate b rlm (CChannelOpenConfirm m))"

definition proxy_ForceChannelOpenConfirm :: "access_realm \<Rightarrow> block \<Rightarrow> realm \<Rightarrow> MsgChannelOpenConfirm \<Rightarrow> ('t, 'lc, 'app, 'w) entry" where
  "proxy_ForceChannelOpenConfirm A b rlm m = gated A b rlm SelectorForceChannelConfirm (delegate b rlm (CForceChannelOpenConfirm m))"

definition proxy_ChannelCloseInit :: "access_realm \<Rightarrow> block \<Rightarrow> realm \<Rightarrow> MsgChannelCloseInit \<Rightarrow> ('t, 'lc, 'app, 'w) entry" where
  "proxy_ChannelCloseInit A b rlm m = gated A b rlm SelectorChannelCloseInit (delegate b rlm (CChannelCloseInit m))"

definition proxy_ChannelCloseConfirm :: "access_realm \<Rightarrow> block \<Rightarrow> realm \<Rightarrow> MsgChannelCloseConfirm \<Rightarrow> ('t, 'lc, 'app, 'w) entry" where
  "proxy_ChannelCloseConfirm A b rlm m = gated A b rlm SelectorChannelCloseConfirm (delegate b rlm (CChannelCloseConfirm m))"

definition proxy_SendPacket :: "block \<Rightarrow> realm \<Rightarrow> ChannelId \<Rightarrow> Timestamp \<Rightarrow> bytes \<Rightarrow> ('t, 'lc, 'app, 'w) entry" where
  "proxy_SendPacket b rlm channel timeout data = delegate b rlm (CSendPacket channel timeout data)"

definition proxy_PacketRecv :: "access_realm \<Rightarrow> block \<Rightarrow> realm \<Rightarrow> MsgPacketRecv \<Rightarrow> ('t, 'lc, 'app, 'w) entry" where
  "proxy_PacketRecv A b rlm m = gated A b rlm SelectorPacketRecv (delegate b rlm (CPacketRecv m))"

definition proxy_IntentPacketRecv :: "access_realm \<Rightarrow> block \<Rightarrow> realm \<Rightarrow> MsgIntentPacketRecv \<Rightarrow> ('t, 'lc, 'app, 'w) entry" where
  "proxy_IntentPacketRecv A b rlm m = gated A b rlm SelectorIntentPacketRecv (delegate b rlm (CIntentPacketRecv m))"

definition proxy_PacketAcknowledgement :: "access_realm \<Rightarrow> block \<Rightarrow> realm \<Rightarrow> MsgPacketAcknowledgement \<Rightarrow> ('t, 'lc, 'app, 'w) entry" where
  "proxy_PacketAcknowledgement A b rlm m = gated A b rlm SelectorPacketAck (delegate b rlm (CPacketAcknowledgement m))"

definition proxy_PacketTimeout :: "access_realm \<Rightarrow> block \<Rightarrow> realm \<Rightarrow> MsgPacketTimeout \<Rightarrow> ('t, 'lc, 'app, 'w) entry" where
  "proxy_PacketTimeout A b rlm m = gated A b rlm SelectorPacketTimeout (delegate b rlm (CPacketTimeout m))"

definition proxy_CommitMembershipProof :: "access_realm \<Rightarrow> block \<Rightarrow> realm \<Rightarrow> MsgCommitMembershipProof \<Rightarrow> ('t, 'lc, 'app, 'w) entry" where
  "proxy_CommitMembershipProof A b rlm m = gated A b rlm SelectorCommitMembershipProof (delegate b rlm (CCommitMembershipProof m))"

definition proxy_CommitNonMembershipProof :: "access_realm \<Rightarrow> block \<Rightarrow> realm \<Rightarrow> MsgCommitNonMembershipProof \<Rightarrow> ('t, 'lc, 'app, 'w) entry" where
  "proxy_CommitNonMembershipProof A b rlm m = gated A b rlm SelectorCommitNonMembershipProof (delegate b rlm (CCommitNonMembershipProof m))"

definition proxy_BatchSend :: "access_realm \<Rightarrow> block \<Rightarrow> realm \<Rightarrow> MsgBatchSend \<Rightarrow> ('t, 'lc, 'app, 'w) entry" where
  "proxy_BatchSend A b rlm m = gated A b rlm SelectorBatchSend (delegate b rlm (CBatchSend m))"

definition proxy_BatchAcks :: "access_realm \<Rightarrow> block \<Rightarrow> realm \<Rightarrow> MsgBatchAcks \<Rightarrow> ('t, 'lc, 'app, 'w) entry" where
  "proxy_BatchAcks A b rlm m = gated A b rlm SelectorBatchAcks (delegate b rlm (CBatchAcks m))"

definition proxy_WriteAcknowledgement :: "block \<Rightarrow> realm \<Rightarrow> MsgWriteAcknowledgement \<Rightarrow> ('t, 'lc, 'app, 'w) entry" where
  "proxy_WriteAcknowledgement b rlm m = delegate b rlm (CWriteAcknowledgement m)"

definition proxy_RegisterApp :: "block \<Rightarrow> realm \<Rightarrow> 'app option \<Rightarrow> ('t, 'lc, 'app, 'w) entry" where
  "proxy_RegisterApp b rlm a = delegate b rlm (CRegisterApp a)"

section \<open>The event policy (event_config.gno)\<close>

definition proxy_setEventConfig :: "EventConfig \<Rightarrow> ('t, 'lc, 'app, 'w) entry" where
  "proxy_setEventConfig config =
     onStore (bind (lift (setEventConfig config)) (\<lambda>config. modify (\<lambda>s. s\<lparr>eventConfig := config\<rparr>)))"

definition SetEventConfig :: "access_realm \<Rightarrow> block \<Rightarrow> realm \<Rightarrow> EventConfig \<Rightarrow> ('t, 'lc, 'app, 'w) entry" where
  "SetEventConfig A b rlm config = gated A b rlm SelectorSetEventConfig (proxy_setEventConfig config)"

definition SetSplitEventAttrs :: "access_realm \<Rightarrow> block \<Rightarrow> realm \<Rightarrow> bool \<Rightarrow> ('t, 'lc, 'app, 'w) entry" where
  "SetSplitEventAttrs A b rlm splitEventAttrs =
     gated A b rlm SelectorSetEventConfig (\<lambda>p.
       proxy_setEventConfig ((eventConfig (store p))\<lparr>SplitEventAttrs := splitEventAttrs\<rparr>) p)"

definition SetMaxEventAttrValueLen :: "access_realm \<Rightarrow> block \<Rightarrow> realm \<Rightarrow> u64 \<Rightarrow> ('t, 'lc, 'app, 'w) entry" where
  "SetMaxEventAttrValueLen A b rlm maxEventAttrValueLen =
     gated A b rlm SelectorSetEventConfig (\<lambda>p.
       proxy_setEventConfig ((eventConfig (store p))\<lparr>MaxEventAttrValueLen := maxEventAttrValueLen\<rparr>) p)"

definition SetMaxEventAttrPairs :: "access_realm \<Rightarrow> block \<Rightarrow> realm \<Rightarrow> u64 \<Rightarrow> ('t, 'lc, 'app, 'w) entry" where
  "SetMaxEventAttrPairs A b rlm maxEventAttrPairs =
     gated A b rlm SelectorSetEventConfig (\<lambda>p.
       proxy_setEventConfig ((eventConfig (store p))\<lparr>MaxEventAttrPairs := maxEventAttrPairs\<rparr>) p)"

section \<open>All calls\<close>

fun enter :: "access_realm \<Rightarrow> block \<Rightarrow> realm \<Rightarrow> ('lc, 'app) core_call \<Rightarrow> ('t, 'lc, 'app, 'w) entry" where
  "enter A b rlm (CRegisterClient typ impl) = proxy_RegisterClient A b rlm typ impl"
| "enter A b rlm (CCreateClient m) = proxy_CreateClient A b rlm m"
| "enter A b rlm (CUpdateClient m) = proxy_UpdateClient A b rlm m"
| "enter A b rlm (CForceUpdateClient m) = proxy_ForceUpdateClient A b rlm m"
| "enter A b rlm (CMisbehaviour m) = proxy_Misbehaviour A b rlm m"
| "enter A b rlm (CConnectionOpenInit m) = proxy_ConnectionOpenInit A b rlm m"
| "enter A b rlm (CConnectionOpenTry m) = proxy_ConnectionOpenTry A b rlm m"
| "enter A b rlm (CForceConnectionOpenTry m) = proxy_ForceConnectionOpenTry A b rlm m"
| "enter A b rlm (CConnectionOpenAck m) = proxy_ConnectionOpenAck A b rlm m"
| "enter A b rlm (CForceConnectionOpenAck m) = proxy_ForceConnectionOpenAck A b rlm m"
| "enter A b rlm (CConnectionOpenConfirm m) = proxy_ConnectionOpenConfirm A b rlm m"
| "enter A b rlm (CForceConnectionOpenConfirm m) = proxy_ForceConnectionOpenConfirm A b rlm m"
| "enter A b rlm (CChannelOpenInit m) = proxy_ChannelOpenInit A b rlm m"
| "enter A b rlm (CChannelOpenTry m) = proxy_ChannelOpenTry A b rlm m"
| "enter A b rlm (CForceChannelOpenTry m) = proxy_ForceChannelOpenTry A b rlm m"
| "enter A b rlm (CChannelOpenAck m) = proxy_ChannelOpenAck A b rlm m"
| "enter A b rlm (CForceChannelOpenAck m) = proxy_ForceChannelOpenAck A b rlm m"
| "enter A b rlm (CChannelOpenConfirm m) = proxy_ChannelOpenConfirm A b rlm m"
| "enter A b rlm (CForceChannelOpenConfirm m) = proxy_ForceChannelOpenConfirm A b rlm m"
| "enter A b rlm (CChannelCloseInit m) = proxy_ChannelCloseInit A b rlm m"
| "enter A b rlm (CChannelCloseConfirm m) = proxy_ChannelCloseConfirm A b rlm m"
| "enter A b rlm (CSendPacket channel timeout data) = proxy_SendPacket b rlm channel timeout data"
| "enter A b rlm (CPacketRecv m) = proxy_PacketRecv A b rlm m"
| "enter A b rlm (CIntentPacketRecv m) = proxy_IntentPacketRecv A b rlm m"
| "enter A b rlm (CPacketAcknowledgement m) = proxy_PacketAcknowledgement A b rlm m"
| "enter A b rlm (CPacketTimeout m) = proxy_PacketTimeout A b rlm m"
| "enter A b rlm (CCommitMembershipProof m) = proxy_CommitMembershipProof A b rlm m"
| "enter A b rlm (CCommitNonMembershipProof m) = proxy_CommitNonMembershipProof A b rlm m"
| "enter A b rlm (CBatchSend m) = proxy_BatchSend A b rlm m"
| "enter A b rlm (CBatchAcks m) = proxy_BatchAcks A b rlm m"
| "enter A b rlm (CWriteAcknowledgement m) = proxy_WriteAcknowledgement b rlm m"
| "enter A b rlm (CRegisterApp a) = proxy_RegisterApp b rlm a"
| "enter A b rlm (CSetEventConfig config) = SetEventConfig A b rlm config"

text \<open>The selector each entry point asks for; none where the implementation checks its caller itself.\<close>

fun gate :: "('lc, 'app) core_call \<Rightarrow> Selector option" where
  "gate (CRegisterClient typ impl) = Some SelectorRegisterClient"
| "gate (CCreateClient m) = Some SelectorCreateClient"
| "gate (CUpdateClient m) = Some SelectorUpdateClient"
| "gate (CForceUpdateClient m) = Some SelectorForceUpdateClient"
| "gate (CMisbehaviour m) = Some SelectorMisbehaviour"
| "gate (CConnectionOpenInit m) = Some SelectorConnectionOpenInit"
| "gate (CConnectionOpenTry m) = Some SelectorConnectionOpenTry"
| "gate (CForceConnectionOpenTry m) = Some SelectorForceConnectionTry"
| "gate (CConnectionOpenAck m) = Some SelectorConnectionOpenAck"
| "gate (CForceConnectionOpenAck m) = Some SelectorForceConnectionAck"
| "gate (CConnectionOpenConfirm m) = Some SelectorConnectionOpenConfirm"
| "gate (CForceConnectionOpenConfirm m) = Some SelectorForceConnectionConfirm"
| "gate (CChannelOpenInit m) = Some SelectorChannelOpenInit"
| "gate (CChannelOpenTry m) = Some SelectorChannelOpenTry"
| "gate (CForceChannelOpenTry m) = Some SelectorForceChannelTry"
| "gate (CChannelOpenAck m) = Some SelectorChannelOpenAck"
| "gate (CForceChannelOpenAck m) = Some SelectorForceChannelAck"
| "gate (CChannelOpenConfirm m) = Some SelectorChannelOpenConfirm"
| "gate (CForceChannelOpenConfirm m) = Some SelectorForceChannelConfirm"
| "gate (CChannelCloseInit m) = Some SelectorChannelCloseInit"
| "gate (CChannelCloseConfirm m) = Some SelectorChannelCloseConfirm"
| "gate (CSendPacket channel timeout data) = None"
| "gate (CPacketRecv m) = Some SelectorPacketRecv"
| "gate (CIntentPacketRecv m) = Some SelectorIntentPacketRecv"
| "gate (CPacketAcknowledgement m) = Some SelectorPacketAck"
| "gate (CPacketTimeout m) = Some SelectorPacketTimeout"
| "gate (CCommitMembershipProof m) = Some SelectorCommitMembershipProof"
| "gate (CCommitNonMembershipProof m) = Some SelectorCommitNonMembershipProof"
| "gate (CBatchSend m) = Some SelectorBatchSend"
| "gate (CBatchAcks m) = Some SelectorBatchAcks"
| "gate (CWriteAcknowledgement m) = None"
| "gate (CRegisterApp a) = None"
| "gate (CSetEventConfig config) = Some SelectorSetEventConfig"

lemmas entry_defs = proxy_RegisterClient_def proxy_CreateClient_def proxy_UpdateClient_def proxy_ForceUpdateClient_def proxy_Misbehaviour_def proxy_ConnectionOpenInit_def proxy_ConnectionOpenTry_def proxy_ForceConnectionOpenTry_def proxy_ConnectionOpenAck_def proxy_ForceConnectionOpenAck_def proxy_ConnectionOpenConfirm_def proxy_ForceConnectionOpenConfirm_def proxy_ChannelOpenInit_def proxy_ChannelOpenTry_def proxy_ForceChannelOpenTry_def proxy_ChannelOpenAck_def proxy_ForceChannelOpenAck_def proxy_ChannelOpenConfirm_def proxy_ForceChannelOpenConfirm_def proxy_ChannelCloseInit_def proxy_ChannelCloseConfirm_def proxy_SendPacket_def proxy_PacketRecv_def proxy_IntentPacketRecv_def proxy_PacketAcknowledgement_def proxy_PacketTimeout_def proxy_CommitMembershipProof_def proxy_CommitNonMembershipProof_def proxy_BatchSend_def proxy_BatchAcks_def proxy_WriteAcknowledgement_def proxy_RegisterApp_def SetEventConfig_def

end
