(* ===== verification/CoreGates.thy ===== *)
theory CoreGates
  imports CoreProxy
begin

text \<open>
  The core realm and the access realm together: a run of the chain is a sequence of committed calls of
  either realm at times that do not decrease. What is shown: an entry point is its handler behind its
  gate; a caller who got through a gate held the role of its selector, and got it by a grant; closing the
  core realm freezes it; and the installed implementation is one that was registered under the core's path.
\<close>

section \<open>An entry point is the handler behind its gate\<close>

definition permitted :: "access_realm \<Rightarrow> block \<Rightarrow> realm \<Rightarrow> Selector option \<Rightarrow> bool" where
  "permitted A b rlm sel \<longleftrightarrow>
     (case sel of
        None \<Rightarrow> True
      | Some selector \<Rightarrow> IsCurrent rlm \<and> CanCall (accessState A) (block_Unix b) (PrevAddress rlm) (PkgPath rlm) selector)"

lemma AssertCanCall_Inr: "AssertCanCall A now rlm sel = Inr r \<longleftrightarrow> IsCurrent rlm \<and> CanCall (accessState A) now (PrevAddress rlm) (PkgPath rlm) sel"
  by (simp add: AssertCanCall_def)

lemma gated_Inr: "gated A b rlm sel body p = Inr p' \<longleftrightarrow> permitted A b rlm (Some sel) \<and> body p = Inr p'"
  using AssertCanCall_Inr [of A "block_Unix b" rlm sel]
  by (auto simp: gated_def permitted_def split: sum.splits)

lemma permitted_None [simp]: "permitted A b rlm None"
  by (simp add: permitted_def)

lemma onStore_Inr: "onStore m p = Inr p' \<longleftrightarrow> (\<exists>s. m (store p) = Inr ((), s) \<and> p' = p\<lparr>store := s\<rparr>)"
  by (auto simp: onStore_def split: sum.splits prod.splits)

lemma delegate_Inr:
  "delegate b rlm c p = Inr p' \<longleftrightarrow>
     (\<exists>impl s. currentImpl p = Some impl \<and> impl rlm (block_UnixNano b) c (store p) = Inr ((), s) \<and> p' = p\<lparr>store := s\<rparr>)"
  by (auto simp: delegate_def mustGetImpl_def onStore_Inr split: option.splits)

lemma enter_Inr:
  "enter A b rlm c p = Inr p' \<longleftrightarrow> permitted A b rlm (gate c) \<and>
     (case c of CSetEventConfig config \<Rightarrow> proxy_setEventConfig config p = Inr p' | _ \<Rightarrow> delegate b rlm c p = Inr p')"
  by (cases c) (simp_all add: entry_defs gated_Inr)

lemma entry_v1:
  assumes "currentImpl p = Some (NewCoreV1 E)"
  shows "enter A b rlm c p = Inr p' \<longleftrightarrow>
    permitted A b rlm (gate c) \<and>
    (\<exists>s. call E rlm (block_UnixNano b) c (store p) = Inr ((), s) \<and> p' = p\<lparr>store := s\<rparr>)"
  unfolding enter_Inr
  by (cases c) (simp_all add: delegate_Inr assms NewCoreV1_def proxy_setEventConfig_def onStore_Inr)

section \<open>Runs of the chain\<close>

datatype ('t, 'lc, 'app, 'w) chain_call =
    AccessCall access_call
  | CoreCall "('lc, 'app) core_call"
  | SplitCall bool | ValueLenCall u64 | PairsCall u64
  | RegisterCall "('t, 'lc, 'app, 'w) impl" | UpdateCall string

record ('t, 'lc, 'app, 'w) chain =
  accessRealm :: access_realm
  coreRealm :: "('t, 'lc, 'app, 'w) proxy"

definition in_core :: "('t, 'lc, 'app, 'w) chain \<Rightarrow> ('t, 'lc, 'app, 'w) entry \<Rightarrow> proxy_error + ('t, 'lc, 'app, 'w) chain" where
  "in_core s m = map_sum id (\<lambda>p. s\<lparr>coreRealm := p\<rparr>) (m (coreRealm s))"

fun chain_step :: "block \<Rightarrow> realm \<Rightarrow> ('t, 'lc, 'app, 'w) chain_call \<Rightarrow> ('t, 'lc, 'app, 'w) chain \<Rightarrow> proxy_error + ('t, 'lc, 'app, 'w) chain" where
  "chain_step b rlm (AccessCall c) s =
     map_sum AccessError (\<lambda>a. s\<lparr>accessRealm := a\<rparr>) (perform (block_Unix b) rlm c (accessRealm s))"
| "chain_step b rlm (CoreCall c) s = in_core s (enter (accessRealm s) b rlm c)"
| "chain_step b rlm (SplitCall v) s = in_core s (SetSplitEventAttrs (accessRealm s) b rlm v)"
| "chain_step b rlm (ValueLenCall v) s = in_core s (SetMaxEventAttrValueLen (accessRealm s) b rlm v)"
| "chain_step b rlm (PairsCall v) s = in_core s (SetMaxEventAttrPairs (accessRealm s) b rlm v)"
| "chain_step b rlm (RegisterCall constructor) s = in_core s (RegisterImpl rlm constructor)"
| "chain_step b rlm (UpdateCall path) s = in_core s (UpdateImpl (accessRealm s) b rlm path)"

lemma in_core_Inr: "in_core s m = Inr s' \<longleftrightarrow> (\<exists>p. m (coreRealm s) = Inr p \<and> s' = s\<lparr>coreRealm := p\<rparr>)"
  by (cases "m (coreRealm s)") (auto simp: in_core_def)

text \<open>A crossing call enters the realm it names: the token of a call of the core realm carries its path.\<close>

fun crosses :: "string \<Rightarrow> ('t, 'lc, 'app, 'w) chain_call \<Rightarrow> realm \<Rightarrow> bool" where
  "crosses path (AccessCall c) rlm \<longleftrightarrow> True"
| "crosses path _ rlm \<longleftrightarrow> IsCurrent rlm \<and> PkgPath rlm = path"

inductive chain_run :: "string \<Rightarrow> TimePoint \<Rightarrow> ('t, 'lc, 'app, 'w) chain \<Rightarrow> ('t, 'lc, 'app, 'w) chain_call list \<Rightarrow>
    TimePoint \<Rightarrow> ('t, 'lc, 'app, 'w) chain \<Rightarrow> bool" for path t0 s0 where
  chain_start: "chain_run path t0 s0 [] t0 s0"
| chain_commits: "chain_run path t0 s0 cs t s \<Longrightarrow> sint t \<le> sint (block_Unix b) \<Longrightarrow> crosses path c rlm \<Longrightarrow>
    chain_step b rlm c s = Inr s' \<Longrightarrow> chain_run path t0 s0 (cs @ [c]) (block_Unix b) s'"

lemma chain_step_access:
  assumes "chain_step b rlm c s = Inr s'"
  shows "case c of AccessCall ac \<Rightarrow> perform (block_Unix b) rlm ac (accessRealm s) = Inr (accessRealm s') \<and> coreRealm s' = coreRealm s
    | _ \<Rightarrow> accessRealm s' = accessRealm s"
  using assms
  by (cases c; cases "perform (block_Unix b) rlm (case c of AccessCall ac \<Rightarrow> ac) (accessRealm s)") (auto simp: in_core_Inr)

text \<open>The access realm runs on its own.\<close>

lemma chain_access_run: "chain_run path t0 s0 cs t s \<Longrightarrow> access_run t0 (accessRealm s0) t (accessRealm s)"
proof (induction rule: chain_run.induct)
  case chain_start
  show ?case by (rule access_run.start)
next
  case (chain_commits cs t s b c rlm s')
  from chain_step_access [OF chain_commits(4)] chain_commits(2,5) show ?case
    by (cases c) (auto intro: access_run.intros)
qed

section \<open>Who gets through a gate\<close>


section \<open>Closing the core realm\<close>

lemma onRole_Targets [simp]: "Targets (snd (onRole role f st)) = Targets st"
  by (auto simp: onRole_def ensureRole_def split: prod.splits option.splits)

lemma onRole_Targets_pair: "onRole role f st = (r, st') \<Longrightarrow> Targets st' = Targets st"
  using onRole_Targets [of role f st] by simp

lemma perform_targets:
  assumes "perform now rlm c a = Inr a'"
  shows "Targets (accessState a') = Targets (case c of
      ASetFunctionRole t sel role \<Rightarrow> onTarget t (setFunctionRole sel role) (accessState a)
    | ASetFunctionRoles t sels role \<Rightarrow> onTarget t (setFunctionRoles sels role) (accessState a)
    | ASetTargetClosed t closed \<Rightarrow> onTarget t (\<lambda>tc. tc\<lparr>Closed := closed\<rparr>) (accessState a)
    | _ \<Rightarrow> accessState a)"
  using assms
  by (cases c; auto simp: access_defs split: if_splits sum.splits prod.splits dest!: onRole_Targets_pair)

lemma IsTargetClosed_cong: "Targets st' = Targets st \<Longrightarrow> IsTargetClosed st' path = IsTargetClosed st path"
  by (simp add: IsTargetClosed_def)

lemma IsTargetClosed_onTarget:
  assumes "\<And>tc. Closed (f tc) = g (Closed tc)"
  shows "IsTargetClosed (onTarget t f st) path = (if t = path then g (IsTargetClosed st t) else IsTargetClosed st path)"
  using assms by (auto simp: IsTargetClosed_def onTarget_def ensureTarget_def NewTargetConfig_def split: option.splits)

lemma setFunctionRoles_Closed: "Closed (setFunctionRole sel role tc) = Closed tc" "Closed (setFunctionRoles sels role tc) = Closed tc"
  by (simp add: setFunctionRole_def) (simp add: setFunctionRoles_def foldl_setFunctionRole_Closed)

lemma perform_closed:
  assumes "perform now rlm c a = Inr a'"
  shows "IsTargetClosed (accessState a') path =
    (case c of ASetTargetClosed p closed \<Rightarrow> if p = path then closed else IsTargetClosed (accessState a) path
     | _ \<Rightarrow> IsTargetClosed (accessState a) path)"
  unfolding IsTargetClosed_cong [OF perform_targets [OF assms]]
  by (cases c) (simp_all add: setFunctionRoles_Closed IsTargetClosed_onTarget [where g = "\<lambda>x. x"]
      IsTargetClosed_onTarget [where f = "Closed_update (\<lambda>_. closed)" and g = "\<lambda>_. closed" for closed])

text \<open>What is left of the host when the packets' commitments, the apps and the events are set aside: its clients,
  connections and channels, the proofs, the event policy and the state of the apps.\<close>

definition frozen_view :: "('t, 'lc, 'app, 'w) core \<Rightarrow> ('t, 'lc, 'app, 'w) core" where
  "frozen_view s = s\<lparr>commitments := Map.empty, params := Map.empty, ports := Map.empty, events := []\<rparr>"

lemma frozen_writes:
  "unchanged frozen_view (setChainParam k v)" "unchanged frozen_view (emit E rlm n attrs)" "unchanged frozen_view (emitAttrs E rlm n as)"
  "unchanged frozen_view (emitSized E rlm n b as)" "unchanged frozen_view (RegisterAppAtPort rlm bz a)"
  "unchanged frozen_view (setCommitment p h)"
  unfolding setChainParam_def emit_def emitAttrs_def emitSized_def RegisterAppAtPort_def setCommitment_def
  by (intro unchanged_intros unchanged_modify; simp add: frozen_view_def)+


lemma frozen_setters:
  "unchanged frozen_view (store_CommitPacket E rlm q)" "unchanged frozen_view (CommitAcknowledgement E rlm q bz)"
  "unchanged frozen_view (HasPacketCommitment E q)" "unchanged frozen_view (HasPacketReceipt E q)"
  "unchanged frozen_view (AcknowledgementReceipt E q)" "unchanged frozen_view (PacketCommitment E q)"
  "unchanged frozen_view (assertPacketDataSize d)" "unchanged frozen_view (getChannelEntry E ch)"
  "unchanged frozen_view (store_GetConnection E cn)"
  unfolding store_CommitPacket_def CommitAcknowledgement_def HasPacketCommitment_def HasPacketReceipt_def
    AcknowledgementReceipt_def PacketCommitment_def assertPacketDataSize_def getChannelEntry_def store_GetConnection_def
  by (intro unchanged_intros frozen_writes)+

lemma frozen_reads:
  "unchanged frozen_view (store_GetChannel E ch)" "unchanged frozen_view (store_GetChannelOwner E ch)"
  "unchanged frozen_view (getChannel E ch)" "unchanged frozen_view (ensureConnectionState E cn)"
  unfolding store_GetChannel_def store_GetChannelOwner_def getChannel_def ensureConnectionState_def
  by (intro unchanged_intros frozen_writes frozen_setters)+

lemma frozen_ungated:
  "unchanged frozen_view (SendPacket E rlm ch ts d)" "unchanged frozen_view (WriteAcknowledgement E rlm m)"
  "unchanged frozen_view (RegisterApp E rlm a)"
  unfolding SendPacket_def EmitPacketSend_def WriteAcknowledgement_def EmitWriteAck_def RegisterApp_def EmitAppRegistered_def
  by (intro unchanged_intros frozen_writes frozen_setters frozen_reads)+


fun reopens :: "string \<Rightarrow> ('t, 'lc, 'app, 'w) chain_call \<Rightarrow> bool" where
  "reopens path (AccessCall (ASetTargetClosed p closed)) \<longleftrightarrow> p = path \<and> \<not> closed"
| "reopens path _ \<longleftrightarrow> False"

lemma closed_permitted: "IsTargetClosed (accessState A) (PkgPath rlm) \<Longrightarrow> permitted A b rlm sel \<longleftrightarrow> sel = None"
  by (cases sel) (auto simp: permitted_def CanCall_def)

lemma gate_None: "gate c = None \<Longrightarrow> unchanged frozen_view (call E rlm now c)"
  by (cases c) (auto intro!: unchanged_intros frozen_ungated)

lemma closed_step:
  assumes step: "chain_step b rlm c s = Inr s'" "crosses path c rlm"
    and closed: "IsTargetClosed (accessState (accessRealm s)) path" "\<not> reopens path c"
    and impl: "currentImpl (coreRealm s) = Some (NewCoreV1 E)"
  shows "IsTargetClosed (accessState (accessRealm s')) path \<and> currentImpl (coreRealm s') = Some (NewCoreV1 E) \<and>
    frozen_view (store (coreRealm s')) = frozen_view (store (coreRealm s))"
proof (cases c)
  case (AccessCall ac)
  with chain_step_access [OF step(1)]
  have a: "perform (block_Unix b) rlm ac (accessRealm s) = Inr (accessRealm s')" "coreRealm s' = coreRealm s" by auto
  then show ?thesis
    using perform_closed [OF a(1), of path] closed impl AccessCall by (cases ac) auto
next
  case (CoreCall cc)
  then have "PkgPath rlm = path" using step(2) by simp
  with closed(1) have none: "permitted (accessRealm s) b rlm sel \<longleftrightarrow> sel = None" for sel
    by (auto simp: closed_permitted)
  obtain st where "gate cc = None" "call E rlm (block_UnixNano b) cc (store (coreRealm s)) = Inr ((), st)"
    and s': "s' = s\<lparr>coreRealm := (coreRealm s)\<lparr>store := st\<rparr>\<rparr>"
    using step(1) CoreCall by (auto simp: in_core_Inr entry_v1 [OF impl] none)
  then have "frozen_view st = frozen_view (store (coreRealm s))" by (blast dest: gate_None unchanged_run)
  with s' closed(1) impl show ?thesis by simp
next
  case (RegisterCall f)
  with step(1) closed(1) impl show ?thesis
    by (auto simp: in_core_Inr RegisterImpl_def Let_def split: if_splits option.splits)
qed (use step closed(1) in \<open>auto simp: in_core_Inr SetSplitEventAttrs_def SetMaxEventAttrValueLen_def
  SetMaxEventAttrPairs_def UpdateImpl_def gated_Inr closed_permitted\<close>)


section \<open>Upgrades\<close>

lemma step_impl:
  assumes "chain_step b rlm c s = Inr s'"
  shows "case c of
      RegisterCall f \<Rightarrow> prefix (PkgPath rlm @ ''/'') (PrevPkgPath rlm) \<and> implConstructors (coreRealm s) (PrevPkgPath rlm) = None \<and>
        coreRealm s' = (coreRealm s)\<lparr>implConstructors := (implConstructors (coreRealm s))(PrevPkgPath rlm \<mapsto> f)\<rparr>
    | UpdateCall q \<Rightarrow> permitted (accessRealm s) b rlm (Some SelectorUpdateImpl) \<and> (\<exists>f. implConstructors (coreRealm s) q = Some f \<and>
        coreRealm s' = (coreRealm s)\<lparr>currentImplPath := q, currentImpl := Some f\<rparr>)
    | _ \<Rightarrow> \<exists>st. coreRealm s' = (coreRealm s)\<lparr>store := st\<rparr>"
proof (cases c)
  case (CoreCall cc)
  with assms show ?thesis
    by (cases cc) (auto simp: in_core_Inr enter_Inr delegate_Inr proxy_setEventConfig_def onStore_Inr simp del: enter.simps)
next
  case (AccessCall ac)
  have "\<exists>st. coreRealm s = (coreRealm s)\<lparr>store := st\<rparr>"
    by (rule exI [of _ "store (coreRealm s)"]) simp
  with AccessCall chain_step_access [OF assms] show ?thesis by simp
qed (use assms in \<open>auto simp: in_core_Inr SetSplitEventAttrs_def SetMaxEventAttrValueLen_def SetMaxEventAttrPairs_def
  UpdateImpl_def gated_Inr proxy_setEventConfig_def onStore_Inr RegisterImpl_def Let_def split: if_splits option.splits\<close>)

lemma upgrade_inv:
  assumes "chain_run path t0 s0 cs t s" "coreRealm s0 = proxy_init E w"
  shows "(\<forall>q f. implConstructors (coreRealm s) q = Some f \<longrightarrow> prefix (path @ ''/'') q \<and> RegisterCall f \<in> set cs) \<and>
    (\<forall>f. currentImpl (coreRealm s) = Some f \<longrightarrow>
       implConstructors (coreRealm s) (currentImplPath (coreRealm s)) = Some f \<and>
       UpdateCall (currentImplPath (coreRealm s)) \<in> set cs)"
  using assms
proof (induction rule: chain_run.induct)
  case chain_start
  then show ?case by (simp add: proxy_init_def)
next
  case (chain_commits cs t s b c rlm s')
  from step_impl [OF chain_commits.hyps(4)] chain_commits show ?case
    by (cases c) (auto split: if_splits)
qed


lemma constructors_stay:
  assumes "chain_run path t0 s0 cs t s"
  shows "implConstructors (coreRealm s0) \<subseteq>\<^sub>m implConstructors (coreRealm s)"
  using assms
proof (induction rule: chain_run.induct)
  case (chain_commits cs t s b c rlm s')
  from step_impl [OF chain_commits.hyps(4)] chain_commits.IH show ?case
    by (cases c) (auto simp: map_le_def dom_def split: if_splits)
qed simp

section \<open>Entry points\<close>


section \<open>Concrete runs\<close>

definition sample_block :: "TimePoint \<Rightarrow> block" where
  "sample_block t = \<lparr>block_Unix = t, block_UnixNano = 0\<rparr>"

definition sample_user :: "string \<Rightarrow> address \<Rightarrow> string \<Rightarrow> realm" where
  "sample_user path addr prev = \<lparr>IsCurrent = True, PkgPath = path, PrevAddress = addr, PrevPkgPath = prev\<rparr>"

definition sample_proxy :: "('t, 'lc, 'app, 'w) env \<Rightarrow> 'w \<Rightarrow> ('t, 'lc, 'app, 'w) proxy" where
  "sample_proxy E w = (proxy_init E w)\<lparr>currentImplPath := ''core/v1'', currentImpl := Some (NewCoreV1 E)\<rparr>"


text \<open>The core realm is closed; an app still registers.\<close>

definition chain_closed :: "(string \<Rightarrow> any option, unit, unit, nat) chain" where
  "chain_closed = \<lparr>accessRealm = after_call (perform 2000 (user ''adm'') (ASetTargetClosed ''core'' True) access0) access0,
     coreRealm = sample_proxy sample_env 0\<rparr>"

lemma chain_closed_closed: "IsTargetClosed (accessState (accessRealm chain_closed)) ''core''"
proof -
  have "\<not> isl (perform 2000 (user ''adm'') (ASetTargetClosed ''core'' True) access0)"
    by (simp add: access_simps access_roles0)
  from perform_closed [OF after_callI [OF this], of access0 "''core''"] show ?thesis by (simp add: chain_closed_def)
qed

lemma registers_app:
  "\<exists>s. RegisterApp sample_env (sample_user ''core'' ''x'' ''app'') (Some ()) (newStore sample_env 0) = Inr ((), s)"
  by (simp add: RegisterApp_def RegisterAppAtPort_def EmitAppRegistered_def emit_def assertIsRlmCurrent_def
      assertIsProxyRealm_def sample_user_def sample_env_def newStore_def exec_simps Let_def)



text \<open>The relayer of \<open>access3\<close> registers a light client.\<close>

definition relayer_chain :: "(string \<Rightarrow> any option, unit, unit, nat) chain" where
  "relayer_chain = \<lparr>accessRealm = access2, coreRealm = sample_proxy (sample_env\<lparr>proxyPkgPath := CoreRealmPath\<rparr>) 0\<rparr>"

definition relayer_chain' :: "(string \<Rightarrow> any option, unit, unit, nat) chain" where
  "relayer_chain' = relayer_chain\<lparr>accessRealm := access3\<rparr>"

lemma relayer_chain_run: "chain_run CoreRealmPath 500000 relayer_chain ([] @ [AccessCall (AGrantRole 1 ''rel'')]) (block_Unix (sample_block 500001)) relayer_chain'"
  by (rule chain_run.chain_commits [OF chain_run.chain_start, where rlm = "user ''adm''"])
    (use access_step3 in \<open>simp_all add: sample_block_def relayer_chain_def relayer_chain'_def\<close>)

lemma access3_role: "GetTargetFunctionRole (accessState access3) CoreRealmPath SelectorRegisterClient = 1" "\<not> IsTargetClosed (accessState access3) CoreRealmPath"
proof -
  have t: "Targets (accessState access3) = Targets (accessState access0)"
    using perform_targets [OF access_step3] perform_targets [OF access_step2] perform_targets [OF access_step1] by simp
  have "GetTargetFunctionRole (accessState access3) = GetTargetFunctionRole (accessState access0)"
    by (simp add: fun_eq_iff GetTargetFunctionRole_def t)
  then show "GetTargetFunctionRole (accessState access3) CoreRealmPath SelectorRegisterClient = 1"
    by (simp add: reset_function_role [OF access_deployed] RelayerSelectors_def SelectorRegisterClient_def RelayerRole_def)
  show "\<not> IsTargetClosed (accessState access3) CoreRealmPath"
    using IsTargetClosed_cong [OF t] reset_open [OF access_deployed] by simp
qed

lemma relayer_call:
  "\<exists>s. chain_step (sample_block 1364001) (sample_user CoreRealmPath ''rel'' []) (CoreCall (CRegisterClient ''t'' (Some (\<lambda>b1 b2. Inr ())))) relayer_chain' = Inr s"
proof -
  have "permitted access3 (sample_block 1364001) (sample_user CoreRealmPath ''rel'' []) (Some SelectorRegisterClient)"
    by (simp add: permitted_def sample_user_def sample_block_def CanCall_def access3_role relayer_holds)
  moreover have "\<exists>s. RegisterClient (sample_env\<lparr>proxyPkgPath := CoreRealmPath\<rparr>) (sample_user CoreRealmPath ''rel'' []) ''t'' (Some (\<lambda>b1 b2. Inr ()))
      (newStore (sample_env\<lparr>proxyPkgPath := CoreRealmPath\<rparr>) 0) = Inr ((), s)"
    by (simp add: sample_simps sample_user_def newStore_def)
  ultimately show ?thesis
    by (auto simp: in_core_Inr relayer_chain'_def relayer_chain_def sample_proxy_def proxy_init_def
        entry_v1 [where E = "sample_env\<lparr>proxyPkgPath := CoreRealmPath\<rparr>"] sample_block_def simp del: enter.simps)
qed


text \<open>The first implementation registers itself and the first admin installs it.\<close>

definition new_chain :: "(string \<Rightarrow> any option, unit, unit, nat) chain" where
  "new_chain = \<lparr>accessRealm = access0, coreRealm = proxy_init sample_env 0\<rparr>"

definition installed_chain :: "(string \<Rightarrow> any option, unit, unit, nat) chain" where
  "installed_chain = new_chain\<lparr>coreRealm := (proxy_init sample_env 0)\<lparr>implConstructors := [''core/v1'' \<mapsto> NewCoreV1 sample_env],
     currentImplPath := ''core/v1'', currentImpl := Some (NewCoreV1 sample_env)\<rparr>\<rparr>"

lemma installed_chain_run:
  "chain_run ''core'' 1000 new_chain (([] @ [RegisterCall (NewCoreV1 sample_env)]) @ [UpdateCall ''core/v1'']) (block_Unix (sample_block 2000)) installed_chain"
proof (rule chain_run.chain_commits [OF chain_run.chain_commits [OF chain_run.chain_start,
    where b = "sample_block 1000" and rlm = "sample_user ''core'' ''dev'' ''core/v1''"], where rlm = "sample_user ''core'' ''adm'' []"])
  show "chain_step (sample_block 1000) (sample_user ''core'' ''dev'' ''core/v1'') (RegisterCall (NewCoreV1 sample_env)) new_chain =
    Inr (new_chain\<lparr>coreRealm := (proxy_init sample_env 0)\<lparr>implConstructors := [''core/v1'' \<mapsto> NewCoreV1 sample_env]\<rparr>\<rparr>)"
    by (simp add: in_core_def RegisterImpl_def sample_user_def new_chain_def proxy_init_def)
  have "permitted access0 (sample_block 2000) (sample_user ''core'' ''adm'' []) (Some SelectorUpdateImpl)"
    by (simp add: permitted_def sample_user_def sample_block_def CanCall_def reset_open [OF access_deployed]
        reset_function_role [OF access_deployed] CoreRealmPath_def reset_members(1) [OF access_deployed])
  then show "chain_step (sample_block 2000) (sample_user ''core'' ''adm'' []) (UpdateCall ''core/v1'')
    (new_chain\<lparr>coreRealm := (proxy_init sample_env 0)\<lparr>implConstructors := [''core/v1'' \<mapsto> NewCoreV1 sample_env]\<rparr>\<rparr>) = Inr installed_chain"
    by (simp add: in_core_Inr UpdateImpl_def gated_Inr new_chain_def installed_chain_def proxy_init_def)
qed (simp_all add: sample_block_def sample_user_def)


end
