(* ===== verification/CoreMirror.thy ===== *)
theory CoreMirror
  imports CoreLifecycle
begin

text \<open>
  The chain parameters as the mirror of the store. A counterparty does not read the host's variables: it reads
  the chain parameters, under the paths of \<^verbatim>\<open>path.gno\<close>. The invariant proved here of every reachable state is that
  under the path of an entry the parameters hold the commitment to the entry that the host itself works with.
\<close>

section \<open>What is stored and what is mirrored\<close>

definition chain_param :: "('t, 'lc, 'app, 'w) env \<Rightarrow> ('t, 'lc, 'app, 'w) core \<Rightarrow> path_key \<Rightarrow> bytes option" where
  "chain_param E s k = params s (h256ChainParamKey (path_at (keccak256 E) k))"

definition commitment_at :: "('t, 'lc, 'app, 'w) env \<Rightarrow> ('t, 'lc, 'app, 'w) core \<Rightarrow> path_key \<Rightarrow> H256 option" where
  "commitment_at E s k = commitments s (path_at (keccak256 E) k)"

definition abi_hash :: "('t, 'lc, 'app, 'w) env \<Rightarrow> abi_error + bytes \<Rightarrow> H256" where
  "abi_hash E r = Keccak (keccak256 E) (case r of Inr bz \<Rightarrow> bz)"

text \<open>The parameter under the path of an entry, by the kind of the entry. The marker of an acknowledged packet is
  not mirrored: its parameter keeps the marker of a packet in flight.\<close>

fun mirror :: "('t, 'lc, 'app, 'w) env \<Rightarrow> path_key \<Rightarrow> ('t, 'lc, 'app, 'w) core \<Rightarrow> bool" where
  "mirror E (KClientState i) s \<longleftrightarrow>
     (\<forall>c. clientByID s i = Some c \<longrightarrow> clientState c \<noteq> [] \<longrightarrow>
        chain_param E s (KClientState i) = Some (Keccak (keccak256 E) (clientState c)))"
| "mirror E (KConsensusState i h) s \<longleftrightarrow>
     (\<forall>c v. clientByID s i = Some c \<longrightarrow>
        bp_Get E (consensusByHeight c) (string_of_bytes (height_Bytes (NewHeight h))) = Some (AnyBytes v) \<longrightarrow>
        chain_param E s (KConsensusState i h) = Some (Keccak (keccak256 E) v))"
| "mirror E (KConnection i) s \<longleftrightarrow>
     chain_param E s (KConnection i) = map_option (\<lambda>c. abi_hash E (connection_EncodeABI c)) (connection_of E s i)"
| "mirror E (KChannel i) s \<longleftrightarrow>
     chain_param E s (KChannel i) = map_option (\<lambda>e. abi_hash E (channel_EncodeABI (entry_channel e))) (channel_of E s i)"
| "mirror E (KPackets b) s \<longleftrightarrow>
     chain_param E s (KPackets b) = commitment_at E s (KPackets b) \<or>
     chain_param E s (KPackets b) = Some COMMITMENT_MAGIC \<and> commitment_at E s (KPackets b) = Some COMMITMENT_MAGIC_ACK"
| "mirror E (KReceipts b) s \<longleftrightarrow> chain_param E s (KReceipts b) = commitment_at E s (KReceipts b)"
| "mirror E (KMembership i n p) s \<longleftrightarrow>
     chain_param E s (KMembership i n p) = membershipProofs s (path_at (keccak256 E) (KMembership i n p))"
| "mirror E (KNonMembership i n p) s \<longleftrightarrow>
     chain_param E s (KNonMembership i n p) = nonMembershipProofs s (path_at (keccak256 E) (KNonMembership i n p))"

text \<open>No other entry has the path of this one: keccak256 has no second preimage there.\<close>

definition unique_path :: "('t, 'lc, 'app, 'w) env \<Rightarrow> path_key \<Rightarrow> bool" where
  "unique_path E k \<longleftrightarrow> (\<forall>j. path_at (keccak256 E) j = path_at (keccak256 E) k \<longrightarrow> j = k)"

definition mirror_inv :: "('t, 'lc, 'app, 'w) env \<Rightarrow> path_key \<Rightarrow> ('t, 'lc, 'app, 'w) core \<Rightarrow> bool" where
  "mirror_inv E k s \<longleftrightarrow> mirror E k s \<and> (\<forall>i c. clientByID s i = Some c \<longrightarrow> client_id c = i)"

section \<open>Parameters\<close>

lemma hex_digit_inject: "m < 16 \<Longrightarrow> n < 16 \<Longrightarrow> hex_digit m = hex_digit n \<longleftrightarrow> m = n"
  by (auto simp: hex_digit_def)

lemma EncodeToString_inject [simp]: "EncodeToString a = EncodeToString b \<longleftrightarrow> a = b"
proof (induction a arbitrary: b)
  case (Cons x xs)
  have d: "unat u div 16 < 16" for u :: byte by (simp add: less_mult_imp_div_less)
  have byte: "unat x div 16 = unat y div 16 \<and> unat x mod 16 = unat y mod 16 \<longleftrightarrow> x = y" for y
    by (metis div_mult_mod_eq word_unat_eq_iff)
  show ?case
    by (cases b) (auto simp: hex_digit_inject d Cons.IH byte [symmetric])
next
  case Nil
  then show ?case by (cases b) simp_all
qed

lemma param_key_inject [simp]: "h256ChainParamKey a = h256ChainParamKey b \<longleftrightarrow> a = b"
  by (simp add: h256ChainParamKey_def)

lemma path_unique: "unique_path E k \<Longrightarrow> path_at (keccak256 E) j = path_at (keccak256 E) k \<longleftrightarrow> j = k"
  by (auto simp: unique_path_def)

text \<open>Everything that writes neither an entry nor a parameter.\<close>

definition mirror_view where
  "mirror_view s = (params s, commitments s, handshake_view s, membershipProofs s, nonMembershipProofs s, clientByID s)"

lemma mirror_view_inv:
  assumes "mirror_view t = mirror_view s"
  shows "mirror_inv E k t = mirror_inv E k s"
proof -
  have eq: "params t = params s" "commitments t = commitments s" "connections t = connections s" "channels t = channels s"
    "membershipProofs t = membershipProofs s" "nonMembershipProofs t = nonMembershipProofs s" "clientByID t = clientByID s"
    using assms by (simp_all add: mirror_view_def handshake_view_def)
  have "chain_param E t = chain_param E s" "commitment_at E t = commitment_at E s" "connection_of E t = connection_of E s"
    "channel_of E t = channel_of E s"
    by (simp_all add: fun_eq_iff chain_param_def commitment_at_def connection_of_def channel_of_def eq)
  then show ?thesis by (cases k) (simp_all add: mirror_inv_def eq)
qed

lemma keeps_view: "unchanged mirror_view m \<Longrightarrow> keeps {} (mirror_inv E k) m"
  by (erule unchanged_keeps) (erule mirror_view_inv [THEN iffD2])


section \<open>The writes\<close>

lemma path_unique': "unique_path E k \<Longrightarrow> path_at (keccak256 E) k = path_at (keccak256 E) j \<longleftrightarrow> k = j"
  by (auto simp: unique_path_def)

lemma bind_lift [simp]: "bind (lift (Inr x)) m = m x"
  by (simp add: fun_eq_iff bind_def lift_def)

lemma mirror_frames [simp]:
  "connection_of E (s\<lparr>membershipProofs := x3\<rparr>) i = connection_of E s i" "channel_of E (s\<lparr>membershipProofs := x3\<rparr>) i = channel_of E s i"
  "connection_of E (s\<lparr>nonMembershipProofs := x4\<rparr>) i = connection_of E s i" "channel_of E (s\<lparr>nonMembershipProofs := x4\<rparr>) i = channel_of E s i"
  "connection_of E (s\<lparr>clientByID := x5\<rparr>) i = connection_of E s i" "channel_of E (s\<lparr>clientByID := x5\<rparr>) i = channel_of E s i"
  "connection_of E (s\<lparr>clientTypeByID := x8\<rparr>) i = connection_of E s i" "channel_of E (s\<lparr>clientTypeByID := x8\<rparr>) i = channel_of E s i"
  "connection_of E (s\<lparr>clientImplByID := x9\<rparr>) i = connection_of E s i" "channel_of E (s\<lparr>clientImplByID := x9\<rparr>) i = channel_of E s i"
  "connection_of E (s\<lparr>channels := x6\<rparr>) i = connection_of E s i" "channel_of E (s\<lparr>connections := x7\<rparr>) i = channel_of E s i"
  by (simp_all add: connection_of_def channel_of_def)

lemmas mirror_defs = keeps_def mirror_inv_def chain_param_def commitment_at_def path_unique path_unique'

lemma mirror_setCommitment:
  assumes "unique_path E k" "j = KPackets b \<or> j = KReceipts b"
  shows "keeps {} (mirror_inv E k) (setCommitment (path_at (keccak256 E) j) v)"
  using assms
  by (cases k) (auto simp: mirror_defs wp_simps setCommitment_def setChainParam_def)

lemma mirror_packet_setters:
  assumes "unique_path E k"
  shows "keeps {} (mirror_inv E k) (store_CommitPacket E rlm p)" "keeps {} (mirror_inv E k) (SetPacketReceipt E rlm p)"
    "keeps {} (mirror_inv E k) (CommitAcknowledgement E rlm p ack)"
    "keeps {} (mirror_inv E k) (SaveBatchPackets E rlm h v)" "keeps {} (mirror_inv E k) (SaveBatchReceipts E rlm h v)"
  unfolding store_CommitPacket_def SetPacketReceipt_def CommitAcknowledgement_def SaveBatchPackets_def SaveBatchReceipts_def
    packetCommitmentPath_total packetAcknowledgementPath_total commitment_path_def receipt_path_def path_at_simps
  by (simp_all only: bind_lift) (intro keeps_intros; auto intro!: mirror_setCommitment assms)+

lemma mirror_mark:
  assumes "unique_path E k"
  shows "keeps {} (mirror_inv E k) (markPacketAcknowledged E rlm p)"
proof (rule keeps_runI)
  fix s x s' assume inv: "mirror_inv E k s" and run: "markPacketAcknowledged E rlm p s = Inr (x, s')"
  have s': "s' = s\<lparr>commitments := (commitments s)(path_at (keccak256 E) (KPackets (packet_hash E p)) \<mapsto> COMMITMENT_MAGIC_ACK)\<rparr>"
    "commitments s (path_at (keccak256 E) (KPackets (packet_hash E p))) = Some COMMITMENT_MAGIC"
    using run by (simp_all add: markPacketAcknowledged_run commitment_path_def path_at_simps)
  show "mirror_inv E k s'"
    using inv s'(2) assms unfolding s'(1)
    by (cases k) (auto simp: mirror_defs connection_of_def channel_of_def COMMITMENT_MAGIC_def COMMITMENT_MAGIC_ACK_def)
qed

lemma mirror_proofs:
  assumes "unique_path E k"
  shows "keeps {} (mirror_inv E k) (SaveMembershipProof E rlm i n p v)" "keeps {} (mirror_inv E k) (SaveNonMembershipProof E rlm i n p v)"
  unfolding SaveMembershipProof_def SaveNonMembershipProof_def path_at_simps Let_def
  using assms
  by (cases k; auto simp: mirror_defs wp_simps setChainParam_def)+

lemma connection_of_set:
  "env_ok E \<Longrightarrow> connection_of E (s\<lparr>connections := bp_Set E (connections s) (connectionKey E j) (AnyConnection c)\<rparr>) i =
     (if i = j then Some c else connection_of E s i)"
  by (simp add: connection_of_def env_simps)

lemma channel_of_set:
  "env_ok E \<Longrightarrow> channel_of E (s\<lparr>channels := bp_Set E (channels s) (channelKey E j) (AnyChannel e)\<rparr>) i =
     (if i = j then Some e else channel_of E s i)"
  by (simp add: channel_of_def env_simps)

lemma mirror_SaveConnection:
  assumes "unique_path E k" "env_ok E"
  shows "keeps {} (mirror_inv E k) (SaveConnection E rlm i c)"
  unfolding SaveConnection_def path_at_simps
  using assms
  by (cases k; auto simp: mirror_defs wp_simps setChainParam_def connectionValue_eq connection_of_set abi_hash_def)

lemma mirror_SaveChannel:
  assumes "unique_path E k" "env_ok E"
  shows "keeps {} (mirror_inv E k) (CreateChannel E rlm i ch portId)" "keeps {} (mirror_inv E k) (SaveChannel E rlm i ch)"
  unfolding SaveChannel_def CreateChannel_def path_at_simps
  using assms
  by (cases k; auto simp: mirror_defs wp_simps setChainParam_def channelValue_eq channel_of_set abi_hash_def split: option.splits any.splits)+


section \<open>The clients\<close>

lemma mirror_onClient:
  assumes "\<And>c. client_id (f c) = client_id c" "\<And>c. clientState (f c) = clientState c" "\<And>c. consensusByHeight (f c) = consensusByHeight c"
  shows "keeps {} (mirror_inv E k) (onClient i f)"
  unfolding onClient_def
  using assms by (intro keeps_modify) (cases k; auto simp: mirror_defs split: if_splits)

lemma mirror_client_writes:
  "keeps {} (mirror_inv E k) (updateObject i lc)" "keeps {} (mirror_inv E k) (SetLightClient rlm i lc)"
  "keeps {} (mirror_inv E k) (SaveClientStore rlm i key v)"
  unfolding updateObject_def SetLightClient_def SaveClientStore_def
  by (intro keeps_intros mirror_onClient; simp)+

lemma mirror_SaveClientState:
  assumes "unique_path E k"
  shows "keeps {} (mirror_inv E k) (SaveClientState E rlm i bz)"
  unfolding SaveClientState_def saveClientState_def onClient_def path_at_simps
  using assms
  by (cases k; auto simp: mirror_defs wp_simps setChainParam_def getClient_def split: option.splits if_splits)

lemma height_inject: "height_Bytes (NewHeight h) = height_Bytes (NewHeight h') \<longleftrightarrow> h = h'" "RevisionHeight (NewHeight h) = h"
  using height_key_inject [of "NewHeight h" "NewHeight h'"] by (auto simp: NewHeight_def)

lemma mirror_SaveConsensusState:
  assumes "unique_path E k" "env_ok E"
  shows "keeps {} (mirror_inv E k) (SaveConsensusState E rlm i (NewHeight h) bz)"
  unfolding SaveConsensusState_def saveConsensusState_def onClient_def path_at_simps
  using assms
  by (cases k; auto simp: mirror_defs wp_simps setChainParam_def getClient_def env_ok_get_set height_inject
      split: option.splits if_splits)

lemma mirror_AddClient:
  assumes "env_ok E"
  shows "keeps {} (mirror_inv E k) (AddClient E rlm typ cr lc)"
proof -
  have "keeps {} (mirror_inv E k) (addClient E i typ cr lc)" for i
    using assms unfolding addClient_def
    by (cases k; auto simp: mirror_defs wp_simps env_ok_new split: if_splits)
  moreover have "keeps {} (mirror_inv E k) (nextClientId E)"
    unfolding nextClientId_def
    by (intro keeps_intros keeps_modify) (auto intro: mirror_view_inv [THEN iffD2] simp: mirror_view_def handshake_view_def)
  ultimately show ?thesis unfolding AddClient_def by (intro keeps_intros) simp_all
qed


section \<open>The handlers\<close>

lemma view_modify: "(\<And>s. mirror_view (g s) = mirror_view s) \<Longrightarrow> unchanged mirror_view (modify g)"
  by (rule unchanged_modify)

lemma view_reads:
  "unchanged mirror_view (store_GetConnection E c)" "unchanged mirror_view (getChannelEntry E c)" "unchanged mirror_view (getClientOrErr i)"
  "unchanged mirror_view (HasPacketCommitment E q)" "unchanged mirror_view (HasPacketReceipt E q)" "unchanged mirror_view (appOrNil p)"
  "unchanged mirror_view (AcknowledgementReceipt E q)" "unchanged mirror_view (PacketCommitment E q)"
  "unchanged mirror_view (getAppAtPort p)" "unchanged mirror_view (appForClose p)" "unchanged mirror_view (assertPacketDataSize d)"
  "unchanged mirror_view (emit E rlm n attrs)" "unchanged mirror_view (emitAttrs E rlm n as)"
  "unchanged mirror_view (emitSized E rlm n bz as)" "unchanged mirror_view (RegisterAppAtPort rlm bz a)"
  "unchanged mirror_view (registerClient typ impl)"
  unfolding store_GetConnection_def getChannelEntry_def getClientOrErr_def HasPacketCommitment_def HasPacketReceipt_def
    AcknowledgementReceipt_def PacketCommitment_def appOrNil_def getAppAtPort_def appForClose_def assertPacketDataSize_def
    emit_def emitAttrs_def emitSized_def RegisterAppAtPort_def registerClient_def
  by (intro unchanged_intros view_modify; simp add: mirror_view_def handshake_view_def)+

lemma view_steps:
  "unchanged mirror_view (store_GetChannel E c)" "unchanged mirror_view (store_GetChannelOwner E c)" "unchanged mirror_view (getChannel E c)"
  "unchanged mirror_view (ownerOrNil E c)" "unchanged mirror_view (ensureConnectionState E cn)" "unchanged mirror_view (getActiveClient E i)"
  "unchanged mirror_view (verifyMembership E i hh prf kk vv)" "unchanged mirror_view (verifyNonMembership E i hh prf kk)"
  "unchanged mirror_view (store_RegisterClient rlm typ impl)"
  unfolding store_GetChannel_def store_GetChannelOwner_def getChannel_def ownerOrNil_def ensureConnectionState_def
    getActiveClient_def verifyMembership_def verifyNonMembership_def store_RegisterClient_def
  by (intro unchanged_intros view_reads)+

lemma mirror_modify: "(\<And>s. mirror_inv E k (g s) = mirror_inv E k s) \<Longrightarrow> keeps {} (mirror_inv E k) (modify g)"
  by (rule keeps_modify) simp

lemma mirror_ids:
  "keeps {} (mirror_inv E k) (NextConnectionId E rlm)" "keeps {} (mirror_inv E k) (NextChannelId E rlm)"
proof -
  have [simp]: "mirror_inv E k (s\<lparr>connectionSeq := n\<rparr>) = mirror_inv E k s" "mirror_inv E k (s\<lparr>channelSeq := n\<rparr>) = mirror_inv E k s" for s n
    by (cases k; simp add: mirror_inv_def chain_param_def commitment_at_def connection_of_def channel_of_def)+
  show "keeps {} (mirror_inv E k) (NextConnectionId E rlm)" "keeps {} (mirror_inv E k) (NextChannelId E rlm)"
    unfolding NextConnectionId_def NextChannelId_def by (intro keeps_intros mirror_modify; simp)+
qed

lemmas mirror_reads = view_reads [THEN keeps_view] view_steps [THEN keeps_view]

lemma mirror_clients:
  assumes "unique_path E k" "env_ok E"
  shows "keeps {} (mirror_inv E k) (RegisterClient E rlm typ impl)" "keeps {} (mirror_inv E k) (CreateClient E rlm m1)"
    "keeps {} (mirror_inv E k) (UpdateClient E rlm m2)" "keeps {} (mirror_inv E k) (ForceUpdateClient E rlm m3)"
    "keeps {} (mirror_inv E k) (Misbehaviour E rlm m4)" "keeps {} (mirror_inv E k) (RegisterApp E rlm a)"
    "keeps {} (mirror_inv E k) (CommitMembershipProof E rlm m5)" "keeps {} (mirror_inv E k) (CommitNonMembershipProof E rlm m6)"
  unfolding RegisterClient_def EmitRegisterClient_def CreateClient_def EmitCreateClient_def UpdateClient_def EmitUpdateClient_def
    ForceUpdateClient_def EmitForceUpdateClient_def Misbehaviour_def EmitMisbehaviour_def RegisterApp_def EmitAppRegistered_def
    CommitMembershipProof_def EmitCommitMembershipProof_def CommitNonMembershipProof_def EmitCommitNonMembershipProof_def
    initClient_def saveStorageWrites_def Let_def
  by (intro keeps_intros mirror_reads mirror_client_writes mirror_AddClient mirror_SaveClientState mirror_SaveConsensusState
      mirror_proofs assms; simp)+

lemma mirror_handshakes:
  assumes "unique_path E k" "env_ok E"
  shows "keeps {} (mirror_inv E k) (ConnectionOpenInit E rlm m1)" "keeps {} (mirror_inv E k) (connectionOpenTry E rlm m2 b)"
    "keeps {} (mirror_inv E k) (connectionOpenAck E rlm m3 b)" "keeps {} (mirror_inv E k) (connectionOpenConfirm E rlm m4 b)"
  unfolding ConnectionOpenInit_def EmitConnectionOpenInit_def connectionOpenTry_def EmitConnectionOpenTry_def
    connectionOpenAck_def EmitConnectionOpenAck_def connectionOpenConfirm_def EmitConnectionOpenConfirm_def
  by (intro keeps_intros mirror_reads mirror_ids mirror_SaveConnection assms; simp)+

lemma mirror_packets:
  assumes "unique_path E k"
  shows "keeps {} (mirror_inv E k) (SendPacket E rlm c ts d)" "keeps {} (mirror_inv E k) (WriteAcknowledgement E rlm m)"
  unfolding SendPacket_def EmitPacketSend_def WriteAcknowledgement_def EmitWriteAck_def
  by (intro keeps_intros mirror_reads mirror_packet_setters assms; simp)+

lemma mirror_callApp:
  assumes "unique_path E k"
  shows "keeps {} (mirror_inv E k) (callApp E app cb)"
proof -
  have [simp]: "mirror_inv E k (s\<lparr>world := w\<rparr>) = mirror_inv E k s" for s w
    by (rule mirror_view_inv) (simp add: mirror_view_def handshake_view_def)
  show ?thesis
    unfolding callApp_def by (intro keeps_intros keeps_run_prog mirror_packets assms) simp_all
qed

lemma mirror_channels:
  assumes "unique_path E k" "env_ok E"
  shows "keeps {} (mirror_inv E k) (ChannelOpenInit E rlm m1)" "keeps {} (mirror_inv E k) (channelOpenTry E rlm m2 b)"
    "keeps {} (mirror_inv E k) (channelOpenAck E rlm m3 b)" "keeps {} (mirror_inv E k) (channelOpenConfirm E rlm m4 b)"
    "keeps {} (mirror_inv E k) (ChannelCloseInit E rlm m5)" "keeps {} (mirror_inv E k) (ChannelCloseConfirm E rlm m6)"
  unfolding ChannelOpenInit_def channelOpenTry_def channelOpenAck_def channelOpenConfirm_def ChannelCloseInit_def ChannelCloseConfirm_def
    EmitChannelOpenInit_def EmitChannelOpenTry_def EmitChannelOpenAck_def EmitChannelOpenConfirm_def EmitChannelCloseInit_def
    EmitChannelCloseConfirm_def
  by (intro keeps_intros mirror_reads mirror_ids mirror_SaveChannel mirror_callApp assms; simp)+

lemma mirror_packet_loops:
  assumes "unique_path E k"
  shows "keeps {} (mirror_inv E k) (acceptRecvPacket E rlm p c now)" "keeps {} (mirror_inv E k) (commitSyncAck E rlm p ch cn res)"
  unfolding acceptRecvPacket_def commitSyncAck_def EmitWriteAck_def
  by (intro keeps_intros mirror_reads mirror_packet_setters assms; simp)
    (cases "res_Status res"; auto intro!: keeps_intros mirror_reads mirror_packet_setters assms)

lemma mirror_packet_calls:
  assumes "unique_path E k"
  shows "keeps {} (mirror_inv E k) (PacketRecv E rlm now m1)" "keeps {} (mirror_inv E k) (IntentPacketRecv E rlm now m2)"
    "keeps {} (mirror_inv E k) (PacketAcknowledgement E rlm m3)" "keeps {} (mirror_inv E k) (PacketTimeout E rlm m4)"
    "keeps {} (mirror_inv E k) (BatchSend E rlm m5)" "keeps {} (mirror_inv E k) (BatchAcks E rlm m6)"
  unfolding PacketRecv_def IntentPacketRecv_def PacketAcknowledgement_def PacketTimeout_def EmitPacketTimeout_def
    recvOne_def intentOne_def ackOne_def EmitPacketRecv_def EmitIntentPacketRecv_def EmitPacketAck_def
    BatchSend_def BatchAcks_def batchSendOne_def batchAckOne_def EmitBatchSend_def EmitBatchAcks_def
  by (intro keeps_intros mirror_reads mirror_mark mirror_callApp mirror_packet_loops mirror_packet_setters assms; simp)+


lemma mirror_current:
  "keeps {} (mirror_inv E k) m \<Longrightarrow> keeps {} (mirror_inv E k) (andthen (assertIsRlmCurrent rlm) m)"
  by (intro keeps_intros) simp_all

lemma mirror_config: "keeps {} (mirror_inv E k) (call E rlm now (CSetEventConfig c))"
proof -
  have "mirror_inv E k (s\<lparr>eventConfig := x\<rparr>) = mirror_inv E k s" for s x
    by (rule mirror_view_inv) (simp add: mirror_view_def handshake_view_def)
  then show ?thesis by (auto intro!: keeps_intros mirror_modify)
qed

lemma mirror_call:
  assumes "unique_path E k" "env_ok E"
  shows "keeps {} (mirror_inv E k) (call E rlm now c)"
proof (cases c)
  case (CSendPacket c ts d)
  then show ?thesis by (auto intro!: keeps_intros mirror_packets assms)
next
  case (CSetEventConfig c)
  then show ?thesis using mirror_config by blast
qed (auto simp: ConnectionOpenTry_def ForceConnectionOpenTry_def ConnectionOpenAck_def ForceConnectionOpenAck_def
    ConnectionOpenConfirm_def ForceConnectionOpenConfirm_def ChannelOpenTry_def ForceChannelOpenTry_def
    ChannelOpenAck_def ForceChannelOpenAck_def ChannelOpenConfirm_def ForceChannelOpenConfirm_def
    intro!: mirror_current mirror_clients mirror_handshakes mirror_channels mirror_packets mirror_packet_calls assms)

lemma mirror_new: "env_ok E \<Longrightarrow> mirror_inv E k (newStore E w)"
  by (cases k) (simp_all add: mirror_inv_def chain_param_def commitment_at_def connection_of_def channel_of_def newStore_def env_ok_new)

interpretation mirrored: state_invariant E "\<lambda>_. True" "\<lambda>s. unique_path E k \<and> env_ok E \<longrightarrow> mirror_inv E k s" for E k
proof
  show "unique_path E k \<and> env_ok E \<longrightarrow> mirror_inv E k (newStore E w)" for w by (simp add: mirror_new)
next
  fix c s s' assume "unique_path E k \<and> env_ok E \<longrightarrow> mirror_inv E k s" "tx E c s s'"
  then show "unique_path E k \<and> env_ok E \<longrightarrow> mirror_inv E k s'"
    by (auto elim!: tx_cases dest: keeps_run [OF mirror_call])
qed

section \<open>The mirror\<close>

lemma mirror_reachable:
  assumes "env_ok E" "reachable E (\<lambda>_. True) s" "unique_path E k"
  shows "mirror E k s"
  using mirrored.invariant [OF assms(2)] assms(1,3) by (auto simp: mirror_inv_def)


section \<open>A concrete host\<close>

text \<open>A digest that tells the path of connection 1 from every other string.\<close>

definition mirror_env :: "(string \<Rightarrow> any option, unit, unit, nat) env" where
  "mirror_env = sample_env\<lparr>keccak256 := sample_digest (path_preimage (KConnection 1))\<rparr>"

definition mirror_state :: "(string \<Rightarrow> any option, unit, unit, nat) core" where
  "mirror_state = run_calls mirror_env (map (\<lambda>c. (sample_rlm, 0, c)) sample_calls) (newStore mirror_env 0)"

lemma mirror_env_ok: "env_ok mirror_env"
  using env_ok_sample by (simp add: env_ok_def mirror_env_def)

lemma mirror_env_unique: "unique_path mirror_env (KConnection 1)"
proof -
  have "digest32 (sample_digest x)" for x by (rule sample_digest32)
  then show ?thesis
    by (auto simp: unique_path_def mirror_env_def path_at_def Keccak_digest sample_digest_def simp del: path_preimage.simps
        split: if_splits)
qed

lemma mirror_state_reachable: "reachable mirror_env (\<lambda>_. True) mirror_state"
  unfolding mirror_state_def by (rule reachable_run_calls) (simp add: list_all_def)

lemma mirror_state_connection: "connection_of mirror_env mirror_state 1 = Some (NewConnection ConnectionStateOpen 1 1 7)"
  unfolding mirror_state_def
  by (simp add: sample_calls_def sample_simps mirror_env_def sample_env_def sample_rlm_def newStore_def Let_def connection_of_def)


end
