(* ===== verification/CoreQuery.thy ===== *)
theory CoreQuery
  imports CoreMirror
begin

text \<open>
  The reading side of the host: the getters of the implementation (\<^verbatim>\<open>core/v1/getters.gno\<close>), to which the proxy's
  (\<^verbatim>\<open>core/getters.gno\<close>) forward, and the queries of \<^verbatim>\<open>core/query.gno\<close> and \<^verbatim>\<open>render.gno\<close>, which relayers
  read. A getter that asserts a type can panic and is a computation; an error it returns is a value.
\<close>

section \<open>Getters (v1/getters.gno)\<close>

definition found_or :: "core_error \<Rightarrow> 'a option \<Rightarrow> core_error + 'a" where
  "found_or e v = (case v of None \<Rightarrow> Inl e | Some x \<Rightarrow> Inr x)"

definition GetStatus :: "('t, 'lc, 'app, 'w) env \<Rightarrow> ClientId \<Rightarrow> ('t, 'lc, 'app, 'w) core \<Rightarrow> core_error + Status" where
  "GetStatus E clientId s =
     (case GetLightClient clientId s of None \<Rightarrow> Inl ErrClientNotFound | Some lc \<Rightarrow> Inr (ToType (lc_Status E lc)))"

definition GetClientType :: "ClientId \<Rightarrow> ('t, 'lc, 'app, 'w) core \<Rightarrow> core_error + ClientType" where
  "GetClientType clientId s = found_or ErrClientNotFound (store_ClientType clientId s)"

definition GetClientImpl :: "ClientId \<Rightarrow> ('t, 'lc, 'app, 'w) core \<Rightarrow> core_error + string" where
  "GetClientImpl clientId s = found_or ErrClientNotFound (store_ClientType clientId s)"

definition GetRegisteredClientType :: "ClientType \<Rightarrow> ('t, 'lc, 'app, 'w) core \<Rightarrow> bool" where
  "GetRegisteredClientType clientType s = HasRegisteredClient clientType s"

definition GetClientStateBytes :: "ClientId \<Rightarrow> ('t, 'lc, 'app, 'w) core \<Rightarrow> core_error + bytes" where
  "GetClientStateBytes clientId s = found_or ErrClientStateNotFound (ClientStateBytes clientId s)"

definition GetConsensusStateBytes ::
  "('t, 'lc, 'app, 'w) env \<Rightarrow> ClientId \<Rightarrow> Height \<Rightarrow> (('t, 'lc, 'app, 'w) core, core_error + bytes) comp" where
  "GetConsensusStateBytes E clientId height =
     bind (ConsensusStateBytes E clientId height) (\<lambda>bz. ok (found_or ErrConsensusStateNotFound bz))"

definition GetLatestHeight :: "('t, 'lc, 'app, 'w) env \<Rightarrow> ClientId \<Rightarrow> ('t, 'lc, 'app, 'w) core \<Rightarrow> core_error + u64" where
  "GetLatestHeight E clientId s =
     (case GetLightClient clientId s of None \<Rightarrow> Inl ErrClientNotFound | Some lc \<Rightarrow> Inr (lc_GetLatestHeight E lc))"

definition GetTimestampAtHeight ::
  "('t, 'lc, 'app, 'w) env \<Rightarrow> ClientId \<Rightarrow> u64 \<Rightarrow> ('t, 'lc, 'app, 'w) core \<Rightarrow> core_error + Timestamp" where
  "GetTimestampAtHeight E clientId height s =
     (case GetLightClient clientId s of
        None \<Rightarrow> Inl ErrClientNotFound
      | Some lc \<Rightarrow> (case lc_GetTimestampAtHeight E lc height of Inl err \<Rightarrow> Inl (LightClientError err) | Inr ts \<Rightarrow> Inr ts))"

definition GetConnection :: "('t, 'lc, 'app, 'w) env \<Rightarrow> ConnectionId \<Rightarrow> (('t, 'lc, 'app, 'w) core, core_error + Connection) comp" where
  "GetConnection E connectionId =
     bind (store_GetConnection E connectionId) (\<lambda>conn. ok (found_or ErrConnectionNotFound conn))"

definition GetChannels :: "('t, 'lc, 'app, 'w) env \<Rightarrow> ('t, 'lc, 'app, 'w) core \<Rightarrow> core_error + Channel list" where
  "GetChannels E s = Inr (store_GetChannels E s)"

definition GetChannel :: "('t, 'lc, 'app, 'w) env \<Rightarrow> ChannelId \<Rightarrow> (('t, 'lc, 'app, 'w) core, core_error + Channel) comp" where
  "GetChannel E channelId = bind (store_GetChannel E channelId) (\<lambda>ch. ok (found_or ErrChannelNotFound ch))"

definition GetChannelOwner :: "('t, 'lc, 'app, 'w) env \<Rightarrow> ChannelId \<Rightarrow> (('t, 'lc, 'app, 'w) core, core_error + string) comp" where
  "GetChannelOwner E channelId =
     bind (store_GetChannelOwner E channelId) (\<lambda>portId. ok (found_or ErrChannelNotFound (map_option string_of_bytes portId)))"

definition GetPacketCommitmentExists :: "('t, 'lc, 'app, 'w) env \<Rightarrow> Packet \<Rightarrow> (('t, 'lc, 'app, 'w) core, bool) comp" where
  "GetPacketCommitmentExists E packet = HasPacketCommitment E packet"

definition GetBatchPacketsCommitment :: "('t, 'lc, 'app, 'w) env \<Rightarrow> H256 \<Rightarrow> ('t, 'lc, 'app, 'w) core \<Rightarrow> core_error + H256" where
  "GetBatchPacketsCommitment E batchHash s = found_or ErrBatchPacketsNotFound (BatchPacketsAt E batchHash s)"

definition GetBatchReceiptsCommitment :: "('t, 'lc, 'app, 'w) env \<Rightarrow> H256 \<Rightarrow> ('t, 'lc, 'app, 'w) core \<Rightarrow> core_error + H256" where
  "GetBatchReceiptsCommitment E batchHash s = found_or ErrBatchReceiptsNotFound (BatchReceiptsAt E batchHash s)"

definition GetCommittedMembershipProofCommitment ::
  "('t, 'lc, 'app, 'w) env \<Rightarrow> ClientId \<Rightarrow> u64 \<Rightarrow> bytes \<Rightarrow> ('t, 'lc, 'app, 'w) core \<Rightarrow> core_error + H256" where
  "GetCommittedMembershipProofCommitment E clientId proofHeight path s =
     found_or ErrMembershipProofNotFound (MembershipProofAt E clientId proofHeight path s)"

definition GetCommittedNonMembershipProof ::
  "('t, 'lc, 'app, 'w) env \<Rightarrow> ClientId \<Rightarrow> u64 \<Rightarrow> bytes \<Rightarrow> ('t, 'lc, 'app, 'w) core \<Rightarrow> bool" where
  "GetCommittedNonMembershipProof E clientId proofHeight path s = HasNonMembershipProof E clientId proofHeight path s"

section \<open>Queries (query.gno, render.gno)\<close>

definition QueryClientState :: "ClientId \<Rightarrow> ('t, 'lc, 'app, 'w) core \<Rightarrow> core_error + string" where
  "QueryClientState clientId s =
     (case ClientStateBytes clientId s of None \<Rightarrow> Inl ErrClientStateNotFound | Some bz \<Rightarrow> Inr (hexString bz))"

definition QueryConsensusState ::
  "('t, 'lc, 'app, 'w) env \<Rightarrow> ClientId \<Rightarrow> u64 \<Rightarrow> (('t, 'lc, 'app, 'w) core, core_error + string) comp" where
  "QueryConsensusState E clientId height =
     bind (ConsensusStateBytes E clientId (NewHeight height)) (\<lambda>bz.
     ok (case bz of None \<Rightarrow> Inl ErrConsensusStateNotFound | Some bz \<Rightarrow> Inr (hexString bz)))"

definition QueryConnection :: "('t, 'lc, 'app, 'w) env \<Rightarrow> ConnectionId \<Rightarrow> (('t, 'lc, 'app, 'w) core, core_error + string) comp" where
  "QueryConnection E connectionId =
     bind (store_GetConnection E connectionId) (\<lambda>found.
     ok (case found of
           None \<Rightarrow> Inl ErrConnectionNotFound
         | Some conn \<Rightarrow> (case connection_EncodeABI conn of Inl err \<Rightarrow> Inl (ErrEncoding err) | Inr bz \<Rightarrow> Inr (hexString bz))))"

definition QueryChannel :: "('t, 'lc, 'app, 'w) env \<Rightarrow> ChannelId \<Rightarrow> (('t, 'lc, 'app, 'w) core, core_error + string) comp" where
  "QueryChannel E channelId =
     bind (store_GetChannel E channelId) (\<lambda>found.
     ok (case found of
           None \<Rightarrow> Inl ErrChannelNotFound
         | Some channel \<Rightarrow> (case channel_EncodeABI channel of Inl err \<Rightarrow> Inl (ErrEncoding err) | Inr bz \<Rightarrow> Inr (hexString bz))))"

fun status_uint8 :: "Status \<Rightarrow> u64" where
  "status_uint8 StatusUnknown = 0"
| "status_uint8 StatusActive = 1"
| "status_uint8 StatusExpired = 2"
| "status_uint8 StatusFrozen = 3"

text \<open>The status query returns a string next to its error as well.\<close>

definition GetClientStatus :: "('t, 'lc, 'app, 'w) env \<Rightarrow> ClientId \<Rightarrow> ('t, 'lc, 'app, 'w) core \<Rightarrow> string \<times> core_error option" where
  "GetClientStatus E clientId s =
     (case GetLightClient clientId s of
        None \<Rightarrow> (FormatUint (status_uint8 StatusUnknown), Some ErrClientNotFound)
      | Some lc \<Rightarrow> (FormatUint (status_uint8 (ToType (lc_Status E lc))), None))"

definition Render :: "('t, 'lc, 'app, 'w) core \<Rightarrow> string" where
  "Render s = ''next client id: '' @ id_String (ucast (clientSeq s) + 1)"


section \<open>A query answers with what the chain parameters commit to\<close>

fun query :: "('t, 'lc, 'app, 'w) env \<Rightarrow> path_key \<Rightarrow> (('t, 'lc, 'app, 'w) core, core_error + string) comp option" where
  "query E (KClientState i) = Some (gets (QueryClientState i))"
| "query E (KConsensusState i h) = Some (QueryConsensusState E i h)"
| "query E (KConnection i) = Some (QueryConnection E i)"
| "query E (KChannel i) = Some (QueryChannel E i)"
| "query E _ = None"

lemma query_answers:
  assumes "query E k = Some m" "m s = Inr (Inr str, s')" "mirror E k s"
  shows "\<exists>bz. str = hexString bz \<and> chain_param E s k = Some (Keccak (keccak256 E) bz)"
proof (cases k)
  case (KClientState i)
  with assms show ?thesis
    by (auto simp: run_simps QueryClientState_def ClientStateBytes_def getClient_def split: option.splits if_splits)
next
  case (KConsensusState i h)
  with assms show ?thesis
    by (fastforce simp: run_simps QueryConsensusState_def ConsensusStateBytes_def getClient_def split: option.splits any.splits)
next
  case (KConnection i)
  with assms obtain found where found: "store_GetConnection E i s = Inr (found, s')"
    and str: "(case found of None \<Rightarrow> Inl ErrConnectionNotFound
         | Some conn \<Rightarrow> (case connection_EncodeABI conn of Inl err \<Rightarrow> Inl (ErrEncoding err) | Inr bz \<Rightarrow> Inr (hexString bz))) = Inr str"
    by (auto simp: bind_run ok_run QueryConnection_def)
  then obtain c bz where "connection_of E s i = Some c" "connection_EncodeABI c = Inr bz" "str = hexString bz"
    by (cases found) (auto simp: store_GetConnection_Some split: sum.splits)
  with assms(3) KConnection show ?thesis by (auto simp: abi_hash_def)
next
  case (KChannel i)
  with assms obtain entry where entry: "getChannelEntry E i s = Inr (entry, s')"
    and str: "(case map_option entry_channel entry of None \<Rightarrow> Inl ErrChannelNotFound
         | Some channel \<Rightarrow> (case channel_EncodeABI channel of Inl err \<Rightarrow> Inl (ErrEncoding err) | Inr bz \<Rightarrow> Inr (hexString bz))) = Inr str"
    by (auto simp: bind_run ok_run QueryChannel_def store_GetChannel_def)
  then obtain e bz where "channel_of E s i = Some e" "channel_EncodeABI (entry_channel e) = Inr bz" "str = hexString bz"
    using getChannelEntry_run [OF entry] by (cases "channel_of E s i") (auto split: sum.splits)
  with assms(3) KChannel show ?thesis by (auto simp: abi_hash_def)
qed (use assms(1) in auto)



end
