(* ===== verification/GoLib.thy ===== *)
theory GoLib
  imports CoreEvents "HOL-Library.Multiset"
begin

text \<open>
  What the command-line tools under \<^verbatim>\<open>src/tools\<close> use of Go and its standard library: panics, a
  program that writes to standard output, \<^verbatim>\<open>encoding/hex\<close>, \<^verbatim>\<open>encoding/binary\<close> varints,
  \<^verbatim>\<open>bytes.Compare\<close>, \<^verbatim>\<open>unicode/utf8\<close> decoding, \<^verbatim>\<open>strconv.Quote\<close> and \<^verbatim>\<open>sort.Slice\<close>.
\<close>

section \<open>Panics and output\<close>

text \<open>The error of \<^verbatim>\<open>hex.DecodeString\<close>, and the values the tools panic with.\<close>

datatype hex_error = ErrLength | InvalidByteError byte

datatype panic = PanicHex hex_error | PanicString string | PanicIndex | PanicError string

text \<open>
  A program that prints: the text written so far, and how it ended. Nothing is printed after a
  panic, and what was printed before stays.
\<close>

type_synonym 'a out = "string \<times> (panic + 'a)"

definition Print :: "string \<Rightarrow> unit out" where
  "Print s = (s, Inr ())"

definition give :: "'a \<Rightarrow> 'a out" where
  "give x = ('''', Inr x)"

definition raise :: "panic \<Rightarrow> 'a out" where
  "raise p = ('''', Inl p)"

definition bind_out :: "'a out \<Rightarrow> ('a \<Rightarrow> 'b out) \<Rightarrow> 'b out" where
  "bind_out m f = (case m of (s, Inl p) \<Rightarrow> (s, Inl p) | (s, Inr x) \<Rightarrow> (case f x of (t, r) \<Rightarrow> (s @ t, r)))"

definition lift_out :: "(panic + 'a) \<Rightarrow> 'a out" where
  "lift_out r = ('''', r)"

fun seq_out :: "unit out list \<Rightarrow> unit out" where
  "seq_out [] = give ()"
| "seq_out (m # ms) = bind_out m (\<lambda>_. seq_out ms)"

definition bind_panic :: "(panic + 'a) \<Rightarrow> ('a \<Rightarrow> panic + 'b) \<Rightarrow> panic + 'b" where
  "bind_panic r f = (case r of Inl p \<Rightarrow> Inl p | Inr x \<Rightarrow> f x)"

definition nl :: string where "nl = [CHR 0x0A]"
definition tab :: string where "tab = [CHR 0x09]"
definition dq :: string where "dq = [CHR 0x22]"
definition sq :: string where "sq = [CHR 0x27]"
definition bslash :: string where "bslash = [CHR 0x5C]"

section \<open>encoding/hex\<close>

definition fromHexChar :: "byte \<Rightarrow> byte option" where
  "fromHexChar c =
     (if 48 \<le> c \<and> c \<le> 57 then Some (c - 48)
      else if 97 \<le> c \<and> c \<le> 102 then Some (c - 97 + 10)
      else if 65 \<le> c \<and> c \<le> 70 then Some (c - 65 + 10)
      else None)"

text \<open>\<^verbatim>\<open>hex.DecodeString\<close> reads pairs; a bad digit is reported before an odd length.\<close>

fun hexDecode :: "bytes \<Rightarrow> hex_error + bytes" where
  "hexDecode [] = Inr []"
| "hexDecode [c] = (case fromHexChar c of None \<Rightarrow> Inl (InvalidByteError c) | Some _ \<Rightarrow> Inl ErrLength)"
| "hexDecode (p # q # rest) =
     (case fromHexChar p of
        None \<Rightarrow> Inl (InvalidByteError p)
      | Some a \<Rightarrow>
          (case fromHexChar q of
             None \<Rightarrow> Inl (InvalidByteError q)
           | Some b \<Rightarrow>
               (case hexDecode rest of Inl e \<Rightarrow> Inl e | Inr out \<Rightarrow> Inr ((push_bit 4 a OR b) # out))))"

definition DecodeString :: "string \<Rightarrow> hex_error + bytes" where
  "DecodeString s = hexDecode (bytes_of_string s)"

text \<open>\<^verbatim>\<open>strings.ToLower\<close> and \<^verbatim>\<open>strings.ToUpper\<close> on the ASCII strings the tools give them.\<close>

definition lower_char :: "char \<Rightarrow> char" where
  "lower_char c = (let n = of_char c :: nat in if 65 \<le> n \<and> n \<le> 90 then char_of (n + 32) else c)"

definition upper_char :: "char \<Rightarrow> char" where
  "upper_char c = (let n = of_char c :: nat in if 97 \<le> n \<and> n \<le> 122 then char_of (n - 32) else c)"

definition ToLower :: "string \<Rightarrow> string" where
  "ToLower s = map lower_char s"

definition ToUpper :: "string \<Rightarrow> string" where
  "ToUpper s = map upper_char s"

section \<open>encoding/binary varints\<close>

text \<open>\<^verbatim>\<open>AppendUvarint(nil, v)\<close>: seven bits per byte, least significant first, the high bit set on
  all but the last; \<^verbatim>\<open>AppendVarint\<close> writes the zig-zag form of a signed integer.\<close>

fun uvarint :: "nat \<Rightarrow> bytes" where
  "uvarint v = (if v < 128 then [word_of_nat v] else word_of_nat (v mod 128 + 128) # uvarint (v div 128))"

declare uvarint.simps [simp del]

definition AppendUvarint :: "bytes \<Rightarrow> u64 \<Rightarrow> bytes" where
  "AppendUvarint buf v = buf @ uvarint (unat v)"

definition AppendVarint :: "bytes \<Rightarrow> 64 word \<Rightarrow> bytes" where
  "AppendVarint buf v = AppendUvarint buf (let ux = push_bit 1 v in if sint v < 0 then NOT ux else ux)"

section \<open>bytes.Compare and sort.Slice\<close>

fun Compare :: "bytes \<Rightarrow> bytes \<Rightarrow> int" where
  "Compare [] [] = 0"
| "Compare [] (_ # _) = -1"
| "Compare (_ # _) [] = 1"
| "Compare (a # as) (b # bs) = (if a < b then -1 else if b < a then 1 else Compare as bs)"

text \<open>\<^verbatim>\<open>sort.Slice\<close> by a strict comparison: on elements the comparison tells apart there is only one
  sorted order, the one insertion gives.\<close>

fun insert_by :: "('a \<Rightarrow> 'a \<Rightarrow> bool) \<Rightarrow> 'a \<Rightarrow> 'a list \<Rightarrow> 'a list" where
  "insert_by lt x [] = [x]"
| "insert_by lt x (y # ys) = (if lt y x then y # insert_by lt x ys else x # y # ys)"

definition sort_slice :: "('a \<Rightarrow> 'a \<Rightarrow> bool) \<Rightarrow> 'a list \<Rightarrow> 'a list" where
  "sort_slice lt xs = foldr (insert_by lt) xs []"

section \<open>unicode/utf8\<close>

definition RuneError :: nat where
  "RuneError = 0xFFFD"

definition cont :: "byte \<Rightarrow> bool" where
  "cont b \<longleftrightarrow> 0x80 \<le> b \<and> b \<le> 0xBF"

text \<open>\<^verbatim>\<open>utf8.DecodeRuneInString\<close> on a non-empty string: the rune and how many bytes it takes;
  an invalid encoding is \<open>RuneError\<close> of width one. The ranges of the second byte are those of
  the \<^verbatim>\<open>acceptRanges\<close> table.\<close>

definition second_ok :: "byte \<Rightarrow> byte \<Rightarrow> bool" where
  "second_ok p b \<longleftrightarrow>
     (if p = 0xE0 then 0xA0 \<le> b \<and> b \<le> 0xBF
      else if p = 0xED then 0x80 \<le> b \<and> b \<le> 0x9F
      else if p = 0xF0 then 0x90 \<le> b \<and> b \<le> 0xBF
      else if p = 0xF4 then 0x80 \<le> b \<and> b \<le> 0x8F
      else cont b)"

definition DecodeRune :: "bytes \<Rightarrow> nat \<times> nat" where
  "DecodeRune s =
     (case s of
        [] \<Rightarrow> (RuneError, 0)
      | p # rest \<Rightarrow>
          if p < 0x80 then (unat p, 1)
          else if p < 0xC2 \<or> 0xF4 < p then (RuneError, 1)
          else (case rest of
                  [] \<Rightarrow> (RuneError, 1)
                | b1 # rest1 \<Rightarrow>
                    if \<not> second_ok p b1 then (RuneError, 1)
                    else if p \<le> 0xDF then (unat (p AND 0x1F) * 64 + unat (b1 AND 0x3F), 2)
                    else (case rest1 of
                            [] \<Rightarrow> (RuneError, 1)
                          | b2 # rest2 \<Rightarrow>
                              if \<not> cont b2 then (RuneError, 1)
                              else if p \<le> 0xEF then
                                (unat (p AND 0x0F) * 4096 + unat (b1 AND 0x3F) * 64 + unat (b2 AND 0x3F), 3)
                              else (case rest2 of
                                      [] \<Rightarrow> (RuneError, 1)
                                    | b3 # _ \<Rightarrow>
                                        if \<not> cont b3 then (RuneError, 1)
                                        else (unat (p AND 0x07) * 262144 + unat (b1 AND 0x3F) * 4096 +
                                              unat (b2 AND 0x3F) * 64 + unat (b3 AND 0x3F), 4)))))"

text \<open>\<^verbatim>\<open>for i, r := range s\<close>: the runes of a string, each with the bytes it was read from.\<close>

lemma DecodeRune_width: "s \<noteq> [] \<Longrightarrow> DecodeRune s = (r, w) \<Longrightarrow> 1 \<le> w \<and> w \<le> length s"
  by (auto simp: DecodeRune_def split: list.splits if_splits)

function runes :: "bytes \<Rightarrow> (nat \<times> bytes) list" where
  "runes s = (if s = [] then [] else case DecodeRune s of (r, w) \<Rightarrow> (r, take w s) # runes (drop w s))"
  by pat_completeness auto
termination
  by (relation "measure length") (auto dest!: DecodeRune_width [OF _ sym])

declare runes.simps [simp del]

lemma concat_runes: "concat (map snd (runes s)) = s"
proof (induction s rule: runes.induct)
  case (1 s)
  show ?case
  proof (cases "s = []")
    case True
    then show ?thesis by (simp add: runes.simps)
  next
    case False
    obtain r w where d: "DecodeRune s = (r, w)" by (cases "DecodeRune s")
    have "concat (map snd (runes (drop w s))) = drop w s"
      using "1" [OF False d [symmetric]] by simp
    with False d show ?thesis by (simp add: runes.simps [of s])
  qed
qed

section \<open>strconv.Quote\<close>

text \<open>
  The verb \<^verbatim>\<open>%q\<close>. Which runes above \<^verbatim>\<open>0xFF\<close> are printable is a table of the library: \<open>isPrint\<close>,
  a parameter.
\<close>

definition IsPrint :: "(nat \<Rightarrow> bool) \<Rightarrow> nat \<Rightarrow> bool" where
  "IsPrint isPrint r =
     (if r \<le> 0xFF then 0x20 \<le> r \<and> r < 0x7F \<or> 0xA1 \<le> r \<and> r \<noteq> 0xAD else isPrint r)"

fun hex_digits :: "nat \<Rightarrow> nat \<Rightarrow> string" where
  "hex_digits 0 v = ''''"
| "hex_digits (Suc n) v = hex_digits n (v div 16) @ [hex_digit (v mod 16)]"

definition escapedRune :: "(nat \<Rightarrow> bool) \<Rightarrow> nat \<Rightarrow> bytes \<Rightarrow> string" where
  "escapedRune isPrint r bs =
     (if r = RuneError \<and> length bs = 1 then bslash @ ''x'' @ hex_digits 2 (be_nat bs)
      else if r = 0x22 \<or> r = 0x5C then bslash @ string_of_bytes bs
      else if IsPrint isPrint r then string_of_bytes bs
      else if r = 7 then bslash @ ''a''
      else if r = 8 then bslash @ ''b''
      else if r = 12 then bslash @ ''f''
      else if r = 10 then bslash @ ''n''
      else if r = 13 then bslash @ ''r''
      else if r = 9 then bslash @ ''t''
      else if r = 11 then bslash @ ''v''
      else if r < 0x20 \<or> r = 0x7F then bslash @ ''x'' @ hex_digits 2 r
      else if r < 0x10000 then bslash @ ''u'' @ hex_digits 4 r
      else bslash @ ''U'' @ hex_digits 8 r)"

definition Quote :: "(nat \<Rightarrow> bool) \<Rightarrow> bytes \<Rightarrow> string" where
  "Quote isPrint s = dq @ concat (map (\<lambda>(r, bs). escapedRune isPrint r bs) (runes s)) @ dq"

section \<open>Laws of output\<close>

lemma bind_out_give [simp]: "bind_out (give x) f = f x"
  by (simp add: bind_out_def give_def split: prod.splits)

lemma bind_out_raise [simp]: "bind_out (raise p) f = raise p"
  by (simp add: bind_out_def raise_def)

lemma bind_out_Print [simp]: "bind_out (Print s) f = (s @ fst (f ()), snd (f ()))"
  by (simp add: bind_out_def Print_def split: prod.splits)

lemma bind_out_lift [simp]: "bind_out (lift_out (Inr x)) f = f x"  "bind_out (lift_out (Inl p)) f = raise p"
  by (simp_all add: bind_out_def lift_out_def raise_def split: prod.splits)

lemma snd_Print [simp]: "snd (Print s) = Inr ()" "fst (Print s) = s"
  by (simp_all add: Print_def)

lemma snd_give [simp]: "snd (give x) = Inr x" "fst (give x) = ''''"
  by (simp_all add: give_def)

lemma bind_out_ok: "snd m = Inr x \<Longrightarrow> bind_out m f = (fst m @ fst (f x), snd (f x))"
  by (cases m) (simp add: bind_out_def split: prod.splits)

text \<open>A sequence of statements ends well when each does, and then prints what each prints.\<close>

lemma seq_out_ok:
  "(\<And>m. m \<in> set ms \<Longrightarrow> snd m = Inr ()) \<Longrightarrow> seq_out ms = (concat (map fst ms), Inr ())"
  by (induction ms) (simp_all add: bind_out_ok give_def)

lemma bind_panic_Inr [simp]: "bind_panic (Inr x) f = f x"
  by (simp add: bind_panic_def)

lemma bind_panic_Inl [simp]: "bind_panic (Inl p) f = Inl p"
  by (simp add: bind_panic_def)

section \<open>Laws of hexadecimal strings\<close>

lemma high_nibble_less [simp]: "unat (b :: byte) div 16 < 16"
  using unat_byte_less [of b] by linarith

lemma of_char_char_of_byte [simp]: "n < 256 \<Longrightarrow> (of_char (char_of n) :: byte) = word_of_nat n"
  by (simp add: word_unat_eq_iff)

lemma fromHexChar_hex_digit: "n < 16 \<Longrightarrow> fromHexChar (of_char (hex_digit n)) = Some (word_of_nat n)"
  by (auto simp: fromHexChar_def hex_digit_def word_le_nat_alt unat_of_nat)

lemma lower_hex_digit: "n < 16 \<Longrightarrow> lower_char (hex_digit n) = hex_digit n"
  by (auto simp: lower_char_def hex_digit_def)

lemma nibbles_join: "push_bit 4 (word_of_nat (unat b div 16)) OR word_of_nat (unat b mod 16) = (b :: byte)"
proof -
  have "unat b div 16 < 256" using unat_byte_less [of b] by linarith
  then have "word_of_nat (unat b div 16) = (drop_bit 4 b :: byte)"
    by (simp add: word_unat_eq_iff unat_drop_bit_eq drop_bit_eq_div unat_div unat_of_nat)
  moreover have "word_of_nat (unat b mod 16) = (take_bit 4 b :: byte)"
    by (simp add: word_unat_eq_iff unsigned_take_bit_eq take_bit_eq_mod unat_of_nat unat_mod)
  ultimately show ?thesis
    by (auto intro!: bit_eqI simp: bit_simps)
qed

lemma DecodeString_EncodeToString [simp]: "DecodeString (EncodeToString b) = Inr b"
proof (induction b)
  case Nil
  then show ?case by (simp add: DecodeString_def bytes_of_string_def)
next
  case (Cons b bs)
  then show ?case
    by (simp add: DecodeString_def bytes_of_string_def fromHexChar_hex_digit nibbles_join)
qed

lemma ToLower_EncodeToString [simp]: "ToLower (EncodeToString b) = EncodeToString b"
  by (induction b) (simp_all add: ToLower_def lower_hex_digit)

lemma length_hexDecode: "hexDecode s = Inr b \<Longrightarrow> length s = 2 * length b"
  by (induction s arbitrary: b rule: hexDecode.induct) (auto split: option.splits sum.splits)

text \<open>A string of hexadecimal digits of even length decodes, to half as many bytes.\<close>

definition hex_string :: "nat \<Rightarrow> string \<Rightarrow> bool" where
  "hex_string n s \<longleftrightarrow> length s = 2 * n \<and> list_all (\<lambda>c. fromHexChar (of_char c) \<noteq> None) s"

lemma hexDecode_total:
  "length s = 2 * n \<Longrightarrow> list_all (\<lambda>c. fromHexChar c \<noteq> None) s \<Longrightarrow> \<exists>b. hexDecode s = Inr b \<and> length b = n"
proof (induction s arbitrary: n rule: hexDecode.induct)
  case (3 p q rest)
  then obtain m x y where n: "n = Suc m" "fromHexChar p = Some x" "fromHexChar q = Some y"
    by (cases n) auto
  from "3.IH" [OF n(2,3), of m] "3.prems" n obtain b where "hexDecode rest = Inr b" "length b = m" by auto
  with n show ?case by auto
qed auto

lemma DecodeString_total:
  assumes "hex_string n s"
  shows "\<exists>b. DecodeString s = Inr b \<and> length b = n"
proof -
  have "list_all (\<lambda>c. fromHexChar c \<noteq> None) (bytes_of_string s)"
    using assms by (simp add: hex_string_def bytes_of_string_def list_all_iff)
  then show ?thesis
    using assms hexDecode_total [of "bytes_of_string s" n] by (simp add: hex_string_def DecodeString_def)
qed

lemmas hex_string_simps = hex_string_def fromHexChar_def ToLower_def lower_char_def

section \<open>Varints are prefix-free\<close>

lemma uvarint_small: "v < 128 \<Longrightarrow> uvarint v = [word_of_nat v]"
  by (simp add: uvarint.simps)

lemma uvarint_large: "\<not> v < 128 \<Longrightarrow> uvarint v = word_of_nat (v mod 128 + 128) # uvarint (v div 128)"
  by (simp add: uvarint.simps)

lemma uvarint_not_Nil [simp]: "uvarint v \<noteq> []"
  by (cases "v < 128") (simp_all add: uvarint_small uvarint_large)

lemma byte_of_nat_eq: "m < 256 \<Longrightarrow> n < 256 \<Longrightarrow> (word_of_nat m :: byte) = word_of_nat n \<longleftrightarrow> m = n"
  by (metis unat_word_of_nat_byte)

lemma uvarint_append_eq: "uvarint a @ r = uvarint b @ s \<longleftrightarrow> a = b \<and> r = s"
proof (induction a arbitrary: b rule: uvarint.induct)
  case (1 a)
  have m: "a mod 128 + 128 < 256" "b mod 128 + 128 < 256" by simp_all
  have n: "(word_of_nat v :: byte) \<noteq> word_of_nat (w mod 128 + 128)" if "v < 128" for v w
    using that byte_of_nat_eq [of v "w mod 128 + 128"] by simp
  show ?case
  proof (cases "a < 128"; cases "b < 128")
    assume "\<not> a < 128" "\<not> b < 128"
    moreover have "a mod 128 = b mod 128 \<and> a div 128 = b div 128 \<longleftrightarrow> a = b"
      by (metis div_mult_mod_eq)
    ultimately show ?thesis
      using 1 [of "b div 128"] byte_of_nat_eq [OF m] by (auto simp: uvarint_large simp del: of_nat_add)
  qed (use n [of a b] n [of b a] in \<open>auto simp: uvarint_small uvarint_large byte_of_nat_eq simp del: of_nat_add\<close>)
qed

section \<open>Byte order and sorting\<close>

lemma Compare_neg: "Compare a b < 0 \<longleftrightarrow> bytes_less a b"
  by (induction a b rule: Compare.induct) auto

lemma Compare_zero: "Compare a b = 0 \<longleftrightarrow> a = b"
  by (induction a b rule: Compare.induct) auto

lemma Compare_pos: "Compare a b > 0 \<longleftrightarrow> bytes_less b a"
  by (induction a b rule: Compare.induct) auto

lemma bytes_less_append [simp]: "bytes_less (p @ a) (p @ b) \<longleftrightarrow> bytes_less a b"
  by (induction p) auto

lemma bytes_less_irrefl [simp]: "\<not> bytes_less a a"
  by (induction a) auto

lemma bytes_less_trans: "bytes_less a b \<Longrightarrow> bytes_less b c \<Longrightarrow> bytes_less a c"
proof (induction a b arbitrary: c rule: bytes_less.induct)
  case (3 a as b bs)
  then show ?case by (cases c) auto
qed (auto elim: bytes_less.elims)

lemma bytes_less_total: "a \<noteq> b \<Longrightarrow> bytes_less a b \<or> bytes_less b a"
  by (induction a b rule: bytes_less.induct) (auto simp: neq_Nil_conv)

text \<open>
  The contract of \<^verbatim>\<open>sort.Slice\<close> with a comparison of keys. The library's sort is not stable; the last
  law says that with distinct keys no other result is possible.
\<close>

locale key_order =
  fixes lt :: "'k \<Rightarrow> 'k \<Rightarrow> bool"
  assumes irrefl: "\<not> lt a a"
    and trans: "lt a b \<Longrightarrow> lt b c \<Longrightarrow> lt a c"
    and total: "a \<noteq> b \<Longrightarrow> lt a b \<or> lt b a"
begin

lemma mset_insert_by: "mset (insert_by cmp x xs) = add_mset x (mset xs)"
  by (induction xs) auto

lemma mset_sort_slice: "mset (sort_slice cmp xs) = mset xs"
  by (induction xs) (simp_all add: sort_slice_def mset_insert_by)

lemma set_sort_slice: "set (sort_slice cmp xs) = set xs"
  by (metis mset_sort_slice set_mset_mset)

lemma set_insert_by: "set (insert_by cmp x xs) = insert x (set xs)"
  by (metis mset_insert_by set_mset_add_mset_insert set_mset_mset)

lemma weak_trans: "lt b c \<Longrightarrow> \<not> lt b a \<Longrightarrow> lt a c"
  by (metis total trans)

lemma sorted_insert_by:
  "sorted_wrt (\<lambda>x y. \<not> lt (f y) (f x)) xs \<Longrightarrow>
   sorted_wrt (\<lambda>x y. \<not> lt (f y) (f x)) (insert_by (\<lambda>x y. lt (f x) (f y)) x xs)"
  by (induction xs) (auto simp: set_insert_by simp: irrefl dest: trans weak_trans)

lemma sorted_sort_slice: "sorted_wrt (\<lambda>x y. \<not> lt (f y) (f x)) (sort_slice (\<lambda>x y. lt (f x) (f y)) xs)"
  by (induction xs) (simp_all add: sort_slice_def sorted_insert_by)

lemma distinct_sort_slice: "distinct (map f (sort_slice cmp xs)) \<longleftrightarrow> distinct (map f xs)"
  by (metis mset_map mset_sort_slice mset_eq_imp_distinct_iff)

lemma strict_of_sorted:
  "sorted_wrt (\<lambda>x y. \<not> lt (f y) (f x)) xs \<Longrightarrow> distinct (map f xs) \<Longrightarrow> sorted_wrt (\<lambda>x y. lt (f x) (f y)) xs"
  by (induction xs) (auto dest: total)

lemma strict_sort_slice:
  "distinct (map f xs) \<Longrightarrow> sorted_wrt (\<lambda>x y. lt (f x) (f y)) (sort_slice (\<lambda>x y. lt (f x) (f y)) xs)"
  by (simp add: strict_of_sorted sorted_sort_slice distinct_sort_slice)

lemma strict_unique:
  "sorted_wrt (\<lambda>x y. lt (f x) (f y)) xs \<Longrightarrow> sorted_wrt (\<lambda>x y. lt (f x) (f y)) ys \<Longrightarrow> mset xs = mset ys \<Longrightarrow> xs = ys"
proof (induction xs arbitrary: ys)
  case (Cons x xs)
  from Cons.prems(3) obtain y zs where ys: "ys = y # zs" by (cases ys) auto
  have "x \<in> set ys" "y \<in> set (x # xs)"
    using Cons.prems(3) ys by (metis list.set_intros(1) set_mset_mset)+
  then have "x = y"
    using Cons.prems(1,2) ys irrefl trans by (metis list.set_intros set_ConsD sorted_wrt.simps(2))
  with Cons ys show ?case by simp
qed simp

lemma sort_slice_unique:
  assumes "mset ys = mset xs" and "sorted_wrt (\<lambda>x y. \<not> lt (f y) (f x)) ys" and d: "distinct (map f xs)"
  shows "ys = sort_slice (\<lambda>x y. lt (f x) (f y)) xs"
proof -
  have "distinct (map f ys)"
    using assms by (metis mset_map mset_eq_imp_distinct_iff)
  with assms show ?thesis
    by (intro strict_unique [where f = f]) (simp_all add: strict_of_sorted strict_sort_slice mset_sort_slice)
qed

end

interpretation byte_order: key_order bytes_less
  by unfold_locales (auto intro: bytes_less_trans dest: bytes_less_total)

end
