(* ===== verification/TestClient.thy ===== *)
theory TestClient
  imports GoLib CometCodec CoreStore
begin

text \<open>
  The tool \<^verbatim>\<open>src/tools/gen-ibc-test-client/main.go\<close>: it prints the arguments of a scripted handshake and the
  commitments the core realm is expected to store. The package-level variables are a record built
  by \<open>package_init\<close>; a function that reads them takes the record. Keccak-256 (\<^verbatim>\<open>golang.org/x/crypto/sha3\<close>)
  and the table of printable runes are parameters.
\<close>

section \<open>Constants\<close>

definition realmPath :: string where "realmPath = ''gno.land/r/onbloc/unionibc/v1/core''"
definition devnetChainID :: string where "devnetChainID = ''union-devnet-1337''"
definition devnetHeight :: u64 where "devnetHeight = 3405691582"
definition devnetTimeSeconds :: u64 where "devnetTimeSeconds = 1732205251"
definition devnetTimeNanos :: u64 where "devnetTimeNanos = 998131342"
definition proofHeight :: u64 where "proofHeight = devnetHeight - 1"
definition clientID :: u32 where "clientID = 1"
definition counterpartyClientID :: u32 where "counterpartyClientID = 99"
definition connectionID :: u32 where "connectionID = 1"
definition counterpartyConnectionID :: u32 where "counterpartyConnectionID = 77"
definition channelID :: u32 where "channelID = 1"
definition counterpartyChannelID :: u32 where "counterpartyChannelID = 2"
definition portID :: string where "portID = ''gno.land/r/onbloc/unionibc/v1/apps/zkgm''"
definition counterpartyPortID :: string where "counterpartyPortID = ''gno.land/r/onbloc/unionibc/v1/apps/zkgm''"
definition version :: string where "version = ''ucs03-zkgm-0''"
definition clientType :: string where "clientType = ''cometbls''"
definition trustingPeriod :: u64 where "trustingPeriod = 10 * 365 * 24 * 3600 * 1000000000"
definition updatedTrustPeriod :: u64 where "updatedTrustPeriod = trustingPeriod"
definition maxClockDrift :: u64 where "maxClockDrift = 10 * 1000000000"
definition frozenHeight :: u64 where "frozenHeight = 0"

definition mustHex :: "string \<Rightarrow> panic + bytes" where
  "mustHex s = (case DecodeString (ToLower s) of Inl err \<Rightarrow> Inl (PanicHex err) | Inr bz \<Rightarrow> Inr bz)"

text \<open>The package-level variables, in the order of their initialisation.\<close>

record vars =
  devnetAppHash :: bytes
  devnetValidatorsHash :: bytes
  contractAddress :: bytes
  z35Root :: bytes
  z35ConnectionTryProof :: bytes
  z35ChannelTryProof :: bytes
  devnetZKP :: bytes

definition package_init :: "panic + vars" where
  "package_init =
     bind_panic (mustHex ''EE7E3E58F98AC95D63CE93B270981DF3EE54CA367F8D521ED1F444717595CD36'') (\<lambda>v0.
     bind_panic (mustHex ''20DDFE7A0F75C65D876316091ECCD494A54A2BB324C872015F73E528D53CB9C4'') (\<lambda>v1.
     bind_panic (mustHex ''0cf2ffe8f45a20514018173d3007644817a9767dc0fbdb246696fd9c261ce3bc'') (\<lambda>v2.
     bind_panic (mustHex ''e86ffd094be9dde9459f6c88333e663785f4f88adc7f3f91a55e166a3cfa89d1'') (\<lambda>v3.
     bind_panic (mustHex (''0add010ada010a2005f3c8eef62e74b10b7ee910fcc73c8358000f692d9ce2341a989e008e45b35d1220ff4fb67348c1'' @
       ''6e70c898c7cf43c460a684bc900d2b41e5a24ef6dcb2945860341a0d08011000180120012a03000202222b0801120402'' @
       ''0402201a212075fa5fd43f02dfcbcb0d9d1091ef50e8878f62e295bc58e670579fff822312c7222b0801120404080220'' @
       ''1a21208d76df01234dbce513db8913f231e2ad27b505ea2641f38079cd7d4e79136417222b08011204061002201a2120'' @
       ''23a5b9a52805603bebfa4b8d9153918f6bb74d8c190a95fb17651f3c228e15070a360a340a0369626312203b0e2fd01a'' @
       ''894dc222e13ce7f5cfb397176764abe6376a7b7e63b2dfb9952a981a0b08011000180120012a0100'')) (\<lambda>v4.
     bind_panic (mustHex (''0ad9010ad6010a2088601476d11616a71c5be67555bd1dff4b1cbf21533d2669b768b61518cfe1c31220fa3c11d224a1'' @
       ''64cd0beca2b6756128dc1531714a75813e9c2b5840bd8f2a83471a0d08011000180120012a0300020222290801122502'' @
       ''040220fc911eec9c73d4884020ebb7d0173bfb0739579e4e64c63585a1e61466f11fc120222908011225040802209581'' @
       ''d4d357f7e8f0d772870c181754178423903f17e5a481ecf11eb2688ff79e20222b08011204061002201a212023a5b9a5'' @
       ''2805603bebfa4b8d9153918f6bb74d8c190a95fb17651f3c228e15070a360a340a0369626312203b0e2fd01a894dc222'' @
       ''e13ce7f5cfb397176764abe6376a7b7e63b2dfb9952a981a0b08011000180120012a0100'')) (\<lambda>v5.
     bind_panic (mustHex (''03CF56142A1E03D2445A82100FEAF70C1CD95A731ED85792AFFF5792EC0BDD2108991BB56F9043A269F88903DE616A9A'' @
       ''B99A3C5AB778E566744B060456C5616C06BCE7F1930421768C2CBD79F88D08EC3A52D7C9A867064E973064385E9C945E'' @
       ''02951190DD7CE1662546733DD540188C96E608CA750FEF36B39E2577833634C70AE6F1A6D00DC6C21446AAF285EF35D9'' @
       ''44E8782B131300574F9A889C7E708A2325E9A78013BBE869D38B19C602DAF69644C77D177E99ED76398BCEE13C61FDBF'' @
       ''2E178A5BA028A36033E54D1D9A0071E82E04079A5305347EBAC6D66F6EBFA48B1DA1BF9DC5A51EFA292E1DC7B85D26F1'' @
       ''8422EB386C48CA75434039764448BB96268DDC2CF683DDCA4BD83DF21C5631CF784375EEBE77EABC2DE77886BF1D4839'' @
       ''2C9C52E063B4A7131EAB9ABBA12A9F26888BC37366D41AC7D4BAC0BF6755ACB009BF9F36F380B6D0EEAABF066503A1B6'' @
       ''E01DCC965D968D7694E01B1755E6BDD21C7A80B41682748F9B7151714BE34AA79AAD48BBB2A84525F6CDF812658C6E4F'')) (\<lambda>v6.
     Inr \<lparr>devnetAppHash = v0,
       devnetValidatorsHash = v1,
       contractAddress = v2,
       z35Root = v3,
       z35ConnectionTryProof = v4,
       z35ChannelTryProof = v5,
       devnetZKP = v6\<rparr>)))))))"

section \<open>Words and ABI encoding\<close>

text \<open>A Go array of 32 zero bytes with a big-endian integer written at its end.\<close>

definition word :: "u64 \<Rightarrow> bytes" where
  "word n = replicate 24 0 @ PutUint64 n"

definition bytes32 :: "bytes \<Rightarrow> panic + bytes" where
  "bytes32 bz =
     (if length bz \<noteq> 32 then Inl (PanicString (''expected 32 bytes, got '' @ digits (length bz)))
      else Inr (copy32 bz))"

definition slot :: "u32 \<Rightarrow> bytes" where
  "slot n = replicate 28 0 @ PutUint32 n"

definition u32ToH256 :: "u32 \<Rightarrow> bytes" where
  "u32ToH256 n = replicate 28 0 @ PutUint32 n"

definition u64ToH256 :: "u64 \<Rightarrow> bytes" where
  "u64ToH256 n = replicate 24 0 @ PutUint64 n"

definition keccak256 :: "hash \<Rightarrow> bytes \<Rightarrow> bytes" where
  "keccak256 kc data = copy32 (kc data)"

definition clientStatePath :: "hash \<Rightarrow> u32 \<Rightarrow> bytes" where
  "clientStatePath kc clientId = keccak256 kc (concat [slot 0, u32ToH256 clientId])"

definition consensusStatePath :: "hash \<Rightarrow> u32 \<Rightarrow> u64 \<Rightarrow> bytes" where
  "consensusStatePath kc clientId height = keccak256 kc (concat [slot 1, u32ToH256 clientId, u64ToH256 height])"

definition connectionPath :: "hash \<Rightarrow> u32 \<Rightarrow> bytes" where
  "connectionPath kc connectionId = keccak256 kc (concat [slot 2, u32ToH256 connectionId])"

definition channelPath :: "hash \<Rightarrow> u32 \<Rightarrow> bytes" where
  "channelPath kc channelId = keccak256 kc (concat [slot 3, u32ToH256 channelId])"

record abiValue =
  dynamic :: bool
  data :: bytes

definition staticValue :: "bytes \<Rightarrow> abiValue" where
  "staticValue d = \<lparr>dynamic = False, data = d\<rparr>"

definition dynamicValue :: "bytes \<Rightarrow> abiValue" where
  "dynamicValue d = \<lparr>dynamic = True, data = d\<rparr>"

text \<open>\<open>abiLoop\<close> is the loop of \<open>abiEncode\<close>, with the bytes of \<open>head\<close> and \<open>tail\<close> so far.\<close>

fun abiLoop :: "nat \<Rightarrow> abiValue list \<Rightarrow> bytes \<Rightarrow> bytes \<Rightarrow> bytes" where
  "abiLoop headLen [] head tail = head @ tail"
| "abiLoop headLen (v # vs) head tail =
     (if dynamic v then abiLoop headLen vs (head @ word (word_of_nat (headLen + length tail))) (tail @ data v)
      else abiLoop headLen vs (head @ data v) tail)"

definition abiEncode :: "abiValue list \<Rightarrow> bytes" where
  "abiEncode values = abiLoop (length values * 32) values [] []"

definition abiEncodeStatic :: "bytes list \<Rightarrow> bytes" where
  "abiEncodeStatic words = concat words"

definition abiBytes :: "bytes \<Rightarrow> bytes" where
  "abiBytes bz =
     (let pad = (32 - length bz mod 32) mod 32
      in word (word_of_nat (length bz)) @ bz @ (if pad > 0 then replicate pad 0 else []))"

definition abiString :: "string \<Rightarrow> bytes" where
  "abiString s = abiBytes (bytes_of_string s)"

definition encodeClientState :: "vars \<Rightarrow> string \<Rightarrow> u64 \<Rightarrow> u64 \<Rightarrow> u64 \<Rightarrow> u64 \<Rightarrow> panic + bytes" where
  "encodeClientState v chainID trusting drift frozen latestHeight =
     (let chainIDBytes = copy32 (bytes_of_string chainID)
      in bind_panic (bytes32 (contractAddress v)) (\<lambda>addr.
         Inr (abiEncodeStatic [chainIDBytes, word trusting, word drift, word frozen, word latestHeight, addr])))"

definition encodeConsensusState :: "u64 \<Rightarrow> bytes \<Rightarrow> bytes \<Rightarrow> panic + bytes" where
  "encodeConsensusState timestamp appHash nextValidatorsHash =
     bind_panic (bytes32 appHash) (\<lambda>a. bind_panic (bytes32 nextValidatorsHash) (\<lambda>n.
     Inr (abiEncodeStatic [word timestamp, a, n])))"

record header =
  h_Height :: u64
  h_TimeSeconds :: u64
  h_TimeNanos :: u64
  h_ValidatorsHash :: bytes
  h_NextValidatorsHash :: bytes
  h_AppHash :: bytes
  h_TrustedHeight :: u64
  h_ZKP :: bytes

definition encodeHeader :: "header \<Rightarrow> panic + bytes" where
  "encodeHeader h =
     bind_panic (bytes32 (h_ValidatorsHash h)) (\<lambda>vh.
     bind_panic (bytes32 (h_NextValidatorsHash h)) (\<lambda>nvh.
     bind_panic (bytes32 (h_AppHash h)) (\<lambda>ah.
     Inr (abiEncode
       [staticValue (word (h_Height h)), staticValue (word (h_TimeSeconds h)), staticValue (word (h_TimeNanos h)),
        staticValue vh, staticValue nvh, staticValue ah, staticValue (word (h_TrustedHeight h)),
        dynamicValue (abiBytes (h_ZKP h))]))))"

record connection =
  c_State :: byte
  c_ClientID :: u32
  c_CounterpartyClientID :: u32
  c_CounterpartyConnectionID :: u32

definition encodeConnection :: "connection \<Rightarrow> bytes" where
  "encodeConnection c =
     abiEncodeStatic [word (ucast (c_State c)), word (ucast (c_ClientID c)), word (ucast (c_CounterpartyClientID c)),
       word (ucast (c_CounterpartyConnectionID c))]"

record channel =
  ch_State :: byte
  ch_ConnectionID :: u32
  ch_CounterpartyChannelID :: u32
  ch_CounterpartyPortID :: bytes
  ch_Version :: string

definition encodeChannel :: "channel \<Rightarrow> bytes" where
  "encodeChannel c =
     abiEncode
       [staticValue (word (ucast (ch_State c))), staticValue (word (ucast (ch_ConnectionID c))),
        staticValue (word (ucast (ch_CounterpartyChannelID c))), dynamicValue (abiBytes (ch_CounterpartyPortID c)),
        dynamicValue (abiString (ch_Version c))]"

section \<open>Arguments of the transactions\<close>

definition createClientArgs :: "vars \<Rightarrow> panic + string \<times> string" where
  "createClientArgs v =
     bind_panic (encodeClientState v devnetChainID trustingPeriod maxClockDrift frozenHeight proofHeight) (\<lambda>clientState.
     bind_panic (encodeConsensusState ((devnetTimeSeconds - 1000) * 1000000000) (devnetAppHash v)
       (devnetValidatorsHash v)) (\<lambda>consensusState.
     Inr (EncodeToString clientState, EncodeToString consensusState)))"

definition updateClientArgs :: "vars \<Rightarrow> panic + string" where
  "updateClientArgs v =
     bind_panic (encodeHeader
       \<lparr>h_Height = devnetHeight, h_TimeSeconds = devnetTimeSeconds, h_TimeNanos = devnetTimeNanos,
        h_ValidatorsHash = devnetValidatorsHash v, h_NextValidatorsHash = devnetValidatorsHash v,
        h_AppHash = devnetAppHash v, h_TrustedHeight = proofHeight, h_ZKP = devnetZKP v\<rparr>) (\<lambda>b.
     Inr (EncodeToString b))"

record proofArgs =
  a_ClientID :: u32
  a_CounterpartyClientID :: u32
  a_ConnectionID :: u32
  a_CounterpartyConnectionID :: u32
  a_ChannelID :: u32
  a_CounterpartyChannelID :: u32
  a_PortID :: string
  a_CounterpartyPortID :: string
  a_Version :: string
  a_CounterpartyVersion :: string
  a_ProofHex :: string
  a_ProofHeight :: u64

text \<open>The zero value, which a Go composite literal starts from.\<close>

definition zeroProofArgs :: proofArgs where
  "zeroProofArgs = \<lparr>a_ClientID = 0, a_CounterpartyClientID = 0, a_ConnectionID = 0, a_CounterpartyConnectionID = 0,
     a_ChannelID = 0, a_CounterpartyChannelID = 0, a_PortID = [], a_CounterpartyPortID = [], a_Version = [],
     a_CounterpartyVersion = [], a_ProofHex = [], a_ProofHeight = 0\<rparr>"

definition z35ConnectionTryProofHex :: "vars \<Rightarrow> string" where
  "z35ConnectionTryProofHex v = EncodeToString (z35ConnectionTryProof v)"

definition z35ChannelTryProofHex :: "vars \<Rightarrow> string" where
  "z35ChannelTryProofHex v = EncodeToString (z35ChannelTryProof v)"

definition connectionOpenTryArgs :: "vars \<Rightarrow> proofArgs" where
  "connectionOpenTryArgs v = zeroProofArgs
     \<lparr>a_ClientID := clientID, a_CounterpartyClientID := counterpartyClientID,
      a_CounterpartyConnectionID := connectionID, a_ProofHex := z35ConnectionTryProofHex v,
      a_ProofHeight := proofHeight\<rparr>"

definition connectionOpenAckArgs :: "vars \<Rightarrow> proofArgs" where
  "connectionOpenAckArgs v = zeroProofArgs
     \<lparr>a_ConnectionID := connectionID, a_CounterpartyConnectionID := counterpartyConnectionID,
      a_ProofHex := z35ConnectionTryProofHex v, a_ProofHeight := proofHeight\<rparr>"

definition connectionOpenConfirmArgs :: proofArgs where
  "connectionOpenConfirmArgs = zeroProofArgs
     \<lparr>a_ConnectionID := connectionID + 1, a_ProofHex := ''REPLACE_WITH_CONNECTION_OPEN_PROOF_HEX'',
      a_ProofHeight := proofHeight\<rparr>"

definition channelOpenInitArgs :: proofArgs where
  "channelOpenInitArgs = zeroProofArgs
     \<lparr>a_PortID := portID, a_CounterpartyPortID := counterpartyPortID, a_ConnectionID := connectionID,
      a_Version := version\<rparr>"

definition channelOpenTryArgs :: "vars \<Rightarrow> proofArgs" where
  "channelOpenTryArgs v = zeroProofArgs
     \<lparr>a_PortID := portID, a_ConnectionID := connectionID, a_CounterpartyPortID := counterpartyPortID,
      a_CounterpartyChannelID := counterpartyChannelID, a_Version := version, a_CounterpartyVersion := version,
      a_ProofHex := z35ChannelTryProofHex v, a_ProofHeight := proofHeight\<rparr>"

definition channelOpenAckArgs :: "vars \<Rightarrow> proofArgs" where
  "channelOpenAckArgs v = zeroProofArgs
     \<lparr>a_ChannelID := channelID, a_CounterpartyVersion := version,
      a_CounterpartyChannelID := counterpartyChannelID, a_ProofHex := z35ChannelTryProofHex v,
      a_ProofHeight := proofHeight\<rparr>"

definition channelOpenConfirmArgs :: proofArgs where
  "channelOpenConfirmArgs = zeroProofArgs
     \<lparr>a_ChannelID := channelID + 1, a_ProofHex := ''REPLACE_WITH_CHANNEL_OPEN_PROOF_HEX'',
      a_ProofHeight := proofHeight\<rparr>"

section \<open>Printing\<close>

text \<open>The verb \<^verbatim>\<open>%d\<close> on the two unsigned types.\<close>

definition d32 :: "u32 \<Rightarrow> string" where
  "d32 n = digits (unat n)"

definition d64 :: "u64 \<Rightarrow> string" where
  "d64 n = digits (unat n)"

definition printSection :: "string \<Rightarrow> string \<Rightarrow> string \<Rightarrow> unit out" where
  "printSection n name source =
     seq_out [Print (nl @ ''['' @ n @ ''] '' @ name @ nl), Print (''source='' @ source @ nl)]"

definition printCommit :: "string \<Rightarrow> bytes \<Rightarrow> bytes \<Rightarrow> unit out" where
  "printCommit label key value =
     (let paramsKey = ''vm:'' @ realmPath @ '':'' @ EncodeToString key;
          proofData = EncodeToString (bytes_of_string (''/pv/'' @ paramsKey))
      in seq_out
        [Print (label @ ''.params_key='' @ paramsKey @ nl),
         Print (label @ ''.proof_data=0x'' @ ToUpper proofData @ nl),
         Print (label @ ''.expected_value='' @ EncodeToString value @ nl),
         Print (label @ ''.abci_query=http://localhost:26657/abci_query?path=%22.store/main/key%22&data=0x'' @
           ToUpper proofData @ ''&prove=true'' @ nl)])"

definition printHeader :: "(nat \<Rightarrow> bool) \<Rightarrow> unit out" where
  "printHeader isPrint =
     seq_out
       [Print (''CORE_PATH='' @ realmPath @ nl),
        Print (''PROOF_HEIGHT='' @ d64 proofHeight @ nl),
        Print (''PORT_ID='' @ Quote isPrint (bytes_of_string portID) @ nl),
        Print (''COUNTERPARTY_PORT_ID='' @ Quote isPrint (bytes_of_string counterpartyPortID) @ nl),
        Print (''VERSION='' @ Quote isPrint (bytes_of_string version) @ nl @ nl)]"

definition printCreateClientRunScript :: "string \<Rightarrow> string \<Rightarrow> unit out" where
  "printCreateClientRunScript clientStateHex consensusStateHex =
     seq_out
       [Print (''RUN_SCRIPT=cat >/tmp/create_client.gno <<'' @ sq @ ''EOF'' @ sq @ nl),
        Print (''package main'' @ nl @ nl),
        Print (''import ('' @ nl),
        Print (tab @ dq @ ''encoding/hex'' @ dq @ nl @ nl),
        Print (tab @ ''core '' @ dq @ ''gno.land/r/onbloc/unionibc/v1/core'' @ dq @ nl),
        Print (tab @ ''cometbls '' @ dq @ ''gno.land/r/onbloc/unionibc/v1/lightclients/cometbls'' @ dq @ nl),
        Print ('')'' @ nl @ nl),
        Print (''func main() {'' @ nl),
        Print (tab @ ''clientState, err := hex.DecodeString('' @ dq @ clientStateHex @ dq @ '')'' @ nl),
        Print (tab @ ''if err != nil {'' @ nl),
        Print (tab @ tab @ ''panic(err)'' @ nl),
        Print (tab @ ''}'' @ nl @ nl),
        Print (tab @ ''consensusState, err := hex.DecodeString('' @ dq @ consensusStateHex @ dq @ '')'' @ nl),
        Print (tab @ ''if err != nil {'' @ nl),
        Print (tab @ tab @ ''panic(err)'' @ nl),
        Print (tab @ ''}'' @ nl @ nl),
        Print (tab @ ''clientID := core.CreateClient(cross, core.MsgCreateClient{'' @ nl),
        Print (tab @ tab @ ''ClientType:          cometbls.ClientType,'' @ nl),
        Print (tab @ tab @ ''ClientStateBytes:    clientState,'' @ nl),
        Print (tab @ tab @ ''ConsensusStateBytes: consensusState,'' @ nl),
        Print (tab @ ''})'' @ nl),
        Print (tab @ ''println('' @ dq @ ''CreateClient'' @ dq @ '', clientID.String())'' @ nl),
        Print (''}'' @ nl),
        Print (''EOF'' @ nl),
        Print (''gnokey maketx run -gas-fee 1000000ugnot -gas-wanted 50000000 -broadcast -chainid dev '' @
          ''-remote tcp://127.0.0.1:26657 test1 /tmp/create_client.gno'' @ nl)]"

definition printCreateClient :: "hash \<Rightarrow> vars \<Rightarrow> unit out" where
  "printCreateClient kc v =
     bind_out (lift_out (createClientArgs v)) (\<lambda>(clientStateHex, consensusStateHex).
     seq_out
       [printSection ''1'' ''CreateClient'' ''createClientArgs, clientStatePath, consensusStatePath'',
        Print (''CLIENT_TYPE='' @ clientType @ nl),
        Print (''CLIENT_STATE_HEX='' @ clientStateHex @ nl),
        Print (''CONSENSUS_STATE_HEX='' @ consensusStateHex @ nl),
        printCreateClientRunScript clientStateHex consensusStateHex,
        bind_out (lift_out (mustHex clientStateHex)) (\<lambda>b.
          printCommit ''client state'' (clientStatePath kc clientID) (keccak256 kc b)),
        bind_out (lift_out (mustHex consensusStateHex)) (\<lambda>b.
          printCommit ''consensus state'' (consensusStatePath kc clientID proofHeight) (keccak256 kc b))])"

definition printUpdateClient :: "hash \<Rightarrow> vars \<Rightarrow> unit out" where
  "printUpdateClient kc v =
     bind_out (lift_out (updateClientArgs v)) (\<lambda>headerHex.
     bind_out (lift_out (encodeClientState v devnetChainID updatedTrustPeriod maxClockDrift frozenHeight devnetHeight))
       (\<lambda>updatedClientState.
     bind_out (lift_out (encodeConsensusState (devnetTimeSeconds * 1000000000 + devnetTimeNanos) (devnetAppHash v)
       (devnetValidatorsHash v))) (\<lambda>updatedConsensusState.
     seq_out
       [printSection ''2'' ''UpdateClient'' ''updateClientArgs, encodeHeader, encodeClientState, encodeConsensusState'',
        Print (''CLIENT_ID='' @ d32 clientID @ nl),
        Print (''CLIENT_MESSAGE_HEX='' @ headerHex @ nl),
        printCommit ''updated client state'' (clientStatePath kc clientID) (keccak256 kc updatedClientState),
        printCommit ''updated consensus state'' (consensusStatePath kc clientID devnetHeight)
          (keccak256 kc updatedConsensusState)])))"

definition printConnectionOpenInit :: "hash \<Rightarrow> unit out" where
  "printConnectionOpenInit kc =
     (let c = \<lparr>c_State = 1, c_ClientID = clientID, c_CounterpartyClientID = counterpartyClientID,
            c_CounterpartyConnectionID = 0\<rparr>
      in seq_out
        [printSection ''3'' ''ConnectionOpenInit'' ''connectionOpenInitArgs, encodeConnection, connectionPath'',
         Print (''CLIENT_ID='' @ d32 clientID @ nl),
         Print (''COUNTERPARTY_CLIENT_ID='' @ d32 counterpartyClientID @ nl),
         printCommit ''connection init'' (connectionPath kc connectionID) (keccak256 kc (encodeConnection c))])"

definition printConnectionOpenTry :: "hash \<Rightarrow> vars \<Rightarrow> unit out" where
  "printConnectionOpenTry kc v =
     (let args = connectionOpenTryArgs v;
          c = \<lparr>c_State = 2, c_ClientID = clientID, c_CounterpartyClientID = counterpartyClientID,
            c_CounterpartyConnectionID = a_CounterpartyConnectionID args\<rparr>
      in seq_out
        [printSection ''4'' ''ConnectionOpenTry''
           ''connectionOpenTryArgs, z35ConnectionTryProofHex, encodeConnection, connectionPath'',
         Print (''CLIENT_ID='' @ d32 (a_ClientID args) @ nl),
         Print (''COUNTERPARTY_CLIENT_ID='' @ d32 (a_CounterpartyClientID args) @ nl),
         Print (''COUNTERPARTY_CONNECTION_ID='' @ d32 (a_CounterpartyConnectionID args) @ nl),
         Print (''PROOF_INIT_HEX='' @ a_ProofHex args @ nl),
         Print (''PROOF_HEIGHT='' @ d64 (a_ProofHeight args) @ nl),
         printCommit ''connection try'' (connectionPath kc 2) (keccak256 kc (encodeConnection c))])"

definition printConnectionOpenAck :: "hash \<Rightarrow> vars \<Rightarrow> unit out" where
  "printConnectionOpenAck kc v =
     (let args = connectionOpenAckArgs v;
          c = \<lparr>c_State = 3, c_ClientID = clientID, c_CounterpartyClientID = counterpartyClientID,
            c_CounterpartyConnectionID = a_CounterpartyConnectionID args\<rparr>
      in seq_out
        [printSection ''5'' ''ConnectionOpenAck''
           ''connectionOpenAckArgs, z35ConnectionTryProofHex, encodeConnection, connectionPath'',
         Print (''CONNECTION_ID='' @ d32 (a_ConnectionID args) @ nl),
         Print (''COUNTERPARTY_CONNECTION_ID='' @ d32 (a_CounterpartyConnectionID args) @ nl),
         Print (''PROOF_TRY_HEX='' @ a_ProofHex args @ nl),
         Print (''PROOF_HEIGHT='' @ d64 (a_ProofHeight args) @ nl),
         printCommit ''connection open'' (connectionPath kc connectionID) (keccak256 kc (encodeConnection c))])"

definition printConnectionOpenConfirm :: "hash \<Rightarrow> unit out" where
  "printConnectionOpenConfirm kc =
     (let args = connectionOpenConfirmArgs;
          c = \<lparr>c_State = 3, c_ClientID = clientID, c_CounterpartyClientID = counterpartyClientID,
            c_CounterpartyConnectionID = connectionID\<rparr>
      in seq_out
        [printSection ''6'' ''ConnectionOpenConfirm'' ''connectionOpenConfirmArgs, encodeConnection, connectionPath'',
         Print (''CONNECTION_ID='' @ d32 (a_ConnectionID args) @ nl),
         Print (''PROOF_ACK_HEX='' @ a_ProofHex args @ nl),
         Print (''PROOF_HEIGHT='' @ d64 (a_ProofHeight args) @ nl),
         printCommit ''connection confirm/open'' (connectionPath kc 2) (keccak256 kc (encodeConnection c))])"

definition printChannelOpenInit :: "hash \<Rightarrow> unit out" where
  "printChannelOpenInit kc =
     (let args = channelOpenInitArgs;
          ch = \<lparr>ch_State = 1, ch_ConnectionID = a_ConnectionID args, ch_CounterpartyChannelID = 0,
            ch_CounterpartyPortID = bytes_of_string (a_CounterpartyPortID args), ch_Version = a_Version args\<rparr>
      in seq_out
        [printSection ''7'' ''ChannelOpenInit'' ''channelOpenInitArgs, encodeChannel, channelPath'',
         Print (''PORT_ID='' @ a_PortID args @ nl),
         Print (''COUNTERPARTY_PORT_ID='' @ a_CounterpartyPortID args @ nl),
         Print (''CONNECTION_ID='' @ d32 (a_ConnectionID args) @ nl),
         Print (''VERSION='' @ a_Version args @ nl),
         printCommit ''channel init'' (channelPath kc channelID) (keccak256 kc (encodeChannel ch))])"

definition printChannelOpenTry :: "hash \<Rightarrow> vars \<Rightarrow> unit out" where
  "printChannelOpenTry kc v =
     (let args = channelOpenTryArgs v;
          ch = \<lparr>ch_State = 2, ch_ConnectionID = a_ConnectionID args,
            ch_CounterpartyChannelID = a_CounterpartyChannelID args,
            ch_CounterpartyPortID = bytes_of_string (a_CounterpartyPortID args), ch_Version = a_Version args\<rparr>
      in seq_out
        [printSection ''8'' ''ChannelOpenTry'' ''channelOpenTryArgs, z35ChannelTryProofHex, encodeChannel, channelPath'',
         Print (''PORT_ID='' @ a_PortID args @ nl),
         Print (''CONNECTION_ID='' @ d32 (a_ConnectionID args) @ nl),
         Print (''COUNTERPARTY_PORT_ID='' @ a_CounterpartyPortID args @ nl),
         Print (''COUNTERPARTY_CHANNEL_ID='' @ d32 (a_CounterpartyChannelID args) @ nl),
         Print (''VERSION='' @ a_Version args @ nl),
         Print (''COUNTERPARTY_VERSION='' @ a_CounterpartyVersion args @ nl),
         Print (''PROOF_INIT_HEX='' @ a_ProofHex args @ nl),
         Print (''PROOF_HEIGHT='' @ d64 (a_ProofHeight args) @ nl),
         printCommit ''channel try'' (channelPath kc 2) (keccak256 kc (encodeChannel ch))])"

definition printChannelOpenAck :: "hash \<Rightarrow> vars \<Rightarrow> unit out" where
  "printChannelOpenAck kc v =
     (let args = channelOpenAckArgs v;
          ch = \<lparr>ch_State = 3, ch_ConnectionID = connectionID,
            ch_CounterpartyChannelID = a_CounterpartyChannelID args,
            ch_CounterpartyPortID = bytes_of_string counterpartyPortID, ch_Version = a_CounterpartyVersion args\<rparr>
      in seq_out
        [printSection ''9'' ''ChannelOpenAck'' ''channelOpenAckArgs, z35ChannelTryProofHex, encodeChannel, channelPath'',
         Print (''CHANNEL_ID='' @ d32 (a_ChannelID args) @ nl),
         Print (''COUNTERPARTY_VERSION='' @ a_CounterpartyVersion args @ nl),
         Print (''COUNTERPARTY_CHANNEL_ID='' @ d32 (a_CounterpartyChannelID args) @ nl),
         Print (''PROOF_TRY_HEX='' @ a_ProofHex args @ nl),
         Print (''PROOF_HEIGHT='' @ d64 (a_ProofHeight args) @ nl),
         printCommit ''channel open'' (channelPath kc channelID) (keccak256 kc (encodeChannel ch))])"

definition printChannelOpenConfirm :: "hash \<Rightarrow> unit out" where
  "printChannelOpenConfirm kc =
     (let args = channelOpenConfirmArgs;
          ch = \<lparr>ch_State = 3, ch_ConnectionID = connectionID, ch_CounterpartyChannelID = channelID,
            ch_CounterpartyPortID = bytes_of_string counterpartyPortID, ch_Version = version\<rparr>
      in seq_out
        [printSection ''10'' ''ChannelOpenConfirm'' ''channelOpenConfirmArgs, encodeChannel, channelPath'',
         Print (''CHANNEL_ID='' @ d32 (a_ChannelID args) @ nl),
         Print (''PROOF_ACK_HEX='' @ a_ProofHex args @ nl),
         Print (''PROOF_HEIGHT='' @ d64 (a_ProofHeight args) @ nl),
         printCommit ''channel confirm/open'' (channelPath kc 2) (keccak256 kc (encodeChannel ch))])"

definition main :: "hash \<Rightarrow> (nat \<Rightarrow> bool) \<Rightarrow> unit out" where
  "main kc isPrint =
     bind_out (lift_out package_init) (\<lambda>v.
     seq_out
       [printHeader isPrint,
        printCreateClient kc v,
        printUpdateClient kc v,
        printConnectionOpenInit kc,
        printConnectionOpenTry kc v,
        printConnectionOpenAck kc v,
        printConnectionOpenConfirm kc,
        printChannelOpenInit kc,
        printChannelOpenTry kc v,
        printChannelOpenAck kc v,
        printChannelOpenConfirm kc])"

section \<open>The tool runs to its end\<close>

lemma mustHex_total: "hex_string n (ToLower s) \<Longrightarrow> \<exists>b. mustHex s = Inr b \<and> length b = n"
  using DecodeString_total [of n "ToLower s"] by (auto simp: mustHex_def)

definition init_ok :: "panic + vars \<Rightarrow> bool" where
  "init_ok r \<longleftrightarrow> (\<exists>v. r = Inr v \<and> length (contractAddress v) = 32 \<and> length (devnetAppHash v) = 32 \<and>
     length (devnetValidatorsHash v) = 32 \<and> length (devnetZKP v) = 384)"

lemma bind_mustHex:
  assumes "hex_string (length s div 2) (ToLower s)" and "\<And>b. length b = length s div 2 \<Longrightarrow> init_ok (f b)"
  shows "init_ok (bind_panic (mustHex s) f)"
  using mustHex_total [OF assms(1)] assms(2) by auto

lemma package_init_ok: "init_ok package_init"
  unfolding package_init_def
  by (rule bind_mustHex, simp add: hex_string_simps)+
    (simp add: init_ok_def)

lemma bytes32_ok [simp]: "length b = 32 \<Longrightarrow> bytes32 b = Inr b"
  by (simp add: bytes32_def)

lemma bytes32_panic: "length b \<noteq> 32 \<Longrightarrow> \<exists>m. bytes32 b = Inl (PanicString m)"
  by (simp add: bytes32_def)

lemma mustHex_EncodeToString [simp]: "mustHex (EncodeToString b) = Inr b"
  by (simp add: mustHex_def)

lemma printCommit_ok [simp]: "snd (printCommit l k v) = Inr ()"
  by (simp add: printCommit_def Let_def)

lemma printSection_ok [simp]: "snd (printSection n m s) = Inr ()"
  by (simp add: printSection_def)

lemma snd_bind_out: "snd m = Inr x \<Longrightarrow> snd (bind_out m f) = snd (f x)"
  by (simp add: bind_out_ok)

lemma seq_out_snd:
  "snd (seq_out []) = Inr ()"
  "snd m = Inr () \<Longrightarrow> snd (seq_out (m # ms)) = snd (seq_out ms)"
  by (simp_all add: bind_out_ok)

lemma printRunScript_ok [simp]: "snd (printCreateClientRunScript a b) = Inr ()"
  by (simp add: printCreateClientRunScript_def)

text \<open>The tool prints everything it is meant to print: whatever the hash and the table of
  printable runes, none of its checks on hexadecimal strings and lengths panics.\<close>

theorem testclient_no_panic: "snd (main kc isPrint) = Inr ()"
proof -
  obtain v where v: "package_init = Inr v" "length (contractAddress v) = 32" "length (devnetAppHash v) = 32"
    "length (devnetValidatorsHash v) = 32"
    using package_init_ok unfolding init_ok_def by blast
  have "snd (printHeader isPrint) = Inr ()" by (simp add: printHeader_def)
  moreover have "snd (printCreateClient kc v) = Inr ()"
    using v by (simp add: printCreateClient_def createClientArgs_def encodeClientState_def
        encodeConsensusState_def Let_def seq_out_snd del: seq_out.simps)
  moreover have "snd (printUpdateClient kc v) = Inr ()"
    using v by (simp add: printUpdateClient_def updateClientArgs_def encodeClientState_def encodeHeader_def
        encodeConsensusState_def Let_def seq_out_snd del: seq_out.simps)
  moreover have "snd (printConnectionOpenInit kc) = Inr ()" "snd (printConnectionOpenTry kc v) = Inr ()"
    "snd (printConnectionOpenAck kc v) = Inr ()" "snd (printConnectionOpenConfirm kc) = Inr ()"
    by (simp_all add: printConnectionOpenInit_def printConnectionOpenTry_def printConnectionOpenAck_def
        printConnectionOpenConfirm_def Let_def seq_out_snd del: seq_out.simps)
  moreover have "snd (printChannelOpenInit kc) = Inr ()" "snd (printChannelOpenTry kc v) = Inr ()"
    "snd (printChannelOpenAck kc v) = Inr ()" "snd (printChannelOpenConfirm kc) = Inr ()"
    by (simp_all add: printChannelOpenInit_def printChannelOpenTry_def printChannelOpenAck_def
        printChannelOpenConfirm_def Let_def seq_out_snd del: seq_out.simps)
  ultimately show ?thesis
    unfolding main_def v(1) bind_out_lift by (simp add: seq_out_snd del: seq_out.simps)
qed

end
