(* ===== verification/TestClientAgree.thy ===== *)
theory TestClientAgree
  imports TestClient
begin

text \<open>
  The test-client generator against the code it generates inputs for: its hand-written encoders and
  commitment keys, compared with those of the core realm and of the CometBLS light client.
\<close>

section \<open>The tool against the realm and the light client\<close>

text \<open>The realm's records as the tool's.\<close>

definition tool_connection :: "Connection \<Rightarrow> connection" where
  "tool_connection c = \<lparr>c_State = connection_state_byte (conn_State c), c_ClientID = conn_ClientId c,
     c_CounterpartyClientID = conn_CounterpartyClientId c,
     c_CounterpartyConnectionID = conn_CounterpartyConnectionId c\<rparr>"

definition tool_channel :: "Channel \<Rightarrow> channel" where
  "tool_channel c = \<lparr>ch_State = channel_state_byte (chan_State c), ch_ConnectionID = chan_ConnectionId c,
     ch_CounterpartyChannelID = chan_CounterpartyChannelId c, ch_CounterpartyPortID = chan_CounterpartyPortId c,
     ch_Version = chan_Version c\<rparr>"

lemma word_eq: "word n = encodeUint64Word n"
  by (simp add: word_def encodeUint64Word_def)

lemma abiBytes_eq: "abiBytes b = encodeBytes b"
  by (simp add: abiBytes_def encodeBytes_def word_eq wordSize_def Let_def)

lemma encodeConnection_abi: "connection_EncodeABI c = Inr (encodeConnection (tool_connection c))"
  by (simp add: connection_EncodeABI_def connection_schema_def Encode_def wordSize_def encodeConnection_def
      abiEncodeStatic_def tool_connection_def word_eq)

lemma encodeChannel_abi: "channel_EncodeABI c = Inr (wrapABIEncode (encodeChannel (tool_channel c)))"
  by (simp add: channel_EncodeABI_def channel_schema_def Encode_def wordSize_def encodeChannel_def abiEncode_def
      tool_channel_def word_eq abiBytes_eq abiString_def staticValue_def dynamicValue_def)

lemma Keccak_keccak256: "digest32 kc \<Longrightarrow> Keccak kc b = keccak256 kc b"
  using map_nth [of "kc b"] by (simp add: Keccak_def keccak256_def digest32_def Let_def)

text \<open>C27: the tool computes the commitment keys of the realm, and the value it expects for a
  connection is the one the realm stores.\<close>

theorem testclient_commitments:
  assumes "digest32 kc"
  shows "clientStatePath kc c = ClientStatePath kc c \<and>
    consensusStatePath kc c h = ConsensusStatePath kc c (NewHeight h) \<and>
    connectionPath kc cn = ConnectionPath kc cn \<and> channelPath kc ch = ChannelPath kc ch \<and>
    connectionValue kc conn = Inr (keccak256 kc (encodeConnection (tool_connection conn)))"
proof -
  have "slot 0 = CLIENT_STATE" "slot 1 = CONSENSUS_STATE" "slot 2 = CONNECTIONS" "slot 3 = CHANNELS"
    by code_simp+
  moreover have "u32ToH256 n = IbcTypes.u32ToH256 n" "u64ToH256 m = IbcTypes.u64ToH256 m" for n m
    by (simp_all add: u32ToH256_def IbcTypes.u32ToH256_def u64ToH256_def IbcTypes.u64ToH256_def)
  ultimately show ?thesis
    using assms
    by (simp add: clientStatePath_def ClientStatePath_def consensusStatePath_def ConsensusStatePath_def
        connectionPath_def ConnectionPath_def channelPath_def ChannelPath_def Keccak_keccak256 NewHeight_def
        connectionValue_def encodeConnection_abi)
qed

theorem testclient_commitments_witness:
  "clientStatePath (\<lambda>b. replicate 32 7) 1 = ClientStatePath (\<lambda>b. replicate 32 7) 1 \<and>
    consensusStatePath (\<lambda>b. replicate 32 7) 1 5 = ConsensusStatePath (\<lambda>b. replicate 32 7) 1 (NewHeight 5) \<and>
    connectionPath (\<lambda>b. replicate 32 7) 2 = ConnectionPath (\<lambda>b. replicate 32 7) 2 \<and>
    channelPath (\<lambda>b. replicate 32 7) 3 = ChannelPath (\<lambda>b. replicate 32 7) 3 \<and>
    connectionValue (\<lambda>b. replicate 32 7) (NewConnection ConnectionStateOpen 1 99 77) =
      Inr (keccak256 (\<lambda>b. replicate 32 7) (encodeConnection (tool_connection (NewConnection ConnectionStateOpen 1 99 77))))"
  by (rule testclient_commitments) (simp add: digest32_def)

text \<open>The value the tool expects for a channel is not the one the realm stores. The realm
  hashes the tuple behind an offset word, as Solidity does for a dynamic struct; the tool leaves the
  offset out, so the two never hash the same bytes.\<close>

theorem testclient_channel_unwrapped:
  "channel_EncodeABI c = Inr (IbcTypes.u64ToH256 32 @ encodeChannel (tool_channel c)) \<and>
   channel_EncodeABI c \<noteq> Inr (encodeChannel (tool_channel c))"
  by (simp add: encodeChannel_abi wrapABIEncode_def) (metis append_self_conv2 length_u64ToH256 list.size(3) zero_neq_numeral)

definition client_state_of :: "vars \<Rightarrow> string \<Rightarrow> u64 \<Rightarrow> u64 \<Rightarrow> u64 \<Rightarrow> u64 \<Rightarrow> ClientState" where
  "client_state_of v chainID trusting drift frozen latest =
     \<lparr>cs_ChainID = chainID, cs_TrustingPeriod = trusting, cs_MaxClockDrift = drift, cs_FrozenHeight = NewHeight frozen,
      cs_LatestHeight = NewHeight latest, cs_ContractAddress = contractAddress v\<rparr>"

definition consensus_state_of :: "u64 \<Rightarrow> bytes \<Rightarrow> bytes \<Rightarrow> ConsensusState" where
  "consensus_state_of t root vals = \<lparr>cns_Timestamp = t, cns_Root = root, cns_NextValidatorsHash = vals\<rparr>"

definition header_of :: "header \<Rightarrow> Header" where
  "header_of h = \<lparr>hd_SignedHeader = Some \<lparr>lh_Height = h_Height h, lh_TimeSeconds = h_TimeSeconds h,
       lh_TimeNanos = ucast (h_TimeNanos h), lh_ValidatorsHash = h_ValidatorsHash h,
       lh_NextValidatorsHash = h_NextValidatorsHash h, lh_AppHash = h_AppHash h\<rparr>,
     hd_TrustedHeight = Some (NewHeight (h_TrustedHeight h)), hd_ZeroKnowledgeProof = h_ZKP h\<rparr>"

lemma copy32_take31:
  "copy32 (take 31 b) = copy32 b \<longleftrightarrow> length b \<le> 31 \<or> b ! 31 = 0"
proof (cases "length b \<le> 31")
  case False
  then have "take 32 b = take 31 b @ [b ! 31]" using take_Suc_conv_app_nth [of 31 b] by simp
  with False show ?thesis by (auto simp: copy32_def)
qed (simp add: copy32_def)

lemma encodeClientState_eq:
  assumes "length (contractAddress v) = 32"
  shows "EncodeClientState (client_state_of v chainID tp drift fh lh) = Inr b \<longleftrightarrow>
    b = copy32 (take 31 (bytes_of_string chainID)) @ word tp @ word drift @ word fh @ word lh @ contractAddress v"
    and "encodeClientState v chainID tp drift fh lh = Inr b \<longleftrightarrow>
    b = copy32 (bytes_of_string chainID) @ word tp @ word drift @ word fh @ word lh @ contractAddress v"
  using assms
  by (auto simp: EncodeClientState_def client_state_of_def Encode_client_state abiResult_def NewHeight_def word_eq
      encodeClientState_def abiEncodeStatic_def Let_def)

text \<open>The tool writes the client's encodings, with one exception: a chain id of 32 bytes or more,
  of which the light client keeps 31 and the tool 32.\<close>

theorem testclient_client_state:
  assumes "length (contractAddress v) = 32"
  shows "(\<exists>b. encodeClientState v chainID tp drift fh lh = Inr b \<and>
              EncodeClientState (client_state_of v chainID tp drift fh lh) = Inr b) \<longleftrightarrow>
    length chainID \<le> 31 \<or> chainID ! 31 = CHR 0x00"
proof -
  have "(\<exists>b. encodeClientState v chainID tp drift fh lh = Inr b \<and>
              EncodeClientState (client_state_of v chainID tp drift fh lh) = Inr b) \<longleftrightarrow>
    copy32 (take 31 (bytes_of_string chainID)) = copy32 (bytes_of_string chainID)"
    using assms by (auto simp: encodeClientState_eq)
  also have "\<dots> \<longleftrightarrow> length chainID \<le> 31 \<or> chainID ! 31 = CHR 0x00"
    unfolding copy32_take31
    by (cases "length chainID \<le> 31") (simp_all add: bytes_of_string_def of_char_zero)
  finally show ?thesis .
qed

definition sample_vars :: vars where
  "sample_vars = \<lparr>devnetAppHash = replicate 32 1, devnetValidatorsHash = replicate 32 2,
     contractAddress = replicate 32 3, z35Root = [], z35ConnectionTryProof = [], z35ChannelTryProof = [],
     devnetZKP = []\<rparr>"

theorem testclient_client_state_witness:
  "\<not> (\<exists>b. encodeClientState sample_vars (replicate 32 CHR ''a'') 5 1 0 7 = Inr b \<and>
     EncodeClientState (client_state_of sample_vars (replicate 32 CHR ''a'') 5 1 0 7) = Inr b)"
  by (subst testclient_client_state) (simp_all add: sample_vars_def)

lemma nanos_back:
  assumes "n < (2147483648 :: u64)"
  shows "(scast (ucast n :: 32 word) :: u64) = n"
proof -
  have "uint n < 2147483648" using assms by (simp add: word_less_def)
  then have u: "uint (ucast n :: 32 word) = uint n"
    by (simp add: unsigned_ucast_eq take_bit_int_eq_self)
  have "signed_take_bit 31 (uint n) = uint n"
    using \<open>uint n < 2147483648\<close> order_trans [OF _ uint_ge_0 [of n]]
    by (intro signed_take_bit_int_eq_self) simp_all
  then have s: "sint (ucast n :: 32 word) = uint n" using u by (simp add: sint_uint)
  show ?thesis unfolding scast_eq s by simp
qed

lemma toBytes32_eq: "toBytes32 b = Inr c \<longleftrightarrow> length b = 32 \<and> c = b"
  by (auto simp: toBytes32_def)

lemma bytes32_eq: "bytes32 b = Inr c \<longleftrightarrow> length b = 32 \<and> c = b"
  by (auto simp: bytes32_def)

lemma bind_panic_eq: "bind_panic r f = Inr y \<longleftrightarrow> (\<exists>x. r = Inr x \<and> f x = Inr y)"
  by (cases r) simp_all

lemma encodeConsensusState_eq:
  "encodeConsensusState t root vals = Inr d \<longleftrightarrow>
     length root = 32 \<and> length vals = 32 \<and> d = word t @ root @ vals"
  by (auto simp: encodeConsensusState_def bind_panic_eq bytes32_eq abiEncodeStatic_def)

lemma EncodeConsensusState_eq:
  "EncodeConsensusState (consensus_state_of t root vals) = Inr d \<longleftrightarrow>
     length root = 32 \<and> length vals = 32 \<and> d = word t @ root @ vals"
  by (auto simp: EncodeConsensusState_def consensus_state_of_def toBytes32_def Encode_consensus_state abiResult_def word_eq)

lemma encodeHeader_eq:
  "encodeHeader h = Inr b \<longleftrightarrow>
     length (h_ValidatorsHash h) = 32 \<and> length (h_NextValidatorsHash h) = 32 \<and> length (h_AppHash h) = 32 \<and>
     b = word (h_Height h) @ word (h_TimeSeconds h) @ word (h_TimeNanos h) @ h_ValidatorsHash h @
       h_NextValidatorsHash h @ h_AppHash h @ word (h_TrustedHeight h) @ word 256 @ encodeBytes (h_ZKP h)"
  by (auto simp: encodeHeader_def bind_panic_eq bytes32_eq abiEncode_def staticValue_def dynamicValue_def abiBytes_eq)

lemma EncodeHeader_eq:
  assumes "h_TimeNanos h < 2147483648"
  shows "EncodeHeader (Some (header_of h)) = Inr b \<longleftrightarrow>
     length (h_ValidatorsHash h) = 32 \<and> length (h_NextValidatorsHash h) = 32 \<and> length (h_AppHash h) = 32 \<and>
     b = word (h_Height h) @ word (h_TimeSeconds h) @ word (h_TimeNanos h) @ h_ValidatorsHash h @
       h_NextValidatorsHash h @ h_AppHash h @ word (h_TrustedHeight h) @ word 256 @ encodeBytes (h_ZKP h)"
  using nanos_back [OF assms]
  by (auto simp: EncodeHeader_def header_of_def toBytes32_def Encode_header abiResult_def word_eq NewHeight_def)

text \<open>The consensus states and headers the tool writes are, byte for byte, the ones the light
  client writes, and both refuse the same hashes.\<close>

theorem testclient_messages:
  assumes "h_TimeNanos h < 2147483648"
  shows "(encodeConsensusState t root vals = Inr d \<longleftrightarrow> EncodeConsensusState (consensus_state_of t root vals) = Inr d) \<and>
    (encodeHeader h = Inr b \<longleftrightarrow> EncodeHeader (Some (header_of h)) = Inr b)"
  using assms by (simp add: encodeConsensusState_eq EncodeConsensusState_eq encodeHeader_eq EncodeHeader_eq)

definition sample_tool_header :: header where
  "sample_tool_header = \<lparr>h_Height = 8, h_TimeSeconds = 5, h_TimeNanos = 998131342, h_ValidatorsHash = replicate 32 1,
     h_NextValidatorsHash = replicate 32 2, h_AppHash = replicate 32 3, h_TrustedHeight = 7, h_ZKP = [1, 2, 3]\<rparr>"

theorem testclient_messages_witness:
  "(encodeConsensusState 5 [1] [2] = Inr [] \<longleftrightarrow> EncodeConsensusState (consensus_state_of 5 [1] [2]) = Inr []) \<and>
   (encodeHeader sample_tool_header = Inr [] \<longleftrightarrow> EncodeHeader (Some (header_of sample_tool_header)) = Inr [])"
  by (rule testclient_messages) (simp add: sample_tool_header_def)

text \<open>The arguments the tool prints for the two client transactions decode: the light client
  reads from them the devnet's client state, consensus state and header.\<close>

theorem testclient_args_decode:
  "\<exists>v cs cns hd csb cnsb hdb. package_init = Inr v \<and>
     createClientArgs v = Inr (cs, cns) \<and> updateClientArgs v = Inr hd \<and>
     DecodeString cs = Inr csb \<and> DecodeString cns = Inr cnsb \<and> DecodeString hd = Inr hdb \<and>
     DecodeClientState csb =
       Inr (client_state_of v devnetChainID trustingPeriod maxClockDrift frozenHeight proofHeight) \<and>
     DecodeConsensusState cnsb =
       Inr (consensus_state_of ((devnetTimeSeconds - 1000) * 1000000000) (devnetAppHash v) (devnetValidatorsHash v)) \<and>
     DecodeHeader hdb = Inr (header_of
       \<lparr>h_Height = devnetHeight, h_TimeSeconds = devnetTimeSeconds, h_TimeNanos = devnetTimeNanos,
        h_ValidatorsHash = devnetValidatorsHash v, h_NextValidatorsHash = devnetValidatorsHash v,
        h_AppHash = devnetAppHash v, h_TrustedHeight = proofHeight, h_ZKP = devnetZKP v\<rparr>)"
proof -
  obtain v where v: "package_init = Inr v" "length (contractAddress v) = 32" "length (devnetAppHash v) = 32"
    "length (devnetValidatorsHash v) = 32" "length (devnetZKP v) = 384"
    using package_init_ok unfolding init_ok_def by blast
  let ?cs = "client_state_of v devnetChainID trustingPeriod maxClockDrift frozenHeight proofHeight"
  let ?cns = "consensus_state_of ((devnetTimeSeconds - 1000) * 1000000000) (devnetAppHash v) (devnetValidatorsHash v)"
  let ?h = "\<lparr>h_Height = devnetHeight, h_TimeSeconds = devnetTimeSeconds, h_TimeNanos = devnetTimeNanos,
        h_ValidatorsHash = devnetValidatorsHash v, h_NextValidatorsHash = devnetValidatorsHash v,
        h_AppHash = devnetAppHash v, h_TrustedHeight = proofHeight, h_ZKP = devnetZKP v\<rparr>"
  have n: "h_TimeNanos ?h < 2147483648" by (simp add: devnetTimeNanos_def)
  have "client_state_ok ?cs" "consensus_state_ok ?cns"
    using v by (simp_all add: client_state_ok_def client_state_of_def devnetChainID_def plain_height_def NewHeight_def
        consensus_state_ok_def consensus_state_of_def)
  from state_roundtrip [OF this] obtain csb cnsb where r:
    "EncodeClientState ?cs = Inr csb" "DecodeClientState csb = Inr ?cs"
    "EncodeConsensusState ?cns = Inr cnsb" "DecodeConsensusState cnsb = Inr ?cns" by blast
  have "header_ok (header_of ?h)"
    using v by (simp add: header_ok_def header_of_def plain_height_def NewHeight_def devnetTimeNanos_def)
  from header_roundtrip [OF this] obtain hdb where h:
    "EncodeHeader (Some (header_of ?h)) = Inr hdb" "DecodeHeader hdb = Inr (header_of ?h)" by blast
  have "copy32 (take 31 (bytes_of_string devnetChainID)) = copy32 (bytes_of_string devnetChainID)"
    by (simp add: copy32_take31 devnetChainID_def)
  then have "encodeClientState v devnetChainID trustingPeriod maxClockDrift frozenHeight proofHeight = Inr csb"
    using r(1) v by (simp add: encodeClientState_eq)
  moreover have "encodeConsensusState ((devnetTimeSeconds - 1000) * 1000000000) (devnetAppHash v)
      (devnetValidatorsHash v) = Inr cnsb"
    using r(3) by (simp add: encodeConsensusState_eq EncodeConsensusState_eq)
  moreover have "encodeHeader ?h = Inr hdb"
    using h(1) by (simp only: encodeHeader_eq EncodeHeader_eq [OF n])
  ultimately have "createClientArgs v = Inr (EncodeToString csb, EncodeToString cnsb)"
    "updateClientArgs v = Inr (EncodeToString hdb)"
    by (simp_all add: createClientArgs_def updateClientArgs_def)
  then show ?thesis
    using v(1) r(2,4) h(2) by (intro exI conjI) (assumption | rule DecodeString_EncodeToString)+
qed

end
