(* ===== verification/IavlFixtures.thy ===== *)
theory IavlFixtures
  imports GoLib IbcTypes
begin

text \<open>
  The tool \<^verbatim>\<open>src/tools/cometbls-fixtures/main.go\<close>: it builds an IAVL tree over a set of entries and prints
  their ICS-23 membership and non-membership proofs. SHA-256 is a parameter. The leaves are shared by
  pointer between the sorted slice and the nodes under construction, which append to their proofs:
  they live in a store, a list of leaves whose positions are the pointers.
\<close>

section \<open>Constants and data\<close>

definition hashOpSHA256 :: u64 where "hashOpSHA256 = 1"
definition hashOpNoHash :: u64 where "hashOpNoHash = 0"
definition lengthOpVarProto :: u64 where "lengthOpVarProto = 1"
definition wasmStoreKey :: string where "wasmStoreKey = ''wasm''"
definition contractAddress :: string where
  "contractAddress = ''0cf2ffe8f45a20514018173d3007644817a9767dc0fbdb246696fd9c261ce3bc''"
definition wireTypeVarint :: nat where "wireTypeVarint = 0"
definition wireTypeBytes :: nat where "wireTypeBytes = 2"

record fixtureInput =
  fi_name :: string
  fi_key :: bytes
  fi_value :: bytes
  fi_nonMembershipKey :: bytes

record fixture =
  fx_input :: fixtureInput
  fx_subroot :: bytes
  fx_appRoot :: bytes
  fx_proofBz :: bytes
  fx_nonMembershipProof :: bytes

record iavlLeafNode =
  lf_input :: fixtureInput
  lf_inputIdx :: nat
  lf_hash :: bytes
  lf_proof :: "bytes list"

type_synonym leaf_ptr = nat
type_synonym leaf_store = "iavlLeafNode list"

record iavlNode =
  nd_hash :: bytes
  nd_height :: "64 word"
  nd_size :: "64 word"
  nd_leaves :: "leaf_ptr list"

section \<open>Protobuf and IAVL encodings\<close>

definition pbVarint :: "u64 \<Rightarrow> bytes" where
  "pbVarint v = AppendUvarint [] v"

definition mustHex :: "string \<Rightarrow> panic + bytes" where
  "mustHex s = (case DecodeString s of Inl err \<Rightarrow> Inl (PanicHex err) | Inr bz \<Rightarrow> Inr bz)"

definition withLength :: "bytes \<Rightarrow> bytes" where
  "withLength inp = pbVarint (word_of_nat (length inp)) @ inp"

definition concat_parts :: "bytes list \<Rightarrow> bytes" where
  "concat_parts parts = concat parts"

definition iavlInnerPrefix :: "64 word \<Rightarrow> 64 word \<Rightarrow> bytes" where
  "iavlInnerPrefix height sz = AppendVarint (AppendVarint (AppendVarint [] height) sz) 1"

definition iavlLeafPrefix :: bytes where
  "iavlLeafPrefix = iavlInnerPrefix 0 1"

definition applyLeaf :: "hash \<Rightarrow> bytes \<Rightarrow> bytes \<Rightarrow> bytes \<Rightarrow> bytes" where
  "applyLeaf sha256 prefix key value =
     (let valueHash = sha256 value
      in sha256 (prefix @ pbVarint (word_of_nat (length key)) @ key @
           pbVarint (word_of_nat (length valueHash)) @ valueHash))"

definition applyInner :: "hash \<Rightarrow> bytes \<Rightarrow> bytes \<Rightarrow> bytes \<Rightarrow> bytes" where
  "applyInner sha256 prefix left right = sha256 (prefix @ withLength left @ withLength right)"

definition wasmContractStoreKeyPrefix :: "panic + bytes" where
  "wasmContractStoreKeyPrefix = bind_panic (mustHex contractAddress) (\<lambda>addr. Inr ([0x03] @ addr @ [0x00]))"

definition wasmContractStoreKey :: "bytes \<Rightarrow> panic + bytes" where
  "wasmContractStoreKey key = bind_panic wasmContractStoreKeyPrefix (\<lambda>prefix. Inr (prefix @ key))"

definition pbTag :: "nat \<Rightarrow> nat \<Rightarrow> bytes" where
  "pbTag fieldNum wireType = pbVarint (word_of_nat (push_bit 3 fieldNum OR wireType))"

definition pbBytesField :: "nat \<Rightarrow> bytes \<Rightarrow> bytes" where
  "pbBytesField fieldNum data = pbTag fieldNum wireTypeBytes @ pbVarint (word_of_nat (length data)) @ data"

definition pbVarintField :: "nat \<Rightarrow> u64 \<Rightarrow> bytes" where
  "pbVarintField fieldNum v = pbTag fieldNum wireTypeVarint @ pbVarint v"

definition encodeLeafOp :: "u64 \<Rightarrow> u64 \<Rightarrow> u64 \<Rightarrow> u64 \<Rightarrow> bytes \<Rightarrow> bytes" where
  "encodeLeafOp hash prehashKey prehashValue len prefix =
     pbVarintField 1 hash @ pbVarintField 2 prehashKey @ pbVarintField 3 prehashValue @ pbVarintField 4 len @
     pbBytesField 5 prefix"

definition encodeExistenceProof :: "bytes \<Rightarrow> bytes \<Rightarrow> bytes \<Rightarrow> bytes list \<Rightarrow> bytes" where
  "encodeExistenceProof key value leaf innerOps =
     pbBytesField 1 key @ pbBytesField 2 value @ pbBytesField 3 leaf @ concat (map (pbBytesField 4) innerOps)"

definition encodeInnerOp :: "u64 \<Rightarrow> bytes \<Rightarrow> bytes \<Rightarrow> bytes" where
  "encodeInnerOp hash prefix suffix =
     pbVarintField 1 hash @ pbBytesField 2 prefix @ (if length suffix > 0 then pbBytesField 3 suffix else [])"

definition encodeNonExistenceProof :: "bytes \<Rightarrow> bytes \<Rightarrow> bytes \<Rightarrow> bytes" where
  "encodeNonExistenceProof key left right =
     (if length key > 0 then pbBytesField 1 key else []) @ (if length left > 0 then pbBytesField 2 left else []) @
     (if length right > 0 then pbBytesField 3 right else [])"

definition encodeCommitmentExist :: "bytes \<Rightarrow> bytes" where
  "encodeCommitmentExist epBytes = pbBytesField 1 epBytes"

definition encodeCommitmentNonexist :: "bytes \<Rightarrow> bytes" where
  "encodeCommitmentNonexist nepBytes = pbBytesField 2 nepBytes"

definition encodeMerkleProof :: "bytes list \<Rightarrow> bytes" where
  "encodeMerkleProof proofs = concat (map (pbBytesField 1) proofs)"

section \<open>The tree\<close>

text \<open>\<open>appendProof\<close> is \<^verbatim>\<open>leaf.proof = append(leaf.proof, op)\<close> through a pointer.\<close>

definition appendProof :: "bytes \<Rightarrow> leaf_store \<Rightarrow> leaf_ptr \<Rightarrow> leaf_store" where
  "appendProof op store p = store[p := (store ! p)\<lparr>lf_proof := lf_proof (store ! p) @ [op]\<rparr>]"

definition combineIavlNodes :: "hash \<Rightarrow> leaf_store \<Rightarrow> iavlNode \<Rightarrow> iavlNode \<Rightarrow> leaf_store \<times> iavlNode" where
  "combineIavlNodes sha256 store left right =
     (let height = (if sint (nd_height left) < sint (nd_height right) then nd_height right else nd_height left) + 1;
          sz = nd_size left + nd_size right;
          prefix = iavlInnerPrefix height sz;
          hash = applyInner sha256 prefix (nd_hash left) (nd_hash right);
          leftOpPrefix = concat_parts [prefix, pbVarint (word_of_nat (length (nd_hash left)))];
          rightOpPrefix = concat_parts [prefix, withLength (nd_hash left), pbVarint (word_of_nat (length (nd_hash right)))];
          leftOp = encodeInnerOp hashOpSHA256 leftOpPrefix (withLength (nd_hash right));
          rightOp = encodeInnerOp hashOpSHA256 rightOpPrefix [];
          store = foldl (appendProof leftOp) store (nd_leaves left);
          store = foldl (appendProof rightOp) store (nd_leaves right)
      in (store, \<lparr>nd_hash = hash, nd_height = height, nd_size = sz, nd_leaves = nd_leaves left @ nd_leaves right\<rparr>))"

text \<open>The two loops of \<^verbatim>\<open>buildIavlRoot\<close>: one level of pairs, and the levels up to the root.\<close>

fun pairLevel :: "hash \<Rightarrow> leaf_store \<Rightarrow> iavlNode list \<Rightarrow> leaf_store \<times> iavlNode list" where
  "pairLevel sha256 store [] = (store, [])"
| "pairLevel sha256 store [n] = (store, [n])"
| "pairLevel sha256 store (a # b # rest) =
     (case combineIavlNodes sha256 store a b of
        (store, n) \<Rightarrow> (case pairLevel sha256 store rest of (store, ns) \<Rightarrow> (store, n # ns)))"

lemma length_pairLevel: "length (snd (pairLevel sha256 store ns)) = (length ns + 1) div 2"
  by (induction sha256 store ns rule: pairLevel.induct) (auto split: prod.splits)

lemma pairLevel_shrinks:
  "Suc 0 < length ns \<Longrightarrow> (case pairLevel sha256 store ns of (_, nxt) \<Rightarrow> length nxt) < length ns"
  using length_pairLevel [of sha256 store ns] by (simp add: split_beta)

function buildLoop :: "hash \<Rightarrow> leaf_store \<Rightarrow> iavlNode list \<Rightarrow> leaf_store \<times> iavlNode list" where
  "buildLoop sha256 store nodes =
     (if length nodes > 1 then case pairLevel sha256 store nodes of (store, nxt) \<Rightarrow> buildLoop sha256 store nxt
      else (store, nodes))"
  by pat_completeness auto
termination
  by (relation "measure (\<lambda>(_, _, nodes). length nodes)") (auto simp: pairLevel_shrinks)

declare buildLoop.simps [simp del]

definition buildIavlRoot :: "hash \<Rightarrow> leaf_store \<Rightarrow> leaf_ptr list \<Rightarrow> panic + leaf_store \<times> iavlNode" where
  "buildIavlRoot sha256 store leaves =
     (let nodes = map (\<lambda>p. \<lparr>nd_hash = lf_hash (store ! p), nd_height = 0, nd_size = 1, nd_leaves = [p]\<rparr>) leaves
      in case buildLoop sha256 store nodes of
           (store, []) \<Rightarrow> Inl PanicIndex
         | (store, n # _) \<Rightarrow> Inr (store, n))"

section \<open>Fixtures\<close>

definition encodeIavlExistenceProof :: "bytes \<Rightarrow> iavlLeafNode \<Rightarrow> panic + bytes" where
  "encodeIavlExistenceProof iavlLeaf leaf =
     bind_panic (wasmContractStoreKey (fi_key (lf_input leaf))) (\<lambda>key.
     Inr (encodeExistenceProof key (fi_value (lf_input leaf)) iavlLeaf (lf_proof leaf)))"

text \<open>\<open>neighborsLoop\<close> is the loop of \<^verbatim>\<open>nonMembershipNeighbors\<close>, with \<^verbatim>\<open>left\<close> so far; \<^verbatim>\<open>nil\<close> is \<open>[]\<close>.\<close>

fun neighborsLoop :: "(nat \<Rightarrow> bool) \<Rightarrow> bytes \<Rightarrow> bytes \<Rightarrow> bytes \<Rightarrow> bytes \<Rightarrow> iavlLeafNode list \<Rightarrow> panic + bytes \<times> bytes" where
  "neighborsLoop isPrint key targetKey iavlLeaf left [] = Inr (left, [])"
| "neighborsLoop isPrint key targetKey iavlLeaf left (leaf # leaves) =
     bind_panic (wasmContractStoreKey (fi_key (lf_input leaf))) (\<lambda>leafKey.
     if Compare leafKey targetKey < 0 then
       bind_panic (encodeIavlExistenceProof iavlLeaf leaf) (\<lambda>left.
       neighborsLoop isPrint key targetKey iavlLeaf left leaves)
     else if Compare leafKey targetKey > 0 then
       bind_panic (encodeIavlExistenceProof iavlLeaf leaf) (\<lambda>right. Inr (left, right))
     else Inl (PanicString (''non-membership key '' @ Quote isPrint key @ '' exists in fixture set'')))"

definition nonMembershipNeighbors ::
  "(nat \<Rightarrow> bool) \<Rightarrow> iavlLeafNode list \<Rightarrow> bytes \<Rightarrow> bytes \<Rightarrow> panic + bytes \<times> bytes" where
  "nonMembershipNeighbors isPrint leaves key iavlLeaf =
     bind_panic (wasmContractStoreKey key) (\<lambda>targetKey.
     neighborsLoop isPrint key targetKey iavlLeaf [] leaves)"

definition makeLeaf :: "hash \<Rightarrow> bytes \<Rightarrow> nat \<Rightarrow> fixtureInput \<Rightarrow> iavlLeafNode" where
  "makeLeaf sha256 contractKeyPrefix i input =
     \<lparr>lf_input = input, lf_inputIdx = i,
      lf_hash = applyLeaf sha256 iavlLeafPrefix (contractKeyPrefix @ fi_key input) (fi_value input), lf_proof = []\<rparr>"

definition iavlLeafOp :: bytes where
  "iavlLeafOp = encodeLeafOp hashOpSHA256 hashOpNoHash hashOpSHA256 lengthOpVarProto iavlLeafPrefix"

definition tmLeafOp :: bytes where
  "tmLeafOp = encodeLeafOp hashOpSHA256 hashOpNoHash hashOpSHA256 lengthOpVarProto [0x00]"

text \<open>The body of the last loop: the fixture of one leaf. \<open>iavlLeafOp\<close>, \<open>tmLeafOp\<close> are the
  variables \<^verbatim>\<open>iavlLeaf\<close>, \<^verbatim>\<open>tmLeaf\<close>.\<close>

definition makeFixture ::
  "(nat \<Rightarrow> bool) \<Rightarrow> iavlLeafNode list \<Rightarrow> bytes \<Rightarrow> bytes \<Rightarrow> bytes \<Rightarrow> iavlLeafNode \<Rightarrow> panic + fixture" where
  "makeFixture isPrint leaves iavlRoot tmExist appRoot leaf =
     bind_panic (encodeIavlExistenceProof iavlLeafOp leaf) (\<lambda>iavlExist.
     let proof = encodeMerkleProof [encodeCommitmentExist iavlExist, encodeCommitmentExist tmExist];
         nonKey = fi_nonMembershipKey (lf_input leaf)
     in bind_panic
          (if length nonKey > 0 then
             bind_panic (nonMembershipNeighbors isPrint leaves nonKey iavlLeafOp) (\<lambda>(left, right).
             Inr (encodeMerkleProof
               [encodeCommitmentNonexist (encodeNonExistenceProof nonKey left right), encodeCommitmentExist tmExist]))
           else Inr [])
          (\<lambda>nonMembershipProof.
             Inr \<lparr>fx_input = lf_input leaf, fx_subroot = iavlRoot, fx_appRoot = appRoot, fx_proofBz = proof,
                  fx_nonMembershipProof = nonMembershipProof\<rparr>))"

definition zeroFixture :: fixture where
  "zeroFixture = \<lparr>fx_input = \<lparr>fi_name = [], fi_key = [], fi_value = [], fi_nonMembershipKey = []\<rparr>, fx_subroot = [],
     fx_appRoot = [], fx_proofBz = [], fx_nonMembershipProof = []\<rparr>"

fun fixturesLoop :: "(iavlLeafNode \<Rightarrow> panic + fixture) \<Rightarrow> iavlLeafNode list \<Rightarrow> fixture list \<Rightarrow> panic + fixture list" where
  "fixturesLoop mk [] out = Inr out"
| "fixturesLoop mk (leaf # leaves) out =
     bind_panic (mk leaf) (\<lambda>fx. fixturesLoop mk leaves (out[lf_inputIdx leaf := fx]))"

definition makeFixtureSet :: "hash \<Rightarrow> (nat \<Rightarrow> bool) \<Rightarrow> fixtureInput list \<Rightarrow> panic + fixture list" where
  "makeFixtureSet sha256 isPrint inputs =
     (let storeKey = bytes_of_string wasmStoreKey
      in bind_panic wasmContractStoreKeyPrefix (\<lambda>contractKeyPrefix.
         let store = map (\<lambda>(i, input). makeLeaf sha256 contractKeyPrefix i input) (enumerate 0 inputs);
             leaves = sort_slice
               (\<lambda>p q. Compare (fi_key (lf_input (store ! p))) (fi_key (lf_input (store ! q))) < 0) [0..<length inputs]
         in bind_panic (buildIavlRoot sha256 store leaves) (\<lambda>(store, root).
            let iavlRoot = nd_hash root;
                tmExist = encodeExistenceProof storeKey iavlRoot tmLeafOp [];
                appRoot = applyLeaf sha256 [0x00] storeKey iavlRoot;
                sorted = map (\<lambda>p. store ! p) leaves
            in fixturesLoop (makeFixture isPrint sorted iavlRoot tmExist appRoot) sorted
                 (replicate (length leaves) zeroFixture))))"

definition printFixture :: "(nat \<Rightarrow> bool) \<Rightarrow> fixture \<Rightarrow> unit out" where
  "printFixture isPrint f =
     seq_out
       [Print (''['' @ fi_name (fx_input f) @ '']'' @ nl),
        Print (''key: '' @ Quote isPrint (fi_key (fx_input f)) @ nl),
        Print (''value: '' @ Quote isPrint (fi_value (fx_input f)) @ nl),
        Print (''store_key: '' @ Quote isPrint (bytes_of_string wasmStoreKey) @ nl),
        bind_out (lift_out (wasmContractStoreKey (fi_key (fx_input f)))) (\<lambda>key.
          Print (''contract_key: 0x'' @ EncodeToString key @ nl)),
        Print (''iavl_subroot: 0x'' @ EncodeToString (fx_subroot f) @ nl),
        Print (''app_root: 0x'' @ EncodeToString (fx_appRoot f) @ nl),
        Print (''membership_proof: 0x'' @ EncodeToString (fx_proofBz f) @ nl),
        (if length (fx_nonMembershipProof f) > 0 then
           seq_out
             [Print (''non_membership_key: '' @ Quote isPrint (fi_nonMembershipKey (fx_input f)) @ nl),
              Print (''non_membership_proof: 0x'' @ EncodeToString (fx_nonMembershipProof f) @ nl)]
         else give ()),
        Print nl]"

section \<open>The fixture sets\<close>

text \<open>An entry whose key and value are hexadecimal literals.\<close>

definition hexInput :: "string \<Rightarrow> string \<Rightarrow> string \<Rightarrow> panic + fixtureInput" where
  "hexInput name key value =
     bind_panic (mustHex key) (\<lambda>k. bind_panic (mustHex value) (\<lambda>v.
     Inr \<lparr>fi_name = name, fi_key = k, fi_value = v, fi_nonMembershipKey = []\<rparr>))"

fun all_inputs :: "(panic + fixtureInput) list \<Rightarrow> panic + fixtureInput list" where
  "all_inputs [] = Inr []"
| "all_inputs (r # rs) = bind_panic r (\<lambda>x. bind_panic (all_inputs rs) (\<lambda>xs. Inr (x # xs)))"

definition baseFixtures :: "fixtureInput list" where
  "baseFixtures =
     [\<lparr>fi_name = ''packet'', fi_key = bytes_of_string ''packet-key'', fi_value = bytes_of_string ''packet-value'',
       fi_nonMembershipKey = bytes_of_string ''packet-key-missing''\<rparr>,
      \<lparr>fi_name = ''connection'', fi_key = bytes_of_string ''connection-state-key'', fi_value = bytes_of_string ''connection-state-value'',
       fi_nonMembershipKey = []\<rparr>,
      \<lparr>fi_name = ''channel'', fi_key = bytes_of_string ''channel-state-key'', fi_value = bytes_of_string ''channel-state-value'',
       fi_nonMembershipKey = []\<rparr>]"

definition z35Fixtures :: "panic + fixtureInput list" where
  "z35Fixtures =
     all_inputs
      [hexInput ''z35_connection_try''
        ''05f3c8eef62e74b10b7ee910fcc73c8358000f692d9ce2341a989e008e45b35d''
        ''ff4fb67348c16e70c898c7cf43c460a684bc900d2b41e5a24ef6dcb294586034'',
       hexInput ''z35_channel_try''
        ''88601476d11616a71c5be67555bd1dff4b1cbf21533d2669b768b61518cfe1c3''
        ''cd40381bd2f524e0a4475c4b40120758cb94be9b88e224846f3e808ea9493958'',
       hexInput ''z35_packet_commitment''
        ''cd7b438a4f36b68a13ce77733e104cbf38a4bd2460f5a35d75a5aa0180b951cc''
        ''0100000000000000000000000000000000000000000000000000000000000000'',
       hexInput ''z36_ack_membership''
        ''3cde3b6891df12ae3a04f23e62738b1c7e209ddb5a5dd6ebc27b6c29cd539b18''
        ''015b3cd48177600c2efac9e26b978edfdf97f8480c0a7f3b0884f0b4817ed5a8'',
       hexInput ''z39_call_packet_commitment''
        ''f9fc75d51d473e980f2141b006da2897766da9ce36737c10b7d6444dc4c94ae6''
        ''0100000000000000000000000000000000000000000000000000000000000000'',
       hexInput ''z39_missing_call_packet_commitment''
        ''370fc261c739d70a11a370a82a6f1ccbb2ddd55ae0f5a9e6abfed94462e9d303''
        ''0100000000000000000000000000000000000000000000000000000000000000'',
       hexInput ''z40_mixed_batch_packet_commitment''
        ''5b6d15280476ff21b8582b241254a08073cd68019a7021427aa49ed2e12ed028''
        ''0100000000000000000000000000000000000000000000000000000000000000'',
       hexInput ''z40_panic_batch_packet_commitment''
        ''40b8521a5f940a9da33617a71e52dcf702f56c7f070333b94f23f5014b272e4a''
        ''0100000000000000000000000000000000000000000000000000000000000000'']"

definition z37Fixtures :: "panic + fixtureInput list" where
  "z37Fixtures =
     all_inputs
      [hexInput ''z37_connection_try''
        ''05f3c8eef62e74b10b7ee910fcc73c8358000f692d9ce2341a989e008e45b35d''
        ''ff4fb67348c16e70c898c7cf43c460a684bc900d2b41e5a24ef6dcb294586034'',
       hexInput ''z37_channel_try''
        ''88601476d11616a71c5be67555bd1dff4b1cbf21533d2669b768b61518cfe1c3''
        ''cd40381bd2f524e0a4475c4b40120758cb94be9b88e224846f3e808ea9493958'',
       bind_panic (mustHex ''3cde3b6891df12ae3a04f23e62738b1c7e209ddb5a5dd6ebc27b6c29cd539b18'') (\<lambda>k.
        Inr \<lparr>fi_name = ''z37_receipt_non_membership'', fi_key = bytes_of_string ''z37-neighbor-anchor'', fi_value = bytes_of_string ''z37-neighbor-value'',
          fi_nonMembershipKey = k\<rparr>)]"

definition z42WrongVersionFixtures :: "panic + fixtureInput list" where
  "z42WrongVersionFixtures =
     all_inputs
      [hexInput ''z42_wrong_version_connection_try''
        ''05f3c8eef62e74b10b7ee910fcc73c8358000f692d9ce2341a989e008e45b35d''
        ''ff4fb67348c16e70c898c7cf43c460a684bc900d2b41e5a24ef6dcb294586034'',
       hexInput ''z42_wrong_version_channel_try''
        ''88601476d11616a71c5be67555bd1dff4b1cbf21533d2669b768b61518cfe1c3''
        ''3359a3326d70b8efdb54e451d092e03d9ed0ff24e90a40734900124d4c2d4214'']"

definition z42StaleFixtures :: "panic + fixtureInput list" where
  "z42StaleFixtures =
     all_inputs
      [hexInput ''z42_stale_connection_try''
        ''05f3c8eef62e74b10b7ee910fcc73c8358000f692d9ce2341a989e008e45b35d''
        ''ff4fb67348c16e70c898c7cf43c460a684bc900d2b41e5a24ef6dcb294586034'',
       hexInput ''z42_stale_channel_try''
        ''88601476d11616a71c5be67555bd1dff4b1cbf21533d2669b768b61518cfe1c3''
        ''a11e2621c343c5f411feeb755da56f296aa5d9d2ecf9864f9cf941b836cce706'']"

definition printSet :: "hash \<Rightarrow> (nat \<Rightarrow> bool) \<Rightarrow> fixtureInput list \<Rightarrow> unit out" where
  "printSet sha256 isPrint inputs =
     bind_out (lift_out (makeFixtureSet sha256 isPrint inputs)) (\<lambda>fxs. seq_out (map (printFixture isPrint) fxs))"

definition main :: "hash \<Rightarrow> (nat \<Rightarrow> bool) \<Rightarrow> unit out" where
  "main sha256 isPrint =
     bind_out (lift_out z35Fixtures) (\<lambda>z35.
     seq_out
       [printSet sha256 isPrint baseFixtures,
        printSet sha256 isPrint z35,
        bind_out (lift_out z37Fixtures) (printSet sha256 isPrint),
        bind_out (lift_out z42WrongVersionFixtures) (\<lambda>wrongVersion.
        bind_out (lift_out z42StaleFixtures) (\<lambda>stale.
          seq_out [printSet sha256 isPrint wrongVersion, printSet sha256 isPrint stale]))])"

section \<open>Proof operations\<close>

text \<open>
  How a verifier uses an inner operation: it hashes the child between prefix and suffix. A leaf's
  proof is right for a root when folding its operations over the leaf's hash gives that root.
\<close>

type_synonym inner_op = "bytes \<times> bytes"

definition op_bytes :: "inner_op \<Rightarrow> bytes" where
  "op_bytes = (\<lambda>(prefix, suffix). encodeInnerOp hashOpSHA256 prefix suffix)"

definition apply_op :: "hash \<Rightarrow> bytes \<Rightarrow> inner_op \<Rightarrow> bytes" where
  "apply_op sha256 child = (\<lambda>(prefix, suffix). sha256 (prefix @ child @ suffix))"

definition fold_ops :: "hash \<Rightarrow> bytes \<Rightarrow> inner_op list \<Rightarrow> bytes" where
  "fold_ops sha256 = foldl (apply_op sha256)"

definition leads_to :: "hash \<Rightarrow> iavlLeafNode \<Rightarrow> bytes \<Rightarrow> bool" where
  "leads_to sha256 leaf root \<longleftrightarrow>
     (\<exists>ops. lf_proof leaf = map op_bytes ops \<and> fold_ops sha256 (lf_hash leaf) ops = root)"

definition leaf_core :: "iavlLeafNode \<Rightarrow> iavlLeafNode" where
  "leaf_core l = l\<lparr>lf_proof := []\<rparr>"

lemma leaf_core_eq:
  "leaf_core k = leaf_core l \<longleftrightarrow> lf_input k = lf_input l \<and> lf_inputIdx k = lf_inputIdx l \<and> lf_hash k = lf_hash l"
  by (cases k; cases l) (simp add: leaf_core_def)

lemma leads_to_append:
  assumes "leads_to sha256 leaf h" and "apply_op sha256 h op = root"
  shows "leads_to sha256 (leaf\<lparr>lf_proof := lf_proof leaf @ [op_bytes op]\<rparr>) root"
proof -
  from assms(1) obtain ops where "lf_proof leaf = map op_bytes ops" "fold_ops sha256 (lf_hash leaf) ops = h"
    by (auto simp: leads_to_def)
  then have "lf_proof leaf @ [op_bytes op] = map op_bytes (ops @ [op])"
    "fold_ops sha256 (lf_hash leaf) (ops @ [op]) = root"
    using assms(2) by (simp_all add: fold_ops_def)
  then show ?thesis
    unfolding leads_to_def by (intro exI [of _ "ops @ [op]"]) simp
qed

section \<open>The store under construction\<close>

lemma length_appendProof [simp]: "length (appendProof op store p) = length store"
  by (simp add: appendProof_def)

lemma length_foldl_appendProof [simp]: "length (foldl (appendProof op) store ps) = length store"
  by (induction ps arbitrary: store) simp_all

lemma core_appendProof [simp]: "map leaf_core (appendProof op store p) = map leaf_core store"
  by (cases "p < length store")
    (simp_all add: appendProof_def map_update leaf_core_def list_update_same_conv list_update_beyond)

lemma core_foldl_appendProof [simp]: "map leaf_core (foldl (appendProof op) store ps) = map leaf_core store"
  by (induction ps arbitrary: store) simp_all

lemma foldl_appendProof_nth:
  "distinct ps \<Longrightarrow> set ps \<subseteq> {..<length store} \<Longrightarrow> i < length store \<Longrightarrow>
   foldl (appendProof op) store ps ! i =
     (if i \<in> set ps then (store ! i)\<lparr>lf_proof := lf_proof (store ! i) @ [op]\<rparr> else store ! i)"
  by (induction ps arbitrary: store) (auto simp: appendProof_def nth_list_update)

definition all_lead :: "hash \<Rightarrow> leaf_store \<Rightarrow> iavlNode list \<Rightarrow> bool" where
  "all_lead sha256 store nodes \<longleftrightarrow>
     (\<forall>n\<in>set nodes. \<forall>p\<in>set (nd_leaves n). p < length store \<and> leads_to sha256 (store ! p) (nd_hash n))"

abbreviation node_leaves :: "iavlNode list \<Rightarrow> leaf_ptr list" where
  "node_leaves nodes \<equiv> concat (map nd_leaves nodes)"

lemma combineIavlNodes_ops:
  "\<exists>leftOp rightOp h.
     fst (combineIavlNodes sha256 store a b) =
       foldl (appendProof (op_bytes rightOp)) (foldl (appendProof (op_bytes leftOp)) store (nd_leaves a)) (nd_leaves b) \<and>
     nd_hash (snd (combineIavlNodes sha256 store a b)) = h \<and>
     apply_op sha256 (nd_hash a) leftOp = h \<and> apply_op sha256 (nd_hash b) rightOp = h \<and>
     nd_leaves (snd (combineIavlNodes sha256 store a b)) = nd_leaves a @ nd_leaves b"
proof -
  define n where "n = snd (combineIavlNodes sha256 store a b)"
  define p where "p = iavlInnerPrefix (nd_height n) (nd_size n)"
  let ?l = "(p @ pbVarint (word_of_nat (length (nd_hash a))), withLength (nd_hash b))"
  let ?r = "(p @ withLength (nd_hash a) @ pbVarint (word_of_nat (length (nd_hash b))), [])"
  have "nd_hash n = applyInner sha256 p (nd_hash a) (nd_hash b)"
    by (simp add: n_def p_def combineIavlNodes_def Let_def)
  moreover have "apply_op sha256 (nd_hash a) ?l = applyInner sha256 p (nd_hash a) (nd_hash b)"
    "apply_op sha256 (nd_hash b) ?r = applyInner sha256 p (nd_hash a) (nd_hash b)"
    by (simp_all add: apply_op_def applyInner_def withLength_def)
  moreover have "fst (combineIavlNodes sha256 store a b) =
      foldl (appendProof (op_bytes ?r)) (foldl (appendProof (op_bytes ?l)) store (nd_leaves a)) (nd_leaves b)"
    by (simp add: n_def p_def combineIavlNodes_def Let_def op_bytes_def concat_parts_def)
  moreover have "nd_leaves n = nd_leaves a @ nd_leaves b"
    by (simp add: n_def combineIavlNodes_def Let_def)
  ultimately show ?thesis unfolding n_def by blast
qed

lemma combine_lead:
  assumes lead: "all_lead sha256 store (pre @ a # b # rest)"
    and d: "distinct (node_leaves (pre @ a # b # rest))"
    and c: "combineIavlNodes sha256 store a b = (store', n)"
  shows "all_lead sha256 store' (pre @ n # rest)" and "nd_leaves n = nd_leaves a @ nd_leaves b"
    and "map leaf_core store' = map leaf_core store"
proof -
  obtain leftOp rightOp where ops:
    "store' = foldl (appendProof (op_bytes rightOp)) (foldl (appendProof (op_bytes leftOp)) store (nd_leaves a)) (nd_leaves b)"
    "apply_op sha256 (nd_hash a) leftOp = nd_hash n" "apply_op sha256 (nd_hash b) rightOp = nd_hash n"
    "nd_leaves n = nd_leaves a @ nd_leaves b"
    using combineIavlNodes_ops [of sha256 store a b] c by auto
  then show "nd_leaves n = nd_leaves a @ nd_leaves b" by simp
  show "map leaf_core store' = map leaf_core store" using ops(1) by simp
  have len: "length store' = length store" using ops(1) by simp
  have in_a: "set (nd_leaves a) \<subseteq> {..<length store}" and in_b: "set (nd_leaves b) \<subseteq> {..<length store}"
    using lead by (auto simp: all_lead_def)
  have da: "distinct (nd_leaves a)" and db: "distinct (nd_leaves b)" and ab: "set (nd_leaves a) \<inter> set (nd_leaves b) = {}"
    using d by auto
  have nth: "store' ! i =
      (if i \<in> set (nd_leaves b) then (store ! i)\<lparr>lf_proof := lf_proof (store ! i) @ [op_bytes rightOp]\<rparr>
       else if i \<in> set (nd_leaves a) then (store ! i)\<lparr>lf_proof := lf_proof (store ! i) @ [op_bytes leftOp]\<rparr>
       else store ! i)" if "i < length store" for i
    using that in_a in_b da db ab unfolding ops(1)
    by (auto simp: foldl_appendProof_nth)
  have la: "leads_to sha256 (store ! p) (nd_hash a)" if "p \<in> set (nd_leaves a)" for p
    using lead that by (auto simp: all_lead_def)
  have lb: "leads_to sha256 (store ! p) (nd_hash b)" if "p \<in> set (nd_leaves b)" for p
    using lead that by (auto simp: all_lead_def)
  have "p < length store \<and> leads_to sha256 (store' ! p) (nd_hash n)" if "p \<in> set (nd_leaves n)" for p
  proof -
    have p: "p < length store" using that ops(4) in_a in_b by auto
    show ?thesis
      using that p ops(4) ab leads_to_append [OF la ops(2)] leads_to_append [OF lb ops(3)]
      by (auto simp: nth [OF p])
  qed
  moreover have "p < length store \<and> leads_to sha256 (store' ! p) (nd_hash m)"
    if "m \<in> set (pre @ rest)" "p \<in> set (nd_leaves m)" for m p
  proof -
    have p: "p < length store" "leads_to sha256 (store ! p) (nd_hash m)"
      using that lead by (auto simp: all_lead_def)
    have "p \<notin> set (nd_leaves a)" "p \<notin> set (nd_leaves b)" using that d by auto
    with p show ?thesis by (simp add: nth)
  qed
  ultimately show "all_lead sha256 store' (pre @ n # rest)"
    by (auto simp: all_lead_def len)
qed

lemma pairLevel_lead:
  "all_lead sha256 store (pre @ ns) \<Longrightarrow> distinct (node_leaves (pre @ ns)) \<Longrightarrow>
   pairLevel sha256 store ns = (store', ms) \<Longrightarrow>
   all_lead sha256 store' (pre @ ms) \<and> node_leaves ms = node_leaves ns \<and> map leaf_core store' = map leaf_core store"
proof (induction sha256 store ns arbitrary: pre store' ms rule: pairLevel.induct)
  case (3 sha256 store a b rest)
  obtain s1 n where c: "combineIavlNodes sha256 store a b = (s1, n)" by (cases "combineIavlNodes sha256 store a b")
  obtain s2 ns where r: "pairLevel sha256 s1 rest = (s2, ns)" by (cases "pairLevel sha256 s1 rest")
  note l = combine_lead [OF "3.prems"(1,2) c]
  have "all_lead sha256 s1 ((pre @ [n]) @ rest)" "distinct (node_leaves ((pre @ [n]) @ rest))"
    using l(1,2) "3.prems"(2) by auto
  from "3.IH" [OF c [symmetric] this r] show ?case
    using "3.prems"(3) c r l by auto
qed auto

lemma buildLoop_lead:
  "all_lead sha256 store ns \<Longrightarrow> distinct (node_leaves ns) \<Longrightarrow> buildLoop sha256 store ns = (store', ms) \<Longrightarrow>
   all_lead sha256 store' ms \<and> node_leaves ms = node_leaves ns \<and> map leaf_core store' = map leaf_core store \<and>
   length ms \<le> 1 \<and> (ms = [] \<longleftrightarrow> ns = [])"
proof (induction sha256 store ns arbitrary: store' ms rule: buildLoop.induct)
  case (1 sha256 store ns)
  show ?case
  proof (cases "length ns > 1")
    case True
    obtain s1 n1 where p: "pairLevel sha256 store ns = (s1, n1)" by (cases "pairLevel sha256 store ns")
    have b: "buildLoop sha256 s1 n1 = (store', ms)"
      using "1.prems"(3) True p by (simp add: buildLoop.simps [of sha256 store ns])
    have q: "all_lead sha256 s1 n1 \<and> node_leaves n1 = node_leaves ns \<and> map leaf_core s1 = map leaf_core store"
      using pairLevel_lead [of sha256 store "[]" ns, OF _ _ p] "1.prems"(1,2) by simp
    have "n1 \<noteq> []" using length_pairLevel [of sha256 store ns] p True by auto
    with "1.IH" [OF True p [symmetric] _ _ b] q "1.prems"(2) True show ?thesis by auto
  next
    case False
    with "1.prems" show ?thesis by (auto simp: buildLoop.simps [of sha256 store ns])
  qed
qed

text \<open>The root of the leaves, and the proofs it leaves in them.\<close>

lemma buildIavlRoot_Nil: "buildIavlRoot sha256 store [] = Inl PanicIndex"
  by (simp add: buildIavlRoot_def buildLoop.simps)

lemma buildIavlRoot_lead:
  assumes "leaves \<noteq> []" and "distinct leaves" and "set leaves \<subseteq> {..<length store}"
    and "\<And>p. p \<in> set leaves \<Longrightarrow> lf_proof (store ! p) = []"
  shows "\<exists>store' root. buildIavlRoot sha256 store leaves = Inr (store', root) \<and>
    map leaf_core store' = map leaf_core store \<and> (\<forall>p\<in>set leaves. leads_to sha256 (store' ! p) (nd_hash root))"
proof -
  let ?nodes = "map (\<lambda>p. \<lparr>nd_hash = lf_hash (store ! p), nd_height = 0, nd_size = 1, nd_leaves = [p]\<rparr>) leaves"
  have nl: "node_leaves ?nodes = leaves" by (induction leaves) auto
  have "leads_to sha256 (store ! p) (lf_hash (store ! p))" if "p \<in> set leaves" for p
    using assms(4) [OF that] by (auto simp: leads_to_def fold_ops_def)
  then have "all_lead sha256 store ?nodes" using assms(3) by (auto simp: all_lead_def)
  moreover obtain store' ms where b: "buildLoop sha256 store ?nodes = (store', ms)"
    by (cases "buildLoop sha256 store ?nodes")
  ultimately have r: "all_lead sha256 store' ms \<and> node_leaves ms = leaves \<and> map leaf_core store' = map leaf_core store \<and>
      length ms \<le> 1 \<and> (ms = [] \<longleftrightarrow> ?nodes = [])"
    using buildLoop_lead [OF _ _ b] assms(2) unfolding nl by blast
  then obtain n where "ms = [n]" using assms(1) by (cases ms) auto
  with r b show ?thesis by (auto simp: buildIavlRoot_def all_lead_def)
qed

end
