(* ===== verification/IavlSound.thy ===== *)
theory IavlSound
  imports IavlFixtures
begin

text \<open>
  What the fixture generator prints: when it succeeds, that its membership proofs fold to the printed
  roots, that its non-membership proofs name the two neighbours of the missing key, and that the
  whole program runs to its end.
\<close>

section \<open>The contract key\<close>

definition wasm_prefix :: bytes where
  "wasm_prefix = (case wasmContractStoreKeyPrefix of Inr p \<Rightarrow> p | Inl _ \<Rightarrow> [])"

lemma hexLiteral_total: "hex_string n s \<Longrightarrow> \<exists>b. mustHex s = Inr b \<and> length b = n"
  using DecodeString_total [of n s] by (auto simp: mustHex_def)

lemma wasm_prefix: "wasmContractStoreKeyPrefix = Inr wasm_prefix"
proof -
  have "hex_string 32 contractAddress"
    by (simp add: contractAddress_def hex_string_simps)
  from hexLiteral_total [OF this] show ?thesis
    by (auto simp: wasm_prefix_def wasmContractStoreKeyPrefix_def)
qed

lemma wasmContractStoreKey_eq [simp]: "wasmContractStoreKey key = Inr (wasm_prefix @ key)"
  by (simp add: wasmContractStoreKey_def wasm_prefix)

definition leaf_existence :: "iavlLeafNode \<Rightarrow> bytes" where
  "leaf_existence leaf =
     encodeExistenceProof (wasm_prefix @ fi_key (lf_input leaf)) (fi_value (lf_input leaf)) iavlLeafOp (lf_proof leaf)"

lemma encodeIavlExistenceProof_eq [simp]: "encodeIavlExistenceProof iavlLeafOp leaf = Inr (leaf_existence leaf)"
  by (simp add: encodeIavlExistenceProof_def leaf_existence_def)

section \<open>Neighbours\<close>

abbreviation leaf_key :: "iavlLeafNode \<Rightarrow> bytes" where
  "leaf_key leaf \<equiv> fi_key (lf_input leaf)"

definition left_of :: "bytes \<Rightarrow> iavlLeafNode list \<Rightarrow> iavlLeafNode list" where
  "left_of key leaves = filter (\<lambda>l. bytes_less (leaf_key l) key) leaves"

definition right_of :: "bytes \<Rightarrow> iavlLeafNode list \<Rightarrow> iavlLeafNode list" where
  "right_of key leaves = filter (\<lambda>l. bytes_less key (leaf_key l)) leaves"

lemma left_of_simps [simp]:
  "left_of key [] = []"
  "left_of key (l # ls) = (if bytes_less (leaf_key l) key then l # left_of key ls else left_of key ls)"
  by (simp_all add: left_of_def)

lemma right_of_simps [simp]:
  "right_of key [] = []"
  "right_of key (l # ls) = (if bytes_less key (leaf_key l) then l # right_of key ls else right_of key ls)"
  by (simp_all add: right_of_def)

lemma bytes_less_asym: "bytes_less a b \<Longrightarrow> \<not> bytes_less b a"
  using bytes_less_trans bytes_less_irrefl by blast

lemma neighborsLoop_eq:
  "sorted_wrt (\<lambda>x y. \<not> bytes_less (leaf_key y) (leaf_key x)) leaves \<Longrightarrow>
   neighborsLoop isPrint key (wasm_prefix @ key) iavlLeafOp left leaves =
     (if key \<in> leaf_key ` set leaves
      then Inl (PanicString (''non-membership key '' @ Quote isPrint key @ '' exists in fixture set''))
      else Inr (if left_of key leaves = [] then left else leaf_existence (last (left_of key leaves)),
                if right_of key leaves = [] then [] else leaf_existence (hd (right_of key leaves))))"
proof (induction leaves arbitrary: left)
  case (Cons l ls)
  consider (less) "bytes_less (leaf_key l) key" | (eq) "leaf_key l = key" | (greater) "bytes_less key (leaf_key l)"
    using bytes_less_total by blast
  then show ?case
  proof cases
    case less
    then have "\<not> bytes_less key (leaf_key l)" "leaf_key l \<noteq> key" using bytes_less_trans by fastforce+
    with less Cons show ?thesis by (auto simp: Compare_neg)
  next
    case eq
    then show ?thesis by (auto simp: Compare_neg Compare_pos)
  next
    case greater
    have gt: "bytes_less key (leaf_key k)" if "k \<in> set ls" for k
      using that greater Cons.prems byte_order.weak_trans
      by (metis bytes_less_trans bytes_less_total sorted_wrt.simps(2))
    have "left_of key (l # ls) = []"
      using greater gt by (auto simp: left_of_def filter_empty_conv bytes_less_asym)
    moreover have "key \<notin> leaf_key ` set (l # ls)" using greater gt bytes_less_irrefl by force
    moreover have "\<not> bytes_less (leaf_key l) key" using greater bytes_less_trans by fastforce
    ultimately show ?thesis using greater by (auto simp: Compare_neg Compare_pos)
  qed
qed simp

lemma nonMembershipNeighbors_eq:
  "sorted_wrt (\<lambda>x y. \<not> bytes_less (leaf_key y) (leaf_key x)) leaves \<Longrightarrow>
   nonMembershipNeighbors isPrint leaves key iavlLeafOp =
     (if key \<in> leaf_key ` set leaves
      then Inl (PanicString (''non-membership key '' @ Quote isPrint key @ '' exists in fixture set''))
      else Inr (if left_of key leaves = [] then [] else leaf_existence (last (left_of key leaves)),
                if right_of key leaves = [] then [] else leaf_existence (hd (right_of key leaves))))"
  by (simp add: nonMembershipNeighbors_def neighborsLoop_eq)

section \<open>The last loop\<close>

definition mk_ok :: "iavlLeafNode list \<Rightarrow> iavlLeafNode \<Rightarrow> bool" where
  "mk_ok leaves leaf \<longleftrightarrow>
     (fi_nonMembershipKey (lf_input leaf) \<noteq> [] \<longrightarrow> fi_nonMembershipKey (lf_input leaf) \<notin> leaf_key ` set leaves)"

definition membership_bytes :: "bytes \<Rightarrow> bytes \<Rightarrow> bytes" where
  "membership_bytes tmExist ep = encodeMerkleProof [encodeCommitmentExist ep, encodeCommitmentExist tmExist]"

definition absence_bytes :: "bytes \<Rightarrow> iavlLeafNode list \<Rightarrow> bytes \<Rightarrow> bytes" where
  "absence_bytes tmExist leaves key =
     (if key = [] then []
      else encodeMerkleProof
        [encodeCommitmentNonexist (encodeNonExistenceProof key
           (if left_of key leaves = [] then [] else leaf_existence (last (left_of key leaves)))
           (if right_of key leaves = [] then [] else leaf_existence (hd (right_of key leaves)))),
         encodeCommitmentExist tmExist])"

definition fixture_of :: "iavlLeafNode list \<Rightarrow> bytes \<Rightarrow> bytes \<Rightarrow> bytes \<Rightarrow> iavlLeafNode \<Rightarrow> fixture" where
  "fixture_of leaves iavlRoot tmExist appRoot leaf =
     \<lparr>fx_input = lf_input leaf, fx_subroot = iavlRoot, fx_appRoot = appRoot,
      fx_proofBz = membership_bytes tmExist (leaf_existence leaf),
      fx_nonMembershipProof = absence_bytes tmExist leaves (fi_nonMembershipKey (lf_input leaf))\<rparr>"

lemma makeFixture_eq:
  assumes "sorted_wrt (\<lambda>x y. \<not> bytes_less (leaf_key y) (leaf_key x)) leaves"
  shows "mk_ok leaves leaf \<Longrightarrow>
      makeFixture isPrint leaves iavlRoot tmExist appRoot leaf = Inr (fixture_of leaves iavlRoot tmExist appRoot leaf)"
    and "\<not> mk_ok leaves leaf \<Longrightarrow> \<exists>m. makeFixture isPrint leaves iavlRoot tmExist appRoot leaf = Inl (PanicString m)"
  by (auto simp: makeFixture_def mk_ok_def nonMembershipNeighbors_eq [OF assms] fixture_of_def membership_bytes_def
      absence_bytes_def Let_def)

lemma fixturesLoop_ok:
  "(\<And>l. l \<in> set ls \<Longrightarrow> mk l = Inr (g l)) \<Longrightarrow>
   fixturesLoop mk ls out = Inr (foldl (\<lambda>acc l. acc[lf_inputIdx l := g l]) out ls)"
  by (induction ls arbitrary: out) auto

lemma fixturesLoop_panic: "l \<in> set ls \<Longrightarrow> mk l = Inl p \<Longrightarrow> \<exists>q. fixturesLoop mk ls out = Inl q"
proof (induction ls arbitrary: out)
  case (Cons k ls)
  then show ?case by (cases "mk k") auto
qed simp

lemma foldl_update_nth:
  "distinct (map ix ls) \<Longrightarrow> length (foldl (\<lambda>acc l. acc[ix l := g l]) out ls) = length out \<and>
   (\<forall>i<length out. (\<forall>l\<in>set ls. ix l \<noteq> i) \<longrightarrow> foldl (\<lambda>acc l. acc[ix l := g l]) out ls ! i = out ! i) \<and>
   (\<forall>l\<in>set ls. ix l < length out \<longrightarrow> foldl (\<lambda>acc l. acc[ix l := g l]) out ls ! ix l = g l)"
proof (induction ls arbitrary: out)
  case (Cons l ls)
  have "\<forall>k\<in>set ls. ix k \<noteq> ix l" using Cons.prems by (simp add: image_iff) metis
  with Cons.IH [of "out[ix l := g l]"] Cons.prems show ?case by (auto simp: nth_list_update)
qed simp

section \<open>The whole set\<close>

definition leaf_hash :: "hash \<Rightarrow> fixtureInput \<Rightarrow> bytes" where
  "leaf_hash sha256 input = applyLeaf sha256 iavlLeafPrefix (wasm_prefix @ fi_key input) (fi_value input)"

lemma leaf_core_nth:
  "map leaf_core s = map leaf_core t \<Longrightarrow> i < length t \<Longrightarrow> leaf_core (s ! i) = leaf_core (t ! i)"
  by (metis length_map nth_map)

definition set_ok :: "fixtureInput list \<Rightarrow> bool" where
  "set_ok inputs \<longleftrightarrow> inputs \<noteq> [] \<and>
     (\<forall>input\<in>set inputs. fi_nonMembershipKey input \<noteq> [] \<longrightarrow> fi_nonMembershipKey input \<notin> fi_key ` set inputs)"

text \<open>The sorted leaves with their finished proofs, and the set in terms of them.\<close>

lemma makeFixtureSet_leaves:
  assumes "inputs \<noteq> []"
  shows "\<exists>leaves store root.
    makeFixtureSet sha256 isPrint inputs =
      fixturesLoop (makeFixture isPrint (map (\<lambda>p. store ! p) leaves) root
        (encodeExistenceProof (bytes_of_string wasmStoreKey) root tmLeafOp [])
        (applyLeaf sha256 [0] (bytes_of_string wasmStoreKey) root))
        (map (\<lambda>p. store ! p) leaves) (replicate (length inputs) zeroFixture) \<and>
    mset leaves = mset [0..<length inputs] \<and>
    sorted_wrt (\<lambda>x y. \<not> bytes_less (leaf_key y) (leaf_key x)) (map (\<lambda>p. store ! p) leaves) \<and>
    (\<forall>i<length inputs. lf_input (store ! i) = inputs ! i \<and> lf_inputIdx (store ! i) = i \<and>
       lf_hash (store ! i) = leaf_hash sha256 (inputs ! i) \<and> leads_to sha256 (store ! i) root)"
proof -
  define st where "st = map (\<lambda>(i, input). makeLeaf sha256 wasm_prefix i input) (enumerate 0 inputs)"
  have st: "length st = length inputs" "\<And>i. i < length inputs \<Longrightarrow> st ! i = makeLeaf sha256 wasm_prefix i (inputs ! i)"
    by (simp_all add: st_def nth_enumerate_eq)
  define leaves where "leaves = sort_slice (\<lambda>p q. Compare (leaf_key (st ! p)) (leaf_key (st ! q)) < 0) [0..<length inputs]"
  have ms: "mset leaves = mset [0..<length inputs]" unfolding leaves_def by (rule byte_order.mset_sort_slice)
  then have sl: "set leaves = {..<length inputs}" and ll: "length leaves = length inputs" and dl: "distinct leaves"
    by (metis atLeast_upt set_mset_mset, metis length_upt minus_nat.diff_0 size_mset,
        metis distinct_upt mset_eq_imp_distinct_iff)
  have srt: "sorted_wrt (\<lambda>p q. \<not> bytes_less (leaf_key (st ! q)) (leaf_key (st ! p))) leaves"
    unfolding leaves_def Compare_neg by (rule byte_order.sorted_sort_slice)
  have "leaves \<noteq> []" using ll assms by auto
  moreover have "lf_proof (st ! p) = []" if "p \<in> set leaves" for p
    using that sl st by (simp add: makeLeaf_def)
  ultimately obtain store root where b: "buildIavlRoot sha256 st leaves = Inr (store, root)"
    "map leaf_core store = map leaf_core st" "\<forall>p\<in>set leaves. leads_to sha256 (store ! p) (nd_hash root)"
    using buildIavlRoot_lead [of leaves st sha256] dl sl st(1) by auto
  have core: "lf_input (store ! i) = lf_input (st ! i) \<and> lf_inputIdx (store ! i) = lf_inputIdx (st ! i) \<and>
      lf_hash (store ! i) = lf_hash (st ! i)" if "i < length inputs" for i
    using leaf_core_nth [OF b(2)] that st(1) leaf_core_eq by metis
  have "sorted_wrt (\<lambda>x y. \<not> bytes_less (leaf_key y) (leaf_key x)) (map (\<lambda>p. store ! p) leaves)"
    unfolding sorted_wrt_map using srt
    by (rule sorted_wrt_mono_rel [rotated]) (use core sl in auto)
  moreover have "\<forall>i<length inputs. lf_input (store ! i) = inputs ! i \<and> lf_inputIdx (store ! i) = i \<and>
       lf_hash (store ! i) = leaf_hash sha256 (inputs ! i) \<and> leads_to sha256 (store ! i) (nd_hash root)"
    using core st b(3) sl by (auto simp: makeLeaf_def leaf_hash_def)
  moreover have "makeFixtureSet sha256 isPrint inputs =
      fixturesLoop (makeFixture isPrint (map (\<lambda>p. store ! p) leaves) (nd_hash root)
        (encodeExistenceProof (bytes_of_string wasmStoreKey) (nd_hash root) tmLeafOp [])
        (applyLeaf sha256 [0] (bytes_of_string wasmStoreKey) (nd_hash root)))
        (map (\<lambda>p. store ! p) leaves) (replicate (length inputs) zeroFixture)"
    using b(1) ll unfolding makeFixtureSet_def wasm_prefix Let_def bind_panic_Inr
      st_def [symmetric] leaves_def [symmetric] by simp
  ultimately show ?thesis using ms by blast
qed

lemma makeFixtureSet_Nil: "makeFixtureSet sha256 isPrint [] = Inl PanicIndex"
  by (simp add: makeFixtureSet_def wasm_prefix buildIavlRoot_Nil sort_slice_def Let_def)

lemma leaves_image:
  assumes "mset leaves = mset [0..<length inputs]"
    and "\<forall>i<length inputs. lf_input (store ! i) = inputs ! i \<and> P i"
  shows "lf_input ` set (map (\<lambda>p. store ! p) leaves) = set inputs"
proof -
  have "set leaves = {..<length inputs}" using assms(1) by (metis atLeast_upt set_mset_mset)
  then have "lf_input ` set (map (\<lambda>p. store ! p) leaves) = (\<lambda>i. inputs ! i) ` {..<length inputs}"
    using assms(2) by (auto simp: image_image)
  then show ?thesis by (auto simp: in_set_conv_nth image_iff)
qed

lemma set_ok_leaves:
  assumes "lf_input ` set L = set inputs" and "inputs \<noteq> []"
  shows "set_ok inputs \<longleftrightarrow> (\<forall>l\<in>set L. mk_ok L l)"
proof -
  have "fi_key ` set inputs = leaf_key ` set L" unfolding assms(1) [symmetric] by (simp add: image_image)
  then have "(\<forall>l\<in>set L. mk_ok L l) \<longleftrightarrow> (\<forall>input\<in>lf_input ` set L.
      fi_nonMembershipKey input \<noteq> [] \<longrightarrow> fi_nonMembershipKey input \<notin> fi_key ` set inputs)"
    by (simp add: mk_ok_def)
  with assms show ?thesis by (simp add: set_ok_def)
qed

text \<open>The fixtures of a set, by the position of their input.\<close>

lemma makeFixtureSet_fixtures:
  assumes "set_ok inputs"
  shows "\<exists>L leaf root fxs. makeFixtureSet sha256 isPrint inputs = Inr fxs \<and> length fxs = length inputs \<and>
    sorted_wrt (\<lambda>x y. \<not> bytes_less (leaf_key y) (leaf_key x)) L \<and> set L = leaf ` {..<length inputs} \<and>
    (\<forall>i<length inputs. lf_input (leaf i) = inputs ! i \<and> lf_hash (leaf i) = leaf_hash sha256 (inputs ! i) \<and>
       leads_to sha256 (leaf i) root \<and>
       fxs ! i = fixture_of L root (encodeExistenceProof (bytes_of_string wasmStoreKey) root tmLeafOp [])
        (applyLeaf sha256 [0] (bytes_of_string wasmStoreKey) root) (leaf i))"
proof -
  have ne: "inputs \<noteq> []" using assms by (simp add: set_ok_def)
  from makeFixtureSet_leaves [OF this, of sha256 isPrint] obtain leaves store root where m:
    "makeFixtureSet sha256 isPrint inputs =
      fixturesLoop (makeFixture isPrint (map (\<lambda>p. store ! p) leaves) root
        (encodeExistenceProof (bytes_of_string wasmStoreKey) root tmLeafOp [])
        (applyLeaf sha256 [0] (bytes_of_string wasmStoreKey) root))
        (map (\<lambda>p. store ! p) leaves) (replicate (length inputs) zeroFixture)"
    and ms: "mset leaves = mset [0..<length inputs]"
    and srt: "sorted_wrt (\<lambda>x y. \<not> bytes_less (leaf_key y) (leaf_key x)) (map (\<lambda>p. store ! p) leaves)"
    and inp: "\<forall>i<length inputs. lf_input (store ! i) = inputs ! i \<and> lf_inputIdx (store ! i) = i \<and>
       lf_hash (store ! i) = leaf_hash sha256 (inputs ! i) \<and> leads_to sha256 (store ! i) root"
    by blast
  let ?L = "map (\<lambda>p. store ! p) leaves"
  let ?g = "fixture_of ?L root (encodeExistenceProof (bytes_of_string wasmStoreKey) root tmLeafOp [])
        (applyLeaf sha256 [0] (bytes_of_string wasmStoreKey) root)"
  let ?fxs = "foldl (\<lambda>acc l. acc[lf_inputIdx l := ?g l]) (replicate (length inputs) zeroFixture) ?L"
  have sl: "set leaves = {..<length inputs}" using ms by (metis atLeast_upt set_mset_mset)
  have ok: "\<forall>l\<in>set ?L. mk_ok ?L l" using set_ok_leaves [OF leaves_image [OF ms inp] ne] assms by blast
  then have r: "makeFixtureSet sha256 isPrint inputs = Inr ?fxs"
    unfolding m by (intro fixturesLoop_ok makeFixture_eq(1) [OF srt]) blast
  have "map lf_inputIdx ?L = leaves" unfolding map_map by (rule map_idI) (use sl inp in auto)
  then have "distinct (map lf_inputIdx ?L)" using ms by (metis distinct_upt mset_eq_imp_distinct_iff)
  from foldl_update_nth [OF this, of ?g "replicate (length inputs) zeroFixture"]
  have nth: "length ?fxs = length inputs" "\<forall>i<length inputs. ?fxs ! i = ?g (store ! i)"
    using inp sl by auto
  have "set ?L = (\<lambda>i. store ! i) ` {..<length inputs}" using sl by simp
  then show ?thesis using r nth srt inp by blast
qed

text \<open>The generator fails exactly on an empty set, and when a key whose absence is to be proved
  is a key of the set.\<close>

theorem makeFixtureSet_succeeds_iff:
  "(\<exists>fxs. makeFixtureSet sha256 isPrint inputs = Inr fxs) \<longleftrightarrow> set_ok inputs"
proof (cases "inputs = []")
  case True
  then show ?thesis by (simp add: makeFixtureSet_Nil set_ok_def)
next
  case False
  from makeFixtureSet_leaves [OF this, of sha256 isPrint] obtain leaves store root where m:
    "makeFixtureSet sha256 isPrint inputs =
      fixturesLoop (makeFixture isPrint (map (\<lambda>p. store ! p) leaves) root
        (encodeExistenceProof (bytes_of_string wasmStoreKey) root tmLeafOp [])
        (applyLeaf sha256 [0] (bytes_of_string wasmStoreKey) root))
        (map (\<lambda>p. store ! p) leaves) (replicate (length inputs) zeroFixture)"
    and ms: "mset leaves = mset [0..<length inputs]"
    and srt: "sorted_wrt (\<lambda>x y. \<not> bytes_less (leaf_key y) (leaf_key x)) (map (\<lambda>p. store ! p) leaves)"
    and inp: "\<forall>i<length inputs. lf_input (store ! i) = inputs ! i \<and> lf_inputIdx (store ! i) = i \<and>
       lf_hash (store ! i) = leaf_hash sha256 (inputs ! i) \<and> leads_to sha256 (store ! i) root"
    by blast
  let ?L = "map (\<lambda>p. store ! p) leaves"
  note ok = set_ok_leaves [OF leaves_image [OF ms inp] False]
  show ?thesis
  proof (cases "\<forall>l\<in>set ?L. mk_ok ?L l")
    case True
    then show ?thesis using ok makeFixtureSet_fixtures by blast
  next
    case False
    then obtain l where "l \<in> set ?L" "\<not> mk_ok ?L l" by blast
    then show ?thesis
      using ok False makeFixture_eq(2) [OF srt] fixturesLoop_panic unfolding m by (metis Inl_Inr_False)
  qed
qed

definition existence_bytes :: "fixtureInput \<Rightarrow> inner_op list \<Rightarrow> bytes" where
  "existence_bytes input ops =
     encodeExistenceProof (wasm_prefix @ fi_key input) (fi_value input) iavlLeafOp (map op_bytes ops)"

definition store_bytes :: "bytes \<Rightarrow> bytes" where
  "store_bytes root = encodeCommitmentExist (encodeExistenceProof (bytes_of_string wasmStoreKey) root tmLeafOp [])"

lemma leads_to_existence:
  "leads_to sha256 leaf root \<Longrightarrow> lf_hash leaf = leaf_hash sha256 (lf_input leaf) \<Longrightarrow>
   \<exists>ops. leaf_existence leaf = existence_bytes (lf_input leaf) ops \<and>
     fold_ops sha256 (leaf_hash sha256 (lf_input leaf)) ops = root"
  by (auto simp: leads_to_def leaf_existence_def existence_bytes_def)

text \<open>C26: every membership proof is right: folding its operations over the leaf's hash gives the
  printed subroot, one level up the store's entry gives the printed app root, and the fixtures come
  in the order of their inputs.\<close>

theorem fixtures_membership_sound:
  assumes "set_ok inputs"
  shows "\<exists>fxs root. makeFixtureSet sha256 isPrint inputs = Inr fxs \<and> length fxs = length inputs \<and>
    (\<forall>i<length inputs. fx_input (fxs ! i) = inputs ! i \<and> fx_subroot (fxs ! i) = root \<and>
       fx_appRoot (fxs ! i) = applyLeaf sha256 [0] (bytes_of_string wasmStoreKey) root \<and>
       (\<exists>ops. fold_ops sha256 (leaf_hash sha256 (inputs ! i)) ops = root \<and>
          fx_proofBz (fxs ! i) =
            encodeMerkleProof [encodeCommitmentExist (existence_bytes (inputs ! i) ops), store_bytes root]))"
proof -
  obtain L leaf root fxs where f: "makeFixtureSet sha256 isPrint inputs = Inr fxs" "length fxs = length inputs"
    "\<forall>i<length inputs. lf_input (leaf i) = inputs ! i \<and> lf_hash (leaf i) = leaf_hash sha256 (inputs ! i) \<and>
       leads_to sha256 (leaf i) root \<and>
       fxs ! i = fixture_of L root (encodeExistenceProof (bytes_of_string wasmStoreKey) root tmLeafOp [])
        (applyLeaf sha256 [0] (bytes_of_string wasmStoreKey) root) (leaf i)"
    using makeFixtureSet_fixtures [OF assms, of sha256 isPrint] by blast
  have "\<exists>ops. fold_ops sha256 (leaf_hash sha256 (inputs ! i)) ops = root \<and>
      fx_proofBz (fxs ! i) =
        encodeMerkleProof [encodeCommitmentExist (existence_bytes (inputs ! i) ops), store_bytes root]"
    if i: "i < length inputs" for i
  proof -
    obtain ops where "leaf_existence (leaf i) = existence_bytes (inputs ! i) ops"
      "fold_ops sha256 (leaf_hash sha256 (inputs ! i)) ops = root"
      using f(3) i leads_to_existence [of sha256 "leaf i" root] by auto
    with f(3) i show ?thesis
      by (intro exI [of _ ops]) (simp add: fixture_of_def membership_bytes_def store_bytes_def)
  qed
  with f show ?thesis
    by (intro exI [of _ fxs] exI [of _ root]) (auto simp: fixture_of_def)
qed

definition sample_set :: "fixtureInput list" where
  "sample_set = [\<lparr>fi_name = ''b'', fi_key = [2], fi_value = [7], fi_nonMembershipKey = [3]\<rparr>,
     \<lparr>fi_name = ''a'', fi_key = [1], fi_value = [8], fi_nonMembershipKey = []\<rparr>]"

theorem fixtures_membership_sound_witness:
  "\<exists>fxs root. makeFixtureSet id (\<lambda>_. True) sample_set = Inr fxs \<and> length fxs = length sample_set \<and>
    (\<forall>i<length sample_set. fx_input (fxs ! i) = sample_set ! i \<and> fx_subroot (fxs ! i) = root \<and>
       fx_appRoot (fxs ! i) = applyLeaf id [0] (bytes_of_string wasmStoreKey) root \<and>
       (\<exists>ops. fold_ops id (leaf_hash id (sample_set ! i)) ops = root \<and>
          fx_proofBz (fxs ! i) =
            encodeMerkleProof [encodeCommitmentExist (existence_bytes (sample_set ! i) ops), store_bytes root]))"
  by (rule fixtures_membership_sound) (simp add: sample_set_def set_ok_def)

text \<open>A neighbour of a missing key: the closest key on its side, with a proof that folds to the root.\<close>

definition neighbour :: "hash \<Rightarrow> fixtureInput list \<Rightarrow> bytes \<Rightarrow> (bytes \<Rightarrow> bytes \<Rightarrow> bool) \<Rightarrow> bytes \<Rightarrow> bytes \<Rightarrow> bool" where
  "neighbour sha256 inputs key closer root ep \<longleftrightarrow>
     (if \<exists>input\<in>set inputs. closer (fi_key input) key
      then \<exists>input\<in>set inputs. \<exists>ops. closer (fi_key input) key \<and>
        (\<forall>other\<in>set inputs. closer (fi_key other) key \<longrightarrow> \<not> closer (fi_key input) (fi_key other)) \<and>
        fold_ops sha256 (leaf_hash sha256 input) ops = root \<and> ep = existence_bytes input ops
      else ep = [])"

lemma neighbour_leaf:
  assumes L: "lf_input ` set L = set inputs" and l: "\<forall>l\<in>set L. leads_to sha256 l root \<and> lf_hash l = leaf_hash sha256 (lf_input l)"
    and xs: "xs = filter (\<lambda>l. closer (leaf_key l) key) L"
    and best: "xs \<noteq> [] \<Longrightarrow> b \<in> set xs \<and> (\<forall>o'\<in>set xs. \<not> closer (leaf_key b) (leaf_key o'))"
  shows "neighbour sha256 inputs key closer root (if xs = [] then [] else leaf_existence b)"
proof (cases "xs = []")
  case True
  then have "\<not> (\<exists>input\<in>set inputs. closer (fi_key input) key)"
    unfolding L [symmetric] xs by (auto simp: filter_empty_conv)
  with True show ?thesis by (simp add: neighbour_def)
next
  case False
  with best have b: "b \<in> set L" "closer (leaf_key b) key"
    and m: "\<forall>o'\<in>set L. closer (leaf_key o') key \<longrightarrow> \<not> closer (leaf_key b) (leaf_key o')"
    by (auto simp: xs)
  obtain ops where "leaf_existence b = existence_bytes (lf_input b) ops"
    "fold_ops sha256 (leaf_hash sha256 (lf_input b)) ops = root"
    using leads_to_existence l b(1) by blast
  with False b m show ?thesis
    unfolding neighbour_def L [symmetric] by auto
qed

lemma last_left_best:
  assumes "sorted_wrt (\<lambda>x y. \<not> bytes_less (leaf_key y) (leaf_key x)) L" and "left_of key L \<noteq> []"
  shows "last (left_of key L) \<in> set (left_of key L) \<and>
    (\<forall>l\<in>set (left_of key L). \<not> bytes_less (leaf_key (last (left_of key L))) (leaf_key l))"
proof -
  have "sorted_wrt (\<lambda>x y. \<not> bytes_less (leaf_key y) (leaf_key x)) (left_of key L)"
    unfolding left_of_def using assms(1) by (rule sorted_wrt_filter)
  then have "sorted_wrt (\<lambda>x y. \<not> bytes_less (leaf_key y) (leaf_key x)) (butlast (left_of key L) @ [last (left_of key L)])"
    using assms(2) by simp
  then have "\<forall>l\<in>set (butlast (left_of key L)). \<not> bytes_less (leaf_key (last (left_of key L))) (leaf_key l)"
    unfolding sorted_wrt_append by simp
  moreover have "set (left_of key L) = insert (last (left_of key L)) (set (butlast (left_of key L)))"
    using assms(2) by (metis append_butlast_last_id list.simps(15) rotate1.simps(2) set_rotate1)
  ultimately show ?thesis by auto
qed

lemma hd_right_best:
  assumes "sorted_wrt (\<lambda>x y. \<not> bytes_less (leaf_key y) (leaf_key x)) L" and "right_of key L \<noteq> []"
  shows "hd (right_of key L) \<in> set (right_of key L) \<and>
    (\<forall>l\<in>set (right_of key L). \<not> bytes_less (leaf_key l) (leaf_key (hd (right_of key L))))"
proof -
  have "sorted_wrt (\<lambda>x y. \<not> bytes_less (leaf_key y) (leaf_key x)) (right_of key L)"
    unfolding right_of_def using assms(1) by (rule sorted_wrt_filter)
  with assms(2) show ?thesis by (cases "right_of key L") auto
qed

text \<open>A non-membership proof carries the membership proofs of the two neighbours of the
  missing key, the greatest key below it and the least above it, left out where there is none.\<close>

theorem fixtures_absence_sound:
  assumes "set_ok inputs" and "i < length inputs" and "fi_nonMembershipKey (inputs ! i) \<noteq> []"
  shows "\<exists>fxs left right. makeFixtureSet sha256 isPrint inputs = Inr fxs \<and>
    fx_nonMembershipProof (fxs ! i) =
      encodeMerkleProof [encodeCommitmentNonexist (encodeNonExistenceProof (fi_nonMembershipKey (inputs ! i)) left right),
        store_bytes (fx_subroot (fxs ! i))] \<and>
    neighbour sha256 inputs (fi_nonMembershipKey (inputs ! i)) bytes_less (fx_subroot (fxs ! i)) left \<and>
    neighbour sha256 inputs (fi_nonMembershipKey (inputs ! i)) (\<lambda>a b. bytes_less b a) (fx_subroot (fxs ! i)) right"
proof -
  let ?k = "fi_nonMembershipKey (inputs ! i)"
  obtain L leaf root fxs where f: "makeFixtureSet sha256 isPrint inputs = Inr fxs" "length fxs = length inputs"
    "sorted_wrt (\<lambda>x y. \<not> bytes_less (leaf_key y) (leaf_key x)) L" "set L = leaf ` {..<length inputs}"
    "\<forall>i<length inputs. lf_input (leaf i) = inputs ! i \<and> lf_hash (leaf i) = leaf_hash sha256 (inputs ! i) \<and>
       leads_to sha256 (leaf i) root \<and>
       fxs ! i = fixture_of L root (encodeExistenceProof (bytes_of_string wasmStoreKey) root tmLeafOp [])
        (applyLeaf sha256 [0] (bytes_of_string wasmStoreKey) root) (leaf i)"
    using makeFixtureSet_fixtures [OF assms(1), of sha256 isPrint] by blast
  have L: "lf_input ` set L = set inputs"
    using f(4,5) by (auto simp: image_image in_set_conv_nth)
  have l: "\<forall>l\<in>set L. leads_to sha256 l root \<and> lf_hash l = leaf_hash sha256 (lf_input l)"
    using f(4,5) by auto
  define le where "le = (if left_of ?k L = [] then [] else leaf_existence (last (left_of ?k L)))"
  define re where "re = (if right_of ?k L = [] then [] else leaf_existence (hd (right_of ?k L)))"
  have left: "neighbour sha256 inputs ?k bytes_less root le"
    unfolding le_def by (rule neighbour_leaf [OF L l]) (simp add: left_of_def, rule last_left_best [OF f(3)])
  have right: "neighbour sha256 inputs ?k (\<lambda>a b. bytes_less b a) root re"
    unfolding re_def by (rule neighbour_leaf [OF L l]) (simp add: right_of_def, rule hd_right_best [OF f(3)])
  have "fx_subroot (fxs ! i) = root"
    "fx_nonMembershipProof (fxs ! i) = absence_bytes (encodeExistenceProof (bytes_of_string wasmStoreKey) root tmLeafOp []) L ?k"
    using f(5) assms(2) by (auto simp: fixture_of_def)
  with f(1) left right assms(3) show ?thesis
    unfolding absence_bytes_def store_bytes_def le_def [symmetric] re_def [symmetric]
    by (intro exI [of _ fxs] exI [of _ le] exI [of _ re]) simp
qed

theorem fixtures_absence_sound_witness:
  "\<exists>fxs left right. makeFixtureSet id (\<lambda>_. True) sample_set = Inr fxs \<and>
    fx_nonMembershipProof (fxs ! 0) =
      encodeMerkleProof [encodeCommitmentNonexist (encodeNonExistenceProof (fi_nonMembershipKey (sample_set ! 0)) left right),
        store_bytes (fx_subroot (fxs ! 0))] \<and>
    neighbour id sample_set (fi_nonMembershipKey (sample_set ! 0)) bytes_less (fx_subroot (fxs ! 0)) left \<and>
    neighbour id sample_set (fi_nonMembershipKey (sample_set ! 0)) (\<lambda>a b. bytes_less b a) (fx_subroot (fxs ! 0)) right"
  by (rule fixtures_absence_sound) (simp_all add: sample_set_def set_ok_def)

section \<open>The program\<close>

lemma printFixture_ok [simp]: "snd (printFixture isPrint f) = Inr ()"
  by (simp add: printFixture_def bind_out_ok)

lemma printSet_ok:
  assumes "set_ok inputs"
  shows "snd (printSet sha256 isPrint inputs) = Inr ()"
proof -
  obtain fxs where f: "makeFixtureSet sha256 isPrint inputs = Inr fxs"
    using makeFixtureSet_fixtures [OF assms, of sha256 isPrint] by blast
  have "seq_out (map (printFixture isPrint) fxs) = (concat (map fst (map (printFixture isPrint) fxs)), Inr ())"
    by (rule seq_out_ok) auto
  then show ?thesis unfolding printSet_def f bind_out_lift by simp
qed

lemma base_ok: "set_ok baseFixtures"
  by (simp add: set_ok_def baseFixtures_def)

lemma z37_ok: "case z37Fixtures of Inr xs \<Rightarrow> set_ok xs | Inl _ \<Rightarrow> False"
  by code_simp

text \<open>A set of hexadecimal entries without a key to be proved absent is never refused.\<close>

lemma hexInput_ok:
  "hex_string n key \<Longrightarrow> hex_string m v \<Longrightarrow> \<exists>x. hexInput name key v = Inr x \<and> fi_nonMembershipKey x = []"
  using hexLiteral_total [of n key] hexLiteral_total [of m v] by (auto simp: hexInput_def)

definition plain_inputs :: "panic + fixtureInput list \<Rightarrow> bool" where
  "plain_inputs r \<longleftrightarrow> (\<exists>xs. r = Inr xs \<and> (\<forall>x\<in>set xs. fi_nonMembershipKey x = []))"

lemma plain_inputs_Nil: "plain_inputs (all_inputs [])"
  by (simp add: plain_inputs_def)

lemma plain_inputs_Cons:
  assumes "hex_string (length key div 2) key" and "hex_string (length value div 2) value" and "plain_inputs (all_inputs rs)"
  shows "plain_inputs (all_inputs (hexInput name key value # rs))"
  using hexInput_ok [OF assms(1,2), of name] assms(3) by (auto simp: plain_inputs_def)

lemma all_inputs_length: "all_inputs rs = Inr xs \<Longrightarrow> length xs = length rs"
  by (induction rs arbitrary: xs) (auto simp: bind_panic_def split: sum.splits)

lemma plain_inputs_ok:
  assumes "plain_inputs (all_inputs rs)" and "rs \<noteq> []"
  shows "\<exists>xs. all_inputs rs = Inr xs \<and> set_ok xs"
  using assms all_inputs_length [of rs] by (auto simp: plain_inputs_def set_ok_def)

lemma z35_ok: "\<exists>xs. z35Fixtures = Inr xs \<and> set_ok xs"
  unfolding z35Fixtures_def
  by (rule plain_inputs_ok) (rule plain_inputs_Cons plain_inputs_Nil | simp add: hex_string_simps)+

lemma z42_wrong_ok: "\<exists>xs. z42WrongVersionFixtures = Inr xs \<and> set_ok xs"
  unfolding z42WrongVersionFixtures_def
  by (rule plain_inputs_ok) (rule plain_inputs_Cons plain_inputs_Nil | simp add: hex_string_simps)+

lemma z42_stale_ok: "\<exists>xs. z42StaleFixtures = Inr xs \<and> set_ok xs"
  unfolding z42StaleFixtures_def
  by (rule plain_inputs_ok) (rule plain_inputs_Cons plain_inputs_Nil | simp add: hex_string_simps)+

text \<open>The generator prints all of its sets: no literal is malformed, no set is empty and no key to
  be proved absent is in its set.\<close>

theorem fixtures_no_panic: "snd (main sha256 isPrint) = Inr ()"
proof -
  obtain z35 where a: "z35Fixtures = Inr z35" "set_ok z35" using z35_ok by blast
  obtain z37 where b: "z37Fixtures = Inr z37" "set_ok z37" using z37_ok by (auto split: sum.splits)
  obtain wrong where c: "z42WrongVersionFixtures = Inr wrong" "set_ok wrong" using z42_wrong_ok by blast
  obtain stale where d: "z42StaleFixtures = Inr stale" "set_ok stale" using z42_stale_ok by blast
  show ?thesis
    unfolding main_def a(1) b(1) c(1) d(1) bind_out_lift
    using printSet_ok [OF base_ok] printSet_ok [OF a(2)] printSet_ok [OF b(2)] printSet_ok [OF c(2)] printSet_ok [OF d(2)]
    by (simp add: bind_out_ok)
qed

end
