(* ===== verification/IavlTree.thy ===== *)
theory IavlTree
  imports IavlFixtures
begin

text \<open>
  What \<^verbatim>\<open>buildIavlRoot\<close> builds: the loop over levels and the mutation of the leaves through pointers
  implement a pure binary tree, whose hash is the root's and whose paths are the proofs of the leaves.
\<close>

section \<open>The tree\<close>

datatype tree = Tip leaf_ptr | Fork tree tree

fun tree_leaves :: "tree \<Rightarrow> leaf_ptr list" where
  "tree_leaves (Tip p) = [p]"
| "tree_leaves (Fork l r) = tree_leaves l @ tree_leaves r"

fun tree_height :: "tree \<Rightarrow> nat" where
  "tree_height (Tip p) = 0"
| "tree_height (Fork l r) = max (tree_height l) (tree_height r) + 1"

definition tree_prefix :: "tree \<Rightarrow> bytes" where
  "tree_prefix t = iavlInnerPrefix (word_of_nat (tree_height t)) (word_of_nat (length (tree_leaves t)))"

fun tree_hash :: "hash \<Rightarrow> leaf_store \<Rightarrow> tree \<Rightarrow> bytes" where
  "tree_hash sha256 store (Tip p) = lf_hash (store ! p)"
| "tree_hash sha256 store (Fork l r) =
     applyInner sha256 (tree_prefix (Fork l r)) (tree_hash sha256 store l) (tree_hash sha256 store r)"

text \<open>The operations from a leaf up to the root: what is hashed before and after the child.\<close>

fun tree_path :: "hash \<Rightarrow> leaf_store \<Rightarrow> tree \<Rightarrow> leaf_ptr \<Rightarrow> inner_op list" where
  "tree_path sha256 store (Tip q) p = []"
| "tree_path sha256 store (Fork l r) p =
     (let lh = tree_hash sha256 store l; rh = tree_hash sha256 store r; pre = tree_prefix (Fork l r)
      in if p \<in> set (tree_leaves l)
         then tree_path sha256 store l p @ [(pre @ pbVarint (word_of_nat (length lh)), withLength rh)]
         else tree_path sha256 store r p @ [(pre @ withLength lh @ pbVarint (word_of_nat (length rh)), [])])"

fun pair :: "tree list \<Rightarrow> tree list" where
  "pair [] = []"
| "pair [t] = [t]"
| "pair (a # b # ts) = Fork a b # pair ts"

lemma length_pair: "length (pair ts) = (length ts + 1) div 2"
  by (induction ts rule: pair.induct) simp_all

function build :: "tree list \<Rightarrow> tree list" where
  "build ts = (if length ts > 1 then build (pair ts) else ts)"
  by pat_completeness auto
termination by (relation "measure length") (auto simp: length_pair)

declare build.simps [simp del]

definition iavl_tree :: "leaf_ptr list \<Rightarrow> tree" where
  "iavl_tree ps = hd (build (map Tip ps))"

abbreviation forest_leaves :: "tree list \<Rightarrow> leaf_ptr list" where
  "forest_leaves ts \<equiv> concat (map tree_leaves ts)"

lemma forest_leaves_pair [simp]: "forest_leaves (pair ts) = forest_leaves ts"
  by (induction ts rule: pair.induct) simp_all

section \<open>Its height\<close>

lemma tree_size_pos [simp]: "0 < length (tree_leaves t)"
  by (induction t) simp_all

lemma tree_leaves_not_Nil [simp]: "tree_leaves t \<noteq> []"
  using tree_size_pos [of t] by simp

lemma tree_height_less: "tree_height t < length (tree_leaves t)"
  by (induction t) auto

lemma tree_size_le: "length (tree_leaves t) \<le> 2 ^ tree_height t"
proof (induction t)
  case (Fork l r)
  have "(2::nat) ^ tree_height l \<le> 2 ^ max (tree_height l) (tree_height r)"
    "(2::nat) ^ tree_height r \<le> 2 ^ max (tree_height l) (tree_height r)"
    by (intro power_increasing; simp)+
  with Fork have "length (tree_leaves l) + length (tree_leaves r) \<le>
      2 ^ max (tree_height l) (tree_height r) + 2 ^ max (tree_height l) (tree_height r)"
    by linarith
  then show ?case by simp
qed simp

text \<open>The trees of a level: all but the last are complete of height \<open>k\<close>.\<close>

fun level :: "nat \<Rightarrow> tree list \<Rightarrow> bool" where
  "level k [] = True"
| "level k [t] \<longleftrightarrow> tree_height t \<le> k \<and> 2 ^ tree_height t < 2 * length (tree_leaves t)"
| "level k (t # u # us) \<longleftrightarrow> tree_height t = k \<and> length (tree_leaves t) = 2 ^ k \<and> level k (u # us)"

lemma level_last: "level k (t # ts) \<Longrightarrow> tree_height t \<le> k"
  by (cases ts) auto

lemma level_pair: "level k ts \<Longrightarrow> level (k + 1) (pair ts)"
proof (induction ts rule: pair.induct)
  case (3 a b ts)
  show ?case
  proof (cases ts)
    case Nil
    with 3 have "tree_height a = k" "length (tree_leaves a) = 2 ^ k" "tree_height b \<le> k" by auto
    moreover have "0 < length (tree_leaves b)" by simp
    ultimately show ?thesis by (simp add: Nil max_absorb1 del: tree_size_pos length_greater_0_conv)
  next
    case (Cons u us)
    then obtain v vs where p: "pair ts = v # vs" by (cases us) auto
    from 3(2) Cons have "level k ts" by simp
    with 3 Cons p show ?thesis by simp
  qed
qed simp_all

lemma level_build: "level k ts \<Longrightarrow> ts \<noteq> [] \<Longrightarrow> \<exists>t. build ts = [t] \<and> 2 ^ tree_height t < 2 * length (tree_leaves t) \<and>
  tree_leaves t = forest_leaves ts"
proof (induction ts arbitrary: k rule: build.induct)
  case (1 ts)
  show ?case
  proof (cases "length ts > 1")
    case True
    then have "pair ts \<noteq> []" by (cases ts rule: pair.cases) auto
    with 1(1) [OF True level_pair [OF 1(2)]] True show ?thesis by (subst build.simps) auto
  next
    case False
    with 1(3) obtain t where "ts = [t]" by (cases ts) auto
    with 1(2) show ?thesis by (subst build.simps) auto
  qed
qed

lemma level_tips: "level 0 (map Tip ps)"
proof (induction ps)
  case (Cons p ps) then show ?case by (cases ps) auto
qed simp

lemma iavl_tree_shape:
  assumes "ps \<noteq> []"
  shows "build (map Tip ps) = [iavl_tree ps]" and "tree_leaves (iavl_tree ps) = ps"
    and "2 ^ tree_height (iavl_tree ps) < 2 * length ps"
proof -
  have "forest_leaves (map Tip ps) = ps" by (induction ps) simp_all
  with level_build [OF level_tips, of ps] assms
  obtain t where t: "build (map Tip ps) = [t]" "2 ^ tree_height t < 2 * length (tree_leaves t)" "tree_leaves t = ps"
    by auto
  then have "iavl_tree ps = t" by (simp add: iavl_tree_def)
  with t show "build (map Tip ps) = [iavl_tree ps]" "tree_leaves (iavl_tree ps) = ps"
    "2 ^ tree_height (iavl_tree ps) < 2 * length ps" by simp_all
qed

section \<open>The refinement\<close>

definition node_of :: "hash \<Rightarrow> leaf_store \<Rightarrow> tree \<Rightarrow> iavlNode" where
  "node_of sha256 store t =
     \<lparr>nd_hash = tree_hash sha256 store t, nd_height = word_of_nat (tree_height t),
      nd_size = word_of_nat (length (tree_leaves t)), nd_leaves = tree_leaves t\<rparr>"

definition proofs_ok :: "hash \<Rightarrow> leaf_store \<Rightarrow> leaf_store \<Rightarrow> tree \<Rightarrow> bool" where
  "proofs_ok sha256 st store t \<longleftrightarrow>
     (\<forall>p\<in>set (tree_leaves t). p < length store \<and> lf_proof (store ! p) = map op_bytes (tree_path sha256 st t p))"

lemma small_height: "n < 2 ^ 63 \<Longrightarrow> sint (word_of_nat n :: 64 word) = int n"
  by (simp add: sint_uint unsigned_of_nat take_bit_nat_eq_self signed_take_bit_int_eq_self flip: of_nat_take_bit)

lemma combine_refines:
  assumes "distinct (tree_leaves a @ tree_leaves b)" "length (tree_leaves a @ tree_leaves b) < 2 ^ 63"
    and "proofs_ok sha256 st store a" "proofs_ok sha256 st store b"
  shows "\<exists>store'. combineIavlNodes sha256 store (node_of sha256 st a) (node_of sha256 st b) =
      (store', node_of sha256 st (Fork a b)) \<and> proofs_ok sha256 st store' (Fork a b) \<and> length store' = length store \<and>
      (\<forall>i. i < length store \<longrightarrow> i \<notin> set (tree_leaves (Fork a b)) \<longrightarrow> store' ! i = store ! i)"
proof -
  have h: "tree_height a < 2 ^ 63" "tree_height b < 2 ^ 63"
    using assms(2) tree_height_less [of a] tree_height_less [of b] by auto
  have ht: "(if sint (nd_height (node_of sha256 st a)) < sint (nd_height (node_of sha256 st b))
       then nd_height (node_of sha256 st b) else nd_height (node_of sha256 st a)) + 1 =
      word_of_nat (tree_height (Fork a b))"
    using h by (simp add: node_of_def small_height max_def)
  have sz: "nd_size (node_of sha256 st a) + nd_size (node_of sha256 st b) = word_of_nat (length (tree_leaves (Fork a b)))"
    by (simp add: node_of_def)
  have n: "nd_hash (node_of sha256 st t) = tree_hash sha256 st t" "nd_leaves (node_of sha256 st t) = tree_leaves t" for t
    by (simp_all add: node_of_def)
  define store' where "store' = fst (combineIavlNodes sha256 store (node_of sha256 st a) (node_of sha256 st b))"
  have c: "combineIavlNodes sha256 store (node_of sha256 st a) (node_of sha256 st b) = (store', node_of sha256 st (Fork a b))"
    unfolding store'_def combineIavlNodes_def ht sz n Let_def
    by (simp add: node_of_def [of _ _ "Fork a b"] tree_prefix_def)
  have s: "store' = foldl (appendProof (op_bytes (tree_prefix (Fork a b) @ withLength (tree_hash sha256 st a) @
        pbVarint (word_of_nat (length (tree_hash sha256 st b))), [])))
      (foldl (appendProof (op_bytes (tree_prefix (Fork a b) @ pbVarint (word_of_nat (length (tree_hash sha256 st a))),
        withLength (tree_hash sha256 st b)))) store (tree_leaves a)) (tree_leaves b)"
    unfolding store'_def combineIavlNodes_def ht sz n Let_def
    by (simp add: op_bytes_def concat_parts_def tree_prefix_def)
  have sub: "set (tree_leaves a) \<subseteq> {..<length store}" "set (tree_leaves b) \<subseteq> {..<length store}"
    using assms(3,4) by (auto simp: proofs_ok_def)
  show ?thesis
  proof (intro exI conjI)
    show "combineIavlNodes sha256 store (node_of sha256 st a) (node_of sha256 st b) = (store', node_of sha256 st (Fork a b))"
      by (rule c)
    show "proofs_ok sha256 st store' (Fork a b)"
      using assms(1,3,4) sub by (auto simp: proofs_ok_def s foldl_appendProof_nth Let_def)
    show "length store' = length store" by (simp add: s)
    show "\<forall>i. i < length store \<longrightarrow> i \<notin> set (tree_leaves (Fork a b)) \<longrightarrow> store' ! i = store ! i"
      using assms(1) sub by (auto simp: s foldl_appendProof_nth)
  qed
qed

definition all_ok :: "hash \<Rightarrow> leaf_store \<Rightarrow> leaf_store \<Rightarrow> tree list \<Rightarrow> bool" where
  "all_ok sha256 st store ts \<longleftrightarrow> (\<forall>t\<in>set ts. proofs_ok sha256 st store t)"

lemma proofs_ok_other:
  "proofs_ok sha256 st store t \<Longrightarrow> length store' = length store \<Longrightarrow>
     (\<forall>i. i < length store \<longrightarrow> i \<in> set (tree_leaves t) \<longrightarrow> store' ! i = store ! i) \<Longrightarrow> proofs_ok sha256 st store' t"
  by (auto simp: proofs_ok_def)

lemma all_ok_other:
  "all_ok sha256 st store ts \<Longrightarrow> length store' = length store \<Longrightarrow>
     (\<forall>i. i < length store \<longrightarrow> i \<in> set (forest_leaves ts) \<longrightarrow> store' ! i = store ! i) \<Longrightarrow> all_ok sha256 st store' ts"
  unfolding all_ok_def proofs_ok_def by (simp, metis)

lemma pairLevel_refines:
  "distinct (forest_leaves ts) \<Longrightarrow> length (forest_leaves ts) < 2 ^ 63 \<Longrightarrow> all_ok sha256 st store ts \<Longrightarrow>
   \<exists>store'. pairLevel sha256 store (map (node_of sha256 st) ts) = (store', map (node_of sha256 st) (pair ts)) \<and>
     all_ok sha256 st store' (pair ts) \<and> length store' = length store \<and>
     (\<forall>i. i < length store \<longrightarrow> i \<notin> set (forest_leaves ts) \<longrightarrow> store' ! i = store ! i)"
proof (induction ts arbitrary: store rule: pair.induct)
  case (3 a b ts)
  then have ok: "proofs_ok sha256 st store a" "proofs_ok sha256 st store b" "all_ok sha256 st store ts"
    by (auto simp: all_ok_def)
  obtain s1 where s1: "combineIavlNodes sha256 store (node_of sha256 st a) (node_of sha256 st b) =
      (s1, node_of sha256 st (Fork a b))" "proofs_ok sha256 st s1 (Fork a b)" "length s1 = length store"
    "\<forall>i. i < length store \<longrightarrow> i \<notin> set (tree_leaves (Fork a b)) \<longrightarrow> s1 ! i = store ! i"
    using combine_refines [OF _ _ ok(1,2)] 3(2,3) by auto
  have "all_ok sha256 st s1 ts"
    using 3(2) s1(3,4) by - (rule all_ok_other [OF ok(3)], auto)
  with 3(1) [of s1] 3(2,3) obtain s2 where s2:
    "pairLevel sha256 s1 (map (node_of sha256 st) ts) = (s2, map (node_of sha256 st) (pair ts))"
    "all_ok sha256 st s2 (pair ts)" "length s2 = length s1"
    "\<forall>i. i < length s1 \<longrightarrow> i \<notin> set (forest_leaves ts) \<longrightarrow> s2 ! i = s1 ! i"
    by auto
  have "proofs_ok sha256 st s2 (Fork a b)"
    using 3(2) s2(3,4) by - (rule proofs_ok_other [OF s1(2)], auto)
  with s2(2) have "all_ok sha256 st s2 (pair (a # b # ts))" by (simp add: all_ok_def)
  moreover have "\<forall>i. i < length store \<longrightarrow> i \<notin> set (forest_leaves (a # b # ts)) \<longrightarrow> s2 ! i = store ! i"
    using s1(3,4) s2(4) by simp
  ultimately show ?case using s1(1,3) s2(1,3) by simp
qed simp_all

lemma buildLoop_refines:
  "distinct (forest_leaves ts) \<Longrightarrow> length (forest_leaves ts) < 2 ^ 63 \<Longrightarrow> all_ok sha256 st store ts \<Longrightarrow>
   \<exists>store'. buildLoop sha256 store (map (node_of sha256 st) ts) = (store', map (node_of sha256 st) (build ts)) \<and>
     all_ok sha256 st store' (build ts) \<and> length store' = length store"
proof (induction ts arbitrary: store rule: build.induct)
  case (1 ts)
  show ?case
  proof (cases "length ts > 1")
    case True
    obtain s1 where s1: "pairLevel sha256 store (map (node_of sha256 st) ts) = (s1, map (node_of sha256 st) (pair ts))"
      "all_ok sha256 st s1 (pair ts)" "length s1 = length store"
      using pairLevel_refines [OF 1(2-4)] by blast
    have "distinct (forest_leaves (pair ts))" "length (forest_leaves (pair ts)) < 2 ^ 63"
      using 1(2,3) by (simp_all only: forest_leaves_pair)
    from 1(1) [OF True this s1(2)] obtain s2 where s2:
      "buildLoop sha256 s1 (map (node_of sha256 st) (pair ts)) = (s2, map (node_of sha256 st) (build (pair ts)))"
      "all_ok sha256 st s2 (build (pair ts))" "length s2 = length s1"
      by blast
    moreover have "build ts = build (pair ts)" using True by (subst build.simps) simp
    moreover have "buildLoop sha256 store (map (node_of sha256 st) ts) =
        buildLoop sha256 s1 (map (node_of sha256 st) (pair ts))"
      using True s1(1) by (subst buildLoop.simps) simp
    ultimately show ?thesis using s1(3) by (intro exI [of _ s2]) simp
  next
    case False
    then have "build ts = ts" "buildLoop sha256 store (map (node_of sha256 st) ts) = (store, map (node_of sha256 st) ts)"
      by (subst build.simps buildLoop.simps, simp)+
    with 1(4) show ?thesis by simp
  qed
qed

lemma tree_leaves_path: "length (tree_path sha256 store t p) \<le> tree_height t"
  by (induction t) (auto simp: Let_def le_max_iff_disj intro: le_SucI)

text \<open>C25: \<^verbatim>\<open>buildIavlRoot\<close> refines the pure tree over the sorted leaves: the returned node has the tree's
  hash, height and size, every leaf's proof is its path in the tree, and the tree is balanced, so that
  no proof is longer than the logarithm of the number of leaves.\<close>

theorem buildIavlRoot_refines:
  assumes "leaves \<noteq> []" and "distinct leaves" and "length leaves < 2 ^ 63"
    and "\<forall>p\<in>set leaves. p < length store \<and> lf_proof (store ! p) = []"
  shows "\<exists>store'. buildIavlRoot sha256 store leaves = Inr (store', node_of sha256 store (iavl_tree leaves)) \<and>
      tree_leaves (iavl_tree leaves) = leaves \<and>
      (\<forall>p\<in>set leaves. lf_proof (store' ! p) = map op_bytes (tree_path sha256 store (iavl_tree leaves) p) \<and>
         2 ^ length (lf_proof (store' ! p)) < 2 * length leaves)"
proof -
  let ?ts = "map Tip leaves"
  have f: "forest_leaves ?ts = leaves" by (induction leaves) simp_all
  have "all_ok sha256 store store ?ts" using assms(4) by (simp add: all_ok_def proofs_ok_def)
  with assms(2,3) obtain s where s: "buildLoop sha256 store (map (node_of sha256 store) ?ts) =
      (s, map (node_of sha256 store) (build ?ts))" "all_ok sha256 store s (build ?ts)"
    using buildLoop_refines [of ?ts sha256 store store] f by auto
  note shape = iavl_tree_shape [OF assms(1)]
  have n: "map (node_of sha256 store) ?ts =
      map (\<lambda>p. \<lparr>nd_hash = lf_hash (store ! p), nd_height = 0, nd_size = 1, nd_leaves = [p]\<rparr>) leaves"
    by (simp add: node_of_def)
  have p: "\<forall>p\<in>set leaves. lf_proof (s ! p) = map op_bytes (tree_path sha256 store (iavl_tree leaves) p)"
    using s(2) by (simp add: shape all_ok_def proofs_ok_def)
  have "2 ^ length (tree_path sha256 store (iavl_tree leaves) p) < 2 * length leaves" for p
    by (rule le_less_trans [OF power_increasing [OF tree_leaves_path] shape(3)]) simp
  with p s(1) shape show ?thesis unfolding n by (auto simp: buildIavlRoot_def)
qed

text \<open>Three leaves: the first two are paired, the third joins them at the root.\<close>

definition sample_leaves :: leaf_store where
  "sample_leaves = map (\<lambda>b. \<lparr>lf_input = \<lparr>fi_name = [], fi_key = [b], fi_value = [b], fi_nonMembershipKey = []\<rparr>,
     lf_inputIdx = 0, lf_hash = [b], lf_proof = []\<rparr>) [1, 2, 3]"

theorem buildIavlRoot_refines_witness:
  "iavl_tree [2, 0, 1] = Fork (Fork (Tip 2) (Tip 0)) (Tip 1) \<and>
   (\<exists>store'. buildIavlRoot (\<lambda>x. x) sample_leaves [2, 0, 1] =
      Inr (store', node_of (\<lambda>x. x) sample_leaves (iavl_tree [2, 0, 1])) \<and> length (lf_proof (store' ! 2)) = 2)"
proof -
  have t: "iavl_tree [2, 0, 1] = Fork (Fork (Tip 2) (Tip 0)) (Tip 1)"
    by (simp add: iavl_tree_def build.simps)
  then show ?thesis
    using buildIavlRoot_refines [of "[2, 0, 1]" sample_leaves "\<lambda>x. x"]
    by (auto simp: sample_leaves_def nth_Cons' Let_def)
qed

end
