(* ===== verification/ProofFixtures.thy ===== *)
theory ProofFixtures
  imports GoLib EvmStorage "HOL-Library.AList"
begin

text \<open>
  The two tools that print Ethereum trie proofs, \<^verbatim>\<open>src/tools/gen-ethereum-storage-proof-fixture/main.go\<close> and
  \<^verbatim>\<open>src/tools/gen-ethereum-embedded-node-proof-fixture/main.go\<close>. What they call of go-ethereum is a
  parameter, a record of functions. A Go map is an association list with distinct keys; an
  iteration over the memory database lists its entries.
\<close>

section \<open>go-ethereum\<close>

type_synonym db = "(bytes \<times> bytes) list"

record 'trie geth =
  trie_New :: "string + 'trie"
  trie_Update :: "'trie \<Rightarrow> bytes \<Rightarrow> bytes \<Rightarrow> 'trie"
  trie_Hash :: "'trie \<Rightarrow> bytes"
  trie_Prove :: "'trie \<Rightarrow> bytes \<Rightarrow> string + db"
  trie_VerifyProof :: "bytes \<Rightarrow> bytes \<Rightarrow> db \<Rightarrow> bytes \<times> string"
  rlp_DecodeBytes :: "bytes \<Rightarrow> string + bytes list"
  rlp_EncodeToBytes :: "u64 \<Rightarrow> string + bytes"
  crypto_Keccak256 :: "bytes \<Rightarrow> bytes"

text \<open>An error that the tools pass to \<^verbatim>\<open>panic\<close>.\<close>

definition must :: "string + 'a \<Rightarrow> panic + 'a" where
  "must r = (case r of Inl err \<Rightarrow> Inl (PanicError err) | Inr x \<Rightarrow> Inr x)"

text \<open>\<^verbatim>\<open>common.BytesToHash\<close>: the last 32 bytes, padded on the left.\<close>

definition BytesToHash :: "bytes \<Rightarrow> bytes" where
  "BytesToHash b = (let t = drop (length b - 32) b in replicate (32 - length t) 0 @ t)"

section \<open>Ordering a proof\<close>

definition copyBytes :: "bytes \<Rightarrow> bytes" where
  "copyBytes b = take (length b) b"

definition collectNodes :: "db \<Rightarrow> db" where
  "collectNodes d = foldl (\<lambda>out (k, v). AList.update (BytesToHash (copyBytes k)) (copyBytes v) out) [] d"

definition is_hash_ref :: "bytes \<Rightarrow> bool" where
  "is_hash_ref item \<longleftrightarrow> length item = 33 \<and> item ! 0 = 0xa0"

definition nextHashedChild :: "'t geth \<Rightarrow> bytes \<Rightarrow> db \<Rightarrow> bytes list \<Rightarrow> panic + bytes option" where
  "nextHashedChild G encoded nodes seen =
     bind_panic (must (rlp_DecodeBytes G encoded)) (\<lambda>items.
     bind_panic
       (if length items = 17 then Inr (map (\<lambda>item. BytesToHash (drop 1 item)) (filter is_hash_ref (take 16 items)))
        else if length items = 2 then
          Inr (if is_hash_ref (items ! 1) then [BytesToHash (drop 1 (items ! 1))] else [])
        else Inl (PanicString (''unexpected node shape: '' @ digits (length items)))) (\<lambda>refs.
     let candidates = sort_slice (\<lambda>a b. Compare a b < 0)
           (filter (\<lambda>ref. map_of nodes ref \<noteq> None \<and> ref \<notin> set seen) refs)
     in if length candidates = 0 then Inr None
        else if length candidates > 1 then Inl (PanicString ''ambiguous proof path'')
        else Inr (Some (candidates ! 0))))"

text \<open>The loop of \<^verbatim>\<open>orderProof\<close>. It ends: every round marks one more node as seen.\<close>

function orderLoop :: "'t geth \<Rightarrow> db \<Rightarrow> bytes list \<Rightarrow> bytes list \<Rightarrow> bytes \<Rightarrow> panic + bytes list" where
  "orderLoop G nodes seen ordered nxt =
     (case map_of nodes nxt of
        None \<Rightarrow> Inr ordered
      | Some node \<Rightarrow>
          if nxt \<in> set seen then Inl (PanicString ''proof cycle'')
          else (case nextHashedChild G node nodes (nxt # seen) of
                  Inl p \<Rightarrow> Inl p
                | Inr None \<Rightarrow> Inr (ordered @ [node])
                | Inr (Some child) \<Rightarrow> orderLoop G nodes (nxt # seen) (ordered @ [node]) child))"
  by pat_completeness auto
termination
proof (relation "measure (\<lambda>(G, nodes, seen, ordered, nxt). card (fst ` set nodes - set seen))", simp, goal_cases)
  case (1 G nodes seen ordered nxt node r child)
  then have "nxt \<in> fst ` set nodes - set seen" by (metis DiffI map_of_SomeD fst_conv imageI)
  then have "card (fst ` set nodes - set (nxt # seen)) < card (fst ` set nodes - set seen)"
    by (intro psubset_card_mono) auto
  then show ?case by simp
qed

declare orderLoop.simps [simp del]

definition orderProof :: "'t geth \<Rightarrow> bytes \<Rightarrow> db \<Rightarrow> panic + bytes list" where
  "orderProof G root nodes =
     bind_panic (orderLoop G nodes [] [] root) (\<lambda>ordered.
     if length ordered \<noteq> length nodes
     then Inl (PanicString (''ordered '' @ digits (length ordered) @ '' nodes, proof db has '' @ digits (length nodes)))
     else Inr ordered)"

section \<open>The storage proof tool\<close>

text \<open>\<open>wordLoop\<close> is the loop of \<^verbatim>\<open>wordFromUint64\<close>, from index \<open>23 + k\<close> down to 24.\<close>

fun wordLoop :: "nat \<Rightarrow> u64 \<Rightarrow> bytes \<Rightarrow> bytes" where
  "wordLoop 0 v out = out"
| "wordLoop (Suc k) v out = wordLoop k (drop_bit 8 v) (out[24 + k := ucast v])"

definition wordFromUint64 :: "u64 \<Rightarrow> bytes" where
  "wordFromUint64 v = wordLoop 8 v (replicate 32 0)"

definition mustRLPEncodeUint64 :: "'t geth \<Rightarrow> u64 \<Rightarrow> panic + bytes" where
  "mustRLPEncodeUint64 G v = must (rlp_EncodeToBytes G v)"

definition ibcCommitmentKey :: "'t geth \<Rightarrow> bytes \<Rightarrow> panic + bytes" where
  "ibcCommitmentKey G path =
     (if length path \<noteq> 32 then Inl (PanicString ''path must be 32 bytes'')
      else Inr (crypto_Keccak256 G (take 32 path @ replicate 32 0)))"

definition hex0x :: "bytes \<Rightarrow> string" where
  "hex0x b = ''0x'' @ EncodeToString b"

fun printNodes :: "string \<Rightarrow> nat \<Rightarrow> bytes list \<Rightarrow> unit out" where
  "printNodes name i [] = give ()"
| "printNodes name i (node # rest) =
     bind_out (Print (name @ ''['' @ digits i @ '']: '' @ hex0x node @ nl)) (\<lambda>_. printNodes name (i + 1) rest)"

definition printProof :: "'t geth \<Rightarrow> string \<Rightarrow> bytes \<Rightarrow> db \<Rightarrow> unit out" where
  "printProof G name root d =
     bind_out (lift_out (orderProof G root (collectNodes d))) (\<lambda>ordered.
     seq_out [Print (name @ ''Nodes: '' @ digits (length ordered) @ nl), printNodes name 0 ordered])"

fun collect_panics :: "(panic + 'a) list \<Rightarrow> panic + 'a list" where
  "collect_panics [] = Inr []"
| "collect_panics (r # rs) = bind_panic r (\<lambda>x. bind_panic (collect_panics rs) (\<lambda>xs. Inr (x # xs)))"

fun updateAll :: "'t geth \<Rightarrow> 't \<Rightarrow> (bytes \<times> bytes) list \<Rightarrow> 't" where
  "updateAll G tr [] = tr"
| "updateAll G tr ((k, v) # kvs) = updateAll G (trie_Update G tr k v) kvs"

definition storage_main :: "'t geth \<Rightarrow> unit out" where
  "storage_main G =
     bind_out (lift_out (must (trie_New G))) (\<lambda>tr.
     let slots = [wordFromUint64 1, wordFromUint64 2, wordFromUint64 3]
     in bind_out (lift_out (collect_panics
          [mustRLPEncodeUint64 G 0x1234, mustRLPEncodeUint64 G 0xdeadbeef, mustRLPEncodeUint64 G 0x80])) (\<lambda>values.
     let tr = updateAll G tr (zip (map (crypto_Keccak256 G) slots) values);
         root = trie_Hash G tr
     in seq_out (
        [Print (''root: '' @ hex0x root @ nl)] @
        concat (map (\<lambda>(i, s, v).
          [Print (''slot'' @ digits (i + 1) @ '': '' @ hex0x s @ nl),
           Print (''path'' @ digits (i + 1) @ '': '' @ hex0x (crypto_Keccak256 G s) @ nl),
           Print (''leafPayload'' @ digits (i + 1) @ '': '' @ hex0x v @ nl)]) (enumerate 0 (zip slots values))) @
        [Print nl,
         bind_out (lift_out (must (trie_Prove G tr (crypto_Keccak256 G (slots ! 1))))) (\<lambda>existenceProof.
         seq_out
           [Print (''existenceKey: '' @ hex0x (slots ! 1) @ nl),
            Print (''existenceValue: '' @ hex0x (wordFromUint64 0xdeadbeef) @ nl),
            printProof G ''existenceProof'' root existenceProof,
            Print nl]),
         bind_out (lift_out (must (trie_Prove G tr (crypto_Keccak256 G (wordFromUint64 4))))) (\<lambda>absenceProof.
         seq_out
           [Print (''absenceKey: '' @ hex0x (wordFromUint64 4) @ nl),
            Print (''absencePath: '' @ hex0x (crypto_Keccak256 G (wordFromUint64 4)) @ nl),
            printProof G ''absenceProof'' root absenceProof,
            Print nl]),
         Print (''ibcPath: '' @ hex0x (replicate 32 0x11) @ nl),
         bind_out (lift_out (ibcCommitmentKey G (replicate 32 0x11))) (\<lambda>key.
           Print (''ibcCommitmentKey: '' @ hex0x key @ nl)),
         bind_out (lift_out (ibcCommitmentKey G (replicate 32 0))) (\<lambda>key.
           Print (''ibcZeroPathCommitmentKey: '' @ hex0x key @ nl))])))"

section \<open>The embedded node tool\<close>

definition mustRLP :: "'t geth \<Rightarrow> u64 \<Rightarrow> panic + bytes" where
  "mustRLP G v = must (rlp_EncodeToBytes G v)"

fun printEntries :: "string \<Rightarrow> nat \<Rightarrow> db \<Rightarrow> unit out" where
  "printEntries label n [] = give ()"
| "printEntries label n ((k, v) # rest) =
     bind_out (Print (label @ ''Proof['' @ digits n @ '']: '' @ EncodeToString v @ nl))
       (\<lambda>_. printEntries label (n + 1) rest)"

definition printProofAndVerify :: "'t geth \<Rightarrow> string \<Rightarrow> bytes \<Rightarrow> bytes \<Rightarrow> db \<Rightarrow> unit out" where
  "printProofAndVerify G label root key d =
     bind_out (printEntries label 0 d) (\<lambda>_.
     if length d \<noteq> 1
     then raise (PanicString (label @ '': expected exactly 1 proof node (everything else embedded), got '' @
            digits (length d)))
     else (case trie_VerifyProof G root key d of
             (val, err) \<Rightarrow> Print (label @ '' geth-verified value: '' @ EncodeToString val @ '' (err='' @ err @ '')'' @ nl)))"

definition embedded_main :: "'t geth \<Rightarrow> unit out" where
  "embedded_main G =
     bind_out (lift_out (must (trie_New G))) (\<lambda>tr.
     let prefix = replicate 31 0xAB;
         keys = [prefix @ [0x10], prefix @ [0x20], prefix @ [0x30]]
     in bind_out (lift_out (collect_panics [mustRLP G 1, mustRLP G 2, mustRLP G 3])) (\<lambda>values.
     let tr = updateAll G tr (zip keys values);
         root = trie_Hash G tr;
         missing = prefix @ [0x40]
     in seq_out (
        [Print (''root: '' @ EncodeToString root @ nl)] @
        concat (map (\<lambda>(i, k, v).
          [Print (''key'' @ digits (i + 1) @ '': '' @ EncodeToString k @ nl),
           Print (''value'' @ digits (i + 1) @ '': '' @ EncodeToString v @ nl)]) (enumerate 0 (zip keys values))) @
        [bind_out (lift_out (must (trie_Prove G tr (keys ! 0)))) (\<lambda>proofDB.
           printProofAndVerify G ''existence'' root (keys ! 0) proofDB),
         Print (''missingKey: '' @ EncodeToString missing @ nl),
         bind_out (lift_out (must (trie_Prove G tr missing))) (\<lambda>absenceDB.
           printProofAndVerify G ''absence'' root missing absenceDB)])))"

section \<open>Chains of nodes\<close>

text \<open>The hash references of a node, where it decodes to one of the two shapes.\<close>

definition child_refs :: "'t geth \<Rightarrow> bytes \<Rightarrow> bytes list option" where
  "child_refs G encoded =
     (case rlp_DecodeBytes G encoded of
        Inl _ \<Rightarrow> None
      | Inr items \<Rightarrow>
          if length items = 17 then Some (map (\<lambda>item. BytesToHash (drop 1 item)) (filter is_hash_ref (take 16 items)))
          else if length items = 2 then Some (if is_hash_ref (items ! 1) then [BytesToHash (drop 1 (items ! 1))] else [])
          else None)"

definition unseen :: "db \<Rightarrow> bytes list \<Rightarrow> bytes list \<Rightarrow> bytes list" where
  "unseen nodes seen refs = filter (\<lambda>ref. map_of nodes ref \<noteq> None \<and> ref \<notin> set seen) refs"

lemma sort_slice_length [simp]: "length (sort_slice cmp xs) = length xs"
  using byte_order.mset_sort_slice [of cmp xs] by (metis size_mset)

lemma sort_slice_single: "sort_slice cmp [x] = [x]"
  by (simp add: sort_slice_def)

definition pick :: "bytes list \<Rightarrow> panic + bytes option" where
  "pick xs = (if length xs = 0 then Inr None
     else if length xs > 1 then Inl (PanicString ''ambiguous proof path'')
     else Inr (Some (sort_slice (\<lambda>a b. Compare a b < 0) xs ! 0)))"

lemma pick_iff: "pick xs = Inr c \<longleftrightarrow> xs = (case c of None \<Rightarrow> [] | Some h \<Rightarrow> [h])"
  by (cases xs; cases "tl xs"; cases c) (auto simp: pick_def sort_slice_single)

lemma nextHashedChild_eq:
  "nextHashedChild G node nodes seen =
     (case rlp_DecodeBytes G node of
        Inl err \<Rightarrow> Inl (PanicError err)
      | Inr items \<Rightarrow>
          (case child_refs G node of
             None \<Rightarrow> Inl (PanicString (''unexpected node shape: '' @ digits (length items)))
           | Some refs \<Rightarrow> pick (unseen nodes seen refs)))"
proof (cases "rlp_DecodeBytes G node")
  case (Inl err)
  then show ?thesis by (simp add: nextHashedChild_def must_def)
next
  case (Inr items)
  show ?thesis
    unfolding nextHashedChild_def Inr must_def sum.case bind_panic_Inr Let_def sort_slice_length
      unseen_def [symmetric] pick_def [symmetric]
    by (simp add: child_refs_def Inr)
qed

lemma nextHashedChild_iff:
  "nextHashedChild G node nodes seen = Inr c \<longleftrightarrow>
     (\<exists>refs. child_refs G node = Some refs \<and> unseen nodes seen refs = (case c of None \<Rightarrow> [] | Some h \<Rightarrow> [h]))"
proof (cases "rlp_DecodeBytes G node")
  case (Inl e)
  then show ?thesis by (simp add: nextHashedChild_eq child_refs_def)
next
  case (Inr items)
  then show ?thesis by (cases "child_refs G node") (simp_all add: nextHashedChild_eq pick_iff)
qed

lemma nextHashedChild_panic:
  "nextHashedChild G node nodes seen \<noteq> Inl (PanicString ''proof cycle'')"
  by (simp add: nextHashedChild_eq pick_def split: sum.split option.split)

text \<open>\<open>linked\<close>: a sequence of hashes the loop follows, each the only unseen reference of the node before.\<close>

fun linked :: "'t geth \<Rightarrow> db \<Rightarrow> bytes list \<Rightarrow> bytes list \<Rightarrow> bool" where
  "linked G nodes seen [] \<longleftrightarrow> False"
| "linked G nodes seen (h # hs) \<longleftrightarrow>
     h \<notin> set seen \<and>
     (\<exists>node refs. map_of nodes h = Some node \<and> child_refs G node = Some refs \<and>
        unseen nodes (h # seen) refs = (case hs of [] \<Rightarrow> [] | h' # _ \<Rightarrow> [h'])) \<and>
     (hs = [] \<or> linked G nodes (h # seen) hs)"

definition node_at :: "db \<Rightarrow> bytes \<Rightarrow> bytes" where
  "node_at nodes h = the (map_of nodes h)"

lemma unseen_dom: "unseen nodes seen refs = [h] \<Longrightarrow> map_of nodes h \<noteq> None \<and> h \<notin> set seen \<and> h \<in> set refs"
  unfolding unseen_def filter_eq_Cons_iff by auto

lemma orderLoop_iff:
  "map_of nodes nxt \<noteq> None \<Longrightarrow> orderLoop G nodes seen ordered nxt = Inr out \<longleftrightarrow>
     (\<exists>hs. linked G nodes seen (nxt # hs) \<and> out = ordered @ map (node_at nodes) (nxt # hs))"
proof (induction G nodes seen ordered nxt rule: orderLoop.induct)
  case (1 G nodes seen ordered nxt)
  then obtain node where n: "map_of nodes nxt = Some node" by auto
  show ?case
  proof (cases "nxt \<in> set seen")
    case True
    with n show ?thesis by (simp add: orderLoop.simps [of G nodes seen ordered nxt])
  next
    case False
    have at: "node_at nodes nxt = node" using n by (simp add: node_at_def)
    show ?thesis
    proof (cases "nextHashedChild G node nodes (nxt # seen)")
      case (Inl p)
      then have "\<not> (\<exists>refs c. child_refs G node = Some refs \<and>
          unseen nodes (nxt # seen) refs = (case c of None \<Rightarrow> [] | Some h \<Rightarrow> [h]))"
        using nextHashedChild_iff [of G node nodes "nxt # seen"] by (metis Inl_Inr_False)
      then have "\<not> linked G nodes seen (nxt # hs)" for hs
        using n by (cases hs) (auto split: option.splits dest: spec [of _ None] spec [of _ "Some _"])
      then have "\<not> (\<exists>hs. linked G nodes seen (nxt # hs) \<and> out = ordered @ map (node_at nodes) (nxt # hs))" by blast
      moreover have "orderLoop G nodes seen ordered nxt = Inl p"
        using n False Inl by (simp add: orderLoop.simps [of G nodes seen ordered nxt])
      ultimately show ?thesis by simp
    next
      case (Inr c)
      then obtain refs where r: "child_refs G node = Some refs"
        "unseen nodes (nxt # seen) refs = (case c of None \<Rightarrow> [] | Some h \<Rightarrow> [h])"
        by (auto simp: nextHashedChild_iff)
      show ?thesis
      proof (cases c)
        case None
        with n False Inr r at show ?thesis
          by (auto simp: orderLoop.simps [of G nodes seen ordered nxt] neq_Nil_conv split: list.splits)
      next
        case (Some child)
        have dom: "map_of nodes child \<noteq> None" using r(2) Some unseen_dom by simp
        have "orderLoop G nodes seen ordered nxt = orderLoop G nodes (nxt # seen) (ordered @ [node]) child"
          using n False Inr Some by (simp add: orderLoop.simps [of G nodes seen ordered nxt])
        also have "\<dots> = Inr out \<longleftrightarrow> (\<exists>hs. linked G nodes (nxt # seen) (child # hs) \<and>
            out = (ordered @ [node]) @ map (node_at nodes) (child # hs))"
          using "1.IH" [OF n False Inr Some dom] .
        also have "\<dots> \<longleftrightarrow> (\<exists>hs. linked G nodes seen (nxt # hs) \<and> out = ordered @ map (node_at nodes) (nxt # hs))"
          (is "?a \<longleftrightarrow> ?b")
        proof
          assume ?a
          then obtain hs where "linked G nodes (nxt # seen) (child # hs)"
            "out = (ordered @ [node]) @ map (node_at nodes) (child # hs)" by blast
          then show ?b using n False r Some at by (intro exI [of _ "child # hs"]) simp
        next
          assume ?b
          then obtain hs where "linked G nodes seen (nxt # hs)" "out = ordered @ map (node_at nodes) (nxt # hs)" by blast
          then show ?a using n r Some at by (cases hs) auto
        qed
        finally show ?thesis .
      qed
    qed
  qed
qed

lemma linked_distinct: "linked G nodes seen hs \<Longrightarrow> distinct hs \<and> set hs \<inter> set seen = {} \<and> set hs \<subseteq> fst ` set nodes"
proof (induction G nodes seen hs rule: linked.induct)
  case (2 G nodes seen h hs)
  then obtain node where "map_of nodes h = Some node" by auto
  then have "h \<in> fst ` set nodes" by (metis map_of_SomeD fst_conv image_eqI)
  with 2 show ?case by (cases "hs = []") auto
qed simp

lemma linked_step:
  "linked G nodes seen hs \<Longrightarrow> Suc i < length hs \<Longrightarrow>
   \<exists>refs. child_refs G (node_at nodes (hs ! i)) = Some refs \<and> hs ! Suc i \<in> set refs"
proof (induction G nodes seen hs arbitrary: i rule: linked.induct)
  case (2 G nodes seen h hs)
  then obtain h' rest where hs: "hs = h' # rest" by (cases hs) auto
  show ?case
  proof (cases i)
    case 0
    with 2 hs show ?thesis by (auto simp: node_at_def dest: unseen_dom)
  next
    case (Suc j)
    with 2 hs show ?thesis by auto
  qed
qed simp

lemma orderProof_iff:
  assumes "map_of nodes root \<noteq> None"
  shows "orderProof G root nodes = Inr ordered \<longleftrightarrow>
    (\<exists>hs. linked G nodes [] (root # hs) \<and> ordered = map (node_at nodes) (root # hs) \<and> length ordered = length nodes)"
proof -
  have "orderProof G root nodes = Inr ordered \<longleftrightarrow> orderLoop G nodes [] [] root = Inr ordered \<and> length ordered = length nodes"
    by (auto simp: orderProof_def bind_panic_def split: sum.splits)
  then show ?thesis using orderLoop_iff [OF assms, of G "[]" "[]" ordered] by auto
qed

lemma orderProof_empty: "map_of nodes root = None \<Longrightarrow> orderProof G root nodes = Inr ordered \<longleftrightarrow> nodes = [] \<and> ordered = []"
  by (auto simp: orderProof_def orderLoop.simps bind_panic_def)

lemma full_chain:
  assumes "distinct (map fst nodes)" and "distinct hs" and "set hs \<subseteq> fst ` set nodes" and "length hs = length nodes"
  shows "set hs = fst ` set nodes"
proof (rule card_subset_eq)
  show "card (set hs) = card (fst ` set nodes)"
    using assms distinct_card [of hs] distinct_card [of "map fst nodes"] by simp
qed (use assms in auto)

text \<open>The order printed is a walk through the trie: it lists every node of the proof exactly
  once, from the root, and each node holds the hash of the one after it.\<close>

theorem orderProof_walk:
  assumes "distinct (map fst nodes)" and "orderProof G root nodes = Inr ordered"
  shows "\<exists>hs. distinct hs \<and> set hs = fst ` set nodes \<and> ordered = map (node_at nodes) hs \<and>
    (hs \<noteq> [] \<longrightarrow> hd hs = root) \<and>
    (\<forall>i. Suc i < length hs \<longrightarrow> (\<exists>refs. child_refs G (ordered ! i) = Some refs \<and> hs ! Suc i \<in> set refs))"
proof (cases "map_of nodes root")
  case None
  with assms(2) show ?thesis by (intro exI [of _ "[]"]) (simp add: orderProof_empty)
next
  case (Some node)
  then have "map_of nodes root \<noteq> None" by simp
  from assms(2) [unfolded orderProof_iff [OF this]] obtain hs where h: "linked G nodes [] (root # hs)"
    "ordered = map (node_at nodes) (root # hs)" "length ordered = length nodes" by blast
  then have "set (root # hs) = fst ` set nodes"
    using full_chain [OF assms(1), of "root # hs"] linked_distinct [OF h(1)] by simp
  moreover have "\<exists>refs. child_refs G (ordered ! i) = Some refs \<and> (root # hs) ! Suc i \<in> set refs"
    if "Suc i < length (root # hs)" for i
    using linked_step [OF h(1) that] that unfolding h(2) by (metis Suc_lessD nth_map)
  ultimately show ?thesis
    using h(2) linked_distinct [OF h(1)] by (intro exI [of _ "root # hs"]) auto
qed

text \<open>A chain: each node refers to the next one and to no other node of the proof.\<close>

definition is_chain :: "'t geth \<Rightarrow> db \<Rightarrow> bytes list \<Rightarrow> bool" where
  "is_chain G nodes hs \<longleftrightarrow> hs \<noteq> [] \<and> distinct hs \<and> set hs = fst ` set nodes \<and>
     (\<forall>i<length hs. \<exists>refs. child_refs G (node_at nodes (hs ! i)) = Some refs \<and>
        filter (\<lambda>r. r \<in> set hs) refs = (if Suc i < length hs then [hs ! Suc i] else []))"

lemma chain_linked:
  assumes "is_chain G nodes hs" and "k < length hs"
  shows "linked G nodes (rev (take k hs)) (drop k hs)"
  using assms(2)
proof (induction "length hs - k" arbitrary: k)
  case (Suc n)
  let ?h = "hs ! k"
  have d: "drop k hs = ?h # drop (Suc k) hs" using Suc.prems by (simp add: Cons_nth_drop_Suc)
  have t: "rev (take (Suc k) hs) = ?h # rev (take k hs)" using Suc.prems by (simp add: take_Suc_conv_app_nth)
  have dist: "distinct hs" and set: "set hs = fst ` set nodes" using assms(1) by (auto simp: is_chain_def)
  have fresh: "hs ! j \<notin> set (take (Suc k) hs)" if "k < j" "j < length hs" for j
    using that dist by (auto simp: in_set_conv_nth nth_eq_iff_index_eq)
  have "?h \<notin> set (take k hs)"
    using dist Suc.prems by (auto simp: in_set_conv_nth nth_eq_iff_index_eq)
  moreover obtain node where node: "map_of nodes ?h = Some node"
    using Suc.prems set by (metis map_of_eq_None_iff not_None_eq nth_mem)
  moreover obtain refs where refs: "child_refs G node = Some refs"
    "filter (\<lambda>r. r \<in> set hs) refs = (if Suc k < length hs then [hs ! Suc k] else [])"
    using assms(1) Suc.prems node by (auto simp: is_chain_def node_at_def dest!: spec [of _ k])
  moreover have "unseen nodes (?h # rev (take k hs)) refs = (case drop (Suc k) hs of [] \<Rightarrow> [] | h' # _ \<Rightarrow> [h'])"
  proof -
    have "unseen nodes (?h # rev (take k hs)) refs =
        filter (\<lambda>r. r \<notin> set (take (Suc k) hs)) (filter (\<lambda>r. r \<in> set hs) refs)"
      unfolding unseen_def set t [symmetric] filter_filter
      by (intro filter_cong) (auto simp: map_of_eq_None_iff)
    also have "\<dots> = (case drop (Suc k) hs of [] \<Rightarrow> [] | h' # _ \<Rightarrow> [h'])"
      using fresh [of "Suc k"] by (auto simp: refs(2) Cons_nth_drop_Suc [symmetric])
    finally show ?thesis .
  qed
  moreover have "drop (Suc k) hs = [] \<or> linked G nodes (?h # rev (take k hs)) (drop (Suc k) hs)"
  proof (cases "Suc k < length hs")
    case True
    then show ?thesis using Suc.hyps(1) [of "Suc k"] Suc.hyps(2) t by auto
  qed simp
  ultimately show ?case unfolding d by (auto simp: neq_Nil_conv)
qed simp

lemma chain_ordered:
  assumes "distinct (map fst nodes)" and "is_chain G nodes hs"
  shows "orderProof G (hd hs) nodes = Inr (map (node_at nodes) hs)"
proof -
  have hs: "hs \<noteq> []" "distinct hs" "set hs = fst ` set nodes" using assms(2) by (auto simp: is_chain_def)
  have "linked G nodes [] (hd hs # tl hs)" using chain_linked [OF assms(2), of 0] hs(1) by simp
  moreover have "map_of nodes (hd hs) \<noteq> None" using hs by (metis hd_in_set map_of_eq_None_iff)
  moreover have "length hs = length nodes"
    using hs assms(1) by (metis distinct_card length_map set_map)
  ultimately show ?thesis using hs(1) orderProof_iff [of nodes "hd hs" G "map (node_at nodes) hs"]
    by (metis length_map list.collapse)
qed

text \<open>A decoder that reads a node as an extension, and a proof of two nodes, for the witnesses.\<close>

definition sample_geth :: "unit geth" where
  "sample_geth = \<lparr>trie_New = Inr (), trie_Update = (\<lambda>t k v. t), trie_Hash = (\<lambda>t. []), trie_Prove = (\<lambda>t k. Inr []),
     trie_VerifyProof = (\<lambda>r k d. ([], [])), rlp_DecodeBytes = (\<lambda>b. Inr [[], b]), rlp_EncodeToBytes = (\<lambda>v. Inr []),
     crypto_Keccak256 = id\<rparr>"

definition sample_nodes :: db where
  "sample_nodes = [(replicate 32 2, [7]), (replicate 32 1, 0xa0 # replicate 32 2)]"

lemma sample_chain: "is_chain sample_geth sample_nodes [replicate 32 1, replicate 32 2]"
proof -
  have n: "replicate 32 (1 :: byte) \<noteq> replicate 32 2" by simp
  have at: "node_at sample_nodes (replicate 32 1) = 0xa0 # replicate 32 2"
    "node_at sample_nodes (replicate 32 2) = [7]"
    using n by (simp_all add: node_at_def sample_nodes_def)
  have "child_refs sample_geth (0xa0 # replicate 32 2) = Some [replicate 32 2]" "child_refs sample_geth [7] = Some []"
    by (simp_all add: child_refs_def sample_geth_def is_hash_ref_def BytesToHash_def)
  then show ?thesis
    using n at by (auto simp: is_chain_def sample_nodes_def nth_Cons' less_Suc_eq)
qed

lemma sample_distinct: "distinct (map fst sample_nodes)"
  by (simp add: sample_nodes_def)

text \<open>C28: nothing stops the tool on a proof that is a chain: whatever the order the database lists
  the nodes in, they are printed from the root to the end.\<close>

theorem orderProof_complete:
  assumes "distinct (map fst nodes)" and "is_chain G nodes hs"
  shows "orderProof G (hd hs) nodes = Inr (map (node_at nodes) hs)"
  using assms by (rule chain_ordered)

theorem orderProof_complete_witness:
  "orderProof sample_geth (hd [replicate 32 1, replicate 32 2]) sample_nodes =
     Inr (map (node_at sample_nodes) [replicate 32 1, replicate 32 2])"
  by (rule orderProof_complete [OF sample_distinct sample_chain])

theorem orderProof_walk_witness:
  "\<exists>hs. distinct hs \<and> set hs = fst ` set sample_nodes \<and>
    map (node_at sample_nodes) [replicate 32 1, replicate 32 2] = map (node_at sample_nodes) hs \<and>
    (hs \<noteq> [] \<longrightarrow> hd hs = hd [replicate 32 1, replicate 32 2]) \<and>
    (\<forall>i. Suc i < length hs \<longrightarrow>
       (\<exists>refs. child_refs sample_geth (map (node_at sample_nodes) [replicate 32 1, replicate 32 2] ! i) = Some refs \<and>
          hs ! Suc i \<in> set refs))"
  by (rule orderProof_walk [OF sample_distinct chain_ordered [OF sample_distinct sample_chain]])

text \<open>The panic \<^verbatim>\<open>proof cycle\<close> of the source is dead code: a child is only followed when it has
  not been seen.\<close>

lemma orderLoop_no_cycle:
  "nxt \<notin> set seen \<Longrightarrow> orderLoop G nodes seen ordered nxt \<noteq> Inl (PanicString ''proof cycle'')"
proof (induction G nodes seen ordered nxt rule: orderLoop.induct)
  case (1 G nodes seen ordered nxt)
  have "child \<notin> set (nxt # seen)" if "nextHashedChild G node nodes (nxt # seen) = Inr (Some child)" for node child
    using that by (auto simp: nextHashedChild_iff dest!: unseen_dom)
  with 1 nextHashedChild_panic [of G _ nodes "nxt # seen"] show ?case
    by (auto simp: orderLoop.simps [of G nodes seen ordered nxt] split: option.split sum.split)
qed

theorem orderProof_no_cycle: "orderProof G root nodes \<noteq> Inl (PanicString ''proof cycle'')"
  using orderLoop_no_cycle [of root "[]" G nodes "[]"]
  by (cases "orderLoop G nodes [] [] root") (auto simp: orderProof_def)

section \<open>Words\<close>

text \<open>The tool's words and commitment keys are those of the on-chain verifier, and the tool
  refuses exactly the paths the verifier refuses.\<close>

lemma wordLoop_eq:
  "24 + k \<le> length out \<Longrightarrow> wordLoop k v out = take 24 out @ be_bytes k (unat v) @ drop (24 + k) out"
proof (induction k arbitrary: v out)
  case (Suc k)
  then have "24 + k < length out" by simp
  then have "drop (24 + k) out = out ! (24 + k) # drop (25 + k) out"
    using Cons_nth_drop_Suc [of "24 + k" out] by simp
  then have "drop (24 + k) (out[24 + k := ucast v]) = ucast v # drop (25 + k) out"
    by (simp add: drop_update_swap)
  with Suc show ?case
    by (simp add: ucast_byte unat_drop_bit_eq drop_bit_eq_div unat_div)
qed simp

lemma wordLoop_8: "wordLoop 8 v (replicate 32 0) = replicate 24 0 @ PutUint64 v"
  by (simp add: wordLoop_eq PutUint64_def)

theorem storage_tool_words:
  "wordFromUint64 v = WordFromUint64 v \<and>
   (case IBCCommitmentKey (crypto_Keccak256 G) path of
      Inl _ \<Rightarrow> \<exists>m. ibcCommitmentKey G path = Inl (PanicString m)
    | Inr key \<Rightarrow> ibcCommitmentKey G path = Inr key)"
  by (auto simp: wordFromUint64_def WordFromUint64_def wordLoop_8 IBCCommitmentKey_def ibcCommitmentKey_def
      validateWord_def)

end
