(* ===== verification/GoText.thy ===== *)
theory GoText
  imports GoLib
begin

text \<open>
  Go's text functions that \<^verbatim>\<open>protogen\<close> uses: rune encoding, \<^verbatim>\<open>strings.TrimSpace\<close>, \<^verbatim>\<open>strings.Split\<close>,
  \<^verbatim>\<open>strings.HasSuffix\<close>, \<^verbatim>\<open>strconv.Atoi\<close>, \<^verbatim>\<open>strconv.Unquote\<close> and \<^verbatim>\<open>reflect.StructTag.Lookup\<close>. A Go string is
  its bytes, here a list of characters.
\<close>

section \<open>unicode/utf8, strings\<close>

definition valid_rune :: "nat \<Rightarrow> bool" where
  "valid_rune r \<longleftrightarrow> r < 0xD800 \<or> 0xDFFF < r \<and> r \<le> 0x10FFFF"

definition EncodeRune :: "nat \<Rightarrow> bytes" where
  "EncodeRune r =
     (let r = (if valid_rune r then r else RuneError)
      in if r < 0x80 then [word_of_nat r]
         else if r < 0x800 then [word_of_nat (0xC0 + r div 64), word_of_nat (0x80 + r mod 64)]
         else if r < 0x10000 then
           [word_of_nat (0xE0 + r div 4096), word_of_nat (0x80 + r div 64 mod 64), word_of_nat (0x80 + r mod 64)]
         else [word_of_nat (0xF0 + r div 262144), word_of_nat (0x80 + r div 4096 mod 64),
               word_of_nat (0x80 + r div 64 mod 64), word_of_nat (0x80 + r mod 64)])"

definition IsSpace :: "nat \<Rightarrow> bool" where
  "IsSpace r \<longleftrightarrow> 9 \<le> r \<and> r \<le> 13 \<or> r = 0x20 \<or> r = 0x85 \<or> r = 0xA0 \<or> r = 0x1680 \<or> 0x2000 \<le> r \<and> r \<le> 0x200A \<or>
     r = 0x2028 \<or> r = 0x2029 \<or> r = 0x202F \<or> r = 0x205F \<or> r = 0x3000"

definition trim_list :: "('a \<Rightarrow> bool) \<Rightarrow> 'a list \<Rightarrow> 'a list" where
  "trim_list P xs = rev (dropWhile P (rev (dropWhile P xs)))"

definition TrimSpace :: "string \<Rightarrow> string" where
  "TrimSpace s = string_of_bytes (concat (map snd (trim_list (\<lambda>(r, bs). IsSpace r) (runes (bytes_of_string s)))))"

fun Split :: "char \<Rightarrow> string \<Rightarrow> string list" where
  "Split sep [] = [[]]"
| "Split sep (c # cs) = (if c = sep then [] # Split sep cs
     else case Split sep cs of [] \<Rightarrow> [[c]] | w # ws \<Rightarrow> (c # w) # ws)"

definition HasSuffix :: "string \<Rightarrow> string \<Rightarrow> bool" where
  "HasSuffix s suffix \<longleftrightarrow> length suffix \<le> length s \<and> drop (length s - length suffix) s = suffix"

section \<open>strconv\<close>

definition digit_value :: "char \<Rightarrow> nat option" where
  "digit_value c = (let n = of_char c :: nat in if 48 \<le> n \<and> n \<le> 57 then Some (n - 48) else None)"

fun decimal :: "nat \<Rightarrow> string \<Rightarrow> nat option" where
  "decimal acc [] = Some acc"
| "decimal acc (c # cs) = (case digit_value c of None \<Rightarrow> None | Some d \<Rightarrow> decimal (acc * 10 + d) cs)"

text \<open>\<^verbatim>\<open>Atoi\<close>: an optional sign and decimal digits, within the range of a 64-bit \<^verbatim>\<open>int\<close>.\<close>

definition Atoi :: "string \<Rightarrow> int option" where
  "Atoi s =
     (let neg = (s \<noteq> [] \<and> hd s = CHR ''-'');
          body = (if s \<noteq> [] \<and> (hd s = CHR ''-'' \<or> hd s = CHR ''+'') then tl s else s)
      in if body = [] then None
         else case decimal 0 body of
           None \<Rightarrow> None
         | Some n \<Rightarrow>
             (let v = int n
              in if neg then if v \<le> 9223372036854775808 then Some (- v) else None
                 else if v < 9223372036854775808 then Some v else None))"

definition hex_value :: "char \<Rightarrow> nat option" where
  "hex_value c = map_option unat (fromHexChar (of_char c))"

fun hex_number :: "nat \<Rightarrow> string \<Rightarrow> nat option" where
  "hex_number acc [] = Some acc"
| "hex_number acc (c # cs) = (case hex_value c of None \<Rightarrow> None | Some d \<Rightarrow> hex_number (acc * 16 + d) cs)"

fun octal_number :: "nat \<Rightarrow> string \<Rightarrow> nat option" where
  "octal_number acc [] = Some acc"
| "octal_number acc (c # cs) =
     (let n = of_char c :: nat in if 48 \<le> n \<and> n \<le> 55 then octal_number (acc * 8 + (n - 48)) cs else None)"

text \<open>One escape of a double-quoted literal, after the backslash: the bytes it stands for and how
  many characters it takes.\<close>

definition unescape :: "string \<Rightarrow> (bytes \<times> nat) option" where
  "unescape s =
     (case s of
        [] \<Rightarrow> None
      | c # rest \<Rightarrow>
          if c = CHR ''a'' then Some ([7], 1)
          else if c = CHR ''b'' then Some ([8], 1)
          else if c = CHR ''f'' then Some ([12], 1)
          else if c = CHR ''n'' then Some ([10], 1)
          else if c = CHR ''r'' then Some ([13], 1)
          else if c = CHR ''t'' then Some ([9], 1)
          else if c = CHR ''v'' then Some ([11], 1)
          else if c = CHR 0x5C \<or> c = CHR 0x22 then Some ([of_char c], 1)
          else if c = CHR ''x'' then
            (if length rest < 2 then None
             else map_option (\<lambda>v. ([word_of_nat v], 3)) (hex_number 0 (take 2 rest)))
          else if c = CHR ''u'' \<or> c = CHR ''U'' then
            (let n = (if c = CHR ''u'' then 4 else 8)
             in if length rest < n then None
                else case hex_number 0 (take n rest) of
                  None \<Rightarrow> None
                | Some v \<Rightarrow> if valid_rune v then Some (EncodeRune v, n + 1) else None)
          else if length s < 3 then None
          else (case octal_number 0 (take 3 s) of
                  None \<Rightarrow> None
                | Some v \<Rightarrow> if v > 255 then None else Some ([word_of_nat v], 3)))"

text \<open>The inside of a double-quoted literal.\<close>

function unquote_chars :: "string \<Rightarrow> bytes option" where
  "unquote_chars s =
     (case s of
        [] \<Rightarrow> Some []
      | c # rest \<Rightarrow>
          if c = CHR 0x22 \<or> c = CHR 0x0A then None
          else if c = CHR 0x5C then
            (case unescape rest of
               None \<Rightarrow> None
             | Some (bs, n) \<Rightarrow> map_option (\<lambda>out. bs @ out) (unquote_chars (drop n rest)))
          else (case DecodeRune (bytes_of_string s) of
                  (r, w) \<Rightarrow> map_option (\<lambda>out. EncodeRune r @ out) (unquote_chars (drop (max 1 w) s))))"
  by pat_completeness auto
termination
  by (relation "measure length") auto

declare unquote_chars.simps [simp del]

definition Unquote :: "string \<Rightarrow> string option" where
  "Unquote s =
     (if length s < 2 \<or> hd s \<noteq> last s then None
      else let inner = butlast (tl s)
           in if hd s = CHR 0x60 then
                (if CHR 0x60 \<in> set inner then None else Some (filter (\<lambda>c. c \<noteq> CHR 0x0D) inner))
              else if hd s = CHR 0x22 then map_option string_of_bytes (unquote_chars inner)
              else None)"

section \<open>reflect.StructTag\<close>

definition tag_name_char :: "char \<Rightarrow> bool" where
  "tag_name_char c \<longleftrightarrow> 0x20 < (of_char c :: nat) \<and> c \<noteq> CHR '':'' \<and> c \<noteq> CHR 0x22 \<and> c \<noteq> CHR 0x7F"

text \<open>The length of a quoted value whose opening quote has been read, closing quote included.\<close>

fun quoted_len :: "string \<Rightarrow> nat option" where
  "quoted_len [] = None"
| "quoted_len [c] = (if c = CHR 0x22 then Some 1 else None)"
| "quoted_len (c # d # rest) =
     (if c = CHR 0x22 then Some 1
      else if c = CHR 0x5C then map_option (\<lambda>n. n + 2) (quoted_len rest)
      else map_option (\<lambda>n. n + 1) (quoted_len (d # rest)))"

lemma quoted_len_le: "quoted_len s = Some n \<Longrightarrow> n \<le> length s"
  by (induction s arbitrary: n rule: quoted_len.induct) (auto split: if_splits)

function LookupLoop :: "string \<Rightarrow> string \<Rightarrow> string option" where
  "LookupLoop key tag =
     (let tag = dropWhile (\<lambda>c. c = CHR '' '') tag;
          name = takeWhile tag_name_char tag;
          rest = drop (length name) tag
      in if tag = [] \<or> name = [] \<or> length rest < 2 \<or> rest ! 0 \<noteq> CHR '':'' \<or> rest ! 1 \<noteq> CHR 0x22 then None
         else case quoted_len (drop 2 rest) of
           None \<Rightarrow> None
         | Some n \<Rightarrow>
             if key = name then Unquote (CHR 0x22 # take n (drop 2 rest))
             else LookupLoop key (drop (n + 2) rest))"
  by pat_completeness auto
termination
proof (relation "measure (\<lambda>(key, tag). length tag)", simp, goal_cases)
  case (1 key tag x xa xb n)
  have "length x \<le> length tag" unfolding 1(1) by (rule length_dropWhile_le)
  moreover have "length xb \<le> length x" unfolding 1(3) by simp
  moreover have "2 \<le> length xb" using 1(4) by simp
  ultimately show ?case by simp
qed

declare LookupLoop.simps [simp del]

definition Lookup :: "string \<Rightarrow> string \<Rightarrow> string option" where
  "Lookup tag key = LookupLoop key tag"

end
