(* ===== verification/Protogen.thy ===== *)
theory Protogen
  imports GoText "HOL-Library.AList"
begin

text \<open>
  The code generator \<^verbatim>\<open>src/tools/protogen/main.go\<close> with its template \<^verbatim>\<open>codec.gno.tmpl\<close>. The Go parser,
  printer and formatter are parameters, a record of functions over an abstract type of expressions;
  the syntax tree is the part of \<^verbatim>\<open>go/ast\<close> the tool looks at. A directory is an association list
  from file names to contents.
\<close>

section \<open>Data\<close>

definition protoMarker :: string where
  "protoMarker = ''//gno:protobuf''"

datatype kind = kindBytes | kindVarint | kindInt64 | kindInt32 | kindBytes32 | kindMessage

record Field =
  f_Name :: string
  f_GoType :: string
  f_Num :: int
  f_Kind :: kind
  f_EncFn :: string
  f_DecFn :: string

record Message =
  m_Pkg :: string
  m_Name :: string
  m_Fields :: "Field list"

text \<open>\<^verbatim>\<open>go/ast\<close>: a comment group is the texts of its comments, \<open>None\<close> where it is nil; the type of a
  field or declaration is a struct or an expression the tool only prints.\<close>

type_synonym comment_group = "string list option"

datatype 'e type_expr = StructType "(string list \<times> 'e type_expr \<times> string option) list" | OtherType 'e

type_synonym 'e ast_field = "string list \<times> 'e type_expr \<times> string option"

datatype 'e spec = TypeSpec string comment_group "'e type_expr" | OtherSpec

datatype 'e decl = TypeDecl comment_group "'e spec list" | OtherDecl

record 'e ast_file =
  file_Name :: string
  file_Decls :: "'e decl list"

type_synonym dir = "(string \<times> bytes) list"

record 'e go_tools =
  ParseFile :: "string \<Rightarrow> bytes \<Rightarrow> string + 'e ast_file"
  Fprint :: "'e type_expr \<Rightarrow> string option"
  TypeOf :: "'e type_expr \<Rightarrow> string"
  FormatSource :: "bytes \<Rightarrow> string + bytes"
  Join :: "string \<Rightarrow> string \<Rightarrow> string"
  isPrint :: "nat \<Rightarrow> bool"

definition quoted :: "'e go_tools \<Rightarrow> string \<Rightarrow> string" where
  "quoted G s = Quote (isPrint G) (bytes_of_string s)"

section \<open>Names\<close>

fun snakeRunes :: "bool \<Rightarrow> nat list \<Rightarrow> bytes" where
  "snakeRunes first [] = []"
| "snakeRunes first (r # rs) =
     (if \<not> first \<and> 65 \<le> r \<and> r \<le> 90 then [0x5F] else []) @
     EncodeRune (if 65 \<le> r \<and> r \<le> 90 then r + 32 else r) @ snakeRunes False rs"

definition snakeCase :: "string \<Rightarrow> string" where
  "snakeCase s = string_of_bytes (snakeRunes True (map fst (runes (bytes_of_string s))))"

definition ErrName :: "Field \<Rightarrow> string" where
  "ErrName f = map (\<lambda>c. if c = CHR ''_'' then CHR '' '' else c) (snakeCase (f_Name f))"

section \<open>Tags and structs\<close>

definition commentGroupHas :: "comment_group \<Rightarrow> string \<Rightarrow> bool" where
  "commentGroupHas cg marker =
     (case cg of None \<Rightarrow> False | Some texts \<Rightarrow> list_ex (\<lambda>c. TrimSpace c = marker) texts)"

definition typeString :: "'e go_tools \<Rightarrow> 'e type_expr \<Rightarrow> string" where
  "typeString G e = (case Fprint G e of None \<Rightarrow> ''/* unprintable '' @ TypeOf G e @ '' */'' | Some s \<Rightarrow> s)"

fun parseOpts :: "'e go_tools \<Rightarrow> string list \<Rightarrow> string \<Rightarrow> string \<Rightarrow> string + string \<times> string" where
  "parseOpts G [] enc dec = Inr (enc, dec)"
| "parseOpts G (o' # opts) enc dec =
     (let opt = TrimSpace o'
      in case Cut opt (CHR ''='') of
           None \<Rightarrow> Inl (''invalid option '' @ quoted G opt @ '' (want key=value)'')
         | Some (k, v) \<Rightarrow>
             if k = ''enc'' then parseOpts G opts v dec
             else if k = ''dec'' then parseOpts G opts enc v
             else Inl (''unknown option '' @ quoted G k))"

definition parseKind :: "string \<Rightarrow> kind option" where
  "parseKind s =
     (if s = ''bytes'' then Some kindBytes
      else if s = ''varint'' then Some kindVarint
      else if s = ''int64'' then Some kindInt64
      else if s = ''int32'' then Some kindInt32
      else if s = ''bytes32'' then Some kindBytes32
      else if s = ''message'' then Some kindMessage
      else None)"

definition parseTag :: "'e go_tools \<Rightarrow> string \<Rightarrow> string \<Rightarrow> string + Field" where
  "parseTag G fname tag =
     (let parts = Split (CHR '','') tag
      in if length parts < 2 then
           Inl (''tag must be `pb:'' @ dq @ ''<num>,<kind>[,opt=val]...'' @ dq @ ''`, got '' @ quoted G tag)
         else case Atoi (TrimSpace (parts ! 0)) of
           None \<Rightarrow> Inl (''invalid field number '' @ quoted G (parts ! 0))
         | Some num \<Rightarrow>
             if num \<le> 0 then Inl (''invalid field number '' @ quoted G (parts ! 0))
             else case parseKind (TrimSpace (parts ! 1)) of
               None \<Rightarrow> Inl (''unknown kind '' @ quoted G (parts ! 1))
             | Some kd \<Rightarrow>
                 (case parseOpts G (drop 2 parts) [] [] of
                    Inl err \<Rightarrow> Inl err
                  | Inr (enc, dec) \<Rightarrow>
                      if kd = kindMessage \<and> (enc = [] \<or> dec = [])
                      then Inl ''kind=message requires enc=<fn> and dec=<fn>''
                      else Inr \<lparr>f_Name = fname, f_GoType = [], f_Num = num, f_Kind = kd, f_EncFn = enc, f_DecFn = dec\<rparr>))"

text \<open>The inner and the outer loop of \<^verbatim>\<open>parseStruct\<close>, with \<^verbatim>\<open>seenNums\<close> and \<^verbatim>\<open>m.Fields\<close> so far.\<close>

type_synonym parse_state = "(int \<times> string) list \<times> Field list"

fun namesLoop :: "'e go_tools \<Rightarrow> string \<Rightarrow> string \<Rightarrow> string list \<Rightarrow> parse_state \<Rightarrow> string + parse_state" where
  "namesLoop G tagVal goType [] st = Inr st"
| "namesLoop G tagVal goType (fname # names) (seen, flds) =
     (case parseTag G fname tagVal of
        Inl err \<Rightarrow> Inl (''field '' @ fname @ '': '' @ err)
      | Inr f \<Rightarrow>
          let f = f\<lparr>f_GoType := goType\<rparr>
          in case map_of seen (f_Num f) of
               Some other \<Rightarrow> Inl (''duplicate field number '' @ digits (nat (f_Num f)) @ '' on '' @ other @ '' and '' @ fname)
             | None \<Rightarrow> namesLoop G tagVal goType names ((f_Num f, fname) # seen, flds @ [f]))"

fun fieldsLoop :: "'e go_tools \<Rightarrow> 'e ast_field list \<Rightarrow> parse_state \<Rightarrow> string + parse_state" where
  "fieldsLoop G [] st = Inr st"
| "fieldsLoop G ((names, ty, tag) # rest) st =
     (case tag of
        None \<Rightarrow> fieldsLoop G rest st
      | Some lit \<Rightarrow>
          (case Unquote lit of
             None \<Rightarrow> Inl ''invalid struct tag: invalid syntax''
           | Some raw \<Rightarrow>
               (case Lookup raw ''pb'' of
                  None \<Rightarrow> fieldsLoop G rest st
                | Some tagVal \<Rightarrow>
                    if names = [] then Inl ''embedded fields are not supported''
                    else case namesLoop G tagVal (typeString G ty) names st of
                      Inl err \<Rightarrow> Inl err
                    | Inr st \<Rightarrow> fieldsLoop G rest st)))"

definition parseStruct :: "'e go_tools \<Rightarrow> string \<Rightarrow> 'e ast_field list \<Rightarrow> string + Message" where
  "parseStruct G name flds =
     (case fieldsLoop G flds ([], []) of
        Inl err \<Rightarrow> Inl err
      | Inr (seen, fs) \<Rightarrow>
          if fs = [] then Inl ''no pb-tagged fields'' else Inr \<lparr>m_Pkg = [], m_Name = name, m_Fields = fs\<rparr>)"

section \<open>The template (codec.gno.tmpl)\<close>

definition tabs :: "nat \<Rightarrow> string" where
  "tabs n = nl @ concat (replicate n tab)"

definition num_text :: "Field \<Rightarrow> string" where
  "num_text f = digits (nat (f_Num f))"

definition encodeTemplate :: "Field \<Rightarrow> string" where
  "encodeTemplate f =
     (case f_Kind f of
        kindBytes \<Rightarrow>
          (if f_GoType f = ''[]byte'' then tabs 1 @ ''buf = pbAppendBytes(buf, '' @ num_text f @ '', m.'' @ f_Name f @ '')''
           else tabs 1 @ ''buf = pbAppendBytes(buf, '' @ num_text f @ '', []byte(m.'' @ f_Name f @ ''))'')
      | kindVarint \<Rightarrow> tabs 1 @ ''buf = pbAppendUint64(buf, '' @ num_text f @ '', m.'' @ f_Name f @ '')''
      | kindInt64 \<Rightarrow> tabs 1 @ ''buf = pbAppendInt64(buf, '' @ num_text f @ '', m.'' @ f_Name f @ '')''
      | kindInt32 \<Rightarrow> tabs 1 @ ''buf = pbAppendInt32(buf, '' @ num_text f @ '', m.'' @ f_Name f @ '')''
      | kindBytes32 \<Rightarrow> tabs 1 @ ''buf = pbAppendBytes(buf, '' @ num_text f @ '', m.'' @ f_Name f @ ''[:])''
      | kindMessage \<Rightarrow>
          tabs 1 @ ''buf = pbAppendMsg(buf, '' @ num_text f @ '', '' @ f_EncFn f @ ''(m.'' @ f_Name f @ ''))'')"

definition return_on_err :: string where
  "return_on_err = tabs 3 @ ''if err != nil {'' @ tabs 4 @ ''return m, err'' @ tabs 3 @ ''}''"

definition expect_wire :: "Field \<Rightarrow> string \<Rightarrow> string" where
  "expect_wire f wire =
     tabs 3 @ ''if err := pbExpectWire('' @ num_text f @ '', wireType, '' @ wire @ ''); err != nil {'' @
     tabs 4 @ ''return m, err'' @ tabs 3 @ ''}''"

definition read_as :: "string \<Rightarrow> string \<Rightarrow> string" where
  "read_as var fn = tabs 3 @ var @ '', newPos, err := '' @ fn @ ''(buf, pos)'' @ tabs 3 @ ''pos = newPos'' @ return_on_err"

definition assign :: "Field \<Rightarrow> string \<Rightarrow> string" where
  "assign f e = tabs 3 @ ''m.'' @ f_Name f @ '' = '' @ e"

definition decodeTemplate :: "Field \<Rightarrow> string" where
  "decodeTemplate f =
     (case f_Kind f of
        kindBytes \<Rightarrow>
          expect_wire f ''2'' @ read_as ''v'' ''pbDecodeBytes'' @
          (if f_GoType f = ''[]byte'' then assign f ''v''
           else if f_GoType f = ''string'' then assign f ''string(v)''
           else assign f (f_GoType f @ ''(v)''))
      | kindVarint \<Rightarrow> expect_wire f ''0'' @ read_as ''v'' ''pbDecodeVarint'' @ assign f ''v''
      | kindInt64 \<Rightarrow> expect_wire f ''0'' @ read_as ''v'' ''pbDecodeVarint'' @ assign f ''int64(v)''
      | kindInt32 \<Rightarrow> expect_wire f ''0'' @ read_as ''v'' ''pbDecodeVarint'' @ assign f ''int32(v)''
      | kindBytes32 \<Rightarrow>
          expect_wire f ''2'' @ read_as ''v'' ''pbDecodeBytes'' @
          tabs 3 @ ''addr, err := toBytes32(v, '' @ dq @ ErrName f @ dq @ '')'' @ return_on_err @
          assign f (f_GoType f @ ''(addr)'')
      | kindMessage \<Rightarrow>
          expect_wire f ''2'' @ read_as ''inner'' ''pbDecodeBytes'' @
          tabs 3 @ ''v, err := '' @ f_DecFn f @ ''(inner)'' @ return_on_err @ assign f ''v'')"

definition codecTmpl :: "Message \<Rightarrow> string" where
  "codecTmpl m =
     ''// Code generated by tools/protogen. DO NOT EDIT.'' @ nl @ nl @
     ''package '' @ m_Pkg m @ nl @ nl @
     ''func Encode'' @ m_Name m @ ''(m '' @ m_Name m @ '') []byte {'' @
     tabs 1 @ ''buf := make([]byte, 0, 128)'' @
     concat (map encodeTemplate (m_Fields m)) @
     tabs 1 @ ''return buf'' @ nl @ ''}'' @ nl @ nl @
     ''func Decode'' @ m_Name m @ ''(buf []byte) ('' @ m_Name m @ '', error) {'' @
     tabs 1 @ ''var m '' @ m_Name m @
     tabs 1 @ ''pos := 0'' @
     tabs 1 @ ''for pos < len(buf) {'' @
     tabs 2 @ ''fieldNum, wireType, newPos, err := pbDecodeTag(buf, pos)'' @
     tabs 2 @ ''pos = newPos'' @
     tabs 2 @ ''if err != nil {'' @ tabs 3 @ ''return m, err'' @ tabs 2 @ ''}'' @
     tabs 2 @ ''switch fieldNum {'' @
     concat (map (\<lambda>f. tabs 2 @ ''case '' @ num_text f @ '':'' @ decodeTemplate f) (m_Fields m)) @
     tabs 2 @ ''default:'' @
     tabs 3 @ ''pos, err = pbSkipField(buf, pos, wireType)'' @ return_on_err @
     tabs 2 @ ''}'' @
     tabs 1 @ ''}'' @
     tabs 1 @ ''return m, nil'' @ nl @ ''}'' @ nl"

section \<open>Generation\<close>

definition render :: "'e go_tools \<Rightarrow> Message \<Rightarrow> string + bytes" where
  "render G m =
     (let src = bytes_of_string (codecTmpl m)
      in case FormatSource G src of
           Inl err \<Rightarrow> Inl (''gofmt failed: '' @ err @ nl @ ''--- source ---'' @ nl @ string_of_bytes src)
         | Inr formatted \<Rightarrow> Inr formatted)"

text \<open>The three suffixes \<^verbatim>\<open>processDir\<close> passes over.\<close>

definition skipped :: "string \<Rightarrow> bool" where
  "skipped name \<longleftrightarrow> \<not> HasSuffix name ''.gno'' \<or>
     HasSuffix name ''_test.gno'' \<or> HasSuffix name ''_filetest.gno'' \<or> HasSuffix name ''_pb_gen.gno''"

fun specsLoop :: "'e go_tools \<Rightarrow> string \<Rightarrow> string \<Rightarrow> bool \<Rightarrow> 'e spec list \<Rightarrow> string + Message list" where
  "specsLoop G name pkg groupHasMarker [] = Inr []"
| "specsLoop G name pkg groupHasMarker (OtherSpec # specs) = specsLoop G name pkg groupHasMarker specs"
| "specsLoop G name pkg groupHasMarker (TypeSpec tname doc ty # specs) =
     (if \<not> (groupHasMarker \<or> commentGroupHas doc protoMarker) then specsLoop G name pkg groupHasMarker specs
      else case ty of
        OtherType _ \<Rightarrow> Inl (name @ '': '' @ tname @ '' is marked //gno:protobuf but is not a struct'')
      | StructType flds \<Rightarrow>
          (case parseStruct G tname flds of
             Inl err \<Rightarrow> Inl (tname @ '': '' @ err)
           | Inr m \<Rightarrow>
               (case specsLoop G name pkg groupHasMarker specs of
                  Inl err \<Rightarrow> Inl err
                | Inr ms \<Rightarrow> Inr (m\<lparr>m_Pkg := pkg\<rparr> # ms))))"

fun declsLoop :: "'e go_tools \<Rightarrow> string \<Rightarrow> string \<Rightarrow> 'e decl list \<Rightarrow> string + Message list" where
  "declsLoop G name pkg [] = Inr []"
| "declsLoop G name pkg (OtherDecl # decls) = declsLoop G name pkg decls"
| "declsLoop G name pkg (TypeDecl doc specs # decls) =
     (case specsLoop G name pkg (commentGroupHas doc protoMarker) specs of
        Inl err \<Rightarrow> Inl err
      | Inr ms \<Rightarrow> (case declsLoop G name pkg decls of Inl err \<Rightarrow> Inl err | Inr ns \<Rightarrow> Inr (ms @ ns)))"

text \<open>The loop over the directory's entries, with the package name of the first file read.\<close>

fun entriesLoop :: "'e go_tools \<Rightarrow> dir \<Rightarrow> string list \<Rightarrow> string \<Rightarrow> string + Message list" where
  "entriesLoop G d [] pkgName = Inr []"
| "entriesLoop G d (name # names) pkgName =
     (if skipped name then entriesLoop G d names pkgName
      else case map_of d name of
        None \<Rightarrow> Inl (''open '' @ name @ '': no such file or directory'')
      | Some src \<Rightarrow>
          (case ParseFile G name src of
             Inl err \<Rightarrow> Inl (''parse '' @ name @ '': '' @ err)
           | Inr f \<Rightarrow>
               let pkgName = (if pkgName = [] then file_Name f else pkgName)
               in case declsLoop G name pkgName (file_Decls f) of
                    Inl err \<Rightarrow> Inl err
                  | Inr ms \<Rightarrow>
                      (case entriesLoop G d names pkgName of Inl err \<Rightarrow> Inl err | Inr ns \<Rightarrow> Inr (ms @ ns))))"

definition string_less :: "string \<Rightarrow> string \<Rightarrow> bool" where
  "string_less s t = bytes_less (bytes_of_string s) (bytes_of_string t)"

text \<open>\<^verbatim>\<open>os.ReadDir\<close> lists a directory by file name.\<close>

definition ReadDir :: "dir \<Rightarrow> string list" where
  "ReadDir d = sort_slice string_less (map fst d)"

definition genName :: "Message \<Rightarrow> string" where
  "genName m = snakeCase (m_Name m) @ ''_pb_gen.gno''"

text \<open>The last loop: the directory after the writes, the text printed and the error, if any.\<close>

fun writeLoop :: "'e go_tools \<Rightarrow> string \<Rightarrow> Message list \<Rightarrow> dir \<Rightarrow> dir \<times> string \<times> string option" where
  "writeLoop G path [] d = (d, [], None)"
| "writeLoop G path (m # ms) d =
     (case render G m of
        Inl err \<Rightarrow> (d, [], Some (''render '' @ m_Name m @ '': '' @ err))
      | Inr out \<Rightarrow>
          (case writeLoop G path ms (AList.update (genName m) out d) of
             (d', printed, err) \<Rightarrow> (d', ''wrote '' @ Join G path (genName m) @ nl @ printed, err)))"

definition processDir :: "'e go_tools \<Rightarrow> string \<Rightarrow> dir \<Rightarrow> dir \<times> string \<times> string option" where
  "processDir G path d =
     (case entriesLoop G d (ReadDir d) [] of
        Inl err \<Rightarrow> (d, [], Some err)
      | Inr msgs \<Rightarrow> writeLoop G path (sort_slice (\<lambda>a b. string_less (m_Name a) (m_Name b)) msgs) d)"

text \<open>
  The program: its arguments are directories of a file system, \<open>None\<close> one that does not exist. The
  result is the file system, the standard output, the standard error and the exit code.
\<close>

fun dirsLoop :: "'e go_tools \<Rightarrow> string list \<Rightarrow> (string \<Rightarrow> dir option) \<Rightarrow>
  (string \<Rightarrow> dir option) \<times> string \<times> string \<times> nat" where
  "dirsLoop G [] fs = (fs, [], [], 0)"
| "dirsLoop G (path # paths) fs =
     (case fs path of
        None \<Rightarrow> (fs, [], ''protogen: '' @ path @ '': open '' @ path @ '': no such file or directory'' @ nl, 1)
      | Some d \<Rightarrow>
          (case processDir G path d of
             (d', printed, Some err) \<Rightarrow> (fs(path \<mapsto> d'), printed, ''protogen: '' @ path @ '': '' @ err @ nl, 1)
           | (d', printed, None) \<Rightarrow>
               (case dirsLoop G paths (fs(path \<mapsto> d')) of
                  (fs', printed', err, code) \<Rightarrow> (fs', printed @ printed', err, code))))"

definition main :: "'e go_tools \<Rightarrow> string list \<Rightarrow> (string \<Rightarrow> dir option) \<Rightarrow>
  (string \<Rightarrow> dir option) \<times> string \<times> string \<times> nat" where
  "main G args fs =
     (if args = [] then (fs, [], ''usage: protogen <pkg-dir> [<pkg-dir>...]'' @ nl, 2) else dirsLoop G args fs)"

end
