(* ===== verification/ProtogenText.thy ===== *)
theory ProtogenText
  imports Protogen
begin

text \<open>
  The text the generator reads and writes: ASCII strings, the tag of a field and the round trip of
  printing and parsing it, and the names of the generated files.
\<close>

section \<open>Tags\<close>

definition ascii :: "string \<Rightarrow> bool" where
  "ascii s \<longleftrightarrow> list_all (\<lambda>c. of_char c < (128 :: nat)) s"

lemma ascii_simps [simp]: "ascii []" "ascii (c # s) \<longleftrightarrow> of_char c < (128 :: nat) \<and> ascii s"
  "ascii (s @ t) \<longleftrightarrow> ascii s \<and> ascii t"
  by (simp_all add: ascii_def)

lemma runes_ascii: "ascii s \<Longrightarrow> runes (bytes_of_string s) = map (\<lambda>c. (of_char c, [of_char c])) s"
proof (induction s)
  case (Cons c s)
  then have "DecodeRune (of_char c # bytes_of_string s) = (of_char c, 1)" by (simp add: DecodeRune_def word_less_nat_alt)
  with Cons show ?case by (simp add: runes.simps [of "of_char c # map of_char s"] bytes_of_string_def)
qed (simp add: runes.simps bytes_of_string_def)

lemma EncodeRune_ascii: "of_char c < (128 :: nat) \<Longrightarrow> EncodeRune (of_char c) = [of_char c]"
  by (simp add: EncodeRune_def valid_rune_def of_nat_of_char)

text \<open>A string that \<^verbatim>\<open>TrimSpace\<close> and \<^verbatim>\<open>Split\<close> leave alone.\<close>

definition plain :: "string \<Rightarrow> bool" where
  "plain s \<longleftrightarrow> ascii s \<and> CHR '','' \<notin> set s \<and> list_all (\<lambda>c. \<not> IsSpace (of_char c)) s"

lemma dropWhile_none: "list_all (\<lambda>x. \<not> P x) xs \<Longrightarrow> dropWhile P xs = xs"
  by (cases xs) auto

lemma trim_list_none: "list_all (\<lambda>x. \<not> P x) xs \<Longrightarrow> trim_list P xs = xs"
  unfolding trim_list_def by (simp add: dropWhile_none list_all_iff)

lemma TrimSpace_plain: 
  assumes "plain s" shows "TrimSpace s = s"
proof -
  have "trim_list (\<lambda>(r, bs). IsSpace r) (runes (bytes_of_string s)) = runes (bytes_of_string s)"
    using assms by (intro trim_list_none) (auto simp: plain_def list_all_iff runes_ascii)
  then show ?thesis by (simp add: TrimSpace_def concat_runes)
qed

lemma Split_plain: "c \<notin> set s \<Longrightarrow> Split c s = [s]"
  by (induction s) auto

lemma Split_append: "c \<notin> set s \<Longrightarrow> Split c (s @ c # t) = s # Split c t"
  by (induction s) auto
lemma digits_set: "c \<in> set (digits n) \<Longrightarrow> 48 \<le> (of_char c :: nat) \<and> of_char c \<le> (57::nat)"
proof (induction n rule: digits.induct)
  case (1 n)
  then show ?case by (subst (asm) (2) digits.simps) (auto simp: of_char_digit split: if_splits)
qed

lemma decimal_append: "decimal acc (s @ t) = (case decimal acc s of None \<Rightarrow> None | Some n \<Rightarrow> decimal n t)"
  by (induction s arbitrary: acc) (auto split: option.splits)

lemma decimal_digits: "decimal 0 (digits n) = Some n"
proof (induction n rule: digits.induct)
  case (1 n)
  have d: "digit_value (digit_char m) = Some m" if "m < 10" for m
    using that by (simp add: digit_value_def of_char_digit Let_def)
  show ?case
  proof (cases "n < 10")
    case True then show ?thesis by (subst digits.simps) (simp add: d)
  next
    case False 
    with 1 show ?thesis by (subst digits.simps) (simp add: d decimal_append)
  qed
qed

text \<open>The tag a field is written with.\<close>

definition kindName :: "kind \<Rightarrow> string" where
  "kindName k = (case k of kindBytes \<Rightarrow> ''bytes'' | kindVarint \<Rightarrow> ''varint'' | kindInt64 \<Rightarrow> ''int64''
     | kindInt32 \<Rightarrow> ''int32'' | kindBytes32 \<Rightarrow> ''bytes32'' | kindMessage \<Rightarrow> ''message'')"

definition printOpt :: "string \<Rightarrow> string \<Rightarrow> string" where
  "printOpt key v = (if v = [] then [] else '','' @ key @ ''='' @ v)"

definition printTag :: "Field \<Rightarrow> string" where
  "printTag f = digits (nat (f_Num f)) @ '','' @ kindName (f_Kind f) @
     printOpt ''enc'' (f_EncFn f) @ printOpt ''dec'' (f_DecFn f)"

definition tag_ok :: "Field \<Rightarrow> bool" where
  "tag_ok f \<longleftrightarrow> f_GoType f = [] \<and> 0 < f_Num f \<and> f_Num f < 2 ^ 63 \<and> plain (f_EncFn f) \<and> plain (f_DecFn f) \<and>
     (f_Kind f = kindMessage \<longrightarrow> f_EncFn f \<noteq> [] \<and> f_DecFn f \<noteq> [])"

lemma plain_digits: "plain (digits n)"
  by (auto simp: plain_def ascii_def list_all_iff IsSpace_def dest!: digits_set)

lemma plain_kind: "plain (kindName k)"
  by (cases k) (simp_all add: kindName_def plain_def ascii_def IsSpace_def)

lemma plain_append: "plain (s @ t) \<longleftrightarrow> plain s \<and> plain t"
  by (auto simp: plain_def)

lemma parseKind_kindName [simp]: "parseKind (kindName k) = Some k"
  by (cases k) (simp_all add: kindName_def parseKind_def)

lemma Atoi_digits: assumes "0 < n" "n < 2 ^ 63" shows "Atoi (digits (nat n)) = Some n"
proof -
  obtain c cs where d: "digits (nat n) = c # cs" using digits_not_Nil by (cases "digits (nat n)") auto
  then have "48 \<le> (of_char c :: nat)" using digits_set [of c "nat n"] by simp
  then have "c \<noteq> CHR ''-''" "c \<noteq> CHR ''+''" by auto
  with d decimal_digits [of "nat n"] assms show ?thesis by (simp add: Atoi_def)
qed

lemma Split_tag:
  assumes "plain (f_EncFn f)" "plain (f_DecFn f)"
  shows "Split (CHR '','') (printTag f) = digits (nat (f_Num f)) # kindName (f_Kind f) #
    (if f_EncFn f = [] then [] else [''enc='' @ f_EncFn f]) @ (if f_DecFn f = [] then [] else [''dec='' @ f_DecFn f])"
proof -
  have no: "CHR '','' \<notin> set (digits n)" "CHR '','' \<notin> set (kindName k)" for n k
    using plain_digits plain_kind by (auto simp: plain_def)
  from assms have "CHR '','' \<notin> set (f_EncFn f)" "CHR '','' \<notin> set (f_DecFn f)" by (auto simp: plain_def)
  then show ?thesis
    by (simp add: printTag_def printOpt_def no Split_append Split_plain)
qed

lemma plain_key: "plain v \<Longrightarrow> TrimSpace (CHR ''e'' # CHR ''n'' # CHR ''c'' # CHR ''='' # v) = ''enc='' @ v"
  "plain v \<Longrightarrow> TrimSpace (CHR ''d'' # CHR ''e'' # CHR ''c'' # CHR ''='' # v) = ''dec='' @ v"
  using TrimSpace_plain [of "''enc='' @ v"] TrimSpace_plain [of "''dec='' @ v"]
  by (simp_all add: plain_append) (simp_all add: plain_def ascii_def IsSpace_def)

lemma parseTag_print:
  assumes "tag_ok f"
  shows "parseTag G (f_Name f) (printTag f) = Inr f"
proof -
  have p: "plain (f_EncFn f)" "plain (f_DecFn f)" "f_GoType f = []" "0 < f_Num f" "f_Num f < 2 ^ 63"
    "f_Kind f = kindMessage \<longrightarrow> f_EncFn f \<noteq> [] \<and> f_DecFn f \<noteq> []"
    using assms by (auto simp: tag_ok_def)
  have eq: "\<lparr>f_Name = f_Name f, f_GoType = [], f_Num = f_Num f, f_Kind = f_Kind f, f_EncFn = f_EncFn f,
    f_DecFn = f_DecFn f\<rparr> = f"
    using p(3) by (cases f) simp
  have "parseOpts G (drop 2 (Split (CHR '','') (printTag f))) [] [] = Inr (f_EncFn f, f_DecFn f)"
    by (simp add: Split_tag p plain_key)
  then show ?thesis
    using p(4-6) by (simp add: parseTag_def Split_tag p(1,2) TrimSpace_plain plain_digits plain_kind Atoi_digits eq)
qed

text \<open>A field written as a tag, its number, its kind and its options, is the field the generator
  reads back.\<close>

theorem parseTag_printTag:
  assumes "tag_ok f"
  shows "parseTag G (f_Name f) (printTag f) = Inr f"
  by (rule parseTag_print [OF assms])

section \<open>A package\<close>

lemma commentMarker: "commentGroupHas (Some [protoMarker]) protoMarker"
  by (simp add: commentGroupHas_def protoMarker_def TrimSpace_plain plain_def ascii_def IsSpace_def)

definition sample_tools :: "string list ast_file \<Rightarrow> string list go_tools" where
  "sample_tools f = \<lparr>ParseFile = (\<lambda>n s. if s = [] then Inl ''1:1: expected package'' else Inr f),
     Fprint = (\<lambda>e. case e of OtherType [s] \<Rightarrow> Some s | _ \<Rightarrow> None), TypeOf = (\<lambda>e. ''*ast.StructType''),
     FormatSource = (\<lambda>b. Inr b), Join = (\<lambda>a b. a @ ''/'' @ b), isPrint = (\<lambda>r. True)\<rparr>"

definition sample_fields :: "string list ast_field list" where
  "sample_fields = [([''TrustingPeriod''], OtherType [''Duration''],
     Some (''`pb:'' @ dq @ ''2,message,enc=encodeDuration,dec=decodeDuration'' @ dq @ ''`''))]"

definition sample_file :: "string list ast_file" where
  "sample_file = \<lparr>file_Name = ''cometbls'', file_Decls =
     [OtherDecl, TypeDecl (Some [protoMarker]) [TypeSpec ''ClientState'' None (StructType sample_fields)]]\<rparr>"

definition sample_field :: Field where
  "sample_field = \<lparr>f_Name = ''TrustingPeriod'', f_GoType = [], f_Num = 2, f_Kind = kindMessage,
     f_EncFn = ''encodeDuration'', f_DecFn = ''decodeDuration''\<rparr>"

lemma sample_field_ok: "tag_ok sample_field"
  by (simp add: tag_ok_def sample_field_def plain_def ascii_def IsSpace_def)

lemma sample_print: "printTag sample_field = ''2,message,enc=encodeDuration,dec=decodeDuration''"
  by (simp add: printTag_def sample_field_def printOpt_def kindName_def digits.simps digit_char_def, code_simp)

theorem parseTag_printTag_witness:
  "parseTag (sample_tools sample_file) ''TrustingPeriod'' ''2,message,enc=encodeDuration,dec=decodeDuration'' = Inr sample_field"
  using parseTag_printTag [OF sample_field_ok, of "sample_tools sample_file"] unfolding sample_print by (simp add: sample_field_def)

section \<open>Names of generated files\<close>

text \<open>The names the generator meets: exported, of ASCII letters and digits.\<close>

definition exported :: "string \<Rightarrow> bool" where
  "exported s \<longleftrightarrow> ascii s \<and> CHR ''_'' \<notin> set s \<and> s \<noteq> [] \<and> 65 \<le> (of_char (hd s) :: nat) \<and> of_char (hd s) \<le> (90 :: nat)"

fun snakeChars :: "bool \<Rightarrow> string \<Rightarrow> string" where
  "snakeChars first [] = []"
| "snakeChars first (c # cs) =
     (let r = of_char c :: nat
      in (if \<not> first \<and> 65 \<le> r \<and> r \<le> 90 then ''_'' else []) @
         (if 65 \<le> r \<and> r \<le> 90 then char_of (r + 32) else c) # snakeChars False cs)"

lemma string_of_bytes_append [simp]: "string_of_bytes (a @ b) = string_of_bytes a @ string_of_bytes b"
  by (simp_all add: string_of_bytes_def)

lemma string_of_bytes_simps [simp]: "string_of_bytes [] = []" "string_of_bytes (of_char c # bs) = c # string_of_bytes bs"
  by (simp_all add: string_of_bytes_def)

lemma EncodeRune_upper: "r \<le> 90 \<Longrightarrow> string_of_bytes (EncodeRune (r + 32)) = [char_of (r + 32)]"
  by (simp add: EncodeRune_def valid_rune_def string_of_bytes_def unat_of_nat del: of_nat_add)

lemma snakeRunes_ascii: "ascii s \<Longrightarrow> string_of_bytes (snakeRunes first (map of_char s)) = snakeChars first s"
proof (induction s arbitrary: first)
  case (Cons c s)
  have u: "string_of_bytes (0x5F # bs) = CHR ''_'' # string_of_bytes bs" for bs
    by (simp add: string_of_bytes_def) code_simp
  from Cons show ?case
    by (auto simp: Let_def u EncodeRune_ascii EncodeRune_upper)
qed (simp add: string_of_bytes_def)

lemma snakeCase_ascii: "ascii s \<Longrightarrow> snakeCase s = snakeChars True s"
  by (simp add: snakeCase_def runes_ascii snakeRunes_ascii [symmetric] comp_def)

lemma shift_inject:
  assumes "(of_char c :: nat) \<le> 90" "(of_char d :: nat) \<le> 90"
  shows "char_of (of_char c + 32 :: nat) = (char_of (of_char d + 32 :: nat) :: char) \<longleftrightarrow> c = d"
proof
  assume "char_of (of_char c + 32 :: nat) = (char_of (of_char d + 32 :: nat) :: char)"
  then have "(of_char (char_of (of_char c + 32 :: nat) :: char) :: nat) = of_char (char_of (of_char d + 32 :: nat) :: char)"
    by simp
  with assms have "(of_char c :: nat) = of_char d" by simp
  then show "c = d" by simp
qed simp

lemma snake_tail_inject:
  "ascii s \<Longrightarrow> ascii t \<Longrightarrow> CHR ''_'' \<notin> set s \<Longrightarrow> CHR ''_'' \<notin> set t \<Longrightarrow>
     snakeChars False s = snakeChars False t \<longleftrightarrow> s = t"
proof (induction s arbitrary: t)
  case Nil then show ?case by (cases t) (auto simp: Let_def)
next
  case (Cons c s)
  show ?case
  proof (cases t)
    case Nil then show ?thesis by (auto simp: Let_def)
  next
    case (Cons d u)
    with Cons.prems Cons.IH [of u] show ?thesis
      by (auto simp: Let_def shift_inject)
  qed
qed

text \<open>Exported types of different names are generated into different files.\<close>

theorem snakeCase_inject:
  assumes "exported s" "exported t"
  shows "snakeCase s = snakeCase t \<longleftrightarrow> s = t"
  using assms
  by (cases s; cases t) (auto simp: exported_def snakeCase_ascii Let_def shift_inject snake_tail_inject)

lemma exported_samples: "exported ''ClientState''" "exported ''Header''" "exported ''LightHeader''"
  by (simp_all add: exported_def ascii_def)

theorem snakeCase_inject_witness:
  "snakeCase ''LightHeader'' = ''light_header'' \<and> snakeCase ''Header'' \<noteq> snakeCase ''LightHeader''"
  using snakeCase_inject [OF exported_samples(2,3)]
  by (simp add: snakeCase_ascii Let_def) code_simp

text \<open>Without the restriction two types share a file, and the second overwrites the first.\<close>

lemma snakeCase_collision: "snakeCase ''Header'' = snakeCase ''header''"
  "snakeCase ''LightHeader'' = snakeCase ''Light_header''"
  by (simp_all add: snakeCase_ascii Let_def, code_simp+)

end
