(* ===== verification/ProtogenSound.thy ===== *)
theory ProtogenSound
  imports ProtogenText
begin

text \<open>
  What the code generator guarantees: which structs it accepts, and that generating again changes
  nothing, both on a small package as well.
\<close>

section \<open>Accepted structs\<close>

lemma parseTag_ok:
  assumes "parseTag G fname tag = Inr f"
  shows "f_Name f = fname \<and> f_GoType f = [] \<and> 0 < f_Num f \<and>
    (f_Kind f = kindMessage \<longrightarrow> f_EncFn f \<noteq> [] \<and> f_DecFn f \<noteq> [])"
  using assms
  by (auto simp: parseTag_def Let_def split: if_splits option.splits sum.splits prod.splits)

definition field_source :: "'e go_tools \<Rightarrow> 'e ast_field list \<Rightarrow> Field \<Rightarrow> bool" where
  "field_source G flds f \<longleftrightarrow>
     (\<exists>names ty lit raw tagVal. (names, ty, Some lit) \<in> set flds \<and> Unquote lit = Some raw \<and>
        Lookup raw ''pb'' = Some tagVal \<and> f_Name f \<in> set names \<and> f_GoType f = typeString G ty \<and>
        parseTag G (f_Name f) tagVal = Inr (f\<lparr>f_GoType := []\<rparr>))"

definition state_ok :: "'e go_tools \<Rightarrow> 'e ast_field list \<Rightarrow> parse_state \<Rightarrow> bool" where
  "state_ok G flds st \<longleftrightarrow> distinct (map f_Num (snd st)) \<and> fst ` set (fst st) = f_Num ` set (snd st) \<and>
     (\<forall>f\<in>set (snd st). 0 < f_Num f \<and> (f_Kind f = kindMessage \<longrightarrow> f_EncFn f \<noteq> [] \<and> f_DecFn f \<noteq> []) \<and>
        field_source G flds f)"

lemma namesLoop_ok:
  assumes "(all, ty, Some lit) \<in> set flds" and "Unquote lit = Some raw" and "Lookup raw ''pb'' = Some tagVal"
  shows "namesLoop G tagVal (typeString G ty) names st = Inr st' \<Longrightarrow> set names \<subseteq> set all \<Longrightarrow> state_ok G flds st \<Longrightarrow>
    state_ok G flds st'"
proof (induction names arbitrary: st)
  case (Cons fname names)
  obtain seen fs where st: "st = (seen, fs)" by (cases st)
  from Cons.prems(1) obtain f where f: "parseTag G fname tagVal = Inr f" "map_of seen (f_Num f) = None"
    "namesLoop G tagVal (typeString G ty) names
       ((f_Num f, fname) # seen, fs @ [f\<lparr>f_GoType := typeString G ty\<rparr>]) = Inr st'"
    by (auto simp: st Let_def split: sum.splits option.splits)
  have "f_Num f \<notin> f_Num ` set fs"
    using f(2) Cons.prems(3) by (auto simp: state_ok_def st map_of_eq_None_iff)
  moreover have "f\<lparr>f_GoType := []\<rparr> = f" using parseTag_ok [OF f(1)] by (cases f) simp
  then have "field_source G flds (f\<lparr>f_GoType := typeString G ty\<rparr>)"
    using assms parseTag_ok [OF f(1)] f(1) Cons.prems(2) unfolding field_source_def by fastforce
  ultimately have "state_ok G flds ((f_Num f, fname) # seen, fs @ [f\<lparr>f_GoType := typeString G ty\<rparr>])"
    using Cons.prems(3) parseTag_ok [OF f(1)] by (auto simp: state_ok_def st)
  with Cons.IH [OF f(3)] Cons.prems(2) show ?case by simp
qed simp

lemma fieldsLoop_ok:
  "fieldsLoop G rest st = Inr st' \<Longrightarrow> set rest \<subseteq> set flds \<Longrightarrow> state_ok G flds st \<Longrightarrow> state_ok G flds st'"
proof (induction G rest st rule: fieldsLoop.induct)
  case (2 G names ty tag rest st)
  show ?case
  proof (cases "\<exists>lit raw tagVal. tag = Some lit \<and> Unquote lit = Some raw \<and> Lookup raw ''pb'' = Some tagVal")
    case False
    then have "fieldsLoop G rest st = Inr st'"
      using "2.prems"(1) by (auto split: option.splits)
    moreover have "\<And>lit raw. tag = Some lit \<Longrightarrow> Unquote lit = Some raw \<Longrightarrow> Lookup raw ''pb'' = None"
      using False by auto
    ultimately show ?thesis
      using 2 by (cases tag) (auto split: option.splits)
  next
    case True
    then obtain lit raw tagVal where t: "tag = Some lit" "Unquote lit = Some raw" "Lookup raw ''pb'' = Some tagVal"
      by blast
    then obtain st1 where n: "names \<noteq> []" "namesLoop G tagVal (typeString G ty) names st = Inr st1"
      "fieldsLoop G rest st1 = Inr st'"
      using "2.prems"(1) by (auto split: if_splits sum.splits)
    have "state_ok G flds st1"
      using namesLoop_ok [of names ty lit flds raw tagVal G names st st1] t n(2) "2.prems"(2,3) by auto
    with "2.IH"(3) [OF t n(1,2,3)] "2.prems"(2) show ?thesis by simp
  qed
qed simp

text \<open>C29: a struct is accepted only with fields whose numbers are positive and all different, and
  each generated field is one the source declares with the tag it was parsed from; a nested message
  has both of its functions.\<close>

theorem parseStruct_sound:
  assumes "parseStruct G name flds = Inr m"
  shows "m_Name m = name \<and> m_Fields m \<noteq> [] \<and> distinct (map f_Num (m_Fields m)) \<and>
    (\<forall>f\<in>set (m_Fields m). 0 < f_Num f \<and> (f_Kind f = kindMessage \<longrightarrow> f_EncFn f \<noteq> [] \<and> f_DecFn f \<noteq> []) \<and>
       field_source G flds f)"
proof -
  from assms obtain seen where "fieldsLoop G flds ([], []) = Inr (seen, m_Fields m)" "m_Name m = name" "m_Fields m \<noteq> []"
    by (auto simp: parseStruct_def split: sum.splits if_splits prod.splits)
  moreover from fieldsLoop_ok [OF this(1), of flds] have "state_ok G flds (seen, m_Fields m)"
    by (simp add: state_ok_def)
  ultimately show ?thesis by (auto simp: state_ok_def)
qed

definition sample_message :: Message where
  "sample_message = \<lparr>m_Pkg = [], m_Name = ''ClientState'', m_Fields = [sample_field\<lparr>f_GoType := ''Duration''\<rparr>]\<rparr>"

lemma sample_lookup:
  "Lookup (''pb:'' @ dq @ ''2,message,enc=encodeDuration,dec=decodeDuration'' @ dq) ''pb'' =
     Some ''2,message,enc=encodeDuration,dec=decodeDuration''"
  by (simp add: dq_def Lookup_def LookupLoop.simps unquote_chars.simps tag_name_char_def Unquote_def DecodeRune_def
      EncodeRune_def valid_rune_def bytes_of_string_def string_of_bytes_def Let_def, code_simp?)

lemma sample_tag: "parseTag G ''TrustingPeriod'' ''2,message,enc=encodeDuration,dec=decodeDuration'' = Inr sample_field"
  using parseTag_print [OF sample_field_ok, of G] unfolding sample_print by (simp add: sample_field_def)

lemma sample_parse: "parseStruct (sample_tools f) ''ClientState'' sample_fields = Inr sample_message"
proof -
  have "Unquote (''`pb:'' @ dq @ ''2,message,enc=encodeDuration,dec=decodeDuration'' @ dq @ ''`'') =
      Some (''pb:'' @ dq @ ''2,message,enc=encodeDuration,dec=decodeDuration'' @ dq)"
    by (simp add: Unquote_def dq_def)
  moreover have "parseTag (sample_tools f) ''TrustingPeriod'' ''2,message,enc=encodeDuration,dec=decodeDuration'' =
      Inr sample_field"
    using sample_tag [of "sample_tools f"] by blast
  ultimately show ?thesis
    by (simp add: parseStruct_def sample_fields_def sample_lookup [unfolded append.simps] sample_message_def)
       (simp add: sample_field_def typeString_def sample_tools_def)
qed

theorem parseStruct_sound_witness:
  "m_Name sample_message = ''ClientState'' \<and> distinct (map f_Num (m_Fields sample_message)) \<and>
    f_EncFn (hd (m_Fields sample_message)) \<noteq> [] \<and>
    field_source (sample_tools sample_file) sample_fields (hd (m_Fields sample_message))"
  using parseStruct_sound [OF sample_parse, of sample_file] by (simp add: sample_message_def sample_field_def)

section \<open>Generating again\<close>

lemma genName_skipped: "skipped (genName m)"
  by (simp add: skipped_def genName_def HasSuffix_def)

definition sources :: "dir \<Rightarrow> string list" where
  "sources d = filter (\<lambda>n. \<not> skipped n) (ReadDir d)"

lemma entriesLoop_sources: "entriesLoop G d names pkg = entriesLoop G d (filter (\<lambda>n. \<not> skipped n) names) pkg"
  by (induction names arbitrary: pkg) (auto simp: Let_def split: option.splits sum.splits)

lemma entriesLoop_cong:
  "(\<And>n. n \<in> set names \<Longrightarrow> map_of d' n = map_of d n) \<Longrightarrow> entriesLoop G d' names pkg = entriesLoop G d names pkg"
  by (induction names arbitrary: pkg) (auto simp: Let_def split: option.splits sum.splits)

lemma filter_ReadDir:
  assumes "distinct (map fst d)"
  shows "sorted_wrt (\<lambda>s t. bytes_less (bytes_of_string s) (bytes_of_string t)) (sources d)"
    and "mset (sources d) = filter_mset (\<lambda>n. \<not> skipped n) (mset (map fst d))"
proof -
  have "distinct (map bytes_of_string (map fst d))"
    using assms unfolding distinct_map by (auto intro: inj_onI)
  then show "sorted_wrt (\<lambda>s t. bytes_less (bytes_of_string s) (bytes_of_string t)) (sources d)"
    unfolding sources_def ReadDir_def string_less_def
    by (intro sorted_wrt_filter byte_order.strict_sort_slice)
  show "mset (sources d) = filter_mset (\<lambda>n. \<not> skipped n) (mset (map fst d))"
    by (simp add: sources_def ReadDir_def mset_filter byte_order.mset_sort_slice)
qed

lemma sources_eq:
  assumes "distinct (map fst d)" "distinct (map fst d')"
    and "\<And>n. \<not> skipped n \<Longrightarrow> n \<in> fst ` set d' \<longleftrightarrow> n \<in> fst ` set d"
  shows "sources d' = sources d"
proof (rule byte_order.strict_unique [OF filter_ReadDir(1) [OF assms(2)] filter_ReadDir(1) [OF assms(1)]])
  have "mset (filter (\<lambda>n. \<not> skipped n) (map fst d')) = mset (filter (\<lambda>n. \<not> skipped n) (map fst d))"
    using assms by (subst set_eq_iff_mset_eq_distinct [symmetric]) auto
  then show "mset (sources d') = mset (sources d)"
    by (simp only: filter_ReadDir(2) [OF assms(1)] filter_ReadDir(2) [OF assms(2)] mset_filter)
qed

text \<open>What the last loop writes.\<close>

fun written :: "'e go_tools \<Rightarrow> Message list \<Rightarrow> string \<Rightarrow> bytes option" where
  "written G [] = Map.empty"
| "written G (m # ms) = (case render G m of Inl err \<Rightarrow> Map.empty | Inr out \<Rightarrow> [genName m \<mapsto> out] ++ written G ms)"

lemma writeLoop_ok:
  "writeLoop G path ms d = (d', printed, None) \<Longrightarrow>
     map_of d' = map_of d ++ written G ms \<and> (distinct (map fst d) \<longrightarrow> distinct (map fst d')) \<and>
     (genName ` set ms \<subseteq> set (map fst d) \<longrightarrow> map fst d' = map fst d) \<and>
     set (map fst d') = set (map fst d) \<union> genName ` set ms \<and>
     (\<forall>e. \<exists>e'. writeLoop G path ms e = (e', printed, None))"
proof (induction ms arbitrary: d printed)
  case (Cons m ms)
  from Cons.prems obtain out p where r: "render G m = Inr out"
    "writeLoop G path ms (AList.update (genName m) out d) = (d', p, None)"
    "printed = ''wrote '' @ Join G path (genName m) @ nl @ p"
    by (auto split: sum.splits prod.splits)
  note IH = Cons.IH [OF r(2)]
  have "\<exists>e'. writeLoop G path (m # ms) e = (e', printed, None)" for e
    using IH [THEN conjunct2, THEN conjunct2, THEN conjunct2, THEN conjunct2, rule_format, of "AList.update (genName m) out e"]
    by (auto simp: r)
  moreover have "map_of d' = map_of d ++ written G (m # ms)"
    using IH by (auto simp: r(1) update_conv' fun_eq_iff map_add_def split: option.splits)
  ultimately show ?case
    using IH by (auto simp: update_keys distinct_update insert_absorb)
qed simp

lemma dir_ext: "map fst d = map fst d' \<Longrightarrow> distinct (map fst d) \<Longrightarrow> map_of d = map_of d' \<Longrightarrow> d = d'"
proof (induction d arbitrary: d')
  case (Cons x d)
  then obtain y e where d': "d' = y # e" by (cases d') auto
  have keys: "fst ` set d = fst ` set e" using Cons.prems(1) d' by (metis list.inject list.simps(9) set_map)
  have "map_of d = map_of e"
  proof
    fix k show "map_of d k = map_of e k"
      using fun_cong [OF Cons.prems(3), of k] Cons.prems(1,2) d' keys
      by (cases x; cases y; cases "k = fst x") (auto simp: map_of_eq_None_iff [THEN iffD2] split: if_splits)
  qed
  moreover have "x = y" using Cons.prems(3) d' Cons.prems(1) by (cases x; cases y) (auto dest: fun_cong [of _ _ "fst x"])
  ultimately show ?case using Cons d' by auto
qed simp

text \<open>Generating is idempotent: run on the directory it has written, the generator reads the same
  sources, prints the same lines and leaves every file as it is.\<close>

theorem processDir_again:
  assumes "processDir G path d = (d', printed, None)" and "distinct (map fst d)"
  shows "processDir G path d' = (d', printed, None)"
proof -
  obtain msgs where m: "entriesLoop G d (ReadDir d) [] = Inr msgs"
    using assms(1) by (auto simp: processDir_def split: sum.splits)
  define ms where "ms = sort_slice (\<lambda>a b. string_less (m_Name a) (m_Name b)) msgs"
  have w: "writeLoop G path ms d = (d', printed, None)"
    using assms(1) m by (simp add: processDir_def ms_def)
  note d' = writeLoop_ok [OF w]
  have dist: "distinct (map fst d')" using d' assms(2) by blast
  have none: "written G ms n = None" if "\<not> skipped n" for n
    using that genName_skipped by (induction ms) (auto split: sum.splits)
  have "sources d' = sources d"
  proof (rule sources_eq [OF assms(2) dist])
    fix n assume "\<not> skipped n"
    then have "n \<notin> genName ` set ms" using genName_skipped by blast
    with d' show "n \<in> fst ` set d' \<longleftrightarrow> n \<in> fst ` set d" by (metis Un_iff set_map)
  qed
  moreover have "entriesLoop G d' (sources d) [] = entriesLoop G d (sources d) []"
    using d' none by (intro entriesLoop_cong) (auto simp: sources_def map_add_def)
  ultimately have e: "entriesLoop G d' (ReadDir d') [] = Inr msgs"
    using m by (subst entriesLoop_sources, subst (asm) entriesLoop_sources) (simp add: sources_def)
  from d' obtain e' where w': "writeLoop G path ms d' = (e', printed, None)" by blast
  have "e' = d'"
  proof (rule dir_ext)
    have "genName ` set ms \<subseteq> set (map fst d')" using d' by blast
    then show "map fst e' = map fst d'" using writeLoop_ok [OF w'] by blast
    then show "distinct (map fst e')" using dist by simp
    have "map_of d ++ written G ms ++ written G ms = map_of d ++ written G ms"
      by (auto simp: map_add_def fun_eq_iff split: option.splits)
    then show "map_of e' = map_of d'" using d' writeLoop_ok [OF w'] by simp
  qed
  with e w' show ?thesis by (simp add: processDir_def ms_def)
qed

definition sample_dir :: dir where
  "sample_dir = [(''client_state.gno'', [1]), (''gnomod.toml'', [2])]"

definition sample_out :: dir where
  "sample_out = sample_dir @ [(''client_state_pb_gen.gno'', bytes_of_string (codecTmpl (sample_message\<lparr>m_Pkg := ''cometbls''\<rparr>)))]"

lemma sample_run:
  "processDir (sample_tools sample_file) ''p'' sample_dir =
     (sample_out, ''wrote p/client_state_pb_gen.gno'' @ nl, None)"
proof -
  have "snakeCase ''ClientState'' = ''client_state''"
    by (simp add: snakeCase_ascii Let_def, code_simp)
  then have g: "genName (sample_message\<lparr>m_Pkg := p\<rparr>) = ''client_state_pb_gen.gno''" for p
    by (simp add: genName_def sample_message_def)
  have r: "ReadDir sample_dir = [''client_state.gno'', ''gnomod.toml'']"
    by (simp add: ReadDir_def sample_dir_def) code_simp
  have s: "\<not> skipped ''client_state.gno''" "skipped ''gnomod.toml''"
    by code_simp+
  have p: "ParseFile (sample_tools sample_file) n [1] = Inr sample_file" for n
    by (simp add: sample_tools_def)
  have "entriesLoop (sample_tools sample_file) sample_dir [''client_state.gno'', ''gnomod.toml''] [] =
      Inr [sample_message\<lparr>m_Pkg := ''cometbls''\<rparr>]"
    by (simp add: s sample_dir_def p)
       (simp add: sample_file_def [THEN arg_cong [of _ _ file_Name]] sample_file_def [THEN arg_cong [of _ _ file_Decls]]
         commentMarker sample_parse s)
  then show ?thesis
    by (simp add: processDir_def r sort_slice_def g render_def sample_out_def)
       (simp add: sample_tools_def sample_dir_def g)
qed

theorem processDir_again_witness:
  "sample_out \<noteq> sample_dir \<and>
   processDir (sample_tools sample_file) ''p'' sample_out =
     (sample_out, ''wrote p/client_state_pb_gen.gno'' @ nl, None)"
  using processDir_again [OF sample_run] by (simp add: sample_dir_def sample_out_def)

end
