(* ===== verification/Uint256.thy ===== *)
theory Uint256
  imports Abi
begin

text \<open>
  The 256-bit unsigned integers of \<^verbatim>\<open>p/onbloc/math/uint256\<close>: four 64-bit limbs, least significant
  first, with the operations the ZKGM packages use. Every operation of the code writes its receiver and
  returns it; here it is the value written. The limbs read are read before they are written, so a receiver
  that is also an operand changes nothing. \<open>uval\<close> is the number that is meant, and each operation is
  shown to compute the one of the numbers, with the wrap-around or the flag the code gives.
\<close>

section \<open>The functions of math/bits\<close>

text \<open>Sum, difference and product of words with their carries; the standard library asks for a carry of 0 or 1.\<close>

definition Add64 :: "u64 \<Rightarrow> u64 \<Rightarrow> u64 \<Rightarrow> u64 \<times> u64" where
  "Add64 x y c = (x + y + c, if unat x + unat y + unat c < 2 ^ 64 then 0 else 1)"

definition Sub64 :: "u64 \<Rightarrow> u64 \<Rightarrow> u64 \<Rightarrow> u64 \<times> u64" where
  "Sub64 x y b = (x - y - b, if unat x < unat y + unat b then 1 else 0)"

definition Mul64 :: "u64 \<Rightarrow> u64 \<Rightarrow> u64 \<times> u64" where
  "Mul64 x y = (word_of_nat (unat x * unat y div 2 ^ 64), x * y)"

text \<open>\<^verbatim>\<open>Len64\<close> is the number of bits of a word, \<^verbatim>\<open>LeadingZeros64\<close> the zeros before them.\<close>

fun natBits :: "nat \<Rightarrow> nat" where
  "natBits n = (if n = 0 then 0 else Suc (natBits (n div 2)))"

declare natBits.simps [simp del]

definition Len64 :: "u64 \<Rightarrow> nat" where
  "Len64 x = natBits (unat x)"

definition LeadingZeros64 :: "u64 \<Rightarrow> nat" where
  "LeadingZeros64 x = 64 - Len64 x"

text \<open>Each as an equation of numbers. The radix of the limbs is kept folded in the proofs.\<close>

definition radix :: nat where "radix = 2 ^ 64"

lemma radix_pos [simp]: "0 < radix" "radix \<noteq> 0" "1 < radix" "Suc 0 \<le> radix"
  by (simp_all add: radix_def)

lemma unat_radix [simp]: "unat (x :: u64) < radix"
  using unsigned_less [of x] by (simp add: radix_def)

lemma unat_le_radix: "unat (x :: u64) \<le> radix - 1"
  using unat_radix [of x] by linarith

lemma unat_of_nat_radix: "unat (word_of_nat n :: u64) = n mod radix"
  by (simp add: unat_of_nat take_bit_eq_mod radix_def)

lemma word_of_nat_radix_eq: "n < radix \<Longrightarrow> unat (word_of_nat n :: u64) = n"
  by (simp add: unat_of_nat_radix)

lemma Add64_value:
  assumes "Add64 x y c = (s, c')" "unat c \<le> 1"
  shows "unat s + radix * unat c' = unat x + unat y + unat c" and "unat c' \<le> 1"
proof -
  have less: "unat x + unat y + unat c < 2 * radix"
    using unat_radix [of x] unat_radix [of y] assms(2) unfolding radix_def by linarith
  have s: "unat s = (unat x + unat y + unat c) mod radix"
    using assms(1) by (auto simp: Add64_def unat_word_ariths radix_def mod_simps)
  show "unat s + radix * unat c' = unat x + unat y + unat c"
  proof (cases "unat x + unat y + unat c < radix")
    case True
    with s assms(1) show ?thesis by (auto simp: Add64_def radix_def)
  next
    case False
    with less have "(unat x + unat y + unat c) mod radix = unat x + unat y + unat c - radix"
      by (simp add: le_mod_geq)
    with False s assms(1) show ?thesis by (auto simp: Add64_def radix_def)
  qed
  show "unat c' \<le> 1"
    using assms(1) by (auto simp: Add64_def split: if_splits)
qed

lemma Sub64_value:
  assumes "Sub64 x y b = (d, b')" "unat b \<le> 1 \<or> unat y + unat b \<le> radix"
  shows "unat d + unat y + unat b = unat x + radix * unat b'" and "unat b' \<le> 1"
proof -
  have b: "unat y + unat b \<le> radix"
    using assms(2) unat_radix [of y] by linarith
  have "d + y + b = x"
    using assms(1) by (auto simp: Sub64_def)
  then have x: "unat x = (unat d + unat y + unat b) mod radix"
    by (auto simp: unat_word_ariths radix_def mod_simps)
  have less: "unat d + unat y + unat b < 2 * radix"
    using b unat_radix [of d] by linarith
  show "unat d + unat y + unat b = unat x + radix * unat b'"
  proof (cases "unat d + unat y + unat b < radix")
    case True
    with x have "unat x = unat d + unat y + unat b" by simp
    with assms(1) show ?thesis by (auto simp: Sub64_def)
  next
    case False
    with less have "(unat d + unat y + unat b) mod radix = unat d + unat y + unat b - radix"
      by (simp add: le_mod_geq)
    with x False have eq: "unat x + radix = unat d + unat y + unat b" by linarith
    then have "unat x < unat y + unat b"
      using unat_radix [of d] by linarith
    with assms(1) eq show ?thesis by (auto simp: Sub64_def)
  qed
  show "unat b' \<le> 1"
    using assms(1) by (auto simp: Sub64_def split: if_splits)
qed

lemma Mul64_value:
  assumes "Mul64 x y = (hi, lo)"
  shows "radix * unat hi + unat lo = unat x * unat y"
proof -
  have "unat x * unat y < radix * radix"
    by (rule mult_strict_mono) simp_all
  then have "unat x * unat y div radix < radix"
    by (simp add: less_mult_imp_div_less)
  then have "unat hi = unat x * unat y div radix"
    using assms unfolding Mul64_def radix_def [symmetric] by (auto simp: word_of_nat_radix_eq)
  moreover have "unat lo = unat x * unat y mod radix"
    using assms by (auto simp: Mul64_def unat_word_ariths radix_def)
  ultimately show ?thesis by (simp add: mult_div_mod_eq)
qed


section \<open>Values (uint256.gno, conversion.gno)\<close>

fun lval :: "u64 list \<Rightarrow> nat" where
  "lval [] = 0"
| "lval (x # xs) = unat x + radix * lval xs"

fun limbs :: "uint256 \<Rightarrow> u64 list" where
  "limbs (Uint x0 x1 x2 x3) = [x0, x1, x2, x3]"

definition uval :: "uint256 \<Rightarrow> nat" where
  "uval x = lval (limbs x)"

lemma length_limbs [simp]: "length (limbs x) = 4"
  by (cases x) simp

lemma lval_less: "lval xs < radix ^ length xs"
proof (induction xs)
  case Nil
  then show ?case by simp
next
  case (Cons x xs)
  have "unat x + radix * lval xs < radix + radix * lval xs" by simp
  also have "\<dots> = radix * (lval xs + 1)" by simp
  also have "\<dots> \<le> radix * radix ^ length xs"
    using Cons by (intro mult_le_mono2) linarith
  finally show ?case by simp
qed

lemma lval_append: "lval (xs @ ys) = lval xs + radix ^ length xs * lval ys"
  by (induction xs) (simp_all add: algebra_simps)

lemma lval_replicate_0 [simp]: "lval (replicate n 0) = 0"
  by (induction n) simp_all

lemma digit_eq_iff:
  fixes a b c d :: nat
  assumes "a < radix" "b < radix"
  shows "a + radix * c = b + radix * d \<longleftrightarrow> a = b \<and> c = d"
proof
  assume eq: "a + radix * c = b + radix * d"
  then have "(a + radix * c) mod radix = (b + radix * d) mod radix"
    and "(a + radix * c) div radix = (b + radix * d) div radix" by simp_all
  then show "a = b \<and> c = d" using assms by simp
qed simp

lemma lval_inject: "length xs = length ys \<Longrightarrow> lval xs = lval ys \<longleftrightarrow> xs = ys"
  by (induction xs ys rule: list_induct2) (auto simp: digit_eq_iff word_unat_eq_iff)

lemma digit_less_radix: "a + radix * n < radix \<longleftrightarrow> n = 0 \<and> a < radix"
  by (cases n) auto

lemma limbs_inject: "limbs x = limbs y \<longleftrightarrow> x = y"
  by (cases x; cases y) simp

lemma uval_inject [simp]: "uval x = uval y \<longleftrightarrow> x = y"
  by (simp add: uval_def lval_inject limbs_inject)

lemma uval_Uint:
  "uval (Uint x0 x1 x2 x3) = unat x0 + radix * (unat x1 + radix * (unat x2 + radix * unat x3))"
  by (simp add: uval_def)

lemma uval_less: "uval x < 2 ^ 256"
proof -
  have "(2 :: nat) ^ 256 = radix ^ 4" by (simp add: radix_def)
  then show ?thesis using lval_less [of "limbs x"] by (simp add: uval_def)
qed

definition NewUint :: "u64 \<Rightarrow> uint256" where "NewUint v = Uint v 0 0 0"
definition Uint_Zero :: uint256 where "Uint_Zero = Uint 0 0 0 0"
definition Uint_One :: uint256 where "Uint_One = Uint 1 0 0 0"
definition SetAllOne :: uint256 where
  "SetAllOne = Uint (- 1) (- 1) (- 1) (- 1)"

fun Uint_Uint64 :: "uint256 \<Rightarrow> u64" where "Uint_Uint64 (Uint x0 _ _ _) = x0"

fun Uint64WithOverflow :: "uint256 \<Rightarrow> u64 \<times> bool" where
  "Uint64WithOverflow (Uint x0 x1 x2 x3) = (x0, (x1 OR x2 OR x3) \<noteq> 0)"

fun IsUint64 :: "uint256 \<Rightarrow> bool" where
  "IsUint64 (Uint x0 x1 x2 x3) = ((x1 OR x2 OR x3) = 0)"

fun Uint_IsZero :: "uint256 \<Rightarrow> bool" where
  "Uint_IsZero (Uint x0 x1 x2 x3) = ((x0 OR x1 OR x2 OR x3) = 0)"

fun BitLen :: "uint256 \<Rightarrow> nat" where
  "BitLen (Uint x0 x1 x2 x3) =
     (if x3 \<noteq> 0 then 192 + Len64 x3
      else if x2 \<noteq> 0 then 128 + Len64 x2
      else if x1 \<noteq> 0 then 64 + Len64 x1
      else Len64 x0)"

text \<open>The value of a number below \<open>2 ^ 256\<close>.\<close>

definition uint_of :: "nat \<Rightarrow> uint256" where
  "uint_of n = Uint (word_of_nat n) (word_of_nat (n div radix)) (word_of_nat (n div radix div radix))
     (word_of_nat (n div radix div radix div radix))"

lemma uval_uint_of: "n < 2 ^ 256 \<Longrightarrow> uval (uint_of n) = n"
proof -
  assume "n < 2 ^ 256"
  then have "n div radix div radix div radix < radix"
    by (simp add: radix_def less_mult_imp_div_less flip: div_mult2_eq)
  then show ?thesis
    by (simp add: uint_of_def uval_Uint unat_of_nat_radix mod_mult_div_eq)
qed

lemma uint_of_uval [simp]: "uint_of (uval x) = x"
  by (metis uval_inject uval_less uval_uint_of)

lemma uint_of_eqI: "uval x = n \<Longrightarrow> x = uint_of n"
  by auto

lemma uval_NewUint [simp]: "uval (NewUint v) = unat v"
  by (simp add: NewUint_def uval_Uint)

lemma uval_Zero [simp]: "uval Uint_Zero = 0"
  by (simp add: Uint_Zero_def uval_Uint)

lemma uval_One [simp]: "uval Uint_One = 1"
  by (simp add: Uint_One_def uval_Uint)

lemma uval_SetAllOne: "uval SetAllOne = 2 ^ 256 - 1"
  by (simp add: SetAllOne_def uval_Uint radix_def unsigned_minus_1_eq_mask mask_eq_exp_minus_1)

lemma uint_of_0 [simp]: "uint_of 0 = Uint_Zero" and uint_of_1 [simp]: "uint_of (Suc 0) = Uint_One"
  by (simp_all add: uint_of_def Uint_Zero_def Uint_One_def radix_def)

lemma IsZero_uval: "Uint_IsZero x \<longleftrightarrow> uval x = 0"
  by (cases x) (simp add: uval_Uint unat_eq_0 or_eq_0_iff)

lemma IsUint64_uval: "IsUint64 x \<longleftrightarrow> uval x < radix"
  by (cases x) (auto simp: uval_Uint unat_eq_0 or_eq_0_iff digit_less_radix)

lemma IsUint64_value: "IsUint64 x \<Longrightarrow> uval x = unat (Uint_Uint64 x)"
  by (cases x) (auto simp: uval_Uint unat_eq_0 or_eq_0_iff)

lemma Uint64_value: "unat (Uint_Uint64 x) = uval x mod radix"
  by (cases x) (simp add: uval_Uint)

lemma Uint64WithOverflow_eq: "Uint64WithOverflow x = (Uint_Uint64 x, \<not> IsUint64 x)"
  by (cases x) simp


section \<open>Sums, differences, comparisons (arithmetic.gno, cmp.gno)\<close>

fun AddOverflow :: "uint256 \<Rightarrow> uint256 \<Rightarrow> uint256 \<times> bool" where
  "AddOverflow (Uint x0 x1 x2 x3) (Uint y0 y1 y2 y3) =
     (let (z0, carry) = Add64 x0 y0 0;
          (z1, carry) = Add64 x1 y1 carry;
          (z2, carry) = Add64 x2 y2 carry;
          (z3, carry) = Add64 x3 y3 carry
      in (Uint z0 z1 z2 z3, carry \<noteq> 0))"

fun Uint_Add :: "uint256 \<Rightarrow> uint256 \<Rightarrow> uint256" where
  "Uint_Add (Uint x0 x1 x2 x3) (Uint y0 y1 y2 y3) =
     (let (z0, carry) = Add64 x0 y0 0;
          (z1, carry) = Add64 x1 y1 carry;
          (z2, carry) = Add64 x2 y2 carry;
          (z3, _) = Add64 x3 y3 carry
      in Uint z0 z1 z2 z3)"

fun SubOverflow :: "uint256 \<Rightarrow> uint256 \<Rightarrow> uint256 \<times> bool" where
  "SubOverflow (Uint x0 x1 x2 x3) (Uint y0 y1 y2 y3) =
     (let (z0, carry) = Sub64 x0 y0 0;
          (z1, carry) = Sub64 x1 y1 carry;
          (z2, carry) = Sub64 x2 y2 carry;
          (z3, carry) = Sub64 x3 y3 carry
      in (Uint z0 z1 z2 z3, carry \<noteq> 0))"

fun Uint_Sub :: "uint256 \<Rightarrow> uint256 \<Rightarrow> uint256" where
  "Uint_Sub (Uint x0 x1 x2 x3) (Uint y0 y1 y2 y3) =
     (let (z0, carry) = Sub64 x0 y0 0;
          (z1, carry) = Sub64 x1 y1 carry;
          (z2, carry) = Sub64 x2 y2 carry;
          (z3, _) = Sub64 x3 y3 carry
      in Uint z0 z1 z2 z3)"

definition Uint_Neg :: "uint256 \<Rightarrow> uint256" where
  "Uint_Neg x = Uint_Sub Uint_Zero x"

fun Uint_Cmp :: "uint256 \<Rightarrow> uint256 \<Rightarrow> int" where
  "Uint_Cmp (Uint z0 z1 z2 z3) (Uint x0 x1 x2 x3) =
     (let (d0, carry) = Sub64 z0 x0 0;
          (d1, carry) = Sub64 z1 x1 carry;
          (d2, carry) = Sub64 z2 x2 carry;
          (d3, carry) = Sub64 z3 x3 carry
      in if carry = 1 then - 1
         else if (d0 OR d1 OR d2 OR d3) = 0 then 0
         else 1)"

fun Uint_Lt :: "uint256 \<Rightarrow> uint256 \<Rightarrow> bool" where
  "Uint_Lt (Uint z0 z1 z2 z3) (Uint x0 x1 x2 x3) =
     (let (_, carry) = Sub64 z0 x0 0;
          (_, carry) = Sub64 z1 x1 carry;
          (_, carry) = Sub64 z2 x2 carry;
          (_, carry) = Sub64 z3 x3 carry
      in carry \<noteq> 0)"

definition Uint_Gt :: "uint256 \<Rightarrow> uint256 \<Rightarrow> bool" where "Uint_Gt z x = Uint_Lt x z"
definition Uint_Lte :: "uint256 \<Rightarrow> uint256 \<Rightarrow> bool" where "Uint_Lte z x = (\<not> Uint_Lt x z)"
definition Uint_Gte :: "uint256 \<Rightarrow> uint256 \<Rightarrow> bool" where "Uint_Gte z x = (\<not> Uint_Lt z x)"

fun Uint_Eq :: "uint256 \<Rightarrow> uint256 \<Rightarrow> bool" where
  "Uint_Eq (Uint z0 z1 z2 z3) (Uint x0 x1 x2 x3) =
     (z0 = x0 \<and> z1 = x1 \<and> z2 = x2 \<and> z3 = x3)"

definition Uint_Neq :: "uint256 \<Rightarrow> uint256 \<Rightarrow> bool" where "Uint_Neq z x = (\<not> Uint_Eq z x)"

lemma unat_0_le: "unat (0 :: u64) \<le> 1"
  by simp

lemma unat_flag: "unat (c :: u64) \<le> 1 \<Longrightarrow> unat c = of_bool (c \<noteq> 0)"
  using unat_gt_0 [of c] by (cases "c = 0") simp_all

text \<open>The carry of a chain is the flag of the whole: one number and a flag determine the limbs and the carry.\<close>

lemma carry_chain:
  fixes s0 s1 s2 s3 t0 t1 t2 t3 :: nat
  assumes "s0 + radix * c1 = t0 + c0" "s1 + radix * c2 = t1 + c1"
    "s2 + radix * c3 = t2 + c2" "s3 + radix * c4 = t3 + c3"
  shows "(s0 + radix * (s1 + radix * (s2 + radix * s3))) + 2 ^ 256 * c4
         = t0 + radix * (t1 + radix * (t2 + radix * t3)) + c0"
  using assms unfolding radix_def by simp

lemma borrow_chain:
  fixes d0 d1 d2 d3 :: nat
  assumes "d0 + y0 + b0 = x0 + radix * b1" "d1 + y1 + b1 = x1 + radix * b2"
    "d2 + y2 + b2 = x2 + radix * b3" "d3 + y3 + b3 = x3 + radix * b4"
  shows "(d0 + radix * (d1 + radix * (d2 + radix * d3))) + (y0 + radix * (y1 + radix * (y2 + radix * y3))) + b0
         = (x0 + radix * (x1 + radix * (x2 + radix * x3))) + 2 ^ 256 * b4"
  using assms unfolding radix_def by simp

lemma AddOverflow_value:
  assumes "AddOverflow x y = (z, f)"
  shows "uval z + 2 ^ 256 * of_bool f = uval x + uval y"
proof -
  obtain x0 x1 x2 x3 y0 y1 y2 y3 where x: "x = Uint x0 x1 x2 x3" and y: "y = Uint y0 y1 y2 y3"
    by (cases x; cases y) blast
  obtain z0 c1 where s0: "Add64 x0 y0 0 = (z0, c1)" by fastforce
  obtain z1 c2 where s1: "Add64 x1 y1 c1 = (z1, c2)" by fastforce
  obtain z2 c3 where s2: "Add64 x2 y2 c2 = (z2, c3)" by fastforce
  obtain z3 c4 where s3: "Add64 x3 y3 c3 = (z3, c4)" by fastforce
  note v0 = Add64_value [OF s0 unat_0_le]
  note v1 = Add64_value [OF s1 v0(2)]
  note v2 = Add64_value [OF s2 v1(2)]
  note v3 = Add64_value [OF s3 v2(2)]
  have "z = Uint z0 z1 z2 z3" "f = (c4 \<noteq> 0)"
    using assms by (simp_all add: x y s0 s1 s2 s3)
  moreover have "unat c4 = of_bool (c4 \<noteq> 0)"
    using v3(2) by (rule unat_flag)
  ultimately show ?thesis
    using carry_chain [OF v0(1) v1(1) v2(1) v3(1)] by (simp add: x y uval_Uint algebra_simps)
qed

lemma SubOverflow_value:
  assumes "SubOverflow x y = (z, f)"
  shows "uval z + uval y = uval x + 2 ^ 256 * of_bool f"
proof -
  obtain x0 x1 x2 x3 y0 y1 y2 y3 where x: "x = Uint x0 x1 x2 x3" and y: "y = Uint y0 y1 y2 y3"
    by (cases x; cases y) blast
  obtain z0 c1 where s0: "Sub64 x0 y0 0 = (z0, c1)" by fastforce
  obtain z1 c2 where s1: "Sub64 x1 y1 c1 = (z1, c2)" by fastforce
  obtain z2 c3 where s2: "Sub64 x2 y2 c2 = (z2, c3)" by fastforce
  obtain z3 c4 where s3: "Sub64 x3 y3 c3 = (z3, c4)" by fastforce
  note v0 = Sub64_value [OF s0 disjI1 [OF unat_0_le]]
  note v1 = Sub64_value [OF s1 disjI1 [OF v0(2)]]
  note v2 = Sub64_value [OF s2 disjI1 [OF v1(2)]]
  note v3 = Sub64_value [OF s3 disjI1 [OF v2(2)]]
  have "z = Uint z0 z1 z2 z3" "f = (c4 \<noteq> 0)"
    using assms by (simp_all add: x y s0 s1 s2 s3)
  moreover have "unat c4 = of_bool (c4 \<noteq> 0)"
    using v3(2) by (rule unat_flag)
  ultimately show ?thesis
    using borrow_chain [OF v0(1) v1(1) v2(1) v3(1)] by (simp add: x y uval_Uint algebra_simps)
qed

text \<open>The operations without a flag and the comparisons, from the two with one.\<close>

lemma Add_AddOverflow: "Uint_Add x y = fst (AddOverflow x y)"
  by (cases x; cases y) (simp split: prod.splits)

lemma Sub_SubOverflow: "Uint_Sub x y = fst (SubOverflow x y)"
  by (cases x; cases y) (simp split: prod.splits)

lemma Lt_SubOverflow: "Uint_Lt x y = snd (SubOverflow x y)"
  by (cases x; cases y) (simp split: prod.splits)

lemma AddOverflow_eq:
  "snd (AddOverflow x y) \<longleftrightarrow> 2 ^ 256 \<le> uval x + uval y"
  "uval (fst (AddOverflow x y)) = (uval x + uval y) mod 2 ^ 256"
proof -
  obtain z c where zc: "AddOverflow x y = (z, c)" by fastforce
  note v = AddOverflow_value [OF zc]
  show "snd (AddOverflow x y) \<longleftrightarrow> 2 ^ 256 \<le> uval x + uval y"
    using v uval_less [of z] by (cases c) (simp_all add: zc)
  have "(uval x + uval y) mod 2 ^ 256 = (uval z + 2 ^ 256 * of_bool c) mod 2 ^ 256"
    using v by simp
  then show "uval (fst (AddOverflow x y)) = (uval x + uval y) mod 2 ^ 256"
    using uval_less [of z] by (simp add: zc)
qed

lemma SubOverflow_eq:
  "snd (SubOverflow x y) \<longleftrightarrow> uval x < uval y"
  "uval (fst (SubOverflow x y)) = (2 ^ 256 + uval x - uval y) mod 2 ^ 256"
proof -
  obtain z c where zc: "SubOverflow x y = (z, c)" by fastforce
  note v = SubOverflow_value [OF zc]
  note less = uval_less [of x] uval_less [of y] uval_less [of z]
  show "snd (SubOverflow x y) \<longleftrightarrow> uval x < uval y"
    using v less by (cases c) (simp_all add: zc)
  show "uval (fst (SubOverflow x y)) = (2 ^ 256 + uval x - uval y) mod 2 ^ 256"
  proof (cases c)
    case True
    with v less have "2 ^ 256 + uval x - uval y = uval z" by simp
    then show ?thesis using less by (simp add: zc)
  next
    case False
    with v have "2 ^ 256 + uval x - uval y = uval z + 2 ^ 256" by simp
    then show ?thesis using less by (simp only: zc fst_conv mod_add_self2 mod_less)
  qed
qed

lemma Add_uval: "uval (Uint_Add x y) = (uval x + uval y) mod 2 ^ 256"
  by (simp only: Add_AddOverflow AddOverflow_eq)

lemma Sub_uval: "uval (Uint_Sub x y) = (2 ^ 256 + uval x - uval y) mod 2 ^ 256"
  by (simp only: Sub_SubOverflow SubOverflow_eq)

lemma Sub_uval_le: "uval y \<le> uval x \<Longrightarrow> uval (Uint_Sub x y) = uval x - uval y"
proof -
  assume le: "uval y \<le> uval x"
  then have "2 ^ 256 + uval x - uval y = (uval x - uval y) + 2 ^ 256" by linarith
  then show ?thesis
    using uval_less [of x] by (simp only: Sub_uval mod_add_self2 less_imp_diff_less mod_less)
qed

lemma Lt_uval: "Uint_Lt x y \<longleftrightarrow> uval x < uval y"
  by (simp only: Lt_SubOverflow SubOverflow_eq)

lemma Eq_uval: "Uint_Eq x y \<longleftrightarrow> uval x = uval y"
  by (cases x; cases y) auto

lemma Uint_Eq_eq: "Uint_Eq x y \<longleftrightarrow> x = y"
  by (cases x; cases y) auto

lemma cmp_uval:
  "Uint_Gt x y \<longleftrightarrow> uval y < uval x" "Uint_Lte x y \<longleftrightarrow> uval x \<le> uval y" "Uint_Gte x y \<longleftrightarrow> uval y \<le> uval x"
  by (auto simp: Uint_Gt_def Uint_Lte_def Uint_Gte_def Lt_uval)

lemma Cmp_SubOverflow:
  "Uint_Cmp x y = (if snd (SubOverflow x y) then - 1 else if Uint_IsZero (fst (SubOverflow x y)) then 0 else 1)"
proof -
  have "b = 1 \<longleftrightarrow> b \<noteq> 0" if "Sub64 u v w = (d, b)" for u v w d b
    using that by (auto simp: Sub64_def split: if_splits)
  then show ?thesis
    by (cases x; cases y) (auto split: prod.splits)
qed

lemma Cmp_uval:
  "Uint_Cmp x y = (if uval x < uval y then - 1 else if uval x = uval y then 0 else 1)"
proof -
  have "uval (fst (SubOverflow x y)) = uval x - uval y" if "\<not> uval x < uval y"
    using that by (simp only: Sub_SubOverflow [symmetric] Sub_uval_le not_less)
  then show ?thesis
    by (simp add: Cmp_SubOverflow SubOverflow_eq(1) IsZero_uval)
qed


section \<open>Products (arithmetic.gno)\<close>

definition umulHop :: "u64 \<Rightarrow> u64 \<Rightarrow> u64 \<Rightarrow> u64 \<times> u64" where
  "umulHop z x y =
     (let (hi, lo) = Mul64 x y; (lo, carry) = Add64 lo z 0 in (hi + carry, lo))"

definition umulStep :: "u64 \<Rightarrow> u64 \<Rightarrow> u64 \<Rightarrow> u64 \<Rightarrow> u64 \<times> u64" where
  "umulStep z x y carry =
     (let (hi, lo) = Mul64 x y;
          (lo, carry) = Add64 lo carry 0; hi = hi + carry;
          (lo, carry) = Add64 lo z 0; hi = hi + carry
      in (hi, lo))"

fun Uint_Mul :: "uint256 \<Rightarrow> uint256 \<Rightarrow> uint256" where
  "Uint_Mul (Uint x0 x1 x2 x3) (Uint y0 y1 y2 y3) =
     (let (carry, r0) = Mul64 x0 y0;
          (carry, res1) = umulHop carry x1 y0;
          (carry, res2) = umulHop carry x2 y0;
          res3 = x3 * y0 + carry;
          (carry, r1) = umulHop res1 x0 y1;
          (carry, res2) = umulStep res2 x1 y1 carry;
          res3 = res3 + x2 * y1 + carry;
          (carry, r2) = umulHop res2 x0 y2;
          res3 = res3 + x1 * y2 + carry
      in Uint r0 r1 r2 (res3 + x0 * y3))"

text \<open>The words below the leading zero words: \<open>wordLen\<close> is the search from the top the code writes as a loop.\<close>

definition wordLen :: "u64 list \<Rightarrow> nat" where
  "wordLen xs = length (dropWhile (\<lambda>w. w = 0) (rev xs))"

definition highestNonZeroWord :: "uint256 \<Rightarrow> int" where
  "highestNonZeroWord u = int (wordLen (limbs u)) - 1"

text \<open>The two loops of \<^verbatim>\<open>umul\<close>; \<open>k\<close> is the word of the result a row is at, \<open>i\<close> the row.\<close>

fun umulRow :: "u64 \<Rightarrow> u64 list \<Rightarrow> nat \<Rightarrow> u64 list \<Rightarrow> u64 \<Rightarrow> u64 list \<times> u64" where
  "umulRow xi [] k res carry = (res, carry)"
| "umulRow xi (y # ys) k res carry =
     (let (hi, lo) = Mul64 xi y;
          (lo, c) = Add64 lo (res ! k) 0; hi = hi + c;
          (lo, c) = Add64 lo carry 0; hi = hi + c
      in umulRow xi ys (Suc k) (res[k := lo]) hi)"

fun umulRows :: "u64 list \<Rightarrow> u64 list \<Rightarrow> nat \<Rightarrow> u64 list \<Rightarrow> u64 list" where
  "umulRows [] ys i res = res"
| "umulRows (xi # xs) ys i res =
     umulRows xs ys (Suc i)
       (if xi = 0 then res
        else let (res, carry) = umulRow xi ys i res 0 in res[i + length ys := carry])"

definition umul :: "uint256 \<Rightarrow> uint256 \<Rightarrow> u64 list" where
  "umul x y =
     (let res = replicate 8 0; topX = highestNonZeroWord x; topY = highestNonZeroWord y
      in if topX < 0 \<or> topY < 0 then res
         else umulRows (take (nat (topX + 1)) (limbs x)) (take (nat (topY + 1)) (limbs y)) 0 res)"

definition MulOverflow :: "uint256 \<Rightarrow> uint256 \<Rightarrow> uint256 \<times> bool" where
  "MulOverflow x y =
     (let p = umul x y
      in (Uint (p ! 0) (p ! 1) (p ! 2) (p ! 3), (p ! 4 OR p ! 5 OR p ! 6 OR p ! 7) \<noteq> 0))"

text \<open>A product of words with two words added fits in two words.\<close>

lemma mul_room: "a < radix \<Longrightarrow> b < radix \<Longrightarrow> c < radix \<Longrightarrow> d < radix \<Longrightarrow> a * b + c + d < radix * radix"
proof -
  assume "a < radix" "b < radix" "c < radix" "d < radix"
  then have "a * b \<le> (radix - 1) * (radix - 1)" "c \<le> radix - 1" "d \<le> radix - 1"
    by (auto intro: mult_le_mono)
  moreover have "(radix - 1) * (radix - 1) + (radix - 1) + (radix - 1) < radix * radix"
    by (simp add: radix_def)
  ultimately show ?thesis by linarith
qed

lemma word_add_exact: "unat a + unat b < radix \<Longrightarrow> unat (a + b :: u64) = unat a + unat b"
  by (simp add: unat_word_ariths radix_def)

lemma umulStep_value:
  assumes "umulStep z x y c = (hi, lo)"
  shows "radix * unat hi + unat lo = unat z + unat x * unat y + unat c"
proof -
  obtain h l where m: "Mul64 x y = (h, l)" by fastforce
  obtain l1 c1 where a: "Add64 l c 0 = (l1, c1)" by fastforce
  obtain l2 c2 where b: "Add64 l1 z 0 = (l2, c2)" by fastforce
  have "hi = h + c1 + c2" "lo = l2"
    using assms by (simp_all add: umulStep_def m a b)
  note va = Add64_value [OF a unat_0_le] and vb = Add64_value [OF b unat_0_le]
  have total: "radix * (unat h + unat c1 + unat c2) + unat l2 = unat x * unat y + unat c + unat z"
    using Mul64_value [OF m] va(1) vb(1) by (simp add: algebra_simps)
  also have "\<dots> < radix * radix"
    by (rule mul_room) simp_all
  finally have "radix * (unat h + unat c1 + unat c2) < radix * radix" by linarith
  then have "unat h + unat c1 + unat c2 < radix" by simp
  moreover from this have "unat (h + c1) = unat h + unat c1"
    by (intro word_add_exact) linarith
  ultimately have "unat hi = unat h + unat c1 + unat c2"
    unfolding \<open>hi = h + c1 + c2\<close> by (metis word_add_exact)
  with total show ?thesis by (simp add: \<open>lo = l2\<close>)
qed

lemma umulHop_value:
  assumes "umulHop z x y = (hi, lo)"
  shows "radix * unat hi + unat lo = unat z + unat x * unat y"
proof -
  have "Add64 l 0 0 = (l, 0)" for l
    using unat_radix [of l] by (simp add: Add64_def radix_def)
  then have "umulStep z x y 0 = (hi, lo)"
    using assms by (auto simp: umulStep_def umulHop_def split: prod.splits)
  from umulStep_value [OF this] show ?thesis by simp
qed

lemma lval_update:
  "k < length xs \<Longrightarrow> lval (xs[k := v]) + radix ^ k * unat (xs ! k) = lval xs + radix ^ k * unat v"
proof (induction xs arbitrary: k)
  case (Cons x xs)
  show ?case
  proof (cases k)
    case (Suc j)
    with Cons.prems have "j < length xs" by simp
    then have "radix * (lval (xs[j := v]) + radix ^ j * unat (xs ! j)) = radix * (lval xs + radix ^ j * unat v)"
      by (simp add: Cons.IH)
    then show ?thesis by (simp add: Suc algebra_simps)
  qed simp
qed simp

lemma umulRow_step:
  assumes "umulStep c xi y (res ! k) = (hi, lo)"
  shows "umulRow xi (y # ys) k res c = umulRow xi ys (Suc k) (res[k := lo]) hi"
  using assms by (auto simp: umulStep_def Let_def split: prod.splits)

lemma umulRow_value:
  assumes "umulRow xi ys k res c = (res', c')" "k + length ys \<le> length res"
  shows "lval res' + radix ^ (k + length ys) * unat c' = lval res + radix ^ k * (unat xi * lval ys + unat c)
    \<and> length res' = length res \<and> drop (k + length ys) res' = drop (k + length ys) res"
  using assms
proof (induction ys arbitrary: k res c)
  case (Cons y ys)
  obtain hi lo where step: "umulStep c xi y (res ! k) = (hi, lo)" by fastforce
  have k: "k < length res" and "Suc k + length ys \<le> length (res[k := lo])"
    using Cons.prems(2) by simp_all
  with Cons.IH Cons.prems(1)
  have ih: "lval res' + radix ^ (Suc k + length ys) * unat c'
      = lval (res[k := lo]) + radix ^ Suc k * (unat xi * lval ys + unat hi)"
    and rest: "length res' = length res" "drop (Suc k + length ys) res' = drop (Suc k + length ys) (res[k := lo])"
    by (simp_all only: umulRow_step [OF step] length_list_update)
  have "radix ^ k * (unat lo + radix * unat hi) = radix ^ k * (unat c + unat xi * unat y + unat (res ! k))"
    using umulStep_value [OF step] by (simp add: algebra_simps)
  with ih lval_update [OF k, of lo] rest show ?case
    by (simp add: algebra_simps)
qed simp

lemma umulRows_value:
  assumes "i + length xs + length ys \<le> length res" "lval (drop (i + length ys) res) = 0"
  shows "lval (umulRows xs ys i res) = lval res + radix ^ i * (lval xs * lval ys)
    \<and> length (umulRows xs ys i res) = length res"
  using assms
proof (induction xs arbitrary: i res)
  case (Cons x xs)
  obtain row c where row: "umulRow x ys i res 0 = (row, c)" by fastforce
  define nxt where "nxt = (if x = 0 then res else row[i + length ys := c])"
  have pos: "i + length ys < length res" using Cons.prems(1) by simp
  note r = umulRow_value [OF row, simplified]
  have zero: "lval (drop (Suc i + length ys) zs) = 0 \<and> zs ! (i + length ys) = 0"
    if "drop (i + length ys) zs = drop (i + length ys) res" "length zs = length res" for zs
  proof -
    have "drop (i + length ys) zs = zs ! (i + length ys) # drop (Suc (i + length ys)) zs"
      using pos that(2) by (simp add: Cons_nth_drop_Suc)
    with that(1) have "drop (i + length ys) res = zs ! (i + length ys) # drop (Suc (i + length ys)) zs"
      by simp
    with Cons.prems(2) show ?thesis by (simp only: lval.simps) (simp add: unat_eq_0)
  qed
  have "lval nxt = lval res + radix ^ i * (unat x * lval ys) \<and> length nxt = length res
    \<and> lval (drop (Suc i + length ys) nxt) = 0"
  proof (cases "x = 0")
    case True
    then show ?thesis using zero [of res] by (simp add: nxt_def)
  next
    case False
    have len: "length row = length res" and "drop (i + length ys) row = drop (i + length ys) res"
      and v: "lval row + radix ^ (i + length ys) * unat c = lval res + radix ^ i * (unat x * lval ys)"
      using r pos by simp_all
    with zero have "lval (drop (Suc i + length ys) row) = 0" "row ! (i + length ys) = 0" by blast+
    with v lval_update [of "i + length ys" row c] pos len False show ?thesis
      by (simp add: nxt_def)
  qed
  moreover have "umulRows (x # xs) ys i res = umulRows xs ys (Suc i) nxt"
    by (simp add: nxt_def row)
  ultimately show ?case
    using Cons.IH [of "Suc i" nxt] Cons.prems(1) by (simp add: algebra_simps)
qed simp

lemma wordLen_split: "xs = take (wordLen xs) xs @ replicate (length xs - wordLen xs) 0"
proof -
  have "xs = rev (dropWhile (\<lambda>w. w = 0) (rev xs)) @ rev (takeWhile (\<lambda>w. w = 0) (rev xs))"
    by (metis rev_append rev_rev_ident takeWhile_dropWhile_id)
  moreover have "rev (takeWhile (\<lambda>w. w = 0) (rev xs)) = replicate (length xs - wordLen xs) 0"
  proof -
    have "length (takeWhile (\<lambda>w. w = 0) (rev xs)) + wordLen xs = length xs"
      unfolding wordLen_def by (metis length_append length_rev takeWhile_dropWhile_id)
    moreover have "takeWhile (\<lambda>w. w = 0) (rev xs) = replicate (length (takeWhile (\<lambda>w. w = 0) (rev xs))) 0"
      by (rule replicate_eqI) (auto dest: set_takeWhileD)
    ultimately show ?thesis
      by (metis add_diff_cancel_right' rev_replicate)
  qed
  ultimately show ?thesis
    by (metis append_eq_conv_conj length_rev wordLen_def)
qed

lemma lval_take_wordLen: "lval (take (wordLen xs) xs) = lval xs"
  by (subst (3) wordLen_split) (simp only: lval_append lval_replicate_0 mult_0_right add_0_right)

lemma wordLen_le: "wordLen xs \<le> length xs"
  unfolding wordLen_def by (metis length_dropWhile_le length_rev)

lemma wordLen_0_iff: "wordLen xs = 0 \<longleftrightarrow> lval xs = 0"
proof -
  have "lval zs = 0 \<longleftrightarrow> (\<forall>w\<in>set zs. w = 0)" for zs
    by (induction zs) (auto simp: unat_eq_0)
  then show ?thesis by (simp add: wordLen_def)
qed

lemma umul_value: "lval (umul x y) = uval x * uval y \<and> length (umul x y) = 8"
proof (cases "uval x = 0 \<or> uval y = 0")
  case True
  then show ?thesis
    by (auto simp: umul_def highestNonZeroWord_def uval_def wordLen_0_iff)
next
  case False
  then have pos: "\<not> highestNonZeroWord x < 0" "\<not> highestNonZeroWord y < 0"
    using wordLen_0_iff [of "limbs x"] wordLen_0_iff [of "limbs y"]
    by (auto simp: highestNonZeroWord_def uval_def)
  have "umul x y = umulRows (take (wordLen (limbs x)) (limbs x)) (take (wordLen (limbs y)) (limbs y)) 0 (replicate 8 0)"
    using pos by (simp add: umul_def highestNonZeroWord_def)
  moreover have "wordLen (limbs x) \<le> 4" "wordLen (limbs y) \<le> 4"
    using wordLen_le [of "limbs x"] wordLen_le [of "limbs y"] by simp_all
  ultimately show ?thesis
    using umulRows_value [of 0 "take (wordLen (limbs x)) (limbs x)" "take (wordLen (limbs y)) (limbs y)" "replicate 8 0"]
    by (simp add: lval_take_wordLen uval_def)
qed

lemma MulOverflow_eq:
  "snd (MulOverflow x y) \<longleftrightarrow> 2 ^ 256 \<le> uval x * uval y"
  "uval (fst (MulOverflow x y)) = uval x * uval y mod 2 ^ 256"
proof -
  obtain p0 p1 p2 p3 p4 p5 p6 p7 where p: "umul x y = [p0, p1, p2, p3, p4, p5, p6, p7]"
    using umul_value [of x y] by (auto simp: numeral_eq_Suc length_Suc_conv)
  define z where "z = Uint p0 p1 p2 p3"
  have flag: "snd (MulOverflow x y) \<longleftrightarrow> lval [p4, p5, p6, p7] \<noteq> 0" and "fst (MulOverflow x y) = z"
    by (simp_all add: MulOverflow_def p z_def or_eq_0_iff unat_eq_0)
  have r4: "radix ^ length [p0, p1, p2, p3] = 2 ^ 256" by (simp add: radix_def)
  have "uval x * uval y = lval ([p0, p1, p2, p3] @ [p4, p5, p6, p7])"
    using umul_value [of x y] by (simp only: p append_Cons append_Nil)
  then have v: "uval x * uval y = uval z + 2 ^ 256 * lval [p4, p5, p6, p7]"
    by (simp only: lval_append r4 z_def uval_def limbs.simps)
  show "snd (MulOverflow x y) \<longleftrightarrow> 2 ^ 256 \<le> uval x * uval y"
    using uval_less [of z] unfolding flag v by (cases "lval [p4, p5, p6, p7]") simp_all
  show "uval (fst (MulOverflow x y)) = uval x * uval y mod 2 ^ 256"
    using uval_less [of z] unfolding \<open>fst (MulOverflow x y) = z\<close> v
    by (simp only: mod_mult_self2 mod_less)
qed


text \<open>The truncated product, whose last word wraps.\<close>

lemma word_wrap: "\<exists>k. unat (a :: u64) + radix * k = n" if "a = word_of_nat n"
  using that by (metis mod_mult_div_eq unat_of_nat_radix)

lemma mul_chain:
  fixes x0 x1 x2 x3 y0 y1 y2 y3 :: nat
  assumes "radix * c1 + r0 = x0 * y0" "radix * c2 + a1 = c1 + x1 * y0" "radix * c3 + a2 = c2 + x2 * y0"
    "radix * c4 + r1 = a1 + x0 * y1" "radix * c5 + b2 = a2 + x1 * y1 + c4" "radix * c6 + r2 = b2 + x0 * y2"
    "r3 + radix * k = x3 * y0 + c3 + x2 * y1 + c5 + x1 * y2 + c6 + x0 * y3"
  shows "(x0 + radix * (x1 + radix * (x2 + radix * x3))) * (y0 + radix * (y1 + radix * (y2 + radix * y3)))
    = (r0 + radix * (r1 + radix * (r2 + radix * r3)))
      + radix ^ 4 * (k + x1 * y3 + x2 * y2 + x3 * y1 + radix * (x2 * y3 + x3 * y2 + radix * (x3 * y3)))"
  using assms unfolding radix_def by (simp add: algebra_simps)

lemma Mul_uval: "uval (Uint_Mul x y) = uval x * uval y mod 2 ^ 256"
proof -
  obtain x0 x1 x2 x3 y0 y1 y2 y3 where x: "x = Uint x0 x1 x2 x3" and y: "y = Uint y0 y1 y2 y3"
    by (cases x; cases y) blast
  obtain c1 r0 where s1: "Mul64 x0 y0 = (c1, r0)" by fastforce
  obtain c2 a1 where s2: "umulHop c1 x1 y0 = (c2, a1)" by fastforce
  obtain c3 a2 where s3: "umulHop c2 x2 y0 = (c3, a2)" by fastforce
  obtain c4 r1 where s4: "umulHop a1 x0 y1 = (c4, r1)" by fastforce
  obtain c5 b2 where s5: "umulStep a2 x1 y1 c4 = (c5, b2)" by fastforce
  obtain c6 r2 where s6: "umulHop b2 x0 y2 = (c6, r2)" by fastforce
  define r3 where "r3 = x3 * y0 + c3 + x2 * y1 + c5 + x1 * y2 + c6 + x0 * y3"
  have z: "Uint_Mul x y = Uint r0 r1 r2 r3"
    by (simp add: x y s1 s2 s3 s4 s5 s6 r3_def add.assoc)
  have "r3 = word_of_nat (unat x3 * unat y0 + unat c3 + unat x2 * unat y1 + unat c5 + unat x1 * unat y2
      + unat c6 + unat x0 * unat y3)"
    by (simp add: r3_def)
  then obtain k where k: "unat r3 + radix * k = unat x3 * unat y0 + unat c3 + unat x2 * unat y1 + unat c5
      + unat x1 * unat y2 + unat c6 + unat x0 * unat y3"
    using word_wrap by blast
  have "radix ^ 4 = 2 ^ 256" by (simp add: radix_def)
  with mul_chain [OF Mul64_value [OF s1] umulHop_value [OF s2] umulHop_value [OF s3] umulHop_value [OF s4]
      umulStep_value [OF s5] umulHop_value [OF s6] k]
  have "\<exists>m. uval x * uval y = uval (Uint_Mul x y) + 2 ^ 256 * m"
    unfolding z unfolding x y uval_Uint by metis
  then show ?thesis
    using uval_less [of "Uint_Mul x y"] by (metis mod_less mod_mult_self2)
qed


section \<open>Words shifted into their neighbours\<close>

lemma unat_push_bit: "unat (push_bit s x :: u64) = unat x * 2 ^ s mod radix"
  by (simp only: unsigned_push_bit_eq) (simp add: push_bit_eq_mult take_bit_eq_mod radix_def)

lemma unat_drop_bit: "unat (drop_bit s x :: u64) = unat x div 2 ^ s"
  using unat_radix [of x]
  by (simp only: unsigned_drop_bit_eq) (simp add: drop_bit_eq_div take_bit_eq_mod radix_def)

lemma unat_shift_or:
  assumes "s \<le> 64"
  shows "unat (push_bit s y OR drop_bit (64 - s) x :: u64) = unat y * 2 ^ s mod radix + unat x div 2 ^ (64 - s)"
proof -
  have "\<not> bit (unat (push_bit s y)) i \<or> \<not> bit (unat (drop_bit (64 - s) x)) i" for i
    using assms bit_imp_le_length [of x "64 - s + i"]
    by (auto simp: bit_simps)
  then have "unat (push_bit s y) + unat (drop_bit (64 - s) x) = or (unat (push_bit s y)) (unat (drop_bit (64 - s) x))"
    by (intro disjunctive_add_eq_or) (auto simp: bit_eq_iff bit_simps)
  then show ?thesis
    by (simp only: unsigned_or_eq unat_push_bit unat_drop_bit)
qed

lemma radix_split: "s \<le> 64 \<Longrightarrow> radix = 2 ^ s * 2 ^ (64 - s)"
  by (simp add: radix_def flip: power_add)

text \<open>A word shifted left: what stays in it and what moves to the word above.\<close>

lemma shift_left_split:
  assumes "s \<le> 64"
  shows "n * 2 ^ s mod radix + radix * (n div 2 ^ (64 - s)) = n * 2 ^ s"
proof -
  have "n * 2 ^ s div radix = n div 2 ^ (64 - s)"
    by (subst radix_split [OF assms]) (simp add: mult.commute)
  then show ?thesis by (metis mod_mult_div_eq)
qed

text \<open>A word shifted right takes the low bits of the word above.\<close>

lemma shift_right_split:
  assumes "s \<le> 64"
  shows "2 ^ s * (y * 2 ^ (64 - s) mod radix) = radix * (y mod 2 ^ s)"
proof -
  have "y * 2 ^ (64 - s) mod radix = (y mod 2 ^ s) * 2 ^ (64 - s)"
    by (subst radix_split [OF assms]) (simp add: mod_mult_mult2)
  then show ?thesis using radix_split [OF assms] by simp
qed

lemma natBits_bounds: "n < 2 ^ natBits n \<and> (0 < n \<longrightarrow> 2 ^ natBits n \<le> 2 * n)"
proof (induction n rule: natBits.induct)
  case (1 n)
  show ?case
  proof (cases "n = 0")
    case True
    then show ?thesis by (simp add: natBits.simps [of 0])
  next
    case False
    have b: "natBits n = Suc (natBits (n div 2))" using False by (subst natBits.simps) simp
    have ih: "n div 2 < 2 ^ natBits (n div 2)" "0 < n div 2 \<longrightarrow> 2 ^ natBits (n div 2) \<le> 2 * (n div 2)"
      using 1 False by blast+
    have "n < 2 * 2 ^ natBits (n div 2)" using ih(1) by linarith
    moreover have "2 * 2 ^ natBits (n div 2) \<le> 2 * n"
    proof (cases "n div 2 = 0")
      case True
      then show ?thesis using False by (simp add: natBits.simps [of 0])
    next
      case False
      then show ?thesis using ih(2) by simp
    qed
    ultimately show ?thesis by (simp add: b)
  qed
qed

lemma natBits_le: "n < 2 ^ k \<Longrightarrow> natBits n \<le> k"
proof (cases "n = 0")
  case True
  then show ?thesis by (simp add: natBits.simps [of 0])
next
  case False
  assume "n < 2 ^ k"
  with natBits_bounds [of n] False have "2 ^ natBits n < 2 * (2 ^ k :: nat)" by linarith
  then have "natBits n < Suc k"
    by (metis power_Suc power_less_imp_less_exp one_less_numeral_iff semiring_norm(76))
  then show ?thesis by simp
qed

lemma natBits_0 [simp]: "natBits 0 = 0"
  by (simp add: natBits.simps)

lemma natBits_eq_0_iff [simp]: "natBits n = 0 \<longleftrightarrow> n = 0"
  by (metis natBits_0 natBits_bounds less_one power_0)

lemma Len64_le: "Len64 x \<le> 64"
  unfolding Len64_def using unat_radix [of x] by (intro natBits_le) (simp only: radix_def)

end
