(* ===== verification/Uint256Div.thy ===== *)
theory Uint256Div
  imports Uint256 "HOL-Library.More_List"
begin

text \<open>
  Division in \<^verbatim>\<open>p/onbloc/math/uint256\<close>: the schoolbook division of \<^verbatim>\<open>udivrem\<close> with its two-by-one step
  through a reciprocal, and \<^verbatim>\<open>Div\<close>, \<^verbatim>\<open>Mod\<close> and \<^verbatim>\<open>DivMod\<close> above it. A slice the code updates in place is the
  list that is returned. The theory ends with the exactness of the three: the quotient and the remainder
  of the numbers, and no panic but the one for a zero divisor.
\<close>

section \<open>One word by a normalized word (arithmetic.gno)\<close>

datatype uint_panic = DivisionByZero | ModuloByZero | DivideError | OverflowError | IndexOutOfRange

text \<open>\<^verbatim>\<open>bits.Div64\<close> panics on a zero divisor and on a quotient above 64 bits.\<close>

definition Div64 :: "u64 \<Rightarrow> u64 \<Rightarrow> u64 \<Rightarrow> uint_panic + u64 \<times> u64" where
  "Div64 hi lo y =
     (if y = 0 then Inl DivideError
      else if y \<le> hi then Inl OverflowError
      else let n = 2 ^ 64 * unat hi + unat lo
           in Inr (word_of_nat (n div unat y), word_of_nat (n mod unat y)))"

definition reciprocal2by1 :: "u64 \<Rightarrow> uint_panic + u64" where
  "reciprocal2by1 d =
     (case Div64 (NOT d) (- 1) d of Inl e \<Rightarrow> Inl e | Inr (reciprocal, _) \<Rightarrow> Inr reciprocal)"

definition udivrem2by1 :: "u64 \<Rightarrow> u64 \<Rightarrow> u64 \<Rightarrow> u64 \<Rightarrow> u64 \<times> u64" where
  "udivrem2by1 uh ul d reciprocal =
     (let (qh, ql) = Mul64 reciprocal uh;
          (ql, carry) = Add64 ql ul 0;
          (qh, _) = Add64 qh uh carry;
          qh = qh + 1;
          r = ul - qh * d;
          (qh, r) = (if ql < r then (qh - 1, r + d) else (qh, r));
          (qh, r) = (if d \<le> r then (qh + 1, r - d) else (qh, r))
      in (qh, r))"

definition normalized :: "u64 \<Rightarrow> bool" where
  "normalized d \<longleftrightarrow> radix \<le> 2 * unat d"

lemma unat_max: "unat (- 1 :: u64) = radix - 1"
  by (simp add: radix_def unsigned_minus_1_eq_mask mask_eq_exp_minus_1)

lemma unat_NOT: "unat (NOT d :: u64) = radix - 1 - unat d"
proof -
  have "NOT d = - 1 - d" by (simp add: not_eq_complement)
  moreover have "d \<le> - 1" by simp
  ultimately show ?thesis by (metis unat_sub unat_max)
qed

text \<open>The reciprocal is \<open>(radix\<^sup>2 - 1) div d - radix\<close>, which the bounds say without a division.\<close>

lemma reciprocal2by1_value:
  assumes "normalized d"
  obtains v where "reciprocal2by1 d = Inr v" "(radix + unat v) * unat d < radix * radix"
    "radix * radix \<le> (radix + unat v) * unat d + unat d"
proof -
  have d: "radix \<le> 2 * unat d" "0 < unat d" "unat d < radix"
    using assms radix_pos(1) unfolding normalized_def by (linarith, linarith, simp)
  define n where "n = radix * (radix - 1 - unat d) + (radix - 1)"
  have n: "n + radix * unat d + 1 = radix * radix"
  proof -
    have "radix = (radix - 1 - unat d) + unat d + 1" using d(3) by linarith
    then have "radix * radix = radix * (radix - 1 - unat d) + radix * unat d + radix"
      by (metis distrib_left mult.right_neutral)
    then show ?thesis using radix_pos(1) unfolding n_def by linarith
  qed
  have "radix * radix \<le> radix * (2 * unat d)" using d(1) by (rule mult_le_mono2)
  with n have "n < radix * unat d" by linarith
  then have small: "n div unat d < radix" by (simp add: less_mult_imp_div_less)
  have "Div64 (NOT d) (- 1) d = Inr (word_of_nat (n div unat d), word_of_nat (n mod unat d))"
  proof -
    have "d \<noteq> 0" using d(2) by auto
    moreover have "\<not> d \<le> NOT d" using d unfolding word_le_nat_alt unat_NOT by linarith
    ultimately show ?thesis
      unfolding Div64_def radix_def [symmetric] by (simp add: unat_max unat_NOT n_def Let_def)
  qed
  then have "reciprocal2by1 d = Inr (word_of_nat (n div unat d))"
    by (simp add: reciprocal2by1_def)
  moreover have "n div unat d * unat d \<le> n" "n < n div unat d * unat d + unat d"
    using d(2) dividend_less_div_times [of "unat d" n] by (simp_all add: div_times_less_eq_dividend)
  then have "(radix + n div unat d) * unat d < radix * radix"
    "radix * radix \<le> (radix + n div unat d) * unat d + unat d"
    using n unfolding distrib_right by linarith+
  ultimately show ?thesis
    using small that by (simp add: word_of_nat_radix_eq)
qed

text \<open>
  The candidate of a two-by-one step and its remainder, in whole numbers: \<open>q1\<close> is the high word of the
  product with the reciprocal, \<open>q0\<close> the low one. The remainder is negative, or small enough for the two
  corrections of the code.
\<close>

lemma candidate_bounds:
  fixes R d v u1 u0 q1 q0 r :: int
  assumes v: "(R + v) * d < R * R" "R * R \<le> (R + v) * d + d"
    and u: "0 \<le> u1" "u1 < d" "0 \<le> u0" "u0 < R" and d: "0 < d" "d < R"
    and q: "R * q1 + q0 = (R + v) * u1 + u0" "0 \<le> q0" "q0 < R"
    and r: "r = R * u1 + u0 - (q1 + 1) * d"
  shows "- d \<le> r" and "q0 - R < r" and "r < max (R - d) q0"
proof -
  define k where "k = R * R - (R + v) * d"
  have k: "0 < k" "k \<le> d" using v by (simp_all add: k_def)
  have Rr: "R * r = u1 * k + u0 * (R - d) + q0 * d - d * R"
  proof -
    have "R * r = R * R * u1 + R * u0 - d * (R * q1) - d * R"
      by (simp add: r algebra_simps)
    also have "R * q1 = (R + v) * u1 + u0 - q0" using q(1) by simp
    finally show ?thesis by (simp add: k_def algebra_simps)
  qed
  have pos: "0 \<le> u1 * k" "0 \<le> u0 * (R - d)" "0 \<le> q0 * d"
    using u k d q by simp_all
  have "R * - d \<le> R * r" using Rr pos by (simp add: mult.commute)
  then show "- d \<le> r" using d by (simp only: mult_le_cancel_left_pos)
  have "R * (q0 - R) < R * r"
  proof -
    have "(R - q0) * d < (R - q0) * R" using d q by (intro mult_strict_left_mono) auto
    with Rr pos show ?thesis by (simp add: algebra_simps)
  qed
  then show "q0 - R < r" using d by (simp only: mult_less_cancel_left_pos)
  have "R * r < R * max (R - d) q0"
  proof -
    obtain m where m: "max (R - d) q0 = m" "q0 \<le> m" "R - d \<le> m" by simp
    have "u1 * k \<le> (d - 1) * d" using u k d by (intro mult_mono) auto
    moreover have "u0 * (R - d) \<le> (R - 1) * (R - d)" using u d by (intro mult_right_mono) auto
    moreover have "q0 * d \<le> m * d" using d m by (intro mult_right_mono) auto
    moreover have "(R - d) * (R - d) \<le> m * (R - d)" using d m by (intro mult_right_mono) auto
    ultimately show ?thesis using Rr d unfolding m(1) by (simp only: algebra_simps)
  qed
  then show "r < max (R - d) q0" using d by (simp only: mult_less_cancel_left_pos)
qed



lemma word_of_int_radix: "0 \<le> n \<Longrightarrow> n < int radix \<Longrightarrow> int (unat (word_of_int n :: u64)) = n"
  by (simp add: radix_def uint_word_of_int)

lemma word_of_radix [simp]: "(word_of_nat radix :: u64) = 0"
  by (simp add: radix_def)

lemma two_by_one_result:
  fixes q r d :: u64 and n :: nat
  assumes "int n = Q * int (unat d) + s" "0 \<le> s" "s < int (unat d)" "q = word_of_int Q" "r = word_of_int s"
    and small: "n < unat d * radix"
  shows "unat q = n div unat d \<and> unat r = n mod unat d"
proof -
  have Q: "Q = int (n div unat d)" and s: "s = int (n mod unat d)"
    using assms(1-3) by (auto simp: zdiv_int zmod_int)
  have "n div unat d < radix"
    using small by (simp add: less_mult_imp_div_less mult.commute)
  moreover have "n mod unat d < radix"
    using assms(2,3) unat_radix [of d] s by linarith
  ultimately show ?thesis
    by (simp add: assms(4,5) Q s word_of_nat_radix_eq)
qed

lemma udivrem2by1_value:
  assumes norm: "normalized d" and u1: "unat uh < unat d"
    and rec: "reciprocal2by1 d = Inr v"
    and run: "udivrem2by1 uh ul d v = (q, r)"
  shows "unat q = (radix * unat uh + unat ul) div unat d \<and> unat r = (radix * unat uh + unat ul) mod unat d"
proof -
  have v: "(radix + unat v) * unat d < radix * radix" "radix * radix \<le> (radix + unat v) * unat d + unat d"
    using reciprocal2by1_value [OF norm] rec by auto
  obtain h l where m: "Mul64 v uh = (h, l)" by fastforce
  obtain ql c where a: "Add64 l ul 0 = (ql, c)" by fastforce
  obtain qh c2 where b: "Add64 h uh c = (qh, c2)" by fastforce
  note va = Add64_value [OF a unat_0_le]
  note vb = Add64_value [OF b va(2)]
  have "radix * (unat h + unat uh + unat c) + unat ql = (radix + unat v) * unat uh + unat ul"
    using Mul64_value [OF m] va(1) by (simp add: algebra_simps)
  moreover have "(radix + unat v) * unat uh + unat ul < radix * radix"
  proof -
    have "(radix + unat v) * (unat uh + 1) \<le> (radix + unat v) * unat d"
      using u1 by (intro mult_le_mono2) simp
    then show ?thesis using v(1) unat_radix [of ul] unfolding distrib_left mult_1_right by linarith
  qed
  ultimately have "radix * (unat h + unat uh + unat c) < radix * radix" by linarith
  then have "unat h + unat uh + unat c < radix" by simp
  with vb(1) have "unat c2 = 0" "unat qh = unat h + unat uh + unat c"
    by (cases "unat c2"; simp)+
  then have cand: "radix * unat qh + unat ql = (radix + unat v) * unat uh + unat ul"
    using \<open>radix * (unat h + unat uh + unat c) + unat ql = _\<close> by simp
  define R D where "R = int radix" and "D = int (unat d)"
  define s where "s = R * int (unat uh) + int (unat ul) - (int (unat qh) + 1) * D"
  have bounds: "- D \<le> s" "int (unat ql) - R < s" "s < max (R - D) (int (unat ql))"
  proof -
    have "(R + int (unat v)) * D < R * R" "R * R \<le> (R + int (unat v)) * D + D"
      "R * int (unat qh) + int (unat ql) = (R + int (unat v)) * int (unat uh) + int (unat ul)"
      unfolding R_def D_def using v cand
      by (simp_all only: of_nat_mult [symmetric] of_nat_add [symmetric] of_nat_less_iff of_nat_le_iff of_nat_eq_iff)
    moreover have "0 < D" "D < R" "int (unat uh) < D" "int (unat ul) < R" "int (unat ql) < R"
    proof -
      have "0 < unat d" using u1 by linarith
      then show "0 < D" "D < R" "int (unat uh) < D" "int (unat ul) < R" "int (unat ql) < R"
        unfolding R_def D_def of_nat_0_less_iff of_nat_less_iff using u1 by simp_all
    qed
    ultimately show "- D \<le> s" "int (unat ql) - R < s" "s < max (R - D) (int (unat ql))"
      using candidate_bounds [OF _ _ _ _ _ _ _ _ _ _ _ s_def] by simp_all
  qed
  define r0 where "r0 = ul - (qh + 1) * d"
  have r0: "r0 = word_of_int s"
    by (simp add: r0_def s_def R_def D_def algebra_simps)
  have qr: "(q, r) = (let (qh, r) = (if ql < r0 then (qh, r0 + d) else (qh + 1, r0))
      in if d \<le> r then (qh + 1, r - d) else (qh, r))"
    using run by (auto simp: udivrem2by1_def m a b Let_def r0_def split: if_splits)
  define n where "n = radix * unat uh + unat ul"
  have n: "int n = (int (unat qh) + 1) * D + s"
    by (simp add: n_def s_def R_def)
  have "radix * (unat uh + 1) \<le> radix * unat d" using u1 by (intro mult_le_mono2) simp
  then have small: "n < unat d * radix"
    using unat_radix [of ul] unfolding n_def mult.commute [of "unat d"] distrib_left mult_1_right by linarith
  have half: "R \<le> 2 * D" using norm unfolding normalized_def R_def D_def by linarith
  have ql: "int (unat ql) < R" and DR: "0 < D" "D < R"
    using u1 unfolding R_def D_def of_nat_0_less_iff of_nat_less_iff by (simp, linarith, simp)
  have wd: "d = word_of_int D" "qh = word_of_int (int (unat qh))" "(word_of_int R :: u64) = 0"
    by (simp_all add: D_def R_def)
  have word: "int (unat (word_of_int k :: u64)) = k" if "0 \<le> k" "k < R" for k
    using word_of_int_radix [of k] that unfolding R_def by blast
  have result: ?thesis if "int n = Q * D + t" "0 \<le> t" "t < D" "q = word_of_int Q" "r = word_of_int t" for Q t
    using two_by_one_result [of n Q d t q r] that small unfolding D_def n_def by blast
  consider (neg) "s < 0" | (low) "0 \<le> s" "s \<le> int (unat ql)" "s < D"
    | (mid) "0 \<le> s" "s \<le> int (unat ql)" "D \<le> s" | (high) "int (unat ql) < s" by linarith
  then show ?thesis
  proof cases
    case neg
    have "r0 = word_of_int (s + R)" by (simp add: r0 wd(3) flip: wi_hom_add)
    then have "int (unat r0) = s + R" using word [of "s + R"] neg bounds DR by simp
    then have "ql < r0" using bounds(2) unfolding word_less_nat_alt by linarith
    moreover have rd: "r0 + d = word_of_int (s + D)" by (simp add: r0 D_def flip: wi_hom_add)
    moreover have "int (unat (word_of_int (s + D) :: u64)) = s + D"
      using neg bounds DR by (intro word) linarith+
    then have "\<not> d \<le> word_of_int (s + D)" using neg unfolding word_le_nat_alt D_def by linarith
    ultimately have "q = qh" "r = word_of_int (s + D)" using qr by simp_all
    with result [of "int (unat qh)" "s + D"] n neg bounds wd(2) show ?thesis by (simp add: algebra_simps)
  next
    case low
    then have "int (unat r0) = s" using word [of s] DR by (simp only: r0)
    then have "\<not> ql < r0" "\<not> d \<le> r0"
      using low unfolding word_less_nat_alt word_le_nat_alt D_def by linarith+
    then have "q = qh + 1" "r = word_of_int s" using qr r0 by simp_all
    with result [of "int (unat qh) + 1" s] n low show ?thesis by simp
  next
    case mid
    then have "int (unat r0) = s" using word [of s] ql by (simp only: r0)
    then have "\<not> ql < r0" "d \<le> r0"
      using mid unfolding word_less_nat_alt word_le_nat_alt D_def by linarith+
    then have "q = qh + 1 + 1" "r = r0 - d" using qr by simp_all
    moreover have "r0 - d = word_of_int (s - D)" by (simp add: r0 D_def flip: wi_hom_sub)
    moreover have "s - D < D" using mid half ql by linarith
    ultimately show ?thesis using result [of "int (unat qh) + 2" "s - D"] n mid by (simp add: algebra_simps)
  next
    case high
    with bounds(3) have s: "0 \<le> s" "s < R - D" by linarith+
    then have "int (unat r0) = s" unfolding r0 using DR by (intro word) linarith+
    with high have lt: "ql < r0" unfolding word_less_nat_alt by linarith
    have sum: "r0 + d = word_of_int (s + D)" by (simp add: r0 D_def flip: wi_hom_add)
    have "int (unat (word_of_int (s + D) :: u64)) = s + D"
      using s DR by (intro word) linarith+
    then have "d \<le> r0 + d" using s unfolding sum word_le_nat_alt D_def by linarith
    with lt have "q = qh + 1" "r = r0" using qr by simp_all
    with result [of "int (unat qh) + 1" s] n s half r0 show ?thesis by simp
  qed
qed


section \<open>Schoolbook division (arithmetic.gno)\<close>

text \<open>\<open>by1Loop\<close> is the loop of \<^verbatim>\<open>udivremBy1\<close> with \<open>j\<close> words left below, \<open>knuthLoop\<close> that of \<^verbatim>\<open>udivremKnuth\<close>.\<close>

fun by1Loop :: "u64 \<Rightarrow> u64 \<Rightarrow> nat \<Rightarrow> u64 list \<Rightarrow> u64 list \<Rightarrow> u64 \<Rightarrow> u64 list \<times> u64" where
  "by1Loop d reciprocal 0 quot u rem = (quot, rem)"
| "by1Loop d reciprocal (Suc j) quot u rem =
     (let (q, rem) = udivrem2by1 rem (u ! j) d reciprocal
      in by1Loop d reciprocal j (quot[j := q]) u rem)"

definition udivremBy1 :: "u64 list \<Rightarrow> u64 list \<Rightarrow> u64 \<Rightarrow> uint_panic + u64 list \<times> u64" where
  "udivremBy1 quot u d =
     (case reciprocal2by1 d of
        Inl e \<Rightarrow> Inl e
      | Inr reciprocal \<Rightarrow> Inr (by1Loop d reciprocal (length u - 1) quot u (u ! (length u - 1))))"

text \<open>\<^verbatim>\<open>x += y\<close> and \<^verbatim>\<open>x -= y * multiplier\<close> on the low words of \<open>x\<close>, which is at least as long.\<close>

fun addTo :: "u64 list \<Rightarrow> u64 list \<Rightarrow> u64 \<Rightarrow> u64 list \<times> u64" where
  "addTo (x # xs) (y # ys) carry =
     (let (s, carry) = Add64 x y carry; (xs, carry) = addTo xs ys carry in (s # xs, carry))"
| "addTo xs _ carry = (xs, carry)"

fun subMulTo :: "u64 list \<Rightarrow> u64 list \<Rightarrow> u64 \<Rightarrow> u64 \<Rightarrow> u64 list \<times> u64" where
  "subMulTo (x # xs) (y # ys) multiplier borrow =
     (let (s, carry1) = Sub64 x borrow 0;
          (ph, pl) = Mul64 y multiplier;
          (t, carry2) = Sub64 s pl 0;
          (xs, borrow) = subMulTo xs ys multiplier (ph + carry1 + carry2)
      in (t # xs, borrow))"
| "subMulTo xs _ multiplier borrow = (xs, borrow)"

definition qhatOf :: "u64 \<Rightarrow> u64 \<Rightarrow> u64 \<Rightarrow> u64 \<Rightarrow> u64 \<Rightarrow> u64 \<Rightarrow> u64" where
  "qhatOf dh dl reciprocal u2 u1 u0 =
     (if dh \<le> u2 then - 1
      else let (qhat, rhat) = udivrem2by1 u2 u1 dh reciprocal;
               (ph, pl) = Mul64 qhat dl
           in if rhat < ph \<or> ph = rhat \<and> u0 < pl then qhat - 1 else qhat)"

definition knuthStep :: "u64 list \<Rightarrow> u64 \<Rightarrow> nat \<Rightarrow> u64 list \<Rightarrow> u64 \<times> u64 list" where
  "knuthStep d reciprocal j u =
     (let dLen = length d;
          u2 = u ! (j + dLen);
          qhat = qhatOf (d ! (dLen - 1)) (d ! (dLen - 2)) reciprocal u2 (u ! (j + dLen - 1)) (u ! (j + dLen - 2));
          (low, borrow) = subMulTo (drop j u) d qhat 0;
          u = (take j u @ low)[j + dLen := u2 - borrow]
      in if u2 < borrow
         then let (low, carry) = addTo (drop j u) d 0; u = take j u @ low
              in (qhat - 1, u[j + dLen := u ! (j + dLen) + carry])
         else (qhat, u))"

fun knuthLoop :: "u64 list \<Rightarrow> u64 \<Rightarrow> nat \<Rightarrow> u64 list \<Rightarrow> u64 list \<Rightarrow> u64 list \<times> u64 list" where
  "knuthLoop d reciprocal 0 quot u = (quot, u)"
| "knuthLoop d reciprocal (Suc j) quot u =
     (let (qhat, u) = knuthStep d reciprocal j u in knuthLoop d reciprocal j (quot[j := qhat]) u)"

definition udivremKnuth :: "u64 list \<Rightarrow> u64 list \<Rightarrow> u64 list \<Rightarrow> uint_panic + u64 list \<times> u64 list" where
  "udivremKnuth quot u d =
     (case reciprocal2by1 (d ! (length d - 1)) of
        Inl e \<Rightarrow> Inl e
      | Inr reciprocal \<Rightarrow> Inr (knuthLoop d reciprocal (length u - length d) quot u))"

text \<open>
  \<^verbatim>\<open>udivrem\<close>: the divisor is shifted so that its top bit is set, and the dividend with it into one more
  word. A zero divisor has no top word to shift, an index out of range.
\<close>

definition of_limbs :: "u64 list \<Rightarrow> uint256" where
  "of_limbs xs = Uint (nth_default 0 xs 0) (nth_default 0 xs 1) (nth_default 0 xs 2) (nth_default 0 xs 3)"

definition shlWord :: "nat \<Rightarrow> u64 list \<Rightarrow> nat \<Rightarrow> u64" where
  "shlWord shift d i =
     (if i = 0 then push_bit shift (d ! 0)
      else push_bit shift (d ! i) OR drop_bit (64 - shift) (d ! (i - 1)))"

definition udivrem :: "u64 list \<Rightarrow> u64 list \<Rightarrow> uint256 \<Rightarrow> uint_panic + u64 list \<times> uint256" where
  "udivrem quot u d =
     (let dLen = wordLen (limbs d)
      in if dLen = 0 then Inl IndexOutOfRange
         else let shift = LeadingZeros64 (limbs d ! (dLen - 1));
                  dn = map (shlWord shift (limbs d)) [0..<dLen];
                  uLen = wordLen u
              in if uLen < dLen then Inr (quot, of_limbs u)
                 else let un = map (shlWord shift u) [0..<uLen] @ [drop_bit (64 - shift) (u ! (uLen - 1))]
                      in if dLen = 1
                         then (case udivremBy1 quot un (dn ! 0) of
                                 Inl e \<Rightarrow> Inl e
                               | Inr (quot, r) \<Rightarrow> Inr (quot, NewUint (drop_bit shift r)))
                         else (case udivremKnuth quot un dn of
                                 Inl e \<Rightarrow> Inl e
                               | Inr (quot, un) \<Rightarrow>
                                   Inr (quot, of_limbs (map (\<lambda>i.
                                     if i < dLen - 1
                                     then drop_bit shift (un ! i) OR push_bit (64 - shift) (un ! (i + 1))
                                     else drop_bit shift (un ! i)) [0..<dLen]))))"


section \<open>The parts are exact\<close>

lemma addTo_value:
  assumes "addTo xs ys c = (xs', c')" "length ys \<le> length xs" "unat c \<le> 1"
  shows "lval (take (length ys) xs') + radix ^ length ys * unat c' = lval (take (length ys) xs) + lval ys + unat c
    \<and> unat c' \<le> 1 \<and> length xs' = length xs \<and> drop (length ys) xs' = drop (length ys) xs"
  using assms
proof (induction xs ys c arbitrary: xs' rule: addTo.induct)
  case (1 x xs y ys c)
  obtain s c1 where a: "Add64 x y c = (s, c1)" by fastforce
  obtain zs where rec: "addTo xs ys c1 = (zs, c')" and xs': "xs' = s # zs"
    using 1(2) by (auto simp: a split: prod.splits)
  note va = Add64_value [OF a 1(4)]
  have ih: "lval (take (length ys) zs) + radix ^ length ys * unat c' = lval (take (length ys) xs) + lval ys + unat c1"
    and rest: "unat c' \<le> 1" "length zs = length xs" "drop (length ys) zs = drop (length ys) xs"
    using 1(1) [OF a [symmetric] refl rec _ va(2)] 1(3) by auto
  have "radix * (lval (take (length ys) zs) + radix ^ length ys * unat c')
      = radix * (lval (take (length ys) xs) + lval ys + unat c1)"
    by (simp only: ih)
  with va(1) rest show ?case by (simp add: xs' algebra_simps)
qed auto

lemma subMulTo_step:
  assumes s: "Sub64 x b 0 = (s, c1)" and m: "Mul64 y k = (ph, pl)" and t: "Sub64 s pl 0 = (t, c2)"
  shows "unat t + unat y * unat k + unat b = unat x + radix * unat (ph + c1 + c2)"
proof -
  note vs = Sub64_value [OF s disjI2] and vt = Sub64_value [OF t disjI2]
  have vs: "unat s + unat b = unat x + radix * unat c1" and vt: "unat t + unat pl = unat s + radix * unat c2"
    using vs(1) vt(1) unat_radix [of b] unat_radix [of pl] by (simp_all add: less_imp_le)
  have total: "unat t + unat y * unat k + unat b = unat x + radix * (unat ph + unat c1 + unat c2)"
    using vs vt Mul64_value [OF m] unfolding distrib_left by linarith
  moreover have "unat y * unat k + unat t + unat b < radix * radix"
    by (rule mul_room) simp_all
  ultimately have "radix * (unat ph + unat c1 + unat c2) < radix * radix" by linarith
  then have "unat ph + unat c1 + unat c2 < radix" by simp
  moreover from this have "unat (ph + c1) = unat ph + unat c1"
    by (intro word_add_exact) linarith
  ultimately have "unat (ph + c1 + c2) = unat ph + unat c1 + unat c2"
    by (metis word_add_exact)
  with total show ?thesis by simp
qed

lemma subMulTo_value:
  assumes "subMulTo xs ys k b = (xs', b')" "length ys \<le> length xs"
  shows "lval (take (length ys) xs') + lval ys * unat k + unat b
         = lval (take (length ys) xs) + radix ^ length ys * unat b'
    \<and> length xs' = length xs \<and> drop (length ys) xs' = drop (length ys) xs"
  using assms
proof (induction xs ys k b arbitrary: xs' rule: subMulTo.induct)
  case (1 x xs y ys k b)
  obtain s c1 where s: "Sub64 x b 0 = (s, c1)" by fastforce
  obtain ph pl where m: "Mul64 y k = (ph, pl)" by fastforce
  obtain t c2 where t: "Sub64 s pl 0 = (t, c2)" by fastforce
  obtain zs where rec: "subMulTo xs ys k (ph + c1 + c2) = (zs, b')" and xs': "xs' = t # zs"
    using 1(2) by (auto simp: s m t split: prod.splits)
  have ih: "lval (take (length ys) zs) + lval ys * unat k + unat (ph + c1 + c2)
      = lval (take (length ys) xs) + radix ^ length ys * unat b'"
    and rest: "length zs = length xs" "drop (length ys) zs = drop (length ys) xs"
    using 1(1) [OF s [symmetric] refl m [symmetric] refl t [symmetric] refl rec] 1(3) by auto
  have "radix * (lval (take (length ys) zs) + lval ys * unat k + unat (ph + c1 + c2))
      = radix * (lval (take (length ys) xs) + radix ^ length ys * unat b')"
    by (simp only: ih)
  with subMulTo_step [OF s m t] rest show ?case by (simp add: xs' algebra_simps)
qed auto


text \<open>
  The estimate of a quotient digit from the top three words of the dividend and the top two of the divisor:
  it is the digit or one more. \<open>w\<close> is the weight of the words below.
\<close>

definition top_words :: "nat \<Rightarrow> nat \<Rightarrow> nat \<Rightarrow> nat \<Rightarrow> nat \<Rightarrow> nat \<Rightarrow> nat \<Rightarrow> nat \<Rightarrow> nat \<Rightarrow> nat \<Rightarrow> bool" where
  "top_words w V Vl dl dh U Ul u0 u1 u2 \<longleftrightarrow>
     V = Vl + w * dl + w * radix * dh \<and> Vl < w \<and> dl < radix
     \<and> U = Ul + w * u0 + w * radix * (radix * u2 + u1) \<and> Ul < w \<and> u0 < radix \<and> u1 < radix
     \<and> radix \<le> 2 * dh"

lemma top_wordsD:
  assumes "top_words w V Vl dl dh U Ul u0 u1 u2"
  shows "V = Vl + w * dl + w * radix * dh" "Vl < w" "dl < radix"
    and "U = Ul + w * u0 + w * radix * (radix * u2 + u1)" "Ul < w" "u0 < radix" "u1 < radix"
    and "radix \<le> 2 * dh"
  using assms unfolding top_words_def by blast+

lemma below_radix:
  assumes top: "top_words w V Vl dl dh U Ul u0 u1 u2"
  shows "Vl + w * dl < w * radix" "Ul + w * u0 < w * radix" "w * radix * radix \<le> 2 * V" "w * radix \<le> V"
proof -
  note V = top_wordsD(1-3) [OF top] and U = top_wordsD(4-7) [OF top] and norm = top_wordsD(8) [OF top]
  have "w * (dl + 1) \<le> w * radix" "w * (u0 + 1) \<le> w * radix"
    using V(3) U(3) by (intro mult_le_mono2; simp)+
  then show "Vl + w * dl < w * radix" "Ul + w * u0 < w * radix"
    using V(2) U(2) by simp_all
  have "w * radix * radix \<le> w * radix * (2 * dh)" using norm by (rule mult_le_mono2)
  then show "w * radix * radix \<le> 2 * V" unfolding V(1) by (simp only: algebra_simps)
  have "w * radix * 1 \<le> w * radix * dh"
    using norm radix_pos(1) by (intro mult_le_mono2) linarith
  then show "w * radix \<le> V" unfolding V(1) by (simp only: mult_1_right)
qed

lemma estimate_top:
  assumes top: "top_words w V Vl dl dh U Ul u0 u1 u2"
    and "dh \<le> u2"
  shows "(radix - 1) * V \<le> U + V"
proof -
  note V = top_wordsD(1-3) [OF top] and U = top_wordsD(4-7) [OF top] and norm = top_wordsD(8) [OF top]
  have "radix * (Vl + w * dl) \<le> radix * (w * radix)"
    using below_radix(1) [OF top] by (intro mult_le_mono2) simp
  moreover have "w * radix * radix * dh \<le> w * radix * radix * u2"
    using assms(2) by (rule mult_le_mono2)
  ultimately have "radix * V \<le> U + 2 * V"
    using below_radix(3) [OF top] unfolding V(1) U(1) by (simp only: algebra_simps)
  then show ?thesis by (simp add: diff_mult_distrib)
qed

lemma estimate_digit:
  assumes top: "top_words w V Vl dl dh U Ul u0 u1 u2"
    and q: "q * dh + r = radix * u2 + u1" "r < dh" "q < radix"
  shows "U < (q + 1) * V"
    and "r * radix + u0 < q * dl \<Longrightarrow> U < q * V"
    and "q * V \<le> U + 2 * V"
    and "q * dl \<le> r * radix + u0 \<Longrightarrow> q * V \<le> U + V"
proof -
  note V = top_wordsD(1-3) [OF top] and U = top_wordsD(4-7) [OF top] and norm = top_wordsD(8) [OF top]
  have N: "w * radix * (q * dh + r) = w * radix * (radix * u2 + u1)" by (simp only: q(1))
  have "w * radix * r + w * radix \<le> w * radix * dh"
    using mult_le_mono2 [of "r + 1" dh "w * radix"] q(2) by simp
  then show "U < (q + 1) * V"
    using N below_radix(2) [OF top] V(1) U(1) by (simp add: algebra_simps)
  show "U < q * V" if "r * radix + u0 < q * dl"
    using mult_le_mono2 [of "r * radix + u0 + 1" "q * dl" w] that N V(1) U(1,2)
    by (simp add: algebra_simps)
  have "q * (Vl + w * dl) \<le> radix * (w * radix)"
    using q(3) below_radix(1) [OF top] by (intro mult_le_mono) simp_all
  then show "q * V \<le> U + 2 * V"
    using N below_radix(3) [OF top] V(1) U(1) by (simp add: algebra_simps)
  have "q * Vl \<le> radix * w" using q(3) V(2) by (intro mult_le_mono) simp_all
  then show "q * V \<le> U + V" if "q * dl \<le> r * radix + u0"
    using mult_le_mono2 [OF that, of w] N below_radix(4) [OF top] V(1) U(1) by (simp add: algebra_simps)
qed

lemma estimate_bounds:
  assumes top: "top_words w V Vl dl dh U Ul u0 u1 u2"
    and less: "U < radix * V"
    and q: "q = (if dh \<le> u2 then radix - 1
                 else let qh = (radix * u2 + u1) div dh; rh = (radix * u2 + u1) mod dh
                      in if rh * radix + u0 < qh * dl then qh - 1 else qh)"
  shows "U < (q + 1) * V \<and> q * V \<le> U + V \<and> q < radix"
proof (cases "dh \<le> u2")
  case True
  then show ?thesis using estimate_top [OF top True] less q by simp
next
  case False
  define qh rh where "qh = (radix * u2 + u1) div dh" and "rh = (radix * u2 + u1) mod dh"
  have "radix * (u2 + 1) \<le> radix * dh" using False by (intro mult_le_mono2) simp
  then have "radix * u2 + u1 < radix * dh" using top_wordsD(7) [OF top] by simp
  then have digit: "qh * dh + rh = radix * u2 + u1" "rh < dh" "qh < radix"
    using False by (auto simp: qh_def rh_def less_mult_imp_div_less)
  note e = estimate_digit [OF top digit]
  show ?thesis
  proof (cases "rh * radix + u0 < qh * dl")
    case True
    then have q: "q = qh - 1" using q False by (simp add: qh_def rh_def)
    moreover have "0 < qh" using e(2) [OF True] by (cases qh) auto
    ultimately have "qh = q + 1" by simp
    then show ?thesis using e(2) [OF True] e(3) digit(3) by (simp add: distrib_right)
  next
    case no: False
    then have "q = qh" using q False by (simp add: qh_def rh_def)
    with e(1,4) no digit(3) show ?thesis by simp
  qed
qed


lemma lex_digits:
  fixes a b c d :: nat
  assumes "b < radix" "d < radix"
  shows "a * radix + b < c * radix + d \<longleftrightarrow> a < c \<or> c = a \<and> b < d"
proof (cases a c rule: linorder_cases)
  case less
  then have "(a + 1) * radix \<le> c * radix" by (intro mult_le_mono1) simp
  with assms less show ?thesis by simp
next
  case greater
  then have "(c + 1) * radix \<le> a * radix" by (intro mult_le_mono1) simp
  with assms greater show ?thesis by simp
qed simp

lemma unat_pred: "0 < unat (q :: u64) \<Longrightarrow> unat (q - 1) = unat q - 1"
  by (metis not_less_iff_gr_or_eq unat_1 unat_eq_zero unat_minus_one unsigned_0)

lemma qhatOf_value:
  assumes "normalized dh" "reciprocal2by1 dh = Inr v"
  shows "unat (qhatOf dh dl v u2 u1 u0) =
    (if unat dh \<le> unat u2 then radix - 1
     else let qh = (radix * unat u2 + unat u1) div unat dh; rh = (radix * unat u2 + unat u1) mod unat dh
          in if rh * radix + unat u0 < qh * unat dl then qh - 1 else qh)"
proof (cases "unat dh \<le> unat u2")
  case True
  then show ?thesis by (simp add: qhatOf_def word_le_nat_alt unat_max)
next
  case False
  obtain q r where run: "udivrem2by1 u2 u1 dh v = (q, r)" by fastforce
  obtain ph pl where m: "Mul64 q dl = (ph, pl)" by fastforce
  have q: "unat q = (radix * unat u2 + unat u1) div unat dh" "unat r = (radix * unat u2 + unat u1) mod unat dh"
    using udivrem2by1_value [OF assms(1) _ assms(2) run] False by simp_all
  have "r < ph \<or> ph = r \<and> u0 < pl \<longleftrightarrow> unat r * radix + unat u0 < unat ph * radix + unat pl"
    by (simp add: lex_digits word_less_nat_alt word_unat_eq_iff)
  also have "unat ph * radix + unat pl = unat q * unat dl"
    using Mul64_value [OF m] by (simp add: mult.commute)
  finally have test: "r < ph \<or> ph = r \<and> u0 < pl \<longleftrightarrow> unat r * radix + unat u0 < unat q * unat dl" .
  have "qhatOf dh dl v u2 u1 u0 = (if r < ph \<or> ph = r \<and> u0 < pl then q - 1 else q)"
    using False by (simp add: qhatOf_def word_le_nat_alt run m)
  then have "unat (qhatOf dh dl v u2 u1 u0) = (if unat r * radix + unat u0 < unat q * unat dl then unat q - 1 else unat q)"
    unfolding test using unat_pred [of q] by (cases "unat q") auto
  then show ?thesis using False by (simp add: q Let_def)
qed

lemma split_last2:
  assumes "length xs = m + 2"
  shows "lval xs = lval (take m xs) + radix ^ m * unat (xs ! m) + radix ^ m * radix * unat (xs ! Suc m)"
proof -
  have "drop m xs = [xs ! m, xs ! Suc m]"
    using assms by (simp add: Cons_nth_drop_Suc [symmetric])
  then have "lval xs = lval (take m xs @ [xs ! m, xs ! Suc m])"
    by (metis append_take_drop_id)
  then show ?thesis using assms by (simp add: lval_append algebra_simps)
qed

text \<open>One step: the words from \<open>j\<close> on become their remainder, the words below stay.\<close>

lemma div_mod_intro: "u = q * v + r \<Longrightarrow> r < v \<Longrightarrow> q = u div v \<and> r = u mod (v :: nat)"
  by simp

lemma knuthStep_words:
  fixes V U t b u2 R L q :: nat
  assumes sub: "t + V * q = L + R * b" and U: "U = L + R * u2" and less: "t < R" "V < R"
    and q: "U < (q + 1) * V" "q * V \<le> U + V"
  shows "\<not> u2 < b \<Longrightarrow> u2 = b \<and> q = U div V \<and> t = U mod V"
    and "u2 < b \<Longrightarrow> b = u2 + 1 \<and> 0 < q \<and> q - 1 = U div V \<and> t + V = R + U mod V"
proof -
  assume "\<not> u2 < b"
  then obtain e where e: "u2 = b + e" by (metis le_Suc_ex not_less)
  have sum: "U = q * V + (t + R * e)" using sub U e by (simp add: algebra_simps)
  with q have "t + R * e < V" by simp
  moreover from this less have "e = 0" by (cases e) auto
  ultimately show "u2 = b \<and> q = U div V \<and> t = U mod V"
    using div_mod_intro [OF sum] e by simp
next
  assume "u2 < b"
  then obtain e where e: "b = u2 + 1 + e" by (metis less_iff_Suc_add add_Suc_right Suc_eq_plus1 add.assoc add.commute)
  have sum: "t + q * V = U + R + R * e" using sub U e by (simp add: algebra_simps)
  with q(2) less have "R * e < R" by linarith
  then have "e = 0" by simp
  with sum less(1) have "U < q * V" by simp
  then obtain p where p: "q = Suc p" by (cases q) auto
  have "U = p * V + (U - p * V)" "U - p * V < V"
    using q(2) \<open>U < q * V\<close> p by simp_all
  from div_mod_intro [OF this] have pq: "p = U div V" "U - p * V = U mod V" by blast+
  have "t + V + p * V = U + R" "p * V \<le> U" using sum \<open>e = 0\<close> p q(2) by simp_all
  then have "t + V = R + (U - p * V)" by linarith
  with pq show "b = u2 + 1 \<and> 0 < q \<and> q - 1 = U div V \<and> t + V = R + U mod V"
    using \<open>e = 0\<close> e p by simp
qed

lemma knuthStep_value:
  assumes n: "2 \<le> length d" and norm: "normalized (d ! (length d - 1))"
    and rec: "reciprocal2by1 (d ! (length d - 1)) = Inr v"
    and pos: "j + length d < length u" and less: "lval (drop j u) < radix * lval d"
    and run: "knuthStep d v j u = (q, u')"
  shows "unat q = lval (drop j u) div lval d \<and> lval (drop j u') = lval (drop j u) mod lval d
    \<and> take j u' = take j u \<and> length u' = length u"
proof -
  obtain m where m: "length d = m + 2" using n le_Suc_ex by (metis add.commute)
  define low where "low = take (length d) (drop j u)"
  define u2 where "u2 = u ! (j + length d)"
  define high where "high = drop (Suc (j + length d)) u"
  have dj: "drop j u = low @ u2 # high"
  proof -
    have "drop (length d) (drop j u) = u2 # high"
      using pos by (simp add: u2_def high_def Cons_nth_drop_Suc add.commute)
    then show ?thesis by (metis append_take_drop_id low_def)
  qed
  have len: "length low = length d" using pos by (simp add: low_def)
  define V U where "V = lval d" and "U = lval (drop j u)"
  have Vless: "V < radix ^ length d" unfolding V_def by (rule lval_less)
  have "lval high = 0"
  proof (rule ccontr)
    assume "lval high \<noteq> 0"
    then have "radix * radix ^ length d * 1 \<le> radix * radix ^ length d * lval high"
      by (intro mult_le_mono2) simp
    moreover have "radix * V \<le> radix * radix ^ length d" using Vless by simp
    moreover have "radix * radix ^ length d * lval high \<le> lval (drop j u)"
      using len by (simp add: dj lval_append algebra_simps)
    ultimately show False
      using less unfolding V_def mult_1_right by linarith
  qed
  then have U: "U = lval low + radix ^ length d * unat u2"
    using len by (simp add: U_def dj lval_append)
  define dh dl u1 u0 where "dh = d ! (length d - 1)" and "dl = d ! (length d - 2)"
    and "u1 = u ! (j + length d - 1)" and "u0 = u ! (j + length d - 2)"
  have nths: "d ! m = dl" "d ! Suc m = dh" "low ! m = u0" "low ! Suc m = u1"
    using m pos by (simp_all add: dh_def dl_def u1_def u0_def low_def)
  have top: "top_words (radix ^ m) V (lval (take m d)) (unat dl) (unat dh) U (lval (take m low)) (unat u0) (unat u1) (unat u2)"
    unfolding top_words_def
    using split_last2 [OF m] split_last2 [of low m] len m lval_less [of "take m d"] lval_less [of "take m low"] norm
    by (simp add: nths V_def U normalized_def algebra_simps flip: dh_def)
  define qh where "qh = qhatOf dh dl v u2 u1 u0"
  have est: "U < (unat qh + 1) * V \<and> unat qh * V \<le> U + V \<and> unat qh < radix"
    using less unfolding U_def [symmetric] V_def [symmetric] qh_def dh_def
    by (rule estimate_bounds [OF top _ qhatOf_value [OF norm rec, of dl u2 u1 u0, folded dh_def], unfolded dh_def])
  obtain tail b where sub: "subMulTo (drop j u) d qh 0 = (tail, b)" by fastforce
  define t where "t = take (length d) tail"
  have "length d \<le> length (drop j u)" using pos by simp
  note sv = subMulTo_value [OF sub this]
  then have words: "lval t + V * unat qh = lval low + radix ^ length d * unat b"
    by (simp only: t_def V_def low_def unsigned_0 add_0_right)
  have "drop (length d) (drop j u) = u2 # high" using len by (simp add: dj)
  then have "drop (length d) tail = u2 # high" using sv by simp
  then have tail: "tail = t @ u2 # high" by (metis append_take_drop_id t_def)
  have t: "length t = length d" using sv pos by (simp add: t_def)
  have tless: "lval t < radix ^ length d" using lval_less [of t] t by simp
  have j: "length (take j u) = j" using pos by simp
  have upd: "(take j u @ tail)[j + length d := u2 - b] = take j u @ t @ (u2 - b) # high"
    using t j by (simp add: tail list_update_append)
  note step = knuthStep_words [OF words U tless Vless]
  define w where "w = take j u @ t @ (u2 - b) # high"
  have ks: "knuthStep d v j u = (if u2 < b
      then (case addTo (drop j w) d 0 of (low, carry) \<Rightarrow>
        (qh - 1, (take j w @ low)[j + length d := (take j w @ low) ! (j + length d) + carry]))
      else (qh, w))"
    unfolding knuthStep_def Let_def
    by (simp only: dh_def [symmetric] dl_def [symmetric] u0_def [symmetric] u1_def [symmetric]
        u2_def [symmetric] qh_def [symmetric] sub prod.case upd w_def [symmetric])
  have w: "take j w = take j u" "drop j w = t @ (u2 - b) # high" "length w = length u"
  proof -
    show "take j w = take j u" "drop j w = t @ (u2 - b) # high" using j by (simp_all add: w_def)
    have "length u = j + length (drop j u)" using pos by simp
    then show "length w = length u" using j len t unfolding dj by (simp add: w_def)
  qed
  show ?thesis
  proof (cases "u2 < b")
    case False
    then have s: "unat u2 = unat b" "unat qh = U div V" "lval t = U mod V"
      using step(1) est by (simp_all add: word_less_nat_alt)
    have "q = qh" "u' = w" using run False by (simp_all add: ks)
    moreover have "u2 = b" using s(1) by (simp only: word_unat_eq_iff)
    ultimately show ?thesis
      using s w \<open>lval high = 0\<close> by (simp add: U_def V_def lval_append)
  next
    case True
    then have s: "unat b = unat u2 + 1" "0 < unat qh" "unat qh - 1 = U div V"
      "lval t + V = radix ^ length d + U mod V"
      using step(2) est by (simp_all add: word_less_nat_alt)
    obtain added c where add: "addTo (drop j w) d 0 = (added, c)" by fastforce
    have "length d \<le> length (drop j w)" using w(2) t by simp
    note av = addTo_value [OF add this unat_0_le]
    define t' where "t' = take (length d) added"
    have lent: "length t' = length d" using av t w(2) by (simp add: t'_def)
    have sum: "lval t' + radix ^ length d * unat c = radix ^ length d + U mod V" and c: "unat c \<le> 1"
      using av s(4) t by (simp_all add: t'_def w(2) V_def)
    have "lval t' < radix ^ length d" using lval_less [of t'] lent by simp
    with sum c have "unat c = 1" by (cases "unat c") auto
    with sum have "c = 1" and t': "lval t' = U mod V"
      by (simp_all add: word_unat_eq_iff)
    have "drop (length d) added = (u2 - b) # high" using av t by (simp add: w(2))
    then have added: "added = t' @ (u2 - b) # high" by (metis append_take_drop_id t'_def)
    have "b = u2 + 1"
      using s(1) unat_radix [of b] by (simp add: word_unat_eq_iff word_add_exact)
    then have "u' = take j u @ t' @ 0 # high" "q = qh - 1"
      using run True j lent \<open>c = 1\<close> by (simp_all add: ks add w(1) added list_update_append nth_append)
    then show ?thesis
      using s(2,3) t' w(3) j lent t \<open>lval high = 0\<close> unat_pred [of qh]
      by (simp add: U_def V_def lval_append w_def)
  qed
qed

lemma knuthLoop_value:
  assumes "2 \<le> length d" "normalized (d ! (length d - 1))"
    "reciprocal2by1 (d ! (length d - 1)) = Inr v"
    and "k + length d \<le> length u" "k \<le> length quot" "lval (drop k u) < lval d"
    and "knuthLoop d v k quot u = (quot', u')"
  shows "lval (take k quot') * lval d + lval u' = lval u \<and> lval u' < lval d
    \<and> drop k quot' = drop k quot \<and> length quot' = length quot \<and> length u' = length u"
  using assms(4-)
proof (induction k arbitrary: quot u)
  case (Suc j)
  obtain q un where step: "knuthStep d v j u = (q, un)" by fastforce
  have dj: "drop j u = u ! j # drop (Suc j) u"
    using Suc.prems(1) by (simp add: Cons_nth_drop_Suc)
  have "radix * (lval (drop (Suc j) u) + 1) \<le> radix * lval d"
    using Suc.prems(3) by (intro mult_le_mono2) simp
  then have "lval (drop j u) < radix * lval d"
    unfolding dj using unat_radix [of "u ! j"] by (simp only: lval.simps distrib_left mult_1_right)
  with knuthStep_value [OF assms(1-3) _ _ step] Suc.prems(1)
  have s: "unat q = lval (drop j u) div lval d" "lval (drop j un) = lval (drop j u) mod lval d"
    "take j un = take j u" "length un = length u" by simp_all
  have "0 < lval d" using Suc.prems(3) by simp
  then have "lval (drop j un) < lval d" by (simp add: s(2))
  moreover have "knuthLoop d v j (quot[j := q]) un = (quot', u')"
    using Suc.prems(4) by (simp add: step)
  ultimately have ih: "lval (take j quot') * lval d + lval u' = lval un" "lval u' < lval d"
    "drop j quot' = drop j (quot[j := q])" "length quot' = length quot" "length u' = length u"
    using Suc.IH [of un "quot[j := q]"] Suc.prems(1,2) s(4) by simp_all
  have lval_split: "lval xs = lval (take j xs) + radix ^ j * lval (drop j xs)" if "j \<le> length xs" for xs
    using that lval_append [of "take j xs" "drop j xs"] by simp
  have dq: "drop j quot' = q # drop (Suc j) quot"
    using Suc.prems(2) ih(3) by (simp add: Cons_nth_drop_Suc [symmetric])
  then have "drop (Suc j) quot' = drop (Suc j) quot" by (metis drop_Suc list.sel(3) tl_drop)
  moreover have "quot' ! j = q" using dq ih(4) Suc.prems(2) by (metis Cons_nth_drop_Suc Suc_le_eq list.inject)
  then have "lval (take (Suc j) quot') = lval (take j quot') + radix ^ j * unat q"
    using ih(4) Suc.prems(2) by (simp add: take_Suc_conv_app_nth lval_append)
  moreover have "lval u = lval un + radix ^ j * (unat q * lval d)"
  proof -
    have "lval u = lval (take j u) + radix ^ j * (lval (drop j u) mod lval d + unat q * lval d)"
      using lval_split [of u] Suc.prems(1) by (simp only: s(1) mod_div_mult_eq)
    then show ?thesis
      using lval_split [of un] Suc.prems(1) s(2-4) by (simp add: distrib_left)
  qed
  ultimately show ?case
    using ih s(4) by (simp add: algebra_simps)
qed simp


lemma by1Loop_value:
  assumes "normalized d" "reciprocal2by1 d = Inr v"
    and "j \<le> length u" "j \<le> length quot" "unat r < unat d"
    and "by1Loop d v j quot u r = (quot', r')"
  shows "lval (take j quot') * unat d + unat r' = lval (take j u) + radix ^ j * unat r \<and> unat r' < unat d
    \<and> drop j quot' = drop j quot \<and> length quot' = length quot"
  using assms(3-)
proof (induction j arbitrary: quot r)
  case (Suc j)
  obtain q s where step: "udivrem2by1 r (u ! j) d v = (q, s)" by fastforce
  note qs = udivrem2by1_value [OF assms(1) Suc.prems(3) assms(2) step]
  have "unat s < unat d" using qs Suc.prems(3) by simp
  moreover have "by1Loop d v j (quot[j := q]) u s = (quot', r')"
    using Suc.prems(4) by (simp add: step)
  ultimately have ih: "lval (take j quot') * unat d + unat r' = lval (take j u) + radix ^ j * unat s"
    "unat r' < unat d" "drop j quot' = drop j (quot[j := q])" "length quot' = length quot"
    using Suc.IH [of "quot[j := q]" s] Suc.prems(1,2) by simp_all
  have dq: "drop j quot' = q # drop (Suc j) quot"
    using Suc.prems(2) ih(3) by (simp add: Cons_nth_drop_Suc [symmetric])
  then have "drop (Suc j) quot' = drop (Suc j) quot" by (metis drop_Suc list.sel(3) tl_drop)
  moreover have "quot' ! j = q" using dq ih(4) Suc.prems(2) by (metis Cons_nth_drop_Suc Suc_le_eq list.inject)
  then have "lval (take (Suc j) quot') = lval (take j quot') + radix ^ j * unat q"
    using ih(4) Suc.prems(2) by (simp add: take_Suc_conv_app_nth lval_append)
  moreover have "lval (take (Suc j) u) = lval (take j u) + radix ^ j * unat (u ! j)"
    using Suc.prems(1) by (simp add: take_Suc_conv_app_nth lval_append)
  moreover have "radix ^ j * (radix * unat r + unat (u ! j)) = radix ^ j * (unat q * unat d + unat s)"
    using qs by (simp only: div_mult_mod_eq)
  ultimately show ?case
    using ih by (simp add: algebra_simps)
qed simp

text \<open>The shifted words are the number times \<open>2 ^ s\<close>, up to what leaves the top word.\<close>

lemma shlWord_value:
  assumes "s \<le> 64" "n \<le> length d"
  shows "lval (map (shlWord s d) [0..<n]) + radix ^ n * (if n = 0 then 0 else unat (d ! (n - 1)) div 2 ^ (64 - s))
    = 2 ^ s * lval (take n d)"
  using assms(2)
proof (induction n)
  case (Suc n)
  have "unat (shlWord s d n) = unat (d ! n) * 2 ^ s mod radix + (if n = 0 then 0 else unat (d ! (n - 1)) div 2 ^ (64 - s))"
    using assms(1) by (simp add: shlWord_def unat_shift_or unat_push_bit)
  moreover note shift_left_split [OF assms(1), of "unat (d ! n)"]
  ultimately have "unat (shlWord s d n) + radix * (unat (d ! n) div 2 ^ (64 - s))
      = unat (d ! n) * 2 ^ s + (if n = 0 then 0 else unat (d ! (n - 1)) div 2 ^ (64 - s))" by simp
  from arg_cong [OF this, of "\<lambda>k. radix ^ n * k"] Suc show ?case
    by (simp add: lval_append take_Suc_conv_app_nth algebra_simps)
qed simp

lemma shlWord_ge: "s \<le> 64 \<Longrightarrow> unat (xs ! i) * 2 ^ s mod radix \<le> unat (shlWord s xs i)"
  by (simp add: shlWord_def unat_shift_or unat_push_bit)

lemma shrWord_value:
  assumes "s \<le> 64" "0 < n" "n \<le> length un"
  shows "lval (map (\<lambda>i. if i < n - 1 then drop_bit s (un ! i) OR push_bit (64 - s) (un ! (i + 1))
                        else drop_bit s (un ! i)) [0..<n]) = lval (take n un) div 2 ^ s"
proof -
  define f where "f = (\<lambda>i. drop_bit s (un ! i) OR push_bit (64 - s) (un ! Suc i))"
  obtain m where m: "n = Suc m" using assms(2) by (cases n) auto
  have f: "2 ^ s * unat (f i) + unat (un ! i) mod 2 ^ s = unat (un ! i) + radix * (unat (un ! Suc i) mod 2 ^ s)" for i
  proof -
    have "64 - (64 - s) = s" using assms(1) by simp
    then have "unat (f i) = unat (un ! Suc i) * 2 ^ (64 - s) mod radix + unat (un ! i) div 2 ^ s"
      using unat_shift_or [of "64 - s" "un ! Suc i" "un ! i"] by (simp only: f_def or.commute diff_le_self)
    then show ?thesis
      using mult_div_mod_eq [of "2 ^ s" "unat (un ! i)"]
      by (simp only: distrib_left shift_right_split [OF assms(1)])
  qed
  have sum: "2 ^ s * lval (map f [0..<k]) + unat (un ! 0) mod 2 ^ s = lval (take k un) + radix ^ k * (unat (un ! k) mod 2 ^ s)"
    if "k \<le> m" for k
    using that
  proof (induction k)
    case (Suc k)
    then have "k < length un" using assms(3) m by simp
    with arg_cong [OF f [of k], of "\<lambda>x. radix ^ k * x"] Suc show ?case
      by (simp add: lval_append take_Suc_conv_app_nth algebra_simps)
  qed simp
  have eq: "map (\<lambda>i. if i < n - 1 then drop_bit s (un ! i) OR push_bit (64 - s) (un ! (i + 1)) else drop_bit s (un ! i)) [0..<n]
    = map f [0..<m] @ [drop_bit s (un ! m)]"
    by (simp add: m f_def)
  have total: "2 ^ s * lval (map f [0..<m] @ [drop_bit s (un ! m)]) + unat (un ! 0) mod 2 ^ s = lval (take n un)"
  proof -
    have "radix ^ m * (2 ^ s * (unat (un ! m) div 2 ^ s)) + radix ^ m * (unat (un ! m) mod 2 ^ s) = radix ^ m * unat (un ! m)"
      by (simp only: distrib_left [symmetric] mult_div_mod_eq)
    then show ?thesis
      using sum [of m] assms(3) m by (simp add: lval_append take_Suc_conv_app_nth unat_drop_bit algebra_simps)
  qed
  have "x = b div 2 ^ s" if "2 ^ s * x + a mod 2 ^ s = b" for a b x :: nat
    by (simp flip: that)
  from this [OF total] show ?thesis unfolding eq .
qed


section \<open>Division is exact\<close>

lemma of_limbs_value: "uval (of_limbs xs) = lval (take 4 xs)"
proof -
  have *: "lval (take (Suc n) ys) = unat (nth_default 0 ys 0) + radix * lval (take n (drop 1 ys))" for n ys
    by (cases ys) simp_all
  have d: "nth_default 0 (drop k ys) 0 = nth_default 0 ys k" for k and ys :: "u64 list"
    by (simp add: nth_default_def)
  show ?thesis
    by (simp add: of_limbs_def uval_Uint numeral_eq_Suc * d)
qed

lemma lval_zero_high: "lval (drop n xs) = 0 \<Longrightarrow> lval (take n xs) = lval xs"
  using lval_append [of "take n xs" "drop n xs"] by simp

lemma lval_take_small: "lval xs < radix ^ n \<Longrightarrow> lval (take n xs) = lval xs"
proof (rule lval_zero_high, rule ccontr)
  assume "lval xs < radix ^ n" and pos: "lval (drop n xs) \<noteq> 0"
  then have "n < length xs" by (cases "n < length xs") simp_all
  then have "lval xs = lval (take n xs) + radix ^ n * lval (drop n xs)"
    using lval_append [of "take n xs" "drop n xs"] by simp
  moreover have "radix ^ n * 1 \<le> radix ^ n * lval (drop n xs)" using pos by (intro mult_le_mono2) simp
  ultimately show False using \<open>lval xs < radix ^ n\<close> by simp
qed

lemma lval_top: "xs \<noteq> [] \<Longrightarrow> radix ^ (length xs - 1) * unat (xs ! (length xs - 1)) \<le> lval xs"
  by (cases xs rule: rev_cases) (simp_all add: lval_append)

lemma wordLen_top:
  assumes "0 < wordLen xs"
  shows "xs ! (wordLen xs - 1) \<noteq> 0" and "radix ^ (wordLen xs - 1) \<le> lval xs"
proof -
  define ys where "ys = dropWhile (\<lambda>w. w = 0) (rev xs)"
  have ys: "ys \<noteq> []" "length ys = wordLen xs" using assms by (auto simp: ys_def wordLen_def)
  have "take (wordLen xs) xs = rev ys"
    unfolding ys_def wordLen_def by (metis append_eq_conv_conj length_rev rev_append rev_rev_ident takeWhile_dropWhile_id)
  then have "xs ! (wordLen xs - 1) = rev ys ! (wordLen xs - 1)"
    using assms by (metis One_nat_def Suc_pred lessI nth_take)
  also have "\<dots> = last (rev ys)" using ys by (simp add: last_conv_nth)
  also have "\<dots> = hd ys" by (simp add: last_rev)
  finally have hd: "xs ! (wordLen xs - 1) = hd ys" .
  then show nz: "xs ! (wordLen xs - 1) \<noteq> 0"
    using hd_dropWhile [of "\<lambda>w. w = 0" "rev xs"] ys(1) by (simp add: ys_def)
  have "take (wordLen xs) xs = take (wordLen xs - 1) xs @ [xs ! (wordLen xs - 1)]"
    using assms wordLen_le [of xs] by (metis Suc_le_eq Suc_pred' take_Suc_conv_app_nth)
  then have "lval xs = lval (take (wordLen xs - 1) xs) + radix ^ (wordLen xs - 1) * unat (xs ! (wordLen xs - 1))"
    using wordLen_le [of xs] assms by (simp add: lval_append lval_take_wordLen [of xs, symmetric] min_absorb2)
  moreover have "radix ^ (wordLen xs - 1) * 1 \<le> radix ^ (wordLen xs - 1) * unat (xs ! (wordLen xs - 1))"
    using nz unat_gt_0 [of "xs ! (wordLen xs - 1)"] by (intro mult_le_mono2) linarith
  ultimately show "radix ^ (wordLen xs - 1) \<le> lval xs" by linarith
qed

lemma leading_zeros:
  assumes "x \<noteq> 0"
  shows "LeadingZeros64 x < 64" "unat x * 2 ^ LeadingZeros64 x < radix" "radix \<le> 2 * (unat x * 2 ^ LeadingZeros64 x)"
proof -
  let ?l = "Len64 x"
  have x: "0 < unat x" using assms by (simp add: unat_gt_0)
  then have l: "0 < ?l" "?l \<le> 64"
    by (metis Len64_def natBits_eq_0_iff neq0_conv) (rule Len64_le)
  then show "LeadingZeros64 x < 64" by (simp add: LeadingZeros64_def)
  have r: "radix = 2 ^ ?l * 2 ^ LeadingZeros64 x"
    using l by (simp add: radix_def LeadingZeros64_def flip: power_add)
  have b: "unat x < 2 ^ ?l" "2 ^ ?l \<le> 2 * unat x"
    using natBits_bounds [of "unat x"] x by (simp_all add: Len64_def)
  show "unat x * 2 ^ LeadingZeros64 x < radix" unfolding r using b(1) by simp
  show "radix \<le> 2 * (unat x * 2 ^ LeadingZeros64 x)"
    unfolding r using mult_le_mono1 [OF b(2), of "2 ^ LeadingZeros64 x"] by (simp add: mult.assoc)
qed

lemma unscale:
  fixes q S D r U :: nat
  assumes "q * (S * D) + r = S * U" "r < S * D" "0 < S"
  shows "q * D + r div S = U \<and> r div S < D"
proof -
  have "S dvd r"
    using assms(1) by (metis dvd_add_right_iff dvd_triv_left mult.left_commute)
  then obtain k where k: "r = S * k" by auto
  with assms(1) have "S * (q * D + k) = S * U" by (simp add: algebra_simps)
  with assms(3) have "q * D + k = U" by simp
  moreover have "k < D" using assms(2) k by simp
  ultimately show ?thesis using k assms(3) by simp
qed


lemma udivrem_value:
  assumes D: "0 < uval d"
  shows "\<exists>q r. udivrem (replicate (length u) 0) u d = Inr (q, r) \<and> length q = length u
    \<and> lval q * uval d + uval r = lval u \<and> uval r < uval d"
proof -
  define n m where "n = wordLen (limbs d)" and "m = wordLen u"
  define dtop where "dtop = limbs d ! (n - 1)"
  define s where "s = LeadingZeros64 dtop"
  define dn un where "dn = map (shlWord s (limbs d)) [0..<n]"
    and "un = map (shlWord s u) [0..<m] @ [drop_bit (64 - s) (u ! (m - 1))]"
  have n: "0 < n" "n \<le> 4" using D wordLen_0_iff [of "limbs d"] wordLen_le [of "limbs d"]
    by (simp_all add: n_def uval_def)
  have "dtop \<noteq> 0" "radix ^ (n - 1) \<le> uval d"
    using wordLen_top [OF n(1) [unfolded n_def]] unfolding dtop_def n_def uval_def by blast+
  note s = leading_zeros [OF \<open>dtop \<noteq> 0\<close>, folded s_def]
  show ?thesis
  proof (cases "m < n")
    case True
    have "lval u = lval (take m u)" by (simp add: m_def lval_take_wordLen)
    also have "\<dots> < radix ^ m"
      using lval_less [of "take m u"] wordLen_le [of u] by (simp add: m_def min_absorb2)
    also have "\<dots> \<le> radix ^ (n - 1)" using True by (intro power_increasing) auto
    finally have less: "lval u < radix ^ (n - 1)" .
    then have "lval u < radix ^ 4"
      using n by (intro less_le_trans [OF less] power_increasing) simp_all
    then have "uval (of_limbs u) = lval u" by (simp add: of_limbs_value lval_take_small)
    with less \<open>radix ^ (n - 1) \<le> uval d\<close> True n(1) show ?thesis
      by (simp add: udivrem_def n_def [symmetric] m_def [symmetric])
  next
    case False
    then have m: "n \<le> m" "m \<le> length u" "0 < m" using n(1) wordLen_le [of u] by (simp_all add: m_def)
    have "2 ^ s * unat dtop < 2 ^ s * 2 ^ (64 - s)"
      using s(1,2) radix_split [of s] by (simp only: mult.commute less_imp_le)
    then have ndiv: "unat dtop div 2 ^ (64 - s) = 0" by simp
    have len: "length dn = n" "length un = Suc m" by (simp_all add: dn_def un_def)
    have dn: "lval dn = 2 ^ s * uval d"
      using shlWord_value [of s n "limbs d"] s(1) n ndiv [unfolded dtop_def] lval_take_wordLen [of "limbs d"]
      by (simp add: dn_def uval_def n_def [symmetric])
    have un: "lval un = 2 ^ s * lval u"
      using shlWord_value [of s m u] s(1) m
      by (simp add: un_def lval_append unat_drop_bit m_def lval_take_wordLen)
    have "dn ! (n - 1) = shlWord s (limbs d) (n - 1)" using n by (simp add: dn_def)
    then have dtop: "unat dtop * 2 ^ s \<le> unat (dn ! (n - 1))"
      using shlWord_ge [of s "limbs d" "n - 1"] s(1,2) unfolding dtop_def [symmetric] by simp
    then have norm: "normalized (dn ! (n - 1))"
      using s(3) unfolding normalized_def by linarith
    have untop: "unat (un ! m) < 2 ^ s"
      using s(1) radix_split [of s] by (simp add: un_def nth_append unat_drop_bit less_mult_imp_div_less)
    have "2 ^ s \<le> unat dtop * 2 ^ s" using \<open>dtop \<noteq> 0\<close> unat_gt_0 [of dtop] by simp
    with untop dtop have topless: "unat (un ! m) < unat (dn ! (n - 1))" by linarith
    obtain v where rec: "reciprocal2by1 (dn ! (n - 1)) = Inr v"
      using reciprocal2by1_value [OF norm] by blast
    have code: "udivrem (replicate (length u) 0) u d =
      (if n = 1 then (case udivremBy1 (replicate (length u) 0) un (dn ! 0) of
          Inl e \<Rightarrow> Inl e | Inr (quot, r) \<Rightarrow> Inr (quot, NewUint (drop_bit s r)))
       else (case udivremKnuth (replicate (length u) 0) un dn of
          Inl e \<Rightarrow> Inl e
        | Inr (quot, un) \<Rightarrow> Inr (quot, of_limbs (map (\<lambda>i.
            if i < n - 1 then drop_bit s (un ! i) OR push_bit (64 - s) (un ! (i + 1)) else drop_bit s (un ! i)) [0..<n]))))"
      using False n(1) unfolding udivrem_def Let_def n_def [symmetric] m_def [symmetric] dtop_def [symmetric]
        s_def [symmetric] dn_def [symmetric] un_def [symmetric] by simp
    have unsplit: "un = take m un @ [un ! m]"
      using len(2) by (metis lessI order.refl take_Suc_conv_app_nth take_all)
    show ?thesis
    proof (cases "n = 1")
      case True
      obtain q r where loop: "by1Loop (dn ! 0) v m (replicate (length u) 0) un (un ! m) = (q, r)" by fastforce
      have by1: "udivremBy1 (replicate (length u) 0) un (dn ! 0) = Inr (q, r)"
        using rec True len(2) loop by (simp add: udivremBy1_def)
      have dn0: "unat (dn ! 0) = 2 ^ s * uval d"
        using dn len(1) True by (cases dn) simp_all
      have "m \<le> length un" "m \<le> length (replicate (length u) (0 :: u64))" "unat (un ! m) < unat (dn ! 0)"
        using len m topless True by simp_all
      note bv = by1Loop_value [OF norm [unfolded True diff_self_eq_0] rec [unfolded True diff_self_eq_0] this loop]
      have "lval (take m un @ [un ! m]) = lval (take m un) + radix ^ m * unat (un ! m)"
        using len(2) by (simp add: lval_append)
      then have "lval un = lval (take m un) + radix ^ m * unat (un ! m)"
        by (simp only: unsplit [symmetric])
      then have eq: "lval q * (2 ^ s * uval d) + unat r = 2 ^ s * lval u" "unat r < 2 ^ s * uval d"
        using bv m lval_zero_high [of m q] by (simp_all add: dn0 un)
      from unscale [OF this] have "lval q * uval d + unat r div 2 ^ s = lval u \<and> unat r div 2 ^ s < uval d" by simp
      then show ?thesis
        using bv True by (simp add: code by1 unat_drop_bit)
    next
      case False
      then have n2: "2 \<le> length dn" using n(1) len(1) by simp
      obtain q w where loop: "knuthLoop dn v (Suc m - n) (replicate (length u) 0) un = (q, w)" by fastforce
      have knuth: "udivremKnuth (replicate (length u) 0) un dn = Inr (q, w)"
        using rec len loop by (simp add: udivremKnuth_def)
      have "drop (Suc m - n) un = drop (Suc m - n) (take m un) @ [un ! m]"
      proof -
        have "drop (Suc m - n) (take m un @ [un ! m]) = drop (Suc m - n) (take m un) @ [un ! m]"
          using len(2) m n(1) by simp
        then show ?thesis by (simp only: unsplit [symmetric])
      qed
      then have "lval (drop (Suc m - n) un) = lval (drop (Suc m - n) (take m un)) + radix ^ (n - 1) * unat (un ! m)"
        using len(2) m n(1) by (simp add: lval_append)
      also have "\<dots> < radix ^ (n - 1) * (unat (un ! m) + 1)"
        using lval_less [of "drop (Suc m - n) (take m un)"] len(2) m n(1) by simp
      also have "\<dots> \<le> radix ^ (n - 1) * unat (dn ! (n - 1))"
        using topless by (intro mult_le_mono2) simp
      also have "\<dots> \<le> lval dn"
        using lval_top [of dn] n2 len(1) by (simp only: length_greater_0_conv [symmetric])
      finally have low: "lval (drop (Suc m - n) un) < lval dn" .
      have room: "Suc m - n + length dn \<le> length un" "Suc m - n \<le> length (replicate (length u) (0 :: u64))"
        using len m n(1) by simp_all
      note kv = knuthLoop_value [OF n2 norm [folded len(1)] rec [folded len(1)] room low loop]
      have "lval q * (2 ^ s * uval d) + lval w = 2 ^ s * lval u" "lval w < 2 ^ s * uval d"
        using kv lval_zero_high [of "Suc m - n" q] by (simp_all add: dn un)
      note eq = unscale [OF this]
      have "lval w < radix ^ n" using kv lval_less [of dn] len(1) by simp
      then have "lval (take n w) = lval w" by (rule lval_take_small)
      define rem where "rem = map (\<lambda>i. if i < n - 1 then drop_bit s (w ! i) OR push_bit (64 - s) (w ! (i + 1))
        else drop_bit s (w ! i)) [0..<n]"
      have "lval rem = lval w div 2 ^ s"
        unfolding rem_def using shrWord_value [of s n w] s(1) n(1) kv len m \<open>lval (take n w) = lval w\<close> by simp
      moreover have "take 4 rem = rem" using n(2) by (simp add: rem_def)
      ultimately have "uval (of_limbs rem) = lval w div 2 ^ s" by (simp add: of_limbs_value)
      moreover have "udivrem (replicate (length u) 0) u d = Inr (q, of_limbs rem)"
        using False by (simp add: code knuth rem_def)
      ultimately show ?thesis using eq kv by simp
    qed
  qed
qed


section \<open>Div, Mod and DivMod (arithmetic.gno)\<close>

definition Uint_Div :: "uint256 \<Rightarrow> uint256 \<Rightarrow> uint_panic + uint256" where
  "Uint_Div x y =
     (if Uint_IsZero y then Inl DivisionByZero
      else if Uint_Gt y x then Inr Uint_Zero
      else if Uint_Eq x y then Inr Uint_One
      else if IsUint64 x then Inr (NewUint (Uint_Uint64 x div Uint_Uint64 y))
      else (case udivrem (replicate 4 0) (limbs x) y of
              Inl e \<Rightarrow> Inl e | Inr (quot, _) \<Rightarrow> Inr (of_limbs quot)))"

definition Uint_Mod :: "uint256 \<Rightarrow> uint256 \<Rightarrow> uint_panic + uint256" where
  "Uint_Mod x y =
     (if Uint_IsZero y then Inl ModuloByZero
      else if Uint_IsZero x then Inr Uint_Zero
      else if Uint_Cmp x y = - 1 then Inr x
      else if Uint_Cmp x y = 0 then Inr Uint_Zero
      else if IsUint64 x then Inr (NewUint (Uint_Uint64 x mod Uint_Uint64 y))
      else (case udivrem (replicate 4 0) (limbs x) y of
              Inl e \<Rightarrow> Inl e | Inr (_, rem) \<Rightarrow> Inr rem))"

definition DivMod :: "uint256 \<Rightarrow> uint256 \<Rightarrow> uint_panic + uint256 \<times> uint256" where
  "DivMod x y =
     (if Uint_IsZero y then Inl DivisionByZero
      else if Uint_Cmp x y = - 1 then Inr (Uint_Zero, x)
      else if Uint_Cmp x y = 0 then Inr (Uint_One, Uint_Zero)
      else if IsUint64 x then
        let x0 = Uint_Uint64 x; y0 = Uint_Uint64 y in Inr (NewUint (x0 div y0), NewUint (x0 mod y0))
      else (case udivrem (replicate 4 0) (limbs x) y of
              Inl e \<Rightarrow> Inl e | Inr (quot, rem) \<Rightarrow> Inr (of_limbs quot, rem)))"

lemma udivrem_exact:
  assumes "0 < uval y"
  obtains quot where "udivrem (replicate 4 0) (limbs x) y = Inr (quot, uint_of (uval x mod uval y))"
    "of_limbs quot = uint_of (uval x div uval y)"
proof -
  obtain q r where run: "udivrem (replicate 4 0) (limbs x) y = Inr (q, r)" and len: "length q = 4"
    and v: "lval q * uval y + uval r = uval x" "uval r < uval y"
    using udivrem_value [OF assms, of "limbs x"] by (auto simp: uval_def)
  have "lval q = uval x div uval y" "uval r = uval x mod uval y"
    using div_mod_intro [OF v(1) [symmetric] v(2)] by blast+
  moreover have "uval (of_limbs q) = lval q" using len by (simp add: of_limbs_value)
  ultimately show ?thesis using that run uint_of_eqI by metis
qed

lemma small_division:
  assumes "IsUint64 x" "uval y \<le> uval x"
  shows "NewUint (Uint_Uint64 x div Uint_Uint64 y) = uint_of (uval x div uval y)"
    and "NewUint (Uint_Uint64 x mod Uint_Uint64 y) = uint_of (uval x mod uval y)"
proof -
  have "IsUint64 y" using assms by (simp add: IsUint64_uval)
  then have "unat (Uint_Uint64 y) = uval y" "unat (Uint_Uint64 x) = uval x"
    using assms(1) by (simp_all add: IsUint64_value)
  then show "NewUint (Uint_Uint64 x div Uint_Uint64 y) = uint_of (uval x div uval y)"
    and "NewUint (Uint_Uint64 x mod Uint_Uint64 y) = uint_of (uval x mod uval y)"
    by (intro uint_of_eqI; simp add: unat_div unat_mod)+
qed

lemma DivMod_exact:
  "DivMod x y = (if uval y = 0 then Inl DivisionByZero
                 else Inr (uint_of (uval x div uval y), uint_of (uval x mod uval y)))"
proof (cases "uval y = 0")
  case False
  then obtain quot where "udivrem (replicate 4 0) (limbs x) y = Inr (quot, uint_of (uval x mod uval y))"
    "of_limbs quot = uint_of (uval x div uval y)"
    using udivrem_exact [of y x] by auto
  moreover consider "uval x < uval y" | "uval x = uval y" | "uval y < uval x" by linarith
  ultimately show ?thesis
    using False small_division [of x y]
    by cases (auto simp: DivMod_def IsZero_uval Cmp_uval Let_def)
qed (simp add: DivMod_def IsZero_uval)

lemma Div_exact:
  "Uint_Div x y = (if uval y = 0 then Inl DivisionByZero else Inr (uint_of (uval x div uval y)))"
proof (cases "uval y = 0")
  case False
  then obtain quot where "udivrem (replicate 4 0) (limbs x) y = Inr (quot, uint_of (uval x mod uval y))"
    "of_limbs quot = uint_of (uval x div uval y)"
    using udivrem_exact [of y x] by auto
  moreover consider "uval x < uval y" | "uval x = uval y" | "uval y < uval x" by linarith
  ultimately show ?thesis
    using False small_division [of x y]
    by cases (auto simp: Uint_Div_def IsZero_uval cmp_uval Eq_uval)
qed (simp add: Uint_Div_def IsZero_uval)

lemma Mod_exact:
  "Uint_Mod x y = (if uval y = 0 then Inl ModuloByZero else Inr (uint_of (uval x mod uval y)))"
proof (cases "uval y = 0")
  case False
  then obtain quot where "udivrem (replicate 4 0) (limbs x) y = Inr (quot, uint_of (uval x mod uval y))"
    using udivrem_exact [of y x] by auto
  moreover consider "uval x < uval y" | "uval x = uval y" | "uval y < uval x" by linarith
  ultimately show ?thesis
    using False small_division [of x y]
    by cases (auto simp: Uint_Mod_def IsZero_uval Cmp_uval)
qed (simp add: Uint_Mod_def IsZero_uval)

end
