(* ===== verification/Uint256Bits.thy ===== *)
theory Uint256Bits
  imports Uint256Div
begin

text \<open>
  The bitwise operations and shifts of \<^verbatim>\<open>p/onbloc/math/uint256/bitwise.gno\<close>. The labels a shift jumps to
  are functions that fall through to the next one. A shift is the division or the multiplication by a power
  of two, for every shift count; the other operations act on the bits of the number.
\<close>

section \<open>Operations (bitwise.gno)\<close>

fun Uint_Or :: "uint256 \<Rightarrow> uint256 \<Rightarrow> uint256" where
  "Uint_Or (Uint x0 x1 x2 x3) (Uint y0 y1 y2 y3) = Uint (x0 OR y0) (x1 OR y1) (x2 OR y2) (x3 OR y3)"

fun Uint_And :: "uint256 \<Rightarrow> uint256 \<Rightarrow> uint256" where
  "Uint_And (Uint x0 x1 x2 x3) (Uint y0 y1 y2 y3) = Uint (x0 AND y0) (x1 AND y1) (x2 AND y2) (x3 AND y3)"

fun Uint_Not :: "uint256 \<Rightarrow> uint256" where
  "Uint_Not (Uint x0 x1 x2 x3) = Uint (NOT x0) (NOT x1) (NOT x2) (NOT x3)"

fun Uint_AndNot :: "uint256 \<Rightarrow> uint256 \<Rightarrow> uint256" where
  "Uint_AndNot (Uint x0 x1 x2 x3) (Uint y0 y1 y2 y3) =
     Uint (x0 AND NOT y0) (x1 AND NOT y1) (x2 AND NOT y2) (x3 AND NOT y3)"

fun Uint_Xor :: "uint256 \<Rightarrow> uint256 \<Rightarrow> uint256" where
  "Uint_Xor (Uint x0 x1 x2 x3) (Uint y0 y1 y2 y3) = Uint (x0 XOR y0) (x1 XOR y1) (x2 XOR y2) (x3 XOR y3)"

fun lsh64 :: "uint256 \<Rightarrow> uint256" where "lsh64 (Uint x0 x1 x2 _) = Uint 0 x0 x1 x2"
fun lsh128 :: "uint256 \<Rightarrow> uint256" where "lsh128 (Uint x0 x1 _ _) = Uint 0 0 x0 x1"
fun lsh192 :: "uint256 \<Rightarrow> uint256" where "lsh192 (Uint x0 _ _ _) = Uint 0 0 0 x0"
fun rsh64 :: "uint256 \<Rightarrow> uint256" where "rsh64 (Uint _ x1 x2 x3) = Uint x1 x2 x3 0"
fun rsh128 :: "uint256 \<Rightarrow> uint256" where "rsh128 (Uint _ _ x2 x3) = Uint x2 x3 0 0"
fun rsh192 :: "uint256 \<Rightarrow> uint256" where "rsh192 (Uint _ _ _ x3) = Uint x3 0 0 0"

fun lsh_sh192 :: "nat \<Rightarrow> u64 \<Rightarrow> uint256 \<Rightarrow> uint256" where
  "lsh_sh192 n a (Uint z0 z1 z2 z3) = Uint z0 z1 z2 (push_bit n z3 OR a)"

fun lsh_sh128 :: "nat \<Rightarrow> u64 \<Rightarrow> uint256 \<Rightarrow> uint256" where
  "lsh_sh128 n b (Uint z0 z1 z2 z3) = lsh_sh192 n (drop_bit (64 - n) z2) (Uint z0 z1 (push_bit n z2 OR b) z3)"

fun lsh_sh64 :: "nat \<Rightarrow> u64 \<Rightarrow> uint256 \<Rightarrow> uint256" where
  "lsh_sh64 n a (Uint z0 z1 z2 z3) = lsh_sh128 n (drop_bit (64 - n) z1) (Uint z0 (push_bit n z1 OR a) z2 z3)"

fun lsh_rest :: "nat \<Rightarrow> uint256 \<Rightarrow> uint256" where
  "lsh_rest n (Uint z0 z1 z2 z3) = lsh_sh64 n (drop_bit (64 - n) z0) (Uint (push_bit n z0) z1 z2 z3)"

definition lsh :: "uint256 \<Rightarrow> u64 \<Rightarrow> uint256" where
  "lsh x n =
     (if n AND 0x3f = 0 then
        (if n = 0 then x else if n = 64 then lsh64 x else if n = 128 then lsh128 x
         else if n = 192 then lsh192 x else Uint_Zero)
      else if n > 192 then lsh_sh192 (unat (n - 192)) 0 (lsh192 x)
      else if n > 128 then lsh_sh128 (unat (n - 128)) 0 (lsh128 x)
      else if n > 64 then lsh_sh64 (unat (n - 64)) 0 (lsh64 x)
      else lsh_rest (unat n) x)"

definition Uint_Lsh :: "uint256 \<Rightarrow> u64 \<Rightarrow> uint256" where
  "Uint_Lsh x n = (if Uint_IsZero x then Uint_Zero else if n = 0 then x else lsh x n)"

fun rsh_sh192 :: "nat \<Rightarrow> u64 \<Rightarrow> uint256 \<Rightarrow> uint256" where
  "rsh_sh192 n a (Uint z0 z1 z2 z3) = Uint (drop_bit n z0 OR a) z1 z2 z3"

fun rsh_sh128 :: "nat \<Rightarrow> u64 \<Rightarrow> uint256 \<Rightarrow> uint256" where
  "rsh_sh128 n b (Uint z0 z1 z2 z3) = rsh_sh192 n (push_bit (64 - n) z1) (Uint z0 (drop_bit n z1 OR b) z2 z3)"

fun rsh_sh64 :: "nat \<Rightarrow> u64 \<Rightarrow> uint256 \<Rightarrow> uint256" where
  "rsh_sh64 n a (Uint z0 z1 z2 z3) = rsh_sh128 n (push_bit (64 - n) z2) (Uint z0 z1 (drop_bit n z2 OR a) z3)"

fun rsh_rest :: "nat \<Rightarrow> uint256 \<Rightarrow> uint256" where
  "rsh_rest n (Uint z0 z1 z2 z3) = rsh_sh64 n (push_bit (64 - n) z3) (Uint z0 z1 z2 (drop_bit n z3))"

definition Uint_Rsh :: "uint256 \<Rightarrow> u64 \<Rightarrow> uint256" where
  "Uint_Rsh x n =
     (if n AND 0x3f = 0 then
        (if n = 0 then x else if n = 64 then rsh64 x else if n = 128 then rsh128 x
         else if n = 192 then rsh192 x else Uint_Zero)
      else if n > 192 then
        (if n > 256 then Uint_Zero else rsh_sh192 (unat (n - 192)) 0 (rsh192 x))
      else if n > 128 then rsh_sh128 (unat (n - 128)) 0 (rsh128 x)
      else if n > 64 then rsh_sh64 (unat (n - 64)) 0 (rsh64 x)
      else rsh_rest (unat n) x)"

section \<open>Shifts\<close>

lemma radix_power: "radix = 2 ^ 64" by (simp add: radix_def)

lemma rsh_words:
  "uval (rsh64 x) = uval x div radix" "uval (rsh128 x) = uval x div radix div radix"
  "uval (rsh192 x) = uval x div radix div radix div radix"
  by (cases x; simp add: uval_Uint)+

lemma rsh_rest_value: "s < 64 \<Longrightarrow> uval (rsh_rest s x) = uval x div 2 ^ s"
proof -
  assume s: "s < 64"
  obtain x0 x1 x2 x3 where x: "x = Uint x0 x1 x2 x3" by (cases x)
  have "lval [drop_bit s x0 OR push_bit (64 - s) x1, drop_bit s x1 OR push_bit (64 - s) x2,
      drop_bit s x2 OR push_bit (64 - s) x3, drop_bit s x3] = lval [x0, x1, x2, x3] div 2 ^ s"
    using shrWord_value [of s 4 "[x0, x1, x2, x3]"] s by (simp add: upt_rec numeral_eq_Suc)
  then show ?thesis by (simp add: x uval_def)
qed

lemma rsh_tails:
  "rsh_sh64 s 0 (rsh64 x) = rsh_rest s (rsh64 x)" "rsh_sh128 s 0 (rsh128 x) = rsh_rest s (rsh128 x)"
  "rsh_sh192 s 0 (rsh192 x) = rsh_rest s (rsh192 x)"
  by (cases x; simp)+

lemma mask_0_iff: "(n :: u64) AND 0x3f = 0 \<longleftrightarrow> 64 dvd unat n"
proof -
  have "n AND 0x3f = take_bit 6 n" by (simp add: take_bit_eq_mask mask_eq_exp_minus_1)
  then have "unat (n AND 0x3f) = unat n mod 64"
    by (simp add: take_bit_eq_mod unat_mod)
  then show ?thesis by (metis dvd_eq_mod_eq_0 unat_eq_zero)
qed

lemma unat_sub_less: "(k :: u64) < n \<Longrightarrow> unat (n - k) = unat n - unat k"
  by (simp add: unat_sub less_imp_le)

lemma div_power_large: "256 \<le> n \<Longrightarrow> uval x div 2 ^ n = 0"
proof -
  assume "256 \<le> n"
  then have "(2 :: nat) ^ 256 \<le> 2 ^ n" by (intro power_increasing) simp_all
  then show ?thesis using uval_less [of x] by (simp add: less_le_trans)
qed

lemma div_radix_power: "u div radix div 2 ^ k = u div 2 ^ (64 + k)"
  unfolding radix_power by (simp only: power_add div_mult2_eq)

text \<open>The cases of a shift count: whole words, all bits, or words and a rest below 64.\<close>

lemma shift_cases:
  fixes n :: u64
  obtains (whole) "n AND 0x3f = 0" "n = 0 \<or> n = 64 \<or> n = 128 \<or> n = 192"
  | (all) "n AND 0x3f = 0" "n \<noteq> 0" "n \<noteq> 64" "n \<noteq> 128" "n \<noteq> 192" "256 \<le> unat n"
  | (large) "n AND 0x3f \<noteq> 0" "n > 192" "n > 128" "n > 64" "256 < unat n" "unat (n - 192) = unat n - 192"
  | (w3) "n AND 0x3f \<noteq> 0" "n > 192" "n > 128" "n > 64" "unat n = 192 + unat (n - 192)" "unat (n - 192) < 64"
  | (w2) "n AND 0x3f \<noteq> 0" "\<not> n > 192" "n > 128" "n > 64" "unat n = 128 + unat (n - 128)" "unat (n - 128) < 64"
  | (w1) "n AND 0x3f \<noteq> 0" "\<not> n > 192" "\<not> n > 128" "n > 64" "unat n = 64 + unat (n - 64)" "unat (n - 64) < 64"
  | (w0) "n AND 0x3f \<noteq> 0" "\<not> n > 192" "\<not> n > 128" "\<not> n > 64" "unat n < 64"
proof (cases "n AND 0x3f = 0")
  case True
  then obtain k where k: "unat n = 64 * k" unfolding mask_0_iff by (rule dvdE)
  show ?thesis
  proof (cases "n = 0 \<or> n = 64 \<or> n = 128 \<or> n = 192")
    case False
    then have "unat n \<noteq> 64 * 0" "unat n \<noteq> 64 * 1" "unat n \<noteq> 64 * 2" "unat n \<noteq> 64 * 3"
      by (auto simp: word_unat_eq_iff)
    then have "k \<noteq> 0" "k \<noteq> 1" "k \<noteq> 2" "k \<noteq> 3" using k by auto
    then have "256 \<le> unat n" unfolding k by linarith
    then show ?thesis using all True False by blast
  qed (use whole True in blast)
next
  case False
  then have nd: "\<not> 64 dvd unat n" by (simp add: mask_0_iff)
  then have "unat n \<noteq> 64 * k" for k by (metis dvd_triv_left)
  from this [of 1] this [of 2] this [of 3] this [of 4]
  have neq: "unat n \<noteq> 64" "unat n \<noteq> 128" "unat n \<noteq> 192" "unat n \<noteq> 256" by simp_all
  note less = word_less_nat_alt [of 192 n, simplified] word_less_nat_alt [of 128 n, simplified] word_less_nat_alt [of 64 n, simplified]
  consider "unat n < 64" | "64 < unat n" "unat n < 128" | "128 < unat n" "unat n < 192"
    | "192 < unat n" "unat n < 256" | "256 < unat n" using neq by linarith
  then show ?thesis
  proof cases
    case 1 show ?thesis by (rule w0) (use 1 False less in simp_all)
  next
    case 2 show ?thesis by (rule w1) (use 2 False less unat_sub_less [of 64 n] in simp_all)
  next
    case 3 show ?thesis by (rule w2) (use 3 False less unat_sub_less [of 128 n] in simp_all)
  next
    case 4 show ?thesis by (rule w3) (use 4 False less unat_sub_less [of 192 n] in simp_all)
  next
    case 5 show ?thesis by (rule large) (use 5 False less unat_sub_less [of 192 n] in simp_all)
  qed
qed

lemma Rsh_value: "uval (Uint_Rsh x n) = uval x div 2 ^ unat n"
proof (cases n rule: shift_cases)
  case whole
  then show ?thesis
    by (elim disjE) (simp_all add: Uint_Rsh_def rsh_words radix_power div_mult2_eq [symmetric])
next
  case all
  then show ?thesis by (simp add: Uint_Rsh_def div_power_large)
next
  case large
  then show ?thesis by (simp add: Uint_Rsh_def div_power_large word_less_nat_alt)
next
  case w3
  then have "\<not> n > 256" by (simp add: word_less_nat_alt)
  with w3 show ?thesis
    by (simp only: Uint_Rsh_def if_True if_False rsh_tails rsh_rest_value rsh_words div_radix_power) (simp add: add.assoc)
next
  case w2
  then show ?thesis
    by (simp only: Uint_Rsh_def if_True if_False rsh_tails rsh_rest_value rsh_words div_radix_power) (simp add: add.assoc)
next
  case w1
  then show ?thesis
    by (simp only: Uint_Rsh_def if_True if_False rsh_tails rsh_rest_value rsh_words div_radix_power)
next
  case w0
  then show ?thesis
    by (simp only: Uint_Rsh_def if_True if_False rsh_rest_value)
qed


lemma lsh64_value: "uval (lsh64 x) = uval x * radix mod 2 ^ 256"
proof -
  obtain x0 x1 x2 x3 where x: "x = Uint x0 x1 x2 x3" by (cases x)
  have "uval x * radix = uval (lsh64 x) + 2 ^ 256 * unat x3"
    by (simp add: x uval_Uint radix_def)
  then have "uval x * radix mod 2 ^ 256 = uval (lsh64 x) mod 2 ^ 256"
    by (simp only: mod_mult_self2)
  then show ?thesis using uval_less [of "lsh64 x"] by (simp only: mod_less)
qed

lemma lsh_words: "lsh128 x = lsh64 (lsh64 x)" "lsh192 x = lsh64 (lsh64 (lsh64 x))"
  by (cases x; simp)+

lemma lsh_tails:
  "lsh_sh64 s 0 (lsh64 x) = lsh_rest s (lsh64 x)" "lsh_sh128 s 0 (lsh128 x) = lsh_rest s (lsh64 (lsh64 x))"
  "lsh_sh192 s 0 (lsh192 x) = lsh_rest s (lsh64 (lsh64 (lsh64 x)))"
  by (cases x; simp)+

lemma lsh_rest_value: "s < 64 \<Longrightarrow> uval (lsh_rest s x) = uval x * 2 ^ s mod 2 ^ 256"
proof -
  assume s: "s < 64"
  obtain x0 x1 x2 x3 where x: "x = Uint x0 x1 x2 x3" by (cases x)
  have r4: "radix ^ 4 = 2 ^ 256" by (simp add: radix_def)
  have words: "map (shlWord s [x0, x1, x2, x3]) [0..<4] = [push_bit s x0, push_bit s x1 OR drop_bit (64 - s) x0,
      push_bit s x2 OR drop_bit (64 - s) x1, push_bit s x3 OR drop_bit (64 - s) x2]"
    by (simp add: upt_rec numeral_eq_Suc shlWord_def)
  have "lval (map (shlWord s [x0, x1, x2, x3]) [0..<4]) + 2 ^ 256 * (unat x3 div 2 ^ (64 - s)) = 2 ^ s * lval [x0, x1, x2, x3]"
    using shlWord_value [of s 4 "[x0, x1, x2, x3]"] s unfolding r4 by simp
  moreover have "lsh_rest s x = Uint (push_bit s x0) (push_bit s x1 OR drop_bit (64 - s) x0)
      (push_bit s x2 OR drop_bit (64 - s) x1) (push_bit s x3 OR drop_bit (64 - s) x2)"
    by (simp add: x)
  ultimately have "uval (lsh_rest s x) + 2 ^ 256 * (unat x3 div 2 ^ (64 - s)) = uval x * 2 ^ s"
    by (simp only: words x uval_def limbs.simps mult.commute)
  then have "uval x * 2 ^ s mod 2 ^ 256 = uval (lsh_rest s x) mod 2 ^ 256"
    by (metis mod_mult_self2)
  then show ?thesis using uval_less [of "lsh_rest s x"] by (simp only: mod_less)
qed

lemma mul_radix_power: "(u * radix mod M) * 2 ^ k mod M = u * 2 ^ (64 + k) mod M"
  unfolding radix_power by (simp only: mod_mult_left_eq power_add mult.assoc)

lemma mul_power_large: "256 \<le> n \<Longrightarrow> u * 2 ^ n mod 2 ^ 256 = (0 :: nat)"
  by (metis dvd_mult le_imp_power_dvd mod_0_imp_dvd dvd_imp_mod_0)

lemma Lsh_value: "uval (Uint_Lsh x n) = uval x * 2 ^ unat n mod 2 ^ 256"
proof -
  have lsh: "uval (lsh x n) = uval x * 2 ^ unat n mod 2 ^ 256"
  proof (cases n rule: shift_cases)
    case whole
    have r: "(u * radix mod M) * radix mod M = u * 2 ^ 128 mod M" "(u * 2 ^ 128 mod M) * radix mod M = u * 2 ^ 192 mod M" for u M
      unfolding radix_power by (simp_all only: mod_mult_left_eq mult.assoc flip: power_add) simp_all
    from whole(2) consider "n = 0" | "n = 64" | "n = 128" | "n = 192" by blast
    then show ?thesis
    proof cases
      case 1 then show ?thesis using uval_less [of x] by (simp add: lsh_def)
    next
      case 2 then show ?thesis by (simp add: lsh_def lsh64_value radix_power)
    next
      case 3
      then have "lsh x n = lsh64 (lsh64 x)" by (simp add: lsh_def lsh_words)
      then show ?thesis by (simp only: lsh64_value r) (simp add: 3)
    next
      case 4
      then have "lsh x n = lsh64 (lsh64 (lsh64 x))" by (simp add: lsh_def lsh_words)
      then show ?thesis by (simp only: lsh64_value r) (simp add: 4)
    qed
  next
    case all
    then have "lsh x n = Uint_Zero" by (simp add: lsh_def)
    with all(6) show ?thesis by (simp only: mul_power_large uval_Zero)
  next
    case large
    then have "64 \<le> unat (n - 192)" by simp
    then have "push_bit (unat (n - 192)) w = 0" for w :: u64
      by (intro bit_word_eqI) (auto simp: bit_push_bit_iff)
    then have "lsh_sh192 (unat (n - 192)) 0 (lsh192 x) = Uint_Zero"
      by (cases x) (simp add: Uint_Zero_def)
    with large show ?thesis by (simp only: lsh_def if_True if_False mul_power_large uval_Zero less_imp_le)
  next
    case w3
    then show ?thesis
      by (simp only: lsh_def if_True if_False lsh_tails lsh_rest_value lsh64_value mul_radix_power) (simp add: add.assoc)
  next
    case w2
    then show ?thesis
      by (simp only: lsh_def if_True if_False lsh_tails lsh_rest_value lsh64_value mul_radix_power) (simp add: add.assoc)
  next
    case w1
    then show ?thesis
      by (simp only: lsh_def if_True if_False lsh_tails lsh_rest_value lsh64_value mul_radix_power)
  next
    case w0
    then show ?thesis
      by (simp only: lsh_def if_True if_False lsh_rest_value)
  qed
  show ?thesis
  proof (cases "Uint_IsZero x \<or> n = 0")
    case True
    then show ?thesis using uval_less [of x] by (auto simp: Uint_Lsh_def IsZero_uval)
  next
    case False
    then show ?thesis using lsh by (simp only: Uint_Lsh_def) simp
  qed
qed


section \<open>Bits\<close>

lemma bit_digits: "bit (unat (x :: u64) + radix * n) i \<longleftrightarrow> (if i < 64 then bit x i else bit n (i - 64))"
proof (cases "i < 64")
  case True
  have "take_bit 64 (unat x + radix * n) = unat x"
    unfolding take_bit_eq_mod radix_power [symmetric] by simp
  then have "bit (unat x) i \<longleftrightarrow> bit (unat x + radix * n) i"
    using True by (metis bit_take_bit_iff)
  then show ?thesis using True by (simp add: bit_unsigned_iff)
next
  case False
  have "drop_bit 64 (unat x + radix * n) = n"
    unfolding drop_bit_eq_div radix_power [symmetric] by simp
  then have "bit n (i - 64) \<longleftrightarrow> bit (unat x + radix * n) (64 + (i - 64))"
    by (metis bit_drop_bit_eq comp_apply)
  then show ?thesis using False by simp
qed

text \<open>The bit of a number, limb by limb.\<close>

lemma bit_uval:
  "bit (uval (Uint x0 x1 x2 x3)) i \<longleftrightarrow>
     (if i < 64 then bit x0 i else if i - 64 < 64 then bit x1 (i - 64)
      else if i - 64 - 64 < 64 then bit x2 (i - 64 - 64) else bit x3 (i - 64 - 64 - 64))"
  unfolding uval_Uint bit_digits by (simp add: bit_unsigned_iff)

lemma Or_value: "uval (Uint_Or x y) = or (uval x) (uval y)"
  by (cases x; cases y) (simp add: bit_eq_iff bit_or_iff bit_uval)

lemma And_value: "uval (Uint_And x y) = and (uval x) (uval y)"
  by (cases x; cases y) (simp add: bit_eq_iff bit_and_iff bit_uval)

lemma Xor_value: "uval (Uint_Xor x y) = xor (uval x) (uval y)"
  by (cases x; cases y) (simp add: bit_eq_iff bit_xor_iff bit_uval)

lemma AndNot_bit: "bit (uval (Uint_AndNot x y)) i \<longleftrightarrow> bit (uval x) i \<and> \<not> bit (uval y) i"
  by (cases x; cases y) (auto simp: bit_and_iff bit_not_iff bit_uval dest: bit_imp_le_length)

lemma Not_value: "uval (Uint_Not x) = 2 ^ 256 - 1 - uval x"
proof -
  obtain x0 x1 x2 x3 where x: "x = Uint x0 x1 x2 x3" by (cases x)
  have n: "unat (NOT w) + unat w = radix - 1" for w :: u64
    using unat_NOT [of w] unat_le_radix [of w] by simp
  have "uval (Uint_Not x) + uval x = (unat (NOT x0) + unat x0) + radix * ((unat (NOT x1) + unat x1)
      + radix * ((unat (NOT x2) + unat x2) + radix * (unat (NOT x3) + unat x3)))"
    by (simp add: x uval_Uint algebra_simps)
  also have "\<dots> = 2 ^ 256 - 1" by (simp only: n) (simp add: radix_def)
  finally show ?thesis by simp
qed

lemma natBits_unique: "2 ^ k \<le> n \<Longrightarrow> n < 2 ^ Suc k \<Longrightarrow> natBits n = Suc k"
proof -
  assume b: "2 ^ k \<le> n" "n < 2 ^ Suc k"
  have "natBits n \<le> Suc k" using b(2) by (rule natBits_le)
  moreover have "(2 :: nat) ^ k < 2 ^ natBits n" using b(1) natBits_bounds [of n] by linarith
  then have "k < natBits n" by (simp add: power_less_imp_less_exp)
  ultimately show ?thesis by simp
qed

lemma natBits_digit: "0 < n \<Longrightarrow> natBits (unat (x :: u64) + radix * n) = 64 + natBits n"
proof -
  assume n: "0 < n"
  then obtain k where k: "natBits n = Suc k" by (cases "natBits n") auto
  with n natBits_bounds [of n] have b: "2 ^ k \<le> n" "n + 1 \<le> 2 ^ Suc k" by simp_all
  have "2 ^ (64 + k) \<le> radix * n"
    using mult_le_mono2 [OF b(1), of radix] by (simp only: radix_power power_add)
  moreover have "radix * (n + 1) \<le> 2 ^ (64 + Suc k)"
    using mult_le_mono2 [OF b(2), of radix] by (simp only: radix_power power_add)
  then have "unat x + radix * n < 2 ^ Suc (64 + k)"
    using unat_radix [of x] by (simp only: add_Suc_right distrib_left)
  ultimately have "natBits (unat x + radix * n) = Suc (64 + k)" by (intro natBits_unique) linarith+
  then show ?thesis by (simp add: k)
qed

lemma BitLen_value: "BitLen x = natBits (uval x)"
proof -
  obtain x0 x1 x2 x3 where x: "x = Uint x0 x1 x2 x3" by (cases x)
  have pos: "w \<noteq> 0 \<Longrightarrow> 0 < unat w" for w :: u64 by (simp add: unat_gt_0)
  consider "x3 \<noteq> 0" | "x3 = 0" "x2 \<noteq> 0" | "x3 = 0" "x2 = 0" "x1 \<noteq> 0" | "x3 = 0" "x2 = 0" "x1 = 0" by blast
  then show ?thesis
    by cases (simp_all add: x uval_Uint Len64_def natBits_digit pos)
qed

section \<open>The refinement\<close>

lemma flagged_eqI: "uval (fst r) = n \<Longrightarrow> snd r \<longleftrightarrow> b \<Longrightarrow> r = (uint_of n, b)"
  by (cases r) (simp add: uint_of_eqI)

text \<open>C22: The four-limb routines (carry and borrow chains, the 512-bit product, Knuth's division with Moller and Granlund's reciprocals, shifts across limbs) refine arithmetic of numbers below \<open>2 ^ 256\<close>: the result is the number modulo \<open>2 ^ 256\<close>, the flag says whether that lost anything, and division fails on zero only.\<close>

theorem uint256_refines:
  "AddOverflow x y = (uint_of ((uval x + uval y) mod 2 ^ 256), 2 ^ 256 \<le> uval x + uval y)
   \<and> SubOverflow x y = (uint_of ((2 ^ 256 + uval x - uval y) mod 2 ^ 256), uval x < uval y)
   \<and> Uint_Mul x y = uint_of (uval x * uval y mod 2 ^ 256)
   \<and> MulOverflow x y = (uint_of (uval x * uval y mod 2 ^ 256), 2 ^ 256 \<le> uval x * uval y)
   \<and> DivMod x y = (if uval y = 0 then Inl DivisionByZero
                   else Inr (uint_of (uval x div uval y), uint_of (uval x mod uval y)))
   \<and> Uint_Lsh x n = uint_of (uval x * 2 ^ unat n mod 2 ^ 256)
   \<and> Uint_Rsh x n = uint_of (uval x div 2 ^ unat n)
   \<and> Uint_Cmp x y = (if uval x < uval y then - 1 else if uval x = uval y then 0 else 1)"
  by (simp only: flagged_eqI [OF AddOverflow_eq(2,1)] flagged_eqI [OF SubOverflow_eq(2,1)] flagged_eqI [OF MulOverflow_eq(2,1)]
      DivMod_exact Cmp_uval uint_of_eqI [OF Mul_uval] uint_of_eqI [OF Lsh_value] uint_of_eqI [OF Rsh_value])

end
