(* ===== verification/TokenBucket.thy ===== *)
theory TokenBucket
  imports Uint256Bits
begin

text \<open>
  The token bucket of \<^verbatim>\<open>p/onbloc/ibc/union/zkgm/tokenbucket\<close>, which limits what the ZKGM application mints
  or releases per denomination. A refill is anchored to the time of the last one. The theory relates it to
  the bucket of numbers, without the saturation, and bounds what a run of charges lets through.
\<close>

section \<open>Operations (tokenbucket.gno)\<close>

datatype bucket_error = ErrZeroCapacity | ErrZeroRefillRate | ErrRateLimitExceeded | ErrTokenBucketUnderflow

record token_bucket =
  Capacity :: uint256
  Available :: uint256
  RefillRate :: uint256
  LastRefill :: uint256

definition NewTokenBucket :: "uint256 \<Rightarrow> uint256 \<Rightarrow> uint256 \<Rightarrow> bucket_error + token_bucket" where
  "NewTokenBucket capacity refillRate now =
     (if Uint_IsZero capacity then Inl ErrZeroCapacity
      else if Uint_IsZero refillRate then Inl ErrZeroRefillRate
      else Inr \<lparr>Capacity = capacity, Available = capacity, RefillRate = refillRate, LastRefill = now\<rparr>)"

definition saturatingAdd :: "uint256 \<Rightarrow> uint256 \<Rightarrow> uint256" where
  "saturatingAdd x y = (let (z, overflow) = AddOverflow x y in if overflow then SetAllOne else z)"

definition saturatingMul :: "uint256 \<Rightarrow> uint256 \<Rightarrow> uint256" where
  "saturatingMul x y = (let (z, overflow) = MulOverflow x y in if overflow then SetAllOne else z)"

definition Uint_min :: "uint256 \<Rightarrow> uint256 \<Rightarrow> uint256" where
  "Uint_min x y = (if Uint_Lte x y then x else y)"

text \<open>A panic is the left value of \<open>Refill\<close>; \<open>RateLimit\<close> returns the bucket it leaves with its error.\<close>

definition Refill :: "token_bucket \<Rightarrow> uint256 \<Rightarrow> bucket_error + token_bucket" where
  "Refill tb now =
     (if Uint_Lte now (LastRefill tb) then Inr tb
      else if Uint_Gte (Available tb) (Capacity tb) then Inr (tb\<lparr>LastRefill := now\<rparr>)
      else let (elapsed, underflow) = SubOverflow now (LastRefill tb)
           in if underflow then Inl ErrTokenBucketUnderflow
              else let toRefill = saturatingMul (RefillRate tb) elapsed
                   in Inr (tb\<lparr>Available := Uint_min (Capacity tb) (saturatingAdd (Available tb) toRefill),
                              LastRefill := now\<rparr>))"

definition RateLimit :: "token_bucket \<Rightarrow> uint256 \<Rightarrow> uint256 \<Rightarrow> bucket_error + token_bucket \<times> bucket_error option" where
  "RateLimit tb amount now =
     (if Uint_IsZero amount then Inr (tb, None)
      else case Refill tb now of
             Inl e \<Rightarrow> Inl e
           | Inr tb \<Rightarrow>
               if Uint_Lt (Available tb) amount then Inr (tb, Some ErrRateLimitExceeded)
               else Inr (tb\<lparr>Available := Uint_Sub (Available tb) amount\<rparr>, None))"

definition UpdateBucket :: "token_bucket \<Rightarrow> uint256 \<Rightarrow> uint256 \<Rightarrow> bool \<Rightarrow> token_bucket \<times> bucket_error option" where
  "UpdateBucket tb capacity refillRate reset =
     (if Uint_IsZero capacity then (tb, Some ErrZeroCapacity)
      else if Uint_IsZero refillRate then (tb, Some ErrZeroRefillRate)
      else let tb = tb\<lparr>Capacity := capacity, RefillRate := refillRate\<rparr>
           in (if Uint_IsZero (LastRefill tb) \<or> reset then tb\<lparr>Available := Capacity tb\<rparr> else tb, None))"

section \<open>The bucket of numbers\<close>

text \<open>What is available after a refill at time \<open>now\<close>, without a bound on numbers.\<close>

definition refilled :: "token_bucket \<Rightarrow> nat \<Rightarrow> nat" where
  "refilled tb now =
     (if uval (Available tb) \<ge> uval (Capacity tb) then uval (Available tb)
      else min (uval (Capacity tb)) (uval (Available tb) + uval (RefillRate tb) * (now - uval (LastRefill tb))))"

lemma saturatingAdd_value: "uval (saturatingAdd x y) = min (2 ^ 256 - 1) (uval x + uval y)"
proof -
  obtain z f where a: "AddOverflow x y = (z, f)" by fastforce
  have "f \<longleftrightarrow> 2 ^ 256 \<le> uval x + uval y" "uval z = (uval x + uval y) mod 2 ^ 256"
    using AddOverflow_eq [of x y] by (simp_all only: a fst_conv snd_conv)
  then show ?thesis
    by (cases f) (simp_all add: saturatingAdd_def a uval_SetAllOne min_def)
qed

lemma saturatingMul_value: "uval (saturatingMul x y) = min (2 ^ 256 - 1) (uval x * uval y)"
proof -
  obtain z f where a: "MulOverflow x y = (z, f)" by fastforce
  have "f \<longleftrightarrow> 2 ^ 256 \<le> uval x * uval y" "uval z = uval x * uval y mod 2 ^ 256"
    using MulOverflow_eq [of x y] by (simp_all only: a fst_conv snd_conv)
  then show ?thesis
    by (cases f) (simp_all add: saturatingMul_def a uval_SetAllOne min_def)
qed

lemma Uint_min_value: "uval (Uint_min x y) = min (uval x) (uval y)"
  by (simp add: Uint_min_def cmp_uval)

text \<open>Saturation is invisible below the capacity, and the underflow of the elapsed time cannot happen.\<close>

lemma Refill_value:
  "\<exists>tb'. Refill tb now = Inr tb' \<and> Capacity tb' = Capacity tb \<and> RefillRate tb' = RefillRate tb
     \<and> uval (LastRefill tb') = max (uval now) (uval (LastRefill tb)) \<and> uval (Available tb') = refilled tb (uval now)"
proof -
  consider "uval now \<le> uval (LastRefill tb)"
    | "uval (LastRefill tb) < uval now" "uval (Capacity tb) \<le> uval (Available tb)"
    | "uval (LastRefill tb) < uval now" "uval (Available tb) < uval (Capacity tb)" by linarith
  then show ?thesis
  proof cases
    case 1
    then show ?thesis by (auto simp: Refill_def cmp_uval refilled_def)
  next
    case 2
    then show ?thesis by (auto simp: Refill_def cmp_uval refilled_def)
  next
    case 3
    obtain elapsed f where sub: "SubOverflow now (LastRefill tb) = (elapsed, f)" by fastforce
    have f: "\<not> f" using SubOverflow_eq(1) [of now "LastRefill tb"] 3 by (simp add: sub)
    have elapsed: "uval elapsed = uval now - uval (LastRefill tb)"
      using SubOverflow_value [OF sub] f 3 by simp
    have "min (uval (Capacity tb)) (min (2 ^ 256 - 1) (uval (Available tb) + min (2 ^ 256 - 1) (uval (RefillRate tb) * uval elapsed)))
      = min (uval (Capacity tb)) (uval (Available tb) + uval (RefillRate tb) * uval elapsed)"
      using uval_less [of "Capacity tb"] by (auto simp: min_def)
    with 3 show ?thesis
      by (simp add: Refill_def cmp_uval refilled_def sub f Let_def Uint_min_value saturatingAdd_value
          saturatingMul_value elapsed max_def)
  qed
qed

lemma RateLimit_value:
  assumes "0 < uval amount"
  shows "\<exists>tb'. Capacity tb' = Capacity tb \<and> RefillRate tb' = RefillRate tb
     \<and> uval (LastRefill tb') = max (uval now) (uval (LastRefill tb))
     \<and> RateLimit tb amount now = Inr (tb', if uval amount \<le> refilled tb (uval now) then None else Some ErrRateLimitExceeded)
     \<and> uval (Available tb') + (if uval amount \<le> refilled tb (uval now) then uval amount else 0) = refilled tb (uval now)"
proof -
  obtain tb' where r: "Refill tb now = Inr tb'" "Capacity tb' = Capacity tb" "RefillRate tb' = RefillRate tb"
    "uval (LastRefill tb') = max (uval now) (uval (LastRefill tb))" "uval (Available tb') = refilled tb (uval now)"
    using Refill_value by blast
  show ?thesis
  proof (cases "uval amount \<le> refilled tb (uval now)")
    case True
    with r assms have "RateLimit tb amount now = Inr (tb'\<lparr>Available := Uint_Sub (Available tb') amount\<rparr>, None)"
      by (simp add: RateLimit_def IsZero_uval Lt_uval)
    moreover have "uval (Uint_Sub (Available tb') amount) + uval amount = refilled tb (uval now)"
      using True r(5) by (simp add: Sub_uval_le)
    ultimately show ?thesis using r True
      by (intro exI [of _ "tb'\<lparr>Available := Uint_Sub (Available tb') amount\<rparr>"]) simp
  next
    case False
    with r assms show ?thesis by (simp add: RateLimit_def IsZero_uval Lt_uval)
  qed
qed

lemma RateLimit_total:
  "\<exists>tb'. RateLimit tb amount now = Inr (tb', if uval amount \<le> refilled tb (uval now) then None else Some ErrRateLimitExceeded)"
proof (cases "uval amount = 0")
  case True
  then show ?thesis by (simp add: RateLimit_def IsZero_uval)
next
  case False
  then show ?thesis using RateLimit_value [of amount tb now] by auto
qed

section \<open>Runs\<close>

text \<open>A run of charges, each an amount and a time: the amounts let through, and the bucket after it.\<close>

fun charges :: "token_bucket \<Rightarrow> (uint256 \<times> uint256) list \<Rightarrow> nat \<times> token_bucket" where
  "charges tb [] = (0, tb)"
| "charges tb ((amount, now) # rest) =
     (case RateLimit tb amount now of
        Inl e \<Rightarrow> (0, tb)
      | Inr (tb, err) \<Rightarrow>
          let (passed, tb) = charges tb rest
          in ((if err = None then uval amount else 0) + passed, tb))"

lemma refilled_bound:
  "refilled tb now \<le> uval (Available tb) + uval (RefillRate tb) * (now - uval (LastRefill tb))"
  by (auto simp: refilled_def)

lemma charge_step:
  assumes "RateLimit tb amount now = Inr (tb', err)"
  shows "(if err = None then uval amount else 0) + uval (Available tb')
      \<le> uval (Available tb) + uval (RefillRate tb) * (uval (LastRefill tb') - uval (LastRefill tb))
    \<and> RefillRate tb' = RefillRate tb \<and> Capacity tb' = Capacity tb \<and> uval (LastRefill tb) \<le> uval (LastRefill tb')
    \<and> (uval (Available tb) \<le> uval (Capacity tb) \<longrightarrow>
       (if err = None then uval amount else 0) + uval (Available tb') \<le> uval (Capacity tb))"
proof (cases "uval amount = 0")
  case True
  with assms show ?thesis by (auto simp: RateLimit_def IsZero_uval)
next
  case False
  then have "0 < uval amount" by simp
  from RateLimit_value [OF this, of tb now] assms
  have t: "Capacity tb' = Capacity tb" "RefillRate tb' = RefillRate tb"
    "uval (LastRefill tb') = max (uval now) (uval (LastRefill tb))"
    "err = (if uval amount \<le> refilled tb (uval now) then None else Some ErrRateLimitExceeded)"
    "uval (Available tb') + (if uval amount \<le> refilled tb (uval now) then uval amount else 0) = refilled tb (uval now)"
    by auto
  have "uval now - uval (LastRefill tb) = uval (LastRefill tb') - uval (LastRefill tb)" using t(3) by simp
  with refilled_bound [of tb "uval now"]
  have "refilled tb (uval now) \<le> uval (Available tb) + uval (RefillRate tb) * (uval (LastRefill tb') - uval (LastRefill tb))"
    by simp
  moreover have "uval (Available tb) \<le> uval (Capacity tb) \<longrightarrow> refilled tb (uval now) \<le> uval (Capacity tb)"
    by (auto simp: refilled_def)
  ultimately show ?thesis using t by (auto split: if_splits)
qed

lemma charges_bound:
  "charges tb cs = (passed, tb') \<Longrightarrow>
     passed + uval (Available tb') \<le> uval (Available tb) + uval (RefillRate tb) * (uval (LastRefill tb') - uval (LastRefill tb))
     \<and> RefillRate tb' = RefillRate tb \<and> uval (LastRefill tb) \<le> uval (LastRefill tb')"
proof (induction cs arbitrary: tb passed)
  case (Cons c cs)
  obtain amount now where c: "c = (amount, now)" by fastforce
  show ?case
  proof (cases "RateLimit tb amount now")
    case (Inl e)
    then show ?thesis using Cons.prems by (simp add: c)
  next
    case (Inr r)
    then obtain tb1 err where step: "RateLimit tb amount now = Inr (tb1, err)" by fastforce
    obtain t where rest: "charges tb1 cs = (t, tb')" and passed: "passed = (if err = None then uval amount else 0) + t"
      using Cons.prems by (auto simp: c step split: prod.splits)
    note s = charge_step [OF step] and ih = Cons.IH [OF rest]
    have "uval (RefillRate tb) * (uval (LastRefill tb1) - uval (LastRefill tb))
        + uval (RefillRate tb) * (uval (LastRefill tb') - uval (LastRefill tb1))
      = uval (RefillRate tb) * (uval (LastRefill tb') - uval (LastRefill tb))"
      using s ih by (simp flip: distrib_left)
    then show ?thesis using s ih passed by (auto split: if_splits)
  qed
qed simp

section \<open>The limit\<close>

text \<open>C23: The bucket never panics and lets an amount through exactly when it is available after the refill; whatever the amounts and the times, a run of charges lets through no more than what was available plus the refill rate times the time that passed, and what is left counts against it.\<close>

theorem bucket_limits:
  "(\<exists>tb'. RateLimit tb amount now = Inr (tb', if uval amount \<le> refilled tb (uval now) then None else Some ErrRateLimitExceeded))
   \<and> (let (passed, tb') = charges tb cs
      in passed + uval (Available tb')
         \<le> uval (Available tb) + uval (RefillRate tb) * (uval (LastRefill tb') - uval (LastRefill tb)))"
  using RateLimit_total [of tb amount now] charges_bound [of tb cs "fst (charges tb cs)" "snd (charges tb cs)"]
  by (simp add: split_beta)

end
