(* ===== verification/ZkgmPath.thy ===== *)
theory ZkgmPath
  imports Uint256Bits
begin

text \<open>
  Channel paths of \<^verbatim>\<open>p/onbloc/ibc/union/zkgm/path.gno\<close>: up to eight 32-bit channel ids in the slots of a
  256-bit integer, the first hop lowest. A path stands for the list of its hops; the operations are shown to
  be those of lists, and the reversal to be the one of the list, its own inverse on canonical paths.
\<close>

section \<open>Operations (path.gno)\<close>

datatype path_error = ErrChannelPathFull | ErrNonCanonicalPath

definition channelIDMaskU256 :: uint256 where
  "channelIDMaskU256 = NewUint 0xFFFFFFFF"

abbreviation maxHopIndex :: int where "maxHopIndex \<equiv> 7"
abbreviation MaxHops :: nat where "MaxHops \<equiv> 8"

definition DequeueChannelFromPath :: "uint256 \<Rightarrow> uint256 \<times> u32" where
  "DequeueChannelFromPath path =
     (if Uint_IsZero path then (Uint_Zero, 0)
      else (Uint_Rsh path 32, ucast (Uint_Uint64 (Uint_And path channelIDMaskU256))))"

definition GetChannelFromPath :: "uint256 \<Rightarrow> int \<Rightarrow> u32" where
  "GetChannelFromPath path index =
     (if index < 0 then 0
      else ucast (Uint_Uint64 (Uint_And (Uint_Rsh path (word_of_int index * 32)) channelIDMaskU256)))"

definition PopChannelFromPath :: "uint256 \<Rightarrow> uint256 \<times> u32" where
  "PopChannelFromPath path =
     (if Uint_IsZero path then (Uint_Zero, 0)
      else let highestIndex = word_of_nat (BitLen path - 1) div (32 :: u64);
               channelID = GetChannelFromPath path (int (unat highestIndex));
               slotMask = Uint_Lsh channelIDMaskU256 (highestIndex * 32)
           in (Uint_AndNot path slotMask, channelID))"

text \<open>\<^verbatim>\<open>HopCount\<close> also takes a nil path.\<close>

definition HopCount :: "uint256 option \<Rightarrow> int" where
  "HopCount path =
     (case path of None \<Rightarrow> 0
      | Some p \<Rightarrow> if Uint_IsZero p then 0 else (int (BitLen p) + 32 - 1) div 32)"

definition MakePathFromChannel :: "u32 \<Rightarrow> int \<Rightarrow> uint256" where
  "MakePathFromChannel channelID index =
     (if index < 0 then Uint_Zero else Uint_Lsh (NewUint (ucast channelID)) (word_of_int index * 32))"

definition UpdateChannelPath :: "uint256 \<Rightarrow> u32 \<Rightarrow> path_error + uint256" where
  "UpdateChannelPath path nextChannelID =
     (if Uint_IsZero path then Inr (NewUint (ucast nextChannelID))
      else let nextHopIndex = HopCount (Some path)
           in if nextHopIndex > maxHopIndex then Inl ErrChannelPathFull
              else Inr (Uint_Or (MakePathFromChannel nextChannelID nextHopIndex) path))"

definition IsCanonicalPath :: "uint256 \<Rightarrow> bool" where
  "IsCanonicalPath path = list_all (\<lambda>i. GetChannelFromPath path (int i) \<noteq> 0) [0..<nat (HopCount (Some path))]"

text \<open>\<open>reverseLoop n\<close> is the loop with \<open>n\<close> rounds left.\<close>

fun reverseLoop :: "nat \<Rightarrow> uint256 \<Rightarrow> uint256 \<Rightarrow> path_error + uint256" where
  "reverseLoop 0 cur reversed = Inl ErrChannelPathFull"
| "reverseLoop (Suc n) cur reversed =
     (let (tail, head) = PopChannelFromPath cur;
          updated = (if head \<noteq> 0 then UpdateChannelPath reversed head else Inr reversed)
      in case updated of
           Inl err \<Rightarrow> Inl err
         | Inr reversed \<Rightarrow> if Uint_IsZero tail then Inr reversed else reverseLoop n tail reversed)"

definition ReverseChannelPath :: "uint256 \<Rightarrow> path_error + uint256" where
  "ReverseChannelPath path =
     (if \<not> IsCanonicalPath path then Inl ErrNonCanonicalPath else reverseLoop MaxHops path Uint_Zero)"

section \<open>Paths and lists of hops\<close>

text \<open>The number a list of hops is written as, and the hops of a path.\<close>

fun hops_val :: "u32 list \<Rightarrow> nat" where
  "hops_val [] = 0"
| "hops_val (c # cs) = unat c + 2 ^ 32 * hops_val cs"

definition path_of :: "u32 list \<Rightarrow> uint256" where
  "path_of cs = uint_of (hops_val cs)"

definition hops :: "uint256 \<Rightarrow> u32 list" where
  "hops p = map (\<lambda>i. GetChannelFromPath p (int i)) [0..<nat (HopCount (Some p))]"

definition canonical :: "u32 list \<Rightarrow> bool" where
  "canonical cs \<longleftrightarrow> length cs \<le> 8 \<and> 0 \<notin> set cs"

lemma hops_val_less: "hops_val cs < 2 ^ (32 * length cs)"
proof (induction cs)
  case (Cons c cs)
  have "unat c + 2 ^ 32 * hops_val cs < 2 ^ 32 + 2 ^ 32 * hops_val cs"
    using unsigned_less [of c] by simp
  also have "\<dots> = 2 ^ 32 * (hops_val cs + 1)" by simp
  also have "\<dots> \<le> 2 ^ 32 * 2 ^ (32 * length cs)" using Cons by (intro mult_le_mono2) simp
  finally show ?case by (simp add: power_add)
qed simp

lemma hops_val_append: "hops_val (cs @ ds) = hops_val cs + 2 ^ (32 * length cs) * hops_val ds"
  by (induction cs) (simp_all add: power_add algebra_simps)

lemma uval_path_of: "length cs \<le> 8 \<Longrightarrow> uval (path_of cs) = hops_val cs"
proof -
  assume "length cs \<le> 8"
  then have "(2 :: nat) ^ (32 * length cs) \<le> 2 ^ 256" by (intro power_increasing) simp_all
  then show ?thesis
    unfolding path_of_def by (intro uval_uint_of less_le_trans [OF hops_val_less])
qed

lemma ucast_word_of_nat: "ucast (w :: u64) = (word_of_nat (unat w) :: u32)"
  by (simp add: unsigned_ucast_eq)

text \<open>A slot is a 32-bit digit of the number.\<close>

lemma masked_value: "ucast (Uint_Uint64 (Uint_And p channelIDMaskU256)) = (word_of_nat (uval p) :: u32)"
proof -
  have "and (uval p) 0xFFFFFFFF = uval p mod 2 ^ 32"
    using take_bit_eq_mask [of 32 "uval p"] by (simp add: take_bit_eq_mod mask_eq_exp_minus_1)
  then have "unat (Uint_Uint64 (Uint_And p channelIDMaskU256)) = uval p mod 2 ^ 32"
    by (simp add: Uint64_value And_value channelIDMaskU256_def radix_def)
  then show ?thesis
    by (simp only: ucast_word_of_nat) (simp add: word_of_nat_eq_iff take_bit_eq_mod)
qed

lemma shift_count_value:
  assumes "0 \<le> i" "i < 8"
  shows "unat (word_of_int i * 32 :: u64) = 32 * nat i"
proof -
  have "(word_of_int i * 32 :: u64) = word_of_nat (32 * nat i)" using assms by (simp add: mult.commute)
  then show ?thesis using assms by (simp only: unat_of_nat_radix) (simp add: radix_def)
qed

lemma Get_value:
  assumes "0 \<le> i" "i < 8"
  shows "GetChannelFromPath p i = word_of_nat (uval p div 2 ^ (32 * nat i))"
  using assms by (simp only: GetChannelFromPath_def masked_value Rsh_value shift_count_value) simp


text \<open>The number of slots a path occupies is the number of digits of its number.\<close>

definition digits :: "nat \<Rightarrow> nat" where
  "digits n = (if n = 0 then 0 else (natBits n - 1) div 32 + 1)"

lemma digits_bounds: "n < 2 ^ (32 * digits n)" "0 < n \<Longrightarrow> 2 ^ (32 * (digits n - 1)) \<le> n"
proof -
  have b: "n < 2 ^ natBits n" "0 < n \<Longrightarrow> 2 ^ natBits n \<le> 2 * n" using natBits_bounds [of n] by blast+
  show "n < 2 ^ (32 * digits n)"
  proof (cases "n = 0")
    case False
    have "natBits n \<le> 32 * ((natBits n - 1) div 32) + 32" by linarith
    then have "natBits n \<le> 32 * digits n" using False by (simp add: digits_def)
    then have "(2 :: nat) ^ natBits n \<le> 2 ^ (32 * digits n)" by (intro power_increasing) simp_all
    with b(1) show ?thesis by linarith
  qed simp
  assume n: "0 < n"
  then obtain k where k: "natBits n = Suc k" by (cases "natBits n") auto
  then have "(2 :: nat) ^ k \<le> n" using b(2) [OF n] by simp
  moreover have "32 * (digits n - 1) \<le> k" using n k by (simp add: digits_def)
  then have "(2 :: nat) ^ (32 * (digits n - 1)) \<le> 2 ^ k" by (intro power_increasing) simp_all
  ultimately show "2 ^ (32 * (digits n - 1)) \<le> n" by linarith
qed

lemma HopCount_value: "HopCount (Some p) = int (digits (uval p))"
proof (cases "uval p = 0")
  case False
  then obtain k where k: "natBits (uval p) = Suc k" by (cases "natBits (uval p)") auto
  have "int (BitLen p) + 32 - 1 = int (k + 32)" by (simp add: BitLen_value k)
  then show ?thesis using False k by (simp add: HopCount_def IsZero_uval digits_def zdiv_int)
qed (simp add: HopCount_def IsZero_uval digits_def)

lemma digits_le: "n < 2 ^ (32 * k) \<Longrightarrow> digits n \<le> k"
proof (cases "n = 0")
  case False
  assume "n < 2 ^ (32 * k)"
  then have "natBits n \<le> 32 * k" by (rule natBits_le)
  moreover have "0 < natBits n" using False by (metis natBits_eq_0_iff neq0_conv)
  ultimately show ?thesis by (simp add: digits_def False)
qed (simp add: digits_def)

lemma digits_le_8: "digits (uval p) \<le> 8"
  by (rule digits_le) (simp, use uval_less [of p] in simp)

lemma digits_unique: "2 ^ (32 * k) \<le> n \<Longrightarrow> n < 2 ^ (32 * Suc k) \<Longrightarrow> digits n = Suc k"
proof -
  assume b: "2 ^ (32 * k) \<le> n" "n < 2 ^ (32 * Suc k)"
  have "digits n \<le> Suc k" using b(2) by (rule digits_le)
  moreover have "(2 :: nat) ^ (32 * k) < 2 ^ (32 * digits n)"
    using b(1) digits_bounds(1) [of n] by linarith
  then have "k < digits n" by (simp add: power_less_imp_less_exp)
  ultimately show ?thesis by simp
qed

text \<open>Every path is the number of its hops, whatever they are.\<close>

lemma slots_value: "n < 2 ^ (32 * k) \<Longrightarrow> hops_val (map (\<lambda>i. word_of_nat (n div 2 ^ (32 * i))) [0..<k]) = n"
proof (induction k arbitrary: n)
  case (Suc k)
  have "n div 2 ^ 32 < 2 ^ (32 * k)"
    using Suc.prems by (simp add: less_mult_imp_div_less power_add mult.commute)
  note ih = Suc.IH [OF this]
  have "map (\<lambda>i. word_of_nat (n div 2 ^ (32 * i)) :: u32) [0..<Suc k]
    = word_of_nat n # map (\<lambda>i. word_of_nat (n div 2 ^ 32 div 2 ^ (32 * i))) [0..<k]"
    by (simp add: map_upt_Suc power_add div_mult2_eq del: upt_Suc)
  moreover have "unat (word_of_nat n :: u32) = n mod 2 ^ 32" by (simp add: unat_of_nat take_bit_eq_mod)
  ultimately show ?case using ih by simp
qed simp

lemma hops_eq: "hops p = map (\<lambda>i. word_of_nat (uval p div 2 ^ (32 * i))) [0..<digits (uval p)]"
  unfolding hops_def HopCount_value using digits_le_8 [of p] by (auto simp: Get_value)

lemma length_hops: "length (hops p) = digits (uval p)" "length (hops p) \<le> 8"
  using digits_le_8 [of p] by (simp_all add: hops_eq)

lemma hops_val_hops: "hops_val (hops p) = uval p"
  unfolding hops_eq by (rule slots_value) (rule digits_bounds(1))

lemma path_of_hops [simp]: "path_of (hops p) = p"
  by (simp add: path_of_def hops_val_hops)

lemma canonical_iff: "IsCanonicalPath p \<longleftrightarrow> canonical (hops p)"
  using length_hops(2) [of p]
  by (auto simp: IsCanonicalPath_def canonical_def hops_def list_all_iff)

text \<open>A list without a zero hop is read back.\<close>

lemma hops_val_top: "cs \<noteq> [] \<Longrightarrow> last cs \<noteq> 0 \<Longrightarrow> 2 ^ (32 * (length cs - 1)) \<le> hops_val cs"
proof (cases cs rule: rev_cases)
  case (snoc ds d)
  assume "last cs \<noteq> 0"
  then have "1 \<le> unat d" using snoc unat_gt_0 [of d] by simp
  then have "2 ^ (32 * length ds) * 1 \<le> 2 ^ (32 * length ds) * unat d" by (rule mult_le_mono2)
  moreover have "hops_val cs = hops_val ds + 2 ^ (32 * length ds) * unat d" "length cs - 1 = length ds"
    by (simp_all add: snoc hops_val_append)
  ultimately show ?thesis by (simp only: mult_1_right)
qed simp

lemma digits_hops_val: "canonical cs \<Longrightarrow> digits (hops_val cs) = length cs"
proof (cases "cs = []")
  case False
  assume c: "canonical cs"
  then have "last cs \<noteq> 0" using False by (metis canonical_def last_in_set)
  with False have "2 ^ (32 * (length cs - 1)) \<le> hops_val cs" by (rule hops_val_top)
  moreover have "hops_val cs < 2 ^ (32 * Suc (length cs - 1))"
    using hops_val_less [of cs] False by (cases cs) simp_all
  ultimately have "digits (hops_val cs) = Suc (length cs - 1)" by (rule digits_unique)
  then show ?thesis using False by (cases cs) simp_all
qed (simp add: digits_def)

lemma hops_val_inject: "length cs = length ds \<Longrightarrow> hops_val cs = hops_val ds \<Longrightarrow> cs = ds"
proof (induction cs ds rule: list_induct2)
  case (Cons c cs d ds)
  have m: "(unat c + 2 ^ 32 * hops_val cs) mod 2 ^ 32 = unat c" "(unat d + 2 ^ 32 * hops_val ds) mod 2 ^ 32 = unat d"
    "(unat c + 2 ^ 32 * hops_val cs) div 2 ^ 32 = hops_val cs" "(unat d + 2 ^ 32 * hops_val ds) div 2 ^ 32 = hops_val ds"
    using unat_u32_less [of c] unat_u32_less [of d] by simp_all
  then have "unat c = unat d" "hops_val cs = hops_val ds" using Cons.prems by (metis hops_val.simps(2))+
  then show ?case using Cons.IH by (simp add: word_unat_eq_iff)
qed simp

lemma hops_path_of: "canonical cs \<Longrightarrow> hops (path_of cs) = cs"
proof (rule hops_val_inject)
  assume c: "canonical cs"
  then have v: "uval (path_of cs) = hops_val cs" by (simp add: canonical_def uval_path_of)
  show "length (hops (path_of cs)) = length cs" using digits_hops_val [OF c] by (simp add: length_hops v)
  show "hops_val (hops (path_of cs)) = hops_val cs" by (simp add: hops_val_hops v)
qed


section \<open>The operations on hops\<close>

lemma word_of_nat_low: "n mod 2 ^ 32 = unat c \<Longrightarrow> (word_of_nat n :: u32) = c"
  by (simp add: word_unat_eq_iff unat_of_nat take_bit_eq_mod)

lemma Dequeue_value:
  "DequeueChannelFromPath (path_of (c # cs)) = (path_of cs, c)" if "length cs < 8"
proof -
  have len: "length (c # cs) \<le> 8" using that by simp
  show ?thesis
  proof (cases "hops_val (c # cs) = 0")
    case True
    then have "c = 0" "hops_val cs = 0" by (simp_all add: unat_eq_zero)
    then show ?thesis by (simp add: DequeueChannelFromPath_def IsZero_uval uval_path_of [OF len] True path_of_def)
  next
    case False
    have "uval (Uint_Rsh (path_of (c # cs)) 32) = hops_val (c # cs) div 2 ^ 32"
      by (simp only: Rsh_value uval_path_of [OF len]) simp
    also have "\<dots> = hops_val cs" using unat_u32_less [of c] by simp
    finally have "Uint_Rsh (path_of (c # cs)) 32 = path_of cs" unfolding path_of_def by (rule uint_of_eqI)
    moreover have "(word_of_nat (hops_val (c # cs)) :: u32) = c"
      by (rule word_of_nat_low) (use unat_u32_less [of c] in simp)
    ultimately show ?thesis
      using False unfolding DequeueChannelFromPath_def IsZero_uval masked_value uval_path_of [OF len]
      by (simp only: if_False)
  qed
qed


lemma unat_hop_word: "unat (ucast (c :: u32) :: u64) = unat c"
  using unat_u32_less [of c] by (simp add: unsigned_ucast_eq take_bit_nat_eq_self)

lemma slot_fits: "k < 8 \<Longrightarrow> n < 2 ^ 32 \<Longrightarrow> n * 2 ^ (32 * k) < (2 ^ 256 :: nat)"
proof -
  assume k: "k < 8" and n: "n < 2 ^ 32"
  have "n * 2 ^ (32 * k) < 2 ^ 32 * 2 ^ (32 * k)" using n by (rule mult_strict_right_mono) simp
  also have "\<dots> = 2 ^ (32 + 32 * k)" by (simp only: power_add)
  also have "\<dots> \<le> 2 ^ 256" using k by (intro power_increasing) simp_all
  finally show ?thesis .
qed

lemma slot_shift: "k < 8 \<Longrightarrow> n < 2 ^ 32 \<Longrightarrow> uval x = n \<Longrightarrow> unat s = 32 * k \<Longrightarrow> uval (Uint_Lsh x s) = n * 2 ^ (32 * k)"
  by (simp only: Lsh_value mod_less [OF slot_fits])

lemma Pop_value:
  assumes "canonical (cs @ [c])"
  shows "PopChannelFromPath (path_of (cs @ [c])) = (path_of cs, c)"
proof -
  define n k where "n = hops_val (cs @ [c])" and "k = length cs"
  have k: "k < 8" using assms by (simp add: canonical_def k_def)
  have p: "uval (path_of (cs @ [c])) = n" using assms by (simp add: n_def canonical_def uval_path_of)
  have n: "n = hops_val cs + unat c * 2 ^ (32 * k)" "hops_val cs < 2 ^ (32 * k)" "n < 2 ^ (32 + 32 * k)"
    using hops_val_less [of cs] hops_val_less [of "cs @ [c]"] by (simp_all add: n_def k_def hops_val_append)
  have dig: "digits n = Suc k" using digits_hops_val [OF assms] by (simp add: n_def k_def)
  then have nz: "n \<noteq> 0" unfolding digits_def by (metis Zero_neq_Suc)
  have top: "(natBits n - 1) div 32 = k" using dig nz by (simp add: digits_def)
  define h :: u64 where "h = word_of_nat (BitLen (path_of (cs @ [c])) - 1) div 32"
  have "natBits n \<le> 256" using natBits_le [of n "32 + 32 * k"] n(3) k by simp
  then have "unat (word_of_nat (natBits n - 1) :: u64) = natBits n - 1"
    by (intro word_of_nat_radix_eq) (simp add: radix_def)
  then have h: "unat h = k" using top by (simp add: h_def BitLen_value p unat_div)
  have "unat (h * 32) = 32 * k" using h k by (simp add: unat_word_ariths)
  then have mask: "uval (Uint_Lsh channelIDMaskU256 (h * 32)) = (2 ^ 32 - 1) * 2 ^ (32 * k)"
    by (rule slot_shift [OF k, rotated 2]) (simp_all add: channelIDMaskU256_def)
  have get: "GetChannelFromPath (path_of (cs @ [c])) (int (unat h)) = c"
  proof -
    have "n div 2 ^ (32 * k) = unat c" using n(1,2) by simp
    then show ?thesis using k by (simp add: Get_value h p)
  qed
  have "uval (Uint_AndNot (path_of (cs @ [c])) (Uint_Lsh channelIDMaskU256 (h * 32))) = hops_val cs"
  proof -
    have low: "take_bit (32 * k) n = hops_val cs" using n(1,2) by (simp add: take_bit_eq_mod)
    have maskbit: "bit ((2 ^ 32 - 1) * 2 ^ (32 * k) :: nat) i \<longleftrightarrow> 32 * k \<le> i \<and> i < 32 + 32 * k" for i
    proof -
      have "(2 ^ 32 - 1) * 2 ^ (32 * k) = (push_bit (32 * k) (mask 32) :: nat)"
        by (simp only: push_bit_eq_mult mask_eq_exp_minus_1)
      then show ?thesis by (auto simp: bit_simps)
    qed
    have "bit n i \<Longrightarrow> i < 32 + 32 * k" for i
      using n(3) by (metis bit_take_bit_iff take_bit_nat_eq_self)
    then have "bit (uval (Uint_AndNot (path_of (cs @ [c])) (Uint_Lsh channelIDMaskU256 (h * 32)))) i
        \<longleftrightarrow> bit (take_bit (32 * k) n) i" for i
      unfolding AndNot_bit p mask maskbit bit_take_bit_iff by fastforce
    then show ?thesis unfolding low by (rule bit_eqI)
  qed
  then have "Uint_AndNot (path_of (cs @ [c])) (Uint_Lsh channelIDMaskU256 (h * 32)) = path_of cs"
    unfolding path_of_def by (rule uint_of_eqI)
  then show ?thesis
    using nz get unfolding PopChannelFromPath_def Let_def h_def [symmetric] IsZero_uval p by (simp only: if_False)
qed

lemma canonical_zero: "canonical cs \<Longrightarrow> uval (path_of cs) = 0 \<longleftrightarrow> cs = []"
  using digits_hops_val [of cs] by (auto simp: canonical_def uval_path_of digits_def)

lemma Update_value:
  assumes "canonical cs"
  shows "UpdateChannelPath (path_of cs) c = (if length cs = 8 then Inl ErrChannelPathFull else Inr (path_of (cs @ [c])))"
proof (cases "cs = []")
  case True
  have "NewUint (ucast c) = path_of [c]"
    unfolding path_of_def by (rule uint_of_eqI) (simp add: unat_hop_word)
  then show ?thesis using True by (simp add: UpdateChannelPath_def IsZero_uval path_of_def)
next
  case False
  define k where "k = length cs"
  have p: "uval (path_of cs) = hops_val cs" and k8: "k \<le> 8" using assms by (simp_all add: canonical_def uval_path_of k_def)
  have hc: "HopCount (Some (path_of cs)) = int k"
    using digits_hops_val [OF assms] by (simp add: HopCount_value p k_def)
  show ?thesis
  proof (cases "k = 8")
    case True
    then show ?thesis
      using False canonical_zero [OF assms] hc by (simp add: UpdateChannelPath_def IsZero_uval k_def)
  next
    case k: False
    then have k8: "k < 8" using k8 by simp
    have "uval (MakePathFromChannel c (int k)) = unat c * 2 ^ (32 * k)"
      unfolding MakePathFromChannel_def using k8 unat_u32_less [of c] shift_count_value [of "int k"]
      by (simp add: slot_shift unat_hop_word)
    moreover have "or (unat c * 2 ^ (32 * k)) (hops_val cs) = unat c * 2 ^ (32 * k) + hops_val cs"
    proof (rule disjunctive_add_eq_or [symmetric], rule bit_eqI)
      fix i
      have "bit (hops_val cs) i \<Longrightarrow> i < 32 * k"
        using hops_val_less [of cs] by (metis k_def bit_take_bit_iff take_bit_nat_eq_self)
      moreover have "bit (unat c * 2 ^ (32 * k)) i \<Longrightarrow> 32 * k \<le> i"
        by (simp only: push_bit_eq_mult [symmetric]) (simp add: bit_simps)
      ultimately show "bit (and (unat c * 2 ^ (32 * k)) (hops_val cs)) i = bit 0 i"
        by (auto simp: bit_and_iff)
    qed
    ultimately have "uval (Uint_Or (MakePathFromChannel c (int k)) (path_of cs)) = hops_val (cs @ [c])"
      by (simp add: Or_value p hops_val_append k_def)
    then have "Uint_Or (MakePathFromChannel c (int k)) (path_of cs) = path_of (cs @ [c])"
      unfolding path_of_def by (rule uint_of_eqI)
    then show ?thesis
      using False k8 canonical_zero [OF assms] hc by (simp add: UpdateChannelPath_def IsZero_uval k_def)
  qed
qed


text \<open>The loop moves the hops of the path, last first, behind those already reversed.\<close>

lemma canonical_snoc: "canonical (cs @ [c]) \<longleftrightarrow> canonical cs \<and> length cs < 8 \<and> c \<noteq> 0"
  by (auto simp: canonical_def)

lemma reverseLoop_value:
  assumes "canonical (cs @ [c])" "canonical ds" "length cs + length ds < 8" "length cs < n"
  shows "reverseLoop n (path_of (cs @ [c])) (path_of ds) = Inr (path_of (ds @ c # rev cs))"
  using assms
proof (induction n arbitrary: cs c ds)
  case (Suc n)
  note pop = Pop_value [OF Suc.prems(1)]
  have c: "c \<noteq> 0" and cs: "canonical cs" using Suc.prems(1) by (simp_all add: canonical_snoc)
  have up: "UpdateChannelPath (path_of ds) c = Inr (path_of (ds @ [c]))"
    using Suc.prems(2,3) by (simp add: Update_value)
  show ?case
  proof (cases cs rule: rev_cases)
    case Nil
    moreover have "path_of [] = Uint_Zero" by (simp add: path_of_def)
    ultimately show ?thesis using pop c up by (simp add: IsZero_uval)
  next
    case (snoc bs b)
    have "\<not> Uint_IsZero (path_of cs)" using canonical_zero [OF cs] snoc by (simp add: IsZero_uval)
    moreover have "reverseLoop n (path_of (bs @ [b])) (path_of (ds @ [c])) = Inr (path_of ((ds @ [c]) @ b # rev bs))"
      using Suc.prems snoc cs c by (intro Suc.IH) (auto simp: canonical_snoc)
    ultimately show ?thesis using pop c up snoc by simp
  qed
qed simp

lemma Reverse_value:
  "ReverseChannelPath p = (if 0 \<in> set (hops p) then Inl ErrNonCanonicalPath else Inr (path_of (rev (hops p))))"
proof (cases "0 \<in> set (hops p)")
  case False
  then have c: "canonical (hops p)" by (simp add: canonical_def length_hops(2))
  show ?thesis
  proof (cases "hops p" rule: rev_cases)
    case Nil
    then have "p = Uint_Zero" using path_of_hops [of p] by (simp add: path_of_def)
    moreover have "reverseLoop MaxHops Uint_Zero Uint_Zero = Inr Uint_Zero"
      by (simp add: numeral_eq_Suc PopChannelFromPath_def IsZero_uval)
    ultimately show ?thesis using Nil False c by (simp add: ReverseChannelPath_def canonical_iff path_of_def)
  next
    case (snoc cs c')
    have "reverseLoop MaxHops (path_of (cs @ [c'])) (path_of []) = Inr (path_of ([] @ c' # rev cs))"
      using c by (intro reverseLoop_value) (auto simp: snoc canonical_snoc canonical_def)
    moreover have "path_of (cs @ [c']) = p" using path_of_hops [of p] by (simp add: snoc)
    ultimately show ?thesis using False c by (simp add: ReverseChannelPath_def canonical_iff snoc path_of_def)
  qed
qed (simp add: ReverseChannelPath_def canonical_iff canonical_def)

lemma Reverse_hops: "ReverseChannelPath p = Inr q \<Longrightarrow> hops q = rev (hops p)"
  by (auto simp: Reverse_value hops_path_of canonical_def length_hops(2) split: if_splits)

lemma Reverse_involution: "ReverseChannelPath p = Inr q \<Longrightarrow> ReverseChannelPath q = Inr p"
  using Reverse_hops [of p q] by (simp add: Reverse_value split: if_splits)

text \<open>C24: ReverseChannelPath reverses the hops of a path of at most eight channels, and reversing again gives the path back; it refuses exactly the paths with a zero hop below a later one.\<close>

theorem path_reversal:
  "case ReverseChannelPath p of
     Inl e \<Rightarrow> e = ErrNonCanonicalPath \<and> 0 \<in> set (hops p)
   | Inr q \<Rightarrow> 0 \<notin> set (hops p) \<and> hops q = rev (hops p) \<and> ReverseChannelPath q = Inr p"
proof (cases "ReverseChannelPath p")
  case (Inl e)
  then show ?thesis by (simp add: Reverse_value split: if_splits)
next
  case (Inr q)
  moreover have "0 \<notin> set (hops p)" using Inr by (simp add: Reverse_value split: if_splits)
  ultimately show ?thesis using Reverse_hops [OF Inr] Reverse_involution [OF Inr] by simp
qed

end
