(* ===== verification/ZkgmAbi.thy ===== *)
theory ZkgmAbi
  imports ZkgmPath IbcTypes
begin

text \<open>
  The wire formats of the ZKGM protocol (\<^verbatim>\<open>p/onbloc/ibc/union/zkgm\<close>: \<^verbatim>\<open>types.gno\<close>, \<^verbatim>\<open>constants.gno\<close>,
  \<^verbatim>\<open>abi.gno\<close>): instructions, packets, orders and acknowledgements as ABI tuples. A \<^verbatim>\<open>*u256.Uint\<close> is a
  number: the codecs neither read nor write a nil one. A decoded channel path has to be canonical.
\<close>

section \<open>Data (types.gno, constants.gno)\<close>

record Instruction =
  ins_Version :: byte
  ins_Opcode :: byte
  ins_Operand :: bytes

record ZkgmPacket =
  zp_Salt :: bytes
  zp_Path :: uint256
  zp_Instruction :: Instruction

record Forward =
  fwd_Path :: uint256
  fwd_TimeoutHeight :: u64
  fwd_TimeoutTimestamp :: u64
  fwd_Instruction :: Instruction

record Call =
  call_Sender :: bytes
  call_Eureka :: bool
  call_ContractAddress :: bytes
  call_ContractCalldata :: bytes

record Batch =
  bat_Instructions :: "Instruction list"

record TokenOrderV1 =
  o1_Sender :: bytes
  o1_Receiver :: bytes
  o1_BaseToken :: bytes
  o1_BaseAmount :: uint256
  o1_BaseTokenSymbol :: string
  o1_BaseTokenName :: string
  o1_BaseTokenDecimals :: byte
  o1_BaseTokenPath :: uint256
  o1_QuoteToken :: bytes
  o1_QuoteAmount :: uint256

record TokenOrderV2 =
  o_Sender :: bytes
  o_Receiver :: bytes
  o_BaseToken :: bytes
  o_BaseAmount :: uint256
  o_QuoteToken :: bytes
  o_QuoteAmount :: uint256
  o_Kind :: byte
  o_Metadata :: bytes

record TokenMetadata =
  tm_Implementation :: bytes
  tm_Initializer :: bytes

record TokenInitializer =
  ti_Authority :: bytes
  ti_Minter :: bytes
  ti_Name :: string
  ti_Symbol :: string
  ti_Decimals :: byte

record SolverMetadata =
  sm_SolverAddress :: bytes
  sm_Metadata :: bytes

record Ack =
  ack_Tag :: uint256
  ack_InnerAck :: bytes

record BatchAck =
  ba_Acknowledgements :: "bytes list"

record TokenOrderAck =
  oa_FillType :: uint256
  oa_MarketMaker :: bytes

definition BURN_ADDRESS :: string where "BURN_ADDRESS = ''g1qqqqqqqqqqqqqqqqqqqqqqqqqqqqqqqqqluuxe''"

definition INSTR_VERSION_0 :: byte where "INSTR_VERSION_0 = 0x00"
definition INSTR_VERSION_2 :: byte where "INSTR_VERSION_2 = 0x02"
definition OP_FORWARD :: byte where "OP_FORWARD = 0x00"
definition OP_CALL :: byte where "OP_CALL = 0x01"
definition OP_BATCH :: byte where "OP_BATCH = 0x02"
definition OP_TOKEN_ORDER :: byte where "OP_TOKEN_ORDER = 0x03"
definition TOKEN_ORDER_KIND_INITIALIZE :: byte where "TOKEN_ORDER_KIND_INITIALIZE = 0x00"
definition TOKEN_ORDER_KIND_ESCROW :: byte where "TOKEN_ORDER_KIND_ESCROW = 0x01"
definition TOKEN_ORDER_KIND_UNESCROW :: byte where "TOKEN_ORDER_KIND_UNESCROW = 0x02"
definition TOKEN_ORDER_KIND_SOLVE :: byte where "TOKEN_ORDER_KIND_SOLVE = 0x03"
definition PROTOCOL_VERSION :: string where "PROTOCOL_VERSION = ''ucs03-zkgm-0''"

definition ACK_ERR_ONLY_MAKER :: bytes where "ACK_ERR_ONLY_MAKER = [0xDE, 0xAD, 0xC0, 0xDE]"
definition TAG_ACK_FAILURE :: bytes where "TAG_ACK_FAILURE = replicate 32 0"
definition TAG_ACK_SUCCESS :: bytes where "TAG_ACK_SUCCESS = replicate 31 0 @ [0x01]"
definition FILL_TYPE_PROTOCOL :: bytes where "FILL_TYPE_PROTOCOL = replicate 29 0 @ [0xB0, 0xCA, 0xD0]"
definition FILL_TYPE_MARKETMAKER :: bytes where "FILL_TYPE_MARKETMAKER = replicate 28 0 @ [0xD1, 0xCE, 0xC4, 0x5E]"
definition FORWARD_SALT_MAGIC :: bytes where "FORWARD_SALT_MAGIC = [0xC0, 0xDE] @ replicate 28 0 @ [0xBA, 0xBE]"

lemmas kind_defs = TOKEN_ORDER_KIND_INITIALIZE_def TOKEN_ORDER_KIND_ESCROW_def TOKEN_ORDER_KIND_UNESCROW_def
  TOKEN_ORDER_KIND_SOLVE_def

lemmas opcode_defs = OP_FORWARD_def OP_CALL_def OP_BATCH_def OP_TOKEN_ORDER_def

section \<open>Schemas (abi.gno)\<close>

definition struct :: "field list \<Rightarrow> field" where "struct fs = Field TypeStruct (Some fs) None"
definition array :: "field \<Rightarrow> field" where "array f = Field TypeArray None (Some f)"

definition InstructionSchema :: "field list" where
  "InstructionSchema = [plain TypeUint8, plain TypeUint8, plain TypeBytes]"

definition CallSchema :: "field list" where
  "CallSchema = [plain TypeBytes, plain TypeBool, plain TypeBytes, plain TypeBytes]"

definition ZkgmPacketSchema :: "field list" where
  "ZkgmPacketSchema = [plain TypeBytes32, plain TypeUint256, struct InstructionSchema]"

definition ForwardSchema :: "field list" where
  "ForwardSchema = [plain TypeUint256, plain TypeUint64, plain TypeUint64, struct InstructionSchema]"

definition BatchSchema :: "field list" where
  "BatchSchema = [array (struct InstructionSchema)]"

definition TokenOrderV2Schema :: "field list" where
  "TokenOrderV2Schema = [plain TypeBytes, plain TypeBytes, plain TypeBytes, plain TypeUint256, plain TypeBytes,
     plain TypeUint256, plain TypeUint8, plain TypeBytes]"

definition TokenOrderV1Schema :: "field list" where
  "TokenOrderV1Schema = [plain TypeBytes, plain TypeBytes, plain TypeBytes, plain TypeUint256, plain TypeString,
     plain TypeString, plain TypeUint8, plain TypeUint256, plain TypeBytes, plain TypeUint256]"

definition AckSchema :: "field list" where "AckSchema = [plain TypeUint256, plain TypeBytes]"
definition BatchAckSchema :: "field list" where "BatchAckSchema = [array (plain TypeBytes)]"
definition TokenOrderAckSchema :: "field list" where "TokenOrderAckSchema = [plain TypeUint256, plain TypeBytes]"
definition TokenMetadataSchema :: "field list" where "TokenMetadataSchema = [plain TypeBytes, plain TypeBytes]"

definition tokenInitializerSelector :: bytes where
  "tokenInitializerSelector = [0x84, 0x20, 0xce, 0x99]"

definition TokenInitializerSchema :: "field list" where
  "TokenInitializerSchema = [plain TypeAddress, plain TypeAddress, plain TypeString, plain TypeString, plain TypeUint8]"

definition SolverMetadataSchema :: "field list" where
  "SolverMetadataSchema = [plain TypeBytes, plain TypeBytes]"

definition PredictWrappedTokenSchema :: "field list" where
  "PredictWrappedTokenSchema = [plain TypeUint256, plain TypeUint32, plain TypeBytes]"

definition PredictV2Schema :: "field list" where
  "PredictV2Schema = [plain TypeUint256, plain TypeUint32, plain TypeBytes, plain TypeUint256]"

lemmas zkgm_schemas = InstructionSchema_def CallSchema_def ZkgmPacketSchema_def ForwardSchema_def BatchSchema_def
  TokenOrderV2Schema_def TokenOrderV1Schema_def AckSchema_def BatchAckSchema_def TokenOrderAckSchema_def
  TokenMetadataSchema_def TokenInitializerSchema_def SolverMetadataSchema_def PredictWrappedTokenSchema_def
  PredictV2Schema_def struct_def array_def

section \<open>Codecs (abi.gno)\<close>

text \<open>\<open>CodecTypeAssertion\<close> is the panic of a failed \<^verbatim>\<open>v.(T)\<close>.\<close>

datatype codec_error = CodecAbi abi_error | CodecPath path_error | CodecSelector | CodecTypeAssertion

definition codec :: "abi_error + 'a \<Rightarrow> codec_error + 'a" where
  "codec r = (case r of Inl e \<Rightarrow> Inl (CodecAbi e) | Inr x \<Rightarrow> Inr x)"

definition instructionValues :: "Instruction \<Rightarrow> abi_value list" where
  "instructionValues ins = [VUint8 (ins_Version ins), VUint8 (ins_Opcode ins), VBytes (ins_Operand ins)]"

definition instructionFromValues :: "abi_value list \<Rightarrow> codec_error + Instruction" where
  "instructionFromValues values =
     (case values of
        VUint8 v # VUint8 c # VBytes operand # _ \<Rightarrow>
          Inr \<lparr>ins_Version = v, ins_Opcode = c, ins_Operand = operand\<rparr>
      | _ \<Rightarrow> Inl CodecTypeAssertion)"

definition EncodeZkgmPacket :: "ZkgmPacket \<Rightarrow> codec_error + bytes" where
  "EncodeZkgmPacket p =
     codec (Encode ZkgmPacketSchema
       [VBytes32 (zp_Salt p), VUint256 (Some (zp_Path p)), VList (instructionValues (zp_Instruction p))])"

definition DecodeZkgmPacket :: "bytes \<Rightarrow> codec_error + ZkgmPacket" where
  "DecodeZkgmPacket data =
     (case Decode ZkgmPacketSchema data of
        Inl e \<Rightarrow> Inl (CodecAbi e)
      | Inr [VBytes32 salt, VUint256 (Some path), VList ins] \<Rightarrow>
          if \<not> IsCanonicalPath path then Inl (CodecPath ErrNonCanonicalPath)
          else (case instructionFromValues ins of
                  Inl e \<Rightarrow> Inl e
                | Inr i \<Rightarrow> Inr \<lparr>zp_Salt = salt, zp_Path = path, zp_Instruction = i\<rparr>)
      | Inr _ \<Rightarrow> Inl CodecTypeAssertion)"

definition EncodeInstruction :: "Instruction \<Rightarrow> codec_error + bytes" where
  "EncodeInstruction ins = codec (Encode InstructionSchema (instructionValues ins))"

definition DecodeInstruction :: "bytes \<Rightarrow> codec_error + Instruction" where
  "DecodeInstruction data =
     (case Decode InstructionSchema data of Inl e \<Rightarrow> Inl (CodecAbi e) | Inr out \<Rightarrow> instructionFromValues out)"

definition EncodeForward :: "Forward \<Rightarrow> codec_error + bytes" where
  "EncodeForward f =
     codec (Encode ForwardSchema
       [VUint256 (Some (fwd_Path f)), VUint64 (fwd_TimeoutHeight f), VUint64 (fwd_TimeoutTimestamp f),
        VList (instructionValues (fwd_Instruction f))])"

definition DecodeForward :: "bytes \<Rightarrow> codec_error + Forward" where
  "DecodeForward data =
     (case Decode ForwardSchema data of
        Inl e \<Rightarrow> Inl (CodecAbi e)
      | Inr [VUint256 (Some path), VUint64 height, VUint64 timestamp, VList ins] \<Rightarrow>
          if \<not> IsCanonicalPath path then Inl (CodecPath ErrNonCanonicalPath)
          else (case instructionFromValues ins of
                  Inl e \<Rightarrow> Inl e
                | Inr i \<Rightarrow> Inr \<lparr>fwd_Path = path, fwd_TimeoutHeight = height, fwd_TimeoutTimestamp = timestamp,
                               fwd_Instruction = i\<rparr>)
      | Inr _ \<Rightarrow> Inl CodecTypeAssertion)"

definition EncodeCall :: "Call \<Rightarrow> codec_error + bytes" where
  "EncodeCall c =
     codec (Encode CallSchema
       [VBytes (call_Sender c), VBool (call_Eureka c), VBytes (call_ContractAddress c), VBytes (call_ContractCalldata c)])"

definition DecodeCall :: "bytes \<Rightarrow> codec_error + Call" where
  "DecodeCall data =
     (case Decode CallSchema data of
        Inl e \<Rightarrow> Inl (CodecAbi e)
      | Inr [VBytes sender, VBool eureka, VBytes contract, VBytes calldata] \<Rightarrow>
          Inr \<lparr>call_Sender = sender, call_Eureka = eureka, call_ContractAddress = contract, call_ContractCalldata = calldata\<rparr>
      | Inr _ \<Rightarrow> Inl CodecTypeAssertion)"

definition EncodeBatch :: "Batch \<Rightarrow> codec_error + bytes" where
  "EncodeBatch b = codec (Encode BatchSchema [VList (map (\<lambda>ins. VList (instructionValues ins)) (bat_Instructions b))])"

fun instructionsFrom :: "abi_value list \<Rightarrow> codec_error + Instruction list" where
  "instructionsFrom [] = Inr []"
| "instructionsFrom (VList values # items) =
     (case instructionFromValues values of
        Inl e \<Rightarrow> Inl e
      | Inr i \<Rightarrow> (case instructionsFrom items of Inl e \<Rightarrow> Inl e | Inr is \<Rightarrow> Inr (i # is)))"
| "instructionsFrom (_ # items) = Inl CodecTypeAssertion"

definition DecodeBatch :: "bytes \<Rightarrow> codec_error + Batch" where
  "DecodeBatch data =
     (case Decode BatchSchema data of
        Inl e \<Rightarrow> Inl (CodecAbi e)
      | Inr [VList items] \<Rightarrow>
          (case instructionsFrom items of Inl e \<Rightarrow> Inl e | Inr is \<Rightarrow> Inr \<lparr>bat_Instructions = is\<rparr>)
      | Inr _ \<Rightarrow> Inl CodecTypeAssertion)"

definition EncodeTokenOrderV1 :: "TokenOrderV1 \<Rightarrow> codec_error + bytes" where
  "EncodeTokenOrderV1 ord =
     codec (Encode TokenOrderV1Schema
       [VBytes (o1_Sender ord), VBytes (o1_Receiver ord), VBytes (o1_BaseToken ord), VUint256 (Some (o1_BaseAmount ord)),
        VString (o1_BaseTokenSymbol ord), VString (o1_BaseTokenName ord), VUint8 (o1_BaseTokenDecimals ord),
        VUint256 (Some (o1_BaseTokenPath ord)), VBytes (o1_QuoteToken ord), VUint256 (Some (o1_QuoteAmount ord))])"

definition DecodeTokenOrderV1 :: "bytes \<Rightarrow> codec_error + TokenOrderV1" where
  "DecodeTokenOrderV1 data =
     (case Decode TokenOrderV1Schema data of
        Inl e \<Rightarrow> Inl (CodecAbi e)
      | Inr [VBytes sender, VBytes receiver, VBytes base, VUint256 (Some amount), VString symbol, VString name,
             VUint8 decimals, VUint256 (Some path), VBytes quote, VUint256 (Some quoteAmount)] \<Rightarrow>
          if \<not> IsCanonicalPath path then Inl (CodecPath ErrNonCanonicalPath)
          else Inr \<lparr>o1_Sender = sender, o1_Receiver = receiver, o1_BaseToken = base, o1_BaseAmount = amount,
                    o1_BaseTokenSymbol = symbol, o1_BaseTokenName = name, o1_BaseTokenDecimals = decimals,
                    o1_BaseTokenPath = path, o1_QuoteToken = quote, o1_QuoteAmount = quoteAmount\<rparr>
      | Inr _ \<Rightarrow> Inl CodecTypeAssertion)"

definition EncodeTokenOrderV2 :: "TokenOrderV2 \<Rightarrow> codec_error + bytes" where
  "EncodeTokenOrderV2 ord =
     codec (Encode TokenOrderV2Schema
       [VBytes (o_Sender ord), VBytes (o_Receiver ord), VBytes (o_BaseToken ord), VUint256 (Some (o_BaseAmount ord)),
        VBytes (o_QuoteToken ord), VUint256 (Some (o_QuoteAmount ord)), VUint8 (o_Kind ord), VBytes (o_Metadata ord)])"

definition DecodeTokenOrderV2 :: "bytes \<Rightarrow> codec_error + TokenOrderV2" where
  "DecodeTokenOrderV2 data =
     (case Decode TokenOrderV2Schema data of
        Inl e \<Rightarrow> Inl (CodecAbi e)
      | Inr [VBytes sender, VBytes receiver, VBytes base, VUint256 (Some baseAmount), VBytes quote,
             VUint256 (Some quoteAmount), VUint8 kind, VBytes metadata] \<Rightarrow>
          Inr \<lparr>o_Sender = sender, o_Receiver = receiver, o_BaseToken = base, o_BaseAmount = baseAmount,
               o_QuoteToken = quote, o_QuoteAmount = quoteAmount, o_Kind = kind, o_Metadata = metadata\<rparr>
      | Inr _ \<Rightarrow> Inl CodecTypeAssertion)"

definition EncodeTokenInitializer :: "TokenInitializer \<Rightarrow> codec_error + bytes" where
  "EncodeTokenInitializer i =
     (let authority = (if length (ti_Authority i) = 0 then replicate 20 0 else ti_Authority i);
          minter = (if length (ti_Minter i) = 0 then replicate 20 0 else ti_Minter i)
      in case Encode TokenInitializerSchema
                [VBytes authority, VBytes minter, VString (ti_Name i), VString (ti_Symbol i), VUint8 (ti_Decimals i)] of
           Inl e \<Rightarrow> Inl (CodecAbi e)
         | Inr body \<Rightarrow> Inr (tokenInitializerSelector @ body))"

definition DecodeTokenInitializer :: "bytes \<Rightarrow> codec_error + TokenInitializer" where
  "DecodeTokenInitializer data =
     (if length data < 4 \<or> take 4 data \<noteq> tokenInitializerSelector then Inl CodecSelector
      else case Decode TokenInitializerSchema (drop 4 data) of
             Inl e \<Rightarrow> Inl (CodecAbi e)
           | Inr [VBytes authority, VBytes minter, VString name, VString symbol, VUint8 decimals] \<Rightarrow>
               Inr \<lparr>ti_Authority = authority, ti_Minter = minter, ti_Name = name, ti_Symbol = symbol, ti_Decimals = decimals\<rparr>
           | Inr _ \<Rightarrow> Inl CodecTypeAssertion)"

definition EncodeTokenMetadata :: "TokenMetadata \<Rightarrow> codec_error + bytes" where
  "EncodeTokenMetadata m =
     codec (Encode TokenMetadataSchema [VBytes (tm_Implementation m), VBytes (tm_Initializer m)])"

definition DecodeTokenMetadata :: "bytes \<Rightarrow> codec_error + TokenMetadata" where
  "DecodeTokenMetadata data =
     (case Decode TokenMetadataSchema data of
        Inl e \<Rightarrow> Inl (CodecAbi e)
      | Inr [VBytes implementation, VBytes initializer] \<Rightarrow>
          Inr \<lparr>tm_Implementation = implementation, tm_Initializer = initializer\<rparr>
      | Inr _ \<Rightarrow> Inl CodecTypeAssertion)"

definition EncodeSolverMetadata :: "SolverMetadata \<Rightarrow> codec_error + bytes" where
  "EncodeSolverMetadata m = codec (Encode SolverMetadataSchema [VBytes (sm_SolverAddress m), VBytes (sm_Metadata m)])"

definition DecodeSolverMetadata :: "bytes \<Rightarrow> codec_error + SolverMetadata" where
  "DecodeSolverMetadata data =
     (case Decode SolverMetadataSchema data of
        Inl e \<Rightarrow> Inl (CodecAbi e)
      | Inr [VBytes solver, VBytes metadata] \<Rightarrow> Inr \<lparr>sm_SolverAddress = solver, sm_Metadata = metadata\<rparr>
      | Inr _ \<Rightarrow> Inl CodecTypeAssertion)"

definition EncodeAck :: "Ack \<Rightarrow> codec_error + bytes" where
  "EncodeAck a = codec (Encode AckSchema [VUint256 (Some (ack_Tag a)), VBytes (ack_InnerAck a)])"

definition DecodeAck :: "bytes \<Rightarrow> codec_error + Ack" where
  "DecodeAck data =
     (case Decode AckSchema data of
        Inl e \<Rightarrow> Inl (CodecAbi e)
      | Inr [VUint256 (Some tag), VBytes inner] \<Rightarrow> Inr \<lparr>ack_Tag = tag, ack_InnerAck = inner\<rparr>
      | Inr _ \<Rightarrow> Inl CodecTypeAssertion)"

definition EncodeBatchAck :: "BatchAck \<Rightarrow> codec_error + bytes" where
  "EncodeBatchAck a = codec (Encode BatchAckSchema [VList (map VBytes (ba_Acknowledgements a))])"

fun acksFrom :: "abi_value list \<Rightarrow> codec_error + bytes list" where
  "acksFrom [] = Inr []"
| "acksFrom (VBytes a # items) = (case acksFrom items of Inl e \<Rightarrow> Inl e | Inr as \<Rightarrow> Inr (a # as))"
| "acksFrom (_ # items) = Inl CodecTypeAssertion"

definition DecodeBatchAck :: "bytes \<Rightarrow> codec_error + BatchAck" where
  "DecodeBatchAck data =
     (case Decode BatchAckSchema data of
        Inl e \<Rightarrow> Inl (CodecAbi e)
      | Inr [VList items] \<Rightarrow> (case acksFrom items of Inl e \<Rightarrow> Inl e | Inr as \<Rightarrow> Inr \<lparr>ba_Acknowledgements = as\<rparr>)
      | Inr _ \<Rightarrow> Inl CodecTypeAssertion)"

definition EncodeTokenOrderAck :: "TokenOrderAck \<Rightarrow> codec_error + bytes" where
  "EncodeTokenOrderAck a = codec (Encode TokenOrderAckSchema [VUint256 (Some (oa_FillType a)), VBytes (oa_MarketMaker a)])"

definition DecodeTokenOrderAck :: "bytes \<Rightarrow> codec_error + TokenOrderAck" where
  "DecodeTokenOrderAck data =
     (case Decode TokenOrderAckSchema data of
        Inl e \<Rightarrow> Inl (CodecAbi e)
      | Inr [VUint256 (Some fillType), VBytes maker] \<Rightarrow> Inr \<lparr>oa_FillType = fillType, oa_MarketMaker = maker\<rparr>
      | Inr _ \<Rightarrow> Inl CodecTypeAssertion)"

section \<open>What a decoder returns is shorter than its input\<close>

text \<open>The routing of nested instructions ends because an operand lies strictly inside the bytes it was decoded from.\<close>

fun within :: "nat \<Rightarrow> abi_value \<Rightarrow> bool" where
  "within n (VBytes b) \<longleftrightarrow> length b < n"
| "within n (VList vs) \<longleftrightarrow> (\<forall>v\<in>set vs. within n v)"
| "within n _ \<longleftrightarrow> True"

lemma bytesAt_within: "bytesAt data pos e = Inr b \<Longrightarrow> e \<le> length data \<Longrightarrow> length b < length data"
  by (auto simp: bytesAt_def Let_def slice_def wordSize_def split: if_splits sum.splits)

lemma decoded_within:
  "tupleAt data fs start e depth = Inr vs \<Longrightarrow> e \<le> length data \<Longrightarrow> \<forall>v\<in>set vs. within (length data) v"
  "tupleLoop data fs start e depth cursor = Inr vs \<Longrightarrow> e \<le> length data \<Longrightarrow> \<forall>v\<in>set vs. within (length data) v"
  "valueAt data f pos e depth = Inr v \<Longrightarrow> e \<le> length data \<Longrightarrow> within (length data) v"
  "staticValue data f pos e depth = Inr v \<Longrightarrow> e \<le> length data \<Longrightarrow> within (length data) v"
  "arrayAt data f pos e depth = Inr vs \<Longrightarrow> e \<le> length data \<Longrightarrow> \<forall>v\<in>set vs. within (length data) v"
  "offsetsLoop data f headStart e depth k i = Inr vs \<Longrightarrow> e \<le> length data \<Longrightarrow> \<forall>v\<in>set vs. within (length data) v"
  "elemsLoop data f pos e depth elemSize k = Inr vs \<Longrightarrow> e \<le> length data \<Longrightarrow> \<forall>v\<in>set vs. within (length data) v"
proof (induction data fs start e depth and data fs start e depth cursor and data f pos e depth
    and data f pos e depth and data f pos e depth and data f headStart e depth k i
    and data f pos e depth elemSize k
    arbitrary: vs and vs and v and v and vs and vs and vs
    rule: tupleAt_tupleLoop_valueAt_staticValue_arrayAt_offsetsLoop_elemsLoop.induct)
  case (1 data fields start e depth)
  then show ?case by (auto simp: Let_def split: if_splits)
next
  case (3 data f fs start e depth cursor)
  then show ?case by (auto split: if_splits sum.splits)
next
  case (4 data ty sub el pos e depth)
  then show ?case by (cases ty) (auto dest: bytesAt_within split: if_splits sum.splits option.splits)
next
  case (5 data ty sub el pos e depth)
  then show ?case
    by (cases ty) (auto simp: Let_def wordSize_def length_slice split: if_splits sum.splits option.splits)
next
  case (6 data elem pos e depth)
  then show ?case by (auto simp: Let_def split: if_splits sum.splits)
next
  case (8 data elem headStart e depth k i)
  then show ?case by (auto split: if_splits sum.splits)
next
  case (10 data elem pos e depth elemSize k)
  then show ?case by (auto split: sum.splits)
qed auto

lemma Decode_within: "Decode fs data = Inr vs \<Longrightarrow> \<forall>v\<in>set vs. within (length data) v"
  using decoded_within(1) [of data fs 0 "length data" 0 vs] by (simp add: Decode_def split: if_splits)

lemma instructionFromValues_within:
  "instructionFromValues vs = Inr i \<Longrightarrow> \<forall>v\<in>set vs. within n v \<Longrightarrow> length (ins_Operand i) < n"
  by (auto simp: instructionFromValues_def split: list.splits abi_value.splits)

lemma instructionsFrom_within:
  "instructionsFrom items = Inr js \<Longrightarrow> \<forall>v\<in>set items. within n v \<Longrightarrow> i \<in> set js \<Longrightarrow> length (ins_Operand i) < n"
proof (induction items arbitrary: js rule: instructionsFrom.induct)
  case (2 vals items)
  then show ?case using instructionFromValues_within [of vals _ n] by (auto split: sum.splits)
qed (simp_all split: sum.splits)

lemma DecodeForward_shorter: "DecodeForward data = Inr f \<Longrightarrow> length (ins_Operand (fwd_Instruction f)) < length data"
  by (auto simp: DecodeForward_def dest!: Decode_within instructionFromValues_within
      split: sum.splits list.splits abi_value.splits option.splits if_splits)

lemma DecodeBatch_shorter:
  "DecodeBatch data = Inr b \<Longrightarrow> i \<in> set (bat_Instructions b) \<Longrightarrow> length (ins_Operand i) < length data"
  by (auto simp: DecodeBatch_def dest!: Decode_within intro: instructionsFrom_within
      split: sum.splits list.splits abi_value.splits)

section \<open>Round trips\<close>

text \<open>A packet that can be on the wire: a 32-byte salt and a canonical path.\<close>

definition packet_ok :: "ZkgmPacket \<Rightarrow> bool" where
  "packet_ok p \<longleftrightarrow> length (zp_Salt p) = 32 \<and> IsCanonicalPath (zp_Path p)"

lemma instruction_back [simp]: "instructionFromValues (instructionValues i) = Inr i"
  by (simp add: instructionFromValues_def instructionValues_def)

lemma instructions_back: "instructionsFrom (map (\<lambda>i. VList (instructionValues i)) is) = Inr is"
  by (induction "is") simp_all

lemma acks_back: "acksFrom (map VBytes as) = Inr as"
  by (induction "as") simp_all

lemma codec_Inr [simp]: "codec r = Inr x \<longleftrightarrow> r = Inr x"
  by (simp add: codec_def split: sum.splits)

lemma instruction_types: "have_types (instructionValues i) InstructionSchema"
  by (simp add: instructionValues_def InstructionSchema_def)

lemma all_instruction_types: "all_have_type (map (\<lambda>i. VList (instructionValues i)) is) (struct InstructionSchema)"
  by (induction "is") (simp_all add: struct_def instruction_types)

lemma all_bytes_types: "all_have_type (map VBytes as) (plain TypeBytes)"
  by (induction "as") simp_all

text \<open>Every encoder writes something for its values, and what it writes is read back when its length fits an offset word.\<close>

lemma codec_back:
  assumes "list_all wf_field fs" "fields_depth fs < maxAbiDepth" "have_types vs fs"
  shows "\<exists>out. Encode fs vs = Inr out \<and> (length out < 2 ^ 64 \<longrightarrow> Decode fs out = Inr vs)"
  using Encode_total [of fs vs] Decode_Encode [of fs vs] assms by (auto simp: list_all_iff)

lemmas schema_ok = zkgm_schemas maxAbiDepth_def

lemma ZkgmPacket_back:
  "packet_ok p \<Longrightarrow> \<exists>out. EncodeZkgmPacket p = Inr out \<and> (length out < 2 ^ 64 \<longrightarrow> DecodeZkgmPacket out = Inr p)"
  using codec_back [of ZkgmPacketSchema "[VBytes32 (zp_Salt p), VUint256 (Some (zp_Path p)), VList (instructionValues (zp_Instruction p))]"]
  by (auto simp: EncodeZkgmPacket_def DecodeZkgmPacket_def packet_ok_def schema_ok instruction_types [unfolded schema_ok])

lemma Instruction_back:
  "\<exists>out. EncodeInstruction i = Inr out \<and> (length out < 2 ^ 64 \<longrightarrow> DecodeInstruction out = Inr i)"
  using codec_back [of InstructionSchema "instructionValues i"]
  by (auto simp: EncodeInstruction_def DecodeInstruction_def schema_ok instruction_types [unfolded schema_ok])

lemma Forward_back:
  "IsCanonicalPath (fwd_Path f) \<Longrightarrow> \<exists>out. EncodeForward f = Inr out \<and> (length out < 2 ^ 64 \<longrightarrow> DecodeForward out = Inr f)"
  using codec_back [of ForwardSchema "[VUint256 (Some (fwd_Path f)), VUint64 (fwd_TimeoutHeight f),
    VUint64 (fwd_TimeoutTimestamp f), VList (instructionValues (fwd_Instruction f))]"]
  by (auto simp: EncodeForward_def DecodeForward_def schema_ok instruction_types [unfolded schema_ok])

lemma Call_back: "\<exists>out. EncodeCall c = Inr out \<and> (length out < 2 ^ 64 \<longrightarrow> DecodeCall out = Inr c)"
  using codec_back [of CallSchema "[VBytes (call_Sender c), VBool (call_Eureka c), VBytes (call_ContractAddress c),
    VBytes (call_ContractCalldata c)]"]
  by (auto simp: EncodeCall_def DecodeCall_def schema_ok)

lemma Batch_back: "\<exists>out. EncodeBatch b = Inr out \<and> (length out < 2 ^ 64 \<longrightarrow> DecodeBatch out = Inr b)"
  using codec_back [of BatchSchema "[VList (map (\<lambda>i. VList (instructionValues i)) (bat_Instructions b))]"]
  by (auto simp: EncodeBatch_def DecodeBatch_def instructions_back schema_ok all_instruction_types [unfolded schema_ok])

lemma TokenOrderV1_back:
  "IsCanonicalPath (o1_BaseTokenPath ord) \<Longrightarrow>
   \<exists>out. EncodeTokenOrderV1 ord = Inr out \<and> (length out < 2 ^ 64 \<longrightarrow> DecodeTokenOrderV1 out = Inr ord)"
  using codec_back [of TokenOrderV1Schema "[VBytes (o1_Sender ord), VBytes (o1_Receiver ord), VBytes (o1_BaseToken ord),
    VUint256 (Some (o1_BaseAmount ord)), VString (o1_BaseTokenSymbol ord), VString (o1_BaseTokenName ord),
    VUint8 (o1_BaseTokenDecimals ord), VUint256 (Some (o1_BaseTokenPath ord)), VBytes (o1_QuoteToken ord),
    VUint256 (Some (o1_QuoteAmount ord))]"]
  by (auto simp: EncodeTokenOrderV1_def DecodeTokenOrderV1_def schema_ok)

lemma TokenOrderV2_back:
  "\<exists>out. EncodeTokenOrderV2 ord = Inr out \<and> (length out < 2 ^ 64 \<longrightarrow> DecodeTokenOrderV2 out = Inr ord)"
  using codec_back [of TokenOrderV2Schema "[VBytes (o_Sender ord), VBytes (o_Receiver ord), VBytes (o_BaseToken ord),
    VUint256 (Some (o_BaseAmount ord)), VBytes (o_QuoteToken ord), VUint256 (Some (o_QuoteAmount ord)),
    VUint8 (o_Kind ord), VBytes (o_Metadata ord)]"]
  by (auto simp: EncodeTokenOrderV2_def DecodeTokenOrderV2_def schema_ok)

lemma TokenInitializer_back:
  assumes "length (ti_Authority i) = 20" "length (ti_Minter i) = 20"
  shows "\<exists>out. EncodeTokenInitializer i = Inr out \<and> (length out < 2 ^ 64 \<longrightarrow> DecodeTokenInitializer out = Inr i)"
proof -
  have ne: "length (ti_Authority i) \<noteq> 0" "length (ti_Minter i) \<noteq> 0" using assms by simp_all
  obtain body where b: "Encode TokenInitializerSchema
      [VBytes (ti_Authority i), VBytes (ti_Minter i), VString (ti_Name i), VString (ti_Symbol i), VUint8 (ti_Decimals i)] = Inr body"
    "length body < 2 ^ 64 \<longrightarrow> Decode TokenInitializerSchema body =
      Inr [VBytes (ti_Authority i), VBytes (ti_Minter i), VString (ti_Name i), VString (ti_Symbol i), VUint8 (ti_Decimals i)]"
    using codec_back [of TokenInitializerSchema "[VBytes (ti_Authority i), VBytes (ti_Minter i), VString (ti_Name i),
      VString (ti_Symbol i), VUint8 (ti_Decimals i)]"] assms by (auto simp: schema_ok)
  have "EncodeTokenInitializer i = Inr (tokenInitializerSelector @ body)"
    using ne b(1) by (simp add: EncodeTokenInitializer_def Let_def)
  moreover have "DecodeTokenInitializer (tokenInitializerSelector @ body) = Inr i" if "length body < 2 ^ 64"
    using b(2) that by (simp add: DecodeTokenInitializer_def tokenInitializerSelector_def)
  ultimately show ?thesis by (auto simp: tokenInitializerSelector_def)
qed

lemma TokenMetadata_back: "\<exists>out. EncodeTokenMetadata m = Inr out \<and> (length out < 2 ^ 64 \<longrightarrow> DecodeTokenMetadata out = Inr m)"
  using codec_back [of TokenMetadataSchema "[VBytes (tm_Implementation m), VBytes (tm_Initializer m)]"]
  by (auto simp: EncodeTokenMetadata_def DecodeTokenMetadata_def schema_ok)

lemma SolverMetadata_back: "\<exists>out. EncodeSolverMetadata m = Inr out \<and> (length out < 2 ^ 64 \<longrightarrow> DecodeSolverMetadata out = Inr m)"
  using codec_back [of SolverMetadataSchema "[VBytes (sm_SolverAddress m), VBytes (sm_Metadata m)]"]
  by (auto simp: EncodeSolverMetadata_def DecodeSolverMetadata_def schema_ok)

lemma Ack_back: "\<exists>out. EncodeAck a = Inr out \<and> (length out < 2 ^ 64 \<longrightarrow> DecodeAck out = Inr a)"
  using codec_back [of AckSchema "[VUint256 (Some (ack_Tag a)), VBytes (ack_InnerAck a)]"]
  by (auto simp: EncodeAck_def DecodeAck_def schema_ok)

lemma BatchAck_back: "\<exists>out. EncodeBatchAck a = Inr out \<and> (length out < 2 ^ 64 \<longrightarrow> DecodeBatchAck out = Inr a)"
  using codec_back [of BatchAckSchema "[VList (map VBytes (ba_Acknowledgements a))]"]
  by (auto simp: EncodeBatchAck_def DecodeBatchAck_def acks_back schema_ok all_bytes_types)

lemma TokenOrderAck_back: "\<exists>out. EncodeTokenOrderAck a = Inr out \<and> (length out < 2 ^ 64 \<longrightarrow> DecodeTokenOrderAck out = Inr a)"
  using codec_back [of TokenOrderAckSchema "[VUint256 (Some (oa_FillType a)), VBytes (oa_MarketMaker a)]"]
  by (auto simp: EncodeTokenOrderAck_def DecodeTokenOrderAck_def schema_ok)

text \<open>What a value is encoded to, and that decoding it gives the value back.\<close>

definition codec_returns :: "('a \<Rightarrow> codec_error + bytes) \<Rightarrow> (bytes \<Rightarrow> codec_error + 'a) \<Rightarrow> 'a \<Rightarrow> bool" where
  "codec_returns encode decode x \<longleftrightarrow> (\<exists>out. encode x = Inr out \<and> (length out < 2 ^ 64 \<longrightarrow> decode out = Inr x))"



end
