(* ===== verification/Uint256Dec.thy ===== *)
theory Uint256Dec
  imports Uint256Bits Height
begin

text \<open>
  The decimal text of a 256-bit number (\<^verbatim>\<open>Dec\<close> and \<^verbatim>\<open>ToString\<close> of \<^verbatim>\<open>math/uint256/conversion.gno\<close>), which the
  ZKGM application writes into its storage keys. \<open>Dec_digits\<close>: the number is cut into groups of 19 digits
  without losing a zero, so the text is the decimal expansion.
\<close>

section \<open>The loop over groups of 19 digits\<close>

text \<open>\<^verbatim>\<open>copy\<close> into the buffer; the divisor is \<open>10 ^ 19\<close>, the largest power of ten in a word.\<close>

definition copyAt :: "string \<Rightarrow> nat \<Rightarrow> string \<Rightarrow> string" where
  "copyAt out i xs = take i out @ xs @ drop (i + length xs) out"

definition divisor19 :: uint256 where
  "divisor19 = NewUint 10000000000000000000"

lemma divisor19_value: "uval divisor19 = 10 ^ 19"
  by (simp add: divisor19_def)

lemma udivrem19:
  "\<exists>quot. udivrem (replicate 4 0) (limbs y) divisor19 = Inr (quot, uint_of (uval y mod 10 ^ 19))
     \<and> of_limbs quot = uint_of (uval y div 10 ^ 19)"
  using udivrem_exact [of divisor19 y] by (auto simp: divisor19_value)

lemma uval_div_small: "uval (uint_of (uval y div k)) = uval y div k" "uval (uint_of (uval y mod k)) = uval y mod k"
  using uval_less [of y] by (intro uval_uint_of; meson div_le_dividend mod_less_eq_dividend le_less_trans)+

function decLoop :: "uint256 \<Rightarrow> string \<Rightarrow> nat \<Rightarrow> uint_panic + string" where
  "decLoop y out pos =
     (case udivrem (replicate 4 0) (limbs y) divisor19 of
        Inl e \<Rightarrow> Inl e
      | Inr (quot, rem) \<Rightarrow>
          let bufSlice = FormatUint (Uint_Uint64 rem);
              out = copyAt out (pos - length bufSlice) bufSlice
          in if Uint_IsZero (of_limbs quot) then Inr (drop (pos - length bufSlice) out)
             else decLoop (of_limbs quot) out (pos - 19))"
  by pat_completeness auto
termination
proof (relation "measure (\<lambda>(y, _). uval y)")
  fix y :: uint256 and out :: string and pos :: nat and p quot rem bufSlice out'
  assume run: "udivrem (replicate 4 0) (limbs y) divisor19 = Inr p" "(quot, rem) = p" and nz: "\<not> Uint_IsZero (of_limbs quot)"
  then have q: "of_limbs quot = uint_of (uval y div 10 ^ 19)" using udivrem19 [of y] by auto
  with nz have "uval y div 10 ^ 19 \<noteq> 0" by (simp add: IsZero_uval uval_div_small)
  then have "0 < uval y" by (cases "uval y = 0") auto
  then have "uval y div 10 ^ 19 < uval y" by (rule div_less_dividend [rotated]) simp
  then show "((of_limbs quot, out', pos - 19), (y, out, pos)) \<in> measure (\<lambda>(y, _). uval y)"
    by (simp add: q uval_div_small)
qed simp

declare decLoop.simps [simp del]

definition Dec :: "uint256 \<Rightarrow> uint_panic + string" where
  "Dec z =
     (if Uint_IsZero z then Inr ''0''
      else if IsUint64 z then Inr (FormatUint (Uint_Uint64 z))
      else decLoop z (replicate 98 (CHR ''0'')) 98)"

text \<open>\<^verbatim>\<open>ToString\<close> of a pointer that is not nil; the panic of a zero divisor cannot happen (\<open>Dec_digits\<close>).\<close>

definition ToString :: "uint256 \<Rightarrow> string" where
  "ToString z = (case Dec z of Inl e \<Rightarrow> '''' | Inr s \<Rightarrow> s)"

section \<open>Decimal expansions\<close>

abbreviation zeros :: "nat \<Rightarrow> string" where "zeros n \<equiv> replicate n (CHR ''0'')"

lemma digit_char_0: "digit_char 0 = CHR ''0''"
  by code_simp

lemma length_digits_le: "0 < k \<Longrightarrow> n < 10 ^ k \<Longrightarrow> length (digits n) \<le> k"
proof (induction k arbitrary: n)
  case (Suc k)
  show ?case
  proof (cases "n < 10")
    case True
    then show ?thesis by (subst digits.simps) simp
  next
    case False
    with Suc.prems have "0 < k" "n div 10 < 10 ^ k" by (cases k; simp add: less_mult_imp_div_less)+
    then have "length (digits (n div 10)) \<le> k" by (rule Suc.IH)
    with False show ?thesis by (subst digits.simps) simp
  qed
qed simp

lemma digits_pad:
  "0 < k \<Longrightarrow> r < 10 ^ k \<Longrightarrow> 0 < q \<Longrightarrow>
   digits (10 ^ k * q + r) = digits q @ zeros (k - length (digits r)) @ digits r"
proof (induction k arbitrary: r)
  case (Suc k)
  have split: "digits (10 ^ Suc k * q + r) = digits (10 ^ k * q + r div 10) @ [digit_char (r mod 10)]"
  proof -
    have "(10 ^ Suc k * q + r) div 10 = 10 ^ k * q + r div 10" "(10 ^ Suc k * q + r) mod 10 = r mod 10"
      by (simp_all add: mult.assoc)
    moreover have "1 \<le> 10 ^ k * q" using Suc.prems(3) by (simp add: Suc_le_eq)
    then have "\<not> 10 ^ Suc k * q + r < 10" unfolding power_Suc mult.assoc by linarith
    ultimately show ?thesis by (subst digits.simps) simp
  qed
  show ?case
  proof (cases "k = 0")
    case True
    with Suc.prems have "digits r = [digit_char r]" by (subst digits.simps) simp
    with True Suc.prems split show ?thesis by simp
  next
    case False
    have "r div 10 < 10 ^ k" using Suc.prems by (simp add: less_mult_imp_div_less)
    with False Suc.IH [of "r div 10"] Suc.prems
    have ih: "digits (10 ^ k * q + r div 10) = digits q @ zeros (k - length (digits (r div 10))) @ digits (r div 10)" by simp
    show ?thesis
    proof (cases "r < 10")
      case True
      then have "digits (r div 10) = [CHR ''0'']" "digits r = [digit_char r]"
        by (subst digits.simps; simp add: digit_char_0)+
      moreover have "zeros (k - Suc 0) @ ''0'' = zeros k" using False by (cases k) (simp_all add: replicate_append_same)
      ultimately show ?thesis using True False ih split by simp
    next
      case False
      then have "digits r = digits (r div 10) @ [digit_char (r mod 10)]" by (subst digits.simps) simp
      with ih split show ?thesis by simp
    qed
  qed
qed simp

lemma digits_inject: "digits m = digits n \<longleftrightarrow> m = n"
proof (induction m arbitrary: n rule: digits.induct)
  case (1 m)
  have char: "a < 10 \<Longrightarrow> b < 10 \<Longrightarrow> digit_char a = digit_char b \<longleftrightarrow> a = b" for a b :: nat
    using of_char_digit [of a] of_char_digit [of b] by (metis add_left_cancel)
  have big: "10 \<le> k \<Longrightarrow> 1 < length (digits k)" for k
    using digits_not_Nil [of "k div 10"] by (subst digits.simps) (simp add: Suc_lessI)
  show ?case
  proof (cases "m < 10 \<or> n < 10")
    case True
    then show ?thesis
    proof (cases "m < 10 \<and> n < 10")
      case True
      then show ?thesis by (subst (1 2) digits.simps) (simp add: char)
    next
      case False
      with True have "length (digits m) \<noteq> length (digits n) \<and> m \<noteq> n"
        using big [of m] big [of n] by (subst (1 2) digits.simps) (auto simp: not_less digits.simps [of n] digits.simps [of m])
      then show ?thesis by metis
    qed
  next
    case False
    then have "digits m = digits n \<longleftrightarrow> m div 10 = n div 10 \<and> m mod 10 = n mod 10"
      using 1 by (subst (1 2) digits.simps) (simp add: char)
    then show ?thesis by (metis div_mult_mod_eq)
  qed
qed

section \<open>The text is the decimal expansion\<close>

lemma decLoop_digits:
  "uval y < 10 ^ (19 * k) \<Longrightarrow> 0 < k \<Longrightarrow> 19 * k \<le> pos \<Longrightarrow> decLoop y (zeros pos @ low) pos = Inr (digits (uval y) @ low)"
proof (induction k arbitrary: y pos low)
  case (Suc k)
  define q r where "q = uval y div 10 ^ 19" and "r = uval y mod 10 ^ 19"
  obtain quot where div: "udivrem (replicate 4 0) (limbs y) divisor19 = Inr (quot, uint_of r)"
    "of_limbs quot = uint_of q" using udivrem19 [of y] by (auto simp: q_def r_def)
  have qv: "uval (uint_of q) = q" "uval (uint_of r) = r" by (simp_all add: q_def r_def uval_div_small)
  have r: "r < 10 ^ 19" by (simp add: r_def)
  then have "unat (Uint_Uint64 (uint_of r)) = r" by (simp add: Uint64_value qv radix_def)
  then have fmt: "FormatUint (Uint_Uint64 (uint_of r)) = digits r" by (simp add: FormatUint_def)
  have len: "length (digits r) \<le> 19" using length_digits_le [OF _ r] by simp
  have pos: "19 \<le> pos" using Suc.prems by simp
  have copy: "copyAt (zeros pos @ low) (pos - length (digits r)) (digits r) = zeros (pos - length (digits r)) @ digits r @ low"
    using len pos by (simp add: copyAt_def)
  show ?case
  proof (cases "q = 0")
    case True
    then have "uval y = r" using div_mult_mod_eq [of "uval y" "10 ^ 19"] by (simp add: q_def r_def)
    then show ?thesis
      using True qv len pos by (subst decLoop.simps) (simp add: div fmt copy IsZero_uval Let_def)
  next
    case False
    have y: "uval y = 10 ^ 19 * q + r" by (simp add: q_def r_def)
    have q: "q < 10 ^ (19 * k)"
      using Suc.prems(1) by (simp add: q_def less_mult_imp_div_less power_add)
    then have k: "0 < k" using False by (cases k) auto
    have grp: "zeros (pos - length (digits r)) = zeros (pos - 19) @ zeros (19 - length (digits r))"
      using len pos by (simp flip: replicate_add)
    have "decLoop (uint_of q) (zeros (pos - 19) @ zeros (19 - length (digits r)) @ digits r @ low) (pos - 19)
      = Inr (digits q @ zeros (19 - length (digits r)) @ digits r @ low)"
      using Suc.IH [of "uint_of q" "pos - 19"] q k Suc.prems(3) by (simp add: qv)
    moreover have "digits (uval y) = digits q @ zeros (19 - length (digits r)) @ digits r"
      unfolding y using r False by (intro digits_pad) simp_all
    ultimately show ?thesis
      using False qv by (subst decLoop.simps) (simp add: div fmt copy grp IsZero_uval Let_def)
  qed
qed simp

lemma Dec_digits: "Dec z = Inr (digits (uval z))"
proof -
  have "uval z < 10 ^ (19 * 5)" using uval_less [of z] by (rule less_le_trans) simp
  from decLoop_digits [OF this, of 98 "[]"]
  have "decLoop z (zeros 98) 98 = Inr (digits (uval z))" by simp
  moreover have "digits 0 = ''0''" by (subst digits.simps) (simp add: digit_char_0)
  ultimately show ?thesis
    by (simp add: Dec_def IsZero_uval FormatUint_def IsUint64_value)
qed

lemma ToString_digits: "ToString z = digits (uval z)"
  by (simp add: ToString_def Dec_digits)

lemma ToString_inject: "ToString x = ToString y \<longleftrightarrow> x = y"
  by (simp add: ToString_digits digits_inject)

end
