(* ===== verification/ZkgmScale.thy ===== *)
theory ZkgmScale
  imports Uint256Bits
begin

text \<open>
  \<^verbatim>\<open>p/onbloc/ibc/union/zkgm/scale.gno\<close>: powers of ten that fit a 256-bit integer, and the narrowing of an
  amount in a token's own precision to the 64-bit amount of a ledger. The narrowing keeps the value exactly
  or refuses.
\<close>

section \<open>Powers of ten\<close>

datatype scale_error = ErrAmountOverflow | ErrAmountNotDivisible | ErrPow10Overflow | ScalePanic uint_panic

fun pow10Loop :: "nat \<Rightarrow> uint256 \<Rightarrow> scale_error + uint256" where
  "pow10Loop 0 result = Inr result"
| "pow10Loop (Suc i) result =
     (let (next, overflow) = MulOverflow result (NewUint 10)
      in if overflow then Inl ErrPow10Overflow else pow10Loop i next)"

definition Pow10 :: "int \<Rightarrow> scale_error + uint256" where
  "Pow10 e = (if e < 0 then Inr Uint_Zero else pow10Loop (nat e) (NewUint 1))"

text \<open>\<^verbatim>\<open>int64\<close> is an integer; \<^verbatim>\<open>math.MaxInt64\<close> is \<open>2 ^ 63 - 1\<close>.\<close>

definition ScaleDownToInt64 :: "uint256 \<Rightarrow> int \<Rightarrow> scale_error + int" where
  "ScaleDownToInt64 amount scaleExp =
     (let narrow = (\<lambda>value.
            let (valueUint64, overflow) = Uint64WithOverflow value
            in if overflow \<or> valueUint64 > 0x7FFFFFFFFFFFFFFF then Inl ErrAmountOverflow
               else Inr (int (unat valueUint64)))
      in if scaleExp > 0 then
           (case Pow10 scaleExp of
              Inl err \<Rightarrow> Inl err
            | Inr divisor \<Rightarrow>
                (case DivMod amount divisor of
                   Inl e \<Rightarrow> Inl (ScalePanic e)
                 | Inr (quot, remainder) \<Rightarrow>
                     if \<not> Uint_IsZero remainder then Inl ErrAmountNotDivisible else narrow quot))
         else narrow amount)"

lemma pow10Loop_value:
  "pow10Loop n r = (if uval r * 10 ^ n < 2 ^ 256 then Inr (uint_of (uval r * 10 ^ n)) else Inl ErrPow10Overflow)"
proof (induction n arbitrary: r)
  case 0
  then show ?case using uval_less [of r] by simp
next
  case (Suc n)
  obtain s f where m: "MulOverflow r (NewUint 10) = (s, f)" by fastforce
  have f: "f \<longleftrightarrow> 2 ^ 256 \<le> uval r * 10" and s: "uval s = uval r * 10 mod 2 ^ 256"
    using MulOverflow_eq [of r "NewUint 10"] by (simp_all add: m)
  show ?case
  proof (cases f)
    case True
    have "uval r * 10 * 1 \<le> uval r * 10 * 10 ^ n" by (intro mult_le_mono2) simp
    then have "2 ^ 256 \<le> uval r * 10 ^ Suc n"
      using f [THEN iffD1, OF True] unfolding power_Suc mult.assoc mult_1_right by (rule order_trans [rotated])
    then have "\<not> uval r * 10 ^ Suc n < 2 ^ 256" by (simp only: not_less)
    then show ?thesis using True by (simp only: m pow10Loop.simps prod.case Let_def if_True if_False)
  next
    case False
    with f s have "uval s = uval r * 10" by simp
    with False show ?thesis by (simp add: m Suc.IH mult.assoc)
  qed
qed

lemma pow10_fits: "(10 :: nat) ^ n < 2 ^ 256 \<longleftrightarrow> n < 78"
proof
  assume "n < 78"
  then have "(10 :: nat) ^ n \<le> 10 ^ 77" by (intro power_increasing) simp_all
  also have "\<dots> < 2 ^ 256" by simp
  finally show "(10 :: nat) ^ n < 2 ^ 256" .
next
  assume less: "(10 :: nat) ^ n < 2 ^ 256"
  show "n < 78"
  proof (rule ccontr)
    assume "\<not> n < 78"
    then have "(10 :: nat) ^ 78 \<le> 10 ^ n" by (intro power_increasing) simp_all
    then have "(10 :: nat) ^ 78 < 2 ^ 256" using less by (rule le_less_trans)
    then show False by simp
  qed
qed

lemma Pow10_value:
  "Pow10 e = (if e < 0 then Inr Uint_Zero else if e < 78 then Inr (uint_of (10 ^ nat e)) else Inl ErrPow10Overflow)"
proof (cases "e < 0")
  case False
  have "nat e < 78 \<longleftrightarrow> e < 78" using False by (simp add: nat_less_iff)
  then show ?thesis
    using False by (simp only: Pow10_def pow10Loop_value uval_NewUint unsigned_1 mult_1 pow10_fits if_False)
qed (simp add: Pow10_def)

section \<open>Narrowing\<close>

lemma narrow_value:
  "(let (v, overflow) = Uint64WithOverflow x
    in if overflow \<or> v > 0x7FFFFFFFFFFFFFFF then Inl ErrAmountOverflow else Inr (int (unat v)))
   = (if uval x < 2 ^ 63 then Inr (int (uval x)) else Inl ErrAmountOverflow)"
proof (cases "IsUint64 x")
  case True
  then show ?thesis by (simp add: Uint64WithOverflow_eq IsUint64_value word_less_nat_alt)
next
  case False
  then have "\<not> uval x < 2 ^ 63" by (simp add: IsUint64_uval radix_def)
  with False show ?thesis by (simp add: Uint64WithOverflow_eq)
qed

text \<open>The result is the quotient when the power of ten fits, the division leaves nothing and it is an \<^verbatim>\<open>int64\<close>.\<close>

lemma ScaleDown_value:
  "ScaleDownToInt64 a e =
     (if 78 \<le> e then Inl ErrPow10Overflow
      else if uval a mod 10 ^ nat e \<noteq> 0 then Inl ErrAmountNotDivisible
      else if uval a div 10 ^ nat e < 2 ^ 63 then Inr (int (uval a div 10 ^ nat e))
      else Inl ErrAmountOverflow)"
proof (cases "0 < e \<and> e < 78")
  case True
  then have ten: "uval (uint_of (10 ^ nat e)) = 10 ^ nat e"
    by (intro uval_uint_of) (simp only: pow10_fits, simp add: nat_less_iff)
  have q: "uval (uint_of (uval a div 10 ^ nat e)) = uval a div 10 ^ nat e"
    "uval (uint_of (uval a mod 10 ^ nat e)) = uval a mod 10 ^ nat e"
    using uval_less [of a] by (intro uval_uint_of; meson div_le_dividend mod_less_eq_dividend le_less_trans)+
  have "DivMod a (uint_of (10 ^ nat e)) = Inr (uint_of (uval a div 10 ^ nat e), uint_of (uval a mod 10 ^ nat e))"
    by (simp add: DivMod_exact ten)
  with True show ?thesis
    unfolding ScaleDownToInt64_def Pow10_value by (simp add: narrow_value q IsZero_uval)
next
  case False
  then show ?thesis
    unfolding ScaleDownToInt64_def Pow10_value by (auto simp: narrow_value)
qed

text \<open>An amount that is accepted keeps its value: the ledger amount times the scale.\<close>

lemma ScaleDown_exact:
  "ScaleDownToInt64 a e = Inr n \<longleftrightarrow> e < 78 \<and> 0 \<le> n \<and> n < 2 ^ 63 \<and> int (uval a) = n * 10 ^ nat e"
proof -
  have iff: "uval a mod 10 ^ nat e = 0 \<and> n = int (uval a div 10 ^ nat e) \<longleftrightarrow> 0 \<le> n \<and> int (uval a) = n * 10 ^ nat e"
    (is "?l \<longleftrightarrow> ?r")
  proof
    assume ?l
    moreover from this have "uval a = uval a div 10 ^ nat e * 10 ^ nat e" by auto
    ultimately show ?r by (metis of_nat_0_le_iff of_nat_mult of_nat_numeral of_nat_power)
  next
    assume r: ?r
    then have "int (uval a) = int (nat n * 10 ^ nat e)" by simp
    then have "uval a = nat n * 10 ^ nat e" by (simp only: of_nat_eq_iff)
    with r show ?l by simp
  qed
  have "ScaleDownToInt64 a e = Inr n \<longleftrightarrow>
      e < 78 \<and> (uval a mod 10 ^ nat e = 0 \<and> n = int (uval a div 10 ^ nat e)) \<and> n < 2 ^ 63"
    unfolding ScaleDown_value
    by (cases "78 \<le> e"; cases "uval a mod 10 ^ nat e = 0"; cases "uval a div 10 ^ nat e < 2 ^ 63") auto
  also have "\<dots> \<longleftrightarrow> e < 78 \<and> 0 \<le> n \<and> n < 2 ^ 63 \<and> int (uval a) = n * 10 ^ nat e"
    unfolding iff by blast
  finally show ?thesis .
qed

text \<open>Sums of accepted amounts are accepted amounts of the sums, up to the range of the ledger.\<close>

lemma ScaleDown_sum:
  assumes "ScaleDownToInt64 a e = Inr m" "ScaleDownToInt64 b e = Inr n" "ScaleDownToInt64 c e = Inr k"
    and "uval c = uval a + uval b"
  shows "k = m + n"
proof -
  have "k * 10 ^ nat e = (m + n) * 10 ^ nat e"
    using assms by (simp add: ScaleDown_exact distrib_right)
  then show ?thesis by simp
qed

text \<open>ScaleDownToInt64 accepts an amount exactly when it is a ledger amount, a non-negative 64-bit integer, times ten to the scale: nothing is rounded away and no other amount is accepted.\<close>

theorem scale_down_lossless:
  "ScaleDownToInt64 a e = Inr n \<longleftrightarrow> e < 78 \<and> 0 \<le> n \<and> n < 2 ^ 63 \<and> int (uval a) = n * 10 ^ nat e"
  by (rule ScaleDown_exact)

end
