(* ===== verification/ZkgmBase.thy ===== *)
theory ZkgmBase
  imports ZkgmAbi Uint256Dec ZkgmScale TokenBucket CoreStore GoLib
begin

text \<open>
  What the parts of the ZKGM application (\<^verbatim>\<open>r/onbloc/ibc/union/apps/ucs03_zkgm\<close> and its implementation
  \<^verbatim>\<open>v1\<close>) share: errors, computations, the state the proxy owns, and the code outside the repository. A Go error is
  a value the caller looks at and leaves the writes made so far, and so does an ordinary panic, which
  \<^verbatim>\<open>dispatchExecutePacket\<close> recovers; only a fatal panic aborts the transaction. A computation therefore returns
  a state in every case.
\<close>

section \<open>Errors (v1/errors.gno, errors.gno)\<close>

datatype zkgm_error =
    errUnsupportedOpcode
  | errUnsupportedTokenOrderVersion | errUnsupportedCallVersion | errUnsupportedBatchVersion | errUnsupportedForwardVersion
  | errInvalidUnescrow | errTokenOrderFeeUnderflow | errUnknownTokenOrderKind | errUnknownFillType
  | errUnsupportedTokenOrderKindForAck | errUnsupportedTokenOrderKindForRefund | errSolveNotImplemented
  | errInvalidTokenOrderDestChannel | errInvalidTokenOrderTransferAmount | errMetadataDecimalsMismatch
  | errEurekaUnsupported | errInvalidCallSender | errReceiverNotRegistered string | errIsOnlyMakerAck
  | errInvalidForwardInstruction | errForwardMissingPrevDest | errForwardMissingNextSource | errForwardPrevDestMismatch
  | errForwardZeroTimeout | errForwardChildPacketTooLarge | errForwardChannelNotOwned | errForwardChannelNotOpen
  | errForwardConnectionNotOpen | errForwardChildAlreadyCommitted
  | errInvalidBatchInstruction | errBatchAckCountMismatch | errBatchEmptyAck
  | errVoucherNotFound string | errVoucherSymbolAlreadyRegistered string | errTokenBucketAbsent string
  | errCoinMismatch | errChannelBalanceUnderflow | errChannelBalanceOverflow
  | errSpoofedRealm | errNotCoreRealm | errPaused | errLockedTokenAmountOverflow | errInvalidSaltLength
  | errInterfaceConversion | errUnsupportedVersion | errChannelClosing | errHexString hex_error
  | errCodec codec_error | errScale scale_error | errPath path_error | errBucket bucket_error
  | errNotProxyRealm | errForeign string | errForeignPanic | errNilDereference | errCore core_error | errEncode abi_error

section \<open>Computations\<close>

datatype 'a zres = Val 'a | Err zkgm_error | Pan zkgm_error | Fatal zkgm_error

type_synonym ('s, 'a) zc = "'s \<Rightarrow> 'a zres \<times> 's"

definition zret :: "'a \<Rightarrow> ('s, 'a) zc" where "zret x s = (Val x, s)"
definition zfail :: "zkgm_error \<Rightarrow> ('s, 'a) zc" where "zfail e s = (Err e, s)"
definition zpanic :: "zkgm_error \<Rightarrow> ('s, 'a) zc" where "zpanic e s = (Pan e, s)"
definition zfatal :: "zkgm_error \<Rightarrow> ('s, 'a) zc" where "zfatal e s = (Fatal e, s)"
definition zgets :: "('s \<Rightarrow> 'a) \<Rightarrow> ('s, 'a) zc" where "zgets f s = (Val (f s), s)"
definition zmodify :: "('s \<Rightarrow> 's) \<Rightarrow> ('s, unit) zc" where "zmodify f s = (Val (), f s)"

definition zbind :: "('s, 'a) zc \<Rightarrow> ('a \<Rightarrow> ('s, 'b) zc) \<Rightarrow> ('s, 'b) zc" where
  "zbind m k s =
     (case m s of
        (Val x, s') \<Rightarrow> k x s' | (Err e, s') \<Rightarrow> (Err e, s') | (Pan e, s') \<Rightarrow> (Pan e, s') | (Fatal e, s') \<Rightarrow> (Fatal e, s'))"

definition zseq :: "('s, 'a) zc \<Rightarrow> ('s, 'b) zc \<Rightarrow> ('s, 'b) zc" where
  "zseq m k = zbind m (\<lambda>_. k)"

definition zguard :: "bool \<Rightarrow> zkgm_error \<Rightarrow> ('s, unit) zc" where
  "zguard b e = (if b then zret () else zfail e)"

definition zlift :: "zkgm_error + 'a \<Rightarrow> ('s, 'a) zc" where
  "zlift r = (case r of Inl e \<Rightarrow> zfail e | Inr x \<Rightarrow> zret x)"

text \<open>\<^verbatim>\<open>if err := m; err != nil { h }\<close>.\<close>

definition ztry :: "('s, 'a) zc \<Rightarrow> (zkgm_error \<Rightarrow> ('s, 'a) zc) \<Rightarrow> ('s, 'a) zc" where
  "ztry m h s = (case m s of (Err e, s') \<Rightarrow> h e s' | r \<Rightarrow> r)"

text \<open>\<^verbatim>\<open>x, err := m\<close>, with the error looked at by what follows.\<close>

definition zattempt :: "('s, 'a) zc \<Rightarrow> ('s, zkgm_error + 'a) zc" where
  "zattempt m s =
     (case m s of
        (Val x, s') \<Rightarrow> (Val (Inr x), s') | (Err e, s') \<Rightarrow> (Val (Inl e), s')
      | (Pan e, s') \<Rightarrow> (Pan e, s') | (Fatal e, s') \<Rightarrow> (Fatal e, s'))"

text \<open>A call whose error the code drops.\<close>

definition zignore :: "('s, unit) zc \<Rightarrow> ('s, unit) zc" where
  "zignore m = ztry m (\<lambda>_. zret ())"

definition zcodec :: "codec_error + 'a \<Rightarrow> ('s, 'a) zc" where
  "zcodec r =
     (case r of Inl CodecTypeAssertion \<Rightarrow> zpanic errInterfaceConversion | Inl e \<Rightarrow> zfail (errCodec e) | Inr x \<Rightarrow> zret x)"

definition zscale :: "scale_error + 'a \<Rightarrow> ('s, 'a) zc" where
  "zscale r =
     (case r of Inl (ScalePanic p) \<Rightarrow> zpanic (errScale (ScalePanic p)) | Inl e \<Rightarrow> zfail (errScale e) | Inr x \<Rightarrow> zret x)"

text \<open>Code that panics on an error.\<close>

definition zmust :: "('e \<Rightarrow> zkgm_error) \<Rightarrow> 'e + 'a \<Rightarrow> ('s, 'a) zc" where
  "zmust f r = (case r of Inl e \<Rightarrow> zpanic (f e) | Inr x \<Rightarrow> zret x)"

text \<open>\<^verbatim>\<open>panic(execFatal{err.Error()})\<close> on an error.\<close>

definition zorFatal :: "('s, 'a) zc \<Rightarrow> ('s, 'a) zc" where
  "zorFatal m = ztry m zfatal"

definition zwith :: "'a zres \<Rightarrow> ('a \<Rightarrow> ('s, 'b) zc) \<Rightarrow> ('s, 'b) zc" where
  "zwith r k = (case r of Val x \<Rightarrow> k x | Err e \<Rightarrow> zfail e | Pan e \<Rightarrow> zpanic e | Fatal e \<Rightarrow> zfatal e)"

lemma zwith_cong [fundef_cong]:
  "r = r' \<Longrightarrow> (\<And>x. r' = Val x \<Longrightarrow> k x = k' x) \<Longrightarrow> zwith r k = zwith r' k'"
  by (cases r') (simp_all add: zwith_def)

definition codecRes :: "codec_error + 'a \<Rightarrow> 'a zres" where
  "codecRes r =
     (case r of Inl CodecTypeAssertion \<Rightarrow> Pan errInterfaceConversion | Inl e \<Rightarrow> Err (errCodec e) | Inr x \<Rightarrow> Val x)"

definition zpath :: "path_error + 'a \<Rightarrow> ('s, 'a) zc" where
  "zpath r = (case r of Inl e \<Rightarrow> zfail (errPath e) | Inr x \<Rightarrow> zret x)"

text \<open>A loop over a list with an accumulator, left at the first error.\<close>

fun zeach :: "('a \<Rightarrow> 'b \<Rightarrow> ('s, 'b) zc) \<Rightarrow> 'a list \<Rightarrow> 'b \<Rightarrow> ('s, 'b) zc" where
  "zeach f [] b = zret b"
| "zeach f (x # xs) b = zbind (f x b) (zeach f xs)"

lemma zeach_cong [fundef_cong]:
  assumes "xs = ys" "b = c" and "\<And>x b. x \<in> set ys \<Longrightarrow> f x b = g x b"
  shows "zeach f xs b = zeach g ys c"
proof -
  have "(\<And>x b. x \<in> set ys \<Longrightarrow> f x b = g x b) \<Longrightarrow> zeach f ys b = zeach g ys b" for b
  proof (induction ys arbitrary: b)
    case (Cons y ys)
    then have "zeach f ys = zeach g ys" by (intro ext) simp
    then show ?case using Cons.prems by simp
  qed simp
  then show ?thesis using assms by simp
qed

section \<open>Values and foreign code\<close>

text \<open>
  \<^verbatim>\<open>type Voucher struct\<close>: \<^verbatim>\<open>grc20.NewToken\<close> makes a token and its private ledger together, and the two handles
  are one here. The fields of \<open>zenv\<close> stand for code outside the repository: keccak256, the BPTree, grc20
  tokens and their registry, the banker, the clock of the block, and the receivers of calls.
\<close>

record 't Voucher =
  v_token :: 't
  v_originDecimals :: byte

datatype ('t, 'r) zany = ZUint uint256 | ZImage bytes | ZBytes bytes | ZPacket Packet | ZBucket token_bucket
  | ZVoucher "'t Voucher" | ZReceiver "'r option"

text \<open>The state: \<^verbatim>\<open>type Store struct\<close>, the pause flag of the proxy, and the world of tokens and coins.\<close>

record ('m, 'x) zstate =
  tokenOrigin :: 'm
  channelBalanceV2 :: 'm
  metadataImageOf :: 'm
  hashToForeignToken :: 'm
  inFlightPacket :: 'm
  tokenBucket :: 'm
  vouchers :: 'm
  lockedTokenAmounts :: 'm
  receivers :: 'm
  rateLimitDisabled :: bool
  paused :: bool
  ext :: 'x

text \<open>The interface \<^verbatim>\<open>Zkgmable\<close> (interfaces.gno): what a receiver is told.\<close>

record CallEnv =
  ce_Caller :: string
  ce_ProxyAccount :: string
  ce_Path :: uint256
  ce_SourceChannel :: string
  ce_DestinationChannel :: string
  ce_Sender :: bytes
  ce_Calldata :: bytes
  ce_Relayer :: bytes
  ce_RelayerMsg :: bytes

text \<open>
  What a receiver does when it is called: it may call the public functions of the application in turn, from
  a realm \<open>(address, path)\<close> of its own, while it changes the world of tokens, and finally returns an error or nil,
  or panics.
\<close>

datatype 'x receiver_prog =
    RReturn "string option" 'x
  | RPanics
  | RSend address string ChannelId Timestamp bytes Instruction 'x "Packet \<Rightarrow> 'x \<Rightarrow> 'x receiver_prog"
  | RVoucherTransfer address string string address int 'x "'x \<Rightarrow> 'x receiver_prog"
  | RVoucherApprove address string string address int 'x "'x \<Rightarrow> 'x receiver_prog"

text \<open>The outcome of foreign code that is called like a local function.\<close>

datatype foreign = Fine | Failed string | Panicked

record ('t, 'r, 'm, 'x) zenv =
  z_keccak :: hash
  z_proxyPkgPath :: string
  z_proxyAddress :: address
  zt_New :: 'm
  zt_Get :: "'m \<Rightarrow> string \<Rightarrow> ('t, 'r) zany option"
  zt_Set :: "'m \<Rightarrow> string \<Rightarrow> ('t, 'r) zany \<Rightarrow> 'm"
  zt_Remove :: "'m \<Rightarrow> string \<Rightarrow> 'm"
  reg_Get :: "'x \<Rightarrow> string \<Rightarrow> 't option"
  reg_Register :: "'t \<Rightarrow> string \<Rightarrow> 'x \<Rightarrow> 'x option"
  fq_Construct :: "string \<Rightarrow> string \<Rightarrow> string"
  grc20_MaxDecimals :: byte
  grc20_MaxSymbolLen :: nat
  tok_New :: "string \<Rightarrow> string \<Rightarrow> int \<Rightarrow> 'x \<Rightarrow> ('t \<times> 'x) option"
  tok_Decimals :: "'t \<Rightarrow> int"
  tok_BalanceOf :: "'x \<Rightarrow> 't \<Rightarrow> address \<Rightarrow> int"
  ledger_Mint :: "'t \<Rightarrow> address \<Rightarrow> int \<Rightarrow> 'x \<Rightarrow> foreign \<times> 'x"
  ledger_Burn :: "'t \<Rightarrow> address \<Rightarrow> int \<Rightarrow> 'x \<Rightarrow> foreign \<times> 'x"
  ledger_Transfer :: "'t \<Rightarrow> address \<Rightarrow> address \<Rightarrow> int \<Rightarrow> 'x \<Rightarrow> foreign \<times> 'x"
  teller_Transfer :: "'t \<Rightarrow> address \<Rightarrow> address \<Rightarrow> int \<Rightarrow> 'x \<Rightarrow> foreign \<times> 'x"
  teller_TransferFrom :: "'t \<Rightarrow> address \<Rightarrow> address \<Rightarrow> address \<Rightarrow> int \<Rightarrow> 'x \<Rightarrow> foreign \<times> 'x"
  teller_Approve :: "'t \<Rightarrow> address \<Rightarrow> address \<Rightarrow> int \<Rightarrow> 'x \<Rightarrow> foreign \<times> 'x"
  bank_SendCoins :: "address \<Rightarrow> address \<Rightarrow> string \<Rightarrow> int \<Rightarrow> 'x \<Rightarrow> foreign \<times> 'x"
  bank_Balance :: "'x \<Rightarrow> string \<Rightarrow> address \<Rightarrow> int"
  z_Unix :: "'x \<Rightarrow> int"
  OnZkgm :: "'r \<Rightarrow> CallEnv \<Rightarrow> 'x \<Rightarrow> 'x receiver_prog"
  OnIntentZkgm :: "'r \<Rightarrow> CallEnv \<Rightarrow> 'x \<Rightarrow> 'x receiver_prog"

text \<open>The realm a call of the implementation carries, with its own address, and whether a user called it directly.\<close>

record zrealm = realm +
  Address :: address
  PrevIsUserCall :: bool

definition zassertIsRlmCurrent :: "zrealm \<Rightarrow> ('s, unit) zc" where
  "zassertIsRlmCurrent rlm = (if IsCurrent rlm then zret () else zpanic errSpoofedRealm)"

definition zassertIsProxyRealm :: "('t, 'r, 'm, 'x) zenv \<Rightarrow> zrealm \<Rightarrow> ('s, unit) zc" where
  "zassertIsProxyRealm Z rlm = (if PkgPath rlm = z_proxyPkgPath Z then zret () else zpanic errNotProxyRealm)"

definition zforeign :: "('x \<Rightarrow> foreign \<times> 'x) \<Rightarrow> (('m, 'x) zstate, unit) zc" where
  "zforeign f s =
     (case f (ext s) of
        (Fine, x) \<Rightarrow> (Val (), s\<lparr>ext := x\<rparr>)
      | (Failed msg, x) \<Rightarrow> (Err (errForeign msg), s\<lparr>ext := x\<rparr>)
      | (Panicked, x) \<Rightarrow> (Pan errForeignPanic, s\<lparr>ext := x\<rparr>))"

section \<open>The store (store.gno)\<close>

definition NewZkgmStore :: "('t, 'r, 'm, 'x) zenv \<Rightarrow> 'x \<Rightarrow> ('m, 'x) zstate" where
  "NewZkgmStore Z x =
     \<lparr>tokenOrigin = zt_New Z, channelBalanceV2 = zt_New Z, metadataImageOf = zt_New Z, hashToForeignToken = zt_New Z,
      inFlightPacket = zt_New Z, tokenBucket = zt_New Z, vouchers = zt_New Z, lockedTokenAmounts = zt_New Z,
      receivers = zt_New Z, rateLimitDisabled = True, paused = False, ext = x\<rparr>"

text \<open>\<^verbatim>\<open>v.(T)\<close> of what a tree holds.\<close>

fun asUint :: "('t, 'r) zany \<Rightarrow> uint256 option" where "asUint (ZUint u) = Some u" | "asUint _ = None"
fun asImage :: "('t, 'r) zany \<Rightarrow> bytes option" where "asImage (ZImage b) = Some b" | "asImage _ = None"
fun asBytes :: "('t, 'r) zany \<Rightarrow> bytes option" where "asBytes (ZBytes b) = Some b" | "asBytes _ = None"
fun asPacket :: "('t, 'r) zany \<Rightarrow> Packet option" where "asPacket (ZPacket p) = Some p" | "asPacket _ = None"
fun asBucket :: "('t, 'r) zany \<Rightarrow> token_bucket option" where "asBucket (ZBucket b) = Some b" | "asBucket _ = None"
fun asVoucher :: "('t, 'r) zany \<Rightarrow> 't Voucher option" where "asVoucher (ZVoucher v) = Some v" | "asVoucher _ = None"
fun asReceiver :: "('t, 'r) zany \<Rightarrow> 'r option option" where "asReceiver (ZReceiver r) = Some r" | "asReceiver _ = None"

definition ztree :: "(('t, 'r) zany \<Rightarrow> 'a option) \<Rightarrow> ('t, 'r) zany option \<Rightarrow> ('s, 'a option) zc" where
  "ztree as v =
     (case v of
        None \<Rightarrow> zret None
      | Some a \<Rightarrow> (case as a of None \<Rightarrow> zpanic errInterfaceConversion | Some x \<Rightarrow> zret (Some x)))"

type_synonym ('t, 'r, 'm, 'x, 'a) zop = "('t, 'r, 'm, 'x) zenv \<Rightarrow> (('m, 'x) zstate, 'a) zc"

definition SetTokenOrigin :: "('t, 'r, 'm, 'x) zenv \<Rightarrow> zrealm \<Rightarrow> string \<Rightarrow> uint256 \<Rightarrow> (('m, 'x) zstate, unit) zc" where
  "SetTokenOrigin Z rlm denom path =
     zseq (zassertIsRlmCurrent rlm) (zmodify (\<lambda>s. s\<lparr>tokenOrigin := zt_Set Z (tokenOrigin s) denom (ZUint path)\<rparr>))"

definition GetTokenOrigin :: "('t, 'r, 'm, 'x) zenv \<Rightarrow> string \<Rightarrow> (('m, 'x) zstate, uint256 option) zc" where
  "GetTokenOrigin Z denom = zbind (zgets (\<lambda>s. zt_Get Z (tokenOrigin s) denom)) (ztree asUint)"

definition SetChannelBalanceV2 :: "('t, 'r, 'm, 'x) zenv \<Rightarrow> zrealm \<Rightarrow> string \<Rightarrow> uint256 \<Rightarrow> (('m, 'x) zstate, unit) zc" where
  "SetChannelBalanceV2 Z rlm key amount =
     zseq (zassertIsRlmCurrent rlm) (zmodify (\<lambda>s. s\<lparr>channelBalanceV2 := zt_Set Z (channelBalanceV2 s) key (ZUint amount)\<rparr>))"

definition RemoveChannelBalanceV2 :: "('t, 'r, 'm, 'x) zenv \<Rightarrow> zrealm \<Rightarrow> string \<Rightarrow> (('m, 'x) zstate, unit) zc" where
  "RemoveChannelBalanceV2 Z rlm key =
     zseq (zassertIsRlmCurrent rlm) (zmodify (\<lambda>s. s\<lparr>channelBalanceV2 := zt_Remove Z (channelBalanceV2 s) key\<rparr>))"

definition GetChannelBalanceV2 :: "('t, 'r, 'm, 'x) zenv \<Rightarrow> string \<Rightarrow> (('m, 'x) zstate, uint256 option) zc" where
  "GetChannelBalanceV2 Z key = zbind (zgets (\<lambda>s. zt_Get Z (channelBalanceV2 s) key)) (ztree asUint)"

definition SetMetadataImageOf :: "('t, 'r, 'm, 'x) zenv \<Rightarrow> zrealm \<Rightarrow> string \<Rightarrow> bytes \<Rightarrow> (('m, 'x) zstate, unit) zc" where
  "SetMetadataImageOf Z rlm denom img =
     zseq (zassertIsRlmCurrent rlm) (zmodify (\<lambda>s. s\<lparr>metadataImageOf := zt_Set Z (metadataImageOf s) denom (ZImage img)\<rparr>))"

definition GetMetadataImageOf :: "('t, 'r, 'm, 'x) zenv \<Rightarrow> string \<Rightarrow> (('m, 'x) zstate, bytes option) zc" where
  "GetMetadataImageOf Z denom = zbind (zgets (\<lambda>s. zt_Get Z (metadataImageOf s) denom)) (ztree asImage)"

definition SetForeignToken :: "('t, 'r, 'm, 'x) zenv \<Rightarrow> zrealm \<Rightarrow> string \<Rightarrow> bytes \<Rightarrow> (('m, 'x) zstate, unit) zc" where
  "SetForeignToken Z rlm denom token =
     zseq (zassertIsRlmCurrent rlm) (zmodify (\<lambda>s. s\<lparr>hashToForeignToken := zt_Set Z (hashToForeignToken s) denom (ZBytes token)\<rparr>))"

definition GetForeignToken :: "('t, 'r, 'm, 'x) zenv \<Rightarrow> string \<Rightarrow> (('m, 'x) zstate, bytes option) zc" where
  "GetForeignToken Z denom = zbind (zgets (\<lambda>s. zt_Get Z (hashToForeignToken s) denom)) (ztree asBytes)"

definition SetInFlightPacket :: "('t, 'r, 'm, 'x) zenv \<Rightarrow> zrealm \<Rightarrow> string \<Rightarrow> Packet \<Rightarrow> (('m, 'x) zstate, unit) zc" where
  "SetInFlightPacket Z rlm packetHash parent =
     zseq (zassertIsRlmCurrent rlm) (zmodify (\<lambda>s. s\<lparr>inFlightPacket := zt_Set Z (inFlightPacket s) packetHash (ZPacket parent)\<rparr>))"

definition GetInFlightPacket :: "('t, 'r, 'm, 'x) zenv \<Rightarrow> string \<Rightarrow> (('m, 'x) zstate, Packet option) zc" where
  "GetInFlightPacket Z packetHash = zbind (zgets (\<lambda>s. zt_Get Z (inFlightPacket s) packetHash)) (ztree asPacket)"

definition RemoveInFlightPacket :: "('t, 'r, 'm, 'x) zenv \<Rightarrow> zrealm \<Rightarrow> string \<Rightarrow> (('m, 'x) zstate, unit) zc" where
  "RemoveInFlightPacket Z rlm packetHash =
     zseq (zassertIsRlmCurrent rlm) (zmodify (\<lambda>s. s\<lparr>inFlightPacket := zt_Remove Z (inFlightPacket s) packetHash\<rparr>))"

definition SetTokenBucket :: "('t, 'r, 'm, 'x) zenv \<Rightarrow> zrealm \<Rightarrow> string \<Rightarrow> token_bucket \<Rightarrow> (('m, 'x) zstate, unit) zc" where
  "SetTokenBucket Z rlm denom bucket =
     zseq (zassertIsRlmCurrent rlm) (zmodify (\<lambda>s. s\<lparr>tokenBucket := zt_Set Z (tokenBucket s) denom (ZBucket bucket)\<rparr>))"

definition GetTokenBucket :: "('t, 'r, 'm, 'x) zenv \<Rightarrow> string \<Rightarrow> (('m, 'x) zstate, token_bucket option) zc" where
  "GetTokenBucket Z denom = zbind (zgets (\<lambda>s. zt_Get Z (tokenBucket s) denom)) (ztree asBucket)"

text \<open>A bucket is behind a pointer: what its methods change is changed in the tree.\<close>

definition updateBucket :: "('t, 'r, 'm, 'x) zenv \<Rightarrow> string \<Rightarrow> token_bucket \<Rightarrow> (('m, 'x) zstate, unit) zc" where
  "updateBucket Z denom bucket = zmodify (\<lambda>s. s\<lparr>tokenBucket := zt_Set Z (tokenBucket s) denom (ZBucket bucket)\<rparr>)"

definition RemoveTokenBucket :: "('t, 'r, 'm, 'x) zenv \<Rightarrow> zrealm \<Rightarrow> string \<Rightarrow> (('m, 'x) zstate, unit) zc" where
  "RemoveTokenBucket Z rlm denom =
     zseq (zassertIsRlmCurrent rlm) (zmodify (\<lambda>s. s\<lparr>tokenBucket := zt_Remove Z (tokenBucket s) denom\<rparr>))"

definition SetVoucher :: "('t, 'r, 'm, 'x) zenv \<Rightarrow> zrealm \<Rightarrow> string \<Rightarrow> 't Voucher \<Rightarrow> (('m, 'x) zstate, unit) zc" where
  "SetVoucher Z rlm ibcDenom v =
     zseq (zassertIsRlmCurrent rlm) (zmodify (\<lambda>s. s\<lparr>vouchers := zt_Set Z (vouchers s) ibcDenom (ZVoucher v)\<rparr>))"

definition GetVoucher :: "('t, 'r, 'm, 'x) zenv \<Rightarrow> string \<Rightarrow> (('m, 'x) zstate, 't Voucher option) zc" where
  "GetVoucher Z ibcDenom = zbind (zgets (\<lambda>s. zt_Get Z (vouchers s) ibcDenom)) (ztree asVoucher)"

definition HasVoucher :: "('t, 'r, 'm, 'x) zenv \<Rightarrow> string \<Rightarrow> ('m, 'x) zstate \<Rightarrow> bool" where
  "HasVoucher Z ibcDenom s \<longleftrightarrow> zt_Get Z (vouchers s) ibcDenom \<noteq> None"

definition GetLockedTokenAmount :: "('t, 'r, 'm, 'x) zenv \<Rightarrow> string \<Rightarrow> (('m, 'x) zstate, uint256 option) zc" where
  "GetLockedTokenAmount Z denom = zbind (zgets (\<lambda>s. zt_Get Z (lockedTokenAmounts s) denom)) (ztree asUint)"

definition AddLockedTokenAmount :: "('t, 'r, 'm, 'x) zenv \<Rightarrow> zrealm \<Rightarrow> string \<Rightarrow> uint256 \<Rightarrow> (('m, 'x) zstate, unit) zc" where
  "AddLockedTokenAmount Z rlm denom amount =
     zseq (zassertIsRlmCurrent rlm)
     (zbind (GetLockedTokenAmount Z denom) (\<lambda>locked.
      let (total, overflow) = AddOverflow (case locked of None \<Rightarrow> Uint_Zero | Some l \<Rightarrow> l) amount
      in if overflow then zpanic errLockedTokenAmountOverflow
         else zmodify (\<lambda>s. s\<lparr>lockedTokenAmounts := zt_Set Z (lockedTokenAmounts s) denom (ZUint total)\<rparr>)))"

definition SetReceiver :: "('t, 'r, 'm, 'x) zenv \<Rightarrow> zrealm \<Rightarrow> string \<Rightarrow> 'r option \<Rightarrow> (('m, 'x) zstate, unit) zc" where
  "SetReceiver Z rlm path receiver =
     zseq (zassertIsRlmCurrent rlm) (zmodify (\<lambda>s. s\<lparr>receivers := zt_Set Z (receivers s) path (ZReceiver receiver)\<rparr>))"

definition GetReceiver :: "('t, 'r, 'm, 'x) zenv \<Rightarrow> string \<Rightarrow> (('m, 'x) zstate, 'r option option) zc" where
  "GetReceiver Z path = zbind (zgets (\<lambda>s. zt_Get Z (receivers s) path)) (ztree asReceiver)"

definition store_SetRateLimitDisabled :: "zrealm \<Rightarrow> bool \<Rightarrow> (('m, 'x) zstate, unit) zc" where
  "store_SetRateLimitDisabled rlm disabled =
     zseq (zassertIsRlmCurrent rlm) (zmodify (\<lambda>s. s\<lparr>rateLimitDisabled := disabled\<rparr>))"

end
