(* ===== verification/ZkgmHash.thy ===== *)
theory ZkgmHash
  imports ZkgmBase
begin

text \<open>
  The salts and the addresses ZKGM derives with keccak256 (\<^verbatim>\<open>p/onbloc/ibc/union/zkgm/salt.gno\<close>,
  \<^verbatim>\<open>predict.gno\<close>): what each hashes, and that what it hashes determines its arguments. keccak256 is the argument
  \<open>kc\<close>.
\<close>

section \<open>Salts (salt.gno)\<close>

definition Uint256ToBytes32 :: "uint256 \<Rightarrow> bytes" where
  "Uint256ToBytes32 x = encodeUint256Word x"

definition Uint256FromBytes32 :: "bytes \<Rightarrow> uint256" where
  "Uint256FromBytes32 bz = SetBytes32 bz"

definition DeriveBatchSalt :: "hash \<Rightarrow> uint256 \<Rightarrow> bytes \<Rightarrow> bytes" where
  "DeriveBatchSalt kc index salt = kc (Uint256ToBytes32 index @ salt)"

definition TintForwardSalt :: "bytes \<Rightarrow> bytes" where
  "TintForwardSalt salt = map (\<lambda>(b, m). or b m) (zip salt FORWARD_SALT_MAGIC)"

definition IsForwardedPacket :: "bytes \<Rightarrow> bool" where
  "IsForwardedPacket salt \<longleftrightarrow> list_all (\<lambda>(b, m). and b m = m) (zip salt FORWARD_SALT_MAGIC)"

definition DeriveForwardSalt :: "hash \<Rightarrow> bytes \<Rightarrow> bytes" where
  "DeriveForwardSalt kc salt = TintForwardSalt (kc salt)"

definition senderSaltPreimage :: "bytes \<Rightarrow> bytes \<Rightarrow> bytes" where
  "senderSaltPreimage sender salt =
     (let pad = (32 - length sender mod 32) mod 32
      in replicate 31 0 @ [0x20] @ replicate 31 0 @ [0x40] @ salt @ replicate 24 0 @
         PutUint64 (word_of_nat (length sender)) @ sender @ replicate pad 0)"

definition DeriveSenderSalt :: "hash \<Rightarrow> bytes \<Rightarrow> bytes \<Rightarrow> bytes" where
  "DeriveSenderSalt kc sender salt = kc (senderSaltPreimage sender salt)"

section \<open>Predicted denoms and accounts (predict.gno)\<close>

definition ibcDenomPrefix :: string where "ibcDenomPrefix = ''ibc/''"
definition tagCallProxy :: string where "tagCallProxy = ''ZKGM_CALL_PROXY''"
definition callProxyAccountPrefix :: string where "callProxyAccountPrefix = ''zkgm1''"

definition wrappedDenom :: "hash \<Rightarrow> bytes \<Rightarrow> string" where
  "wrappedDenom kc bz = ibcDenomPrefix @ EncodeToString (take 20 (kc bz))"

definition PredictWrappedToken :: "hash \<Rightarrow> uint256 \<Rightarrow> u32 \<Rightarrow> bytes \<Rightarrow> abi_error + string" where
  "PredictWrappedToken kc path channelId baseToken =
     (case Encode PredictWrappedTokenSchema [VUint256 (Some path), VUint32 channelId, VBytes baseToken] of
        Inl e \<Rightarrow> Inl e
      | Inr bz \<Rightarrow> Inr (wrappedDenom kc bz))"

definition PredictWrappedTokenV2 :: "hash \<Rightarrow> uint256 \<Rightarrow> u32 \<Rightarrow> bytes \<Rightarrow> bytes \<Rightarrow> abi_error + string" where
  "PredictWrappedTokenV2 kc path channelId baseToken metadataImage =
     (let img = SetBytes32 metadataImage in
      case Encode PredictV2Schema [VUint256 (Some path), VUint32 channelId, VBytes baseToken, VUint256 (Some img)] of
        Inl e \<Rightarrow> Inl e
      | Inr bz \<Rightarrow> Inr (wrappedDenom kc bz))"

definition MetadataImage :: "hash \<Rightarrow> TokenMetadata \<Rightarrow> codec_error + bytes" where
  "MetadataImage kc meta = (case EncodeTokenMetadata meta of Inl e \<Rightarrow> Inl e | Inr bz \<Rightarrow> Inr (kc bz))"

definition callProxyPreimage :: "uint256 \<Rightarrow> ChannelId \<Rightarrow> bytes \<Rightarrow> bytes" where
  "callProxyPreimage path channelId sender =
     bytes_of_string tagCallProxy @ Uint256ToBytes32 path @ PutUint32 channelId @
     PutUint64 (word_of_nat (length sender)) @ sender"

definition PredictCallProxyAccount :: "hash \<Rightarrow> uint256 \<Rightarrow> ChannelId \<Rightarrow> bytes \<Rightarrow> string" where
  "PredictCallProxyAccount kc path channelId sender =
     callProxyAccountPrefix @ EncodeToString (take 20 (kc (callProxyPreimage path channelId sender)))"

section \<open>Forwarded packets\<close>

lemma length_FORWARD_SALT_MAGIC [simp]: "length FORWARD_SALT_MAGIC = 32"
  by (simp add: FORWARD_SALT_MAGIC_def)

lemma length_TintForwardSalt [simp]: "length salt = 32 \<Longrightarrow> length (TintForwardSalt salt) = 32"
  by (simp add: TintForwardSalt_def)

lemma and_or_absorb: "and (or b m) m = (m :: byte)"
  by (rule bit_eqI) (auto simp: bit_simps)

lemma tinted_forwarded: "IsForwardedPacket (TintForwardSalt salt)"
proof -
  have "list_all (\<lambda>(b, m). and b m = m) (zip (map (\<lambda>(b, m). or b m) (zip xs ms)) ms)" for xs ms :: bytes
    by (induction xs ms rule: list_induct2') (simp_all add: and_or_absorb)
  then show ?thesis by (simp add: IsForwardedPacket_def TintForwardSalt_def)
qed

lemma forward_salt_recognised: "IsForwardedPacket (DeriveForwardSalt kc salt)"
  by (simp add: DeriveForwardSalt_def tinted_forwarded)

section \<open>The hashed strings\<close>

text \<open>What \<open>DeriveSenderSalt\<close> lays out by hand is the encoding of a dynamic tuple.\<close>

lemma offset_words: "encodeUint64Word 32 = replicate 31 0 @ [0x20]" "encodeUint64Word 64 = replicate 31 0 @ [0x40]"
  by code_simp+

lemma sender_salt_is_abi:
  "length salt = 32 \<Longrightarrow> Encode [struct [plain TypeBytes, plain TypeBytes32]] [VList [VBytes sender, VBytes32 salt]] =
     Inr (senderSaltPreimage sender salt)"
  by (simp add: Encode_def struct_def senderSaltPreimage_def encodeBytes_def wordSize_def Let_def offset_words)
    (simp add: encodeUint64Word_def)

lemma senderSaltPreimage_inject:
  assumes "length salt = 32" "length salt' = 32" "length sender < 2 ^ 64" "length sender' < 2 ^ 64"
  shows "senderSaltPreimage sender salt = senderSaltPreimage sender' salt' \<longleftrightarrow> sender = sender' \<and> salt = salt'"
proof
  assume eq: "senderSaltPreimage sender salt = senderSaltPreimage sender' salt'"
  have salts: "salt = salt'"
    using arg_cong [OF eq, of "\<lambda>bz. take 32 (drop 64 bz)"] assms by (simp add: senderSaltPreimage_def Let_def)
  have "(word_of_nat (length sender) :: u64) = word_of_nat (length sender')"
    using arg_cong [OF eq, of "\<lambda>bz. take 8 (drop 120 bz)"] assms by (simp add: senderSaltPreimage_def Let_def)
  then have "unat (word_of_nat (length sender) :: u64) = unat (word_of_nat (length sender') :: u64)" by simp
  then have len: "length sender = length sender'" using assms by (simp add: unat_u64_of_nat)
  have "sender = sender'"
    using arg_cong [OF eq, of "\<lambda>bz. take (length sender) (drop 128 bz)"] assms len
    by (simp add: senderSaltPreimage_def Let_def)
  with salts show "sender = sender' \<and> salt = salt'" by simp
qed simp

lemma encodeUint256Word_inject [simp]: "encodeUint256Word x = encodeUint256Word y \<longleftrightarrow> x = y"
  by (metis SetBytes32_encode)

lemma callProxyPreimage_inject [simp]:
  "callProxyPreimage path c sender = callProxyPreimage path' c' sender' \<longleftrightarrow> path = path' \<and> c = c' \<and> sender = sender'"
  by (auto simp: callProxyPreimage_def Uint256ToBytes32_def)

lemma batch_preimage_inject:
  "Uint256ToBytes32 i @ salt = Uint256ToBytes32 j @ salt' \<longleftrightarrow> i = j \<and> salt = salt'"
  by (auto simp: Uint256ToBytes32_def)

section \<open>Predicted denoms\<close>

lemma predict_encodes:
  "\<exists>bz. Encode PredictWrappedTokenSchema [VUint256 (Some p), VUint32 c, VBytes b] = Inr bz"
  "\<exists>bz. Encode PredictV2Schema [VUint256 (Some p), VUint32 c, VBytes b, VUint256 (Some img)] = Inr bz"
  by (rule Encode_total; simp add: PredictWrappedTokenSchema_def PredictV2Schema_def)+

lemma Predict_total:
  "\<exists>d. PredictWrappedToken kc p c b = Inr (ibcDenomPrefix @ d)"
  "\<exists>d. PredictWrappedTokenV2 kc p c b img = Inr (ibcDenomPrefix @ d)"
  using predict_encodes(1) [of p c b] predict_encodes(2) [of p c b "SetBytes32 img"]
  by (auto simp: PredictWrappedToken_def PredictWrappedTokenV2_def wrappedDenom_def Let_def)

lemma MetadataImage_total: "\<exists>img. MetadataImage kc m = Inr img"
  using TokenMetadata_back [of m] by (auto simp: MetadataImage_def)

text \<open>Two encodings with one schema are equal only for equal values.\<close>

lemma Encode_inject:
  assumes "list_all wf_field fs" "fields_depth fs < maxAbiDepth" "have_types vs fs" "have_types ws fs"
    and "Encode fs vs = Inr out" "Encode fs ws = Inr out" "length out < 2 ^ 64"
  shows "vs = ws"
proof -
  have "Decode fs out = Inr vs" "Decode fs out = Inr ws"
    using Decode_Encode [of fs vs out] Decode_Encode [of fs ws out] assms by (auto simp: list_all_iff)
  then show ?thesis by simp
qed

end
