(* ===== verification/ZkgmVault.thy ===== *)
theory ZkgmVault
  imports ZkgmHash "HOL-Library.AList"
begin

text \<open>
  The accounting of ZKGM: the coins a caller attached (\<^verbatim>\<open>v1/coins.gno\<close>), the balances escrowed per channel
  (\<^verbatim>\<open>v1/channel_balance.gno\<close>), wrapped tokens (\<^verbatim>\<open>voucher.gno\<close>, \<^verbatim>\<open>v1/voucher.gno\<close>), the custody of local tokens
  and coins (\<^verbatim>\<open>v1/escrow.gno\<close>) and the rate limit (\<^verbatim>\<open>v1/rate_limit.gno\<close>). The realm \<open>rlm\<close> is the proxy's, and its address holds what is in escrow. A pointer
  that is never nil is its value: the paths and amounts the decoders return, and the zero path of \<^verbatim>\<open>Send\<close>.
\<close>

section \<open>Coins (coins.gno)\<close>

datatype tokenType = IBC_TOKEN | GRC20_TOKEN | NATIVE_COIN

definition isIBCTokenDenom :: "string \<Rightarrow> bool" where
  "isIBCTokenDenom denom \<longleftrightarrow> take (length ibcDenomPrefix) denom = ibcDenomPrefix"

definition trimIBCPrefix :: "string \<Rightarrow> string" where
  "trimIBCPrefix denom = (if isIBCTokenDenom denom then drop (length ibcDenomPrefix) denom else denom)"

definition getTokenType :: "('t, 'r, 'm, 'x) zenv \<Rightarrow> string \<Rightarrow> 'x \<Rightarrow> tokenType" where
  "getTokenType Z denom x =
     (if isIBCTokenDenom denom then IBC_TOKEN
      else if reg_Get Z x denom \<noteq> None then GRC20_TOKEN
      else NATIVE_COIN)"

definition amountInt64 :: "uint256 \<Rightarrow> scale_error + int" where
  "amountInt64 amount = ScaleDownToInt64 amount 0"

text \<open>The Go map of attached coins is an association list with one entry per denom.\<close>

type_synonym funds = "(string \<times> int) list"

definition newFunds :: "(string \<times> int) list \<Rightarrow> funds" where
  "newFunds sent = foldl (\<lambda>f (denom, amount). AList.update denom amount f) [] sent"

definition funds_sub :: "funds \<Rightarrow> string \<Rightarrow> uint256 \<Rightarrow> ('s, funds) zc" where
  "funds_sub f denom amount =
     zbind (zscale (amountInt64 amount)) (\<lambda>want.
     case map_of f denom of
       None \<Rightarrow> zfail errCoinMismatch
     | Some have_amount \<Rightarrow>
         if have_amount < want then zfail errCoinMismatch
         else zret (AList.update denom (have_amount - want) f))"

definition funds_isEmpty :: "funds \<Rightarrow> bool" where
  "funds_isEmpty f \<longleftrightarrow> list_all (\<lambda>(denom, amount). amount = 0) f"

definition assertEmpty :: "funds \<Rightarrow> ('s, unit) zc" where
  "assertEmpty f = zguard (funds_isEmpty f) errCoinMismatch"

section \<open>Channel balances (channel\_balance.gno)\<close>

definition ChannelBalanceKeyV2 :: "ChannelId \<Rightarrow> uint256 \<Rightarrow> bytes \<Rightarrow> bytes \<Rightarrow> string" where
  "ChannelBalanceKeyV2 channelId path baseToken quoteToken =
     id_String channelId @ ''/'' @ ToString path @ ''/'' @ EncodeToString baseToken @ ''/'' @ EncodeToString quoteToken"

definition increaseChannelBalanceV2 ::
    "('t, 'r, 'm, 'x) zenv \<Rightarrow> zrealm \<Rightarrow> ChannelId \<Rightarrow> uint256 \<Rightarrow> bytes \<Rightarrow> bytes \<Rightarrow> int \<Rightarrow> (('m, 'x) zstate, unit) zc" where
  "increaseChannelBalanceV2 Z rlm channelId path baseToken quoteToken amount =
     (let key = ChannelBalanceKeyV2 channelId path baseToken quoteToken in
      zbind (GetChannelBalanceV2 Z key) (\<lambda>found.
      let curAmount = (case found of None \<Rightarrow> Uint_Zero | Some u \<Rightarrow> u);
          (calculatedAmount, overflow) = AddOverflow curAmount (NewUint (word_of_int amount))
      in if overflow then zfail errChannelBalanceOverflow
         else SetChannelBalanceV2 Z rlm key calculatedAmount))"

definition decreaseChannelBalanceV2 ::
    "('t, 'r, 'm, 'x) zenv \<Rightarrow> zrealm \<Rightarrow> ChannelId \<Rightarrow> uint256 \<Rightarrow> bytes \<Rightarrow> bytes \<Rightarrow> int \<Rightarrow> (('m, 'x) zstate, unit) zc" where
  "decreaseChannelBalanceV2 Z rlm channelId path baseToken quoteToken amount =
     (let key = ChannelBalanceKeyV2 channelId path baseToken quoteToken;
          amountUint256 = NewUint (word_of_int amount) in
      zbind (GetChannelBalanceV2 Z key) (\<lambda>found.
      case found of
        None \<Rightarrow> zfail errChannelBalanceUnderflow
      | Some curAmount \<Rightarrow>
          if Uint_Cmp curAmount amountUint256 < 0 then zfail errChannelBalanceUnderflow
          else let (calculatedAmount, underflow) = SubOverflow curAmount amountUint256
               in if underflow then zfail errChannelBalanceUnderflow
                  else SetChannelBalanceV2 Z rlm key calculatedAmount))"

section \<open>Vouchers (voucher.gno)\<close>

definition ScaleExp :: "('t, 'r, 'm, 'x) zenv \<Rightarrow> 't Voucher \<Rightarrow> int" where
  "ScaleExp Z v =
     (let e = int (unat (v_originDecimals v)) - tok_Decimals Z (v_token v) in if e < 0 then 0 else e)"

definition ToLedgerAmount :: "('t, 'r, 'm, 'x) zenv \<Rightarrow> 't Voucher \<Rightarrow> uint256 \<Rightarrow> scale_error + int" where
  "ToLedgerAmount Z v amount = ScaleDownToInt64 amount (ScaleExp Z v)"

definition MintScaled :: "('t, 'r, 'm, 'x) zenv \<Rightarrow> 't Voucher \<Rightarrow> address \<Rightarrow> uint256 \<Rightarrow> (('m, 'x) zstate, unit) zc" where
  "MintScaled Z v receiver amount =
     zbind (zscale (ToLedgerAmount Z v amount)) (\<lambda>n. zforeign (ledger_Mint Z (v_token v) receiver n))"

definition BurnScaled :: "('t, 'r, 'm, 'x) zenv \<Rightarrow> 't Voucher \<Rightarrow> address \<Rightarrow> uint256 \<Rightarrow> (('m, 'x) zstate, unit) zc" where
  "BurnScaled Z v holder amount =
     zbind (zscale (ToLedgerAmount Z v amount)) (\<lambda>n. zforeign (ledger_Burn Z (v_token v) holder n))"

definition TransferScaled ::
    "('t, 'r, 'm, 'x) zenv \<Rightarrow> 't Voucher \<Rightarrow> address \<Rightarrow> address \<Rightarrow> uint256 \<Rightarrow> (('m, 'x) zstate, unit) zc" where
  "TransferScaled Z v src dst amount =
     zbind (zscale (ToLedgerAmount Z v amount)) (\<lambda>n. zforeign (ledger_Transfer Z (v_token v) src dst n))"

text \<open>\<^verbatim>\<open>ledger.ImpersonateTeller(a)\<close> acts for the account \<^verbatim>\<open>a\<close>.\<close>

definition voucher_Approve :: "('t, 'r, 'm, 'x) zenv \<Rightarrow> zrealm \<Rightarrow> 't Voucher \<Rightarrow> address \<Rightarrow> int \<Rightarrow> (('m, 'x) zstate, unit) zc" where
  "voucher_Approve Z rlm v spender amount = zforeign (teller_Approve Z (v_token v) (PrevAddress rlm) spender amount)"

definition voucher_Transfer :: "('t, 'r, 'm, 'x) zenv \<Rightarrow> zrealm \<Rightarrow> 't Voucher \<Rightarrow> address \<Rightarrow> int \<Rightarrow> (('m, 'x) zstate, unit) zc" where
  "voucher_Transfer Z rlm v to amount = zforeign (teller_Transfer Z (v_token v) (PrevAddress rlm) to amount)"

section \<open>Minting, burning and moving vouchers (v1/voucher.gno)\<close>

definition canonicalDecimals :: int where "canonicalDecimals = 6"

definition scaleExpForDecimals :: "byte \<Rightarrow> int" where
  "scaleExpForDecimals decimals =
     (if int (unat decimals) > canonicalDecimals then int (unat decimals) - canonicalDecimals else 0)"

definition legalSymbolChar :: "char \<Rightarrow> bool" where
  "legalSymbolChar c \<longleftrightarrow>
     (let n = of_char c :: nat
      in (97 \<le> n \<and> n \<le> 122) \<or> (65 \<le> n \<and> n \<le> 90) \<or> (48 \<le> n \<and> n \<le> 57) \<or> c = CHR ''_'' \<or> c = CHR ''-'')"

fun symbolLoop :: "nat \<Rightarrow> string \<Rightarrow> string \<Rightarrow> string" where
  "symbolLoop maxLen [] out = out"
| "symbolLoop maxLen (c # cs) out =
     (if length out < maxLen then symbolLoop maxLen cs (if legalSymbolChar c then out @ [c] else out) else out)"

definition sanitizeVoucherSymbol :: "('t, 'r, 'm, 'x) zenv \<Rightarrow> string \<Rightarrow> string \<Rightarrow> string" where
  "sanitizeVoucherSymbol Z candidate ibcDenom =
     (let out = symbolLoop (grc20_MaxSymbolLen Z) candidate []
      in if length out = 0
         then let fallback = trimIBCPrefix ibcDenom
              in if length fallback > grc20_MaxSymbolLen Z then take (grc20_MaxSymbolLen Z) fallback else fallback
         else out)"

definition getOrCreateVoucher ::
    "('t, 'r, 'm, 'x) zenv \<Rightarrow> zrealm \<Rightarrow> string \<Rightarrow> string \<Rightarrow> string \<Rightarrow> byte \<Rightarrow> (('m, 'x) zstate, 't Voucher) zc" where
  "getOrCreateVoucher Z rlm ibcDenom tokenName tokenSymbol decimals =
     zbind (GetVoucher Z ibcDenom) (\<lambda>found.
     case found of
       Some vou \<Rightarrow> zret vou
     | None \<Rightarrow>
         (let name = (if tokenName = [] then ibcDenom else tokenName);
              symbol = sanitizeVoucherSymbol Z tokenSymbol ibcDenom;
              key = fq_Construct Z (PkgPath rlm) symbol in
          zbind (zgets (\<lambda>s. reg_Get Z (ext s) key)) (\<lambda>taken.
          if taken \<noteq> None then zfail (errVoucherSymbolAlreadyRegistered symbol)
          else
            (let ledgerDecimals = (if scaleExpForDecimals decimals > 0 then canonicalDecimals else int (unat decimals)) in
             zbind (zgets (\<lambda>s. tok_New Z name symbol ledgerDecimals (ext s))) (\<lambda>made.
             case made of
               None \<Rightarrow> zpanic errForeignPanic
             | Some (token, x) \<Rightarrow>
                 (case reg_Register Z token (trimIBCPrefix ibcDenom) x of
                    None \<Rightarrow> zfatal errForeignPanic
                  | Some x' \<Rightarrow>
                      zseq (zmodify (\<lambda>s. s\<lparr>ext := x'\<rparr>))
                      (let voucher = \<lparr>v_token = token, v_originDecimals = decimals\<rparr> in
                       zseq (SetVoucher Z rlm ibcDenom voucher) (zret voucher))))))))"

definition mintVoucher ::
    "('t, 'r, 'm, 'x) zenv \<Rightarrow> zrealm \<Rightarrow> string \<Rightarrow> string \<Rightarrow> string \<Rightarrow> byte \<Rightarrow> address \<Rightarrow> uint256 \<Rightarrow> (('m, 'x) zstate, unit) zc" where
  "mintVoucher Z rlm ibcDenom name symbol decimals receiver amount =
     zbind (getOrCreateVoucher Z rlm ibcDenom name symbol decimals) (\<lambda>vou. MintScaled Z vou receiver amount)"

definition needVoucher :: "('t, 'r, 'm, 'x) zenv \<Rightarrow> string \<Rightarrow> ('t Voucher \<Rightarrow> (('m, 'x) zstate, unit) zc) \<Rightarrow> (('m, 'x) zstate, unit) zc" where
  "needVoucher Z ibcDenom k =
     zbind (GetVoucher Z ibcDenom) (\<lambda>found. case found of None \<Rightarrow> zfail (errVoucherNotFound ibcDenom) | Some vou \<Rightarrow> k vou)"

definition burnVoucher :: "('t, 'r, 'm, 'x) zenv \<Rightarrow> string \<Rightarrow> address \<Rightarrow> uint256 \<Rightarrow> (('m, 'x) zstate, unit) zc" where
  "burnVoucher Z ibcDenom sender amount = needVoucher Z ibcDenom (\<lambda>vou. BurnScaled Z vou sender amount)"

definition transferVoucher :: "('t, 'r, 'm, 'x) zenv \<Rightarrow> string \<Rightarrow> address \<Rightarrow> address \<Rightarrow> uint256 \<Rightarrow> (('m, 'x) zstate, unit) zc" where
  "transferVoucher Z ibcDenom src dst amount = needVoucher Z ibcDenom (\<lambda>vou. TransferScaled Z vou src dst amount)"

definition v1_VoucherApprove :: "('t, 'r, 'm, 'x) zenv \<Rightarrow> zrealm \<Rightarrow> string \<Rightarrow> address \<Rightarrow> int \<Rightarrow> (('m, 'x) zstate, unit) zc" where
  "v1_VoucherApprove Z rlm ibcDenom spender amount =
     zseq (zassertIsRlmCurrent rlm) (needVoucher Z ibcDenom (\<lambda>vou. voucher_Approve Z rlm vou spender amount))"

definition v1_VoucherTransfer :: "('t, 'r, 'm, 'x) zenv \<Rightarrow> zrealm \<Rightarrow> string \<Rightarrow> address \<Rightarrow> int \<Rightarrow> (('m, 'x) zstate, unit) zc" where
  "v1_VoucherTransfer Z rlm ibcDenom to amount =
     zseq (zassertIsRlmCurrent rlm) (needVoucher Z ibcDenom (\<lambda>vou. voucher_Transfer Z rlm vou to amount))"

definition ledgerAmountOf :: "('t, 'r, 'm, 'x) zenv \<Rightarrow> string \<Rightarrow> uint256 \<Rightarrow> (('m, 'x) zstate, int) zc" where
  "ledgerAmountOf Z ibcDenom amount =
     zbind (GetVoucher Z ibcDenom) (\<lambda>found.
     case found of Some vou \<Rightarrow> zscale (ToLedgerAmount Z vou amount) | None \<Rightarrow> zscale (amountInt64 amount))"

definition scaleExpOf :: "('t, 'r, 'm, 'x) zenv \<Rightarrow> string \<Rightarrow> (('m, 'x) zstate, int) zc" where
  "scaleExpOf Z ibcDenom =
     zbind (GetVoucher Z ibcDenom) (\<lambda>found. case found of Some vou \<Rightarrow> zret (ScaleExp Z vou) | None \<Rightarrow> zret 0)"

section \<open>Rate limit (rate\_limit.gno)\<close>

definition rateLimit :: "('t, 'r, 'm, 'x) zenv \<Rightarrow> string \<Rightarrow> uint256 \<Rightarrow> (('m, 'x) zstate, unit) zc" where
  "rateLimit Z denom amount =
     zbind (zgets rateLimitDisabled) (\<lambda>off.
     if off then zret ()
     else zbind (GetTokenBucket Z denom) (\<lambda>found.
       case found of
         None \<Rightarrow> zfail (errTokenBucketAbsent denom)
       | Some bucket \<Rightarrow>
           zbind (zgets (\<lambda>s. z_Unix Z (ext s))) (\<lambda>now.
           case RateLimit bucket amount (NewUint (word_of_int now)) of
             Inl e \<Rightarrow> zpanic (errBucket e)
           | Inr (bucket', err) \<Rightarrow>
               zseq (updateBucket Z denom bucket')
                 (case err of None \<Rightarrow> zret () | Some e \<Rightarrow> zfail (errBucket e)))))"

section \<open>Custody of local tokens and coins (token\_order.gno, escrow.gno)\<close>

definition sendNative :: "('t, 'r, 'm, 'x) zenv \<Rightarrow> zrealm \<Rightarrow> string \<Rightarrow> address \<Rightarrow> uint256 \<Rightarrow> (('m, 'x) zstate, unit) zc" where
  "sendNative Z rlm denom receiver amount =
     zbind (zscale (amountInt64 amount)) (\<lambda>n.
     zseq (zforeign (bank_SendCoins Z (Address rlm) receiver denom n)) (zassertIsRlmCurrent rlm))"

definition zderef :: "'a option \<Rightarrow> ('s, 'a) zc" where
  "zderef p = (case p of None \<Rightarrow> zpanic errNilDereference | Some x \<Rightarrow> zret x)"

definition localGRC20Escrow :: "('t, 'r, 'm, 'x) zenv \<Rightarrow> zrealm \<Rightarrow> 't option \<Rightarrow> address \<Rightarrow> uint256 \<Rightarrow> (('m, 'x) zstate, unit) zc" where
  "localGRC20Escrow Z rlm tokenPtr sender amount =
     zbind (zscale (amountInt64 amount)) (\<lambda>n.
     zbind (zderef tokenPtr) (\<lambda>token.
     zbind (zgets (\<lambda>s. tok_BalanceOf Z (ext s) token (Address rlm))) (\<lambda>beforeBalance.
     zseq (zforeign (teller_TransferFrom Z token (Address rlm) sender (Address rlm) n))
     (zbind (zgets (\<lambda>s. tok_BalanceOf Z (ext s) token (Address rlm))) (\<lambda>afterBalance.
      zguard (afterBalance - beforeBalance = n) errInvalidTokenOrderTransferAmount)))))"

definition localGRC20Unescrow :: "('t, 'r, 'm, 'x) zenv \<Rightarrow> zrealm \<Rightarrow> 't option \<Rightarrow> address \<Rightarrow> uint256 \<Rightarrow> (('m, 'x) zstate, unit) zc" where
  "localGRC20Unescrow Z rlm tokenPtr recipient amount =
     zbind (zscale (amountInt64 amount)) (\<lambda>n.
     zbind (zderef tokenPtr) (\<lambda>token.
     zbind (zgets (\<lambda>s. tok_BalanceOf Z (ext s) token (Address rlm))) (\<lambda>beforeBalance.
     zseq (zforeign (teller_Transfer Z token (Address rlm) recipient n))
     (zbind (zgets (\<lambda>s. tok_BalanceOf Z (ext s) token (Address rlm))) (\<lambda>afterBalance.
      zguard (beforeBalance - afterBalance = n) errInvalidTokenOrderTransferAmount)))))"

definition localTokenEscrow ::
    "('t, 'r, 'm, 'x) zenv \<Rightarrow> zrealm \<Rightarrow> string \<Rightarrow> address \<Rightarrow> funds \<Rightarrow> uint256 \<Rightarrow> (('m, 'x) zstate, funds) zc" where
  "localTokenEscrow Z rlm denom sender f amount =
     zbind (zgets (\<lambda>s. getTokenType Z denom (ext s))) (\<lambda>ty.
     case ty of
       IBC_TOKEN \<Rightarrow> zseq (transferVoucher Z denom sender (Address rlm) amount) (zret f)
     | GRC20_TOKEN \<Rightarrow>
         zbind (zgets (\<lambda>s. reg_Get Z (ext s) denom)) (\<lambda>token.
         zseq (localGRC20Escrow Z rlm token sender amount) (zret f))
     | NATIVE_COIN \<Rightarrow> funds_sub f denom amount)"

definition localTokenUnescrow :: "('t, 'r, 'm, 'x) zenv \<Rightarrow> zrealm \<Rightarrow> string \<Rightarrow> address \<Rightarrow> uint256 \<Rightarrow> (('m, 'x) zstate, unit) zc" where
  "localTokenUnescrow Z rlm denom recipient amount =
     zbind (zgets (\<lambda>s. getTokenType Z denom (ext s))) (\<lambda>ty.
     case ty of
       IBC_TOKEN \<Rightarrow> transferVoucher Z denom (Address rlm) recipient amount
     | GRC20_TOKEN \<Rightarrow>
         zbind (zgets (\<lambda>s. reg_Get Z (ext s) denom)) (\<lambda>token. localGRC20Unescrow Z rlm token recipient amount)
     | NATIVE_COIN \<Rightarrow> sendNative Z rlm denom recipient amount)"

end
