(* ===== verification/ZkgmOrder.thy ===== *)
theory ZkgmOrder
  imports ZkgmVault
begin

text \<open>
  Token orders (\<^verbatim>\<open>v1/token_order.gno\<close>): the checks and the escrow when one is sent, the settlement when one is
  received (minting a wrapped token, releasing an escrowed one, or a fill from the relayer's own vouchers),
  and what an acknowledgement or a timeout gives back.
\<close>

section \<open>Results and acknowledgements\<close>

definition recvResult :: "PacketStatus \<Rightarrow> bytes \<Rightarrow> RecvPacketResult" where
  "recvResult status ack = \<lparr>res_Status = status, res_Acknowledgement = ack\<rparr>"

definition failureResult :: "bytes \<Rightarrow> RecvPacketResult" where
  "failureResult ack = recvResult PacketStatusFailure ack"

definition universalErrorAck :: "('s, bytes) zc" where
  "universalErrorAck = zmust errCodec (EncodeAck \<lparr>ack_Tag = NewUint 0, ack_InnerAck = []\<rparr>)"

definition failed :: "('s, RecvPacketResult) zc" where
  "failed = zbind universalErrorAck (\<lambda>ack. zret (failureResult ack))"

definition tagAckSuccess :: uint256 where "tagAckSuccess = Uint256FromBytes32 TAG_ACK_SUCCESS"
definition tagAckFailure :: uint256 where "tagAckFailure = Uint256FromBytes32 TAG_ACK_FAILURE"
definition fillTypeProtocol :: uint256 where "fillTypeProtocol = Uint256FromBytes32 FILL_TYPE_PROTOCOL"
definition fillTypeMarketMaker :: uint256 where "fillTypeMarketMaker = Uint256FromBytes32 FILL_TYPE_MARKETMAKER"

definition isOnlyMakerAck :: "bytes \<Rightarrow> bool" where
  "isOnlyMakerAck ack \<longleftrightarrow> ack = ACK_ERR_ONLY_MAKER"

definition onlyMaker :: RecvPacketResult where
  "onlyMaker = recvResult PacketStatusSuccess ACK_ERR_ONLY_MAKER"

definition encodeTokenOrderSuccessAck :: "uint256 \<Rightarrow> bytes \<Rightarrow> ('s, bytes) zc" where
  "encodeTokenOrderSuccessAck fillType marketMaker =
     zbind (zcodec (EncodeTokenOrderAck \<lparr>oa_FillType = fillType, oa_MarketMaker = marketMaker\<rparr>)) (\<lambda>innerAck.
     zcodec (EncodeAck \<lparr>ack_Tag = tagAckSuccess, ack_InnerAck = innerAck\<rparr>))"

definition zeroImage :: bytes where "zeroImage = replicate 32 0"

definition isZeroImage :: "bytes \<Rightarrow> bool" where
  "isZeroImage img \<longleftrightarrow> img = zeroImage"

section \<open>Sending\<close>

definition verifyMetadataDecimals :: "('t, 'r, 'm, 'x) zenv \<Rightarrow> string \<Rightarrow> bytes \<Rightarrow> (('m, 'x) zstate, unit) zc" where
  "verifyMetadataDecimals Z baseDenom metadata =
     zbind (zgets (\<lambda>s. reg_Get Z (ext s) baseDenom)) (\<lambda>token.
     zbind (case token of
              Some t \<Rightarrow> zret (Some (word_of_int (tok_Decimals Z t) :: byte))
            | None \<Rightarrow> zbind (GetVoucher Z baseDenom) (\<lambda>vou. zret (map_option v_originDecimals vou))) (\<lambda>known.
     case known of
       None \<Rightarrow> zret ()
     | Some originDecimals \<Rightarrow>
         zbind (zcodec (DecodeTokenMetadata metadata)) (\<lambda>meta.
         zbind (zcodec (DecodeTokenInitializer (tm_Initializer meta))) (\<lambda>ti.
         zguard (ti_Decimals ti = originDecimals) errMetadataDecimalsMismatch))))"

definition verifyTokenOrderV2 ::
    "('t, 'r, 'm, 'x) zenv \<Rightarrow> zrealm \<Rightarrow> funds \<Rightarrow> ChannelId \<Rightarrow> uint256 \<Rightarrow> TokenOrderV2 \<Rightarrow> (('m, 'x) zstate, funds) zc" where
  "verifyTokenOrderV2 Z rlm f channelId path ord =
     (let baseDenom = string_of_bytes (o_BaseToken ord) in
      if o_Kind ord = TOKEN_ORDER_KIND_INITIALIZE \<or> o_Kind ord = TOKEN_ORDER_KIND_ESCROW then
        zseq (if o_Kind ord = TOKEN_ORDER_KIND_INITIALIZE
              then verifyMetadataDecimals Z baseDenom (o_Metadata ord) else zret ())
        (zbind (ledgerAmountOf Z baseDenom (o_BaseAmount ord)) (\<lambda>baseTokenLedgerAmount.
         zseq (increaseChannelBalanceV2 Z rlm channelId path (o_BaseToken ord) (o_QuoteToken ord) baseTokenLedgerAmount)
         (ztry (localTokenEscrow Z rlm baseDenom (PrevAddress rlm) f (o_BaseAmount ord))
           (\<lambda>err. zseq (zignore (decreaseChannelBalanceV2 Z rlm channelId path (o_BaseToken ord) (o_QuoteToken ord)
                     baseTokenLedgerAmount)) (zfail err)))))
      else if o_Kind ord = TOKEN_ORDER_KIND_UNESCROW then
        zbind (GetTokenOrigin Z baseDenom) (\<lambda>found.
        case found of
          None \<Rightarrow> zfail errInvalidUnescrow
        | Some origin \<Rightarrow>
            (let (intermediatePath, destChan) = PopChannelFromPath origin in
             zbind (zpath (ReverseChannelPath intermediatePath)) (\<lambda>reversed.
             if Uint_Cmp path reversed \<noteq> 0 then zfail errInvalidUnescrow
             else if channelId \<noteq> destChan then zfail errInvalidUnescrow
             else
               zbind (GetMetadataImageOf Z baseDenom) (\<lambda>stored.
               let img = (case stored of None \<Rightarrow> zeroImage | Some i \<Rightarrow> i) in
               zbind (zmust errEncode (PredictWrappedToken (z_keccak Z) intermediatePath channelId (o_QuoteToken ord))) (\<lambda>wrappedV1.
               zbind (zmust errEncode (PredictWrappedTokenV2 (z_keccak Z) intermediatePath channelId (o_QuoteToken ord) img)) (\<lambda>wrappedV2.
               if baseDenom \<noteq> wrappedV1 \<and> baseDenom \<noteq> wrappedV2 then zfail errInvalidUnescrow
               else if isIBCTokenDenom baseDenom
               then zseq (burnVoucher Z baseDenom (PrevAddress rlm) (o_BaseAmount ord)) (zret f)
               else funds_sub f baseDenom (o_BaseAmount ord)))))))
      else if o_Kind ord = TOKEN_ORDER_KIND_SOLVE then zfail errSolveNotImplemented
      else zfail errUnknownTokenOrderKind)"

section \<open>Receiving\<close>

text \<open>The first part of \<open>protocolFillMint\<close>: the terms of the mint, or a refusal.\<close>

definition mintTerms ::
    "('t, 'r, 'm, 'x) zenv \<Rightarrow> string \<Rightarrow> TokenMetadata option \<Rightarrow> bool \<Rightarrow>
     (('m, 'x) zstate, (bytes \<times> string \<times> string \<times> byte \<times> int) option) zc" where
  "mintTerms Z wrappedToken metadata canDeploy =
     (case metadata of
        Some meta \<Rightarrow>
          if canDeploy then
            zbind (zmust errCodec (MetadataImage (z_keccak Z) meta)) (\<lambda>img.
            zbind (zattempt (zcodec (DecodeTokenInitializer (tm_Initializer meta)))) (\<lambda>r.
            case r of
              Inl err \<Rightarrow> zret None
            | Inr ti \<Rightarrow>
                if ti_Decimals ti > grc20_MaxDecimals Z then zret None
                else zret (Some (img, ti_Name ti, ti_Symbol ti, ti_Decimals ti, scaleExpForDecimals (ti_Decimals ti)))))
          else zbind (scaleExpOf Z wrappedToken) (\<lambda>e. zret (Some (zeroImage, [], [], 0, e)))
      | None \<Rightarrow> zbind (scaleExpOf Z wrappedToken) (\<lambda>e. zret (Some (zeroImage, [], [], 0, e))))"

definition protocolFillMint ::
    "('t, 'r, 'm, 'x) zenv \<Rightarrow> zrealm \<Rightarrow> ChannelId \<Rightarrow> uint256 \<Rightarrow> bytes \<Rightarrow> string \<Rightarrow> address \<Rightarrow> address \<Rightarrow>
     uint256 \<Rightarrow> uint256 \<Rightarrow> TokenMetadata option \<Rightarrow> bool \<Rightarrow> (('m, 'x) zstate, RecvPacketResult) zc" where
  "protocolFillMint Z rlm channelId path baseToken wrappedToken receiver relayer baseAmount quoteAmount metadata canDeploy =
     (let (fee, underflow) = SubOverflow baseAmount quoteAmount in
      if underflow then zfail errTokenOrderFeeUnderflow
      else
        zbind (mintTerms Z wrappedToken metadata canDeploy) (\<lambda>terms.
        case terms of
          None \<Rightarrow> failed
        | Some (img, name, symbol, decimals, scaleExp) \<Rightarrow>
            zseq (zscale (ScaleDownToInt64 quoteAmount scaleExp))
            (zseq (zscale (ScaleDownToInt64 fee scaleExp))
            (zbind (GetForeignToken Z wrappedToken) (\<lambda>foreignToken.
             let shouldDeploy = (canDeploy \<and> metadata \<noteq> None \<and> foreignToken = None) in
             zbind (if shouldDeploy
                    then zbind (zpath (UpdateChannelPath path channelId)) (\<lambda>np. zret (Some np)) else zret None) (\<lambda>nextPath.
             zseq (if \<not> Uint_IsZero quoteAmount
                   then mintVoucher Z rlm wrappedToken name symbol decimals receiver quoteAmount else zret ())
             (zseq (if \<not> Uint_IsZero fee
                    then zorFatal (mintVoucher Z rlm wrappedToken name symbol decimals relayer fee) else zret ())
             (zseq (case nextPath of
                      None \<Rightarrow> zret ()
                    | Some np \<Rightarrow>
                        zseq (SetForeignToken Z rlm wrappedToken baseToken)
                        (zseq (SetTokenOrigin Z rlm wrappedToken np) (SetMetadataImageOf Z rlm wrappedToken img)))
             (zbind (zorFatal (encodeTokenOrderSuccessAck fillTypeProtocol [])) (\<lambda>ack.
              zret (recvResult PacketStatusSuccess ack))))))))))) "

definition protocolFillUnescrowV2 ::
    "('t, 'r, 'm, 'x) zenv \<Rightarrow> zrealm \<Rightarrow> ChannelId \<Rightarrow> uint256 \<Rightarrow> bytes \<Rightarrow> string \<Rightarrow> address \<Rightarrow> address \<Rightarrow>
     uint256 \<Rightarrow> uint256 \<Rightarrow> (('m, 'x) zstate, RecvPacketResult) zc" where
  "protocolFillUnescrowV2 Z rlm channelId path baseToken quoteTokenStr receiver relayer baseAmount quoteAmount =
     zbind (zpath (ReverseChannelPath path)) (\<lambda>reversedPath.
     let (fee, underflow) = SubOverflow baseAmount quoteAmount in
     if underflow then zfail errTokenOrderFeeUnderflow
     else
       zseq (ledgerAmountOf Z quoteTokenStr quoteAmount)
       (zseq (ledgerAmountOf Z quoteTokenStr fee)
       (zbind (ledgerAmountOf Z quoteTokenStr baseAmount) (\<lambda>baseTokenLedgerAmount.
        let quoteBytes = bytes_of_string quoteTokenStr;
            release = (\<lambda>to amount.
              if Uint_IsZero amount then zret ()
              else ztry (localTokenUnescrow Z rlm quoteTokenStr to amount)
                (\<lambda>err. zseq (zignore (increaseChannelBalanceV2 Z rlm channelId reversedPath quoteBytes baseToken
                          baseTokenLedgerAmount)) (zfatal err))) in
        zseq (decreaseChannelBalanceV2 Z rlm channelId reversedPath quoteBytes baseToken baseTokenLedgerAmount)
        (zseq (release receiver quoteAmount)
        (zseq (release relayer fee)
        (zbind (zorFatal (encodeTokenOrderSuccessAck fillTypeProtocol [])) (\<lambda>ack.
         zret (recvResult PacketStatusSuccess ack)))))))))"

definition marketMakerFillV2 ::
    "('t, 'r, 'm, 'x) zenv \<Rightarrow> address \<Rightarrow> bytes \<Rightarrow> TokenOrderV2 \<Rightarrow> (('m, 'x) zstate, RecvPacketResult) zc" where
  "marketMakerFillV2 Z relayer relayerMsg ord =
     (let quoteDenom = string_of_bytes (o_QuoteToken ord) in
      zbind (zgets (HasVoucher Z quoteDenom)) (\<lambda>has.
      if \<not> has then zret onlyMaker
      else
        zseq (ledgerAmountOf Z quoteDenom (o_QuoteAmount ord))
        (zbind (zattempt (transferVoucher Z quoteDenom relayer (string_of_bytes (o_Receiver ord)) (o_QuoteAmount ord))) (\<lambda>r.
         case r of
           Inl err \<Rightarrow> zret onlyMaker
         | Inr _ \<Rightarrow>
             (let marketMaker = (if length relayerMsg = 0 then bytes_of_string relayer else relayerMsg) in
              zbind (encodeTokenOrderSuccessAck fillTypeMarketMaker marketMaker) (\<lambda>ack.
              zret (recvResult PacketStatusSuccess ack)))))))"

definition tokenOrderDestinationChannel :: "ChannelId \<Rightarrow> ('s, u32) zc" where
  "tokenOrderDestinationChannel channelId =
     (if channelId = 0 then zfail errInvalidTokenOrderDestChannel else zret channelId)"

text \<open>The last part of \<open>executeTokenOrderV2\<close>, with the predicted denom if there is one.\<close>

definition fillPredicted ::
    "('t, 'r, 'm, 'x) zenv \<Rightarrow> zrealm \<Rightarrow> ChannelId \<Rightarrow> address \<Rightarrow> bytes \<Rightarrow> uint256 \<Rightarrow> TokenOrderV2 \<Rightarrow>
     string option \<Rightarrow> TokenMetadata option \<Rightarrow> (('m, 'x) zstate, RecvPacketResult) zc" where
  "fillPredicted Z rlm destination relayer relayerMsg path ord wrapped metadata =
     (let quoteDenom = string_of_bytes (o_QuoteToken ord);
          baseCovers = (Uint_Cmp (o_BaseAmount ord) (o_QuoteAmount ord) \<ge> 0) in
      if wrapped = Some quoteDenom \<and> baseCovers then
        zbind (zattempt (rateLimit Z quoteDenom (o_QuoteAmount ord))) (\<lambda>r.
        case r of
          Inl err \<Rightarrow> failed
        | Inr _ \<Rightarrow>
            protocolFillMint Z rlm destination path (o_BaseToken ord) quoteDenom (string_of_bytes (o_Receiver ord)) relayer
              (o_BaseAmount ord) (o_QuoteAmount ord) metadata (o_Kind ord = TOKEN_ORDER_KIND_INITIALIZE))
      else marketMakerFillV2 Z relayer relayerMsg ord)"

definition executeTokenOrderV2 ::
    "('t, 'r, 'm, 'x) zenv \<Rightarrow> zrealm \<Rightarrow> Packet \<Rightarrow> address \<Rightarrow> bytes \<Rightarrow> uint256 \<Rightarrow> TokenOrderV2 \<Rightarrow> bool \<Rightarrow>
     (('m, 'x) zstate, RecvPacketResult) zc" where
  "executeTokenOrderV2 Z rlm packet relayer relayerMsg path ord intent =
     (if intent \<or> o_Kind ord = TOKEN_ORDER_KIND_SOLVE then marketMakerFillV2 Z relayer relayerMsg ord
      else
        (let quoteDenom = string_of_bytes (o_QuoteToken ord);
             destination = DestinationChannelId packet;
             baseCovers = (Uint_Cmp (o_BaseAmount ord) (o_QuoteAmount ord) \<ge> 0) in
         if o_Kind ord = TOKEN_ORDER_KIND_UNESCROW \<and> baseCovers then
           zbind (zattempt (rateLimit Z quoteDenom (o_QuoteAmount ord))) (\<lambda>r.
           case r of
             Inl err \<Rightarrow> failed
           | Inr _ \<Rightarrow>
               protocolFillUnescrowV2 Z rlm destination path (o_BaseToken ord) quoteDenom (string_of_bytes (o_Receiver ord))
                 relayer (o_BaseAmount ord) (o_QuoteAmount ord))
         else
           zbind (tokenOrderDestinationChannel destination) (\<lambda>destChan.
           if o_Kind ord = TOKEN_ORDER_KIND_ESCROW then
             zbind (GetMetadataImageOf Z quoteDenom) (\<lambda>stored.
             zbind (zmust errEncode
                (case stored of
                   Some img \<Rightarrow>
                     if \<not> isZeroImage img then PredictWrappedTokenV2 (z_keccak Z) path destChan (o_BaseToken ord) img
                     else PredictWrappedToken (z_keccak Z) path destChan (o_BaseToken ord)
                 | None \<Rightarrow> PredictWrappedToken (z_keccak Z) path destChan (o_BaseToken ord))) (\<lambda>wrapped.
             zbind (zgets (HasVoucher Z wrapped)) (\<lambda>has.
             if quoteDenom = wrapped \<and> \<not> has then failed
             else fillPredicted Z rlm destination relayer relayerMsg path ord (Some wrapped) None)))
           else if o_Kind ord = TOKEN_ORDER_KIND_INITIALIZE then
             if length (o_Metadata ord) = 0 then failed
             else
               zbind (zcodec (DecodeTokenMetadata (o_Metadata ord))) (\<lambda>meta.
               zbind (zmust errCodec (MetadataImage (z_keccak Z) meta)) (\<lambda>img.
               zbind (zmust errEncode (PredictWrappedTokenV2 (z_keccak Z) path destChan (o_BaseToken ord) img)) (\<lambda>wrapped.
               if quoteDenom \<noteq> wrapped then failed
               else fillPredicted Z rlm destination relayer relayerMsg path ord (Some wrapped) (Some meta))))
           else fillPredicted Z rlm destination relayer relayerMsg path ord None None)))"

section \<open>Acknowledgements and timeouts\<close>

definition refundIBCVoucher ::
    "('t, 'r, 'm, 'x) zenv \<Rightarrow> zrealm \<Rightarrow> bytes \<Rightarrow> address \<Rightarrow> uint256 \<Rightarrow> (('m, 'x) zstate, unit) zc" where
  "refundIBCVoucher Z rlm baseToken recipient amount =
     (let baseDenom = string_of_bytes baseToken in
      zseq (GetMetadataImageOf Z baseDenom) (mintVoucher Z rlm baseDenom [] [] 0 recipient amount))"

definition settleEscrowedV2 ::
    "('t, 'r, 'm, 'x) zenv \<Rightarrow> zrealm \<Rightarrow> ChannelId \<Rightarrow> uint256 \<Rightarrow> TokenOrderV2 \<Rightarrow> address \<Rightarrow> (('m, 'x) zstate, unit) zc" where
  "settleEscrowedV2 Z rlm sourceChannelId path ord recipient =
     (let baseDenom = string_of_bytes (o_BaseToken ord) in
      zbind (ledgerAmountOf Z baseDenom (o_BaseAmount ord)) (\<lambda>baseTokenLedgerAmount.
      zseq (decreaseChannelBalanceV2 Z rlm sourceChannelId path (o_BaseToken ord) (o_QuoteToken ord) baseTokenLedgerAmount)
      (ztry (localTokenUnescrow Z rlm baseDenom recipient (o_BaseAmount ord))
        (\<lambda>err. zseq (zignore (increaseChannelBalanceV2 Z rlm sourceChannelId path (o_BaseToken ord) (o_QuoteToken ord)
                  baseTokenLedgerAmount)) (zfail err)))))"

definition burnEscrowedV2 ::
    "('t, 'r, 'm, 'x) zenv \<Rightarrow> zrealm \<Rightarrow> ChannelId \<Rightarrow> uint256 \<Rightarrow> TokenOrderV2 \<Rightarrow> (('m, 'x) zstate, unit) zc" where
  "burnEscrowedV2 Z rlm sourceChannelId path ord =
     (let baseDenom = string_of_bytes (o_BaseToken ord) in
      zbind (zgets (\<lambda>s. getTokenType Z baseDenom (ext s))) (\<lambda>ty.
      zbind (ledgerAmountOf Z baseDenom (o_BaseAmount ord)) (\<lambda>baseTokenLedgerAmount.
      zseq (decreaseChannelBalanceV2 Z rlm sourceChannelId path (o_BaseToken ord) (o_QuoteToken ord) baseTokenLedgerAmount)
      (case ty of
         IBC_TOKEN \<Rightarrow>
           ztry (burnVoucher Z baseDenom (Address rlm) (o_BaseAmount ord))
             (\<lambda>err. zseq (zignore (increaseChannelBalanceV2 Z rlm sourceChannelId path (o_BaseToken ord) (o_QuoteToken ord)
                       baseTokenLedgerAmount)) (zfail err))
       | NATIVE_COIN \<Rightarrow> AddLockedTokenAmount Z rlm baseDenom (o_BaseAmount ord)
       | GRC20_TOKEN \<Rightarrow> AddLockedTokenAmount Z rlm baseDenom (o_BaseAmount ord)))))"

definition refundV2 ::
    "('t, 'r, 'm, 'x) zenv \<Rightarrow> zrealm \<Rightarrow> uint256 \<Rightarrow> ChannelId \<Rightarrow> TokenOrderV2 \<Rightarrow> (('m, 'x) zstate, unit) zc" where
  "refundV2 Z rlm path sourceChannelId ord =
     (if o_Kind ord = TOKEN_ORDER_KIND_UNESCROW
      then refundIBCVoucher Z rlm (o_BaseToken ord) (string_of_bytes (o_Sender ord)) (o_BaseAmount ord)
      else if o_Kind ord = TOKEN_ORDER_KIND_INITIALIZE \<or> o_Kind ord = TOKEN_ORDER_KIND_ESCROW
      then settleEscrowedV2 Z rlm sourceChannelId path ord (string_of_bytes (o_Sender ord))
      else zfail errUnsupportedTokenOrderKindForRefund)"

definition acknowledgeTokenOrderV2 ::
    "('t, 'r, 'm, 'x) zenv \<Rightarrow> zrealm \<Rightarrow> Packet \<Rightarrow> uint256 \<Rightarrow> TokenOrderV2 \<Rightarrow> TokenOrderAck option \<Rightarrow> (('m, 'x) zstate, unit) zc" where
  "acknowledgeTokenOrderV2 Z rlm packet path ord orderAck =
     (let sourceChannelId = SourceChannelId packet in
      case orderAck of
        None \<Rightarrow> refundV2 Z rlm path sourceChannelId ord
      | Some oack \<Rightarrow>
          if Uint_Eq (oa_FillType oack) fillTypeProtocol then zret ()
          else if \<not> Uint_Eq (oa_FillType oack) fillTypeMarketMaker then zfail errUnknownFillType
          else
            (let marketMaker = string_of_bytes (oa_MarketMaker oack) in
             if o_Kind ord = TOKEN_ORDER_KIND_UNESCROW
             then refundIBCVoucher Z rlm (o_BaseToken ord) marketMaker (o_BaseAmount ord)
             else if o_Kind ord = TOKEN_ORDER_KIND_INITIALIZE \<or> o_Kind ord = TOKEN_ORDER_KIND_ESCROW
             then if marketMaker = BURN_ADDRESS then burnEscrowedV2 Z rlm sourceChannelId path ord
                  else settleEscrowedV2 Z rlm sourceChannelId path ord marketMaker
             else zfail errUnsupportedTokenOrderKindForAck))"

end
