(* ===== verification/ZkgmApp.thy ===== *)
theory ZkgmApp
  imports ZkgmOrder CoreQuery AccessManager
begin

text \<open>
  The ZKGM application: how instructions are routed on send, receipt, acknowledgement and timeout
  (\<^verbatim>\<open>v1/dispatch.gno\<close>, \<^verbatim>\<open>batch.gno\<close>, \<^verbatim>\<open>call.gno\<close>, \<^verbatim>\<open>forward.gno\<close>, \<^verbatim>\<open>impl.gno\<close>) and the surface the host and
  the users see (\<^verbatim>\<open>app.gno\<close>, \<^verbatim>\<open>transfer.gno\<close>, \<^verbatim>\<open>voucher.gno\<close>, \<^verbatim>\<open>register.gno\<close>). What calls into the host is a
  program of \<^verbatim>\<open>CoreStore\<close>, so the host model runs the application as one of its apps.
\<close>

section \<open>Programs\<close>

type_synonym ('h, 'z, 'a) zp = "'z \<Rightarrow> ('h, 'z, 'a zres) prog"

primrec pbind :: "('h, 'z, 'a zres) prog \<Rightarrow> ('a \<Rightarrow> ('h, 'z, 'b) zp) \<Rightarrow> ('h, 'z, 'b zres) prog" where
  "pbind (Done r z) k =
     (case r of Val x \<Rightarrow> k x z | Err e \<Rightarrow> Done (Err e) z | Pan e \<Rightarrow> Done (Pan e) z | Fatal e \<Rightarrow> Done (Fatal e) z)"
| "pbind AppPanics k = AppPanics"
| "pbind (Reads f) k = Reads (\<lambda>s. pbind (f s) k)"
| "pbind (CallSendPacket addr path c ts d f) k = CallSendPacket addr path c ts d (\<lambda>p. pbind (f p) k)"
| "pbind (CallWriteAcknowledgement addr path p a f) k = CallWriteAcknowledgement addr path p a (pbind f k)"

definition xbind :: "('h, 'z, 'a) zp \<Rightarrow> ('a \<Rightarrow> ('h, 'z, 'b) zp) \<Rightarrow> ('h, 'z, 'b) zp" where
  "xbind m k z = pbind (m z) k"

definition xlocal :: "('z, 'a) zc \<Rightarrow> ('h, 'z, 'a) zp" where
  "xlocal m z = (case m z of (r, z') \<Rightarrow> Done r z')"

definition xret :: "'a \<Rightarrow> ('h, 'z, 'a) zp" where "xret x = xlocal (zret x)"
definition xfail :: "zkgm_error \<Rightarrow> ('h, 'z, 'a) zp" where "xfail e = xlocal (zfail e)"

definition xseq :: "('h, 'z, 'a) zp \<Rightarrow> ('h, 'z, 'b) zp \<Rightarrow> ('h, 'z, 'b) zp" where
  "xseq m k = xbind m (\<lambda>_. k)"

definition xwith :: "'a zres \<Rightarrow> ('a \<Rightarrow> ('h, 'z, 'b) zp) \<Rightarrow> ('h, 'z, 'b) zp" where
  "xwith r k =
     (case r of
        Val x \<Rightarrow> k x | Err e \<Rightarrow> xfail e | Pan e \<Rightarrow> xlocal (zpanic e) | Fatal e \<Rightarrow> xlocal (zfatal e))"

lemma xwith_cong [fundef_cong]:
  "r = r' \<Longrightarrow> (\<And>x. r' = Val x \<Longrightarrow> k x = k' x) \<Longrightarrow> xwith r k = xwith r' k'"
  by (cases r') (simp_all add: xwith_def)

text \<open>The three ways an error or a panic is turned into something else.\<close>

primrec pmap :: "('a zres \<Rightarrow> ('h, 'z, 'b) zp) \<Rightarrow> ('h, 'z, 'a zres) prog \<Rightarrow> ('h, 'z, 'b zres) prog" where
  "pmap f (Done r z) = f r z"
| "pmap f AppPanics = AppPanics"
| "pmap f (Reads k) = Reads (\<lambda>s. pmap f (k s))"
| "pmap f (CallSendPacket addr path c ts d k) = CallSendPacket addr path c ts d (\<lambda>p. pmap f (k p))"
| "pmap f (CallWriteAcknowledgement addr path p a k) = CallWriteAcknowledgement addr path p a (pmap f k)"

definition xorFatal :: "('h, 'z, 'a) zp \<Rightarrow> ('h, 'z, 'a) zp" where
  "xorFatal m z = pmap (\<lambda>r. xlocal (\<lambda>z. (case r of Err e \<Rightarrow> Fatal e | r \<Rightarrow> r, z))) (m z)"

definition xorPanic :: "('h, 'z, 'a) zp \<Rightarrow> ('h, 'z, 'a) zp" where
  "xorPanic m z = pmap (\<lambda>r. xlocal (\<lambda>z. (case r of Err e \<Rightarrow> Pan e | r \<Rightarrow> r, z))) (m z)"

text \<open>\<^verbatim>\<open>defer func() { if r := recover() ... }\<close>: an ordinary panic becomes what the handler gives.\<close>

definition xrecover :: "('h, 'z, 'a) zp \<Rightarrow> ('h, 'z, 'a) zp \<Rightarrow> ('h, 'z, 'a) zp" where
  "xrecover m h z =
     pmap (\<lambda>r. case r of
        Pan e \<Rightarrow> h | Val x \<Rightarrow> xlocal (\<lambda>z. (Val x, z)) | Err e \<Rightarrow> xlocal (\<lambda>z. (Err e, z)) | Fatal e \<Rightarrow> xlocal (\<lambda>z. (Fatal e, z))) (m z)"

text \<open>What a public function of the realm does: whatever is not a value aborts the transaction.\<close>

primrec settle :: "('h, 'z, 'a zres) prog \<Rightarrow> ('h, 'z, 'a) prog" where
  "settle (Done r z) = (case r of Val x \<Rightarrow> Done x z | _ \<Rightarrow> AppPanics)"
| "settle AppPanics = AppPanics"
| "settle (Reads k) = Reads (\<lambda>s. settle (k s))"
| "settle (CallSendPacket addr path c ts d k) = CallSendPacket addr path c ts d (\<lambda>p. settle (k p))"
| "settle (CallWriteAcknowledgement addr path p a k) = CallWriteAcknowledgement addr path p a (settle k)"

text \<open>Reading the host: \<open>xhost\<close> for a getter without an error, \<open>xcore\<close> for one with an error.\<close>

definition xhost :: "('h, 'a) comp \<Rightarrow> ('h, 'z, 'a) zp" where
  "xhost m z = Reads (\<lambda>s. case m s of Inl e \<Rightarrow> Done (Pan (errCore e)) z | Inr (r, _) \<Rightarrow> Done (Val r) z)"

definition xcore :: "('h, core_error + 'a) comp \<Rightarrow> ('h, 'z, 'a) zp" where
  "xcore m = xbind (xhost m) (\<lambda>r. case r of Inl e \<Rightarrow> xfail (errCore e) | Inr x \<Rightarrow> xret x)"

definition xSendPacket :: "zrealm \<Rightarrow> ChannelId \<Rightarrow> Timestamp \<Rightarrow> bytes \<Rightarrow> ('h, 'z, Packet) zp" where
  "xSendPacket rlm c ts data z = CallSendPacket (Address rlm) (PkgPath rlm) c ts data (\<lambda>p. Done (Val p) z)"

definition xWriteAcknowledgement :: "zrealm \<Rightarrow> Packet \<Rightarrow> bytes \<Rightarrow> ('h, 'z, unit) zp" where
  "xWriteAcknowledgement rlm p ack z = CallWriteAcknowledgement (Address rlm) (PkgPath rlm) p ack (Done (Val ()) z)"

text \<open>A loop over a list with an accumulator, which its body can leave with a result.\<close>

fun xloop :: "('a \<Rightarrow> 'b \<Rightarrow> ('h, 'z, 'c + 'b) zp) \<Rightarrow> 'a list \<Rightarrow> 'b \<Rightarrow> ('h, 'z, 'c + 'b) zp" where
  "xloop f [] b = xret (Inr b)"
| "xloop f (x # xs) b = xbind (f x b) (\<lambda>r. case r of Inl c \<Rightarrow> xret (Inl c) | Inr b' \<Rightarrow> xloop f xs b')"

lemma xloop_cong [fundef_cong]:
  assumes "xs = ys" "b = c" and "\<And>x b. x \<in> set ys \<Longrightarrow> f x b = g x b"
  shows "xloop f xs b = xloop g ys c"
proof -
  have "(\<And>x b. x \<in> set ys \<Longrightarrow> f x b = g x b) \<Longrightarrow> xloop f ys b = xloop g ys b" for b
  proof (induction ys arbitrary: b)
    case (Cons y ys)
    then have "xloop f ys = xloop g ys" by (intro ext) simp
    then show ?case using Cons.prems by simp
  qed simp
  then show ?thesis using assms by simp
qed

section \<open>Decoding instructions (dispatch.gno)\<close>

definition decodeOrderInstruction :: "Instruction \<Rightarrow> TokenOrderV2 zres" where
  "decodeOrderInstruction i =
     (if ins_Version i \<noteq> INSTR_VERSION_2 then Err errUnsupportedTokenOrderVersion
      else codecRes (DecodeTokenOrderV2 (ins_Operand i)))"

definition decodeCallInstruction :: "Instruction \<Rightarrow> Call zres" where
  "decodeCallInstruction i =
     (if ins_Version i \<noteq> INSTR_VERSION_0 then Err errUnsupportedCallVersion else codecRes (DecodeCall (ins_Operand i)))"

definition decodeBatchInstruction :: "Instruction \<Rightarrow> Batch zres" where
  "decodeBatchInstruction i =
     (if ins_Version i \<noteq> INSTR_VERSION_0 then Err errUnsupportedBatchVersion else codecRes (DecodeBatch (ins_Operand i)))"

definition decodeForwardInstruction :: "Instruction \<Rightarrow> Forward zres" where
  "decodeForwardInstruction i =
     (if ins_Version i \<noteq> INSTR_VERSION_0 then Err errUnsupportedForwardVersion else codecRes (DecodeForward (ins_Operand i)))"

definition isAllowedBatchInstruction :: "byte \<Rightarrow> bool" where
  "isAllowedBatchInstruction opcode \<longleftrightarrow> opcode = OP_CALL \<or> opcode = OP_TOKEN_ORDER"

definition isAllowedForwardInstruction :: "byte \<Rightarrow> bool" where
  "isAllowedForwardInstruction opcode \<longleftrightarrow> opcode = OP_CALL \<or> opcode = OP_TOKEN_ORDER \<or> opcode = OP_BATCH"

lemma decodeBatch_shorter:
  "decodeBatchInstruction i = Val b \<Longrightarrow> j \<in> set (bat_Instructions b) \<Longrightarrow> length (ins_Operand j) < length (ins_Operand i)"
  by (auto simp: decodeBatchInstruction_def codecRes_def dest: DecodeBatch_shorter split: if_splits sum.splits codec_error.splits)

lemma decodeForward_shorter:
  "decodeForwardInstruction i = Val f \<Longrightarrow> length (ins_Operand (fwd_Instruction f)) < length (ins_Operand i)"
  by (auto simp: decodeForwardInstruction_def codecRes_def dest: DecodeForward_shorter
      split: if_splits sum.splits codec_error.splits)

text \<open>The children of a batch with their indices.\<close>

definition indexed :: "'a list \<Rightarrow> (nat \<times> 'a) list" where "indexed xs = zip [0..<length xs] xs"

lemma indexed_in: "(n, x) \<in> set (indexed xs) \<Longrightarrow> x \<in> set xs" by (auto simp: indexed_def dest: set_zip_rightD)

section \<open>Sending (dispatch.gno, batch.gno, call.gno, forward.gno, impl.gno)\<close>

definition verifyCall :: "zrealm \<Rightarrow> Call \<Rightarrow> ('s, unit) zc" where
  "verifyCall rlm c =
     (if call_Eureka c then zfail errEurekaUnsupported
      else if string_of_bytes (call_Sender c) \<noteq> PrevAddress rlm then zfail errInvalidCallSender
      else zret ())"

text \<open>\<open>verifyInternal\<close> with \<open>verifyBatch\<close> and \<open>verifyForward\<close> in place.\<close>

function verifyInternal ::
    "('t, 'r, 'm, 'x) zenv \<Rightarrow> zrealm \<Rightarrow> funds \<Rightarrow> ChannelId \<Rightarrow> uint256 \<Rightarrow> Instruction \<Rightarrow> (('m, 'x) zstate, funds) zc" where
  "verifyInternal Z rlm f channelId path i =
     (if ins_Opcode i = OP_TOKEN_ORDER then
        zwith (decodeOrderInstruction i) (\<lambda>ord. verifyTokenOrderV2 Z rlm f channelId path ord)
      else if ins_Opcode i = OP_BATCH then
        zwith (decodeBatchInstruction i) (\<lambda>batch.
          zeach (\<lambda>j f.
             if \<not> isAllowedBatchInstruction (ins_Opcode j) then zfail errInvalidBatchInstruction
             else verifyInternal Z rlm f channelId path j) (bat_Instructions batch) f)
      else if ins_Opcode i = OP_FORWARD then
        zwith (decodeForwardInstruction i) (\<lambda>forward.
          if \<not> isAllowedForwardInstruction (ins_Opcode (fwd_Instruction forward)) then zfail errInvalidForwardInstruction
          else if fwd_TimeoutTimestamp forward = 0 then zfail errForwardZeroTimeout
          else verifyInternal Z rlm f channelId (fwd_Path forward) (fwd_Instruction forward))
      else if ins_Opcode i = OP_CALL then
        zwith (decodeCallInstruction i) (\<lambda>c. zseq (verifyCall rlm c) (zret f))
      else zfail errUnsupportedOpcode)"
  by pat_completeness auto
termination
  by (relation "measure (\<lambda>(Z, rlm, f, c, p, i). length (ins_Operand i))")
    (auto dest: decodeBatch_shorter decodeForward_shorter)

declare verifyInternal.simps [simp del]

definition v1_Send ::
    "('t, 'r, 'm, 'x) zenv \<Rightarrow> zrealm \<Rightarrow> (string \<times> int) list \<Rightarrow> ChannelId \<Rightarrow> Timestamp \<Rightarrow> bytes \<Rightarrow> Instruction \<Rightarrow>
     ('h, ('m, 'x) zstate, Packet) zp" where
  "v1_Send Z rlm originSend channelId timeoutTimestamp salt i =
     xseq (xlocal (zassertIsRlmCurrent rlm))
     (let funds0 = newFunds (if PrevIsUserCall rlm then originSend else []) in
      xbind (xorPanic (xlocal (verifyInternal Z rlm funds0 channelId Uint_Zero i))) (\<lambda>f.
      xseq (xorPanic (xlocal (assertEmpty f)))
      (let hashedSalt = DeriveSenderSalt (z_keccak Z) (bytes_of_string (PrevAddress rlm)) salt in
       xbind (xorPanic (xlocal (zcodec (EncodeZkgmPacket \<lparr>zp_Salt = hashedSalt, zp_Path = Uint_Zero, zp_Instruction = i\<rparr>)))) (\<lambda>data.
       xSendPacket rlm channelId timeoutTimestamp data))))"

section \<open>The public functions of the realm (transfer.gno, voucher.gno)\<close>

text \<open>The realm token of a call that crosses into the proxy from \<open>(addr, path)\<close>.\<close>

definition zcrossing :: "('t, 'r, 'm, 'x) zenv \<Rightarrow> address \<Rightarrow> string \<Rightarrow> bool \<Rightarrow> zrealm" where
  "zcrossing Z addr path userCall =
     \<lparr>IsCurrent = True, PkgPath = z_proxyPkgPath Z, PrevAddress = addr, PrevPkgPath = path,
      Address = z_proxyAddress Z, PrevIsUserCall = userCall\<rparr>"

definition assertIsNotPaused :: "(('m, 'x) zstate, unit) zc" where
  "assertIsNotPaused = zbind (zgets paused) (\<lambda>p. if p then zpanic errPaused else zret ())"

definition zkgm_Send ::
    "('t, 'r, 'm, 'x) zenv \<Rightarrow> zrealm \<Rightarrow> (string \<times> int) list \<Rightarrow> ChannelId \<Rightarrow> Timestamp \<Rightarrow> bytes \<Rightarrow> Instruction \<Rightarrow>
     ('h, ('m, 'x) zstate, Packet) zp" where
  "zkgm_Send Z cur originSend channelId timeoutTimestamp salt i =
     xseq (xlocal assertIsNotPaused) (v1_Send Z cur originSend channelId timeoutTimestamp salt i)"

definition parseHex :: "string \<Rightarrow> hex_error + bytes" where
  "parseHex s =
     DecodeString
       (if length s \<ge> 2 \<and> s ! 0 = CHR ''0'' \<and> (s ! 1 = CHR ''x'' \<or> s ! 1 = CHR ''X'') then drop 2 s else s)"

definition SendRaw ::
    "('t, 'r, 'm, 'x) zenv \<Rightarrow> zrealm \<Rightarrow> (string \<times> int) list \<Rightarrow> u32 \<Rightarrow> u64 \<Rightarrow> string \<Rightarrow> byte \<Rightarrow> byte \<Rightarrow> string \<Rightarrow>
     ('h, ('m, 'x) zstate, Packet) zp" where
  "SendRaw Z cur originSend channelId timeoutTimestamp saltHex version opcode operandHex =
     xseq (xlocal assertIsNotPaused)
     (xbind (xlocal (zmust errHexString (parseHex saltHex))) (\<lambda>saltBytes.
      if length saltBytes \<noteq> 32 then xlocal (zpanic errInvalidSaltLength)
      else
        xbind (xlocal (zmust errHexString (parseHex operandHex))) (\<lambda>operandBytes.
        v1_Send Z cur originSend channelId timeoutTimestamp saltBytes
          \<lparr>ins_Version = version, ins_Opcode = opcode, ins_Operand = operandBytes\<rparr>)))"

definition zkgm_VoucherApprove :: "('t, 'r, 'm, 'x) zenv \<Rightarrow> zrealm \<Rightarrow> string \<Rightarrow> address \<Rightarrow> int \<Rightarrow> ('h, ('m, 'x) zstate, unit) zp" where
  "zkgm_VoucherApprove Z cur ibcDenom spender amount =
     xseq (xlocal assertIsNotPaused) (xorPanic (xlocal (v1_VoucherApprove Z cur ibcDenom spender amount)))"

definition zkgm_VoucherTransfer :: "('t, 'r, 'm, 'x) zenv \<Rightarrow> zrealm \<Rightarrow> string \<Rightarrow> address \<Rightarrow> int \<Rightarrow> ('h, ('m, 'x) zstate, unit) zp" where
  "zkgm_VoucherTransfer Z cur ibcDenom to amount =
     xseq (xlocal assertIsNotPaused) (xorPanic (xlocal (v1_VoucherTransfer Z cur ibcDenom to amount)))"

definition VoucherBalanceOf :: "('t, 'r, 'm, 'x) zenv \<Rightarrow> string \<Rightarrow> address \<Rightarrow> (('m, 'x) zstate, int) zc" where
  "VoucherBalanceOf Z ibcDenom addr =
     zbind (GetVoucher Z ibcDenom) (\<lambda>found.
     case found of None \<Rightarrow> zret 0 | Some vou \<Rightarrow> zgets (\<lambda>s. tok_BalanceOf Z (ext s) (v_token vou) addr))"

definition RegisterReceiver :: "('t, 'r, 'm, 'x) zenv \<Rightarrow> zrealm \<Rightarrow> 'r option \<Rightarrow> (('m, 'x) zstate, unit) zc" where
  "RegisterReceiver Z cur receiver = SetReceiver Z cur (PrevPkgPath cur) receiver"

section \<open>Calls (call.gno)\<close>

text \<open>
  A call crosses into the receiver's realm, so on chain its panic, or that of a function it calls, aborts the
  transaction; \<^verbatim>\<open>revive\<close> exists in test builds only.
\<close>

primrec run_receiver ::
    "('t, 'r, 'm, 'x) zenv \<Rightarrow> 'x receiver_prog \<Rightarrow> ('h, ('m, 'x) zstate, string option) zp" where
  "run_receiver Z (RReturn err x) = xseq (xlocal (zmodify (\<lambda>s. s\<lparr>ext := x\<rparr>))) (xret err)"
| "run_receiver Z RPanics = (\<lambda>z. AppPanics)"
| "run_receiver Z (RSend addr path c ts salt i x k) =
     xseq (xlocal (zmodify (\<lambda>s. s\<lparr>ext := x\<rparr>)))
     (xbind (\<lambda>z. pmap (\<lambda>r. case r of Val p \<Rightarrow> xret p | _ \<Rightarrow> (\<lambda>z. AppPanics))
               (zkgm_Send Z (zcrossing Z addr path False) [] c ts salt i z)) (\<lambda>p.
      xbind (xlocal (zgets ext)) (\<lambda>x'. run_receiver Z (k p x'))))"
| "run_receiver Z (RVoucherTransfer addr path d to n x k) =
     xseq (xlocal (zmodify (\<lambda>s. s\<lparr>ext := x\<rparr>)))
     (xbind (\<lambda>z. pmap (\<lambda>r. case r of Val u \<Rightarrow> xret u | _ \<Rightarrow> (\<lambda>z. AppPanics))
               (zkgm_VoucherTransfer Z (zcrossing Z addr path False) d to n z)) (\<lambda>_.
      xbind (xlocal (zgets ext)) (\<lambda>x'. run_receiver Z (k x'))))"
| "run_receiver Z (RVoucherApprove addr path d spender n x k) =
     xseq (xlocal (zmodify (\<lambda>s. s\<lparr>ext := x\<rparr>)))
     (xbind (\<lambda>z. pmap (\<lambda>r. case r of Val u \<Rightarrow> xret u | _ \<Rightarrow> (\<lambda>z. AppPanics))
               (zkgm_VoucherApprove Z (zcrossing Z addr path False) d spender n z)) (\<lambda>_.
      xbind (xlocal (zgets ext)) (\<lambda>x'. run_receiver Z (k x'))))"

definition callErrAck :: "string \<Rightarrow> ('h, 'z, RecvPacketResult) zp" where
  "callErrAck err =
     xlocal (zbind (zmust errCodec (EncodeAck \<lparr>ack_Tag = tagAckFailure, ack_InnerAck = bytes_of_string err\<rparr>))
       (\<lambda>ack. zret (failureResult ack)))"

definition callSuccessAck :: "('h, 'z, RecvPacketResult) zp" where
  "callSuccessAck =
     xlocal (zbind (zcodec (EncodeAck \<lparr>ack_Tag = tagAckSuccess, ack_InnerAck = []\<rparr>))
       (\<lambda>ack. zret (recvResult PacketStatusSuccess ack)))"

definition callEnv :: "('t, 'r, 'm, 'x) zenv \<Rightarrow> Packet \<Rightarrow> address \<Rightarrow> bytes \<Rightarrow> uint256 \<Rightarrow> Call \<Rightarrow> CallEnv" where
  "callEnv Z packet relayer relayerMsg path c =
     \<lparr>ce_Caller = relayer,
      ce_ProxyAccount = PredictCallProxyAccount (z_keccak Z) path (DestinationChannelId packet) (call_Sender c),
      ce_Path = path, ce_SourceChannel = id_String (SourceChannelId packet),
      ce_DestinationChannel = id_String (DestinationChannelId packet), ce_Sender = call_Sender c,
      ce_Calldata = call_ContractCalldata c, ce_Relayer = bytes_of_string relayer, ce_RelayerMsg = relayerMsg\<rparr>"

definition executeCall ::
    "('t, 'r, 'm, 'x) zenv \<Rightarrow> Packet \<Rightarrow> address \<Rightarrow> bytes \<Rightarrow> uint256 \<Rightarrow> Call \<Rightarrow> bool \<Rightarrow>
     ('h, ('m, 'x) zstate, RecvPacketResult) zp" where
  "executeCall Z packet relayer relayerMsg path c intent =
     (if call_Eureka c then callErrAck ''eureka mode not supported''
      else
        (let receiverPath = string_of_bytes (call_ContractAddress c) in
         xbind (xlocal (GetReceiver Z receiverPath)) (\<lambda>found.
         case found of
           Some (Some receiver) \<Rightarrow>
             (let env = callEnv Z packet relayer relayerMsg path c in
              xbind (xlocal (zgets ext)) (\<lambda>x.
              if intent then
                xbind (run_receiver Z (OnIntentZkgm Z receiver env x)) (\<lambda>err.
                if err \<noteq> None then xret onlyMaker else callSuccessAck)
              else
                xbind (run_receiver Z (OnZkgm Z receiver env x)) (\<lambda>err.
                case err of Some msg \<Rightarrow> callErrAck msg | None \<Rightarrow> callSuccessAck)))
         | _ \<Rightarrow> callErrAck (''receiver not registered, '' @ receiverPath))))"

definition acknowledgeCall :: "Call \<Rightarrow> ('s, unit) zc" where
  "acknowledgeCall c = (if call_Eureka c then zfail errEurekaUnsupported else zret ())"

definition timeoutCall :: "Call \<Rightarrow> ('s, unit) zc" where
  "timeoutCall c = (if call_Eureka c then zfail errEurekaUnsupported else zret ())"

section \<open>Forwards (forward.gno)\<close>

text \<open>\<open>buildForwardChild\<close> up to the read of the next channel.\<close>

definition forwardChildData ::
    "hash \<Rightarrow> Packet \<Rightarrow> uint256 \<Rightarrow> bytes \<Rightarrow> Forward \<Rightarrow> ('s, ChannelId \<times> bytes) zc" where
  "forwardChildData kc packet path parentSalt forward =
     (if fwd_TimeoutTimestamp forward = 0 then zfail errForwardZeroTimeout
      else
        (let (tailPath, prevDestChannel) = DequeueChannelFromPath (fwd_Path forward) in
         if prevDestChannel = 0 then zfail errForwardMissingPrevDest
         else
           (let (continuationPath, nextSourceChannel) = DequeueChannelFromPath tailPath in
            if nextSourceChannel = 0 then zfail errForwardMissingNextSource
            else if DestinationChannelId packet \<noteq> prevDestChannel then zfail errForwardPrevDestMismatch
            else
              zbind (if \<not> Uint_IsZero continuationPath then
                       zbind (zcodec (EncodeForward \<lparr>fwd_Path = continuationPath, fwd_TimeoutHeight = 0,
                           fwd_TimeoutTimestamp = fwd_TimeoutTimestamp forward,
                           fwd_Instruction = fwd_Instruction forward\<rparr>)) (\<lambda>forwardBytes.
                       zret \<lparr>ins_Version = INSTR_VERSION_0, ins_Opcode = OP_FORWARD, ins_Operand = forwardBytes\<rparr>)
                     else zret (fwd_Instruction forward)) (\<lambda>nextInstruction.
              zbind (zpath (UpdateChannelPath path prevDestChannel)) (\<lambda>intermediate.
              zbind (zpath (UpdateChannelPath intermediate nextSourceChannel)) (\<lambda>nextPath.
              zbind (zcodec (EncodeZkgmPacket \<lparr>zp_Salt = DeriveForwardSalt kc parentSalt, zp_Path = nextPath,
                  zp_Instruction = nextInstruction\<rparr>)) (\<lambda>childBytes.
              zret (nextSourceChannel, childBytes))))))))"

definition buildForwardChild ::
    "('c, 'lc, 'app, 'z) env \<Rightarrow> hash \<Rightarrow> Packet \<Rightarrow> uint256 \<Rightarrow> bytes \<Rightarrow> Forward \<Rightarrow> (('c, 'lc, 'app, 'z) core, 'z, Packet) zp" where
  "buildForwardChild E kc packet path parentSalt forward =
     xbind (xlocal (forwardChildData kc packet path parentSalt forward)) (\<lambda>(sourceChannelId, childBytes).
     xbind (xcore (GetChannel E sourceChannelId)) (\<lambda>sourceChannel.
     xret \<lparr>SourceChannelId = sourceChannelId, DestinationChannelId = chan_CounterpartyChannelId sourceChannel,
           Data = childBytes, TimeoutHeight = 0, TimeoutTimestamp = fwd_TimeoutTimestamp forward\<rparr>))"

definition verifyForwardChannel ::
    "('c, 'lc, 'app, 'z) env \<Rightarrow> string \<Rightarrow> Packet \<Rightarrow> (('c, 'lc, 'app, 'z) core, 'z, unit) zp" where
  "verifyForwardChannel E ownPortId childPacket =
     (let sourceChannelId = SourceChannelId childPacket in
      xbind (xhost (gets (\<lambda>s. IsValidPacketDataSize (eventConfig s) (Data childPacket)))) (\<lambda>fits.
      if \<not> fits then xfail errForwardChildPacketTooLarge
      else xbind (xcore (GetChannelOwner E sourceChannelId)) (\<lambda>owner.
      if owner \<noteq> ownPortId then xfail errForwardChannelNotOwned
      else xbind (xcore (GetChannel E sourceChannelId)) (\<lambda>channel.
      if chan_State channel \<noteq> ChannelStateOpen then xfail errForwardChannelNotOpen
      else xbind (xcore (GetConnection E (chan_ConnectionId channel))) (\<lambda>connection.
      if conn_State connection \<noteq> ConnectionStateOpen then xfail errForwardConnectionNotOpen
      else xbind (xhost (GetPacketCommitmentExists E childPacket)) (\<lambda>exists.
      if exists then xfail errForwardChildAlreadyCommitted else xret ()))))))"

definition packetKey :: "hash \<Rightarrow> Packet \<Rightarrow> ('s, string) zc" where
  "packetKey kc packet = zbind (zmust errEncode (CommitPacket kc packet)) (\<lambda>h. zret (h256String h))"

definition executeForward ::
    "('t, 'r, 'm, 'x) zenv \<Rightarrow> ('c, 'lc, 'app, ('m, 'x) zstate) env \<Rightarrow> zrealm \<Rightarrow> Packet \<Rightarrow> bytes \<Rightarrow> uint256 \<Rightarrow> Forward \<Rightarrow> bool \<Rightarrow>
     (('c, 'lc, 'app, ('m, 'x) zstate) core, ('m, 'x) zstate, RecvPacketResult) zp" where
  "executeForward Z E rlm packet salt path forward intent =
     (if \<not> isAllowedForwardInstruction (ins_Opcode (fwd_Instruction forward)) then xfail errInvalidForwardInstruction
      else if intent then xret onlyMaker
      else
        xbind (buildForwardChild E (z_keccak Z) packet path salt forward) (\<lambda>child.
        xseq (verifyForwardChannel E (PkgPath rlm) child)
        (xbind (xSendPacket rlm (SourceChannelId child) (TimeoutTimestamp child) (Data child)) (\<lambda>childPacket.
         xbind (xlocal (packetKey (z_keccak Z) childPacket)) (\<lambda>childHash.
         xseq (xlocal (SetInFlightPacket Z rlm childHash packet))
         (xseq (xlocal (zassertIsRlmCurrent rlm))
         (xseq (xlocal (packetKey (z_keccak Z) packet))
          (xret (recvResult PacketStatusAsync [])))))))))"

definition handleForwardChild ::
    "('t, 'r, 'm, 'x) zenv \<Rightarrow> zrealm \<Rightarrow> Packet \<Rightarrow> ZkgmPacket \<Rightarrow> bytes \<Rightarrow> ('h, ('m, 'x) zstate, bool) zp" where
  "handleForwardChild Z rlm packet zp ack =
     (if \<not> IsForwardedPacket (zp_Salt zp) then xret False
      else
        xbind (xlocal (packetKey (z_keccak Z) packet)) (\<lambda>key.
        xbind (xlocal (GetInFlightPacket Z key)) (\<lambda>found.
        case found of
          None \<Rightarrow> xseq (xlocal (zassertIsRlmCurrent rlm)) (xret False)
        | Some parent \<Rightarrow>
            xseq (xlocal (RemoveInFlightPacket Z rlm key))
            (xseq (xlocal (zassertIsRlmCurrent rlm))
            (xseq (xWriteAcknowledgement rlm parent ack) (xret True))))))"

end
