(* ===== verification/ZkgmDispatch.thy ===== *)
theory ZkgmDispatch
  imports ZkgmApp
begin

text \<open>
  Receipt, acknowledgement and timeout of packets (\<^verbatim>\<open>v1/dispatch.gno\<close>, \<^verbatim>\<open>v1/batch.gno\<close>, \<^verbatim>\<open>v1/impl.gno\<close>), and the
  callbacks the host drives (\<^verbatim>\<open>app.gno\<close>), each a program the host model can run.
\<close>

section \<open>Receipt\<close>

text \<open>
  \<open>dispatchExecutePacket\<close> with \<open>executeBatch\<close> in place. An error or a panic of an ordinary kind becomes a failure
  acknowledgement, and the writes made before it stay; a batch turns an error of a child into a fatal panic, since
  earlier children have been executed.
\<close>

function dispatchExecutePacket ::
    "('t, 'r, 'm, 'x) zenv \<Rightarrow> ('c, 'lc, 'app, ('m, 'x) zstate) env \<Rightarrow> zrealm \<Rightarrow> Packet \<Rightarrow> address \<Rightarrow> bytes \<Rightarrow> bytes \<Rightarrow> uint256 \<Rightarrow>
     Instruction \<Rightarrow> bool \<Rightarrow> (('c, 'lc, 'app, ('m, 'x) zstate) core, ('m, 'x) zstate, RecvPacketResult) zp" where
  "dispatchExecutePacket Z E rlm packet relayer relayerMsg salt path i intent =
     xrecover
       (if ins_Opcode i = OP_TOKEN_ORDER then
          xwith (decodeOrderInstruction i) (\<lambda>ord.
            xlocal (executeTokenOrderV2 Z rlm packet relayer relayerMsg path ord intent))
        else if ins_Opcode i = OP_BATCH then
          xwith (decodeBatchInstruction i) (\<lambda>batch.
            xbind (xloop (\<lambda>(n, j) acks.
                if \<not> isAllowedBatchInstruction (ins_Opcode j) then xlocal (zfatal errInvalidBatchInstruction)
                else
                  (let childSalt = DeriveBatchSalt (z_keccak Z) (NewUint (word_of_nat n)) salt in
                   xbind (xorFatal (dispatchExecutePacket Z E rlm packet relayer relayerMsg childSalt path j intent)) (\<lambda>res.
                   if length (res_Acknowledgement res) = 0 then xlocal (zfatal errBatchEmptyAck)
                   else if isOnlyMakerAck (res_Acknowledgement res) then xret (Inl ())
                   else xret (Inr (acks @ [res_Acknowledgement res])))))
              (indexed (bat_Instructions batch)) []) (\<lambda>r.
            case r of
              Inl _ \<Rightarrow> xret onlyMaker
            | Inr acks \<Rightarrow>
                xbind (xlocal (zorFatal (zcodec (EncodeBatchAck \<lparr>ba_Acknowledgements = acks\<rparr>)))) (\<lambda>batchAckBytes.
                xbind (xlocal (zorFatal (zcodec (EncodeAck \<lparr>ack_Tag = tagAckSuccess, ack_InnerAck = batchAckBytes\<rparr>)))) (\<lambda>ack.
                xret (recvResult PacketStatusSuccess ack)))))
        else if ins_Opcode i = OP_CALL then
          xwith (decodeCallInstruction i) (\<lambda>c. executeCall Z packet relayer relayerMsg path c intent)
        else if ins_Opcode i = OP_FORWARD then
          xwith (decodeForwardInstruction i) (\<lambda>forward. executeForward Z E rlm packet salt path forward intent)
        else xfail errUnsupportedOpcode)
       (xlocal failed)"
  by pat_completeness auto
termination
  by (relation "measure (\<lambda>(Z, E, rlm, p, r, m, salt, path, i, intent). length (ins_Operand i))")
    (auto dest: decodeBatch_shorter indexed_in)

declare dispatchExecutePacket.simps [simp del]

text \<open>The body of \<open>OnRecvPacket\<close> and \<open>OnIntentRecvPacket\<close> after the decoding: an error is a failure acknowledgement.\<close>

definition recvDecoded ::
    "('t, 'r, 'm, 'x) zenv \<Rightarrow> ('c, 'lc, 'app, ('m, 'x) zstate) env \<Rightarrow> zrealm \<Rightarrow> Packet \<Rightarrow> address \<Rightarrow> bytes \<Rightarrow> bool \<Rightarrow>
     (('c, 'lc, 'app, ('m, 'x) zstate) core, ('m, 'x) zstate, RecvPacketResult) zp" where
  "recvDecoded Z E rlm packet relayer relayerMsg intent z =
     pmap (\<lambda>r. case r of
         Err e \<Rightarrow> xseq (xlocal (zassertIsRlmCurrent rlm)) (xseq (xlocal (zassertIsProxyRealm Z rlm)) (xlocal failed))
       | Val x \<Rightarrow> xret x | Pan e \<Rightarrow> xlocal (zpanic e) | Fatal e \<Rightarrow> xlocal (zfatal e))
       (xwith (codecRes (DecodeZkgmPacket (Data packet))) (\<lambda>zp.
          dispatchExecutePacket Z E rlm packet relayer relayerMsg (zp_Salt zp) (zp_Path zp) (zp_Instruction zp) intent) z)"

definition v1_OnRecvPacket ::
    "('t, 'r, 'm, 'x) zenv \<Rightarrow> ('c, 'lc, 'app, ('m, 'x) zstate) env \<Rightarrow> zrealm \<Rightarrow> Packet \<Rightarrow> address \<Rightarrow> bytes \<Rightarrow>
     (('c, 'lc, 'app, ('m, 'x) zstate) core, ('m, 'x) zstate, RecvPacketResult) zp" where
  "v1_OnRecvPacket Z E rlm packet relayer relayerMsg =
     xseq (xlocal (zassertIsRlmCurrent rlm))
     (xbind (recvDecoded Z E rlm packet relayer relayerMsg False) (\<lambda>res.
      if isOnlyMakerAck (res_Acknowledgement res) then xlocal (zpanic errIsOnlyMakerAck) else xret res))"

definition v1_OnIntentRecvPacket ::
    "('t, 'r, 'm, 'x) zenv \<Rightarrow> ('c, 'lc, 'app, ('m, 'x) zstate) env \<Rightarrow> zrealm \<Rightarrow> Packet \<Rightarrow> address \<Rightarrow> bytes \<Rightarrow>
     (('c, 'lc, 'app, ('m, 'x) zstate) core, ('m, 'x) zstate, RecvPacketResult) zp" where
  "v1_OnIntentRecvPacket Z E rlm packet marketMaker marketMakerMsg =
     xseq (xlocal (zassertIsRlmCurrent rlm))
     (xbind (recvDecoded Z E rlm packet marketMaker marketMakerMsg True) (\<lambda>res.
      if isOnlyMakerAck (res_Acknowledgement res) then xlocal (zpanic errIsOnlyMakerAck) else xret res))"

section \<open>Acknowledgement and timeout\<close>

text \<open>\<open>acknowledgeInternal\<close> with \<open>acknowledgeBatch\<close> in place; \<open>ack\<close> is what the outer acknowledgement holds.\<close>

function acknowledgeInternal ::
    "('t, 'r, 'm, 'x) zenv \<Rightarrow> zrealm \<Rightarrow> Packet \<Rightarrow> bytes \<Rightarrow> uint256 \<Rightarrow> Instruction \<Rightarrow> bool \<Rightarrow> bytes \<Rightarrow> (('m, 'x) zstate, unit) zc" where
  "acknowledgeInternal Z rlm packet salt path i successful ack =
     (if ins_Opcode i = OP_TOKEN_ORDER then
        zwith (decodeOrderInstruction i) (\<lambda>ord.
          if successful
          then zbind (zcodec (DecodeTokenOrderAck ack)) (\<lambda>orderAck. acknowledgeTokenOrderV2 Z rlm packet path ord (Some orderAck))
          else acknowledgeTokenOrderV2 Z rlm packet path ord None)
      else if ins_Opcode i = OP_BATCH then
        zwith (decodeBatchInstruction i) (\<lambda>batch.
          zbind (if successful then zbind (zcodec (DecodeBatchAck ack)) (\<lambda>batchAck.
                   if length (ba_Acknowledgements batchAck) \<noteq> length (bat_Instructions batch)
                   then zfail errBatchAckCountMismatch else zret (ba_Acknowledgements batchAck))
                 else zret []) (\<lambda>acks.
          zeach (\<lambda>(n, j) _.
             zbind (if successful then zbind (zcodec (DecodeAck (acks ! n))) (\<lambda>childAck.
                      zret (Uint_Eq (ack_Tag childAck) tagAckSuccess, ack_InnerAck childAck))
                    else zret (False, [])) (\<lambda>(childSuccessful, childAck).
             let childSalt = DeriveBatchSalt (z_keccak Z) (NewUint (word_of_nat n)) salt in
             acknowledgeInternal Z rlm packet childSalt path j childSuccessful childAck))
            (indexed (bat_Instructions batch)) ()))
      else if ins_Opcode i = OP_FORWARD then
        zwith (decodeForwardInstruction i) (\<lambda>forward.
          acknowledgeInternal Z rlm packet salt (fwd_Path forward) (fwd_Instruction forward) successful ack)
      else if ins_Opcode i = OP_CALL then
        zwith (decodeCallInstruction i) acknowledgeCall
      else zfail errUnsupportedOpcode)"
  by pat_completeness auto
termination
  by (relation "measure (\<lambda>(Z, rlm, p, salt, path, i, ok, ack). length (ins_Operand i))")
    (auto dest: decodeBatch_shorter decodeForward_shorter indexed_in)

declare acknowledgeInternal.simps [simp del]

text \<open>\<open>timeoutInternal\<close> with \<open>timeoutBatch\<close> in place.\<close>

function timeoutInternal ::
    "('t, 'r, 'm, 'x) zenv \<Rightarrow> zrealm \<Rightarrow> Packet \<Rightarrow> bytes \<Rightarrow> uint256 \<Rightarrow> Instruction \<Rightarrow> (('m, 'x) zstate, unit) zc" where
  "timeoutInternal Z rlm packet salt path i =
     (if ins_Opcode i = OP_TOKEN_ORDER then
        zwith (decodeOrderInstruction i) (\<lambda>ord. refundV2 Z rlm path (SourceChannelId packet) ord)
      else if ins_Opcode i = OP_BATCH then
        zwith (decodeBatchInstruction i) (\<lambda>batch.
          zeach (\<lambda>(n, j) _.
             let childSalt = DeriveBatchSalt (z_keccak Z) (NewUint (word_of_nat n)) salt in
             timeoutInternal Z rlm packet childSalt path j) (indexed (bat_Instructions batch)) ())
      else if ins_Opcode i = OP_FORWARD then
        zwith (decodeForwardInstruction i) (\<lambda>forward.
          timeoutInternal Z rlm packet salt (fwd_Path forward) (fwd_Instruction forward))
      else if ins_Opcode i = OP_CALL then
        zwith (decodeCallInstruction i) timeoutCall
      else zfail errUnsupportedOpcode)"
  by pat_completeness auto
termination
  by (relation "measure (\<lambda>(Z, rlm, p, salt, path, i). length (ins_Operand i))")
    (auto dest: decodeBatch_shorter decodeForward_shorter indexed_in)

declare timeoutInternal.simps [simp del]

definition v1_OnAcknowledgementPacket ::
    "('t, 'r, 'm, 'x) zenv \<Rightarrow> zrealm \<Rightarrow> Packet \<Rightarrow> bytes \<Rightarrow> ('h, ('m, 'x) zstate, unit) zp" where
  "v1_OnAcknowledgementPacket Z rlm packet acknowledgement =
     xseq (xlocal (zassertIsRlmCurrent rlm))
     (xbind (xorPanic (xlocal (zcodec (DecodeZkgmPacket (Data packet))))) (\<lambda>zp.
      xbind (handleForwardChild Z rlm packet zp acknowledgement) (\<lambda>handled.
      if handled then xret ()
      else
        xbind (xorPanic (xlocal (zcodec (DecodeAck acknowledgement)))) (\<lambda>outerAck.
        xorPanic (xlocal (acknowledgeInternal Z rlm packet (zp_Salt zp) (zp_Path zp) (zp_Instruction zp)
          (Uint_Eq (ack_Tag outerAck) tagAckSuccess) (ack_InnerAck outerAck)))))))"

definition v1_OnTimeoutPacket :: "('t, 'r, 'm, 'x) zenv \<Rightarrow> zrealm \<Rightarrow> Packet \<Rightarrow> ('h, ('m, 'x) zstate, unit) zp" where
  "v1_OnTimeoutPacket Z rlm packet =
     xseq (xlocal (zassertIsRlmCurrent rlm))
     (xbind (xorPanic (xlocal (zcodec (DecodeZkgmPacket (Data packet))))) (\<lambda>zp.
      xbind (xlocal universalErrorAck) (\<lambda>failure.
      xbind (handleForwardChild Z rlm packet zp failure) (\<lambda>handled.
      if handled then xret ()
      else xorPanic (xlocal (timeoutInternal Z rlm packet (zp_Salt zp) (zp_Path zp) (zp_Instruction zp)))))))"

section \<open>Channels (impl.gno)\<close>

definition enforceVersion :: "string \<Rightarrow> ('s, unit) zc" where
  "enforceVersion version = (if version \<noteq> PROTOCOL_VERSION then zpanic errUnsupportedVersion else zret ())"

definition v1_OnChannelOpenInit :: "zrealm \<Rightarrow> string \<Rightarrow> ('s, unit) zc" where
  "v1_OnChannelOpenInit rlm version = zseq (zassertIsRlmCurrent rlm) (enforceVersion version)"

definition v1_OnChannelOpenTry :: "zrealm \<Rightarrow> string \<Rightarrow> string \<Rightarrow> ('s, unit) zc" where
  "v1_OnChannelOpenTry rlm version counterpartyVersion =
     zseq (zassertIsRlmCurrent rlm) (zseq (enforceVersion version) (enforceVersion counterpartyVersion))"

definition v1_OnChannelOpenAck :: "zrealm \<Rightarrow> string \<Rightarrow> ('s, unit) zc" where
  "v1_OnChannelOpenAck rlm counterpartyVersion = zseq (zassertIsRlmCurrent rlm) (enforceVersion counterpartyVersion)"

definition v1_OnChannelOpenConfirm :: "zrealm \<Rightarrow> ('s, unit) zc" where
  "v1_OnChannelOpenConfirm rlm = zassertIsRlmCurrent rlm"

section \<open>The surface the host drives (app.gno)\<close>

definition assertIsCoreRealm :: "zrealm \<Rightarrow> ('s, unit) zc" where
  "assertIsCoreRealm cur = (if PrevPkgPath cur \<noteq> CoreRealmPath then zpanic errNotCoreRealm else zret ())"

definition app_gate :: "zrealm \<Rightarrow> ('h, ('m, 'x) zstate, 'a) zp \<Rightarrow> ('h, ('m, 'x) zstate, 'a) zp" where
  "app_gate cur m = xseq (xlocal (assertIsCoreRealm cur)) (xseq (xlocal assertIsNotPaused) m)"

definition App_OnChannelOpenInit :: "zrealm \<Rightarrow> ('m, 'x) zstate \<Rightarrow> string \<Rightarrow> ('h, ('m, 'x) zstate, unit) prog" where
  "App_OnChannelOpenInit cur z version = settle (app_gate cur (xlocal (v1_OnChannelOpenInit cur version)) z)"

definition App_OnChannelOpenTry :: "zrealm \<Rightarrow> ('m, 'x) zstate \<Rightarrow> string \<Rightarrow> string \<Rightarrow> ('h, ('m, 'x) zstate, unit) prog" where
  "App_OnChannelOpenTry cur z version counterpartyVersion =
     settle (app_gate cur (xlocal (v1_OnChannelOpenTry cur version counterpartyVersion)) z)"

definition App_OnChannelOpenAck :: "zrealm \<Rightarrow> ('m, 'x) zstate \<Rightarrow> string \<Rightarrow> ('h, ('m, 'x) zstate, unit) prog" where
  "App_OnChannelOpenAck cur z counterpartyVersion = settle (app_gate cur (xlocal (v1_OnChannelOpenAck cur counterpartyVersion)) z)"

definition App_OnChannelOpenConfirm :: "zrealm \<Rightarrow> ('m, 'x) zstate \<Rightarrow> ('h, ('m, 'x) zstate, unit) prog" where
  "App_OnChannelOpenConfirm cur z = settle (app_gate cur (xlocal (v1_OnChannelOpenConfirm cur)) z)"

definition App_OnChannelClose :: "zrealm \<Rightarrow> ('m, 'x) zstate \<Rightarrow> ('h, ('m, 'x) zstate, unit) prog" where
  "App_OnChannelClose cur z = settle (app_gate cur (xlocal (zpanic errChannelClosing)) z)"

definition App_OnRecvPacket ::
    "('t, 'r, 'm, 'x) zenv \<Rightarrow> ('c, 'lc, 'app, ('m, 'x) zstate) env \<Rightarrow> zrealm \<Rightarrow> ('m, 'x) zstate \<Rightarrow> Packet \<Rightarrow> address \<Rightarrow> bytes \<Rightarrow>
     (('c, 'lc, 'app, ('m, 'x) zstate) core, ('m, 'x) zstate, RecvPacketResult) prog" where
  "App_OnRecvPacket Z E cur z packet relayer relayerMsg =
     settle (app_gate cur (v1_OnRecvPacket Z E cur packet relayer relayerMsg) z)"

definition App_OnIntentRecvPacket ::
    "('t, 'r, 'm, 'x) zenv \<Rightarrow> ('c, 'lc, 'app, ('m, 'x) zstate) env \<Rightarrow> zrealm \<Rightarrow> ('m, 'x) zstate \<Rightarrow> Packet \<Rightarrow> address \<Rightarrow> bytes \<Rightarrow>
     (('c, 'lc, 'app, ('m, 'x) zstate) core, ('m, 'x) zstate, RecvPacketResult) prog" where
  "App_OnIntentRecvPacket Z E cur z packet marketMaker marketMakerMsg =
     settle (app_gate cur (v1_OnIntentRecvPacket Z E cur packet marketMaker marketMakerMsg) z)"

definition App_OnAcknowledgementPacket ::
    "('t, 'r, 'm, 'x) zenv \<Rightarrow> zrealm \<Rightarrow> ('m, 'x) zstate \<Rightarrow> Packet \<Rightarrow> bytes \<Rightarrow> ('h, ('m, 'x) zstate, unit) prog" where
  "App_OnAcknowledgementPacket Z cur z packet acknowledgement =
     settle (app_gate cur (v1_OnAcknowledgementPacket Z cur packet acknowledgement) z)"

definition App_OnTimeoutPacket ::
    "('t, 'r, 'm, 'x) zenv \<Rightarrow> zrealm \<Rightarrow> ('m, 'x) zstate \<Rightarrow> Packet \<Rightarrow> ('h, ('m, 'x) zstate, unit) prog" where
  "App_OnTimeoutPacket Z cur z packet = settle (app_gate cur (v1_OnTimeoutPacket Z cur packet) z)"

end
