(* ===== verification/ZkgmRules.thy ===== *)
theory ZkgmRules
  imports ZkgmDispatch
begin

text \<open>
  Relations between the state before a computation and the state after it. A relation that is reflexive and
  transitive is kept by every way of composing computations and programs once it is kept by the parts; the flag says
  whether it is asked for of values only, or also of errors and ordinary panics, whose writes stay.
\<close>

fun good :: "bool \<Rightarrow> 'a zres \<Rightarrow> bool" where
  "good all (Val x) = True"
| "good all (Fatal e) = False"
| "good all (Err e) = all"
| "good all (Pan e) = all"

text \<open>What holds of every way a program can end, whatever the host answers.\<close>

primrec ends :: "('r \<Rightarrow> 'w \<Rightarrow> bool) \<Rightarrow> ('h, 'w, 'r) prog \<Rightarrow> bool" where
  "ends Q (Done r w) = Q r w"
| "ends Q AppPanics = True"
| "ends Q (Reads k) = (\<forall>s. ends Q (k s))"
| "ends Q (CallSendPacket addr path c ts d k) = (\<forall>p. ends Q (k p))"
| "ends Q (CallWriteAcknowledgement addr path p a k) = ends Q k"

lemma ends_mono: "ends Q m \<Longrightarrow> (\<And>r w. Q r w \<Longrightarrow> Q' r w) \<Longrightarrow> ends Q' m"
  by (induction m) auto

lemma ends_pbind:
  "ends (\<lambda>r z. case r of Val x \<Rightarrow> ends Q (k x z) | Err e \<Rightarrow> Q (Err e) z | Pan e \<Rightarrow> Q (Pan e) z | Fatal e \<Rightarrow> Q (Fatal e) z) m \<Longrightarrow>
   ends Q (pbind m k)"
  by (induction m) (auto split: zres.splits)

lemma ends_pmap: "ends (\<lambda>r z. ends Q (f r z)) m \<Longrightarrow> ends Q (pmap f m)"
  by (induction m) auto

lemma ends_settle: "ends (\<lambda>r z. \<forall>x. r = Val x \<longrightarrow> Q x z) m \<Longrightarrow> ends Q (settle m)"
  by (induction m) (auto split: zres.splits)

lemma run_prog_ends: "run_prog E m s = Inr (r, s') \<Longrightarrow> ends Q m \<Longrightarrow> Q r (world s')"
proof (induction m arbitrary: s)
  case (CallSendPacket addr path c ts d k)
  then show ?case by (auto split: sum.splits) blast
qed (auto simp: run_simps panic_def split: sum.splits prod.splits)

locale kept =
  fixes R :: "'s \<Rightarrow> 's \<Rightarrow> bool"
  assumes refl: "R s s" and trans: "R s t \<Longrightarrow> R t u \<Longrightarrow> R s u"
begin

definition keeps_z :: "bool \<Rightarrow> ('s, 'a) zc \<Rightarrow> bool" where
  "keeps_z all m \<longleftrightarrow> (\<forall>s r s'. m s = (r, s') \<longrightarrow> good all r \<longrightarrow> R s s')"

definition keeps_x :: "bool \<Rightarrow> ('h, 's, 'a) zp \<Rightarrow> bool" where
  "keeps_x all m \<longleftrightarrow> (\<forall>z. ends (\<lambda>r z'. good all r \<longrightarrow> R z z') (m z))"

lemma zI: "(\<And>s r s'. m s = (r, s') \<Longrightarrow> good all r \<Longrightarrow> R s s') \<Longrightarrow> keeps_z all m"
  by (simp add: keeps_z_def)

lemma zD: "keeps_z all m \<Longrightarrow> m s = (r, s') \<Longrightarrow> good all r \<Longrightarrow> R s s'"
  by (simp add: keeps_z_def)

text \<open>Computations that change nothing.\<close>

lemma z_still: "(\<And>s. snd (m s) = s) \<Longrightarrow> keeps_z all m"
  by (rule zI) (metis refl snd_conv)

lemma z_atoms: "keeps_z all (zret x)" "keeps_z all (zfail e)" "keeps_z all (zpanic e)" "keeps_z all (zfatal e)"
  "keeps_z all (zgets f)" "keeps_z all (zguard b e)" "keeps_z all (zassertIsRlmCurrent rlm)" "keeps_z all (zmust h r)"
  "keeps_z all (zcodec c)" "keeps_z all (zscale d)" "keeps_z all (zpath p)" "keeps_z all (zassertIsProxyRealm Z rlm)"
  by (rule z_still; simp add: zret_def zfail_def zpanic_def zfatal_def zgets_def zguard_def zassertIsRlmCurrent_def zmust_def
      zcodec_def zscale_def zpath_def zassertIsProxyRealm_def split: sum.splits codec_error.splits scale_error.splits)+

lemma z_bind: "keeps_z all m \<Longrightarrow> (\<And>x. keeps_z all (k x)) \<Longrightarrow> keeps_z all (zbind m k)"
  by (auto simp: keeps_z_def zbind_def split: prod.splits zres.splits) (metis good.simps(1) trans)

lemma z_seq: "keeps_z all m \<Longrightarrow> keeps_z all k \<Longrightarrow> keeps_z all (zseq m k)"
  unfolding zseq_def by (rule z_bind)

lemma z_with: "(\<And>x. r = Val x \<Longrightarrow> keeps_z all (k x)) \<Longrightarrow> keeps_z all (zwith r k)"
  by (cases r) (simp_all add: zwith_def z_atoms)

lemma z_attempt: "keeps_z True m \<Longrightarrow> keeps_z all (zattempt m)"
  by (auto simp: keeps_z_def zattempt_def split: prod.splits zres.splits)

lemma z_try: "keeps_z True m \<Longrightarrow> (\<And>e. keeps_z all (h e)) \<Longrightarrow> keeps_z all (ztry m h)"
  by (auto simp: keeps_z_def ztry_def split: prod.splits zres.splits) (metis good.simps(3) trans)+

lemma z_ignore: "keeps_z True m \<Longrightarrow> keeps_z all (zignore m)"
  unfolding zignore_def by (intro z_try z_atoms)

lemma z_orFatal: "keeps_z True m \<Longrightarrow> keeps_z all (zorFatal m)"
  unfolding zorFatal_def by (intro z_try z_atoms)

lemma z_each: "(\<And>x b. x \<in> set xs \<Longrightarrow> keeps_z all (f x b)) \<Longrightarrow> keeps_z all (zeach f xs b)"
  by (induction xs arbitrary: b) (auto intro!: z_atoms z_bind)

lemma z_values: "keeps_z True m \<Longrightarrow> keeps_z all m"
  unfolding keeps_z_def by (metis good.elims(2) good.simps)

lemma x_local: "keeps_z all m \<Longrightarrow> keeps_x all (xlocal m)"
  by (auto simp: keeps_x_def keeps_z_def xlocal_def split: prod.splits)

lemma x_ret: "keeps_x all (xret x)" and x_fail: "keeps_x all (xfail e)"
  by (simp_all add: xret_def xfail_def x_local z_atoms)

lemma x_panics: "keeps_x all (\<lambda>z. AppPanics)"
  by (simp add: keeps_x_def)

lemma x_bind:
  fixes m :: "('h, 's, 'a) zp" and k :: "'a \<Rightarrow> ('h, 's, 'b) zp"
  assumes "keeps_x all m" "\<And>x. keeps_x all (k x)"
  shows "keeps_x all (xbind m k)"
  unfolding keeps_x_def xbind_def
proof (intro allI ends_pbind)
  fix z
  have "ends (\<lambda>r z'. good all r \<longrightarrow> R z z') (m z)" using assms(1) by (simp add: keeps_x_def)
  then show "ends (\<lambda>r z'. case r of Val x \<Rightarrow> ends (\<lambda>r z''. good all r \<longrightarrow> R z z'') (k x z')
      | Err e \<Rightarrow> good all (Err e :: 'b zres) \<longrightarrow> R z z' | Pan e \<Rightarrow> good all (Pan e :: 'b zres) \<longrightarrow> R z z'
      | Fatal e \<Rightarrow> good all (Fatal e :: 'b zres) \<longrightarrow> R z z') (m z)"
  proof (rule ends_mono)
    fix r :: "'a zres" and z' assume r: "good all r \<longrightarrow> R z z'"
    have "ends (\<lambda>r z''. good all r \<longrightarrow> R z z'') (k x z')" if "r = Val x" for x
    proof -
      have "ends (\<lambda>r z''. good all r \<longrightarrow> R z' z'') (k x z')" using assms(2) by (simp add: keeps_x_def)
      then show ?thesis using r that by (auto elim!: ends_mono intro: trans)
    qed
    then show "case r of Val x \<Rightarrow> ends (\<lambda>r z''. good all r \<longrightarrow> R z z'') (k x z')
      | Err e \<Rightarrow> good all (Err e :: 'b zres) \<longrightarrow> R z z' | Pan e \<Rightarrow> good all (Pan e :: 'b zres) \<longrightarrow> R z z'
      | Fatal e \<Rightarrow> good all (Fatal e :: 'b zres) \<longrightarrow> R z z'" using r by (cases r) auto
  qed
qed

lemma x_seq: "keeps_x all m \<Longrightarrow> keeps_x all k \<Longrightarrow> keeps_x all (xseq m k)"
  unfolding xseq_def by (rule x_bind)

lemma x_with: "(\<And>x. r = Val x \<Longrightarrow> keeps_x all (k x)) \<Longrightarrow> keeps_x all (xwith r k)"
  by (cases r) (simp_all add: xwith_def x_fail x_local z_atoms)

text \<open>A continuation that may look at errors and panics needs the relation of those as well.\<close>

lemma x_pmap:
  fixes m :: "('h, 's, 'a) zp" and f :: "'a zres \<Rightarrow> ('h, 's, 'b) zp"
  assumes "keeps_x all' m" and "\<And>r. good all' r \<Longrightarrow> keeps_x all (f r)"
    and "\<And>r z. \<not> good all' r \<Longrightarrow> ends (\<lambda>r' z'. \<not> good all r') (f r z)"
  shows "keeps_x all (\<lambda>z. pmap f (m z))"
  unfolding keeps_x_def
proof (intro allI ends_pmap)
  fix z
  have "ends (\<lambda>r z'. good all' r \<longrightarrow> R z z') (m z)" using assms(1) by (simp add: keeps_x_def)
  then show "ends (\<lambda>r z'. ends (\<lambda>r z''. good all r \<longrightarrow> R z z'') (f r z')) (m z)"
  proof (rule ends_mono)
    fix r :: "'a zres" and z' assume r: "good all' r \<longrightarrow> R z z'"
    show "ends (\<lambda>r z''. good all r \<longrightarrow> R z z'') (f r z')"
    proof (cases "good all' r")
      case True
      then have "ends (\<lambda>r z''. good all r \<longrightarrow> R z' z'') (f r z')" using assms(2) by (simp add: keeps_x_def)
      then show ?thesis using r True by (auto elim!: ends_mono intro: trans)
    next
      case False
      then show ?thesis using assms(3) [of r z'] by (auto elim!: ends_mono)
    qed
  qed
qed

lemma x_orFatal: "keeps_x True m \<Longrightarrow> keeps_x all (xorFatal m)"
  unfolding xorFatal_def [abs_def]
  by (rule x_pmap [of True]) (auto simp: xlocal_def keeps_x_def refl split: zres.splits elim: good.elims)

lemma x_orPanic: "keeps_x False m \<Longrightarrow> keeps_x False (xorPanic m)"
  unfolding xorPanic_def [abs_def]
  by (rule x_pmap [of False]) (auto simp: xlocal_def keeps_x_def refl split: zres.splits)

lemma x_recover: "keeps_x True m \<Longrightarrow> keeps_x True h \<Longrightarrow> keeps_x True (xrecover m h)"
  unfolding xrecover_def [abs_def]
  by (rule x_pmap [of True]) (auto simp: xlocal_def keeps_x_def refl split: zres.splits)

lemma x_loop: "(\<And>x b. x \<in> set xs \<Longrightarrow> keeps_x all (f x b)) \<Longrightarrow> keeps_x all (xloop f xs b)"
  by (induction xs arbitrary: b) (auto intro!: x_ret x_bind split: sum.splits)

lemma x_host: "keeps_x all (xhost m)"
  by (auto simp: keeps_x_def xhost_def refl split: sum.splits)

lemma x_core: "keeps_x all (xcore m)"
  unfolding xcore_def by (intro x_bind x_host) (auto simp: x_fail x_ret split: sum.splits)

lemma x_calls: "keeps_x all (xSendPacket rlm c ts d)" "keeps_x all (xWriteAcknowledgement rlm p a)"
  by (simp_all add: keeps_x_def xSendPacket_def xWriteAcknowledgement_def refl)

text \<open>What a public function leaves behind.\<close>

lemma settled: "keeps_x False m \<Longrightarrow> ends (\<lambda>x z'. R z z') (settle (m z))"
  unfolding keeps_x_def by (rule ends_settle, drule spec, erule ends_mono) auto

lemmas z_rules = z_atoms z_bind z_seq z_with z_each
lemmas x_rules = x_local x_ret x_fail x_panics x_bind x_seq x_with x_loop x_host x_core x_calls

end

end
