(* ===== verification/ZkgmCustody.thy ===== *)
theory ZkgmCustody
  imports ZkgmRules
begin

text \<open>
  Solvency: what the ledger of channel balances and locked amounts owes in an asset never exceeds what the proxy
  holds of it. The laws of the foreign code are the predicate \<open>world_ok\<close>: trees look up what was stored, a token or
  coin transfer that succeeds moves exactly its amount and one that fails moves nothing, and the registry of tokens
  only grows and never lists a coin of the bank.
\<close>

section \<open>The laws of trees, tokens, coins and the registry\<close>

definition same_holdings :: "('t, 'r, 'm, 'x) zenv \<Rightarrow> 'x \<Rightarrow> 'x \<Rightarrow> bool" where
  "same_holdings Z x x' \<longleftrightarrow>
     tok_BalanceOf Z x' = tok_BalanceOf Z x \<and> bank_Balance Z x' = bank_Balance Z x"

definition tree_ok :: "('t, 'r, 'm, 'x) zenv \<Rightarrow> bool" where
  "tree_ok Z \<longleftrightarrow>
     (\<forall>k. zt_Get Z (zt_New Z) k = None) \<and>
     (\<forall>m k v k'. zt_Get Z (zt_Set Z m k v) k' = (if k' = k then Some v else zt_Get Z m k')) \<and>
     (\<forall>m k k'. zt_Get Z (zt_Remove Z m k) k' = (if k' = k then None else zt_Get Z m k'))"

text \<open>What a successful operation does to the balances, and that any other leaves them.\<close>

definition token_op :: "('t, 'r, 'm, 'x) zenv \<Rightarrow> ('x \<Rightarrow> foreign \<times> 'x) \<Rightarrow> 't \<Rightarrow> (address \<Rightarrow> int) \<Rightarrow> bool" where
  "token_op Z op t change \<longleftrightarrow>
     (\<forall>x r x'. op x = (r, x') \<longrightarrow>
        reg_Get Z x' = reg_Get Z x \<and>
        (if r = Fine
         then bank_Balance Z x' = bank_Balance Z x \<and>
           (\<forall>t' a. tok_BalanceOf Z x' t' a = tok_BalanceOf Z x t' a + (if t' = t then change a else 0))
         else same_holdings Z x x'))"

definition coin_op :: "('t, 'r, 'm, 'x) zenv \<Rightarrow> ('x \<Rightarrow> foreign \<times> 'x) \<Rightarrow> string \<Rightarrow> (address \<Rightarrow> int) \<Rightarrow> bool" where
  "coin_op Z op d change \<longleftrightarrow>
     (\<forall>x r x'. op x = (r, x') \<longrightarrow>
        reg_Get Z x' = reg_Get Z x \<and>
        (if r = Fine
         then tok_BalanceOf Z x' = tok_BalanceOf Z x \<and>
           (\<forall>d' a. bank_Balance Z x' d' a = bank_Balance Z x d' a + (if d' = d then change a else 0))
         else same_holdings Z x x'))"

definition transfer :: "address \<Rightarrow> address \<Rightarrow> int \<Rightarrow> address \<Rightarrow> int" where
  "transfer src dst n a = (if a = dst then n else 0) - (if a = src then n else 0)"

definition world_ok :: "('t, 'r, 'm, 'x) zenv \<Rightarrow> string set \<Rightarrow> bool" where
  "world_ok Z coins \<longleftrightarrow>
     tree_ok Z \<and>
     (\<forall>t a n. token_op Z (ledger_Mint Z t a n) t (\<lambda>b. if b = a then n else 0)) \<and>
     (\<forall>t a n. token_op Z (ledger_Burn Z t a n) t (\<lambda>b. if b = a then - n else 0)) \<and>
     (\<forall>t a b n. token_op Z (ledger_Transfer Z t a b n) t (transfer a b n)) \<and>
     (\<forall>t a b n. token_op Z (teller_Transfer Z t a b n) t (transfer a b n)) \<and>
     (\<forall>t a b n x x'. teller_Transfer Z t a b n x = (Fine, x') \<longrightarrow> 0 \<le> n) \<and>
     (\<forall>t s a b n. token_op Z (teller_TransferFrom Z t s a b n) t (transfer a b n)) \<and>
     (\<forall>t a b n. token_op Z (teller_Approve Z t a b n) t (\<lambda>_. 0)) \<and>
     (\<forall>a b d n. coin_op Z (bank_SendCoins Z a b d n) d (transfer a b n)) \<and>
     (\<forall>t. 0 \<le> tok_Decimals Z t) \<and>
     (\<forall>name symbol d x t x'. tok_New Z name symbol d x = Some (t, x') \<longrightarrow>
        same_holdings Z x x' \<and> reg_Get Z x' = reg_Get Z x) \<and>
     (\<forall>t key x x'. reg_Register Z t key x = Some x' \<longrightarrow>
        same_holdings Z x x' \<and> (\<forall>k u. reg_Get Z x k = Some u \<longrightarrow> reg_Get Z x' k = Some u)) \<and>
     (\<forall>x k. reg_Get Z x k \<noteq> None \<longrightarrow> k \<notin> coins)"

lemma world_ops:
  assumes "world_ok Z coins"
  shows "tree_ok Z" "token_op Z (ledger_Mint Z t a n) t (\<lambda>b. if b = a then n else 0)"
    "token_op Z (ledger_Burn Z t a n) t (\<lambda>b. if b = a then - n else 0)"
    "token_op Z (ledger_Transfer Z t a b n) t (transfer a b n)"
    "token_op Z (teller_Transfer Z t a b n) t (transfer a b n)"
    "token_op Z (teller_TransferFrom Z t s a b n) t (transfer a b n)"
    "token_op Z (teller_Approve Z t a b n) t (\<lambda>_. 0)"
    "coin_op Z (bank_SendCoins Z a b d n) d (transfer a b n)"
    "0 \<le> tok_Decimals Z t"
  using assms unfolding world_ok_def by simp_all

lemma world_coins: "world_ok Z coins \<Longrightarrow> d \<in> coins \<Longrightarrow> reg_Get Z x d = None"
  unfolding world_ok_def by (metis option.exhaust)

section \<open>Assets and what is owed in them\<close>

datatype 't asset = Tok 't | Coin string

definition voucher_of :: "('t, 'r, 'm, 'x) zenv \<Rightarrow> ('m, 'x) zstate \<Rightarrow> string \<Rightarrow> 't Voucher option" where
  "voucher_of Z s d = (case zt_Get Z (vouchers s) d of Some (ZVoucher v) \<Rightarrow> Some v | _ \<Rightarrow> None)"

text \<open>The asset a denom stands for: the voucher's token, the registered token, or else the coin of that name.\<close>

definition asset_of :: "('t, 'r, 'm, 'x) zenv \<Rightarrow> ('m, 'x) zstate \<Rightarrow> string \<Rightarrow> 't asset option" where
  "asset_of Z s d =
     (if isIBCTokenDenom d then map_option (Tok \<circ> v_token) (voucher_of Z s d)
      else Some (case reg_Get Z (ext s) d of Some t \<Rightarrow> Tok t | None \<Rightarrow> Coin d))"

definition holding :: "('t, 'r, 'm, 'x) zenv \<Rightarrow> 'x \<Rightarrow> address \<Rightarrow> 't asset \<Rightarrow> int" where
  "holding Z x P a = (case a of Tok t \<Rightarrow> tok_BalanceOf Z x t P | Coin d \<Rightarrow> bank_Balance Z x d P)"

definition uint_at :: "('t, 'r, 'm, 'x) zenv \<Rightarrow> 'm \<Rightarrow> string \<Rightarrow> int" where
  "uint_at Z m key = (case zt_Get Z m key of Some (ZUint u) \<Rightarrow> int (uval u) | _ \<Rightarrow> 0)"

type_synonym slot = "ChannelId \<times> uint256 \<times> bytes \<times> bytes"

definition slot_key :: "slot \<Rightarrow> string" where
  "slot_key k = (case k of (c, p, b, q) \<Rightarrow> ChannelBalanceKeyV2 c p b q)"

definition slot_denom :: "slot \<Rightarrow> string" where
  "slot_denom k = string_of_bytes (fst (snd (snd k)))"

definition slot_amount :: "('t, 'r, 'm, 'x) zenv \<Rightarrow> ('m, 'x) zstate \<Rightarrow> slot \<Rightarrow> int" where
  "slot_amount Z s k = uint_at Z (channelBalanceV2 s) (slot_key k)"

definition locked_amount :: "('t, 'r, 'm, 'x) zenv \<Rightarrow> ('m, 'x) zstate \<Rightarrow> string \<Rightarrow> int" where
  "locked_amount Z s d = uint_at Z (lockedTokenAmounts s) d"

text \<open>The sum of a function that is zero but at finitely many places.\<close>

definition total :: "('k \<Rightarrow> int) \<Rightarrow> int" where
  "total f = sum f {k. f k \<noteq> 0}"

definition owed :: "('t, 'r, 'm, 'x) zenv \<Rightarrow> ('m, 'x) zstate \<Rightarrow> 't asset \<Rightarrow> int" where
  "owed Z s a =
     total (\<lambda>k. if asset_of Z s (slot_denom k) = Some a then slot_amount Z s k else 0) +
     total (\<lambda>d. if asset_of Z s d = Some a then locked_amount Z s d else 0)"

definition surplus :: "('t, 'r, 'm, 'x) zenv \<Rightarrow> address \<Rightarrow> ('m, 'x) zstate \<Rightarrow> 't asset \<Rightarrow> int" where
  "surplus Z P s a = holding Z (ext s) P a - owed Z s a"

text \<open>A denom that has an asset for good.\<close>

definition known :: "('t, 'r, 'm, 'x) zenv \<Rightarrow> string set \<Rightarrow> ('m, 'x) zstate \<Rightarrow> string \<Rightarrow> bool" where
  "known Z coins s d \<longleftrightarrow> asset_of Z s d \<noteq> None \<and> (asset_of Z s d = Some (Coin d) \<longrightarrow> d \<in> coins)"

definition books_ok :: "('t, 'r, 'm, 'x) zenv \<Rightarrow> string set \<Rightarrow> ('m, 'x) zstate \<Rightarrow> bool" where
  "books_ok Z coins s \<longleftrightarrow>
     finite {k. slot_amount Z s k \<noteq> 0} \<and> finite {d. locked_amount Z s d \<noteq> 0} \<and>
     (\<forall>k. slot_amount Z s k \<noteq> 0 \<longrightarrow> known Z coins s (slot_denom k)) \<and>
     (\<forall>d. locked_amount Z s d \<noteq> 0 \<longrightarrow> known Z coins s d) \<and>
     (\<forall>d v. \<not> isIBCTokenDenom d \<longrightarrow> voucher_of Z s d = Some v \<longrightarrow> ScaleExp Z v = 0)"

text \<open>The relation every entry point keeps: sound books stay sound and no asset's surplus shrinks.\<close>

definition solvent :: "('t, 'r, 'm, 'x) zenv \<Rightarrow> address \<Rightarrow> string set \<Rightarrow> ('m, 'x) zstate \<Rightarrow> ('m, 'x) zstate \<Rightarrow> bool" where
  "solvent Z P coins s s' \<longleftrightarrow>
     (books_ok Z coins s \<longrightarrow> books_ok Z coins s' \<and> (\<forall>a. surplus Z P s a \<le> surplus Z P s' a))"

interpretation solvent: kept "solvent Z P coins" for Z P coins
  by unfold_locales (auto simp: solvent_def intro: order_trans)

abbreviation solvent_z :: "('t, 'r, 'm, 'x) zenv \<Rightarrow> address \<Rightarrow> string set \<Rightarrow> bool \<Rightarrow> (('m, 'x) zstate, 'a) zc \<Rightarrow> bool" where
  "solvent_z Z P coins \<equiv> kept.keeps_z (solvent Z P coins)"

abbreviation solvent_x ::
    "('t, 'r, 'm, 'x) zenv \<Rightarrow> address \<Rightarrow> string set \<Rightarrow> bool \<Rightarrow> ('h, ('m, 'x) zstate, 'a) zp \<Rightarrow> bool" where
  "solvent_x Z P coins \<equiv> kept.keeps_x (solvent Z P coins)"

section \<open>Sums\<close>

lemma total_zero: "total (\<lambda>_. 0) = 0" by (simp add: total_def)

lemma total_over: "finite K \<Longrightarrow> {k. f k \<noteq> 0} \<subseteq> K \<Longrightarrow> total f = sum f K"
  unfolding total_def by (rule sum.mono_neutral_left) auto

lemma total_update:
  assumes "finite {k. f k \<noteq> 0}"
  shows "total (f(k := v)) = total f - f k + v"
proof -
  let ?K = "insert k {k. f k \<noteq> 0}"
  have "total (f(k := v)) = sum (f(k := v)) ?K" using assms by (intro total_over) auto
  also have "\<dots> = v + sum f (?K - {k})"
    using assms by (subst sum.remove [of _ k]) (auto intro!: sum.cong)
  also have "sum f (?K - {k}) = sum f ?K - f k" using assms by (subst sum.remove [of ?K k]) auto
  also have "sum f ?K = total f" using assms by (intro total_over [symmetric]) auto
  finally show ?thesis by linarith
qed

lemma total_nonneg: "(\<And>k. 0 \<le> f k) \<Longrightarrow> 0 \<le> total f"
  unfolding total_def by (rule sum_nonneg) simp

section \<open>Denoms keep their assets\<close>

text \<open>Vouchers and registered tokens stay, and nothing else is new.\<close>

definition grows :: "('t, 'r, 'm, 'x) zenv \<Rightarrow> ('m, 'x) zstate \<Rightarrow> ('m, 'x) zstate \<Rightarrow> bool" where
  "grows Z s s' \<longleftrightarrow>
     (\<forall>d v. voucher_of Z s d = Some v \<longrightarrow> voucher_of Z s' d = Some v) \<and>
     (\<forall>k u. reg_Get Z (ext s) k = Some u \<longrightarrow> reg_Get Z (ext s') k = Some u)"

lemma asset_stable:
  assumes "world_ok Z coins" "grows Z s s'" "known Z coins s d"
  shows "asset_of Z s' d = asset_of Z s d" "known Z coins s' d"
proof -
  have reg: "d \<in> coins \<Longrightarrow> reg_Get Z x d = None" for x using assms(1) by (rule world_coins)
  show eq: "asset_of Z s' d = asset_of Z s d"
    using assms(2,3) reg [of "ext s'"]
    by (auto simp: asset_of_def known_def grows_def split: option.splits if_splits)
  show "known Z coins s' d" using assms(3) eq by (simp add: known_def)
qed

text \<open>When slots and locked amounts stay as they are, only the holdings count.\<close>

lemma solvent_world:
  assumes W: "world_ok Z coins" and g: "grows Z s s'"
    and same: "channelBalanceV2 s' = channelBalanceV2 s" "lockedTokenAmounts s' = lockedTokenAmounts s"
    and scale: "\<And>d v. \<not> isIBCTokenDenom d \<Longrightarrow> voucher_of Z s' d = Some v \<Longrightarrow> voucher_of Z s d = Some v \<or> ScaleExp Z v = 0"
    and more: "\<And>a. holding Z (ext s) P a \<le> holding Z (ext s') P a"
  shows "solvent Z P coins s s'"
  unfolding solvent_def
proof
  assume B: "books_ok Z coins s"
  have amounts: "slot_amount Z s' = slot_amount Z s" "locked_amount Z s' = locked_amount Z s"
    using same by (auto simp: slot_amount_def locked_amount_def)
  have stable: "slot_amount Z s k \<noteq> 0 \<Longrightarrow> asset_of Z s' (slot_denom k) = asset_of Z s (slot_denom k)"
    "locked_amount Z s d \<noteq> 0 \<Longrightarrow> asset_of Z s' d = asset_of Z s d" for k d
    using B asset_stable(1) [OF W g] unfolding books_ok_def by blast+
  have "(\<lambda>k. if asset_of Z s' (slot_denom k) = Some a then slot_amount Z s k else 0) =
      (\<lambda>k. if asset_of Z s (slot_denom k) = Some a then slot_amount Z s k else 0)" for a
  proof
    show "(if asset_of Z s' (slot_denom k) = Some a then slot_amount Z s k else 0) =
      (if asset_of Z s (slot_denom k) = Some a then slot_amount Z s k else 0)" for k
      by (cases "slot_amount Z s k = 0") (simp_all add: stable)
  qed
  moreover have "(\<lambda>d. if asset_of Z s' d = Some a then locked_amount Z s d else 0) =
      (\<lambda>d. if asset_of Z s d = Some a then locked_amount Z s d else 0)" for a
  proof
    show "(if asset_of Z s' d = Some a then locked_amount Z s d else 0) =
      (if asset_of Z s d = Some a then locked_amount Z s d else 0)" for d
      by (cases "locked_amount Z s d = 0") (simp_all add: stable)
  qed
  ultimately have "owed Z s' a = owed Z s a" for a by (simp only: owed_def amounts)
  then have "surplus Z P s a \<le> surplus Z P s' a" for a using more by (simp add: surplus_def)
  moreover have "books_ok Z coins s'"
    using B asset_stable(2) [OF W g] scale unfolding books_ok_def amounts by metis
  ultimately show "books_ok Z coins s' \<and> (\<forall>a. surplus Z P s a \<le> surplus Z P s' a)" by simp
qed


lemma solvent_view:
  fixes s s' :: "('m, 'x) zstate" and Z :: "('t, 'r, 'm, 'x) zenv"
  assumes "channelBalanceV2 s' = channelBalanceV2 s" "lockedTokenAmounts s' = lockedTokenAmounts s"
    "vouchers s' = vouchers s" "ext s' = ext s"
  shows "solvent Z P coins s s'"
proof -
  have v: "voucher_of Z s' = voucher_of Z s" using assms by (intro ext) (simp add: voucher_of_def)
  have a: "asset_of Z s' = asset_of Z s" using assms v by (intro ext) (simp add: asset_of_def)
  have k: "known Z coins s' = known Z coins s" using a by (intro ext) (simp add: known_def)
  have m: "slot_amount Z s' = slot_amount Z s" "locked_amount Z s' = locked_amount Z s"
    using assms by (auto simp: slot_amount_def locked_amount_def)
  show ?thesis unfolding solvent_def books_ok_def surplus_def owed_def a k m v assms by simp
qed

lemma solvent_ext:
  assumes "world_ok Z coins" "\<And>k u. reg_Get Z (ext s) k = Some u \<Longrightarrow> reg_Get Z x k = Some u"
    and "\<And>a. holding Z (ext s) P a \<le> holding Z x P a"
  shows "solvent Z P coins s (s\<lparr>ext := x\<rparr>)"
  by (rule solvent_world [OF assms(1)]) (use assms in \<open>auto simp: grows_def voucher_of_def\<close>)

section \<open>Operations on tokens\<close>

text \<open>What a foreign operation leaves: only the world differs, by the change or not at all.\<close>

lemma zforeign_run:
  assumes "zforeign op s = (r, s')"
  obtains x f where "op (ext s) = (f, x)" "s' = s\<lparr>ext := x\<rparr>"
    "(f = Fine \<and> r = Val ()) \<or> (f \<noteq> Fine \<and> (\<forall>u. r \<noteq> Val u) \<and> (\<forall>e. r \<noteq> Fatal e))"
  using assms by (auto simp: zforeign_def split: prod.splits foreign.splits)

lemma token_op_holding:
  assumes "token_op Z op t change" "op x = (f, x')"
  shows "reg_Get Z x' = reg_Get Z x"
    "holding Z x' P a = holding Z x P a + (if f = Fine \<and> a = Tok t then change P else 0)"
proof -
  note law = assms(1) [unfolded token_op_def, rule_format, OF assms(2)]
  show "reg_Get Z x' = reg_Get Z x" using law by simp
  show "holding Z x' P a = holding Z x P a + (if f = Fine \<and> a = Tok t then change P else 0)"
    using law by (cases "f = Fine"; cases a) (simp_all add: holding_def same_holdings_def)
qed

lemma coin_op_holding:
  assumes "coin_op Z op d change" "op x = (f, x')"
  shows "reg_Get Z x' = reg_Get Z x"
    "holding Z x' P a = holding Z x P a + (if f = Fine \<and> a = Coin d then change P else 0)"
proof -
  note law = assms(1) [unfolded coin_op_def, rule_format, OF assms(2)]
  show "reg_Get Z x' = reg_Get Z x" using law by simp
  show "holding Z x' P a = holding Z x P a + (if f = Fine \<and> a = Coin d then change P else 0)"
    using law by (cases "f = Fine"; cases a) (simp_all add: holding_def same_holdings_def)
qed

lemma token_op_solvent:
  fixes Z :: "('t, 'r, 'm, 'x) zenv"
  assumes "world_ok Z coins" "token_op Z op t change" "\<And>x x'. op x = (Fine, x') \<Longrightarrow> 0 \<le> change P"
  shows "solvent_z Z P coins all (zforeign op)"
proof (rule solvent.zI)
  fix s s' :: "('m, 'x) zstate" and r assume "zforeign op s = (r, s')"
  then obtain f x where f: "op (ext s) = (f, x)" "s' = s\<lparr>ext := x\<rparr>" by (rule zforeign_run)
  show "solvent Z P coins s s'" unfolding f(2)
    using token_op_holding [OF assms(2) f(1)] assms(3) [of "ext s" x] f(1)
    by (intro solvent_ext [OF assms(1)]) (auto simp: holding_def)
qed

lemma scaled_nonneg: "ScaleDownToInt64 a e = Inr n \<Longrightarrow> 0 \<le> n"
  by (simp add: ScaleDown_exact)

lemma zscale_bind:
  "zbind (zscale r) k s = (res, s') \<Longrightarrow>
    (\<exists>n. r = Inr n \<and> k n s = (res, s')) \<or> (s' = s \<and> (\<forall>n. r \<noteq> Inr n) \<and> (\<forall>x. res \<noteq> Val x) \<and> (\<forall>e. res \<noteq> Fatal e))"
  by (cases r) (auto simp: zbind_def zscale_def zret_def zpanic_def zfail_def split: scale_error.splits)

lemma scale_solvent:
  fixes Z :: "('t, 'r, 'm, 'x) zenv" and k :: "int \<Rightarrow> (('m, 'x) zstate, 'a) zc"
  assumes "\<And>n. r = Inr n \<Longrightarrow> solvent_z Z P coins all (k n)"
  shows "solvent_z Z P coins all (zbind (zscale r) k)"
proof (rule solvent.zI)
  fix s s' :: "('m, 'x) zstate" and res assume run: "zbind (zscale r) k s = (res, s')" and g: "good all res"
  from zscale_bind [OF run] show "solvent Z P coins s s'"
    using assms g by (auto intro: solvent.zD solvent.refl)
qed

lemma MintScaled_solvent: "world_ok Z coins \<Longrightarrow> solvent_z Z P coins all (MintScaled Z v to a)"
  unfolding MintScaled_def ToLedgerAmount_def
  by (rule scale_solvent, rule token_op_solvent, assumption, erule world_ops(2)) (auto dest: scaled_nonneg)

lemma BurnScaled_solvent: "world_ok Z coins \<Longrightarrow> holder \<noteq> P \<Longrightarrow> solvent_z Z P coins all (BurnScaled Z v holder a)"
  unfolding BurnScaled_def by (rule scale_solvent, rule token_op_solvent, assumption, erule world_ops(3)) auto

lemma TransferScaled_solvent: "world_ok Z coins \<Longrightarrow> src \<noteq> P \<Longrightarrow> solvent_z Z P coins all (TransferScaled Z v src dst a)"
  unfolding TransferScaled_def ToLedgerAmount_def
  by (rule scale_solvent, rule token_op_solvent, assumption, erule world_ops(4)) (auto simp: transfer_def dest: scaled_nonneg)

lemma ztree_solvent: "solvent_z Z P coins all (ztree as v)"
  by (rule solvent.z_still) (auto simp: ztree_def zret_def zpanic_def split: option.splits)

lemma getters_solvent:
  "solvent_z Z P coins all (GetVoucher Z d)" "solvent_z Z P coins all (GetTokenOrigin Z d)"
  "solvent_z Z P coins all (GetChannelBalanceV2 Z d)" "solvent_z Z P coins all (GetMetadataImageOf Z d)"
  "solvent_z Z P coins all (GetForeignToken Z d)" "solvent_z Z P coins all (GetInFlightPacket Z d)"
  "solvent_z Z P coins all (GetTokenBucket Z d)" "solvent_z Z P coins all (GetReceiver Z d)"
  unfolding GetVoucher_def GetTokenOrigin_def GetChannelBalanceV2_def GetMetadataImageOf_def GetForeignToken_def
    GetInFlightPacket_def GetTokenBucket_def GetReceiver_def
  by (intro solvent.z_rules ztree_solvent)+

lemma needVoucher_solvent:
  "(\<And>v. solvent_z Z P coins all (k v)) \<Longrightarrow> solvent_z Z P coins all (needVoucher Z d k)"
  unfolding needVoucher_def by (intro solvent.z_rules getters_solvent) (auto intro: solvent.z_atoms split: option.splits)

lemma voucher_ops_solvent:
  assumes W: "world_ok Z coins" and src: "src \<noteq> P"
  shows "solvent_z Z P coins all (transferVoucher Z d src dst a)" "solvent_z Z P coins all (burnVoucher Z d src a)"
  unfolding transferVoucher_def burnVoucher_def
  by (intro needVoucher_solvent TransferScaled_solvent [OF W src] BurnScaled_solvent [OF W src])+

lemma setters_solvent:
  "solvent_z Z P coins all (SetTokenOrigin Z rlm d p)" "solvent_z Z P coins all (SetMetadataImageOf Z rlm d i)"
  "solvent_z Z P coins all (SetForeignToken Z rlm d t)" "solvent_z Z P coins all (SetInFlightPacket Z rlm d pk)"
  "solvent_z Z P coins all (RemoveInFlightPacket Z rlm d)" "solvent_z Z P coins all (SetReceiver Z rlm d r)"
  "solvent_z Z P coins all (updateBucket Z d bk)" "solvent_z Z P coins all (SetTokenBucket Z rlm d bk)"
  unfolding SetTokenOrigin_def SetMetadataImageOf_def SetForeignToken_def SetInFlightPacket_def RemoveInFlightPacket_def
    SetReceiver_def updateBucket_def SetTokenBucket_def
  by (intro solvent.z_seq solvent.z_atoms solvent.zI; auto simp: zmodify_def intro!: solvent_view)+


lemma rateLimit_solvent: "solvent_z Z P coins all (rateLimit Z d a)"
  unfolding rateLimit_def
  by (intro solvent.z_rules getters_solvent setters_solvent
      | auto intro!: solvent.z_rules getters_solvent setters_solvent split: option.splits sum.splits)+

lemma world_new:
  assumes "world_ok Z coins" "tok_New Z name symbol d x = Some (t, x')" "reg_Register Z t key x' = Some x''"
  shows "same_holdings Z x x''" "reg_Get Z x k = Some u \<Longrightarrow> reg_Get Z x'' k = Some u"
proof -
  have new: "same_holdings Z x x' \<and> reg_Get Z x' = reg_Get Z x"
    using assms(1,2) unfolding world_ok_def by blast
  have reg: "same_holdings Z x' x'' \<and> (\<forall>k u. reg_Get Z x' k = Some u \<longrightarrow> reg_Get Z x'' k = Some u)"
    using assms(1,3) unfolding world_ok_def by blast
  show "same_holdings Z x x''" using new reg by (simp add: same_holdings_def)
  show "reg_Get Z x k = Some u \<Longrightarrow> reg_Get Z x'' k = Some u" using new reg by simp
qed

lemma voucher_of_GetVoucher: "GetVoucher Z d s = (Val v, s') \<longleftrightarrow> s' = s \<and> zt_Get Z (vouchers s) d = map_option ZVoucher v"
  by (cases "zt_Get Z (vouchers s) d"; cases "the (zt_Get Z (vouchers s) d)"; cases v)
    (auto simp: GetVoucher_def zbind_def zgets_def ztree_def zret_def zpanic_def)

text \<open>A voucher made on first use: where the denom was free, so nothing is owed under it.\<close>

lemma new_voucher_solvent:
  fixes Z :: "('t, 'r, 'm, 'x) zenv"
  assumes W: "world_ok Z coins" and free: "zt_Get Z (vouchers s) d = None"
    and new: "same_holdings Z (ext s) x" "\<And>k u. reg_Get Z (ext s) k = Some u \<Longrightarrow> reg_Get Z x k = Some u"
    and scale: "isIBCTokenDenom d \<or> v_originDecimals v = 0"
  shows "solvent Z P coins s (s\<lparr>ext := x, vouchers := zt_Set Z (vouchers s) d (ZVoucher v)\<rparr>)"
proof (rule solvent_world [OF W])
  have set: "zt_Get Z (zt_Set Z m d v) k = (if k = d then Some v else zt_Get Z m k)" for m v k
    using world_ops(1) [OF W] by (simp add: tree_ok_def)
  let ?s = "s\<lparr>ext := x, vouchers := zt_Set Z (vouchers s) d (ZVoucher v)\<rparr>"
  have v: "voucher_of Z ?s k = (if k = d then Some v else voucher_of Z s k)" for k by (simp add: voucher_of_def set)
  have none: "voucher_of Z s d = None" using free by (simp add: voucher_of_def)
  show "grows Z s ?s" using new(2) none by (auto simp: grows_def v)
  show "holding Z (ext s) P a \<le> holding Z (ext ?s) P a" for a
    using new(1) by (simp add: same_holdings_def holding_def split: asset.splits)
  have zero: "ScaleExp Z v = 0" if "v_originDecimals v = 0"
    using that world_ops(9) [OF W, of "v_token v"] by (simp add: ScaleExp_def Let_def)
  show "voucher_of Z s k = Some u \<or> ScaleExp Z u = 0" if "\<not> isIBCTokenDenom k" "voucher_of Z ?s k = Some u" for k u
    using that scale zero by (auto simp: v split: if_splits)
qed simp_all

lemma getOrCreate_solvent:
  fixes Z :: "('t, 'r, 'm, 'x) zenv"
  assumes W: "world_ok Z coins" and scale: "isIBCTokenDenom d \<or> decimals = 0"
  shows "solvent_z Z P coins all (getOrCreateVoucher Z rlm d name symbol decimals)"
proof (rule solvent.zI)
  fix s s' :: "('m, 'x) zstate" and r
  assume run: "getOrCreateVoucher Z rlm d name symbol decimals s = (r, s')" and g: "good all r"
  show "solvent Z P coins s s'"
  proof (cases "s' = s")
    case True
    then show ?thesis by (simp add: solvent.refl)
  next
    case False
    let ?name = "if name = [] then d else name" and ?symbol = "sanitizeVoucherSymbol Z symbol d"
    let ?decimals = "if scaleExpForDecimals decimals > 0 then canonicalDecimals else int (unat decimals)"
    obtain t x x' where made: "tok_New Z ?name ?symbol ?decimals (ext s) = Some (t, x)"
        "reg_Register Z t (trimIBCPrefix d) x = Some x'"
      and free: "zt_Get Z (vouchers s) d = None"
      and s': "s' = s\<lparr>ext := x'\<rparr> \<or>
        s' = s\<lparr>ext := x', vouchers := zt_Set Z (vouchers s) d (ZVoucher \<lparr>v_token = t, v_originDecimals = decimals\<rparr>)\<rparr>"
      using run False
      by (auto simp: getOrCreateVoucher_def zbind_def zseq_def zgets_def zret_def zfail_def zpanic_def zfatal_def zmodify_def
          GetVoucher_def ztree_def SetVoucher_def zassertIsRlmCurrent_def Let_def
          split: prod.splits option.splits zres.splits if_splits)
    note new = world_new [OF W made]
    from s' show ?thesis
    proof
      assume "s' = s\<lparr>ext := x'\<rparr>"
      then show ?thesis using new
        by (auto intro!: solvent_ext [OF W] simp: same_holdings_def holding_def split: asset.splits)
    next
      assume "s' = s\<lparr>ext := x', vouchers := zt_Set Z (vouchers s) d (ZVoucher \<lparr>v_token = t, v_originDecimals = decimals\<rparr>)\<rparr>"
      then show ?thesis using new scale by (simp add: new_voucher_solvent [OF W free])
    qed
  qed
qed

lemma mintVoucher_solvent:
  assumes "world_ok Z coins" "isIBCTokenDenom d \<or> decimals = 0"
  shows "solvent_z Z P coins all (mintVoucher Z rlm d name symbol decimals to a)"
  unfolding mintVoucher_def by (intro solvent.z_bind getOrCreate_solvent MintScaled_solvent assms)

section \<open>Moving slots and locked amounts\<close>

lemma append_sep: "c \<notin> set a \<Longrightarrow> c \<notin> set a' \<Longrightarrow> a @ c # b = a' @ c # b' \<longleftrightarrow> a = a' \<and> b = b'"
proof (induction a arbitrary: a')
  case Nil
  then show ?case by (cases a') auto
next
  case (Cons x a)
  then show ?case by (cases a') auto
qed

lemma hex_no_slash: "CHR ''/'' \<notin> set (EncodeToString bz)"
proof (induction bz rule: EncodeToString.induct)
  case (2 b bs)
  have "n < 16 \<Longrightarrow> hex_digit n \<noteq> CHR ''/''" for n
  proof
    assume "n < 16" "hex_digit n = CHR ''/''"
    then have "of_char (hex_digit n) = (47 :: nat)" by simp
    then show False using \<open>n < 16\<close> by (auto simp: hex_digit_def split: if_splits)
  qed
  moreover have "unat b div 16 < 16" by (simp add: less_mult_imp_div_less)
  moreover have "unat b mod 16 < 16" by simp
  ultimately show ?case using 2 by (metis EncodeToString.simps(2) set_ConsD)
qed simp

lemma digits_no_slash: "CHR ''/'' \<notin> set (Height.digits n)"
  using digits_no_sep [of "CHR ''/''" n] by auto

lemma id_String_inject: "id_String c = id_String c' \<longleftrightarrow> c = c'"
  unfolding id_String_def FormatUint_inject by (metis unat_hop_word word_unat_eq_iff)

lemma slot_key_inject: "slot_key k = slot_key k' \<longleftrightarrow> k = k'"
proof -
  have no: "CHR ''/'' \<notin> set (id_String c)" "CHR ''/'' \<notin> set (ToString p)" for c p
    using digits_no_slash by (simp_all add: id_String_def FormatUint_def ToString_digits)
  show ?thesis
    by (cases k; cases k')
      (simp add: slot_key_def ChannelBalanceKeyV2_def append_sep no id_String_inject ToString_inject hex_no_slash)
qed


definition set_slot :: "('t, 'r, 'm, 'x) zenv \<Rightarrow> slot \<Rightarrow> uint256 \<Rightarrow> ('m, 'x) zstate \<Rightarrow> ('m, 'x) zstate" where
  "set_slot Z k u s = s\<lparr>channelBalanceV2 := zt_Set Z (channelBalanceV2 s) (slot_key k) (ZUint u)\<rparr>"

definition set_locked :: "('t, 'r, 'm, 'x) zenv \<Rightarrow> string \<Rightarrow> uint256 \<Rightarrow> ('m, 'x) zstate \<Rightarrow> ('m, 'x) zstate" where
  "set_locked Z d u s = s\<lparr>lockedTokenAmounts := zt_Set Z (lockedTokenAmounts s) d (ZUint u)\<rparr>"

lemma set_amounts:
  assumes "tree_ok Z"
  shows "slot_amount Z (set_slot Z k u s) = (slot_amount Z s)(k := int (uval u))"
    "locked_amount Z (set_slot Z k u s) = locked_amount Z s"
    "slot_amount Z (set_locked Z d u s) = slot_amount Z s"
    "locked_amount Z (set_locked Z d u s) = (locked_amount Z s)(d := int (uval u))"
  using assms
  by (auto simp: slot_amount_def locked_amount_def set_slot_def set_locked_def uint_at_def tree_ok_def slot_key_inject)

lemma set_views [simp]:
  "ext (set_slot Z k u s) = ext s" "ext (set_locked Z d u s) = ext s"
  "voucher_of Z (set_slot Z k u s) = voucher_of Z s" "voucher_of Z (set_locked Z d u s) = voucher_of Z s"
  "asset_of Z (set_slot Z k u s) = asset_of Z s" "asset_of Z (set_locked Z d u s) = asset_of Z s"
  "known Z coins (set_slot Z k u s) = known Z coins s" "known Z coins (set_locked Z d u s) = known Z coins s"
  by (auto simp: set_slot_def set_locked_def voucher_of_def asset_of_def known_def fun_eq_iff)

definition stops :: "'a zres \<Rightarrow> bool" where
  "stops r \<longleftrightarrow> (\<exists>e. r = Err e) \<or> (\<exists>e. r = Pan e)"

lemma uval_amount: "0 \<le> n \<Longrightarrow> n < 2 ^ 63 \<Longrightarrow> int (uval (NewUint (word_of_int n))) = n"
  by (simp add: uint_word_of_int_eq take_bit_int_eq_self flip: uint_nat)

lemma add_run: "AddOverflow u v = (w, False) \<Longrightarrow> int (uval w) = int (uval u) + int (uval v)"
  using AddOverflow_eq [of u v] by simp

lemma sub_run: "SubOverflow u v = (w, False) \<Longrightarrow> int (uval w) = int (uval u) - int (uval v)"
proof -
  assume w: "SubOverflow u v = (w, False)"
  then have le: "uval v \<le> uval u" using SubOverflow_eq(1) [of u v] by simp
  have "2 ^ 256 + uval u - uval v = 2 ^ 256 + (uval u - uval v)" by (rule Nat.add_diff_assoc [OF le, symmetric])
  moreover have "(2 ^ 256 + (uval u - uval v)) mod 2 ^ 256 = uval u - uval v"
    by (simp only: mod_add_self1 mod_less [OF le_less_trans [OF diff_le_self uval_less]])
  ultimately have "uval w = uval u - uval v" using SubOverflow_eq(2) [of u v] unfolding w by (simp only: fst_conv)
  then show ?thesis using le by (simp add: of_nat_diff)
qed

text \<open>A read of an amount: the number of \<open>uint_at\<close>, where a missing entry is zero.\<close>

lemma amount_read:
  obtains "zbind (zgets (\<lambda>s. zt_Get Z (f s) key)) (ztree asUint) s = (Val None, s)" "uint_at Z (f s) key = 0"
  | u where "zbind (zgets (\<lambda>s. zt_Get Z (f s) key)) (ztree asUint) s = (Val (Some u), s)" "uint_at Z (f s) key = int (uval u)"
  | e where "zbind (zgets (\<lambda>s. zt_Get Z (f s) key)) (ztree asUint) s = (Pan e, s)"
proof (cases "zt_Get Z (f s) key")
  case None
  then show ?thesis using that(1) by (simp add: zbind_def zgets_def ztree_def zret_def uint_at_def)
next
  case (Some a)
  then show ?thesis using that(2,3)
    by (cases a) (simp_all add: zbind_def zgets_def ztree_def zret_def zpanic_def uint_at_def)
qed

lemma zbind_run:
  "m s = (Val x, s') \<Longrightarrow> zbind m k s = k x s'" "m s = (Err e, s') \<Longrightarrow> zbind m k s = (Err e, s')"
  "m s = (Pan e, s') \<Longrightarrow> zbind m k s = (Pan e, s')" "m s = (Fatal e, s') \<Longrightarrow> zbind m k s = (Fatal e, s')"
  by (simp_all add: zbind_def)

lemma SetChannelBalance_run:
  assumes "SetChannelBalanceV2 Z rlm (slot_key k) u s = (r, s')"
  shows "(r = Val () \<and> s' = set_slot Z k u s) \<or> (s' = s \<and> stops r)"
  using assms by (auto simp: SetChannelBalanceV2_def zbind_def zseq_def zmodify_def zassertIsRlmCurrent_def zret_def zpanic_def
      set_slot_def stops_def split: if_splits)

lemma increase_run:
  assumes run: "increaseChannelBalanceV2 Z rlm c p b q n s = (r, s')" and n: "0 \<le> n" "n < 2 ^ 63"
  shows "(r = Val () \<and> (\<exists>u. s' = set_slot Z (c, p, b, q) u s \<and> int (uval u) = slot_amount Z s (c, p, b, q) + n)) \<or>
    (s' = s \<and> stops r)"
proof -
  let ?k = "(c, p, b, q)"
  let ?next = "\<lambda>v. let (t, f) = AddOverflow v (NewUint (word_of_int n))
    in if f then zfail errChannelBalanceOverflow else SetChannelBalanceV2 Z rlm (slot_key ?k) t"
  have start: "zbind (GetChannelBalanceV2 Z (slot_key ?k)) (\<lambda>found. ?next (case found of None \<Rightarrow> Uint_Zero | Some u \<Rightarrow> u)) s = (r, s')"
    using run unfolding increaseChannelBalanceV2_def slot_key_def Let_def prod.case .
  have step: ?thesis if "?next v s = (r, s')" "int (uval v) = slot_amount Z s ?k" for v
  proof (cases "AddOverflow v (NewUint (word_of_int n))")
    case (Pair t f)
    then show ?thesis
      using that SetChannelBalance_run [of Z rlm ?k t s r s'] add_run [of v "NewUint (word_of_int n)" t] uval_amount [OF n]
      by (cases f) (auto simp: zfail_def stops_def)
  qed
  show ?thesis
  proof (rule amount_read [of Z channelBalanceV2 "slot_key ?k" s, folded GetChannelBalanceV2_def])
    assume "GetChannelBalanceV2 Z (slot_key ?k) s = (Val None, s)" "uint_at Z (channelBalanceV2 s) (slot_key ?k) = 0"
    then show ?thesis using start by (intro step [of Uint_Zero]) (simp_all add: zbind_run slot_amount_def)
  next
    fix u assume "GetChannelBalanceV2 Z (slot_key ?k) s = (Val (Some u), s)"
      "uint_at Z (channelBalanceV2 s) (slot_key ?k) = int (uval u)"
    then show ?thesis using start by (intro step [of u]) (simp_all add: zbind_run slot_amount_def)
  next
    fix e assume "GetChannelBalanceV2 Z (slot_key ?k) s = (Pan e, s)"
    then show ?thesis using start by (auto simp: zbind_run stops_def)
  qed
qed

lemma decrease_run:
  assumes run: "decreaseChannelBalanceV2 Z rlm c p b q n s = (r, s')" and n: "0 \<le> n" "n < 2 ^ 63"
  shows "(r = Val () \<and> (\<exists>u. s' = set_slot Z (c, p, b, q) u s \<and> int (uval u) = slot_amount Z s (c, p, b, q) - n)) \<or>
    (s' = s \<and> stops r)"
proof -
  let ?k = "(c, p, b, q)"
  let ?next = "\<lambda>found. case found of None \<Rightarrow> zfail errChannelBalanceUnderflow
    | Some v \<Rightarrow> if Uint_Cmp v (NewUint (word_of_int n)) < 0 then zfail errChannelBalanceUnderflow
        else let (t, f) = SubOverflow v (NewUint (word_of_int n))
             in if f then zfail errChannelBalanceUnderflow else SetChannelBalanceV2 Z rlm (slot_key ?k) t"
  have start: "zbind (GetChannelBalanceV2 Z (slot_key ?k)) ?next s = (r, s')"
    using run unfolding decreaseChannelBalanceV2_def slot_key_def Let_def prod.case .
  show ?thesis
  proof (rule amount_read [of Z channelBalanceV2 "slot_key ?k" s, folded GetChannelBalanceV2_def])
    assume "GetChannelBalanceV2 Z (slot_key ?k) s = (Val None, s)"
    then show ?thesis using start by (auto simp: zbind_run zfail_def stops_def)
  next
    fix v assume v: "GetChannelBalanceV2 Z (slot_key ?k) s = (Val (Some v), s)"
      "uint_at Z (channelBalanceV2 s) (slot_key ?k) = int (uval v)"
    obtain t f where tf: "SubOverflow v (NewUint (word_of_int n)) = (t, f)" by fastforce
    show ?thesis
      using start v tf SetChannelBalance_run [of Z rlm ?k t s r s'] sub_run [of v "NewUint (word_of_int n)" t] uval_amount [OF n]
      by (cases f) (auto simp: zbind_run zfail_def stops_def slot_amount_def split: if_splits)
  next
    fix e assume "GetChannelBalanceV2 Z (slot_key ?k) s = (Pan e, s)"
    then show ?thesis using start by (auto simp: zbind_run stops_def)
  qed
qed

lemma AddLocked_run:
  assumes run: "AddLockedTokenAmount Z rlm d a s = (r, s')"
  shows "(r = Val () \<and> (\<exists>u. s' = set_locked Z d u s \<and> int (uval u) = locked_amount Z s d + int (uval a))) \<or> (s' = s \<and> stops r)"
proof (cases "IsCurrent rlm")
  case False
  then show ?thesis using run
    by (auto simp: AddLockedTokenAmount_def zseq_def zbind_def zassertIsRlmCurrent_def zpanic_def stops_def)
next
  case cur: True
  let ?next = "\<lambda>v. let (t, f) = AddOverflow v a
    in if f then zpanic errLockedTokenAmountOverflow
       else zmodify (\<lambda>s. s\<lparr>lockedTokenAmounts := zt_Set Z (lockedTokenAmounts s) d (ZUint t)\<rparr>)"
  have start: "zbind (GetLockedTokenAmount Z d) (\<lambda>found. ?next (case found of None \<Rightarrow> Uint_Zero | Some l \<Rightarrow> l)) s = (r, s')"
    using run cur by (simp add: AddLockedTokenAmount_def zseq_def zassertIsRlmCurrent_def zbind_run(1) [of "zret ()"] zret_def)
  have step: ?thesis if "?next v s = (r, s')" "int (uval v) = locked_amount Z s d" for v
    using that add_run [of v a] by (auto simp: zpanic_def zmodify_def set_locked_def stops_def split: prod.splits if_splits)
  show ?thesis
  proof (rule amount_read [of Z lockedTokenAmounts d s, folded GetLockedTokenAmount_def])
    assume "GetLockedTokenAmount Z d s = (Val None, s)" "uint_at Z (lockedTokenAmounts s) d = 0"
    then show ?thesis using start by (intro step [of Uint_Zero]) (simp_all add: zbind_run locked_amount_def)
  next
    fix u assume "GetLockedTokenAmount Z d s = (Val (Some u), s)" "uint_at Z (lockedTokenAmounts s) d = int (uval u)"
    then show ?thesis using start by (intro step [of u]) (simp_all add: zbind_run locked_amount_def)
  next
    fix e assume "GetLockedTokenAmount Z d s = (Pan e, s)"
    then show ?thesis using start by (auto simp: zbind_run stops_def)
  qed
qed

end
