(* ===== verification/ZkgmSolvent.thy ===== *)
theory ZkgmSolvent
  imports ZkgmCustody
begin

text \<open>
  Every token order keeps the proxy solvent: escrowing takes as much as it books, releasing, refunding and burning
  book what they give up, and minting owes nothing here. From the orders this carries over to batches, forwards and
  calls, to the callbacks of the host and the public functions, and so to every state the application can reach.
\<close>

section \<open>A slot and a holding move together\<close>

lemma owed_stable:
  assumes "world_ok Z coins" "grows Z s s'"
    and "\<And>k. slot_amount Z s' k \<noteq> 0 \<Longrightarrow> known Z coins s (slot_denom k)"
    and "\<And>d. locked_amount Z s' d \<noteq> 0 \<Longrightarrow> known Z coins s d"
  shows "owed Z s' a =
     total (\<lambda>k. if asset_of Z s (slot_denom k) = Some a then slot_amount Z s' k else 0) +
     total (\<lambda>d. if asset_of Z s d = Some a then locked_amount Z s' d else 0)"
proof -
  have "(\<lambda>k. if asset_of Z s' (slot_denom k) = Some a then slot_amount Z s' k else 0) =
      (\<lambda>k. if asset_of Z s (slot_denom k) = Some a then slot_amount Z s' k else 0)"
  proof
    show "(if asset_of Z s' (slot_denom k) = Some a then slot_amount Z s' k else 0) =
      (if asset_of Z s (slot_denom k) = Some a then slot_amount Z s' k else 0)" for k
      by (cases "slot_amount Z s' k = 0") (simp_all add: asset_stable(1) [OF assms(1,2) assms(3)])
  qed
  moreover have "(\<lambda>d. if asset_of Z s' d = Some a then locked_amount Z s' d else 0) =
      (\<lambda>d. if asset_of Z s d = Some a then locked_amount Z s' d else 0)"
  proof
    show "(if asset_of Z s' d = Some a then locked_amount Z s' d else 0) =
      (if asset_of Z s d = Some a then locked_amount Z s' d else 0)" for d
      by (cases "locked_amount Z s' d = 0") (simp_all add: asset_stable(1) [OF assms(1,2) assms(4)])
  qed
  ultimately show ?thesis by (simp only: owed_def)
qed

lemma total_filtered:
  assumes "finite {k. f k \<noteq> 0}"
  shows "total (\<lambda>j. if A j then (f(k := f k + n)) j else 0) = total (\<lambda>j. if A j then f j else 0) + (if A k then n else 0)"
proof -
  let ?g = "\<lambda>j. if A j then f j else 0"
  have "(\<lambda>j. if A j then (f(k := f k + n)) j else 0) = ?g(k := if A k then f k + n else 0)" by auto
  moreover have "finite {j. ?g j \<noteq> 0}" by (rule finite_subset [OF _ assms]) auto
  ultimately show ?thesis using total_update [of ?g k "if A k then f k + n else 0"] by (cases "A k") simp_all
qed

lemma books_move:
  assumes W: "world_ok Z coins" and g: "grows Z s s'" and b: "asset_of Z s (slot_denom k) = Some b"
    and known: "n \<noteq> 0 \<or> l \<noteq> 0 \<Longrightarrow> known Z coins s (slot_denom k)"
    and slots: "slot_amount Z s' = (slot_amount Z s)(k := slot_amount Z s k + n)"
    and locks: "locked_amount Z s' = (locked_amount Z s)(slot_denom k := locked_amount Z s (slot_denom k) + l)"
    and scale: "\<And>d v. \<not> isIBCTokenDenom d \<Longrightarrow> voucher_of Z s' d = Some v \<Longrightarrow> voucher_of Z s d = Some v \<or> ScaleExp Z v = 0"
    and B: "books_ok Z coins s"
  shows "books_ok Z coins s'" "owed Z s' a = owed Z s a + (if a = b then n + l else 0)"
proof -
  have fin: "finite {k. slot_amount Z s k \<noteq> 0}" "finite {d. locked_amount Z s d \<noteq> 0}"
    using B by (auto simp: books_ok_def)
  have bk: "slot_amount Z s j \<noteq> 0 \<Longrightarrow> known Z coins s (slot_denom j)" for j
    using B unfolding books_ok_def by blast
  have ks: "known Z coins s (slot_denom j)" if "slot_amount Z s' j \<noteq> 0" for j
    using that known bk [of j] by (cases "j = k"; cases "n = 0") (simp_all add: slots)
  have kl: "known Z coins s d" if "locked_amount Z s' d \<noteq> 0" for d
    using B that known by (cases "d = slot_denom k"; cases "l = 0") (auto simp: books_ok_def locks)
  have "owed Z s' a =
     total (\<lambda>k. if asset_of Z s (slot_denom k) = Some a then slot_amount Z s' k else 0) +
     total (\<lambda>d. if asset_of Z s d = Some a then locked_amount Z s' d else 0)"
    using ks kl by (rule owed_stable [OF W g])
  also have "\<dots> = owed Z s a + (if a = b then n + l else 0)"
    unfolding slots locks owed_def total_filtered [OF fin(1)] total_filtered [OF fin(2)] b by auto
  finally show "owed Z s' a = owed Z s a + (if a = b then n + l else 0)" .
  show "books_ok Z coins s'"
    unfolding books_ok_def
  proof (intro conjI allI impI)
    show "finite {k. slot_amount Z s' k \<noteq> 0}" unfolding slots
      by (rule finite_subset [of _ "insert k {k. slot_amount Z s k \<noteq> 0}"]) (use fin in auto)
    show "finite {d. locked_amount Z s' d \<noteq> 0}" unfolding locks
      by (rule finite_subset [of _ "insert (slot_denom k) {d. locked_amount Z s d \<noteq> 0}"]) (use fin in auto)
    show "known Z coins s' (slot_denom j)" if "slot_amount Z s' j \<noteq> 0" for j by (rule asset_stable(2) [OF W g ks [OF that]])
    show "known Z coins s' d" if "locked_amount Z s' d \<noteq> 0" for d by (rule asset_stable(2) [OF W g kl [OF that]])
    show "ScaleExp Z v = 0" if "\<not> isIBCTokenDenom d" "voucher_of Z s' d = Some v" for d v
      using scale [OF that] that(1) B unfolding books_ok_def by blast
  qed
qed

lemma solvent_move:
  assumes W: "world_ok Z coins" and g: "grows Z s s'" and b: "asset_of Z s (slot_denom k) = Some b"
    and known: "books_ok Z coins s \<Longrightarrow> n \<noteq> 0 \<or> l \<noteq> 0 \<Longrightarrow> known Z coins s (slot_denom k)"
    and slots: "slot_amount Z s' = (slot_amount Z s)(k := slot_amount Z s k + n)"
    and locks: "locked_amount Z s' = (locked_amount Z s)(slot_denom k := locked_amount Z s (slot_denom k) + l)"
    and scale: "\<And>d v. \<not> isIBCTokenDenom d \<Longrightarrow> voucher_of Z s' d = Some v \<Longrightarrow> voucher_of Z s d = Some v \<or> ScaleExp Z v = 0"
    and hold: "\<And>a. holding Z (ext s) P a + (if a = b then n + l else 0) \<le> holding Z (ext s') P a"
  shows "solvent Z P coins s s'"
  unfolding solvent_def
proof
  assume B: "books_ok Z coins s"
  have "owed Z s' a = owed Z s a + (if a = b then n + l else 0)" for a
    by (rule books_move(2) [OF W g b known [OF B] slots locks scale B])
  then have "surplus Z P s a \<le> surplus Z P s' a" for a using hold [of a] unfolding surplus_def by (cases "a = b") simp_all
  moreover have "books_ok Z coins s'" by (rule books_move(1) [OF W g b known [OF B] slots locks scale B])
  ultimately show "books_ok Z coins s' \<and> (\<forall>a. surplus Z P s a \<le> surplus Z P s' a)" by blast
qed

section \<open>What the custody operations do to the proxy's holdings\<close>

text \<open>A state that differs in the world only, where the proxy's holding of one asset changed.\<close>

definition world_moved ::
    "('t, 'r, 'm, 'x) zenv \<Rightarrow> address \<Rightarrow> ('m, 'x) zstate \<Rightarrow> ('m, 'x) zstate \<Rightarrow> 't asset option \<Rightarrow> int \<Rightarrow> bool" where
  "world_moved Z P s s' b n \<longleftrightarrow>
     (\<exists>x. s' = s\<lparr>ext := x\<rparr> \<and> reg_Get Z x = reg_Get Z (ext s) \<and>
        (\<forall>a. holding Z x P a = holding Z (ext s) P a + (if b = Some a then n else 0)))"

lemma world_moved_none: "world_moved Z P s s b 0" "world_moved Z P s s None n"
  by (auto simp: world_moved_def intro!: exI [of _ "ext s"])

lemma zforeign_moved:
  assumes "token_op Z op t change \<and> b = Tok t \<or> coin_op Z op d change \<and> b = Coin d" "zforeign op s = (r, s')"
  shows "(r = Val () \<and> world_moved Z P s s' (Some b) (change P)) \<or> (stops r \<and> world_moved Z P s s' None 0)"
proof -
  obtain x f where f: "op (ext s) = (f, x)" "s' = s\<lparr>ext := x\<rparr>"
    "(f = Fine \<and> r = Val ()) \<or> (f \<noteq> Fine \<and> (\<forall>u. r \<noteq> Val u) \<and> (\<forall>e. r \<noteq> Fatal e))"
    using assms(2) by (rule zforeign_run)
  have "reg_Get Z x = reg_Get Z (ext s) \<and> (\<forall>a. holding Z x P a = holding Z (ext s) P a + (if f = Fine \<and> a = b then change P else 0))"
    using assms(1)
  proof
    assume t: "token_op Z op t change \<and> b = Tok t"
    then show ?thesis using token_op_holding [of Z op t change, OF _ f(1)] by simp
  next
    assume c: "coin_op Z op d change \<and> b = Coin d"
    then show ?thesis using coin_op_holding [of Z op d change, OF _ f(1)] by simp
  qed
  then show ?thesis using f(2,3) by (cases r) (auto simp: world_moved_def stops_def)
qed

text \<open>The amount of the ledger for an amount of a denom.\<close>

definition ledger_of :: "('t, 'r, 'm, 'x) zenv \<Rightarrow> ('m, 'x) zstate \<Rightarrow> string \<Rightarrow> uint256 \<Rightarrow> scale_error + int" where
  "ledger_of Z s d a = (case voucher_of Z s d of Some v \<Rightarrow> ToLedgerAmount Z v a | None \<Rightarrow> amountInt64 a)"

lemma ledger_range: "ledger_of Z s d a = Inr n \<Longrightarrow> 0 \<le> n \<and> n < 2 ^ 63"
  by (auto simp: ledger_of_def ToLedgerAmount_def amountInt64_def ScaleDown_exact split: option.splits)

text \<open>A denom that is not a voucher's has ledger amounts equal to its amounts.\<close>

definition plain_scale :: "('t, 'r, 'm, 'x) zenv \<Rightarrow> ('m, 'x) zstate \<Rightarrow> bool" where
  "plain_scale Z s \<longleftrightarrow> (\<forall>d v. \<not> isIBCTokenDenom d \<longrightarrow> voucher_of Z s d = Some v \<longrightarrow> ScaleExp Z v = 0)"

lemma ledger_plain: "plain_scale Z s \<Longrightarrow> \<not> isIBCTokenDenom d \<Longrightarrow> ledger_of Z s d a = amountInt64 a"
  by (auto simp: plain_scale_def ledger_of_def ToLedgerAmount_def amountInt64_def split: option.splits)

lemma GetVoucher_cases:
  obtains "GetVoucher Z d s = (Val None, s)" "voucher_of Z s d = None"
  | v where "GetVoucher Z d s = (Val (Some v), s)" "voucher_of Z s d = Some v"
  | e where "GetVoucher Z d s = (Pan e, s)"
proof (cases "zt_Get Z (vouchers s) d")
  case None
  then show ?thesis using that(1) by (simp add: GetVoucher_def zbind_def zgets_def ztree_def zret_def voucher_of_def)
next
  case (Some a)
  then show ?thesis using that(2,3)
    by (cases a) (simp_all add: GetVoucher_def zbind_def zgets_def ztree_def zret_def zpanic_def voucher_of_def)
qed

lemma zscale_run: "zscale r s = (res, s') \<Longrightarrow> s' = s \<and> ((\<exists>n. r = Inr n \<and> res = Val n) \<or> stops res)"
  by (auto simp: zscale_def zret_def zpanic_def zfail_def stops_def split: sum.splits scale_error.splits)

lemma ledgerAmountOf_run:
  assumes "ledgerAmountOf Z d a s = (r, s')"
  shows "s' = s \<and> ((\<exists>n. r = Val n \<and> ledger_of Z s d a = Inr n) \<or> stops r)"
proof (rule GetVoucher_cases [of Z d s])
  assume "GetVoucher Z d s = (Val None, s)" "voucher_of Z s d = None"
  then show ?thesis using assms zscale_run [of "amountInt64 a" s r s'] by (auto simp: ledgerAmountOf_def zbind_run ledger_of_def)
next
  fix v assume "GetVoucher Z d s = (Val (Some v), s)" "voucher_of Z s d = Some v"
  then show ?thesis using assms zscale_run [of "ToLedgerAmount Z v a" s r s'] by (auto simp: ledgerAmountOf_def zbind_run ledger_of_def)
next
  fix e assume "GetVoucher Z d s = (Pan e, s)"
  then show ?thesis using assms by (auto simp: ledgerAmountOf_def zbind_run stops_def)
qed

text \<open>Moving and burning vouchers.\<close>

lemma scaled_run:
  assumes "zbind (zscale (ToLedgerAmount Z v a)) (\<lambda>n. zforeign (op n)) s = (r, s')"
    and "\<And>n. token_op Z (op n) (v_token v) (change n)"
  shows "(\<exists>n. r = Val () \<and> ToLedgerAmount Z v a = Inr n \<and> world_moved Z P s s' (Some (Tok (v_token v))) (change n P)) \<or>
    (stops r \<and> world_moved Z P s s' None 0)"
proof (cases "ToLedgerAmount Z v a")
  case (Inl e)
  then show ?thesis using assms(1) zscale_run [of "ToLedgerAmount Z v a" s]
    by (cases "zscale (ToLedgerAmount Z v a) s") (auto simp: zbind_def stops_def world_moved_none)
next
  case (Inr n)
  then show ?thesis using assms(1) zforeign_moved [of Z "op n" "v_token v" "change n" "Tok (v_token v)"] assms(2)
    by (auto simp: zscale_def zbind_run(1) [of "zret n"] zret_def)
qed

lemma needVoucher_run:
  assumes run: "needVoucher Z d (\<lambda>v. zbind (zscale (ToLedgerAmount Z v a)) (\<lambda>n. zforeign (op v n))) s = (r, s')"
    and op: "\<And>v n. token_op Z (op v n) (v_token v) (change n)"
  shows "(\<exists>v n. r = Val () \<and> voucher_of Z s d = Some v \<and> ledger_of Z s d a = Inr n \<and>
      world_moved Z P s s' (Some (Tok (v_token v))) (change n P)) \<or> (stops r \<and> world_moved Z P s s' None 0)"
proof (rule GetVoucher_cases [of Z d s])
  assume "GetVoucher Z d s = (Val None, s)"
  then show ?thesis using run by (auto simp: needVoucher_def zbind_run zfail_def stops_def world_moved_none)
next
  fix v assume v: "GetVoucher Z d s = (Val (Some v), s)" "voucher_of Z s d = Some v"
  then have "zbind (zscale (ToLedgerAmount Z v a)) (\<lambda>n. zforeign (op v n)) s = (r, s')"
    using run by (simp add: needVoucher_def zbind_run)
  from scaled_run [OF this op] show ?thesis using v by (auto simp: ledger_of_def)
next
  fix e assume "GetVoucher Z d s = (Pan e, s)"
  then show ?thesis using run by (auto simp: needVoucher_def zbind_run stops_def world_moved_none)
qed

lemma transferVoucher_run:
  assumes "world_ok Z coins" "transferVoucher Z d src dst a s = (r, s')"
  shows "(\<exists>v n. r = Val () \<and> voucher_of Z s d = Some v \<and> ledger_of Z s d a = Inr n \<and>
      world_moved Z P s s' (Some (Tok (v_token v))) (transfer src dst n P)) \<or> (stops r \<and> world_moved Z P s s' None 0)"
  using assms(2) unfolding transferVoucher_def TransferScaled_def
  by (rule needVoucher_run) (rule world_ops(4) [OF assms(1)])

lemma burnVoucher_run:
  assumes "world_ok Z coins" "burnVoucher Z d holder a s = (r, s')"
  shows "(\<exists>v n. r = Val () \<and> voucher_of Z s d = Some v \<and> ledger_of Z s d a = Inr n \<and>
      world_moved Z P s s' (Some (Tok (v_token v))) (if P = holder then - n else 0)) \<or> (stops r \<and> world_moved Z P s s' None 0)"
  using assms(2) unfolding burnVoucher_def BurnScaled_def
  by (rule needVoucher_run) (rule world_ops(3) [OF assms(1)])


text \<open>Registered tokens: the balance is read before and after, and the difference has to be the amount.\<close>

lemma guarded_run:
  assumes run: "zbind (zscale (amountInt64 a)) (\<lambda>n. zbind (zderef ptr) (\<lambda>t.
      zbind (zgets (\<lambda>s. tok_BalanceOf Z (ext s) t P)) (\<lambda>b0. zseq (zforeign (op t n))
      (zbind (zgets (\<lambda>s. tok_BalanceOf Z (ext s) t P)) (\<lambda>b1. zguard (moved b0 b1 = n) e))))) s = (r, s')"
    and op: "\<And>t n. token_op Z (op t n) t (change n)"
    and moved: "\<And>n. change n P = 0 \<or> change n P = k n" "\<And>b0 c n. moved b0 (b0 + c) = n \<longleftrightarrow> c = k n"
  shows "(\<exists>t n. r = Val () \<and> ptr = Some t \<and> amountInt64 a = Inr n \<and> world_moved Z P s s' (Some (Tok t)) (k n)) \<or>
    (stops r \<and> world_moved Z P s s' None 0)"
proof (cases "amountInt64 a")
  case (Inl er)
  then show ?thesis using run zscale_run [of "amountInt64 a" s]
    by (cases "zscale (amountInt64 a) s") (auto simp: zbind_def stops_def world_moved_none)
next
  case n: (Inr n)
  show ?thesis
  proof (cases ptr)
    case None
    then show ?thesis using run n
      by (auto simp: zscale_def zbind_def zret_def zderef_def zpanic_def stops_def world_moved_none)
  next
    case (Some t)
    obtain f s1 where f: "zforeign (op t n) s = (f, s1)" by fastforce
    have rest: "(case f of Val _ \<Rightarrow> zguard (moved (tok_BalanceOf Z (ext s) t P) (tok_BalanceOf Z (ext s1) t P) = n) e s1
        | Err er \<Rightarrow> (Err er, s1) | Pan er \<Rightarrow> (Pan er, s1) | Fatal er \<Rightarrow> (Fatal er, s1)) = (r, s')"
      using run n Some f
      by (auto simp: zscale_def zbind_def zseq_def zret_def zderef_def zgets_def split: zres.splits)
    consider "f = Val ()" "world_moved Z P s s1 (Some (Tok t)) (change n P)" | "stops f" "world_moved Z P s s1 None 0"
      using zforeign_moved [of Z "op t n" t "change n" "Tok t"] op f by blast
    then show ?thesis
    proof cases
      case 1
      then obtain x where x: "s1 = s\<lparr>ext := x\<rparr>" "tok_BalanceOf Z x t P = tok_BalanceOf Z (ext s) t P + change n P"
        by (auto simp: world_moved_def holding_def dest: spec [of _ "Tok t"])
      show ?thesis
      proof (cases "moved (tok_BalanceOf Z (ext s) t P) (tok_BalanceOf Z (ext s1) t P) = n")
        case True
        then have "change n P = k n" using x moved(2) [of "tok_BalanceOf Z (ext s) t P" "change n P" n] by simp
        then show ?thesis using rest 1 True Some n by (auto simp: zguard_def zret_def)
      next
        case False
        then have "s' = s1" "stops r" using rest 1 by (auto simp: zguard_def zfail_def stops_def)
        moreover have "change n P \<noteq> k n"
          using False x moved(2) [of "tok_BalanceOf Z (ext s) t P" "change n P" n] by simp
        then have "change n P = 0" using moved(1) [of n] by simp
        then have "world_moved Z P s s1 None 0" using 1(2) by (auto simp: world_moved_def)
        ultimately show ?thesis by simp
      qed
    next
      case 2
      then show ?thesis using rest by (auto simp: stops_def)
    qed
  qed
qed

lemma GRC20_unescrow_run:
  assumes "world_ok Z coins" "localGRC20Unescrow Z rlm ptr to a s = (r, s')" "Address rlm = P"
  shows "(\<exists>t n. r = Val () \<and> ptr = Some t \<and> amountInt64 a = Inr n \<and> world_moved Z P s s' (Some (Tok t)) (- n)) \<or>
    (stops r \<and> world_moved Z P s s' None 0)"
  using assms(2,3) unfolding localGRC20Unescrow_def
  by (intro guarded_run [where change = "transfer P to" and k = uminus and moved = "\<lambda>b0 b1. b0 - b1"
        and op = "\<lambda>t. teller_Transfer Z t P to" and e = errInvalidTokenOrderTransferAmount and ptr = ptr and a = a])
    (auto simp: transfer_def intro: world_ops(5) [OF assms(1)])

lemma GRC20_escrow_run:
  assumes "world_ok Z coins" "localGRC20Escrow Z rlm ptr sender a s = (r, s')" "Address rlm = P"
  shows "(\<exists>t n. r = Val () \<and> ptr = Some t \<and> amountInt64 a = Inr n \<and> world_moved Z P s s' (Some (Tok t)) n) \<or>
    (stops r \<and> world_moved Z P s s' None 0)"
  using assms(2,3) unfolding localGRC20Escrow_def
  by (intro guarded_run [where change = "transfer sender P" and k = "\<lambda>n. n" and moved = "\<lambda>b0 b1. b1 - b0"
        and op = "\<lambda>t. teller_TransferFrom Z t P sender P" and e = errInvalidTokenOrderTransferAmount and ptr = ptr and a = a])
    (auto simp: transfer_def intro: world_ops(6) [OF assms(1)])

lemma sendNative_run:
  assumes "world_ok Z coins" "sendNative Z rlm d to a s = (r, s')" "Address rlm = P" "IsCurrent rlm"
  shows "(\<exists>n. r = Val () \<and> amountInt64 a = Inr n \<and> world_moved Z P s s' (Some (Coin d)) (transfer P to n P)) \<or>
    (stops r \<and> world_moved Z P s s' None 0)"
proof (cases "amountInt64 a")
  case (Inl er)
  then show ?thesis using assms(2) zscale_run [of "amountInt64 a" s]
    by (cases "zscale (amountInt64 a) s") (auto simp: sendNative_def zbind_def stops_def world_moved_none)
next
  case n: (Inr n)
  obtain f s1 where f: "zforeign (bank_SendCoins Z P to d n) s = (f, s1)" by fastforce
  then have "(r, s') = (f, s1)" using assms n
    by (cases f) (auto simp: sendNative_def zscale_def zbind_def zseq_def zret_def zassertIsRlmCurrent_def)
  moreover have "(f = Val () \<and> world_moved Z P s s1 (Some (Coin d)) (transfer P to n P)) \<or> (stops f \<and> world_moved Z P s s1 None 0)"
    by (rule zforeign_moved [where change = "transfer P to n" and d = d, OF disjI2 f]) (simp add: world_ops(8) [OF assms(1)])
  ultimately show ?thesis using n by auto
qed

section \<open>Custody\<close>

lemma unescrow_run:
  assumes W: "world_ok Z coins" and run: "localTokenUnescrow Z rlm d to a s = (r, s')"
    and rlm: "Address rlm = P" "IsCurrent rlm" and plain: "plain_scale Z s"
  shows "(\<exists>b n m. r = Val () \<and> asset_of Z s d = Some b \<and> ledger_of Z s d a = Inr n \<and> - n \<le> m \<and>
      world_moved Z P s s' (Some b) m) \<or> (stops r \<and> world_moved Z P s s' None 0)"
proof (cases "isIBCTokenDenom d")
  case True
  then have "transferVoucher Z d P to a s = (r, s')"
    using run rlm by (simp add: localTokenUnescrow_def zbind_def zgets_def getTokenType_def)
  from transferVoucher_run [OF W this, of P] show ?thesis
  proof
    assume "\<exists>v n. r = Val () \<and> voucher_of Z s d = Some v \<and> ledger_of Z s d a = Inr n \<and>
      world_moved Z P s s' (Some (Tok (v_token v))) (transfer P to n P)"
    then obtain v n where v: "r = Val ()" "voucher_of Z s d = Some v" "ledger_of Z s d a = Inr n"
      "world_moved Z P s s' (Some (Tok (v_token v))) (transfer P to n P)" by blast
    moreover have "asset_of Z s d = Some (Tok (v_token v))" using v(2) True by (simp add: asset_of_def)
    moreover have "- n \<le> transfer P to n P" using ledger_range [OF v(3)] by (simp add: transfer_def)
    ultimately show ?thesis by blast
  qed simp
next
  case ibc: False
  note lp = ledger_plain [OF plain ibc]
  show ?thesis
  proof (cases "reg_Get Z (ext s) d")
    case None
    then have "sendNative Z rlm d to a s = (r, s')"
      using run ibc by (simp add: localTokenUnescrow_def zbind_def zgets_def getTokenType_def)
    from sendNative_run [OF W this rlm] show ?thesis
    proof
      assume "\<exists>n. r = Val () \<and> amountInt64 a = Inr n \<and> world_moved Z P s s' (Some (Coin d)) (transfer P to n P)"
      then obtain n where n: "r = Val ()" "ledger_of Z s d a = Inr n"
        "world_moved Z P s s' (Some (Coin d)) (transfer P to n P)" using lp by auto
      moreover have "asset_of Z s d = Some (Coin d)" using ibc None by (simp add: asset_of_def)
      moreover have "- n \<le> transfer P to n P" using ledger_range [OF n(2)] by (simp add: transfer_def)
      ultimately show ?thesis by blast
    qed simp
  next
    case (Some t)
    then have "localGRC20Unescrow Z rlm (Some t) to a s = (r, s')"
      using run ibc by (simp add: localTokenUnescrow_def zbind_def zgets_def getTokenType_def)
    from GRC20_unescrow_run [OF W this rlm(1)] show ?thesis using ibc Some lp by (auto simp: asset_of_def)
  qed
qed

section \<open>Releasing\<close>

lemma zrun_Val:
  "zbind m k s = (Val y, s') \<longleftrightarrow> (\<exists>x s1. m s = (Val x, s1) \<and> k x s1 = (Val y, s'))"
  "zseq m k' s = (Val y, s') \<longleftrightarrow> (\<exists>x s1. m s = (Val x, s1) \<and> k' s1 = (Val y, s'))"
  "ztry n h s = (Val y, s') \<longleftrightarrow> n s = (Val y, s') \<or> (\<exists>e s1. n s = (Err e, s1) \<and> h e s1 = (Val y, s'))"
  "zfail e s = (Val y, s') \<longleftrightarrow> False" "zpanic e s = (Val y, s') \<longleftrightarrow> False" "zfatal e s = (Val y, s') \<longleftrightarrow> False"
  "zret y' s = (Val y, s') \<longleftrightarrow> y' = y \<and> s' = s" "zgets f s = (Val y, s') \<longleftrightarrow> y = f s \<and> s' = s"
  by (auto simp: zbind_def zseq_def ztry_def zfail_def zpanic_def zfatal_def zret_def zgets_def split: prod.splits zres.splits)

lemma world_moved_frame:
  assumes "world_moved Z P s s' b n"
  shows "grows Z s s'" "slot_amount Z s' = slot_amount Z s" "locked_amount Z s' = locked_amount Z s"
    "voucher_of Z s' = voucher_of Z s" "asset_of Z s' = asset_of Z s" "ledger_of Z s' = ledger_of Z s"
    "plain_scale Z s' = plain_scale Z s"
    "holding Z (ext s') P a = holding Z (ext s) P a + (if b = Some a then n else 0)"
  using assms by (auto simp: world_moved_def grows_def slot_amount_def locked_amount_def voucher_of_def asset_of_def ledger_of_def
      plain_scale_def fun_eq_iff)

lemma world_moved_trans:
  "world_moved Z P s t b m \<Longrightarrow> world_moved Z P t u b n \<Longrightarrow> world_moved Z P s u b (m + n)"
  "world_moved Z P s t c m' \<Longrightarrow> world_moved Z P t u None 0 \<Longrightarrow> world_moved Z P s u c m'"
  by (auto simp: world_moved_def)

lemma books_known: "books_ok Z coins s \<Longrightarrow> slot_amount Z s k \<noteq> 0 \<Longrightarrow> known Z coins s (slot_denom k)"
  unfolding books_ok_def by blast

lemma books_plain: "books_ok Z coins s \<Longrightarrow> plain_scale Z s"
  by (simp add: books_ok_def plain_scale_def)

lemma solventI: "(books_ok Z coins s \<Longrightarrow> solvent Z P coins s s') \<Longrightarrow> solvent Z P coins s s'"
  by (auto simp: solvent_def)

lemma moved_solvent:
  assumes "world_ok Z coins" "world_moved Z P s s' b n" "0 \<le> n"
  shows "solvent Z P coins s s'"
  using world_moved_frame [OF assms(2)] assms(3)
  by (intro solvent_world [OF assms(1)]) (use assms(2) in \<open>auto simp: world_moved_def\<close>)

lemma set_slot_frame:
  "ledger_of Z (set_slot Z k u s) = ledger_of Z s" "plain_scale Z (set_slot Z k u s) = plain_scale Z s"
  "grows Z s (set_slot Z k u s)"
  by (auto simp: ledger_of_def plain_scale_def grows_def fun_eq_iff)

text \<open>A slot gives up \<open>n\<close>, and the proxy gives away at most that of the slot's asset.\<close>

lemma released_solvent:
  assumes W: "world_ok Z coins" and slot: "int (uval u) = slot_amount Z s k - n" "0 \<le> n"
    and moved: "world_moved Z P (set_slot Z k u s) s' (Some b) m" "- n \<le> m" and b: "asset_of Z s (slot_denom k) = Some b"
  shows "solvent Z P coins s s'"
proof (rule solvent_move [where k = k and n = "- n" and l = 0, OF W _ b])
  have t: "tree_ok Z" by (rule world_ops(1) [OF W])
  note f = world_moved_frame [OF moved(1)]
  show "grows Z s s'" using f(1) set_slot_frame(3) [of Z s k u] by (auto simp: grows_def)
  show "known Z coins s (slot_denom k)" if "books_ok Z coins s" "- n \<noteq> 0 \<or> (0 :: int) \<noteq> 0"
  proof -
    have "slot_amount Z s k \<noteq> 0" using slot that(2) by linarith
    then show ?thesis by (rule books_known [OF that(1)])
  qed
  show "slot_amount Z s' = (slot_amount Z s)(k := slot_amount Z s k + - n)" using slot by (simp add: f set_amounts [OF t])
  show "locked_amount Z s' = (locked_amount Z s)(slot_denom k := locked_amount Z s (slot_denom k) + 0)"
    by (simp add: f set_amounts [OF t])
  show "holding Z (ext s) P a + (if a = b then - n + 0 else 0) \<le> holding Z (ext s') P a" for a
    using moved(2) by (simp add: f)
qed (use world_moved_frame [OF moved(1)] in simp)

lemma freed_solvent:
  assumes W: "world_ok Z coins" and slot: "int (uval u) = slot_amount Z s k - n" "0 \<le> n"
    and moved: "world_moved Z P (set_slot Z k u s) s' None 0"
  shows "solvent Z P coins s s'"
proof (rule solventI)
  assume B: "books_ok Z coins s"
  note f = world_moved_frame [OF moved]
  show "solvent Z P coins s s'"
  proof (cases "n = 0")
    case True
    have t: "tree_ok Z" by (rule world_ops(1) [OF W])
    have am: "slot_amount Z s' = slot_amount Z s" "locked_amount Z s' = locked_amount Z s"
      using slot True by (auto simp: f set_amounts [OF t] fun_eq_iff)
    have as: "asset_of Z s' = asset_of Z s" "voucher_of Z s' = voucher_of Z s" by (simp_all add: f)
    have "holding Z (ext s') P a = holding Z (ext s) P a" for a by (simp add: f)
    moreover have "known Z coins s' = known Z coins s" using as by (simp add: known_def fun_eq_iff)
    ultimately show ?thesis unfolding solvent_def books_ok_def surplus_def owed_def am as by simp
  next
    case False
    then have "slot_amount Z s k \<noteq> 0" using slot by linarith
    from books_known [OF B this] obtain b where b: "asset_of Z s (slot_denom k) = Some b" by (auto simp: known_def)
    have "world_moved Z P (set_slot Z k u s) s' (Some b) 0" using moved by (simp add: world_moved_def)
    then show ?thesis using slot b by (intro released_solvent [OF W slot]) auto
  qed
qed

lemma settle_solvent:
  fixes Z :: "('t, 'r, 'm, 'x) zenv"
  assumes W: "world_ok Z coins" and rlm: "Address rlm = P" "IsCurrent rlm"
  shows "solvent_z Z P coins False (settleEscrowedV2 Z rlm c p ord to)"
proof (rule solvent.zI)
  fix s s' :: "('m, 'x) zstate" and r :: "unit zres"
  assume run: "settleEscrowedV2 Z rlm c p ord to s = (r, s')" and "good False r"
  then have r: "r = Val ()" by (cases r) simp_all
  let ?d = "string_of_bytes (o_BaseToken ord)" and ?k = "(c, p, o_BaseToken ord, o_QuoteToken ord)"
  obtain n s1 s2 where n: "ledgerAmountOf Z ?d (o_BaseAmount ord) s = (Val n, s1)"
    and dec: "decreaseChannelBalanceV2 Z rlm c p (o_BaseToken ord) (o_QuoteToken ord) n s1 = (Val (), s2)"
    and rel: "localTokenUnescrow Z rlm ?d to (o_BaseAmount ord) s2 = (Val (), s')"
    using run by (auto simp: r settleEscrowedV2_def Let_def zrun_Val)
  have s1: "s1 = s" and led: "ledger_of Z s ?d (o_BaseAmount ord) = Inr n"
    using ledgerAmountOf_run [OF n] by (auto simp: stops_def)
  note range = ledger_range [OF led]
  obtain u where u: "s2 = set_slot Z ?k u s" "int (uval u) = slot_amount Z s ?k - n"
    using decrease_run [OF dec] range by (auto simp: s1 stops_def)
  show "solvent Z P coins s s'"
  proof (rule solventI)
    assume "books_ok Z coins s"
    then have "plain_scale Z s2" unfolding u by (simp add: set_slot_frame books_plain)
    from unescrow_run [OF W rel rlm this] obtain b m where "asset_of Z s ?d = Some b" "- n \<le> m" "world_moved Z P s2 s' (Some b) m"
      using led by (auto simp: u set_slot_frame stops_def)
    then show "solvent Z P coins s s'"
      using range u by (intro released_solvent [OF W u(2), of P s' b m]) (auto simp: slot_denom_def)
  qed
qed

text \<open>Burning what a slot holds: a voucher is burnt, anything else stays in custody as a locked amount.\<close>

lemma locked_solvent:
  assumes W: "world_ok Z coins" and slot: "int (uval u) = slot_amount Z s k - n" "0 \<le> n"
    and lock: "int (uval v) = locked_amount Z s (slot_denom k) + n" and b: "asset_of Z s (slot_denom k) = Some b"
  shows "solvent Z P coins s (set_locked Z (slot_denom k) v (set_slot Z k u s))"
proof (rule solvent_move [where k = k and n = "- n" and l = n, OF W _ b])
  have t: "tree_ok Z" by (rule world_ops(1) [OF W])
  show "grows Z s (set_locked Z (slot_denom k) v (set_slot Z k u s))" by (simp add: grows_def)
  show "known Z coins s (slot_denom k)" if "books_ok Z coins s" "- n \<noteq> 0 \<or> n \<noteq> 0"
  proof -
    have "slot_amount Z s k \<noteq> 0" using slot that(2) by linarith
    then show ?thesis by (rule books_known [OF that(1)])
  qed
qed (use slot lock in \<open>simp_all add: set_amounts [OF world_ops(1) [OF W]]\<close>)

lemma burn_solvent:
  fixes Z :: "('t, 'r, 'm, 'x) zenv"
  assumes W: "world_ok Z coins" and rlm: "Address rlm = P"
  shows "solvent_z Z P coins False (burnEscrowedV2 Z rlm c p ord)"
proof (rule solvent.zI)
  fix s s' :: "('m, 'x) zstate" and r :: "unit zres"
  assume run: "burnEscrowedV2 Z rlm c p ord s = (r, s')" and "good False r"
  then have r: "r = Val ()" by (cases r) simp_all
  let ?d = "string_of_bytes (o_BaseToken ord)" and ?k = "(c, p, o_BaseToken ord, o_QuoteToken ord)"
  have d: "slot_denom ?k = ?d" by (simp add: slot_denom_def)
  obtain n s1 s2 where n: "ledgerAmountOf Z ?d (o_BaseAmount ord) s = (Val n, s1)"
    and dec: "decreaseChannelBalanceV2 Z rlm c p (o_BaseToken ord) (o_QuoteToken ord) n s1 = (Val (), s2)"
    and rest: "(case getTokenType Z ?d (ext s) of
         IBC_TOKEN \<Rightarrow> burnVoucher Z ?d P (o_BaseAmount ord) s2 = (Val (), s')
       | _ \<Rightarrow> AddLockedTokenAmount Z rlm ?d (o_BaseAmount ord) s2 = (Val (), s'))"
    using run by (cases "getTokenType Z ?d (ext s)") (auto simp: r burnEscrowedV2_def Let_def zrun_Val rlm)
  have s1: "s1 = s" and led: "ledger_of Z s ?d (o_BaseAmount ord) = Inr n"
    using ledgerAmountOf_run [OF n] by (auto simp: stops_def)
  note range = ledger_range [OF led]
  obtain u where u: "s2 = set_slot Z ?k u s" "int (uval u) = slot_amount Z s ?k - n"
    using decrease_run [OF dec] range by (auto simp: s1 stops_def)
  show "solvent Z P coins s s'"
  proof (rule solventI)
    assume B: "books_ok Z coins s"
    show "solvent Z P coins s s'"
    proof (cases "isIBCTokenDenom ?d")
      case True
      then have "burnVoucher Z ?d P (o_BaseAmount ord) s2 = (Val (), s')" using rest by (simp add: getTokenType_def)
      from burnVoucher_run [OF W this, of P] obtain v where v: "voucher_of Z s ?d = Some v"
        "world_moved Z P s2 s' (Some (Tok (v_token v))) (- n)"
        using led by (auto simp: u set_slot_frame stops_def)
      moreover have "asset_of Z s ?d = Some (Tok (v_token v))" using v True by (simp add: asset_of_def)
      ultimately show ?thesis using range u by (intro released_solvent [OF W u(2)]) (auto simp: d)
    next
      case False
      then have lock: "AddLockedTokenAmount Z rlm ?d (o_BaseAmount ord) s2 = (Val (), s')"
        using rest by (auto simp: getTokenType_def split: if_splits)
      obtain v where v: "s' = set_locked Z ?d v s2" "int (uval v) = locked_amount Z s2 ?d + int (uval (o_BaseAmount ord))"
        using AddLocked_run [OF lock] by (auto simp: stops_def)
      have "n = int (uval (o_BaseAmount ord))"
        using led by (simp add: ledger_plain [OF books_plain [OF B] False] amountInt64_def ScaleDown_exact)
      moreover obtain b where "asset_of Z s ?d = Some b" using False by (simp add: asset_of_def)
      ultimately show ?thesis
        using locked_solvent [OF W u(2), of v b P] v range u by (simp add: d set_amounts [OF world_ops(1) [OF W]])
    qed
  qed
qed

lemma refundIBC_solvent: "world_ok Z coins \<Longrightarrow> solvent_z Z P coins all (refundIBCVoucher Z rlm base to a)"
  unfolding refundIBCVoucher_def Let_def by (intro solvent.z_seq getters_solvent mintVoucher_solvent) simp_all

lemma refund_solvent:
  assumes "world_ok Z coins" "Address rlm = P" "IsCurrent rlm"
  shows "solvent_z Z P coins False (refundV2 Z rlm p c ord)"
  using settle_solvent [OF assms] refundIBC_solvent [OF assms(1)] by (auto simp: refundV2_def intro: solvent.z_atoms)

lemma acknowledge_solvent:
  assumes "world_ok Z coins" "Address rlm = P" "IsCurrent rlm"
  shows "solvent_z Z P coins False (acknowledgeTokenOrderV2 Z rlm packet p ord oack)"
  using settle_solvent [OF assms] refund_solvent [OF assms] burn_solvent [OF assms(1,2)] refundIBC_solvent [OF assms(1)]
  by (auto simp: acknowledgeTokenOrderV2_def Let_def intro: solvent.z_atoms split: option.splits)

section \<open>Receiving\<close>

lemma zbind_split:
  assumes "zbind m k s = (r, s')"
  obtains x s1 where "m s = (Val x, s1)" "k x s1 = (r, s')"
  | q where "m s = (q, s')" "stops q \<longleftrightarrow> stops r" "\<forall>x. q \<noteq> Val x" "\<forall>x. r \<noteq> Val x"
proof (cases "m s")
  case (Pair q s1)
  show ?thesis
  proof (cases q)
    case (Val x)
    then show ?thesis using assms Pair that(1) by (simp add: zbind_def)
  next
    case (Err e)
    then show ?thesis using assms Pair that(2) [of q] by (auto simp: zbind_def stops_def)
  next
    case (Pan e)
    then show ?thesis using assms Pair that(2) [of q] by (auto simp: zbind_def stops_def)
  next
    case (Fatal e)
    then show ?thesis using assms Pair that(2) [of q] by (auto simp: zbind_def stops_def)
  qed
qed

lemma good_stops: "good True r \<Longrightarrow> (\<forall>x. r \<noteq> Val x) \<Longrightarrow> stops r"
  by (cases r) (simp_all add: stops_def)

lemma released_asset:
  assumes W: "world_ok Z coins" and slot: "int (uval u) = slot_amount Z s k - n" "0 \<le> n"
    and moved: "world_moved Z P (set_slot Z k u s) s' (asset_of Z s (slot_denom k)) m" "- n \<le> m"
  shows "solvent Z P coins s s'"
proof (cases "asset_of Z s (slot_denom k)")
  case None
  then have "world_moved Z P (set_slot Z k u s) s' None 0" using moved(1) by (simp add: world_moved_def)
  then show ?thesis by (rule freed_solvent [OF W slot])
next
  case (Some b)
  then show ?thesis using moved by (intro released_solvent [OF W slot]) auto
qed

definition release_part ::
    "('t, 'r, 'm, 'x) zenv \<Rightarrow> zrealm \<Rightarrow> string \<Rightarrow> (('m, 'x) zstate, unit) zc \<Rightarrow> address \<Rightarrow> uint256 \<Rightarrow> (('m, 'x) zstate, unit) zc" where
  "release_part Z rlm d rollback to amount =
     (if Uint_IsZero amount then zret ()
      else ztry (localTokenUnescrow Z rlm d to amount) (\<lambda>err. zseq (zignore rollback) (zfatal err)))"

lemma release_run:
  assumes W: "world_ok Z coins" and run: "release_part Z rlm d rollback to a s = (r, s')" and g: "good True r"
    and rlm: "Address rlm = P" "IsCurrent rlm" and plain: "plain_scale Z s" and led: "ledger_of Z s d a = Inr n"
    and rb: "\<forall>s e s'. rollback s = (Pan e, s') \<longrightarrow> s' = s"
  shows "(r = Val () \<and> (\<exists>m. - n \<le> m \<and> world_moved Z P s s' (asset_of Z s d) m)) \<or> (stops r \<and> world_moved Z P s s' None 0)"
proof (cases "Uint_IsZero a")
  case True
  then show ?thesis using run ledger_range [OF led]
    by (auto simp: release_part_def zret_def world_moved_none intro: exI [of _ 0])
next
  case False
  obtain q s1 where q: "localTokenUnescrow Z rlm d to a s = (q, s1)" by fastforce
  show ?thesis
  proof (cases q)
    case (Err e)
    have "(\<exists>e. r = Pan e) \<and> s' = s1"
      using run False q Err g rb
      by (auto simp: release_part_def ztry_def zseq_def zbind_def zignore_def zfatal_def zret_def
          split: prod.splits zres.splits if_splits)
    then show ?thesis using Err unescrow_run [OF W q rlm plain] by (auto simp: stops_def)
  next
    case (Val x)
    then show ?thesis using run False q led unescrow_run [OF W q rlm plain]
      by (auto simp: release_part_def ztry_def stops_def)
  next
    case (Pan e)
    then show ?thesis using run False q led unescrow_run [OF W q rlm plain]
      by (auto simp: release_part_def ztry_def stops_def)
  next
    case (Fatal e)
    then show ?thesis using run False q g by (auto simp: release_part_def ztry_def)
  qed
qed

text \<open>Two releases of amounts that add up to what the slot gives up.\<close>

lemma releases_solvent:
  assumes W: "world_ok Z coins" and rlm: "Address rlm = P" "IsCurrent rlm"
    and slot: "s1 = set_slot Z k u s" "int (uval u) = slot_amount Z s k - (m + n)"
    and led: "ledger_of Z s (slot_denom k) a = Inr m" "ledger_of Z s (slot_denom k) b = Inr n"
    and run: "zseq (release_part Z rlm (slot_denom k) back to1 a) (zseq (release_part Z rlm (slot_denom k) back to2 b) rest) s1 = (r, s')"
    and rb: "\<forall>s e s'. back s = (Pan e, s') \<longrightarrow> s' = s"
    and rest: "\<And>s. snd (rest s) = s" and g: "good True r"
  shows "solvent Z P coins s s'"
proof (rule solventI)
  assume B: "books_ok Z coins s"
  have plain: "plain_scale Z s1" using books_plain [OF B] by (simp add: slot set_slot_frame)
  have nn: "0 \<le> m" "0 \<le> n" using ledger_range led by blast+
  then have mn: "0 \<le> m + n" by simp
  note given = released_asset [OF W slot(2) mn] and stop = freed_solvent [OF W slot(2) mn]
  from run [unfolded zseq_def] show "solvent Z P coins s s'"
  proof (cases rule: zbind_split)
    case (2 q)
    have "stops r" using g 2(4) by (rule good_stops)
    moreover have "good True q" using 2 \<open>stops r\<close> by (auto simp: stops_def)
    ultimately show ?thesis
      using release_run [OF W 2(1) _ rlm plain _ rb] led 2 by (auto simp: slot set_slot_frame intro!: stop)
  next
    case (1 x s2)
    obtain m1 where m1: "- m \<le> m1" "world_moved Z P s1 s2 (asset_of Z s1 (slot_denom k)) m1"
      using release_run [OF W 1(1) _ rlm plain _ rb] led by (auto simp: slot set_slot_frame stops_def)
    note f = world_moved_frame [OF m1(2)]
    have plain2: "plain_scale Z s2" using plain by (simp add: f)
    from 1(2) show ?thesis
    proof (cases rule: zbind_split)
      case (1 x s3)
      obtain n1 where n1: "- n \<le> n1" "world_moved Z P s2 s3 (asset_of Z s1 (slot_denom k)) n1"
        using release_run [OF W 1(1) _ rlm plain2 _ rb] led by (auto simp: f slot set_slot_frame stops_def)
      moreover have "s' = s3" using 1(2) rest [of s3] by simp
      ultimately show ?thesis using m1 world_moved_trans(1) [OF m1(2) n1(2)] by (intro given [of P s' "m1 + n1"]) (simp_all add: slot)
    next
      case (2 q)
      have "stops r" using g 2(4) by (rule good_stops)
      moreover have "good True q" using 2 \<open>stops r\<close> by (auto simp: stops_def)
      ultimately have "world_moved Z P s2 s' None 0"
        using release_run [OF W 2(1) _ rlm plain2 _ rb] led 2 by (auto simp: f slot set_slot_frame)
      then show ?thesis using m1 nn world_moved_trans(2) [OF m1(2)] by (intro given [of P s' m1]) (simp_all add: slot)
    qed
  qed
qed


lemma ledger_sum:
  assumes "SubOverflow base quote' = (fee, False)"
    and "ledger_of Z s d quote' = Inr m" "ledger_of Z s d fee = Inr n" "ledger_of Z s d base = Inr k"
  shows "k = m + n"
proof -
  have "int (uval base) = int (uval quote' + uval fee)" using sub_run [OF assms(1)] by simp
  then have "uval base = uval quote' + uval fee" by (simp only: of_nat_eq_iff)
  then show ?thesis using assms(2-4)
    by (cases "voucher_of Z s d") (auto simp: ledger_of_def ToLedgerAmount_def amountInt64_def intro: ScaleDown_sum)
qed

lemma encode_still: "snd (encodeTokenOrderSuccessAck f mk s) = s" "snd (zorFatal (encodeTokenOrderSuccessAck f mk) s) = s"
  by (auto simp: encodeTokenOrderSuccessAck_def zorFatal_def ztry_def zbind_def zcodec_def zret_def zpanic_def zfail_def zfatal_def
      split: sum.splits codec_error.splits prod.splits zres.splits)

lemma failed_solvent: "solvent_z Z P coins all failed"
  unfolding failed_def universalErrorAck_def by (intro solvent.z_rules)

lemma success_solvent: "solvent_z Z P coins all (encodeTokenOrderSuccessAck f mk)"
  unfolding encodeTokenOrderSuccessAck_def by (intro solvent.z_rules)

lemma protocolFillUnescrow_solvent:
  fixes Z :: "('t, 'r, 'm, 'x) zenv"
  assumes W: "world_ok Z coins" and rlm: "Address rlm = P" "IsCurrent rlm"
  shows "solvent_z Z P coins True (protocolFillUnescrowV2 Z rlm c p base q receiver relayer ba qa)"
proof -
  have after: "solvent_z Z P coins True (zseq (ledgerAmountOf Z q qa) (zseq (ledgerAmountOf Z q fee)
       (zbind (ledgerAmountOf Z q ba) (\<lambda>k.
        let back = increaseChannelBalanceV2 Z rlm c rp (bytes_of_string q) base k in
        zseq (decreaseChannelBalanceV2 Z rlm c rp (bytes_of_string q) base k)
        (zseq (release_part Z rlm q back receiver qa)
        (zseq (release_part Z rlm q back relayer fee) rest))))))"
    if fee: "SubOverflow ba qa = (fee, False)" and rest: "\<And>s. snd (rest s) = s" for rp fee and rest :: "(('m, 'x) zstate, 'a) zc"
  proof (rule solvent.zI)
    let ?k = "(c, rp, bytes_of_string q, base)"
    have d: "slot_denom ?k = q" by (simp add: slot_denom_def)
    fix s s' :: "('m, 'x) zstate" and r :: "'a zres"
    assume run: "zseq (ledgerAmountOf Z q qa) (zseq (ledgerAmountOf Z q fee)
       (zbind (ledgerAmountOf Z q ba) (\<lambda>k.
        let back = increaseChannelBalanceV2 Z rlm c rp (bytes_of_string q) base k in
        zseq (decreaseChannelBalanceV2 Z rlm c rp (bytes_of_string q) base k)
        (zseq (release_part Z rlm q back receiver qa)
        (zseq (release_part Z rlm q back relayer fee) rest))))) s = (r, s')" and g: "good True r"
    show "solvent Z P coins s s'"
      using run [unfolded zseq_def [of "ledgerAmountOf Z q qa"]]
    proof (cases rule: zbind_split)
      case (2 x)
      then show ?thesis using ledgerAmountOf_run [OF 2(1)] by (simp add: solvent.refl)
    next
      case (1 m s1)
      note m = ledgerAmountOf_run [OF 1(1)]
      from 1(2) [unfolded zseq_def [of "ledgerAmountOf Z q fee"]] show ?thesis
      proof (cases rule: zbind_split)
        case (2 x)
        then show ?thesis using ledgerAmountOf_run [OF 2(1)] m by (simp add: solvent.refl)
      next
        case (1 n s2)
        note n = ledgerAmountOf_run [OF 1(1)]
        from 1(2) show ?thesis
        proof (cases rule: zbind_split)
          case (2 x)
          then show ?thesis using ledgerAmountOf_run [OF 2(1)] m n by (simp add: solvent.refl)
        next
          case (1 k s3)
          note k = ledgerAmountOf_run [OF 1(1)]
          have s: "s1 = s" "s2 = s" "s3 = s" and led: "ledger_of Z s q qa = Inr m" "ledger_of Z s q fee = Inr n" "ledger_of Z s q ba = Inr k"
            using m n k by (auto simp: stops_def)
          note kr = ledger_range [OF led(3)]
          from 1(2) [unfolded s Let_def zseq_def [of "decreaseChannelBalanceV2 Z rlm c rp (bytes_of_string q) base k"]]
          show ?thesis
          proof (cases rule: zbind_split)
            case (2 x)
            then show ?thesis using decrease_run [OF 2(1)] kr by (auto simp: solvent.refl)
          next
            case (1 y s4)
            obtain u where u: "s4 = set_slot Z ?k u s" "int (uval u) = slot_amount Z s ?k - k"
              using decrease_run [OF 1(1)] kr by (auto simp: stops_def)
            have "k = m + n" by (rule ledger_sum [OF fee led])
            moreover have "\<forall>s e s'. increaseChannelBalanceV2 Z rlm c rp (bytes_of_string q) base k s = (Pan e, s') \<longrightarrow> s' = s"
              using increase_run kr by blast
            ultimately show ?thesis
              using releases_solvent [OF W rlm u(1), of m n qa fee _ receiver relayer rest r s'] u led rest g 1(2) by (simp add: d)
          qed
        qed
      qed
    qed
  qed
  have rest: "snd (zbind (zorFatal (encodeTokenOrderSuccessAck fillTypeProtocol [])) (\<lambda>ack. zret (recvResult PacketStatusSuccess ack)) s) = s"
    for s :: "('m, 'x) zstate"
    using encode_still(2) [of fillTypeProtocol "[]" s] by (auto simp: zbind_def zret_def split: prod.splits zres.splits)
  have "solvent_z Z P coins True
     (let (fee, underflow) = SubOverflow ba qa in
     if underflow then zfail errTokenOrderFeeUnderflow
     else
       zseq (ledgerAmountOf Z q qa)
       (zseq (ledgerAmountOf Z q fee)
       (zbind (ledgerAmountOf Z q ba) (\<lambda>baseTokenLedgerAmount.
        let quoteBytes = bytes_of_string q;
            release = (\<lambda>to amount.
              if Uint_IsZero amount then zret ()
              else ztry (localTokenUnescrow Z rlm q to amount)
                (\<lambda>err. zseq (zignore (increaseChannelBalanceV2 Z rlm c rp quoteBytes base
                          baseTokenLedgerAmount)) (zfatal err))) in
        zseq (decreaseChannelBalanceV2 Z rlm c rp quoteBytes base baseTokenLedgerAmount)
        (zseq (release receiver qa)
        (zseq (release relayer fee)
        (zbind (zorFatal (encodeTokenOrderSuccessAck fillTypeProtocol [])) (\<lambda>ack.
         zret (recvResult PacketStatusSuccess ack)))))))))" for rp
  proof (cases "SubOverflow ba qa")
    case (Pair fee under)
    then show ?thesis
      using after [OF _ rest, of fee rp] by (cases under) (simp_all add: Let_def release_part_def solvent.z_atoms)
  qed
  then show ?thesis unfolding protocolFillUnescrowV2_def by (intro solvent.z_bind solvent.z_atoms)
qed

section \<open>Minting and fills\<close>

lemma mintTerms_solvent: "solvent_z Z P coins all (mintTerms Z d metadata canDeploy)"
  unfolding mintTerms_def scaleExpOf_def
  by (intro solvent.z_rules solvent.z_attempt getters_solvent
      | auto intro!: solvent.z_rules solvent.z_attempt getters_solvent split: option.splits sum.splits)+

lemma ledgerAmount_solvent: "solvent_z Z P coins all (ledgerAmountOf Z d a)"
  by (rule solvent.zI) (use ledgerAmountOf_run in \<open>metis solvent.refl\<close>)

lemma protocolFillMint_solvent:
  assumes "world_ok Z coins" "isIBCTokenDenom d"
  shows "solvent_z Z P coins True (protocolFillMint Z rlm c p base d receiver relayer ba qa metadata canDeploy)"
  unfolding protocolFillMint_def
  by (intro solvent.z_rules solvent.z_orFatal mintTerms_solvent getters_solvent setters_solvent success_solvent failed_solvent
      mintVoucher_solvent assms disjI1
      | (auto intro!: solvent.z_rules solvent.z_orFatal mintTerms_solvent getters_solvent setters_solvent success_solvent
          failed_solvent mintVoucher_solvent assms split: option.splits prod.splits)[1])+

lemma marketMakerFill_solvent:
  assumes "world_ok Z coins" "relayer \<noteq> P"
  shows "solvent_z Z P coins True (marketMakerFillV2 Z relayer msg ord)"
  unfolding marketMakerFillV2_def Let_def
  by (intro solvent.z_rules solvent.z_attempt ledgerAmount_solvent voucher_ops_solvent success_solvent assms
      | (auto intro!: solvent.z_rules solvent.z_attempt ledgerAmount_solvent voucher_ops_solvent success_solvent assms
          split: sum.splits)[1])+


lemma must_solvent:
  assumes "\<And>x. r = Inr x \<Longrightarrow> solvent_z Z P coins all (k x)"
  shows "solvent_z Z P coins all (zbind (zmust f r) k)"
proof (cases r)
  case (Inl e)
  then have "zbind (zmust f r) k = zpanic (f e)" by (simp add: fun_eq_iff zmust_def zbind_def zpanic_def)
  then show ?thesis by (simp add: solvent.z_atoms)
next
  case (Inr x)
  then have "zbind (zmust f r) k = k x" by (simp add: fun_eq_iff zmust_def zbind_def zret_def)
  then show ?thesis using assms Inr by simp
qed

text \<open>Branching, as introduction rules.\<close>

lemma branch_solvent:
  "(b \<Longrightarrow> solvent_z Z P coins all m) \<Longrightarrow> (\<not> b \<Longrightarrow> solvent_z Z P coins all n) \<Longrightarrow> solvent_z Z P coins all (if b then m else n)"
  "(v = None \<Longrightarrow> solvent_z Z P coins all m) \<Longrightarrow> (\<And>x. v = Some x \<Longrightarrow> solvent_z Z P coins all (k x)) \<Longrightarrow>
     solvent_z Z P coins all (case v of None \<Rightarrow> m | Some x \<Rightarrow> k x)"
  "(\<And>e. w = Inl e \<Longrightarrow> solvent_z Z P coins all (h e)) \<Longrightarrow> (\<And>x. w = Inr x \<Longrightarrow> solvent_z Z P coins all (k' x)) \<Longrightarrow>
     solvent_z Z P coins all (case w of Inl e \<Rightarrow> h e | Inr x \<Rightarrow> k' x)"
  by (simp_all split: option.splits sum.splits)

lemma predicted_ibc:
  "PredictWrappedToken kc p c b = Inr w \<Longrightarrow> isIBCTokenDenom w"
  "PredictWrappedTokenV2 kc p c b img = Inr w \<Longrightarrow> isIBCTokenDenom w"
  by (auto simp: PredictWrappedToken_def PredictWrappedTokenV2_def wrappedDenom_def isIBCTokenDenom_def split: sum.splits)

lemma fillPredicted_solvent:
  assumes "world_ok Z coins" "relayer \<noteq> P" "\<And>w. wrapped = Some w \<Longrightarrow> isIBCTokenDenom w"
  shows "solvent_z Z P coins True (fillPredicted Z rlm c relayer msg p ord wrapped metadata)"
  unfolding fillPredicted_def Let_def
  using assms
  by (auto intro!: solvent.z_bind solvent.z_attempt rateLimit_solvent failed_solvent protocolFillMint_solvent
      marketMakerFill_solvent split: sum.splits)

lemma executeTokenOrder_solvent:
  assumes "world_ok Z coins" "Address rlm = P" "IsCurrent rlm" "relayer \<noteq> P"
  shows "solvent_z Z P coins True (executeTokenOrderV2 Z rlm packet relayer msg p ord intent)"
  unfolding executeTokenOrderV2_def Let_def tokenOrderDestinationChannel_def
  by (intro must_solvent branch_solvent solvent.z_bind solvent.z_attempt solvent.z_atoms getters_solvent rateLimit_solvent
      failed_solvent protocolFillUnescrow_solvent marketMakerFill_solvent fillPredicted_solvent assms)
    (auto simp: predicted_ibc split: option.splits if_splits)

end
