(* ===== verification/ZkgmReach.thy ===== *)
theory ZkgmReach
  imports ZkgmSolvent
begin

text \<open>
  Sending keeps the proxy solvent once the attached coins are counted as unspent; with the callbacks of the host and
  the public functions this makes solvency an invariant of every state the application can reach.
\<close>

section \<open>Attached coins\<close>

definition unspent :: "funds \<Rightarrow> 't asset \<Rightarrow> int" where
  "unspent f a = (case a of Tok t \<Rightarrow> 0 | Coin d \<Rightarrow> (case map_of f d of None \<Rightarrow> 0 | Some n \<Rightarrow> n))"

text \<open>Sound books stay sound, and the surplus shrinks by no more than the attached coins that are spent.\<close>

definition spends ::
    "('t, 'r, 'm, 'x) zenv \<Rightarrow> address \<Rightarrow> string set \<Rightarrow> funds \<Rightarrow> funds \<Rightarrow> ('m, 'x) zstate \<Rightarrow> ('m, 'x) zstate \<Rightarrow> bool" where
  "spends Z P coins f f' s s' \<longleftrightarrow>
     (books_ok Z coins s \<and> fst ` set f \<subseteq> coins \<longrightarrow>
        books_ok Z coins s' \<and> fst ` set f' \<subseteq> coins \<and>
        (\<forall>a. surplus Z P s a - unspent f a \<le> surplus Z P s' a - unspent f' a))"

lemma spends_trans: "spends Z P coins f g s t \<Longrightarrow> spends Z P coins g h t u \<Longrightarrow> spends Z P coins f h s u"
  unfolding spends_def by (meson order_trans)

lemma spends_none: "solvent Z P coins s s' \<Longrightarrow> spends Z P coins f f s s'"
  by (simp add: spends_def solvent_def)

lemma spends_refl: "spends Z P coins f f s s"
  by (simp add: spends_def)

lemma unspent_update: "unspent (AList.update d n f) a = (if a = Coin d then n else unspent f a)"
  by (cases a) (simp_all add: unspent_def update_conv')

lemma funds_sub_run:
  assumes "funds_sub f d a s = (Val f', s')"
  obtains n where "s' = s" "amountInt64 a = Inr n" "d \<in> fst ` set f" "fst ` set f' = fst ` set f"
    "\<And>b. unspent f' b = unspent f b - (if b = Coin d then n else 0)"
proof -
  obtain n h where n: "amountInt64 a = Inr n" "map_of f d = Some h" "s' = s" "f' = AList.update d (h - n) f"
    using assms by (auto simp: funds_sub_def zrun_Val zscale_def split: sum.splits scale_error.splits option.splits if_splits)
  moreover have d: "d \<in> fst ` set f" using n(2) by (force dest: map_of_SomeD)
  moreover have "fst ` set f' = fst ` set f" using d n(4) by (auto simp: dom_update)
  moreover have "unspent f' b = unspent f b - (if b = Coin d then n else 0)" for b :: "'b asset"
    using n(2,4) by (auto simp: unspent_update) (simp add: unspent_def)
  ultimately show ?thesis using that by blast
qed

section \<open>Escrow\<close>

lemma escrow_run:
  assumes W: "world_ok Z coins" and run: "localTokenEscrow Z rlm d sender f a s = (Val f', s')"
    and P: "Address rlm = P" "sender \<noteq> P" and plain: "plain_scale Z s"
  obtains b n m where "asset_of Z s d = Some b" "ledger_of Z s d a = Inr n" "world_moved Z P s s' (Some b) m"
    "b = Coin d \<Longrightarrow> d \<in> fst ` set f" "fst ` set f' = fst ` set f"
    "\<And>c. unspent f' c = unspent f c - (if c = b then n - m else 0)"
proof (cases "isIBCTokenDenom d")
  case True
  then have "transferVoucher Z d sender P a s = (Val (), s')" "f' = f"
    using run P(1) by (auto simp: localTokenEscrow_def getTokenType_def zrun_Val)
  with transferVoucher_run [OF W this(1), of P] P(2) obtain v n where
    "voucher_of Z s d = Some v" "ledger_of Z s d a = Inr n" "world_moved Z P s s' (Some (Tok (v_token v))) n"
    by (auto simp: stops_def transfer_def)
  then show ?thesis using that [of "Tok (v_token v)" n n] True \<open>f' = f\<close> by (simp add: asset_of_def)
next
  case ibc: False
  note lp = ledger_plain [OF plain ibc]
  show ?thesis
  proof (cases "reg_Get Z (ext s) d")
    case None
    then have "funds_sub f d a s = (Val f', s')"
      using run ibc by (auto simp: localTokenEscrow_def getTokenType_def zrun_Val)
    then obtain n where "s' = s" "amountInt64 a = Inr n" "d \<in> fst ` set f" "fst ` set f' = fst ` set f"
      "\<And>b :: 'a asset. unspent f' b = unspent f b - (if b = Coin d then n else 0)"
      by (rule funds_sub_run) blast
    then show ?thesis using that [of "Coin d" n 0] ibc None lp by (simp add: asset_of_def world_moved_none)
  next
    case (Some t)
    then have "localGRC20Escrow Z rlm (Some t) sender a s = (Val (), s')" "f' = f"
      using run ibc by (auto simp: localTokenEscrow_def getTokenType_def zrun_Val)
    with GRC20_escrow_run [OF W this(1) P(1)] obtain n where
      "amountInt64 a = Inr n" "world_moved Z P s s' (Some (Tok t)) n" by (auto simp: stops_def)
    then show ?thesis using that [of "Tok t" n n] ibc Some lp \<open>f' = f\<close> by (simp add: asset_of_def)
  qed
qed

text \<open>A slot is credited with \<open>n\<close>, of which \<open>m\<close> comes from the sender and the rest from the attached coins.\<close>

lemma credited_spends:
  assumes W: "world_ok Z coins" and slot: "int (uval u) = slot_amount Z s k + n"
    and b: "asset_of Z s (slot_denom k) = Some b" "b = Coin (slot_denom k) \<Longrightarrow> slot_denom k \<in> fst ` set f"
    and moved: "world_moved Z P (set_slot Z k u s) s' (Some b) m" and f': "fst ` set f' = fst ` set f"
    and un: "\<And>c. unspent f' c = unspent f c - (if c = b then n - m else 0)"
  shows "spends Z P coins f f' s s'"
  unfolding spends_def
proof
  assume A: "books_ok Z coins s \<and> fst ` set f \<subseteq> coins"
  have t: "tree_ok Z" by (rule world_ops(1) [OF W])
  note fr = world_moved_frame [OF moved]
  have g: "grows Z s s'" using fr(1) set_slot_frame(3) [of Z s k u] by (auto simp: grows_def)
  have kn: "known Z coins s (slot_denom k)" using b A by (auto simp: known_def)
  have slots: "slot_amount Z s' = (slot_amount Z s)(k := slot_amount Z s k + n)" using slot by (simp add: fr set_amounts [OF t])
  have locks: "locked_amount Z s' = (locked_amount Z s)(slot_denom k := locked_amount Z s (slot_denom k) + 0)"
    by (simp add: fr set_amounts [OF t])
  have v: "\<And>d v. \<not> isIBCTokenDenom d \<Longrightarrow> voucher_of Z s' d = Some v \<Longrightarrow> voucher_of Z s d = Some v \<or> ScaleExp Z v = 0"
    by (simp add: fr)
  have move: "books_ok Z coins s'" "owed Z s' a = owed Z s a + (if a = b then n + 0 else 0)" for a
    by (rule books_move [OF W g b(1) kn slots locks v conjunct1 [OF A]]; simp)+
  have "surplus Z P s a - unspent f a \<le> surplus Z P s' a - unspent f' a" for a
    unfolding surplus_def move(2) un fr(8) by simp
  then show "books_ok Z coins s' \<and> fst ` set f' \<subseteq> coins \<and>
      (\<forall>a. surplus Z P s a - unspent f a \<le> surplus Z P s' a - unspent f' a)"
    using move(1) A f' by simp
qed


section \<open>Sending\<close>

lemma metadata_solvent: "solvent_z Z P coins all (verifyMetadataDecimals Z d metadata)"
  unfolding verifyMetadataDecimals_def
  by (intro branch_solvent solvent.z_bind solvent.z_atoms getters_solvent)

text \<open>A computation that gives back what is left of the attached coins.\<close>

definition spending ::
    "('t, 'r, 'm, 'x) zenv \<Rightarrow> address \<Rightarrow> string set \<Rightarrow> funds \<Rightarrow> (('m, 'x) zstate, funds) zc \<Rightarrow> bool" where
  "spending Z P coins f m \<longleftrightarrow> (\<forall>s f' s'. m s = (Val f', s') \<longrightarrow> spends Z P coins f f' s s')"

lemma spendingD: "spending Z P coins f m \<Longrightarrow> m s = (Val f', s') \<Longrightarrow> spends Z P coins f f' s s'"
  by (simp add: spending_def)

lemma spending_ends: "spending Z P coins f (zret f)" "spending Z P coins f (zfail e)" "spending Z P coins f (zpanic e)"
    "spending Z P coins f (zfatal e)"
  by (auto simp: spending_def zrun_Val spends_refl)

lemma spending_bind:
  assumes "solvent_z Z P coins False m" "\<And>x. spending Z P coins f (k x)"
  shows "spending Z P coins f (zbind m k)" "spending Z P coins f (zseq m (k x))"
proof -
  have "spends Z P coins f f' s s'" if "m s = (Val x, s1)" "k x s1 = (Val f', s')" for s s1 s' f' x
  proof -
    have "solvent Z P coins s s1" using solvent.zD [OF assms(1) that(1)] by simp
    then show ?thesis using spends_none spends_trans spendingD [OF assms(2) that(2)] by blast
  qed
  moreover have "spends Z P coins f f' s s'" if "m s = (Val y, s1)" "k x s1 = (Val f', s')" for s s1 s' f' y
  proof -
    have "solvent Z P coins s s1" using solvent.zD [OF assms(1) that(1)] by simp
    then show ?thesis using spends_none spends_trans spendingD [OF assms(2) that(2)] by blast
  qed
  ultimately show "spending Z P coins f (zbind m k)" "spending Z P coins f (zseq m (k x))"
    unfolding spending_def zrun_Val by blast+
qed

lemma spending_then:
  assumes "spending Z P coins f m" "\<And>g. spending Z P coins g (k g)"
  shows "spending Z P coins f (zbind m k)"
  unfolding spending_def zrun_Val using spendingD [OF assms(1)] spendingD [OF assms(2)] spends_trans by blast

lemma spending_if:
  "(b \<Longrightarrow> spending Z P coins f m) \<Longrightarrow> (\<not> b \<Longrightarrow> spending Z P coins f n) \<Longrightarrow> spending Z P coins f (if b then m else n)"
  by simp

lemma spending_with: "(\<And>x. r = Val x \<Longrightarrow> spending Z P coins f (k x)) \<Longrightarrow> spending Z P coins f (zwith r k)"
  by (cases r) (simp_all add: zwith_def spending_ends)

lemma spending_each:
  "(\<And>x g. x \<in> set xs \<Longrightarrow> spending Z P coins g (h x g)) \<Longrightarrow> spending Z P coins f (zeach h xs f)"
  by (induction xs arbitrary: f) (auto intro: spending_ends spending_then)

lemma funds_sub_spending:
  fixes Z :: "('t, 'r, 'm, 'x) zenv"
  shows "spending Z P coins f (funds_sub f d a)"
  unfolding spending_def
proof (intro allI impI)
  fix s s' :: "('m, 'x) zstate" and f' assume "funds_sub f d a s = (Val f', s')"
  then obtain n where n: "s' = s" "amountInt64 a = Inr n" "fst ` set f' = fst ` set f"
    "\<And>b :: 't asset. unspent f' b = unspent f b - (if b = Coin d then n else 0)" by (rule funds_sub_run) blast
  have "0 \<le> n" using n(2) by (simp add: amountInt64_def scaled_nonneg)
  then show "spends Z P coins f f' s s'" using n by (simp add: spends_def)
qed

lemma escrow_spending:
  assumes W: "world_ok Z coins" and P: "Address rlm = P" "PrevAddress rlm \<noteq> P"
  shows "spending Z P coins f
    (zbind (ledgerAmountOf Z (string_of_bytes base) a) (\<lambda>n.
     zseq (increaseChannelBalanceV2 Z rlm c p base q n)
     (ztry (localTokenEscrow Z rlm (string_of_bytes base) (PrevAddress rlm) f a)
       (\<lambda>err. zseq (zignore (decreaseChannelBalanceV2 Z rlm c p base q n)) (zfail err)))))"
  unfolding spending_def
proof (intro allI impI)
  let ?d = "string_of_bytes base" and ?k = "(c, p, base, q)"
  fix s f' s'
  assume "zbind (ledgerAmountOf Z ?d a) (\<lambda>n. zseq (increaseChannelBalanceV2 Z rlm c p base q n)
     (ztry (localTokenEscrow Z rlm ?d (PrevAddress rlm) f a)
       (\<lambda>err. zseq (zignore (decreaseChannelBalanceV2 Z rlm c p base q n)) (zfail err)))) s = (Val f', s')"
  then obtain n s1 s2 where n: "ledgerAmountOf Z ?d a s = (Val n, s1)"
    and inc: "increaseChannelBalanceV2 Z rlm c p base q n s1 = (Val (), s2)"
    and esc: "localTokenEscrow Z rlm ?d (PrevAddress rlm) f a s2 = (Val f', s')"
    by (auto simp: zrun_Val)
  have s1: "s1 = s" and led: "ledger_of Z s ?d a = Inr n"
    using ledgerAmountOf_run [OF n] by (auto simp: stops_def)
  obtain u where u: "s2 = set_slot Z ?k u s" "int (uval u) = slot_amount Z s ?k + n"
    using increase_run [OF inc] ledger_range [OF led] by (auto simp: s1 stops_def)
  show "spends Z P coins f f' s s'"
  proof (cases "books_ok Z coins s")
    case True
    then have "plain_scale Z s2" unfolding u by (simp add: set_slot_frame books_plain)
    from escrow_run [OF W esc P this] obtain b n' m where "asset_of Z s2 ?d = Some b" "ledger_of Z s2 ?d a = Inr n'"
      "world_moved Z P s2 s' (Some b) m" "b = Coin ?d \<Longrightarrow> ?d \<in> fst ` set f" "fst ` set f' = fst ` set f"
      "\<And>c. unspent f' c = unspent f c - (if c = b then n' - m else 0)" by blast
    then show ?thesis using led u(2)
      by (intro credited_spends [OF W u(2), of b f P s' m f']) (simp_all add: u(1) set_slot_frame slot_denom_def)
  next
    case False
    then show ?thesis by (simp add: spends_def)
  qed
qed

lemma tokenOrder_spending:
  assumes W: "world_ok Z coins" and P: "Address rlm = P" "PrevAddress rlm \<noteq> P"
  shows "spending Z P coins f (verifyTokenOrderV2 Z rlm f c p ord)"
proof -
  have rule: "(\<And>a b. spending Z P coins f (k a b)) \<Longrightarrow> spending Z P coins f (case x of (a, b) \<Rightarrow> k a b)"
    "spending Z P coins f m \<Longrightarrow> (\<And>y. spending Z P coins f (h y)) \<Longrightarrow> spending Z P coins f (case z of None \<Rightarrow> m | Some y \<Rightarrow> h y)"
    for x :: "uint256 \<times> u32" and k m h and z :: "uint256 option"
    by (simp_all split: prod.split option.split)
  show ?thesis
    unfolding verifyTokenOrderV2_def Let_def
    by (intro spending_if spending_bind(1) escrow_spending spending_bind(2) spending_ends rule branch_solvent metadata_solvent
        solvent.z_atoms getters_solvent funds_sub_spending voucher_ops_solvent(2) assms)
qed

lemma verify_spending:
  assumes "world_ok Z coins" "Address rlm = P" "PrevAddress rlm \<noteq> P"
  shows "spending Z P coins f (verifyInternal Z rlm f c p i)"
  using assms
proof (induction Z rlm f c p i rule: verifyInternal.induct)
  case (1 Z rlm f c p i)
  note W = 1(3-5) and IH = 1(1-2)
  show ?case
    unfolding verifyInternal.simps [of Z rlm f c p i] verifyCall_def
    by (intro spending_if spending_with spending_each spending_bind spending_ends tokenOrder_spending branch_solvent
        solvent.z_atoms W IH)
qed


text \<open>What a program does when it ends with a value.\<close>

definition yields :: "('a \<Rightarrow> 'z \<Rightarrow> bool) \<Rightarrow> ('h, 'z, 'a) zp \<Rightarrow> 'z \<Rightarrow> bool" where
  "yields S m z \<longleftrightarrow> ends (\<lambda>r z'. \<forall>x. r = Val x \<longrightarrow> S x z') (m z)"

lemma yields_bind: "yields (\<lambda>x. yields S (k x)) m z \<Longrightarrow> yields S (xbind m k) z"
  unfolding yields_def xbind_def by (rule ends_pbind, erule ends_mono) (simp split: zres.split)

lemma yields_seq: "yields (\<lambda>_. yields S k) m z \<Longrightarrow> yields S (xseq m k) z"
  unfolding xseq_def by (rule yields_bind)

lemma yields_local: "yields S (xlocal m) z \<longleftrightarrow> (\<forall>x z'. m z = (Val x, z') \<longrightarrow> S x z')"
  by (auto simp: yields_def xlocal_def split: prod.split)

lemma yields_orPanic: "yields S m z \<Longrightarrow> yields S (xorPanic m) z"
  unfolding yields_def xorPanic_def by (rule ends_pmap, erule ends_mono) (simp add: xlocal_def split: zres.split)

lemma yields_send: "(\<And>p. S p z) \<Longrightarrow> yields S (xSendPacket rlm c ts d) z"
  by (simp add: yields_def xSendPacket_def)

lemma yields_mono: "yields S m z \<Longrightarrow> (\<And>x z'. S x z' \<Longrightarrow> S' x z') \<Longrightarrow> yields S' m z"
  unfolding yields_def by (erule ends_mono) simp

lemma yields_solvent:
  fixes m :: "('h, ('m, 'x) zstate, 'a) zp"
  shows "solvent_x Z P coins False m \<longleftrightarrow> (\<forall>z. yields (\<lambda>_. solvent Z P coins z) m z)"
proof -
  have "(good False r \<longrightarrow> q) \<longleftrightarrow> (\<forall>x. r = Val x \<longrightarrow> q)" for r :: "'a zres" and q by (cases r) simp_all
  then show ?thesis by (simp add: solvent.keeps_x_def yields_def)
qed

lemma spends_empty:
  fixes Z :: "('t, 'r, 'm, 'x) zenv"
  shows "funds_isEmpty f \<Longrightarrow> spends Z P coins f [] s s"
proof -
  assume f: "funds_isEmpty f"
  have "map_of f d = Some n \<Longrightarrow> n = 0" for d n
    using f by (auto simp: funds_isEmpty_def list_all_iff dest: map_of_SomeD)
  then have "unspent f a = 0" for a :: "'t asset" by (auto simp: unspent_def split: asset.split option.split)
  moreover have "unspent [] a = 0" for a :: "'t asset" by (simp add: unspent_def split: asset.split)
  ultimately show ?thesis by (simp add: spends_def)
qed

definition attached :: "zrealm \<Rightarrow> (string \<times> int) list \<Rightarrow> funds" where
  "attached rlm sent = newFunds (if PrevIsUserCall rlm then sent else [])"

lemma v1_Send_spends:
  assumes "world_ok Z coins" "Address rlm = P" "PrevAddress rlm \<noteq> P"
  shows "yields (\<lambda>_. spends Z P coins (attached rlm sent) [] z) (v1_Send Z rlm sent c ts salt i) z"
  unfolding v1_Send_def Let_def attached_def
  by (intro yields_seq yields_bind yields_orPanic)
    (auto simp: yields_local zassertIsRlmCurrent_def assertEmpty_def zguard_def zcodec_def zrun_Val
      intro!: yields_seq yields_bind yields_orPanic yields_send spends_trans [OF spendingD [OF verify_spending [OF assms]] spends_empty]
      split: if_splits sum.splits codec_error.splits)

lemma paused_still: "assertIsNotPaused s = (Val x, s') \<Longrightarrow> s' = s"
  by (auto simp: assertIsNotPaused_def zrun_Val split: if_splits)

lemma paused_solvent: "solvent_z Z P coins all assertIsNotPaused"
  unfolding assertIsNotPaused_def by (intro solvent.z_bind solvent.z_atoms branch_solvent)

lemma Send_spends:
  assumes "world_ok Z coins" "Address rlm = P" "PrevAddress rlm \<noteq> P"
  shows "yields (\<lambda>_. spends Z P coins (attached rlm sent) [] z) (zkgm_Send Z rlm sent c ts salt i) z"
    "yields (\<lambda>_. spends Z P coins (attached rlm sent) [] z) (SendRaw Z rlm sent c' ts saltHex v opc hex) z"
  unfolding zkgm_Send_def SendRaw_def
  by (auto simp: yields_local zmust_def zrun_Val intro!: yields_seq yields_bind v1_Send_spends [OF assms]
      dest!: paused_still split: sum.splits)

section \<open>Receivers\<close>

text \<open>
  What the host's chain guarantees of a receiver: it acts for accounts other than the proxy, so whatever it does to the
  world leaves the proxy's holdings, and the registry keeps its tokens.
\<close>

definition benign :: "('t, 'r, 'm, 'x) zenv \<Rightarrow> address \<Rightarrow> 'x \<Rightarrow> 'x \<Rightarrow> bool" where
  "benign Z P x x' \<longleftrightarrow>
     (\<forall>k u. reg_Get Z x k = Some u \<longrightarrow> reg_Get Z x' k = Some u) \<and> (\<forall>a. holding Z x P a \<le> holding Z x' P a)"

primrec calm :: "('t, 'r, 'm, 'x) zenv \<Rightarrow> address \<Rightarrow> 'x receiver_prog \<Rightarrow> 'x \<Rightarrow> bool" where
  "calm Z P (RReturn err x) x0 \<longleftrightarrow> benign Z P x0 x"
| "calm Z P RPanics x0 \<longleftrightarrow> True"
| "calm Z P (RSend addr path c ts salt i x k) x0 \<longleftrightarrow> addr \<noteq> P \<and> benign Z P x0 x \<and> (\<forall>p x'. calm Z P (k p x') x')"
| "calm Z P (RVoucherTransfer addr path d to n x k) x0 \<longleftrightarrow> addr \<noteq> P \<and> benign Z P x0 x \<and> (\<forall>x'. calm Z P (k x') x')"
| "calm Z P (RVoucherApprove addr path d to n x k) x0 \<longleftrightarrow> addr \<noteq> P \<and> benign Z P x0 x \<and> (\<forall>x'. calm Z P (k x') x')"

definition receivers_calm :: "('t, 'r, 'm, 'x) zenv \<Rightarrow> address \<Rightarrow> bool" where
  "receivers_calm Z P \<longleftrightarrow> (\<forall>r e x. calm Z P (OnZkgm Z r e x) x \<and> calm Z P (OnIntentZkgm Z r e x) x)"

lemma benign_solvent: "world_ok Z coins \<Longrightarrow> benign Z P (ext s) x \<Longrightarrow> solvent Z P coins s (s\<lparr>ext := x\<rparr>)"
  by (auto simp: benign_def intro: solvent_ext)

lemma world_teller: "world_ok Z coins \<Longrightarrow> teller_Transfer Z t a b n x = (Fine, x') \<Longrightarrow> 0 \<le> n"
  unfolding world_ok_def by (elim conjE) (drule spec, drule spec, drule spec, drule spec, drule spec, drule spec, erule mp)

lemma voucher_calls_solvent:
  assumes W: "world_ok Z coins" and P: "PrevAddress rlm \<noteq> P"
  shows "solvent_x Z P coins False (zkgm_VoucherTransfer Z rlm d to n)"
    "solvent_x Z P coins False (zkgm_VoucherApprove Z rlm d to n)"
proof -
  have transfer: "0 \<le> transfer (PrevAddress rlm) to n P" if "teller_Transfer Z t (PrevAddress rlm) to n x = (Fine, x')" for t x x'
  proof -
    have "0 \<le> n" by (rule world_teller [OF W that])
    then show ?thesis using P by (simp add: transfer_def)
  qed
  show "solvent_x Z P coins False (zkgm_VoucherTransfer Z rlm d to n)"
    unfolding zkgm_VoucherTransfer_def v1_VoucherTransfer_def voucher_Transfer_def
    by (intro solvent.x_seq solvent.x_local solvent.x_orPanic solvent.z_seq solvent.z_atoms paused_solvent needVoucher_solvent
        token_op_solvent [OF W world_ops(5) [OF W]] transfer)
  show "solvent_x Z P coins False (zkgm_VoucherApprove Z rlm d to n)"
    unfolding zkgm_VoucherApprove_def v1_VoucherApprove_def voucher_Approve_def
    by (intro solvent.x_seq solvent.x_local solvent.x_orPanic solvent.z_seq solvent.z_atoms paused_solvent needVoucher_solvent
        token_op_solvent [OF W world_ops(7) [OF W]] order.refl)
qed


text \<open>A receiver calls back into the public functions of the application, and the proxy stays solvent.\<close>

lemma receiver_call:
  assumes m: "yields (\<lambda>_. solvent Z P coins (z\<lparr>ext := x\<rparr>)) m (z\<lparr>ext := x\<rparr>)"
    and W: "world_ok Z coins" and b: "benign Z P (ext z) x"
    and k: "\<And>y z'. ends (\<lambda>r z''. (\<exists>v. r = Val v) \<and> solvent Z P coins z' z'') (k y (ext z') z')"
  shows "ends (\<lambda>r z''. (\<exists>v. r = Val v) \<and> solvent Z P coins z z'')
    (xseq (xlocal (zmodify (\<lambda>s. s\<lparr>ext := x\<rparr>)))
     (xbind (\<lambda>z. pmap (\<lambda>r. case r of Val u \<Rightarrow> xret u | _ \<Rightarrow> (\<lambda>z. AppPanics)) (m z)) (\<lambda>y.
      xbind (xlocal (zgets ext)) (k y))) z)"
proof -
  have first: "solvent Z P coins z (z\<lparr>ext := x\<rparr>)" by (rule benign_solvent [OF W b])
  have "ends (\<lambda>r z'. (\<exists>v. r = Val v) \<and> solvent Z P coins z z')
    (pmap (\<lambda>r. case r of Val u \<Rightarrow> xret u | _ \<Rightarrow> (\<lambda>z. AppPanics)) (m (z\<lparr>ext := x\<rparr>)))"
    using m unfolding yields_def
    by (intro ends_pmap, elim ends_mono)
      (auto simp: xret_def xlocal_def zret_def split: zres.split intro: solvent.trans [OF first])
  then have "ends (\<lambda>r z''. (\<exists>v. r = Val v) \<and> solvent Z P coins z z'')
    (pbind (pmap (\<lambda>r. case r of Val u \<Rightarrow> xret u | _ \<Rightarrow> (\<lambda>z. AppPanics)) (m (z\<lparr>ext := x\<rparr>)))
      (\<lambda>y. xbind (xlocal (zgets ext)) (k y)))"
    by (intro ends_pbind, elim ends_mono)
      (auto simp: xbind_def xlocal_def zgets_def intro!: ends_mono [OF k] intro: solvent.trans)
  then show ?thesis by (simp add: xseq_def xbind_def xlocal_def zmodify_def)
qed

lemma nested_Send_solvent:
  assumes "world_ok Z coins" "Address rlm = P" "PrevAddress rlm \<noteq> P" "\<not> PrevIsUserCall rlm"
  shows "yields (\<lambda>_. solvent Z P coins z) (zkgm_Send Z rlm sent c ts salt i) z"
  by (rule yields_mono [OF Send_spends(1) [OF assms(1-3)]])
    (use assms(4) in \<open>auto simp: attached_def newFunds_def spends_def solvent_def\<close>)

lemma yields_of_solvent: "solvent_x Z P coins False m \<Longrightarrow> yields (\<lambda>_. solvent Z P coins z) m z"
  by (simp add: yields_solvent)

lemma receiver_solvent:
  fixes Z :: "('t, 'r, 'm, 'x) zenv" 
  assumes W: "world_ok Z coins" and P: "z_proxyAddress Z = P" and calm: "calm Z P prog (ext z)"
  shows "ends (\<lambda>r z'. (\<exists>v. r = Val v) \<and> solvent Z P coins z z')
    (run_receiver Z prog z :: ('h, ('m, 'x) zstate, string option zres) prog)"
  using calm
proof (induction prog arbitrary: z)
  case (RReturn err x)
  then show ?case using benign_solvent [OF W, of P z x] by (simp add: xseq_def xbind_def xlocal_def zmodify_def xret_def zret_def)
next
  case (RSend addr path c ts salt i x k)
  have "yields (\<lambda>_. solvent Z P coins (z\<lparr>ext := x\<rparr>)) (zkgm_Send Z (zcrossing Z addr path False) [] c ts salt i) (z\<lparr>ext := x\<rparr>)"
    using RSend.prems by (intro nested_Send_solvent [OF W]) (simp_all add: zcrossing_def P)
  moreover have "ends (\<lambda>r z''. (\<exists>v. r = Val v) \<and> solvent Z P coins z' z'') 
      (run_receiver Z (k p (ext z')) z' :: ('h, ('m, 'x) zstate, string option zres) prog)" for p z'
    by (rule RSend.IH [OF rangeI rangeI]) (use RSend.prems in simp)
  ultimately show ?case using RSend.prems by (auto intro!: receiver_call [OF _ W])
next
  case (RVoucherTransfer addr path d to n x k)
  then show ?case
    by (auto intro!: receiver_call [OF yields_of_solvent W] voucher_calls_solvent [OF W] simp: zcrossing_def)
next
  case (RVoucherApprove addr path d to n x k)
  then show ?case
    by (auto intro!: receiver_call [OF yields_of_solvent W] voucher_calls_solvent [OF W] simp: zcrossing_def)
qed simp

lemma called_solvent:
  fixes k :: "string option \<Rightarrow> ('h, ('m, 'x) zstate, 'a) zp"
  assumes W: "world_ok Z coins" and P: "z_proxyAddress Z = P" and calm: "\<And>x. calm Z P (prog x) x"
    and k: "\<And>err. solvent_x Z P coins True (k err)"
  shows "solvent_x Z P coins True (xbind (xlocal (zgets ext)) (\<lambda>x. xbind (run_receiver Z (prog x)) k))"
  unfolding solvent.keeps_x_def
proof
  fix z
  have "ends (\<lambda>r z'. (\<exists>v. r = Val v) \<and> solvent Z P coins z z') (run_receiver Z (prog (ext z)) z)"
    by (rule receiver_solvent [OF W P calm])
  moreover have "case r of Val x \<Rightarrow> ends (\<lambda>r z'. good True r \<longrightarrow> solvent Z P coins z z') (k x z')
      | Err e \<Rightarrow> good True (Err e :: 'a zres) \<longrightarrow> solvent Z P coins z z' | Pan e \<Rightarrow> good True (Pan e :: 'a zres) \<longrightarrow> solvent Z P coins z z'
      | Fatal e \<Rightarrow> good True (Fatal e :: 'a zres) \<longrightarrow> solvent Z P coins z z'"
    if r: "(\<exists>v. r = Val v) \<and> solvent Z P coins z z'" for r z'
  proof -
    obtain v where v: "r = Val v" using r by blast
    have "ends (\<lambda>r z''. good True r \<longrightarrow> solvent Z P coins z' z'') (k v z')" using k unfolding solvent.keeps_x_def by blast
    then have "ends (\<lambda>r z''. good True r \<longrightarrow> solvent Z P coins z z'') (k v z')"
      by (rule ends_mono) (use r solvent.trans in blast)
    then show ?thesis using v by simp
  qed
  ultimately have "ends (\<lambda>r z'. good True r \<longrightarrow> solvent Z P coins z z') (pbind (run_receiver Z (prog (ext z)) z) k)"
    by (intro ends_pbind) (rule ends_mono)
  then show "ends (\<lambda>r z'. good True r \<longrightarrow> solvent Z P coins z z')
     (xbind (xlocal (zgets ext)) (\<lambda>x. xbind (run_receiver Z (prog x)) k) z)"
    by (simp add: xbind_def xlocal_def zgets_def)
qed


section \<open>Receipt, acknowledgement and timeout\<close>

lemma branch_x:
  "(b \<Longrightarrow> solvent_x Z P coins all m) \<Longrightarrow> (\<not> b \<Longrightarrow> solvent_x Z P coins all n) \<Longrightarrow> solvent_x Z P coins all (if b then m else n)"
  "(v = None \<Longrightarrow> solvent_x Z P coins all m) \<Longrightarrow> (\<And>x. v = Some x \<Longrightarrow> solvent_x Z P coins all (k x)) \<Longrightarrow>
     solvent_x Z P coins all (case v of None \<Rightarrow> m | Some x \<Rightarrow> k x)"
  "(\<And>e. w = Inl e \<Longrightarrow> solvent_x Z P coins all (h e)) \<Longrightarrow> (\<And>x. w = Inr x \<Longrightarrow> solvent_x Z P coins all (k' x)) \<Longrightarrow>
     solvent_x Z P coins all (case w of Inl e \<Rightarrow> h e | Inr x \<Rightarrow> k' x)"
  "(\<And>a b. u = (a, b) \<Longrightarrow> solvent_x Z P coins all (l a b)) \<Longrightarrow> solvent_x Z P coins all (case u of (a, b) \<Rightarrow> l a b)"
  "(\<And>a b. t = (a, b) \<Longrightarrow> solvent_x Z P coins all (g a b c)) \<Longrightarrow> solvent_x Z P coins all ((case t of (a, b) \<Rightarrow> g a b) c)"
  by (simp_all split: option.splits sum.splits prod.splits)

lemma packetKey_solvent: "solvent_z Z P coins all (packetKey kc p)"
  unfolding packetKey_def by (intro solvent.z_bind solvent.z_atoms)

lemma childData_solvent: "solvent_z Z P coins all (forwardChildData kc packet path salt forward)"
  unfolding forwardChildData_def Let_def
  by (auto intro!: solvent.z_bind solvent.z_atoms split: prod.splits)

lemma forwardChannel_solvent: "solvent_x Z P coins all (verifyForwardChannel E port child)"
  unfolding verifyForwardChannel_def Let_def by (intro solvent.x_rules branch_x)

lemma buildForward_solvent: "solvent_x Z P coins all (buildForwardChild E kc packet path salt forward)"
  unfolding buildForwardChild_def by (intro solvent.x_rules branch_x childData_solvent)

lemma forward_solvent: "solvent_x Z P coins all (executeForward Z E rlm packet salt path forward intent)"
  unfolding executeForward_def
  by (intro solvent.x_rules branch_x buildForward_solvent forwardChannel_solvent packetKey_solvent setters_solvent solvent.z_atoms)

lemma callAcks_solvent: "solvent_x Z P coins all (callErrAck err)" "solvent_x Z P coins all callSuccessAck"
  unfolding callErrAck_def callSuccessAck_def by (intro solvent.x_rules solvent.z_rules)+

lemma call_solvent:
  assumes "world_ok Z coins" "z_proxyAddress Z = P" "receivers_calm Z P"
  shows "solvent_x Z P coins True (executeCall Z packet relayer msg path c intent)"
proof -
  have calm: "calm Z P (OnZkgm Z r e x) x" "calm Z P (OnIntentZkgm Z r e x) x" for r e x
    using assms(3) by (auto simp: receivers_calm_def)
  have "solvent_x Z P coins True (let env = callEnv Z packet relayer msg path c in
    xbind (xlocal (zgets ext)) (\<lambda>x.
              if intent then
                xbind (run_receiver Z (OnIntentZkgm Z receiver env x)) (\<lambda>err.
                if err \<noteq> None then xret onlyMaker else callSuccessAck)
              else
                xbind (run_receiver Z (OnZkgm Z receiver env x)) (\<lambda>err.
                case err of Some msg \<Rightarrow> callErrAck msg | None \<Rightarrow> callSuccessAck)))" for receiver
    by (cases intent)
      (auto simp: Let_def intro!: called_solvent [OF assms(1,2)] calm callAcks_solvent solvent.x_ret split: option.split)
  note run = this [unfolded Let_def]
  show ?thesis
    unfolding executeCall_def Let_def
    by (intro run solvent.x_bind solvent.x_local getters_solvent branch_x callAcks_solvent)
qed

lemma dispatch_solvent:
  assumes "world_ok Z coins" "z_proxyAddress Z = P" "receivers_calm Z P" "Address rlm = P" "IsCurrent rlm" "relayer \<noteq> P"
  shows "solvent_x Z P coins True (dispatchExecutePacket Z E rlm packet relayer msg salt path i intent)"
  using assms
proof (induction Z E rlm packet relayer msg salt path i intent rule: dispatchExecutePacket.induct)
  case (1 Z E rlm packet relayer msg salt path i intent)
  note IH = 1(1) and A = 1(2-)
  show ?case
    unfolding dispatchExecutePacket.simps [of Z E rlm packet relayer msg salt path i intent] Let_def
    by (intro solvent.x_recover solvent.x_with solvent.x_bind solvent.x_loop solvent.x_orFatal solvent.x_local solvent.x_ret
        solvent.x_fail branch_x executeTokenOrder_solvent call_solvent forward_solvent failed_solvent solvent.z_atoms
        solvent.z_orFatal IH A) (assumption | erule sym | rule refl)+
qed


text \<open>Acknowledgements and timeouts abort on an error, so only what ends with a value counts.\<close>

lemma acknowledgeInternal_solvent:
  assumes "world_ok Z coins" "Address rlm = P" "IsCurrent rlm"
  shows "solvent_z Z P coins False (acknowledgeInternal Z rlm packet salt path i good_ack ack)"
  using assms
proof (induction Z rlm packet salt path i good_ack ack rule: acknowledgeInternal.induct)
  case (1 Z rlm packet salt path i good_ack ack)
  note IH = 1(1,2) and A = 1(3-)
  have pair: "(\<And>a b. t = (a, b) \<Longrightarrow> solvent_z Z P coins False (g a b c)) \<Longrightarrow> solvent_z Z P coins False ((case t of (a, b) \<Rightarrow> g a b) c)"
    "(\<And>a b. u = (a, b) \<Longrightarrow> solvent_z Z P coins False (l a b)) \<Longrightarrow> solvent_z Z P coins False (case u of (a, b) \<Rightarrow> l a b)"
    for t :: "nat \<times> Instruction" and g :: "nat \<Rightarrow> Instruction \<Rightarrow> unit \<Rightarrow> (('c, 'd) zstate, unit) zc" and c u
    and l :: "bool \<Rightarrow> bytes \<Rightarrow> (('c, 'd) zstate, unit) zc" by (simp_all split: prod.splits)
  show ?case
    unfolding acknowledgeInternal.simps [of Z rlm packet salt path i good_ack ack] Let_def acknowledgeCall_def
    by (intro solvent.z_with solvent.z_bind solvent.z_each branch_solvent pair acknowledge_solvent solvent.z_atoms IH A)
      (assumption | erule sym | rule refl)+
qed

lemma timeoutInternal_solvent:
  assumes "world_ok Z coins" "Address rlm = P" "IsCurrent rlm"
  shows "solvent_z Z P coins False (timeoutInternal Z rlm packet salt path i)"
  using assms
proof (induction Z rlm packet salt path i rule: timeoutInternal.induct)
  case (1 Z rlm packet salt path i)
  note IH = 1(1,2) and A = 1(3-)
  have pair: "(\<And>a b. t = (a, b) \<Longrightarrow> solvent_z Z P coins False (g a b c)) \<Longrightarrow> solvent_z Z P coins False ((case t of (a, b) \<Rightarrow> g a b) c)"
    for t :: "nat \<times> Instruction" and g :: "nat \<Rightarrow> Instruction \<Rightarrow> unit \<Rightarrow> (('c, 'd) zstate, unit) zc" and c
    by (simp split: prod.splits)
  show ?case
    unfolding timeoutInternal.simps [of Z rlm packet salt path i] Let_def timeoutCall_def
    by (intro solvent.z_with solvent.z_bind solvent.z_each branch_solvent pair refund_solvent solvent.z_atoms IH A)
      (assumption | erule sym | rule refl)+
qed

lemma recv_solvent:
  assumes "world_ok Z coins" "z_proxyAddress Z = P" "receivers_calm Z P" "Address rlm = P" "IsCurrent rlm" "relayer \<noteq> P"
  shows "solvent_x Z P coins all (recvDecoded Z E rlm packet relayer msg intent)"
  unfolding recvDecoded_def [abs_def]
proof (rule solvent.x_pmap [of Z P coins True])
  show "solvent_x Z P coins True (xwith (codecRes (DecodeZkgmPacket (Data packet)))
     (\<lambda>zp. dispatchExecutePacket Z E rlm packet relayer msg (zp_Salt zp) (zp_Path zp) (zp_Instruction zp) intent))"
    by (intro solvent.x_with dispatch_solvent assms)
qed (auto simp: xlocal_def zfatal_def failed_def universalErrorAck_def intro!: solvent.x_rules solvent.z_rules elim: good.elims split: zres.split)

lemma handleForward_solvent: "solvent_x Z P coins all (handleForwardChild Z rlm packet zp ack)"
  unfolding handleForwardChild_def
  by (intro solvent.x_rules branch_x packetKey_solvent getters_solvent setters_solvent solvent.z_atoms)

lemma gate_solvent: "solvent_x Z P coins all m \<Longrightarrow> solvent_x Z P coins all (app_gate cur m)"
  unfolding app_gate_def assertIsCoreRealm_def
  by (intro solvent.x_seq solvent.x_local branch_solvent solvent.z_atoms paused_solvent)

lemma OnRecv_solvent:
  assumes "world_ok Z coins" "z_proxyAddress Z = P" "receivers_calm Z P" "Address cur = P" "IsCurrent cur" "relayer \<noteq> P"
  shows "solvent_x Z P coins all (app_gate cur (v1_OnRecvPacket Z E cur packet relayer msg))"
    "solvent_x Z P coins all (app_gate cur (v1_OnIntentRecvPacket Z E cur packet relayer msg))"
  unfolding v1_OnRecvPacket_def v1_OnIntentRecvPacket_def
  by (intro gate_solvent solvent.x_rules branch_x recv_solvent solvent.z_atoms assms)+

lemma OnAck_solvent:
  assumes "world_ok Z coins" "Address cur = P" "IsCurrent cur"
  shows "solvent_x Z P coins False (app_gate cur (v1_OnAcknowledgementPacket Z cur packet ack))"
    "solvent_x Z P coins False (app_gate cur (v1_OnTimeoutPacket Z cur packet))"
  unfolding v1_OnAcknowledgementPacket_def v1_OnTimeoutPacket_def universalErrorAck_def
  by (intro gate_solvent solvent.x_rules solvent.x_orPanic branch_x handleForward_solvent acknowledgeInternal_solvent
      timeoutInternal_solvent solvent.z_atoms assms)+

end
