(* ===== verification/ZkgmAdmin.thy ===== *)
theory ZkgmAdmin
  imports ZkgmReach
begin

text \<open>
  The administration of the ZKGM realm (\<^verbatim>\<open>admin.gno\<close>, \<^verbatim>\<open>access.gno\<close>): the rate-limit buckets, the switch that turns rate
  limits off and the pause, each behind its selector of the access realm.
\<close>

definition SelectorSetBucketConfig :: Selector where "SelectorSetBucketConfig = ''set_bucket_config''"
definition SelectorSetRateLimitDisabled :: Selector where "SelectorSetRateLimitDisabled = ''set_rate_limit_disabled''"
definition SelectorPausable :: Selector where "SelectorPausable = ''pausable''"

datatype admin_error = Denied access_error | Failed_call zkgm_error

text \<open>A call of the realm: the gate, then what it does; an error or a panic aborts it.\<close>

definition admin_gate :: "access_realm \<Rightarrow> TimePoint \<Rightarrow> zrealm \<Rightarrow> Selector \<Rightarrow> ('s, unit) zc \<Rightarrow> 's \<Rightarrow> admin_error + 's" where
  "admin_gate A now cur selector m s =
     (case AssertCanCall A now (realm.truncate cur) selector of
        Inl e \<Rightarrow> Inl (Denied e)
      | Inr _ \<Rightarrow> (case m s of (Val _, s') \<Rightarrow> Inr s' | (Err e, _) \<Rightarrow> Inl (Failed_call e) | (Pan e, _) \<Rightarrow> Inl (Failed_call e)
          | (Fatal e, _) \<Rightarrow> Inl (Failed_call e)))"

definition SetBucketConfig ::
    "('t, 'r, 'm, 'x) zenv \<Rightarrow> access_realm \<Rightarrow> TimePoint \<Rightarrow> zrealm \<Rightarrow> string \<Rightarrow> uint256 \<Rightarrow> uint256 \<Rightarrow>
     ('m, 'x) zstate \<Rightarrow> admin_error + ('m, 'x) zstate" where
  "SetBucketConfig Z A now cur denom capacity refillRate =
     admin_gate A now cur SelectorSetBucketConfig
       (zbind (GetTokenBucket Z denom) (\<lambda>found.
        case found of
          None \<Rightarrow>
            zbind (zgets (\<lambda>s. z_Unix Z (ext s))) (\<lambda>time.
            case NewTokenBucket capacity refillRate (NewUint (word_of_int time)) of
              Inl e \<Rightarrow> zpanic (errBucket e)
            | Inr bucket \<Rightarrow> SetTokenBucket Z cur denom bucket)
        | Some bucket \<Rightarrow>
            (case UpdateBucket bucket capacity refillRate False of
               (bucket', None) \<Rightarrow> updateBucket Z denom bucket'
             | (bucket', Some e) \<Rightarrow> zpanic (errBucket e))))"

definition SetRateLimitDisabled ::
    "access_realm \<Rightarrow> TimePoint \<Rightarrow> zrealm \<Rightarrow> bool \<Rightarrow> ('m, 'x) zstate \<Rightarrow> admin_error + ('m, 'x) zstate" where
  "SetRateLimitDisabled A now cur disabled =
     admin_gate A now cur SelectorSetRateLimitDisabled (store_SetRateLimitDisabled cur disabled)"

definition Pausable :: "access_realm \<Rightarrow> TimePoint \<Rightarrow> zrealm \<Rightarrow> bool \<Rightarrow> ('m, 'x) zstate \<Rightarrow> admin_error + ('m, 'x) zstate" where
  "Pausable A now cur p = admin_gate A now cur SelectorPausable (zmodify (\<lambda>s. s\<lparr>paused := p\<rparr>))"

datatype admin_call = ABucket string uint256 uint256 | ARateLimit bool | APause bool

fun administer ::
    "('t, 'r, 'm, 'x) zenv \<Rightarrow> access_realm \<Rightarrow> TimePoint \<Rightarrow> zrealm \<Rightarrow> admin_call \<Rightarrow> ('m, 'x) zstate \<Rightarrow> admin_error + ('m, 'x) zstate" where
  "administer Z A now cur (ABucket denom capacity rate) s = SetBucketConfig Z A now cur denom capacity rate s"
| "administer Z A now cur (ARateLimit b) s = SetRateLimitDisabled A now cur b s"
| "administer Z A now cur (APause b) s = Pausable A now cur b s"

section \<open>What a call can change\<close>

lemma gate_run:
  assumes "admin_gate A now cur selector m s = Inr s'"
  shows "IsCurrent cur" "CanCall (accessState A) now (PrevAddress cur) (PkgPath cur) selector" "\<exists>u. m s = (Val u, s')"
  using assms by (auto simp: admin_gate_def AssertCanCall_def realm.truncate_def split: sum.splits prod.splits zres.splits if_splits)

lemma administer_solvent:
  assumes "administer Z A now cur c s = Inr s'"
  shows "solvent Z P coins s s'"
proof -
  have bucket: "solvent_z Z P coins all (zbind (GetTokenBucket Z denom) (\<lambda>found.
        case found of
          None \<Rightarrow>
            zbind (zgets (\<lambda>s. z_Unix Z (ext s))) (\<lambda>time.
            case NewTokenBucket capacity refillRate (NewUint (word_of_int time)) of
              Inl e \<Rightarrow> zpanic (errBucket e)
            | Inr bucket \<Rightarrow> SetTokenBucket Z cur denom bucket)
        | Some bucket \<Rightarrow>
            (case UpdateBucket bucket capacity refillRate False of
               (bucket', None) \<Rightarrow> updateBucket Z denom bucket'
             | (bucket', Some e) \<Rightarrow> zpanic (errBucket e))))" for all denom capacity refillRate
    by (intro solvent.z_rules getters_solvent setters_solvent branch_solvent
        | auto intro!: solvent.z_rules getters_solvent setters_solvent split: option.splits sum.splits prod.splits)+
  have switch: "solvent_z Z P coins all (store_SetRateLimitDisabled cur b)" "solvent_z Z P coins all (zmodify (\<lambda>s. s\<lparr>paused := b\<rparr>))" for all b
    unfolding store_SetRateLimitDisabled_def
    by (intro solvent.z_seq solvent.z_atoms solvent.zI; auto simp: zmodify_def intro!: solvent_view)+
  show ?thesis
    using assms solvent.zD [OF bucket] solvent.zD [OF switch(1)] solvent.zD [OF switch(2)]
    by (cases c) (auto simp: SetBucketConfig_def SetRateLimitDisabled_def Pausable_def dest!: gate_run(3))
qed

text \<open>Who administers has a role that the access realm lets call the selector of the call.\<close>

fun admin_selector :: "admin_call \<Rightarrow> Selector" where
  "admin_selector (ABucket denom capacity rate) = SelectorSetBucketConfig"
| "admin_selector (ARateLimit b) = SelectorSetRateLimitDisabled"
| "admin_selector (APause b) = SelectorPausable"

lemma administer_permitted:
  assumes "administer Z A now cur c s = Inr s'"
  shows "CanCall (accessState A) now (PrevAddress cur) (PkgPath cur) (admin_selector c)"
  using assms by (cases c) (auto simp: SetBucketConfig_def SetRateLimitDisabled_def Pausable_def dest: gate_run(2))

section \<open>The pause\<close>

text \<open>While the application is paused, the host's callbacks and the users' calls abort, whatever they are.\<close>

lemma paused_refuses:
  assumes "paused w"
  shows "App_OnRecvPacket Z E cur w packet relayer msg = AppPanics" "App_OnIntentRecvPacket Z E cur w packet relayer msg = AppPanics"
    "App_OnAcknowledgementPacket Z cur w packet ack = AppPanics" "App_OnTimeoutPacket Z cur w packet = AppPanics"
    "App_OnChannelOpenInit cur w v = AppPanics" "App_OnChannelOpenTry cur w v cv = AppPanics"
    "App_OnChannelOpenAck cur w cv = AppPanics" "App_OnChannelOpenConfirm cur w = AppPanics"
    "settle (zkgm_Send Z cur sent c ts salt i w) = AppPanics"
    "settle (zkgm_VoucherTransfer Z cur d to n w) = AppPanics" "settle (zkgm_VoucherApprove Z cur d to n w) = AppPanics"
  using assms
  by (simp_all add: App_OnRecvPacket_def App_OnIntentRecvPacket_def App_OnAcknowledgementPacket_def App_OnTimeoutPacket_def
      App_OnChannelOpenInit_def App_OnChannelOpenTry_def App_OnChannelOpenAck_def App_OnChannelOpenConfirm_def app_gate_def
      assertIsCoreRealm_def assertIsNotPaused_def zkgm_Send_def zkgm_VoucherTransfer_def zkgm_VoucherApprove_def
      xseq_def xbind_def xlocal_def zbind_def zgets_def zret_def zpanic_def xorPanic_def)

end
