(* ===== verification/CoreWorld.thy ===== *)
theory CoreWorld
  imports CoreLifecycle ZkgmRules
begin

text \<open>
  What the host's transactions do to the state of the apps: nothing but what the apps' own callbacks do. A relation
  that the callbacks of every app keep between the state they are given and the state they leave is therefore kept by
  every entry point of the host.
\<close>

section \<open>The host's own steps leave the apps' state alone\<close>

lemma world_reads:
  "unchanged world (store_GetConnection E c)" "unchanged world (getChannelEntry E c)" "unchanged world (getClientOrErr i)"
  "unchanged world (HasPacketCommitment E q)" "unchanged world (HasPacketReceipt E q)" "unchanged world (appOrNil p)"
  "unchanged world (AcknowledgementReceipt E q)" "unchanged world (PacketCommitment E q)"
  "unchanged world (getAppAtPort p)" "unchanged world (appForClose p)" "unchanged world (assertPacketDataSize d)"
  unfolding store_GetConnection_def getChannelEntry_def getClientOrErr_def HasPacketCommitment_def HasPacketReceipt_def
    AcknowledgementReceipt_def PacketCommitment_def appOrNil_def getAppAtPort_def appForClose_def assertPacketDataSize_def
  by (intro unchanged_intros)+

lemma world_writes:
  "unchanged world (setChainParam k v)" "unchanged world (emit E rlm n attrs)" "unchanged world (emitAttrs E rlm n as)"
  "unchanged world (emitSized E rlm n b as)" "unchanged world (onClient i h)"
  "unchanged world (RegisterAppAtPort rlm b a)" "unchanged world (registerClient typ impl)"
  "unchanged world (nextClientId E)" "unchanged world (addClient E i typ cr lc)"
  "unchanged world (setCommitment pth val)" "unchanged world (setCommitmentMem pth val)"
  "unchanged world (NextConnectionId E rlm)" "unchanged world (SaveConnection E rlm ci cn)"
  "unchanged world (NextChannelId E rlm)" "unchanged world (CreateChannel E rlm hi ch p)"
  "unchanged world (SaveChannel E rlm hi ch)"
  unfolding setChainParam_def emit_def emitAttrs_def emitSized_def onClient_def RegisterAppAtPort_def
    registerClient_def nextClientId_def addClient_def setCommitment_def setCommitmentMem_def
    NextConnectionId_def SaveConnection_def NextChannelId_def CreateChannel_def SaveChannel_def
  by (intro unchanged_intros unchanged_modify world_reads; simp)+

lemma world_steps:
  "unchanged world (store_GetChannel E c)" "unchanged world (store_GetChannelOwner E c)" "unchanged world (getChannel E c)"
  "unchanged world (ownerOrNil E c)" "unchanged world (ensureConnectionState E cn)" "unchanged world (getActiveClient E i)"
  "unchanged world (verifyMembership E i hh prf kk vv)" "unchanged world (verifyNonMembership E i hh prf kk)"
  "unchanged world (SaveClientStore rlm i key v)" "unchanged world (SetLightClient rlm i lc)"
  "unchanged world (SaveClientState E rlm i b)" "unchanged world (SaveConsensusState E rlm i hh b)"
  "unchanged world (updateObject i lc)" "unchanged world (AddClient E rlm typ cr lc)" "unchanged world (store_RegisterClient rlm typ impl)"
  "unchanged world (SaveMembershipProof E rlm i n b v')" "unchanged world (SaveNonMembershipProof E rlm i n b v')"
  "unchanged world (store_CommitPacket E rlm q)" "unchanged world (SetPacketAcknowledged E rlm q)"
  "unchanged world (SetPacketReceipt E rlm q)" "unchanged world (CommitAcknowledgement E rlm q b)"
  "unchanged world (SaveBatchPackets E rlm h v)" "unchanged world (SaveBatchReceipts E rlm h v)"
  unfolding store_GetChannel_def store_GetChannelOwner_def getChannel_def ownerOrNil_def ensureConnectionState_def
    getActiveClient_def verifyMembership_def verifyNonMembership_def SaveClientStore_def SetLightClient_def SaveClientState_def
    saveClientState_def SaveConsensusState_def saveConsensusState_def updateObject_def AddClient_def store_RegisterClient_def
    SaveMembershipProof_def SaveNonMembershipProof_def store_CommitPacket_def SetPacketAcknowledged_def SetPacketReceipt_def
    CommitAcknowledgement_def SaveBatchPackets_def SaveBatchReceipts_def
  by (intro unchanged_intros unchanged_modify world_reads world_writes; simp)+

lemma world_init:
  "unchanged world (saveStorageWrites rlm i ws)" "unchanged world (initClient E rlm i b1 b2 rel)"
  "unchanged world (markPacketAcknowledged E rlm p)" "unchanged world (acceptRecvPacket E rlm p c now)"
  unfolding saveStorageWrites_def initClient_def markPacketAcknowledged_def acceptRecvPacket_def
  by (intro unchanged_intros world_reads world_writes world_steps)+

lemma world_commitSyncAck: "unchanged world (commitSyncAck E rlm p ch cn res)"
  unfolding commitSyncAck_def EmitWriteAck_def
  by (cases "res_Status res"; simp; intro unchanged_intros world_writes world_steps)

lemmas world_all = world_reads world_writes world_steps world_init world_commitSyncAck

lemma world_calls:
  "unchanged world (RegisterClient E rlm typ impl)" "unchanged world (CreateClient E rlm m1)" "unchanged world (UpdateClient E rlm m2)"
  "unchanged world (ForceUpdateClient E rlm m3)" "unchanged world (Misbehaviour E rlm m4)" "unchanged world (RegisterApp E rlm a)"
  "unchanged world (CommitMembershipProof E rlm m5)" "unchanged world (CommitNonMembershipProof E rlm m6)"
  "unchanged world (ConnectionOpenInit E rlm m7)" "unchanged world (connectionOpenTry E rlm m8 b)"
  "unchanged world (connectionOpenAck E rlm m9 b)" "unchanged world (connectionOpenConfirm E rlm m10 b)"
  "unchanged world (SendPacket E rlm c ts d)" "unchanged world (WriteAcknowledgement E rlm m11)"
  "unchanged world (BatchSend E rlm m12)" "unchanged world (BatchAcks E rlm m13)"
  unfolding RegisterClient_def EmitRegisterClient_def CreateClient_def EmitCreateClient_def UpdateClient_def EmitUpdateClient_def
    ForceUpdateClient_def EmitForceUpdateClient_def Misbehaviour_def EmitMisbehaviour_def RegisterApp_def EmitAppRegistered_def
    CommitMembershipProof_def EmitCommitMembershipProof_def CommitNonMembershipProof_def EmitCommitNonMembershipProof_def
    ConnectionOpenInit_def EmitConnectionOpenInit_def connectionOpenTry_def EmitConnectionOpenTry_def
    connectionOpenAck_def EmitConnectionOpenAck_def connectionOpenConfirm_def EmitConnectionOpenConfirm_def
    SendPacket_def EmitPacketSend_def WriteAcknowledgement_def EmitWriteAck_def
    BatchSend_def BatchAcks_def batchSendOne_def batchAckOne_def EmitBatchSend_def EmitBatchAcks_def
  by (intro unchanged_intros world_all)+

section \<open>Interface: a relation kept by the callbacks\<close>

locale apps_keep =
  fixes E :: "('t, 'lc, 'app, 'w) env" and R :: "'w \<Rightarrow> 'w \<Rightarrow> bool" and fine :: "address \<Rightarrow> bool"
  assumes refl: "R w w" and trans: "R w v \<Longrightarrow> R v u \<Longrightarrow> R w u"
    and openInit: "fine r \<Longrightarrow> ends (\<lambda>_. R w) (OnChannelOpenInit E a w ci hi ver r)"
    and openTry: "fine r \<Longrightarrow> ends (\<lambda>_. R w) (OnChannelOpenTry E a w ci hi ver cv r)"
    and openAck: "fine r \<Longrightarrow> ends (\<lambda>_. R w) (OnChannelOpenAck E a w hi hj cv r)"
    and confirm: "fine r \<Longrightarrow> ends (\<lambda>_. R w) (OnChannelOpenConfirm E a w hi r)"
    and closeInit: "fine r \<Longrightarrow> ends (\<lambda>_. R w) (OnChannelCloseInit E a w hi r)"
    and closeConfirm: "fine r \<Longrightarrow> ends (\<lambda>_. R w) (OnChannelCloseConfirm E a w hi r)"
    and recv: "fine r \<Longrightarrow> ends (\<lambda>_. R w) (OnRecvPacket E a w p r msg)"
    and intentRecv: "fine r \<Longrightarrow> ends (\<lambda>_. R w) (OnIntentRecvPacket E a w p r msg)"
    and ack: "fine r \<Longrightarrow> ends (\<lambda>_. R w) (OnAcknowledgementPacket E a w p bz r)"
    and timeout: "fine r \<Longrightarrow> ends (\<lambda>_. R w) (OnTimeoutPacket E a w p r)"
begin

lemma world_kept: "unchanged world m \<Longrightarrow> keeps {} (\<lambda>s. R w (world s)) m"
  by (erule unchanged_keeps) simp

lemma callApp_kept:
  fixes cb :: "'app \<Rightarrow> 'w \<Rightarrow> (('t, 'lc, 'app, 'w) core, 'w, 'r) prog"
  assumes "\<And>app v. ends (\<lambda>_. R v) (cb app v)"
  shows "keeps {} (\<lambda>s. R w (world s)) (callApp E a cb)"
proof (rule keepsI)
  fix s :: "('t, 'lc, 'app, 'w) core" assume s: "R w (world s)"
  have "R (world s) (world s')" if "run_prog E (cb app (world s)) s = Inr (r, s')" for app and r :: 'r and s' :: "('t, 'lc, 'app, 'w) core"
    using run_prog_ends [OF that assms] .
  then show "wp {} (callApp E a cb) (\<lambda>_ s. R w (world s)) s"
    using trans [OF s] by (auto simp: callApp_def wp_def panic_def bind_def gets_def split: option.split sum.split)
qed

lemma call_kept:
  assumes "fine (PrevAddress rlm)"
  shows "keeps {} (\<lambda>s. R w (world s)) (call E rlm now c)"
proof -
  note unf = ConnectionOpenTry_def ForceConnectionOpenTry_def ConnectionOpenAck_def ForceConnectionOpenAck_def
    ConnectionOpenConfirm_def ForceConnectionOpenConfirm_def ChannelOpenTry_def ForceChannelOpenTry_def
    ChannelOpenAck_def ForceChannelOpenAck_def ChannelOpenConfirm_def ForceChannelOpenConfirm_def
  have channels: "keeps {} (\<lambda>s. R w (world s)) (ChannelOpenInit E rlm m1)" "keeps {} (\<lambda>s. R w (world s)) (channelOpenTry E rlm m2 b)"
    "keeps {} (\<lambda>s. R w (world s)) (channelOpenAck E rlm m3 b)" "keeps {} (\<lambda>s. R w (world s)) (channelOpenConfirm E rlm m4 b)"
    "keeps {} (\<lambda>s. R w (world s)) (ChannelCloseInit E rlm m5)" "keeps {} (\<lambda>s. R w (world s)) (ChannelCloseConfirm E rlm m6)"
    for m1 m2 m3 m4 m5 m6 b
    unfolding ChannelOpenInit_def channelOpenTry_def channelOpenAck_def channelOpenConfirm_def ChannelCloseInit_def ChannelCloseConfirm_def
      EmitChannelOpenInit_def EmitChannelOpenTry_def EmitChannelOpenAck_def EmitChannelOpenConfirm_def EmitChannelCloseInit_def
      EmitChannelCloseConfirm_def
    by (intro keeps_intros world_all [THEN world_kept] callApp_kept openInit openTry openAck confirm closeInit closeConfirm assms; simp)+
  have packets: "keeps {} (\<lambda>s. R w (world s)) (PacketRecv E rlm now m1)" "keeps {} (\<lambda>s. R w (world s)) (IntentPacketRecv E rlm now m2)"
    "keeps {} (\<lambda>s. R w (world s)) (PacketAcknowledgement E rlm m3)" "keeps {} (\<lambda>s. R w (world s)) (PacketTimeout E rlm m4)"
    for m1 m2 m3 m4
    unfolding PacketRecv_def IntentPacketRecv_def PacketAcknowledgement_def PacketTimeout_def EmitPacketTimeout_def
      recvOne_def intentOne_def ackOne_def EmitPacketRecv_def EmitIntentPacketRecv_def EmitPacketAck_def
    by (intro keeps_intros world_all [THEN world_kept] callApp_kept recv intentRecv ack timeout assms; simp)+
  have current: "keeps {} (\<lambda>s. R w (world s)) m \<Longrightarrow> keeps {} (\<lambda>s. R w (world s)) (andthen (assertIsRlmCurrent rlm) m)"
    for m :: "(('t, 'lc, 'app, 'w) core, unit) comp"
    by (intro keeps_intros) simp_all
  show ?thesis
    by (cases c) (auto simp: unf intro!: current channels packets world_calls [THEN world_kept] keeps_intros keeps_modify)
qed

lemma call_relates:
  "call E rlm now c s = Inr ((), s') \<Longrightarrow> fine (PrevAddress rlm) \<Longrightarrow> R (world s) (world s')"
  using keeps_run [OF call_kept] refl by blast

end

end
