(* ===== verification/ZkgmSample.thy ===== *)
theory ZkgmSample
  imports ZkgmSolvent
begin

text \<open>
  A small world that satisfies the laws of \<open>world_ok\<close>: ledgers that are functions, tokens numbered in the order they
  are made and listed under their keys, one coin of the bank, and receivers that accept every call.
\<close>

record sample_world =
  sw_tokens :: "nat \<Rightarrow> address \<Rightarrow> int"
  sw_coins :: "string \<Rightarrow> address \<Rightarrow> int"
  sw_registry :: "string \<Rightarrow> nat option"
  sw_made :: nat

definition moved :: "('k \<Rightarrow> address \<Rightarrow> int) \<Rightarrow> 'k \<Rightarrow> (address \<Rightarrow> int) \<Rightarrow> 'k \<Rightarrow> address \<Rightarrow> int" where
  "moved f k change k' a = f k' a + (if k' = k then change a else 0)"

definition move_tokens :: "bool \<Rightarrow> nat \<Rightarrow> (address \<Rightarrow> int) \<Rightarrow> sample_world \<Rightarrow> foreign \<times> sample_world" where
  "move_tokens b t change x =
     (if b then (Fine, x\<lparr>sw_tokens := moved (sw_tokens x) t change\<rparr>) else (Failed ''refused'', x))"

definition move_coins :: "bool \<Rightarrow> string \<Rightarrow> (address \<Rightarrow> int) \<Rightarrow> sample_world \<Rightarrow> foreign \<times> sample_world" where
  "move_coins b d change x =
     (if b then (Fine, x\<lparr>sw_coins := moved (sw_coins x) d change\<rparr>) else (Failed ''refused'', x))"

type_synonym sample_tree = "string \<Rightarrow> (nat, unit) zany option"

definition sample_zenv :: "(nat, unit, sample_tree, sample_world) zenv" where
  "sample_zenv =
     \<lparr>z_keccak = (\<lambda>b. take 32 (b @ replicate 32 0)), z_proxyPkgPath = ''zkgm'', z_proxyAddress = ''proxy'',
      zt_New = Map.empty, zt_Get = (\<lambda>m k. m k), zt_Set = (\<lambda>m k v. m(k \<mapsto> v)), zt_Remove = (\<lambda>m k. m(k := None)),
      reg_Get = (\<lambda>x. (sw_registry x)(''ugnot'' := None)),
      reg_Register = (\<lambda>t k x. if k = ''ugnot'' \<or> sw_registry x k \<noteq> None then None
         else Some (x\<lparr>sw_registry := (sw_registry x)(k \<mapsto> t)\<rparr>)),
      fq_Construct = (\<lambda>p s. p @ ''.'' @ s), grc20_MaxDecimals = 18, grc20_MaxSymbolLen = 11,
      tok_New = (\<lambda>n s d x. if d = 6 then Some (sw_made x, x\<lparr>sw_made := sw_made x + 1\<rparr>) else None),
      tok_Decimals = (\<lambda>_. 6), tok_BalanceOf = sw_tokens,
      ledger_Mint = (\<lambda>t a n x. move_tokens (0 \<le> n) t (\<lambda>b. if b = a then n else 0) x),
      ledger_Burn = (\<lambda>t a n x. move_tokens (0 \<le> n \<and> n \<le> sw_tokens x t a) t (\<lambda>b. if b = a then - n else 0) x),
      ledger_Transfer = (\<lambda>t a b n x. move_tokens (0 \<le> n \<and> n \<le> sw_tokens x t a) t (transfer a b n) x),
      teller_Transfer = (\<lambda>t a b n x. move_tokens (0 \<le> n \<and> n \<le> sw_tokens x t a) t (transfer a b n) x),
      teller_TransferFrom = (\<lambda>t s a b n x. move_tokens (0 \<le> n \<and> n \<le> sw_tokens x t a) t (transfer a b n) x),
      teller_Approve = (\<lambda>t a b n x. (Fine, x)),
      bank_SendCoins = (\<lambda>a b d n x. move_coins (0 \<le> n \<and> n \<le> sw_coins x d a) d (transfer a b n) x),
      bank_Balance = sw_coins, z_Unix = (\<lambda>_. 0),
      OnZkgm = (\<lambda>_ _ x. RReturn None x), OnIntentZkgm = (\<lambda>_ _ x. RReturn None x)\<rparr>"

lemma sample_ops:
  "move_tokens b t change x = (f, x') \<Longrightarrow> sw_registry x' = sw_registry x \<and> (if f = Fine
     then sw_coins x' = sw_coins x \<and> (\<forall>t' a. sw_tokens x' t' a = sw_tokens x t' a + (if t' = t then change a else 0))
     else x' = x)"
  "move_coins b d change x = (f, x') \<Longrightarrow> sw_registry x' = sw_registry x \<and> (if f = Fine
     then sw_tokens x' = sw_tokens x \<and> (\<forall>d' a. sw_coins x' d' a = sw_coins x d' a + (if d' = d then change a else 0))
     else x' = x)"
  by (auto simp: move_tokens_def move_coins_def moved_def split: if_splits)

lemma sample_world_ok: "world_ok sample_zenv {''ugnot''}"
proof -
  have tokens: "token_op sample_zenv (\<lambda>x. move_tokens (b x) t change x) t change" for b t change
    unfolding token_op_def
    by (intro allI impI, drule sample_ops(1)) (simp add: sample_zenv_def same_holdings_def split: if_splits)
  have coins: "coin_op sample_zenv (\<lambda>x. move_coins (b x) d change x) d change" for b d change
    unfolding coin_op_def
    by (intro allI impI, drule sample_ops(2)) (simp add: sample_zenv_def same_holdings_def split: if_splits)
  have approve: "token_op sample_zenv (\<lambda>x. (Fine, x)) t (\<lambda>_. 0)" for t
    by (simp add: token_op_def)
  have fields: "ledger_Mint sample_zenv t a n = (\<lambda>x. move_tokens (0 \<le> n) t (\<lambda>b. if b = a then n else 0) x)"
    "ledger_Burn sample_zenv t a n = (\<lambda>x. move_tokens (0 \<le> n \<and> n \<le> sw_tokens x t a) t (\<lambda>b. if b = a then - n else 0) x)"
    "ledger_Transfer sample_zenv t a b' n = (\<lambda>x. move_tokens (0 \<le> n \<and> n \<le> sw_tokens x t a) t (transfer a b' n) x)"
    "teller_Transfer sample_zenv t a b' n = (\<lambda>x. move_tokens (0 \<le> n \<and> n \<le> sw_tokens x t a) t (transfer a b' n) x)"
    "teller_TransferFrom sample_zenv t s a b' n = (\<lambda>x. move_tokens (0 \<le> n \<and> n \<le> sw_tokens x t a) t (transfer a b' n) x)"
    "teller_Approve sample_zenv t a b' n = (\<lambda>x. (Fine, x))"
    "bank_SendCoins sample_zenv a b' d n = (\<lambda>x. move_coins (0 \<le> n \<and> n \<le> sw_coins x d a) d (transfer a b' n) x)"
    for t a b' n s d
    by (simp_all add: sample_zenv_def fun_eq_iff)
  have tree: "tree_ok sample_zenv" by (simp add: tree_ok_def sample_zenv_def)
  show ?thesis
    unfolding world_ok_def fields
    by (intro conjI allI impI tokens coins approve tree)
      (auto simp: sample_zenv_def same_holdings_def move_tokens_def split: if_splits)
qed

end
