(* ===== verification/ZkgmHost.thy ===== *)
theory ZkgmHost
  imports ZkgmAdmin CoreWorld ZkgmSample
begin

text \<open>
  The application on the host: the host's environment with the application's callbacks in it, every state the two can
  reach together, and solvency in all of them. Other apps of the host may be anything that leaves the proxy's holdings
  alone.
\<close>

section \<open>The host with the application registered\<close>

text \<open>The realm token of a callback: the host's realm, at address \<open>addr\<close>, crosses into the proxy.\<close>

definition hostRealm :: "('t, 'r, 'm, 'x) zenv \<Rightarrow> address \<Rightarrow> zrealm" where
  "hostRealm Z addr = zcrossing Z addr CoreRealmPath False"

text \<open>The methods of \<^verbatim>\<open>type App struct\<close> (app.gno), for the app \<open>z\<close>; every other app is the environment's.\<close>

definition zkgm_env ::
    "('t, 'r, 'm, 'x) zenv \<Rightarrow> address \<Rightarrow> 'app \<Rightarrow> ('c, 'lc, 'app, ('m, 'x) zstate) env \<Rightarrow> ('c, 'lc, 'app, ('m, 'x) zstate) env" where
  "zkgm_env Z addr z E =
     (let cur = hostRealm Z addr in
      E\<lparr>OnChannelOpenInit := (\<lambda>a w ci hi v r. if a = z then App_OnChannelOpenInit cur w v else OnChannelOpenInit E a w ci hi v r),
        OnChannelOpenTry := (\<lambda>a w ci hi v cv r. if a = z then App_OnChannelOpenTry cur w v cv else OnChannelOpenTry E a w ci hi v cv r),
        OnChannelOpenAck := (\<lambda>a w hi hj cv r. if a = z then App_OnChannelOpenAck cur w cv else OnChannelOpenAck E a w hi hj cv r),
        OnChannelOpenConfirm := (\<lambda>a w hi r. if a = z then App_OnChannelOpenConfirm cur w else OnChannelOpenConfirm E a w hi r),
        OnChannelCloseInit := (\<lambda>a w hi r. if a = z then App_OnChannelClose cur w else OnChannelCloseInit E a w hi r),
        OnChannelCloseConfirm := (\<lambda>a w hi r. if a = z then App_OnChannelClose cur w else OnChannelCloseConfirm E a w hi r),
        OnRecvPacket := (\<lambda>a w p r m. if a = z then App_OnRecvPacket Z E cur w p r m else OnRecvPacket E a w p r m),
        OnIntentRecvPacket := (\<lambda>a w p r m. if a = z then App_OnIntentRecvPacket Z E cur w p r m else OnIntentRecvPacket E a w p r m),
        OnAcknowledgementPacket := (\<lambda>a w p b r. if a = z then App_OnAcknowledgementPacket Z cur w p b else OnAcknowledgementPacket E a w p b r),
        OnTimeoutPacket := (\<lambda>a w p r. if a = z then App_OnTimeoutPacket Z cur w p else OnTimeoutPacket E a w p r)\<rparr>)"

text \<open>\<^verbatim>\<open>RegisterCoreApp\<close> (register.gno): the proxy crosses into the host.\<close>

definition RegisterCoreApp ::
    "('t, 'r, 'm, 'x) zenv \<Rightarrow> 'app \<Rightarrow> ('c, 'lc, 'app, ('m, 'x) zstate) env \<Rightarrow> (('c, 'lc, 'app, ('m, 'x) zstate) core, unit) comp" where
  "RegisterCoreApp Z z E = RegisterApp E (crossing E (z_proxyAddress Z) (z_proxyPkgPath Z)) (Some z)"

section \<open>What is relied on of the surroundings\<close>

text \<open>Another app, however it ends, has changed the world at most and left the proxy's holdings.\<close>

definition others_calm ::
    "('t, 'r, 'm, 'x) zenv \<Rightarrow> 'app \<Rightarrow> ('c, 'lc, 'app, ('m, 'x) zstate) env \<Rightarrow> bool" where
  "others_calm Z z E \<longleftrightarrow>
     (let calmly = (\<lambda>w w'. \<exists>x. w' = w\<lparr>ext := x\<rparr> \<and> benign Z (z_proxyAddress Z) (ext w) x) in
      \<forall>a w. a \<noteq> z \<longrightarrow>
       (\<forall>ci hi v r. ends (\<lambda>_. calmly w) (OnChannelOpenInit E a w ci hi v r)) \<and>
       (\<forall>ci hi v cv r. ends (\<lambda>_. calmly w) (OnChannelOpenTry E a w ci hi v cv r)) \<and>
       (\<forall>hi hj cv r. ends (\<lambda>_. calmly w) (OnChannelOpenAck E a w hi hj cv r)) \<and>
       (\<forall>hi r. ends (\<lambda>_. calmly w) (OnChannelOpenConfirm E a w hi r)) \<and>
       (\<forall>hi r. ends (\<lambda>_. calmly w) (OnChannelCloseInit E a w hi r)) \<and>
       (\<forall>hi r. ends (\<lambda>_. calmly w) (OnChannelCloseConfirm E a w hi r)) \<and>
       (\<forall>p r m. ends (\<lambda>_. calmly w) (OnRecvPacket E a w p r m)) \<and>
       (\<forall>p r m. ends (\<lambda>_. calmly w) (OnIntentRecvPacket E a w p r m)) \<and>
       (\<forall>p b r. ends (\<lambda>_. calmly w) (OnAcknowledgementPacket E a w p b r)) \<and>
       (\<forall>p r. ends (\<lambda>_. calmly w) (OnTimeoutPacket E a w p r)))"

definition surroundings ::
    "('t, 'r, 'm, 'x) zenv \<Rightarrow> string set \<Rightarrow> 'app \<Rightarrow> ('c, 'lc, 'app, ('m, 'x) zstate) env \<Rightarrow> bool" where
  "surroundings Z coins z E \<longleftrightarrow> world_ok Z coins \<and> receivers_calm Z (z_proxyAddress Z) \<and> others_calm Z z E"

abbreviation solvent_in :: "('t, 'r, 'm, 'x) zenv \<Rightarrow> string set \<Rightarrow> 'app \<Rightarrow> ('c, 'lc, 'app, ('m, 'x) zstate) env \<Rightarrow>
    ('m, 'x) zstate \<Rightarrow> ('m, 'x) zstate \<Rightarrow> bool" where
  "solvent_in Z coins z E w w' \<equiv> surroundings Z coins z E \<longrightarrow> solvent Z (z_proxyAddress Z) coins w w'"

lemma channels_solvent:
  "solvent_x Z P coins all (app_gate cur (xlocal (v1_OnChannelOpenInit cur ver)))"
  "solvent_x Z P coins all (app_gate cur (xlocal (v1_OnChannelOpenTry cur ver cver)))"
  "solvent_x Z P coins all (app_gate cur (xlocal (v1_OnChannelOpenAck cur cver)))"
  "solvent_x Z P coins all (app_gate cur (xlocal (v1_OnChannelOpenConfirm cur)))"
  "solvent_x Z P coins all (app_gate cur (xlocal (zpanic errChannelClosing)))"
  unfolding v1_OnChannelOpenInit_def v1_OnChannelOpenTry_def v1_OnChannelOpenAck_def v1_OnChannelOpenConfirm_def enforceVersion_def
  by (intro gate_solvent solvent.x_local solvent.z_seq solvent.z_atoms branch_solvent)+

lemma ends_True: "ends (\<lambda>_ _. True) m"
  by (induction m) simp_all

lemma ends_imp: "(H \<Longrightarrow> ends (\<lambda>r w'. Q r w') m) \<Longrightarrow> ends (\<lambda>r w'. H \<longrightarrow> Q r w') m"
  using ends_mono [OF ends_True, of "\<lambda>r w'. H \<longrightarrow> Q r w'" m] by (cases H) auto

lemma calmly_solvent:
  assumes "surroundings Z coins z E" "ends (\<lambda>_ w'. \<exists>x. w' = w\<lparr>ext := x\<rparr> \<and> benign Z (z_proxyAddress Z) (ext w) x) m"
  shows "ends (\<lambda>_. solvent Z (z_proxyAddress Z) coins w) m"
  using assms(2) by (rule ends_mono) (use assms(1) benign_solvent in \<open>auto simp: surroundings_def\<close>)

interpretation zkgm_host: apps_keep "zkgm_env Z addr z E" "solvent_in Z coins z E" "\<lambda>r. r \<noteq> z_proxyAddress Z" for Z addr z E coins
proof
  show "solvent_in Z coins z E w w" for w by (simp add: solvent.refl)
  show "solvent_in Z coins z E w u" if "solvent_in Z coins z E w v" "solvent_in Z coins z E v u" for w v u
    using that solvent.trans by blast
qed (rule ends_imp, auto simp: zkgm_env_def hostRealm_def zcrossing_def Let_def surroundings_def others_calm_def
    App_OnChannelOpenInit_def App_OnChannelOpenTry_def App_OnChannelOpenAck_def App_OnChannelOpenConfirm_def App_OnChannelClose_def
    App_OnRecvPacket_def App_OnIntentRecvPacket_def App_OnAcknowledgementPacket_def App_OnTimeoutPacket_def
    intro!: solvent.settled channels_solvent OnRecv_solvent OnAck_solvent calmly_solvent [where z = z and E = E])+


section \<open>Reachable states\<close>

text \<open>The coins a user attaches have arrived at the proxy when the call starts.\<close>

definition attaches ::
    "('t, 'r, 'm, 'x) zenv \<Rightarrow> string set \<Rightarrow> funds \<Rightarrow> 'x \<Rightarrow> 'x \<Rightarrow> bool" where
  "attaches Z coins f x x' \<longleftrightarrow>
     fst ` set f \<subseteq> coins \<and> (\<forall>d n. (d, n) \<in> set f \<longrightarrow> 0 \<le> n) \<and>
     (\<forall>k u. reg_Get Z x k = Some u \<longrightarrow> reg_Get Z x' k = Some u) \<and>
     (\<forall>a. holding Z x (z_proxyAddress Z) a + unspent f a \<le> holding Z x' (z_proxyAddress Z) a)"

text \<open>
  From an empty store and non-negative holdings: transactions of the host, whose caller is not the proxy; calls of the
  public functions by an account or a realm that is not the proxy, with coins attached by an account; calls of the
  administration; and anything else
  in the world that leaves the proxy's holdings.
\<close>

inductive zreach ::
    "('t, 'r, 'm, 'x) zenv \<Rightarrow> string set \<Rightarrow> address \<Rightarrow> 'app \<Rightarrow> ('c, 'lc, 'app, ('m, 'x) zstate) env \<Rightarrow>
     ('c, 'lc, 'app, ('m, 'x) zstate) core \<Rightarrow> bool" for Z coins addr z E where
  start: "(\<And>a. 0 \<le> holding Z x (z_proxyAddress Z) a) \<Longrightarrow> zreach Z coins addr z E (newStore (zkgm_env Z addr z E) (NewZkgmStore Z x))"
| host: "zreach Z coins addr z E s \<Longrightarrow> PrevAddress rlm \<noteq> z_proxyAddress Z \<Longrightarrow>
    call (zkgm_env Z addr z E) rlm now c s = Inr ((), s') \<Longrightarrow> zreach Z coins addr z E s'"
| sent: "zreach Z coins addr z E s \<Longrightarrow> user \<noteq> z_proxyAddress Z \<Longrightarrow> cur = zcrossing Z user path userCall \<Longrightarrow>
    attaches Z coins (attached cur sent) (ext (world s)) x \<Longrightarrow>
    run_prog (zkgm_env Z addr z E) (settle (zkgm_Send Z cur sent c ts salt i ((world s)\<lparr>ext := x\<rparr>))) s = Inr (p, s') \<Longrightarrow>
    zreach Z coins addr z E s'"
| sentRaw: "zreach Z coins addr z E s \<Longrightarrow> user \<noteq> z_proxyAddress Z \<Longrightarrow> cur = zcrossing Z user path userCall \<Longrightarrow>
    attaches Z coins (attached cur sent) (ext (world s)) x \<Longrightarrow>
    run_prog (zkgm_env Z addr z E) (settle (SendRaw Z cur sent c ts saltHex v opc hex ((world s)\<lparr>ext := x\<rparr>))) s = Inr (p, s') \<Longrightarrow>
    zreach Z coins addr z E s'"
| voucherTransferred: "zreach Z coins addr z E s \<Longrightarrow> user \<noteq> z_proxyAddress Z \<Longrightarrow>
    run_prog (zkgm_env Z addr z E) (settle (zkgm_VoucherTransfer Z (zcrossing Z user path userCall) d to n (world s))) s = Inr ((), s') \<Longrightarrow>
    zreach Z coins addr z E s'"
| voucherApproved: "zreach Z coins addr z E s \<Longrightarrow> user \<noteq> z_proxyAddress Z \<Longrightarrow>
    run_prog (zkgm_env Z addr z E) (settle (zkgm_VoucherApprove Z (zcrossing Z user path userCall) d to n (world s))) s = Inr ((), s') \<Longrightarrow>
    zreach Z coins addr z E s'"
| coreRegistered: "zreach Z coins addr z E s \<Longrightarrow> RegisterCoreApp Z z (zkgm_env Z addr z E) s = Inr ((), s') \<Longrightarrow>
    zreach Z coins addr z E s'"
| registered: "zreach Z coins addr z E s \<Longrightarrow> RegisterReceiver Z (zcrossing Z user path userCall) r (world s) = (Val (), w) \<Longrightarrow>
    zreach Z coins addr z E (s\<lparr>world := w\<rparr>)"
| administered: "zreach Z coins addr z E s \<Longrightarrow> administer Z A now cur c (world s) = Inr w \<Longrightarrow>
    zreach Z coins addr z E (s\<lparr>world := w\<rparr>)"
| elsewhere: "zreach Z coins addr z E s \<Longrightarrow> benign Z (z_proxyAddress Z) (ext (world s)) x \<Longrightarrow>
    zreach Z coins addr z E (s\<lparr>world := (world s)\<lparr>ext := x\<rparr>\<rparr>)"

text \<open>The invariant: sound books, and no asset in which more is owed than held.\<close>

definition custody :: "('t, 'r, 'm, 'x) zenv \<Rightarrow> string set \<Rightarrow> ('m, 'x) zstate \<Rightarrow> bool" where
  "custody Z coins w \<longleftrightarrow> books_ok Z coins w \<and> (\<forall>a. 0 \<le> surplus Z (z_proxyAddress Z) w a)"

lemma custody_solvent: "custody Z coins w \<Longrightarrow> solvent Z (z_proxyAddress Z) coins w w' \<Longrightarrow> custody Z coins w'"
  unfolding custody_def solvent_def using order_trans by blast

lemma new_store_custody:
  assumes "tree_ok Z" "\<And>a. 0 \<le> holding Z x (z_proxyAddress Z) a"
  shows "custody Z coins (NewZkgmStore Z x)"
proof -
  have "zt_Get Z (zt_New Z) k = None" for k using assms(1) by (simp add: tree_ok_def)
  then have zero: "slot_amount Z (NewZkgmStore Z x) = (\<lambda>_. 0)" "locked_amount Z (NewZkgmStore Z x) = (\<lambda>_. 0)"
    "voucher_of Z (NewZkgmStore Z x) = (\<lambda>_. None)"
    by (auto simp: fun_eq_iff slot_amount_def locked_amount_def uint_at_def voucher_of_def NewZkgmStore_def)
  have "owed Z (NewZkgmStore Z x) a = 0" for a unfolding owed_def zero by (simp add: total_zero)
  moreover have "ext (NewZkgmStore Z x) = x" by (simp add: NewZkgmStore_def)
  ultimately show ?thesis using assms(2) by (simp add: custody_def surplus_def books_ok_def zero)
qed

text \<open>After the coins have arrived, what they add is at least what is unspent.\<close>

lemma attached_unspent: "(\<And>d n. (d, n) \<in> set f \<Longrightarrow> 0 \<le> n) \<Longrightarrow> 0 \<le> unspent f a"
  by (auto simp: unspent_def split: asset.split option.split dest: map_of_SomeD)

lemma attached_custody:
  assumes W: "world_ok Z coins" and C: "custody Z coins w" and A: "attaches Z coins f (ext w) x"
    and S: "spends Z (z_proxyAddress Z) coins f [] (w\<lparr>ext := x\<rparr>) w'"
  shows "custody Z coins w'"
proof -
  let ?P = "z_proxyAddress Z" and ?w = "w\<lparr>ext := x\<rparr>"
  have un: "0 \<le> unspent f a" for a using A attached_unspent by (auto simp: attaches_def)
  have more: "holding Z (ext w) ?P a \<le> holding Z x ?P a" for a
    using A un [of a] by (auto simp: attaches_def dest: spec [of _ a])
  have grow: "reg_Get Z (ext w) k = Some u \<Longrightarrow> reg_Get Z x k = Some u" for k u using A by (simp add: attaches_def)
  have "solvent Z ?P coins w ?w" by (rule solvent_ext [OF W grow more])
  then have B: "books_ok Z coins ?w" using C by (simp add: custody_def solvent_def)
  have g: "grows Z w ?w" using grow by (auto simp: grows_def voucher_of_def)
  have am: "slot_amount Z ?w = slot_amount Z w" "locked_amount Z ?w = locked_amount Z w"
    by (auto simp: fun_eq_iff slot_amount_def locked_amount_def)
  have bk: "books_ok Z coins w" using C by (simp add: custody_def)
  then have kn: "slot_amount Z ?w k \<noteq> 0 \<Longrightarrow> known Z coins w (slot_denom k)" "locked_amount Z ?w d \<noteq> 0 \<Longrightarrow> known Z coins w d" for k d
    unfolding am books_ok_def by blast+
  have "owed Z ?w a = owed Z w a" for a using owed_stable [OF W g kn] unfolding am owed_def [of Z w] by blast
  then have "0 \<le> surplus Z ?P ?w a - unspent f a" for a
    using C A by (auto simp: surplus_def custody_def attaches_def) (smt (verit))
  moreover have "books_ok Z coins w' \<and> (\<forall>a. surplus Z ?P ?w a - unspent f a \<le> surplus Z ?P w' a - unspent [] a)"
    using S B A by (auto simp: spends_def attaches_def)
  moreover have "unspent [] a = 0" for a :: "'a asset" by (simp add: unspent_def split: asset.split)
  ultimately show ?thesis unfolding custody_def by (metis diff_zero order_trans)
qed


lemma run_solvent:
  assumes "solvent_x Z P coins False m" "run_prog E (settle (m w)) s = Inr (r, s')"
  shows "solvent Z P coins w (world s')"
  using run_prog_ends [OF assms(2) solvent.settled [OF assms(1)]] .

lemma run_yields:
  assumes "yields S m w" "run_prog E (settle (m w)) s = Inr (r, s')"
  shows "S r (world s')"
proof -
  have "ends S (settle (m w))" by (rule ends_settle) (use assms(1) in \<open>simp add: yields_def\<close>)
  from run_prog_ends [OF assms(2) this] show ?thesis .
qed

lemma zreach_custody:
  assumes "zreach Z coins addr z E s" "surroundings Z coins z E"
  shows "custody Z coins (world s)"
proof -
  have W: "world_ok Z coins" using assms(2) by (simp add: surroundings_def)
  show ?thesis
    using assms(1)
  proof induction
    case (start x)
    then show ?case using new_store_custody [of Z x coins] world_ops(1) [OF W] by (simp add: newStore_def)
  next
    case (host s rlm now c s')
    then show ?case using zkgm_host.call_relates [OF host(3,2)] assms(2) by (blast intro: custody_solvent)
  next
    case (sent s user cur path userCall sent x c ts salt i p s')
    have "Address cur = z_proxyAddress Z" "PrevAddress cur \<noteq> z_proxyAddress Z" using sent(2,3) by (simp_all add: zcrossing_def)
    from run_yields [OF Send_spends(1) [OF W this] sent(5)] show ?case by (rule attached_custody [OF W sent.IH sent(4)])
  next
    case (sentRaw s user cur path userCall sent x c ts saltHex v opc hex p s')
    have "Address cur = z_proxyAddress Z" "PrevAddress cur \<noteq> z_proxyAddress Z" using sentRaw(2,3) by (simp_all add: zcrossing_def)
    from run_yields [OF Send_spends(2) [OF W this] sentRaw(5)] show ?case by (rule attached_custody [OF W sentRaw.IH sentRaw(4)])
  next
    case (voucherTransferred s user path userCall d to n s')
    then show ?case using run_solvent [OF voucher_calls_solvent(1) [OF W] voucherTransferred(3)]
      by (auto simp: zcrossing_def intro: custody_solvent)
  next
    case (voucherApproved s user path userCall d to n s')
    then show ?case using run_solvent [OF voucher_calls_solvent(2) [OF W] voucherApproved(3)]
      by (auto simp: zcrossing_def intro: custody_solvent)
  next
    case (coreRegistered s s')
    then have "world s' = world s" using world_calls(6) unfolding RegisterCoreApp_def unchanged_def by blast
    then show ?case using coreRegistered.IH by simp
  next
    case (registered s user path userCall r w)
    have "solvent Z (z_proxyAddress Z) coins (world s) w"
      using solvent.zD [OF setters_solvent(6) registered(2) [unfolded RegisterReceiver_def]] by simp
    then show ?case using registered.IH by (auto intro: custody_solvent)
  next
    case (administered s A now cur c w)
    then show ?case using administer_solvent [OF administered(2)] by (auto intro: custody_solvent)
  next
    case (elsewhere s x)
    then show ?case using benign_solvent [OF W elsewhere(2)] by (auto intro: custody_solvent)
  qed
qed

end
