(* ===== verification/ZkgmEscrow.thy ===== *)
theory ZkgmEscrow
  imports ZkgmHost CoreLifecycle
begin

text \<open>
  The application's solvency, with a run of the host and the application in which an order is escrowed: a client, a
  connection and a channel are opened, the application is called with coins attached, and the packet is committed.
\<close>

section \<open>A host and an escrow\<close>

text \<open>A host whose other apps do nothing.\<close>

definition quiet_env :: "(string \<Rightarrow> any option, unit, bool, (sample_tree, sample_world) zstate) env" where
  "quiet_env =
     \<lparr>keccak256 = (\<lambda>b. take 32 (b @ replicate 32 0)), proxyPkgPath = CoreRealmPath,
      NewBPTree32 = Map.empty, bp_Set = (\<lambda>t k v. t(k \<mapsto> v)), bp_Get = (\<lambda>t k. t k), bp_Iterate = (\<lambda>t. []),
      seq_Next = (\<lambda>i. if i = - 1 then None else Some (i + 1)),
      seq_Binary = (\<lambda>i. string_of_bytes (PutUint64 i)),
      lc_VerifyMembership = (\<lambda>lc h k p v. None), lc_VerifyNonMembership = (\<lambda>lc h k p. None),
      lc_GetTimestampAtHeight = (\<lambda>lc h. Inr 1000), lc_GetLatestHeight = (\<lambda>lc. 1),
      lc_GetCounterpartyChainID = (\<lambda>lc. ''chain''), lc_Status = (\<lambda>lc. Active),
      lc_VerifyHeader = (\<lambda>lc a m r. Inr (\<lparr>su_Height = 1, su_ConsensusStateBytes = [], su_ClientStateBytes = [], su_StorageWrites = []\<rparr>, lc)),
      lc_VerifyCreation = (\<lambda>lc a r. Inr (\<lparr>cc_ClientStateBytes = [], cc_StorageWrites = []\<rparr>, lc)),
      lc_Misbehaviour = (\<lambda>lc a m r. Inr ([], lc)),
      OnChannelOpenInit = (\<lambda>a w cn ch v r. Done () w), OnChannelOpenTry = (\<lambda>a w cn ch v cv r. Done () w),
      OnChannelOpenAck = (\<lambda>a w ch cch cv r. Done () w), OnChannelOpenConfirm = (\<lambda>a w ch r. Done () w),
      OnChannelCloseInit = (\<lambda>a w ch r. Done () w), OnChannelCloseConfirm = (\<lambda>a w ch r. Done () w),
      OnRecvPacket = (\<lambda>a w p r m. Done \<lparr>res_Status = PacketStatusSuccess, res_Acknowledgement = [1]\<rparr> w),
      OnIntentRecvPacket = (\<lambda>a w p r m. Done \<lparr>res_Status = PacketStatusSuccess, res_Acknowledgement = [1]\<rparr> w),
      OnAcknowledgementPacket = (\<lambda>a w p b r. Done () w), OnTimeoutPacket = (\<lambda>a w p r. Done () w)\<rparr>"

lemma quiet_surroundings: "surroundings sample_zenv {''ugnot''} True quiet_env"
proof -
  have calm: "benign sample_zenv P x x" for P x by (simp add: benign_def)
  have "w = w\<lparr>ext := ext w\<rparr>" for w :: "(sample_tree, sample_world) zstate" by simp
  then have "\<exists>x. w = w\<lparr>ext := x\<rparr> \<and> benign sample_zenv (z_proxyAddress sample_zenv) (ext w) x" for w :: "(sample_tree, sample_world) zstate"
    by (metis calm)
  then have "others_calm sample_zenv True quiet_env" by (simp add: others_calm_def quiet_env_def Let_def)
  moreover have "receivers_calm sample_zenv (z_proxyAddress sample_zenv)"
    by (simp add: receivers_calm_def sample_zenv_def benign_def)
  ultimately show ?thesis using sample_world_ok by (simp add: surroundings_def)
qed

lemma sample_fields:
  "zt_New sample_zenv = Map.empty" "zt_Get sample_zenv m k = m k" "zt_Set sample_zenv m k v = m(k \<mapsto> v)"
  "zt_Remove sample_zenv m k = m(k := None)" "reg_Get sample_zenv x = (sw_registry x)(''ugnot'' := None)"
  "z_proxyAddress sample_zenv = ''proxy''" "z_proxyPkgPath sample_zenv = ''zkgm''" "bank_Balance sample_zenv = sw_coins"
  "tok_BalanceOf sample_zenv = sw_tokens"
  by (simp_all add: sample_zenv_def)

definition escrow_user :: realm where
  "escrow_user = \<lparr>IsCurrent = True, PkgPath = CoreRealmPath, PrevAddress = ''dev'', PrevPkgPath = ''''\<rparr>"

definition escrow_calls :: "(unit, bool) core_call list" where
  "escrow_calls =
     [CRegisterClient ''t'' (Some (\<lambda>b1 b2. Inr ())),
      CCreateClient \<lparr>mcc_ClientType = ''t'', mcc_ClientStateBytes = [1], mcc_ConsensusStateBytes = [2], mcc_Relayer = []\<rparr>,
      CConnectionOpenInit \<lparr>coi_ClientId = 1, coi_CounterpartyClientId = 1\<rparr>,
      CConnectionOpenAck \<lparr>coa_ConnectionId = 1, coa_CounterpartyConnectionId = 7, coa_ProofTry = [], coa_ProofHeight = 1\<rparr>,
      CChannelOpenInit \<lparr>hoi_PortId = bytes_of_string ''zkgm'', hoi_CounterpartyPortId = [], hoi_ConnectionId = 1, hoi_Version = PROTOCOL_VERSION\<rparr>,
      CChannelOpenAck \<lparr>hoa_ChannelId = 1, hoa_CounterpartyVersion = PROTOCOL_VERSION, hoa_CounterpartyChannelId = 9,
        hoa_ProofTry = [], hoa_ProofHeight = 1\<rparr>]"

text \<open>The world with \<open>n\<close> coins at the proxy.\<close>

definition sample_world0 :: "int \<Rightarrow> sample_world" where
  "sample_world0 n = \<lparr>sw_tokens = (\<lambda>_ _. 0), sw_coins = (\<lambda>d a. if d = ''ugnot'' \<and> a = ''proxy'' then n else 0), sw_registry = Map.empty, sw_made = 0\<rparr>"

text \<open>
  The application's client, connection and channel are opened on the host, then alice sends an order that escrows five
  coins, which she attaches.
\<close>

abbreviation host_env :: "(string \<Rightarrow> any option, unit, bool, (sample_tree, sample_world) zstate) env" where
  "host_env \<equiv> zkgm_env sample_zenv ''core'' True quiet_env"

definition escrow_start where
  "escrow_start = newStore host_env (NewZkgmStore sample_zenv (sample_world0 0))"

fun host_calls where
  "host_calls [] s = Inr s"
| "host_calls (c # cs) s = (case call host_env escrow_user 0 c s of Inl e \<Rightarrow> Inl e | Inr (_, s') \<Rightarrow> host_calls cs s')"

definition escrow_prepared where
  "escrow_prepared = (case RegisterCoreApp sample_zenv True host_env escrow_start of Inl e \<Rightarrow> Inl e
     | Inr (_, s) \<Rightarrow> host_calls escrow_calls s)"

definition escrow_order :: TokenOrderV2 where
  "escrow_order = \<lparr>o_Sender = [1], o_Receiver = [2], o_BaseToken = bytes_of_string ''ugnot'', o_BaseAmount = NewUint 5,
     o_QuoteToken = [3], o_QuoteAmount = NewUint 5, o_Kind = TOKEN_ORDER_KIND_ESCROW, o_Metadata = []\<rparr>"

definition escrow_instruction :: Instruction where
  "escrow_instruction = \<lparr>ins_Version = INSTR_VERSION_2, ins_Opcode = OP_TOKEN_ORDER,
     ins_Operand = (case EncodeTokenOrderV2 escrow_order of Inr b \<Rightarrow> b | _ \<Rightarrow> [])\<rparr>"

definition escrow_send where
  "escrow_send s = run_prog host_env (settle (zkgm_Send sample_zenv (zcrossing sample_zenv ''alice'' '''' True) [(''ugnot'', 5)] 1 1000 []
     escrow_instruction ((world s)\<lparr>ext := sample_world0 5\<rparr>))) s"

definition escrow_host where
  "escrow_host ps evs = \<lparr>clientSeq = 1, clientRegistry = [''t'' \<mapsto> (\<lambda>b1 b2. Inr ())],
   clientTypeByID = [1 \<mapsto> ''t''], clientImplByID = [1 \<mapsto> Some (\<lambda>b1 b2. Inr ())], 
   clientByID = [1 \<mapsto> \<lparr>client_id = 1, creator = ''dev'', lightClient = (), clientState = [1],
     consensusByHeight = [string_of_bytes (height_Bytes (NewHeight 1)) \<mapsto> AnyBytes [2]], clientStore = Map.empty\<rparr>],
   connectionSeq = 1,
   connections = [string_of_bytes (PutUint64 1) \<mapsto> AnyConnection (NewConnection ConnectionStateOpen 1 1 7)],
   channelSeq = 1,
   channels = [string_of_bytes (PutUint64 1) \<mapsto> AnyChannel \<lparr>entry_channel = NewChannel ChannelStateOpen 1 9 [] PROTOCOL_VERSION, entry_portId = bytes_of_string ''zkgm''\<rparr>],
   commitments = Map.empty, membershipProofs = Map.empty, nonMembershipProofs = Map.empty,
   ports = [''zkgm'' \<mapsto> Some True], params = ps, eventConfig = DefaultEventConfig, events = evs, world = NewZkgmStore sample_zenv (sample_world0 0)\<rparr>"

lemma escrow_host_eq: "\<exists>ps evs. escrow_prepared = Inr (escrow_host ps evs)"
  by (simp add: escrow_prepared_def RegisterCoreApp_def crossing_def sample_fields escrow_calls_def escrow_start_def escrow_host_def sample_simps zkgm_env_def quiet_env_def escrow_user_def newStore_def Let_def
    App_OnChannelOpenInit_def App_OnChannelOpenAck_def app_gate_def assertIsCoreRealm_def assertIsNotPaused_def hostRealm_def zcrossing_def
    v1_OnChannelOpenInit_def v1_OnChannelOpenAck_def enforceVersion_def zassertIsRlmCurrent_def
    xseq_def xbind_def xlocal_def zbind_def zseq_def zret_def zgets_def NewZkgmStore_def)


lemma escrow_decodes: "decodeOrderInstruction escrow_instruction = Val escrow_order"
proof -
  have "case EncodeTokenOrderV2 escrow_order of Inr x \<Rightarrow> length x < 10000 | Inl _ \<Rightarrow> False" by code_simp
  then show ?thesis
    using TokenOrderV2_back [of escrow_order]
    by (auto simp: decodeOrderInstruction_def escrow_instruction_def codecRes_def)
qed

lemma escrow_opcode: "ins_Opcode escrow_instruction = OP_TOKEN_ORDER"
  by (simp add: escrow_instruction_def)



lemma escrow_amounts: "amountInt64 (NewUint 5) = Inr 5" "AddOverflow Uint_Zero (NewUint 5) = (NewUint 5, False)"
  "isIBCTokenDenom ''ugnot'' = False"
proof -
  show "amountInt64 (NewUint 5) = Inr 5" by (simp add: amountInt64_def ScaleDown_exact)
  show "isIBCTokenDenom ''ugnot'' = False" by (simp add: isIBCTokenDenom_def ibcDenomPrefix_def)
  show "AddOverflow Uint_Zero (NewUint 5) = (NewUint 5, False)" 
    using AddOverflow_eq [of Uint_Zero "NewUint 5"]
    by (cases "AddOverflow Uint_Zero (NewUint 5)") (simp add: uval_inject [symmetric] del: uval_inject)
qed

definition escrow_key :: string where
  "escrow_key = ChannelBalanceKeyV2 1 Uint_Zero (bytes_of_string ''ugnot'') [3]"

lemma escrow_verified:
  "verifyInternal sample_zenv (zcrossing sample_zenv ''alice'' '''' True) (newFunds [(''ugnot'', 5)]) 1 Uint_Zero escrow_instruction
     (NewZkgmStore sample_zenv (sample_world0 5)) =
   (Val [(''ugnot'', 0)], (NewZkgmStore sample_zenv (sample_world0 5))\<lparr>channelBalanceV2 := [escrow_key \<mapsto> ZUint (NewUint 5)]\<rparr>)"
proof -
  have order: "zwith (decodeOrderInstruction escrow_instruction) k = k escrow_order" for k :: "TokenOrderV2 \<Rightarrow> ('s, 'a) zc"
    by (simp add: zwith_def escrow_decodes)
  show ?thesis
    by (subst verifyInternal.simps)
      (simp add: order escrow_opcode verifyTokenOrderV2_def escrow_order_def ledgerAmountOf_def increaseChannelBalanceV2_def
        localTokenEscrow_def getTokenType_def zcrossing_def TOKEN_ORDER_KIND_ESCROW_def TOKEN_ORDER_KIND_INITIALIZE_def
        zbind_def zseq_def zret_def ztry_def zgets_def escrow_amounts zscale_def GetVoucher_def GetChannelBalanceV2_def
        SetChannelBalanceV2_def ztree_def zassertIsRlmCurrent_def zmodify_def funds_sub_def newFunds_def sample_fields
        NewZkgmStore_def escrow_key_def Let_def)
qed

lemma escrow_encodes:
  "\<exists>data. EncodeZkgmPacket \<lparr>zp_Salt = DeriveSenderSalt (z_keccak sample_zenv) (bytes_of_string ''alice'') [],
      zp_Path = Uint_Zero, zp_Instruction = escrow_instruction\<rparr> = Inr data \<and> IsValidPacketDataSize DefaultEventConfig data"
proof -
  have "case EncodeZkgmPacket \<lparr>zp_Salt = DeriveSenderSalt (z_keccak sample_zenv) (bytes_of_string ''alice'') [],
      zp_Path = Uint_Zero, zp_Instruction = escrow_instruction\<rparr> of Inr d \<Rightarrow> IsValidPacketDataSize DefaultEventConfig d | Inl _ \<Rightarrow> False"
    by code_simp
  then show ?thesis by (auto split: sum.splits)
qed

lemma send_program:
  assumes "IsCurrent rlm" "PrevIsUserCall rlm" "\<not> paused w" "funds_isEmpty f"
    "verifyInternal Z rlm (newFunds sent) c Uint_Zero i w = (Val f, w')"
    "EncodeZkgmPacket \<lparr>zp_Salt = DeriveSenderSalt (z_keccak Z) (bytes_of_string (PrevAddress rlm)) salt, zp_Path = Uint_Zero,
       zp_Instruction = i\<rparr> = Inr data"
  shows "settle (zkgm_Send Z rlm sent c ts salt i w) = CallSendPacket (Address rlm) (PkgPath rlm) c ts data (\<lambda>p. Done p w')"
  using assms
  by (simp add: zkgm_Send_def v1_Send_def assertIsNotPaused_def assertEmpty_def xseq_def xbind_def xorPanic_def xlocal_def
      zbind_def zgets_def zret_def zassertIsRlmCurrent_def xSendPacket_def zcodec_def zguard_def Let_def)

lemma escrow_sent:
  assumes "escrow_prepared = Inr s"
  shows "\<exists>p s'. escrow_send s = Inr (p, s') \<and>
    world s' = (NewZkgmStore sample_zenv (sample_world0 5))\<lparr>channelBalanceV2 := [escrow_key \<mapsto> ZUint (NewUint 5)]\<rparr>"
proof -
  obtain data where data: "EncodeZkgmPacket \<lparr>zp_Salt = DeriveSenderSalt (z_keccak sample_zenv) (bytes_of_string ''alice'') [],
      zp_Path = Uint_Zero, zp_Instruction = escrow_instruction\<rparr> = Inr data" "IsValidPacketDataSize DefaultEventConfig data"
    using escrow_encodes by blast
  obtain ps evs where host: "s = escrow_host ps evs" using escrow_host_eq assms by (metis sum.inject(2))
  define e where "e = \<lparr>entry_channel = NewChannel ChannelStateOpen 1 9 [] PROTOCOL_VERSION, entry_portId = bytes_of_string ''zkgm''\<rparr>"
  have s: "channel_of host_env s 1 = Some e" "connection_of host_env s 1 = Some (NewConnection ConnectionStateOpen 1 1 7)"
    "commitments s = Map.empty" "eventConfig s = DefaultEventConfig" "world s = NewZkgmStore sample_zenv (sample_world0 0)"
    by (simp_all add: host escrow_host_def channel_of_def connection_of_def channelKey_def connectionKey_def quiet_env_def
        zkgm_env_def Let_def e_def)
  have w: "(world s)\<lparr>ext := sample_world0 5\<rparr> = NewZkgmStore sample_zenv (sample_world0 5)"
    by (simp add: s NewZkgmStore_def)
  let ?w = "(NewZkgmStore sample_zenv (sample_world0 5))\<lparr>channelBalanceV2 := [escrow_key \<mapsto> ZUint (NewUint 5)]\<rparr>"
  have program: "settle (zkgm_Send sample_zenv (zcrossing sample_zenv ''alice'' '''' True) [(''ugnot'', 5)] 1 1000 []
      escrow_instruction (NewZkgmStore sample_zenv (sample_world0 5))) = CallSendPacket ''proxy'' ''zkgm'' 1 1000 data (\<lambda>p. Done p ?w)"
    using send_program [OF _ _ _ _ escrow_verified, of "[]" data 1000] data(1)
    by (simp add: zcrossing_def sample_fields funds_isEmpty_def NewZkgmStore_def)
  obtain a where a: "packetSendEventAttrs (keccak256 host_env) (eventConfig s) \<lparr>SourceChannelId = 1, DestinationChannelId = 9, Data = data,
      TimeoutHeight = 0, TimeoutTimestamp = 1000\<rparr> (entry_channel e) (NewConnection ConnectionStateOpen 1 1 7) = Inr a"
    using eventAttrs_Inr(1) [of "eventConfig s"] by (force simp: s sample_config)
  show ?thesis
    unfolding escrow_send_def w program
    using a data(2) s
    by (subst run_prog.simps, subst SendPacket_ok [where cn = "NewConnection ConnectionStateOpen 1 1 7" and e = e])
      (auto simp: crossing_def e_def NewChannel_def NewConnection_def run_simps andthen_def)
qed

section \<open>The run is one of the reachable states\<close>

lemma host_calls_reach:
  "host_calls cs s = Inr s' \<Longrightarrow> zreach sample_zenv {''ugnot''} ''core'' True quiet_env s \<Longrightarrow>
   zreach sample_zenv {''ugnot''} ''core'' True quiet_env s'"
proof (induction cs s rule: host_calls.induct)
  case (2 c cs s)
  obtain s1 where s1: "call host_env escrow_user 0 c s = Inr ((), s1)" using 2(2) by (auto split: sum.splits)
  have "zreach sample_zenv {''ugnot''} ''core'' True quiet_env s1"
    by (rule zreach.host [OF 2(3) _ s1]) (simp add: escrow_user_def sample_fields)
  then show ?case using 2 s1 by simp
qed simp

lemma escrow_reached:
  obtains s where "zreach sample_zenv {''ugnot''} ''core'' True quiet_env s"
    "world s = (NewZkgmStore sample_zenv (sample_world0 5))\<lparr>channelBalanceV2 := [escrow_key \<mapsto> ZUint (NewUint 5)]\<rparr>"
proof -
  obtain ps evs where host: "escrow_prepared = Inr (escrow_host ps evs)" using escrow_host_eq by blast
  obtain p s' where sent: "escrow_send (escrow_host ps evs) = Inr (p, s')"
    "world s' = (NewZkgmStore sample_zenv (sample_world0 5))\<lparr>channelBalanceV2 := [escrow_key \<mapsto> ZUint (NewUint 5)]\<rparr>"
    using escrow_sent [OF host] by blast
  have "zreach sample_zenv {''ugnot''} ''core'' True quiet_env escrow_start"
    unfolding escrow_start_def by (rule zreach.start) (simp add: holding_def sample_fields sample_world0_def split: asset.split)
  moreover obtain s1 where registered: "RegisterCoreApp sample_zenv True host_env escrow_start = Inr ((), s1)" "host_calls escrow_calls s1 = Inr (escrow_host ps evs)"
    using host by (auto simp: escrow_prepared_def split: sum.splits)
  ultimately have "zreach sample_zenv {''ugnot''} ''core'' True quiet_env s1" by (blast intro: zreach.coreRegistered)
  from host_calls_reach [OF registered(2) this]
  have "zreach sample_zenv {''ugnot''} ''core'' True quiet_env (escrow_host ps evs)" .
  then have "zreach sample_zenv {''ugnot''} ''core'' True quiet_env s'"
  proof (rule zreach.sent)
    show "run_prog host_env (settle (zkgm_Send sample_zenv (zcrossing sample_zenv ''alice'' '''' True) [(''ugnot'', 5)] 1 1000 []
        escrow_instruction ((world (escrow_host ps evs))\<lparr>ext := sample_world0 5\<rparr>))) (escrow_host ps evs) = Inr (p, s')"
      using sent(1) by (simp add: escrow_send_def)
    show "attaches sample_zenv {''ugnot''} (attached (zcrossing sample_zenv ''alice'' '''' True) [(''ugnot'', 5)])
        (ext (world (escrow_host ps evs))) (sample_world0 5)"
      by (auto simp: attaches_def attached_def zcrossing_def newFunds_def escrow_host_def NewZkgmStore_def sample_fields
          sample_world0_def holding_def unspent_def split: asset.split)
  qed (simp_all add: sample_fields)
  then show thesis using that sent(2) by blast
qed

section \<open>Solvency\<close>

text \<open>C3: 
  C0: The ZKGM realm is solvent in every state that it and the host can reach: of every token and every coin of the bank
  the proxy holds at least what it owes, which is all the balances escrowed under the channels in that asset and all the
  amounts locked in it. However packets are received, acknowledged, timed out and forwarded, and whatever batches,
  calls, fills and voucher transfers occur, no escrow is released that is not covered.
\<close>

theorem zkgm_solvent:
  assumes "zreach Z coins addr z E s" "surroundings Z coins z E"
  shows "owed Z (world s) a \<le> holding Z (ext (world s)) (z_proxyAddress Z) a"
  using zreach_custody [OF assms] by (simp add: custody_def surplus_def)

theorem zkgm_solvent_witness:
  "\<exists>s. zreach sample_zenv {''ugnot''} ''core'' True quiet_env s \<and>
     slot_amount sample_zenv (world s) (1, Uint_Zero, bytes_of_string ''ugnot'', [3]) = 5 \<and>
     owed sample_zenv (world s) (Coin ''ugnot'') \<le> holding sample_zenv (ext (world s)) ''proxy'' (Coin ''ugnot'')"
proof -
  obtain s where s: "zreach sample_zenv {''ugnot''} ''core'' True quiet_env s"
    "world s = (NewZkgmStore sample_zenv (sample_world0 5))\<lparr>channelBalanceV2 := [escrow_key \<mapsto> ZUint (NewUint 5)]\<rparr>"
    by (rule escrow_reached)
  have "slot_amount sample_zenv (world s) (1, Uint_Zero, bytes_of_string ''ugnot'', [3]) = 5"
    by (simp add: s(2) slot_amount_def uint_at_def slot_key_def escrow_key_def sample_fields)
  then show ?thesis
    using s(1) zkgm_solvent [OF s(1) quiet_surroundings, of "Coin ''ugnot''"] by (auto simp: sample_fields)
qed

end
