(* ===== verification/ZkgmIsolated.thy ===== *)
theory ZkgmIsolated
  imports ZkgmReach ZkgmSample
begin

text \<open>
  Channels are isolated: whatever packet the chain at the other end of a channel has the application receive,
  acknowledge or time out, and whatever the receivers of calls do meanwhile, no balance escrowed under another
  channel becomes smaller.
\<close>

definition isolated :: "('t, 'r, 'm, 'x) zenv \<Rightarrow> ChannelId \<Rightarrow> ('m, 'x) zstate \<Rightarrow> ('m, 'x) zstate \<Rightarrow> bool" where
  "isolated Z c s s' \<longleftrightarrow> (\<forall>k. fst k \<noteq> c \<longrightarrow> slot_amount Z s k \<le> slot_amount Z s' k)"

interpretation isolated: kept "isolated Z c" for Z c
proof
  show "isolated Z c s s" for s by (simp add: isolated_def)
  show "isolated Z c s u" if "isolated Z c s t" "isolated Z c t u" for s t u
    using that unfolding isolated_def by (blast intro: order_trans)
qed

abbreviation isolated_z :: "('t, 'r, 'm, 'x) zenv \<Rightarrow> ChannelId \<Rightarrow> bool \<Rightarrow> (('m, 'x) zstate, 'a) zc \<Rightarrow> bool" where
  "isolated_z Z c \<equiv> kept.keeps_z (isolated Z c)"

abbreviation isolated_x :: "('t, 'r, 'm, 'x) zenv \<Rightarrow> ChannelId \<Rightarrow> bool \<Rightarrow> ('h, ('m, 'x) zstate, 'a) zp \<Rightarrow> bool" where
  "isolated_x Z c \<equiv> kept.keeps_x (isolated Z c)"

section \<open>Operations on the store\<close>

lemma isolated_frame: "channelBalanceV2 s' = channelBalanceV2 s \<Longrightarrow> isolated Z c s s'"
  by (simp add: isolated_def slot_amount_def)

lemma isolated_modify: "(\<And>s. channelBalanceV2 (f s) = channelBalanceV2 s) \<Longrightarrow> isolated_z Z c all (zmodify f)"
  by (rule isolated.zI) (auto simp: zmodify_def intro: isolated_frame)

lemma isolated_foreign: "isolated_z Z c all (zforeign op)"
  by (rule isolated.zI) (auto elim!: zforeign_run intro: isolated_frame)

lemma isolated_tree: "isolated_z Z c all (ztree as v)"
  by (rule isolated.z_still) (auto simp: ztree_def zret_def zpanic_def split: option.splits)

lemma isolated_getters:
  "isolated_z Z c all (GetVoucher Z d)" "isolated_z Z c all (GetTokenOrigin Z d)"
  "isolated_z Z c all (GetMetadataImageOf Z d)" "isolated_z Z c all (GetForeignToken Z d)" "isolated_z Z c all (GetInFlightPacket Z d)"
  "isolated_z Z c all (GetTokenBucket Z d)" "isolated_z Z c all (GetReceiver Z d)" "isolated_z Z c all (GetLockedTokenAmount Z d)"
  unfolding GetVoucher_def GetTokenOrigin_def GetMetadataImageOf_def GetForeignToken_def
    GetInFlightPacket_def GetTokenBucket_def GetReceiver_def GetLockedTokenAmount_def
  by (intro isolated.z_rules isolated_tree)+

lemma isolated_setters:
  "isolated_z Z c all (SetTokenOrigin Z rlm d p)" "isolated_z Z c all (SetMetadataImageOf Z rlm d i)"
  "isolated_z Z c all (SetForeignToken Z rlm d t)" "isolated_z Z c all (SetInFlightPacket Z rlm d pk)"
  "isolated_z Z c all (RemoveInFlightPacket Z rlm d)" "isolated_z Z c all (SetVoucher Z rlm d v)"
  "isolated_z Z c all (updateBucket Z d bk)"
  unfolding SetTokenOrigin_def SetMetadataImageOf_def SetForeignToken_def SetInFlightPacket_def RemoveInFlightPacket_def
    updateBucket_def SetVoucher_def
  by (intro isolated.z_seq isolated.z_atoms isolated_modify; simp)+

lemma isolated_branch:
  "(b \<Longrightarrow> isolated_z Z c all m) \<Longrightarrow> (\<not> b \<Longrightarrow> isolated_z Z c all n) \<Longrightarrow> isolated_z Z c all (if b then m else n)"
  "(v = None \<Longrightarrow> isolated_z Z c all m) \<Longrightarrow> (\<And>x. v = Some x \<Longrightarrow> isolated_z Z c all (k x)) \<Longrightarrow>
     isolated_z Z c all (case v of None \<Rightarrow> m | Some x \<Rightarrow> k x)"
  "(\<And>e. w = Inl e \<Longrightarrow> isolated_z Z c all (h e)) \<Longrightarrow> (\<And>x. w = Inr x \<Longrightarrow> isolated_z Z c all (k' x)) \<Longrightarrow>
     isolated_z Z c all (case w of Inl e \<Rightarrow> h e | Inr x \<Rightarrow> k' x)"
  "(\<And>a b. u = (a, b) \<Longrightarrow> isolated_z Z c all (l a b)) \<Longrightarrow> isolated_z Z c all (case u of (a, b) \<Rightarrow> l a b)"
  "(\<And>a b. t = (a, b) \<Longrightarrow> isolated_z Z c all (g a b y)) \<Longrightarrow> isolated_z Z c all ((case t of (a, b) \<Rightarrow> g a b) y)"
  "isolated_z Z c all i \<Longrightarrow> isolated_z Z c all n \<Longrightarrow> isolated_z Z c all r \<Longrightarrow>
     isolated_z Z c all (case ty of IBC_TOKEN \<Rightarrow> i | GRC20_TOKEN \<Rightarrow> r | NATIVE_COIN \<Rightarrow> n)"
  by (simp_all split: option.splits sum.splits prod.splits tokenType.splits)

lemma isolated_vouchers:
  "isolated_z Z c all (MintScaled Z v to a)" "isolated_z Z c all (BurnScaled Z v to a)" "isolated_z Z c all (TransferScaled Z v src to a)"
  "isolated_z Z c all (voucher_Approve Z rlm v to n)" "isolated_z Z c all (voucher_Transfer Z rlm v to n)"
  "isolated_z Z c all (getOrCreateVoucher Z rlm d name symbol decimals)" "isolated_z Z c all (ledgerAmountOf Z d a)"
  "isolated_z Z c all (scaleExpOf Z d)" "isolated_z Z c all (rateLimit Z d a)"
  unfolding MintScaled_def BurnScaled_def TransferScaled_def voucher_Approve_def voucher_Transfer_def getOrCreateVoucher_def Let_def
    ledgerAmountOf_def scaleExpOf_def rateLimit_def
  by (intro isolated.z_rules isolated_branch isolated_getters isolated_setters isolated_foreign isolated_modify; simp)+

lemma isolated_need: "(\<And>v. isolated_z Z c all (k v)) \<Longrightarrow> isolated_z Z c all (needVoucher Z d k)"
  unfolding needVoucher_def by (intro isolated.z_rules isolated_branch isolated_getters)

lemma isolated_custody:
  "isolated_z Z c all (mintVoucher Z rlm d name symbol decimals to a)" "isolated_z Z c all (burnVoucher Z d src a)"
  "isolated_z Z c all (transferVoucher Z d src to a)" "isolated_z Z c all (AddLockedTokenAmount Z rlm d a)"
  "isolated_z Z c all (funds_sub f d a)" "isolated_z Z c all (localTokenEscrow Z rlm d src f a)"
  "isolated_z Z c all (localTokenUnescrow Z rlm d to a)"
  unfolding mintVoucher_def burnVoucher_def transferVoucher_def AddLockedTokenAmount_def funds_sub_def localTokenEscrow_def
    localTokenUnescrow_def localGRC20Escrow_def localGRC20Unescrow_def sendNative_def zderef_def Let_def
  by (intro isolated.z_rules isolated_branch isolated_need isolated_vouchers isolated_getters isolated_foreign isolated_modify; simp)+

section \<open>Balances of the channel itself, and credits to any\<close>

lemma isolated_slot: "tree_ok Z \<Longrightarrow> fst k = c \<or> slot_amount Z s k \<le> int (uval u) \<Longrightarrow> isolated Z c s (set_slot Z k u s)"
  by (auto simp: isolated_def set_amounts)

lemma isolated_Set:
  assumes "tree_ok Z"
  shows "isolated_z Z c all (SetChannelBalanceV2 Z rlm (ChannelBalanceKeyV2 c p b q) u)"
proof (rule isolated.zI)
  fix s r s' assume "SetChannelBalanceV2 Z rlm (ChannelBalanceKeyV2 c p b q) u s = (r, s')"
  then have "SetChannelBalanceV2 Z rlm (slot_key (c, p, b, q)) u s = (r, s')" by (simp add: slot_key_def)
  from SetChannelBalance_run [OF this] show "isolated Z c s s'"
    by (auto intro!: isolated_slot assms isolated.refl)
qed

lemma isolated_balance:
  assumes "tree_ok Z"
  shows "isolated_z Z c all (increaseChannelBalanceV2 Z rlm c p b q n)" "isolated_z Z c all (decreaseChannelBalanceV2 Z rlm c p b q n)"
proof -
  have get: "isolated_z Z c all (GetChannelBalanceV2 Z key)" for key
    unfolding GetChannelBalanceV2_def by (intro isolated.z_rules isolated_tree)
  show "isolated_z Z c all (increaseChannelBalanceV2 Z rlm c p b q n)" "isolated_z Z c all (decreaseChannelBalanceV2 Z rlm c p b q n)"
    unfolding increaseChannelBalanceV2_def decreaseChannelBalanceV2_def Let_def
    by (intro isolated.z_rules isolated_branch get isolated_Set assms)+
qed


lemma isolated_credit:
  assumes "tree_ok Z" "0 \<le> n" "n < 2 ^ 63"
  shows "isolated_z Z c all (increaseChannelBalanceV2 Z rlm c' p b q n)"
proof (rule isolated.zI)
  fix s r s' assume "increaseChannelBalanceV2 Z rlm c' p b q n s = (r, s')"
  from increase_run [OF this assms(2,3)] show "isolated Z c s s'"
    using assms(2) by (auto intro!: isolated_slot assms(1) isolated.refl)
qed

section \<open>Orders\<close>

lemma isolated_acks: "isolated_z Z c all failed" "isolated_z Z c all universalErrorAck" "isolated_z Z c all (encodeTokenOrderSuccessAck f mk)"
  unfolding failed_def universalErrorAck_def encodeTokenOrderSuccessAck_def by (intro isolated.z_rules)+

lemma isolated_mint:
  "isolated_z Z c all (protocolFillMint Z rlm c' p base d receiver relayer ba qa metadata canDeploy)"
proof -
  have terms: "isolated_z Z c all (mintTerms Z d metadata canDeploy)"
    unfolding mintTerms_def by (intro isolated.z_rules isolated_branch isolated.z_attempt isolated_vouchers)
  show ?thesis
    unfolding protocolFillMint_def Let_def
    by (intro isolated.z_rules isolated_branch isolated.z_orFatal terms isolated_acks isolated_getters isolated_setters isolated_custody)
qed

lemma isolated_release:
  assumes "tree_ok Z"
  shows "isolated_z Z c all (protocolFillUnescrowV2 Z rlm c p base d receiver relayer ba qa)"
  unfolding protocolFillUnescrowV2_def Let_def
  by (intro isolated.z_rules isolated_branch isolated.z_orFatal isolated.z_try isolated.z_ignore isolated_acks isolated_vouchers
      isolated_balance isolated_custody assms)

lemma isolated_maker: "isolated_z Z c all (marketMakerFillV2 Z relayer msg ord)"
  unfolding marketMakerFillV2_def Let_def
  by (intro isolated.z_rules isolated_branch isolated.z_attempt isolated_acks isolated_vouchers isolated_custody)

lemma isolated_execute:
  assumes "tree_ok Z" "DestinationChannelId packet = c"
  shows "isolated_z Z c all (executeTokenOrderV2 Z rlm packet relayer msg p ord intent)"
  unfolding executeTokenOrderV2_def fillPredicted_def tokenOrderDestinationChannel_def Let_def assms(2)
  by (intro isolated.z_rules isolated_branch isolated.z_attempt isolated_acks isolated_getters isolated_vouchers
      isolated_mint isolated_release isolated_maker assms(1))

lemma isolated_refund:
  assumes "tree_ok Z"
  shows "isolated_z Z c all (refundV2 Z rlm p c ord)"
    "SourceChannelId packet = c \<Longrightarrow> isolated_z Z c all (acknowledgeTokenOrderV2 Z rlm packet p ord oack)"
proof -
  have settle: "isolated_z Z c all (settleEscrowedV2 Z rlm c p ord to)" "isolated_z Z c all (burnEscrowedV2 Z rlm c p ord)"
    "isolated_z Z c all (refundIBCVoucher Z rlm base to a)" for to base a
    unfolding settleEscrowedV2_def burnEscrowedV2_def refundIBCVoucher_def Let_def
    by (intro isolated.z_rules isolated_branch isolated.z_try isolated.z_ignore isolated_vouchers isolated_balance isolated_custody
        isolated_getters assms)+
  show ref: "isolated_z Z c all (refundV2 Z rlm p c ord)"
    unfolding refundV2_def by (intro isolated_branch settle isolated.z_atoms)
  show "SourceChannelId packet = c \<Longrightarrow> isolated_z Z c all (acknowledgeTokenOrderV2 Z rlm packet p ord oack)"
    unfolding acknowledgeTokenOrderV2_def Let_def
    by (simp only:) (intro isolated_branch settle ref isolated.z_atoms)
qed

section \<open>Sending and receivers\<close>

lemma isolated_fails: "isolated_z Z c False (zseq m (zfail e))"
  by (rule isolated.zI) (auto simp: zseq_def zbind_def zfail_def split: prod.splits zres.splits)

lemma isolated_escrow:
  assumes "tree_ok Z"
  shows "isolated_z Z c False (zbind (ledgerAmountOf Z d a) (\<lambda>n. zseq (increaseChannelBalanceV2 Z rlm c' p b q n)
     (ztry (localTokenEscrow Z rlm d src f a) (\<lambda>err. zseq (m n) (zfail err)))))"
proof (rule isolated.zI)
  fix s r s' assume run: "zbind (ledgerAmountOf Z d a) (\<lambda>n. zseq (increaseChannelBalanceV2 Z rlm c' p b q n)
     (ztry (localTokenEscrow Z rlm d src f a) (\<lambda>err. zseq (m n) (zfail err)))) s = (r, s')" and g: "good False r"
  from run show "isolated Z c s s'"
  proof (cases rule: zbind_split)
    case (1 n s1)
    have led: "s1 = s" "ledger_of Z s d a = Inr n" using ledgerAmountOf_run [OF 1(1)] by (auto simp: stops_def)
    note n = led(1) ledger_range [OF led(2)]
    have "isolated_z Z c False (zseq (increaseChannelBalanceV2 Z rlm c' p b q n)
       (ztry (localTokenEscrow Z rlm d src f a) (\<lambda>err. zseq (m n) (zfail err))))"
      using n(2) by (intro isolated.z_seq isolated.z_try isolated_credit isolated_custody isolated_fails assms) auto
    then show ?thesis using 1(2) g n(1) isolated.zD by blast
  next
    case (2 q)
    then show ?thesis using ledgerAmountOf_run [OF 2(1)] isolated.refl by simp
  qed
qed

lemma isolated_verify:
  assumes "tree_ok Z"
  shows "isolated_z Z c False (verifyInternal Z rlm f c' p i)"
  using assms
proof (induction Z rlm f c' p i rule: verifyInternal.induct)
  case (1 Z rlm f c' p i)
  note IH = 1(1,2) and t = 1(3)
  have meta: "isolated_z Z c False (verifyMetadataDecimals Z d md)" for d md
    unfolding verifyMetadataDecimals_def
    by (intro isolated.z_rules isolated_branch isolated_getters)
  have ord: "isolated_z Z c False (verifyTokenOrderV2 Z rlm f c' p ord)" for ord
    unfolding verifyTokenOrderV2_def Let_def
    by (intro isolated_escrow isolated.z_rules isolated_branch meta isolated_getters isolated_custody t)
  show ?case
    unfolding verifyInternal.simps [of Z rlm f c' p i] verifyCall_def
    by (intro isolated.z_with isolated.z_each isolated_branch isolated.z_seq isolated.z_atoms ord t IH)
qed


lemma isolated_branch_x:
  "(b \<Longrightarrow> isolated_x Z c all m) \<Longrightarrow> (\<not> b \<Longrightarrow> isolated_x Z c all n) \<Longrightarrow> isolated_x Z c all (if b then m else n)"
  "(v = None \<Longrightarrow> isolated_x Z c all m) \<Longrightarrow> (\<And>x. v = Some x \<Longrightarrow> isolated_x Z c all (k x)) \<Longrightarrow>
     isolated_x Z c all (case v of None \<Rightarrow> m | Some x \<Rightarrow> k x)"
  "(\<And>e. w = Inl e \<Longrightarrow> isolated_x Z c all (h e)) \<Longrightarrow> (\<And>x. w = Inr x \<Longrightarrow> isolated_x Z c all (k' x)) \<Longrightarrow>
     isolated_x Z c all (case w of Inl e \<Rightarrow> h e | Inr x \<Rightarrow> k' x)"
  "(\<And>a b. u = (a, b) \<Longrightarrow> isolated_x Z c all (l a b)) \<Longrightarrow> isolated_x Z c all (case u of (a, b) \<Rightarrow> l a b)"
  "(\<And>a b. t = (a, b) \<Longrightarrow> isolated_x Z c all (g a b y)) \<Longrightarrow> isolated_x Z c all ((case t of (a, b) \<Rightarrow> g a b) y)"
  by (simp_all split: option.splits sum.splits prod.splits)

lemma isolated_paused: "isolated_z Z c all assertIsNotPaused" "isolated_z Z c all (assertIsCoreRealm cur)" "isolated_z Z c all (assertEmpty f)"
  unfolding assertIsNotPaused_def assertIsCoreRealm_def assertEmpty_def by (intro isolated.z_rules isolated_branch)+

lemma isolated_send:
  assumes "tree_ok Z"
  shows "isolated_x Z c False (zkgm_Send Z rlm sent c' ts salt i)"
  unfolding zkgm_Send_def v1_Send_def Let_def
  by (intro isolated.x_rules isolated.x_orPanic isolated_verify isolated_paused isolated.z_atoms assms)

lemma isolated_voucher_calls:
  "isolated_x Z c False (zkgm_VoucherTransfer Z rlm d to n)" "isolated_x Z c False (zkgm_VoucherApprove Z rlm d to n)"
  unfolding zkgm_VoucherTransfer_def zkgm_VoucherApprove_def v1_VoucherTransfer_def v1_VoucherApprove_def
  by (intro isolated.x_rules isolated.x_orPanic isolated.z_rules isolated_paused isolated_need isolated_vouchers)+

text \<open>A public function called by a receiver aborts the transaction unless it gives a value.\<close>

lemma isolated_called:
  fixes m :: "('h, ('m, 'x) zstate, 'a) zp"
  assumes "isolated_x Z c False m"
  shows "isolated_x Z c all (\<lambda>z. pmap (\<lambda>r. case r of Val u \<Rightarrow> xret u | _ \<Rightarrow> (\<lambda>z. AppPanics)) (m z))"
proof (rule isolated.x_pmap [OF assms])
  show "isolated_x Z c all (case r of Val u \<Rightarrow> xret u | _ \<Rightarrow> (\<lambda>z. AppPanics))" for r :: "'a zres"
    by (cases r) (simp_all add: isolated.x_ret isolated.x_panics)
  show "ends (\<lambda>r' z'. \<not> good all r') ((case r of Val u \<Rightarrow> xret u | _ \<Rightarrow> (\<lambda>z. AppPanics)) z)" if "\<not> good False r" for r :: "'a zres" and z
    using that by (cases r) simp_all
qed

lemma isolated_receiver:
  assumes "tree_ok Z"
  shows "isolated_x Z c all (run_receiver Z prog)"
proof (induction prog)
  case (RSend addr path c' ts salt i x k)
  then show ?case
    by (auto intro!: isolated.x_seq isolated.x_bind isolated.x_local isolated_modify isolated.z_atoms
        isolated_called [OF isolated_send [OF assms]])
next
  case (RVoucherTransfer addr path d to n x k)
  then show ?case
    by (auto intro!: isolated.x_seq isolated.x_bind isolated.x_local isolated_modify isolated.z_atoms
        isolated_called [OF isolated_voucher_calls(1)])
next
  case (RVoucherApprove addr path d to n x k)
  then show ?case
    by (auto intro!: isolated.x_seq isolated.x_bind isolated.x_local isolated_modify isolated.z_atoms
        isolated_called [OF isolated_voucher_calls(2)])
qed (auto intro!: isolated.x_seq isolated.x_local isolated_modify isolated.x_ret isolated.x_panics)

section \<open>Packets\<close>

lemma isolated_call:
  assumes "tree_ok Z"
  shows "isolated_x Z c all (executeCall Z packet relayer msg path cl intent)"
  unfolding executeCall_def callErrAck_def callSuccessAck_def Let_def
  by (intro isolated.x_rules isolated.z_rules isolated_branch_x isolated_getters isolated_receiver assms)

lemma isolated_key: "isolated_z Z c all (packetKey kc p)"
  unfolding packetKey_def by (intro isolated.z_rules)

lemma isolated_forward: "isolated_x Z c all (executeForward Z E rlm packet salt path forward intent)"
  unfolding executeForward_def buildForwardChild_def verifyForwardChannel_def forwardChildData_def Let_def
  by (intro isolated.x_rules isolated.z_rules isolated_branch_x isolated_branch isolated_key isolated_setters)

lemma isolated_dispatch:
  assumes "tree_ok Z" "DestinationChannelId packet = c"
  shows "isolated_x Z c True (dispatchExecutePacket Z E rlm packet relayer msg salt path i intent)"
  using assms
proof (induction Z E rlm packet relayer msg salt path i intent rule: dispatchExecutePacket.induct)
  case (1 Z E rlm packet relayer msg salt path i intent)
  note IH = 1(1) and A = 1(2-)
  show ?case
    unfolding dispatchExecutePacket.simps [of Z E rlm packet relayer msg salt path i intent] Let_def
    by (intro isolated.x_recover isolated.x_with isolated.x_bind isolated.x_loop isolated.x_orFatal isolated.x_local isolated.x_ret
        isolated.x_fail isolated_branch_x isolated_execute isolated_call isolated_forward isolated_acks isolated.z_atoms
        isolated.z_orFatal IH A) (assumption | erule sym | rule refl)+
qed

lemma isolated_internal:
  assumes "tree_ok Z" "SourceChannelId packet = c"
  shows "isolated_z Z c all (acknowledgeInternal Z rlm packet salt path i good_ack bz)"
    "isolated_z Z c all (timeoutInternal Z rlm packet salt path i)"
proof -
  show "isolated_z Z c all (acknowledgeInternal Z rlm packet salt path i good_ack bz)"
    using assms
  proof (induction Z rlm packet salt path i good_ack bz rule: acknowledgeInternal.induct)
    case (1 Z rlm packet salt path i good_ack bz)
    note IH = 1(1,2) and A = 1(3-)
    show ?case
      unfolding acknowledgeInternal.simps [of Z rlm packet salt path i good_ack bz] Let_def acknowledgeCall_def
      by (intro isolated.z_with isolated.z_bind isolated.z_each isolated_branch isolated_refund isolated.z_atoms IH A)
        (assumption | erule sym | rule refl)+
  qed
  show "isolated_z Z c all (timeoutInternal Z rlm packet salt path i)"
    using assms
  proof (induction Z rlm packet salt path i rule: timeoutInternal.induct)
    case (1 Z rlm packet salt path i)
    note IH = 1(1,2) and A = 1(3-)
    show ?case
      unfolding timeoutInternal.simps [of Z rlm packet salt path i] Let_def timeoutCall_def A(2)
      by (intro isolated.z_with isolated.z_each isolated_branch isolated_refund isolated.z_atoms IH A)
        (assumption | erule sym | rule refl)+
  qed
qed

section \<open>The callbacks\<close>

lemma isolated_recv:
  assumes "tree_ok Z" "DestinationChannelId packet = c"
  shows "isolated_x Z c all (recvDecoded Z E rlm packet relayer msg intent)"
  unfolding recvDecoded_def [abs_def]
proof (rule isolated.x_pmap [of Z c True])
  show "isolated_x Z c True (xwith (codecRes (DecodeZkgmPacket (Data packet)))
     (\<lambda>zp. dispatchExecutePacket Z E rlm packet relayer msg (zp_Salt zp) (zp_Path zp) (zp_Instruction zp) intent))"
    by (intro isolated.x_with isolated_dispatch assms)
qed (auto simp: xlocal_def zfatal_def failed_def universalErrorAck_def intro!: isolated.x_rules isolated.z_rules elim: good.elims split: zres.split)

lemma isolated_relay: "isolated_x Z c all (handleForwardChild Z rlm packet zp ack)"
  unfolding handleForwardChild_def
  by (intro isolated.x_rules isolated_branch_x isolated_key isolated_getters isolated_setters isolated.z_atoms)

lemma isolated_gate: "isolated_x Z c all m \<Longrightarrow> isolated_x Z c all (app_gate cur m)"
  unfolding app_gate_def by (intro isolated.x_seq isolated.x_local isolated_paused)

text \<open>C4: 
  C0: Channels are isolated from each other: however the receipt, the acknowledgement or the timeout of a packet ends,
  the balances escrowed under channels other than the packet's own have not become smaller. A counterparty chain that
  makes up packets, acknowledgements and receiver calls can claim what was escrowed for it, and nothing of another chain's.
\<close>

theorem channels_isolated:
  assumes "tree_ok Z"
  shows "ends (\<lambda>_. isolated Z (DestinationChannelId packet) w) (App_OnRecvPacket Z E cur w packet relayer msg) \<and>
     ends (\<lambda>_. isolated Z (DestinationChannelId packet) w) (App_OnIntentRecvPacket Z E cur w packet relayer msg) \<and>
     ends (\<lambda>_. isolated Z (SourceChannelId packet) w) (App_OnAcknowledgementPacket Z cur w packet ack) \<and>
     ends (\<lambda>_. isolated Z (SourceChannelId packet) w) (App_OnTimeoutPacket Z cur w packet)"
  unfolding App_OnRecvPacket_def App_OnIntentRecvPacket_def App_OnAcknowledgementPacket_def App_OnTimeoutPacket_def
    v1_OnRecvPacket_def v1_OnIntentRecvPacket_def v1_OnAcknowledgementPacket_def v1_OnTimeoutPacket_def universalErrorAck_def
  by (intro conjI isolated.settled isolated_gate isolated.x_rules isolated.x_orPanic isolated_branch_x isolated_recv isolated_relay
      isolated_internal isolated.z_atoms assms refl)+

theorem channels_isolated_witness:
  "\<forall>E cur w packet relayer msg.
     ends (\<lambda>_. isolated sample_zenv (DestinationChannelId packet) w) (App_OnRecvPacket sample_zenv E cur w packet relayer msg)"
  using channels_isolated [OF sample_world_ok [THEN world_ops(1)]] by blast

end
