(* ===== verification/ZkgmForward.thy ===== *)
theory ZkgmForward
  imports CoreLifecycle ZkgmSample
begin

text \<open>
  Forwards (\<^verbatim>\<open>v1/forward.gno\<close>) on the host: the checks made before a child packet is sent are all the host makes, so
  a forward either sends its child and remembers the parent, or leaves the host's commitments as they were.
\<close>

section \<open>Programs that read the host\<close>

text \<open>The program \<open>m\<close> ends with \<open>r\<close> in \<open>z'\<close> and has only looked at the host.\<close>

definition peeks ::
    "('t, 'lc, 'app, 'z) env \<Rightarrow> (('t, 'lc, 'app, 'z) core, 'z, 'a) zp \<Rightarrow> 'z \<Rightarrow> ('t, 'lc, 'app, 'z) core \<Rightarrow> 'a zres \<Rightarrow> 'z \<Rightarrow> bool" where
  "peeks E m z s r z' \<longleftrightarrow>
     (\<forall>k :: 'a \<Rightarrow> (('t, 'lc, 'app, 'z) core, 'z, RecvPacketResult) zp.
        run_prog E (pbind (m z) k) s = run_prog E (pbind (Done r z') k) s)"

lemma pbind_assoc: "pbind (pbind m f) g = pbind m (\<lambda>x z. pbind (f x z) g)"
  by (induction m) (auto split: zres.split)

lemma peeks_local: "m z = (r, z') \<Longrightarrow> peeks E (xlocal m) z s r z'"
  by (simp add: peeks_def xlocal_def)

lemma peeks_ret: "peeks E (xret x) z s (Val x) z" and peeks_fail: "peeks E (xfail e) z s (Err e) z"
  by (simp_all add: xret_def xfail_def peeks_local zret_def zfail_def)

lemma peeks_host:
  "peeks E (xhost m) z s (case m s of Inl e \<Rightarrow> Pan (errCore e) | Inr (r, _) \<Rightarrow> Val r) z"
  by (simp add: peeks_def xhost_def split: sum.split prod.split)

lemma peeks_bind:
  fixes m :: "(('t, 'lc, 'app, 'z) core, 'z, 'a) zp" and k :: "'a \<Rightarrow> (('t, 'lc, 'app, 'z) core, 'z, 'b) zp"
  assumes "peeks E m z s (Val x) z1" "peeks E (k x) z1 s r z2"
  shows "peeks E (xbind m k) z s r z2"
  unfolding peeks_def xbind_def pbind_assoc
proof
  fix h :: "'b \<Rightarrow> (('t, 'lc, 'app, 'z) core, 'z, RecvPacketResult) zp"
  have "run_prog E (pbind (m z) (\<lambda>x z. pbind (k x z) h)) s = run_prog E (pbind (k x z1) h) s"
    using assms(1) by (simp add: peeks_def)
  then show "run_prog E (pbind (m z) (\<lambda>x z. pbind (k x z) h)) s = run_prog E (pbind (Done r z2) h) s"
    using assms(2) by (simp add: peeks_def)
qed

fun carried :: "'a zres \<Rightarrow> 'b zres" where
  "carried (Err e) = Err e" | "carried (Pan e) = Pan e" | "carried (Fatal e) = Fatal e" | "carried (Val x) = undefined"

lemma peeks_stop:
  assumes "peeks E m z s r z1" "\<forall>x. r \<noteq> Val x"
  shows "peeks E (xbind m k) z s (carried r) z1"
  using assms by (cases r) (simp_all add: peeks_def xbind_def pbind_assoc)


lemma peeks_core:
  assumes "m s = Inr (r, s)"
  shows "peeks E (xcore m) z s (case r of Inl e \<Rightarrow> Err (errCore e) | Inr x \<Rightarrow> Val x) z"
  unfolding xcore_def
  by (rule peeks_bind [of E _ z s r z]) (use assms peeks_host [of E m z s] in \<open>auto simp: peeks_fail peeks_ret split: sum.split\<close>)

section \<open>The checks\<close>

lemma getChannelEntry_cases:
  obtains e where "getChannelEntry E i s = Inl e"
  | "getChannelEntry E i s = Inr (None, s)"
  | e where "getChannelEntry E i s = Inr (Some e, s)" "channel_of E s i = Some e"
proof (cases "bp_Get E (channels s) (channelKey E i)")
  case None
  then show ?thesis using that(2) by (simp add: getChannelEntry_def run_simps bind_def gets_def ok_def)
next
  case (Some a)
  then show ?thesis using that(1,3) by (cases a) (auto simp: getChannelEntry_def channel_of_def bind_def gets_def ok_def panic_def)
qed

lemma store_GetConnection_cases:
  obtains e where "store_GetConnection E i s = Inl e"
  | "store_GetConnection E i s = Inr (None, s)"
  | c where "store_GetConnection E i s = Inr (Some c, s)" "connection_of E s i = Some c"
proof (cases "bp_Get E (connections s) (connectionKey E i)")
  case None
  then show ?thesis using that(2) by (simp add: store_GetConnection_def bind_def gets_def ok_def)
next
  case (Some a)
  then show ?thesis using that(1,3) by (cases a) (auto simp: store_GetConnection_def connection_of_def bind_def gets_def ok_def panic_def)
qed


text \<open>A program that ends where it started, having only looked, and whose values satisfy \<open>Q\<close>.\<close>

definition looks :: "('t, 'lc, 'app, 'z) env \<Rightarrow> (('t, 'lc, 'app, 'z) core, 'z, 'a) zp \<Rightarrow> 'z \<Rightarrow> ('t, 'lc, 'app, 'z) core \<Rightarrow> ('a \<Rightarrow> bool) \<Rightarrow> bool" where
  "looks E m z s Q \<longleftrightarrow> (\<exists>r. peeks E m z s r z \<and> (\<forall>x. r = Val x \<longrightarrow> Q x))"

lemma looks_bind: "looks E m z s Q \<Longrightarrow> (\<And>x. Q x \<Longrightarrow> looks E (k x) z s Q') \<Longrightarrow> looks E (xbind m k) z s Q'"
proof -
  assume "looks E m z s Q" and k: "\<And>x. Q x \<Longrightarrow> looks E (k x) z s Q'"
  then obtain r where r: "peeks E m z s r z" "\<forall>x. r = Val x \<longrightarrow> Q x" by (auto simp: looks_def)
  show ?thesis
  proof (cases "\<exists>x. r = Val x")
    case True
    then obtain x where x: "r = Val x" by blast
    then show ?thesis using k [of x] r peeks_bind [of E m z s x z k] by (auto simp: looks_def)
  next
    case False
    then have "peeks E (xbind m k) z s (carried r) z" using r(1) by (intro peeks_stop) auto
    moreover have "\<forall>x. carried r \<noteq> Val x" using False by (cases r) auto
    ultimately show ?thesis by (auto simp: looks_def)
  qed
qed

lemma looks_ends: "Q x \<Longrightarrow> looks E (xret x) z s Q" "looks E (xfail e) z s Q"
  unfolding looks_def using peeks_ret peeks_fail by fastforce+

lemma looks_if: "(b \<Longrightarrow> looks E m z s Q) \<Longrightarrow> (\<not> b \<Longrightarrow> looks E n z s Q) \<Longrightarrow> looks E (if b then m else n) z s Q"
  by simp

lemma looks_local: "snd (m z) = z \<Longrightarrow> looks E (xlocal m) z s (\<lambda>x. fst (m z) = Val x)"
  unfolding looks_def using peeks_local [of m z "fst (m z)" z] by (metis prod.collapse)

lemma looks_host: "looks E (xhost m) z s (\<lambda>x. \<exists>s'. m s = Inr (x, s'))"
  unfolding looks_def using peeks_host [of E m z s] by (force split: sum.splits)

lemma looks_core: "looks E (xcore m) z s (\<lambda>x. \<exists>s'. m s = Inr (Inr x, s'))"
  unfolding xcore_def by (rule looks_bind [OF looks_host]) (auto split: sum.split intro: looks_ends)

lemma core_getters:
  "GetChannel E i s = Inr (Inr ch, s') \<Longrightarrow> \<exists>e. channel_of E s i = Some e \<and> ch = entry_channel e"
  "GetChannelOwner E i s = Inr (Inr p, s') \<Longrightarrow> \<exists>e. channel_of E s i = Some e \<and> p = string_of_bytes (entry_portId e)"
  "GetConnection E j s = Inr (Inr c, s') \<Longrightarrow> connection_of E s j = Some c"
  "GetPacketCommitmentExists E q s = Inr (b, s') \<Longrightarrow> b \<longleftrightarrow> commitments s (commitment_path E q) \<noteq> None"
proof -
  show "GetChannel E i s = Inr (Inr ch, s') \<Longrightarrow> \<exists>e. channel_of E s i = Some e \<and> ch = entry_channel e"
    by (rule getChannelEntry_cases [of E i s]) (auto simp: GetChannel_def store_GetChannel_def bind_def ok_def found_or_def)
  show "GetChannelOwner E i s = Inr (Inr p, s') \<Longrightarrow> \<exists>e. channel_of E s i = Some e \<and> p = string_of_bytes (entry_portId e)"
    by (rule getChannelEntry_cases [of E i s]) (auto simp: GetChannelOwner_def store_GetChannelOwner_def bind_def ok_def found_or_def)
  show "GetConnection E j s = Inr (Inr c, s') \<Longrightarrow> connection_of E s j = Some c"
    by (rule store_GetConnection_cases [of E j s]) (auto simp: GetConnection_def bind_def ok_def found_or_def)
  show "GetPacketCommitmentExists E q s = Inr (b, s') \<Longrightarrow> b \<longleftrightarrow> commitments s (commitment_path E q) \<noteq> None"
    by (auto simp: GetPacketCommitmentExists_def HasPacketCommitment_def getCommitment_def run_simps)
qed

text \<open>A child that passes the checks is one the host sends.\<close>

definition sendable :: "('t, 'lc, 'app, 'z) env \<Rightarrow> string \<Rightarrow> ('t, 'lc, 'app, 'z) core \<Rightarrow> Packet \<Rightarrow> bool" where
  "sendable E port s child \<longleftrightarrow>
     IsValidPacketDataSize (eventConfig s) (Data child) \<and>
     (\<exists>e cn. channel_of E s (SourceChannelId child) = Some e \<and> string_of_bytes (entry_portId e) = port \<and>
        chan_State (entry_channel e) = ChannelStateOpen \<and>
        connection_of E s (chan_ConnectionId (entry_channel e)) = Some cn \<and> conn_State cn = ConnectionStateOpen \<and>
        commitments s (commitment_path E child) = None)"

lemma looks_weaken: "looks E m z s Q \<Longrightarrow> (\<And>x. Q x \<Longrightarrow> Q' x) \<Longrightarrow> looks E m z s Q'"
  by (auto simp: looks_def)

lemma verifyForwardChannel_looks: "looks E (verifyForwardChannel E port child) z s (\<lambda>_. sendable E port s child)"
  unfolding verifyForwardChannel_def Let_def
  by (intro looks_bind [OF looks_host] looks_bind [OF looks_core] looks_if looks_ends)
    (auto dest!: core_getters simp: sendable_def gets_def)

lemma forwardChildData_still:
  "snd (forwardChildData kc packet path salt fwd z) = z"
  "fst (forwardChildData kc packet path salt fwd z) = Val x \<Longrightarrow> fwd_TimeoutTimestamp fwd \<noteq> 0 \<and>
     (\<exists>zp. EncodeZkgmPacket zp = Inr (snd x) \<and> zp_Salt zp = DeriveForwardSalt kc salt)"
  by (auto simp: forwardChildData_def zbind_def zcodec_def zpath_def zret_def zfail_def zpanic_def Let_def
      split: prod.splits sum.splits codec_error.splits if_splits zres.splits)

lemma buildForwardChild_looks:
  "looks E (buildForwardChild E kc packet path salt fwd) z s
     (\<lambda>child. TimeoutTimestamp child \<noteq> 0 \<and> TimeoutHeight child = 0 \<and>
        (\<exists>zp. EncodeZkgmPacket zp = Inr (Data child) \<and> zp_Salt zp = DeriveForwardSalt kc salt) \<and>
        (\<exists>e. channel_of E s (SourceChannelId child) = Some e \<and> DestinationChannelId child = chan_CounterpartyChannelId (entry_channel e)))"
  unfolding buildForwardChild_def
proof (rule looks_bind [OF looks_local [OF forwardChildData_still(1)]])
  fix x :: "ChannelId \<times> bytes" assume x: "fst (forwardChildData kc packet path salt fwd z) = Val x"
  obtain c bz where cb: "x = (c, bz)" by fastforce
  show "looks E (case x of (c, bz) \<Rightarrow> xbind (xcore (GetChannel E c)) (\<lambda>ch.
      xret \<lparr>SourceChannelId = c, DestinationChannelId = chan_CounterpartyChannelId ch, Data = bz, TimeoutHeight = 0,
        TimeoutTimestamp = fwd_TimeoutTimestamp fwd\<rparr>)) z s
     (\<lambda>child. TimeoutTimestamp child \<noteq> 0 \<and> TimeoutHeight child = 0 \<and>
        (\<exists>zp. EncodeZkgmPacket zp = Inr (Data child) \<and> zp_Salt zp = DeriveForwardSalt kc salt) \<and>
        (\<exists>e. channel_of E s (SourceChannelId child) = Some e \<and> DestinationChannelId child = chan_CounterpartyChannelId (entry_channel e)))"
    using forwardChildData_still(2) [OF x]
    by (auto simp: cb dest!: core_getters(1) intro!: looks_bind [OF looks_core] looks_ends)
qed

section \<open>Forwards\<close>

lemma looks_run:
  fixes k :: "'a \<Rightarrow> (('t, 'lc, 'app, 'z) core, 'z, RecvPacketResult) zp"
  assumes "looks E m z s Q"
    and "\<And>x. Q x \<Longrightarrow> \<exists>r s'. run_prog E (k x z) s = Inr (r, s') \<and> G r s'"
    and "\<And>r. \<forall>x. r \<noteq> Val x \<Longrightarrow> G r (s\<lparr>world := z\<rparr>)"
  shows "\<exists>r s'. run_prog E (xbind m k z) s = Inr (r, s') \<and> G r s'"
proof -
  obtain r where r: "peeks E m z s r z" "\<forall>x. r = Val x \<longrightarrow> Q x" using assms(1) by (auto simp: looks_def)
  have run: "run_prog E (xbind m k z) s = run_prog E (pbind (Done r z) k) s" using r(1) by (simp add: peeks_def xbind_def)
  show ?thesis
  proof (cases r)
    case (Val x)
    then show ?thesis using assms(2) [of x] r(2) run by simp
  qed (use assms(3) run in \<open>auto simp: run_simps\<close>)
qed

text \<open>What a forward did to the host and to the parents it remembers.\<close>

definition forwarded ::
    "('t, 'r, 'm, 'x) zenv \<Rightarrow> ('c, 'lc, 'app, ('m, 'x) zstate) env \<Rightarrow> Packet \<Rightarrow> bytes \<Rightarrow> ('m, 'x) zstate \<Rightarrow>
     ('c, 'lc, 'app, ('m, 'x) zstate) core \<Rightarrow> ('c, 'lc, 'app, ('m, 'x) zstate) core \<Rightarrow> bool" where
  "forwarded Z E packet salt z s s' \<longleftrightarrow>
     (\<exists>child zp h. EncodeZkgmPacket zp = Inr (Data child) \<and> zp_Salt zp = DeriveForwardSalt (z_keccak Z) salt \<and>
        IsForwardedPacket (zp_Salt zp) \<and> CommitPacket (z_keccak Z) child = Inr h \<and>
        commitments s (commitment_path E child) = None \<and>
        commitments s' = (commitments s)(commitment_path E child \<mapsto> COMMITMENT_MAGIC) \<and>
        world s' = z\<lparr>inFlightPacket := zt_Set Z (inFlightPacket z) (h256String h) (ZPacket packet)\<rparr>)"

text \<open>C10: 
  C0: A forward sends its child or does nothing: \<^verbatim>\<open>executeForward\<close> always returns, for the checks it makes are all that
  the host makes of a packet it sends, so that sending cannot panic and abort the relayer's transaction. When it is
  asynchronous, the host has one commitment more, that of a child whose salt marks it as forwarded, and the
  application remembers the packet under the child's hash; any other outcome leaves both as they were.
\<close>

theorem forward_sends_or_nothing:
  assumes rlm: "IsCurrent rlm" and cfg: "0 < sint (MaxEventAttrValueLen (eventConfig s))"
  shows "\<exists>r s'. run_prog E (executeForward Z E rlm packet salt path fwd intent z) s = Inr (r, s') \<and>
    (if r = Val (recvResult PacketStatusAsync []) then forwarded Z E packet salt z s s' else s' = s\<lparr>world := z\<rparr>)"
proof -
  let ?async = "recvResult PacketStatusAsync []"
  define G where "G r s' \<longleftrightarrow> (if r = Val ?async then forwarded Z E packet salt z s s' else s' = s\<lparr>world := z\<rparr>)" for r s'
  have total: "CommitPacket (z_keccak Z) p = Inr (Keccak (z_keccak Z) (packets_preimage [p]))" for p
    by (simp add: CommitPacket_def CommitPackets_total)
  have sent: "\<exists>r s'. run_prog E (xbind (xSendPacket rlm (SourceChannelId child) (TimeoutTimestamp child) (Data child)) (\<lambda>childPacket.
         xbind (xlocal (packetKey (z_keccak Z) childPacket)) (\<lambda>childHash.
         xseq (xlocal (SetInFlightPacket Z rlm childHash packet))
         (xseq (xlocal (zassertIsRlmCurrent rlm))
         (xseq (xlocal (packetKey (z_keccak Z) packet))
          (xret ?async))))) z) s = Inr (r, s') \<and> G r s'"
    if c: "sendable E (PkgPath rlm) s child" "TimeoutTimestamp child \<noteq> 0" "TimeoutHeight child = 0"
      "channel_of E s (SourceChannelId child) = Some e" "DestinationChannelId child = chan_CounterpartyChannelId (entry_channel e)"
      "EncodeZkgmPacket zp = Inr (Data child)" "zp_Salt zp = DeriveForwardSalt (z_keccak Z) salt" for child e zp
  proof -
    obtain cn where cn: "string_of_bytes (entry_portId e) = PkgPath rlm" "chan_State (entry_channel e) = ChannelStateOpen"
      "connection_of E s (chan_ConnectionId (entry_channel e)) = Some cn" "conn_State cn = ConnectionStateOpen"
      "commitments s (commitment_path E child) = None" "IsValidPacketDataSize (eventConfig s) (Data child)"
      using c(1,4) by (auto simp: sendable_def)
    obtain a where a: "packetSendEventAttrs (keccak256 E) (eventConfig s) child (entry_channel e) cn = Inr a"
      using eventAttrs_Inr(1) [OF cfg] by blast
    have child: "child = \<lparr>SourceChannelId = SourceChannelId child, DestinationChannelId = chan_CounterpartyChannelId (entry_channel e),
        Data = Data child, TimeoutHeight = 0, TimeoutTimestamp = TimeoutTimestamp child\<rparr>"
      using c by (cases child) simp
    have send: "SendPacket E (crossing E (Address rlm) (PkgPath rlm)) (SourceChannelId child) (TimeoutTimestamp child) (Data child) s =
      Inr (child, s\<lparr>commitments := (commitments s)(commitment_path E child \<mapsto> COMMITMENT_MAGIC),
           params := (params s)(h256ChainParamKey (commitment_path E child) \<mapsto> COMMITMENT_MAGIC),
           events := events s @ [(''PacketSend'', a)]\<rparr>)"
      using cn c(2,4) a child by (intro SendPacket_ok [where cn = cn]) (simp_all add: crossing_def)
    show ?thesis
      using rlm cn(5) c(6,7) forward_salt_recognised [of "z_keccak Z" salt]
      by (auto simp: xbind_def xseq_def xSendPacket_def send xlocal_def packetKey_def zmust_def total zbind_def zret_def
          SetInFlightPacket_def zseq_def zassertIsRlmCurrent_def zmodify_def xret_def run_simps forwarded_def andthen_def G_def
          intro!: exI [where x = child] exI [where x = zp])
  qed
  have "\<exists>r s'. run_prog E (executeForward Z E rlm packet salt path fwd intent z) s = Inr (r, s') \<and> G r s'"
  proof (cases "isAllowedForwardInstruction (ins_Opcode (fwd_Instruction fwd)) \<and> \<not> intent")
    case False
    then show ?thesis
      by (auto simp: executeForward_def xfail_def xret_def xlocal_def zfail_def zret_def onlyMaker_def recvResult_def run_simps andthen_def G_def)
  next
    case True
    have "\<exists>r s'. run_prog E (xbind (buildForwardChild E (z_keccak Z) packet path salt fwd) (\<lambda>child.
        xseq (verifyForwardChannel E (PkgPath rlm) child)
        (xbind (xSendPacket rlm (SourceChannelId child) (TimeoutTimestamp child) (Data child)) (\<lambda>childPacket.
         xbind (xlocal (packetKey (z_keccak Z) childPacket)) (\<lambda>childHash.
         xseq (xlocal (SetInFlightPacket Z rlm childHash packet))
         (xseq (xlocal (zassertIsRlmCurrent rlm))
         (xseq (xlocal (packetKey (z_keccak Z) packet))
          (xret ?async)))))) ) z) s = Inr (r, s') \<and> G r s'"
      unfolding xseq_def [of "verifyForwardChannel E p c" for p c]
      by (rule looks_run [OF buildForwardChild_looks], rule looks_run [OF verifyForwardChannel_looks])
        (use sent in blast, simp_all add: G_def)
    then show ?thesis using True by (simp add: executeForward_def)
  qed
  then show ?thesis unfolding G_def .
qed

theorem forward_sends_or_nothing_witness:
  "\<forall>E w packet salt path fwd intent z.
     \<exists>r s'. run_prog E (executeForward sample_zenv E (zcrossing sample_zenv ''core'' CoreRealmPath False) packet salt path fwd intent z)
         (newStore E w) = Inr (r, s') \<and>
       (if r = Val (recvResult PacketStatusAsync []) then forwarded sample_zenv E packet salt z (newStore E w) s'
        else s' = (newStore E w)\<lparr>world := z\<rparr>)"
  by (intro allI forward_sends_or_nothing) (simp_all add: zcrossing_def newStore_def sample_config)

section \<open>What becomes of the child\<close>

text \<open>C11: 
  C0: The outcome of a forwarded packet is its parent's: while the application remembers the parent of a child, the
  child's acknowledgement is written, byte for byte, as the acknowledgement of the parent, a timeout of the child as the
  universal failure; in both cases the parent is forgotten and nothing else of the application changes, so a parent is
  answered once and the orders a child carries are never settled as the application's own.
\<close>

theorem forward_relays_outcome:
  assumes "DecodeZkgmPacket (Data child) = Inr zp" "IsForwardedPacket (zp_Salt zp)"
    and key: "CommitPacket (z_keccak Z) child = Inr h" "zt_Get Z (inFlightPacket z) (h256String h) = Some (ZPacket parent)"
    and gate: "IsCurrent cur" "PrevPkgPath cur = CoreRealmPath" "\<not> paused z"
  shows "let z' = z\<lparr>inFlightPacket := zt_Remove Z (inFlightPacket z) (h256String h)\<rparr>;
             answer = (\<lambda>ack. CallWriteAcknowledgement (Address cur) (PkgPath cur) parent ack (Done () z')) in
         App_OnAcknowledgementPacket Z cur z child ack = answer ack \<and>
         (\<exists>failure. EncodeAck \<lparr>ack_Tag = NewUint 0, ack_InnerAck = []\<rparr> = Inr failure \<and>
            App_OnTimeoutPacket Z cur z child = answer failure)"
proof -
  obtain failure where f: "EncodeAck \<lparr>ack_Tag = NewUint 0, ack_InnerAck = []\<rparr> = Inr failure" using Ack_back by blast
  show ?thesis
    using assms f
    by (simp add: App_OnAcknowledgementPacket_def App_OnTimeoutPacket_def v1_OnAcknowledgementPacket_def v1_OnTimeoutPacket_def
        app_gate_def assertIsCoreRealm_def assertIsNotPaused_def universalErrorAck_def handleForwardChild_def packetKey_def
        GetInFlightPacket_def RemoveInFlightPacket_def ztree_def zmodify_def zassertIsRlmCurrent_def xWriteAcknowledgement_def
        xseq_def xbind_def xorPanic_def xlocal_def xret_def zbind_def zseq_def zret_def zgets_def zcodec_def zmust_def Let_def)
qed

definition sample_child :: ZkgmPacket where
  "sample_child = \<lparr>zp_Salt = DeriveForwardSalt (z_keccak sample_zenv) [], zp_Path = Uint_Zero,
     zp_Instruction = \<lparr>ins_Version = INSTR_VERSION_0, ins_Opcode = OP_CALL, ins_Operand = []\<rparr>\<rparr>"

lemma sample_child_decodes: "\<exists>data. DecodeZkgmPacket data = Inr sample_child"
proof -
  have "case EncodeZkgmPacket sample_child of Inr x \<Rightarrow> length x < 10000 | Inl _ \<Rightarrow> False" by code_simp
  moreover have "packet_ok sample_child" by code_simp
  ultimately show ?thesis using ZkgmPacket_back [of sample_child] by auto
qed

theorem forward_relays_outcome_witness:
  "\<exists>child z. \<forall>parent ack. \<exists>z'. App_OnAcknowledgementPacket sample_zenv (zcrossing sample_zenv ''core'' CoreRealmPath False) (z parent) child ack =
     CallWriteAcknowledgement ''proxy'' ''zkgm'' parent ack (Done () z')"
proof -
  let ?kc = "z_keccak sample_zenv" and ?cur = "zcrossing sample_zenv ''core'' CoreRealmPath False"
  obtain data where data: "DecodeZkgmPacket data = Inr sample_child" using sample_child_decodes by blast
  define child where "child = \<lparr>SourceChannelId = 1, DestinationChannelId = 9, Data = data, TimeoutHeight = 0, TimeoutTimestamp = 5\<rparr>"
  obtain h where h: "CommitPacket ?kc child = Inr h" by (simp add: CommitPacket_def CommitPackets_total)
  define z where "z parent = (NewZkgmStore sample_zenv undefined)\<lparr>inFlightPacket := [h256String h \<mapsto> ZPacket parent]\<rparr>" for parent
  have "IsForwardedPacket (zp_Salt sample_child)" by (simp add: sample_child_def forward_salt_recognised)
  then have "\<exists>z'. App_OnAcknowledgementPacket sample_zenv ?cur (z parent) child ack = CallWriteAcknowledgement ''proxy'' ''zkgm'' parent ack (Done () z')"
    for parent ack
    using forward_relays_outcome [of child sample_child sample_zenv h "z parent" parent ?cur ack] data h
    by (auto simp: child_def z_def zcrossing_def NewZkgmStore_def sample_zenv_def Let_def)
  then show ?thesis by blast
qed

end
