(* ===== verification/ZkgmRefused.thy ===== *)
theory ZkgmRefused
  imports ZkgmSample
begin

text \<open>
  An order that the application refuses has moved nothing. The chain at the other end refunds the sender of an order
  whose acknowledgement is a failure, so no failure may come after a payment here; that holds because every error after
  the first payment is fatal and aborts the transaction.
\<close>

definition moved_nothing :: "('t, 'r, 'm, 'x) zenv \<Rightarrow> ('m, 'x) zstate \<Rightarrow> ('m, 'x) zstate \<Rightarrow> bool" where
  "moved_nothing Z s s' \<longleftrightarrow>
     same_holdings Z (ext s) (ext s') \<and> channelBalanceV2 s' = channelBalanceV2 s \<and> lockedTokenAmounts s' = lockedTokenAmounts s"

interpretation idle: kept "moved_nothing Z" for Z
  by unfold_locales (auto simp: moved_nothing_def same_holdings_def)

abbreviation idle_z :: "('t, 'r, 'm, 'x) zenv \<Rightarrow> bool \<Rightarrow> (('m, 'x) zstate, 'a) zc \<Rightarrow> bool" where
  "idle_z Z \<equiv> kept.keeps_z (moved_nothing Z)"

text \<open>Foreign code that panics in a way the application could recover from.\<close>

definition unpanicking :: "('t, 'r, 'm, 'x) zenv \<Rightarrow> bool" where
  "unpanicking Z \<longleftrightarrow>
     (\<forall>t a n x. fst (ledger_Mint Z t a n x) \<noteq> Panicked) \<and> (\<forall>t a b n x. fst (ledger_Transfer Z t a b n x) \<noteq> Panicked) \<and>
     (\<forall>t a b n x. fst (teller_Transfer Z t a b n x) \<noteq> Panicked) \<and> (\<forall>a b d n x. fst (bank_SendCoins Z a b d n x) \<noteq> Panicked)"

text \<open>The outcomes the sending chain refunds: an error, a recovered panic, or a failure acknowledgement.\<close>

definition refused :: "RecvPacketResult zres \<Rightarrow> bool" where
  "refused r = (case r of Val res \<Rightarrow> res_Status res = PacketStatusFailure | Fatal e \<Rightarrow> False | Err e \<Rightarrow> True | Pan e \<Rightarrow> True)"

definition panics :: "'a zres \<Rightarrow> bool" where
  "panics r \<longleftrightarrow> (\<exists>e. r = Pan e)"

section \<open>Steps before a payment\<close>

lemma idle_frame:
  "ext s' = ext s \<Longrightarrow> channelBalanceV2 s' = channelBalanceV2 s \<Longrightarrow> lockedTokenAmounts s' = lockedTokenAmounts s \<Longrightarrow> moved_nothing Z s s'"
  by (simp add: moved_nothing_def same_holdings_def)

lemma idle_tree: "idle_z Z all (ztree as v)"
  by (rule idle.z_still) (auto simp: ztree_def zret_def zpanic_def split: option.splits)

lemma idle_getters:
  "idle_z Z all (GetVoucher Z d)" "idle_z Z all (GetMetadataImageOf Z d)" "idle_z Z all (GetForeignToken Z d)"
  "idle_z Z all (GetTokenBucket Z d)"
  unfolding GetVoucher_def GetMetadataImageOf_def GetForeignToken_def GetTokenBucket_def
  by (intro idle.z_rules idle_tree)+

lemma idle_modify:
  "(\<And>s. ext (f s) = ext s) \<Longrightarrow> (\<And>s. channelBalanceV2 (f s) = channelBalanceV2 s) \<Longrightarrow>
   (\<And>s. lockedTokenAmounts (f s) = lockedTokenAmounts s) \<Longrightarrow> idle_z Z all (zmodify f)"
  by (rule idle.zI) (auto simp: zmodify_def intro: idle_frame)

lemma idle_branch:
  "(b \<Longrightarrow> idle_z Z all m) \<Longrightarrow> (\<not> b \<Longrightarrow> idle_z Z all n) \<Longrightarrow> idle_z Z all (if b then m else n)"
  "(v = None \<Longrightarrow> idle_z Z all m) \<Longrightarrow> (\<And>x. v = Some x \<Longrightarrow> idle_z Z all (k x)) \<Longrightarrow> idle_z Z all (case v of None \<Rightarrow> m | Some x \<Rightarrow> k x)"
  "(\<And>e. w = Inl e \<Longrightarrow> idle_z Z all (h e)) \<Longrightarrow> (\<And>x. w = Inr x \<Longrightarrow> idle_z Z all (k' x)) \<Longrightarrow>
     idle_z Z all (case w of Inl e \<Rightarrow> h e | Inr x \<Rightarrow> k' x)"
  "(\<And>a b. u = (a, b) \<Longrightarrow> idle_z Z all (l a b)) \<Longrightarrow> idle_z Z all (case u of (a, b) \<Rightarrow> l a b)"
  by (simp_all split: option.splits sum.splits prod.splits)

lemma idle_reads:
  "idle_z Z all (ledgerAmountOf Z d a)" "idle_z Z all (scaleExpOf Z d)" "idle_z Z all (rateLimit Z d a)" "idle_z Z all failed"
  unfolding ledgerAmountOf_def scaleExpOf_def rateLimit_def updateBucket_def failed_def universalErrorAck_def
  by (intro idle.z_rules idle_branch idle_getters idle_modify; simp)+

text \<open>Making a voucher moves no balance.\<close>

lemma idle_create:
  assumes "world_ok Z coins"
  shows "idle_z Z all (getOrCreateVoucher Z rlm d name symbol decimals)"
proof (rule idle.zI)
  fix s r s' assume run: "getOrCreateVoucher Z rlm d name symbol decimals s = (r, s')"
  show "moved_nothing Z s s'"
  proof (cases "s' = s")
    case True
    then show ?thesis by (simp add: idle.refl)
  next
    case False
    let ?name = "if name = [] then d else name" and ?symbol = "sanitizeVoucherSymbol Z symbol d"
    let ?decimals = "if scaleExpForDecimals decimals > 0 then canonicalDecimals else int (unat decimals)"
    obtain t x x' where made: "tok_New Z ?name ?symbol ?decimals (ext s) = Some (t, x)"
        "reg_Register Z t (trimIBCPrefix d) x = Some x'"
      and s': "channelBalanceV2 s' = channelBalanceV2 s" "lockedTokenAmounts s' = lockedTokenAmounts s" "ext s' = x'"
      using run False
      by (auto simp: getOrCreateVoucher_def zbind_def zseq_def zgets_def zret_def zfail_def zpanic_def zfatal_def zmodify_def
          GetVoucher_def ztree_def SetVoucher_def zassertIsRlmCurrent_def Let_def
          split: prod.splits option.splits zres.splits if_splits)
    then show ?thesis using world_new(1) [OF assms made] by (simp add: moved_nothing_def)
  qed
qed

text \<open>A payment that does not succeed has not happened.\<close>

lemma foreign_idle:
  assumes "token_op Z op t change \<or> coin_op Z op d change" "zforeign op s = (r, s')" "r \<noteq> Val ()"
  shows "moved_nothing Z s s'"
proof -
  obtain x f where f: "op (ext s) = (f, x)" "s' = s\<lparr>ext := x\<rparr>" "f \<noteq> Fine"
    by (rule zforeign_run [OF assms(2)]) (use assms(3) in auto)
  then have "same_holdings Z (ext s) x" using assms(1) unfolding token_op_def coin_op_def by (metis (full_types))
  then show ?thesis using f by (simp add: moved_nothing_def)
qed


section \<open>Payments\<close>

definition pays :: "('t, 'r, 'm, 'x) zenv \<Rightarrow> (('m, 'x) zstate, RecvPacketResult) zc \<Rightarrow> bool" where
  "pays Z m \<longleftrightarrow> (\<forall>s r s'. m s = (r, s') \<longrightarrow> refused r \<longrightarrow> moved_nothing Z s s')"

definition final :: "('s, RecvPacketResult) zc \<Rightarrow> bool" where
  "final m \<longleftrightarrow> (\<forall>s. \<not> refused (fst (m s)))"

lemma pays_idle: "idle_z Z True m \<Longrightarrow> pays Z m"
  unfolding pays_def idle.keeps_z_def refused_def by (auto split: zres.splits)

lemma pays_bind:
  assumes "idle_z Z True m" "\<And>x. pays Z (k x)"
  shows "pays Z (zbind m k)" "pays Z (zseq m (k x))"
proof -
  have "pays Z (zbind m h)" if h: "\<And>x. pays Z (h x)" for h
    unfolding pays_def
  proof (intro allI impI)
    fix s r s' assume run: "zbind m h s = (r, s')" and r: "refused r"
    from run show "moved_nothing Z s s'"
    proof (cases rule: zbind_split)
      case (1 x s1)
      have "moved_nothing Z s s1" using idle.zD [OF assms(1) 1(1)] by simp
      moreover have "moved_nothing Z s1 s'" using h 1(2) r unfolding pays_def by blast
      ultimately show ?thesis by (rule idle.trans)
    next
      case (2 q)
      have "good True q" using run 2 r by (cases q) (auto simp: zbind_def refused_def)
      then show ?thesis using idle.zD [OF assms(1) 2(1)] by simp
    qed
  qed
  from this [of k] this [of "\<lambda>_. k x"] show "pays Z (zbind m k)" "pays Z (zseq m (k x))"
    using assms(2) by (simp_all add: zseq_def)
qed

lemma pays_then:
  assumes "\<And>s r s'. m s = (r, s') \<Longrightarrow> good True r \<Longrightarrow> \<forall>x. r \<noteq> Val x \<Longrightarrow> moved_nothing Z s s'"
    and "\<And>s x s'. m s = (Val x, s') \<Longrightarrow> \<not> refused (fst (k x s'))"
  shows "pays Z (zbind m k)"
  unfolding pays_def
proof (intro allI impI)
  fix s r s' assume run: "zbind m k s = (r, s')" and r: "refused r"
  from run show "moved_nothing Z s s'"
  proof (cases rule: zbind_split)
    case (1 x s1)
    then show ?thesis using assms(2) [OF 1(1)] r by simp
  next
    case (2 q)
    have "good True q" using run 2 r by (cases q) (auto simp: zbind_def refused_def)
    then show ?thesis using assms(1) [OF 2(1)] 2(3) by simp
  qed
qed

lemma pays_branch:
  "(b \<Longrightarrow> pays Z m) \<Longrightarrow> (\<not> b \<Longrightarrow> pays Z n) \<Longrightarrow> pays Z (if b then m else n)"
  "(v = None \<Longrightarrow> pays Z m) \<Longrightarrow> (\<And>x. v = Some x \<Longrightarrow> pays Z (k x)) \<Longrightarrow> pays Z (case v of None \<Rightarrow> m | Some x \<Rightarrow> k x)"
  "(\<And>e. w = Inl e \<Longrightarrow> pays Z (h e)) \<Longrightarrow> (\<And>x. w = Inr x \<Longrightarrow> pays Z (k' x)) \<Longrightarrow> pays Z (case w of Inl e \<Rightarrow> h e | Inr x \<Rightarrow> k' x)"
  "(\<And>a b. u = (a, b) \<Longrightarrow> pays Z (l a b)) \<Longrightarrow> pays Z (case u of (a, b) \<Rightarrow> l a b)"
  by (simp_all split: option.splits sum.splits prod.splits)

lemma success_final:
  "final (zbind (zorFatal (encodeTokenOrderSuccessAck f mk)) (\<lambda>ack. zret (recvResult PacketStatusSuccess ack)))"
proof -
  obtain a where a: "EncodeTokenOrderAck \<lparr>oa_FillType = f, oa_MarketMaker = mk\<rparr> = Inr a" using TokenOrderAck_back by blast
  obtain b where "EncodeAck \<lparr>ack_Tag = tagAckSuccess, ack_InnerAck = a\<rparr> = Inr b" using Ack_back by blast
  then show ?thesis using a
    by (simp add: final_def refused_def zorFatal_def ztry_def encodeTokenOrderSuccessAck_def zcodec_def zbind_def zret_def recvResult_def)
qed

lemma final_seq: "final k \<Longrightarrow> \<not> panics (fst (m s)) \<Longrightarrow> \<forall>e. fst (m s) \<noteq> Err e \<Longrightarrow> \<not> refused (fst (zseq m k s))"
  by (cases "m s"; cases "fst (m s)") (auto simp: final_def panics_def refused_def zseq_def zbind_def)

section \<open>Minting\<close>

lemma mint_idle:
  assumes "world_ok Z coins" "mintVoucher Z rlm d name symbol decimals to a s = (r, s')" "good True r" "\<forall>x. r \<noteq> Val x"
  shows "moved_nothing Z s s'"
  using assms(2) [unfolded mintVoucher_def]
proof (cases rule: zbind_split)
  case (1 v s1)
  have first: "moved_nothing Z s s1" using idle.zD [OF idle_create [OF assms(1)] 1(1), of True] by simp
  from 1(2) [unfolded MintScaled_def] have "moved_nothing Z s1 s'"
  proof (cases rule: zbind_split)
    case (1 n s2)
    then have "zforeign (ledger_Mint Z (v_token v) to n) s1 = (r, s')" using zscale_run [OF 1(1)] by simp
    then show ?thesis using assms(4) by (intro foreign_idle [OF disjI1 [OF world_ops(2) [OF assms(1)]]]) auto
  next
    case (2 q)
    then show ?thesis using zscale_run [OF 2(1)] by (simp add: idle.refl)
  qed
  with first show ?thesis by (rule idle.trans)
next
  case (2 q)
  have "stops q" using good_stops [OF assms(3,4)] 2(2) by simp
  then have "good True q" by (auto simp: stops_def)
  then show ?thesis using idle.zD [OF idle_create [OF assms(1)] 2(1), of True] by simp
qed

lemma create_known:
  assumes "tree_ok Z" "getOrCreateVoucher Z rlm d name symbol decimals s = (Val v, s')"
  shows "zt_Get Z (vouchers s') d = Some (ZVoucher v)"
proof -
  have "zt_Get Z (zt_Set Z m k w) k = Some w" for m k w using assms(1) by (simp add: tree_ok_def)
  then show ?thesis
    using assms(2)
    by (cases "zt_Get Z (vouchers s) d"; cases "the (zt_Get Z (vouchers s) d)")
      (auto simp: getOrCreateVoucher_def zbind_def zseq_def zgets_def zret_def zfail_def zpanic_def zfatal_def zmodify_def
        GetVoucher_def ztree_def SetVoucher_def zassertIsRlmCurrent_def Let_def
        split: prod.splits option.splits zres.splits if_splits)
qed

lemma mint_known:
  assumes "world_ok Z coins" "mintVoucher Z rlm d name symbol decimals to a s = (Val (), s')"
  shows "\<exists>v. zt_Get Z (vouchers s') d = Some (ZVoucher v)"
proof -
  obtain v s1 n where v: "getOrCreateVoucher Z rlm d name symbol decimals s = (Val v, s1)"
    and n: "zscale (ToLedgerAmount Z v a) s1 = (Val n, s1)" "zforeign (ledger_Mint Z (v_token v) to n) s1 = (Val (), s')"
    using assms(2) zscale_run by (fastforce simp: mintVoucher_def MintScaled_def zrun_Val)
  have "vouchers s' = vouchers s1" by (rule zforeign_run [OF n(2)]) simp
  then show ?thesis using create_known [OF world_ops(1) [OF assms(1)] v] by auto
qed

lemma scale_unpanicking: "\<not> panics (fst (zscale (ScaleDownToInt64 a e) s))"
  by (auto simp: panics_def zscale_def ScaleDown_value zret_def zfail_def zpanic_def)

lemma mint_unpanicking:
  assumes "unpanicking Z" "zt_Get Z (vouchers s) d = Some (ZVoucher v)"
  shows "\<not> panics (fst (mintVoucher Z rlm d name symbol decimals to a s))"
proof -
  have get: "getOrCreateVoucher Z rlm d name symbol decimals s = (Val v, s)"
    using assms(2) by (simp add: getOrCreateVoucher_def GetVoucher_def zbind_def zgets_def ztree_def zret_def)
  have "\<not> panics (fst (zforeign (ledger_Mint Z t to n) s))" for t n
    using assms(1) by (auto simp: panics_def zforeign_def unpanicking_def split: prod.split foreign.split) (metis fst_conv)
  then show ?thesis
    using scale_unpanicking [of a "ScaleExp Z v" s]
    by (auto simp: mintVoucher_def get MintScaled_def ToLedgerAmount_def zbind_def panics_def
        split: prod.split zres.split dest: zscale_run)
qed


lemma finish_final:
  assumes "IsCurrent rlm" "final k"
  shows "final (zseq (case nextPath of None \<Rightarrow> zret ()
    | Some np \<Rightarrow> zseq (SetForeignToken Z rlm d base) (zseq (SetTokenOrigin Z rlm d np) (SetMetadataImageOf Z rlm d img))) k)"
  using assms
  by (auto simp: final_def zseq_def zbind_def zret_def zmodify_def zassertIsRlmCurrent_def SetForeignToken_def SetTokenOrigin_def
      SetMetadataImageOf_def split: option.split)

lemma mintVouchers_pay:
  assumes W: "world_ok Z coins" and U: "unpanicking Z" and k: "final k"
  shows "pays Z (zseq (if q then mintVoucher Z rlm d name symbol decimals receiver a else zret ())
    (zseq (if f then zorFatal (mintVoucher Z rlm d name symbol decimals relayer b) else zret ()) k))"
proof -
  let ?fee = "zorFatal (mintVoucher Z rlm d name symbol decimals relayer b)"
  have fee: "\<forall>e. fst (?fee s) \<noteq> Err e" "panics (fst (?fee s)) \<Longrightarrow> panics (fst (mintVoucher Z rlm d name symbol decimals relayer b s))"
    "?fee s = (r, s') \<Longrightarrow> good True r \<Longrightarrow> \<forall>x. r \<noteq> Val x \<Longrightarrow> moved_nothing Z s s'" for s r s'
    using mint_idle [OF W, of rlm d name symbol decimals relayer b s]
    by (auto simp: zorFatal_def ztry_def zfatal_def panics_def split: prod.splits zres.splits)
  have alone: "pays Z (zseq (if f then ?fee else zret ()) k)"
  unfolding zseq_def
  proof (rule pays_then)
    show "moved_nothing Z s s'" if "(if f then ?fee else zret ()) s = (r, s')" "good True r" "\<forall>x. r \<noteq> Val x" for s r s'
      using that fee(3) by (cases f) (auto simp: zret_def)
    show "\<not> refused (fst (k s'))" for s' using k by (simp add: final_def)
  qed
  show ?thesis
  proof (cases q)
    case False
    have "zseq (zret ()) m = m" for m :: "(('c, 'd) zstate, RecvPacketResult) zc" by (simp add: fun_eq_iff zseq_def zbind_def zret_def)
    then show ?thesis using False alone by simp
  next
    case True
    have "pays Z (zseq (mintVoucher Z rlm d name symbol decimals receiver a) (zseq (if f then ?fee else zret ()) k))"
      unfolding zseq_def [of "mintVoucher Z rlm d name symbol decimals receiver a"]
    proof (rule pays_then [OF mint_idle [OF W]])
      fix s x s' assume "mintVoucher Z rlm d name symbol decimals receiver a s = (Val x, s')"
      then have "\<exists>v. zt_Get Z (vouchers s') d = Some (ZVoucher v)" using mint_known [OF W] by simp
      then have "\<not> panics (fst (?fee s'))" using mint_unpanicking [OF U] fee(2) by blast
      then show "\<not> refused (fst (zseq (if f then ?fee else zret ()) k s'))"
        using fee(1) [of s'] by (intro final_seq [OF k]) (auto simp: zret_def panics_def)
    qed
    with True show ?thesis by simp
  qed
qed

lemma protocolFillMint_pays:
  assumes W: "world_ok Z coins" and U: "unpanicking Z" and rlm: "IsCurrent rlm"
  shows "pays Z (protocolFillMint Z rlm c p base d receiver relayer ba qa metadata canDeploy)"
proof -
  have terms: "idle_z Z True (mintTerms Z d metadata canDeploy)"
    unfolding mintTerms_def by (intro idle.z_rules idle_branch idle.z_attempt idle_reads)
  show ?thesis
    unfolding protocolFillMint_def Let_def
    by (intro pays_branch pays_bind mintVouchers_pay [OF W U] finish_final [OF rlm] success_final terms idle.z_rules idle_branch
        idle_getters | rule pays_idle, intro idle.z_atoms idle_reads)+
qed

section \<open>Releases\<close>

text \<open>A denom whose voucher, if any, can be read.\<close>

definition readable :: "('t, 'r, 'm, 'x) zenv \<Rightarrow> string \<Rightarrow> ('m, 'x) zstate \<Rightarrow> bool" where
  "readable Z d s \<longleftrightarrow> \<not> panics (fst (GetVoucher Z d s))"

lemma ledgerAmount_readable: "ledgerAmountOf Z d a s = (Val n, s') \<Longrightarrow> readable Z d s"
  by (auto simp: ledgerAmountOf_def zrun_Val readable_def panics_def)

lemma foreign_unpanicking:
  assumes "unpanicking Z"
  shows "\<not> panics (fst (zforeign (ledger_Transfer Z t a b n) s))" "\<not> panics (fst (zforeign (teller_Transfer Z t a b n) s))"
    "\<not> panics (fst (zforeign (bank_SendCoins Z a b d n) s))"
  using assms by (auto simp: panics_def zforeign_def unpanicking_def split: prod.split foreign.split) (metis fst_conv)+

lemma calm_bind: "\<not> panics (fst (m s)) \<Longrightarrow> (\<And>x s'. m s = (Val x, s') \<Longrightarrow> \<not> panics (fst (k x s'))) \<Longrightarrow> \<not> panics (fst (zbind m k s))"
  by (auto simp: zbind_def panics_def split: prod.splits zres.splits)

lemma calm_seq: "\<not> panics (fst (m s)) \<Longrightarrow> (\<And>x s'. m s = (Val x, s') \<Longrightarrow> \<not> panics (fst (k s'))) \<Longrightarrow> \<not> panics (fst (zseq m k s))"
  unfolding zseq_def by (rule calm_bind)

lemma unescrow_calm:
  assumes U: "unpanicking Z" and "IsCurrent rlm" "readable Z d s"
  shows "\<not> panics (fst (localTokenUnescrow Z rlm d to a s))"
proof -
  have scale: "\<not> panics (fst (zscale (amountInt64 a) s))" "\<not> panics (fst (zscale (ToLedgerAmount Z v a) s))" for v s
    by (simp_all add: amountInt64_def ToLedgerAmount_def scale_unpanicking)
  have small: "\<not> panics (fst (zret x s))" "\<not> panics (fst (zfail e s))" "\<not> panics (fst (zgets f s))" "\<not> panics (fst (zguard b e s))"
    "\<not> panics (fst (zassertIsRlmCurrent rlm s))" "\<not> panics (fst (zderef (Some x) s))" for x e f b s
    using assms(2) by (auto simp: panics_def zret_def zfail_def zgets_def zguard_def zassertIsRlmCurrent_def zderef_def)
  consider "isIBCTokenDenom d" | t where "\<not> isIBCTokenDenom d" "reg_Get Z (ext s) d = Some t" | "\<not> isIBCTokenDenom d" "reg_Get Z (ext s) d = None"
    by (cases "reg_Get Z (ext s) d") auto
  then show ?thesis
  proof cases
    case 1
    have move: "\<not> panics (fst (TransferScaled Z v (Address rlm) to a s))" for v s
      unfolding TransferScaled_def by (intro calm_bind scale foreign_unpanicking [OF U])
    have "\<not> panics (fst (transferVoucher Z d (Address rlm) to a s))"
      unfolding transferVoucher_def needVoucher_def
      by (intro calm_bind assms(3) [unfolded readable_def]) (simp add: move small split: option.split)
    then show ?thesis using 1 by (simp add: localTokenUnescrow_def zbind_def zgets_def getTokenType_def)
  next
    case 2
    have "\<not> panics (fst (localGRC20Unescrow Z rlm (Some t) to a s))"
      unfolding localGRC20Unescrow_def
      by (intro calm_bind calm_seq scale small foreign_unpanicking [OF U])
    then show ?thesis using 2 by (simp add: localTokenUnescrow_def zbind_def zgets_def getTokenType_def)
  next
    case 3
    have "\<not> panics (fst (sendNative Z rlm d to a s))"
      unfolding sendNative_def by (intro calm_bind calm_seq scale small foreign_unpanicking [OF U])
    then show ?thesis using 3 by (simp add: localTokenUnescrow_def zbind_def zgets_def getTokenType_def)
  qed
qed


text \<open>A release changes the world only.\<close>

definition world_only :: "('m, 'x) zstate \<Rightarrow> ('m, 'x) zstate \<Rightarrow> bool" where
  "world_only s s' \<longleftrightarrow> (\<exists>x. s' = s\<lparr>ext := x\<rparr>)"

interpretation world_only: kept world_only
proof
  show "world_only s s" for s :: "('a, 'b) zstate" unfolding world_only_def by (rule exI [of _ "ext s"]) simp
  show "world_only s t \<Longrightarrow> world_only t u \<Longrightarrow> world_only s u" for s t u :: "('a, 'b) zstate" by (auto simp: world_only_def)
qed

lemma unescrow_world: "world_only.keeps_z all (localTokenUnescrow Z rlm d to a)"
proof -
  have foreign: "world_only.keeps_z all (zforeign op)" for op :: "'x \<Rightarrow> foreign \<times> 'x"
    by (rule world_only.zI) (auto elim!: zforeign_run simp: world_only_def)
  have tree: "world_only.keeps_z all (GetVoucher Z d)"
    by (rule world_only.z_still) (auto simp: GetVoucher_def zbind_def zgets_def ztree_def zret_def zpanic_def split: option.splits)
  have branch: "(\<And>x. world_only.keeps_z all (k x)) \<Longrightarrow> world_only.keeps_z all m \<Longrightarrow> world_only.keeps_z all (case v of None \<Rightarrow> m | Some x \<Rightarrow> k x)"
    "world_only.keeps_z all i \<Longrightarrow> world_only.keeps_z all g \<Longrightarrow> world_only.keeps_z all h \<Longrightarrow>
     world_only.keeps_z all (case ty of IBC_TOKEN \<Rightarrow> i | GRC20_TOKEN \<Rightarrow> g | NATIVE_COIN \<Rightarrow> h)"
    for k m v i g h ty by (simp_all split: option.split tokenType.split)
  show ?thesis
    unfolding localTokenUnescrow_def transferVoucher_def needVoucher_def TransferScaled_def localGRC20Unescrow_def sendNative_def zderef_def
    by (intro world_only.z_rules foreign tree branch)
qed

lemma increase_calm:
  assumes "zt_Get Z (channelBalanceV2 s) (slot_key (c, p, b, q)) = Some (ZUint u)" "IsCurrent rlm"
  shows "\<not> panics (fst (increaseChannelBalanceV2 Z rlm c p b q n s))"
  using assms by (auto simp: increaseChannelBalanceV2_def GetChannelBalanceV2_def SetChannelBalanceV2_def slot_key_def zbind_def zseq_def
      zgets_def ztree_def zret_def zfail_def zmodify_def zassertIsRlmCurrent_def panics_def Let_def split: prod.split)

definition ready :: "('t, 'r, 'm, 'x) zenv \<Rightarrow> slot \<Rightarrow> string \<Rightarrow> ('m, 'x) zstate \<Rightarrow> bool" where
  "ready Z k d s \<longleftrightarrow> readable Z d s \<and> (\<exists>u. zt_Get Z (channelBalanceV2 s) (slot_key k) = Some (ZUint u))"

lemma ready_world: "world_only s s' \<Longrightarrow> ready Z k d s \<Longrightarrow> ready Z k d s'"
  by (auto simp: world_only_def ready_def readable_def GetVoucher_def zbind_def zgets_def ztree_def zret_def zpanic_def panics_def
      split: option.splits)

lemma release_mild:
  assumes U: "unpanicking Z" and rlm: "IsCurrent rlm" and rdy: "ready Z (c, p, b, q) d s"
    and run: "release_part Z rlm d (increaseChannelBalanceV2 Z rlm c p b q n) to a s = (r, s')"
  shows "\<not> panics r \<and> (\<forall>e. r \<noteq> Err e) \<and> (r = Val () \<longrightarrow> ready Z (c, p, b, q) d s')"
proof (cases "Uint_IsZero a")
  case True
  then show ?thesis using run rdy by (auto simp: release_part_def zret_def panics_def)
next
  case False
  obtain w s1 where w: "localTokenUnescrow Z rlm d to a s = (w, s1)" by fastforce
  have calm: "\<not> panics w" using unescrow_calm [OF U rlm, of d s to a] rdy by (simp add: ready_def w)
  show ?thesis
  proof (cases "good True w")
    case True
    then have "world_only s s1" using world_only.zD [OF unescrow_world w] by blast
    then have rdy1: "ready Z (c, p, b, q) d s1" using rdy by (rule ready_world)
    then have "\<not> panics (fst (increaseChannelBalanceV2 Z rlm c p b q n s1))" using increase_calm rlm unfolding ready_def by blast
    then show ?thesis
      using run False calm rdy1
      by (cases w) (auto simp: release_part_def w ztry_def zseq_def zbind_def zignore_def zret_def zfatal_def panics_def
          split: prod.splits zres.splits)
  next
    case not: False
    then show ?thesis using run False by (cases w) (auto simp: release_part_def w ztry_def panics_def)
  qed
qed

lemma readable_vouchers: "vouchers s' = vouchers s \<Longrightarrow> readable Z d s' \<longleftrightarrow> readable Z d s"
  by (cases "zt_Get Z (vouchers s) d"; cases "asVoucher (the (zt_Get Z (vouchers s) d))")
    (simp_all add: readable_def GetVoucher_def zbind_def zgets_def ztree_def zret_def zpanic_def panics_def)

lemma decrease_ready:
  assumes "tree_ok Z" "decreaseChannelBalanceV2 Z rlm c p b q n s = (Val (), s')" "0 \<le> n" "n < 2 ^ 63" "readable Z d s"
  shows "ready Z (c, p, b, q) d s'"
proof -
  obtain u where "s' = set_slot Z (c, p, b, q) u s" using decrease_run [OF assms(2-4)] by (auto simp: stops_def)
  then show ?thesis
    using assms(1,5) readable_vouchers [of s' s Z d] by (auto simp: ready_def set_slot_def tree_ok_def)
qed

lemma releases_calm:
  assumes U: "unpanicking Z" and rlm: "IsCurrent rlm" and rdy: "ready Z (c, p, b, q) d s" and k: "final k"
  shows "\<not> refused (fst (zseq (release_part Z rlm d (increaseChannelBalanceV2 Z rlm c p b q n) to a)
    (zseq (release_part Z rlm d (increaseChannelBalanceV2 Z rlm c p b q n) to' a') k) s))"
proof -
  obtain r s1 where r: "release_part Z rlm d (increaseChannelBalanceV2 Z rlm c p b q n) to a s = (r, s1)" by fastforce
  note first = release_mild [OF U rlm rdy r]
  show ?thesis
  proof (cases "r = Val ()")
    case True
    then have rdy1: "ready Z (c, p, b, q) d s1" using first by simp
    obtain r' s2 where r': "release_part Z rlm d (increaseChannelBalanceV2 Z rlm c p b q n) to' a' s1 = (r', s2)" by fastforce
    have "\<not> refused (fst (zseq (release_part Z rlm d (increaseChannelBalanceV2 Z rlm c p b q n) to' a') k s1))"
      using release_mild [OF U rlm rdy1 r'] r' by (intro final_seq [OF k]) simp_all
    then show ?thesis using r True by (simp add: zseq_def zbind_def)
  next
    case False
    then show ?thesis using first r by (cases r) (auto simp: zseq_def zbind_def refused_def panics_def)
  qed
qed

lemma protocolFillUnescrow_pays:
  fixes Z :: "('t, 'r, 'm, 'x) zenv"
  assumes W: "world_ok Z coins" and U: "unpanicking Z" and rlm: "IsCurrent rlm"
  shows "pays Z (protocolFillUnescrowV2 Z rlm c p base d receiver relayer ba qa)"
proof -
  have after: "pays Z (zbind (ledgerAmountOf Z d ba) (\<lambda>n.
      let back = increaseChannelBalanceV2 Z rlm c rp (bytes_of_string d) base n in
      zseq (decreaseChannelBalanceV2 Z rlm c rp (bytes_of_string d) base n)
      (zseq (release_part Z rlm d back receiver qa) (zseq (release_part Z rlm d back relayer fee) k))))"
    if k: "final k" for rp fee and k :: "(('m, 'x) zstate, RecvPacketResult) zc"
    unfolding pays_def
  proof (intro allI impI)
    fix s r s' assume run: "zbind (ledgerAmountOf Z d ba) (\<lambda>n.
      let back = increaseChannelBalanceV2 Z rlm c rp (bytes_of_string d) base n in
      zseq (decreaseChannelBalanceV2 Z rlm c rp (bytes_of_string d) base n)
      (zseq (release_part Z rlm d back receiver qa) (zseq (release_part Z rlm d back relayer fee) k))) s = (r, s')"
      and ref: "refused r"
    from run show "moved_nothing Z s s'"
    proof (cases rule: zbind_split)
      case (2 q)
      then show ?thesis using ledgerAmountOf_run [OF 2(1)] by (simp add: idle.refl)
    next
      case (1 n s1)
      have led: "s1 = s" "ledger_of Z s d ba = Inr n" using ledgerAmountOf_run [OF 1(1)] by (auto simp: stops_def)
      note range = ledger_range [OF led(2), THEN conjunct1] ledger_range [OF led(2), THEN conjunct2]
      from 1(2) [unfolded led(1) Let_def zseq_def [of "decreaseChannelBalanceV2 Z rlm c rp (bytes_of_string d) base n"]]
      show ?thesis
      proof (cases rule: zbind_split)
        case (2 q)
        then show ?thesis using decrease_run [OF 2(1) range] by (auto simp: idle.refl)
      next
        case dec: (1 x s2)
        have "ready Z (c, rp, bytes_of_string d, base) d s2"
          using decrease_ready [OF world_ops(1) [OF W] _ range ledgerAmount_readable [OF 1(1)]] dec(1) by simp
        from releases_calm [OF U rlm this k] show ?thesis using dec(2) ref by (metis fst_conv)
      qed
    qed
  qed
  show ?thesis
    unfolding protocolFillUnescrowV2_def
  proof (rule pays_bind(1))
    fix rp
    have "pays Z (let (fee, underflow) = SubOverflow ba qa in
       if underflow then zfail errTokenOrderFeeUnderflow
       else zseq (ledgerAmountOf Z d qa) (zseq (ledgerAmountOf Z d fee) (zbind (ledgerAmountOf Z d ba) (\<lambda>n.
         let back = increaseChannelBalanceV2 Z rlm c rp (bytes_of_string d) base n in
         zseq (decreaseChannelBalanceV2 Z rlm c rp (bytes_of_string d) base n)
         (zseq (release_part Z rlm d back receiver qa) (zseq (release_part Z rlm d back relayer fee)
           (zbind (zorFatal (encodeTokenOrderSuccessAck fillTypeProtocol [])) (\<lambda>ack.
            zret (recvResult PacketStatusSuccess ack)))))))))"
      unfolding Let_def
      by (intro pays_branch pays_bind idle_reads after [unfolded Let_def] success_final) (rule pays_idle, intro idle.z_atoms)
    then show "pays Z (let (fee, underflow) = SubOverflow ba qa in
       if underflow then zfail errTokenOrderFeeUnderflow
       else
       zseq (ledgerAmountOf Z d qa)
       (zseq (ledgerAmountOf Z d fee)
       (zbind (ledgerAmountOf Z d ba) (\<lambda>baseTokenLedgerAmount.
        let quoteBytes = bytes_of_string d;
            release = (\<lambda>to amount.
              if Uint_IsZero amount then zret ()
              else ztry (localTokenUnescrow Z rlm d to amount)
                (\<lambda>err. zseq (zignore (increaseChannelBalanceV2 Z rlm c rp quoteBytes base
                          baseTokenLedgerAmount)) (zfatal err))) in
        zseq (decreaseChannelBalanceV2 Z rlm c rp quoteBytes base baseTokenLedgerAmount)
        (zseq (release receiver qa)
        (zseq (release relayer fee)
        (zbind (zorFatal (encodeTokenOrderSuccessAck fillTypeProtocol [])) (\<lambda>ack.
         zret (recvResult PacketStatusSuccess ack)))))))))"
      by (cases "SubOverflow ba qa"; cases "snd (SubOverflow ba qa)") (simp_all add: Let_def release_part_def)
  qed (rule idle.z_atoms)
qed


section \<open>Orders\<close>

lemma transfer_idle:
  assumes "world_ok Z coins" "transferVoucher Z d src to a s = (r, s')" "\<forall>x. r \<noteq> Val x"
  shows "moved_nothing Z s s'"
proof (rule GetVoucher_cases [of Z d s])
  fix v assume v: "GetVoucher Z d s = (Val (Some v), s)"
  then have "TransferScaled Z v src to a s = (r, s')" using assms(2) by (simp add: transferVoucher_def needVoucher_def zbind_def)
  from this [unfolded TransferScaled_def] show ?thesis
  proof (cases rule: zbind_split)
    case (1 n s1)
    then have "zforeign (ledger_Transfer Z (v_token v) src to n) s = (r, s')" using zscale_run [OF 1(1)] by simp
    then show ?thesis using assms(3) by (intro foreign_idle [OF disjI1 [OF world_ops(4) [OF assms(1)]]]) auto
  next
    case (2 q)
    then show ?thesis using zscale_run [OF 2(1)] by (simp add: idle.refl)
  qed
qed (use assms(2) in \<open>auto simp: transferVoucher_def needVoucher_def zbind_def zfail_def idle.refl\<close>)

lemma marketMaker_pays:
  assumes W: "world_ok Z coins"
  shows "pays Z (marketMakerFillV2 Z relayer msg ord)"
proof -
  have success: "\<not> refused (fst (zbind (encodeTokenOrderSuccessAck f mk) (\<lambda>ack. zret (recvResult PacketStatusSuccess ack)) s))" for f mk s
  proof -
    obtain a where a: "EncodeTokenOrderAck \<lparr>oa_FillType = f, oa_MarketMaker = mk\<rparr> = Inr a" using TokenOrderAck_back by blast
    obtain b where "EncodeAck \<lparr>ack_Tag = tagAckSuccess, ack_InnerAck = a\<rparr> = Inr b" using Ack_back by blast
    then show ?thesis using a by (simp add: refused_def encodeTokenOrderSuccessAck_def zcodec_def zbind_def zret_def recvResult_def)
  qed
  have maker: "\<not> refused (fst (zret onlyMaker s))" for s by (simp add: zret_def refused_def onlyMaker_def recvResult_def)
  have fill: "pays Z (zbind (zattempt (transferVoucher Z d relayer to a)) (\<lambda>r. case r of Inl err \<Rightarrow> zret onlyMaker
      | Inr _ \<Rightarrow> zbind (encodeTokenOrderSuccessAck f mk) (\<lambda>ack. zret (recvResult PacketStatusSuccess ack))))" for d to a f mk
  proof (rule pays_then)
    show "moved_nothing Z s s'" if "zattempt (transferVoucher Z d relayer to a) s = (r, s')" "\<forall>x. r \<noteq> Val x" for s r s'
      using that transfer_idle [OF W] by (auto simp: zattempt_def split: prod.splits zres.splits)
  qed (simp add: success maker split: sum.split)
  show ?thesis
    unfolding marketMakerFillV2_def Let_def
    by (intro pays_bind pays_branch fill idle.z_atoms idle_reads pays_idle)
qed

lemma executeTokenOrder_pays:
  assumes W: "world_ok Z coins" and U: "unpanicking Z" and rlm: "IsCurrent rlm"
  shows "pays Z (executeTokenOrderV2 Z rlm packet relayer msg p ord intent)"
  unfolding executeTokenOrderV2_def fillPredicted_def tokenOrderDestinationChannel_def Let_def
  by (intro pays_branch pays_bind marketMaker_pays [OF W] protocolFillUnescrow_pays [OF W U rlm] protocolFillMint_pays [OF W U rlm]
      idle.z_attempt idle_reads idle_getters idle_branch idle.z_atoms pays_idle [OF idle_reads(4)])


text \<open>An order to release five coins that nobody has escrowed.\<close>

definition unbacked_order :: TokenOrderV2 where
  "unbacked_order = \<lparr>o_Sender = [1], o_Receiver = bytes_of_string ''bob'', o_BaseToken = [3], o_BaseAmount = NewUint 5,
     o_QuoteToken = bytes_of_string ''ugnot'', o_QuoteAmount = NewUint 5, o_Kind = TOKEN_ORDER_KIND_UNESCROW, o_Metadata = []\<rparr>"

definition unbacked_packet :: Packet where
  "unbacked_packet = \<lparr>SourceChannelId = 9, DestinationChannelId = 1, Data = [], TimeoutHeight = 0, TimeoutTimestamp = 5\<rparr>"

lemma unbacked_steps:
  fixes x
  defines "w \<equiv> NewZkgmStore sample_zenv x"
  shows "ledgerAmountOf sample_zenv d (NewUint 5) w = (Val 5, w)" "ledgerAmountOf sample_zenv d (NewUint 0) w = (Val 0, w)"
    "rateLimit sample_zenv d a w = (Val (), w)" "zpath (ReverseChannelPath Uint_Zero) w = (Val Uint_Zero, w)"
    "\<exists>e. decreaseChannelBalanceV2 sample_zenv rlm c p b q n w = (Err e, w)"
proof -
  have "amountInt64 (NewUint 5) = Inr 5" "amountInt64 (NewUint 0) = Inr 0" by (simp_all add: amountInt64_def ScaleDown_exact)
  then show "ledgerAmountOf sample_zenv d (NewUint 5) w = (Val 5, w)" "ledgerAmountOf sample_zenv d (NewUint 0) w = (Val 0, w)"
    by (simp_all add: w_def ledgerAmountOf_def GetVoucher_def zbind_def zgets_def ztree_def zret_def zscale_def sample_zenv_def NewZkgmStore_def)
  show "rateLimit sample_zenv d a w = (Val (), w)"
    by (simp add: w_def rateLimit_def zbind_def zgets_def zret_def NewZkgmStore_def)
  have "ReverseChannelPath Uint_Zero = Inr Uint_Zero" by code_simp
  then show "zpath (ReverseChannelPath Uint_Zero) w = (Val Uint_Zero, w)" by (simp add: zpath_def zret_def)
  show "\<exists>e. decreaseChannelBalanceV2 sample_zenv rlm c p b q n w = (Err e, w)"
    by (simp add: w_def decreaseChannelBalanceV2_def GetChannelBalanceV2_def zbind_def zgets_def ztree_def sample_zenv_def
        NewZkgmStore_def zret_def zfail_def Let_def)
qed

lemma unbacked_refused:
  "refused (fst (executeTokenOrderV2 sample_zenv (zcrossing sample_zenv ''core'' CoreRealmPath False) unbacked_packet ''rel'' [] Uint_Zero
     unbacked_order False (NewZkgmStore sample_zenv x)))"
proof -
  have five: "Uint_Cmp (NewUint 5) (NewUint 5) = 0" "SubOverflow (NewUint 5) (NewUint 5) = (NewUint 0, False)" by code_simp+
  obtain e where e: "decreaseChannelBalanceV2 sample_zenv (zcrossing sample_zenv ''core'' CoreRealmPath False) 1 Uint_Zero
      (bytes_of_string ''ugnot'') [3] 5 (NewZkgmStore sample_zenv x) = (Err e, NewZkgmStore sample_zenv x)"
    using unbacked_steps(5) by blast
  have kind: "unbacked_order = \<lparr>o_Sender = [1], o_Receiver = bytes_of_string ''bob'', o_BaseToken = [3], o_BaseAmount = NewUint 5,
     o_QuoteToken = bytes_of_string ''ugnot'', o_QuoteAmount = NewUint 5, o_Kind = TOKEN_ORDER_KIND_UNESCROW, o_Metadata = []\<rparr>"
    "TOKEN_ORDER_KIND_UNESCROW \<noteq> TOKEN_ORDER_KIND_SOLVE" "DestinationChannelId unbacked_packet = 1"
    by (simp_all add: unbacked_order_def unbacked_packet_def TOKEN_ORDER_KIND_UNESCROW_def TOKEN_ORDER_KIND_SOLVE_def)
  show ?thesis
    using e
    by (simp add: executeTokenOrderV2_def kind five protocolFillUnescrowV2_def zbind_def zattempt_def zseq_def unbacked_steps Let_def
        refused_def del: One_nat_def)
qed


end
