(* ===== verification/Spec2Isabelle.thy ===== *)
theory Spec2Isabelle
  imports Mpt EvmStorage CoreGates CoreQuery TestClientAgree IavlSound IavlTree ProofFixtures ProtogenSound
    TokenBucket ZkgmEscrow ZkgmIsolated ZkgmForward ZkgmRefused Uint256Dec
begin

text \<open>
  A model of gno-ibc: Union's IBC protocol as Gno packages and realms, and the Go command-line tools
  that generate its code and its test inputs.

  \<^bold>\<open>The program.\<close> The packages under \<^verbatim>\<open>src/gno.land/p/onbloc\<close> are pure libraries: the RLP and ABI codecs, a
  verifier of Ethereum storage proofs, and the wire types of IBC with their commitments and storage
  paths. The realm \<^verbatim>\<open>src/gno.land/r/onbloc/ibc/union/core\<close> owns the host's state; its implementation
  \<^verbatim>\<open>core/v1\<close> runs the handlers for clients, connections, channels and packets, calls light clients
  behind \<^verbatim>\<open>lightclient.Interface\<close> and applications through their callbacks, and an application may call
  back into the host from inside a callback. The programs under \<^verbatim>\<open>src/tools\<close> stand beside it:
  \<^verbatim>\<open>protogen\<close> writes protobuf codecs for marked structs, \<^verbatim>\<open>cometbls-fixtures\<close> and the two Ethereum tools
  print Merkle proofs for the tests, and \<^verbatim>\<open>gen-ibc-test-client\<close> prints the messages and the commitments
  of a scripted handshake.

  \<^bold>\<open>The theories.\<close> \<open>Prelude\<close> holds byte strings, Go's integer conversions and the generic lemmas.
  \<^item> Codecs: \<open>Rlp\<close> (\<^verbatim>\<open>encoding/rlp\<close>), \<open>Abi\<close> (\<^verbatim>\<open>encoding/abi\<close>), \<open>Height\<close> (\<^verbatim>\<open>types/height.gno\<close>), \<open>IbcTypes\<close> (the rest of
    \<^verbatim>\<open>ibc/union/types\<close>), \<open>CometCodec\<close> (the states and the header of \<^verbatim>\<open>lightclient/cometbls\<close>). Decoders return a
    sum of an error and a value, and every slice is written with its bound.
  \<^item> Proofs: \<open>Mpt\<close> (\<^verbatim>\<open>verifier/evm/mpt\<close>) and \<open>EvmStorage\<close> (\<^verbatim>\<open>verifier/evm/storage\<close>). The walk of a proof has
    no bound in the code and is a partial function, \<open>None\<close> where it does not return.
  \<^item> The host: \<open>CoreBase\<close> (results, panics, the environment), \<open>CoreEvents\<close> (\<^verbatim>\<open>event.gno\<close>, \<^verbatim>\<open>packet_event.gno\<close>),
    \<open>CoreStore\<close> (\<^verbatim>\<open>store.gno\<close>), \<open>CoreHandshake\<close> (\<^verbatim>\<open>v1/client.gno\<close>, \<^verbatim>\<open>v1/connection.gno\<close>), \<open>CorePacket\<close>
    (\<^verbatim>\<open>v1/packet.gno\<close>, \<^verbatim>\<open>v1/app.gno\<close>), \<open>CoreChannel\<close> (\<^verbatim>\<open>v1/channel.gno\<close>). A handler is a computation on the record
    \<open>core\<close> that ends in a value or a panic; a callback of an application is an interaction tree whose
    nodes are its calls into the host. \<open>CoreRules\<close> has the rules for reasoning about computations,
    \<open>CoreMachine\<close> the transactions and the reachable states, \<open>CoreLifecycle\<close> the life of a packet,
    \<open>CoreMirror\<close> what the chain parameters hold, \<open>CoreQuery\<close> the getters and queries (\<^verbatim>\<open>v1/getters.gno\<close>, \<^verbatim>\<open>query.gno\<close>).
  \<^item> Authority: \<open>AccessManager\<close> (\<^verbatim>\<open>p/onbloc/access/manager\<close> and the realm \<^verbatim>\<open>ibc/union/access\<close>), \<open>AccessSafe\<close> (its runs over
    time), \<open>CoreProxy\<close> (the public functions of \<^verbatim>\<open>core\<close> with their gates, \<^verbatim>\<open>upgrade.gno\<close>), \<open>CoreGates\<close> (both realms together).
    A call sees the block time as a 64-bit number; an implementation is what it does with a call.
  \<^item> 256-bit numbers: \<open>Uint256\<close>, \<open>Uint256Div\<close>, \<open>Uint256Bits\<close>, \<open>Uint256Dec\<close> (\<^verbatim>\<open>math/uint256\<close>: limbs and carries, division,
    shifts, decimal text), and what is computed with them: \<open>ZkgmScale\<close> (\<^verbatim>\<open>zkgm/scale.gno\<close>), \<open>TokenBucket\<close>
    (\<^verbatim>\<open>zkgm/tokenbucket\<close>), \<open>ZkgmPath\<close> (\<^verbatim>\<open>zkgm/path.gno\<close>). A number is a record of four words; \<open>uval\<close> is its value.
  \<^item> The ZKGM application, which transfers tokens: \<open>ZkgmAbi\<close> and \<open>ZkgmHash\<close> (the messages, salts and predicted denoms of
    \<^verbatim>\<open>p/onbloc/ibc/union/zkgm\<close>), \<open>ZkgmBase\<close> (results and the store of \<^verbatim>\<open>apps/ucs03_zkgm\<close>), \<open>ZkgmVault\<close> (\<^verbatim>\<open>v1/coins.gno\<close>,
    \<^verbatim>\<open>channel_balance.gno\<close>, \<^verbatim>\<open>voucher.gno\<close>, \<^verbatim>\<open>escrow.gno\<close>, \<^verbatim>\<open>rate_limit.gno\<close>), \<open>ZkgmOrder\<close> (\<^verbatim>\<open>token_order.gno\<close>), \<open>ZkgmApp\<close>
    (calls, forwards, sending and the public functions), \<open>ZkgmDispatch\<close> (\<^verbatim>\<open>dispatch.gno\<close>, \<^verbatim>\<open>batch.gno\<close>, \<^verbatim>\<open>impl.gno\<close>, the
    callbacks of \<^verbatim>\<open>app.gno\<close>), \<open>ZkgmAdmin\<close> (\<^verbatim>\<open>admin.gno\<close>). A result is a value, an error, an ordinary panic, which
    \<^verbatim>\<open>recover\<close> catches, or a fatal one, which aborts the transaction; what calls into the host is an interaction tree
    of \<open>CoreStore\<close>, and so are the receivers of calls, which may call the application back. \<open>ZkgmRules\<close>,
    \<open>ZkgmCustody\<close>, \<open>ZkgmSolvent\<close>, \<open>ZkgmReach\<close> follow the assets through every operation; \<open>ZkgmHost\<close> puts the
    application's callbacks into the host of \<open>CoreMachine\<close> (\<open>CoreWorld\<close>: what a host step leaves to its applications)
    and defines the states the two reach together; \<open>ZkgmEscrow\<close> has a run with an escrow and the solvency of all
    runs; \<open>ZkgmIsolated\<close>, \<open>ZkgmRefused\<close> and \<open>ZkgmForward\<close> the other properties; \<open>ZkgmSample\<close> a small world for examples.
  \<^item> The tools: \<open>GoLib\<close> and \<open>GoText\<close> (the standard library the tools use), \<open>TestClient\<close>,
    \<open>IavlFixtures\<close>, \<open>ProofFixtures\<close> and \<open>Protogen\<close> (one theory per program, definitions in the order of its
    \<^verbatim>\<open>main.go\<close>). A program's meaning is what it has printed together with its panic, or, for
    \<^verbatim>\<open>protogen\<close>, the files after the run. \<open>TestClientAgree\<close>, \<open>IavlSound\<close>, \<open>IavlTree\<close>, \<open>ProtogenText\<close> and
    \<open>ProtogenSound\<close> hold what is proved of them.

  \<^bold>\<open>Interfaces.\<close> A locale states each contract and is interpreted on the model: the codecs' round trips
  and canonical forms (\<open>Rlp\<close>, \<open>EvmStorage\<close>), Merkle proofs under a root (\<open>Mpt\<close>), invariants of transactions and
  relations between the states before and after them (\<open>CoreMachine\<close>, \<open>CoreLifecycle\<close>, \<open>CoreMirror\<close>), invariants of
  the access realm over time (\<open>AccessSafe\<close>), sorting by a
  strict order of keys (\<open>GoLib\<close>), relations kept by every way of composing computations and interaction trees
  (\<open>ZkgmRules\<close>, interpreted for solvency, isolation and idleness), and relations that all applications keep and so
  every host step keeps (\<open>CoreWorld\<close>).

  \<^bold>\<open>What is shown.\<close>
  \<^item> The life of a packet, for every reachable order of transactions and with applications that call
    back: it is settled once, received once, accepted and timed out only with a verified proof, and a
    written commitment stays. No entry point dereferences nil or divides by zero.
  \<^item> The chain parameters, which counterparties read, are the commitments to what the host has stored, in every
    reachable state; a query answers with the bytes they commit to.
  \<^item> A gate lets through who was granted the role, after its delay; lowering a delay brings no membership forward; an
    active admin always remains; a closed core is frozen; an implementation is one registered under the core's path.
  \<^item> Commitments bind what they commit to and paths of different entries differ, up to a collision of
    the hash, which is always an explicit hypothesis on the two strings concerned.
  \<^item> The ZKGM realm is solvent in every state that it and the host reach: of every token and coin it holds at least what is
    escrowed under all channels and locked. A channel's packets never touch what is escrowed under another channel;
    an order that is refused, and so refunded at its origin, has moved nothing; a forward sends its child or
    leaves everything as it was, and the outcome of the child becomes that of the parent.
  \<^item> Decoders return on every input, accept canonical encodings only, and undo their encoders.
  \<^item> A root determines the value of a key: a verified value excludes another one and an absence.
  \<^item> The four-limb arithmetic refines numbers modulo \<open>2 ^ 256\<close>; on it, amounts are scaled without loss, a rate
    limit bounds every run of charges, and channel paths reverse as lists.
  \<^item> The fixture generator refines a balanced binary tree; its proofs are sound, and it fails exactly
    on the inputs named. The Ethereum tool prints a chain of nodes from the root to its end.
  \<^item> The test-client tool computes the realm's keys and messages, with two exceptions that are stated
    as theorems. The code generator is idempotent, parses what it prints, and keeps the files of exported
    types apart.

  \<^bold>\<open>Bounds.\<close> Sizes are below \<^verbatim>\<open>2^63\<close>, the range of \<^verbatim>\<open>int\<close>, where a conversion to it occurs; the codecs' nesting
  limits are those of the code. Recursion is structural or has a measure; no definition runs on fuel.

  \<^bold>\<open>Parameters.\<close> Hash functions, light clients and applications, the B+ tree and the sequences of the Gno
  standard library, go-ethereum's trie, database and RLP, the Go parser, printer and formatter, and the table
  of printable runes. What the host needs of them is named where it is assumed (\<open>env_ok\<close> in \<open>CoreRules\<close>).
  The ZKGM model has the token library, its registry and the bank as parameters: \<open>world_ok\<close> says that an operation that
  succeeds moves the amount it is given between the two accounts named, and one that fails moves nothing, and that the
  coins users attach are no registered tokens; \<open>receivers_calm\<close> and \<open>others_calm\<close>, that the code of others does not take
  tokens out of the proxy's account; \<open>unpanicking\<close>, needed for refused orders only, that the token library and the bank
  do not panic in a way the application can recover from. \<open>ZkgmSample\<close> satisfies them.

  \<^bold>\<open>Not modelled.\<close> Of the ZKGM application its events, its lists of vouchers and the installation of its implementation;
  receivers that call the host, or come back through the host into the application; nil paths and amounts, which no decoder
  returns. Of \<^verbatim>\<open>math/uint256\<close> what nothing here calls (modular products with the Barrett reduction, the signed shift); the verification of CometBLS headers and ICS-23 proofs (pairing and proof
  checks outside the repository), and test code.
\<close>

end
